(* ===== verification/Common.thy ===== *)
theory Common
  imports Main "HOL-Library.AList" "HOL-Library.Product_Lexorder"
begin

text \<open>
  Prelude of the development: the public error codes of \<open>errors.py\<close>, results, the state
  and exception monad in which stateful methods are written, Python dictionaries, and the
  contracts (locales) that several components share.

  A Python method that may raise is a function into \<open>'a result\<close> (a sum, \<open>Inl\<close> for the
  exception). A method of an object is a function from the object's state to a result and the
  object's state afterwards; the state is returned on the error branch too, because a raise in
  Python leaves behind whatever the method had already mutated.
\<close>

section \<open>Errors and results\<close>

datatype error_code =
    ERR_INPUT_PATH | ERR_UNSUPPORTED_COMPRESSION | ERR_FRAMING | ERR_TRUNCATED_MESSAGE
  | ERR_EMPTY_INPUT | ERR_MESSAGE_LENGTH | ERR_UNKNOWN_MESSAGE | ERR_TIMESTAMP
  | ERR_UNKNOWN_SYMBOL | ERR_TRADING_DATE | ERR_ORDER_REFERENCE | ERR_QUANTITY | ERR_PRICE
  | ERR_BOOK_CROSSED | ERR_INVARIANT | ERR_OUTPUT_PATH | ERR_DISK_WRITE | ERR_HASH_MISMATCH
  | ERR_SCHEMA_VERSION | ERR_PARTIAL_ARTEFACT | ERR_CONFIG_SCHEMA | ERR_SESSION_WINDOW
  | ERR_TIMEZONE | ERR_DEPTH | ERR_HORIZON | ERR_PARTITION | ERR_ROW_STRIDE | ERR_SEED
  | ERR_EMPTY_DATASET | ERR_LEAKAGE_GUARD | ERR_MODEL_TRAINING | ERR_PREDICTION_KEY
  | ERR_LATENCY | ERR_COST | ERR_QUEUE_STATE | ERR_INVENTORY_LIMIT | ERR_SIMULATION_ANOMALY
  | ERR_BROKEN_SIM_FILL | ERR_RUN_EXISTS | ERR_CANCELLED | ERR_INTERNAL

text \<open>
  The domain exceptions carry a code, a human-readable message (not modelled) and, for
  \<open>SimulationError\<close>, the order and market message they concern. \<open>KeyError\<close> is the
  exception Python itself raises when a missing key is read or deleted, \<open>OverflowError\<close> the one it
  raises for the integer of an infinite float, \<open>TypeError\<close> the one for values that cannot be
  compared, \<open>ValueError\<close> the one for removing an element that a list lacks.
\<close>

datatype sim_error =
    SimulationError error_code "int option" "int option"
  | KeyError
  | OverflowError
  | TypeError
  | ValueError

type_synonym 'a result = "sim_error + 'a"

definition fail_code :: "error_code \<Rightarrow> 'a result" where
  "fail_code c = Inl (SimulationError c None None)"

definition fail_order :: "error_code \<Rightarrow> int \<Rightarrow> 'a result" where
  "fail_order c i = Inl (SimulationError c (Some i) None)"

definition fail_message :: "error_code \<Rightarrow> int \<Rightarrow> 'a result" where
  "fail_message c m = Inl (SimulationError c None (Some m))"

definition fail_both :: "error_code \<Rightarrow> int \<Rightarrow> int \<Rightarrow> 'a result" where
  "fail_both c i m = Inl (SimulationError c (Some i) (Some m))"

lemmas fail_defs = fail_code_def fail_order_def fail_message_def fail_both_def

lemma fail_neq_Inr [simp]:
  "fail_code c \<noteq> Inr x" "fail_order c i \<noteq> Inr x" "fail_message c m \<noteq> Inr x"
  "fail_both c i m \<noteq> Inr x"
  "Inr x \<noteq> fail_code c" "Inr x \<noteq> fail_order c i" "Inr x \<noteq> fail_message c m"
  "Inr x \<noteq> fail_both c i m"
  by (simp_all add: fail_defs)

text \<open>Integer constants and the range test that every module repeats.\<close>

definition MAX_UINT16 :: int where "MAX_UINT16 = 65535"
definition MAX_UINT32 :: int where "MAX_UINT32 = 4294967295"
definition MAX_UINT64 :: int where "MAX_UINT64 = 18446744073709551615"
definition MAX_TIMESTAMP_NS :: int where "MAX_TIMESTAMP_NS = 86399999999999"
definition MAX_LATENCY_NS :: int where "MAX_LATENCY_NS = 10000000000"

lemmas bound_defs = MAX_UINT16_def MAX_UINT32_def MAX_UINT64_def MAX_TIMESTAMP_NS_def
  MAX_LATENCY_NS_def

definition valid_int :: "int \<Rightarrow> int \<Rightarrow> int \<Rightarrow> bool" where
  "valid_int v minimum maximum \<longleftrightarrow> minimum \<le> v \<and> v \<le> maximum"

section \<open>Fallible expressions\<close>

text \<open>
  The code of a function that mutates nothing is a chain of results; \<open>require\<close> is a guarded
  \<open>raise\<close> and \<open>foldR\<close> a loop that updates local variables.
\<close>

definition bindR :: "'e + 'a \<Rightarrow> ('a \<Rightarrow> 'e + 'b) \<Rightarrow> 'e + 'b" where
  "bindR r f = (case r of Inl e \<Rightarrow> Inl e | Inr x \<Rightarrow> f x)"

definition require :: "bool \<Rightarrow> 'e + unit \<Rightarrow> 'e + unit" where
  "require ok error = (if ok then Inr () else error)"

fun foldR :: "('b \<Rightarrow> 'a \<Rightarrow> 'e + 'b) \<Rightarrow> 'b \<Rightarrow> 'a list \<Rightarrow> 'e + 'b" where
  "foldR f acc [] = Inr acc"
| "foldR f acc (x # xs) = bindR (f acc x) (\<lambda>acc'. foldR f acc' xs)"

lemma bindR_Inr [simp]: "bindR (Inr x) f = f x"
  by (simp add: bindR_def)

lemma bindR_Inl [simp]: "bindR (Inl e) f = Inl e"
  by (simp add: bindR_def)

lemma bindR_eq_Inr: "bindR r f = Inr y \<longleftrightarrow> (\<exists>x. r = Inr x \<and> f x = Inr y)"
  by (auto simp: bindR_def split: sum.splits)

lemma bindR_eq_Inl: "bindR r f = Inl e \<longleftrightarrow> r = Inl e \<or> (\<exists>x. r = Inr x \<and> f x = Inl e)"
  by (auto simp: bindR_def split: sum.splits)

lemma require_eq_Inr:
  "require ok error = Inr u \<longleftrightarrow> ok \<or> (\<exists>v. error = Inr v)"
  by (auto simp: require_def)

lemma require_eq_Inl: "require ok error = Inl e \<longleftrightarrow> \<not> ok \<and> error = Inl e"
  by (auto simp: require_def)

lemma foldR_inv:
  assumes "foldR f acc xs = Inr r" "I acc"
    and "\<And>a x b. x \<in> set xs \<Longrightarrow> I a \<Longrightarrow> f a x = Inr b \<Longrightarrow> I b"
  shows "I r"
  using assms by (induction xs arbitrary: acc) (auto simp: bindR_eq_Inr)

text \<open>The errors of a chain of results are errors of its links.\<close>

lemma foldR_Inl:
  assumes "foldR f acc xs = Inl e" "I acc"
    and "\<And>a x b. x \<in> set xs \<Longrightarrow> I a \<Longrightarrow> f a x = Inr b \<Longrightarrow> I b"
  shows "\<exists>a x. x \<in> set xs \<and> I a \<and> f a x = Inl e"
  using assms
proof (induction xs arbitrary: acc)
  case Nil
  then show ?case by simp
next
  case (Cons x xs)
  show ?case
  proof (cases "f acc x")
    case (Inl e')
    with Cons.prems show ?thesis by auto
  next
    case (Inr b)
    then have "\<exists>a y. y \<in> set xs \<and> I a \<and> f a y = Inl e"
      using Cons.prems by (intro Cons.IH [of b]) (auto intro: Cons.prems(3) [of x acc b])
    then show ?thesis by auto
  qed
qed

text \<open>A loop invariant over the prefix the loop has processed.\<close>

lemma foldR_prefix:
  assumes "foldR f acc xs = Inr r" "I [] acc"
    and "\<And>ys x zs a b. xs = ys @ x # zs \<Longrightarrow> I ys a \<Longrightarrow> f a x = Inr b \<Longrightarrow> I (ys @ [x]) b"
  shows "I xs r"
proof -
  have "foldR f acc zs = Inr r \<Longrightarrow> xs = ys @ zs \<Longrightarrow> I ys acc \<Longrightarrow> I xs r" for ys zs acc
  proof (induction zs arbitrary: ys acc)
    case Nil
    then show ?case by simp
  next
    case (Cons z zs)
    then obtain b where b: "f acc z = Inr b" "foldR f b zs = Inr r" by (auto simp: bindR_eq_Inr)
    from Cons.prems b assms(3) have "I (ys @ [z]) b" by blast
    with Cons.IH [of b "ys @ [z]"] b Cons.prems show ?case by simp
  qed
  then show ?thesis using assms(1,2) by (metis append_Nil)
qed

lemma foldR_prefix_Inl:
  assumes "foldR f acc xs = Inl e" "I [] acc"
    and "\<And>ys x zs a b. xs = ys @ x # zs \<Longrightarrow> I ys a \<Longrightarrow> f a x = Inr b \<Longrightarrow> I (ys @ [x]) b"
  shows "\<exists>ys x zs a. xs = ys @ x # zs \<and> I ys a \<and> f a x = Inl e"
proof -
  have "foldR f acc zs = Inl e \<Longrightarrow> xs = ys @ zs \<Longrightarrow> I ys acc \<Longrightarrow> ?thesis" for ys zs acc
  proof (induction zs arbitrary: ys acc)
    case Nil
    then show ?case by simp
  next
    case (Cons z zs)
    show ?case
    proof (cases "f acc z")
      case (Inl e')
      with Cons.prems have "f acc z = Inl e" by simp
      with Cons.prems show ?thesis by blast
    next
      case (Inr b)
      with Cons.prems assms(3) have "I (ys @ [z]) b" by blast
      with Cons.IH [of b "ys @ [z]"] Inr Cons.prems show ?thesis by simp
    qed
  qed
  then show ?thesis using assms(1,2) by (metis append_Nil)
qed

section \<open>The state and exception monad\<close>

type_synonym ('s, 'a) smethod = "'s \<Rightarrow> 'a result \<times> 's"

definition bindM :: "('s, 'a) smethod \<Rightarrow> ('a \<Rightarrow> ('s, 'b) smethod) \<Rightarrow> ('s, 'b) smethod" where
  "bindM m f s = (case m s of (Inl e, s') \<Rightarrow> (Inl e, s') | (Inr x, s') \<Rightarrow> f x s')"

definition returnM :: "'a \<Rightarrow> ('s, 'a) smethod" where
  "returnM x s = (Inr x, s)"

definition liftM :: "'a result \<Rightarrow> ('s, 'a) smethod" where
  "liftM r s = (r, s)"

definition modifyM :: "('s \<Rightarrow> 's) \<Rightarrow> ('s, unit) smethod" where
  "modifyM f s = (Inr (), f s)"

lemma bindM_Inr:
  "bindM m f s = (Inr y, s'') \<longleftrightarrow> (\<exists>x s'. m s = (Inr x, s') \<and> f x s' = (Inr y, s''))"
  by (auto simp: bindM_def split: prod.splits sum.splits)

lemma bindM_Inl:
  "bindM m f s = (Inl e, s'') \<longleftrightarrow>
     m s = (Inl e, s'') \<or> (\<exists>x s'. m s = (Inr x, s') \<and> f x s' = (Inl e, s''))"
  by (auto simp: bindM_def split: prod.splits sum.splits)

lemma bindM_return [simp]: "bindM (returnM x) f = f x"
  by (auto simp: bindM_def returnM_def)

lemma returnM_simp [simp]: "returnM x s = (Inr x, s)"
  by (simp add: returnM_def)

lemma liftM_simp [simp]: "liftM r s = (r, s)"
  by (simp add: liftM_def)

lemma modifyM_simp [simp]: "modifyM f s = (Inr (), f s)"
  by (simp add: modifyM_def)

text \<open>A call that returned, for evaluating runs on concrete inputs.\<close>

definition succeeded :: "'a result \<times> 's \<Rightarrow> bool" where
  "succeeded r = (case fst r of Inl _ \<Rightarrow> False | Inr _ \<Rightarrow> True)"

lemma succeededD: "succeeded r \<Longrightarrow> r = (Inr (projr (fst r)), snd r)"
  by (cases r; cases "fst r") (auto simp: succeeded_def)

lemma succeeded_ex:
  assumes "succeeded r" "P (projr (fst r)) (snd r)"
  shows "\<exists>x s. r = (Inr x, s) \<and> P x s"
  using assms succeededD by blast

text \<open>\<open>for x in xs: f(x)\<close>, collecting the results; the first exception ends the loop.\<close>

fun forM :: "('a \<Rightarrow> ('s, 'b) smethod) \<Rightarrow> 'a list \<Rightarrow> ('s, 'b list) smethod" where
  "forM f [] s = (Inr [], s)"
| "forM f (x # xs) s =
     (case f x s of
        (Inl e, s') \<Rightarrow> (Inl e, s')
      | (Inr y, s') \<Rightarrow>
          (case forM f xs s' of
             (Inl e, s'') \<Rightarrow> (Inl e, s'')
           | (Inr ys, s'') \<Rightarrow> (Inr (y # ys), s'')))"

lemma forM_Cons_Inr:
  "forM f (x # xs) s = (Inr zs, s'') \<longleftrightarrow>
     (\<exists>y ys s'. f x s = (Inr y, s') \<and> forM f xs s' = (Inr ys, s'') \<and> zs = y # ys)"
  by (auto split: prod.splits sum.splits)

lemma forM_inv:
  assumes "forM f xs s = (Inr ys, s')" "I s"
    and "\<And>x t y t'. x \<in> set xs \<Longrightarrow> I t \<Longrightarrow> f x t = (Inr y, t') \<Longrightarrow> I t'"
  shows "I s'"
  using assms
proof (induction xs arbitrary: s ys)
  case Nil
  then show ?case by simp
next
  case (Cons x xs)
  from Cons.prems(1) obtain y ys' t where "f x s = (Inr y, t)" "forM f xs t = (Inr ys', s')"
    by (auto simp only: forM_Cons_Inr)
  with Cons show ?case by (metis list.set_intros)
qed

lemma forM_length: "forM f xs s = (Inr ys, s') \<Longrightarrow> length ys = length xs"
  by (induction xs arbitrary: s ys s') (auto split: prod.splits sum.splits)

section \<open>Python dictionaries\<close>

text \<open>
  A Python dictionary remembers insertion order, and the code iterates over dictionaries, so a
  dictionary is an association list with distinct keys: assignment replaces the value in place
  or appends the pair, as \<open>AList.update\<close> does, and deletion keeps the order of the rest.
\<close>

type_synonym ('k, 'v) dict = "('k \<times> 'v) list"

definition dict_get :: "('k, 'v) dict \<Rightarrow> 'k \<Rightarrow> 'v option" where
  "dict_get d k = map_of d k"

definition dict_set :: "'k \<Rightarrow> 'v \<Rightarrow> ('k, 'v) dict \<Rightarrow> ('k, 'v) dict" where
  "dict_set k v d = AList.update k v d"

definition dict_del :: "'k \<Rightarrow> ('k, 'v) dict \<Rightarrow> ('k, 'v) dict" where
  "dict_del k d = AList.delete k d"

definition dict_keys :: "('k, 'v) dict \<Rightarrow> 'k list" where
  "dict_keys d = map fst d"

definition dict_values :: "('k, 'v) dict \<Rightarrow> 'v list" where
  "dict_values d = map snd d"

definition dict_ok :: "('k, 'v) dict \<Rightarrow> bool" where
  "dict_ok d \<longleftrightarrow> distinct (map fst d)"

definition dict_get_default :: "('k, 'v) dict \<Rightarrow> 'k \<Rightarrow> 'v \<Rightarrow> 'v" where
  "dict_get_default d k v = (case dict_get d k of None \<Rightarrow> v | Some w \<Rightarrow> w)"

definition has_key :: "('k, 'v) dict \<Rightarrow> 'k \<Rightarrow> bool" where
  "has_key d k \<longleftrightarrow> dict_get d k \<noteq> None"

lemma dict_get_Nil [simp]: "dict_get [] k = None"
  by (simp add: dict_get_def)

lemma dict_get_set [simp]: "dict_get (dict_set k v d) j = (if j = k then Some v else dict_get d j)"
  by (simp add: dict_get_def dict_set_def update_conv')

lemma dict_get_del [simp]: "dict_get (dict_del k d) j = (if j = k then None else dict_get d j)"
  by (simp add: dict_get_def dict_del_def delete_conv')

lemma dict_ok_Nil [simp]: "dict_ok []"
  by (simp add: dict_ok_def)

lemma dict_ok_set [simp]: "dict_ok d \<Longrightarrow> dict_ok (dict_set k v d)"
  by (simp add: dict_ok_def dict_set_def distinct_update)

lemma dict_ok_del [simp]: "dict_ok d \<Longrightarrow> dict_ok (dict_del k d)"
  by (simp add: dict_ok_def dict_del_def distinct_delete)

lemma dict_mem_iff: "dict_ok d \<Longrightarrow> (k, v) \<in> set d \<longleftrightarrow> dict_get d k = Some v"
  by (simp add: dict_ok_def dict_get_def)

lemma dict_get_mem: "dict_get d k = Some v \<Longrightarrow> (k, v) \<in> set d"
  by (simp add: dict_get_def map_of_SomeD)

lemma dict_keys_iff: "k \<in> set (dict_keys d) \<longleftrightarrow> has_key d k"
  by (simp add: dict_keys_def has_key_def dict_get_def map_of_eq_None_iff)

lemma has_key_iff: "has_key d k \<longleftrightarrow> (\<exists>v. dict_get d k = Some v)"
  by (auto simp: has_key_def)

lemma dict_values_iff: "dict_ok d \<Longrightarrow> v \<in> set (dict_values d) \<longleftrightarrow> (\<exists>k. dict_get d k = Some v)"
  by (auto simp: dict_values_def image_iff dict_mem_iff [symmetric] Bex_def)

lemma dict_del_absent: "dict_get d k = None \<Longrightarrow> dict_del k d = d"
  by (simp add: dict_get_def dict_del_def delete_id map_of_eq_None_iff)

lemma dict_set_absent: "dict_get d k = None \<Longrightarrow> dict_set k v d = d @ [(k, v)]"
  unfolding dict_get_def dict_set_def
  by (induction d) (auto split: if_splits)

lemma dict_eq_Nil_iff: "d = [] \<longleftrightarrow> (\<forall>k. dict_get d k = None)"
proof
  assume "\<forall>k. dict_get d k = None"
  then show "d = []" by (cases d) (auto simp: dict_get_def split: if_splits)
qed simp

lemma dict_del_empty_iff: "dict_ok d \<Longrightarrow> dict_get d k \<noteq> None \<Longrightarrow>
    dict_del k d = [] \<longleftrightarrow> (\<forall>j. j \<noteq> k \<longrightarrow> dict_get d j = None)"
  by (simp add: dict_eq_Nil_iff) 

text \<open>Sums over a dictionary's values, which the accounting ledger reconciles.\<close>

definition dict_sum :: "('k \<Rightarrow> 'v \<Rightarrow> int) \<Rightarrow> ('k, 'v) dict \<Rightarrow> int" where
  "dict_sum f d = sum_list (map (\<lambda>(k, v). f k v) d)"

lemma dict_sum_Nil [simp]: "dict_sum f [] = 0"
  by (simp add: dict_sum_def)

lemma dict_sum_set:
  "dict_ok d \<Longrightarrow> dict_sum f (dict_set k v d) =
     dict_sum f d - (case dict_get d k of None \<Rightarrow> 0 | Some w \<Rightarrow> f k w) + f k v"
proof (induction d)
  case Nil
  then show ?case by (simp add: dict_sum_def dict_set_def)
next
  case (Cons p d)
  obtain j w where p: "p = (j, w)" by (cases p)
  from Cons.prems have "dict_ok d" by (simp add: dict_ok_def)
  with Cons.IH p show ?case
    by (auto simp: dict_sum_def dict_set_def dict_get_def split: option.splits)
qed

lemma dict_sum_cong:
  assumes "dict_ok d" "\<And>k v. dict_get d k = Some v \<Longrightarrow> f k v = g k v"
  shows "dict_sum f d = dict_sum g d"
  unfolding dict_sum_def
  by (rule arg_cong [where f = sum_list]) (auto simp: assms dict_mem_iff)

lemma dict_sum_nonneg:
  assumes "\<And>k v. (k, v) \<in> set d \<Longrightarrow> 0 \<le> f k v"
  shows "0 \<le> dict_sum f d"
  unfolding dict_sum_def by (rule sum_list_nonneg) (auto simp: assms)

section \<open>Contracts that components share\<close>

text \<open>
  A component that reacts to commands: \<open>run_steps\<close> feeds it a list of commands and stops at
  the first exception, as a caller that does not catch it does. The contract of
  \<open>invariant_machine\<close> is that a command that returns keeps the invariant, that of
  \<open>atomic_machine\<close> is, moreover, that a command that raises changes nothing.
\<close>

fun run_steps :: "('s \<Rightarrow> 'c \<Rightarrow> 'r result \<times> 's) \<Rightarrow> 's \<Rightarrow> 'c list \<Rightarrow> 'r list result \<times> 's" where
  "run_steps step s [] = (Inr [], s)"
| "run_steps step s (c # cs) =
     (case step s c of
        (Inl e, s') \<Rightarrow> (Inl e, s')
      | (Inr r, s') \<Rightarrow>
          (case run_steps step s' cs of
             (Inl e, s'') \<Rightarrow> (Inl e, s'')
           | (Inr rs, s'') \<Rightarrow> (Inr (r # rs), s'')))"

lemma run_steps_Cons_Inr:
  "run_steps step s (c # cs) = (Inr zs, s'') \<longleftrightarrow>
     (\<exists>r rs s'. step s c = (Inr r, s') \<and> run_steps step s' cs = (Inr rs, s'') \<and> zs = r # rs)"
  by (auto split: prod.splits sum.splits)

locale invariant_machine =
  fixes step :: "'s \<Rightarrow> 'c \<Rightarrow> 'r result \<times> 's"
    and inv :: "'s \<Rightarrow> bool"
  assumes step_inv: "inv s \<Longrightarrow> step s c = (Inr r, s') \<Longrightarrow> inv s'"
begin

lemma run_inv: "inv s \<Longrightarrow> run_steps step s cs = (Inr rs, s') \<Longrightarrow> inv s'"
proof (induction cs arbitrary: s rs)
  case Nil
  then show ?case by simp
next
  case (Cons c cs)
  then show ?case by (auto simp only: run_steps_Cons_Inr intro: step_inv)
qed

end

text \<open>The contract in between: a command that raises may change the state, but not its invariant.\<close>

locale resilient_machine =
  fixes step :: "'s \<Rightarrow> 'c \<Rightarrow> 'r result \<times> 's"
    and inv :: "'s \<Rightarrow> bool"
  assumes step_always: "inv s \<Longrightarrow> inv (snd (step s c))"
begin

lemma run_always: "inv s \<Longrightarrow> inv (snd (run_steps step s cs))"
proof (induction cs arbitrary: s)
  case Nil
  then show ?case by simp
next
  case (Cons c cs)
  obtain r t where st: "step s c = (r, t)" by (cases "step s c")
  with step_always [OF Cons.prems, of c] have "inv t" by simp
  with Cons.IH [of t] st show ?case
    by (cases r; cases "run_steps step t cs"; cases "fst (run_steps step t cs)") auto
qed

end

sublocale resilient_machine \<subseteq> invariant_machine step inv
proof
  show "inv s'" if "inv s" "step s c = (Inr r, s')" for s c r s'
    using step_always [OF that(1), of c] that(2) by simp
qed

locale atomic_machine = invariant_machine +
  assumes step_atomic: "inv s \<Longrightarrow> step s c = (Inl e, s') \<Longrightarrow> s' = s"
begin

lemma run_inv_always: "inv s \<Longrightarrow> run_steps step s cs = (r, s') \<Longrightarrow> inv s'"
proof (induction cs arbitrary: s r)
  case Nil
  then show ?case by simp
next
  case (Cons c cs)
  show ?case
  proof (cases "step s c")
    case (Pair a t)
    with Cons show ?thesis
      by (cases a; cases "run_steps step t cs"; cases "fst (run_steps step t cs)")
        (auto dest: step_inv step_atomic)
  qed
qed

text \<open>A run that fails leaves the state its longest successful prefix reached.\<close>

lemma run_error_prefix:
  assumes "inv s" "run_steps step s cs = (Inl e, s')"
  shows "\<exists>n rs. n < length cs \<and> run_steps step s (take n cs) = (Inr rs, s')
    \<and> fst (step s' (cs ! n)) = Inl e"
  using assms
proof (induction cs arbitrary: s)
  case Nil
  then show ?case by simp
next
  case (Cons c cs)
  obtain a t where st: "step s c = (a, t)" by (cases "step s c")
  show ?case
  proof (cases a)
    case (Inl e')
    with Cons.prems st have "e' = e" "s' = t" by auto
    moreover have "t = s" using step_atomic Cons.prems(1) st Inl by blast
    ultimately show ?thesis using st Inl by (intro exI [of _ 0]) auto
  next
    case (Inr r)
    with Cons.prems st have "run_steps step t cs = (Inl e, s')"
      by (auto split: prod.splits sum.splits)
    moreover have "inv t" using step_inv Cons.prems(1) st Inr by blast
    ultimately obtain n rs where "n < length cs" "run_steps step t (take n cs) = (Inr rs, s')"
      "fst (step s' (cs ! n)) = Inl e" using Cons.IH by blast
    with st Inr show ?thesis by (intro exI [of _ "Suc n"]) auto
  qed
qed

end

end
