(* ===== verification/Orders.thy ===== *)
theory Orders
  imports Common
begin

text \<open>
  \<open>simulation/order.py\<close>: the lifecycle states, the request and order values and the two
  validators. A validator raises the first failing check, in the order of the source. The
  \<open>isinstance\<close> tests of the source hold by typing here; values of the wrong Python type
  are modelled where they enter the simulator, in \<open>Market_Events\<close>.
\<close>

section \<open>Values\<close>

datatype order_state =
  PENDING_SUBMIT | ACTIVE | PARTIALLY_FILLED | PENDING_CANCEL | FILLED | CANCELLED | EXPIRED
  | REJECTED | INVALIDATED

datatype rejection_reason = MARKETABLE_AT_ACTIVATION | COUNTERFACTUAL_CROSS

fun TERMINAL_STATES :: "order_state \<Rightarrow> bool" where
  "TERMINAL_STATES FILLED = True"
| "TERMINAL_STATES CANCELLED = True"
| "TERMINAL_STATES EXPIRED = True"
| "TERMINAL_STATES REJECTED = True"
| "TERMINAL_STATES INVALIDATED = True"
| "TERMINAL_STATES _ = False"

text \<open>\<open>_EXPOSED_STATES\<close> of the queue model: the states in which an order can fill.\<close>

fun EXPOSED_STATES :: "order_state \<Rightarrow> bool" where
  "EXPOSED_STATES ACTIVE = True"
| "EXPOSED_STATES PARTIALLY_FILLED = True"
| "EXPOSED_STATES PENDING_CANCEL = True"
| "EXPOSED_STATES _ = False"

lemma exposed_iff: "EXPOSED_STATES s \<longleftrightarrow> s = ACTIVE \<or> s = PARTIALLY_FILLED \<or> s = PENDING_CANCEL"
  by (cases s) simp_all

lemma terminal_iff: "TERMINAL_STATES s \<longleftrightarrow> \<not> EXPOSED_STATES s \<and> s \<noteq> PENDING_SUBMIT"
  by (cases s) simp_all

record order_request =
  rq_simulated_order_id :: int
  rq_decision_message_index :: int
  rq_prediction_message_index :: "int option"
  rq_requested_timestamp_ns :: int
  rq_symbol_id :: int
  rq_side :: int
  rq_price4 :: int
  rq_quantity :: int

record simulated_order =
  so_simulated_order_id :: int
  so_decision_message_index :: int
  so_prediction_message_index :: "int option"
  so_requested_timestamp_ns :: int
  so_effective_timestamp_ns :: int
  so_symbol_id :: int
  so_side :: int
  so_price4 :: int
  so_original_quantity :: int
  so_remaining_quantity :: int
  so_queue_ahead_initial :: "int option"
  so_state :: order_state
  so_cancel_requested_ns :: "int option"
  so_terminal_timestamp_ns :: "int option"
  so_rejection_reason :: "rejection_reason option"

definition so_terminal :: "simulated_order \<Rightarrow> bool" where
  "so_terminal order = TERMINAL_STATES (so_state order)"

section \<open>Validation\<close>

definition valid_side :: "int \<Rightarrow> bool" where
  "valid_side s \<longleftrightarrow> s = -1 \<or> s = 1"

definition validate_order_request :: "order_request \<Rightarrow> unit result" where
  "validate_order_request request = (
     let order_id = rq_simulated_order_id request in
     if \<not> valid_int order_id 0 MAX_UINT64 then fail_code ERR_SIMULATION_ANOMALY
     else if \<not> valid_int (rq_decision_message_index request) 0 MAX_UINT64
       then fail_order ERR_SIMULATION_ANOMALY order_id
     else if (case rq_prediction_message_index request of
                None \<Rightarrow> False
              | Some p \<Rightarrow> \<not> valid_int p 0 MAX_UINT64 \<or> p > rq_decision_message_index request)
       then fail_order ERR_PREDICTION_KEY order_id
     else if \<not> valid_int (rq_requested_timestamp_ns request) 0 MAX_TIMESTAMP_NS
       then fail_both ERR_TIMESTAMP order_id (rq_decision_message_index request)
     else if \<not> valid_int (rq_symbol_id request) 1 MAX_UINT16
       then fail_order ERR_UNKNOWN_SYMBOL order_id
     else if \<not> valid_side (rq_side request) then fail_order ERR_SIMULATION_ANOMALY order_id
     else if \<not> valid_int (rq_price4 request) 0 MAX_UINT32 then fail_order ERR_PRICE order_id
     else if \<not> valid_int (rq_quantity request) 1 MAX_UINT64 then fail_order ERR_QUANTITY order_id
     else Inr ())"

text \<open>The request that \<open>validate_simulated_order\<close> rebuilds from an order.\<close>

definition request_of :: "simulated_order \<Rightarrow> order_request" where
  "request_of order =
     \<lparr>rq_simulated_order_id = so_simulated_order_id order,
      rq_decision_message_index = so_decision_message_index order,
      rq_prediction_message_index = so_prediction_message_index order,
      rq_requested_timestamp_ns = so_requested_timestamp_ns order,
      rq_symbol_id = so_symbol_id order,
      rq_side = so_side order,
      rq_price4 = so_price4 order,
      rq_quantity = so_original_quantity order\<rparr>"

fun expected_rejection_reason :: "order_state \<Rightarrow> rejection_reason option" where
  "expected_rejection_reason REJECTED = Some MARKETABLE_AT_ACTIVATION"
| "expected_rejection_reason INVALIDATED = Some COUNTERFACTUAL_CROSS"
| "expected_rejection_reason _ = None"

definition opt_outside :: "int option \<Rightarrow> int \<Rightarrow> int \<Rightarrow> bool" where
  "opt_outside v lo hi = (case v of None \<Rightarrow> False | Some x \<Rightarrow> \<not> valid_int x lo hi)"

definition validate_simulated_order :: "simulated_order \<Rightarrow> unit result" where
  "validate_simulated_order order = (
     case validate_order_request (request_of order) of
       Inl e \<Rightarrow> Inl e
     | Inr _ \<Rightarrow> (
       let order_id = so_simulated_order_id order in
       if \<not> valid_int (so_effective_timestamp_ns order) (so_requested_timestamp_ns order)
              MAX_TIMESTAMP_NS
          \<or> \<not> valid_int (so_remaining_quantity order) 0 (so_original_quantity order)
         then fail_order ERR_SIMULATION_ANOMALY order_id
       else if opt_outside (so_queue_ahead_initial order) 0 MAX_UINT64
         then fail_order ERR_QUEUE_STATE order_id
       else if opt_outside (so_cancel_requested_ns order) (so_requested_timestamp_ns order)
              MAX_TIMESTAMP_NS
         then fail_order ERR_TIMESTAMP order_id
       else if opt_outside (so_terminal_timestamp_ns order) (so_requested_timestamp_ns order)
              MAX_TIMESTAMP_NS
         then fail_order ERR_TIMESTAMP order_id
       else if TERMINAL_STATES (so_state order) \<and> so_terminal_timestamp_ns order = None
         then fail_order ERR_SIMULATION_ANOMALY order_id
       else if \<not> TERMINAL_STATES (so_state order) \<and> so_terminal_timestamp_ns order \<noteq> None
         then fail_order ERR_SIMULATION_ANOMALY order_id
       else if so_state order = FILLED \<and> so_remaining_quantity order \<noteq> 0
         then fail_order ERR_QUANTITY order_id
       else if so_state order \<noteq> FILLED \<and> so_remaining_quantity order = 0
         then fail_order ERR_QUANTITY order_id
       else if so_state order = PARTIALLY_FILLED
              \<and> \<not> (0 < so_remaining_quantity order
                   \<and> so_remaining_quantity order < so_original_quantity order)
         then fail_order ERR_QUANTITY order_id
       else if so_state order = PENDING_CANCEL \<and> so_cancel_requested_ns order = None
         then fail_order ERR_SIMULATION_ANOMALY order_id
       else if (so_state order = ACTIVE \<or> so_state order = PARTIALLY_FILLED)
              \<and> so_cancel_requested_ns order \<noteq> None
         then fail_order ERR_SIMULATION_ANOMALY order_id
       else if so_rejection_reason order \<noteq> expected_rejection_reason (so_state order)
         then fail_order ERR_SIMULATION_ANOMALY order_id
       else Inr ()))"

section \<open>What the validators accept\<close>

text \<open>Well-formedness, stated without the order of the checks.\<close>

definition request_wf :: "order_request \<Rightarrow> bool" where
  "request_wf r \<longleftrightarrow>
     0 \<le> rq_simulated_order_id r \<and> rq_simulated_order_id r \<le> MAX_UINT64
   \<and> 0 \<le> rq_decision_message_index r \<and> rq_decision_message_index r \<le> MAX_UINT64
   \<and> (\<forall>p. rq_prediction_message_index r = Some p \<longrightarrow>
        0 \<le> p \<and> p \<le> MAX_UINT64 \<and> p \<le> rq_decision_message_index r)
   \<and> 0 \<le> rq_requested_timestamp_ns r \<and> rq_requested_timestamp_ns r \<le> MAX_TIMESTAMP_NS
   \<and> 1 \<le> rq_symbol_id r \<and> rq_symbol_id r \<le> MAX_UINT16
   \<and> (rq_side r = -1 \<or> rq_side r = 1)
   \<and> 0 \<le> rq_price4 r \<and> rq_price4 r \<le> MAX_UINT32
   \<and> 1 \<le> rq_quantity r \<and> rq_quantity r \<le> MAX_UINT64"

definition in_bounds :: "int option \<Rightarrow> int \<Rightarrow> int \<Rightarrow> bool" where
  "in_bounds v lo hi \<longleftrightarrow> (\<forall>x. v = Some x \<longrightarrow> lo \<le> x \<and> x \<le> hi)"

definition order_wf :: "simulated_order \<Rightarrow> bool" where
  "order_wf s \<longleftrightarrow>
     request_wf (request_of s)
   \<and> so_requested_timestamp_ns s \<le> so_effective_timestamp_ns s
   \<and> so_effective_timestamp_ns s \<le> MAX_TIMESTAMP_NS
   \<and> 0 \<le> so_remaining_quantity s \<and> so_remaining_quantity s \<le> so_original_quantity s
   \<and> in_bounds (so_queue_ahead_initial s) 0 MAX_UINT64
   \<and> in_bounds (so_cancel_requested_ns s) (so_requested_timestamp_ns s) MAX_TIMESTAMP_NS
   \<and> in_bounds (so_terminal_timestamp_ns s) (so_requested_timestamp_ns s) MAX_TIMESTAMP_NS
   \<and> (so_terminal s \<longleftrightarrow> so_terminal_timestamp_ns s \<noteq> None)
   \<and> (so_state s = FILLED \<longleftrightarrow> so_remaining_quantity s = 0)
   \<and> (so_state s = PARTIALLY_FILLED \<longrightarrow> so_remaining_quantity s < so_original_quantity s)
   \<and> (so_state s = PENDING_CANCEL \<longrightarrow> so_cancel_requested_ns s \<noteq> None)
   \<and> (so_state s = ACTIVE \<or> so_state s = PARTIALLY_FILLED \<longrightarrow> so_cancel_requested_ns s = None)
   \<and> so_rejection_reason s = expected_rejection_reason (so_state s)"

lemma opt_outside_iff: "opt_outside v lo hi \<longleftrightarrow> \<not> in_bounds v lo hi"
  by (auto simp: opt_outside_def in_bounds_def valid_int_def split: option.splits)

lemma in_bounds_simps [simp]:
  "in_bounds None lo hi" "in_bounds (Some x) lo hi \<longleftrightarrow> lo \<le> x \<and> x \<le> hi"
  by (auto simp: in_bounds_def)

lemma validate_order_request_Inr:
  "validate_order_request r = Inr () \<longleftrightarrow> request_wf r"
  unfolding validate_order_request_def request_wf_def Let_def valid_int_def valid_side_def
  by (auto split: option.splits)

lemma validate_order_request_cases:
  "validate_order_request r = (if request_wf r then Inr () else Inl (projl (validate_order_request r)))"
proof (cases "validate_order_request r")
  case (Inl e)
  then show ?thesis using validate_order_request_Inr [of r] by auto
next
  case (Inr u)
  then show ?thesis using validate_order_request_Inr [of r] by auto
qed

lemma validate_simulated_order_Inr:
  "validate_simulated_order s = Inr () \<longleftrightarrow> order_wf s"
proof (cases "validate_order_request (request_of s)")
  case (Inl e)
  then have "\<not> request_wf (request_of s)"
    by (auto simp: validate_order_request_Inr [symmetric])
  with Inl show ?thesis by (simp add: validate_simulated_order_def order_wf_def)
next
  case (Inr u)
  then have "request_wf (request_of s)"
    by (auto simp: validate_order_request_Inr [symmetric])
  with Inr show ?thesis
    unfolding validate_simulated_order_def order_wf_def Let_def opt_outside_iff valid_int_def
      so_terminal_def
    by (cases "so_state s") auto
qed

lemma validate_simulated_order_not_wf:
  "\<not> order_wf s \<Longrightarrow> \<exists>e. validate_simulated_order s = Inl e"
  by (cases "validate_simulated_order s") (auto simp: validate_simulated_order_Inr [symmetric])

lemma order_wf_nonterminal_remaining:
  "order_wf s \<Longrightarrow> \<not> so_terminal s \<Longrightarrow> 1 \<le> so_remaining_quantity s"
  by (auto simp: order_wf_def so_terminal_def)

end
