(* ===== verification/Market_Events.thy ===== *)
theory Market_Events
  imports Orders
begin

text \<open>
  \<open>simulation/market_events.py\<close>: the typed market event, its kind-specific validation, and the
  adaptation of an untrusted row. The event kinds are those of \<open>interchange/models.py\<close>.

  A row is a mapping from column names to Python values. The values modelled are \<open>None\<close>,
  booleans, integers, strings, dates and event kinds; \<open>PyOther\<close> is any other hashable value that
  compares unequal to every integer.
\<close>

section \<open>Events and their validation\<close>

datatype event_kind =
  ADD | EXECUTE | EXECUTE_PRICE | CANCEL_EVENT | DELETE | REPLACE | TRADE | CROSS | BROKEN_TRADE
  | TRADING_STATE

record market_event =
  me_message_index :: int
  me_timestamp_ns :: int
  me_symbol_id :: int
  me_event_kind :: event_kind
  me_primary_reference :: "int option"
  me_secondary_reference :: "int option"
  me_side :: "int option"
  me_price4 :: "int option"
  me_quantity :: "int option"
  me_remaining_quantity :: "int option"
  me_execution_price4 :: "int option"

definition market_fail :: "int \<Rightarrow> 'a result" where
  "market_fail i = fail_message ERR_QUEUE_STATE i"

definition require_fields :: "market_event \<Rightarrow> (market_event \<Rightarrow> int option) list \<Rightarrow> unit result" where
  "require_fields event names =
     (if list_ex (\<lambda>f. f event = None) names then market_fail (me_message_index event) else Inr ())"

definition require_absent :: "market_event \<Rightarrow> (market_event \<Rightarrow> int option) list \<Rightarrow> unit result" where
  "require_absent event names =
     (if list_ex (\<lambda>f. f event \<noteq> None) names then market_fail (me_message_index event) else Inr ())"

text \<open>Checks in sequence: the first that raises ends the function.\<close>

fun checks :: "unit result list \<Rightarrow> unit result" where
  "checks [] = Inr ()"
| "checks (Inl e # cs) = Inl e"
| "checks (Inr _ # cs) = checks cs"

definition check_that :: "bool \<Rightarrow> int \<Rightarrow> unit result" where
  "check_that ok i = (if ok then Inr () else market_fail i)"

definition lifecycle_kind :: "event_kind \<Rightarrow> bool" where
  "lifecycle_kind k \<longleftrightarrow> k = ADD \<or> k = EXECUTE \<or> k = EXECUTE_PRICE \<or> k = CANCEL_EVENT \<or> k = DELETE
     \<or> k = REPLACE"

fun kind_checks :: "event_kind \<Rightarrow> market_event \<Rightarrow> unit result list" where
  "kind_checks ADD event =
     [require_absent event [me_secondary_reference],
      check_that (me_remaining_quantity event = me_quantity event) (me_message_index event)]"
| "kind_checks CANCEL_EVENT event = [require_absent event [me_secondary_reference]]"
| "kind_checks DELETE event =
     [require_absent event [me_secondary_reference],
      check_that (me_remaining_quantity event = Some 0) (me_message_index event)]"
| "kind_checks REPLACE event =
     [check_that (me_remaining_quantity event = me_quantity event) (me_message_index event)]"
| "kind_checks TRADE event =
     [require_fields event [me_primary_reference, me_secondary_reference, me_side, me_price4,
        me_quantity],
      require_absent event [me_remaining_quantity]]"
| "kind_checks CROSS event =
     [require_fields event [me_secondary_reference, me_price4, me_quantity],
      require_absent event [me_primary_reference, me_side, me_remaining_quantity]]"
| "kind_checks BROKEN_TRADE event =
     [require_fields event [me_primary_reference],
      require_absent event [me_secondary_reference, me_side, me_price4, me_quantity,
        me_remaining_quantity]]"
| "kind_checks TRADING_STATE event =
     [require_absent event [me_primary_reference, me_secondary_reference, me_side, me_price4,
        me_quantity, me_remaining_quantity]]"
| "kind_checks EXECUTE event = []"
| "kind_checks EXECUTE_PRICE event = []"

definition validate_market_event :: "market_event \<Rightarrow> unit result" where
  "validate_market_event event = (
     let i = me_message_index event; k = me_event_kind event in
     if \<not> valid_int i 0 MAX_UINT64 then fail_code ERR_QUEUE_STATE
     else checks (
       [check_that (valid_int (me_timestamp_ns event) 0 MAX_TIMESTAMP_NS) i,
        check_that (valid_int (me_symbol_id event) 1 MAX_UINT16) i,
        check_that (\<not> opt_outside (me_primary_reference event) 0 MAX_UINT64) i,
        check_that (\<not> opt_outside (me_secondary_reference event) 0 MAX_UINT64) i,
        check_that (\<not> opt_outside (me_price4 event) 0 MAX_UINT32) i,
        check_that (\<not> opt_outside (me_quantity event) 0 MAX_UINT64) i,
        check_that (\<not> opt_outside (me_remaining_quantity event) 0 MAX_UINT64) i,
        check_that (\<not> opt_outside (me_execution_price4 event) 0 MAX_UINT32) i,
        check_that (case me_side event of None \<Rightarrow> True | Some s \<Rightarrow> valid_side s) i,
        check_that (me_quantity event \<noteq> Some 0) i]
       @ (if lifecycle_kind k
          then [require_fields event [me_primary_reference, me_side, me_price4, me_quantity,
                  me_remaining_quantity]]
          else [])
       @ (if k = EXECUTE \<or> k = EXECUTE_PRICE \<or> k = REPLACE
          then [require_fields event [me_secondary_reference]] else [])
       @ (if k = EXECUTE_PRICE then [require_fields event [me_execution_price4]]
          else [require_absent event [me_execution_price4]])
       @ kind_checks k event))"

section \<open>Rows\<close>

datatype pyval =
  PyNone | PyBool bool | PyInt int | PyStr string | PyDate "int \<times> int \<times> int" | PyKind event_kind
  | PyOther

datatype market_row = Row_event market_event | Row_mapping "(string, pyval) dict" | Row_other

fun event_kind_value :: "event_kind \<Rightarrow> string" where
  "event_kind_value ADD = ''add''"
| "event_kind_value EXECUTE = ''execute''"
| "event_kind_value EXECUTE_PRICE = ''execute_price''"
| "event_kind_value CANCEL_EVENT = ''cancel''"
| "event_kind_value DELETE = ''delete''"
| "event_kind_value REPLACE = ''replace''"
| "event_kind_value TRADE = ''trade''"
| "event_kind_value CROSS = ''cross''"
| "event_kind_value BROKEN_TRADE = ''broken_trade''"
| "event_kind_value TRADING_STATE = ''trading_state''"

definition all_event_kinds :: "event_kind list" where
  "all_event_kinds = [ADD, EXECUTE, EXECUTE_PRICE, CANCEL_EVENT, DELETE, REPLACE, TRADE, CROSS,
     BROKEN_TRADE, TRADING_STATE]"

text \<open>\<open>EventKind(value)\<close>: the member with that value; no member is a \<open>ValueError\<close>.\<close>

definition event_kind_of :: "pyval \<Rightarrow> event_kind option" where
  "event_kind_of v = (case v of
       PyKind k \<Rightarrow> Some k
     | PyStr s \<Rightarrow> List.find (\<lambda>k. event_kind_value k = s) all_event_kinds
     | _ \<Rightarrow> None)"

definition row_get :: "(string, pyval) dict \<Rightarrow> string \<Rightarrow> pyval" where
  "row_get row name = dict_get_default row name PyNone"

definition checked_int :: "pyval \<Rightarrow> int \<Rightarrow> int \<Rightarrow> int option" where
  "checked_int v minimum maximum =
     (case v of PyInt x \<Rightarrow> if valid_int x minimum maximum then Some x else None | _ \<Rightarrow> None)"

definition optional_int :: "pyval \<Rightarrow> int \<Rightarrow> int \<Rightarrow> int option result" where
  "optional_int v maximum msg_index =
     (if v = PyNone then Inr None
      else case checked_int v 0 maximum of
        None \<Rightarrow> market_fail msg_index
      | Some x \<Rightarrow> Inr (Some x))"

definition row_side :: "pyval \<Rightarrow> int \<Rightarrow> int option result" where
  "row_side v msg_index = (case v of
       PyNone \<Rightarrow> Inr None
     | PyInt x \<Rightarrow> if valid_side x then Inr (Some x) else market_fail msg_index
     | _ \<Rightarrow> market_fail msg_index)"

definition adapt_market_event :: "market_row \<Rightarrow> market_event result" where
  "adapt_market_event r = (case r of
     Row_event event \<Rightarrow> (case validate_market_event event of Inl e \<Rightarrow> Inl e | Inr _ \<Rightarrow> Inr event)
   | Row_other \<Rightarrow> fail_code ERR_QUEUE_STATE
   | Row_mapping row \<Rightarrow> (
     case checked_int (row_get row ''message_index'') 0 MAX_UINT64 of
       None \<Rightarrow> fail_code ERR_QUEUE_STATE
     | Some i \<Rightarrow> (
     case event_kind_of (row_get row ''event_kind'') of None \<Rightarrow> market_fail i | Some kind \<Rightarrow> (
     case checked_int (row_get row ''timestamp_ns'') 0 MAX_TIMESTAMP_NS of
       None \<Rightarrow> market_fail i
     | Some t \<Rightarrow> (
     case checked_int (row_get row ''symbol_id'') 1 MAX_UINT16 of None \<Rightarrow> market_fail i | Some sid \<Rightarrow> (
     case row_side (row_get row ''side'') i of Inl e \<Rightarrow> Inl e | Inr side \<Rightarrow> (
     case optional_int (row_get row ''primary_reference'') MAX_UINT64 i of Inl e \<Rightarrow> Inl e | Inr pr \<Rightarrow> (
     case optional_int (row_get row ''secondary_reference'') MAX_UINT64 i of
       Inl e \<Rightarrow> Inl e
     | Inr sr \<Rightarrow> (
     case optional_int (row_get row ''price4'') MAX_UINT32 i of Inl e \<Rightarrow> Inl e | Inr price \<Rightarrow> (
     case optional_int (row_get row ''quantity'') MAX_UINT64 i of Inl e \<Rightarrow> Inl e | Inr qty \<Rightarrow> (
     case optional_int (row_get row ''remaining_quantity'') MAX_UINT64 i of
       Inl e \<Rightarrow> Inl e
     | Inr rem \<Rightarrow> (
     case optional_int (row_get row ''execution_price4'') MAX_UINT32 i of Inl e \<Rightarrow> Inl e | Inr ep \<Rightarrow> (
     let event = \<lparr>me_message_index = i, me_timestamp_ns = t, me_symbol_id = sid,
           me_event_kind = kind, me_primary_reference = pr, me_secondary_reference = sr,
           me_side = side, me_price4 = price, me_quantity = qty, me_remaining_quantity = rem,
           me_execution_price4 = ep\<rparr> in
     case validate_market_event event of Inl e \<Rightarrow> Inl e | Inr _ \<Rightarrow> Inr event)))))))))))))"

section \<open>What validation accepts\<close>

definition has :: "int option \<Rightarrow> bool" where
  "has v \<longleftrightarrow> v \<noteq> None"

text \<open>Kind by kind, which fields an event carries.\<close>

definition event_wf :: "market_event \<Rightarrow> bool" where
  "event_wf e \<longleftrightarrow>
     0 \<le> me_message_index e \<and> me_message_index e \<le> MAX_UINT64
   \<and> 0 \<le> me_timestamp_ns e \<and> me_timestamp_ns e \<le> MAX_TIMESTAMP_NS
   \<and> 1 \<le> me_symbol_id e \<and> me_symbol_id e \<le> MAX_UINT16
   \<and> in_bounds (me_primary_reference e) 0 MAX_UINT64
   \<and> in_bounds (me_secondary_reference e) 0 MAX_UINT64
   \<and> in_bounds (me_price4 e) 0 MAX_UINT32
   \<and> in_bounds (me_quantity e) 1 MAX_UINT64
   \<and> in_bounds (me_remaining_quantity e) 0 MAX_UINT64
   \<and> in_bounds (me_execution_price4 e) 0 MAX_UINT32
   \<and> (me_side e = None \<or> me_side e = Some (-1) \<or> me_side e = Some 1)
   \<and> (has (me_execution_price4 e) \<longleftrightarrow> me_event_kind e = EXECUTE_PRICE)
   \<and> (lifecycle_kind (me_event_kind e) \<longrightarrow> has (me_primary_reference e) \<and> has (me_side e)
        \<and> has (me_price4 e) \<and> has (me_quantity e) \<and> has (me_remaining_quantity e))
   \<and> (case me_event_kind e of
        ADD \<Rightarrow> \<not> has (me_secondary_reference e) \<and> me_remaining_quantity e = me_quantity e
      | EXECUTE \<Rightarrow> has (me_secondary_reference e)
      | EXECUTE_PRICE \<Rightarrow> has (me_secondary_reference e)
      | CANCEL_EVENT \<Rightarrow> \<not> has (me_secondary_reference e)
      | DELETE \<Rightarrow> \<not> has (me_secondary_reference e) \<and> me_remaining_quantity e = Some 0
      | REPLACE \<Rightarrow> has (me_secondary_reference e) \<and> me_remaining_quantity e = me_quantity e
      | TRADE \<Rightarrow> has (me_primary_reference e) \<and> has (me_secondary_reference e) \<and> has (me_side e)
          \<and> has (me_price4 e) \<and> has (me_quantity e) \<and> \<not> has (me_remaining_quantity e)
      | CROSS \<Rightarrow> \<not> has (me_primary_reference e) \<and> has (me_secondary_reference e) \<and> \<not> has (me_side e)
          \<and> has (me_price4 e) \<and> has (me_quantity e) \<and> \<not> has (me_remaining_quantity e)
      | BROKEN_TRADE \<Rightarrow> has (me_primary_reference e) \<and> \<not> has (me_secondary_reference e)
          \<and> \<not> has (me_side e) \<and> \<not> has (me_price4 e) \<and> \<not> has (me_quantity e)
          \<and> \<not> has (me_remaining_quantity e)
      | TRADING_STATE \<Rightarrow> \<not> has (me_primary_reference e) \<and> \<not> has (me_secondary_reference e)
          \<and> \<not> has (me_side e) \<and> \<not> has (me_price4 e) \<and> \<not> has (me_quantity e)
          \<and> \<not> has (me_remaining_quantity e))"

lemma checks_append_Inr: "checks (cs @ ds) = Inr () \<longleftrightarrow> checks cs = Inr () \<and> checks ds = Inr ()"
  by (induction cs rule: checks.induct) simp_all

lemma checks_Cons_Inr: "checks (c # cs) = Inr () \<longleftrightarrow> c = Inr () \<and> checks cs = Inr ()"
  by (cases c) simp_all

lemma check_Inr [simp]:
  "check_that b i = Inr () \<longleftrightarrow> b"
  "require_fields e fs = Inr () \<longleftrightarrow> list_all (\<lambda>f. f e \<noteq> None) fs"
  "require_absent e fs = Inr () \<longleftrightarrow> list_all (\<lambda>f. f e = None) fs"
  by (simp_all add: check_that_def require_fields_def require_absent_def market_fail_def
      list_ex_iff list_all_iff)

lemma validate_market_event_Inr: "validate_market_event e = Inr () \<longleftrightarrow> event_wf e"
  unfolding validate_market_event_def Let_def checks_append_Inr checks_Cons_Inr
  by (cases "me_event_kind e")
    (auto simp: checks_append_Inr checks_Cons_Inr event_wf_def lifecycle_kind_def has_def valid_int_def
      opt_outside_iff valid_side_def in_bounds_def fail_code_def split: option.splits)

section \<open>What adaptation accepts\<close>

definition py_opt :: "int option \<Rightarrow> pyval" where
  "py_opt v = (case v of None \<Rightarrow> PyNone | Some x \<Rightarrow> PyInt x)"

text \<open>The columns of a row agree with an event; an absent column counts as \<open>None\<close>.\<close>

definition row_matches :: "(string, pyval) dict \<Rightarrow> market_event \<Rightarrow> bool" where
  "row_matches row e \<longleftrightarrow>
     row_get row ''message_index'' = PyInt (me_message_index e)
   \<and> row_get row ''timestamp_ns'' = PyInt (me_timestamp_ns e)
   \<and> row_get row ''symbol_id'' = PyInt (me_symbol_id e)
   \<and> (row_get row ''event_kind'' = PyKind (me_event_kind e)
      \<or> row_get row ''event_kind'' = PyStr (event_kind_value (me_event_kind e)))
   \<and> row_get row ''primary_reference'' = py_opt (me_primary_reference e)
   \<and> row_get row ''secondary_reference'' = py_opt (me_secondary_reference e)
   \<and> row_get row ''side'' = py_opt (me_side e)
   \<and> row_get row ''price4'' = py_opt (me_price4 e)
   \<and> row_get row ''quantity'' = py_opt (me_quantity e)
   \<and> row_get row ''remaining_quantity'' = py_opt (me_remaining_quantity e)
   \<and> row_get row ''execution_price4'' = py_opt (me_execution_price4 e)"

lemma checked_int_iff: "checked_int v lo hi = Some x \<longleftrightarrow> v = PyInt x \<and> lo \<le> x \<and> x \<le> hi"
  by (auto simp: checked_int_def valid_int_def split: pyval.splits)

lemma optional_int_iff:
  "optional_int v hi i = Inr x \<longleftrightarrow> v = py_opt x \<and> in_bounds x 0 hi"
  by (cases v; cases x)
    (auto simp: optional_int_def checked_int_def py_opt_def valid_int_def market_fail_def)

lemma row_side_iff: "row_side v i = Inr x \<longleftrightarrow> v = py_opt x \<and> (x = None \<or> x = Some (-1) \<or> x = Some 1)"
  by (cases v; cases x) (auto simp: row_side_def py_opt_def valid_side_def market_fail_def)

lemma event_kind_of_iff:
  "event_kind_of v = Some k \<longleftrightarrow> v = PyKind k \<or> v = PyStr (event_kind_value k)"
proof (cases v)
  case (PyStr s)
  then show ?thesis
    by (cases k) (auto simp: event_kind_of_def all_event_kinds_def split: if_splits)
qed (auto simp: event_kind_of_def)

text \<open>A step of the cascade: the call succeeds exactly when this check and the rest do.\<close>

lemma cascade:
  "(case (r :: 'a result) of Inl e \<Rightarrow> Inl e | Inr x \<Rightarrow> f x) = Inr y \<longleftrightarrow> (\<exists>x. r = Inr x \<and> f x = Inr y)"
  "(case (v :: 'a option) of None \<Rightarrow> market_fail i | Some x \<Rightarrow> f x) = Inr y \<longleftrightarrow> (\<exists>x. v = Some x \<and> f x = Inr y)"
  "(case (v :: 'a option) of None \<Rightarrow> fail_code c | Some x \<Rightarrow> f x) = Inr y \<longleftrightarrow> (\<exists>x. v = Some x \<and> f x = Inr y)"
  by (auto simp: market_fail_def split: sum.splits option.splits)

lemma adapt_event_Inr: "adapt_market_event (Row_event e) = Inr e' \<longleftrightarrow> e' = e \<and> event_wf e"
  by (auto simp: adapt_market_event_def simp flip: validate_market_event_Inr split: sum.splits)

lemma adapt_mapping_Inr:
  "adapt_market_event (Row_mapping row) = Inr e \<longleftrightarrow> event_wf e \<and> row_matches row e"
  (is "?L \<longleftrightarrow> ?R")
proof
  assume ?L
  then show ?R
    unfolding adapt_market_event_def market_row.case cascade Let_def checked_int_iff optional_int_iff
      row_side_iff event_kind_of_iff
    by (elim exE conjE, simp only: Inr_Inl_False sum.inject, hypsubst)
      (simp add: row_matches_def flip: validate_market_event_Inr)
next
  assume R: ?R
  then have m: "row_matches row e" and wf: "event_wf e" by simp_all
  have "row_get row ''event_kind'' = PyKind (me_event_kind e)
      \<or> row_get row ''event_kind'' = PyStr (event_kind_value (me_event_kind e))"
    using m by (simp add: row_matches_def)
  then have kind: "event_kind_of (row_get row ''event_kind'') = Some (me_event_kind e)"
    by (simp add: event_kind_of_iff)
  have side: "row_side (row_get row ''side'') (me_message_index e) = Inr (me_side e)"
    unfolding row_side_iff using m wf by (simp add: row_matches_def event_wf_def)
  have opt: "optional_int (py_opt x) hi i = Inr x" if "in_bounds x 0 hi" for x hi i
    using that by (simp add: optional_int_iff)
  have ints: "checked_int (PyInt x) lo hi = Some x" if "lo \<le> x" "x \<le> hi" for x lo hi
    using that by (simp add: checked_int_iff)
  have qty: "in_bounds (me_quantity e) 0 MAX_UINT64" using wf by (auto simp: event_wf_def in_bounds_def)
  have val: "validate_market_event e = Inr ()" using wf by (simp add: validate_market_event_Inr)
  have "row_get row ''message_index'' = PyInt (me_message_index e)"
    "row_get row ''timestamp_ns'' = PyInt (me_timestamp_ns e)"
    "row_get row ''symbol_id'' = PyInt (me_symbol_id e)"
    "row_get row ''primary_reference'' = py_opt (me_primary_reference e)"
    "row_get row ''secondary_reference'' = py_opt (me_secondary_reference e)"
    "row_get row ''price4'' = py_opt (me_price4 e)"
    "row_get row ''quantity'' = py_opt (me_quantity e)"
    "row_get row ''remaining_quantity'' = py_opt (me_remaining_quantity e)"
    "row_get row ''execution_price4'' = py_opt (me_execution_price4 e)"
    using m by (simp_all add: row_matches_def)
  moreover have "0 \<le> me_message_index e" "me_message_index e \<le> MAX_UINT64"
    "0 \<le> me_timestamp_ns e" "me_timestamp_ns e \<le> MAX_TIMESTAMP_NS"
    "1 \<le> me_symbol_id e" "me_symbol_id e \<le> MAX_UINT16"
    "in_bounds (me_primary_reference e) 0 MAX_UINT64" "in_bounds (me_secondary_reference e) 0 MAX_UINT64"
    "in_bounds (me_price4 e) 0 MAX_UINT32" "in_bounds (me_remaining_quantity e) 0 MAX_UINT64"
    "in_bounds (me_execution_price4 e) 0 MAX_UINT32"
    using wf by (simp_all add: event_wf_def)
  moreover have eq: "\<lparr>me_message_index = me_message_index e, me_timestamp_ns = me_timestamp_ns e,
      me_symbol_id = me_symbol_id e, me_event_kind = me_event_kind e,
      me_primary_reference = me_primary_reference e,
      me_secondary_reference = me_secondary_reference e, me_side = me_side e,
      me_price4 = me_price4 e, me_quantity = me_quantity e,
      me_remaining_quantity = me_remaining_quantity e, me_execution_price4 = me_execution_price4 e\<rparr> = e"
    by (cases e) simp
  ultimately show ?L
    by (simp add: adapt_market_event_def kind side opt ints qty Let_def) (simp only: eq val sum.case)
qed

section \<open>Properties\<close>

text \<open>
  validation accepts exactly the events whose kind carries the fields of the table
  \<open>event_wf\<close>, in their ranges.
\<close>

theorem validate_market_event_exact:
  "validate_market_event e = Inr () \<longleftrightarrow> event_wf e"
  by (rule validate_market_event_Inr)

text \<open>
  Adaptation of a row accepts exactly the rows whose columns spell a valid event, and
  returns that event with nothing coerced, defaulted or dropped.
\<close>

theorem adapt_market_event_exact:
  "adapt_market_event (Row_mapping row) = Inr e
     \<longleftrightarrow> validate_market_event e = Inr () \<and> row_matches row e"
  by (simp add: adapt_mapping_Inr validate_market_event_Inr)

end
