(* ===== verification/Heapq.thy ===== *)
theory Heapq
  imports Common "HOL-Library.Multiset"
begin

text \<open>
  The part of Python's \<open>heapq\<close> that the simulator uses: a list whose first element has a
  least key, with push and pop. The array order of the other elements is never observed by the
  code (only \<open>heap[0]\<close>, emptiness and \<open>sorted(heap)\<close>), so a heap is kept sorted by key.
  Both users pop in a loop while a condition holds: \<open>_pop_due\<close> of the scheduler and
  \<open>_best_visible_price\<close> of the queue model. That loop is \<open>heap_pop_while\<close>; the locale
  states what its clients rely on.
\<close>

definition heappush :: "('a \<Rightarrow> 'k::linorder) \<Rightarrow> 'a \<Rightarrow> 'a list \<Rightarrow> 'a list" where
  "heappush key x h = insort_key key x h"

fun heap_pop_while :: "('a \<Rightarrow> bool) \<Rightarrow> 'a list \<Rightarrow> 'a list \<times> 'a list" where
  "heap_pop_while P [] = ([], [])"
| "heap_pop_while P (x # h) =
     (if P x then (case heap_pop_while P h of (xs, h') \<Rightarrow> (x # xs, h')) else ([], x # h))"

locale min_heap =
  fixes key :: "'a \<Rightarrow> 'k::linorder"
    and wf :: "'q \<Rightarrow> bool"
    and elems :: "'q \<Rightarrow> 'a multiset"
    and push :: "'a \<Rightarrow> 'q \<Rightarrow> 'q"
    and pop_while :: "('a \<Rightarrow> bool) \<Rightarrow> 'q \<Rightarrow> 'a list \<times> 'q"
  assumes push_wf: "wf h \<Longrightarrow> wf (push x h)"
    and push_elems: "elems (push x h) = add_mset x (elems h)"
    and pop_wf: "wf h \<Longrightarrow> pop_while P h = (xs, h') \<Longrightarrow> wf h'"
    and pop_elems: "pop_while P h = (xs, h') \<Longrightarrow> elems h = mset xs + elems h'"
    and pop_sorted: "wf h \<Longrightarrow> pop_while P h = (xs, h') \<Longrightarrow> sorted (map key xs)"
    and pop_sat: "pop_while P h = (xs, h') \<Longrightarrow> x \<in> set xs \<Longrightarrow> P x"
    and pop_stop: "wf h \<Longrightarrow> pop_while P h = (xs, h') \<Longrightarrow> elems h' \<noteq> {#} \<Longrightarrow>
        \<exists>y \<in># elems h'. \<not> P y \<and> (\<forall>z \<in># elems h'. key y \<le> key z)"
begin

text \<open>
  For a condition that smaller keys satisfy as well, the loop takes exactly the elements that
  satisfy it.
\<close>

lemma pop_exact:
  assumes wf: "wf h" and pop: "pop_while P h = (xs, h')"
    and down: "\<And>x y. P y \<Longrightarrow> key x \<le> key y \<Longrightarrow> P x"
  shows "mset xs = filter_mset P (elems h)"
    and "elems h' = filter_mset (\<lambda>x. \<not> P x) (elems h)"
proof -
  have rest: "\<not> P z" if "z \<in># elems h'" for z
  proof -
    from that have "elems h' \<noteq> {#}" by auto
    then obtain y where "y \<in># elems h'" "\<not> P y" "\<forall>z \<in># elems h'. key y \<le> key z"
      using pop_stop [OF wf pop] by blast
    with that down show ?thesis by blast
  qed
  have all: "\<forall>x \<in># mset xs. P x" using pop_sat [OF pop] by simp
  have h: "elems h = mset xs + elems h'" by (rule pop_elems [OF pop])
  have "filter_mset P (elems h') = {#}" "filter_mset (\<lambda>x. \<not> P x) (mset xs) = {#}"
    using rest all by (auto simp del: mset_filter)
  moreover have "filter_mset P (mset xs) = mset xs"
    using all by (simp add: filter_mset_eq_conv)
  moreover have "filter_mset (\<lambda>x. \<not> P x) (elems h') = elems h'"
    using rest by (simp add: filter_mset_eq_conv)
  ultimately show "mset xs = filter_mset P (elems h)"
    "elems h' = filter_mset (\<lambda>x. \<not> P x) (elems h)"
    by (simp_all add: h)
qed

lemma pop_before_rest:
  assumes "wf h" "pop_while P h = (xs, h')" "\<And>x y. P y \<Longrightarrow> key x \<le> key y \<Longrightarrow> P x"
    and "x \<in> set xs" "y \<in># elems h'"
  shows "key x < key y"
proof -
  have "\<not> P y" using pop_exact(2) [OF assms(1,2)] assms(3,5) by auto
  moreover have "P x" using pop_sat [OF assms(2,4)] .
  ultimately show ?thesis using assms(3) by (meson not_less)
qed

end

lemma heap_pop_while_eq: "heap_pop_while P h = (takeWhile P h, dropWhile P h)"
  by (induction h) auto

lemma set_heappush [simp]: "set (heappush key x h) = insert x (set h)"
  by (simp add: heappush_def set_insort_key)

lemma sorted_heappush [simp]: "sorted (map key (heappush key x h)) = sorted (map key h)"
  by (simp add: heappush_def sorted_insort_key)

lemma sorted_dropWhile_map: "sorted (map key h) \<Longrightarrow> sorted (map key (dropWhile P h))"
  by (metis dropWhile_eq_drop drop_map sorted_wrt_drop)

lemma sorted_takeWhile_map: "sorted (map key h) \<Longrightarrow> sorted (map key (takeWhile P h))"
  by (metis takeWhile_eq_take take_map sorted_wrt_take)

interpretation heapq: min_heap key "\<lambda>h. sorted (map key h)" mset "heappush key" heap_pop_while
  for key :: "'a \<Rightarrow> 'k::linorder"
proof unfold_locales
  fix h :: "'a list" and x :: 'a and P xs h'
  show "sorted (map key (heappush key x h))" if "sorted (map key h)"
    using that by simp
  show "mset (heappush key x h) = add_mset x (mset h)"
    by (simp add: heappush_def)
  assume pop: "heap_pop_while P h = (xs, h')"
  then have xs: "xs = takeWhile P h" and h': "h' = dropWhile P h"
    by (simp_all add: heap_pop_while_eq)
  show "mset h = mset xs + mset h'"
    by (simp add: xs h' flip: mset_append)
  show "P y" if "y \<in> set xs" for y
    using that by (auto simp: xs dest: set_takeWhileD)
  assume srt: "sorted (map key h)"
  show "sorted (map key h')" using srt by (simp add: h' sorted_dropWhile_map)
  show "sorted (map key xs)" using srt by (simp add: xs sorted_takeWhile_map)
  assume ne: "mset h' \<noteq> {#}"
  then obtain y r where yr: "h' = y # r" by (cases h') auto
  then have "\<not> P y" using h' by (metis hd_dropWhile list.distinct(1) list.sel(1))
  moreover have "\<forall>z \<in># mset h'. key y \<le> key z"
    using sorted_dropWhile_map [OF srt, of P] yr h' by auto
  ultimately show "\<exists>y \<in># mset h'. \<not> P y \<and> (\<forall>z \<in># mset h'. key y \<le> key z)"
    using yr by auto
qed

end
