(* ===== verification/Scheduler.thy ===== *)
theory Scheduler
  imports Orders Heapq
begin

text \<open>
  \<open>simulation/scheduler.py\<close>: \<open>LatencyScheduler\<close>, which delays activations and
  cancellations by a latency and releases them around the ordered market messages. The state
  is the record \<open>latency_scheduler\<close>, one field per attribute of the class; a method is a
  function from the state to its result and the state afterwards.
\<close>

section \<open>State and operations\<close>

datatype scheduled_action_kind = ACTIVATE | CANCEL

record scheduled_action =
  sa_effective_timestamp_ns :: int
  sa_sequence :: int
  sa_simulated_order_id :: int
  sa_kind :: scheduled_action_kind
  sa_requested_timestamp_ns :: int
  sa_request_message_index :: int

record latency_scheduler =
  sch_heap :: "scheduled_action list"
  sch_next_sequence :: int
  sch_last_market_timestamp_ns :: "int option"
  sch_last_market_message_index :: "int option"
  sch_completed_market_timestamp_ns :: "int option"

text \<open>Heap entries are tuples \<open>(effective, sequence, action)\<close>; sequences are unique.\<close>

definition heap_key :: "scheduled_action \<Rightarrow> int \<times> int" where
  "heap_key a = (sa_effective_timestamp_ns a, sa_sequence a)"

definition new_scheduler :: latency_scheduler where
  "new_scheduler = \<lparr>sch_heap = [], sch_next_sequence = 0, sch_last_market_timestamp_ns = None,
     sch_last_market_message_index = None, sch_completed_market_timestamp_ns = None\<rparr>"

definition effective_timestamp :: "int \<Rightarrow> int \<Rightarrow> int result" where
  "effective_timestamp requested_timestamp_ns latency_ns = (
     if \<not> valid_int requested_timestamp_ns 0 MAX_TIMESTAMP_NS then fail_code ERR_TIMESTAMP
     else if \<not> valid_int latency_ns 0 MAX_LATENCY_NS then fail_code ERR_LATENCY
     else let effective = requested_timestamp_ns + latency_ns in
       if effective > MAX_TIMESTAMP_NS then fail_code ERR_LATENCY else Inr effective)"

text \<open>\<open>x is not None and t <= x\<close>, and its variants, on an optional attribute.\<close>

definition some_ge :: "int option \<Rightarrow> int \<Rightarrow> bool" where
  "some_ge x t = (case x of None \<Rightarrow> False | Some c \<Rightarrow> t \<le> c)"

definition some_gt :: "int option \<Rightarrow> int \<Rightarrow> bool" where
  "some_gt x t = (case x of None \<Rightarrow> False | Some c \<Rightarrow> t < c)"

definition some_lt :: "int option \<Rightarrow> int \<Rightarrow> bool" where
  "some_lt x t = (case x of None \<Rightarrow> False | Some c \<Rightarrow> t > c)"

definition schedule ::
  "scheduled_action_kind \<Rightarrow> int \<Rightarrow> int \<Rightarrow> int \<Rightarrow> int \<Rightarrow> (latency_scheduler, scheduled_action) smethod"
where
  "schedule kind simulated_order_id requested_timestamp_ns request_message_index latency_ns self = (
     if \<not> valid_int simulated_order_id 0 MAX_UINT64 then (fail_code ERR_SIMULATION_ANOMALY, self)
     else if \<not> valid_int request_message_index 0 MAX_UINT64
       then (fail_order ERR_SIMULATION_ANOMALY simulated_order_id, self)
     else case effective_timestamp requested_timestamp_ns latency_ns of
       Inl e \<Rightarrow> (Inl e, self)
     | Inr effective \<Rightarrow>
       if some_ge (sch_completed_market_timestamp_ns self) requested_timestamp_ns
         then (fail_both ERR_TIMESTAMP simulated_order_id request_message_index, self)
       else if sch_next_sequence self > MAX_UINT64 then (fail_code ERR_SIMULATION_ANOMALY, self)
       else
         let action = \<lparr>sa_effective_timestamp_ns = effective,
               sa_sequence = sch_next_sequence self,
               sa_simulated_order_id = simulated_order_id,
               sa_kind = kind,
               sa_requested_timestamp_ns = requested_timestamp_ns,
               sa_request_message_index = request_message_index\<rparr>
         in (Inr action,
             self\<lparr>sch_heap := heappush heap_key action (sch_heap self),
                  sch_next_sequence := sch_next_sequence self + 1\<rparr>))"

definition validate_market_key :: "latency_scheduler \<Rightarrow> int \<Rightarrow> int \<Rightarrow> unit result" where
  "validate_market_key self timestamp_ns message_index = (
     if \<not> valid_int timestamp_ns 0 MAX_TIMESTAMP_NS then fail_message ERR_TIMESTAMP message_index
     else if \<not> valid_int message_index 0 MAX_UINT64 then fail_code ERR_SIMULATION_ANOMALY
     else if some_gt (sch_last_market_timestamp_ns self) timestamp_ns
       then fail_message ERR_TIMESTAMP message_index
     else if some_ge (sch_last_market_message_index self) message_index
       then fail_message ERR_SIMULATION_ANOMALY message_index
     else Inr ())"

text \<open>\<open>_pop_due\<close>: stop at the first action that is not due yet.\<close>

definition is_due :: "int \<Rightarrow> bool \<Rightarrow> scheduled_action \<Rightarrow> bool" where
  "is_due timestamp_ns inclusive a \<longleftrightarrow>
     \<not> (sa_effective_timestamp_ns a > timestamp_ns
        \<or> (sa_effective_timestamp_ns a = timestamp_ns \<and> \<not> inclusive))"

definition pop_due :: "int \<Rightarrow> bool \<Rightarrow> latency_scheduler \<Rightarrow> scheduled_action list \<times> latency_scheduler"
where
  "pop_due timestamp_ns inclusive self =
     (case heap_pop_while (is_due timestamp_ns inclusive) (sch_heap self) of
        (actions, rest) \<Rightarrow> (actions, self\<lparr>sch_heap := rest\<rparr>))"

definition actions_before_market ::
  "int \<Rightarrow> int \<Rightarrow> (latency_scheduler, scheduled_action list) smethod" where
  "actions_before_market timestamp_ns message_index self = (
     case validate_market_key self timestamp_ns message_index of
       Inl e \<Rightarrow> (Inl e, self)
     | Inr _ \<Rightarrow>
       if some_ge (sch_completed_market_timestamp_ns self) timestamp_ns
         then (fail_message ERR_TIMESTAMP message_index, self)
       else
         let self1 = (if some_lt (sch_last_market_timestamp_ns self) timestamp_ns
               then self\<lparr>sch_completed_market_timestamp_ns := sch_last_market_timestamp_ns self\<rparr>
               else self)
         in case pop_due timestamp_ns False self1 of
           (actions, self2) \<Rightarrow>
             (Inr actions,
              self2\<lparr>sch_last_market_timestamp_ns := Some timestamp_ns,
                    sch_last_market_message_index := Some message_index\<rparr>))"

definition actions_after_market_timestamp ::
  "int \<Rightarrow> (latency_scheduler, scheduled_action list) smethod" where
  "actions_after_market_timestamp timestamp_ns self = (
     if \<not> valid_int timestamp_ns 0 MAX_TIMESTAMP_NS then (fail_code ERR_TIMESTAMP, self)
     else if sch_last_market_timestamp_ns self \<noteq> Some timestamp_ns
       then (fail_code ERR_TIMESTAMP, self)
     else if some_ge (sch_completed_market_timestamp_ns self) timestamp_ns
       then (fail_code ERR_TIMESTAMP, self)
     else case pop_due timestamp_ns True self of
       (actions, self1) \<Rightarrow>
         (Inr actions, self1\<lparr>sch_completed_market_timestamp_ns := Some timestamp_ns\<rparr>))"

definition sch_pending_actions :: "latency_scheduler \<Rightarrow> scheduled_action list" where
  "sch_pending_actions self = sort_key heap_key (sch_heap self)"

definition current_market_key :: "latency_scheduler \<Rightarrow> (int \<times> int) option" where
  "current_market_key self =
     (case sch_last_market_timestamp_ns self of
        None \<Rightarrow> None
      | Some t \<Rightarrow> (case sch_last_market_message_index self of None \<Rightarrow> None | Some m \<Rightarrow> Some (t, m)))"

definition current_market_timestamp_completed :: "latency_scheduler \<Rightarrow> bool" where
  "current_market_timestamp_completed self \<longleftrightarrow>
     sch_last_market_timestamp_ns self \<noteq> None
     \<and> sch_completed_market_timestamp_ns self = sch_last_market_timestamp_ns self"

section \<open>The invariant\<close>

text \<open>
  Pending actions are well-formed, ordered and numbered below the next sequence, and all of
  them become effective after the last completed market timestamp.
\<close>

definition action_wf :: "scheduled_action \<Rightarrow> bool" where
  "action_wf a \<longleftrightarrow>
     0 \<le> sa_requested_timestamp_ns a
   \<and> sa_requested_timestamp_ns a \<le> sa_effective_timestamp_ns a
   \<and> sa_effective_timestamp_ns a \<le> sa_requested_timestamp_ns a + MAX_LATENCY_NS
   \<and> sa_effective_timestamp_ns a \<le> MAX_TIMESTAMP_NS
   \<and> 0 \<le> sa_sequence a
   \<and> 0 \<le> sa_simulated_order_id a \<and> sa_simulated_order_id a \<le> MAX_UINT64
   \<and> 0 \<le> sa_request_message_index a \<and> sa_request_message_index a \<le> MAX_UINT64"

definition sched_inv :: "latency_scheduler \<Rightarrow> bool" where
  "sched_inv s \<longleftrightarrow>
     sorted (map heap_key (sch_heap s))
   \<and> distinct (map sa_sequence (sch_heap s))
   \<and> (\<forall>a \<in> set (sch_heap s). action_wf a \<and> sa_sequence a < sch_next_sequence s)
   \<and> 0 \<le> sch_next_sequence s \<and> sch_next_sequence s \<le> MAX_UINT64 + 1
   \<and> (sch_last_market_timestamp_ns s = None \<longleftrightarrow> sch_last_market_message_index s = None)
   \<and> in_bounds (sch_last_market_timestamp_ns s) 0 MAX_TIMESTAMP_NS
   \<and> in_bounds (sch_last_market_message_index s) 0 MAX_UINT64
   \<and> (\<forall>c. sch_completed_market_timestamp_ns s = Some c \<longrightarrow>
        (\<exists>t. sch_last_market_timestamp_ns s = Some t \<and> c \<le> t)
        \<and> (\<forall>a \<in> set (sch_heap s). c < sa_effective_timestamp_ns a))"

lemma sched_inv_new [simp]: "sched_inv new_scheduler"
  by (simp add: sched_inv_def new_scheduler_def bound_defs)

lemma some_tests [simp]:
  "some_ge None t = False" "some_ge (Some c) t \<longleftrightarrow> t \<le> c"
  "some_gt None t = False" "some_gt (Some c) t \<longleftrightarrow> t < c"
  "some_lt None t = False" "some_lt (Some c) t \<longleftrightarrow> c < t"
  by (simp_all add: some_ge_def some_gt_def some_lt_def)

subsection \<open>Scheduling\<close>

lemma effective_timestamp_Inr:
  "effective_timestamp r l = Inr t \<longleftrightarrow>
     0 \<le> r \<and> 0 \<le> l \<and> l \<le> MAX_LATENCY_NS \<and> t = r + l \<and> t \<le> MAX_TIMESTAMP_NS"
  by (auto simp: effective_timestamp_def valid_int_def Let_def)

lemma schedule_Inl: "schedule k i r m l s = (Inl e, s') \<Longrightarrow> s' = s"
  by (auto simp: schedule_def Let_def split: sum.splits if_splits)

lemma schedule_Inr:
  assumes "schedule k i r m l s = (Inr a, s')"
  shows "effective_timestamp r l = Inr (sa_effective_timestamp_ns a)"
    and "a = \<lparr>sa_effective_timestamp_ns = r + l, sa_sequence = sch_next_sequence s,
           sa_simulated_order_id = i, sa_kind = k, sa_requested_timestamp_ns = r,
           sa_request_message_index = m\<rparr>"
    and "s' = s\<lparr>sch_heap := heappush heap_key a (sch_heap s),
           sch_next_sequence := sch_next_sequence s + 1\<rparr>"
    and "0 \<le> i" "i \<le> MAX_UINT64" "0 \<le> m" "m \<le> MAX_UINT64"
    and "\<not> some_ge (sch_completed_market_timestamp_ns s) r"
    and "sch_next_sequence s \<le> MAX_UINT64"
  using assms
  by (auto simp: schedule_def Let_def valid_int_def effective_timestamp_Inr
      split: sum.splits if_splits)

lemma schedule_fields:
  assumes "schedule k i r m l s = (Inr a, s')"
  shows "sa_effective_timestamp_ns a = r + l" "sa_sequence a = sch_next_sequence s"
    "sa_simulated_order_id a = i" "sa_kind a = k" "sa_requested_timestamp_ns a = r"
    "sa_request_message_index a = m"
    "sch_last_market_timestamp_ns s' = sch_last_market_timestamp_ns s"
    "sch_last_market_message_index s' = sch_last_market_message_index s"
    "sch_completed_market_timestamp_ns s' = sch_completed_market_timestamp_ns s"
    "sch_next_sequence s' = sch_next_sequence s + 1"
    "set (sch_heap s') = insert a (set (sch_heap s))"
    "mset (sch_heap s') = add_mset a (mset (sch_heap s))"
  using schedule_Inr(2,3) [OF assms] by (simp_all add: heapq.push_elems)

lemma schedule_action_wf: "schedule k i r m l s = (Inr a, s') \<Longrightarrow> sched_inv s \<Longrightarrow> action_wf a"
  using schedule_Inr [of k i r m l s a s'] schedule_fields [of k i r m l s a s']
  by (auto simp: action_wf_def effective_timestamp_Inr sched_inv_def)

lemma schedule_inv:
  assumes inv: "sched_inv s" and sch: "schedule k i r m l s = (Inr a, s')"
  shows "sched_inv s'"
proof -
  note f = schedule_fields [OF sch] and r = schedule_Inr [OF sch]
  have new: "sa_sequence a \<notin> sa_sequence ` set (sch_heap s)"
    using inv f(2) by (auto simp: sched_inv_def)
  have "distinct (map sa_sequence (sch_heap s'))"
  proof -
    have "mset (map sa_sequence (sch_heap s'))
        = add_mset (sa_sequence a) (mset (map sa_sequence (sch_heap s)))"
      using f(12) by (metis image_mset_add_mset mset_map)
    then have "mset (map sa_sequence (sch_heap s')) = mset (sa_sequence a # map sa_sequence (sch_heap s))"
      by simp
    moreover have "distinct (sa_sequence a # map sa_sequence (sch_heap s))"
      using inv new by (simp add: sched_inv_def)
    ultimately show ?thesis by (metis mset_eq_imp_distinct_iff)
  qed
  moreover have "sorted (map heap_key (sch_heap s'))"
    using inv r(3) by (simp add: sched_inv_def)
  moreover have "action_wf a" by (rule schedule_action_wf [OF sch inv])
  ultimately show ?thesis
    using inv f r by (fastforce simp: sched_inv_def effective_timestamp_Inr)
qed

subsection \<open>Releasing\<close>

lemma is_due_downward: "is_due t b y \<Longrightarrow> heap_key x \<le> heap_key y \<Longrightarrow> is_due t b x"
  by (auto simp: is_due_def heap_key_def less_eq_prod_def)

lemma is_due_iff: "is_due t b a \<longleftrightarrow> sa_effective_timestamp_ns a < t \<or> b \<and> sa_effective_timestamp_ns a = t"
  by (auto simp: is_due_def)

lemma is_due_False: "is_due t False = (\<lambda>a. sa_effective_timestamp_ns a < t)"
  by (auto simp: is_due_def)

lemma is_due_True: "is_due t True = (\<lambda>a. sa_effective_timestamp_ns a \<le> t)"
  by (auto simp: is_due_def)

lemma pop_due_frame:
  assumes "pop_due t b s = (as, s')"
  shows "s' = s\<lparr>sch_heap := sch_heap s'\<rparr>"
    "heap_pop_while (is_due t b) (sch_heap s) = (as, sch_heap s')"
  using assms by (auto simp: pop_due_def split: prod.splits)

lemma pop_due_exact:
  assumes "sorted (map heap_key (sch_heap s))" "pop_due t b s = (as, s')"
  shows "mset as = filter_mset (is_due t b) (mset (sch_heap s))"
    and "mset (sch_heap s') = filter_mset (\<lambda>a. \<not> is_due t b a) (mset (sch_heap s))"
    and "sorted (map heap_key as)" "sorted (map heap_key (sch_heap s'))"
    and "mset (sch_heap s) = mset as + mset (sch_heap s')"
proof -
  note pop = pop_due_frame(2) [OF assms(2)]
  show "mset as = filter_mset (is_due t b) (mset (sch_heap s))"
    "mset (sch_heap s') = filter_mset (\<lambda>a. \<not> is_due t b a) (mset (sch_heap s))"
    using heapq.pop_exact [OF assms(1) pop is_due_downward] by simp_all
  show "sorted (map heap_key as)" "sorted (map heap_key (sch_heap s'))"
    using heapq.pop_sorted [OF assms(1) pop] heapq.pop_wf [OF assms(1) pop] by simp_all
  show "mset (sch_heap s) = mset as + mset (sch_heap s')"
    by (rule heapq.pop_elems [OF pop])
qed

lemma pop_due_sets:
  assumes "sorted (map heap_key (sch_heap s))" "pop_due t b s = (as, s')"
  shows "set as = {a \<in> set (sch_heap s). is_due t b a}"
    and "set (sch_heap s') = {a \<in> set (sch_heap s). \<not> is_due t b a}"
  using pop_due_exact(1,2) [OF assms]
  by (metis set_mset_filter set_mset_mset)+

lemma pop_due_distinct:
  assumes "sorted (map heap_key (sch_heap s))" "distinct (map sa_sequence (sch_heap s))"
    "pop_due t b s = (as, s')"
  shows "distinct (map sa_sequence as)" "distinct (map sa_sequence (sch_heap s'))"
proof -
  have "mset (map sa_sequence (sch_heap s)) = mset (map sa_sequence as @ map sa_sequence (sch_heap s'))"
    using pop_due_exact(5) [OF assms(1,3)] by simp
  with assms(2) have "distinct (map sa_sequence as @ map sa_sequence (sch_heap s'))"
    by (metis mset_eq_imp_distinct_iff)
  then show "distinct (map sa_sequence as)" "distinct (map sa_sequence (sch_heap s'))"
    by simp_all
qed

lemma actions_before_market_Inl: "actions_before_market t m s = (Inl e, s') \<Longrightarrow> s' = s"
  by (auto simp: actions_before_market_def Let_def split: sum.splits if_splits prod.splits)

lemma actions_before_market_Inr:
  assumes "actions_before_market t m s = (Inr as, s')"
  shows "validate_market_key s t m = Inr ()"
    and "\<not> some_ge (sch_completed_market_timestamp_ns s) t"
    and "\<exists>s1. pop_due t False s = (as, s1) \<and>
      s' = s1\<lparr>sch_last_market_timestamp_ns := Some t, sch_last_market_message_index := Some m,
             sch_completed_market_timestamp_ns :=
               (if some_lt (sch_last_market_timestamp_ns s) t then sch_last_market_timestamp_ns s
                else sch_completed_market_timestamp_ns s)\<rparr>"
  using assms
  by (auto simp: actions_before_market_def pop_due_def Let_def
      split: sum.splits if_splits prod.splits)

lemma validate_market_key_Inr:
  "validate_market_key s t m = Inr () \<longleftrightarrow>
     0 \<le> t \<and> t \<le> MAX_TIMESTAMP_NS \<and> 0 \<le> m \<and> m \<le> MAX_UINT64
   \<and> (\<forall>u. sch_last_market_timestamp_ns s = Some u \<longrightarrow> u \<le> t)
   \<and> (\<forall>i. sch_last_market_message_index s = Some i \<longrightarrow> i < m)"
  by (auto simp: validate_market_key_def valid_int_def some_gt_def some_ge_def split: option.splits)

lemma actions_before_market_inv:
  assumes inv: "sched_inv s" and run: "actions_before_market t m s = (Inr as, s')"
  shows "sched_inv s'"
proof -
  obtain s1 where pop: "pop_due t False s = (as, s1)" and
    s': "s' = s1\<lparr>sch_last_market_timestamp_ns := Some t, sch_last_market_message_index := Some m,
             sch_completed_market_timestamp_ns :=
               (if some_lt (sch_last_market_timestamp_ns s) t then sch_last_market_timestamp_ns s
                else sch_completed_market_timestamp_ns s)\<rparr>"
    using actions_before_market_Inr(3) [OF run] by blast
  have srt: "sorted (map heap_key (sch_heap s))" and dst: "distinct (map sa_sequence (sch_heap s))"
    using inv by (simp_all add: sched_inv_def)
  note fr = pop_due_frame(1) [OF pop] and sets = pop_due_sets [OF srt pop]
    and ex = pop_due_exact(4) [OF srt pop] and d = pop_due_distinct(2) [OF srt dst pop]
  have sub: "set (sch_heap s1) \<subseteq> set (sch_heap s)" using sets(2) by auto
  have late: "\<forall>a \<in> set (sch_heap s1). t \<le> sa_effective_timestamp_ns a"
    using sets(2) by (auto simp: is_due_iff)
  have nxt: "sch_next_sequence s1 = sch_next_sequence s"
    by (subst fr) simp
  note key = actions_before_market_Inr(1) [OF run, unfolded validate_market_key_Inr]
  show ?thesis
    unfolding sched_inv_def s' using inv ex d sub late nxt key
    by (auto simp: sched_inv_def some_lt_def split: option.splits if_splits)
qed

lemma actions_after_market_timestamp_Inl:
  "actions_after_market_timestamp t s = (Inl e, s') \<Longrightarrow> s' = s"
  by (auto simp: actions_after_market_timestamp_def split: if_splits prod.splits)

lemma actions_after_market_timestamp_Inr:
  assumes "actions_after_market_timestamp t s = (Inr as, s')"
  shows "sch_last_market_timestamp_ns s = Some t" "0 \<le> t" "t \<le> MAX_TIMESTAMP_NS"
    and "\<not> some_ge (sch_completed_market_timestamp_ns s) t"
    and "\<exists>s1. pop_due t True s = (as, s1) \<and> s' = s1\<lparr>sch_completed_market_timestamp_ns := Some t\<rparr>"
  using assms
  by (auto simp: actions_after_market_timestamp_def valid_int_def split: if_splits prod.splits)

lemma actions_after_market_timestamp_inv:
  assumes inv: "sched_inv s" and run: "actions_after_market_timestamp t s = (Inr as, s')"
  shows "sched_inv s'"
proof -
  obtain s1 where pop: "pop_due t True s = (as, s1)"
    and s': "s' = s1\<lparr>sch_completed_market_timestamp_ns := Some t\<rparr>"
    using actions_after_market_timestamp_Inr(5) [OF run] by blast
  have srt: "sorted (map heap_key (sch_heap s))" and dst: "distinct (map sa_sequence (sch_heap s))"
    using inv by (simp_all add: sched_inv_def)
  note fr = pop_due_frame(1) [OF pop] and sets = pop_due_sets [OF srt pop]
    and ex = pop_due_exact(4) [OF srt pop] and d = pop_due_distinct(2) [OF srt dst pop]
  have sub: "set (sch_heap s1) \<subseteq> set (sch_heap s)" using sets(2) by auto
  have late: "\<forall>a \<in> set (sch_heap s1). t < sa_effective_timestamp_ns a"
    using sets(2) by (auto simp: is_due_iff)
  have nxt: "sch_next_sequence s1 = sch_next_sequence s"
    and lt: "sch_last_market_timestamp_ns s1 = sch_last_market_timestamp_ns s"
    and li: "sch_last_market_message_index s1 = sch_last_market_message_index s"
    by (subst fr, simp)+
  note k = actions_after_market_timestamp_Inr(1-3) [OF run]
  show ?thesis
    unfolding sched_inv_def s' using inv ex d sub late nxt lt li k
    by (auto simp: sched_inv_def)
qed

section \<open>The scheduler as a machine\<close>

text \<open>The three calls that change a scheduler, and what they return.\<close>

datatype scheduler_call =
    Call_schedule scheduled_action_kind int int int int
  | Call_before_market int int
  | Call_after_timestamp int

datatype scheduler_reply =
    Scheduled scheduled_action
  | Released "scheduled_action list"

fun scheduler_step :: "latency_scheduler \<Rightarrow> scheduler_call \<Rightarrow> scheduler_reply result \<times> latency_scheduler"
where
  "scheduler_step s (Call_schedule k i r m l) =
     (case schedule k i r m l s of (Inl e, s') \<Rightarrow> (Inl e, s') | (Inr a, s') \<Rightarrow> (Inr (Scheduled a), s'))"
| "scheduler_step s (Call_before_market t m) =
     (case actions_before_market t m s of
        (Inl e, s') \<Rightarrow> (Inl e, s') | (Inr as, s') \<Rightarrow> (Inr (Released as), s'))"
| "scheduler_step s (Call_after_timestamp t) =
     (case actions_after_market_timestamp t s of
        (Inl e, s') \<Rightarrow> (Inl e, s') | (Inr as, s') \<Rightarrow> (Inr (Released as), s'))"

fun scheduled_in :: "scheduler_reply \<Rightarrow> scheduled_action list" where
  "scheduled_in (Scheduled a) = [a]"
| "scheduled_in (Released as) = []"

fun released_in :: "scheduler_reply \<Rightarrow> scheduled_action list" where
  "released_in (Scheduled a) = []"
| "released_in (Released as) = as"

lemma scheduler_step_Inr:
  assumes "scheduler_step s c = (Inr r, s')"
  obtains (schedule) k i q m l a where "c = Call_schedule k i q m l" "r = Scheduled a"
      "schedule k i q m l s = (Inr a, s')"
    | (before) t m as where "c = Call_before_market t m" "r = Released as"
      "actions_before_market t m s = (Inr as, s')"
    | (after) t as where "c = Call_after_timestamp t" "r = Released as"
      "actions_after_market_timestamp t s = (Inr as, s')"
  using assms by (cases c) (auto split: prod.splits sum.splits)

interpretation scheduler: atomic_machine scheduler_step sched_inv
proof unfold_locales
  fix s c r s'
  assume "sched_inv s" "scheduler_step s c = (Inr r, s')"
  then show "sched_inv s'"
    by (auto elim!: scheduler_step_Inr intro: schedule_inv actions_before_market_inv
        actions_after_market_timestamp_inv)
next
  fix s c e s'
  assume "scheduler_step s c = (Inl e, s')"
  then show "s' = s"
    by (cases c) (auto split: prod.splits sum.splits dest: schedule_Inl actions_before_market_Inl
        actions_after_market_timestamp_Inl)
qed

subsection \<open>One call\<close>

lemma before_market_heap:
  assumes "sched_inv s" "actions_before_market t m s = (Inr as, s')"
  shows "mset as = filter_mset (\<lambda>a. sa_effective_timestamp_ns a < t) (mset (sch_heap s))"
    and "mset (sch_heap s') = filter_mset (\<lambda>a. t \<le> sa_effective_timestamp_ns a) (mset (sch_heap s))"
    and "sorted (map heap_key as)" "mset (sch_heap s) = mset as + mset (sch_heap s')"
proof -
  obtain s1 where pop: "pop_due t False s = (as, s1)" and heap: "sch_heap s' = sch_heap s1"
    using actions_before_market_Inr(3) [OF assms(2)] by auto
  have srt: "sorted (map heap_key (sch_heap s))" using assms(1) by (simp add: sched_inv_def)
  show "mset as = filter_mset (\<lambda>a. sa_effective_timestamp_ns a < t) (mset (sch_heap s))"
    "mset (sch_heap s') = filter_mset (\<lambda>a. t \<le> sa_effective_timestamp_ns a) (mset (sch_heap s))"
    "sorted (map heap_key as)" "mset (sch_heap s) = mset as + mset (sch_heap s')"
    using pop_due_exact [OF srt pop, unfolded is_due_False not_less] unfolding heap by - (assumption+)
qed

lemma after_timestamp_heap:
  assumes "sched_inv s" "actions_after_market_timestamp t s = (Inr as, s')"
  shows "mset as = filter_mset (\<lambda>a. sa_effective_timestamp_ns a \<le> t) (mset (sch_heap s))"
    and "mset (sch_heap s') = filter_mset (\<lambda>a. t < sa_effective_timestamp_ns a) (mset (sch_heap s))"
    and "sorted (map heap_key as)" "mset (sch_heap s) = mset as + mset (sch_heap s')"
proof -
  obtain s1 where pop: "pop_due t True s = (as, s1)" and heap: "sch_heap s' = sch_heap s1"
    using actions_after_market_timestamp_Inr(5) [OF assms(2)] by auto
  have srt: "sorted (map heap_key (sch_heap s))" using assms(1) by (simp add: sched_inv_def)
  show "mset as = filter_mset (\<lambda>a. sa_effective_timestamp_ns a \<le> t) (mset (sch_heap s))"
    "mset (sch_heap s') = filter_mset (\<lambda>a. t < sa_effective_timestamp_ns a) (mset (sch_heap s))"
    "sorted (map heap_key as)" "mset (sch_heap s) = mset as + mset (sch_heap s')"
    using pop_due_exact [OF srt pop, unfolded is_due_True not_le] unfolding heap by - (assumption+)
qed

lemma step_conserves:
  assumes "sched_inv s" "scheduler_step s c = (Inr r, s')"
  shows "mset (sch_heap s) + mset (scheduled_in r) = mset (released_in r) + mset (sch_heap s')"
  using assms(2)
proof (cases rule: scheduler_step_Inr)
  case (schedule k i q m l a)
  then show ?thesis using schedule_fields(12) by simp
next
  case (before t m as)
  then show ?thesis using before_market_heap(4) [OF assms(1)] by simp
next
  case (after t as)
  then show ?thesis using after_timestamp_heap(4) [OF assms(1)] by simp
qed

lemma step_sequences:
  assumes "scheduler_step s c = (Inr r, s')"
  shows "map sa_sequence (scheduled_in r) = [sch_next_sequence s .. sch_next_sequence s' - 1]"
    and "sch_next_sequence s \<le> sch_next_sequence s'"
proof -
  have "map sa_sequence (scheduled_in r) = [sch_next_sequence s .. sch_next_sequence s' - 1]
      \<and> sch_next_sequence s \<le> sch_next_sequence s'"
    using assms
  proof (cases rule: scheduler_step_Inr)
    case (schedule k i q m l a)
    then show ?thesis using schedule_fields(2,10) by simp
  next
    case (before t m as)
    then have "sch_next_sequence s' = sch_next_sequence s"
      using actions_before_market_Inr(3) by (fastforce dest: pop_due_frame(1) arg_cong [where f = sch_next_sequence])
    with before show ?thesis by simp
  next
    case (after t as)
    then have "sch_next_sequence s' = sch_next_sequence s"
      using actions_after_market_timestamp_Inr(5) by (fastforce dest: pop_due_frame(1) arg_cong [where f = sch_next_sequence])
    with after show ?thesis by simp
  qed
  then show "map sa_sequence (scheduled_in r) = [sch_next_sequence s .. sch_next_sequence s' - 1]"
    "sch_next_sequence s \<le> sch_next_sequence s'" by simp_all
qed

text \<open>
  The last completed timestamp never decreases, and whatever is released after it becomes
  effective later than it.
\<close>

lemma step_completed:
  assumes inv: "sched_inv s" and c: "sch_completed_market_timestamp_ns s = Some c"
    and st: "scheduler_step s call = (Inr r, s')"
  shows "\<exists>c'. sch_completed_market_timestamp_ns s' = Some c' \<and> c \<le> c'"
    and "a \<in> set (released_in r) \<Longrightarrow> c < sa_effective_timestamp_ns a"
proof -
  have old: "\<forall>a \<in> set (sch_heap s). c < sa_effective_timestamp_ns a"
    using inv c by (simp add: sched_inv_def)
  have "mset (released_in r) \<subseteq># mset (sch_heap s) \<or> released_in r = []"
    using step_conserves [OF inv st] by (cases r) (auto simp: mset_subset_eq_add_left)
  with old show "a \<in> set (released_in r) \<Longrightarrow> c < sa_effective_timestamp_ns a"
    by (auto dest: mset_subset_eqD)
  show "\<exists>c'. sch_completed_market_timestamp_ns s' = Some c' \<and> c \<le> c'"
    using st
  proof (cases rule: scheduler_step_Inr)
    case (schedule k i q m l a)
    then show ?thesis using schedule_fields(9) c by auto
  next
    case (before t m as)
    from inv c obtain u where "sch_last_market_timestamp_ns s = Some u" "c \<le> u"
      by (auto simp: sched_inv_def)
    then show ?thesis using actions_before_market_Inr(3) [OF before(3)] c by auto
  next
    case (after t as)
    then show ?thesis using actions_after_market_timestamp_Inr(4,5) [OF after(3)] c by auto
  qed
qed

lemma run_completed:
  assumes "sched_inv s" "sch_completed_market_timestamp_ns s = Some c"
    "run_steps scheduler_step s calls = (Inr rs, s')"
  shows "(\<exists>c'. sch_completed_market_timestamp_ns s' = Some c' \<and> c \<le> c')
    \<and> (\<forall>r \<in> set rs. \<forall>a \<in> set (released_in r). c < sa_effective_timestamp_ns a)"
  using assms
proof (induction calls arbitrary: s c rs)
  case Nil
  then show ?case by auto
next
  case (Cons call calls)
  from Cons.prems(3) obtain r rs' t where st: "scheduler_step s call = (Inr r, t)"
    and run: "run_steps scheduler_step t calls = (Inr rs', s')" and rs: "rs = r # rs'"
    by (auto simp only: run_steps_Cons_Inr)
  obtain c1 where c1: "sch_completed_market_timestamp_ns t = Some c1" "c \<le> c1"
    using step_completed(1) [OF Cons.prems(1,2) st] by blast
  have "sched_inv t" by (rule scheduler.step_inv [OF Cons.prems(1) st])
  from Cons.IH [OF this c1(1) run] step_completed(2) [OF Cons.prems(1,2) st] c1(2) rs
  show ?case by fastforce
qed

lemma run_conserves:
  assumes "sched_inv s" "run_steps scheduler_step s calls = (Inr rs, s')"
  shows "mset (sch_heap s) + mset (concat (map scheduled_in rs))
      = mset (concat (map released_in rs)) + mset (sch_heap s')
    \<and> map sa_sequence (concat (map scheduled_in rs)) = [sch_next_sequence s .. sch_next_sequence s' - 1]
    \<and> sch_next_sequence s \<le> sch_next_sequence s'"
  using assms
proof (induction calls arbitrary: s rs)
  case Nil
  then show ?case by simp
next
  case (Cons call calls)
  from Cons.prems(2) obtain r rs' t where st: "scheduler_step s call = (Inr r, t)"
    and run: "run_steps scheduler_step t calls = (Inr rs', s')" and rs: "rs = r # rs'"
    by (auto simp only: run_steps_Cons_Inr)
  have inv: "sched_inv t" by (rule scheduler.step_inv [OF Cons.prems(1) st])
  note IH = Cons.IH [OF inv run] and c = step_conserves [OF Cons.prems(1) st]
    and q = step_sequences [OF st]
  have "mset (sch_heap s) + mset (scheduled_in r) + mset (concat (map scheduled_in rs'))
      = mset (released_in r) + (mset (sch_heap t) + mset (concat (map scheduled_in rs')))"
    by (simp add: c add.assoc)
  moreover have "[sch_next_sequence s .. sch_next_sequence t - 1] @ [sch_next_sequence t .. sch_next_sequence s' - 1]
      = [sch_next_sequence s .. sch_next_sequence s' - 1]"
    using q(2) IH upto_split2 [of "sch_next_sequence s" "sch_next_sequence t - 1" "sch_next_sequence s' - 1"]
    by (cases "sch_next_sequence s = sch_next_sequence t") auto
  ultimately show ?case using IH q rs by (simp add: ac_simps)
qed

text \<open>A scheduler with two pending actions, reached by calls, for the witnesses.\<close>

definition demo_scheduler :: latency_scheduler where
  "demo_scheduler = snd (run_steps scheduler_step new_scheduler
     [Call_before_market 10 1, Call_schedule ACTIVATE 7 10 1 5, Call_schedule CANCEL 8 10 1 20])"

lemma demo_scheduler_run:
  "\<exists>rs. run_steps scheduler_step new_scheduler
     [Call_before_market 10 1, Call_schedule ACTIVATE 7 10 1 5, Call_schedule CANCEL 8 10 1 20]
       = (Inr rs, demo_scheduler)"
  unfolding demo_scheduler_def by (rule exI [of _ "projr (fst (run_steps scheduler_step new_scheduler
     [Call_before_market 10 1, Call_schedule ACTIVATE 7 10 1 5, Call_schedule CANCEL 8 10 1 20]))"])
    code_simp

lemma demo_scheduler_inv: "sched_inv demo_scheduler"
  using demo_scheduler_run scheduler.run_inv [OF sched_inv_new] by blast

section \<open>Properties\<close>

text \<open>
  C1: opening a market message at \<open>t\<close> releases exactly the pending actions that become
  effective strictly before \<open>t\<close>, in order of effective time and then of scheduling, and keeps
  exactly the others: the market goes first at equal timestamps.
\<close>

theorem actions_before_market_exact:
  assumes "sched_inv s" "actions_before_market t m s = (Inr as, s')"
  shows "mset as = filter_mset (\<lambda>a. sa_effective_timestamp_ns a < t) (mset (sch_heap s))
    \<and> mset (sch_pending_actions s') = filter_mset (\<lambda>a. t \<le> sa_effective_timestamp_ns a) (mset (sch_heap s))
    \<and> sorted (map heap_key as)
    \<and> current_market_key s' = Some (t, m) \<and> \<not> current_market_timestamp_completed s'"
proof -
  have "current_market_key s' = Some (t, m) \<and> \<not> current_market_timestamp_completed s'"
    using actions_before_market_Inr(2,3) [OF assms(2)]
    by (auto simp: current_market_key_def current_market_timestamp_completed_def
        some_lt_def some_ge_def split: option.splits if_splits)
  then show ?thesis
    using before_market_heap(1-3) [OF assms] by (simp add: sch_pending_actions_def)
qed

theorem actions_before_market_exact_witness:
  "\<exists>as s'. actions_before_market 20 2 demo_scheduler = (Inr as, s')
    \<and> mset as = filter_mset (\<lambda>a. sa_effective_timestamp_ns a < 20) (mset (sch_heap demo_scheduler))
    \<and> map sa_simulated_order_id as = [7]"
proof -
  let ?r = "actions_before_market 20 2 demo_scheduler"
  have run: "succeeded ?r" by code_simp
  have "map sa_simulated_order_id (projr (fst ?r)) = [7]" by code_simp
  with actions_before_market_exact [OF demo_scheduler_inv succeededD [OF run]] show ?thesis
    by (intro succeeded_ex [OF run]) blast
qed

text \<open>
  C2: no action is lost, duplicated or invented. Over any run of calls that succeed from a new
  scheduler, what was scheduled is what was released plus what is still pending, and the
  sequence numbers are 0, 1, 2, and so on.
\<close>

theorem scheduler_exactly_once:
  assumes "run_steps scheduler_step new_scheduler calls = (Inr rs, s)"
  shows "mset (concat (map scheduled_in rs)) = mset (concat (map released_in rs)) + mset (sch_heap s)
    \<and> map sa_sequence (concat (map scheduled_in rs)) = [0 .. sch_next_sequence s - 1]"
  using run_conserves [OF sched_inv_new assms] by (simp add: new_scheduler_def)

theorem scheduler_exactly_once_witness:
  "\<exists>rs. run_steps scheduler_step new_scheduler
     [Call_before_market 10 1, Call_schedule ACTIVATE 7 10 1 5, Call_schedule CANCEL 8 10 1 20]
       = (Inr rs, demo_scheduler)
    \<and> map sa_sequence (concat (map scheduled_in rs)) = [0 .. sch_next_sequence demo_scheduler - 1]
    \<and> sch_next_sequence demo_scheduler = 2"
proof -
  obtain rs where run: "run_steps scheduler_step new_scheduler
     [Call_before_market 10 1, Call_schedule ACTIVATE 7 10 1 5, Call_schedule CANCEL 8 10 1 20]
       = (Inr rs, demo_scheduler)" using demo_scheduler_run by blast
  moreover have "sch_next_sequence demo_scheduler = 2" by code_simp
  ultimately show ?thesis using scheduler_exactly_once [OF run] by blast
qed

text \<open>
  a completed timestamp stays completed. After \<open>actions_after_market_timestamp c\<close>, whatever
  calls follow, every action released later is effective after \<open>c\<close>, and a market message or a
  request at or before \<open>c\<close> is refused.
\<close>

theorem completed_timestamp_is_final:
  assumes "sched_inv s" "actions_after_market_timestamp c s = (Inr as, s1)"
    "run_steps scheduler_step s1 calls = (Inr rs, s2)"
  shows "(\<forall>r \<in> set rs. \<forall>a \<in> set (released_in r). c < sa_effective_timestamp_ns a)
    \<and> (\<forall>t m. t \<le> c \<longrightarrow> (\<exists>e. actions_before_market t m s2 = (Inl e, s2)))
    \<and> (\<forall>k i t m l. t \<le> c \<longrightarrow> (\<exists>e. schedule k i t m l s2 = (Inl e, s2)))"
proof -
  have inv: "sched_inv s1" by (rule actions_after_market_timestamp_inv [OF assms(1,2)])
  have "sch_completed_market_timestamp_ns s1 = Some c"
    using actions_after_market_timestamp_Inr(5) [OF assms(2)] by auto
  from run_completed [OF inv this assms(3)] obtain c' where
    c': "sch_completed_market_timestamp_ns s2 = Some c'" "c \<le> c'"
    and rel: "\<forall>r \<in> set rs. \<forall>a \<in> set (released_in r). c < sa_effective_timestamp_ns a" by blast
  have "\<exists>e. actions_before_market t m s2 = (Inl e, s2)" if "t \<le> c" for t m
    using that c' actions_before_market_Inr(2) [of t m s2] actions_before_market_Inl [of t m s2]
    by (cases "actions_before_market t m s2"; cases "fst (actions_before_market t m s2)") auto
  moreover have "\<exists>e. schedule k i t m l s2 = (Inl e, s2)" if "t \<le> c" for k i t m l
    using that c' schedule_Inr(8) [of k i t m l s2] schedule_Inl [of k i t m l s2]
    by (cases "schedule k i t m l s2"; cases "fst (schedule k i t m l s2)") auto
  ultimately show ?thesis using rel by blast
qed

theorem completed_timestamp_is_final_witness:
  "\<exists>as s1 rs s2. actions_after_market_timestamp 10 demo_scheduler = (Inr as, s1)
    \<and> run_steps scheduler_step s1 [Call_before_market 40 2] = (Inr rs, s2)
    \<and> concat (map released_in rs) \<noteq> []
    \<and> (\<exists>e. actions_before_market 10 3 s2 = (Inl e, s2))"
proof -
  let ?a = "actions_after_market_timestamp 10 demo_scheduler"
  let ?b = "run_steps scheduler_step (snd ?a) [Call_before_market 40 2]"
  have a: "?a = (Inr (projr (fst ?a)), snd ?a)" by code_simp
  have b: "?b = (Inr (projr (fst ?b)), snd ?b)" by code_simp
  have "concat (map released_in (projr (fst ?b))) \<noteq> []" by code_simp
  with a b completed_timestamp_is_final [OF demo_scheduler_inv a b] show ?thesis
    by (metis order_refl)
qed

end
