(* ===== verification/State_Machine.thy ===== *)
theory State_Machine
  imports Scheduler
begin

text \<open>
  \<open>simulation/state_machine.py\<close>: \<open>OrderStateMachine\<close>, which owns the simulated orders, the
  occupied symbol-side slots and the scheduled actions, and applies lifecycle transitions.

  The activation resolver is the callable that the queue model passes in. It may raise and it
  may change its owner's state (of type \<open>'q\<close>), so it is a method on \<open>'q\<close>, and the operations that
  call it work on the pair of both states. An absent resolver (\<open>None\<close> in Python) is \<open>None\<close>.
\<close>

section \<open>State and operations\<close>

datatype transition_cause =
  CAUSE_SUBMITTED | CAUSE_ACTIVATED | CAUSE_CANCEL_REQUESTED | CAUSE_CANCELLED
  | CAUSE_PARTIAL_FILL | CAUSE_FILLED | CAUSE_EXPIRED | CAUSE_REJECTED | CAUSE_INVALIDATED

record order_transition =
  ot_simulated_order_id :: int
  ot_before_state :: "order_state option"
  ot_after_state :: order_state
  ot_cause :: transition_cause
  ot_timestamp_ns :: int
  ot_market_message_index :: "int option"
  ot_quantity :: "int option"
  ot_rejection_reason :: "rejection_reason option"

record order_state_machine =
  sm_submission_latency_ns :: int
  sm_cancellation_latency_ns :: int
  sm_scheduler :: latency_scheduler
  sm_orders :: "(int, simulated_order) dict"
  sm_occupied_slots :: "(int \<times> int, int) dict"
  sm_scheduled_actions :: "(int, scheduled_action) dict"

type_synonym 'q activation_queue_resolver = "simulated_order \<Rightarrow> ('q, int option) smethod"

definition new_state_machine :: "int \<Rightarrow> int \<Rightarrow> order_state_machine result" where
  "new_state_machine submission_latency_ns cancellation_latency_ns = (
     case effective_timestamp 0 submission_latency_ns of Inl e \<Rightarrow> Inl e | Inr _ \<Rightarrow> (
     case effective_timestamp 0 cancellation_latency_ns of Inl e \<Rightarrow> Inl e | Inr _ \<Rightarrow>
     if submission_latency_ns > MAX_LATENCY_NS \<or> cancellation_latency_ns > MAX_LATENCY_NS
       then fail_code ERR_LATENCY
     else Inr \<lparr>sm_submission_latency_ns = submission_latency_ns,
               sm_cancellation_latency_ns = cancellation_latency_ns,
               sm_scheduler = new_scheduler,
               sm_orders = [],
               sm_occupied_slots = [],
               sm_scheduled_actions = []\<rparr>))"

definition sm_order :: "order_state_machine \<Rightarrow> int \<Rightarrow> simulated_order result" where
  "sm_order self order_id = (
     if \<not> valid_int order_id 0 MAX_UINT64 then fail_code ERR_SIMULATION_ANOMALY
     else case dict_get (sm_orders self) order_id of
       None \<Rightarrow> fail_order ERR_SIMULATION_ANOMALY order_id
     | Some order \<Rightarrow> Inr order)"

definition occupied_order :: "order_state_machine \<Rightarrow> int \<Rightarrow> int \<Rightarrow> simulated_order option result"
where
  "occupied_order self symbol_id side = (
     case dict_get (sm_occupied_slots self) (symbol_id, side) of
       None \<Rightarrow> Inr None
     | Some order_id \<Rightarrow> (
       case sm_order self order_id of
         Inl e \<Rightarrow> Inl e
       | Inr order \<Rightarrow>
         if so_terminal order then fail_order ERR_INVARIANT order_id else Inr (Some order)))"

text \<open>\<open>orders\<close>: every owned order in identifier order.\<close>

definition sm_all_orders :: "order_state_machine \<Rightarrow> simulated_order list" where
  "sm_all_orders self = map snd (sort_key fst (sm_orders self))"

definition require_current_market_key :: "order_state_machine \<Rightarrow> int \<Rightarrow> int \<Rightarrow> int \<Rightarrow> unit result"
where
  "require_current_market_key self timestamp_ns msg_index order_id = (
     if current_market_key (sm_scheduler self) \<noteq> Some (timestamp_ns, msg_index)
        \<or> current_market_timestamp_completed (sm_scheduler self)
       then fail_both ERR_SIMULATION_ANOMALY order_id msg_index
     else Inr ())"

definition validate_timestamp :: "int \<Rightarrow> int \<Rightarrow> unit result" where
  "validate_timestamp timestamp_ns order_id =
     (if \<not> valid_int timestamp_ns 0 MAX_TIMESTAMP_NS then fail_order ERR_TIMESTAMP order_id
      else Inr ())"

definition invalid_transition :: "simulated_order \<Rightarrow> 'a result" where
  "invalid_transition order = fail_order ERR_SIMULATION_ANOMALY (so_simulated_order_id order)"

definition order_slot :: "simulated_order \<Rightarrow> int \<times> int" where
  "order_slot order = (so_symbol_id order, so_side order)"

definition commit ::
  "simulated_order \<Rightarrow> simulated_order \<Rightarrow> transition_cause \<Rightarrow> int \<Rightarrow> int option \<Rightarrow> int option
     \<Rightarrow> rejection_reason option \<Rightarrow> (order_state_machine, order_transition) smethod" where
  "commit before after cause timestamp_ns market_message_index quantity reason self = (
     case validate_simulated_order after of
       Inl e \<Rightarrow> (Inl e, self)
     | Inr _ \<Rightarrow>
       if so_terminal after
          \<and> dict_get (sm_occupied_slots self) (order_slot after) \<noteq> Some (so_simulated_order_id after)
         then (fail_order ERR_INVARIANT (so_simulated_order_id after), self)
       else
         let self1 = self\<lparr>sm_orders := dict_set (so_simulated_order_id after) after (sm_orders self)\<rparr>;
             self2 = (if so_terminal after
               then self1\<lparr>sm_occupied_slots := dict_del (order_slot after) (sm_occupied_slots self1)\<rparr>
               else self1)
         in (Inr \<lparr>ot_simulated_order_id = so_simulated_order_id after,
                  ot_before_state = Some (so_state before),
                  ot_after_state = so_state after,
                  ot_cause = cause,
                  ot_timestamp_ns = timestamp_ns,
                  ot_market_message_index = market_message_index,
                  ot_quantity = quantity,
                  ot_rejection_reason = reason\<rparr>, self2))"

definition new_order :: "order_request \<Rightarrow> int \<Rightarrow> simulated_order" where
  "new_order request effective =
     \<lparr>so_simulated_order_id = rq_simulated_order_id request,
      so_decision_message_index = rq_decision_message_index request,
      so_prediction_message_index = rq_prediction_message_index request,
      so_requested_timestamp_ns = rq_requested_timestamp_ns request,
      so_effective_timestamp_ns = effective,
      so_symbol_id = rq_symbol_id request,
      so_side = rq_side request,
      so_price4 = rq_price4 request,
      so_original_quantity = rq_quantity request,
      so_remaining_quantity = rq_quantity request,
      so_queue_ahead_initial = None,
      so_state = PENDING_SUBMIT,
      so_cancel_requested_ns = None,
      so_terminal_timestamp_ns = None,
      so_rejection_reason = None\<rparr>"

definition submit :: "order_request \<Rightarrow> (order_state_machine, order_transition) smethod" where
  "submit request self = (
     let order_id = rq_simulated_order_id request;
         slot = (rq_symbol_id request, rq_side request) in
     case validate_order_request request of Inl e \<Rightarrow> (Inl e, self) | Inr _ \<Rightarrow> (
     case require_current_market_key self (rq_requested_timestamp_ns request)
            (rq_decision_message_index request) order_id of Inl e \<Rightarrow> (Inl e, self) | Inr _ \<Rightarrow>
     if has_key (sm_orders self) order_id
       then (fail_order ERR_SIMULATION_ANOMALY order_id, self)
     else if has_key (sm_occupied_slots self) slot
       then (fail_both ERR_SIMULATION_ANOMALY order_id (rq_decision_message_index request), self)
     else (
     case effective_timestamp (rq_requested_timestamp_ns request) (sm_submission_latency_ns self) of
       Inl e \<Rightarrow> (Inl e, self)
     | Inr effective \<Rightarrow> (
     let order = new_order request effective in
     case validate_simulated_order order of Inl e \<Rightarrow> (Inl e, self) | Inr _ \<Rightarrow> (
     case schedule ACTIVATE order_id (rq_requested_timestamp_ns request)
            (rq_decision_message_index request) (sm_submission_latency_ns self) (sm_scheduler self) of
       (Inl e, sch) \<Rightarrow> (Inl e, self\<lparr>sm_scheduler := sch\<rparr>)
     | (Inr action, sch) \<Rightarrow>
       (Inr \<lparr>ot_simulated_order_id = order_id,
             ot_before_state = None,
             ot_after_state = PENDING_SUBMIT,
             ot_cause = CAUSE_SUBMITTED,
             ot_timestamp_ns = rq_requested_timestamp_ns request,
             ot_market_message_index = Some (rq_decision_message_index request),
             ot_quantity = None,
             ot_rejection_reason = None\<rparr>,
        self\<lparr>sm_scheduler := sch,
             sm_orders := dict_set order_id order (sm_orders self),
             sm_occupied_slots := dict_set slot order_id (sm_occupied_slots self),
             sm_scheduled_actions :=
               dict_set (sa_sequence action) action (sm_scheduled_actions self)\<rparr>))))))"

definition request_cancel ::
  "int \<Rightarrow> int \<Rightarrow> int \<Rightarrow> (order_state_machine, order_transition) smethod" where
  "request_cancel order_id timestamp_ns msg_index self = (
     case sm_order self order_id of Inl e \<Rightarrow> (Inl e, self) | Inr order \<Rightarrow> (
     case require_current_market_key self timestamp_ns msg_index order_id of
       Inl e \<Rightarrow> (Inl e, self)
     | Inr _ \<Rightarrow>
     if so_state order \<notin> {PENDING_SUBMIT, ACTIVE, PARTIALLY_FILLED}
       then (invalid_transition order, self)
     else if so_cancel_requested_ns order \<noteq> None then (invalid_transition order, self)
     else if timestamp_ns < so_requested_timestamp_ns order
          \<or> msg_index < so_decision_message_index order
       then (fail_both ERR_TIMESTAMP order_id msg_index, self)
     else (
     case effective_timestamp timestamp_ns (sm_cancellation_latency_ns self) of
       Inl e \<Rightarrow> (Inl e, self)
     | Inr _ \<Rightarrow> (
     let next_state = (if so_state order = PENDING_SUBMIT then PENDING_SUBMIT else PENDING_CANCEL);
         updated = order\<lparr>so_state := next_state, so_cancel_requested_ns := Some timestamp_ns\<rparr> in
     case validate_simulated_order updated of Inl e \<Rightarrow> (Inl e, self) | Inr _ \<Rightarrow> (
     case schedule CANCEL order_id timestamp_ns msg_index (sm_cancellation_latency_ns self)
            (sm_scheduler self) of
       (Inl e, sch) \<Rightarrow> (Inl e, self\<lparr>sm_scheduler := sch\<rparr>)
     | (Inr action, sch) \<Rightarrow>
       (Inr \<lparr>ot_simulated_order_id = order_id,
             ot_before_state = Some (so_state order),
             ot_after_state = next_state,
             ot_cause = CAUSE_CANCEL_REQUESTED,
             ot_timestamp_ns = timestamp_ns,
             ot_market_message_index = Some msg_index,
             ot_quantity = None,
             ot_rejection_reason = None\<rparr>,
        self\<lparr>sm_scheduler := sch,
             sm_orders := dict_set order_id updated (sm_orders self),
             sm_scheduled_actions :=
               dict_set (sa_sequence action) action (sm_scheduled_actions self)\<rparr>))))))"

definition record_fill ::
  "int \<Rightarrow> int \<Rightarrow> int \<Rightarrow> int \<Rightarrow> (order_state_machine, order_transition) smethod" where
  "record_fill order_id quantity timestamp_ns market_message_index self = (
     case sm_order self order_id of Inl e \<Rightarrow> (Inl e, self) | Inr order \<Rightarrow> (
     case require_current_market_key self timestamp_ns market_message_index order_id of
       Inl e \<Rightarrow> (Inl e, self)
     | Inr _ \<Rightarrow>
     if so_state order = PENDING_SUBMIT
       then (fail_both ERR_LATENCY order_id market_message_index, self)
     else if so_state order \<notin> {ACTIVE, PARTIALLY_FILLED, PENDING_CANCEL}
       then (invalid_transition order, self)
     else if \<not> valid_int quantity 1 (so_remaining_quantity order)
       then (fail_both ERR_QUANTITY order_id market_message_index, self)
     else if timestamp_ns < so_effective_timestamp_ns order
       then (fail_both ERR_LATENCY order_id market_message_index, self)
     else
       let remaining = so_remaining_quantity order - quantity;
           (next_state, cause, terminal_timestamp) =
             (if remaining = 0 then (FILLED, CAUSE_FILLED, Some timestamp_ns)
              else (if so_state order = PENDING_CANCEL then PENDING_CANCEL else PARTIALLY_FILLED,
                    CAUSE_PARTIAL_FILL, None));
           updated = order\<lparr>so_remaining_quantity := remaining, so_state := next_state,
                           so_terminal_timestamp_ns := terminal_timestamp\<rparr>
       in commit order updated cause timestamp_ns (Some market_message_index) (Some quantity) None
            self))"

definition reject :: "int \<Rightarrow> int \<Rightarrow> (order_state_machine, order_transition) smethod" where
  "reject order_id timestamp_ns self = (
     case sm_order self order_id of Inl e \<Rightarrow> (Inl e, self) | Inr order \<Rightarrow>
     if so_state order \<noteq> PENDING_SUBMIT then (invalid_transition order, self)
     else case validate_timestamp timestamp_ns order_id of Inl e \<Rightarrow> (Inl e, self) | Inr _ \<Rightarrow>
     if timestamp_ns < so_effective_timestamp_ns order
       then (fail_order ERR_LATENCY order_id, self)
     else
       let updated = order\<lparr>so_state := REJECTED, so_terminal_timestamp_ns := Some timestamp_ns,
                           so_rejection_reason := Some MARKETABLE_AT_ACTIVATION\<rparr>
       in commit order updated CAUSE_REJECTED timestamp_ns None None
            (Some MARKETABLE_AT_ACTIVATION) self)"

definition invalidate :: "int \<Rightarrow> int \<Rightarrow> int \<Rightarrow> (order_state_machine, order_transition) smethod"
where
  "invalidate order_id timestamp_ns market_message_index self = (
     case sm_order self order_id of Inl e \<Rightarrow> (Inl e, self) | Inr order \<Rightarrow> (
     case require_current_market_key self timestamp_ns market_message_index order_id of
       Inl e \<Rightarrow> (Inl e, self)
     | Inr _ \<Rightarrow>
     if so_state order \<notin> {ACTIVE, PARTIALLY_FILLED, PENDING_CANCEL}
       then (invalid_transition order, self)
     else
       let updated = order\<lparr>so_state := INVALIDATED, so_terminal_timestamp_ns := Some timestamp_ns,
                           so_rejection_reason := Some COUNTERFACTUAL_CROSS\<rparr>
       in commit order updated CAUSE_INVALIDATED timestamp_ns (Some market_message_index) None
            (Some COUNTERFACTUAL_CROSS) self))"

definition expire :: "int \<Rightarrow> int \<Rightarrow> (order_state_machine, order_transition) smethod" where
  "expire order_id timestamp_ns self = (
     case sm_order self order_id of Inl e \<Rightarrow> (Inl e, self) | Inr order \<Rightarrow>
     if so_terminal order then (invalid_transition order, self)
     else case validate_timestamp timestamp_ns order_id of Inl e \<Rightarrow> (Inl e, self) | Inr _ \<Rightarrow>
     if timestamp_ns < so_requested_timestamp_ns order
       then (fail_order ERR_TIMESTAMP order_id, self)
     else
       let updated = order\<lparr>so_state := EXPIRED, so_terminal_timestamp_ns := Some timestamp_ns\<rparr>
       in commit order updated CAUSE_EXPIRED timestamp_ns None None None self)"

subsection \<open>Applying released actions\<close>

text \<open>A method of the state machine, run on the pair of both states.\<close>

definition on_machine :: "('m, 'a) smethod \<Rightarrow> ('m \<times> 'q, 'a) smethod" where
  "on_machine f mq = (case f (fst mq) of (r, m') \<Rightarrow> (r, (m', snd mq)))"

definition on_owner :: "('q, 'a) smethod \<Rightarrow> ('m \<times> 'q, 'a) smethod" where
  "on_owner f mq = (case f (snd mq) of (r, q') \<Rightarrow> (r, (fst mq, q')))"

definition drop_action :: "scheduled_action \<Rightarrow> order_state_machine \<Rightarrow> order_state_machine" where
  "drop_action action self =
     self\<lparr>sm_scheduled_actions := dict_del (sa_sequence action) (sm_scheduled_actions self)\<rparr>"

definition commit_and_drop ::
  "scheduled_action \<Rightarrow> simulated_order \<Rightarrow> simulated_order \<Rightarrow> transition_cause
     \<Rightarrow> rejection_reason option \<Rightarrow> (order_state_machine, order_transition option) smethod" where
  "commit_and_drop action before after cause reason self =
     (case commit before after cause (sa_effective_timestamp_ns action) None None reason self of
        (Inl e, self1) \<Rightarrow> (Inl e, self1)
      | (Inr transition, self1) \<Rightarrow> (Inr (Some transition), drop_action action self1))"

text \<open>
  The queue-ahead quantity at activation: the resolver's checked answer, where \<open>None\<close> asks for
  rejection, or without a resolver the quantity the order already has.
\<close>

definition resolve_queue_ahead ::
  "'q activation_queue_resolver option \<Rightarrow> simulated_order \<Rightarrow> ('q, int option) smethod" where
  "resolve_queue_ahead resolver order q = (
     case resolver of
       None \<Rightarrow> (Inr (so_queue_ahead_initial order), q)
     | Some resolve \<Rightarrow> (
       case resolve order q of
         (Inl e, q') \<Rightarrow> (Inl e, q')
       | (Inr answer, q') \<Rightarrow>
         if opt_outside answer 0 MAX_UINT64
           then (fail_order ERR_QUEUE_STATE (so_simulated_order_id order), q')
         else (Inr answer, q')))"

definition apply_action ::
  "'q activation_queue_resolver option \<Rightarrow> scheduled_action
     \<Rightarrow> (order_state_machine \<times> 'q, order_transition option) smethod" where
  "apply_action resolver action mq = (
     let self = fst mq in
     if dict_get (sm_scheduled_actions self) (sa_sequence action) \<noteq> Some action
       then (fail_order ERR_SIMULATION_ANOMALY (sa_simulated_order_id action), mq)
     else case sm_order self (sa_simulated_order_id action) of Inl e \<Rightarrow> (Inl e, mq) | Inr order \<Rightarrow>
     if so_terminal order then (Inr None, (drop_action action self, snd mq))
     else case sa_kind action of
       ACTIVATE \<Rightarrow>
         if so_state order \<noteq> PENDING_SUBMIT then (invalid_transition order, mq)
         else bindM (on_owner (resolve_queue_ahead resolver order)) (\<lambda>queue_ahead_initial.
           if resolver \<noteq> None \<and> queue_ahead_initial = None
             then on_machine (commit_and_drop action order
                 (order\<lparr>so_state := REJECTED,
                        so_terminal_timestamp_ns := Some (sa_effective_timestamp_ns action),
                        so_rejection_reason := Some MARKETABLE_AT_ACTIVATION\<rparr>)
                 CAUSE_REJECTED (Some MARKETABLE_AT_ACTIVATION))
           else on_machine (commit_and_drop action order
                 (order\<lparr>so_queue_ahead_initial := queue_ahead_initial,
                        so_state := (if so_cancel_requested_ns order \<noteq> None
                                     then PENDING_CANCEL else ACTIVE)\<rparr>)
                 CAUSE_ACTIVATED None)) mq
     | CANCEL \<Rightarrow>
         if so_state order \<notin> {PENDING_SUBMIT, PENDING_CANCEL} then (invalid_transition order, mq)
         else if so_cancel_requested_ns order = None then (invalid_transition order, mq)
         else on_machine (commit_and_drop action order
                 (order\<lparr>so_state := CANCELLED,
                        so_terminal_timestamp_ns := Some (sa_effective_timestamp_ns action)\<rparr>)
                 CAUSE_CANCELLED None) mq)"

definition apply_actions ::
  "'q activation_queue_resolver option \<Rightarrow> scheduled_action list
     \<Rightarrow> (order_state_machine \<times> 'q, order_transition list) smethod" where
  "apply_actions resolver actions =
     bindM (forM (apply_action resolver) actions) (\<lambda>ts. returnM (List.map_filter id ts))"

definition on_scheduler :: "(latency_scheduler, 'a) smethod \<Rightarrow> (order_state_machine, 'a) smethod" where
  "on_scheduler f self = (case f (sm_scheduler self) of (r, sch) \<Rightarrow> (r, self\<lparr>sm_scheduler := sch\<rparr>))"

definition before_market_event ::
  "int \<Rightarrow> int \<Rightarrow> 'q activation_queue_resolver option
     \<Rightarrow> (order_state_machine \<times> 'q, order_transition list) smethod" where
  "before_market_event timestamp_ns msg_index resolver =
     bindM (on_machine (on_scheduler (actions_before_market timestamp_ns msg_index)))
       (apply_actions resolver)"

definition after_market_timestamp ::
  "int \<Rightarrow> 'q activation_queue_resolver option
     \<Rightarrow> (order_state_machine \<times> 'q, order_transition list) smethod" where
  "after_market_timestamp timestamp_ns resolver =
     bindM (on_machine (on_scheduler (actions_after_market_timestamp timestamp_ns)))
       (apply_actions resolver)"

definition sm_pending_actions :: "order_state_machine \<Rightarrow> scheduled_action list" where
  "sm_pending_actions self = sch_pending_actions (sm_scheduler self)"

end
