(* ===== verification/Queue_Model.thy ===== *)
theory Queue_Model
  imports Market_Events State_Machine
begin

text \<open>
  \<open>simulation/queue_model.py\<close>: \<open>VisibleQueueModel\<close>, which maintains the visible book, tracks
  the exact quantity ahead of every exposed simulated order, and drives conservative fills.

  The class holds a reference to the state machine it drives. The model keeps the two objects
  apart: the record below has the attributes of the queue model without the state machine, a
  method that touches the queue model only is a method on that record, and a method that also
  calls the state machine is a method on the pair of both.
  Price heaps are lists kept in \<open>heapq\<close> order by \<open>heappush\<close>, see \<open>Heapq\<close>.
\<close>

section \<open>Values and state\<close>

datatype queue_diagnostic_code = EVENT_SKIPPED | DIAG_COUNTERFACTUAL_CROSS | BROKEN_TRADE_OBSERVED

datatype queue_anomaly_reason =
  DUPLICATE_REFERENCE | MISSING_REFERENCE | REFERENCE_MISMATCH | QUANTITY_MISMATCH
  | EXECUTION_BEHIND_AHEAD | DUPLICATE_FILL_MATCH

text \<open>The reason of a diagnostic is a string; these are the values the code passes.\<close>

datatype diagnostic_reason =
  Anomaly queue_anomaly_reason
  | match_not_used_for_simulated_fill
  | execution_progressed_beyond_limit
  | opposite_visible_book_crossed_limit

record queue_diagnostic =
  qd_code :: queue_diagnostic_code
  qd_message_index :: int
  qd_symbol_id :: int
  qd_simulated_order_id :: "int option"
  qd_reason :: diagnostic_reason

record queue_snapshot =
  qs_simulated_order_id :: int
  qs_initial_quantity :: int
  qs_current_quantity :: int
  qs_ahead_references :: "(int \<times> int) list"

record queue_fill =
  qf_simulated_order_id :: int
  qf_market_message_index :: int
  qf_timestamp_ns :: int
  qf_match_number :: int
  qf_price4 :: int
  qf_quantity :: int
  qf_queue_ahead_before :: int
  qf_queue_ahead_after :: int
  qf_remaining_quantity_after :: int

record queue_event_result =
  qr_event :: market_event
  qr_transitions :: "order_transition list"
  qr_fills :: "queue_fill list"
  qr_diagnostics :: "queue_diagnostic list"

record visible_order =
  vo_reference :: int
  vo_symbol_id :: int
  vo_side :: int
  vo_price4 :: int
  vo_remaining_quantity :: int
  vo_priority_message_index :: int

record tracked_queue =
  tq_simulated_order_id :: int
  tq_symbol_id :: int
  tq_side :: int
  tq_price4 :: int
  tq_initial_quantity :: int
  tq_ahead :: "(int, int) dict"

record visible_queue_model =
  vq_max_queue_anomalies :: int
  vq_visible_orders :: "(int, visible_order) dict"
  vq_visible_levels :: "(int \<times> int \<times> int, (int, int) dict) dict"
  vq_price_heaps :: "(int \<times> int, int list) dict"
  vq_heap_prices :: "(int \<times> int, int set) dict"
  vq_queues :: "(int, tracked_queue) dict"
  vq_used_fill_matches :: "(int, int) dict"
  vq_diagnostics :: "queue_diagnostic list"
  vq_anomaly_count :: int

type_synonym queue_state = "order_state_machine \<times> visible_queue_model"

definition MAX_SAFE_JSON_INTEGER :: int where "MAX_SAFE_JSON_INTEGER = 9007199254740991"

definition new_queue_model :: "int \<Rightarrow> visible_queue_model result" where
  "new_queue_model max_queue_anomalies =
     (if \<not> valid_int max_queue_anomalies 0 MAX_SAFE_JSON_INTEGER then fail_code ERR_QUEUE_STATE
      else Inr \<lparr>vq_max_queue_anomalies = max_queue_anomalies, vq_visible_orders = [],
             vq_visible_levels = [], vq_price_heaps = [], vq_heap_prices = [], vq_queues = [],
             vq_used_fill_matches = [], vq_diagnostics = [], vq_anomaly_count = 0\<rparr>)"

text \<open>\<open>cast(int, value)\<close> on a field that validation has found present.\<close>

definition cast_int :: "int option \<Rightarrow> int" where
  "cast_int v = (case v of Some x \<Rightarrow> x | None \<Rightarrow> 0)"

definition level_key :: "visible_order \<Rightarrow> int \<times> int \<times> int" where
  "level_key visible = (vo_symbol_id visible, vo_side visible, vo_price4 visible)"

section \<open>The visible book\<close>

definition encode_price :: "int \<Rightarrow> int \<Rightarrow> int" where
  "encode_price side p = (if side = -1 then p else - p)"

definition insert_visible_order :: "visible_order \<Rightarrow> visible_queue_model \<Rightarrow> visible_queue_model" where
  "insert_visible_order visible self = (
     let self1 = self\<lparr>vq_visible_orders := dict_set (vo_reference visible) visible (vq_visible_orders self)\<rparr>;
         key = level_key visible;
         level = dict_get_default (vq_visible_levels self1) key [];
         side_key = (vo_symbol_id visible, vo_side visible);
         self2 = (if level = [] then
             (let known_prices = dict_get_default (vq_heap_prices self1) side_key {} in
              if vo_price4 visible \<notin> known_prices
              then self1\<lparr>vq_price_heaps := dict_set side_key
                      (heappush id (encode_price (vo_side visible) (vo_price4 visible))
                        (dict_get_default (vq_price_heaps self1) side_key []))
                      (vq_price_heaps self1),
                    vq_heap_prices := dict_set side_key (insert (vo_price4 visible) known_prices)
                      (vq_heap_prices self1)\<rparr>
              else self1\<lparr>vq_heap_prices := dict_set side_key known_prices (vq_heap_prices self1)\<rparr>)
           else self1)
     in self2\<lparr>vq_visible_levels := dict_set key
          (dict_set (vo_reference visible) (vo_remaining_quantity visible) level)
          (vq_visible_levels self2)\<rparr>)"

definition remove_visible_order :: "visible_order \<Rightarrow> (visible_queue_model, unit) smethod" where
  "remove_visible_order visible self = (
     let r = vo_reference visible; key = level_key visible in
     if \<not> has_key (vq_visible_orders self) r then (Inl KeyError, self)
     else
       let self1 = self\<lparr>vq_visible_orders := dict_del r (vq_visible_orders self)\<rparr> in
       case dict_get (vq_visible_levels self1) key of
         None \<Rightarrow> (Inl KeyError, self1)
       | Some level \<Rightarrow>
         if \<not> has_key level r then (Inl KeyError, self1)
         else
           let level1 = dict_del r level in
           (Inr (), self1\<lparr>vq_visible_levels :=
              (if level1 = [] then dict_del key (vq_visible_levels self1)
               else dict_set key level1 (vq_visible_levels self1))\<rparr>))"

definition decrement_visible :: "visible_order \<Rightarrow> int \<Rightarrow> (visible_queue_model, unit) smethod" where
  "decrement_visible visible quantity self = (
     let remaining = vo_remaining_quantity visible - quantity;
         r = vo_reference visible; key = level_key visible in
     if remaining = 0 then remove_visible_order visible self
     else
       let self1 = self\<lparr>vq_visible_orders :=
             dict_set r (visible\<lparr>vo_remaining_quantity := remaining\<rparr>) (vq_visible_orders self)\<rparr> in
       case dict_get (vq_visible_levels self1) key of
         None \<Rightarrow> (Inl KeyError, self1)
       | Some level \<Rightarrow>
         (Inr (), self1\<lparr>vq_visible_levels :=
            dict_set key (dict_set r remaining level) (vq_visible_levels self1)\<rparr>))"

text \<open>
  \<open>_best_visible_price\<close> cleans its heap lazily: prices whose level has gone are popped, and
  forgotten, only when they reach the top.
\<close>

fun best_price_loop :: "int \<Rightarrow> int \<Rightarrow> int list \<Rightarrow> (visible_queue_model, int option) smethod" where
  "best_price_loop symbol_id side [] self = (Inr None, self)"
| "best_price_loop symbol_id side (encoded # heap) self = (
     let price4 = (if side = -1 then encoded else - encoded);
         side_key = (symbol_id, side) in
     if has_key (vq_visible_levels self) (symbol_id, side, price4) then (Inr (Some price4), self)
     else
       let self1 = self\<lparr>vq_price_heaps := dict_set side_key heap (vq_price_heaps self)\<rparr> in
       case dict_get (vq_heap_prices self1) side_key of
         None \<Rightarrow> (Inl KeyError, self1)
       | Some prices \<Rightarrow>
         if price4 \<notin> prices then (Inl KeyError, self1)
         else best_price_loop symbol_id side heap
           (self1\<lparr>vq_heap_prices := dict_set side_key (prices - {price4}) (vq_heap_prices self1)\<rparr>))"

definition best_visible_price :: "int \<Rightarrow> int \<Rightarrow> (visible_queue_model, int option) smethod" where
  "best_visible_price symbol_id side self =
     (case dict_get (vq_price_heaps self) (symbol_id, side) of
        None \<Rightarrow> (Inr None, self)
      | Some heap \<Rightarrow> best_price_loop symbol_id side heap self)"

definition price_crosses :: "int \<Rightarrow> int \<Rightarrow> int option \<Rightarrow> bool" where
  "price_crosses side price4 opposite = (case opposite of
       None \<Rightarrow> False
     | Some p \<Rightarrow> if side = 1 then p \<le> price4 else p \<ge> price4)"

definition is_marketable :: "simulated_order \<Rightarrow> (visible_queue_model, bool) smethod" where
  "is_marketable order =
     bindM (best_visible_price (so_symbol_id order) (- so_side order)) (\<lambda>opposite.
       returnM (price_crosses (so_side order) (so_price4 order) opposite))"

definition opposite_book_crosses :: "tracked_queue \<Rightarrow> (visible_queue_model, bool) smethod" where
  "opposite_book_crosses tracker =
     bindM (best_visible_price (tq_symbol_id tracker) (- tq_side tracker)) (\<lambda>opposite.
       returnM (price_crosses (tq_side tracker) (tq_price4 tracker) opposite))"

section \<open>Quantities ahead\<close>

text \<open>The overflow-checked sum of \<open>_queue_total\<close> and of activation.\<close>

fun total_loop :: "int \<Rightarrow> int \<Rightarrow> int list \<Rightarrow> int result" where
  "total_loop order_id amount [] = Inr amount"
| "total_loop order_id amount (quantity # qs) =
     (if amount > MAX_UINT64 - quantity then fail_order ERR_QUEUE_STATE order_id
      else total_loop order_id (amount + quantity) qs)"

definition queue_total :: "tracked_queue \<Rightarrow> int result" where
  "queue_total tracker = total_loop (tq_simulated_order_id tracker) 0 (dict_values (tq_ahead tracker))"

definition resolve_activation :: "simulated_order \<Rightarrow> (visible_queue_model, int option) smethod" where
  "resolve_activation order = bindM (is_marketable order) (\<lambda>marketable self.
     if marketable then (Inr None, self)
     else
       let level = dict_get_default (vq_visible_levels self)
             (so_symbol_id order, so_side order, so_price4 order) [] in
       case total_loop (so_simulated_order_id order) 0 (dict_values level) of
         Inl e \<Rightarrow> (Inl e, self)
       | Inr amount \<Rightarrow>
         (Inr (Some amount),
          self\<lparr>vq_queues := dict_set (so_simulated_order_id order)
             \<lparr>tq_simulated_order_id = so_simulated_order_id order,
              tq_symbol_id = so_symbol_id order,
              tq_side = so_side order,
              tq_price4 = so_price4 order,
              tq_initial_quantity = amount,
              tq_ahead = level\<rparr> (vq_queues self)\<rparr>))"

definition set_ahead :: "tracked_queue \<Rightarrow> (int, int) dict \<Rightarrow> visible_queue_model \<Rightarrow> visible_queue_model" where
  "set_ahead tracker ahead self = self\<lparr>vq_queues :=
     dict_set (tq_simulated_order_id tracker) (tracker\<lparr>tq_ahead := ahead\<rparr>) (vq_queues self)\<rparr>"

definition decrement_ahead :: "tracked_queue \<Rightarrow> int \<Rightarrow> int \<Rightarrow> (visible_queue_model, unit) smethod" where
  "decrement_ahead tracker r quantity self =
     (case dict_get (tq_ahead tracker) r of
        None \<Rightarrow> (fail_order ERR_QUEUE_STATE (tq_simulated_order_id tracker), self)
      | Some tracked \<Rightarrow>
        if quantity > tracked
          then (fail_order ERR_QUEUE_STATE (tq_simulated_order_id tracker), self)
        else (Inr (), set_ahead tracker
          (if quantity = tracked then dict_del r (tq_ahead tracker)
           else dict_set r (tracked - quantity) (tq_ahead tracker)) self))"

text \<open>\<open>del tracker.ahead[reference]\<close>\<close>

definition delete_ahead :: "tracked_queue \<Rightarrow> int \<Rightarrow> (visible_queue_model, unit) smethod" where
  "delete_ahead tracker r self =
     (if \<not> has_key (tq_ahead tracker) r then (Inl KeyError, self)
      else (Inr (), set_ahead tracker (dict_del r (tq_ahead tracker)) self))"

fun matching_queue_loop ::
  "int \<Rightarrow> int \<Rightarrow> int \<Rightarrow> order_state_machine \<Rightarrow> tracked_queue list \<Rightarrow> tracked_queue option result" where
  "matching_queue_loop symbol_id side price4 m [] = Inr None"
| "matching_queue_loop symbol_id side price4 m (tracker # trackers) = (
     if tq_symbol_id tracker = symbol_id \<and> tq_side tracker = side \<and> tq_price4 tracker = price4
     then (case sm_order m (tq_simulated_order_id tracker) of
             Inl e \<Rightarrow> Inl e
           | Inr order \<Rightarrow> if EXPOSED_STATES (so_state order) then Inr (Some tracker)
               else matching_queue_loop symbol_id side price4 m trackers)
     else matching_queue_loop symbol_id side price4 m trackers)"

definition matching_queue :: "int \<Rightarrow> int \<Rightarrow> int \<Rightarrow> (queue_state, tracked_queue option) smethod" where
  "matching_queue symbol_id side price4 mq =
     (matching_queue_loop symbol_id side price4 (fst mq) (dict_values (vq_queues (snd mq))), mq)"

definition queue_containing :: "visible_queue_model \<Rightarrow> int \<Rightarrow> tracked_queue option" where
  "queue_containing self r =
     List.find (\<lambda>tracker. has_key (tq_ahead tracker) r) (dict_values (vq_queues self))"

definition make_queue_snapshot :: "tracked_queue \<Rightarrow> queue_snapshot result" where
  "make_queue_snapshot tracker =
     (case queue_total tracker of
        Inl e \<Rightarrow> Inl e
      | Inr current \<Rightarrow> Inr \<lparr>qs_simulated_order_id = tq_simulated_order_id tracker,
          qs_initial_quantity = tq_initial_quantity tracker,
          qs_current_quantity = current,
          qs_ahead_references = tq_ahead tracker\<rparr>)"

definition queue_snapshot_of :: "int \<Rightarrow> queue_state \<Rightarrow> queue_snapshot result" where
  "queue_snapshot_of order_id mq =
     (case dict_get (vq_queues (snd mq)) order_id of
        None \<Rightarrow> fail_order ERR_QUEUE_STATE order_id
      | Some tracker \<Rightarrow>
        (case sm_order (fst mq) order_id of
           Inl e \<Rightarrow> Inl e
         | Inr order \<Rightarrow>
           if \<not> EXPOSED_STATES (so_state order) then fail_order ERR_QUEUE_STATE order_id
           else make_queue_snapshot tracker))"

section \<open>Anomalies\<close>

definition add_diagnostic :: "queue_diagnostic \<Rightarrow> visible_queue_model \<Rightarrow> visible_queue_model" where
  "add_diagnostic d self = self\<lparr>vq_diagnostics := vq_diagnostics self @ [d]\<rparr>"

definition record_anomaly ::
  "market_event \<Rightarrow> queue_anomaly_reason \<Rightarrow> int option \<Rightarrow> (visible_queue_model, unit) smethod" where
  "record_anomaly event reason order_id self = (
     let self1 = add_diagnostic \<lparr>qd_code = EVENT_SKIPPED,
           qd_message_index = me_message_index event,
           qd_symbol_id = me_symbol_id event,
           qd_simulated_order_id = order_id,
           qd_reason = Anomaly reason\<rparr> self;
         self2 = self1\<lparr>vq_anomaly_count := vq_anomaly_count self1 + 1\<rparr> in
     if vq_anomaly_count self2 > vq_max_queue_anomalies self2
       then (Inl (SimulationError ERR_SIMULATION_ANOMALY order_id (Some (me_message_index event))), self2)
     else (Inr (), self2))"

text \<open>An event that only counts as an anomaly: no visible change.\<close>

definition skip_event :: "market_event \<Rightarrow> queue_anomaly_reason \<Rightarrow> (visible_queue_model, bool) smethod" where
  "skip_event event reason = bindM (record_anomaly event reason None) (\<lambda>_. returnM False)"

definition validated_existing_order ::
  "market_event \<Rightarrow> (visible_queue_model, visible_order option) smethod" where
  "validated_existing_order event self =
     (case dict_get (vq_visible_orders self) (cast_int (me_primary_reference event)) of
        None \<Rightarrow> bindM (record_anomaly event MISSING_REFERENCE None) (\<lambda>_. returnM None) self
      | Some visible \<Rightarrow>
        if vo_symbol_id visible \<noteq> me_symbol_id event
           \<or> Some (vo_side visible) \<noteq> me_side event
           \<or> Some (vo_price4 visible) \<noteq> me_price4 event
        then bindM (record_anomaly event REFERENCE_MISMATCH None) (\<lambda>_. returnM None) self
        else (Inr (Some visible), self))"

section \<open>Visible lifecycle events\<close>

definition visible_of :: "int \<Rightarrow> market_event \<Rightarrow> visible_order" where
  "visible_of r event = \<lparr>vo_reference = r, vo_symbol_id = me_symbol_id event,
     vo_side = cast_int (me_side event), vo_price4 = cast_int (me_price4 event),
     vo_remaining_quantity = cast_int (me_quantity event),
     vo_priority_message_index = me_message_index event\<rparr>"

definition apply_add :: "market_event \<Rightarrow> (visible_queue_model, bool) smethod" where
  "apply_add event self = (
     let r = cast_int (me_primary_reference event) in
     if has_key (vq_visible_orders self) r then skip_event event DUPLICATE_REFERENCE self
     else (Inr True, insert_visible_order (visible_of r event) self))"

text \<open>
  The part of \<open>_apply_execution\<close> that decides whether an execution fills the simulated order at
  its price: never while known quantity is ahead, and never twice for one match.
\<close>

definition execution_fill_quantity ::
  "market_event \<Rightarrow> tracked_queue \<Rightarrow> int \<Rightarrow> (queue_state, int) smethod" where
  "execution_fill_quantity event tracker queue_before mq = (
     let order_id = tq_simulated_order_id tracker in
     if queue_before \<noteq> 0 then
       bindM (on_owner (record_anomaly event EXECUTION_BEHIND_AHEAD (Some order_id)))
         (\<lambda>_. returnM 0) mq
     else if has_key (vq_used_fill_matches (snd mq)) (cast_int (me_secondary_reference event)) then
       bindM (on_owner (record_anomaly event DUPLICATE_FILL_MATCH (Some order_id)))
         (\<lambda>_. returnM 0) mq
     else case sm_order (fst mq) order_id of
       Inl e \<Rightarrow> (Inl e, mq)
     | Inr simulated \<Rightarrow> (Inr (min (cast_int (me_quantity event)) (so_remaining_quantity simulated)), mq))"

text \<open>The part that records the fill; the tracker is read after its quantity ahead changed.\<close>

definition execution_fill ::
  "market_event \<Rightarrow> tracked_queue \<Rightarrow> int \<Rightarrow> int \<Rightarrow> (queue_state, queue_fill \<times> order_transition) smethod"
where
  "execution_fill event tracker queue_before fill_quantity = (
     let order_id = tq_simulated_order_id tracker;
         match_number = cast_int (me_secondary_reference event) in
     bindM (on_machine (record_fill order_id fill_quantity (me_timestamp_ns event)
              (me_message_index event))) (\<lambda>transition.
     bindM (on_owner (modifyM (\<lambda>q. q\<lparr>vq_used_fill_matches :=
              dict_set match_number order_id (vq_used_fill_matches q)\<rparr>))) (\<lambda>_ mq.
     case sm_order (fst mq) order_id of Inl e \<Rightarrow> (Inl e, mq) | Inr order_after \<Rightarrow> (
     case queue_total tracker of Inl e \<Rightarrow> (Inl e, mq) | Inr queue_after \<Rightarrow>
       (Inr (\<lparr>qf_simulated_order_id = order_id,
              qf_market_message_index = me_message_index event,
              qf_timestamp_ns = me_timestamp_ns event,
              qf_match_number = match_number,
              qf_price4 = tq_price4 tracker,
              qf_quantity = fill_quantity,
              qf_queue_ahead_before = queue_before,
              qf_queue_ahead_after = queue_after,
              qf_remaining_quantity_after = so_remaining_quantity order_after\<rparr>, transition), mq)))))"

definition opt_queue_total :: "tracked_queue option \<Rightarrow> int result" where
  "opt_queue_total tracker = (case tracker of None \<Rightarrow> Inr 0 | Some t \<Rightarrow> queue_total t)"

text \<open>What an accepted execution does, given the tracker at its price and its quantity ahead.\<close>

definition execute_against ::
  "market_event \<Rightarrow> visible_order \<Rightarrow> tracked_queue option \<Rightarrow> int
     \<Rightarrow> (queue_state, (queue_fill \<times> order_transition) option \<times> bool) smethod" where
  "execute_against event visible tracker queue_before = (
     let quantity = cast_int (me_quantity event) in
     case tracker of
       None \<Rightarrow> bindM (on_owner (decrement_visible visible quantity)) (\<lambda>_. returnM (None, True))
     | Some t \<Rightarrow>
       if has_key (tq_ahead t) (vo_reference visible)
       then bindM (on_owner (decrement_visible visible quantity)) (\<lambda>_.
            bindM (on_owner (decrement_ahead t (vo_reference visible) quantity)) (\<lambda>_.
            returnM (None, True)))
       else bindM (execution_fill_quantity event t queue_before) (\<lambda>fill_quantity.
            bindM (on_owner (decrement_visible visible quantity)) (\<lambda>_.
            if fill_quantity = 0 then returnM (None, True)
            else bindM (execution_fill event t queue_before fill_quantity) (\<lambda>r.
              returnM (Some r, True)))))"

definition apply_execution ::
  "market_event \<Rightarrow> (queue_state, (queue_fill \<times> order_transition) option \<times> bool) smethod" where
  "apply_execution event =
     bindM (on_owner (validated_existing_order event)) (\<lambda>found.
     case found of
       None \<Rightarrow> returnM (None, False)
     | Some visible \<Rightarrow>
       let quantity = cast_int (me_quantity event) in
       if quantity > vo_remaining_quantity visible
          \<or> me_remaining_quantity event \<noteq> Some (vo_remaining_quantity visible - quantity)
       then bindM (on_owner (record_anomaly event QUANTITY_MISMATCH None)) (\<lambda>_. returnM (None, False))
       else
         bindM (matching_queue (me_symbol_id event) (cast_int (me_side event))
                  (cast_int (me_price4 event))) (\<lambda>tracker.
         bindM (liftM (opt_queue_total tracker)) (\<lambda>queue_before.
         execute_against event visible tracker queue_before)))"

definition apply_cancel :: "market_event \<Rightarrow> (visible_queue_model, bool) smethod" where
  "apply_cancel event = bindM (validated_existing_order event) (\<lambda>found.
     case found of
       None \<Rightarrow> returnM False
     | Some visible \<Rightarrow>
       let quantity = cast_int (me_quantity event) in
       if quantity > vo_remaining_quantity visible
          \<or> me_remaining_quantity event \<noteq> Some (vo_remaining_quantity visible - quantity)
       then skip_event event QUANTITY_MISMATCH
       else
         bindM (decrement_visible visible quantity) (\<lambda>_ self.
         case queue_containing self (vo_reference visible) of
           None \<Rightarrow> (Inr True, self)
         | Some tracker \<Rightarrow>
           bindM (decrement_ahead tracker (vo_reference visible) quantity) (\<lambda>_. returnM True) self))"

definition apply_delete :: "market_event \<Rightarrow> (visible_queue_model, bool) smethod" where
  "apply_delete event = bindM (validated_existing_order event) (\<lambda>found.
     case found of
       None \<Rightarrow> returnM False
     | Some visible \<Rightarrow>
       if me_quantity event \<noteq> Some (vo_remaining_quantity visible)
       then skip_event event QUANTITY_MISMATCH
       else
         bindM (remove_visible_order visible) (\<lambda>_ self.
         case queue_containing self (vo_reference visible) of
           None \<Rightarrow> (Inr True, self)
         | Some tracker \<Rightarrow>
           bindM (delete_ahead tracker (vo_reference visible)) (\<lambda>_. returnM True) self))"

definition apply_replace :: "market_event \<Rightarrow> (visible_queue_model, bool) smethod" where
  "apply_replace event self =
     (case dict_get (vq_visible_orders self) (cast_int (me_primary_reference event)) of
        None \<Rightarrow> skip_event event MISSING_REFERENCE self
      | Some visible \<Rightarrow>
        let new_reference = cast_int (me_secondary_reference event) in
        if new_reference = vo_reference visible \<or> has_key (vq_visible_orders self) new_reference
          then skip_event event DUPLICATE_REFERENCE self
        else if vo_symbol_id visible \<noteq> me_symbol_id event \<or> Some (vo_side visible) \<noteq> me_side event
          then skip_event event REFERENCE_MISMATCH self
        else
          bindM (case queue_containing self (vo_reference visible) of
                   None \<Rightarrow> returnM ()
                 | Some tracker \<Rightarrow> delete_ahead tracker (vo_reference visible)) (\<lambda>_.
          bindM (remove_visible_order visible) (\<lambda>_.
          bindM (modifyM (insert_visible_order (visible_of new_reference event))) (\<lambda>_.
          returnM True))) self)"

definition apply_broken_trade :: "market_event \<Rightarrow> (visible_queue_model, unit) smethod" where
  "apply_broken_trade event self =
     (case dict_get (vq_used_fill_matches self) (cast_int (me_primary_reference event)) of
        Some order_id \<Rightarrow> (fail_both ERR_BROKEN_SIM_FILL order_id (me_message_index event), self)
      | None \<Rightarrow> (Inr (), add_diagnostic \<lparr>qd_code = BROKEN_TRADE_OBSERVED,
           qd_message_index = me_message_index event, qd_symbol_id = me_symbol_id event,
           qd_simulated_order_id = None, qd_reason = match_not_used_for_simulated_fill\<rparr> self))"

section \<open>Crossed remainders\<close>

definition execution_cross :: "market_event \<Rightarrow> tracked_queue \<Rightarrow> bool" where
  "execution_cross event tracker \<longleftrightarrow>
     (me_event_kind event = EXECUTE \<or> me_event_kind event = EXECUTE_PRICE)
   \<and> me_symbol_id event = tq_symbol_id tracker
   \<and> me_side event = Some (tq_side tracker)
   \<and> (tq_side tracker = 1 \<and> cast_int (me_price4 event) < tq_price4 tracker
      \<or> tq_side tracker = -1 \<and> cast_int (me_price4 event) > tq_price4 tracker)"

definition invalidate_crossed ::
  "market_event \<Rightarrow> tracked_queue \<Rightarrow> (queue_state, order_transition option) smethod" where
  "invalidate_crossed event tracker mq = (
     let order_id = tq_simulated_order_id tracker in
     case sm_order (fst mq) order_id of Inl e \<Rightarrow> (Inl e, mq) | Inr order \<Rightarrow>
     if \<not> EXPOSED_STATES (so_state order) then (Inr None, mq)
     else
       let crossed = execution_cross event tracker in
       bindM (if crossed then returnM True else on_owner (opposite_book_crosses tracker)) (\<lambda>crosses.
         if \<not> crosses then returnM None
         else
           bindM (on_machine (invalidate order_id (me_timestamp_ns event) (me_message_index event)))
             (\<lambda>transition.
           bindM (on_owner (modifyM (add_diagnostic \<lparr>qd_code = DIAG_COUNTERFACTUAL_CROSS,
                    qd_message_index = me_message_index event,
                    qd_symbol_id = me_symbol_id event,
                    qd_simulated_order_id = Some order_id,
                    qd_reason = (if crossed then execution_progressed_beyond_limit
                                 else opposite_visible_book_crossed_limit)\<rparr>))) (\<lambda>_.
           returnM (Some transition)))) mq)"

definition invalidate_crossed_remainders ::
  "market_event \<Rightarrow> (queue_state, order_transition list) smethod" where
  "invalidate_crossed_remainders event mq =
     bindM (forM (invalidate_crossed event) (dict_values (vq_queues (snd mq)))) (\<lambda>ts.
       returnM (List.map_filter id ts)) mq"

section \<open>Market events\<close>

definition synchronise_transitions :: "order_transition list \<Rightarrow> visible_queue_model \<Rightarrow> visible_queue_model"
where
  "synchronise_transitions ts self = self\<lparr>vq_queues := fold (\<lambda>t queues.
     if EXPOSED_STATES (ot_after_state t) then queues
     else dict_del (ot_simulated_order_id t) queues) ts (vq_queues self)\<rparr>"

definition synchronise :: "order_transition list \<Rightarrow> (queue_state, unit) smethod" where
  "synchronise ts = on_owner (modifyM (synchronise_transitions ts))"

text \<open>
  The dispatch on the event kind: the fill of an execution, the transition it made (already
  synchronised), and whether the visible book changed.
\<close>

definition apply_visible_event ::
  "market_event \<Rightarrow> (queue_state, (queue_fill \<times> order_transition) option \<times> bool) smethod" where
  "apply_visible_event event = (
     let visible = (\<lambda>f. bindM (on_owner (f event)) (\<lambda>applied. returnM (None, applied))) in
     case me_event_kind event of
       ADD \<Rightarrow> visible apply_add
     | EXECUTE \<Rightarrow> apply_execution event
     | EXECUTE_PRICE \<Rightarrow> apply_execution event
     | CANCEL_EVENT \<Rightarrow> visible apply_cancel
     | DELETE \<Rightarrow> visible apply_delete
     | REPLACE \<Rightarrow> visible apply_replace
     | BROKEN_TRADE \<Rightarrow> bindM (on_owner (apply_broken_trade event)) (\<lambda>_. returnM (None, False))
     | _ \<Rightarrow> returnM (None, False))"

definition fill_transitions :: "(queue_fill \<times> order_transition) option \<Rightarrow> order_transition list" where
  "fill_transitions f = (case f of None \<Rightarrow> [] | Some (fill, t) \<Rightarrow> [t])"

definition process_event :: "market_event \<Rightarrow> (queue_state, queue_event_result) smethod" where
  "process_event event mq0 = (
     let diagnostic_start = length (vq_diagnostics (snd mq0)) in
     bindM (before_market_event (me_timestamp_ns event) (me_message_index event)
              (Some resolve_activation)) (\<lambda>released.
     bindM (synchronise released) (\<lambda>_.
     bindM (apply_visible_event event) (\<lambda>(filled, visible_event_applied).
     bindM (synchronise (fill_transitions filled)) (\<lambda>_.
     bindM (if visible_event_applied
            then bindM (invalidate_crossed_remainders event) (\<lambda>ts.
              bindM (synchronise ts) (\<lambda>_. returnM ts))
            else returnM []) (\<lambda>invalidations mq.
     (Inr \<lparr>qr_event = event,
           qr_transitions = released @ fill_transitions filled @ invalidations,
           qr_fills = (case filled of None \<Rightarrow> [] | Some (fill, t) \<Rightarrow> [fill]),
           qr_diagnostics = drop diagnostic_start (vq_diagnostics (snd mq))\<rparr>, mq)))))) mq0)"

definition process_market_event :: "market_row \<Rightarrow> (queue_state, queue_event_result) smethod" where
  "process_market_event row = bindM (liftM (adapt_market_event row)) process_event"

definition complete_market_timestamp :: "int \<Rightarrow> (queue_state, order_transition list) smethod" where
  "complete_market_timestamp timestamp_ns =
     bindM (after_market_timestamp timestamp_ns (Some resolve_activation)) (\<lambda>ts.
     bindM (synchronise ts) (\<lambda>_. returnM ts))"

end
