(* ===== verification/Visible_Book.thy ===== *)
theory Visible_Book
  imports Queue_Model
begin

text \<open>
  The visible book of the queue model: the flat map of visible orders, the per-level maps and
  the lazily cleaned price heaps agree, the internal dictionary accesses never fail, and the
  lazy heap returns the best visible price.
\<close>

section \<open>The invariant\<close>

definition level_at :: "visible_queue_model \<Rightarrow> int \<times> int \<times> int \<Rightarrow> (int, int) dict" where
  "level_at q k = dict_get_default (vq_visible_levels q) k []"

definition visible_ok :: "int \<Rightarrow> visible_order \<Rightarrow> bool" where
  "visible_ok r v \<longleftrightarrow> vo_reference v = r \<and> 1 \<le> vo_remaining_quantity v
     \<and> vo_remaining_quantity v \<le> MAX_UINT64 \<and> (vo_side v = -1 \<or> vo_side v = 1)"

definition levels_inv :: "visible_queue_model \<Rightarrow> bool" where
  "levels_inv q \<longleftrightarrow>
     dict_ok (vq_visible_orders q) \<and> dict_ok (vq_visible_levels q)
   \<and> (\<forall>r v. dict_get (vq_visible_orders q) r = Some v \<longrightarrow> visible_ok r v)
   \<and> (\<forall>k L. dict_get (vq_visible_levels q) k = Some L \<longrightarrow> L \<noteq> [] \<and> dict_ok L)
   \<and> (\<forall>k r x. dict_get (level_at q k) r = Some x \<longleftrightarrow>
        (\<exists>v. dict_get (vq_visible_orders q) r = Some v \<and> level_key v = k
           \<and> vo_remaining_quantity v = x))"

definition heap_at :: "visible_queue_model \<Rightarrow> int \<times> int \<Rightarrow> int list" where
  "heap_at q k = dict_get_default (vq_price_heaps q) k []"

definition prices_at :: "visible_queue_model \<Rightarrow> int \<times> int \<Rightarrow> int set" where
  "prices_at q k = dict_get_default (vq_heap_prices q) k {}"

definition heaps_inv :: "visible_queue_model \<Rightarrow> bool" where
  "heaps_inv q \<longleftrightarrow>
     (\<forall>k. sorted (heap_at q k) \<and> distinct (heap_at q k)
        \<and> prices_at q k = encode_price (snd k) ` set (heap_at q k))
   \<and> (\<forall>s d p. has_key (vq_visible_levels q) (s, d, p) \<longrightarrow> encode_price d p \<in> set (heap_at q (s, d)))"

definition book_inv :: "visible_queue_model \<Rightarrow> bool" where
  "book_inv q \<longleftrightarrow> levels_inv q \<and> heaps_inv q"

text \<open>What the operations of the book leave alone.\<close>

definition rest_same :: "visible_queue_model \<Rightarrow> visible_queue_model \<Rightarrow> bool" where
  "rest_same q q' \<longleftrightarrow>
     vq_max_queue_anomalies q' = vq_max_queue_anomalies q \<and> vq_queues q' = vq_queues q
   \<and> vq_used_fill_matches q' = vq_used_fill_matches q \<and> vq_diagnostics q' = vq_diagnostics q
   \<and> vq_anomaly_count q' = vq_anomaly_count q"

lemma rest_same_refl [simp]: "rest_same q q"
  by (simp add: rest_same_def)

lemma rest_same_trans: "rest_same a b \<Longrightarrow> rest_same b c \<Longrightarrow> rest_same a c"
  by (simp add: rest_same_def)

lemma encode_encode [simp]: "encode_price d (encode_price d p) = p"
  by (simp add: encode_price_def)

lemma encode_inj [simp]: "encode_price d p = encode_price d p' \<longleftrightarrow> p = p'"
  by (simp add: encode_price_def)

lemma levels_inv_visible:
  assumes "levels_inv q" "dict_get (vq_visible_orders q) r = Some v"
  shows "visible_ok r v" "dict_get (level_at q (level_key v)) r = Some (vo_remaining_quantity v)"
    "\<exists>L. dict_get (vq_visible_levels q) (level_key v) = Some L"
proof -
  show "visible_ok r v" using assms unfolding levels_inv_def by blast
  show l: "dict_get (level_at q (level_key v)) r = Some (vo_remaining_quantity v)"
    using assms unfolding levels_inv_def by blast
  show "\<exists>L. dict_get (vq_visible_levels q) (level_key v) = Some L"
    using l by (cases "dict_get (vq_visible_levels q) (level_key v)")
      (auto simp: level_at_def dict_get_default_def)
qed

lemma levels_inv_level_iff:
  assumes "levels_inv q"
  shows "dict_get (level_at q k) r = Some x \<longleftrightarrow>
    (\<exists>v. dict_get (vq_visible_orders q) r = Some v \<and> level_key v = k \<and> vo_remaining_quantity v = x)"
  using assms unfolding levels_inv_def by blast

lemma levels_inv_level:
  assumes "levels_inv q" "dict_get (vq_visible_levels q) k = Some L"
  shows "L \<noteq> []" "dict_ok L" "level_at q k = L"
proof -
  show "L \<noteq> []" "dict_ok L" using assms unfolding levels_inv_def by blast+
  show "level_at q k = L" using assms(2) by (simp add: level_at_def dict_get_default_def)
qed

lemma dict_set_neq_Nil [simp]: "dict_set k v d \<noteq> []"
  using dict_eq_Nil_iff [of "dict_set k v d"] by auto

lemma level_at_empty_iff:
  assumes "levels_inv q"
  shows "level_at q k = [] \<longleftrightarrow> dict_get (vq_visible_levels q) k = None"
  using levels_inv_level(1) [OF assms] by (auto simp: level_at_def dict_get_default_def split: option.splits)

lemma levels_invI:
  assumes "dict_ok (vq_visible_orders q)" "dict_ok (vq_visible_levels q)"
    and "\<And>r v. dict_get (vq_visible_orders q) r = Some v \<Longrightarrow> visible_ok r v"
    and "\<And>k L. dict_get (vq_visible_levels q) k = Some L \<Longrightarrow> L \<noteq> [] \<and> dict_ok L"
    and "\<And>k r x. dict_get (level_at q k) r = Some x \<longleftrightarrow>
        (\<exists>v. dict_get (vq_visible_orders q) r = Some v \<and> level_key v = k
           \<and> vo_remaining_quantity v = x)"
  shows "levels_inv q"
  using assms unfolding levels_inv_def by blast

text \<open>Every change of the book sets or deletes one order and its entry in one level.\<close>

lemma levels_inv_change:
  assumes inv: "levels_inv q"
    and ord: "vq_visible_orders q' = dict_set r v (vq_visible_orders q)" and v: "visible_ok r v"
    and old: "\<And>u. dict_get (vq_visible_orders q) r = Some u \<Longrightarrow> level_key u = level_key v"
    and lev: "vq_visible_levels q' = dict_set (level_key v)
      (dict_set r (vo_remaining_quantity v) (level_at q (level_key v))) (vq_visible_levels q)"
  shows "levels_inv q'"
proof (rule levels_invI)
  show "dict_ok (vq_visible_orders q')" "dict_ok (vq_visible_levels q')"
    using inv by (simp_all add: levels_inv_def ord lev)
  show "visible_ok j u" if "dict_get (vq_visible_orders q') j = Some u" for j u
    using that v levels_inv_visible(1) [OF inv] by (auto simp: ord split: if_splits)
  have lat: "level_at q' k = (if k = level_key v
      then dict_set r (vo_remaining_quantity v) (level_at q (level_key v)) else level_at q k)" for k
    by (simp add: level_at_def lev dict_get_default_def)
  have okl: "dict_ok (level_at q k)" for k
    using levels_inv_level [OF inv] by (cases "dict_get (vq_visible_levels q) k")
      (simp_all add: level_at_def dict_get_default_def)
  show "L \<noteq> [] \<and> dict_ok L" if "dict_get (vq_visible_levels q') k = Some L" for k L
    using that levels_inv_level(1,2) [OF inv, of k L] okl [of "level_key v"]
    by (auto simp: lev split: if_splits)
  fix k j x
  note iff = levels_inv_level_iff [OF inv, of k j x]
  show "dict_get (level_at q' k) j = Some x \<longleftrightarrow>
        (\<exists>u. dict_get (vq_visible_orders q') j = Some u \<and> level_key u = k
           \<and> vo_remaining_quantity u = x)"
    using iff old by (auto simp: lat ord)
qed

lemma levels_inv_remove:
  assumes inv: "levels_inv q" and v: "dict_get (vq_visible_orders q) r = Some v"
    and ord: "vq_visible_orders q' = dict_del r (vq_visible_orders q)"
    and lev: "vq_visible_levels q' = (let L = dict_del r (level_at q (level_key v)) in
      if L = [] then dict_del (level_key v) (vq_visible_levels q)
      else dict_set (level_key v) L (vq_visible_levels q))"
  shows "levels_inv q'"
proof (rule levels_invI)
  show "dict_ok (vq_visible_orders q')" "dict_ok (vq_visible_levels q')"
    using inv by (simp_all add: levels_inv_def ord lev Let_def)
  show "visible_ok j u" if "dict_get (vq_visible_orders q') j = Some u" for j u
    using that levels_inv_visible(1) [OF inv] by (auto simp: ord split: if_splits)
  have lat: "level_at q' k = (if k = level_key v
      then dict_del r (level_at q (level_key v)) else level_at q k)" for k
    by (auto simp: level_at_def lev dict_get_default_def Let_def)
  show "L \<noteq> [] \<and> dict_ok L" if L: "dict_get (vq_visible_levels q') k = Some L" for k L
  proof (cases "k = level_key v")
    case True
    obtain L0 where "dict_get (vq_visible_levels q) k = Some L0"
      using levels_inv_visible(3) [OF inv v] True by blast
    with levels_inv_level [OF inv this] L True show ?thesis
      by (auto simp: lev Let_def split: if_splits)
  next
    case False
    with L levels_inv_level [OF inv, of k L] show ?thesis by (auto simp: lev Let_def split: if_splits)
  qed
  fix k j x
  note iff = levels_inv_level_iff [OF inv, of k j x]
  show "dict_get (level_at q' k) j = Some x \<longleftrightarrow>
        (\<exists>u. dict_get (vq_visible_orders q') j = Some u \<and> level_key u = k
           \<and> vo_remaining_quantity u = x)"
    using iff v by (auto simp: lat ord)
qed

section \<open>The operations keep it\<close>

lemma heaps_inv_at:
  assumes "heaps_inv q"
  shows "sorted (heap_at q k)" "distinct (heap_at q k)"
    "prices_at q k = encode_price (snd k) ` set (heap_at q k)"
    "has_key (vq_visible_levels q) (s, d, p) \<Longrightarrow> encode_price d p \<in> set (heap_at q (s, d))"
  using assms unfolding heaps_inv_def by blast+

lemma heaps_inv_levels:
  assumes "heaps_inv q" "\<And>k. heap_at q' k = heap_at q k" "\<And>k. prices_at q' k = prices_at q k"
    and "\<And>s d p. has_key (vq_visible_levels q') (s, d, p) \<Longrightarrow>
      has_key (vq_visible_levels q) (s, d, p) \<or> encode_price d p \<in> set (heap_at q (s, d))"
  shows "heaps_inv q'"
  unfolding heaps_inv_def assms(2,3)
  using heaps_inv_at [OF assms(1)] assms(4) by blast

lemma heaps_inv_change:
  assumes "heaps_inv q" "\<And>j. heap_at q' j = (if j = (s, d) then h else heap_at q j)"
    "\<And>j. prices_at q' j = (if j = (s, d) then encode_price d ` set h else prices_at q j)"
    and "sorted h" "distinct h"
    and "\<And>p. has_key (vq_visible_levels q') (s, d, p) \<Longrightarrow> encode_price d p \<in> set h"
    and "\<And>s' d' p. (s', d') \<noteq> (s, d) \<Longrightarrow> has_key (vq_visible_levels q') (s', d', p) \<Longrightarrow>
      has_key (vq_visible_levels q) (s', d', p)"
  shows "heaps_inv q'"
  unfolding heaps_inv_def
proof (intro conjI allI impI)
  show "sorted (heap_at q' j)" "distinct (heap_at q' j)"
    "prices_at q' j = encode_price (snd j) ` set (heap_at q' j)" for j
    using heaps_inv_at(1-3) [OF assms(1), of j] assms(2-5) by (cases "j = (s, d)"; simp)+
  show "encode_price d' p \<in> set (heap_at q' (s', d'))"
    if "has_key (vq_visible_levels q') (s', d', p)" for s' d' p
    using that heaps_inv_at(4) [OF assms(1), of s' d' p] assms(2,6,7) by (cases "s' = s \<and> d' = d") auto
qed

lemma remove_visible_order_ok:
  assumes inv: "book_inv q" and v: "dict_get (vq_visible_orders q) (vo_reference v) = Some v"
  obtains q' where "remove_visible_order v q = (Inr (), q')" "book_inv q'" "rest_same q q'"
    "vq_visible_orders q' = dict_del (vo_reference v) (vq_visible_orders q)"
proof -
  have lev: "levels_inv q" using inv by (simp add: book_inv_def)
  obtain L where L: "dict_get (vq_visible_levels q) (level_key v) = Some L"
    using levels_inv_visible(3) [OF lev v] by blast
  note at = levels_inv_level(3) [OF lev L]
  have mem: "dict_get L (vo_reference v) = Some (vo_remaining_quantity v)"
    using levels_inv_visible(2) [OF lev v] at by simp
  let ?L = "dict_del (vo_reference v) L"
  let ?q = "q\<lparr>vq_visible_orders := dict_del (vo_reference v) (vq_visible_orders q),
    vq_visible_levels := (if ?L = [] then dict_del (level_key v) (vq_visible_levels q)
      else dict_set (level_key v) ?L (vq_visible_levels q))\<rparr>"
  show ?thesis
  proof (rule that [of ?q])
    show "remove_visible_order v q = (Inr (), ?q)"
      using v L mem by (simp add: remove_visible_order_def Let_def has_key_def)
    have "levels_inv ?q" by (rule levels_inv_remove [OF lev v]) (simp_all add: at Let_def)
    moreover have "heaps_inv ?q"
      by (rule heaps_inv_levels [of q]) (use inv L in \<open>auto simp: book_inv_def has_key_def heap_at_def prices_at_def
            dict_get_default_def split: if_splits\<close>)
    ultimately show "book_inv ?q" by (simp add: book_inv_def)
  qed (simp_all add: rest_same_def)
qed

lemma decrement_visible_ok:
  assumes inv: "book_inv q" and v: "dict_get (vq_visible_orders q) (vo_reference v) = Some v"
    and x: "1 \<le> x" "x \<le> vo_remaining_quantity v"
  obtains q' where "decrement_visible v x q = (Inr (), q')" "book_inv q'" "rest_same q q'"
    "vq_visible_orders q' = (if x = vo_remaining_quantity v
       then dict_del (vo_reference v) (vq_visible_orders q)
       else dict_set (vo_reference v) (v\<lparr>vo_remaining_quantity := vo_remaining_quantity v - x\<rparr>)
         (vq_visible_orders q))"
proof (cases "x = vo_remaining_quantity v")
  case True
  obtain q' where "remove_visible_order v q = (Inr (), q')" "book_inv q'" "rest_same q q'"
    "vq_visible_orders q' = dict_del (vo_reference v) (vq_visible_orders q)"
    by (rule remove_visible_order_ok [OF inv v])
  with True that show ?thesis by (simp add: decrement_visible_def)
next
  case False
  have lev: "levels_inv q" using inv by (simp add: book_inv_def)
  obtain L where L: "dict_get (vq_visible_levels q) (level_key v) = Some L"
    using levels_inv_visible(3) [OF lev v] by blast
  note at = levels_inv_level(3) [OF lev L] and ok = levels_inv_visible(1) [OF lev v]
  let ?v = "v\<lparr>vo_remaining_quantity := vo_remaining_quantity v - x\<rparr>"
  let ?q = "q\<lparr>vq_visible_orders := dict_set (vo_reference v) ?v (vq_visible_orders q),
    vq_visible_levels := dict_set (level_key v)
      (dict_set (vo_reference v) (vo_remaining_quantity v - x) L) (vq_visible_levels q)\<rparr>"
  have key: "level_key ?v = level_key v" by (simp add: level_key_def)
  show ?thesis
  proof (rule that [of ?q])
    show "decrement_visible v x q = (Inr (), ?q)"
      using False L by (simp add: decrement_visible_def Let_def)
    have "levels_inv ?q"
    proof (rule levels_inv_change [OF lev, where r = "vo_reference v" and v = ?v])
      show "visible_ok (vo_reference v) ?v" using ok x False by (auto simp: visible_ok_def)
    qed (use v in \<open>simp_all add: at key\<close>)
    moreover have "heaps_inv ?q"
      by (rule heaps_inv_levels [of q]) (use inv L in \<open>auto simp: book_inv_def has_key_def heap_at_def prices_at_def
            dict_get_default_def split: if_splits\<close>)
    ultimately show "book_inv ?q" by (simp add: book_inv_def)
  qed (use False in \<open>simp_all add: rest_same_def\<close>)
qed

lemma insert_visible_order_ok:
  assumes inv: "book_inv q" and new: "dict_get (vq_visible_orders q) (vo_reference v) = None"
    and v: "visible_ok (vo_reference v) v"
  shows "book_inv (insert_visible_order v q)" "rest_same q (insert_visible_order v q)"
    "vq_visible_orders (insert_visible_order v q) = dict_set (vo_reference v) v (vq_visible_orders q)"
proof -
  have lev: "levels_inv q" and hp: "heaps_inv q" using inv by (simp_all add: book_inv_def)
  let ?q = "insert_visible_order v q"
  let ?s = "(vo_symbol_id v, vo_side v)"
  show rest: "rest_same q ?q" by (simp add: insert_visible_order_def Let_def rest_same_def)
  show ord: "vq_visible_orders ?q = dict_set (vo_reference v) v (vq_visible_orders q)"
    by (simp add: insert_visible_order_def Let_def)
  have lv: "vq_visible_levels ?q = dict_set (level_key v)
      (dict_set (vo_reference v) (vo_remaining_quantity v) (level_at q (level_key v))) (vq_visible_levels q)"
    by (simp add: insert_visible_order_def Let_def level_at_def)
  have levels: "levels_inv ?q"
    by (rule levels_inv_change [OF lev ord v _ lv]) (use new in simp)
  have heaps: "heaps_inv ?q"
  proof (cases "level_at q (level_key v) = []")
    case False
    then have "vq_price_heaps ?q = vq_price_heaps q" "vq_heap_prices ?q = vq_heap_prices q"
      by (simp_all add: insert_visible_order_def Let_def level_at_def)
    moreover have "has_key (vq_visible_levels ?q) k \<Longrightarrow> has_key (vq_visible_levels q) k" for k
      using False level_at_empty_iff [OF lev] by (auto simp: lv has_key_def split: if_splits)
    ultimately show ?thesis by (intro heaps_inv_levels [OF hp]) (auto simp: heap_at_def prices_at_def)
  next
    case True
    let ?known = "prices_at q ?s" and ?heap = "heap_at q ?s"
      and ?e = "encode_price (vo_side v) (vo_price4 v)"
    have old: "sorted ?heap" "distinct ?heap" "?known = encode_price (vo_side v) ` set ?heap"
      using heaps_inv_at(1-3) [OF hp, of ?s] by simp_all
    have keys: "has_key (vq_visible_levels ?q) (s, d, p) \<Longrightarrow>
        has_key (vq_visible_levels q) (s, d, p) \<or> (s, d) = ?s \<and> p = vo_price4 v" for s d p
      by (auto simp: lv has_key_def level_key_def split: if_splits)
    show ?thesis
    proof (cases "vo_price4 v \<in> ?known")
      case known: True
      then have "vq_price_heaps ?q = vq_price_heaps q"
        "vq_heap_prices ?q = dict_set ?s ?known (vq_heap_prices q)"
        using True by (simp_all add: insert_visible_order_def Let_def level_at_def prices_at_def)
      moreover have "?e \<in> set ?heap" using known old(3) by (auto simp: image_iff)
      ultimately show ?thesis
        using keys by (intro heaps_inv_levels [OF hp])
          (auto simp: heap_at_def prices_at_def dict_get_default_def)
    next
      case unknown: False
      then have p: "vq_price_heaps ?q = dict_set ?s (heappush id ?e ?heap) (vq_price_heaps q)"
        and h: "vq_heap_prices ?q = dict_set ?s (insert (vo_price4 v) ?known) (vq_heap_prices q)"
        using True by (simp_all add: insert_visible_order_def Let_def level_at_def heap_at_def prices_at_def)
      have e: "?e \<notin> set ?heap" using unknown old(3) by (auto simp: image_iff)
      have push: "sorted (heappush id ?e ?heap)" "distinct (heappush id ?e ?heap)"
        "set (heappush id ?e ?heap) = insert ?e (set ?heap)"
        using old(1,2) e sorted_heappush [of id ?e ?heap]
        by (simp_all add: heappush_def distinct_insort set_insort_key)
      show ?thesis
      proof (rule heaps_inv_change [OF hp _ _ push(1,2)])
        show "heap_at ?q j = (if j = ?s then heappush id ?e ?heap else heap_at q j)" for j
          by (simp add: heap_at_def p dict_get_default_def)
        show "prices_at ?q j = (if j = ?s then encode_price (vo_side v) ` set (heappush id ?e ?heap)
            else prices_at q j)" for j
          unfolding push(3) using old(3) by (simp add: prices_at_def h dict_get_default_def)
        show "encode_price (vo_side v) p \<in> set (heappush id ?e ?heap)"
          if "has_key (vq_visible_levels ?q) (vo_symbol_id v, vo_side v, p)" for p
          using keys [OF that] heaps_inv_at(4) [OF hp, of "vo_symbol_id v" "vo_side v" p] push(3) by auto
      qed (use keys in auto)
    qed
  qed
  show "book_inv ?q" using levels heaps by (simp add: book_inv_def)
qed

section \<open>The best price\<close>

text \<open>The specification: the price of a visible order that no other on its side improves.\<close>

definition best_price :: "visible_queue_model \<Rightarrow> int \<Rightarrow> int \<Rightarrow> int option \<Rightarrow> bool" where
  "best_price q symbol_id side best \<longleftrightarrow> (case best of
       None \<Rightarrow> \<forall>r v. dict_get (vq_visible_orders q) r = Some v \<longrightarrow>
         \<not> (vo_symbol_id v = symbol_id \<and> vo_side v = side)
     | Some p \<Rightarrow>
         (\<exists>r v. dict_get (vq_visible_orders q) r = Some v \<and> vo_symbol_id v = symbol_id
            \<and> vo_side v = side \<and> vo_price4 v = p)
       \<and> (\<forall>r v. dict_get (vq_visible_orders q) r = Some v \<longrightarrow> vo_symbol_id v = symbol_id
            \<longrightarrow> vo_side v = side \<longrightarrow> (if side = -1 then p \<le> vo_price4 v else vo_price4 v \<le> p)))"

lemma level_iff_visible:
  assumes "levels_inv q"
  shows "has_key (vq_visible_levels q) k \<longleftrightarrow>
    (\<exists>r v. dict_get (vq_visible_orders q) r = Some v \<and> level_key v = k)"
proof
  assume "has_key (vq_visible_levels q) k"
  then obtain L where L: "dict_get (vq_visible_levels q) k = Some L" by (auto simp: has_key_iff)
  with levels_inv_level [OF assms L] obtain r x where "dict_get (level_at q k) r = Some x"
    by (metis dict_eq_Nil_iff not_Some_eq)
  then show "\<exists>r v. dict_get (vq_visible_orders q) r = Some v \<and> level_key v = k"
    using levels_inv_level_iff [OF assms] by blast
next
  assume "\<exists>r v. dict_get (vq_visible_orders q) r = Some v \<and> level_key v = k"
  then show "has_key (vq_visible_levels q) k"
    using levels_inv_visible(3) [OF assms] by (auto simp: has_key_iff)
qed

definition heaps_only :: "visible_queue_model \<Rightarrow> visible_queue_model \<Rightarrow> bool" where
  "heaps_only q q' \<longleftrightarrow> rest_same q q' \<and> vq_visible_orders q' = vq_visible_orders q
     \<and> vq_visible_levels q' = vq_visible_levels q"

lemma heaps_only_refl [simp]: "heaps_only q q"
  by (simp add: heaps_only_def)

lemma heaps_only_levels: "heaps_only q q' \<Longrightarrow> levels_inv q \<Longrightarrow> levels_inv q'"
  by (simp add: heaps_only_def levels_inv_def level_at_def)

text \<open>The same of the prices that have a level, which is what the heap knows.\<close>

definition best_level :: "(int \<times> int \<times> int, 'l) dict \<Rightarrow> int \<Rightarrow> int \<Rightarrow> int option \<Rightarrow> bool" where
  "best_level levels s d best \<longleftrightarrow> (case best of
       None \<Rightarrow> \<forall>p. \<not> has_key levels (s, d, p)
     | Some p \<Rightarrow> has_key levels (s, d, p)
         \<and> (\<forall>p'. has_key levels (s, d, p') \<longrightarrow> encode_price d p \<le> encode_price d p'))"

lemma best_price_loop_ok:
  assumes "heaps_inv q" "heap_at q (s, d) = h"
  shows "\<exists>best q'. best_price_loop s d h q = (Inr best, q') \<and> heaps_inv q' \<and> heaps_only q q'
    \<and> best_level (vq_visible_levels q) s d best"
  using assms
proof (induction h arbitrary: q)
  case Nil
  then show ?case using heaps_inv_at(4) [OF Nil.prems(1), of s d] by (auto simp: best_level_def)
next
  case (Cons e h)
  let ?p = "encode_price d e"
  have p: "(if d = -1 then e else - e) = ?p" by (simp add: encode_price_def)
  note at = heaps_inv_at(1-3) [OF Cons.prems(1), of "(s, d)", unfolded Cons.prems(2)]
  show ?case
  proof (cases "has_key (vq_visible_levels q) (s, d, ?p)")
    case True
    have "encode_price d ?p \<le> encode_price d p'" if "has_key (vq_visible_levels q) (s, d, p')" for p'
      using heaps_inv_at(4) [OF Cons.prems(1) that] at(1) Cons.prems(2) by auto
    with True show ?thesis
      by (intro exI [of _ "Some ?p"] exI [of _ q]) (simp add: p Cons.prems(1) Let_def best_level_def)
  next
    case False
    have prices: "dict_get (vq_heap_prices q) (s, d) = Some (encode_price d ` set (e # h))"
      using at(3) by (cases "dict_get (vq_heap_prices q) (s, d)")
        (auto simp: prices_at_def dict_get_default_def)
    let ?q = "q\<lparr>vq_price_heaps := dict_set (s, d) h (vq_price_heaps q),
      vq_heap_prices := dict_set (s, d) (encode_price d ` set (e # h) - {?p}) (vq_heap_prices q)\<rparr>"
    have step: "best_price_loop s d (e # h) q = best_price_loop s d h ?q"
      using False prices by (simp add: p Let_def)
    have inv: "heaps_inv ?q"
    proof (rule heaps_inv_change [OF Cons.prems(1), where h = h and s = s and d = d])
      show "sorted h" "distinct h" using at(1,2) by simp_all
      show "encode_price d p' \<in> set h" if "has_key (vq_visible_levels ?q) (s, d, p')" for p'
        using heaps_inv_at(4) [OF Cons.prems(1), of s d p'] that Cons.prems(2) False by auto
      show "prices_at ?q j = (if j = (s, d) then encode_price d ` set h else prices_at q j)" for j
        using at(2) by (auto simp: prices_at_def dict_get_default_def)
    qed (auto simp: heap_at_def dict_get_default_def)
    have "heap_at ?q (s, d) = h" by (simp add: heap_at_def dict_get_default_def)
    from Cons.IH [OF inv this] obtain best q' where
      ih: "best_price_loop s d h ?q = (Inr best, q')" "heaps_inv q'" "heaps_only ?q q'"
      "best_level (vq_visible_levels ?q) s d best"
      by blast
    have "heaps_only q q'" using ih(3) by (simp add: heaps_only_def rest_same_def)
    with ih show ?thesis
      unfolding step by (intro exI [of _ best] exI [of _ q'] conjI) simp_all
  qed
qed

lemma best_visible_price_ok:
  assumes inv: "book_inv q"
  obtains best q' where "best_visible_price s d q = (Inr best, q')" "book_inv q'" "heaps_only q q'"
    "best_price q s d best"
proof -
  have lev: "levels_inv q" and hp: "heaps_inv q" using inv by (simp_all add: book_inv_def)
  have "\<exists>best q'. best_visible_price s d q = (Inr best, q') \<and> heaps_inv q' \<and> heaps_only q q'
    \<and> best_level (vq_visible_levels q) s d best"
  proof (cases "dict_get (vq_price_heaps q) (s, d)")
    case None
    then have "heap_at q (s, d) = []" by (simp add: heap_at_def dict_get_default_def)
    with best_price_loop_ok [OF hp this] None hp show ?thesis by (simp add: best_visible_price_def)
  next
    case (Some h)
    then have "heap_at q (s, d) = h" by (simp add: heap_at_def dict_get_default_def)
    with best_price_loop_ok [OF hp this] Some show ?thesis by (simp add: best_visible_price_def)
  qed
  then obtain best q' where r: "best_visible_price s d q = (Inr best, q')" "heaps_inv q'" "heaps_only q q'"
    and best: "best_level (vq_visible_levels q) s d best"
    by blast
  have "best_price q s d best"
  proof (cases best)
    case None
    with best show ?thesis
      unfolding level_iff_visible [OF lev] best_level_def by (auto simp: best_price_def level_key_def)
  next
    case (Some p)
    have "(if d = -1 then p \<le> vo_price4 v else vo_price4 v \<le> p)"
      if "dict_get (vq_visible_orders q) r = Some v" "vo_symbol_id v = s" "vo_side v = d" for r v
    proof -
      have "has_key (vq_visible_levels q) (s, d, vo_price4 v)"
        unfolding level_iff_visible [OF lev] using that by (auto simp: level_key_def)
      with best Some show ?thesis by (auto simp: best_level_def encode_price_def split: if_splits)
    qed
    moreover have "\<exists>r v. dict_get (vq_visible_orders q) r = Some v \<and> level_key v = (s, d, p)"
      using best Some by (simp add: best_level_def level_iff_visible [OF lev])
    ultimately show ?thesis using Some by (auto simp: best_price_def level_key_def)
  qed
  moreover have "book_inv q'" using r lev heaps_only_levels by (simp add: book_inv_def)
  ultimately show ?thesis using that r by blast
qed

end
