(* ===== verification/Machine_Invariant.thy ===== *)
theory Machine_Invariant
  imports State_Machine
begin

text \<open>
  The invariant of \<open>OrderStateMachine\<close>: its orders are well-formed, a slot is occupied by
  exactly the non-terminal order on that symbol and side, and the scheduled actions agree with
  the orders they are about. The operations that return keep it, and under it the internal
  checks of the code (an unknown action, an invalid transition in a scheduled action, a
  terminal order that does not own its slot) never fail.
\<close>

section \<open>Definitions\<close>

definition orders_inv :: "order_state_machine \<Rightarrow> bool" where
  "orders_inv m \<longleftrightarrow>
     dict_ok (sm_orders m) \<and> dict_ok (sm_occupied_slots m)
   \<and> (\<forall>i s. dict_get (sm_orders m) i = Some s \<longrightarrow>
        so_simulated_order_id s = i \<and> order_wf s
        \<and> (\<exists>t. sch_last_market_timestamp_ns (sm_scheduler m) = Some t
             \<and> so_requested_timestamp_ns s \<le> t
             \<and> (EXPOSED_STATES (so_state s) \<longrightarrow> so_effective_timestamp_ns s \<le> t)))
   \<and> (\<forall>k i. dict_get (sm_occupied_slots m) k = Some i \<longleftrightarrow>
        (\<exists>s. dict_get (sm_orders m) i = Some s \<and> \<not> so_terminal s \<and> order_slot s = k))"

text \<open>An action and the order it is about, and an order and the actions it waits for.\<close>

definition action_ok :: "scheduled_action \<Rightarrow> simulated_order \<Rightarrow> bool" where
  "action_ok a s \<longleftrightarrow> (\<not> so_terminal s \<longrightarrow>
     (case sa_kind a of
        ACTIVATE \<Rightarrow> so_state s = PENDING_SUBMIT
          \<and> sa_effective_timestamp_ns a = so_effective_timestamp_ns s
      | CANCEL \<Rightarrow> so_cancel_requested_ns s = Some (sa_requested_timestamp_ns a)))"

definition awaits :: "scheduled_action set \<Rightarrow> int \<Rightarrow> simulated_order \<Rightarrow> bool" where
  "awaits A i s \<longleftrightarrow> (\<not> so_terminal s \<longrightarrow>
     (so_state s = PENDING_SUBMIT \<longrightarrow>
        (\<exists>a \<in> A. sa_simulated_order_id a = i \<and> sa_kind a = ACTIVATE))
   \<and> (so_cancel_requested_ns s \<noteq> None \<longrightarrow>
        (\<exists>a \<in> A. sa_simulated_order_id a = i \<and> sa_kind a = CANCEL)))"

definition actions_inv :: "scheduled_action set \<Rightarrow> order_state_machine \<Rightarrow> bool" where
  "actions_inv A m \<longleftrightarrow>
     (\<forall>q a. dict_get (sm_scheduled_actions m) q = Some a \<longleftrightarrow> a \<in> A \<and> sa_sequence a = q)
   \<and> (\<forall>a \<in> A. action_wf a
        \<and> (\<exists>s. dict_get (sm_orders m) (sa_simulated_order_id a) = Some s \<and> action_ok a s))
   \<and> (\<forall>a \<in> A. \<forall>b \<in> A. sa_simulated_order_id a = sa_simulated_order_id b
        \<longrightarrow> sa_kind a = sa_kind b \<longrightarrow> a = b)
   \<and> (\<forall>i s. dict_get (sm_orders m) i = Some s \<longrightarrow> awaits A i s)"

definition latencies_ok :: "order_state_machine \<Rightarrow> bool" where
  "latencies_ok m \<longleftrightarrow>
     0 \<le> sm_submission_latency_ns m \<and> sm_submission_latency_ns m \<le> MAX_LATENCY_NS
   \<and> 0 \<le> sm_cancellation_latency_ns m \<and> sm_cancellation_latency_ns m \<le> MAX_LATENCY_NS"

text \<open>
  Between released actions: \<open>rest\<close> are the actions the scheduler has released and the loop has
  not applied yet.
\<close>

definition sm_mid :: "scheduled_action list \<Rightarrow> order_state_machine \<Rightarrow> bool" where
  "sm_mid rest m \<longleftrightarrow>
     latencies_ok m \<and> sched_inv (sm_scheduler m) \<and> orders_inv m
   \<and> actions_inv (set (sch_heap (sm_scheduler m)) \<union> set rest) m
   \<and> distinct rest \<and> set rest \<inter> set (sch_heap (sm_scheduler m)) = {}
   \<and> (\<forall>t. sch_last_market_timestamp_ns (sm_scheduler m) = Some t \<longrightarrow>
        (\<forall>a \<in> set rest. sa_effective_timestamp_ns a \<le> t)
        \<and> (\<forall>a \<in> set (sch_heap (sm_scheduler m)). t \<le> sa_effective_timestamp_ns a))"

definition sm_inv :: "order_state_machine \<Rightarrow> bool" where
  "sm_inv m \<longleftrightarrow> sm_mid [] m"

lemma sm_inv_new: "new_state_machine sub can = Inr m \<Longrightarrow> sm_inv m"
  by (auto simp: new_state_machine_def effective_timestamp_Inr sm_inv_def sm_mid_def
      latencies_ok_def orders_inv_def actions_inv_def new_scheduler_def sched_inv_def bound_defs
      split: sum.splits if_splits)

section \<open>Replacing one order\<close>

definition put_order :: "simulated_order \<Rightarrow> order_state_machine \<Rightarrow> order_state_machine" where
  "put_order s' m = m\<lparr>sm_orders := dict_set (so_simulated_order_id s') s' (sm_orders m),
     sm_occupied_slots := (if so_terminal s' then dict_del (order_slot s') (sm_occupied_slots m)
                           else sm_occupied_slots m)\<rparr>"

definition transition_of ::
  "simulated_order \<Rightarrow> simulated_order \<Rightarrow> transition_cause \<Rightarrow> int \<Rightarrow> int option \<Rightarrow> int option
     \<Rightarrow> rejection_reason option \<Rightarrow> order_transition" where
  "transition_of s s' cause t i q r =
     \<lparr>ot_simulated_order_id = so_simulated_order_id s', ot_before_state = Some (so_state s),
      ot_after_state = so_state s', ot_cause = cause, ot_timestamp_ns = t,
      ot_market_message_index = i, ot_quantity = q, ot_rejection_reason = r\<rparr>"

text \<open>What no transition changes.\<close>

definition same_identity :: "simulated_order \<Rightarrow> simulated_order \<Rightarrow> bool" where
  "same_identity s s' \<longleftrightarrow>
     so_simulated_order_id s' = so_simulated_order_id s
   \<and> so_decision_message_index s' = so_decision_message_index s
   \<and> so_prediction_message_index s' = so_prediction_message_index s
   \<and> so_requested_timestamp_ns s' = so_requested_timestamp_ns s
   \<and> so_effective_timestamp_ns s' = so_effective_timestamp_ns s
   \<and> so_symbol_id s' = so_symbol_id s
   \<and> so_side s' = so_side s
   \<and> so_price4 s' = so_price4 s
   \<and> so_original_quantity s' = so_original_quantity s"

lemma commit_eq:
  assumes "order_wf s'"
    and "so_terminal s' \<Longrightarrow> dict_get (sm_occupied_slots m) (order_slot s') = Some (so_simulated_order_id s')"
  shows "commit s s' cause t i q r m = (Inr (transition_of s s' cause t i q r), put_order s' m)"
  using assms
  by (auto simp: commit_def put_order_def transition_of_def Let_def
      simp flip: validate_simulated_order_Inr)

lemma commit_Inl: "commit s s' cause t i q r m = (Inl e, m') \<Longrightarrow> m' = m"
  by (auto simp: commit_def Let_def split: sum.splits if_splits)

lemma put_order_simps [simp]:
  "sm_scheduler (put_order s m) = sm_scheduler m"
  "sm_scheduled_actions (put_order s m) = sm_scheduled_actions m"
  "sm_orders (put_order s m) = dict_set (so_simulated_order_id s) s (sm_orders m)"
  "sm_submission_latency_ns (put_order s m) = sm_submission_latency_ns m"
  "sm_cancellation_latency_ns (put_order s m) = sm_cancellation_latency_ns m"
  by (simp_all add: put_order_def)

lemma drop_action_simps [simp]:
  "sm_scheduler (drop_action a m) = sm_scheduler m"
  "sm_orders (drop_action a m) = sm_orders m"
  "sm_occupied_slots (drop_action a m) = sm_occupied_slots m"
  "sm_scheduled_actions (drop_action a m) = dict_del (sa_sequence a) (sm_scheduled_actions m)"
  "sm_submission_latency_ns (drop_action a m) = sm_submission_latency_ns m"
  "sm_cancellation_latency_ns (drop_action a m) = sm_cancellation_latency_ns m"
  by (simp_all add: drop_action_def)

lemma orders_inv_get:
  assumes "orders_inv m" "dict_get (sm_orders m) i = Some s"
  shows "so_simulated_order_id s = i" "order_wf s"
    "\<exists>t. sch_last_market_timestamp_ns (sm_scheduler m) = Some t \<and> so_requested_timestamp_ns s \<le> t
       \<and> (EXPOSED_STATES (so_state s) \<longrightarrow> so_effective_timestamp_ns s \<le> t)"
  using assms by (auto simp: orders_inv_def)

lemma orders_inv_slots_iff:
  assumes "orders_inv m"
  shows "dict_get (sm_occupied_slots m) k = Some i \<longleftrightarrow>
    (\<exists>s. dict_get (sm_orders m) i = Some s \<and> \<not> so_terminal s \<and> order_slot s = k)"
  using assms unfolding orders_inv_def by blast

lemma orders_inv_slot:
  assumes "orders_inv m" "dict_get (sm_orders m) i = Some s" "\<not> so_terminal s"
  shows "dict_get (sm_occupied_slots m) (order_slot s) = Some i"
  using assms(2,3) unfolding orders_inv_slots_iff [OF assms(1)] by blast

lemma orders_invI:
  assumes "dict_ok (sm_orders m)" "dict_ok (sm_occupied_slots m)"
    and "\<And>i s. dict_get (sm_orders m) i = Some s \<Longrightarrow>
        so_simulated_order_id s = i \<and> order_wf s
        \<and> (\<exists>t. sch_last_market_timestamp_ns (sm_scheduler m) = Some t
             \<and> so_requested_timestamp_ns s \<le> t
             \<and> (EXPOSED_STATES (so_state s) \<longrightarrow> so_effective_timestamp_ns s \<le> t))"
    and "\<And>k i. dict_get (sm_occupied_slots m) k = Some i \<longleftrightarrow>
        (\<exists>s. dict_get (sm_orders m) i = Some s \<and> \<not> so_terminal s \<and> order_slot s = k)"
  shows "orders_inv m"
  using assms unfolding orders_inv_def by blast

lemma orders_inv_slot_unique:
  assumes "orders_inv m" "dict_get (sm_orders m) i = Some s" "\<not> so_terminal s"
    and "dict_get (sm_orders m) j = Some u" "\<not> so_terminal u" "order_slot u = order_slot s"
  shows "j = i"
  using orders_inv_slot [OF assms(1-3)] orders_inv_slot [OF assms(1,4,5)] assms(6) by simp

lemma put_order_orders_inv:
  assumes inv: "orders_inv m" and s: "dict_get (sm_orders m) i = Some s" "\<not> so_terminal s"
    and same: "same_identity s s'" and wf: "order_wf s'"
    and exp: "\<And>t. EXPOSED_STATES (so_state s') \<Longrightarrow> sch_last_market_timestamp_ns (sm_scheduler m) = Some t
      \<Longrightarrow> so_effective_timestamp_ns s \<le> t"
  shows "orders_inv (put_order s' m)"
proof -
  have id: "so_simulated_order_id s = i" using orders_inv_get(1) [OF inv s(1)] .
  with same have id': "so_simulated_order_id s' = i" by (simp add: same_identity_def)
  have slot': "order_slot s' = order_slot s" using same by (simp add: same_identity_def order_slot_def)
  have slot: "dict_get (sm_occupied_slots m) (order_slot s) = Some i"
    by (rule orders_inv_slot [OF inv s])
  have uniq: "j = i" if "dict_get (sm_orders m) j = Some u" "\<not> so_terminal u" "order_slot u = order_slot s" for j u
    by (rule orders_inv_slot_unique [OF inv s that])
  obtain t0 where t0: "sch_last_market_timestamp_ns (sm_scheduler m) = Some t0"
    "so_requested_timestamp_ns s \<le> t0" using orders_inv_get(3) [OF inv s(1)] by blast
  have same': "so_requested_timestamp_ns s' = so_requested_timestamp_ns s"
    "so_effective_timestamp_ns s' = so_effective_timestamp_ns s"
    using same by (simp_all add: same_identity_def)
  show ?thesis
  proof (rule orders_invI)
    show "dict_ok (sm_orders (put_order s' m))" "dict_ok (sm_occupied_slots (put_order s' m))"
      using inv by (auto simp: orders_inv_def put_order_def)
    fix k j
    have old: "dict_get (sm_occupied_slots m) k = Some j \<longleftrightarrow>
        (\<exists>u. dict_get (sm_orders m) j = Some u \<and> \<not> so_terminal u \<and> order_slot u = k)"
      by (rule orders_inv_slots_iff [OF inv])
    show "dict_get (sm_occupied_slots (put_order s' m)) k = Some j \<longleftrightarrow>
        (\<exists>u. dict_get (sm_orders (put_order s' m)) j = Some u \<and> \<not> so_terminal u \<and> order_slot u = k)"
    proof (cases "j = i")
      case True
      with old slot slot' s id' show ?thesis by (auto simp: put_order_def)
    next
      case False
      then have "dict_get (sm_occupied_slots m) k \<noteq> Some j" if "k = order_slot s"
        using that slot by simp
      with False old slot' id' show ?thesis by (auto simp: put_order_def)
    qed
  next
    fix j u
    assume u: "dict_get (sm_orders (put_order s' m)) j = Some u"
    show "so_simulated_order_id u = j \<and> order_wf u
        \<and> (\<exists>t. sch_last_market_timestamp_ns (sm_scheduler (put_order s' m)) = Some t
             \<and> so_requested_timestamp_ns u \<le> t
             \<and> (EXPOSED_STATES (so_state u) \<longrightarrow> so_effective_timestamp_ns u \<le> t))"
    proof (cases "j = i")
      case True
      with u id' have "u = s'" by simp
      with True id' wf t0 same' exp show ?thesis by auto
    next
      case False
      with u id' have "dict_get (sm_orders m) j = Some u" by simp
      from orders_inv_get [OF inv this] show ?thesis by simp
    qed
  qed
qed

text \<open>Replacing an order and, at most, one action (dropped or added) about it.\<close>

lemma actions_inv_change:
  assumes inv: "actions_inv A m"
    and orders: "sm_orders m' = dict_set i s' (sm_orders m)"
    and sched: "\<And>q a. dict_get (sm_scheduled_actions m') q = Some a \<longleftrightarrow> a \<in> A' \<and> sa_sequence a = q"
    and others: "\<And>a. sa_simulated_order_id a \<noteq> i \<Longrightarrow> a \<in> A' \<longleftrightarrow> a \<in> A"
    and own: "\<And>a. a \<in> A' \<Longrightarrow> sa_simulated_order_id a = i \<Longrightarrow> action_wf a \<and> action_ok a s'"
    and uniq: "\<And>a b. a \<in> A' \<Longrightarrow> b \<in> A' \<Longrightarrow> sa_simulated_order_id a = i \<Longrightarrow> sa_simulated_order_id b = i
      \<Longrightarrow> sa_kind a = sa_kind b \<Longrightarrow> a = b"
    and await: "awaits A' i s'"
  shows "actions_inv A' m'"
proof -
  have "awaits A' j u" if "dict_get (sm_orders m') j = Some u" for j u
  proof (cases "j = i")
    case True
    with that await orders show ?thesis by simp
  next
    case False
    with that orders have "awaits A j u" using inv by (auto simp: actions_inv_def)
    with False others show ?thesis unfolding awaits_def by metis
  qed
  moreover have "action_wf a \<and> (\<exists>u. dict_get (sm_orders m') (sa_simulated_order_id a) = Some u \<and> action_ok a u)"
    if "a \<in> A'" for a
  proof (cases "sa_simulated_order_id a = i")
    case True
    with own that orders show ?thesis by simp
  next
    case False
    with others that have "a \<in> A" by simp
    with inv False orders show ?thesis by (simp add: actions_inv_def)
  qed
  moreover have "a = b" if "a \<in> A'" "b \<in> A'" "sa_simulated_order_id a = sa_simulated_order_id b"
    "sa_kind a = sa_kind b" for a b
  proof (cases "sa_simulated_order_id a = i")
    case True
    with uniq that show ?thesis by metis
  next
    case False
    with others that have "a \<in> A" "b \<in> A" by simp_all
    with inv that show ?thesis by (simp add: actions_inv_def)
  qed
  ultimately show ?thesis using sched unfolding actions_inv_def by blast
qed


section \<open>One released action\<close>

lemma sm_midD:
  assumes "sm_mid rest m"
  shows "latencies_ok m" "sched_inv (sm_scheduler m)" "orders_inv m"
    "actions_inv (set (sch_heap (sm_scheduler m)) \<union> set rest) m" "distinct rest"
    "set rest \<inter> set (sch_heap (sm_scheduler m)) = {}"
  using assms by (simp_all add: sm_mid_def)

lemma sm_midI:
  assumes "latencies_ok m" "sched_inv (sm_scheduler m)" "orders_inv m"
    and "actions_inv (set (sch_heap (sm_scheduler m)) \<union> set rest) m" "distinct rest"
    and "set rest \<inter> set (sch_heap (sm_scheduler m)) = {}"
    and "\<And>t a. sch_last_market_timestamp_ns (sm_scheduler m) = Some t \<Longrightarrow> a \<in> set rest
      \<Longrightarrow> sa_effective_timestamp_ns a \<le> t"
    and "\<And>t a. sch_last_market_timestamp_ns (sm_scheduler m) = Some t
      \<Longrightarrow> a \<in> set (sch_heap (sm_scheduler m)) \<Longrightarrow> t \<le> sa_effective_timestamp_ns a"
  shows "sm_mid rest m"
  unfolding sm_mid_def using assms by blast

lemma sm_mid_time:
  assumes "sm_mid rest m" "sch_last_market_timestamp_ns (sm_scheduler m) = Some t"
  shows "a \<in> set rest \<Longrightarrow> sa_effective_timestamp_ns a \<le> t"
    and "a \<in> set (sch_heap (sm_scheduler m)) \<Longrightarrow> t \<le> sa_effective_timestamp_ns a"
  using assms by (simp_all add: sm_mid_def)

lemma actions_inv_get:
  assumes "actions_inv A m" "a \<in> A"
  shows "dict_get (sm_scheduled_actions m) (sa_sequence a) = Some a" "action_wf a"
    "\<exists>s. dict_get (sm_orders m) (sa_simulated_order_id a) = Some s \<and> action_ok a s"
  using assms by (auto simp: actions_inv_def)

lemma actions_inv_iff:
  assumes "actions_inv A m"
  shows "dict_get (sm_scheduled_actions m) q = Some a \<longleftrightarrow> a \<in> A \<and> sa_sequence a = q"
  using assms unfolding actions_inv_def by blast

lemma actions_inv_unique:
  assumes "actions_inv A m" "a \<in> A" "b \<in> A" "sa_simulated_order_id a = sa_simulated_order_id b"
    "sa_kind a = sa_kind b"
  shows "a = b"
  using assms unfolding actions_inv_def by blast

lemma actions_inv_sequence:
  assumes "actions_inv A m" "a \<in> A" "b \<in> A" "sa_sequence a = sa_sequence b"
  shows "a = b"
  by (metis actions_inv_get(1) [OF assms(1,2)] actions_inv_get(1) [OF assms(1,3)] assms(4) option.inject)

lemma sm_order_get:
  "dict_get (sm_orders m) i = Some s \<Longrightarrow> 0 \<le> i \<Longrightarrow> i \<le> MAX_UINT64 \<Longrightarrow> sm_order m i = Inr s"
  by (simp add: sm_order_def valid_int_def)

lemma sm_order_Inr:
  "sm_order m i = Inr s \<longleftrightarrow> dict_get (sm_orders m) i = Some s \<and> 0 \<le> i \<and> i \<le> MAX_UINT64"
  by (auto simp: sm_order_def valid_int_def split: option.splits)

text \<open>What an activation makes of a pending order, given the queue ahead.\<close>

definition activated :: "bool \<Rightarrow> scheduled_action \<Rightarrow> int option \<Rightarrow> simulated_order \<Rightarrow> simulated_order"
where
  "activated resolving a ahead s =
     (if resolving \<and> ahead = None
      then s\<lparr>so_state := REJECTED, so_terminal_timestamp_ns := Some (sa_effective_timestamp_ns a),
             so_rejection_reason := Some MARKETABLE_AT_ACTIVATION\<rparr>
      else s\<lparr>so_queue_ahead_initial := ahead,
             so_state := (if so_cancel_requested_ns s \<noteq> None then PENDING_CANCEL else ACTIVE)\<rparr>)"

definition cancelled :: "scheduled_action \<Rightarrow> simulated_order \<Rightarrow> simulated_order" where
  "cancelled a s = s\<lparr>so_state := CANCELLED,
     so_terminal_timestamp_ns := Some (sa_effective_timestamp_ns a)\<rparr>"

lemma activated_identity: "same_identity s (activated b a ahead s)"
  by (simp add: activated_def same_identity_def)

lemma cancelled_identity: "same_identity s (cancelled a s)"
  by (simp add: cancelled_def same_identity_def)

lemma request_of_identity:
  "same_identity s s' \<Longrightarrow> request_of s' = request_of s"
  by (simp add: same_identity_def request_of_def)

lemma activated_wf:
  assumes "order_wf s" "so_state s = PENDING_SUBMIT" "action_wf a"
    "sa_effective_timestamp_ns a = so_effective_timestamp_ns s" "in_bounds ahead 0 MAX_UINT64"
  shows "order_wf (activated b a ahead s)"
  using assms request_of_identity [OF activated_identity [of s b a ahead]]
  by (auto simp: order_wf_def activated_def so_terminal_def action_wf_def)

lemma cancelled_wf:
  assumes "order_wf s" "\<not> so_terminal s" "action_wf a"
    "so_cancel_requested_ns s = Some (sa_requested_timestamp_ns a)"
  shows "order_wf (cancelled a s)"
  using assms request_of_identity [OF cancelled_identity [of s a]]
  by (cases "so_state s") (auto simp: order_wf_def cancelled_def so_terminal_def action_wf_def)

text \<open>The four ways an action is applied, under the invariant.\<close>

lemma apply_action_terminal:
  assumes mid: "sm_mid (a # rest) m" and s: "dict_get (sm_orders m) (sa_simulated_order_id a) = Some s"
    and t: "so_terminal s"
  shows "apply_action R a (m, q) = (Inr None, (drop_action a m, q))"
  using actions_inv_get(1,2) [OF sm_midD(4) [OF mid], of a] s t
  by (simp add: apply_action_def sm_order_get action_wf_def)

lemma commit_and_drop_eq:
  assumes inv: "orders_inv m" and s: "dict_get (sm_orders m) i = Some s" "\<not> so_terminal s"
    and same: "same_identity s s'" and wf: "order_wf s'"
  shows "commit_and_drop a s s' c r m =
    (Inr (Some (transition_of s s' c (sa_effective_timestamp_ns a) None None r)),
     drop_action a (put_order s' m))"
proof -
  have "order_slot s' = order_slot s" "so_simulated_order_id s' = i"
    using same orders_inv_get(1) [OF inv s(1)] by (simp_all add: same_identity_def order_slot_def)
  then show ?thesis
    using orders_inv_slot [OF inv s] by (simp add: commit_and_drop_def commit_eq wf)
qed

lemma apply_action_activate:
  assumes mid: "sm_mid (a # rest) m" and s: "dict_get (sm_orders m) (sa_simulated_order_id a) = Some s"
    and t: "\<not> so_terminal s" and k: "sa_kind a = ACTIVATE"
    and R: "resolve_queue_ahead R s q = (Inr ahead, q')" and ahead: "in_bounds ahead 0 MAX_UINT64"
  defines "s' \<equiv> activated (R \<noteq> None) a ahead s"
  shows "apply_action R a (m, q) =
      (Inr (Some (transition_of s s'
         (if R \<noteq> None \<and> ahead = None then CAUSE_REJECTED else CAUSE_ACTIVATED)
         (sa_effective_timestamp_ns a) None None
         (if R \<noteq> None \<and> ahead = None then Some MARKETABLE_AT_ACTIVATION else None))),
       (drop_action a (put_order s' m), q'))"
    and "so_state s = PENDING_SUBMIT" "sa_effective_timestamp_ns a = so_effective_timestamp_ns s"
    and "order_wf s'"
proof -
  note inv = sm_midD(3) [OF mid] and get = actions_inv_get [OF sm_midD(4) [OF mid], of a]
  have wfa: "action_wf a" and dict: "dict_get (sm_scheduled_actions m) (sa_sequence a) = Some a"
    and ok: "action_ok a s" using get s by auto
  show ps: "so_state s = PENDING_SUBMIT"
    and eff: "sa_effective_timestamp_ns a = so_effective_timestamp_ns s"
    using ok t k by (simp_all add: action_ok_def)
  show wf: "order_wf s'"
    unfolding s'_def by (rule activated_wf [OF orders_inv_get(2) [OF inv s] ps wfa eff ahead])
  have same: "same_identity s s'" by (simp add: s'_def activated_identity)
  show "apply_action R a (m, q) =
      (Inr (Some (transition_of s s'
         (if R \<noteq> None \<and> ahead = None then CAUSE_REJECTED else CAUSE_ACTIVATED)
         (sa_effective_timestamp_ns a) None None
         (if R \<noteq> None \<and> ahead = None then Some MARKETABLE_AT_ACTIVATION else None))),
       (drop_action a (put_order s' m), q'))"
    using wfa dict t k ps R s commit_and_drop_eq [OF inv s t same wf]
    by (auto simp: apply_action_def sm_order_get action_wf_def bindM_def on_owner_def on_machine_def
        s'_def activated_def)
qed

lemma apply_action_cancel:
  assumes mid: "sm_mid (a # rest) m" and s: "dict_get (sm_orders m) (sa_simulated_order_id a) = Some s"
    and t: "\<not> so_terminal s" and k: "sa_kind a = CANCEL"
  shows "apply_action R a (m, q) =
      (Inr (Some (transition_of s (cancelled a s) CAUSE_CANCELLED (sa_effective_timestamp_ns a)
         None None None)),
       (drop_action a (put_order (cancelled a s) m), q))"
    and "so_cancel_requested_ns s = Some (sa_requested_timestamp_ns a)"
    and "order_wf (cancelled a s)" "so_state s = PENDING_SUBMIT \<or> so_state s = PENDING_CANCEL"
proof -
  note inv = sm_midD(3) [OF mid] and get = actions_inv_get [OF sm_midD(4) [OF mid], of a]
  have wfa: "action_wf a" and dict: "dict_get (sm_scheduled_actions m) (sa_sequence a) = Some a"
    and ok: "action_ok a s" using get s by auto
  show req: "so_cancel_requested_ns s = Some (sa_requested_timestamp_ns a)"
    using ok t k by (simp add: action_ok_def)
  have swf: "order_wf s" by (rule orders_inv_get(2) [OF inv s])
  show wf: "order_wf (cancelled a s)" by (rule cancelled_wf [OF swf t wfa req])
  show st: "so_state s = PENDING_SUBMIT \<or> so_state s = PENDING_CANCEL"
    using swf req t by (cases "so_state s") (auto simp: order_wf_def so_terminal_def)
  show "apply_action R a (m, q) =
      (Inr (Some (transition_of s (cancelled a s) CAUSE_CANCELLED (sa_effective_timestamp_ns a)
         None None None)),
       (drop_action a (put_order (cancelled a s) m), q))"
    using wfa dict t k st req s commit_and_drop_eq [OF inv s t cancelled_identity wf]
    by (auto simp: apply_action_def sm_order_get action_wf_def on_machine_def cancelled_def)
qed

text \<open>Each of them leaves the invariant with one action less.\<close>

lemma mid_after_put:
  assumes mid: "sm_mid (a # rest) m" and s: "dict_get (sm_orders m) (sa_simulated_order_id a) = Some s"
    and t: "\<not> so_terminal s" and same: "same_identity s s'" and wf: "order_wf s'"
    and exp: "\<And>t. EXPOSED_STATES (so_state s') \<Longrightarrow> sch_last_market_timestamp_ns (sm_scheduler m) = Some t
      \<Longrightarrow> so_effective_timestamp_ns s \<le> t"
    and own: "\<And>b. b \<in> set (sch_heap (sm_scheduler m)) \<union> set rest \<Longrightarrow>
      sa_simulated_order_id b = sa_simulated_order_id a \<Longrightarrow> action_ok b s \<Longrightarrow> sa_kind b \<noteq> sa_kind a
      \<Longrightarrow> action_ok b s'"
    and await: "awaits (set (sch_heap (sm_scheduler m)) \<union> set rest) (sa_simulated_order_id a) s'"
  shows "sm_mid rest (drop_action a (put_order s' m))"
proof -
  let ?A = "set (sch_heap (sm_scheduler m)) \<union> set (a # rest)"
  let ?A' = "set (sch_heap (sm_scheduler m)) \<union> set rest"
  note act = sm_midD(4) [OF mid] and inv = sm_midD(3) [OF mid]
  have a: "a \<notin> ?A'" using sm_midD(5,6) [OF mid] by auto
  have seq: "sa_sequence b \<noteq> sa_sequence a" if "b \<in> ?A'" for b
    using that a actions_inv_sequence [OF act, of b a] by auto
  have id: "so_simulated_order_id s' = sa_simulated_order_id a"
    using orders_inv_get(1) [OF inv s] same by (simp add: same_identity_def)
  have act': "actions_inv ?A' (drop_action a (put_order s' m))"
  proof (rule actions_inv_change [OF act, where i = "sa_simulated_order_id a" and s' = s'])
    show "sm_orders (drop_action a (put_order s' m)) = dict_set (sa_simulated_order_id a) s' (sm_orders m)"
      by (simp add: id)
    show "dict_get (sm_scheduled_actions (drop_action a (put_order s' m))) q = Some b
        \<longleftrightarrow> b \<in> ?A' \<and> sa_sequence b = q" for q b
      using actions_inv_iff [OF act, of q b] a seq by auto
    show "b \<in> ?A' \<longleftrightarrow> b \<in> ?A" if "sa_simulated_order_id b \<noteq> sa_simulated_order_id a" for b
      using that by auto
    show "action_wf b \<and> action_ok b s'"
      if b: "b \<in> ?A'" "sa_simulated_order_id b = sa_simulated_order_id a" for b
    proof -
      have "b \<in> ?A" using b by auto
      then have "action_wf b" "action_ok b s"
        using actions_inv_get(2,3) [OF act, of b] b(2) s by auto
      moreover have "sa_kind b \<noteq> sa_kind a"
        using actions_inv_unique [OF act, of b a] \<open>b \<in> ?A\<close> b a by auto
      ultimately show ?thesis using own b by blast
    qed
    show "b = c" if "b \<in> ?A'" "c \<in> ?A'" "sa_simulated_order_id b = sa_simulated_order_id a"
      "sa_simulated_order_id c = sa_simulated_order_id a" "sa_kind b = sa_kind c" for b c
      using that actions_inv_unique [OF act, of b c] by auto
    show "awaits ?A' (sa_simulated_order_id a) s'" by (rule await)
  qed
  have ord': "orders_inv (drop_action a (put_order s' m))"
  proof -
    have "orders_inv (put_order s' m)" by (rule put_order_orders_inv [OF inv s t same wf exp])
    then show ?thesis unfolding orders_inv_def drop_action_simps .
  qed
  show ?thesis
  proof (rule sm_midI)
    show "latencies_ok (drop_action a (put_order s' m))"
      using sm_midD(1) [OF mid] by (simp add: latencies_ok_def)
    show "sched_inv (sm_scheduler (drop_action a (put_order s' m)))"
      using sm_midD(2) [OF mid] by simp
    show "orders_inv (drop_action a (put_order s' m))" by (rule ord')
    show "actions_inv (set (sch_heap (sm_scheduler (drop_action a (put_order s' m)))) \<union> set rest)
        (drop_action a (put_order s' m))" using act' by simp
    show "distinct rest" "set rest \<inter> set (sch_heap (sm_scheduler (drop_action a (put_order s' m)))) = {}"
      using sm_midD(5,6) [OF mid] by auto
  next
    fix u b
    assume "sch_last_market_timestamp_ns (sm_scheduler (drop_action a (put_order s' m))) = Some u"
    then have u: "sch_last_market_timestamp_ns (sm_scheduler m) = Some u" by simp
    show "sa_effective_timestamp_ns b \<le> u" if "b \<in> set rest"
      by (rule sm_mid_time(1) [OF mid u]) (simp add: that)
    show "u \<le> sa_effective_timestamp_ns b"
      if "b \<in> set (sch_heap (sm_scheduler (drop_action a (put_order s' m))))"
      by (rule sm_mid_time(2) [OF mid u]) (use that in simp)
  qed
qed

lemma mid_after_drop:
  assumes mid: "sm_mid (a # rest) m" and s: "dict_get (sm_orders m) (sa_simulated_order_id a) = Some s"
    and t: "so_terminal s"
  shows "sm_mid rest (drop_action a m)"
proof -
  let ?A = "set (sch_heap (sm_scheduler m)) \<union> set (a # rest)"
  let ?A' = "set (sch_heap (sm_scheduler m)) \<union> set rest"
  note act = sm_midD(4) [OF mid]
  have a: "a \<notin> ?A'" using sm_midD(5,6) [OF mid] by auto
  have seq: "sa_sequence b \<noteq> sa_sequence a" if "b \<in> ?A'" for b
    using that a actions_inv_sequence [OF act, of b a] by auto
  have old: "dict_set (sa_simulated_order_id a) s (sm_orders m) = sm_orders m"
    unfolding dict_set_def using s dict_get_def update_triv by metis
  have "actions_inv ?A' (drop_action a m)"
  proof (rule actions_inv_change [OF act, where i = "sa_simulated_order_id a" and s' = s])
    show "sm_orders (drop_action a m) = dict_set (sa_simulated_order_id a) s (sm_orders m)"
      by (simp add: old)
    show "dict_get (sm_scheduled_actions (drop_action a m)) q = Some b \<longleftrightarrow> b \<in> ?A' \<and> sa_sequence b = q" for q b
      using actions_inv_iff [OF act, of q b] a seq by auto
    show "action_wf b \<and> action_ok b s" if "b \<in> ?A'" "sa_simulated_order_id b = sa_simulated_order_id a" for b
      using that actions_inv_get(2) [OF act, of b] t by (auto simp: action_ok_def)
    show "b = c" if "b \<in> ?A'" "c \<in> ?A'" "sa_simulated_order_id b = sa_simulated_order_id a"
      "sa_simulated_order_id c = sa_simulated_order_id a" "sa_kind b = sa_kind c" for b c
      using that actions_inv_unique [OF act, of b c] by auto
    show "awaits ?A' (sa_simulated_order_id a) s" using t by (simp add: awaits_def)
  qed auto
  moreover have "orders_inv (drop_action a m)"
    using sm_midD(3) [OF mid] unfolding orders_inv_def drop_action_simps .
  moreover have "latencies_ok (drop_action a m)"
    using sm_midD(1) [OF mid] by (simp add: latencies_ok_def)
  moreover have "distinct rest" "set rest \<inter> set (sch_heap (sm_scheduler m)) = {}"
    using sm_midD(5,6) [OF mid] by auto
  moreover note sm_midD(2) [OF mid]
  ultimately show ?thesis
    unfolding sm_mid_def drop_action_simps using sm_mid_time [OF mid] by (meson list.set_intros(2))
qed

lemma awaits_mono: "awaits A i s \<Longrightarrow> (\<And>b. b \<in> A \<Longrightarrow> sa_simulated_order_id b = i \<Longrightarrow>
    sa_kind b = ACTIVATE \<longrightarrow> so_state s' \<noteq> PENDING_SUBMIT \<or> b \<in> B) \<Longrightarrow>
   (\<And>b. b \<in> A \<Longrightarrow> sa_simulated_order_id b = i \<Longrightarrow> sa_kind b = CANCEL \<Longrightarrow> b \<in> B) \<Longrightarrow>
   (so_state s' = PENDING_SUBMIT \<longrightarrow> so_state s = PENDING_SUBMIT) \<Longrightarrow>
   so_cancel_requested_ns s' = so_cancel_requested_ns s \<Longrightarrow> (\<not> so_terminal s' \<longrightarrow> \<not> so_terminal s)
   \<Longrightarrow> awaits B i s'"
  unfolding awaits_def by metis

lemma mid_after_activate:
  assumes mid: "sm_mid (a # rest) m" and s: "dict_get (sm_orders m) (sa_simulated_order_id a) = Some s"
    and t: "\<not> so_terminal s" and k: "sa_kind a = ACTIVATE"
    and R: "resolve_queue_ahead R s q = (Inr ahead, q')" and ahead: "in_bounds ahead 0 MAX_UINT64"
  shows "sm_mid rest (drop_action a (put_order (activated (R \<noteq> None) a ahead s) m))"
proof (rule mid_after_put [OF mid s t activated_identity])
  note act = apply_action_activate [OF mid s t k R ahead]
  show "order_wf (activated (R \<noteq> None) a ahead s)" by (rule act(4))
  show "so_effective_timestamp_ns s \<le> u" if "sch_last_market_timestamp_ns (sm_scheduler m) = Some u" for u
    using sm_mid_time(1) [OF mid that, of a] act(3) by simp
  show "action_ok b (activated (R \<noteq> None) a ahead s)" if "action_ok b s" "sa_kind b \<noteq> sa_kind a" for b
    using that t k by (cases "sa_kind b") (auto simp: action_ok_def activated_def so_terminal_def)
  have await: "awaits (set (sch_heap (sm_scheduler m)) \<union> set (a # rest)) (sa_simulated_order_id a) s"
    using sm_midD(4) [OF mid] s by (simp add: actions_inv_def)
  then show "awaits (set (sch_heap (sm_scheduler m)) \<union> set rest) (sa_simulated_order_id a)
      (activated (R \<noteq> None) a ahead s)"
    by (rule awaits_mono) (auto simp: activated_def k so_terminal_def act(2))
qed

lemma mid_after_cancel:
  assumes mid: "sm_mid (a # rest) m" and s: "dict_get (sm_orders m) (sa_simulated_order_id a) = Some s"
    and t: "\<not> so_terminal s" and k: "sa_kind a = CANCEL"
  shows "sm_mid rest (drop_action a (put_order (cancelled a s) m))"
  by (rule mid_after_put [OF mid s t cancelled_identity apply_action_cancel(3) [OF mid s t k]])
    (simp_all add: cancelled_def action_ok_def awaits_def so_terminal_def)

section \<open>All released actions\<close>

lemma resolve_queue_ahead_bounds:
  assumes "resolve_queue_ahead R s q = (Inr ahead, q')" "order_wf s"
  shows "in_bounds ahead 0 MAX_UINT64"
  using assms
  by (auto simp: resolve_queue_ahead_def opt_outside_iff order_wf_def
      split: option.splits prod.splits sum.splits if_splits)

text \<open>
  The contract between the state machine and the owner of the activation resolver. \<open>J\<close> relates
  the orders, the owner's state and the transitions already made in this batch; the owner keeps
  it when an order is activated (or rejected) with the resolver's answer, and when one is
  cancelled. The client lemma is that a whole batch of released actions keeps it, and that a
  batch fails only if the resolver itself fails (\<open>activation_fails\<close>), on an order that still
  waits for its activation.
\<close>

definition activation_fails ::
  "'q activation_queue_resolver option
     \<Rightarrow> ((int, simulated_order) dict \<Rightarrow> 'q \<Rightarrow> order_transition list \<Rightarrow> bool) \<Rightarrow> sim_error \<Rightarrow> bool" where
  "activation_fails R J e \<longleftrightarrow> (\<exists>s od q ts. J od q ts \<and> order_wf s
     \<and> dict_get od (so_simulated_order_id s) = Some s \<and> so_state s = PENDING_SUBMIT
     \<and> fst (resolve_queue_ahead R s q) = Inl e)"

lemma activation_fails_None [simp]: "\<not> activation_fails None J e"
  by (simp add: activation_fails_def resolve_queue_ahead_def)

locale activation_resolver =
  fixes R :: "'q activation_queue_resolver option"
    and J :: "(int, simulated_order) dict \<Rightarrow> 'q \<Rightarrow> order_transition list \<Rightarrow> bool"
  assumes activate: "J od q ts \<Longrightarrow> dict_get od (so_simulated_order_id s) = Some s \<Longrightarrow> order_wf s
      \<Longrightarrow> so_state s = PENDING_SUBMIT \<Longrightarrow> resolve_queue_ahead R s q = (Inr ahead, q')
      \<Longrightarrow> J (dict_set (so_simulated_order_id s) (activated (R \<noteq> None) a ahead s) od) q'
            (ts @ [transition_of s (activated (R \<noteq> None) a ahead s)
                     (if R \<noteq> None \<and> ahead = None then CAUSE_REJECTED else CAUSE_ACTIVATED)
                     t None None
                     (if R \<noteq> None \<and> ahead = None then Some MARKETABLE_AT_ACTIVATION else None)])"
    and cancel: "J od q ts \<Longrightarrow> dict_get od (so_simulated_order_id s) = Some s
      \<Longrightarrow> so_state s = PENDING_SUBMIT \<or> so_state s = PENDING_CANCEL
      \<Longrightarrow> J (dict_set (so_simulated_order_id s) (cancelled a s) od) q
            (ts @ [transition_of s (cancelled a s) CAUSE_CANCELLED t None None None])"
begin

lemma apply_action_keeps:
  assumes mid: "sm_mid (a # rest) m" and J: "J (sm_orders m) q ts"
    and run: "apply_action R a (m, q) = (r, (m', q'))"
  shows "case r of
      Inl e \<Rightarrow> activation_fails R J e
    | Inr tr \<Rightarrow> sm_mid rest m' \<and> sm_scheduler m' = sm_scheduler m
        \<and> J (sm_orders m') q' (ts @ (case tr of None \<Rightarrow> [] | Some t \<Rightarrow> [t]))"
proof -
  have "a \<in> set (sch_heap (sm_scheduler m)) \<union> set (a # rest)" by simp
  from actions_inv_get(3) [OF sm_midD(4) [OF mid] this] obtain s where
    s: "dict_get (sm_orders m) (sa_simulated_order_id a) = Some s" by blast
  have id: "so_simulated_order_id s = sa_simulated_order_id a" and wf: "order_wf s"
    using orders_inv_get [OF sm_midD(3) [OF mid] s] by simp_all
  have s': "dict_get (sm_orders m) (so_simulated_order_id s) = Some s" using s id by simp
  show ?thesis
  proof (cases "so_terminal s")
    case True
    from apply_action_terminal [OF mid s True, of R q] mid_after_drop [OF mid s True] J run
    show ?thesis by auto
  next
    case t: False
    show ?thesis
    proof (cases "sa_kind a")
      case k: ACTIVATE
      show ?thesis
      proof (cases "resolve_queue_ahead R s q")
        case (Pair r0 q0)
        show ?thesis
        proof (cases r0)
          case (Inl e)
          have "apply_action R a (m, q) = (Inl e, (m, q0))"
            using actions_inv_get(1,2) [OF sm_midD(4) [OF mid], of a] s t k Pair Inl
              actions_inv_get(3) [OF sm_midD(4) [OF mid], of a]
            by (auto simp: apply_action_def sm_order_get action_wf_def bindM_def on_owner_def
                action_ok_def)
          moreover have "so_state s = PENDING_SUBMIT"
            using actions_inv_get(3) [OF sm_midD(4) [OF mid], of a] s k t by (auto simp: action_ok_def)
          ultimately show ?thesis using run Pair Inl J wf s'
            by (auto simp: activation_fails_def intro!: exI [of _ s] exI [of _ "sm_orders m"] exI [of _ q])
        next
          case (Inr ahead)
          with Pair have res: "resolve_queue_ahead R s q = (Inr ahead, q0)" by simp
          note b = resolve_queue_ahead_bounds [OF res wf]
          note act = apply_action_activate [OF mid s t k res b]
          have "so_simulated_order_id (activated (R \<noteq> None) a ahead s) = so_simulated_order_id s"
            using activated_identity [of s "R \<noteq> None" a ahead] by (simp add: same_identity_def)
          then show ?thesis
            using act(1) run mid_after_activate [OF mid s t k res b] activate [OF J s' wf act(2) res]
            by auto
        qed
      qed
    next
      case k: CANCEL
      note can = apply_action_cancel(1) [OF mid s t k, of R q] apply_action_cancel(4) [OF mid s t k]
      have "so_simulated_order_id (cancelled a s) = so_simulated_order_id s"
        by (simp add: cancelled_def)
      then show ?thesis
        using can(1) run mid_after_cancel [OF mid s t k] cancel [OF J s' can(2)] by auto
    qed
  qed
qed

lemma forM_keeps:
  assumes "sm_mid as m" "J (sm_orders m) q ts" "forM (apply_action R) as (m, q) = (r, (m', q'))"
  shows "case r of
      Inl e \<Rightarrow> activation_fails R J e
    | Inr trs \<Rightarrow> sm_inv m' \<and> sm_scheduler m' = sm_scheduler m
        \<and> J (sm_orders m') q' (ts @ List.map_filter id trs)"
  using assms
proof (induction as arbitrary: m q ts r m' q')
  case Nil
  then show ?case by (auto simp: sm_inv_def map_filter_simps)
next
  case (Cons a as)
  obtain r1 m1 q1 where one: "apply_action R a (m, q) = (r1, (m1, q1))"
    by (cases "apply_action R a (m, q)") auto
  note k = apply_action_keeps [OF Cons.prems(1,2) one]
  show ?case
  proof (cases r1)
    case (Inl e)
    have r: "r = Inl e" using Inl one Cons.prems(3) by simp
    show ?thesis using k unfolding r Inl sum.case .
  next
    case (Inr tr)
    with k have mid: "sm_mid as m1" and J1: "J (sm_orders m1) q1 (ts @ (case tr of None \<Rightarrow> [] | Some t \<Rightarrow> [t]))"
      and sch: "sm_scheduler m1 = sm_scheduler m" by simp_all
    obtain r2 m2 q2 where two: "forM (apply_action R) as (m1, q1) = (r2, (m2, q2))"
      by (cases "forM (apply_action R) as (m1, q1)") auto
    from Cons.IH [OF mid J1 two] sch one two Inr Cons.prems(3) show ?thesis
      by (cases r2; cases tr) (auto simp: map_filter_simps)
  qed
qed

lemma apply_actions_keeps:
  assumes "sm_mid as m" "J (sm_orders m) q []" "apply_actions R as (m, q) = (r, (m', q'))"
  shows "case r of
      Inl e \<Rightarrow> activation_fails R J e
    | Inr ts \<Rightarrow> sm_inv m' \<and> sm_scheduler m' = sm_scheduler m \<and> J (sm_orders m') q' ts"
proof -
  obtain r1 mq1 where one: "forM (apply_action R) as (m, q) = (r1, mq1)"
    by (cases "forM (apply_action R) as (m, q)")
  with assms(3) have "mq1 = (m', q')" "r = (case r1 of Inl e \<Rightarrow> Inl e | Inr ts \<Rightarrow> Inr (List.map_filter id ts))"
    by (auto simp: apply_actions_def bindM_def split: sum.splits)
  with forM_keeps [OF assms(1,2), of r1 m' q'] one show ?thesis by (auto split: sum.splits)
qed

end

end
