(* ===== verification/Machine_Properties.thy ===== *)
theory Machine_Properties
  imports Machine_Invariant
begin

text \<open>
  The public operations of \<open>OrderStateMachine\<close> keep the invariant, and what that gives: the
  lifecycle, one live order per symbol and side, exact fill quantities, no overdue action.
\<close>

section \<open>Operations on one order\<close>

lemma sm_mid_frame:
  assumes mid: "sm_mid [] m" and act: "actions_inv (set (sch_heap (sm_scheduler m))) m'"
    and ord: "orders_inv m'" and lat: "latencies_ok m'" and sch: "sm_scheduler m' = sm_scheduler m"
  shows "sm_mid [] m'"
proof (rule sm_midI)
  show "t \<le> sa_effective_timestamp_ns a"
    if "sch_last_market_timestamp_ns (sm_scheduler m') = Some t" "a \<in> set (sch_heap (sm_scheduler m'))" for t a
    by (rule sm_mid_time(2) [OF mid]) (use that sch in simp_all)
  show "sched_inv (sm_scheduler m')" using sm_midD(2) [OF mid] sch by simp
  show "actions_inv (set (sch_heap (sm_scheduler m')) \<union> set []) m'" using act sch by simp
qed (use ord lat in simp_all)

lemma orders_inv_cong:
  assumes "orders_inv m" "sm_orders m' = sm_orders m" "sm_occupied_slots m' = sm_occupied_slots m"
    and "sch_last_market_timestamp_ns (sm_scheduler m') = sch_last_market_timestamp_ns (sm_scheduler m)"
  shows "orders_inv m'"
  using assms(1) unfolding orders_inv_def assms(2-4) .

lemma invalid_transition_neq [simp]: "invalid_transition s \<noteq> Inr x" "Inr x \<noteq> invalid_transition s"
  by (simp_all add: invalid_transition_def)

lemma inv_after_put:
  assumes inv: "sm_inv m" and s: "dict_get (sm_orders m) i = Some s" "\<not> so_terminal s"
    and same: "same_identity s s'" and wf: "order_wf s'"
    and exp: "\<And>t. EXPOSED_STATES (so_state s') \<Longrightarrow> sch_last_market_timestamp_ns (sm_scheduler m) = Some t
      \<Longrightarrow> so_effective_timestamp_ns s \<le> t"
    and own: "\<And>b. b \<in> set (sch_heap (sm_scheduler m)) \<Longrightarrow> sa_simulated_order_id b = i \<Longrightarrow> action_ok b s
      \<Longrightarrow> action_ok b s'"
    and await: "awaits (set (sch_heap (sm_scheduler m))) i s \<Longrightarrow> awaits (set (sch_heap (sm_scheduler m))) i s'"
  shows "sm_inv (put_order s' m)"
proof -
  have mid: "sm_mid [] m" using inv by (simp add: sm_inv_def)
  let ?A = "set (sch_heap (sm_scheduler m))"
  have act: "actions_inv ?A m" using sm_midD(4) [OF mid] by simp
  have id: "so_simulated_order_id s' = i"
    using orders_inv_get(1) [OF sm_midD(3) [OF mid] s(1)] same by (simp add: same_identity_def)
  have "actions_inv ?A (put_order s' m)"
  proof (rule actions_inv_change [OF act, where i = i and s' = s'])
    show "sm_orders (put_order s' m) = dict_set i s' (sm_orders m)" by (simp add: id)
    show "dict_get (sm_scheduled_actions (put_order s' m)) q = Some b \<longleftrightarrow> b \<in> ?A \<and> sa_sequence b = q" for q b
      using actions_inv_iff [OF act, of q b] by simp
    show "action_wf b \<and> action_ok b s'" if "b \<in> ?A" "sa_simulated_order_id b = i" for b
      using that actions_inv_get(2,3) [OF act that(1)] s(1) own [OF that] by auto
    show "b = c" if "b \<in> ?A" "c \<in> ?A" "sa_simulated_order_id b = i" "sa_simulated_order_id c = i"
      "sa_kind b = sa_kind c" for b c
      using that actions_inv_unique [OF act, of b c] by simp
    show "awaits ?A i s'" using act s(1) by (intro await) (simp add: actions_inv_def)
  qed simp
  moreover have "orders_inv (put_order s' m)"
    by (rule put_order_orders_inv [OF sm_midD(3) [OF mid] s same wf exp])
  moreover have "latencies_ok (put_order s' m)" using sm_midD(1) [OF mid] by (simp add: latencies_ok_def)
  ultimately show ?thesis
    unfolding sm_inv_def by (rule sm_mid_frame [OF mid]) (simp_all add: put_order_def)
qed

lemma commit_Inr:
  assumes "commit s s' cause t i q r m = (Inr tr, m')"
  shows "order_wf s'" "m' = put_order s' m" "tr = transition_of s s' cause t i q r"
  using assms
  by (auto simp: commit_def put_order_def transition_of_def Let_def
      simp flip: validate_simulated_order_Inr split: sum.splits if_splits)

lemma require_current_market_key_Inr:
  "require_current_market_key m t i j = Inr () \<longleftrightarrow>
     sch_last_market_timestamp_ns (sm_scheduler m) = Some t
   \<and> sch_last_market_message_index (sm_scheduler m) = Some i
   \<and> sch_completed_market_timestamp_ns (sm_scheduler m) \<noteq> Some t"
  unfolding require_current_market_key_def current_market_key_def
    current_market_timestamp_completed_def
  by (cases "sch_last_market_timestamp_ns (sm_scheduler m)";
      cases "sch_last_market_message_index (sm_scheduler m)") (simp_all, blast?)

lemma validate_timestamp_Inr:
  "validate_timestamp t i = Inr () \<longleftrightarrow> 0 \<le> t \<and> t \<le> MAX_TIMESTAMP_NS"
  by (simp add: validate_timestamp_def valid_int_def)

text \<open>An update that ends an order needs no more than its well-formedness.\<close>

lemma inv_after_end:
  assumes "sm_inv m" "dict_get (sm_orders m) i = Some s" "\<not> so_terminal s" "same_identity s s'"
    "order_wf s'" "so_terminal s'"
  shows "sm_inv (put_order s' m)"
  using assms(6)
  by (intro inv_after_put [OF assms(1-5)]) (auto simp: action_ok_def awaits_def terminal_iff so_terminal_def)

lemma not_terminal_states: "so_state s = PENDING_SUBMIT \<Longrightarrow> \<not> so_terminal s"
  "EXPOSED_STATES (so_state s) \<Longrightarrow> \<not> so_terminal s"
  by (auto simp: so_terminal_def terminal_iff)

definition filled_order :: "simulated_order \<Rightarrow> int \<Rightarrow> int \<Rightarrow> simulated_order" where
  "filled_order s quantity t =
     s\<lparr>so_remaining_quantity := so_remaining_quantity s - quantity,
       so_state := (if so_remaining_quantity s = quantity then FILLED
                    else if so_state s = PENDING_CANCEL then PENDING_CANCEL else PARTIALLY_FILLED),
       so_terminal_timestamp_ns := (if so_remaining_quantity s = quantity then Some t else None)\<rparr>"

lemma record_fill_Inr:
  assumes "record_fill i quantity t mi m = (Inr tr, m')"
  obtains s where "dict_get (sm_orders m) i = Some s" "0 \<le> i" "i \<le> MAX_UINT64"
    "EXPOSED_STATES (so_state s)" "1 \<le> quantity" "quantity \<le> so_remaining_quantity s"
    "so_effective_timestamp_ns s \<le> t" "order_wf (filled_order s quantity t)"
    "m' = put_order (filled_order s quantity t) m"
    "tr = transition_of s (filled_order s quantity t)
       (if so_remaining_quantity s = quantity then CAUSE_FILLED else CAUSE_PARTIAL_FILL) t (Some mi)
       (Some quantity) None"
    "sch_last_market_timestamp_ns (sm_scheduler m) = Some t"
proof -
  from assms obtain s where s: "sm_order m i = Inr s"
    by (auto simp: record_fill_def split: sum.splits)
  from assms s have key: "require_current_market_key m t mi i = Inr ()"
    by (auto simp: record_fill_def split: sum.splits)
  show ?thesis
  proof (rule that [of s])
    show "dict_get (sm_orders m) i = Some s" "0 \<le> i" "i \<le> MAX_UINT64"
      using s by (simp_all add: sm_order_Inr)
    show "sch_last_market_timestamp_ns (sm_scheduler m) = Some t"
      using key by (simp add: require_current_market_key_Inr)
    show "EXPOSED_STATES (so_state s)" "1 \<le> quantity" "quantity \<le> so_remaining_quantity s"
      "so_effective_timestamp_ns s \<le> t"
      using assms s key
      by (auto simp: record_fill_def exposed_iff valid_int_def split: if_splits)
    have "commit s (filled_order s quantity t)
       (if so_remaining_quantity s = quantity then CAUSE_FILLED else CAUSE_PARTIAL_FILL) t (Some mi)
       (Some quantity) None m = (Inr tr, m')"
      using assms s key
      by (auto simp: record_fill_def filled_order_def Let_def split: if_splits)
    from commit_Inr [OF this] show "order_wf (filled_order s quantity t)"
      "m' = put_order (filled_order s quantity t) m"
      "tr = transition_of s (filled_order s quantity t)
       (if so_remaining_quantity s = quantity then CAUSE_FILLED else CAUSE_PARTIAL_FILL) t (Some mi)
       (Some quantity) None" by simp_all
  qed
qed

lemma filled_identity: "same_identity s (filled_order s quantity t)"
  by (simp add: filled_order_def same_identity_def)

lemma filled_order_simps [simp]:
  "so_simulated_order_id (filled_order s quantity t) = so_simulated_order_id s"
  "so_remaining_quantity (filled_order s quantity t) = so_remaining_quantity s - quantity"
  "so_original_quantity (filled_order s quantity t) = so_original_quantity s"
  "so_cancel_requested_ns (filled_order s quantity t) = so_cancel_requested_ns s"
  by (simp_all add: filled_order_def)

lemma record_fill_inv:
  assumes inv: "sm_inv m" and run: "record_fill i quantity t mi m = (Inr tr, m')"
  shows "sm_inv m'"
  using run
proof (rule record_fill_Inr)
  fix s
  assume s: "dict_get (sm_orders m) i = Some s" and e: "EXPOSED_STATES (so_state s)"
    and eff: "so_effective_timestamp_ns s \<le> t" and wf: "order_wf (filled_order s quantity t)"
    and m': "m' = put_order (filled_order s quantity t) m"
    and lt: "sch_last_market_timestamp_ns (sm_scheduler m) = Some t"
  have nt: "\<not> so_terminal s" by (rule not_terminal_states(2) [OF e])
  show ?thesis
    unfolding m'
  proof (rule inv_after_put [OF inv s nt filled_identity wf])
    show "so_effective_timestamp_ns s \<le> u"
      if "sch_last_market_timestamp_ns (sm_scheduler m) = Some u" for u
      using that lt eff by simp
    show "action_ok b (filled_order s quantity t)" if "action_ok b s" for b
      using that nt e by (cases "sa_kind b") (auto simp: action_ok_def filled_order_def so_terminal_def exposed_iff)
    show "awaits (set (sch_heap (sm_scheduler m))) i (filled_order s quantity t)"
      if "awaits (set (sch_heap (sm_scheduler m))) i s"
      using that by (rule awaits_mono) (use e nt in \<open>auto simp: filled_order_def so_terminal_def exposed_iff\<close>)
  qed
qed

lemma request_cancel_Inr:
  assumes "request_cancel i t mi m = (Inr tr, m')"
  obtains s s' a sch where "dict_get (sm_orders m) i = Some s" "0 \<le> i" "i \<le> MAX_UINT64"
    "so_state s = PENDING_SUBMIT \<or> so_state s = ACTIVE \<or> so_state s = PARTIALLY_FILLED"
    "so_cancel_requested_ns s = None" "so_requested_timestamp_ns s \<le> t"
    "s' = s\<lparr>so_state := (if so_state s = PENDING_SUBMIT then PENDING_SUBMIT else PENDING_CANCEL),
           so_cancel_requested_ns := Some t\<rparr>"
    "order_wf s'"
    "schedule CANCEL i t mi (sm_cancellation_latency_ns m) (sm_scheduler m) = (Inr a, sch)"
    "m' = m\<lparr>sm_scheduler := sch, sm_orders := dict_set i s' (sm_orders m),
           sm_scheduled_actions := dict_set (sa_sequence a) a (sm_scheduled_actions m)\<rparr>"
    "ot_simulated_order_id tr = i" "ot_before_state tr = Some (so_state s)"
    "ot_after_state tr = so_state s'" "ot_quantity tr = None" "ot_cause tr = CAUSE_CANCEL_REQUESTED"
    "sch_last_market_timestamp_ns (sm_scheduler m) = Some t"
proof -
  from assms obtain s where s: "sm_order m i = Inr s"
    by (auto simp: request_cancel_def split: sum.splits)
  from assms s have key: "require_current_market_key m t mi i = Inr ()"
    by (auto simp: request_cancel_def split: sum.splits)
  let ?s' = "s\<lparr>so_state := (if so_state s = PENDING_SUBMIT then PENDING_SUBMIT else PENDING_CANCEL),
           so_cancel_requested_ns := Some t\<rparr>"
  from assms s key have wf: "validate_simulated_order ?s' = Inr ()"
    by (auto simp: request_cancel_def Let_def split: sum.splits if_splits)
  obtain r sch where sch: "schedule CANCEL i t mi (sm_cancellation_latency_ns m) (sm_scheduler m) = (r, sch)"
    by (cases "schedule CANCEL i t mi (sm_cancellation_latency_ns m) (sm_scheduler m)")
  from assms s key wf sch obtain a where a: "r = Inr a"
    by (cases r) (auto simp: request_cancel_def Let_def split: sum.splits if_splits)
  show ?thesis
  proof (rule that [of s ?s' a sch])
    show "dict_get (sm_orders m) i = Some s" "0 \<le> i" "i \<le> MAX_UINT64"
      using s by (simp_all add: sm_order_Inr)
    show "sch_last_market_timestamp_ns (sm_scheduler m) = Some t"
      using key by (simp add: require_current_market_key_Inr)
    show "order_wf ?s'" using wf by (simp add: validate_simulated_order_Inr)
    show "schedule CANCEL i t mi (sm_cancellation_latency_ns m) (sm_scheduler m) = (Inr a, sch)"
      using sch a by simp
    show "so_state s = PENDING_SUBMIT \<or> so_state s = ACTIVE \<or> so_state s = PARTIALLY_FILLED"
      "so_cancel_requested_ns s = None" "so_requested_timestamp_ns s \<le> t"
      using assms s key by (auto simp: request_cancel_def split: if_splits)
    show "m' = m\<lparr>sm_scheduler := sch, sm_orders := dict_set i ?s' (sm_orders m),
           sm_scheduled_actions := dict_set (sa_sequence a) a (sm_scheduled_actions m)\<rparr>"
      "ot_simulated_order_id tr = i" "ot_before_state tr = Some (so_state s)"
      "ot_after_state tr = so_state ?s'" "ot_quantity tr = None" "ot_cause tr = CAUSE_CANCEL_REQUESTED"
      using assms s key wf sch a by (auto simp: request_cancel_def Let_def split: sum.splits if_splits)
  qed (rule refl)
qed

text \<open>Adding one order, or replacing one, together with one new action about it.\<close>

lemma inv_after_schedule:
  assumes inv: "sm_inv m" and sch: "schedule k i t mi l (sm_scheduler m) = (Inr a, sch)"
    and lt: "sch_last_market_timestamp_ns (sm_scheduler m) = Some t"
    and m': "sm_scheduler m' = sch" "sm_orders m' = dict_set i s' (sm_orders m)"
      "sm_scheduled_actions m' = dict_set (sa_sequence a) a (sm_scheduled_actions m)"
      "sm_submission_latency_ns m' = sm_submission_latency_ns m"
      "sm_cancellation_latency_ns m' = sm_cancellation_latency_ns m"
    and ord: "orders_inv m'" and ok: "action_ok a s'"
    and own: "\<And>b. b \<in> set (sch_heap (sm_scheduler m)) \<Longrightarrow> sa_simulated_order_id b = i
      \<Longrightarrow> sa_kind b \<noteq> k \<and> action_ok b s'"
    and await: "awaits (insert a (set (sch_heap (sm_scheduler m)))) i s'"
  shows "sm_inv m'"
proof -
  have mid: "sm_mid [] m" using inv by (simp add: sm_inv_def)
  note f = schedule_fields [OF sch]
  let ?A = "set (sch_heap (sm_scheduler m))"
  have act: "actions_inv ?A m" using sm_midD(4) [OF mid] by simp
  have heap: "set (sch_heap (sm_scheduler m')) = insert a ?A" by (simp add: m' f)
  have fresh: "sa_sequence b \<noteq> sa_sequence a" if "b \<in> ?A" for b
    using sm_midD(2) [OF mid] that f(2) by (auto simp: sched_inv_def)
  have act': "actions_inv (insert a ?A) m'"
  proof (rule actions_inv_change [OF act, where i = i and s' = s'])
    show "dict_get (sm_scheduled_actions m') q = Some b \<longleftrightarrow> b \<in> insert a ?A \<and> sa_sequence b = q" for q b
      using actions_inv_iff [OF act, of q b] fresh by (auto simp: m')
    show "b \<in> insert a ?A \<longleftrightarrow> b \<in> ?A" if "sa_simulated_order_id b \<noteq> i" for b
      using that f(3) by auto
    show "action_wf b \<and> action_ok b s'" if "b \<in> insert a ?A" "sa_simulated_order_id b = i" for b
      using that own ok schedule_action_wf [OF sch sm_midD(2) [OF mid]] actions_inv_get(2) [OF act]
      by auto
    show "b = c" if "b \<in> insert a ?A" "c \<in> insert a ?A" "sa_simulated_order_id b = i"
      "sa_simulated_order_id c = i" "sa_kind b = sa_kind c" for b c
      using that own [of b] own [of c] f(3,4) actions_inv_unique [OF act, of b c] by auto
  qed (use m' await in simp_all)
  show ?thesis
    unfolding sm_inv_def
  proof (rule sm_midI)
    show "sched_inv (sm_scheduler m')" using schedule_inv [OF sm_midD(2) [OF mid] sch] m' by simp
    show "latencies_ok m'" using sm_midD(1) [OF mid] m' by (simp add: latencies_ok_def)
    show "actions_inv (set (sch_heap (sm_scheduler m')) \<union> set []) m'" using act' heap by simp
    fix u b
    assume "sch_last_market_timestamp_ns (sm_scheduler m') = Some u" "b \<in> set (sch_heap (sm_scheduler m'))"
    then have "u = t" "b = a \<or> b \<in> ?A" using lt f(7) m' heap by auto
    moreover have "t \<le> sa_effective_timestamp_ns a"
      using schedule_Inr(1) [OF sch] by (simp add: effective_timestamp_Inr)
    ultimately show "u \<le> sa_effective_timestamp_ns b" using sm_mid_time(2) [OF mid lt, of b] by blast
  qed (use ord in simp_all)
qed

lemma request_cancel_inv:
  assumes inv: "sm_inv m" and run: "request_cancel i t mi m = (Inr tr, m')"
  shows "sm_inv m'"
  using run
proof (rule request_cancel_Inr)
  fix s s' a sch
  assume s: "dict_get (sm_orders m) i = Some s"
    and st: "so_state s = PENDING_SUBMIT \<or> so_state s = ACTIVE \<or> so_state s = PARTIALLY_FILLED"
    and none: "so_cancel_requested_ns s = None"
    and s': "s' = s\<lparr>so_state := (if so_state s = PENDING_SUBMIT then PENDING_SUBMIT else PENDING_CANCEL),
           so_cancel_requested_ns := Some t\<rparr>" and wf: "order_wf s'"
    and sch: "schedule CANCEL i t mi (sm_cancellation_latency_ns m) (sm_scheduler m) = (Inr a, sch)"
    and m': "m' = m\<lparr>sm_scheduler := sch, sm_orders := dict_set i s' (sm_orders m),
           sm_scheduled_actions := dict_set (sa_sequence a) a (sm_scheduled_actions m)\<rparr>"
    and lt: "sch_last_market_timestamp_ns (sm_scheduler m) = Some t"
  have mid: "sm_mid [] m" using inv by (simp add: sm_inv_def)
  note f = schedule_fields [OF sch]
  have nt: "\<not> so_terminal s" "\<not> so_terminal s'" using st s' by (auto simp: so_terminal_def)
  have act: "actions_inv (set (sch_heap (sm_scheduler m))) m" using sm_midD(4) [OF mid] by simp
  have id: "so_simulated_order_id s' = i"
    using orders_inv_get(1) [OF sm_midD(3) [OF mid] s] s' by simp
  have exp: "so_effective_timestamp_ns s \<le> u"
    if "EXPOSED_STATES (so_state s')" "sch_last_market_timestamp_ns (sm_scheduler m) = Some u" for u
    using orders_inv_get(3) [OF sm_midD(3) [OF mid] s] that st s' by (auto split: if_splits)
  have put: "orders_inv (put_order s' m)"
    by (rule put_order_orders_inv [OF sm_midD(3) [OF mid] s nt(1) _ wf exp])
      (simp_all add: s' same_identity_def)
  have slots: "sm_occupied_slots (put_order s' m) = sm_occupied_slots m"
    using nt(2) by (simp add: put_order_def)
  have ord: "orders_inv m'"
    by (rule orders_inv_cong [OF put]) (simp_all add: m' slots id f(7))
  show ?thesis
  proof (rule inv_after_schedule [OF inv sch lt _ _ _ _ _ ord])
    show "action_ok a s'" using nt f(4,5) s' by (simp add: action_ok_def)
    show "sa_kind b \<noteq> CANCEL \<and> action_ok b s'"
      if "b \<in> set (sch_heap (sm_scheduler m))" "sa_simulated_order_id b = i" for b
    proof -
      have b: "action_ok b s" using actions_inv_get(3) [OF act that(1)] that(2) s by simp
      with nt(1) none have "sa_kind b = ACTIVATE" by (cases "sa_kind b") (auto simp: action_ok_def)
      with b nt s' show ?thesis by (auto simp: action_ok_def)
    qed
    have "awaits (set (sch_heap (sm_scheduler m))) i s" using act s by (simp add: actions_inv_def)
    then show "awaits (insert a (set (sch_heap (sm_scheduler m)))) i s'"
      using nt st s' f(3,4) by (auto simp: awaits_def)
  qed (simp_all add: m')
qed

lemma submit_Inr:
  assumes "submit request m = (Inr tr, m')"
  obtains a sch where "request_wf request"
    "dict_get (sm_orders m) (rq_simulated_order_id request) = None"
    "dict_get (sm_occupied_slots m) (rq_symbol_id request, rq_side request) = None"
    "order_wf (new_order request (sa_effective_timestamp_ns a))"
    "schedule ACTIVATE (rq_simulated_order_id request) (rq_requested_timestamp_ns request)
       (rq_decision_message_index request) (sm_submission_latency_ns m) (sm_scheduler m) = (Inr a, sch)"
    "m' = m\<lparr>sm_scheduler := sch,
           sm_orders := dict_set (rq_simulated_order_id request)
             (new_order request (sa_effective_timestamp_ns a)) (sm_orders m),
           sm_occupied_slots := dict_set (rq_symbol_id request, rq_side request)
             (rq_simulated_order_id request) (sm_occupied_slots m),
           sm_scheduled_actions := dict_set (sa_sequence a) a (sm_scheduled_actions m)\<rparr>"
    "ot_simulated_order_id tr = rq_simulated_order_id request" "ot_before_state tr = None"
    "ot_after_state tr = PENDING_SUBMIT" "ot_quantity tr = None" "ot_cause tr = CAUSE_SUBMITTED"
    "sch_last_market_timestamp_ns (sm_scheduler m) = Some (rq_requested_timestamp_ns request)"
proof -
  let ?i = "rq_simulated_order_id request" and ?t = "rq_requested_timestamp_ns request"
    and ?d = "rq_decision_message_index request" and ?slot = "(rq_symbol_id request, rq_side request)"
  from assms have req: "validate_order_request request = Inr ()"
    by (auto simp: submit_def Let_def split: sum.splits)
  from assms req have key: "require_current_market_key m ?t ?d ?i = Inr ()"
    by (auto simp: submit_def Let_def split: sum.splits)
  from assms req key have free: "\<not> has_key (sm_orders m) ?i" "\<not> has_key (sm_occupied_slots m) ?slot"
    by (auto simp: submit_def Let_def split: if_splits)
  from assms req key free obtain eff where
    eff: "effective_timestamp ?t (sm_submission_latency_ns m) = Inr eff"
    by (auto simp: submit_def Let_def split: sum.splits)
  from assms req key free eff have wf: "validate_simulated_order (new_order request eff) = Inr ()"
    by (auto simp: submit_def Let_def split: sum.splits)
  obtain r sch where sch: "schedule ACTIVATE ?i ?t ?d (sm_submission_latency_ns m) (sm_scheduler m) = (r, sch)"
    by (cases "schedule ACTIVATE ?i ?t ?d (sm_submission_latency_ns m) (sm_scheduler m)")
  from assms req key free eff wf sch obtain a where a: "r = Inr a"
    by (cases r) (auto simp: submit_def Let_def split: sum.splits if_splits)
  have ea: "sa_effective_timestamp_ns a = eff"
    using schedule_Inr(1) [of ACTIVATE ?i ?t ?d _ "sm_scheduler m" a sch] sch a eff by simp
  show ?thesis
  proof (rule that [of a sch])
    show "request_wf request" using req by (simp add: validate_order_request_Inr)
    show "dict_get (sm_orders m) ?i = None" "dict_get (sm_occupied_slots m) ?slot = None"
      using free by (simp_all add: has_key_def)
    show "order_wf (new_order request (sa_effective_timestamp_ns a))"
      using wf ea by (simp add: validate_simulated_order_Inr)
    show "schedule ACTIVATE ?i ?t ?d (sm_submission_latency_ns m) (sm_scheduler m) = (Inr a, sch)"
      using sch a by simp
    show "sch_last_market_timestamp_ns (sm_scheduler m) = Some ?t"
      using key by (simp add: require_current_market_key_Inr)
    show "m' = m\<lparr>sm_scheduler := sch,
           sm_orders := dict_set ?i (new_order request (sa_effective_timestamp_ns a)) (sm_orders m),
           sm_occupied_slots := dict_set ?slot ?i (sm_occupied_slots m),
           sm_scheduled_actions := dict_set (sa_sequence a) a (sm_scheduled_actions m)\<rparr>"
      "ot_simulated_order_id tr = ?i" "ot_before_state tr = None"
      "ot_after_state tr = PENDING_SUBMIT" "ot_quantity tr = None" "ot_cause tr = CAUSE_SUBMITTED"
      using assms req key free eff wf sch a ea by (auto simp: submit_def Let_def)
  qed
qed

lemma orders_inv_submit:
  assumes inv: "orders_inv m" and new: "dict_get (sm_orders m) i = None"
    and free: "dict_get (sm_occupied_slots m) (order_slot s') = None"
    and id: "so_simulated_order_id s' = i" and wf: "order_wf s'" and st: "so_state s' = PENDING_SUBMIT"
    and lt: "sch_last_market_timestamp_ns (sm_scheduler m) = Some (so_requested_timestamp_ns s')"
    and m': "sm_orders m' = dict_set i s' (sm_orders m)"
      "sm_occupied_slots m' = dict_set (order_slot s') i (sm_occupied_slots m)"
      "sch_last_market_timestamp_ns (sm_scheduler m') = sch_last_market_timestamp_ns (sm_scheduler m)"
  shows "orders_inv m'"
proof (rule orders_invI)
  show "dict_ok (sm_orders m')" "dict_ok (sm_occupied_slots m')"
    using inv by (auto simp: orders_inv_def m')
  have nt: "\<not> so_terminal s'" using st by (simp add: so_terminal_def)
  fix k j
  have old: "dict_get (sm_occupied_slots m) k = Some j \<longleftrightarrow>
      (\<exists>u. dict_get (sm_orders m) j = Some u \<and> \<not> so_terminal u \<and> order_slot u = k)" for k j
    by (rule orders_inv_slots_iff [OF inv])
  show "dict_get (sm_occupied_slots m') k = Some j \<longleftrightarrow>
      (\<exists>u. dict_get (sm_orders m') j = Some u \<and> \<not> so_terminal u \<and> order_slot u = k)"
    using old [of k j] old [of "order_slot s'" j] old [of k i] nt new free by (auto simp: m')
next
  fix j u
  assume "dict_get (sm_orders m') j = Some u"
  then show "so_simulated_order_id u = j \<and> order_wf u
      \<and> (\<exists>t. sch_last_market_timestamp_ns (sm_scheduler m') = Some t
           \<and> so_requested_timestamp_ns u \<le> t
           \<and> (EXPOSED_STATES (so_state u) \<longrightarrow> so_effective_timestamp_ns u \<le> t))"
    using orders_inv_get [OF inv, of j u] id wf st lt m' by (auto split: if_splits)
qed

lemma new_order_simps [simp]:
  "so_simulated_order_id (new_order r e) = rq_simulated_order_id r"
  "so_state (new_order r e) = PENDING_SUBMIT" "so_cancel_requested_ns (new_order r e) = None"
  "so_effective_timestamp_ns (new_order r e) = e"
  "so_requested_timestamp_ns (new_order r e) = rq_requested_timestamp_ns r"
  "so_original_quantity (new_order r e) = rq_quantity r"
  "so_remaining_quantity (new_order r e) = rq_quantity r"
  "order_slot (new_order r e) = (rq_symbol_id r, rq_side r)"
  by (simp_all add: new_order_def order_slot_def)

lemma submit_inv:
  assumes inv: "sm_inv m" and run: "submit request m = (Inr tr, m')"
  shows "sm_inv m'"
  using run
proof (rule submit_Inr)
  fix a :: scheduled_action and sch
  let ?i = "rq_simulated_order_id request"
    and ?s = "new_order request (sa_effective_timestamp_ns a)"
  assume new: "dict_get (sm_orders m) ?i = None"
    and free: "dict_get (sm_occupied_slots m) (rq_symbol_id request, rq_side request) = None"
    and wf: "order_wf ?s"
    and sch: "schedule ACTIVATE ?i (rq_requested_timestamp_ns request)
       (rq_decision_message_index request) (sm_submission_latency_ns m) (sm_scheduler m) = (Inr a, sch)"
    and m': "m' = m\<lparr>sm_scheduler := sch, sm_orders := dict_set ?i ?s (sm_orders m),
           sm_occupied_slots := dict_set (rq_symbol_id request, rq_side request) ?i (sm_occupied_slots m),
           sm_scheduled_actions := dict_set (sa_sequence a) a (sm_scheduled_actions m)\<rparr>"
    and lt: "sch_last_market_timestamp_ns (sm_scheduler m) = Some (rq_requested_timestamp_ns request)"
  have mid: "sm_mid [] m" using inv by (simp add: sm_inv_def)
  note f = schedule_fields [OF sch]
  have act: "actions_inv (set (sch_heap (sm_scheduler m))) m" using sm_midD(4) [OF mid] by simp
  have ord: "orders_inv m'"
    by (rule orders_inv_submit [OF sm_midD(3) [OF mid] new, of ?s]) (use free wf lt f(7) m' in simp_all)
  have none: "sa_simulated_order_id b \<noteq> ?i" if "b \<in> set (sch_heap (sm_scheduler m))" for b
    using actions_inv_get(3) [OF act that] new by auto
  show ?thesis
  proof (rule inv_after_schedule [OF inv sch lt _ _ _ _ _ ord])
    show "action_ok a ?s" using f(4) by (simp add: action_ok_def)
    show "awaits (insert a (set (sch_heap (sm_scheduler m)))) ?i ?s"
      using f(3,4) by (auto simp: awaits_def)
  qed (use none m' in auto)
qed

text \<open>The three operations that end an order.\<close>

definition ended :: "order_state \<Rightarrow> int \<Rightarrow> simulated_order \<Rightarrow> simulated_order" where
  "ended st t s = s\<lparr>so_state := st, so_terminal_timestamp_ns := Some t,
     so_rejection_reason := (case expected_rejection_reason st of None \<Rightarrow> so_rejection_reason s
       | Some r \<Rightarrow> Some r)\<rparr>"

lemma ended_identity: "same_identity s (ended st t s)"
  by (simp add: ended_def same_identity_def)

lemma ended_simps [simp]:
  "so_state (ended st t s) = st" "so_remaining_quantity (ended st t s) = so_remaining_quantity s"
  "so_original_quantity (ended st t s) = so_original_quantity s"
  "so_simulated_order_id (ended st t s) = so_simulated_order_id s"
  "so_terminal_timestamp_ns (ended st t s) = Some t"
  by (simp_all add: ended_def)

lemma reject_Inr:
  assumes "reject i t m = (Inr tr, m')"
  obtains s where "dict_get (sm_orders m) i = Some s" "so_state s = PENDING_SUBMIT"
    "so_effective_timestamp_ns s \<le> t" "order_wf (ended REJECTED t s)"
    "m' = put_order (ended REJECTED t s) m"
    "tr = transition_of s (ended REJECTED t s) CAUSE_REJECTED t None None (Some MARKETABLE_AT_ACTIVATION)"
proof -
  from assms obtain s where s: "sm_order m i = Inr s"
    by (auto simp: reject_def split: sum.splits)
  from assms s have st: "so_state s = PENDING_SUBMIT" "so_effective_timestamp_ns s \<le> t"
    "validate_timestamp t i = Inr ()"
    by (auto simp: reject_def split: if_splits sum.splits)
  with assms s have "commit s (ended REJECTED t s) CAUSE_REJECTED t None None
      (Some MARKETABLE_AT_ACTIVATION) m = (Inr tr, m')"
    by (simp add: reject_def Let_def ended_def)
  from commit_Inr [OF this] that [of s] st s show ?thesis by (simp add: sm_order_Inr)
qed

lemma invalidate_Inr:
  assumes "invalidate i t mi m = (Inr tr, m')"
  obtains s where "dict_get (sm_orders m) i = Some s" "EXPOSED_STATES (so_state s)"
    "order_wf (ended INVALIDATED t s)" "m' = put_order (ended INVALIDATED t s) m"
    "tr = transition_of s (ended INVALIDATED t s) CAUSE_INVALIDATED t (Some mi) None (Some COUNTERFACTUAL_CROSS)"
proof -
  from assms obtain s where s: "sm_order m i = Inr s"
    by (auto simp: invalidate_def split: sum.splits)
  from assms s have key: "require_current_market_key m t mi i = Inr ()"
    by (auto simp: invalidate_def split: sum.splits)
  with assms s have st: "EXPOSED_STATES (so_state s)"
    by (auto simp: invalidate_def exposed_iff split: if_splits)
  with assms s key have "commit s (ended INVALIDATED t s) CAUSE_INVALIDATED t (Some mi) None
      (Some COUNTERFACTUAL_CROSS) m = (Inr tr, m')"
    by (auto simp: invalidate_def Let_def ended_def exposed_iff)
  from commit_Inr [OF this] that [of s] st s show ?thesis by (simp add: sm_order_Inr)
qed

lemma expire_Inr:
  assumes "expire i t m = (Inr tr, m')"
  obtains s where "dict_get (sm_orders m) i = Some s" "\<not> so_terminal s"
    "order_wf (ended EXPIRED t s)" "m' = put_order (ended EXPIRED t s) m"
    "tr = transition_of s (ended EXPIRED t s) CAUSE_EXPIRED t None None None"
proof -
  from assms obtain s where s: "sm_order m i = Inr s"
    by (auto simp: expire_def split: sum.splits)
  from assms s have st: "\<not> so_terminal s" "validate_timestamp t i = Inr ()"
    "so_requested_timestamp_ns s \<le> t"
    by (auto simp: expire_def split: if_splits sum.splits)
  with assms s have "commit s (ended EXPIRED t s) CAUSE_EXPIRED t None None None m = (Inr tr, m')"
    by (simp add: expire_def Let_def ended_def)
  from commit_Inr [OF this] that [of s] st s show ?thesis by (simp add: sm_order_Inr)
qed

lemma inv_after_ended:
  assumes "sm_inv m" "dict_get (sm_orders m) i = Some s" "\<not> so_terminal s"
    "order_wf (ended st t s)" "TERMINAL_STATES st"
  shows "sm_inv (put_order (ended st t s) m)"
  by (rule inv_after_end [OF assms(1-3) ended_identity assms(4)]) (simp add: so_terminal_def assms(5))

lemma reject_inv: "sm_inv m \<Longrightarrow> reject i t m = (Inr tr, m') \<Longrightarrow> sm_inv m'"
  by (erule reject_Inr) (simp add: inv_after_ended not_terminal_states)

lemma invalidate_inv: "sm_inv m \<Longrightarrow> invalidate i t mi m = (Inr tr, m') \<Longrightarrow> sm_inv m'"
  by (erule invalidate_Inr) (simp add: inv_after_ended not_terminal_states)

lemma expire_inv: "sm_inv m \<Longrightarrow> expire i t m = (Inr tr, m') \<Longrightarrow> sm_inv m'"
  by (erule expire_Inr) (simp add: inv_after_ended)

section \<open>Market keys: releasing and applying actions\<close>

lemma released_mid:
  assumes inv: "sm_inv m"
    and split: "set as \<union> set (sch_heap sch) = set (sch_heap (sm_scheduler m))"
      "set as \<inter> set (sch_heap sch) = {}" "distinct as"
    and sch: "sched_inv sch" and lt: "sch_last_market_timestamp_ns sch = Some t"
    and later: "\<And>u. sch_last_market_timestamp_ns (sm_scheduler m) = Some u \<Longrightarrow> u \<le> t"
    and due: "\<And>a. a \<in> set as \<Longrightarrow> sa_effective_timestamp_ns a \<le> t"
      "\<And>a. a \<in> set (sch_heap sch) \<Longrightarrow> t \<le> sa_effective_timestamp_ns a"
  shows "sm_mid as (m\<lparr>sm_scheduler := sch\<rparr>)"
proof (rule sm_midI)
  have mid: "sm_mid [] m" using inv by (simp add: sm_inv_def)
  note ord = sm_midD(3) [OF mid]
  show "orders_inv (m\<lparr>sm_scheduler := sch\<rparr>)"
  proof (rule orders_invI)
    show "dict_ok (sm_orders (m\<lparr>sm_scheduler := sch\<rparr>))" "dict_ok (sm_occupied_slots (m\<lparr>sm_scheduler := sch\<rparr>))"
      using ord by (auto simp: orders_inv_def)
    show "dict_get (sm_occupied_slots (m\<lparr>sm_scheduler := sch\<rparr>)) k = Some i \<longleftrightarrow>
      (\<exists>s. dict_get (sm_orders (m\<lparr>sm_scheduler := sch\<rparr>)) i = Some s \<and> \<not> so_terminal s \<and> order_slot s = k)" for k i
      using orders_inv_slots_iff [OF ord, of k i] by simp
  next
    fix i s
    assume "dict_get (sm_orders (m\<lparr>sm_scheduler := sch\<rparr>)) i = Some s"
    then have s: "dict_get (sm_orders m) i = Some s" by simp
    obtain u where u: "sch_last_market_timestamp_ns (sm_scheduler m) = Some u"
      "so_requested_timestamp_ns s \<le> u" "EXPOSED_STATES (so_state s) \<longrightarrow> so_effective_timestamp_ns s \<le> u"
      using orders_inv_get(3) [OF ord s] by blast
    with orders_inv_get(1,2) [OF ord s] later [OF u(1)] lt show
      "so_simulated_order_id s = i \<and> order_wf s
        \<and> (\<exists>t. sch_last_market_timestamp_ns (sm_scheduler (m\<lparr>sm_scheduler := sch\<rparr>)) = Some t
             \<and> so_requested_timestamp_ns s \<le> t
             \<and> (EXPOSED_STATES (so_state s) \<longrightarrow> so_effective_timestamp_ns s \<le> t))"
      by auto
  qed
  have "actions_inv (set (sch_heap (sm_scheduler m))) m" using sm_midD(4) [OF mid] by simp
  then have "actions_inv (set (sch_heap (sm_scheduler m))) (m\<lparr>sm_scheduler := sch\<rparr>)"
    unfolding actions_inv_def by simp
  then show "actions_inv (set (sch_heap (sm_scheduler (m\<lparr>sm_scheduler := sch\<rparr>))) \<union> set as) (m\<lparr>sm_scheduler := sch\<rparr>)"
    using split(1) by (simp add: Un_commute)
  show "latencies_ok (m\<lparr>sm_scheduler := sch\<rparr>)" using sm_midD(1) [OF mid] by (simp add: latencies_ok_def)
qed (use sch split lt due in simp_all)

lemma pop_due_split:
  assumes "sched_inv s" "pop_due t b s = (as, s1)"
  shows "set as \<union> set (sch_heap s1) = set (sch_heap s)" "set as \<inter> set (sch_heap s1) = {}" "distinct as"
proof -
  have srt: "sorted (map heap_key (sch_heap s))" and dst: "distinct (map sa_sequence (sch_heap s))"
    using assms(1) by (simp_all add: sched_inv_def)
  show "set as \<union> set (sch_heap s1) = set (sch_heap s)" "set as \<inter> set (sch_heap s1) = {}"
    using pop_due_sets [OF srt assms(2)] by auto
  show "distinct as" using pop_due_distinct(1) [OF srt dst assms(2)] distinct_map by blast
qed

lemma released_before:
  assumes inv: "sm_inv m" and run: "actions_before_market t i (sm_scheduler m) = (Inr as, sch)"
  shows "sm_mid as (m\<lparr>sm_scheduler := sch\<rparr>)"
proof -
  have si: "sched_inv (sm_scheduler m)" using inv sm_midD(2) by (simp add: sm_inv_def)
  then have srt: "sorted (map heap_key (sch_heap (sm_scheduler m)))" by (simp add: sched_inv_def)
  obtain s1 where pop: "pop_due t False (sm_scheduler m) = (as, s1)"
    and sch: "sch_heap sch = sch_heap s1" "sch_last_market_timestamp_ns sch = Some t"
    using actions_before_market_Inr(3) [OF run] by auto
  have key: "\<And>u. sch_last_market_timestamp_ns (sm_scheduler m) = Some u \<Longrightarrow> u \<le> t"
    using actions_before_market_Inr(1) [OF run] by (simp add: validate_market_key_Inr)
  show ?thesis
    by (rule released_mid [OF inv _ _ pop_due_split(3) [OF si pop] actions_before_market_inv [OF si run] sch(2) key])
      (use pop_due_split [OF si pop] pop_due_sets [OF srt pop] sch(1) in \<open>auto simp: is_due_iff\<close>)
qed

lemma released_after:
  assumes inv: "sm_inv m" and run: "actions_after_market_timestamp t (sm_scheduler m) = (Inr as, sch)"
  shows "sm_mid as (m\<lparr>sm_scheduler := sch\<rparr>)"
proof -
  have si: "sched_inv (sm_scheduler m)" using inv sm_midD(2) by (simp add: sm_inv_def)
  then have srt: "sorted (map heap_key (sch_heap (sm_scheduler m)))" by (simp add: sched_inv_def)
  obtain s1 where pop: "pop_due t True (sm_scheduler m) = (as, s1)"
    and sch: "sch = s1\<lparr>sch_completed_market_timestamp_ns := Some t\<rparr>"
    using actions_after_market_timestamp_Inr(5) [OF run] by auto
  have lt: "sch_last_market_timestamp_ns (sm_scheduler m) = Some t"
    by (rule actions_after_market_timestamp_Inr(1) [OF run])
  have "sch_last_market_timestamp_ns s1 = sch_last_market_timestamp_ns (sm_scheduler m)"
    by (subst pop_due_frame(1) [OF pop]) simp
  with lt sch have lt': "sch_last_market_timestamp_ns sch = Some t" by simp
  show ?thesis
    by (rule released_mid [OF inv _ _ pop_due_split(3) [OF si pop] actions_after_market_timestamp_inv [OF si run] lt'])
      (use lt pop_due_split [OF si pop] pop_due_sets [OF srt pop] sch in \<open>auto simp: is_due_iff\<close>)
qed

text \<open>
  Both market calls release a batch and apply it, so one lemma covers them: what a contract of
  \<open>activation_resolver\<close> keeps, and the only errors: the scheduler's own, which change nothing,
  and the resolver's.
\<close>

context activation_resolver
begin

lemma released_keeps:
  assumes inv: "sm_inv m" and J: "J (sm_orders m) q []"
    and rel: "\<And>as sch. f (sm_scheduler m) = (Inr as, sch) \<Longrightarrow> sm_mid as (m\<lparr>sm_scheduler := sch\<rparr>)"
    and frame: "\<And>e sch. f (sm_scheduler m) = (Inl e, sch) \<Longrightarrow> sch = sm_scheduler m"
    and run: "bindM (on_machine (on_scheduler f)) (apply_actions R) (m, q) = (r, (m', q'))"
  shows "case r of
      Inl e \<Rightarrow> activation_fails R J e
        \<or> fst (f (sm_scheduler m)) = Inl e \<and> m' = m \<and> q' = q
    | Inr ts \<Rightarrow> sm_inv m' \<and> sm_scheduler m' = snd (f (sm_scheduler m)) \<and> J (sm_orders m') q' ts"
proof (cases "f (sm_scheduler m)")
  case (Pair r0 sch)
  show ?thesis
  proof (cases r0)
    case (Inl e)
    with Pair frame have "sch = sm_scheduler m" by simp
    with Inl Pair run show ?thesis
      by (auto simp: bindM_def on_machine_def on_scheduler_def)
  next
    case (Inr as)
    with Pair have rl: "f (sm_scheduler m) = (Inr as, sch)" by simp
    with run have "apply_actions R as (m\<lparr>sm_scheduler := sch\<rparr>, q) = (r, (m', q'))"
      by (simp add: bindM_def on_machine_def on_scheduler_def)
    from apply_actions_keeps [OF rel [OF rl] _ this] J rl show ?thesis
      by (cases r) auto
  qed
qed

lemma before_market_event_keeps:
  assumes "sm_inv m" "J (sm_orders m) q []" "before_market_event t i R (m, q) = (r, (m', q'))"
  shows "case r of
      Inl e \<Rightarrow> activation_fails R J e
        \<or> fst (actions_before_market t i (sm_scheduler m)) = Inl e \<and> m' = m \<and> q' = q
    | Inr ts \<Rightarrow> sm_inv m' \<and> sm_scheduler m' = snd (actions_before_market t i (sm_scheduler m))
        \<and> J (sm_orders m') q' ts"
  by (rule released_keeps [OF assms(1,2) released_before [OF assms(1)] actions_before_market_Inl
        assms(3) [unfolded before_market_event_def]])

lemma after_market_timestamp_keeps:
  assumes "sm_inv m" "J (sm_orders m) q []" "after_market_timestamp t R (m, q) = (r, (m', q'))"
  shows "case r of
      Inl e \<Rightarrow> activation_fails R J e
        \<or> fst (actions_after_market_timestamp t (sm_scheduler m)) = Inl e \<and> m' = m \<and> q' = q
    | Inr ts \<Rightarrow> sm_inv m' \<and> sm_scheduler m' = snd (actions_after_market_timestamp t (sm_scheduler m))
        \<and> J (sm_orders m') q' ts"
  by (rule released_keeps [OF assms(1,2) released_after [OF assms(1)] actions_after_market_timestamp_Inl
        assms(3) [unfolded after_market_timestamp_def]])

end

section \<open>The state machine as a machine\<close>

datatype sm_call =
    Call_submit order_request
  | Call_request_cancel int int int
  | Call_record_fill int int int int
  | Call_reject int int
  | Call_invalidate int int int
  | Call_expire int int
  | Call_before_market_event int int
  | Call_after_market_timestamp int

definition one_transition ::
  "(order_state_machine, order_transition) smethod \<Rightarrow> (order_state_machine \<times> 'q, order_transition list) smethod"
where
  "one_transition f = bindM (on_machine f) (\<lambda>t. returnM [t])"

fun sm_step ::
  "'q activation_queue_resolver option \<Rightarrow> order_state_machine \<times> 'q \<Rightarrow> sm_call
     \<Rightarrow> order_transition list result \<times> (order_state_machine \<times> 'q)" where
  "sm_step R mq (Call_submit request) = one_transition (submit request) mq"
| "sm_step R mq (Call_request_cancel i t mi) = one_transition (request_cancel i t mi) mq"
| "sm_step R mq (Call_record_fill i quantity t mi) = one_transition (record_fill i quantity t mi) mq"
| "sm_step R mq (Call_reject i t) = one_transition (reject i t) mq"
| "sm_step R mq (Call_invalidate i t mi) = one_transition (invalidate i t mi) mq"
| "sm_step R mq (Call_expire i t) = one_transition (expire i t) mq"
| "sm_step R mq (Call_before_market_event t mi) = before_market_event t mi R mq"
| "sm_step R mq (Call_after_market_timestamp t) = after_market_timestamp t R mq"

lemma one_transition_Inr:
  "one_transition f (m, q) = (Inr ts, (m', q')) \<longleftrightarrow> (\<exists>t. f m = (Inr t, m') \<and> ts = [t] \<and> q' = q)"
  by (cases "f m"; cases "fst (f m)") (auto simp: one_transition_def bindM_def on_machine_def)

lemma one_transition_Inl:
  "one_transition f (m, q) = (Inl e, (m', q')) \<longleftrightarrow> f m = (Inl e, m') \<and> q' = q"
  by (cases "f m"; cases "fst (f m)") (auto simp: one_transition_def bindM_def on_machine_def)

subsection \<open>The lifecycle\<close>

text \<open>
  The specification of the lifecycle: the causes, and the states each leads from and to.
\<close>

inductive lifecycle :: "order_state option \<Rightarrow> transition_cause \<Rightarrow> order_state \<Rightarrow> bool" where
  submitted: "lifecycle None CAUSE_SUBMITTED PENDING_SUBMIT"
| activated: "s \<in> {ACTIVE, PENDING_CANCEL} \<Longrightarrow> lifecycle (Some PENDING_SUBMIT) CAUSE_ACTIVATED s"
| rejected: "lifecycle (Some PENDING_SUBMIT) CAUSE_REJECTED REJECTED"
| cancel_pending: "lifecycle (Some PENDING_SUBMIT) CAUSE_CANCEL_REQUESTED PENDING_SUBMIT"
| cancel_requested: "s \<in> {ACTIVE, PARTIALLY_FILLED} \<Longrightarrow>
    lifecycle (Some s) CAUSE_CANCEL_REQUESTED PENDING_CANCEL"
| cancelled: "s \<in> {PENDING_SUBMIT, PENDING_CANCEL} \<Longrightarrow> lifecycle (Some s) CAUSE_CANCELLED CANCELLED"
| partial_fill: "s \<in> {ACTIVE, PARTIALLY_FILLED} \<Longrightarrow> lifecycle (Some s) CAUSE_PARTIAL_FILL PARTIALLY_FILLED"
| partial_fill_cancelling: "lifecycle (Some PENDING_CANCEL) CAUSE_PARTIAL_FILL PENDING_CANCEL"
| filled: "EXPOSED_STATES s \<Longrightarrow> lifecycle (Some s) CAUSE_FILLED FILLED"
| invalidated: "EXPOSED_STATES s \<Longrightarrow> lifecycle (Some s) CAUSE_INVALIDATED INVALIDATED"
| expired: "\<not> TERMINAL_STATES s \<Longrightarrow> lifecycle (Some s) CAUSE_EXPIRED EXPIRED"

inductive_simps lifecycle_simps [simp]:
  "lifecycle b CAUSE_SUBMITTED a" "lifecycle b CAUSE_ACTIVATED a" "lifecycle b CAUSE_REJECTED a"
  "lifecycle b CAUSE_CANCEL_REQUESTED a" "lifecycle b CAUSE_CANCELLED a"
  "lifecycle b CAUSE_PARTIAL_FILL a" "lifecycle b CAUSE_FILLED a"
  "lifecycle b CAUSE_INVALIDATED a" "lifecycle b CAUSE_EXPIRED a"

inductive_cases lifecycle_from: "lifecycle (Some b) c a"

lemma lifecycle_not_terminal: "lifecycle (Some b) c a \<Longrightarrow> \<not> TERMINAL_STATES b"
  by (erule lifecycle_from) (auto simp: terminal_iff)

text \<open>
  Replaying a log of transitions against the specification: every transition must start in the
  state the log has left its order in, and take an edge of the lifecycle.
\<close>

fun replay ::
  "(int \<Rightarrow> order_state option) \<Rightarrow> order_transition list \<Rightarrow> (int \<Rightarrow> order_state option) option" where
  "replay f [] = Some f"
| "replay f (t # ts) =
     (if f (ot_simulated_order_id t) = ot_before_state t
         \<and> lifecycle (ot_before_state t) (ot_cause t) (ot_after_state t)
      then replay (f(ot_simulated_order_id t := Some (ot_after_state t))) ts
      else None)"

text \<open>The quantity a log has filled of an order.\<close>

definition filled_quantity :: "int \<Rightarrow> order_transition list \<Rightarrow> int" where
  "filled_quantity i ts = sum_list (map (\<lambda>t. case ot_quantity t of None \<Rightarrow> 0 | Some q \<Rightarrow> q)
     (filter (\<lambda>t. ot_simulated_order_id t = i) ts))"

lemma replay_append: "replay f (ts @ us) = (case replay f ts of None \<Rightarrow> None | Some g \<Rightarrow> replay g us)"
  by (induction ts arbitrary: f) simp_all

lemma filled_quantity_simps [simp]:
  "filled_quantity i [] = 0"
  "filled_quantity i (ts @ us) = filled_quantity i ts + filled_quantity i us"
  "filled_quantity i (t # us) = (if ot_simulated_order_id t = i
     then (case ot_quantity t of None \<Rightarrow> 0 | Some q \<Rightarrow> q) else 0) + filled_quantity i us"
  by (simp_all add: filled_quantity_def)

text \<open>What a log says of the orders: their states, and what is left of them.\<close>

definition states_of :: "(int, simulated_order) dict \<Rightarrow> int \<Rightarrow> order_state option" where
  "states_of od i = map_option so_state (dict_get od i)"

definition filled_of :: "(int, simulated_order) dict \<Rightarrow> int \<Rightarrow> int" where
  "filled_of od i = (case dict_get od i of None \<Rightarrow> 0
     | Some s \<Rightarrow> so_original_quantity s - so_remaining_quantity s)"

definition traced :: "order_transition list \<Rightarrow> (int, simulated_order) dict \<Rightarrow> bool" where
  "traced ts od \<longleftrightarrow> replay (\<lambda>_. None) ts = Some (states_of od)
     \<and> (\<forall>i. filled_quantity i ts = filled_of od i)"

lemma states_of_set: "states_of (dict_set i s od) = (states_of od)(i := Some (so_state s))"
  by (auto simp: states_of_def)

lemma filled_of_set: "filled_of (dict_set i s od) j =
    (if j = i then so_original_quantity s - so_remaining_quantity s else filled_of od j)"
  by (simp add: filled_of_def)

lemma traced_change:
  assumes tr: "traced ts od" and s: "dict_get od (so_simulated_order_id s) = Some s"
    and same: "same_identity s s'" and life: "lifecycle (Some (so_state s)) (ot_cause t) (so_state s')"
    and rem: "so_remaining_quantity s' =
      so_remaining_quantity s - (case ot_quantity t of None \<Rightarrow> 0 | Some q \<Rightarrow> q)"
    and t: "ot_simulated_order_id t = so_simulated_order_id s" "ot_before_state t = Some (so_state s)"
      "ot_after_state t = so_state s'"
  shows "traced (ts @ [t]) (dict_set (so_simulated_order_id s) s' od)"
proof -
  have id: "so_simulated_order_id s' = so_simulated_order_id s"
    "so_original_quantity s' = so_original_quantity s"
    using same by (simp_all add: same_identity_def)
  have "states_of od (so_simulated_order_id s) = Some (so_state s)"
    "filled_of od (so_simulated_order_id s) = so_original_quantity s - so_remaining_quantity s"
    using s by (simp_all add: states_of_def filled_of_def)
  with tr id life rem t show ?thesis
    by (simp add: traced_def replay_append states_of_set filled_of_set)
qed

lemma transition_of_simps [simp]:
  "ot_simulated_order_id (transition_of s s' c t i q r) = so_simulated_order_id s'"
  "ot_before_state (transition_of s s' c t i q r) = Some (so_state s)"
  "ot_after_state (transition_of s s' c t i q r) = so_state s'"
  "ot_cause (transition_of s s' c t i q r) = c"
  "ot_quantity (transition_of s s' c t i q r) = q"
  "ot_timestamp_ns (transition_of s s' c t i q r) = t"
  by (simp_all add: transition_of_def)

lemma traced_submit:
  assumes "traced ts od" "dict_get od (so_simulated_order_id s) = None" "so_state s = PENDING_SUBMIT"
    and "so_remaining_quantity s = so_original_quantity s"
    and "ot_simulated_order_id t = so_simulated_order_id s" "ot_before_state t = None"
    "ot_after_state t = PENDING_SUBMIT" "ot_cause t = CAUSE_SUBMITTED" "ot_quantity t = None"
  shows "traced (ts @ [t]) (dict_set (so_simulated_order_id s) s od)"
proof -
  have "states_of od (so_simulated_order_id s) = None" "filled_of od (so_simulated_order_id s) = 0"
    using assms(2) by (simp_all add: states_of_def filled_of_def)
  with assms show ?thesis
    by (simp add: traced_def replay_append states_of_set filled_of_set)
qed

lemma traced_put:
  assumes inv: "sm_inv m" and s: "dict_get (sm_orders m) i = Some s" and tr: "traced ts (sm_orders m)"
    and "same_identity s s'" "lifecycle (Some (so_state s)) c (so_state s')"
    "so_remaining_quantity s' = so_remaining_quantity s - (case q of None \<Rightarrow> 0 | Some x \<Rightarrow> x)"
  shows "traced (ts @ [transition_of s s' c t mi q r]) (sm_orders (put_order s' m))"
proof -
  have "so_simulated_order_id s = i" using orders_inv_get(1) [OF sm_midD(3) s] inv by (simp add: sm_inv_def)
  moreover have "so_simulated_order_id s' = so_simulated_order_id s"
    using assms(4) by (simp add: same_identity_def)
  ultimately show ?thesis
    using traced_change [OF tr, of s s' "transition_of s s' c t mi q r"] assms by simp
qed

lemma submit_traced:
  assumes "sm_inv m" "traced ts (sm_orders m)" "submit request m = (Inr tr, m')"
  shows "traced (ts @ [tr]) (sm_orders m')"
  using assms(3) by (rule submit_Inr) (use traced_submit [OF assms(2), of "new_order request _" tr] in simp)

lemma request_cancel_traced:
  assumes "sm_inv m" "traced ts (sm_orders m)" "request_cancel i t mi m = (Inr tr, m')"
  shows "traced (ts @ [tr]) (sm_orders m')"
  using assms(3)
proof (rule request_cancel_Inr)
  fix s s' :: simulated_order and a :: scheduled_action and sch
  assume s: "dict_get (sm_orders m) i = Some s"
    "so_state s = PENDING_SUBMIT \<or> so_state s = ACTIVE \<or> so_state s = PARTIALLY_FILLED"
    "s' = s\<lparr>so_state := (if so_state s = PENDING_SUBMIT then PENDING_SUBMIT else PENDING_CANCEL),
           so_cancel_requested_ns := Some t\<rparr>"
    "m' = m\<lparr>sm_scheduler := sch, sm_orders := dict_set i s' (sm_orders m),
           sm_scheduled_actions := dict_set (sa_sequence a) a (sm_scheduled_actions m)\<rparr>"
    "ot_simulated_order_id tr = i" "ot_before_state tr = Some (so_state s)"
    "ot_after_state tr = so_state s'" "ot_quantity tr = None" "ot_cause tr = CAUSE_CANCEL_REQUESTED"
  have "so_simulated_order_id s = i"
    using orders_inv_get(1) [OF sm_midD(3) s(1)] assms(1) by (simp add: sm_inv_def)
  moreover have "lifecycle (Some (so_state s)) CAUSE_CANCEL_REQUESTED (so_state s')" "same_identity s s'"
    using s(2,3) by (auto simp: same_identity_def)
  ultimately show ?thesis using traced_change [OF assms(2), of s s' tr] s by auto
qed

lemma record_fill_traced:
  assumes "sm_inv m" "traced ts (sm_orders m)" "record_fill i q t mi m = (Inr tr, m')"
  shows "traced (ts @ [tr]) (sm_orders m')"
  using assms(3)
proof (rule record_fill_Inr)
  fix s :: simulated_order
  let ?c = "if so_remaining_quantity s = q then CAUSE_FILLED else CAUSE_PARTIAL_FILL"
  assume s: "dict_get (sm_orders m) i = Some s" "EXPOSED_STATES (so_state s)"
    "m' = put_order (filled_order s q t) m" "tr = transition_of s (filled_order s q t) ?c t (Some mi) (Some q) None"
  show ?thesis
    unfolding s(3,4)
    by (rule traced_put [OF assms(1) s(1) assms(2) filled_identity]) (use s(2) in \<open>auto simp: filled_order_def exposed_iff\<close>)
qed

lemma ended_traced:
  assumes "sm_inv m" "traced ts (sm_orders m)"
  shows "reject i t m = (Inr tr, m') \<Longrightarrow> traced (ts @ [tr]) (sm_orders m')"
    and "invalidate i t mi m = (Inr tr, m') \<Longrightarrow> traced (ts @ [tr]) (sm_orders m')"
    and "expire i t m = (Inr tr, m') \<Longrightarrow> traced (ts @ [tr]) (sm_orders m')"
proof -
  have put: "traced (ts @ [transition_of s (ended st t s) c t j None r]) (sm_orders (put_order (ended st t s) m))"
    if "dict_get (sm_orders m) i = Some s" "lifecycle (Some (so_state s)) c st" for s st c j r
    by (rule traced_put [OF assms(1) that(1) assms(2) ended_identity]) (use that(2) in simp_all)
  show "reject i t m = (Inr tr, m') \<Longrightarrow> traced (ts @ [tr]) (sm_orders m')"
    by (erule reject_Inr) (use put in simp)
  show "invalidate i t mi m = (Inr tr, m') \<Longrightarrow> traced (ts @ [tr]) (sm_orders m')"
    by (erule invalidate_Inr) (use put in simp)
  show "expire i t m = (Inr tr, m') \<Longrightarrow> traced (ts @ [tr]) (sm_orders m')"
    by (erule expire_Inr) (use put in \<open>simp add: so_terminal_def\<close>)
qed

text \<open>The log is one contract of the released actions; keeping ended orders as they are is another.\<close>


lemma log_contract:
  fixes R :: "'q activation_queue_resolver option"
  shows "activation_resolver R (\<lambda>od q us. traced (ts @ us) od)"
proof
  fix od us s and q :: 'q and ahead q' a t
  assume tr: "traced (ts @ us) od" and s: "dict_get od (so_simulated_order_id s) = Some s"
    and st: "so_state s = PENDING_SUBMIT"
  show "traced (ts @ us @ [transition_of s (activated (R \<noteq> None) a ahead s)
         (if R \<noteq> None \<and> ahead = None then CAUSE_REJECTED else CAUSE_ACTIVATED) t None None
         (if R \<noteq> None \<and> ahead = None then Some MARKETABLE_AT_ACTIVATION else None)])
     (dict_set (so_simulated_order_id s) (activated (R \<noteq> None) a ahead s) od)"
    unfolding append_assoc [symmetric]
    by (rule traced_change [OF tr s activated_identity])
      (auto simp: activated_def st same_identity_def)
next
  fix od us s and q :: 'q and a t
  assume tr: "traced (ts @ us) od" and s: "dict_get od (so_simulated_order_id s) = Some s"
    and st: "so_state s = PENDING_SUBMIT \<or> so_state s = PENDING_CANCEL"
  show "traced (ts @ us @ [transition_of s (cancelled a s) CAUSE_CANCELLED t None None None])
     (dict_set (so_simulated_order_id s) (cancelled a s) od)"
    unfolding append_assoc [symmetric]
    by (rule traced_change [OF tr s cancelled_identity]) (use st in \<open>auto simp: cancelled_def\<close>)
qed

interpretation log: activation_resolver R "\<lambda>od q us. traced (ts @ us) od"
  for R :: "'q activation_queue_resolver option" and ts
  by (rule log_contract)

definition ended_kept :: "(int, simulated_order) dict \<Rightarrow> (int, simulated_order) dict \<Rightarrow> bool" where
  "ended_kept od0 od \<longleftrightarrow>
     (\<forall>i s. dict_get od0 i = Some s \<longrightarrow> so_terminal s \<longrightarrow> dict_get od i = Some s)"

lemma ended_kept_set: "ended_kept od0 od \<Longrightarrow> (\<And>s. dict_get od i = Some s \<Longrightarrow> \<not> so_terminal s)
    \<Longrightarrow> ended_kept od0 (dict_set i s' od)"
  unfolding ended_kept_def dict_get_set by metis

lemma ended_kept_refl [simp]: "ended_kept od od"
  by (simp add: ended_kept_def)

lemma ended_kept_trans: "ended_kept a b \<Longrightarrow> ended_kept b c \<Longrightarrow> ended_kept a c"
  unfolding ended_kept_def by blast

interpretation ended: activation_resolver R "\<lambda>od q us. ended_kept od0 od"
  for R :: "'q activation_queue_resolver option" and od0
proof
  fix od us s and q :: 'q and ahead q' a t
  assume "ended_kept od0 od" "dict_get od (so_simulated_order_id s) = Some s"
    "so_state s = PENDING_SUBMIT"
  then show "ended_kept od0 (dict_set (so_simulated_order_id s) (activated (R \<noteq> None) a ahead s) od)"
    by (intro ended_kept_set) (simp_all add: so_terminal_def)
next
  fix od us s and q :: 'q and a t
  assume "ended_kept od0 od" "dict_get od (so_simulated_order_id s) = Some s"
    "so_state s = PENDING_SUBMIT \<or> so_state s = PENDING_CANCEL"
  then show "ended_kept od0 (dict_set (so_simulated_order_id s) (cancelled a s) od)"
    by (intro ended_kept_set) (auto simp: so_terminal_def)
qed

subsection \<open>One call\<close>

lemma sm_step_keeps:
  assumes inv: "sm_inv m" and tr: "traced ts (sm_orders m)"
    and run: "sm_step R (m, q) c = (Inr us, (m', q'))"
  shows "sm_inv m' \<and> traced (ts @ us) (sm_orders m')"
proof (cases c)
  case (Call_before_market_event t i)
  with run have run: "before_market_event t i R (m, q) = (Inr us, (m', q'))" by simp
  show ?thesis using log.before_market_event_keeps [OF inv _ run, of ts] tr by simp
next
  case (Call_after_market_timestamp t)
  with run have run: "after_market_timestamp t R (m, q) = (Inr us, (m', q'))" by simp
  show ?thesis using log.after_market_timestamp_keeps [OF inv _ run, of ts] tr by simp
qed (use run inv tr in \<open>auto simp: one_transition_Inr
  intro: submit_inv request_cancel_inv record_fill_inv reject_inv invalidate_inv expire_inv
    submit_traced request_cancel_traced record_fill_traced ended_traced\<close>)

lemma put_order_ended:
  assumes "sm_inv m" "dict_get (sm_orders m) i = Some s" "\<not> so_terminal s"
    "so_simulated_order_id s' = so_simulated_order_id s"
  shows "ended_kept (sm_orders m) (sm_orders (put_order s' m))"
  using assms orders_inv_get(1) [OF sm_midD(3), of "[]" m i s]
  by (auto simp: ended_kept_def sm_inv_def)

lemma sm_step_ended:
  assumes inv: "sm_inv m" and run: "sm_step R (m, q) c = (Inr us, (m', q'))"
  shows "ended_kept (sm_orders m) (sm_orders m')"
proof (cases c)
  case (Call_before_market_event t i)
  with run have run: "before_market_event t i R (m, q) = (Inr us, (m', q'))" by simp
  show ?thesis using ended.before_market_event_keeps [OF inv _ run, of "sm_orders m"] by simp
next
  case (Call_after_market_timestamp t)
  with run have run: "after_market_timestamp t R (m, q) = (Inr us, (m', q'))" by simp
  show ?thesis using ended.after_market_timestamp_keeps [OF inv _ run, of "sm_orders m"] by simp
next
  case (Call_submit request)
  with run obtain t where "submit request m = (Inr t, m')" by (auto simp: one_transition_Inr)
  then show ?thesis by (rule submit_Inr) (auto simp: ended_kept_def)
next
  case (Call_request_cancel i t mi)
  with run obtain tr where "request_cancel i t mi m = (Inr tr, m')" by (auto simp: one_transition_Inr)
  then show ?thesis by (rule request_cancel_Inr) (auto simp: ended_kept_def so_terminal_def)
next
  case (Call_record_fill i x t mi)
  with run obtain tr where "record_fill i x t mi m = (Inr tr, m')" by (auto simp: one_transition_Inr)
  then show ?thesis by (rule record_fill_Inr) (simp add: put_order_ended [OF inv] not_terminal_states del: put_order_simps)
next
  case (Call_reject i t)
  with run obtain tr where "reject i t m = (Inr tr, m')" by (auto simp: one_transition_Inr)
  then show ?thesis by (rule reject_Inr) (simp add: put_order_ended [OF inv] not_terminal_states del: put_order_simps)
next
  case (Call_invalidate i t mi)
  with run obtain tr where "invalidate i t mi m = (Inr tr, m')" by (auto simp: one_transition_Inr)
  then show ?thesis by (rule invalidate_Inr) (simp add: put_order_ended [OF inv] not_terminal_states del: put_order_simps)
next
  case (Call_expire i t)
  with run obtain tr where "expire i t m = (Inr tr, m')" by (auto simp: one_transition_Inr)
  then show ?thesis by (rule expire_Inr) (simp add: put_order_ended [OF inv] not_terminal_states del: put_order_simps)
qed

text \<open>A direct operation that raises changes nothing.\<close>

lemma on_error_unchanged:
  "submit request m = (Inl e, m') \<Longrightarrow> m' = m"
  "request_cancel i t mi m = (Inl e, m') \<Longrightarrow> m' = m"
  "record_fill i x t mi m = (Inl e, m') \<Longrightarrow> m' = m"
  "reject i t m = (Inl e, m') \<Longrightarrow> m' = m"
  "invalidate i t mi m = (Inl e, m') \<Longrightarrow> m' = m"
  "expire i t m = (Inl e, m') \<Longrightarrow> m' = m"
  by (auto simp: submit_def request_cancel_def record_fill_def reject_def invalidate_def expire_def Let_def
      split: sum.splits if_splits prod.splits dest!: schedule_Inl commit_Inl)

lemma resolve_None_ok: "fst (resolve_queue_ahead None s q) = Inr (so_queue_ahead_initial s)"
  by (simp add: resolve_queue_ahead_def)

interpretation machine: invariant_machine "sm_step R" "\<lambda>mq. sm_inv (fst mq)"
  for R :: "'q activation_queue_resolver option"
proof
  fix mq mq' :: "order_state_machine \<times> 'q" and c us
  assume inv: "sm_inv (fst mq)" and run: "sm_step R mq c = (Inr us, mq')"
  obtain m q m' q' where mq: "mq = (m, q)" "mq' = (m', q')" by (cases mq; cases mq')
  show "sm_inv (fst mq')"
  proof (cases c)
    case (Call_before_market_event t i)
    with run mq have run: "before_market_event t i R (m, q) = (Inr us, (m', q'))" by simp
    show ?thesis using ended.before_market_event_keeps [OF _ _ run, of "sm_orders m"] inv mq by simp
  next
    case (Call_after_market_timestamp t)
    with run mq have run: "after_market_timestamp t R (m, q) = (Inr us, (m', q'))" by simp
    show ?thesis using ended.after_market_timestamp_keeps [OF _ _ run, of "sm_orders m"] inv mq by simp
  qed (use run inv mq in \<open>auto simp: one_transition_Inr
    intro: submit_inv request_cancel_inv record_fill_inv reject_inv invalidate_inv expire_inv\<close>)
qed

interpretation plain_machine: atomic_machine "sm_step (None :: unit activation_queue_resolver option)"
  "\<lambda>mq. sm_inv (fst mq)"
proof
  fix mq mq' :: "order_state_machine \<times> unit" and c e
  assume inv: "sm_inv (fst mq)" and run: "sm_step None mq c = (Inl e, mq')"
  obtain m q m' q' where mq: "mq = (m, q)" "mq' = (m', q')" by (cases mq; cases mq')
  show "mq' = mq"
  proof (cases c)
    case (Call_before_market_event t i)
    with run mq have run: "before_market_event t i None (m, q) = (Inl e, (m', q'))" by simp
    show ?thesis using ended.before_market_event_keeps [OF _ _ run, of "sm_orders m"] inv mq
      by (simp add: resolve_None_ok)
  next
    case (Call_after_market_timestamp t)
    with run mq have run: "after_market_timestamp t None (m, q) = (Inl e, (m', q'))" by simp
    show ?thesis using ended.after_market_timestamp_keeps [OF _ _ run, of "sm_orders m"] inv mq
      by (simp add: resolve_None_ok)
  qed (use run mq in \<open>auto simp: one_transition_Inl dest: on_error_unchanged\<close>)
qed

lemma run_keeps:
  assumes "sm_inv m" "traced ts (sm_orders m)" "run_steps (sm_step R) (m, q) cs = (Inr uss, (m', q'))"
  shows "sm_inv m' \<and> traced (ts @ concat uss) (sm_orders m')"
  using assms
proof (induction cs arbitrary: m q ts uss)
  case Nil
  then show ?case by simp
next
  case (Cons c cs)
  from Cons.prems(3) obtain us uss1 m1 q1 where one: "sm_step R (m, q) c = (Inr us, (m1, q1))"
    and rest: "run_steps (sm_step R) (m1, q1) cs = (Inr uss1, (m', q'))" and uss: "uss = us # uss1"
    by (auto simp only: run_steps_Cons_Inr split_paired_Ex)
  note k = sm_step_keeps [OF Cons.prems(1,2) one]
  from Cons.IH [OF conjunct1 [OF k] conjunct2 [OF k] rest] show ?case by (simp add: uss)
qed

lemma run_ended:
  assumes "sm_inv m" "run_steps (sm_step R) (m, q) cs = (Inr uss, (m', q'))"
  shows "ended_kept (sm_orders m) (sm_orders m')"
  using assms
proof (induction cs arbitrary: m q uss)
  case Nil
  then show ?case by simp
next
  case (Cons c cs)
  from Cons.prems(2) obtain us uss1 m1 q1 where one: "sm_step R (m, q) c = (Inr us, (m1, q1))"
    and rest: "run_steps (sm_step R) (m1, q1) cs = (Inr uss1, (m', q'))"
    by (auto simp only: run_steps_Cons_Inr split_paired_Ex)
  have "sm_inv m1" using machine.step_inv [OF _ one] Cons.prems(1) by simp
  from Cons.IH [OF this rest] sm_step_ended [OF Cons.prems(1) one]
  show ?case by (blast intro: ended_kept_trans)
qed

section \<open>Properties\<close>

lemma occupied_order_ok:
  assumes "sm_inv m"
  shows "\<exists>r. occupied_order m symbol_id side = Inr r \<and>
    (case r of
       None \<Rightarrow> \<forall>i s. dict_get (sm_orders m) i = Some s \<longrightarrow> order_slot s = (symbol_id, side) \<longrightarrow> so_terminal s
     | Some s \<Rightarrow> \<not> so_terminal s \<and> order_slot s = (symbol_id, side)
         \<and> dict_get (sm_orders m) (so_simulated_order_id s) = Some s)"
proof (cases "dict_get (sm_occupied_slots m) (symbol_id, side)")
  have ord: "orders_inv m" using assms sm_midD(3) by (simp add: sm_inv_def)
  case None
  have "so_terminal s" if "dict_get (sm_orders m) i = Some s" "order_slot s = (symbol_id, side)" for i s
    using orders_inv_slot [OF ord that(1)] that(2) None by auto
  with None show ?thesis by (auto simp: occupied_order_def)
next
  have ord: "orders_inv m" using assms sm_midD(3) by (simp add: sm_inv_def)
  case (Some i)
  then obtain s where s: "dict_get (sm_orders m) i = Some s" "\<not> so_terminal s" "order_slot s = (symbol_id, side)"
    using orders_inv_slots_iff [OF ord] by blast
  with orders_inv_get(1,2) [OF ord s(1)] have "sm_order m i = Inr s" "so_simulated_order_id s = i"
    by (auto simp: sm_order_Inr order_wf_def request_wf_def request_of_def)
  with Some s show ?thesis by (simp add: occupied_order_def)
qed

text \<open>Two orders, one activated, partly filled and cancelled, the other filled at once.\<close>

definition demo_request :: "int \<Rightarrow> int \<Rightarrow> int \<Rightarrow> int \<Rightarrow> order_request" where
  "demo_request i t mi side = \<lparr>rq_simulated_order_id = i, rq_decision_message_index = mi,
     rq_prediction_message_index = Some mi, rq_requested_timestamp_ns = t, rq_symbol_id = 1,
     rq_side = side, rq_price4 = 1000000, rq_quantity = 10\<rparr>"

definition demo_calls :: "sm_call list" where
  "demo_calls = [Call_before_market_event 1000 1, Call_submit (demo_request 7 1000 1 1),
     Call_submit (demo_request 8 1000 1 (-1)), Call_after_market_timestamp 1000,
     Call_before_market_event 1200 2, Call_record_fill 7 4 1200 2, Call_record_fill 8 10 1200 2,
     Call_request_cancel 7 1200 2, Call_after_market_timestamp 1200]"

definition demo_machine :: order_state_machine where
  "demo_machine = projr (new_state_machine 100 50)"

definition demo_run :: "order_transition list list result \<times> (order_state_machine \<times> unit)" where
  "demo_run = run_steps (sm_step None) (demo_machine, ()) demo_calls"

lemma demo_machine_new: "new_state_machine 100 50 = Inr demo_machine"
  by code_simp

lemma succeeded_plain: "succeeded r \<Longrightarrow> r = (Inr (projr (fst r)), (fst (snd r), ()))"
  for r :: "'a result \<times> ('m \<times> unit)"
  by (cases r; cases "fst r") (auto simp: succeeded_def)

lemma demo_run_ok:
  "run_steps (sm_step None) (demo_machine, ()) demo_calls
     = (Inr (projr (fst demo_run)), (fst (snd demo_run), ()))"
proof -
  have "succeeded demo_run" by code_simp
  from succeeded_plain [OF this] show ?thesis unfolding demo_run_def .
qed

definition demo_prefix :: "order_transition list list result \<times> (order_state_machine \<times> unit)" where
  "demo_prefix = run_steps (sm_step None) (demo_machine, ()) (butlast demo_calls)"

lemma demo_prefix_inv: "sm_inv (fst (snd demo_prefix))"
proof -
  have "succeeded demo_prefix" by code_simp
  from succeededD [OF this] have r: "run_steps (sm_step None) (demo_machine, ()) (butlast demo_calls)
     = (Inr (projr (fst demo_prefix)), snd demo_prefix)" unfolding demo_prefix_def .
  show ?thesis using machine.run_inv [OF _ r] sm_inv_new [OF demo_machine_new] by simp
qed

lemma demo_run_inv: "sm_inv (fst (snd demo_run))"
  using machine.run_inv [OF _ demo_run_ok] sm_inv_new [OF demo_machine_new] by simp

lemma traced_new: "new_state_machine sub can = Inr m \<Longrightarrow> traced [] (sm_orders m)"
  by (auto simp: traced_def states_of_def filled_of_def fun_eq_iff new_state_machine_def
      split: sum.splits if_splits)

text \<open>
  C3: over any run of calls that return, from a new machine and with any activation resolver,
  every stored order passes the code's own validator, at most one live order occupies a symbol
  and side, and \<open>occupied_order\<close> returns exactly that order and never raises.
\<close>

theorem machine_well_formed:
  assumes "new_state_machine sub can = Inr m"
    "run_steps (sm_step R) (m, q) calls = (Inr tss, (m', q'))"
  shows "(\<forall>i s. dict_get (sm_orders m') i = Some s \<longrightarrow>
        so_simulated_order_id s = i \<and> validate_simulated_order s = Inr ())
    \<and> (\<forall>i j s u. dict_get (sm_orders m') i = Some s \<longrightarrow> dict_get (sm_orders m') j = Some u
        \<longrightarrow> \<not> so_terminal s \<longrightarrow> \<not> so_terminal u \<longrightarrow> order_slot s = order_slot u \<longrightarrow> i = j)
    \<and> (\<forall>symbol_id side. \<exists>r. occupied_order m' symbol_id side = Inr r \<and>
        (case r of
           None \<Rightarrow> \<forall>i s. dict_get (sm_orders m') i = Some s \<longrightarrow> order_slot s = (symbol_id, side) \<longrightarrow> so_terminal s
         | Some s \<Rightarrow> \<not> so_terminal s \<and> order_slot s = (symbol_id, side)
             \<and> dict_get (sm_orders m') (so_simulated_order_id s) = Some s))"
proof -
  have inv: "sm_inv m'" using machine.run_inv [OF _ assms(2)] sm_inv_new [OF assms(1)] by simp
  then have ord: "orders_inv m'" using sm_midD(3) by (simp add: sm_inv_def)
  show ?thesis
  proof (intro conjI allI impI)
    show "so_simulated_order_id s = i" "validate_simulated_order s = Inr ()"
      if "dict_get (sm_orders m') i = Some s" for i s
      using orders_inv_get(1,2) [OF ord that] by (simp_all add: validate_simulated_order_Inr)
    show "i = j" if "dict_get (sm_orders m') i = Some s" "dict_get (sm_orders m') j = Some u"
      "\<not> so_terminal s" "\<not> so_terminal u" "order_slot s = order_slot u" for i j s u
      by (rule orders_inv_slot_unique [OF ord that(2,4,1,3,5)])
  qed (rule occupied_order_ok [OF inv])
qed

theorem machine_well_formed_witness:
  "validate_simulated_order (projr (sm_order (fst (snd demo_run)) 7)) = Inr ()
   \<and> (\<exists>r. occupied_order (fst (snd demo_run)) 1 1 = Inr r)"
proof -
  have "dict_get (sm_orders (fst (snd demo_run))) 7 = Some (projr (sm_order (fst (snd demo_run)) 7))"
    by code_simp
  with machine_well_formed [OF demo_machine_new demo_run_ok] show ?thesis by blast
qed

text \<open>
  C4: the transitions the machine returns are a faithful log. Replayed against the lifecycle
  specification they are legal edges, each from the state the log left the order in, and they
  end in exactly the states of the stored orders.
\<close>

theorem transition_log_replays:
  assumes "new_state_machine sub can = Inr m"
    "run_steps (sm_step R) (m, q) calls = (Inr tss, (m', q'))"
  shows "replay (\<lambda>_. None) (concat tss) = Some (states_of (sm_orders m'))"
  using run_keeps [OF sm_inv_new [OF assms(1)] traced_new [OF assms(1)] assms(2)]
  by (simp add: traced_def)

theorem transition_log_replays_witness:
  "replay (\<lambda>_. None) (concat (projr (fst demo_run))) = Some (states_of (sm_orders (fst (snd demo_run))))
   \<and> length (concat (projr (fst demo_run))) = 7"
proof -
  have "length (concat (projr (fst demo_run))) = 7" by code_simp
  with transition_log_replays [OF demo_machine_new demo_run_ok] show ?thesis by blast
qed

text \<open>
  C5: no quantity is lost. What an order has lost of its original quantity is the sum of the
  fills in the log, for every order and over any run.
\<close>

theorem filled_quantity_conserved:
  assumes "new_state_machine sub can = Inr m"
    "run_steps (sm_step R) (m, q) calls = (Inr tss, (m', q'))"
    "dict_get (sm_orders m') i = Some s"
  shows "so_original_quantity s - so_remaining_quantity s = filled_quantity i (concat tss)
    \<and> 0 \<le> so_remaining_quantity s \<and> (so_remaining_quantity s = 0 \<longleftrightarrow> so_state s = FILLED)"
proof -
  note k = run_keeps [OF sm_inv_new [OF assms(1)] traced_new [OF assms(1)] assms(2)]
  then have "orders_inv m'" using sm_midD(3) [of "[]" m'] by (simp add: sm_inv_def)
  then have "order_wf s" using orders_inv_get(2) assms(3) by blast
  moreover have "filled_quantity i (concat tss) = filled_of (sm_orders m') i"
    using k by (simp add: traced_def)
  ultimately show ?thesis using assms(3) by (auto simp: filled_of_def order_wf_def)
qed

theorem filled_quantity_conserved_witness:
  "filled_quantity 7 (concat (projr (fst demo_run))) = 4 \<and>
   so_remaining_quantity (projr (sm_order (fst (snd demo_run)) 7)) = 6"
proof -
  have s: "dict_get (sm_orders (fst (snd demo_run))) 7 = Some (projr (sm_order (fst (snd demo_run)) 7))"
    by code_simp
  have "so_original_quantity (projr (sm_order (fst (snd demo_run)) 7)) = 10"
    "so_remaining_quantity (projr (sm_order (fst (snd demo_run)) 7)) = 6"
    by code_simp+
  with filled_quantity_conserved [OF demo_machine_new demo_run_ok s] show ?thesis by simp
qed

text \<open>
  an order that has ended never changes again, whatever calls follow.
\<close>

theorem ended_orders_immutable:
  assumes "sm_inv m" "run_steps (sm_step R) (m, q) calls = (Inr tss, (m', q'))"
    "dict_get (sm_orders m) i = Some s" "so_terminal s"
  shows "sm_order m' i = Inr s"
proof -
  have ord: "orders_inv m" using assms(1) sm_midD(3) by (simp add: sm_inv_def)
  have "ended_kept (sm_orders m) (sm_orders m')"
    using run_ended [OF assms(1,2)] .
  with assms(3,4) orders_inv_get(1,2) [OF ord assms(3)] show ?thesis
    by (auto simp: sm_order_Inr ended_kept_def order_wf_def request_wf_def request_of_def)
qed

theorem ended_orders_immutable_witness:
  "sm_order (fst (snd (run_steps (sm_step None) (fst (snd demo_run), ())
      [Call_before_market_event 1300 3, Call_after_market_timestamp 1300]))) 8
   = sm_order (fst (snd demo_run)) 8"
proof -
  let ?cs = "[Call_before_market_event 1300 3, Call_after_market_timestamp 1300]"
  let ?r = "run_steps (sm_step None) (fst (snd demo_run), ()) ?cs"
  let ?s = "projr (sm_order (fst (snd demo_run)) 8)"
  have "succeeded ?r" by code_simp
  from succeeded_plain [OF this] have r: "run_steps (sm_step None) (fst (snd demo_run), ()) ?cs
      = (Inr (projr (fst ?r)), (fst (snd ?r), ()))" .
  have s: "dict_get (sm_orders (fst (snd demo_run))) 8 = Some ?s" "so_terminal ?s"
    "sm_order (fst (snd demo_run)) 8 = Inr ?s"
    by code_simp+
  show ?thesis using ended_orders_immutable [OF demo_run_inv r s(1,2)] s(3) by simp
qed

text \<open>
  C6: nothing is overdue. When \<open>after_market_timestamp t\<close> returns, every order still waiting to
  be submitted becomes effective after \<open>t\<close>, every order with a requested cancellation waits for
  a pending cancel action effective after \<open>t\<close>, and an order is exposed only if its effective time
  has passed.
\<close>

theorem nothing_overdue:
  assumes "sm_inv m" "after_market_timestamp t R (m, q) = (Inr ts, (m', q'))"
    "dict_get (sm_orders m') i = Some s" "\<not> so_terminal s"
  shows "(so_state s = PENDING_SUBMIT \<longrightarrow> t < so_effective_timestamp_ns s)
    \<and> (so_state s \<noteq> PENDING_SUBMIT \<longrightarrow> so_effective_timestamp_ns s \<le> t)
    \<and> (so_cancel_requested_ns s \<noteq> None \<longrightarrow> (\<exists>a \<in> set (sm_pending_actions m').
         sa_simulated_order_id a = i \<and> sa_kind a = CANCEL \<and> t < sa_effective_timestamp_ns a))"
proof -
  obtain as sch where run: "actions_after_market_timestamp t (sm_scheduler m) = (Inr as, sch)"
    and sch: "sm_scheduler m' = sch" and inv: "sm_inv m'"
    using ended.after_market_timestamp_keeps [OF assms(1) _ assms(2), of "sm_orders m"] assms(2)
    by (cases "actions_after_market_timestamp t (sm_scheduler m)";
        cases "fst (actions_after_market_timestamp t (sm_scheduler m))")
      (auto simp: after_market_timestamp_def bindM_def on_machine_def on_scheduler_def)
  have si: "sched_inv (sm_scheduler m)" using assms(1) sm_midD(2) by (simp add: sm_inv_def)
  have mid: "sm_mid [] m'" using inv by (simp add: sm_inv_def)
  have lt: "sch_last_market_timestamp_ns sch = Some t"
    using actions_after_market_timestamp_Inr(1,5) [OF run] pop_due_frame(1)
    by (metis latency_scheduler.select_convs(3) latency_scheduler.surjective latency_scheduler.update_convs(1,5))
  have late: "t < sa_effective_timestamp_ns a" if "a \<in> set (sch_heap sch)" for a
    using after_timestamp_heap(2) [OF si run] that by (metis mem_Collect_eq set_mset_filter set_mset_mset)
  have act: "actions_inv (set (sch_heap sch)) m'" using sm_midD(4) [OF mid] sch by simp
  have await: "awaits (set (sch_heap sch)) i s" using act assms(3) by (simp add: actions_inv_def)
  have pend: "set (sm_pending_actions m') = set (sch_heap sch)"
    by (simp add: sm_pending_actions_def sch_pending_actions_def sch)
  have "t < so_effective_timestamp_ns s" if st: "so_state s = PENDING_SUBMIT"
  proof -
    obtain a where a: "a \<in> set (sch_heap sch)" "sa_simulated_order_id a = i" "sa_kind a = ACTIVATE"
      using await st assms(4) by (auto simp: awaits_def)
    with actions_inv_get(3) [OF act a(1)] assms(3,4) have
      "sa_effective_timestamp_ns a = so_effective_timestamp_ns s" by (auto simp: action_ok_def)
    with late [OF a(1)] show ?thesis by simp
  qed
  moreover have "so_effective_timestamp_ns s \<le> t" if "so_state s \<noteq> PENDING_SUBMIT"
    using orders_inv_get(3) [OF sm_midD(3) [OF mid] assms(3)] that assms(4) lt sch
    by (auto simp: so_terminal_def terminal_iff)
  ultimately show ?thesis
    unfolding pend using await assms(4) late by (auto simp: awaits_def)
qed

theorem nothing_overdue_witness:
  "\<exists>ts m'. after_market_timestamp 1200 None (fst (snd demo_prefix), ()) = (Inr ts, (m', ()))
    \<and> (\<exists>a \<in> set (sm_pending_actions m').
         sa_simulated_order_id a = 7 \<and> sa_kind a = CANCEL \<and> 1200 < sa_effective_timestamp_ns a)"
proof -
  let ?r = "after_market_timestamp 1200 None (fst (snd demo_prefix), ())"
  let ?s = "projr (sm_order (fst (snd ?r)) 7)"
  have "succeeded ?r" by code_simp
  from succeeded_plain [OF this] have r: "?r = (Inr (projr (fst ?r)), (fst (snd ?r), ()))" .
  have s: "dict_get (sm_orders (fst (snd ?r))) 7 = Some ?s" "\<not> so_terminal ?s"
    "so_cancel_requested_ns ?s \<noteq> None"
    by code_simp+
  from nothing_overdue [OF demo_prefix_inv r s(1,2)] s(3) r show ?thesis by blast
qed

end
