(* ===== verification/Queue_Invariant.thy ===== *)
theory Queue_Invariant
  imports Visible_Book Machine_Properties
begin

text \<open>
  The trackers of the queue model: every exposed order has one, which knows exactly the
  visible orders ahead of it and their current quantities. The activation resolver and every
  visible event keep that, and under it the checks on quantities ahead never fail.
\<close>

section \<open>Sums of quantities\<close>

abbreviation ahead_sum :: "(int, int) dict \<Rightarrow> int" where
  "ahead_sum \<equiv> dict_sum (\<lambda>_ x. x)"

lemma dict_sum_del:
  "dict_ok d \<Longrightarrow> dict_sum f (dict_del k d) =
     dict_sum f d - (case dict_get d k of None \<Rightarrow> 0 | Some w \<Rightarrow> f k w)"
proof (induction d)
  case Nil
  then show ?case by (simp add: dict_sum_def dict_del_def)
next
  case (Cons p d)
  obtain j w where p: "p = (j, w)" by (cases p)
  from Cons.prems p have d: "dict_ok d" "j \<notin> fst ` set d" by (simp_all add: dict_ok_def)
  have "dict_get d j = None" using d(2) by (simp add: dict_get_def map_of_eq_None_iff)
  from dict_del_absent [OF this] Cons.IH [OF d(1)] p show ?case
    by (auto simp: dict_sum_def dict_del_def dict_get_def split: option.splits)
qed

lemma ahead_sum_values: "ahead_sum d = sum_list (dict_values d)"
  by (induction d) (auto simp: dict_sum_def dict_values_def)

lemma total_loop_eq:
  assumes "\<And>x. x \<in> set qs \<Longrightarrow> 0 \<le> x" "a \<le> MAX_UINT64"
  shows "total_loop i a qs = (if a + sum_list qs \<le> MAX_UINT64 then Inr (a + sum_list qs)
    else fail_order ERR_QUEUE_STATE i)"
  using assms
proof (induction qs arbitrary: a)
  case Nil
  then show ?case by simp
next
  case (Cons x qs)
  have "0 \<le> sum_list qs" using Cons.prems(1) by (intro sum_list_nonneg) simp
  moreover have "total_loop i (a + x) qs = (if a + x + sum_list qs \<le> MAX_UINT64
      then Inr (a + x + sum_list qs) else fail_order ERR_QUEUE_STATE i)" if "a + x \<le> MAX_UINT64"
    by (rule Cons.IH) (use Cons.prems(1) that in simp_all)
  ultimately show ?case by (auto simp: algebra_simps)
qed

text \<open>The quantity visible at a symbol, side and price, read off the flat map of visible orders.\<close>

definition visible_quantity :: "visible_queue_model \<Rightarrow> int \<times> int \<times> int \<Rightarrow> int" where
  "visible_quantity q key = sum_list (map vo_remaining_quantity
     (filter (\<lambda>v. level_key v = key) (dict_values (vq_visible_orders q))))"

lemma finite_keys: "finite {k. has_key d k}"
  by (rule finite_subset [of _ "fst ` set d"])
    (auto simp: has_key_def dict_get_def dest: map_of_SomeD intro: rev_image_eqI)

lemma dict_sum_keys:
  "dict_ok d \<Longrightarrow> dict_sum f d = (\<Sum>k\<in>{k. has_key d k}. f k (the (dict_get d k)))"
proof (induction d)
  case Nil
  then show ?case by (simp add: has_key_def)
next
  case (Cons p d)
  obtain j w where p: "p = (j, w)" by (cases p)
  from Cons.prems p have d: "dict_ok d" "dict_get d j = None"
    by (simp_all add: dict_ok_def dict_get_def map_of_eq_None_iff)
  have get: "dict_get (p # d) k = (if k = j then Some w else dict_get d k)" for k
    by (simp add: p dict_get_def)
  have keys: "{k. has_key (p # d) k} = insert j {k. has_key d k}"
    by (auto simp: has_key_def get)
  have "(\<Sum>k\<in>insert j {k. has_key d k}. f k (the (dict_get (p # d) k)))
      = f j w + (\<Sum>k\<in>{k. has_key d k}. f k (the (dict_get (p # d) k)))"
    by (subst sum.insert [OF finite_keys]) (use d(2) in \<open>simp_all add: has_key_def get\<close>)
  moreover have "dict_sum f (p # d) = f j w + dict_sum f d" by (simp add: p dict_sum_def)
  moreover have "(\<Sum>k\<in>{k. has_key d k}. f k (the (dict_get (p # d) k)))
      = (\<Sum>k\<in>{k. has_key d k}. f k (the (dict_get d k)))"
    by (rule sum.cong) (use d(2) in \<open>auto simp: has_key_def get\<close>)
  ultimately show ?case
    using Cons.IH [OF d(1)] unfolding keys by simp
qed

lemma visible_quantity_sum:
  "visible_quantity q key =
     dict_sum (\<lambda>_ v. if level_key v = key then vo_remaining_quantity v else 0) (vq_visible_orders q)"
proof -
  have "sum_list (map vo_remaining_quantity (filter (\<lambda>v. level_key v = key) (dict_values d)))
      = dict_sum (\<lambda>_ v. if level_key v = key then vo_remaining_quantity v else 0) d"
    for d :: "(int, visible_order) dict"
    by (induction d) (auto simp: dict_sum_def dict_values_def)
  then show ?thesis by (simp add: visible_quantity_def)
qed

section \<open>Trackers\<close>

definition tracker_key :: "tracked_queue \<Rightarrow> int \<times> int \<times> int" where
  "tracker_key tk = (tq_symbol_id tk, tq_side tk, tq_price4 tk)"

definition ahead_ok :: "visible_queue_model \<Rightarrow> tracked_queue \<Rightarrow> bool" where
  "ahead_ok q tk \<longleftrightarrow> dict_ok (tq_ahead tk)
   \<and> (\<forall>r x. dict_get (tq_ahead tk) r = Some x \<longrightarrow> dict_get (level_at q (tracker_key tk)) r = Some x)
   \<and> ahead_sum (tq_ahead tk) \<le> tq_initial_quantity tk \<and> tq_initial_quantity tk \<le> MAX_UINT64"

definition tracks :: "simulated_order \<Rightarrow> tracked_queue \<Rightarrow> bool" where
  "tracks s tk \<longleftrightarrow> tq_simulated_order_id tk = so_simulated_order_id s
   \<and> tq_symbol_id tk = so_symbol_id s \<and> tq_side tk = so_side s \<and> tq_price4 tk = so_price4 s
   \<and> so_queue_ahead_initial s = Some (tq_initial_quantity tk)"

text \<open>
  While a batch of released actions is being applied, a tracker may outlive its order until the
  batch's transitions are synchronised; \<open>ended_in ts\<close> are the orders those transitions ended.
\<close>

definition ended_in :: "order_transition list \<Rightarrow> int set" where
  "ended_in ts = ot_simulated_order_id ` {t \<in> set ts. \<not> EXPOSED_STATES (ot_after_state t)}"

definition tracked_mid :: "(int, simulated_order) dict \<Rightarrow> visible_queue_model \<Rightarrow> order_transition list \<Rightarrow> bool"
where
  "tracked_mid od q ts \<longleftrightarrow>
     dict_ok (vq_queues q)
   \<and> (\<forall>i tk. dict_get (vq_queues q) i = Some tk \<longrightarrow> ahead_ok q tk \<and> tq_simulated_order_id tk = i
        \<and> (\<exists>s. dict_get od i = Some s \<and> (EXPOSED_STATES (so_state s) \<longrightarrow> tracks s tk)
             \<and> (EXPOSED_STATES (so_state s) \<or> i \<in> ended_in ts)))
   \<and> (\<forall>i s. dict_get od i = Some s \<longrightarrow> EXPOSED_STATES (so_state s) \<longrightarrow> has_key (vq_queues q) i)
   \<and> (\<forall>i \<in> ended_in ts. \<exists>s. dict_get od i = Some s \<and> so_terminal s)"

definition tracked :: "(int, simulated_order) dict \<Rightarrow> visible_queue_model \<Rightarrow> bool" where
  "tracked od q \<longleftrightarrow> tracked_mid od q []"

lemma ended_in_simps [simp]:
  "ended_in [] = {}" "ended_in (ts @ us) = ended_in ts \<union> ended_in us"
  "ended_in (t # us) = (if EXPOSED_STATES (ot_after_state t) then ended_in us
     else insert (ot_simulated_order_id t) (ended_in us))"
  by (auto simp: ended_in_def)

lemma tracked_midD:
  assumes "tracked_mid od q ts"
  shows "dict_ok (vq_queues q)"
    "dict_get (vq_queues q) i = Some tk \<Longrightarrow> ahead_ok q tk"
    "dict_get (vq_queues q) i = Some tk \<Longrightarrow> tq_simulated_order_id tk = i"
    "dict_get (vq_queues q) i = Some tk \<Longrightarrow> \<exists>s. dict_get od i = Some s
       \<and> (EXPOSED_STATES (so_state s) \<longrightarrow> tracks s tk) \<and> (EXPOSED_STATES (so_state s) \<or> i \<in> ended_in ts)"
    "dict_get od i = Some s \<Longrightarrow> EXPOSED_STATES (so_state s) \<Longrightarrow> \<exists>tk. dict_get (vq_queues q) i = Some tk"
    "i \<in> ended_in ts \<Longrightarrow> \<exists>s. dict_get od i = Some s \<and> so_terminal s"
  using assms unfolding tracked_mid_def has_key_iff by blast+

lemma tracked_midI:
  assumes "dict_ok (vq_queues q)"
    and "\<And>i tk. dict_get (vq_queues q) i = Some tk \<Longrightarrow> ahead_ok q tk \<and> tq_simulated_order_id tk = i
        \<and> (\<exists>s. dict_get od i = Some s \<and> (EXPOSED_STATES (so_state s) \<longrightarrow> tracks s tk)
             \<and> (EXPOSED_STATES (so_state s) \<or> i \<in> ended_in ts))"
    and "\<And>i s. dict_get od i = Some s \<Longrightarrow> EXPOSED_STATES (so_state s) \<Longrightarrow> has_key (vq_queues q) i"
    and "\<And>i. i \<in> ended_in ts \<Longrightarrow> \<exists>s. dict_get od i = Some s \<and> so_terminal s"
  shows "tracked_mid od q ts"
  using assms unfolding tracked_mid_def by blast

lemma tracked_get:
  assumes "tracked od q" "dict_get (vq_queues q) i = Some tk"
  shows "\<exists>s. dict_get od i = Some s \<and> EXPOSED_STATES (so_state s) \<and> tracks s tk"
  using tracked_midD(4) [OF assms(1) [unfolded tracked_def] assms(2)] by auto

text \<open>Synchronising drops the trackers of the orders that ended.\<close>

lemma synchronised_queues:
  "dict_get (vq_queues (synchronise_transitions ts q)) i =
     (if i \<in> ended_in ts then None else dict_get (vq_queues q) i)"
proof -
  have "dict_get (fold (\<lambda>t queues. if EXPOSED_STATES (ot_after_state t) then queues
      else dict_del (ot_simulated_order_id t) queues) ts d) i
      = (if i \<in> ended_in ts then None else dict_get d i)" for d :: "(int, tracked_queue) dict"
    by (induction ts arbitrary: d) simp_all
  then show ?thesis by (simp add: synchronise_transitions_def)
qed

lemma synchronised_ok: "dict_ok (vq_queues q) \<Longrightarrow> dict_ok (vq_queues (synchronise_transitions ts q))"
proof -
  have "dict_ok (fold (\<lambda>t queues. if EXPOSED_STATES (ot_after_state t) then queues
      else dict_del (ot_simulated_order_id t) queues) ts d)" if "dict_ok d" for d :: "(int, tracked_queue) dict"
    using that by (induction ts arbitrary: d) simp_all
  then show "dict_ok (vq_queues q) \<Longrightarrow> dict_ok (vq_queues (synchronise_transitions ts q))"
    by (simp add: synchronise_transitions_def)
qed

lemma synchronise_simps [simp]:
  "vq_visible_orders (synchronise_transitions ts q) = vq_visible_orders q"
  "vq_visible_levels (synchronise_transitions ts q) = vq_visible_levels q"
  "vq_price_heaps (synchronise_transitions ts q) = vq_price_heaps q"
  "vq_heap_prices (synchronise_transitions ts q) = vq_heap_prices q"
  "vq_used_fill_matches (synchronise_transitions ts q) = vq_used_fill_matches q"
  "vq_diagnostics (synchronise_transitions ts q) = vq_diagnostics q"
  "vq_anomaly_count (synchronise_transitions ts q) = vq_anomaly_count q"
  "vq_max_queue_anomalies (synchronise_transitions ts q) = vq_max_queue_anomalies q"
  by (simp_all add: synchronise_transitions_def)

lemma ahead_ok_levels: "vq_visible_levels q' = vq_visible_levels q \<Longrightarrow> ahead_ok q' tk = ahead_ok q tk"
  by (simp add: ahead_ok_def level_at_def)

lemma book_inv_frame:
  assumes "book_inv q" "vq_visible_orders q' = vq_visible_orders q" "vq_visible_levels q' = vq_visible_levels q"
    "vq_price_heaps q' = vq_price_heaps q" "vq_heap_prices q' = vq_heap_prices q"
  shows "book_inv q'"
  using assms(1) unfolding book_inv_def levels_inv_def heaps_inv_def level_at_def heap_at_def prices_at_def
    assms(2-5) .

lemma synchronised:
  assumes "tracked_mid od q ts"
  shows "tracked od (synchronise_transitions ts q)"
  unfolding tracked_def
proof (rule tracked_midI)
  show "dict_ok (vq_queues (synchronise_transitions ts q))"
    by (rule synchronised_ok [OF tracked_midD(1) [OF assms]])
  fix i
  show "ahead_ok (synchronise_transitions ts q) tk \<and> tq_simulated_order_id tk = i
      \<and> (\<exists>s. dict_get od i = Some s \<and> (EXPOSED_STATES (so_state s) \<longrightarrow> tracks s tk)
           \<and> (EXPOSED_STATES (so_state s) \<or> i \<in> ended_in []))"
    if "dict_get (vq_queues (synchronise_transitions ts q)) i = Some tk" for tk
  proof -
    have "i \<notin> ended_in ts" "dict_get (vq_queues q) i = Some tk"
      using that by (simp_all add: synchronised_queues split: if_splits)
    with tracked_midD(2,3,4) [OF assms this(2)] show ?thesis
      using ahead_ok_levels [of "synchronise_transitions ts q" q tk] by auto
  qed
  show "has_key (vq_queues (synchronise_transitions ts q)) i"
    if "dict_get od i = Some s" "EXPOSED_STATES (so_state s)" for s
  proof -
    have "i \<notin> ended_in ts"
      using tracked_midD(6) [OF assms, of i] that(1) not_terminal_states(2) [OF that(2)]
      by (metis option.inject)
    with tracked_midD(5) [OF assms that] show ?thesis by (simp add: has_key_def synchronised_queues)
  qed
qed simp

section \<open>The activation resolver\<close>

lemma level_values_pos:
  assumes "levels_inv q" "x \<in> set (dict_values (level_at q k))"
  shows "1 \<le> x"
proof -
  have "dict_ok (level_at q k)"
    using levels_inv_level [OF assms(1)] by (cases "dict_get (vq_visible_levels q) k")
      (simp_all add: level_at_def dict_get_default_def)
  with assms(2) obtain r where "dict_get (level_at q k) r = Some x"
    by (auto simp: dict_values_iff)
  with levels_inv_level_iff [OF assms(1)] levels_inv_visible(1) [OF assms(1)] show ?thesis
    by (auto simp: visible_ok_def)
qed

lemma level_at_ok: "levels_inv q \<Longrightarrow> dict_ok (level_at q k)"
  using levels_inv_level [of q k] by (cases "dict_get (vq_visible_levels q) k")
    (simp_all add: level_at_def dict_get_default_def)

text \<open>The per-level map of a consistent book sums to it.\<close>

lemma level_quantity:
  assumes inv: "levels_inv q"
  shows "ahead_sum (level_at q key) = visible_quantity q key"
proof -
  let ?V = "vq_visible_orders q" and ?L = "level_at q key"
  have ok: "dict_ok ?V" "dict_ok ?L"
    using inv level_at_ok [OF inv] by (simp_all add: levels_inv_def)
  note iff = levels_inv_level_iff [OF inv]
  have "ahead_sum ?L = (\<Sum>k\<in>{k. has_key ?L k}. the (dict_get ?L k))" by (rule dict_sum_keys [OF ok(2)])
  also have "\<dots> = (\<Sum>k\<in>{k. has_key ?V k}. if level_key (the (dict_get ?V k)) = key
      then vo_remaining_quantity (the (dict_get ?V k)) else 0)"
  proof (rule sum.mono_neutral_cong_left [OF finite_keys])
    show "{k. has_key ?L k} \<subseteq> {k. has_key ?V k}" using iff by (auto simp: has_key_iff)
    show "\<forall>k \<in> {k. has_key ?V k} - {k. has_key ?L k}. (if level_key (the (dict_get ?V k)) = key
      then vo_remaining_quantity (the (dict_get ?V k)) else 0) = 0"
      using iff by (auto simp: has_key_iff)
    fix k
    assume "k \<in> {k. has_key ?L k}"
    then obtain x where x: "dict_get ?L k = Some x" by (auto simp: has_key_iff)
    then obtain v where "dict_get ?V k = Some v" "level_key v = key" "vo_remaining_quantity v = x"
      using iff by blast
    with x show "the (dict_get ?L k) = (if level_key (the (dict_get ?V k)) = key
      then vo_remaining_quantity (the (dict_get ?V k)) else 0)" by simp
  qed
  also have "\<dots> = visible_quantity q key"
    by (simp add: visible_quantity_sum dict_sum_keys [OF ok(1)])
  finally show ?thesis .
qed

definition new_tracker :: "simulated_order \<Rightarrow> (int, int) dict \<Rightarrow> tracked_queue" where
  "new_tracker s level = \<lparr>tq_simulated_order_id = so_simulated_order_id s,
     tq_symbol_id = so_symbol_id s, tq_side = so_side s, tq_price4 = so_price4 s,
     tq_initial_quantity = ahead_sum level, tq_ahead = level\<rparr>"

text \<open>
  Activation rejects an order that the best opposite price crosses; otherwise everything on its
  level is ahead of it, and the only failure is an overflowing sum.
\<close>

lemma resolve_activation_ok:
  assumes inv: "book_inv q"
  obtains best q1 where "best_price q (so_symbol_id s) (- so_side s) best" "book_inv q1"
    "heaps_only q q1"
    "resolve_activation s q =
       (if price_crosses (so_side s) (so_price4 s) best then (Inr None, q1)
        else let level = level_at q (so_symbol_id s, so_side s, so_price4 s) in
          if ahead_sum level \<le> MAX_UINT64
          then (Inr (Some (ahead_sum level)), q1\<lparr>vq_queues :=
            dict_set (so_simulated_order_id s) (new_tracker s level) (vq_queues q)\<rparr>)
          else (fail_order ERR_QUEUE_STATE (so_simulated_order_id s), q1))"
proof -
  obtain best q1 where b: "best_visible_price (so_symbol_id s) (- so_side s) q = (Inr best, q1)"
    "book_inv q1" "heaps_only q q1" "best_price q (so_symbol_id s) (- so_side s) best"
    by (rule best_visible_price_ok [OF inv])
  have lev: "levels_inv q" using inv by (simp add: book_inv_def)
  let ?level = "level_at q (so_symbol_id s, so_side s, so_price4 s)"
  have pos: "0 \<le> x" if "x \<in> set (dict_values ?level)" for x
    using level_values_pos [OF lev that] by simp
  have at: "dict_get_default (vq_visible_levels q1) (so_symbol_id s, so_side s, so_price4 s) [] = ?level"
    and qs: "vq_queues q1 = vq_queues q"
    using b(3) by (simp_all add: heaps_only_def rest_same_def level_at_def)
  have tot: "total_loop (so_simulated_order_id s) 0 (dict_values ?level) =
      (if ahead_sum ?level \<le> MAX_UINT64 then Inr (ahead_sum ?level)
       else fail_order ERR_QUEUE_STATE (so_simulated_order_id s))"
    using total_loop_eq [of "dict_values ?level" 0] pos by (simp add: ahead_sum_values MAX_UINT64_def)
  show ?thesis
    by (rule that [OF b(4,2,3)])
      (simp add: resolve_activation_def is_marketable_def bindM_def b(1) at qs tot Let_def
        new_tracker_def fail_order_def)
qed

lemma tracked_mid_no_pending:
  assumes "tracked_mid od q ts" "dict_get od i = Some s" "so_state s = PENDING_SUBMIT"
  shows "dict_get (vq_queues q) i = None" "i \<notin> ended_in ts"
proof -
  show e: "i \<notin> ended_in ts"
    using tracked_midD(6) [OF assms(1), of i] assms(2,3) by (auto simp: so_terminal_def)
  show "dict_get (vq_queues q) i = None"
    using tracked_midD(4) [OF assms(1), of i] assms(2,3) e
    by (cases "dict_get (vq_queues q) i") auto
qed

text \<open>Changing one order, with its transition, and possibly its tracker.\<close>

lemma tracked_mid_change:
  assumes mid: "tracked_mid od q ts" and id: "ot_simulated_order_id t = i"
    and after: "ot_after_state t = so_state s'"
    and lev: "vq_visible_levels q' = vq_visible_levels q"
    and queues: "vq_queues q' = vq_queues q \<and> so_terminal s'
      \<or> vq_queues q' = dict_set i tk (vq_queues q) \<and> EXPOSED_STATES (so_state s') \<and> i \<notin> ended_in ts
        \<and> ahead_ok q tk \<and> tq_simulated_order_id tk = i \<and> tracks s' tk"
    and old: "dict_get od i = Some s" "\<not> so_terminal s"
  shows "tracked_mid (dict_set i s' od) q' (ts @ [t])"
proof (rule tracked_midI)
  have fresh: "i \<notin> ended_in ts" using tracked_midD(6) [OF mid, of i] old by auto
  show "dict_ok (vq_queues q')" using queues tracked_midD(1) [OF mid] by auto
  fix j
  show "ahead_ok q' u \<and> tq_simulated_order_id u = j
      \<and> (\<exists>s. dict_get (dict_set i s' od) j = Some s \<and> (EXPOSED_STATES (so_state s) \<longrightarrow> tracks s u)
           \<and> (EXPOSED_STATES (so_state s) \<or> j \<in> ended_in (ts @ [t])))"
    if "dict_get (vq_queues q') j = Some u" for u
  proof (cases "j = i")
    case True
    with queues that id after tracked_midD(2,3) [OF mid, of i u] show ?thesis
      by (auto simp: ahead_ok_levels [OF lev] so_terminal_def terminal_iff)
  next
    case False
    with queues that have "dict_get (vq_queues q) j = Some u" by auto
    from tracked_midD(2,3,4) [OF mid this] False show ?thesis by (auto simp: ahead_ok_levels [OF lev])
  qed
  show "has_key (vq_queues q') j"
    if "dict_get (dict_set i s' od) j = Some u" "EXPOSED_STATES (so_state u)" for u
    using queues that tracked_midD(5) [OF mid, of j u]
    by (auto simp: has_key_def so_terminal_def terminal_iff split: if_splits)
  show "\<exists>u. dict_get (dict_set i s' od) j = Some u \<and> so_terminal u" if "j \<in> ended_in (ts @ [t])"
    using that queues tracked_midD(6) [OF mid, of j] id after fresh
    by (auto simp: so_terminal_def split: if_splits)
qed

text \<open>What the resolver leaves alone.\<close>

definition log_same :: "visible_queue_model \<Rightarrow> visible_queue_model \<Rightarrow> bool" where
  "log_same q q' \<longleftrightarrow> vq_max_queue_anomalies q' = vq_max_queue_anomalies q
   \<and> vq_used_fill_matches q' = vq_used_fill_matches q \<and> vq_diagnostics q' = vq_diagnostics q
   \<and> vq_anomaly_count q' = vq_anomaly_count q \<and> vq_visible_orders q' = vq_visible_orders q"

lemma heaps_only_log: "heaps_only q q' \<Longrightarrow> log_same q q'"
  by (simp add: heaps_only_def rest_same_def log_same_def)

lemma log_same_trans: "log_same a b \<Longrightarrow> log_same b c \<Longrightarrow> log_same a c"
  by (simp add: log_same_def)

lemma log_same_refl [simp]: "log_same q q"
  by (simp add: log_same_def)

lemma log_same_sync [simp]: "log_same q (synchronise_transitions ts q)"
  by (simp add: log_same_def)

text \<open>No exposed order could trade with a visible order of the opposite side.\<close>

definition uncrossed :: "(int, simulated_order) dict \<Rightarrow> visible_queue_model \<Rightarrow> bool" where
  "uncrossed od q \<longleftrightarrow> (\<forall>i s r v. dict_get od i = Some s \<longrightarrow> EXPOSED_STATES (so_state s) \<longrightarrow>
     dict_get (vq_visible_orders q) r = Some v \<longrightarrow> vo_symbol_id v = so_symbol_id s \<longrightarrow>
     vo_side v = - so_side s \<longrightarrow> \<not> price_crosses (so_side s) (so_price4 s) (Some (vo_price4 v)))"

lemma uncrossedD:
  assumes "uncrossed od q" "dict_get od i = Some s" "EXPOSED_STATES (so_state s)"
    "dict_get (vq_visible_orders q) r = Some v" "vo_symbol_id v = so_symbol_id s" "vo_side v = - so_side s"
  shows "\<not> price_crosses (so_side s) (so_price4 s) (Some (vo_price4 v))"
  using assms unfolding uncrossed_def by blast

lemma uncrossed_set:
  assumes "uncrossed od q" "vq_visible_orders q' = vq_visible_orders q"
    and "EXPOSED_STATES (so_state s') \<Longrightarrow> (\<And>r v. dict_get (vq_visible_orders q) r = Some v \<Longrightarrow>
      vo_symbol_id v = so_symbol_id s' \<Longrightarrow> vo_side v = - so_side s' \<Longrightarrow>
      \<not> price_crosses (so_side s') (so_price4 s') (Some (vo_price4 v)))"
  shows "uncrossed (dict_set i s' od) q'"
  unfolding uncrossed_def assms(2) dict_get_set
  using assms(3) uncrossedD [OF assms(1)] by (metis option.inject)

lemma best_price_crosses:
  assumes "best_price q symbol_id (- side) best" "side = -1 \<or> side = 1"
  shows "price_crosses side limit best \<longleftrightarrow>
    (\<exists>r v. dict_get (vq_visible_orders q) r = Some v \<and> vo_symbol_id v = symbol_id \<and> vo_side v = - side
       \<and> price_crosses side limit (Some (vo_price4 v)))"
proof (cases best)
  case None
  with assms show ?thesis by (auto simp: best_price_def price_crosses_def)
next
  case (Some p)
  with assms(1) obtain r v where v: "dict_get (vq_visible_orders q) r = Some v"
    "vo_symbol_id v = symbol_id" "vo_side v = - side" "vo_price4 v = p"
    by (auto simp: best_price_def)
  have "if - side = -1 then p \<le> vo_price4 u else vo_price4 u \<le> p"
    if "dict_get (vq_visible_orders q) j = Some u" "vo_symbol_id u = symbol_id" "vo_side u = - side" for j u
    using assms(1) that Some by (simp add: best_price_def)
  with v Some assms(2) show ?thesis by (fastforce simp: price_crosses_def split: if_splits)
qed

text \<open>
  What a batch of activations does to the trackers: it adds some, each with everything on the
  order's level ahead of it. An order that still waits for its activation has not changed.
\<close>

definition fresh_tracker :: "visible_queue_model \<Rightarrow> tracked_queue \<Rightarrow> bool" where
  "fresh_tracker q tk \<longleftrightarrow> tq_ahead tk = level_at q (tracker_key tk)
     \<and> tq_initial_quantity tk = ahead_sum (tq_ahead tk)"

definition trackers_added :: "visible_queue_model \<Rightarrow> visible_queue_model \<Rightarrow> bool" where
  "trackers_added q0 q \<longleftrightarrow> (\<forall>i tk. dict_get (vq_queues q) i = Some tk \<longrightarrow>
     dict_get (vq_queues q0) i = Some tk
     \<or> dict_get (vq_queues q0) i = None \<and> fresh_tracker q0 tk)"

definition pending_from :: "(int, simulated_order) dict \<Rightarrow> (int, simulated_order) dict \<Rightarrow> bool" where
  "pending_from od0 od \<longleftrightarrow> (\<forall>i s. dict_get od i = Some s \<longrightarrow> so_state s = PENDING_SUBMIT \<longrightarrow>
     dict_get od0 i = Some s)"

lemma pending_from_refl [simp]: "pending_from od od"
  by (simp add: pending_from_def)

lemma pending_from_set:
  "pending_from od0 od \<Longrightarrow> so_state s \<noteq> PENDING_SUBMIT \<Longrightarrow> pending_from od0 (dict_set i s od)"
  by (simp add: pending_from_def)

definition batch_from :: "visible_queue_model \<Rightarrow> visible_queue_model \<Rightarrow> bool" where
  "batch_from q0 q \<longleftrightarrow> log_same q0 q \<and> vq_visible_levels q = vq_visible_levels q0
     \<and> trackers_added q0 q \<and> (\<forall>i. has_key (vq_queues q0) i \<longrightarrow> has_key (vq_queues q) i)"

lemma batch_from_refl [simp]: "batch_from q q"
  by (simp add: batch_from_def trackers_added_def)

lemma batch_from_heaps:
  assumes "batch_from q0 q" "heaps_only q q1"
  shows "batch_from q0 q1"
  using assms log_same_trans [OF _ heaps_only_log [OF assms(2)]]
  by (simp add: batch_from_def trackers_added_def heaps_only_def rest_same_def)

lemma batch_from_new:
  assumes "batch_from q0 q" "dict_get (vq_queues q) i = None" "fresh_tracker q tk"
    and q': "log_same q q'" "vq_visible_levels q' = vq_visible_levels q"
      "vq_queues q' = dict_set i tk (vq_queues q)"
  shows "batch_from q0 q'"
proof -
  have b: "log_same q0 q" "vq_visible_levels q = vq_visible_levels q0" "trackers_added q0 q"
    "\<And>i. has_key (vq_queues q0) i \<Longrightarrow> has_key (vq_queues q) i"
    using assms(1) by (simp_all add: batch_from_def)
  have "dict_get (vq_queues q0) i = None" using assms(2) b(4) [of i] by (cases "dict_get (vq_queues q0) i") (simp_all add: has_key_def)
  moreover have "fresh_tracker q0 tk" using assms(3) b(2) by (simp add: fresh_tracker_def level_at_def)
  ultimately have "trackers_added q0 q'" using b(3) q'(3) by (simp add: trackers_added_def)
  with log_same_trans [OF b(1) q'(1)] b(2,4) q'(2,3) show ?thesis
    by (auto simp: batch_from_def has_key_def)
qed

definition queue_contract ::
  "(int, simulated_order) dict \<Rightarrow> visible_queue_model
     \<Rightarrow> (int, simulated_order) dict \<Rightarrow> visible_queue_model \<Rightarrow> order_transition list \<Rightarrow> bool"
where
  "queue_contract od0 q0 od q ts \<longleftrightarrow> book_inv q \<and> tracked_mid od q ts \<and> uncrossed od q
     \<and> batch_from q0 q \<and> pending_from od0 od"

lemma resolve_queue_ahead_resolver:
  "resolve_queue_ahead (Some f) s q = (Inr ahead, q') \<Longrightarrow> f s q = (Inr ahead, q')"
  by (auto simp: resolve_queue_ahead_def split: prod.splits sum.splits if_splits)

interpretation queue: activation_resolver "Some resolve_activation" "queue_contract od0 q0" for od0 q0
proof
  fix od q ts s ahead q' a t
  let ?R = "Some resolve_activation"
  let ?s' = "activated (?R \<noteq> None) a ahead s"
  let ?t = "transition_of s ?s' (if ?R \<noteq> None \<and> ahead = None then CAUSE_REJECTED else CAUSE_ACTIVATED)
    t None None (if ?R \<noteq> None \<and> ahead = None then Some MARKETABLE_AT_ACTIVATION else None)"
  assume c: "queue_contract od0 q0 od q ts" and s: "dict_get od (so_simulated_order_id s) = Some s"
    and wf: "order_wf s" and st: "so_state s = PENDING_SUBMIT" and res: "resolve_queue_ahead ?R s q = (Inr ahead, q')"
  have inv: "book_inv q" and mid: "tracked_mid od q ts" and log: "batch_from q0 q" and unc: "uncrossed od q"
    and pend: "pending_from od0 od"
    using c by (simp_all add: queue_contract_def)
  let ?level = "level_at q (so_symbol_id s, so_side s, so_price4 s)"
  obtain best q1 where best: "best_price q (so_symbol_id s) (- so_side s) best"
    and q1: "book_inv q1" "heaps_only q q1" and
    eq: "resolve_activation s q =
       (if price_crosses (so_side s) (so_price4 s) best then (Inr None, q1)
        else let level = ?level in
          if ahead_sum level \<le> MAX_UINT64
          then (Inr (Some (ahead_sum level)), q1\<lparr>vq_queues :=
            dict_set (so_simulated_order_id s) (new_tracker s level) (vq_queues q)\<rparr>)
          else (fail_order ERR_QUEUE_STATE (so_simulated_order_id s), q1))"
    by (rule resolve_activation_ok [OF inv])
  note run = resolve_queue_ahead_resolver [OF res]
  have id: "ot_simulated_order_id ?t = so_simulated_order_id s"
    using activated_identity [of s True a ahead] by (simp add: same_identity_def)
  note absent = tracked_mid_no_pending [OF mid s st]
  have nt: "\<not> so_terminal s" using st by (simp add: so_terminal_def)
  have levels: "levels_inv q" using inv by (simp add: book_inv_def)
  show "queue_contract od0 q0 (dict_set (so_simulated_order_id s) ?s' od) q' (ts @ [?t])"
  proof (cases ahead)
    case None
    with run eq have q': "q' = q1" by (auto simp: Let_def split: if_splits)
    have "tracked_mid (dict_set (so_simulated_order_id s) ?s' od) q' (ts @ [?t])"
      by (rule tracked_mid_change [OF mid id _ _ _ s nt])
        (use None q1(2) q' in \<open>auto simp: heaps_only_def rest_same_def activated_def so_terminal_def\<close>)
    moreover have "uncrossed (dict_set (so_simulated_order_id s) ?s' od) q'"
      by (rule uncrossed_set [OF unc]) (use None q1(2) q' in \<open>simp_all add: heaps_only_def activated_def\<close>)
    ultimately show ?thesis
      using q1 q' None batch_from_heaps [OF log q1(2)] pending_from_set [OF pend, of ?s']
      by (simp add: queue_contract_def activated_def)
  next
    case (Some x)
    with run eq have x: "x = ahead_sum ?level" "ahead_sum ?level \<le> MAX_UINT64" and
      q': "q' = q1\<lparr>vq_queues := dict_set (so_simulated_order_id s) (new_tracker s ?level) (vq_queues q)\<rparr>"
      by (auto simp: Let_def split: if_splits)
    have "tracked_mid (dict_set (so_simulated_order_id s) ?s' od) q' (ts @ [?t])"
    proof (rule tracked_mid_change [OF mid id _ _ _ s nt, where tk = "new_tracker s ?level"])
      show "vq_queues q' = vq_queues q \<and> so_terminal ?s'
        \<or> vq_queues q' = dict_set (so_simulated_order_id s) (new_tracker s ?level) (vq_queues q)
          \<and> EXPOSED_STATES (so_state ?s') \<and> so_simulated_order_id s \<notin> ended_in ts
          \<and> ahead_ok q (new_tracker s ?level)
          \<and> tq_simulated_order_id (new_tracker s ?level) = so_simulated_order_id s
          \<and> tracks ?s' (new_tracker s ?level)"
        using Some x absent(2) level_at_ok [OF levels]
        by (simp add: q' new_tracker_def ahead_ok_def tracker_key_def tracks_def activated_def)
    qed (use q' q1(2) in \<open>simp_all add: heaps_only_def\<close>)
    moreover have "book_inv q'" by (rule book_inv_frame [OF q1(1)]) (simp_all add: q')
    moreover have "uncrossed (dict_set (so_simulated_order_id s) ?s' od) q'"
    proof (rule uncrossed_set [OF unc])
      show "vq_visible_orders q' = vq_visible_orders q" using q1(2) q' by (simp add: heaps_only_def)
      have "so_side s = -1 \<or> so_side s = 1"
        using wf by (simp add: order_wf_def request_wf_def request_of_def)
      moreover have "\<not> price_crosses (so_side s) (so_price4 s) best"
        using run eq Some by (auto split: if_splits)
      ultimately show "\<not> price_crosses (so_side ?s') (so_price4 ?s') (Some (vo_price4 v))"
        if "dict_get (vq_visible_orders q) r = Some v" "vo_symbol_id v = so_symbol_id ?s'"
          "vo_side v = - so_side ?s'" for r v
        using best_price_crosses [OF best] that by (auto simp: activated_def)
    qed
    moreover have "batch_from q0 q'"
      by (rule batch_from_new [OF log absent(1), of "new_tracker s ?level"])
        (use heaps_only_log [OF q1(2)] q1(2) in
          \<open>simp_all add: q' fresh_tracker_def new_tracker_def tracker_key_def log_same_def heaps_only_def\<close>)
    moreover have "pending_from od0 (dict_set (so_simulated_order_id s) ?s' od)"
      by (rule pending_from_set [OF pend]) (simp add: Some activated_def)
    ultimately show ?thesis by (simp add: queue_contract_def)
  qed
next
  fix od q ts s a t
  let ?t = "transition_of s (cancelled a s) CAUSE_CANCELLED t None None None"
  assume c: "queue_contract od0 q0 od q ts" and s: "dict_get od (so_simulated_order_id s) = Some s"
    and st: "so_state s = PENDING_SUBMIT \<or> so_state s = PENDING_CANCEL"
  have mid: "tracked_mid od q ts" using c by (simp add: queue_contract_def)
  have "tracked_mid (dict_set (so_simulated_order_id s) (cancelled a s) od) q (ts @ [?t])"
    by (rule tracked_mid_change [OF mid _ _ _ _ s]) (use st in \<open>auto simp: cancelled_def so_terminal_def\<close>)
  moreover have "uncrossed (dict_set (so_simulated_order_id s) (cancelled a s) od) q"
    by (rule uncrossed_set [of od q]) (use c in \<open>simp_all add: queue_contract_def cancelled_def\<close>)
  ultimately show "queue_contract od0 q0 (dict_set (so_simulated_order_id s) (cancelled a s) od) q (ts @ [?t])"
    using c pending_from_set [of od0 od "cancelled a s"] by (simp add: queue_contract_def cancelled_def)
qed

end
