(* ===== verification/Queue_Events.thy ===== *)
theory Queue_Events
  imports Queue_Invariant
begin

text \<open>
  What one visible market event does: to the book (\<open>book_step\<close> specifies it on the flat map of
  visible orders), to the quantities ahead, and to the simulated orders it fills or crosses.
\<close>

section \<open>Machine calls that cannot fail\<close>

lemma record_fill_ok:
  assumes inv: "sm_inv m" and s: "dict_get (sm_orders m) i = Some s" and e: "EXPOSED_STATES (so_state s)"
    and x: "1 \<le> x" "x \<le> so_remaining_quantity s" and key: "require_current_market_key m t mi i = Inr ()"
  obtains tr where "record_fill i x t mi m = (Inr tr, put_order (filled_order s x t) m)"
    "tr = transition_of s (filled_order s x t)
       (if so_remaining_quantity s = x then CAUSE_FILLED else CAUSE_PARTIAL_FILL) t (Some mi) (Some x) None"
proof -
  have mid: "sm_mid [] m" using inv by (simp add: sm_inv_def)
  note ord = sm_midD(3) [OF mid]
  have wf: "order_wf s" and id: "so_simulated_order_id s = i" using orders_inv_get [OF ord s] by simp_all
  have lt: "sch_last_market_timestamp_ns (sm_scheduler m) = Some t"
    using key by (simp add: require_current_market_key_Inr)
  have t: "so_effective_timestamp_ns s \<le> t" "so_requested_timestamp_ns s \<le> t"
    using orders_inv_get(3) [OF ord s] e lt by auto
  have max: "t \<le> MAX_TIMESTAMP_NS" using sm_midD(2) [OF mid] lt by (simp add: sched_inv_def)
  have wf': "order_wf (filled_order s x t)"
    using wf x t max e request_of_identity [OF filled_identity [of s x t]]
    by (auto simp: order_wf_def filled_order_def so_terminal_def exposed_iff)
  have nt: "\<not> so_terminal s" by (rule not_terminal_states(2) [OF e])
  have slot: "order_slot (filled_order s x t) = order_slot s" by (simp add: filled_order_def order_slot_def)
  have c: "commit s (filled_order s x t) c t (Some mi) (Some x) None m =
      (Inr (transition_of s (filled_order s x t) c t (Some mi) (Some x) None), put_order (filled_order s x t) m)" for c
    by (rule commit_eq [OF wf']) (simp add: slot id orders_inv_slot [OF ord s nt])
  have ord': "sm_order m i = Inr s"
    using s wf id by (auto simp: sm_order_Inr order_wf_def request_wf_def request_of_def)
  show ?thesis
  proof (rule that)
    show "record_fill i x t mi m = (Inr (transition_of s (filled_order s x t)
       (if so_remaining_quantity s = x then CAUSE_FILLED else CAUSE_PARTIAL_FILL) t (Some mi) (Some x) None),
       put_order (filled_order s x t) m)"
      using ord' key e x t(1) c [of CAUSE_FILLED] c [of CAUSE_PARTIAL_FILL]
      by (auto simp: record_fill_def valid_int_def exposed_iff Let_def filled_order_def)
  qed simp
qed

lemma invalidate_ok:
  assumes inv: "sm_inv m" and s: "dict_get (sm_orders m) i = Some s" and e: "EXPOSED_STATES (so_state s)"
    and key: "require_current_market_key m t mi i = Inr ()"
  shows "invalidate i t mi m = (Inr (transition_of s (ended INVALIDATED t s) CAUSE_INVALIDATED t (Some mi)
      None (Some COUNTERFACTUAL_CROSS)), put_order (ended INVALIDATED t s) m)"
proof -
  have mid: "sm_mid [] m" using inv by (simp add: sm_inv_def)
  note ord = sm_midD(3) [OF mid]
  have wf: "order_wf s" and id: "so_simulated_order_id s = i" using orders_inv_get [OF ord s] by simp_all
  have lt: "sch_last_market_timestamp_ns (sm_scheduler m) = Some t"
    using key by (simp add: require_current_market_key_Inr)
  have t: "so_requested_timestamp_ns s \<le> t" using orders_inv_get(3) [OF ord s] lt by auto
  have max: "t \<le> MAX_TIMESTAMP_NS" using sm_midD(2) [OF mid] lt by (simp add: sched_inv_def)
  have wf': "order_wf (ended INVALIDATED t s)"
    using wf t max e request_of_identity [OF ended_identity [of s INVALIDATED t]]
    by (auto simp: order_wf_def ended_def so_terminal_def exposed_iff)
  have slot: "order_slot (ended INVALIDATED t s) = order_slot s" by (simp add: ended_def order_slot_def)
  have c: "commit s (ended INVALIDATED t s) CAUSE_INVALIDATED t (Some mi) None (Some COUNTERFACTUAL_CROSS) m =
      (Inr (transition_of s (ended INVALIDATED t s) CAUSE_INVALIDATED t (Some mi) None
         (Some COUNTERFACTUAL_CROSS)), put_order (ended INVALIDATED t s) m)"
    by (rule commit_eq [OF wf'])
      (simp add: slot id orders_inv_slot [OF ord s not_terminal_states(2) [OF e]])
  have ord': "sm_order m i = Inr s"
    using s wf id by (auto simp: sm_order_Inr order_wf_def request_wf_def request_of_def)
  have eq: "s\<lparr>so_state := INVALIDATED, so_terminal_timestamp_ns := Some t,
      so_rejection_reason := Some COUNTERFACTUAL_CROSS\<rparr> = ended INVALIDATED t s"
    by (simp add: ended_def)
  show ?thesis
    using ord' key e c by (auto simp: invalidate_def exposed_iff Let_def eq)
qed

section \<open>The trackers and a reference\<close>

lemma ahead_okD:
  assumes "ahead_ok q tk"
  shows "dict_ok (tq_ahead tk)"
    "dict_get (tq_ahead tk) r = Some x \<Longrightarrow> dict_get (level_at q (tracker_key tk)) r = Some x"
    "ahead_sum (tq_ahead tk) \<le> tq_initial_quantity tk" "tq_initial_quantity tk \<le> MAX_UINT64"
  using assms unfolding ahead_ok_def by blast+

definition queue_inv :: "queue_state \<Rightarrow> bool" where
  "queue_inv mq \<longleftrightarrow> sm_inv (fst mq) \<and> book_inv (snd mq) \<and> tracked (sm_orders (fst mq)) (snd mq)"

lemma queue_invD:
  assumes "queue_inv (m, q)"
  shows "sm_inv m" "book_inv q" "levels_inv q" "tracked (sm_orders m) q" "orders_inv m" "sm_mid [] m"
  using assms sm_midD(3) [of "[]" m] by (simp_all add: queue_inv_def book_inv_def sm_inv_def)

lemma tracker_visible:
  assumes "queue_inv (m, q)" "dict_get (vq_queues q) i = Some tk" "dict_get (tq_ahead tk) r = Some x"
  shows "\<exists>v. dict_get (vq_visible_orders q) r = Some v \<and> level_key v = tracker_key tk
    \<and> vo_remaining_quantity v = x"
proof -
  have "ahead_ok q tk" using tracked_midD(2) queue_invD(4) [OF assms(1)] assms(2) by (auto simp: tracked_def)
  from ahead_okD(2) [OF this assms(3)] have "dict_get (level_at q (tracker_key tk)) r = Some x" .
  with levels_inv_level_iff [OF queue_invD(3) [OF assms(1)]] show ?thesis by blast
qed

lemma tracker_order:
  assumes "queue_inv (m, q)" "dict_get (vq_queues q) i = Some tk"
  obtains s where "dict_get (sm_orders m) i = Some s" "EXPOSED_STATES (so_state s)" "tracks s tk"
    "tq_simulated_order_id tk = i" "sm_order m i = Inr s" "\<not> so_terminal s" "order_wf s"
proof -
  obtain s where s: "dict_get (sm_orders m) i = Some s" "EXPOSED_STATES (so_state s)" "tracks s tk"
    using tracked_get [OF queue_invD(4) [OF assms(1)] assms(2)] by blast
  note o = orders_inv_get(1,2) [OF queue_invD(5) [OF assms(1)] s(1)]
  have "sm_order m i = Inr s"
    using s(1) o by (auto simp: sm_order_Inr order_wf_def request_wf_def request_of_def)
  moreover have "tq_simulated_order_id tk = i" using s(3) o(1) by (simp add: tracks_def)
  ultimately show ?thesis using that s o(2) not_terminal_states(2) by blast
qed

lemma tracker_unique:
  assumes inv: "queue_inv (m, q)" and i: "dict_get (vq_queues q) i = Some tk" "dict_get (vq_queues q) j = Some tk'"
    and key: "tq_symbol_id tk = tq_symbol_id tk'" "tq_side tk = tq_side tk'"
  shows "i = j"
proof (rule tracker_order [OF inv i(1)], rule tracker_order [OF inv i(2)])
  fix s u
  assume s: "dict_get (sm_orders m) i = Some s" "tracks s tk" "\<not> so_terminal s"
    and u: "dict_get (sm_orders m) j = Some u" "tracks u tk'" "\<not> so_terminal u"
  have "order_slot s = order_slot u" using s(2) u(2) key by (simp add: tracks_def order_slot_def)
  then show "i = j" by (rule orders_inv_slot_unique [OF queue_invD(5) [OF inv] u(1,3) s(1,3)])
qed

lemma containing_unique:
  assumes "queue_inv (m, q)" "dict_get (vq_queues q) i = Some tk" "dict_get (vq_queues q) j = Some tk'"
    "has_key (tq_ahead tk) r" "has_key (tq_ahead tk') r"
  shows "i = j"
proof (rule tracker_unique [OF assms(1-3)])
  obtain x x' where "dict_get (tq_ahead tk) r = Some x" "dict_get (tq_ahead tk') r = Some x'"
    using assms(4,5) by (auto simp: has_key_iff)
  with tracker_visible [OF assms(1,2)] tracker_visible [OF assms(1,3)] have
    "tracker_key tk = tracker_key tk'" by fastforce
  then show "tq_symbol_id tk = tq_symbol_id tk'" "tq_side tk = tq_side tk'"
    by (simp_all add: tracker_key_def)
qed

lemma find_Some_iff: "List.find P xs = Some x \<Longrightarrow> x \<in> set xs \<and> P x"
  by (induction xs) (auto split: if_splits)

lemma find_None_all: "List.find P xs = None \<Longrightarrow> x \<in> set xs \<Longrightarrow> \<not> P x"
  by (induction xs) (auto split: if_splits)

lemma queue_containing_None:
  assumes "queue_inv (m, q)" "queue_containing q r = None" "dict_get (vq_queues q) i = Some tk"
  shows "\<not> has_key (tq_ahead tk) r"
proof -
  have ok: "dict_ok (vq_queues q)" using tracked_midD(1) queue_invD(4) [OF assms(1)] by (auto simp: tracked_def)
  have "tk \<in> set (dict_values (vq_queues q))" using assms(3) dict_values_iff [OF ok] by blast
  with assms(2) find_None_all show ?thesis unfolding queue_containing_def by fastforce
qed

lemma queue_containing_Some:
  assumes "queue_inv (m, q)" "queue_containing q r = Some tk"
  shows "dict_get (vq_queues q) (tq_simulated_order_id tk) = Some tk" "has_key (tq_ahead tk) r"
proof -
  have ok: "dict_ok (vq_queues q)" using tracked_midD(1) queue_invD(4) [OF assms(1)] by (auto simp: tracked_def)
  have mem: "tk \<in> set (dict_values (vq_queues q)) \<and> has_key (tq_ahead tk) r"
    using find_Some_iff [OF assms(2) [unfolded queue_containing_def]] .
  then obtain i where i: "dict_get (vq_queues q) i = Some tk" using dict_values_iff [OF ok] by blast
  moreover have "tq_simulated_order_id tk = i"
    using tracked_midD(3) [of "sm_orders m" q "[]" i tk] queue_invD(4) [OF assms(1)] i by (simp add: tracked_def)
  ultimately show "dict_get (vq_queues q) (tq_simulated_order_id tk) = Some tk" by simp
  show "has_key (tq_ahead tk) r" using mem by simp
qed

lemma matching_queue_loop_ok:
  assumes "\<And>tk. tk \<in> set tks \<Longrightarrow> \<exists>s. sm_order m (tq_simulated_order_id tk) = Inr s \<and> EXPOSED_STATES (so_state s)"
  shows "matching_queue_loop sym' d p m tks =
    Inr (List.find (\<lambda>tk. tracker_key tk = (sym', d, p)) tks)"
  using assms
proof (induction tks)
  case Nil
  then show ?case by simp
next
  case (Cons tk tks)
  obtain s where "sm_order m (tq_simulated_order_id tk) = Inr s" "EXPOSED_STATES (so_state s)"
    using Cons.prems [of tk] by auto
  with Cons show ?case by (auto simp: tracker_key_def)
qed

lemma matching_queue_ok:
  assumes inv: "queue_inv (m, q)"
  obtains res where "matching_queue symbol_id d p (m, q) = (Inr res, (m, q))"
    "case res of
       None \<Rightarrow> \<forall>i tk. dict_get (vq_queues q) i = Some tk \<longrightarrow> tracker_key tk \<noteq> (symbol_id, d, p)
     | Some tk \<Rightarrow> dict_get (vq_queues q) (tq_simulated_order_id tk) = Some tk
         \<and> tracker_key tk = (symbol_id, d, p)"
proof -
  have ok: "dict_ok (vq_queues q)" using tracked_midD(1) queue_invD(4) [OF inv] by (auto simp: tracked_def)
  have mem: "tk \<in> set (dict_values (vq_queues q)) \<longleftrightarrow>
      dict_get (vq_queues q) (tq_simulated_order_id tk) = Some tk" for tk
    using dict_values_iff [OF ok] tracker_order [OF inv] by metis
  let ?res = "List.find (\<lambda>tk. tracker_key tk = (symbol_id, d, p)) (dict_values (vq_queues q))"
  have "matching_queue_loop symbol_id d p m (dict_values (vq_queues q)) = Inr ?res"
  proof (rule matching_queue_loop_ok)
    fix tk
    assume "tk \<in> set (dict_values (vq_queues q))"
    then have "dict_get (vq_queues q) (tq_simulated_order_id tk) = Some tk" using mem by simp
    then show "\<exists>s. sm_order m (tq_simulated_order_id tk) = Inr s \<and> EXPOSED_STATES (so_state s)"
      by (rule tracker_order [OF inv]) blast
  qed
  then have "matching_queue symbol_id d p (m, q) = (Inr ?res, (m, q))" by (simp add: matching_queue_def)
  moreover have "case ?res of
       None \<Rightarrow> \<forall>i tk. dict_get (vq_queues q) i = Some tk \<longrightarrow> tracker_key tk \<noteq> (symbol_id, d, p)
     | Some tk \<Rightarrow> dict_get (vq_queues q) (tq_simulated_order_id tk) = Some tk
         \<and> tracker_key tk = (symbol_id, d, p)"
  proof (cases ?res)
    case None
    have "tracker_key tk \<noteq> (symbol_id, d, p)" if "dict_get (vq_queues q) i = Some tk" for i tk
      using find_None_all [OF None, of tk] that dict_values_iff [OF ok] by blast
    with None show ?thesis by simp
  next
    case (Some tk)
    with find_Some_iff [OF Some] mem show ?thesis by simp
  qed
  ultimately show ?thesis by (rule that)
qed

lemma queue_total_ok:
  assumes "levels_inv q" "ahead_ok q tk"
  shows "queue_total tk = Inr (ahead_sum (tq_ahead tk))" "0 \<le> ahead_sum (tq_ahead tk)"
    "ahead_sum (tq_ahead tk) = 0 \<longleftrightarrow> tq_ahead tk = []"
proof -
  have ok: "dict_ok (tq_ahead tk)" by (rule ahead_okD(1) [OF assms(2)])
  have pos: "1 \<le> x" if mem: "x \<in> set (dict_values (tq_ahead tk))" for x
  proof -
    obtain r where "dict_get (tq_ahead tk) r = Some x" using mem dict_values_iff [OF ok, of x] by blast
    then have "dict_get (level_at q (tracker_key tk)) r = Some x" by (rule ahead_okD(2) [OF assms(2)])
    then have "x \<in> set (dict_values (level_at q (tracker_key tk)))"
      using dict_values_iff [OF level_at_ok [OF assms(1)], of x] by blast
    then show ?thesis by (rule level_values_pos [OF assms(1)])
  qed
  have nn: "0 \<le> x" if "x \<in> set (dict_values (tq_ahead tk))" for x using pos [OF that] by simp
  have le: "ahead_sum (tq_ahead tk) \<le> MAX_UINT64" using ahead_okD(3,4) [OF assms(2)] by simp
  with total_loop_eq [of "dict_values (tq_ahead tk)" 0] nn
  show "queue_total tk = Inr (ahead_sum (tq_ahead tk))"
    by (simp add: queue_total_def ahead_sum_values MAX_UINT64_def)
  show "0 \<le> ahead_sum (tq_ahead tk)"
    unfolding ahead_sum_values by (rule sum_list_nonneg) (rule nn)
  show "ahead_sum (tq_ahead tk) = 0 \<longleftrightarrow> tq_ahead tk = []"
  proof (cases "tq_ahead tk")
    case Nil
    then show ?thesis by simp
  next
    case (Cons p d)
    have "1 \<le> snd p" using pos [of "snd p"] Cons by (simp add: dict_values_def)
    moreover have "0 \<le> sum_list (dict_values d)"
      by (rule sum_list_nonneg) (use nn Cons in \<open>auto simp: dict_values_def\<close>)
    ultimately show ?thesis using Cons by (simp add: ahead_sum_values dict_values_def)
  qed
qed

section \<open>Changing one reference\<close>

definition visible :: "visible_queue_model \<Rightarrow> int \<Rightarrow> visible_order option" where
  "visible q = dict_get (vq_visible_orders q)"

text \<open>
  How a tracker evolves: it keeps its order's price and the quantity recorded at activation, and
  a reference stays ahead exactly as long as it stays visible. \<open>ahead_kept\<close> says so of every
  tracker that is left; trackers may go, but no new one appears.
\<close>

definition ahead_from :: "tracked_queue \<Rightarrow> tracked_queue \<Rightarrow> visible_queue_model \<Rightarrow> bool" where
  "ahead_from tk tk' q' \<longleftrightarrow> tracker_key tk' = tracker_key tk
     \<and> tq_initial_quantity tk' = tq_initial_quantity tk
     \<and> (\<forall>r. has_key (tq_ahead tk') r \<longleftrightarrow> has_key (tq_ahead tk) r \<and> visible q' r \<noteq> None)"

definition ahead_kept :: "visible_queue_model \<Rightarrow> visible_queue_model \<Rightarrow> bool" where
  "ahead_kept q q' \<longleftrightarrow> (\<forall>i tk'. dict_get (vq_queues q') i = Some tk' \<longrightarrow>
     (\<exists>tk. dict_get (vq_queues q) i = Some tk \<and> ahead_from tk tk' q'))"

lemma ahead_keptI:
  "(\<And>i tk'. dict_get (vq_queues q') i = Some tk' \<Longrightarrow>
     \<exists>tk. dict_get (vq_queues q) i = Some tk \<and> ahead_from tk tk' q') \<Longrightarrow> ahead_kept q q'"
  by (simp add: ahead_kept_def)

lemma ahead_keptD: "ahead_kept q q' \<Longrightarrow> dict_get (vq_queues q') i = Some tk' \<Longrightarrow>
    \<exists>tk. dict_get (vq_queues q) i = Some tk \<and> ahead_from tk tk' q'"
  by (simp add: ahead_kept_def)

lemma ahead_visible:
  assumes "queue_inv (m, q)" "dict_get (vq_queues q) i = Some tk" "has_key (tq_ahead tk) r"
  shows "visible q r \<noteq> None"
  using tracker_visible [OF assms(1,2)] assms(3) by (force simp: has_key_iff visible_def)

lemma ahead_kept_queues:
  assumes "vq_queues q' = vq_queues q"
    "\<And>i tk r. dict_get (vq_queues q) i = Some tk \<Longrightarrow> has_key (tq_ahead tk) r \<Longrightarrow> visible q' r \<noteq> None"
  shows "ahead_kept q q'"
  by (rule ahead_keptI) (use assms in \<open>auto simp: ahead_from_def\<close>)

lemma ahead_kept_mono:
  assumes "ahead_kept q q1"
    and "\<And>i tk. dict_get (vq_queues q2) i = Some tk \<Longrightarrow> dict_get (vq_queues q1) i = Some tk"
    and "\<And>i tk r. dict_get (vq_queues q) i = Some tk \<Longrightarrow> has_key (tq_ahead tk) r \<Longrightarrow>
      visible q2 r = None \<longleftrightarrow> visible q1 r = None"
  shows "ahead_kept q q2"
proof (rule ahead_keptI)
  fix i tk'
  assume "dict_get (vq_queues q2) i = Some tk'"
  then obtain tk where tk: "dict_get (vq_queues q) i = Some tk" "ahead_from tk tk' q1"
    using ahead_keptD [OF assms(1) assms(2)] by blast
  with assms(3) have "ahead_from tk tk' q2" unfolding ahead_from_def by metis
  with tk(1) show "\<exists>tk. dict_get (vq_queues q) i = Some tk \<and> ahead_from tk tk' q2" by blast
qed

lemma ahead_kept_before:
  "vq_queues q1 = vq_queues q \<Longrightarrow> ahead_kept q1 q2 \<Longrightarrow> ahead_kept q q2"
  by (simp add: ahead_kept_def)

definition other_refs :: "visible_queue_model \<Rightarrow> visible_queue_model \<Rightarrow> int \<Rightarrow> bool" where
  "other_refs q q' r \<longleftrightarrow> (\<forall>k j. j \<noteq> r \<longrightarrow> dict_get (level_at q' k) j = dict_get (level_at q k) j)"

lemma other_refsD: "other_refs q q' r \<Longrightarrow> j \<noteq> r \<Longrightarrow> dict_get (level_at q' k) j = dict_get (level_at q k) j"
  unfolding other_refs_def by blast

lemma option_eqI: "(\<And>x. a = Some x \<longleftrightarrow> b = Some x) \<Longrightarrow> a = b"
  by (cases a; cases b) auto

lemma other_refsI:
  assumes "levels_inv q" "levels_inv q'" "\<And>j. j \<noteq> r \<Longrightarrow> visible q' j = visible q j"
  shows "other_refs q q' r"
  unfolding other_refs_def
proof (intro allI impI option_eqI)
  fix k j x
  assume "j \<noteq> r"
  then have "dict_get (vq_visible_orders q') j = dict_get (vq_visible_orders q) j"
    using assms(3) by (simp add: visible_def)
  then show "dict_get (level_at q' k) j = Some x \<longleftrightarrow> dict_get (level_at q k) j = Some x"
    unfolding levels_inv_level_iff [OF assms(1)] levels_inv_level_iff [OF assms(2)] by simp
qed

lemma ahead_ok_other:
  assumes "ahead_ok q tk" "other_refs q q' r" "\<not> has_key (tq_ahead tk) r"
  shows "ahead_ok q' tk"
  unfolding ahead_ok_def
proof (intro conjI allI impI)
  fix j x
  assume j: "dict_get (tq_ahead tk) j = Some x"
  with assms(3) have "j \<noteq> r" by (auto simp: has_key_iff)
  with ahead_okD(2) [OF assms(1) j] show "dict_get (level_at q' (tracker_key tk)) j = Some x"
    by (simp add: other_refsD [OF assms(2)])
qed (use ahead_okD [OF assms(1)] in simp_all)

lemma tracked_frame:
  assumes tr: "tracked od q" and other: "other_refs q q' r" and queues: "vq_queues q' = vq_queues q"
    and free: "\<And>i tk. dict_get (vq_queues q) i = Some tk \<Longrightarrow> \<not> has_key (tq_ahead tk) r"
  shows "tracked od q'"
proof -
  note tr' = tr [unfolded tracked_def]
  show ?thesis
    unfolding tracked_def
  proof (rule tracked_midI)
    fix i tk
    assume "dict_get (vq_queues q') i = Some tk"
    then have i: "dict_get (vq_queues q) i = Some tk" by (simp add: queues)
    from tracked_midD(3,4) [OF tr' i] ahead_ok_other [OF tracked_midD(2) [OF tr' i] other free [OF i]]
    show "ahead_ok q' tk \<and> tq_simulated_order_id tk = i
        \<and> (\<exists>s. dict_get od i = Some s \<and> (EXPOSED_STATES (so_state s) \<longrightarrow> tracks s tk)
             \<and> (EXPOSED_STATES (so_state s) \<or> i \<in> ended_in []))" by simp
  qed (use tracked_midD(1,5) [OF tr'] queues in \<open>auto simp: has_key_iff\<close>)
qed

lemma tracked_update:
  assumes tr: "tracked od q" and tk: "dict_get (vq_queues q) i = Some tk"
    and queues: "vq_queues q' = dict_set i (tk\<lparr>tq_ahead := A\<rparr>) (vq_queues q)"
    and other: "other_refs q q' r"
    and free: "\<And>j tk'. dict_get (vq_queues q) j = Some tk' \<Longrightarrow> j \<noteq> i \<Longrightarrow> \<not> has_key (tq_ahead tk') r"
    and A: "dict_ok A" "\<And>j x. j \<noteq> r \<Longrightarrow> dict_get A j = Some x \<Longrightarrow> dict_get (tq_ahead tk) j = Some x"
      "\<And>x. dict_get A r = Some x \<Longrightarrow> dict_get (level_at q' (tracker_key tk)) r = Some x"
      "ahead_sum A \<le> ahead_sum (tq_ahead tk)"
  shows "tracked od q'"
proof -
  note tr' = tr [unfolded tracked_def]
  note ok = tracked_midD(2) [OF tr' tk]
  have new: "ahead_ok q' (tk\<lparr>tq_ahead := A\<rparr>)"
    unfolding ahead_ok_def
  proof (intro conjI allI impI)
    have key: "tracker_key (tk\<lparr>tq_ahead := A\<rparr>) = tracker_key tk" by (simp add: tracker_key_def)
    fix j x
    assume j: "dict_get (tq_ahead (tk\<lparr>tq_ahead := A\<rparr>)) j = Some x"
    show "dict_get (level_at q' (tracker_key (tk\<lparr>tq_ahead := A\<rparr>))) j = Some x"
    proof (cases "j = r")
      case True
      with A(3) j key show ?thesis by simp
    next
      case False
      then have "dict_get (tq_ahead tk) j = Some x" using A(2) j by simp
      from ahead_okD(2) [OF ok this] False key show ?thesis by (simp add: other_refsD [OF other])
    qed
  qed (use A(1,4) ahead_okD(3,4) [OF ok] in simp_all)
  show ?thesis
    unfolding tracked_def
  proof (rule tracked_midI)
    show "dict_ok (vq_queues q')" using tracked_midD(1) [OF tr'] queues by simp
    fix j
    show "has_key (vq_queues q') j" if "dict_get od j = Some s" "EXPOSED_STATES (so_state s)" for s
      using tracked_midD(5) [OF tr' that] queues by (auto simp: has_key_def)
    fix u
    assume u: "dict_get (vq_queues q') j = Some u"
    show "ahead_ok q' u \<and> tq_simulated_order_id u = j
        \<and> (\<exists>s. dict_get od j = Some s \<and> (EXPOSED_STATES (so_state s) \<longrightarrow> tracks s u)
             \<and> (EXPOSED_STATES (so_state s) \<or> j \<in> ended_in []))"
    proof (cases "j = i")
      case True
      with u queues have "u = tk\<lparr>tq_ahead := A\<rparr>" by simp
      with new True tracked_midD(3,4) [OF tr' tk] show ?thesis by (simp add: tracks_def)
    next
      case False
      with u queues have j: "dict_get (vq_queues q) j = Some u" by simp
      from tracked_midD(3,4) [OF tr' j] ahead_ok_other [OF tracked_midD(2) [OF tr' j] other free [OF j False]]
      show ?thesis by simp
    qed
  qed simp
qed

text \<open>
  Reducing a visible order by \<open>x\<close> reduces the quantity ahead of the one order behind it, if
  there is one, by the same amount, and the code's check on that never fails.
\<close>

definition reduced :: "int \<Rightarrow> visible_order \<Rightarrow> visible_order option" where
  "reduced x v = (if x = vo_remaining_quantity v then None
     else Some (v\<lparr>vo_remaining_quantity := vo_remaining_quantity v - x\<rparr>))"

lemma level_at_visible:
  assumes "levels_inv q" "visible q r = Some v"
  shows "dict_get (level_at q (level_key v)) r = Some (vo_remaining_quantity v)"
  using levels_inv_visible(2) [OF assms(1)] assms(2) by (simp add: visible_def)

lemma reduce_ahead:
  assumes inv: "queue_inv (m, q)" and v: "visible q r = Some v" and x: "1 \<le> x" "x \<le> vo_remaining_quantity v"
    and q1: "book_inv q1" "rest_same q q1" "visible q1 = (visible q)(r := reduced x v)"
    and tk: "dict_get (vq_queues q) (tq_simulated_order_id tk) = Some tk" "has_key (tq_ahead tk) r"
  defines "A \<equiv> (if x = vo_remaining_quantity v then dict_del r (tq_ahead tk)
    else dict_set r (vo_remaining_quantity v - x) (tq_ahead tk))"
  shows "decrement_ahead tk r x q1 = (Inr (), set_ahead tk A q1)"
    and "x = vo_remaining_quantity v \<Longrightarrow> delete_ahead tk r q1 = (Inr (), set_ahead tk A q1)"
    and "queue_inv (m, set_ahead tk A q1)" "ahead_kept q (set_ahead tk A q1)"
proof -
  obtain y where y: "dict_get (tq_ahead tk) r = Some y" using tk(2) by (auto simp: has_key_iff)
  obtain u where "visible q r = Some u" "level_key u = tracker_key tk" "vo_remaining_quantity u = y"
    using tracker_visible [OF inv tk(1) y] by (auto simp: visible_def)
  with v have key: "level_key v = tracker_key tk" and yv: "y = vo_remaining_quantity v" by simp_all
  show "decrement_ahead tk r x q1 = (Inr (), set_ahead tk A q1)"
    using y yv x by (simp add: decrement_ahead_def A_def)
  show "x = vo_remaining_quantity v \<Longrightarrow> delete_ahead tk r q1 = (Inr (), set_ahead tk A q1)"
    using tk(2) by (simp add: delete_ahead_def A_def)
  let ?q' = "set_ahead tk A q1"
  have tr: "tracked (sm_orders m) q" by (rule queue_invD(4) [OF inv])
  have ok: "dict_ok (tq_ahead tk)"
    using tracked_midD(2) [OF tr [unfolded tracked_def] tk(1)] by (rule ahead_okD(1))
  have book: "book_inv ?q'" by (rule book_inv_frame [OF q1(1)]) (simp_all add: set_ahead_def)
  have vis: "visible ?q' = (visible q)(r := reduced x v)"
    using q1(3) by (simp add: visible_def set_ahead_def)
  have lev': "levels_inv ?q'" using book by (simp add: book_inv_def)
  have "tracked (sm_orders m) ?q'"
  proof (rule tracked_update [OF tr tk(1), where A = A and r = r])
    show "vq_queues ?q' = dict_set (tq_simulated_order_id tk) (tk\<lparr>tq_ahead := A\<rparr>) (vq_queues q)"
      using q1(2) by (simp add: set_ahead_def rest_same_def)
    show "other_refs q ?q' r"
      by (rule other_refsI [OF queue_invD(3) [OF inv] lev']) (simp add: vis)
    show "\<not> has_key (tq_ahead tk') r"
      if "dict_get (vq_queues q) j = Some tk'" "j \<noteq> tq_simulated_order_id tk" for j tk'
      using containing_unique [OF inv that(1) tk(1)] tk(2) that(2) by blast
    show "dict_ok A" using ok by (simp add: A_def)
    show "dict_get (tq_ahead tk) j = Some z" if "j \<noteq> r" "dict_get A j = Some z" for j z
      using that by (simp add: A_def split: if_splits)
    show "dict_get (level_at ?q' (tracker_key tk)) r = Some z" if "dict_get A r = Some z" for z
    proof -
      let ?v = "v\<lparr>vo_remaining_quantity := vo_remaining_quantity v - x\<rparr>"
      have "x \<noteq> vo_remaining_quantity v" "z = vo_remaining_quantity v - x"
        using that by (simp_all add: A_def split: if_splits)
      moreover from this have "visible ?q' r = Some ?v" by (simp add: vis reduced_def)
      moreover have "level_key ?v = tracker_key tk" using key by (simp add: level_key_def)
      ultimately show ?thesis using level_at_visible [OF lev', of r ?v] by simp
    qed
    show "ahead_sum A \<le> ahead_sum (tq_ahead tk)"
      using ok y yv x by (auto simp: A_def dict_sum_set dict_sum_del)
  qed
  then show "queue_inv (m, ?q')" using book queue_invD(1) [OF inv] by (simp add: queue_inv_def)
  have queues: "vq_queues ?q' = dict_set (tq_simulated_order_id tk) (tk\<lparr>tq_ahead := A\<rparr>) (vq_queues q)"
    using q1(2) by (simp add: set_ahead_def rest_same_def)
  have own: "ahead_from tk (tk\<lparr>tq_ahead := A\<rparr>) ?q'"
    unfolding ahead_from_def vis
    using tk(2) ahead_visible [OF inv tk(1)]
    by (auto simp: reduced_def A_def has_key_def tracker_key_def)
  have rest: "ahead_from tk' tk' ?q'"
    if "dict_get (vq_queues q) j = Some tk'" "j \<noteq> tq_simulated_order_id tk" for j tk'
    using containing_unique [OF inv that(1) tk(1) _ tk(2)] that(2) ahead_visible [OF inv that(1)]
    by (auto simp: ahead_from_def vis)
  show "ahead_kept q ?q'"
    by (rule ahead_keptI) (use own rest tk(1) in \<open>auto simp: queues split: if_splits\<close>)
qed

lemma reduce_free:
  assumes inv: "queue_inv (m, q)"
    and q1: "book_inv q1" "rest_same q q1" "\<And>j. j \<noteq> r \<Longrightarrow> visible q1 j = visible q j"
    and free: "\<And>i tk. dict_get (vq_queues q) i = Some tk \<Longrightarrow> \<not> has_key (tq_ahead tk) r"
  shows "queue_inv (m, q1)" and "ahead_kept q q1"
proof -
  have "other_refs q q1 r"
    by (rule other_refsI [OF queue_invD(3) [OF inv] _ q1(3)]) (use q1(1) in \<open>simp add: book_inv_def\<close>)
  moreover have queues: "vq_queues q1 = vq_queues q" using q1(2) by (simp add: rest_same_def)
  ultimately have "tracked (sm_orders m) q1"
    by (rule tracked_frame [OF queue_invD(4) [OF inv] _ _ free])
  with q1(1) queue_invD(1) [OF inv] show "queue_inv (m, q1)" by (simp add: queue_inv_def)
  show "ahead_kept q q1"
    by (rule ahead_kept_queues [OF queues]) (use q1(3) free ahead_visible [OF inv] in metis)
qed

lemma queue_containing_rest: "rest_same q q' \<Longrightarrow> queue_containing q' r = queue_containing q r"
  by (simp add: rest_same_def queue_containing_def)

section \<open>Anomalies\<close>

definition diag_inv :: "visible_queue_model \<Rightarrow> bool" where
  "diag_inv q \<longleftrightarrow>
     vq_anomaly_count q = int (length (filter (\<lambda>d. qd_code d = EVENT_SKIPPED) (vq_diagnostics q)))
   \<and> vq_anomaly_count q \<le> vq_max_queue_anomalies q"

definition budget_error :: "market_event \<Rightarrow> visible_queue_model \<Rightarrow> sim_error \<Rightarrow> bool" where
  "budget_error ev q e \<longleftrightarrow> vq_max_queue_anomalies q \<le> vq_anomaly_count q
     \<and> (\<exists>i. e = SimulationError ERR_SIMULATION_ANOMALY i (Some (me_message_index ev)))"

text \<open>What recording diagnostics leaves alone, and how the log grows.\<close>

definition diagnosed :: "visible_queue_model \<Rightarrow> visible_queue_model \<Rightarrow> bool" where
  "diagnosed q q' \<longleftrightarrow> vq_visible_orders q' = vq_visible_orders q
   \<and> vq_visible_levels q' = vq_visible_levels q \<and> vq_price_heaps q' = vq_price_heaps q
   \<and> vq_heap_prices q' = vq_heap_prices q \<and> vq_queues q' = vq_queues q
   \<and> vq_used_fill_matches q' = vq_used_fill_matches q
   \<and> vq_max_queue_anomalies q' = vq_max_queue_anomalies q \<and> (diag_inv q \<longrightarrow> diag_inv q')"

lemma record_anomaly_ok:
  assumes "record_anomaly ev reason oid q = (r, q')"
  shows "case r of Inl e \<Rightarrow> budget_error ev q e | Inr _ \<Rightarrow> diagnosed q q'"
  using assms
  by (auto simp: record_anomaly_def add_diagnostic_def Let_def budget_error_def diagnosed_def diag_inv_def
      split: if_splits)

lemma diagnosed_inv:
  assumes "queue_inv (m, q)" "diagnosed q q'"
  shows "queue_inv (m, q')"
proof -
  have "book_inv q'"
    by (rule book_inv_frame [OF queue_invD(2) [OF assms(1)]]) (use assms(2) in \<open>simp_all add: diagnosed_def\<close>)
  moreover have "ahead_ok q' tk \<longleftrightarrow> ahead_ok q tk" for tk
    by (rule ahead_ok_levels) (use assms(2) in \<open>simp add: diagnosed_def\<close>)
  then have "tracked_mid (sm_orders m) q' [] \<longleftrightarrow> tracked_mid (sm_orders m) q []"
    using assms(2) unfolding tracked_mid_def diagnosed_def by simp
  ultimately show ?thesis using assms(1) by (simp add: queue_inv_def tracked_def)
qed

lemma diagnosed_kept: "queue_inv (m, q) \<Longrightarrow> diagnosed q q' \<Longrightarrow> ahead_kept q q'"
  by (rule ahead_kept_queues) (use ahead_visible in \<open>auto simp: diagnosed_def visible_def\<close>)

section \<open>The book's specification\<close>

text \<open>
  The visible book as a map from references to orders: what each event does to it, or \<open>None\<close>
  for an event that cannot be applied.
\<close>

definition names_order :: "market_event \<Rightarrow> visible_order \<Rightarrow> bool" where
  "names_order ev v \<longleftrightarrow> vo_symbol_id v = me_symbol_id ev \<and> me_side ev = Some (vo_side v)
     \<and> me_price4 ev = Some (vo_price4 v)"

definition reduces :: "market_event \<Rightarrow> visible_order \<Rightarrow> bool" where
  "reduces ev v \<longleftrightarrow> names_order ev v \<and> cast_int (me_quantity ev) \<le> vo_remaining_quantity v
     \<and> me_remaining_quantity ev = Some (vo_remaining_quantity v - cast_int (me_quantity ev))"

definition book_step ::
  "market_event \<Rightarrow> (int \<Rightarrow> visible_order option) \<Rightarrow> (int \<Rightarrow> visible_order option) option" where
  "book_step ev B = (
     let r = cast_int (me_primary_reference ev); r' = cast_int (me_secondary_reference ev);
         reduction = (case B r of
             None \<Rightarrow> None
           | Some v \<Rightarrow> if reduces ev v then Some (B(r := reduced (cast_int (me_quantity ev)) v)) else None)
     in case me_event_kind ev of
       ADD \<Rightarrow> if B r = None then Some (B(r := Some (visible_of r ev))) else None
     | EXECUTE \<Rightarrow> reduction
     | EXECUTE_PRICE \<Rightarrow> reduction
     | CANCEL_EVENT \<Rightarrow> reduction
     | DELETE \<Rightarrow> (case B r of
           None \<Rightarrow> None
         | Some v \<Rightarrow> if names_order ev v \<and> me_quantity ev = Some (vo_remaining_quantity v)
             then Some (B(r := None)) else None)
     | REPLACE \<Rightarrow> (case B r of
           None \<Rightarrow> None
         | Some v \<Rightarrow> if r' \<noteq> r \<and> B r' = None \<and> vo_symbol_id v = me_symbol_id ev
               \<and> me_side ev = Some (vo_side v)
             then Some (B(r := None, r' := Some (visible_of r' ev))) else None)
     | _ \<Rightarrow> None)"

definition next_book :: "market_event \<Rightarrow> visible_queue_model \<Rightarrow> int \<Rightarrow> visible_order option" where
  "next_book ev q = (case book_step ev (visible q) of None \<Rightarrow> visible q | Some B \<Rightarrow> B)"

text \<open>What an operation on the queue model alone may do.\<close>

definition book_result ::
  "order_state_machine \<Rightarrow> market_event \<Rightarrow> visible_queue_model \<Rightarrow> bool result \<Rightarrow> visible_queue_model \<Rightarrow> bool"
where
  "book_result m ev q r q' \<longleftrightarrow> (case r of
       Inl e \<Rightarrow> budget_error ev q e
     | Inr applied \<Rightarrow> queue_inv (m, q') \<and> visible q' = next_book ev q \<and> ahead_kept q q'
         \<and> (applied \<longleftrightarrow> book_step ev (visible q) \<noteq> None)
         \<and> vq_used_fill_matches q' = vq_used_fill_matches q
         \<and> vq_max_queue_anomalies q' = vq_max_queue_anomalies q \<and> (diag_inv q \<longrightarrow> diag_inv q'))"

lemma cast_int_simps [simp]: "cast_int (Some x) = x"
  by (simp add: cast_int_def)

lemma diagnosed_visible: "diagnosed q q' \<Longrightarrow> visible q' = visible q"
  by (simp add: diagnosed_def visible_def)

lemma skipped_ok:
  assumes "queue_inv (m, q)" "book_step ev (visible q) = None"
    "bindM (record_anomaly ev reason oid) (\<lambda>_. returnM False) q = (r, q')"
  shows "book_result m ev q r q'"
proof -
  obtain r0 q0 where r: "record_anomaly ev reason oid q = (r0, q0)"
    by (cases "record_anomaly ev reason oid q")
  note k = record_anomaly_ok [OF r]
  show ?thesis
  proof (cases r0)
    case (Inl e)
    with r k assms(3) show ?thesis by (auto simp: bindM_def book_result_def)
  next
    case (Inr u)
    with r assms(3) have "r = Inr False" "q' = q0" by (simp_all add: bindM_def)
    with Inr k diagnosed_inv [OF assms(1)] diagnosed_kept [OF assms(1)] assms(2) show ?thesis
      by (simp add: book_result_def next_book_def diagnosed_visible) (simp add: diagnosed_def)
  qed
qed

lemma visible_ok_get: "queue_inv (m, q) \<Longrightarrow> visible q r = Some v \<Longrightarrow> visible_ok r v"
  using levels_inv_visible(1) [OF queue_invD(3)] by (simp add: visible_def)

lemma event_wf_fields:
  assumes "event_wf ev" "lifecycle_kind (me_event_kind ev)"
  obtains r d p x y where "me_primary_reference ev = Some r" "me_side ev = Some d" "me_price4 ev = Some p"
    "me_quantity ev = Some x" "me_remaining_quantity ev = Some y" "d = -1 \<or> d = 1" "1 \<le> x" "x \<le> MAX_UINT64"
  using assms by (auto simp: event_wf_def has_def)

lemma inserted_ok:
  assumes inv: "queue_inv (m, q)" and new: "visible q r = None" and ev: "event_wf ev"
    "lifecycle_kind (me_event_kind ev)"
  defines "q' \<equiv> insert_visible_order (visible_of r ev) q"
  shows "queue_inv (m, q')" "visible q' = (visible q)(r := Some (visible_of r ev))" "rest_same q q'"
    "ahead_kept q q'"
proof -
  let ?v = "visible_of r ev"
  have ok: "visible_ok (vo_reference ?v) ?v"
    using ev by (rule event_wf_fields) (simp add: visible_of_def visible_ok_def)
  have ref: "vo_reference ?v = r" by (simp add: visible_of_def)
  have abs: "dict_get (vq_visible_orders q) (vo_reference ?v) = None"
    using new by (simp add: ref visible_def)
  note ins = insert_visible_order_ok [OF queue_invD(2) [OF inv] abs ok, folded q'_def]
  show vis: "visible q' = (visible q)(r := Some ?v)"
    by (rule ext) (simp add: visible_def ins(3) ref)
  show same: "rest_same q q'" by (rule ins(2))
  show "ahead_kept q q'"
    by (rule ahead_kept_queues)
      (use same ahead_visible [OF inv] in \<open>auto simp: rest_same_def vis\<close>)
  show "queue_inv (m, q')"
  proof (rule reduce_free [OF inv ins(1,2), where r = r])
    fix i tk
    assume tk: "dict_get (vq_queues q) i = Some tk"
    show "\<not> has_key (tq_ahead tk) r"
      using tracker_visible [OF inv tk, of r] new
      by (cases "dict_get (tq_ahead tk) r") (auto simp: has_key_def visible_def)
  qed (simp add: vis)
qed

lemma apply_add_ok:
  assumes inv: "queue_inv (m, q)" and ev: "event_wf ev" "me_event_kind ev = ADD"
    and run: "apply_add ev q = (r, q')"
  shows "book_result m ev q r q'"
proof (cases "visible q (cast_int (me_primary_reference ev))")
  case None
  with run have "r = Inr True" "q' = insert_visible_order (visible_of (cast_int (me_primary_reference ev)) ev) q"
    by (simp_all add: apply_add_def Let_def has_key_def visible_def)
  with inserted_ok [OF inv None ev(1)] ev(2) None show ?thesis
    by (simp add: book_result_def next_book_def book_step_def lifecycle_kind_def rest_same_def diag_inv_def
        Let_def)
next
  case (Some v)
  with run have "skip_event ev DUPLICATE_REFERENCE q = (r, q')"
    by (simp add: apply_add_def Let_def has_key_def visible_def)
  with skipped_ok [OF inv] Some ev(2) show ?thesis by (simp add: skip_event_def book_step_def Let_def)
qed

text \<open>The lookup that starts an execution, a cancel or a delete.\<close>

lemma validated_existing_order_ok:
  assumes "validated_existing_order ev q = (r, q')"
  shows "(case r of
      Inl e \<Rightarrow> budget_error ev q e
    | Inr None \<Rightarrow> diagnosed q q' \<and>
        (\<forall>v. visible q (cast_int (me_primary_reference ev)) = Some v \<longrightarrow> \<not> names_order ev v)
    | Inr (Some v) \<Rightarrow> q' = q \<and> visible q (cast_int (me_primary_reference ev)) = Some v \<and> names_order ev v)"
proof -
  have skip: "case r of Inl e \<Rightarrow> budget_error ev q e | Inr x \<Rightarrow> x = None \<and> diagnosed q q'"
    if "bindM (record_anomaly ev reason None) (\<lambda>_. returnM None) q = (r, q')" for reason
    using that record_anomaly_ok [of ev reason None q]
    by (cases "record_anomaly ev reason None q"; cases "fst (record_anomaly ev reason None q)")
      (auto simp: bindM_def)
  show ?thesis
  proof (cases "visible q (cast_int (me_primary_reference ev))")
    case None
    with assms have "bindM (record_anomaly ev MISSING_REFERENCE None) (\<lambda>_. returnM None) q = (r, q')"
      by (simp add: validated_existing_order_def visible_def)
    from skip [OF this] None show ?thesis by (cases r) auto
  next
    case (Some v)
    show ?thesis
    proof (cases "names_order ev v")
      case True
      with Some assms have "r = Inr (Some v)" "q' = q"
        by (auto simp: validated_existing_order_def visible_def names_order_def)
      with Some True show ?thesis by simp
    next
      case False
      with Some assms have "bindM (record_anomaly ev REFERENCE_MISMATCH None) (\<lambda>_. returnM None) q = (r, q')"
        by (auto simp: validated_existing_order_def visible_def names_order_def split: if_splits)
      from skip [OF this] Some False show ?thesis by (cases r) auto
    qed
  qed
qed

lemma decremented:
  assumes inv: "queue_inv (m, q)" and v: "visible q r = Some v" and x: "1 \<le> x" "x \<le> vo_remaining_quantity v"
  obtains q1 where "decrement_visible v x q = (Inr (), q1)" "book_inv q1" "rest_same q q1"
    "visible q1 = (visible q)(r := reduced x v)" "vo_reference v = r"
proof -
  have ref: "vo_reference v = r" using visible_ok_get [OF inv v] by (simp add: visible_ok_def)
  have get: "dict_get (vq_visible_orders q) (vo_reference v) = Some v" using v ref by (simp add: visible_def)
  show ?thesis
  proof (rule decrement_visible_ok [OF queue_invD(2) [OF inv] get x])
    fix q1
    assume q1: "decrement_visible v x q = (Inr (), q1)" "book_inv q1" "rest_same q q1"
      "vq_visible_orders q1 = (if x = vo_remaining_quantity v
         then dict_del (vo_reference v) (vq_visible_orders q)
         else dict_set (vo_reference v) (v\<lparr>vo_remaining_quantity := vo_remaining_quantity v - x\<rparr>)
           (vq_visible_orders q))"
    have "visible q1 = (visible q)(r := reduced x v)"
      by (rule ext) (simp add: visible_def q1(4) reduced_def ref)
    with q1 ref that show ?thesis by blast
  qed
qed

lemma removed:
  assumes inv: "queue_inv (m, q)" and v: "visible q r = Some v"
  obtains q1 where "remove_visible_order v q = (Inr (), q1)" "book_inv q1" "rest_same q q1"
    "visible q1 = (visible q)(r := None)" "vo_reference v = r" "1 \<le> vo_remaining_quantity v"
proof -
  have ok: "vo_reference v = r" "1 \<le> vo_remaining_quantity v"
    using visible_ok_get [OF inv v] by (simp_all add: visible_ok_def)
  from decremented [OF inv v ok(2) order_refl] obtain q1 where
    "decrement_visible v (vo_remaining_quantity v) q = (Inr (), q1)" "book_inv q1" "rest_same q q1"
    "visible q1 = (visible q)(r := reduced (vo_remaining_quantity v) v)" .
  with ok that show ?thesis by (simp add: decrement_visible_def reduced_def)
qed

text \<open>The same for the quantity behind the reference that changed.\<close>

lemma behind_decremented:
  assumes inv: "queue_inv (m, q)" and v: "visible q r = Some v" and x: "1 \<le> x" "x \<le> vo_remaining_quantity v"
    and q1: "book_inv q1" "rest_same q q1" "visible q1 = (visible q)(r := reduced x v)"
  obtains q2 where
    "(case queue_containing q1 r of None \<Rightarrow> (Inr True, q1)
      | Some tracker \<Rightarrow> bindM (decrement_ahead tracker r x) (\<lambda>_. returnM True) q1) = (Inr True, q2)"
    "x = vo_remaining_quantity v \<Longrightarrow>
     (case queue_containing q1 r of None \<Rightarrow> (Inr True, q1)
      | Some tracker \<Rightarrow> bindM (delete_ahead tracker r) (\<lambda>_. returnM True) q1) = (Inr True, q2)"
    "queue_inv (m, q2)" "visible q2 = visible q1" "log_same q1 q2" "ahead_kept q q2"
proof (cases "queue_containing q1 r")
  case None
  then have "queue_containing q r = None" using queue_containing_rest [OF q1(2)] by simp
  from queue_containing_None [OF inv this]
  have "queue_inv (m, q1)" "ahead_kept q q1"
    by (intro reduce_free [OF inv q1(1,2), where r = r]; simp add: q1(3))+
  with None that show ?thesis by simp
next
  case (Some tk)
  then have "queue_containing q r = Some tk" using queue_containing_rest [OF q1(2)] by simp
  note tk = queue_containing_Some [OF inv this]
  note red = reduce_ahead [OF inv v x q1 tk]
  let ?A = "if x = vo_remaining_quantity v then dict_del r (tq_ahead tk)
    else dict_set r (vo_remaining_quantity v - x) (tq_ahead tk)"
  show ?thesis
    by (rule that [of "set_ahead tk ?A q1"])
      (use red Some in \<open>simp_all add: bindM_def visible_def set_ahead_def log_same_def\<close>)
qed

lemma log_same_diag: "log_same q q' \<Longrightarrow> diag_inv q' = diag_inv q"
  by (simp add: log_same_def diag_inv_def)

lemma rest_same_log: "rest_same q q' \<Longrightarrow> diag_inv q' = diag_inv q \<and> vq_used_fill_matches q' = vq_used_fill_matches q
   \<and> vq_max_queue_anomalies q' = vq_max_queue_anomalies q"
  by (simp add: rest_same_def diag_inv_def)

text \<open>A lookup that failed ends the event as an anomaly.\<close>

lemma lookup_failed:
  assumes "queue_inv (m, q)" "validated_existing_order ev q = (r0, q0)" "\<And>v. r0 \<noteq> Inr (Some v)"
    and "me_event_kind ev = CANCEL_EVENT \<or> me_event_kind ev = DELETE"
    and "r = (case r0 of Inl e \<Rightarrow> Inl e | Inr _ \<Rightarrow> Inr False)"
  shows "book_result m ev q r q0"
proof (cases r0)
  case (Inl e)
  with validated_existing_order_ok [OF assms(2)] assms(5) show ?thesis by (simp add: book_result_def)
next
  case (Inr x)
  with assms(3) have "x = None" by (cases x) auto
  with Inr validated_existing_order_ok [OF assms(2)] have d: "diagnosed q q0" and
    no: "\<And>v. visible q (cast_int (me_primary_reference ev)) = Some v \<Longrightarrow> \<not> names_order ev v" by simp_all
  have "book_step ev (visible q) = None"
    using assms(4) no by (auto simp: book_step_def Let_def reduces_def split: option.splits)
  with Inr assms(5) d diagnosed_inv [OF assms(1) d] diagnosed_kept [OF assms(1) d] diagnosed_visible [OF d]
  show ?thesis
    by (simp add: book_result_def next_book_def) (simp add: diagnosed_def)
qed

lemma apply_cancel_ok:
  assumes inv: "queue_inv (m, q)" and ev: "event_wf ev" "me_event_kind ev = CANCEL_EVENT"
    and run: "apply_cancel ev q = (r, q')"
  shows "book_result m ev q r q'"
proof -
  let ?r = "cast_int (me_primary_reference ev)" and ?x = "cast_int (me_quantity ev)"
  obtain r0 q0 where lk: "validated_existing_order ev q = (r0, q0)"
    by (cases "validated_existing_order ev q")
  note k = validated_existing_order_ok [OF lk]
  show ?thesis
  proof (cases "\<exists>v. r0 = Inr (Some v)")
    case False
    with run lk have "r = (case r0 of Inl e \<Rightarrow> Inl e | Inr _ \<Rightarrow> Inr False)" "q' = q0"
      by (auto simp: apply_cancel_def bindM_def split: sum.splits option.splits)
    with lookup_failed [OF inv lk] False ev(2) show ?thesis by blast
  next
    case True
    then obtain v where r0: "r0 = Inr (Some v)" by blast
    with k have q0: "q0 = q" and v: "visible q ?r = Some v" and nm: "names_order ev v" by simp_all
    have x: "1 \<le> ?x" by (rule event_wf_fields [OF ev(1)]) (simp_all add: lifecycle_kind_def ev(2))
    show ?thesis
    proof (cases "reduces ev v")
      case False
      with run lk r0 q0 nm have "skip_event ev QUANTITY_MISMATCH q = (r, q')"
        by (auto simp: apply_cancel_def bindM_def reduces_def Let_def)
      then show ?thesis
        unfolding skip_event_def
        by (rule skipped_ok [OF inv, rotated]) (use v False ev(2) in \<open>simp add: book_step_def Let_def\<close>)
    next
      case red: True
      then have le: "?x \<le> vo_remaining_quantity v" by (simp add: reduces_def)
      obtain q1 where q1: "decrement_visible v ?x q = (Inr (), q1)" "book_inv q1" "rest_same q q1"
        "visible q1 = (visible q)(?r := reduced ?x v)" and ref: "vo_reference v = ?r"
        by (rule decremented [OF inv v x le])
      obtain q2 where q2: "(case queue_containing q1 ?r of None \<Rightarrow> (Inr True, q1)
        | Some tracker \<Rightarrow> bindM (decrement_ahead tracker ?r ?x) (\<lambda>_. returnM True) q1) = (Inr True, q2)"
        "queue_inv (m, q2)" "visible q2 = visible q1" "log_same q1 q2" "ahead_kept q q2"
        by (rule behind_decremented [OF inv v x le q1(2-4)])
      have "apply_cancel ev q = (Inr True, q2)"
        using lk r0 q0 red q1(1) q2(1) [folded ref] by (simp add: apply_cancel_def bindM_def reduces_def Let_def)
      with run have "r = Inr True" "q' = q2" by simp_all
      with q2 q1(4) v red ev(2) rest_same_log [OF q1(3)] log_same_diag [OF q2(4)] show ?thesis
        by (simp add: book_result_def next_book_def book_step_def Let_def log_same_def)
    qed
  qed
qed

lemma apply_delete_ok:
  assumes inv: "queue_inv (m, q)" and ev: "event_wf ev" "me_event_kind ev = DELETE"
    and run: "apply_delete ev q = (r, q')"
  shows "book_result m ev q r q'"
proof -
  let ?r = "cast_int (me_primary_reference ev)"
  obtain r0 q0 where lk: "validated_existing_order ev q = (r0, q0)"
    by (cases "validated_existing_order ev q")
  note k = validated_existing_order_ok [OF lk]
  show ?thesis
  proof (cases "\<exists>v. r0 = Inr (Some v)")
    case False
    with run lk have "r = (case r0 of Inl e \<Rightarrow> Inl e | Inr _ \<Rightarrow> Inr False)" "q' = q0"
      by (auto simp: apply_delete_def bindM_def split: sum.splits option.splits)
    with lookup_failed [OF inv lk] False ev(2) show ?thesis by blast
  next
    case True
    then obtain v where r0: "r0 = Inr (Some v)" by blast
    with k have q0: "q0 = q" and v: "visible q ?r = Some v" and nm: "names_order ev v" by simp_all
    show ?thesis
    proof (cases "me_quantity ev = Some (vo_remaining_quantity v)")
      case False
      with run lk r0 q0 have "skip_event ev QUANTITY_MISMATCH q = (r, q')"
        by (auto simp: apply_delete_def bindM_def Let_def)
      then show ?thesis
        unfolding skip_event_def
        by (rule skipped_ok [OF inv, rotated]) (use v False ev(2) in \<open>simp add: book_step_def Let_def\<close>)
    next
      case eq: True
      obtain q1 where q1: "remove_visible_order v q = (Inr (), q1)" "book_inv q1" "rest_same q q1"
        "visible q1 = (visible q)(?r := None)" and ref: "vo_reference v = ?r"
        and pos: "1 \<le> vo_remaining_quantity v"
        by (rule removed [OF inv v])
      have q1': "visible q1 = (visible q)(?r := reduced (vo_remaining_quantity v) v)"
        using q1(4) by (simp add: reduced_def)
      obtain q2 where q2: "(case queue_containing q1 ?r of None \<Rightarrow> (Inr True, q1)
        | Some tracker \<Rightarrow> bindM (delete_ahead tracker ?r) (\<lambda>_. returnM True) q1) = (Inr True, q2)"
        "queue_inv (m, q2)" "visible q2 = visible q1" "log_same q1 q2" "ahead_kept q q2"
        by (rule behind_decremented [OF inv v pos order_refl q1(2,3) q1']) simp
      have "apply_delete ev q = (Inr True, q2)"
        using lk r0 q0 eq q1(1) q2(1) [folded ref] by (simp add: apply_delete_def bindM_def Let_def)
      with run have "r = Inr True" "q' = q2" by simp_all
      with q2 q1(4) v eq nm ev(2) rest_same_log [OF q1(3)] log_same_diag [OF q2(4)] show ?thesis
        by (simp add: book_result_def next_book_def book_step_def Let_def log_same_def)
    qed
  qed
qed

lemma remove_set_ahead:
  "remove_visible_order v q = (Inr (), q1) \<Longrightarrow>
   remove_visible_order v (set_ahead tk A q) = (Inr (), set_ahead tk A q1)"
  by (auto simp: remove_visible_order_def set_ahead_def Let_def split: option.splits if_splits)

lemma apply_replace_ok:
  assumes inv: "queue_inv (m, q)" and ev: "event_wf ev" "me_event_kind ev = REPLACE"
    and run: "apply_replace ev q = (r, q')"
  shows "book_result m ev q r q'"
proof -
  let ?r = "cast_int (me_primary_reference ev)" and ?n = "cast_int (me_secondary_reference ev)"
  show ?thesis
  proof (cases "visible q ?r")
    case None
    with run have "skip_event ev MISSING_REFERENCE q = (r, q')"
      by (simp add: apply_replace_def visible_def)
    then show ?thesis
      unfolding skip_event_def
      by (rule skipped_ok [OF inv, rotated]) (use None ev(2) in \<open>simp add: book_step_def Let_def\<close>)
  next
    case (Some v)
    obtain q1 where q1: "remove_visible_order v q = (Inr (), q1)" "book_inv q1" "rest_same q q1"
      "visible q1 = (visible q)(?r := None)" and ref: "vo_reference v = ?r"
      and pos: "1 \<le> vo_remaining_quantity v"
      by (rule removed [OF inv Some])
    note run' = run [unfolded apply_replace_def, folded visible_def, unfolded Some option.case Let_def]
    show ?thesis
    proof (cases "?n \<noteq> ?r \<and> visible q ?n = None \<and> vo_symbol_id v = me_symbol_id ev \<and> me_side ev = Some (vo_side v)")
      case False
      then have "\<exists>reason. skip_event ev reason q = (r, q')"
        using run' ref by (auto simp: has_key_def visible_def split: if_splits)
      then obtain reason where "skip_event ev reason q = (r, q')" by blast
      then show ?thesis
        unfolding skip_event_def
        by (rule skipped_ok [OF inv, rotated]) (use Some False ev(2) in \<open>auto simp: book_step_def Let_def\<close>)
    next
      case True
      have "\<exists>q2. (case queue_containing q ?r of None \<Rightarrow> returnM ()
          | Some tracker \<Rightarrow> delete_ahead tracker ?r) q = (Inr (), q2)
        \<and> (\<exists>q3. remove_visible_order v q2 = (Inr (), q3) \<and> queue_inv (m, q3)
             \<and> visible q3 = (visible q)(?r := None) \<and> log_same q1 q3 \<and> ahead_kept q q3)"
      proof (cases "queue_containing q ?r")
        case None
        from queue_containing_None [OF inv None]
        have "queue_inv (m, q1)" "ahead_kept q q1"
          by (intro reduce_free [OF inv q1(2,3), where r = ?r]; simp add: q1(4))+
        with None q1 show ?thesis by simp
      next
        case (Some tk)
        note tk = queue_containing_Some [OF inv Some]
        have q1': "visible q1 = (visible q)(?r := reduced (vo_remaining_quantity v) v)"
          using q1(4) by (simp add: reduced_def)
        note red = reduce_ahead [OF inv \<open>visible q ?r = Some v\<close> pos order_refl q1(2,3) q1' tk]
        have "delete_ahead tk ?r q = (Inr (), set_ahead tk (dict_del ?r (tq_ahead tk)) q)"
          using tk(2) by (simp add: delete_ahead_def)
        with Some red(3,4) remove_set_ahead [OF q1(1)] q1(4) show ?thesis
          by (simp add: set_ahead_def visible_def log_same_def)
      qed
      then obtain q2 q3 where q23: "(case queue_containing q ?r of None \<Rightarrow> returnM ()
          | Some tracker \<Rightarrow> delete_ahead tracker ?r) q = (Inr (), q2)" "remove_visible_order v q2 = (Inr (), q3)"
        "queue_inv (m, q3)" "visible q3 = (visible q)(?r := None)" "log_same q1 q3" "ahead_kept q q3" by blast
      have new: "visible q3 ?n = None" using True q23(4) by simp
      note ins = inserted_ok [OF q23(3) new ev(1)]
      have kept: "ahead_kept q (insert_visible_order (visible_of ?n ev) q3)"
      proof (rule ahead_kept_mono [OF q23(6)])
        have kind: "lifecycle_kind (me_event_kind ev)" using ev(2) by (simp add: lifecycle_kind_def)
        show "dict_get (vq_queues q3) i = Some tk"
          if "dict_get (vq_queues (insert_visible_order (visible_of ?n ev) q3)) i = Some tk" for i tk
          using that ins(3) [OF kind] by (simp add: rest_same_def)
        fix i tk j
        assume "dict_get (vq_queues q) i = Some tk" "has_key (tq_ahead tk) j"
        from ahead_visible [OF inv this] True have "j \<noteq> ?n" by metis
        then show "visible (insert_visible_order (visible_of ?n ev) q3) j = None \<longleftrightarrow> visible q3 j = None"
          by (simp add: ins(2) [OF kind])
      qed
      have "r = Inr True \<and> q' = insert_visible_order (visible_of ?n ev) q3"
        using run' True ref q23(1) [folded ref] q23(2)
        by (auto simp: has_key_def visible_def bindM_def split: if_splits)
      then show ?thesis
        using ins kept True Some q23(4) ev(2) rest_same_log [OF q1(3)] log_same_diag [OF q23(5)] q23(5)
          rest_same_log [OF ins(3)]
        by (simp add: book_result_def next_book_def book_step_def Let_def log_same_def lifecycle_kind_def)
    qed
  qed
qed

section \<open>Executions\<close>

text \<open>
  A fill the model may record: the order at the execution's price and side, exposed and with
  nothing known ahead of it, for no more than the execution and its own remainder, on a match
  number not used before.
\<close>

definition fill_spec ::
  "market_event \<Rightarrow> order_state_machine \<Rightarrow> visible_queue_model \<Rightarrow> queue_fill \<Rightarrow> simulated_order \<Rightarrow> bool"
where
  "fill_spec ev m q fill s \<longleftrightarrow>
     dict_get (sm_orders m) (qf_simulated_order_id fill) = Some s \<and> EXPOSED_STATES (so_state s)
   \<and> so_symbol_id s = me_symbol_id ev \<and> me_side ev = Some (so_side s)
   \<and> me_price4 ev = Some (so_price4 s) \<and> qf_price4 fill = so_price4 s
   \<and> (\<exists>tk. dict_get (vq_queues q) (qf_simulated_order_id fill) = Some tk \<and> tq_ahead tk = [])
   \<and> qf_queue_ahead_before fill = 0 \<and> qf_queue_ahead_after fill = 0
   \<and> qf_quantity fill = min (cast_int (me_quantity ev)) (so_remaining_quantity s)
   \<and> 1 \<le> qf_quantity fill
   \<and> qf_remaining_quantity_after fill = so_remaining_quantity s - qf_quantity fill
   \<and> qf_match_number fill = cast_int (me_secondary_reference ev)
   \<and> \<not> has_key (vq_used_fill_matches q) (qf_match_number fill)
   \<and> qf_market_message_index fill = me_message_index ev \<and> qf_timestamp_ns fill = me_timestamp_ns ev"

definition filled_result ::
  "market_event \<Rightarrow> order_state_machine \<Rightarrow> visible_queue_model \<Rightarrow> (queue_fill \<times> order_transition) option
     \<Rightarrow> order_state_machine \<Rightarrow> visible_queue_model \<Rightarrow> bool" where
  "filled_result ev m q filled m' q' \<longleftrightarrow> (case filled of
       None \<Rightarrow> m' = m \<and> queue_inv (m, q') \<and> vq_used_fill_matches q' = vq_used_fill_matches q
     | Some (fill, tr) \<Rightarrow> \<exists>s. fill_spec ev m q fill s
         \<and> m' = put_order (filled_order s (qf_quantity fill) (me_timestamp_ns ev)) m
         \<and> tr = transition_of s (filled_order s (qf_quantity fill) (me_timestamp_ns ev))
             (if so_remaining_quantity s = qf_quantity fill then CAUSE_FILLED else CAUSE_PARTIAL_FILL)
             (me_timestamp_ns ev) (Some (me_message_index ev)) (Some (qf_quantity fill)) None
         \<and> sm_inv m' \<and> book_inv q' \<and> tracked_mid (sm_orders m') q' [tr]
         \<and> vq_used_fill_matches q' =
             dict_set (qf_match_number fill) (qf_simulated_order_id fill) (vq_used_fill_matches q))"

definition execution_result ::
  "market_event \<Rightarrow> order_state_machine \<Rightarrow> visible_queue_model
     \<Rightarrow> ((queue_fill \<times> order_transition) option \<times> bool) result \<Rightarrow> order_state_machine
     \<Rightarrow> visible_queue_model \<Rightarrow> bool" where
  "execution_result ev m q r m' q' \<longleftrightarrow> (case r of
       Inl e \<Rightarrow> budget_error ev q e
     | Inr (filled, applied) \<Rightarrow> filled_result ev m q filled m' q' \<and> visible q' = next_book ev q
         \<and> ahead_kept q q' \<and> (applied \<longleftrightarrow> book_step ev (visible q) \<noteq> None) \<and> (filled \<noteq> None \<longrightarrow> applied)
         \<and> vq_max_queue_anomalies q' = vq_max_queue_anomalies q \<and> (diag_inv q \<longrightarrow> diag_inv q'))"

lemma diagnosed_diag: "diagnosed q q' \<Longrightarrow> vq_used_fill_matches q' = vq_used_fill_matches q
    \<and> vq_max_queue_anomalies q' = vq_max_queue_anomalies q \<and> vq_queues q' = vq_queues q
    \<and> (diag_inv q \<longrightarrow> diag_inv q')"
  by (simp add: diagnosed_def)

lemma diagnosed_refl [simp]: "diagnosed q q"
  by (simp add: diagnosed_def)

text \<open>The trackers that can contain the executed reference: the matching one at most.\<close>

lemma containing_matches:
  assumes inv: "queue_inv (m, q)" and v: "visible q r = Some v"
    and tk: "dict_get (vq_queues q) i = Some tk" "has_key (tq_ahead tk) r"
  shows "tracker_key tk = level_key v"
proof -
  obtain x where "dict_get (tq_ahead tk) r = Some x" using tk(2) by (auto simp: has_key_iff)
  from tracker_visible [OF inv tk(1) this] v show ?thesis by (auto simp: visible_def)
qed

lemma matching_only:
  assumes inv: "queue_inv (m, q)" and v: "visible q r = Some v"
    and tk: "dict_get (vq_queues q) j = Some tk" "tracker_key tk = level_key v"
    and tk': "dict_get (vq_queues q) i = Some tk'" "has_key (tq_ahead tk') r"
  shows "tk' = tk"
proof -
  have "tracker_key tk' = tracker_key tk" using containing_matches [OF inv v tk'] tk(2) by simp
  then have "i = j" by (intro tracker_unique [OF inv tk'(1) tk(1)]) (simp_all add: tracker_key_def)
  with tk(1) tk'(1) show ?thesis by simp
qed

text \<open>Without a fill, an accepted execution is a reduction of the book.\<close>

lemma reduced_book:
  assumes "me_event_kind ev = EXECUTE \<or> me_event_kind ev = EXECUTE_PRICE \<or> me_event_kind ev = CANCEL_EVENT"
    and "visible q (cast_int (me_primary_reference ev)) = Some v" "reduces ev v"
  shows "book_step ev (visible q) = Some ((visible q)(cast_int (me_primary_reference ev) :=
      reduced (cast_int (me_quantity ev)) v))"
  using assms by (auto simp: book_step_def Let_def)

lemma set_ahead_simps [simp]:
  "visible (set_ahead tk A q) = visible q" "diag_inv (set_ahead tk A q) = diag_inv q"
  "vq_used_fill_matches (set_ahead tk A q) = vq_used_fill_matches q"
  "vq_max_queue_anomalies (set_ahead tk A q) = vq_max_queue_anomalies q"
  by (simp_all add: set_ahead_def visible_def diag_inv_def)

lemma unfilled_ok:
  assumes "me_event_kind ev = EXECUTE \<or> me_event_kind ev = EXECUTE_PRICE"
    and "visible q (cast_int (me_primary_reference ev)) = Some v" "reduces ev v"
    and "queue_inv (m, q')" "visible q' = (visible q)(cast_int (me_primary_reference ev) :=
      reduced (cast_int (me_quantity ev)) v)"
    and "vq_used_fill_matches q' = vq_used_fill_matches q"
    "vq_max_queue_anomalies q' = vq_max_queue_anomalies q" "diag_inv q \<longrightarrow> diag_inv q'"
    and "ahead_kept q q'"
  shows "execution_result ev m q (Inr (None, True)) m q'"
  using assms reduced_book [of ev q v]
  by (auto simp: execution_result_def filled_result_def next_book_def)

lemma execution_fill_ok:
  assumes inv: "queue_inv (m, q)" and wf: "event_wf ev"
    and kind: "me_event_kind ev = EXECUTE \<or> me_event_kind ev = EXECUTE_PRICE"
    and key: "\<And>i. require_current_market_key m (me_timestamp_ns ev) (me_message_index ev) i = Inr ()"
    and tk: "dict_get (vq_queues q) (tq_simulated_order_id tk) = Some tk" "tq_ahead tk = []"
    and at: "tracker_key tk = (me_symbol_id ev, cast_int (me_side ev), cast_int (me_price4 ev))"
    and s: "sm_order m (tq_simulated_order_id tk) = Inr s"
    and x: "x = min (cast_int (me_quantity ev)) (so_remaining_quantity s)"
    and fresh: "\<not> has_key (vq_used_fill_matches q) (cast_int (me_secondary_reference ev))"
  obtains fill tr m' q' where "execution_fill ev tk 0 x (m, q) = (Inr (fill, tr), (m', q'))" "1 \<le> x"
    "filled_result ev m q (Some (fill, tr)) m' q'" "visible q' = visible q"
    "vq_max_queue_anomalies q' = vq_max_queue_anomalies q" "diag_inv q' = diag_inv q" "vq_queues q' = vq_queues q"
proof -
  let ?i = "tq_simulated_order_id tk" and ?match = "cast_int (me_secondary_reference ev)"
  obtain s0 where s0: "dict_get (sm_orders m) ?i = Some s0" "EXPOSED_STATES (so_state s0)" "tracks s0 tk"
    "sm_order m ?i = Inr s0" "\<not> so_terminal s0" "order_wf s0"
    by (rule tracker_order [OF inv tk(1)])
  have eq: "s0 = s" using s0(4) s by simp
  have so: "dict_get (sm_orders m) ?i = Some s" "EXPOSED_STATES (so_state s)" "tracks s tk"
    "\<not> so_terminal s" "order_wf s"
    using s0(1-3,5,6) by (simp_all add: eq)
  have rem: "1 \<le> so_remaining_quantity s" by (rule order_wf_nonterminal_remaining [OF so(5,4)])
  have evs: "1 \<le> cast_int (me_quantity ev)" "me_side ev = Some (cast_int (me_side ev))"
    "me_price4 ev = Some (cast_int (me_price4 ev))"
    using kind by (auto simp: lifecycle_kind_def intro: event_wf_fields [OF wf])
  have x1: "1 \<le> x" "x \<le> so_remaining_quantity s" using rem evs(1) x by simp_all
  let ?s' = "filled_order s x (me_timestamp_ns ev)" and ?m = "put_order (filled_order s x (me_timestamp_ns ev)) m"
  obtain tr where tr: "record_fill ?i x (me_timestamp_ns ev) (me_message_index ev) m = (Inr tr, ?m)"
    "tr = transition_of s ?s' (if so_remaining_quantity s = x then CAUSE_FILLED else CAUSE_PARTIAL_FILL)
      (me_timestamp_ns ev) (Some (me_message_index ev)) (Some x) None"
    by (rule record_fill_ok [OF queue_invD(1) [OF inv] so(1,2) x1 key])
  let ?q = "q\<lparr>vq_used_fill_matches := dict_set ?match ?i (vq_used_fill_matches q)\<rparr>"
  have sm': "sm_inv ?m" by (rule record_fill_inv [OF queue_invD(1) [OF inv] tr(1)])
  have id: "so_simulated_order_id s = ?i" using so(3) by (simp add: tracks_def)
  have after: "sm_order ?m ?i = Inr ?s'" using s id by (auto simp: sm_order_Inr)
  have tot: "queue_total tk = Inr 0" using tk(2) by (simp add: queue_total_def dict_values_def)
  let ?fill = "\<lparr>qf_simulated_order_id = ?i, qf_market_message_index = me_message_index ev,
      qf_timestamp_ns = me_timestamp_ns ev, qf_match_number = ?match, qf_price4 = tq_price4 tk,
      qf_quantity = x, qf_queue_ahead_before = 0, qf_queue_ahead_after = 0,
      qf_remaining_quantity_after = so_remaining_quantity ?s'\<rparr>"
  have book: "book_inv ?q" by (rule book_inv_frame [OF queue_invD(2) [OF inv]]) simp_all
  have mid: "tracked_mid (dict_set ?i ?s' (sm_orders m)) ?q [tr]"
  proof -
    have "tracked_mid (dict_set ?i ?s' (sm_orders m)) ?q ([] @ [tr])"
    proof (rule tracked_mid_change [OF queue_invD(4) [OF inv, unfolded tracked_def] _ _ _ _ so(1,4),
          where tk = tk])
      have "dict_set ?i tk (vq_queues q) = vq_queues q"
        unfolding dict_set_def using tk(1) dict_get_def update_triv by metis
      moreover have "ahead_ok q tk" "tracks ?s' tk"
        using tracked_midD(2) [OF queue_invD(4) [OF inv, unfolded tracked_def] tk(1)] so(3)
        by (simp_all add: tracks_def filled_order_def)
      ultimately show "vq_queues ?q = vq_queues q \<and> so_terminal ?s'
        \<or> vq_queues ?q = dict_set ?i tk (vq_queues q) \<and> EXPOSED_STATES (so_state ?s') \<and> ?i \<notin> ended_in []
          \<and> ahead_ok q tk \<and> tq_simulated_order_id tk = ?i \<and> tracks ?s' tk"
        by (auto simp: filled_order_def so_terminal_def)
    qed (simp_all add: tr(2) id)
    then show ?thesis by simp
  qed
  have fs: "fill_spec ev m q ?fill s"
    using so evs x x1 tk at fresh by (simp add: fill_spec_def tracks_def tracker_key_def)
  show ?thesis
  proof (rule that [of ?fill tr ?m ?q])
    show "execution_fill ev tk 0 x (m, q) = (Inr (?fill, tr), (?m, ?q))"
      using tr(1) after tot
      by (simp add: execution_fill_def Let_def bindM_def on_machine_def on_owner_def del: put_order_simps)
    show "filled_result ev m q (Some (?fill, tr)) ?m ?q"
      using fs tr(2) sm' book mid id
      by (auto simp: filled_result_def intro!: exI [of _ s])
  qed (use x1 in \<open>simp_all add: visible_def diag_inv_def\<close>)
qed

lemma execute_against_ok:
  assumes inv: "queue_inv (m, q)" and wf: "event_wf ev"
    and kind: "me_event_kind ev = EXECUTE \<or> me_event_kind ev = EXECUTE_PRICE"
    and key: "\<And>i. require_current_market_key m (me_timestamp_ns ev) (me_message_index ev) i = Inr ()"
    and v: "visible q (cast_int (me_primary_reference ev)) = Some v" "reduces ev v"
    and res: "case res of
       None \<Rightarrow> \<forall>i tk. dict_get (vq_queues q) i = Some tk \<longrightarrow> tracker_key tk \<noteq> level_key v
     | Some tk \<Rightarrow> dict_get (vq_queues q) (tq_simulated_order_id tk) = Some tk \<and> tracker_key tk = level_key v"
    and b: "opt_queue_total res = Inr b"
    and run: "execute_against ev v res b (m, q) = (r, (m', q'))"
  shows "execution_result ev m q r m' q'"
proof -
  let ?r = "cast_int (me_primary_reference ev)" and ?x = "cast_int (me_quantity ev)"
  have evs: "1 \<le> ?x" by (rule event_wf_fields [OF wf]) (use kind in \<open>auto simp: lifecycle_kind_def\<close>)
  have le: "?x \<le> vo_remaining_quantity v" using v(2) by (simp add: reduces_def)
  have ref: "vo_reference v = ?r" using visible_ok_get [OF inv v(1)] by (simp add: visible_ok_def)
  show ?thesis
  proof (cases res)
    case None
    obtain q1 where q1: "decrement_visible v ?x q = (Inr (), q1)" "book_inv q1" "rest_same q q1"
      "visible q1 = (visible q)(?r := reduced ?x v)"
      by (rule decremented [OF inv v(1) evs le])
    have "\<not> has_key (tq_ahead tk) ?r" if "dict_get (vq_queues q) i = Some tk" for i tk
      using containing_matches [OF inv v(1) that] res None that by auto
    then have free: "queue_inv (m, q1)" "ahead_kept q q1"
      by (intro reduce_free [OF inv q1(2,3), where r = ?r]; simp add: q1(4))+
    from unfilled_ok [OF kind v free(1) q1(4)] free(2) rest_same_log [OF q1(3)] run None q1(1)
    show ?thesis by (simp add: execute_against_def Let_def bindM_def on_owner_def)
  next
    case (Some tk)
    have tk: "dict_get (vq_queues q) (tq_simulated_order_id tk) = Some tk" "tracker_key tk = level_key v"
      using res Some by simp_all
    show ?thesis
    proof (cases "has_key (tq_ahead tk) ?r")
      case True
      obtain q1 where q1: "decrement_visible v ?x q = (Inr (), q1)" "book_inv q1" "rest_same q q1"
        "visible q1 = (visible q)(?r := reduced ?x v)"
        by (rule decremented [OF inv v(1) evs le])
      let ?A = "if ?x = vo_remaining_quantity v then dict_del ?r (tq_ahead tk)
        else dict_set ?r (vo_remaining_quantity v - ?x) (tq_ahead tk)"
      note red = reduce_ahead [OF inv v(1) evs le q1(2-4) tk(1) True]
      have "r = Inr (None, True)" "m' = m" "q' = set_ahead tk ?A q1"
        using run Some True q1(1) red(1) ref by (auto simp: execute_against_def Let_def bindM_def on_owner_def)
      moreover have "execution_result ev m q (Inr (None, True)) m (set_ahead tk ?A q1)"
        by (rule unfilled_ok [OF kind v red(3) _ _ _ _ red(4)]) (use q1(4) rest_same_log [OF q1(3)] in simp_all)
      ultimately show ?thesis by simp
    next
      case free: False
      have free': "\<not> has_key (tq_ahead tk') ?r" if "dict_get (vq_queues q) i = Some tk'" for i tk'
        using matching_only [OF inv v(1) tk(1) tk(2) that] free by blast
      have after: "\<exists>q1. decrement_visible v ?x q0 = (Inr (), q1) \<and> queue_inv (m, q1) \<and> rest_same q0 q1
          \<and> visible q1 = (visible q)(?r := reduced ?x v) \<and> ahead_kept q q1" if d: "diagnosed q q0" for q0
      proof -
        have inv0: "queue_inv (m, q0)" by (rule diagnosed_inv [OF inv d])
        have v0: "visible q0 ?r = Some v" using v(1) diagnosed_visible [OF d] by simp
        obtain q1 where q1: "decrement_visible v ?x q0 = (Inr (), q1)" "book_inv q1" "rest_same q0 q1"
          "visible q1 = (visible q0)(?r := reduced ?x v)"
          by (rule decremented [OF inv0 v0 evs le])
        have "queue_inv (m, q1)" "ahead_kept q0 q1"
          by (rule reduce_free [OF inv0 q1(2,3), where r = ?r];
            use q1(4) free' diagnosed_diag [OF d] in auto)+
        moreover have "ahead_kept q q1"
          by (rule ahead_kept_before [OF _ \<open>ahead_kept q0 q1\<close>]) (use diagnosed_diag [OF d] in simp)
        ultimately show ?thesis using q1 diagnosed_visible [OF d] by simp
      qed
      have anomaly: ?thesis
        if fq: "execution_fill_quantity ev tk b (m, q)
          = bindM (on_owner (record_anomaly ev reason oid)) (\<lambda>_. returnM 0) (m, q)" for reason oid
      proof -
        obtain r0 q0 where r0: "record_anomaly ev reason oid q = (r0, q0)"
          by (cases "record_anomaly ev reason oid q")
        note k = record_anomaly_ok [OF r0]
        show ?thesis
        proof (cases r0)
          case (Inl e)
          with r0 fq run Some free ref have "r = Inl e"
            by (simp add: execute_against_def Let_def bindM_def on_owner_def)
          with k Inl show ?thesis by (simp add: execution_result_def)
        next
          case (Inr u)
          with k have d: "diagnosed q q0" by simp
          obtain q1 where q1: "decrement_visible v ?x q0 = (Inr (), q1)" "queue_inv (m, q1)" "rest_same q0 q1"
            "visible q1 = (visible q)(?r := reduced ?x v)" "ahead_kept q q1" using after [OF d] by blast
          have "r = Inr (None, True)" "m' = m" "q' = q1"
            using r0 Inr fq run Some free ref q1(1)
            by (auto simp: execute_against_def Let_def bindM_def on_owner_def)
          with unfilled_ok [OF kind v q1(2,4)] q1(5) rest_same_log [OF q1(3)] diagnosed_diag [OF d] show ?thesis
            by simp
        qed
      qed
      show ?thesis
      proof (cases "b \<noteq> 0 \<or> has_key (vq_used_fill_matches q) (cast_int (me_secondary_reference ev))")
        case True
        then show ?thesis by (cases "b \<noteq> 0") (rule anomaly, simp add: execution_fill_quantity_def Let_def)+
      next
        case False
        obtain s where s: "sm_order m (tq_simulated_order_id tk) = Inr s"
          by (rule tracker_order [OF inv tk(1)])
        let ?fq = "min ?x (so_remaining_quantity s)"
        have fq: "execution_fill_quantity ev tk b (m, q) = (Inr ?fq, (m, q))"
          using False s by (simp add: execution_fill_quantity_def Let_def)
        obtain q1 where q1: "decrement_visible v ?x q = (Inr (), q1)" "queue_inv (m, q1)" "rest_same q q1"
          "visible q1 = (visible q)(?r := reduced ?x v)" "ahead_kept q q1" using after [of q] by auto
        have tk1: "dict_get (vq_queues q1) (tq_simulated_order_id tk) = Some tk"
          using tk(1) q1(3) by (simp add: rest_same_def)
        have ok: "ahead_ok q tk"
          using tracked_midD(2) [OF queue_invD(4) [OF inv, unfolded tracked_def] tk(1)] .
        have empty: "tq_ahead tk = []"
          using queue_total_ok [OF queue_invD(3) [OF inv] ok] b Some False by (simp add: opt_queue_total_def)
        have at: "tracker_key tk = (me_symbol_id ev, cast_int (me_side ev), cast_int (me_price4 ev))"
          using tk(2) v(2) by (simp add: reduces_def names_order_def level_key_def)
        have fresh: "\<not> has_key (vq_used_fill_matches q1) (cast_int (me_secondary_reference ev))"
          using False q1(3) by (simp add: rest_same_def)
        obtain fill tr m2 q2 where ex: "execution_fill ev tk 0 ?fq (m, q1) = (Inr (fill, tr), (m2, q2))"
          "1 \<le> ?fq" and f: "filled_result ev m q1 (Some (fill, tr)) m2 q2" "visible q2 = visible q1"
          "vq_max_queue_anomalies q2 = vq_max_queue_anomalies q1" "diag_inv q2 = diag_inv q1"
          "vq_queues q2 = vq_queues q1"
          by (rule execution_fill_ok [OF q1(2) wf kind key tk1 empty at s refl fresh])
        have r: "r = Inr (Some (fill, tr), True)" "m' = m2" "q' = q2"
          using run Some free ref fq q1(1) ex False
          by (auto simp: execute_against_def Let_def bindM_def on_owner_def)
        have "filled_result ev m q (Some (fill, tr)) m2 q2"
          using f(1) q1(3) by (simp add: filled_result_def fill_spec_def rest_same_def)
        moreover have "ahead_kept q q2"
          by (rule ahead_kept_mono [OF q1(5)]) (simp_all add: f(2,5))
        ultimately show ?thesis using r f q1(4) reduced_book [OF _ v] kind rest_same_log [OF q1(3)]
          by (auto simp: execution_result_def next_book_def)
      qed
    qed
  qed
qed

lemma apply_execution_ok:
  assumes inv: "queue_inv (m, q)" and wf: "event_wf ev"
    and kind: "me_event_kind ev = EXECUTE \<or> me_event_kind ev = EXECUTE_PRICE"
    and key: "\<And>i. require_current_market_key m (me_timestamp_ns ev) (me_message_index ev) i = Inr ()"
    and run: "apply_execution ev (m, q) = (r, (m', q'))"
  shows "execution_result ev m q r m' q'"
proof -
  let ?r = "cast_int (me_primary_reference ev)" and ?x = "cast_int (me_quantity ev)"
  have failed: "execution_result ev m q (Inr (None, False)) m q0"
    if "diagnosed q q0" "book_step ev (visible q) = None" for q0
    using that diagnosed_inv [OF inv that(1)] diagnosed_kept [OF inv that(1)] diagnosed_visible [OF that(1)] diagnosed_diag [OF that(1)]
    by (simp add: execution_result_def filled_result_def next_book_def)
  obtain r0 q0 where lk: "validated_existing_order ev q = (r0, q0)"
    by (cases "validated_existing_order ev q")
  note k = validated_existing_order_ok [OF lk]
  show ?thesis
  proof (cases r0)
    case (Inl e)
    with run lk have "r = Inl e" by (simp add: apply_execution_def bindM_def on_owner_def)
    with k Inl show ?thesis by (simp add: execution_result_def)
  next
    case (Inr found)
    show ?thesis
    proof (cases found)
      case None
      with run lk Inr have "r = Inr (None, False)" "m' = m" "q' = q0"
        by (simp_all add: apply_execution_def bindM_def on_owner_def)
      moreover have "book_step ev (visible q) = None"
        using k Inr None kind by (auto simp: book_step_def Let_def reduces_def split: option.splits)
      ultimately show ?thesis using failed k Inr None by simp
    next
      case (Some v)
      with k Inr have q0: "q0 = q" and v: "visible q ?r = Some v" and nm: "names_order ev v" by simp_all
      show ?thesis
      proof (cases "reduces ev v")
        case False
        obtain r1 q1 where an: "record_anomaly ev QUANTITY_MISMATCH None q = (r1, q1)"
          by (cases "record_anomaly ev QUANTITY_MISMATCH None q")
        note k1 = record_anomaly_ok [OF an]
        have step: "book_step ev (visible q) = None" using v False kind by (auto simp: book_step_def Let_def)
        have guard: "?x > vo_remaining_quantity v
          \<or> me_remaining_quantity ev \<noteq> Some (vo_remaining_quantity v - ?x)"
          using False nm by (auto simp: reduces_def)
        have run1: "bindM (on_owner (record_anomaly ev QUANTITY_MISMATCH None)) (\<lambda>_. returnM (None, False)) (m, q)
            = (r, (m', q'))"
          using run lk Inr Some q0 guard by (auto simp: apply_execution_def Let_def bindM_def on_owner_def)
        show ?thesis
        proof (cases r1)
          case (Inl e)
          with run1 an have "r = Inl e" by (simp add: bindM_def on_owner_def)
          with k1 Inl show ?thesis by (simp add: execution_result_def)
        next
          case (Inr u)
          with run1 an have "r = Inr (None, False)" "m' = m" "q' = q1"
            by (simp_all add: bindM_def on_owner_def)
          with failed step k1 Inr show ?thesis by simp
        qed
      next
        case True
        obtain res where mt: "matching_queue (me_symbol_id ev) (cast_int (me_side ev)) (cast_int (me_price4 ev)) (m, q)
            = (Inr res, (m, q))"
          and res: "case res of
             None \<Rightarrow> \<forall>i tk. dict_get (vq_queues q) i = Some tk \<longrightarrow>
               tracker_key tk \<noteq> (me_symbol_id ev, cast_int (me_side ev), cast_int (me_price4 ev))
           | Some tk \<Rightarrow> dict_get (vq_queues q) (tq_simulated_order_id tk) = Some tk
               \<and> tracker_key tk = (me_symbol_id ev, cast_int (me_side ev), cast_int (me_price4 ev))"
          by (rule matching_queue_ok [OF inv])
        have lk': "level_key v = (me_symbol_id ev, cast_int (me_side ev), cast_int (me_price4 ev))"
          using nm by (simp add: names_order_def level_key_def)
        obtain b where b: "opt_queue_total res = Inr b"
        proof (cases res)
          case None
          with that show ?thesis by (simp add: opt_queue_total_def)
        next
          case (Some tk)
          with res have "ahead_ok q tk"
            using tracked_midD(2) [OF queue_invD(4) [OF inv, unfolded tracked_def]] by auto
          with that queue_total_ok(1) [OF queue_invD(3) [OF inv]] Some show ?thesis
            by (simp add: opt_queue_total_def)
        qed
        have "execute_against ev v res b (m, q) = (r, (m', q'))"
          using run lk Inr Some q0 True mt b
          by (simp add: apply_execution_def Let_def bindM_def on_owner_def reduces_def)
        then show ?thesis
          by (rule execute_against_ok [OF inv wf kind key v True res [folded lk'] b])
      qed
    qed
  qed
qed

end
