(* ===== verification/Queue_Properties.thy ===== *)
theory Queue_Properties
  imports Queue_Events
begin

text \<open>
  The queue model over whole events and runs: crossed remainders are invalidated, one event is
  a step of the book's specification, the internal checks never fail, fills are conservative,
  and what that means for any run.
\<close>

section \<open>Invalidating crossed remainders\<close>

definition safe_order :: "simulated_order \<Rightarrow> visible_queue_model \<Rightarrow> bool" where
  "safe_order s q \<longleftrightarrow> (\<forall>r v. visible q r = Some v \<longrightarrow> vo_symbol_id v = so_symbol_id s \<longrightarrow>
     vo_side v = - so_side s \<longrightarrow> \<not> price_crosses (so_side s) (so_price4 s) (Some (vo_price4 v)))"

lemma uncrossed_iff: "uncrossed od q \<longleftrightarrow>
    (\<forall>i s. dict_get od i = Some s \<longrightarrow> EXPOSED_STATES (so_state s) \<longrightarrow> safe_order s q)"
  unfolding uncrossed_def safe_order_def visible_def by blast

text \<open>What the loop leaves alone in the queue model.\<close>

definition crossing_frame :: "visible_queue_model \<Rightarrow> visible_queue_model \<Rightarrow> bool" where
  "crossing_frame q q' \<longleftrightarrow> visible q' = visible q \<and> vq_queues q' = vq_queues q
   \<and> vq_used_fill_matches q' = vq_used_fill_matches q
   \<and> vq_max_queue_anomalies q' = vq_max_queue_anomalies q \<and> (diag_inv q \<longrightarrow> diag_inv q')"

lemma crossing_frame_refl [simp]: "crossing_frame q q"
  by (simp add: crossing_frame_def)

lemma crossing_frame_trans: "crossing_frame a b \<Longrightarrow> crossing_frame b c \<Longrightarrow> crossing_frame a c"
  by (simp add: crossing_frame_def)

lemma heaps_only_crossing: "heaps_only q q' \<Longrightarrow> crossing_frame q q'"
  by (simp add: heaps_only_def rest_same_def crossing_frame_def visible_def diag_inv_def)

lemma add_diagnostic_crossing: "qd_code d \<noteq> EVENT_SKIPPED \<Longrightarrow> crossing_frame q (add_diagnostic d q)"
  by (auto simp: crossing_frame_def add_diagnostic_def visible_def diag_inv_def)

lemma crossing_frame_safe: "crossing_frame q q' \<Longrightarrow> safe_order s q' = safe_order s q"
  by (simp add: crossing_frame_def safe_order_def)

definition opt_list :: "'a option \<Rightarrow> 'a list" where
  "opt_list v = (case v of None \<Rightarrow> [] | Some x \<Rightarrow> [x])"

lemma opt_list_simps [simp]: "opt_list None = []" "opt_list (Some x) = [x]"
  by (simp_all add: opt_list_def)

lemma tracked_mid_heaps: "tracked_mid od q ts \<Longrightarrow> vq_visible_levels q' = vq_visible_levels q \<Longrightarrow>
    vq_queues q' = vq_queues q \<Longrightarrow> tracked_mid od q' ts"
  unfolding tracked_mid_def using ahead_ok_levels [of q' q] by simp

definition crossing_state ::
  "market_event \<Rightarrow> order_state_machine \<Rightarrow> visible_queue_model \<Rightarrow> order_transition list \<Rightarrow> bool" where
  "crossing_state ev m q ts \<longleftrightarrow> sm_inv m \<and> book_inv q \<and> tracked_mid (sm_orders m) q ts
   \<and> (\<forall>i. require_current_market_key m (me_timestamp_ns ev) (me_message_index ev) i = Inr ())"

text \<open>The orders that are exposed later are exposed now, and unchanged.\<close>

definition only_ended :: "order_state_machine \<Rightarrow> order_state_machine \<Rightarrow> bool" where
  "only_ended m m' \<longleftrightarrow> sm_scheduler m' = sm_scheduler m \<and> (\<forall>i s. dict_get (sm_orders m') i = Some s \<longrightarrow>
     EXPOSED_STATES (so_state s) \<longrightarrow> dict_get (sm_orders m) i = Some s)"

lemma only_ended_refl [simp]: "only_ended m m"
  by (simp add: only_ended_def)

lemma only_ended_trans: "only_ended a b \<Longrightarrow> only_ended b c \<Longrightarrow> only_ended a c"
  unfolding only_ended_def by metis

lemma opposite_book_crosses_ok:
  assumes "book_inv q" "tracks s tk" "order_wf s"
  obtains q1 where "opposite_book_crosses tk q = (Inr (\<not> safe_order s q), q1)" "book_inv q1" "heaps_only q q1"
proof -
  obtain best q1 where b: "best_visible_price (tq_symbol_id tk) (- tq_side tk) q = (Inr best, q1)"
    "book_inv q1" "heaps_only q q1" "best_price q (tq_symbol_id tk) (- tq_side tk) best"
    by (rule best_visible_price_ok [OF assms(1)])
  have tk: "tq_symbol_id tk = so_symbol_id s" "tq_side tk = so_side s" "tq_price4 tk = so_price4 s"
    using assms(2) by (simp_all add: tracks_def)
  have "so_side s = -1 \<or> so_side s = 1"
    using assms(3) by (simp add: order_wf_def request_wf_def request_of_def)
  from best_price_crosses [OF b(4) [unfolded tk] this]
  have "price_crosses (so_side s) (so_price4 s) best \<longleftrightarrow> \<not> safe_order s q"
    by (auto simp: safe_order_def visible_def)
  with b tk that show ?thesis by (simp add: opposite_book_crosses_def bindM_def)
qed

lemma invalidate_crossed_ok:
  assumes st: "crossing_state ev m q ts" and tk: "dict_get (vq_queues q) i = Some tk"
  obtains res m' q' where "invalidate_crossed ev tk (m, q) = (Inr res, (m', q'))"
    "crossing_state ev m' q' (ts @ opt_list res)" "crossing_frame q q'" "only_ended m m'"
    "\<And>s. dict_get (sm_orders m') i = Some s \<Longrightarrow> EXPOSED_STATES (so_state s) \<Longrightarrow> safe_order s q'"
proof -
  have inv: "sm_inv m" and book: "book_inv q" and mid: "tracked_mid (sm_orders m) q ts"
    and key: "\<And>i. require_current_market_key m (me_timestamp_ns ev) (me_message_index ev) i = Inr ()"
    using st by (simp_all add: crossing_state_def)
  have ord: "orders_inv m" using inv sm_midD(3) by (simp add: sm_inv_def)
  have id: "tq_simulated_order_id tk = i" by (rule tracked_midD(3) [OF mid tk])
  obtain s where s: "dict_get (sm_orders m) i = Some s" "EXPOSED_STATES (so_state s) \<longrightarrow> tracks s tk"
    using tracked_midD(4) [OF mid tk] by blast
  note o = orders_inv_get(1,2) [OF ord s(1)]
  have get: "sm_order m i = Inr s" using s(1) o by (auto simp: sm_order_Inr order_wf_def request_wf_def request_of_def)
  show ?thesis
  proof (cases "EXPOSED_STATES (so_state s)")
    case False
    show ?thesis
      by (rule that [of None m q])
        (use False get id st s(1) in \<open>simp_all add: invalidate_crossed_def Let_def\<close>)
  next
    case True
    with s have tracks: "tracks s tk" by simp
    let ?crossed = "execution_cross ev tk"
    obtain q0 where q0: "opposite_book_crosses tk q = (Inr (\<not> safe_order s q), q0)" "book_inv q0" "heaps_only q q0"
      by (rule opposite_book_crosses_ok [OF book tracks o(2)])
    let ?q1 = "if ?crossed then q else q0"
    have q1: "book_inv ?q1" "heaps_only q ?q1" using book q0 by simp_all
    have test: "(if ?crossed then returnM True else on_owner (opposite_book_crosses tk)) (m, q)
        = (Inr (?crossed \<or> \<not> safe_order s q), (m, ?q1))"
      using q0(1) by (simp add: on_owner_def)
    have mid1: "tracked_mid (sm_orders m) ?q1 ts"
      by (rule tracked_mid_heaps [OF mid]) (use q1(2) in \<open>simp_all add: heaps_only_def rest_same_def\<close>)
    show ?thesis
    proof (cases "?crossed \<or> \<not> safe_order s q")
      case False
      show ?thesis
      proof (rule that [of None m ?q1])
        show "invalidate_crossed ev tk (m, q) = (Inr None, (m, ?q1))"
          using get id True test False by (simp add: invalidate_crossed_def Let_def bindM_def)
        show "crossing_state ev m ?q1 (ts @ opt_list None)"
          using inv q1(1) mid1 key by (simp add: crossing_state_def)
        show "crossing_frame q ?q1" by (rule heaps_only_crossing [OF q1(2)])
        show "safe_order u ?q1" if "dict_get (sm_orders m) i = Some u" for u
          using that s(1) False crossing_frame_safe [OF heaps_only_crossing [OF q1(2)]] by simp
      qed simp
    next
      case cross: True
      let ?t = "me_timestamp_ns ev" and ?mi = "me_message_index ev"
      let ?s' = "ended INVALIDATED ?t s"
      let ?tr = "transition_of s ?s' CAUSE_INVALIDATED ?t (Some ?mi) None (Some COUNTERFACTUAL_CROSS)"
      let ?d = "\<lparr>qd_code = DIAG_COUNTERFACTUAL_CROSS, qd_message_index = ?mi, qd_symbol_id = me_symbol_id ev,
        qd_simulated_order_id = Some i,
        qd_reason = (if ?crossed then execution_progressed_beyond_limit
                     else opposite_visible_book_crossed_limit)\<rparr>"
      let ?q2 = "add_diagnostic ?d ?q1" and ?m = "put_order ?s' m"
      note run = invalidate_ok [OF inv s(1) True key]
      have fr: "crossing_frame q ?q2"
        by (rule crossing_frame_trans [OF heaps_only_crossing [OF q1(2)] add_diagnostic_crossing]) simp
      show ?thesis
      proof (rule that [of "Some ?tr" ?m ?q2])
        show "invalidate_crossed ev tk (m, q) = (Inr (Some ?tr), (?m, ?q2))"
          using get id True test cross run
          by (simp add: invalidate_crossed_def Let_def bindM_def on_machine_def on_owner_def del: put_order_simps)
        have "sm_inv ?m" by (rule invalidate_inv [OF inv run])
        moreover have "book_inv ?q2"
          by (rule book_inv_frame [OF q1(1)]) (simp_all add: add_diagnostic_def)
        moreover have "tracked_mid (dict_set i ?s' (sm_orders m)) ?q2 (ts @ [?tr])"
          by (rule tracked_mid_change [OF mid1 _ _ _ _ s(1) not_terminal_states(2) [OF True]])
            (simp_all add: o(1) so_terminal_def add_diagnostic_def)
        moreover have "require_current_market_key ?m ?t ?mi j = Inr ()" for j
          using key [of j] by (simp add: require_current_market_key_Inr)
        ultimately show "crossing_state ev ?m ?q2 (ts @ opt_list (Some ?tr))"
          using o(1) by (simp add: crossing_state_def)
        show "only_ended m ?m" using o(1) by (auto simp: only_ended_def)
        show "safe_order u ?q2" if "dict_get (sm_orders ?m) i = Some u" "EXPOSED_STATES (so_state u)" for u
          using that o(1) by auto
      qed (rule fr)
    qed
  qed
qed

lemma invalidate_loop_ok:
  assumes "crossing_state ev m q ts" "\<And>tk. tk \<in> set tks \<Longrightarrow> \<exists>i. dict_get (vq_queues q) i = Some tk"
  shows "\<exists>rs m' q'. forM (invalidate_crossed ev) tks (m, q) = (Inr rs, (m', q'))
    \<and> crossing_state ev m' q' (ts @ List.map_filter id rs) \<and> crossing_frame q q' \<and> only_ended m m'
    \<and> (\<forall>tk i s. tk \<in> set tks \<longrightarrow> dict_get (vq_queues q) i = Some tk \<longrightarrow>
         dict_get (sm_orders m') i = Some s \<longrightarrow> EXPOSED_STATES (so_state s) \<longrightarrow> safe_order s q')"
  using assms
proof (induction tks arbitrary: m q ts)
  case Nil
  then show ?case by (auto simp: map_filter_simps intro!: exI [of _ m] exI [of _ q])
next
  case (Cons tk tks)
  obtain i where i: "dict_get (vq_queues q) i = Some tk" using Cons.prems(2) [of tk] by auto
  obtain res m1 q1 where one: "invalidate_crossed ev tk (m, q) = (Inr res, (m1, q1))"
    "crossing_state ev m1 q1 (ts @ opt_list res)" "crossing_frame q q1" "only_ended m m1"
    and safe: "\<And>s. dict_get (sm_orders m1) i = Some s \<Longrightarrow> EXPOSED_STATES (so_state s) \<Longrightarrow> safe_order s q1"
    by (rule invalidate_crossed_ok [OF Cons.prems(1) i]) blast
  have qs: "vq_queues q1 = vq_queues q" using one(3) by (simp add: crossing_frame_def)
  obtain rs m' q' where rest: "forM (invalidate_crossed ev) tks (m1, q1) = (Inr rs, (m', q'))"
    "crossing_state ev m' q' ((ts @ opt_list res) @ List.map_filter id rs)" "crossing_frame q1 q'"
    "only_ended m1 m'"
    and safe': "\<forall>tk i s. tk \<in> set tks \<longrightarrow> dict_get (vq_queues q1) i = Some tk \<longrightarrow>
         dict_get (sm_orders m') i = Some s \<longrightarrow> EXPOSED_STATES (so_state s) \<longrightarrow> safe_order s q'"
    using Cons.IH [OF one(2)] Cons.prems(2) qs by (metis list.set_intros(2))
  have id_unique: "j = i" if "dict_get (vq_queues q) j = Some tk" for j
    using tracked_midD(3) [of "sm_orders m" q ts] that i Cons.prems(1)
    by (metis crossing_state_def)
  have "\<forall>u j s. u \<in> set (tk # tks) \<longrightarrow> dict_get (vq_queues q) j = Some u \<longrightarrow>
         dict_get (sm_orders m') j = Some s \<longrightarrow> EXPOSED_STATES (so_state s) \<longrightarrow> safe_order s q'"
  proof (intro allI impI)
    fix u j s
    assume u: "u \<in> set (tk # tks)" "dict_get (vq_queues q) j = Some u"
      "dict_get (sm_orders m') j = Some s" "EXPOSED_STATES (so_state s)"
    show "safe_order s q'"
    proof (cases "u = tk")
      case True
      with u id_unique have "j = i" by simp
      with u rest(4) have "dict_get (sm_orders m1) i = Some s" by (simp add: only_ended_def)
      from safe [OF this u(4)] show ?thesis using crossing_frame_safe [OF rest(3)] by simp
    next
      case False
      with u qs safe' show ?thesis by auto
    qed
  qed
  moreover have "forM (invalidate_crossed ev) (tk # tks) (m, q) = (Inr (res # rs), (m', q'))"
    using one(1) rest(1) by simp
  moreover have "crossing_state ev m' q' (ts @ List.map_filter id (res # rs))"
    using rest(2) by (cases res) (simp_all add: map_filter_simps)
  ultimately show ?case
    using crossing_frame_trans [OF one(3) rest(3)] only_ended_trans [OF one(4) rest(4)] by blast
qed

lemma invalidate_crossed_remainders_ok:
  assumes inv: "queue_inv (m, q)"
    and key: "\<And>i. require_current_market_key m (me_timestamp_ns ev) (me_message_index ev) i = Inr ()"
  obtains ts m' q' where "invalidate_crossed_remainders ev (m, q) = (Inr ts, (m', q'))"
    "queue_inv (m', synchronise_transitions ts q')" "crossing_frame q q'" "only_ended m m'"
    "uncrossed (sm_orders m') q'"
proof -
  have st: "crossing_state ev m q []"
    using inv key by (simp add: crossing_state_def queue_inv_def tracked_def)
  have ok: "dict_ok (vq_queues q)"
    using tracked_midD(1) queue_invD(4) [OF inv] by (auto simp: tracked_def)
  obtain rs m' q' where r: "forM (invalidate_crossed ev) (dict_values (vq_queues q)) (m, q) = (Inr rs, (m', q'))"
    "crossing_state ev m' q' ([] @ List.map_filter id rs)" "crossing_frame q q'" "only_ended m m'"
    and safe: "\<forall>tk i s. tk \<in> set (dict_values (vq_queues q)) \<longrightarrow> dict_get (vq_queues q) i = Some tk \<longrightarrow>
         dict_get (sm_orders m') i = Some s \<longrightarrow> EXPOSED_STATES (so_state s) \<longrightarrow> safe_order s q'"
    using invalidate_loop_ok [OF st, of "dict_values (vq_queues q)"] dict_values_iff [OF ok] by blast
  let ?ts = "List.map_filter id rs"
  have mid: "tracked_mid (sm_orders m') q' ?ts" and sm: "sm_inv m'" and book: "book_inv q'"
    using r(2) by (simp_all add: crossing_state_def)
  have "safe_order s q'" if s: "dict_get (sm_orders m') i = Some s" "EXPOSED_STATES (so_state s)" for i s
  proof -
    have "vq_queues q' = vq_queues q" using r(3) by (simp add: crossing_frame_def)
    with tracked_midD(5) [OF mid s] obtain tk where tk: "dict_get (vq_queues q) i = Some tk" by auto
    then have "tk \<in> set (dict_values (vq_queues q))" using dict_values_iff [OF ok] by blast
    with safe tk s show ?thesis by blast
  qed
  then have "uncrossed (sm_orders m') q'" by (simp add: uncrossed_iff)
  moreover have "queue_inv (m', synchronise_transitions ?ts q')"
    using sm synchronised [OF mid] book_inv_frame [OF book] by (simp add: queue_inv_def)
  ultimately show ?thesis
    using that [of ?ts m' q'] r by (simp add: invalidate_crossed_remainders_def bindM_def)
qed

section \<open>The visible part of an event\<close>

definition broken_error :: "market_event \<Rightarrow> visible_queue_model \<Rightarrow> sim_error \<Rightarrow> bool" where
  "broken_error ev q e \<longleftrightarrow> me_event_kind ev = BROKEN_TRADE
   \<and> (\<exists>i. dict_get (vq_used_fill_matches q) (cast_int (me_primary_reference ev)) = Some i
        \<and> e = SimulationError ERR_BROKEN_SIM_FILL (Some i) (Some (me_message_index ev)))"

definition visible_result ::
  "market_event \<Rightarrow> order_state_machine \<Rightarrow> visible_queue_model
     \<Rightarrow> ((queue_fill \<times> order_transition) option \<times> bool) result \<Rightarrow> order_state_machine
     \<Rightarrow> visible_queue_model \<Rightarrow> bool" where
  "visible_result ev m q r m' q' \<longleftrightarrow> (case r of
       Inl e \<Rightarrow> budget_error ev q e \<or> broken_error ev q e
     | Inr _ \<Rightarrow> execution_result ev m q r m' q'
         \<and> (me_event_kind ev = BROKEN_TRADE \<longrightarrow>
             \<not> has_key (vq_used_fill_matches q) (cast_int (me_primary_reference ev))))"

lemma owner_visible_result:
  assumes "me_event_kind ev \<noteq> BROKEN_TRADE" "\<And>r q'. f ev q = (r, q') \<Longrightarrow> book_result m ev q r q'"
    and "bindM (on_owner (f ev)) (\<lambda>applied. returnM (None, applied)) (m, q) = (r, (m', q'))"
  shows "visible_result ev m q r m' q'"
proof -
  obtain r0 q0 where f: "f ev q = (r0, q0)" by (cases "f ev q")
  with assms(3) have "m' = m" "q' = q0" "r = (case r0 of Inl e \<Rightarrow> Inl e | Inr a \<Rightarrow> Inr (None, a))"
    by (auto simp: bindM_def on_owner_def split: sum.splits)
  with assms(1) assms(2) [OF f] show ?thesis
    by (auto simp: visible_result_def book_result_def execution_result_def filled_result_def split: sum.splits)
qed

lemma unchanged_visible_result:
  assumes "queue_inv (m, q')" "diagnosed q q'" "book_step ev (visible q) = None"
    and "me_event_kind ev = BROKEN_TRADE \<longrightarrow> \<not> has_key (vq_used_fill_matches q) (cast_int (me_primary_reference ev))"
  shows "visible_result ev m q (Inr (None, False)) m q'"
  using assms diagnosed_visible [OF assms(2)] diagnosed_diag [OF assms(2)]
    ahead_kept_queues [of q' q] ahead_visible [OF assms(1)]
  by (simp add: visible_result_def execution_result_def filled_result_def next_book_def)

lemma apply_visible_event_ok:
  assumes inv: "queue_inv (m, q)" and wf: "event_wf ev"
    and key: "\<And>i. require_current_market_key m (me_timestamp_ns ev) (me_message_index ev) i = Inr ()"
    and run: "apply_visible_event ev (m, q) = (r, (m', q'))"
  shows "visible_result ev m q r m' q'"
proof (cases "me_event_kind ev")
  case ADD
  with run owner_visible_result [of ev apply_add] apply_add_ok [OF inv wf ADD] show ?thesis
    by (simp add: apply_visible_event_def)
next
  case EXECUTE
  with run have "apply_execution ev (m, q) = (r, (m', q'))" by (simp add: apply_visible_event_def)
  from apply_execution_ok [OF inv wf _ key this] EXECUTE show ?thesis
    by (cases r) (simp_all add: visible_result_def execution_result_def)
next
  case EXECUTE_PRICE
  with run have "apply_execution ev (m, q) = (r, (m', q'))" by (simp add: apply_visible_event_def)
  from apply_execution_ok [OF inv wf _ key this] EXECUTE_PRICE show ?thesis
    by (cases r) (simp_all add: visible_result_def execution_result_def)
next
  case CANCEL_EVENT
  with run owner_visible_result [of ev apply_cancel] apply_cancel_ok [OF inv wf CANCEL_EVENT] show ?thesis
    by (simp add: apply_visible_event_def)
next
  case DELETE
  with run owner_visible_result [of ev apply_delete] apply_delete_ok [OF inv wf DELETE] show ?thesis
    by (simp add: apply_visible_event_def)
next
  case REPLACE
  with run owner_visible_result [of ev apply_replace] apply_replace_ok [OF inv wf REPLACE] show ?thesis
    by (simp add: apply_visible_event_def)
next
  case BROKEN_TRADE
  let ?d = "\<lparr>qd_code = BROKEN_TRADE_OBSERVED, qd_message_index = me_message_index ev,
     qd_symbol_id = me_symbol_id ev, qd_simulated_order_id = None,
     qd_reason = match_not_used_for_simulated_fill\<rparr>"
  show ?thesis
  proof (cases "dict_get (vq_used_fill_matches q) (cast_int (me_primary_reference ev))")
    case None
    with run BROKEN_TRADE have r: "r = Inr (None, False)" "m' = m" "q' = add_diagnostic ?d q"
      by (auto simp: apply_visible_event_def apply_broken_trade_def bindM_def on_owner_def)
    have d: "diagnosed q (add_diagnostic ?d q)"
      by (simp add: diagnosed_def add_diagnostic_def diag_inv_def)
    show ?thesis
      unfolding r by (rule unchanged_visible_result [OF diagnosed_inv [OF inv d] d])
        (use BROKEN_TRADE None in \<open>simp_all add: book_step_def Let_def has_key_def\<close>)
  next
    case (Some i)
    with run BROKEN_TRADE show ?thesis
      by (auto simp: apply_visible_event_def apply_broken_trade_def bindM_def on_owner_def
          visible_result_def broken_error_def fail_both_def)
  qed
qed (use run unchanged_visible_result [OF inv diagnosed_refl] in
    \<open>auto simp: apply_visible_event_def book_step_def Let_def\<close>)

section \<open>One market event\<close>

text \<open>
  The invariant of the two objects together: both are consistent, no exposed order could trade
  with the visible book, and the anomaly count is that of the diagnostics and within budget.
\<close>

definition model_inv :: "queue_state \<Rightarrow> bool" where
  "model_inv mq \<longleftrightarrow> queue_inv mq \<and> uncrossed (sm_orders (fst mq)) (snd mq) \<and> diag_inv (snd mq)"

definition fills_result ::
  "market_event \<Rightarrow> visible_queue_model \<Rightarrow> queue_fill list \<Rightarrow> visible_queue_model \<Rightarrow> bool" where
  "fills_result ev q fills q' \<longleftrightarrow>
     (fills = [] \<and> vq_used_fill_matches q' = vq_used_fill_matches q
      \<or> (\<exists>fill s m1 q1. fills = [fill] \<and> fill_spec ev m1 q1 fill s \<and> queue_inv (m1, q1)
           \<and> vq_used_fill_matches q1 = vq_used_fill_matches q
           \<and> vq_used_fill_matches q' =
               dict_set (qf_match_number fill) (qf_simulated_order_id fill) (vq_used_fill_matches q)))"

definition order_error :: "market_event \<Rightarrow> order_state_machine \<Rightarrow> sim_error \<Rightarrow> bool" where
  "order_error ev m e \<longleftrightarrow>
     fst (actions_before_market (me_timestamp_ns ev) (me_message_index ev) (sm_scheduler m)) = Inl e"

text \<open>An order waiting for its activation whose price level holds more than a uint64.\<close>

definition overflow_error :: "order_state_machine \<Rightarrow> visible_queue_model \<Rightarrow> sim_error \<Rightarrow> bool" where
  "overflow_error m q e \<longleftrightarrow> (\<exists>i s. e = SimulationError ERR_QUEUE_STATE (Some i) None
     \<and> dict_get (sm_orders m) i = Some s \<and> so_state s = PENDING_SUBMIT
     \<and> MAX_UINT64 < visible_quantity q (so_symbol_id s, so_side s, so_price4 s))"

text \<open>
  What one call does to the trackers: each one left is an earlier one, or one that started at the
  book before the call, and has kept exactly the references that are still visible.
\<close>

definition ahead_step :: "visible_queue_model \<Rightarrow> visible_queue_model \<Rightarrow> bool" where
  "ahead_step q q' \<longleftrightarrow> (\<forall>i tk'. dict_get (vq_queues q') i = Some tk' \<longrightarrow>
     (\<exists>tk. (dict_get (vq_queues q) i = Some tk \<or> dict_get (vq_queues q) i = None \<and> fresh_tracker q tk)
        \<and> ahead_from tk tk' q'))"

lemma ahead_step_kept:
  assumes "trackers_added q q0" "ahead_kept q0 q'"
  shows "ahead_step q q'"
  unfolding ahead_step_def
proof (intro allI impI)
  fix i tk'
  assume "dict_get (vq_queues q') i = Some tk'"
  then obtain tk where "dict_get (vq_queues q0) i = Some tk" "ahead_from tk tk' q'"
    using ahead_keptD [OF assms(2)] by blast
  with assms(1) show "\<exists>tk. (dict_get (vq_queues q) i = Some tk
      \<or> dict_get (vq_queues q) i = None \<and> fresh_tracker q tk) \<and> ahead_from tk tk' q'"
    unfolding trackers_added_def by blast
qed

lemma ahead_kept_refl: "queue_inv (m, q) \<Longrightarrow> ahead_kept q q"
  by (rule ahead_kept_queues) (auto dest: ahead_visible)

definition process_result ::
  "market_event \<Rightarrow> order_state_machine \<Rightarrow> visible_queue_model \<Rightarrow> queue_event_result result
     \<Rightarrow> order_state_machine \<Rightarrow> visible_queue_model \<Rightarrow> bool" where
  "process_result ev m q r m' q' \<longleftrightarrow> (case r of
       Inl e \<Rightarrow> order_error ev m e \<or> overflow_error m q e \<or> budget_error ev q e \<or> broken_error ev q e
     | Inr res \<Rightarrow> model_inv (m', q') \<and> visible q' = next_book ev q \<and> ahead_step q q'
         \<and> vq_max_queue_anomalies q' = vq_max_queue_anomalies q
         \<and> fills_result ev q (qr_fills res) q'
         \<and> (me_event_kind ev = BROKEN_TRADE \<longrightarrow>
             \<not> has_key (vq_used_fill_matches q) (cast_int (me_primary_reference ev))))"

lemma current_key_opened:
  assumes "actions_before_market t mi s = (Inr as, s')"
  shows "sch_last_market_timestamp_ns s' = Some t" "sch_last_market_message_index s' = Some mi"
    "sch_completed_market_timestamp_ns s' \<noteq> Some t"
  using actions_before_market_Inr(2,3) [OF assms]
  by (auto simp: some_lt_def some_ge_def split: option.splits if_splits)

lemma resolver_error:
  assumes "activation_fails (Some resolve_activation) (queue_contract (sm_orders m) q) e"
  shows "overflow_error m q e"
proof -
  obtain s od q1 ts where c: "queue_contract (sm_orders m) q od q1 ts"
    and s: "dict_get od (so_simulated_order_id s) = Some s" "so_state s = PENDING_SUBMIT"
    and fails: "fst (resolve_queue_ahead (Some resolve_activation) s q1) = Inl e"
    using assms unfolding activation_fails_def by blast
  have book: "book_inv q1" and same: "vq_visible_orders q1 = vq_visible_orders q"
    and old: "dict_get (sm_orders m) (so_simulated_order_id s) = Some s"
    using c s by (simp_all add: queue_contract_def batch_from_def log_same_def pending_from_def)
  have lev: "levels_inv q1" using book by (simp add: book_inv_def)
  let ?key = "(so_symbol_id s, so_side s, so_price4 s)"
  let ?level = "level_at q1 ?key"
  have nn: "0 \<le> ahead_sum ?level"
    unfolding ahead_sum_values by (rule sum_list_nonneg) (use level_values_pos [OF lev] in fastforce)
  have amount: "ahead_sum ?level = visible_quantity q ?key"
    by (simp add: level_quantity [OF lev]) (simp add: visible_quantity_def same)
  obtain best q2 where
    eq: "resolve_activation s q1 =
       (if price_crosses (so_side s) (so_price4 s) best then (Inr None, q2)
        else let level = ?level in
          if ahead_sum level \<le> MAX_UINT64
          then (Inr (Some (ahead_sum level)), q2\<lparr>vq_queues :=
            dict_set (so_simulated_order_id s) (new_tracker s level) (vq_queues q1)\<rparr>)
          else (fail_order ERR_QUEUE_STATE (so_simulated_order_id s), q2))"
    by (rule resolve_activation_ok [OF book])
  have "e = SimulationError ERR_QUEUE_STATE (Some (so_simulated_order_id s)) None
      \<and> MAX_UINT64 < ahead_sum ?level"
    using fails nn
    by (auto simp: eq resolve_queue_ahead_def fail_order_def opt_outside_def valid_int_def Let_def
        split: if_splits)
  with old s(2) show ?thesis by (auto simp: overflow_error_def amount)
qed

lemma contract_start: "model_inv (m, q) \<Longrightarrow> queue_contract (sm_orders m) q (sm_orders m) q []"
  by (simp add: model_inv_def queue_inv_def queue_contract_def tracked_def)

lemma contract_synchronised:
  assumes "sm_inv m" "queue_contract od0 q0 (sm_orders m) q ts" "diag_inv q0"
  shows "model_inv (m, synchronise_transitions ts q)" "log_same q0 (synchronise_transitions ts q)"
    "trackers_added q0 (synchronise_transitions ts q)"
proof -
  have c: "book_inv q" "tracked_mid (sm_orders m) q ts" "uncrossed (sm_orders m) q" "log_same q0 q"
    and added: "trackers_added q0 q"
    using assms(2) by (simp_all add: queue_contract_def batch_from_def)
  show "trackers_added q0 (synchronise_transitions ts q)"
    using added by (simp add: trackers_added_def synchronised_queues)
  show "log_same q0 (synchronise_transitions ts q)" using c(4) by (simp add: log_same_def)
  moreover have "uncrossed (sm_orders m) (synchronise_transitions ts q)"
    using c(3) by (simp add: uncrossed_def)
  moreover have "book_inv (synchronise_transitions ts q)" by (rule book_inv_frame [OF c(1)]) simp_all
  ultimately show "model_inv (m, synchronise_transitions ts q)"
    using assms(1,3) synchronised [OF c(2)] log_same_diag by (simp add: model_inv_def queue_inv_def)
qed

lemma log_same_visible: "log_same q q' \<Longrightarrow> visible q' = visible q \<and> next_book ev q' = next_book ev q"
proof -
  assume "log_same q q'"
  then have "visible q' = visible q" by (simp add: log_same_def visible_def)
  then show ?thesis by (simp only: next_book_def)
qed

lemma before_event_ok:
  assumes inv: "model_inv (m, q)" and wf: "event_wf ev"
    and run: "bindM (before_market_event (me_timestamp_ns ev) (me_message_index ev) (Some resolve_activation))
      (\<lambda>released. bindM (synchronise released) (\<lambda>_. returnM released)) (m, q) = (r, (m', q'))"
  shows "case r of
      Inl e \<Rightarrow> order_error ev m e \<or> overflow_error m q e
    | Inr _ \<Rightarrow> model_inv (m', q') \<and> log_same q q' \<and> trackers_added q q'
        \<and> (\<forall>i. require_current_market_key m' (me_timestamp_ns ev) (me_message_index ev) i = Inr ())"
proof -
  obtain r0 m0 q0 where b: "before_market_event (me_timestamp_ns ev) (me_message_index ev)
      (Some resolve_activation) (m, q) = (r0, (m0, q0))"
    by (cases "before_market_event (me_timestamp_ns ev) (me_message_index ev) (Some resolve_activation) (m, q)") auto
  have sm: "sm_inv m" and dg: "diag_inv q" using inv by (simp_all add: model_inv_def queue_inv_def)
  note k = queue.before_market_event_keeps [OF sm contract_start [OF inv] b]
  show ?thesis
  proof (cases r0)
    case (Inl e)
    with b run have "r = Inl e" by (simp add: bindM_def)
    with k Inl resolver_error show ?thesis by (auto simp: order_error_def)
  next
    case (Inr ts)
    with b run have r: "r = Inr ts" "m' = m0" "q' = synchronise_transitions ts q0"
      by (auto simp: bindM_def synchronise_def on_owner_def)
    with k Inr have c: "sm_inv m0" "queue_contract (sm_orders m) q (sm_orders m0) q0 ts"
      and sch: "sm_scheduler m0 = snd (actions_before_market (me_timestamp_ns ev) (me_message_index ev) (sm_scheduler m))"
      by simp_all
    obtain as where "actions_before_market (me_timestamp_ns ev) (me_message_index ev) (sm_scheduler m)
        = (Inr as, sm_scheduler m0)"
      using b Inr sch
      by (cases "actions_before_market (me_timestamp_ns ev) (me_message_index ev) (sm_scheduler m)";
          cases "fst (actions_before_market (me_timestamp_ns ev) (me_message_index ev) (sm_scheduler m))")
        (auto simp: before_market_event_def bindM_def on_machine_def on_scheduler_def)
    from current_key_opened [OF this] have
      "require_current_market_key m0 (me_timestamp_ns ev) (me_message_index ev) i = Inr ()" for i
      by (simp add: require_current_market_key_Inr)
    with r contract_synchronised [OF c dg] show ?thesis by simp
  qed
qed

lemma after_visible_ok:
  assumes inv: "model_inv (m, q)" and wf: "event_wf ev"
    and key: "\<And>i. require_current_market_key m (me_timestamp_ns ev) (me_message_index ev) i = Inr ()"
    and vis: "execution_result ev m q (Inr (filled, applied)) m1 q1"
  defines "q2 \<equiv> synchronise_transitions (fill_transitions filled) q1"
  shows "\<exists>ts m' q'. (if applied
      then bindM (invalidate_crossed_remainders ev) (\<lambda>ts. bindM (synchronise ts) (\<lambda>_. returnM ts))
      else returnM []) (m1, q2) = (Inr ts, (m', q')) \<and> model_inv (m', q')
    \<and> visible q' = next_book ev q \<and> vq_used_fill_matches q' = vq_used_fill_matches q1
    \<and> vq_max_queue_anomalies q' = vq_max_queue_anomalies q \<and> ahead_kept q q'"
proof -
  have e: "filled_result ev m q filled m1 q1" "visible q1 = next_book ev q"
    "applied \<longleftrightarrow> book_step ev (visible q) \<noteq> None" "filled \<noteq> None \<longrightarrow> applied"
    "vq_max_queue_anomalies q1 = vq_max_queue_anomalies q" "diag_inv q \<longrightarrow> diag_inv q1"
    and kept: "ahead_kept q q1"
    using vis unfolding execution_result_def sum.case prod.case by blast+
  have i: "queue_inv (m, q)" "uncrossed (sm_orders m) q" "diag_inv q" using inv by (simp_all add: model_inv_def)
  have q2: "visible q2 = visible q1" "vq_used_fill_matches q2 = vq_used_fill_matches q1"
    "vq_max_queue_anomalies q2 = vq_max_queue_anomalies q1" "diag_inv q2 = diag_inv q1"
    by (simp_all add: q2_def visible_def diag_inv_def)
  have inv2: "queue_inv (m1, q2) \<and> sm_scheduler m1 = sm_scheduler m"
  proof (cases filled)
    case None
    then have "m1 = m" "queue_inv (m, q1)" using e(1) by (simp_all add: filled_result_def)
    moreover have "q2 = q1" using None by (simp add: q2_def fill_transitions_def synchronise_transitions_def)
    ultimately show ?thesis by simp
  next
    case (Some ft)
    obtain fill tr where ft: "ft = (fill, tr)" by (cases ft)
    with Some e(1) have f: "sm_inv m1" "book_inv q1" "tracked_mid (sm_orders m1) q1 [tr]"
      "sm_scheduler m1 = sm_scheduler m" by (auto simp: filled_result_def)
    moreover have "q2 = synchronise_transitions [tr] q1" using Some ft by (simp add: q2_def fill_transitions_def)
    ultimately show ?thesis
      using synchronised [OF f(3)] book_inv_frame [OF f(2)] by (simp add: queue_inv_def)
  qed
  have key1: "require_current_market_key m1 (me_timestamp_ns ev) (me_message_index ev) i = Inr ()" for i
    using key [of i] inv2 by (simp add: require_current_market_key_Inr)
  have kept': "ahead_kept q q'" if "\<And>i tk. dict_get (vq_queues q') i = Some tk \<Longrightarrow>
      dict_get (vq_queues q2) i = Some tk" "visible q' = visible q2" for q'
  proof (rule ahead_kept_mono [OF kept])
    show "dict_get (vq_queues q1) i = Some tk" if "dict_get (vq_queues q') i = Some tk" for i tk
      using \<open>\<And>i tk. dict_get (vq_queues q') i = Some tk \<Longrightarrow> dict_get (vq_queues q2) i = Some tk\<close> [OF that]
      by (simp add: q2_def synchronised_queues split: if_splits)
  qed (use that(2) q2(1) in simp)
  show ?thesis
  proof (cases applied)
    case True
    obtain ts m' q' where c: "invalidate_crossed_remainders ev (m1, q2) = (Inr ts, (m', q'))"
      "queue_inv (m', synchronise_transitions ts q')" "crossing_frame q2 q'" "uncrossed (sm_orders m') q'"
      by (rule invalidate_crossed_remainders_ok [OF conjunct1 [OF inv2] key1])
    have "model_inv (m', synchronise_transitions ts q')"
      using c e(6) i(3) q2(4) by (simp add: model_inv_def uncrossed_def crossing_frame_def diag_inv_def)
    moreover have "ahead_kept q (synchronise_transitions ts q')"
      by (rule kept') (use c(3) in \<open>auto simp: synchronised_queues crossing_frame_def visible_def
        split: if_splits\<close>)
    ultimately show ?thesis using True c q2 e(2,5)
      by (intro exI [of _ ts] exI [of _ m'] exI [of _ "synchronise_transitions ts q'"])
        (simp add: bindM_def synchronise_def on_owner_def crossing_frame_def visible_def)
  next
    case False
    with e(3,4) have none: "filled = None" "next_book ev q = visible q"
      by (cases filled; simp add: next_book_def)+
    with e(1) have "m1 = m" by (simp add: filled_result_def)
    moreover have "uncrossed (sm_orders m) q2"
      using i(2) q2(1) e(2) none(2) by (simp add: uncrossed_iff safe_order_def)
    ultimately have "model_inv (m1, q2)" using inv2 e(6) i(3) q2(4) by (simp add: model_inv_def)
    with False q2 e(2,5) kept' [of q2] show ?thesis by simp
  qed
qed

lemma process_event_ok:
  assumes inv: "model_inv (m, q)" and wf: "event_wf ev"
    and run: "process_event ev (m, q) = (r, (m', q'))"
  shows "process_result ev m q r m' q'"
proof -
  let ?before = "bindM (before_market_event (me_timestamp_ns ev) (me_message_index ev) (Some resolve_activation))
      (\<lambda>released. bindM (synchronise released) (\<lambda>_. returnM released)) (m, q)"
  obtain r0 m0 q0 where b: "?before = (r0, (m0, q0))" by (cases ?before) auto
  note kb = before_event_ok [OF inv wf b]
  obtain rb mqb where bb: "before_market_event (me_timestamp_ns ev) (me_message_index ev)
      (Some resolve_activation) (m, q) = (rb, mqb)"
    by (cases "before_market_event (me_timestamp_ns ev) (me_message_index ev) (Some resolve_activation) (m, q)")
  show ?thesis
  proof (cases r0)
    case (Inl e)
    with b bb have "rb = Inl e"
      by (cases rb) (auto simp: bindM_def synchronise_def on_owner_def)
    with run bb have "r = Inl e" by (simp add: process_event_def bindM_def Let_def)
    with kb Inl show ?thesis by (auto simp: process_result_def)
  next
    case (Inr released)
    with kb have inv0: "model_inv (m0, q0)" and log: "log_same q q0" and added: "trackers_added q q0"
      and key: "\<And>i. require_current_market_key m0 (me_timestamp_ns ev) (me_message_index ev) i = Inr ()"
      by simp_all
    obtain mb qb where bb': "rb = Inr released" "mqb = (mb, qb)" "m0 = mb" "q0 = synchronise_transitions released qb"
      using b bb Inr by (cases rb; cases mqb) (auto simp: bindM_def synchronise_def on_owner_def)
    obtain r1 m1 q1 where v: "apply_visible_event ev (m0, q0) = (r1, (m1, q1))"
      by (cases "apply_visible_event ev (m0, q0)") auto
    have qi: "queue_inv (m0, q0)" using inv0 by (simp add: model_inv_def)
    note kv = apply_visible_event_ok [OF qi wf key v]
    have matches: "vq_used_fill_matches q0 = vq_used_fill_matches q" using log by (simp add: log_same_def)
    show ?thesis
    proof (cases r1)
      case (Inl e)
      with run bb bb' v have "r = Inl e"
        by (simp add: process_event_def bindM_def Let_def synchronise_def on_owner_def)
      then show ?thesis using kv Inl matches log
        by (auto simp: process_result_def visible_result_def broken_error_def budget_error_def log_same_def)
    next
      case (Inr fa)
      obtain filled applied where fa: "fa = (filled, applied)" by (cases fa)
      with kv Inr have ex: "execution_result ev m0 q0 (Inr (filled, applied)) m1 q1"
        and br: "me_event_kind ev = BROKEN_TRADE \<longrightarrow>
             \<not> has_key (vq_used_fill_matches q) (cast_int (me_primary_reference ev))"
        by (simp_all add: visible_result_def matches)
      let ?q2 = "synchronise_transitions (fill_transitions filled) q1"
      obtain ts m2 q2 where a: "(if applied
          then bindM (invalidate_crossed_remainders ev) (\<lambda>ts. bindM (synchronise ts) (\<lambda>_. returnM ts))
          else returnM []) (m1, ?q2) = (Inr ts, (m2, q2))" "model_inv (m2, q2)"
        "visible q2 = next_book ev q0" "vq_used_fill_matches q2 = vq_used_fill_matches q1"
        "vq_max_queue_anomalies q2 = vq_max_queue_anomalies q0" "ahead_kept q0 q2"
        using after_visible_ok [OF inv0 wf key ex] by blast
      have r: "\<exists>res. r = Inr res \<and> m' = m2 \<and> q' = q2
          \<and> qr_fills res = (case filled of None \<Rightarrow> [] | Some (fill, t) \<Rightarrow> [fill])"
        using run bb bb' v Inr fa a(1)
        by (auto simp: process_event_def bindM_def Let_def synchronise_def on_owner_def)
      have fr: "filled_result ev m0 q0 filled m1 q1" using ex by (simp add: execution_result_def)
      have "fills_result ev q (case filled of None \<Rightarrow> [] | Some (fill, t) \<Rightarrow> [fill]) q2"
      proof (cases filled)
        case None
        with fr a(4) matches show ?thesis by (simp add: fills_result_def filled_result_def)
      next
        case (Some ft)
        with fr a(4) matches qi show ?thesis
          by (auto simp: fills_result_def filled_result_def)
      qed
      with r a log_same_visible [OF log] log br ahead_step_kept [OF added a(6)] show ?thesis
        by (auto simp: process_result_def log_same_def)
    qed
  qed
qed

lemma complete_market_timestamp_ok:
  assumes inv: "model_inv (m, q)" and run: "complete_market_timestamp t (m, q) = (r, (m', q'))"
  shows "case r of
      Inl e \<Rightarrow> fst (actions_after_market_timestamp t (sm_scheduler m)) = Inl e \<or> overflow_error m q e
    | Inr ts \<Rightarrow> model_inv (m', q') \<and> log_same q q' \<and> ahead_step q q'"
proof -
  obtain r0 m0 q0 where b: "after_market_timestamp t (Some resolve_activation) (m, q) = (r0, (m0, q0))"
    by (cases "after_market_timestamp t (Some resolve_activation) (m, q)") auto
  have sm: "sm_inv m" and dg: "diag_inv q" using inv by (simp_all add: model_inv_def queue_inv_def)
  note k = queue.after_market_timestamp_keeps [OF sm contract_start [OF inv] b]
  show ?thesis
  proof (cases r0)
    case (Inl e)
    with b run have "r = Inl e" by (simp add: complete_market_timestamp_def bindM_def)
    with k Inl resolver_error show ?thesis by auto
  next
    case (Inr ts)
    with b run have r: "r = Inr ts" "m' = m0" "q' = synchronise_transitions ts q0"
      by (auto simp: complete_market_timestamp_def bindM_def synchronise_def on_owner_def)
    with k Inr have "sm_inv m0" "queue_contract (sm_orders m) q (sm_orders m0) q0 ts" by simp_all
    note c = contract_synchronised [OF this dg]
    then have "queue_inv (m0, synchronise_transitions ts q0)" by (simp add: model_inv_def)
    with r c ahead_step_kept [OF c(3) ahead_kept_refl] show ?thesis by simp
  qed
qed

section \<open>The queue model as a machine\<close>

text \<open>
  The calls the simulation makes: a market row, the end of a timestamp, and the strategy's
  submissions and cancellation requests, which go to the state machine the model drives.
\<close>

datatype model_call =
    Call_market market_row
  | Call_complete int
  | Call_strategy_submit order_request
  | Call_strategy_cancel int int int

datatype model_reply = Reply_event queue_event_result | Reply_transitions "order_transition list"

fun model_step :: "queue_state \<Rightarrow> model_call \<Rightarrow> model_reply result \<times> queue_state" where
  "model_step mq (Call_market row) = bindM (process_market_event row) (\<lambda>r. returnM (Reply_event r)) mq"
| "model_step mq (Call_complete t) =
     bindM (complete_market_timestamp t) (\<lambda>ts. returnM (Reply_transitions ts)) mq"
| "model_step mq (Call_strategy_submit request) =
     bindM (on_machine (submit request)) (\<lambda>t. returnM (Reply_transitions [t])) mq"
| "model_step mq (Call_strategy_cancel i t mi) =
     bindM (on_machine (request_cancel i t mi)) (\<lambda>t. returnM (Reply_transitions [t])) mq"

fun fills_in :: "model_reply \<Rightarrow> queue_fill list" where
  "fills_in (Reply_event r) = qr_fills r"
| "fills_in (Reply_transitions ts) = []"

text \<open>A strategy call changes one order that is not exposed, or leaves its exposure alone.\<close>

lemma strategy_change:
  assumes inv: "model_inv (m, q)" and sm: "sm_inv m'"
    and od: "sm_orders m' = dict_set i s' (sm_orders m)"
    and cases: "dict_get (sm_orders m) i = None \<and> so_state s' = PENDING_SUBMIT
      \<or> (\<exists>s. dict_get (sm_orders m) i = Some s \<and> (EXPOSED_STATES (so_state s') \<longleftrightarrow> EXPOSED_STATES (so_state s))
           \<and> same_identity s s' \<and> so_queue_ahead_initial s' = so_queue_ahead_initial s)"
  shows "model_inv (m', q)"
proof -
  have i: "book_inv q" "tracked (sm_orders m) q" "uncrossed (sm_orders m) q" "diag_inv q"
    using inv by (simp_all add: model_inv_def queue_inv_def)
  note tr = i(2) [unfolded tracked_def]
  have "tracked_mid (dict_set i s' (sm_orders m)) q []"
  proof (rule tracked_midI)
    fix j
    show "has_key (vq_queues q) j" if "dict_get (dict_set i s' (sm_orders m)) j = Some s" "EXPOSED_STATES (so_state s)" for s
      using that cases tracked_midD(5) [OF tr, of j] by (auto simp: has_key_iff split: if_splits)
    fix tk
    assume tk: "dict_get (vq_queues q) j = Some tk"
    obtain s where s: "dict_get (sm_orders m) j = Some s" "EXPOSED_STATES (so_state s)" "tracks s tk"
      using tracked_get [OF i(2) tk] by blast
    show "ahead_ok q tk \<and> tq_simulated_order_id tk = j
      \<and> (\<exists>s. dict_get (dict_set i s' (sm_orders m)) j = Some s \<and> (EXPOSED_STATES (so_state s) \<longrightarrow> tracks s tk)
           \<and> (EXPOSED_STATES (so_state s) \<or> j \<in> ended_in []))"
    proof (cases "j = i")
      case True
      with s cases have "EXPOSED_STATES (so_state s')" "tracks s' tk"
        by (auto simp: tracks_def same_identity_def)
      with True tracked_midD(2,3) [OF tr tk] show ?thesis by simp
    next
      case False
      with s tracked_midD(2,3) [OF tr tk] show ?thesis by simp
    qed
  qed (use tracked_midD(1) [OF tr] in simp_all)
  moreover have "uncrossed (dict_set i s' (sm_orders m)) q"
  proof (rule uncrossed_set [OF i(3) refl])
    fix r v
    assume e: "EXPOSED_STATES (so_state s')" and v: "dict_get (vq_visible_orders q) r = Some v"
      "vo_symbol_id v = so_symbol_id s'" "vo_side v = - so_side s'"
    from e cases obtain s where s: "dict_get (sm_orders m) i = Some s" "EXPOSED_STATES (so_state s)"
      "same_identity s s'" by auto
    then have "so_symbol_id s' = so_symbol_id s" "so_side s' = so_side s" "so_price4 s' = so_price4 s"
      by (simp_all add: same_identity_def)
    with uncrossedD [OF i(3) s(1,2) v(1)] v show
      "\<not> price_crosses (so_side s') (so_price4 s') (Some (vo_price4 v))" by simp
  qed
  ultimately show ?thesis
    using sm i od by (simp add: model_inv_def queue_inv_def tracked_def)
qed

lemma strategy_submit_ok:
  assumes inv: "model_inv (m, q)" and run: "submit request m = (Inr t, m')"
  shows "model_inv (m', q)"
proof -
  have sm: "sm_inv m" using inv by (simp add: model_inv_def queue_inv_def)
  show ?thesis
    using run
  proof (rule submit_Inr)
    fix a :: scheduled_action and sch
    assume s: "dict_get (sm_orders m) (rq_simulated_order_id request) = None"
      "m' = m\<lparr>sm_scheduler := sch,
           sm_orders := dict_set (rq_simulated_order_id request)
             (new_order request (sa_effective_timestamp_ns a)) (sm_orders m),
           sm_occupied_slots := dict_set (rq_symbol_id request, rq_side request)
             (rq_simulated_order_id request) (sm_occupied_slots m),
           sm_scheduled_actions := dict_set (sa_sequence a) a (sm_scheduled_actions m)\<rparr>"
    show ?thesis
      by (rule strategy_change [OF inv submit_inv [OF sm run], where i = "rq_simulated_order_id request"
            and s' = "new_order request (sa_effective_timestamp_ns a)"]) (simp_all add: s)
  qed
qed

lemma strategy_cancel_ok:
  assumes inv: "model_inv (m, q)" and run: "request_cancel i t mi m = (Inr tr, m')"
  shows "model_inv (m', q)"
proof -
  have sm: "sm_inv m" using inv by (simp add: model_inv_def queue_inv_def)
  show ?thesis
    using run
  proof (rule request_cancel_Inr)
    fix s s' :: simulated_order and a :: scheduled_action and sch
    assume s: "dict_get (sm_orders m) i = Some s"
      "so_state s = PENDING_SUBMIT \<or> so_state s = ACTIVE \<or> so_state s = PARTIALLY_FILLED"
      "s' = s\<lparr>so_state := (if so_state s = PENDING_SUBMIT then PENDING_SUBMIT else PENDING_CANCEL),
           so_cancel_requested_ns := Some t\<rparr>"
      "m' = m\<lparr>sm_scheduler := sch, sm_orders := dict_set i s' (sm_orders m),
           sm_scheduled_actions := dict_set (sa_sequence a) a (sm_scheduled_actions m)\<rparr>"
    show ?thesis
      by (rule strategy_change [OF inv request_cancel_inv [OF sm run], where i = i and s' = s'])
        (use s in \<open>auto simp: same_identity_def\<close>)
  qed
qed

lemma process_market_event_ok:
  assumes inv: "model_inv (m, q)" and run: "process_market_event row (m, q) = (r, (m', q'))"
  shows "case r of
      Inl e \<Rightarrow> adapt_market_event row = Inl e
        \<or> (\<exists>ev. adapt_market_event row = Inr ev \<and> event_wf ev \<and> process_result ev m q (Inl e) m' q')
    | Inr res \<Rightarrow> adapt_market_event row = Inr (qr_event res) \<and> event_wf (qr_event res)
        \<and> process_result (qr_event res) m q r m' q'"
proof (cases "adapt_market_event row")
  case (Inl e)
  with run show ?thesis by (auto simp: process_market_event_def bindM_def)
next
  case (Inr ev)
  with run have p: "process_event ev (m, q) = (r, (m', q'))"
    by (simp add: process_market_event_def bindM_def)
  have wf: "event_wf ev"
    using Inr adapt_event_Inr adapt_mapping_Inr
    by (cases row) (auto simp: adapt_market_event_def)
  have "qr_event res = ev" if "r = Inr res" for res
    using p that unfolding process_event_def Let_def bindM_Inr
    by (auto simp: bindM_Inr split: prod.splits)
  with process_event_ok [OF inv wf p] Inr wf show ?thesis by (cases r) auto
qed

interpretation model: invariant_machine model_step model_inv
proof
  fix mq mq' :: queue_state and c r
  assume inv: "model_inv mq" and run: "model_step mq c = (Inr r, mq')"
  obtain m q m' q' where mq: "mq = (m, q)" "mq' = (m', q')" by (cases mq; cases mq')
  show "model_inv mq'"
  proof (cases c)
    case (Call_market row)
    with run mq obtain res where "process_market_event row (m, q) = (Inr res, (m', q'))"
      by (auto simp: bindM_Inr)
    from process_market_event_ok [OF _ this] inv mq show ?thesis by (simp add: process_result_def)
  next
    case (Call_complete t)
    with run mq obtain ts where "complete_market_timestamp t (m, q) = (Inr ts, (m', q'))"
      by (auto simp: bindM_Inr)
    from complete_market_timestamp_ok [OF _ this] inv mq show ?thesis by simp
  next
    case (Call_strategy_submit request)
    with run mq obtain t where "submit request m = (Inr t, m')" "q' = q"
      by (auto simp: bindM_Inr on_machine_def split: prod.splits)
    with strategy_submit_ok inv mq show ?thesis by blast
  next
    case (Call_strategy_cancel i t mi)
    with run mq obtain tr where "request_cancel i t mi m = (Inr tr, m')" "q' = q"
      by (auto simp: bindM_Inr on_machine_def split: prod.splits)
    with strategy_cancel_ok inv mq show ?thesis by blast
  qed
qed

lemma model_inv_new:
  assumes "new_state_machine sub can = Inr m" "new_queue_model budget = Inr q"
  shows "model_inv (m, q)"
proof -
  have od: "sm_orders m = []" using assms(1) by (auto simp: new_state_machine_def split: sum.splits if_splits)
  have q: "q = \<lparr>vq_max_queue_anomalies = budget, vq_visible_orders = [], vq_visible_levels = [],
      vq_price_heaps = [], vq_heap_prices = [], vq_queues = [], vq_used_fill_matches = [],
      vq_diagnostics = [], vq_anomaly_count = 0\<rparr>" and b: "0 \<le> budget"
    using assms(2) by (auto simp: new_queue_model_def valid_int_def split: if_splits)
  have "book_inv q"
    by (simp add: q book_inv_def levels_inv_def heaps_inv_def level_at_def heap_at_def prices_at_def
        dict_get_default_def has_key_def)
  moreover have "tracked_mid [] q []" by (simp add: q tracked_mid_def)
  ultimately show ?thesis
    using sm_inv_new [OF assms(1)] b
    by (simp add: model_inv_def queue_inv_def tracked_def od uncrossed_def diag_inv_def q)
qed

text \<open>Match numbers over a run: the ones used never shrink, and each is filled at most once.\<close>

lemma step_matches:
  assumes inv: "model_inv mq" and run: "model_step mq c = (Inr r, mq')"
  shows "distinct (map qf_match_number (fills_in r))
    \<and> (\<forall>k. has_key (vq_used_fill_matches (snd mq')) k \<longleftrightarrow>
         has_key (vq_used_fill_matches (snd mq)) k \<or> k \<in> qf_match_number ` set (fills_in r))
    \<and> (\<forall>k \<in> qf_match_number ` set (fills_in r). \<not> has_key (vq_used_fill_matches (snd mq)) k)"
proof -
  obtain m q m' q' where mq: "mq = (m, q)" "mq' = (m', q')" by (cases mq; cases mq')
  show ?thesis
  proof (cases c)
    case (Call_market row)
    with run mq obtain res where p: "process_market_event row (m, q) = (Inr res, (m', q'))" "r = Reply_event res"
      by (auto simp: bindM_Inr)
    from process_market_event_ok [OF _ p(1)] inv mq have
      "fills_result (qr_event res) q (qr_fills res) q'" by (simp add: process_result_def)
    with p(2) mq show ?thesis
      by (auto simp: fills_result_def fill_spec_def has_key_def split: if_splits)
  next
    case (Call_complete t)
    with run mq obtain ts where "complete_market_timestamp t (m, q) = (Inr ts, (m', q'))" "r = Reply_transitions ts"
      by (auto simp: bindM_Inr)
    from complete_market_timestamp_ok [OF _ this(1)] this(2) inv mq show ?thesis by (simp add: log_same_def)
  qed (use run mq in \<open>auto simp: bindM_Inr on_machine_def split: prod.splits\<close>)
qed

lemma run_matches:
  assumes "model_inv mq" "run_steps model_step mq cs = (Inr rs, mq')"
  shows "distinct (map qf_match_number (concat (map fills_in rs)))
    \<and> (\<forall>k. has_key (vq_used_fill_matches (snd mq')) k \<longleftrightarrow>
         has_key (vq_used_fill_matches (snd mq)) k \<or> k \<in> qf_match_number ` set (concat (map fills_in rs)))
    \<and> (\<forall>k \<in> qf_match_number ` set (concat (map fills_in rs)). \<not> has_key (vq_used_fill_matches (snd mq)) k)"
  using assms
proof (induction cs arbitrary: mq rs)
  case Nil
  then show ?case by simp
next
  case (Cons c cs)
  from Cons.prems(2) obtain r rs1 mq1 where one: "model_step mq c = (Inr r, mq1)"
    and rest: "run_steps model_step mq1 cs = (Inr rs1, mq')" and rs: "rs = r # rs1"
    by (auto simp only: run_steps_Cons_Inr)
  have inv1: "model_inv mq1" by (rule model.step_inv [OF Cons.prems(1) one])
  let ?M = "qf_match_number" and ?A = "fills_in r" and ?B = "concat (map fills_in rs1)"
  have s: "distinct (map ?M ?A)"
    "\<And>k. has_key (vq_used_fill_matches (snd mq1)) k \<longleftrightarrow>
       has_key (vq_used_fill_matches (snd mq)) k \<or> k \<in> ?M ` set ?A"
    "\<And>k. k \<in> ?M ` set ?A \<Longrightarrow> \<not> has_key (vq_used_fill_matches (snd mq)) k"
    using step_matches [OF Cons.prems(1) one] by blast+
  have ih: "distinct (map ?M ?B)"
    "\<And>k. has_key (vq_used_fill_matches (snd mq')) k \<longleftrightarrow>
       has_key (vq_used_fill_matches (snd mq1)) k \<or> k \<in> ?M ` set ?B"
    "\<And>k. k \<in> ?M ` set ?B \<Longrightarrow> \<not> has_key (vq_used_fill_matches (snd mq1)) k"
    using Cons.IH [OF inv1 rest] by blast+
  have eq: "concat (map fills_in rs) = ?A @ ?B" "?M ` set (?A @ ?B) = ?M ` set ?A \<union> ?M ` set ?B"
    by (simp_all add: rs image_Un)
  have "?M ` set ?A \<inter> ?M ` set ?B = {}" using s(2) ih(3) by blast
  with s(1) ih(1) have "distinct (map ?M (?A @ ?B))" by simp
  moreover have "has_key (vq_used_fill_matches (snd mq')) k \<longleftrightarrow>
      has_key (vq_used_fill_matches (snd mq)) k \<or> k \<in> ?M ` set ?A \<union> ?M ` set ?B" for k
    using s(2) ih(2) by blast
  moreover have "\<not> has_key (vq_used_fill_matches (snd mq)) k" if "k \<in> ?M ` set ?A \<union> ?M ` set ?B" for k
    using that s(2,3) ih(3) by blast
  ultimately show ?case unfolding eq by blast
qed

section \<open>Queue positions over a run\<close>

text \<open>
  The state after the first \<open>k\<close> calls of a run, whether an order is exposed in it, and whether a
  reference is visible at a symbol, side and price: what a queue position is measured against.
\<close>

definition after_calls :: "queue_state \<Rightarrow> model_call list \<Rightarrow> nat \<Rightarrow> queue_state" where
  "after_calls mq calls k = snd (run_steps model_step mq (take k calls))"

definition exposed_in :: "queue_state \<Rightarrow> int \<Rightarrow> bool" where
  "exposed_in mq i \<longleftrightarrow> (case dict_get (sm_orders (fst mq)) i of None \<Rightarrow> False
     | Some s \<Rightarrow> EXPOSED_STATES (so_state s))"

definition visible_at :: "visible_queue_model \<Rightarrow> int \<times> int \<times> int \<Rightarrow> int \<Rightarrow> bool" where
  "visible_at q key r \<longleftrightarrow> (case visible q r of None \<Rightarrow> False | Some v \<Rightarrow> level_key v = key)"

lemma run_steps_snoc_Inr:
  "run_steps step s (cs @ [c]) = (Inr zs, s') \<longleftrightarrow>
     (\<exists>rs s1 r. run_steps step s cs = (Inr rs, s1) \<and> step s1 c = (Inr r, s') \<and> zs = rs @ [r])"
proof (induction cs arbitrary: s zs)
  case Nil
  then show ?case by (auto split: prod.splits sum.splits)
next
  case (Cons d cs)
  show ?case unfolding append_Cons run_steps_Cons_Inr Cons.IH by fastforce
qed

lemma after_calls_snoc: "k \<le> length calls \<Longrightarrow> after_calls mq (calls @ [c]) k = after_calls mq calls k"
  by (simp add: after_calls_def)

lemma after_calls_all: "run_steps model_step mq calls = (r, mq') \<Longrightarrow> after_calls mq calls (length calls) = mq'"
  by (simp add: after_calls_def)

lemma exposed_tracker:
  assumes "model_inv mq"
  shows "exposed_in mq i \<longleftrightarrow> has_key (vq_queues (snd mq)) i"
proof -
  have tr: "tracked (sm_orders (fst mq)) (snd mq)" using assms by (simp add: model_inv_def queue_inv_def)
  show ?thesis
    using tracked_midD(5) [OF tr [unfolded tracked_def], of i] tracked_get [OF tr, of i]
    by (fastforce simp: exposed_in_def has_key_iff split: option.splits)
qed

lemma level_visible_at:
  assumes "model_inv mq"
  shows "has_key (level_at (snd mq) key) r \<longleftrightarrow> visible_at (snd mq) key r"
proof -
  have "levels_inv (snd mq)" using assms by (simp add: model_inv_def queue_inv_def book_inv_def)
  from levels_inv_level_iff [OF this] show ?thesis
    by (auto simp: has_key_iff visible_at_def visible_def split: option.splits)
qed

lemma ahead_visible_at:
  assumes "model_inv mq" "dict_get (vq_queues (snd mq)) i = Some tk" "has_key (tq_ahead tk) r"
  shows "visible_at (snd mq) (tracker_key tk) r"
proof -
  have "queue_inv (fst mq, snd mq)" using assms(1) by (simp add: model_inv_def)
  from tracker_visible [OF this assms(2), of r] assms(3) show ?thesis
    by (fastforce simp: has_key_iff visible_at_def visible_def)
qed

lemma model_ahead_step:
  assumes inv: "model_inv mq" and run: "model_step mq c = (Inr r, mq')"
  shows "ahead_step (snd mq) (snd mq')"
proof -
  obtain m q m' q' where mq: "mq = (m, q)" "mq' = (m', q')" by (cases mq; cases mq')
  have "queue_inv (m, q)" using inv mq by (simp add: model_inv_def)
  then have refl: "ahead_step q q"
    by (intro ahead_step_kept [of q q q] ahead_kept_refl) (simp_all add: trackers_added_def)
  show ?thesis
  proof (cases c)
    case (Call_market row)
    with run mq obtain res where "process_market_event row (m, q) = (Inr res, (m', q'))"
      by (auto simp: bindM_Inr)
    from process_market_event_ok [OF _ this] inv mq show ?thesis by (simp add: process_result_def)
  next
    case (Call_complete t)
    with run mq obtain ts where "complete_market_timestamp t (m, q) = (Inr ts, (m', q'))"
      by (auto simp: bindM_Inr)
    from complete_market_timestamp_ok [OF _ this] inv mq show ?thesis by simp
  qed (use run mq refl in \<open>auto simp: bindM_Inr on_machine_def split: prod.splits\<close>)
qed

text \<open>
  A tracker at the end of a run was made by the call after the first \<open>n\<close>: it started with the
  whole level its order joined, and has what stayed visible there ever since.
\<close>

definition position_since ::
  "queue_state \<Rightarrow> model_call list \<Rightarrow> int \<Rightarrow> tracked_queue \<Rightarrow> nat \<Rightarrow> bool" where
  "position_since mq calls i tk n \<longleftrightarrow> n < length calls
     \<and> \<not> exposed_in (after_calls mq calls n) i
     \<and> (\<forall>k. n < k \<and> k \<le> length calls \<longrightarrow> exposed_in (after_calls mq calls k) i)
     \<and> tq_initial_quantity tk = visible_quantity (snd (after_calls mq calls n)) (tracker_key tk)
     \<and> (\<forall>r. has_key (tq_ahead tk) r \<longleftrightarrow> (\<forall>k. n \<le> k \<and> k \<le> length calls \<longrightarrow>
          visible_at (snd (after_calls mq calls k)) (tracker_key tk) r))"

lemma all_upto_Suc: "n \<le> Suc l \<Longrightarrow>
    (\<forall>k. n \<le> k \<and> k \<le> Suc l \<longrightarrow> P k) \<longleftrightarrow> (\<forall>k. n \<le> k \<and> k \<le> l \<longrightarrow> P k) \<and> P (Suc l)"
  by (auto simp: le_Suc_eq)

lemma run_positions:
  assumes "model_inv mq" "vq_queues (snd mq) = []" "run_steps model_step mq calls = (Inr rs, mq')"
    "dict_get (vq_queues (snd mq')) i = Some tk"
  shows "\<exists>n. position_since mq calls i tk n"
  using assms(3,4)
proof (induction calls arbitrary: rs mq' tk rule: rev_induct)
  case Nil
  with assms(2) show ?case by simp
next
  case (snoc c calls)
  from snoc.prems(1) obtain rs1 mq1 r where run: "run_steps model_step mq calls = (Inr rs1, mq1)"
    and one: "model_step mq1 c = (Inr r, mq')"
    unfolding run_steps_snoc_Inr by blast
  have inv1: "model_inv mq1" by (rule model.run_inv [OF assms(1) run])
  have inv': "model_inv mq'" by (rule model.step_inv [OF inv1 one])
  let ?at = "after_calls mq (calls @ [c])"
  have at: "?at (length calls) = mq1" "?at (Suc (length calls)) = mq'"
    using after_calls_snoc [of "length calls" calls mq c] after_calls_all [OF run]
      after_calls_all [OF snoc.prems(1)] by simp_all
  have now: "exposed_in mq' i" using exposed_tracker [OF inv', of i] snoc.prems(2) by (simp add: has_key_iff)
  obtain tk0 where old: "dict_get (vq_queues (snd mq1)) i = Some tk0
      \<or> dict_get (vq_queues (snd mq1)) i = None \<and> fresh_tracker (snd mq1) tk0"
    and ff: "ahead_from tk0 tk (snd mq')"
    using model_ahead_step [OF inv1 one] snoc.prems(2) unfolding ahead_step_def by blast
  have key: "tracker_key tk = tracker_key tk0" and init: "tq_initial_quantity tk = tq_initial_quantity tk0"
    using ff by (simp_all add: ahead_from_def)
  have ahead: "has_key (tq_ahead tk) r \<longleftrightarrow>
      has_key (tq_ahead tk0) r \<and> visible_at (snd mq') (tracker_key tk0) r" for r
    using ff ahead_visible_at [OF inv' snoc.prems(2), of r] key
    by (auto simp: ahead_from_def visible_at_def split: option.splits)
  show ?case
    using old
  proof
    assume "dict_get (vq_queues (snd mq1)) i = Some tk0"
    from snoc.IH [OF run this] obtain n where n: "position_since mq calls i tk0 n" ..
    then have le: "n \<le> length calls" "n \<le> Suc (length calls)" "Suc n \<le> Suc (length calls)"
      by (simp_all add: position_since_def)
    have "position_since mq (calls @ [c]) i tk n"
      using n now le
      by (simp add: position_since_def ahead key init at after_calls_snoc all_upto_Suc
          Suc_le_eq [symmetric])
    then show ?thesis ..
  next
    assume new: "dict_get (vq_queues (snd mq1)) i = None \<and> fresh_tracker (snd mq1) tk0"
    have lev: "levels_inv (snd mq1)" using inv1 by (simp add: model_inv_def queue_inv_def book_inv_def)
    have "\<not> exposed_in mq1 i" using new exposed_tracker [OF inv1, of i] by (simp add: has_key_def)
    moreover have "tq_initial_quantity tk0 = visible_quantity (snd mq1) (tracker_key tk0)"
      "has_key (tq_ahead tk0) r \<longleftrightarrow> visible_at (snd mq1) (tracker_key tk0) r" for r
      using new level_quantity [OF lev] level_visible_at [OF inv1] by (simp_all add: fresh_tracker_def)
    moreover have "n \<le> k \<and> k \<le> length (calls @ [c]) \<longleftrightarrow> k = length calls \<or> k = Suc (length calls)"
      if "n = length calls" for n k using that by auto
    ultimately have "position_since mq (calls @ [c]) i tk (length calls)"
      using now by (auto simp: position_since_def ahead key init at le_Suc_eq)
    then show ?thesis ..
  qed
qed

section \<open>A run for the witnesses\<close>

text \<open>
  A bid of five is visible when a simulated bid of ten joins behind it; the visible bid is
  executed away, a later bid at the same price is executed for three, which fills three, and an
  offer at the simulated bid's price then invalidates the rest.
\<close>

definition demo_event ::
  "int \<Rightarrow> int \<Rightarrow> event_kind \<Rightarrow> int \<Rightarrow> int option \<Rightarrow> int \<Rightarrow> int \<Rightarrow> int \<Rightarrow> int \<Rightarrow> market_event" where
  "demo_event i t k r r' d p x y = \<lparr>me_message_index = i, me_timestamp_ns = t, me_symbol_id = 1,
     me_event_kind = k, me_primary_reference = Some r, me_secondary_reference = r', me_side = Some d,
     me_price4 = Some p, me_quantity = Some x, me_remaining_quantity = Some y,
     me_execution_price4 = None\<rparr>"

definition demo_market_calls :: "model_call list" where
  "demo_market_calls =
    [Call_market (Row_event (demo_event 1 1000 ADD 100 None 1 1000000 5 5)),
     Call_strategy_submit (demo_request 7 1000 1 1),
     Call_complete 1000,
     Call_market (Row_event (demo_event 2 1200 ADD 101 None 1 1000000 6 6)),
     Call_complete 1200,
     Call_market (Row_event (demo_event 3 1300 EXECUTE 100 (Some 900) 1 1000000 5 0)),
     Call_complete 1300,
     Call_market (Row_event (demo_event 4 1400 EXECUTE 101 (Some 901) 1 1000000 3 3))]"

definition demo_model :: queue_state where
  "demo_model = (demo_machine, projr (new_queue_model 0))"

definition demo_market_run :: "model_reply list result \<times> queue_state" where
  "demo_market_run = run_steps model_step demo_model demo_market_calls"

definition demo_after :: queue_state where
  "demo_after = snd demo_market_run"

definition demo_queued_calls :: "model_call list" where
  "demo_queued_calls = take 5 demo_market_calls"

definition demo_queued :: queue_state where
  "demo_queued = snd (run_steps model_step demo_model demo_queued_calls)"

lemma demo_model_inv: "model_inv demo_model"
proof -
  have "new_queue_model 0 = Inr (projr (new_queue_model 0))" by code_simp
  from model_inv_new [OF demo_machine_new this] show ?thesis by (simp add: demo_model_def)
qed

lemma demo_market_run_ok: "run_steps model_step demo_model demo_market_calls
    = (Inr (projr (fst demo_market_run)), demo_after)"
proof -
  have "succeeded demo_market_run" by code_simp
  from succeededD [OF this] show ?thesis unfolding demo_market_run_def demo_after_def .
qed

lemma demo_after_inv: "model_inv demo_after"
  by (rule model.run_inv [OF demo_model_inv demo_market_run_ok])

lemma demo_fills: "map qf_quantity (concat (map fills_in (projr (fst demo_market_run)))) = [3]"
  by code_simp

definition demo_offer :: market_event where
  "demo_offer = demo_event 5 1500 ADD 200 None (-1) 1000000 4 4"

definition demo_execution :: market_event where
  "demo_execution = demo_event 5 1500 EXECUTE 101 (Some 902) 1 1000000 3 0"

definition demo_unknown :: market_event where
  "demo_unknown = demo_event 5 1500 DELETE 999 None 1 1000000 4 0"

definition demo_far_calls :: "model_call list" where
  "demo_far_calls = demo_market_calls
     @ [Call_market (Row_event (demo_event 5 1500 ADD 300 None (-1) 1000100 4 4))]"

definition demo_far_run :: "model_reply list result \<times> queue_state" where
  "demo_far_run = run_steps model_step demo_model demo_far_calls"

lemma demo_offer_invalidates:
  "map ot_after_state (qr_transitions (projr (fst (process_market_event (Row_event demo_offer) demo_after))))
     = [INVALIDATED]"
  by code_simp

section \<open>Properties\<close>

lemma demo_offer_run:
  "process_market_event (Row_event demo_offer) (fst demo_after, snd demo_after)
     = (Inr (projr (fst (process_market_event (Row_event demo_offer) demo_after))),
        (fst (snd (process_market_event (Row_event demo_offer) demo_after)),
         snd (snd (process_market_event (Row_event demo_offer) demo_after))))"
proof -
  have "succeeded (process_market_event (Row_event demo_offer) demo_after)" by code_simp
  from succeededD [OF this] show ?thesis by simp
qed

lemma demo_after_inv_pair: "model_inv (fst demo_after, snd demo_after)"
  using demo_after_inv by simp

text \<open>
  C7: one market event is one step of the book's specification. When \<open>process_market_event\<close>
  returns, the visible orders are exactly those the specification gives for the adapted event,
  and the invariant of the two objects holds again.
\<close>

theorem market_event_refines_book:
  assumes "model_inv (m, q)" "process_market_event row (m, q) = (Inr res, (m', q'))"
  shows "adapt_market_event row = Inr (qr_event res) \<and> model_inv (m', q')
    \<and> visible q' = (case book_step (qr_event res) (visible q) of None \<Rightarrow> visible q | Some B \<Rightarrow> B)"
  using process_market_event_ok [OF assms] by (simp add: process_result_def next_book_def)

theorem market_event_refines_book_witness:
  "visible (snd (snd (process_market_event (Row_event demo_offer) demo_after))) 200
     = Some (visible_of 200 demo_offer)"
proof -
  let ?r = "process_market_event (Row_event demo_offer) demo_after"
  have "qr_event (projr (fst ?r)) = demo_offer" by code_simp
  moreover have "book_step demo_offer (visible (snd demo_after))
      = Some ((visible (snd demo_after))(200 := Some (visible_of 200 demo_offer)))"
  proof -
    have "visible (snd demo_after) 200 = None" by code_simp
    then show ?thesis by (simp add: book_step_def demo_offer_def demo_event_def Let_def)
  qed
  ultimately show ?thesis
    using market_event_refines_book [OF demo_after_inv_pair demo_offer_run] by simp
qed

text \<open>
  the lazily cleaned heap returns the best visible price of a side: a price at which an
  order is visible and which no visible order of that symbol and side improves, or \<open>None\<close> when
  none is visible. It never raises and it leaves the book as it was.
\<close>

theorem best_visible_price_exact:
  assumes "model_inv (m, q)"
  shows "\<exists>best q'. best_visible_price symbol_id side q = (Inr best, q') \<and> model_inv (m, q')
    \<and> best_price q symbol_id side best \<and> visible q' = visible q"
proof -
  have i: "book_inv q" "tracked_mid (sm_orders m) q []" "sm_inv m" "uncrossed (sm_orders m) q" "diag_inv q"
    using assms by (simp_all add: model_inv_def queue_inv_def tracked_def)
  obtain best q' where b: "best_visible_price symbol_id side q = (Inr best, q')" "book_inv q'" "heaps_only q q'"
    "best_price q symbol_id side best"
    by (rule best_visible_price_ok [OF i(1)])
  have "tracked_mid (sm_orders m) q' []"
    by (rule tracked_mid_heaps [OF i(2)]) (use b(3) in \<open>simp_all add: heaps_only_def rest_same_def\<close>)
  with i b have "model_inv (m, q')" using heaps_only_crossing [OF b(3)]
    by (simp add: model_inv_def queue_inv_def tracked_def uncrossed_def heaps_only_def crossing_frame_def)
  moreover have "visible q' = visible q" using b(3) by (simp add: heaps_only_def visible_def)
  ultimately show ?thesis using b(1,4) by blast
qed

theorem best_visible_price_exact_witness:
  "\<exists>q'. best_visible_price 1 1 (snd demo_after) = (Inr (Some 1000000), q')
    \<and> best_price (snd demo_after) 1 1 (Some 1000000)"
proof -
  have "fst (best_visible_price 1 1 (snd demo_after)) = Inr (Some 1000000)" by code_simp
  with best_visible_price_exact [OF demo_after_inv_pair, of 1 1] show ?thesis by auto
qed

text \<open>
  C8: queue positions are exact. After any run of calls that return, every exposed order has a
  queue snapshot. The order joined its queue at one call of the run and has been exposed since;
  the recorded initial quantity is everything that was visible at its symbol, side and price
  when that call began; and the references listed ahead are exactly those that were visible
  there then and have stayed visible there after every call since, each once and with its current
  visible quantity. The current quantity is their sum and is at most the initial one.
\<close>

theorem queue_positions_exact:
  assumes "new_state_machine sub can = Inr m" "new_queue_model budget = Inr q"
    "run_steps model_step (m, q) calls = (Inr rs, (m', q'))"
    "dict_get (sm_orders m') i = Some s" "EXPOSED_STATES (so_state s)"
  shows "\<exists>snap n. queue_snapshot_of i (m', q') = Inr snap
    \<and> n < length calls \<and> \<not> exposed_in (after_calls (m, q) calls n) i
    \<and> (\<forall>k. n < k \<and> k \<le> length calls \<longrightarrow> exposed_in (after_calls (m, q) calls k) i)
    \<and> so_queue_ahead_initial s = Some (qs_initial_quantity snap)
    \<and> qs_initial_quantity snap = visible_quantity (snd (after_calls (m, q) calls n))
        (so_symbol_id s, so_side s, so_price4 s)
    \<and> (\<forall>r. r \<in> set (map fst (qs_ahead_references snap)) \<longleftrightarrow>
         (\<forall>k. n \<le> k \<and> k \<le> length calls \<longrightarrow> visible_at (snd (after_calls (m, q) calls k))
            (so_symbol_id s, so_side s, so_price4 s) r))
    \<and> distinct (map fst (qs_ahead_references snap))
    \<and> (\<forall>(r, x) \<in> set (qs_ahead_references snap).
         \<exists>v. visible q' r = Some v \<and> vo_remaining_quantity v = x)
    \<and> qs_current_quantity snap = sum_list (map snd (qs_ahead_references snap))
    \<and> qs_current_quantity snap \<le> qs_initial_quantity snap"
proof -
  have inv: "queue_inv (m', q')"
    using model.run_inv [OF model_inv_new [OF assms(1,2)] assms(3)] by (simp add: model_inv_def)
  note tr = queue_invD(4) [OF inv, unfolded tracked_def]
  obtain tk where tk: "dict_get (vq_queues q') i = Some tk" using tracked_midD(5) [OF tr assms(4,5)] by blast
  obtain u where u: "dict_get (sm_orders m') i = Some u" "tracks u tk" "sm_order m' i = Inr u"
    by (rule tracker_order [OF inv tk])
  have s: "tracks s tk" "sm_order m' i = Inr s" using u assms(4) by simp_all
  have ok: "ahead_ok q' tk" by (rule tracked_midD(2) [OF tr tk])
  have "dict_values (tq_ahead tk) = map snd (tq_ahead tk)" by (simp add: dict_values_def)
  then have tot: "queue_total tk = Inr (sum_list (map snd (tq_ahead tk)))"
    using queue_total_ok(1) [OF queue_invD(3) [OF inv] ok] by (simp add: ahead_sum_values)
  have le: "sum_list (map snd (tq_ahead tk)) \<le> tq_initial_quantity tk"
    using ahead_okD(3) [OF ok] by (simp add: ahead_sum_values dict_values_def)
  have refs: "\<exists>v. visible q' r = Some v \<and> vo_remaining_quantity v = x" if "(r, x) \<in> set (tq_ahead tk)" for r x
  proof -
    have "dict_get (tq_ahead tk) r = Some x" using that dict_mem_iff [OF ahead_okD(1) [OF ok]] by blast
    from tracker_visible [OF inv tk this] show ?thesis by (auto simp: visible_def)
  qed
  have "vq_queues q = []" using assms(2) by (auto simp: new_queue_model_def split: if_splits)
  with run_positions [OF model_inv_new [OF assms(1,2)] _ assms(3), of i tk] tk
  obtain n where n: "position_since (m, q) calls i tk n" by auto
  have key: "tracker_key tk = (so_symbol_id s, so_side s, so_price4 s)"
    using s(1) by (simp add: tracker_key_def tracks_def)
  have keys: "r \<in> set (map fst (tq_ahead tk)) \<longleftrightarrow> has_key (tq_ahead tk) r" for r
    by (simp add: dict_keys_iff [symmetric] dict_keys_def)
  let ?snap = "\<lparr>qs_simulated_order_id = tq_simulated_order_id tk,
    qs_initial_quantity = tq_initial_quantity tk, qs_current_quantity = sum_list (map snd (tq_ahead tk)),
    qs_ahead_references = tq_ahead tk\<rparr>"
  show ?thesis
  proof (intro exI [of _ ?snap] exI [of _ n] conjI)
    show "queue_snapshot_of i (m', q') = Inr ?snap"
      using tk s assms(5) tot by (simp add: queue_snapshot_of_def make_queue_snapshot_def)
    show "\<forall>r. r \<in> set (map fst (qs_ahead_references ?snap)) \<longleftrightarrow>
       (\<forall>k. n \<le> k \<and> k \<le> length calls \<longrightarrow> visible_at (snd (after_calls (m, q) calls k))
          (so_symbol_id s, so_side s, so_price4 s) r)"
      using n keys by (simp add: position_since_def key)
  qed (use n s(1) key refs le ahead_okD(1) [OF ok] in
      \<open>auto simp: position_since_def tracks_def dict_ok_def\<close>)
qed

theorem queue_positions_exact_witness:
  "\<exists>snap n. queue_snapshot_of 7 demo_queued = Inr snap \<and> qs_ahead_references snap = [(100, 5)]
    \<and> n < 5 \<and> qs_initial_quantity snap =
        visible_quantity (snd (after_calls demo_model demo_queued_calls n)) (1, 1, 1000000)"
proof -
  let ?s = "projr (sm_order (fst demo_queued) 7)"
  have new: "new_queue_model 0 = Inr (snd demo_model)" by code_simp
  have "succeeded (run_steps model_step demo_model demo_queued_calls)" by code_simp
  from succeededD [OF this] have run: "run_steps model_step (demo_machine, snd demo_model) demo_queued_calls
      = (Inr (projr (fst (run_steps model_step demo_model demo_queued_calls))),
         (fst demo_queued, snd demo_queued))"
    by (simp add: demo_model_def demo_queued_def)
  have s: "dict_get (sm_orders (fst demo_queued)) 7 = Some ?s" "EXPOSED_STATES (so_state ?s)"
    "so_symbol_id ?s = 1 \<and> so_side ?s = 1 \<and> so_price4 ?s = 1000000"
    and ahead: "map_sum id qs_ahead_references (queue_snapshot_of 7 demo_queued) = Inr [(100, 5)]"
    and calls: "length demo_queued_calls = 5"
    by code_simp+
  have "(demo_machine, snd demo_model) = demo_model" by (simp add: demo_model_def)
  with queue_positions_exact [OF demo_machine_new new run s(1,2)] s(3) ahead calls show ?thesis by auto
qed

text \<open>
  C9: the simulation never leaves a marketable order resting. After any run, no exposed order's
  limit is at or through the price of a visible order of the opposite side.
\<close>

theorem never_crossed:
  assumes "new_state_machine sub can = Inr m" "new_queue_model budget = Inr q"
    "run_steps model_step (m, q) calls = (Inr rs, (m', q'))"
    "dict_get (sm_orders m') i = Some s" "EXPOSED_STATES (so_state s)"
    "visible q' r = Some v" "vo_symbol_id v = so_symbol_id s" "vo_side v = - so_side s"
  shows "if so_side s = 1 then so_price4 s < vo_price4 v else vo_price4 v < so_price4 s"
proof -
  have "uncrossed (sm_orders m') q'"
    using model.run_inv [OF model_inv_new [OF assms(1,2)] assms(3)] by (simp add: model_inv_def)
  from uncrossedD [OF this assms(4,5) _ assms(7,8), of r] assms(6) show ?thesis
    by (auto simp: visible_def price_crosses_def split: if_splits)
qed

theorem never_crossed_witness:
  "\<exists>s v. dict_get (sm_orders (fst (snd demo_far_run))) 7 = Some s \<and> visible (snd (snd demo_far_run)) 300 = Some v
     \<and> so_price4 s < vo_price4 v"
proof -
  let ?s = "projr (sm_order (fst (snd demo_far_run)) 7)"
  let ?v = "the (visible (snd (snd demo_far_run)) 300)"
  have new: "new_queue_model 0 = Inr (snd demo_model)" by code_simp
  have "succeeded demo_far_run" by code_simp
  from succeededD [OF this] have run: "run_steps model_step (demo_machine, snd demo_model) demo_far_calls
      = (Inr (projr (fst demo_far_run)), (fst (snd demo_far_run), snd (snd demo_far_run)))"
    by (simp add: demo_far_run_def demo_model_def)
  have s: "dict_get (sm_orders (fst (snd demo_far_run))) 7 = Some ?s" "EXPOSED_STATES (so_state ?s)"
    "visible (snd (snd demo_far_run)) 300 = Some ?v" "vo_symbol_id ?v = so_symbol_id ?s"
    "vo_side ?v = - so_side ?s" "so_side ?s = 1"
    by code_simp+
  from never_crossed [OF demo_machine_new new run s(1-5)] s show ?thesis by auto
qed

text \<open>
  C10: fills are conservative. An event fills at most one order, one that rests at the executed
  price and side with nothing known ahead of it, for exactly the smaller of the executed
  quantity and what the order has left, and on a match number that has not filled before.
\<close>

theorem fills_conservative:
  assumes "model_inv (m, q)" "process_market_event row (m, q) = (Inr res, (m', q'))"
    "fill \<in> set (qr_fills res)"
  shows "qr_fills res = [fill]
    \<and> qf_queue_ahead_before fill = 0 \<and> qf_queue_ahead_after fill = 0
    \<and> 1 \<le> qf_quantity fill \<and> 0 \<le> qf_remaining_quantity_after fill
    \<and> qf_quantity fill = min (cast_int (me_quantity (qr_event res)))
        (qf_remaining_quantity_after fill + qf_quantity fill)
    \<and> me_price4 (qr_event res) = Some (qf_price4 fill)
    \<and> qf_market_message_index fill = me_message_index (qr_event res)
    \<and> qf_timestamp_ns fill = me_timestamp_ns (qr_event res)
    \<and> \<not> has_key (vq_used_fill_matches q) (qf_match_number fill)
    \<and> dict_get (vq_used_fill_matches q') (qf_match_number fill) = Some (qf_simulated_order_id fill)"
proof -
  from process_market_event_ok [OF assms(1,2)] have "fills_result (qr_event res) q (qr_fills res) q'"
    by (simp add: process_result_def)
  with assms(3) obtain s m1 q1 where f: "qr_fills res = [fill]" "fill_spec (qr_event res) m1 q1 fill s"
    "vq_used_fill_matches q1 = vq_used_fill_matches q"
    "vq_used_fill_matches q' = dict_set (qf_match_number fill) (qf_simulated_order_id fill) (vq_used_fill_matches q)"
    by (auto simp: fills_result_def)
  then show ?thesis by (auto simp: fill_spec_def)
qed

theorem fills_conservative_witness:
  "\<exists>fill. qr_fills (projr (fst (process_market_event (Row_event demo_execution) demo_after))) = [fill]
     \<and> qf_quantity fill = 3 \<and> qf_queue_ahead_before fill = 0"
proof -
  let ?r = "process_market_event (Row_event demo_execution) demo_after"
  let ?fill = "hd (qr_fills (projr (fst ?r)))"
  have "succeeded ?r" by code_simp
  from succeededD [OF this] have run: "process_market_event (Row_event demo_execution) (fst demo_after, snd demo_after)
      = (Inr (projr (fst ?r)), (fst (snd ?r), snd (snd ?r)))" by simp
  have f: "?fill \<in> set (qr_fills (projr (fst ?r)))" "qf_quantity ?fill = 3" by code_simp+
  from fills_conservative [OF demo_after_inv_pair run f(1)] f(2) show ?thesis by blast
qed

text \<open>
  C11: over any run, a match number fills at most once, and a fill is never invalidated
  silently: once a run has filled on a match, a broken trade naming that match raises
  \<open>ERR_BROKEN_SIM_FILL\<close> for the order it filled.
\<close>

theorem matches_fill_once:
  assumes "new_state_machine sub can = Inr m" "new_queue_model budget = Inr q"
    "run_steps model_step (m, q) calls = (Inr rs, (m', q'))"
  shows "distinct (map qf_match_number (concat (map fills_in rs)))
    \<and> (\<forall>fill \<in> set (concat (map fills_in rs)). \<forall>ev.
         me_event_kind ev = BROKEN_TRADE \<longrightarrow> me_primary_reference ev = Some (qf_match_number fill) \<longrightarrow>
         (\<exists>i. apply_broken_trade ev q' =
            (Inl (SimulationError ERR_BROKEN_SIM_FILL (Some i) (Some (me_message_index ev))), q')))"
proof -
  note k = run_matches [OF model_inv_new [OF assms(1,2)] assms(3)]
  have "\<exists>i. apply_broken_trade ev q' =
      (Inl (SimulationError ERR_BROKEN_SIM_FILL (Some i) (Some (me_message_index ev))), q')"
    if f: "fill \<in> set (concat (map fills_in rs))" and ev: "me_primary_reference ev = Some (qf_match_number fill)"
    for fill ev
  proof -
    have "has_key (vq_used_fill_matches q') (qf_match_number fill)" using k f by auto
    then obtain i where "dict_get (vq_used_fill_matches q') (qf_match_number fill) = Some i"
      by (auto simp: has_key_iff)
    with ev show ?thesis by (simp add: apply_broken_trade_def fail_both_def)
  qed
  with k show ?thesis by blast
qed

theorem matches_fill_once_witness:
  "distinct (map qf_match_number (concat (map fills_in (projr (fst demo_market_run)))))
   \<and> map qf_match_number (concat (map fills_in (projr (fst demo_market_run)))) = [901]"
proof -
  have new: "new_queue_model 0 = Inr (snd demo_model)" by code_simp
  have run: "run_steps model_step (demo_machine, snd demo_model) demo_market_calls
      = (Inr (projr (fst demo_market_run)), (fst demo_after, snd demo_after))"
    using demo_market_run_ok by (simp add: demo_model_def)
  have "map qf_match_number (concat (map fills_in (projr (fst demo_market_run)))) = [901]" by code_simp
  with matches_fill_once [OF demo_machine_new new run] show ?thesis by blast
qed

text \<open>
  C12: the internal checks never fail. Under the invariant, \<open>process_market_event\<close> raises only
  for an invalid row, a message out of order, an order waiting for its activation at a price
  whose visible orders together exceed a uint64, a spent anomaly budget, or a broken trade that
  names a used match; never a \<open>KeyError\<close>, an invalid transition or an inconsistent quantity
  ahead.
\<close>

theorem process_market_event_errors:
  assumes "model_inv (m, q)" "process_market_event row (m, q) = (Inl e, (m', q'))"
  shows "adapt_market_event row = Inl e
    \<or> (\<exists>ev. adapt_market_event row = Inr ev \<and>
        (fst (actions_before_market (me_timestamp_ns ev) (me_message_index ev) (sm_scheduler m)) = Inl e
         \<or> (\<exists>i s. e = SimulationError ERR_QUEUE_STATE (Some i) None
              \<and> dict_get (sm_orders m) i = Some s \<and> so_state s = PENDING_SUBMIT
              \<and> MAX_UINT64 < visible_quantity q (so_symbol_id s, so_side s, so_price4 s))
         \<or> (\<exists>i. e = SimulationError ERR_SIMULATION_ANOMALY i (Some (me_message_index ev))
              \<and> vq_anomaly_count q = vq_max_queue_anomalies q)
         \<or> (\<exists>i. e = SimulationError ERR_BROKEN_SIM_FILL (Some i) (Some (me_message_index ev))
              \<and> me_event_kind ev = BROKEN_TRADE
              \<and> dict_get (vq_used_fill_matches q) (cast_int (me_primary_reference ev)) = Some i)))"
proof -
  have "vq_anomaly_count q \<le> vq_max_queue_anomalies q"
    using assms(1) by (simp add: model_inv_def diag_inv_def)
  with process_market_event_ok [OF assms] show ?thesis
    by (auto simp: process_result_def order_error_def overflow_error_def budget_error_def broken_error_def)
qed

theorem process_market_event_errors_witness:
  "fst (process_market_event (Row_event demo_unknown) demo_after)
     = Inl (SimulationError ERR_SIMULATION_ANOMALY None (Some 5))
   \<and> adapt_market_event (Row_event demo_unknown) = Inr demo_unknown
   \<and> vq_anomaly_count (snd demo_after) = vq_max_queue_anomalies (snd demo_after)"
proof -
  let ?r = "process_market_event (Row_event demo_unknown) demo_after"
  let ?e = "SimulationError ERR_SIMULATION_ANOMALY None (Some 5)"
  have e: "fst ?r = Inl ?e" by code_simp
  have run: "process_market_event (Row_event demo_unknown) (fst demo_after, snd demo_after)
      = (Inl ?e, (fst (snd ?r), snd (snd ?r)))" using e by (cases ?r) simp
  have a: "adapt_market_event (Row_event demo_unknown) = Inr demo_unknown" by code_simp
  have o: "fst (actions_before_market (me_timestamp_ns demo_unknown) (me_message_index demo_unknown)
      (sm_scheduler (fst demo_after))) \<noteq> Inl ?e" by code_simp
  from process_market_event_errors [OF demo_after_inv_pair run] a e o show ?thesis by auto
qed

lemma step_budget:
  assumes "model_inv mq" "model_step mq c = (Inr r, mq')"
  shows "vq_max_queue_anomalies (snd mq') = vq_max_queue_anomalies (snd mq)"
proof -
  obtain m q m' q' where mq: "mq = (m, q)" "mq' = (m', q')" by (cases mq; cases mq')
  show ?thesis
  proof (cases c)
    case (Call_market row)
    with assms mq obtain res where "process_market_event row (m, q) = (Inr res, (m', q'))"
      by (auto simp: bindM_Inr)
    from process_market_event_ok [OF _ this] assms mq show ?thesis by (simp add: process_result_def)
  next
    case (Call_complete t)
    with assms mq obtain ts where "complete_market_timestamp t (m, q) = (Inr ts, (m', q'))"
      by (auto simp: bindM_Inr)
    from complete_market_timestamp_ok [OF _ this] assms mq show ?thesis by (simp add: log_same_def)
  qed (use assms mq in \<open>auto simp: bindM_Inr on_machine_def split: prod.splits\<close>)
qed

lemma run_budget:
  assumes "model_inv mq" "run_steps model_step mq cs = (Inr rs, mq')"
  shows "vq_max_queue_anomalies (snd mq') = vq_max_queue_anomalies (snd mq)"
  using assms
proof (induction cs arbitrary: mq rs)
  case Nil
  then show ?case by simp
next
  case (Cons c cs)
  from Cons.prems(2) obtain r rs1 mq1 where one: "model_step mq c = (Inr r, mq1)"
    and rest: "run_steps model_step mq1 cs = (Inr rs1, mq')"
    by (auto simp only: run_steps_Cons_Inr)
  from Cons.IH [OF model.step_inv [OF Cons.prems(1) one] rest] step_budget [OF Cons.prems(1) one]
  show ?case by simp
qed

text \<open>
  The anomaly count is the number of skipped events in the diagnostics, and a run that
  returns has never exceeded the budget it was configured with.
\<close>

theorem anomaly_budget:
  assumes "new_state_machine sub can = Inr m" "new_queue_model budget = Inr q"
    "run_steps model_step (m, q) calls = (Inr rs, (m', q'))"
  shows "int (length (filter (\<lambda>d. qd_code d = EVENT_SKIPPED) (vq_diagnostics q'))) = vq_anomaly_count q'
    \<and> vq_anomaly_count q' \<le> budget"
proof -
  note inv = model_inv_new [OF assms(1,2)]
  have "diag_inv q'" using model.run_inv [OF inv assms(3)] by (simp add: model_inv_def)
  moreover have "vq_max_queue_anomalies q = budget"
    using assms(2) by (auto simp: new_queue_model_def split: if_splits)
  ultimately show ?thesis using run_budget [OF inv assms(3)] by (simp add: diag_inv_def)
qed

theorem anomaly_budget_witness:
  "\<exists>rs m' q'. run_steps model_step (demo_machine, projr (new_queue_model 1))
      [Call_market (Row_event demo_unknown)] = (Inr rs, (m', q')) \<and> vq_anomaly_count q' \<le> 1"
proof -
  let ?q = "projr (new_queue_model 1)"
  let ?r = "run_steps model_step (demo_machine, ?q) [Call_market (Row_event demo_unknown)]"
  have new: "new_queue_model 1 = Inr ?q" by code_simp
  have "succeeded ?r" by code_simp
  from succeededD [OF this] have run: "?r = (Inr (projr (fst ?r)), (fst (snd ?r), snd (snd ?r)))" by simp
  from anomaly_budget [OF demo_machine_new new run] run show ?thesis by blast
qed

end
