(* ===== verification/Accounting.thy ===== *)
theory Accounting
  imports Queue_Model
begin

text \<open>
  \<open>simulation/accounting.py\<close>: the ledger that turns queue fills and terminal trades into
  signed integer microdollars. Every amount is an unbounded Python int that the code checks
  against the signed 64-bit range at each step, so the model uses \<open>int\<close> and the same checks.

  An operation works on copies and commits them at its end, so a call that raises leaves the
  ledger as it was, except where the code calls \<open>snapshot\<close> after committing.
\<close>

section \<open>Values\<close>

definition MIN_INT64 :: int where "MIN_INT64 = -9223372036854775808"
definition MAX_INT64 :: int where "MAX_INT64 = 9223372036854775807"
definition MAX_FEE_MICROUSD_PER_SHARE :: int where "MAX_FEE_MICROUSD_PER_SHARE = 1000000"
definition MAX_MID2 :: int where "MAX_MID2 = 2 * MAX_UINT32"

record accounted_fill =
  af_fill_id :: int
  af_simulated_order_id :: int
  af_market_message_index :: int
  af_timestamp_ns :: int
  af_price4 :: int
  af_quantity :: int
  af_fee_microusd :: int
  af_cash_delta_microusd :: int
  af_inventory_after :: int

record terminal_trade =
  tt_symbol_id :: int
  tt_side :: int
  tt_price4 :: int
  tt_quantity :: int
  tt_mark_mid2 :: int
  tt_timestamp_ns :: int

record liquidation_accounting =
  la_liquidation_id :: int
  la_timestamp_ns :: int
  la_symbol_id :: int
  la_side :: int
  la_price4 :: int
  la_quantity :: int
  la_fee_microusd :: int
  la_cash_delta_microusd :: int
  la_inventory_before :: int
  la_inventory_after :: int
  la_mark_mid2 :: int
  la_slippage_microusd :: int

record symbol_accounting =
  sy_symbol_id :: int
  sy_inventory :: int
  sy_mark_mid2 :: "int option"
  sy_marked_value_microusd :: int
  sy_max_abs_inventory :: int

record accounting_snapshot =
  sn_symbols :: "symbol_accounting list"
  sn_passive_fill_count :: int
  sn_passive_fill_quantity :: int
  sn_liquidation_count :: int
  sn_liquidation_quantity :: int
  sn_gross_passive_cash :: int
  sn_gross_liquidation_cash :: int
  sn_maker_fee :: int
  sn_taker_fee :: int
  sn_signed_fee :: int
  sn_cash :: int
  sn_marked_inventory_value :: int
  sn_marked_pnl :: int
  sn_passive_spread_capture :: int
  sn_inventory_mark_to_market :: int
  sn_terminal_liquidation_slippage :: int
  sn_settled :: bool

text \<open>
  The ledger accepts a terminal plan only if it is the very object it prepared last
  (\<open>plan is not self._prepared_terminal_plan\<close>), so a plan carries the identity of its
  object: \<open>pt_identity\<close> is a fresh number for each plan that the ledger constructs.
\<close>

record prepared_terminal_accounting =
  pt_identity :: nat
  pt_revision :: int
  pt_records :: "liquidation_accounting list"
  pt_positions :: "(int \<times> int) list"
  pt_marks :: "(int \<times> int) list"
  pt_max_abs_positions :: "(int \<times> int) list"
  pt_gross_liquidation_cash :: int
  pt_taker_fee :: int
  pt_inventory_mark_to_market :: int
  pt_terminal_liquidation_slippage :: int
  pt_liquidation_count :: int
  pt_liquidation_quantity :: int

record accounting_ledger =
  al_maker_fee_rate :: int
  al_inventory_limit :: int
  al_positions :: "(int, int) dict"
  al_marks :: "(int, int) dict"
  al_max_abs_positions :: "(int, int) dict"
  al_accounted_quantity_by_order :: "(int, int) dict"
  al_fill_keys :: "(int \<times> int \<times> int) set"
  al_fills :: "accounted_fill list"
  al_liquidations :: "liquidation_accounting list"
  al_next_fill_id :: int
  al_revision :: int
  al_passive_fill_quantity :: int
  al_liquidation_quantity :: int
  al_gross_passive_cash :: int
  al_gross_liquidation_cash :: int
  al_maker_fees :: int
  al_taker_fees :: int
  al_passive_spread_capture :: int
  al_inventory_mark_to_market :: int
  al_terminal_liquidation_slippage :: int
  al_settled :: bool
  al_prepared_terminal_plan :: "prepared_terminal_accounting option"
  al_plans_made :: nat

section \<open>Checked arithmetic\<close>

definition checked_int64 :: "int \<Rightarrow> int result" where
  "checked_int64 v = (if valid_int v MIN_INT64 MAX_INT64 then Inr v else fail_code ERR_COST)"

definition checked_sum_int64 :: "int list \<Rightarrow> int result" where
  "checked_sum_int64 vs = foldR (\<lambda>acc v. checked_int64 (acc + v)) 0 vs"

definition validate_fee_rate :: "int \<Rightarrow> int result" where
  "validate_fee_rate v =
     (if valid_int v (- MAX_FEE_MICROUSD_PER_SHARE) MAX_FEE_MICROUSD_PER_SHARE then Inr v
      else fail_code ERR_COST)"

definition validate_symbol_id :: "int \<Rightarrow> int result" where
  "validate_symbol_id v =
     (if valid_int v 1 MAX_UINT16 then Inr v else fail_code ERR_UNKNOWN_SYMBOL)"

definition validate_mark_mid2 :: "int \<Rightarrow> int result" where
  "validate_mark_mid2 v = (if valid_int v 0 MAX_MID2 then Inr v else fail_code ERR_PRICE)"

definition marked_value :: "int \<Rightarrow> int \<Rightarrow> int result" where
  "marked_value inventory mark_mid2 = checked_int64 (inventory * mark_mid2 * 50)"

definition trade_cash_delta :: "int \<Rightarrow> int \<Rightarrow> int \<Rightarrow> int result" where
  "trade_cash_delta side price4 quantity = checked_int64 (- side * price4 * quantity * 100)"

definition trade_fee :: "int \<Rightarrow> int \<Rightarrow> int result" where
  "trade_fee rate quantity = checked_int64 (rate * quantity)"

definition mark_relative_value :: "int \<Rightarrow> int \<Rightarrow> int \<Rightarrow> int \<Rightarrow> int result" where
  "mark_relative_value side price4 quantity mark_mid2 =
     checked_int64 (side * (mark_mid2 - 2 * price4) * quantity * 50)"

section \<open>The ledger\<close>

definition new_ledger :: "int \<Rightarrow> int \<Rightarrow> accounting_ledger result" where
  "new_ledger maker_fee_microusd_per_share inventory_limit =
     bindR (validate_fee_rate maker_fee_microusd_per_share) (\<lambda>rate.
     if \<not> valid_int inventory_limit 1 MAX_INT64 then fail_code ERR_INVENTORY_LIMIT
     else Inr \<lparr>al_maker_fee_rate = rate, al_inventory_limit = inventory_limit,
       al_positions = [], al_marks = [], al_max_abs_positions = [],
       al_accounted_quantity_by_order = [], al_fill_keys = {}, al_fills = [],
       al_liquidations = [], al_next_fill_id = 0, al_revision = 0,
       al_passive_fill_quantity = 0, al_liquidation_quantity = 0, al_gross_passive_cash = 0,
       al_gross_liquidation_cash = 0, al_maker_fees = 0, al_taker_fees = 0,
       al_passive_spread_capture = 0, al_inventory_mark_to_market = 0,
       al_terminal_liquidation_slippage = 0, al_settled = False,
       al_prepared_terminal_plan = None, al_plans_made = 0\<rparr>)"

definition ledger_inventory :: "accounting_ledger \<Rightarrow> int \<Rightarrow> int result" where
  "ledger_inventory self symbol_id =
     bindR (validate_symbol_id symbol_id) (\<lambda>s. Inr (dict_get_default (al_positions self) s 0))"

text \<open>
  \<open>_apply_mark_to_copies\<close> updates the two dictionaries it is given and returns the new
  mark-to-market total; the model returns all three.
\<close>

definition apply_mark_to_copies ::
  "int \<Rightarrow> int \<Rightarrow> (int, int) dict \<Rightarrow> (int, int) dict \<Rightarrow> int
     \<Rightarrow> ((int, int) dict \<times> (int, int) dict \<times> int) result" where
  "apply_mark_to_copies symbol_id mark_mid2 positions marks inventory_mtm = (
     let inventory = dict_get_default positions symbol_id 0;
         positions' = (if has_key positions symbol_id then positions
                       else dict_set symbol_id inventory positions) in
     bindR (case dict_get marks symbol_id of
              None \<Rightarrow> Inr inventory_mtm
            | Some previous_mark \<Rightarrow>
                bindR (checked_int64 (inventory * (mark_mid2 - previous_mark) * 50)) (\<lambda>change.
                checked_int64 (inventory_mtm + change))) (\<lambda>mtm.
     Inr (positions', dict_set symbol_id mark_mid2 marks, mtm)))"

fun marked_values :: "(int, int) dict \<Rightarrow> (int \<times> int) list \<Rightarrow> int list result" where
  "marked_values marks [] = Inr []"
| "marked_values marks ((symbol_id, inventory) # rest) =
     (case dict_get marks symbol_id of
        None \<Rightarrow> if inventory \<noteq> 0 then fail_code ERR_PRICE else marked_values marks rest
      | Some mark \<Rightarrow> bindR (marked_value inventory mark) (\<lambda>v.
                     bindR (marked_values marks rest) (\<lambda>vs. Inr (v # vs))))"

text \<open>
  The arithmetic that \<open>_validate_reconciliation\<close> and \<open>snapshot\<close> share: the signed fees, the
  cash and the marked profit, whose decomposition has to reconcile.
\<close>

definition reconcile ::
  "int \<Rightarrow> int \<Rightarrow> int \<Rightarrow> int \<Rightarrow> int \<Rightarrow> int \<Rightarrow> int \<Rightarrow> int \<Rightarrow> (int \<times> int \<times> int) result" where
  "reconcile marked passive_cash liquidation_cash maker taker spread inventory_mtm terminal =
     bindR (checked_int64 (maker + taker)) (\<lambda>signed_fees.
     bindR (checked_int64 (passive_cash + liquidation_cash)) (\<lambda>gross_cash.
     bindR (checked_int64 (gross_cash - signed_fees)) (\<lambda>cash.
     bindR (checked_int64 (cash + marked)) (\<lambda>marked_pnl.
     bindR (checked_int64 (- signed_fees)) (\<lambda>fee_contribution.
     bindR (checked_sum_int64 [spread, inventory_mtm, terminal, fee_contribution]) (\<lambda>decomposition.
     if marked_pnl \<noteq> decomposition then fail_code ERR_INVARIANT
     else Inr (signed_fees, cash, marked_pnl)))))))"

text \<open>A keyword argument that defaults to the ledger's own attribute.\<close>

definition override :: "int option \<Rightarrow> int \<Rightarrow> int" where
  "override v attribute = (case v of None \<Rightarrow> attribute | Some x \<Rightarrow> x)"

definition validate_reconciliation ::
  "accounting_ledger \<Rightarrow> (int, int) dict \<Rightarrow> (int, int) dict \<Rightarrow> int option \<Rightarrow> int option
     \<Rightarrow> int option \<Rightarrow> int option \<Rightarrow> int option \<Rightarrow> int option \<Rightarrow> int option \<Rightarrow> unit result" where
  "validate_reconciliation self positions marks passive_cash liquidation_cash maker_fees taker_fees
       spread_capture inventory_mtm slippage =
     bindR (marked_values marks positions) (\<lambda>vs.
     bindR (checked_sum_int64 vs) (\<lambda>marked.
     bindR (reconcile marked
       (override passive_cash (al_gross_passive_cash self))
       (override liquidation_cash (al_gross_liquidation_cash self))
       (override maker_fees (al_maker_fees self))
       (override taker_fees (al_taker_fees self))
       (override spread_capture (al_passive_spread_capture self))
       (override inventory_mtm (al_inventory_mark_to_market self))
       (override slippage (al_terminal_liquidation_slippage self))) (\<lambda>_. Inr ())))"

fun snapshot_symbols :: "accounting_ledger \<Rightarrow> int list \<Rightarrow> symbol_accounting list result" where
  "snapshot_symbols self [] = Inr []"
| "snapshot_symbols self (symbol_id # rest) = (
     let inventory = dict_get_default (al_positions self) symbol_id 0;
         mark = dict_get (al_marks self) symbol_id in
     if inventory \<noteq> 0 \<and> mark = None then fail_code ERR_PRICE
     else
       bindR (case mark of None \<Rightarrow> Inr 0 | Some m \<Rightarrow> marked_value inventory m) (\<lambda>v.
       bindR (snapshot_symbols self rest) (\<lambda>symbols.
       Inr (\<lparr>sy_symbol_id = symbol_id, sy_inventory = inventory, sy_mark_mid2 = mark,
             sy_marked_value_microusd = v,
             sy_max_abs_inventory = dict_get_default (al_max_abs_positions self) symbol_id 0\<rparr>
            # symbols))))"

definition ledger_symbols :: "accounting_ledger \<Rightarrow> int list" where
  "ledger_symbols self = sort (remdups (dict_keys (al_positions self) @ dict_keys (al_marks self)))"

definition ledger_snapshot :: "accounting_ledger \<Rightarrow> accounting_snapshot result" where
  "ledger_snapshot self =
     bindR (snapshot_symbols self (ledger_symbols self)) (\<lambda>symbols.
     bindR (checked_sum_int64 (map sy_marked_value_microusd symbols)) (\<lambda>marked.
     bindR (reconcile marked (al_gross_passive_cash self) (al_gross_liquidation_cash self)
         (al_maker_fees self) (al_taker_fees self) (al_passive_spread_capture self)
         (al_inventory_mark_to_market self) (al_terminal_liquidation_slippage self))
       (\<lambda>(signed_fees, cash, marked_pnl).
     Inr \<lparr>sn_symbols = symbols,
          sn_passive_fill_count = int (length (al_fills self)),
          sn_passive_fill_quantity = al_passive_fill_quantity self,
          sn_liquidation_count = int (length (al_liquidations self)),
          sn_liquidation_quantity = al_liquidation_quantity self,
          sn_gross_passive_cash = al_gross_passive_cash self,
          sn_gross_liquidation_cash = al_gross_liquidation_cash self,
          sn_maker_fee = al_maker_fees self,
          sn_taker_fee = al_taker_fees self,
          sn_signed_fee = signed_fees,
          sn_cash = cash,
          sn_marked_inventory_value = marked,
          sn_marked_pnl = marked_pnl,
          sn_passive_spread_capture = al_passive_spread_capture self,
          sn_inventory_mark_to_market = al_inventory_mark_to_market self,
          sn_terminal_liquidation_slippage = al_terminal_liquidation_slippage self,
          sn_settled = al_settled self\<rparr>)))"

section \<open>Marks and passive fills\<close>

text \<open>\<open>update_mark\<close> up to its return, which is the snapshot of the ledger it has committed.\<close>

definition commit_mark :: "int \<Rightarrow> int \<Rightarrow> accounting_ledger \<Rightarrow> accounting_ledger result" where
  "commit_mark symbol_id mark_mid2 self =
     bindR (require (\<not> al_settled self) (fail_code ERR_SIMULATION_ANOMALY)) (\<lambda>_.
     bindR (validate_symbol_id symbol_id) (\<lambda>s.
     bindR (validate_mark_mid2 mark_mid2) (\<lambda>mark.
     bindR (apply_mark_to_copies s mark (al_positions self) (al_marks self)
              (al_inventory_mark_to_market self)) (\<lambda>(positions, marks, inventory_mtm).
     bindR (validate_reconciliation self positions marks None None None None None
              (Some inventory_mtm) None) (\<lambda>_.
     Inr (self\<lparr>al_marks := marks, al_inventory_mark_to_market := inventory_mtm,
               al_revision := al_revision self + 1\<rparr>))))))"

definition update_mark :: "int \<Rightarrow> int \<Rightarrow> (accounting_ledger, accounting_snapshot) smethod" where
  "update_mark symbol_id mark_mid2 self =
     (case commit_mark symbol_id mark_mid2 self of
        Inl e \<Rightarrow> (Inl e, self)
      | Inr self' \<Rightarrow> (ledger_snapshot self', self'))"

definition validate_queue_fill :: "queue_fill \<Rightarrow> simulated_order \<Rightarrow> unit result" where
  "validate_queue_fill fill order =
     bindR (validate_simulated_order order) (\<lambda>_.
     bindR (require (qf_simulated_order_id fill = so_simulated_order_id order
                     \<and> qf_price4 fill = so_price4 order
                     \<and> qf_remaining_quantity_after fill = so_remaining_quantity order)
              (fail_both ERR_SIMULATION_ANOMALY (qf_simulated_order_id fill)
                 (qf_market_message_index fill))) (\<lambda>_.
     bindR (require (valid_int (qf_market_message_index fill) 0 MAX_UINT64
                     \<and> valid_int (qf_match_number fill) 0 MAX_UINT64)
              (fail_code ERR_SIMULATION_ANOMALY)) (\<lambda>_.
     bindR (require (valid_int (qf_timestamp_ns fill) 0 MAX_TIMESTAMP_NS)
              (fail_code ERR_TIMESTAMP)) (\<lambda>_.
     bindR (require (valid_int (qf_price4 fill) 0 MAX_UINT32) (fail_code ERR_PRICE)) (\<lambda>_.
     bindR (require (valid_int (qf_quantity fill) 1 MAX_UINT64) (fail_code ERR_QUANTITY)) (\<lambda>_.
     require (valid_int (qf_queue_ahead_before fill) 0 MAX_UINT64
              \<and> valid_int (qf_queue_ahead_after fill) 0 (qf_queue_ahead_before fill))
       (fail_code ERR_QUEUE_STATE)))))))"

definition fill_key :: "queue_fill \<Rightarrow> int \<times> int \<times> int" where
  "fill_key fill =
     (qf_simulated_order_id fill, qf_market_message_index fill, qf_match_number fill)"

definition raise_peak :: "int \<Rightarrow> int \<Rightarrow> (int, int) dict \<Rightarrow> (int, int) dict" where
  "raise_peak symbol_id inventory peaks =
     dict_set symbol_id (max (dict_get_default peaks symbol_id 0) (abs inventory)) peaks"

text \<open>The checks before the monetary part; the result is the order's accounted quantity.\<close>

definition check_fill :: "queue_fill \<Rightarrow> simulated_order \<Rightarrow> accounting_ledger \<Rightarrow> int result" where
  "check_fill fill order self = (
     let anomaly = fail_both ERR_SIMULATION_ANOMALY (qf_simulated_order_id fill)
           (qf_market_message_index fill) in
     bindR (require (fill_key fill \<notin> al_fill_keys self) anomaly) (\<lambda>_.
     bindR (require (al_next_fill_id self \<le> MAX_UINT64) (fail_code ERR_SIMULATION_ANOMALY)) (\<lambda>_.
     let accounted_after =
           dict_get_default (al_accounted_quantity_by_order self) (qf_simulated_order_id fill) 0
             + qf_quantity fill in
     bindR (require (accounted_after = so_original_quantity order - so_remaining_quantity order)
              anomaly) (\<lambda>_.
     Inr accounted_after))))"

definition commit_queue_fill ::
  "queue_fill \<Rightarrow> simulated_order \<Rightarrow> int \<Rightarrow> accounting_ledger
     \<Rightarrow> (accounted_fill \<times> accounting_ledger) result" where
  "commit_queue_fill fill order mark_mid2 self =
     bindR (require (\<not> al_settled self) (fail_code ERR_SIMULATION_ANOMALY)) (\<lambda>_.
     bindR (validate_queue_fill fill order) (\<lambda>_.
     bindR (validate_mark_mid2 mark_mid2) (\<lambda>mark.
     bindR (check_fill fill order self) (\<lambda>accounted_after.
     bindR (apply_mark_to_copies (so_symbol_id order) mark (al_positions self) (al_marks self)
              (al_inventory_mark_to_market self)) (\<lambda>(positions, marks, inventory_mtm).
     let symbol_id = so_symbol_id order;
         inventory_after = dict_get_default positions symbol_id 0 + so_side order * qf_quantity fill in
     bindR (require (valid_int inventory_after (- al_inventory_limit self) (al_inventory_limit self))
              (fail_both ERR_INVENTORY_LIMIT (qf_simulated_order_id fill)
                 (qf_market_message_index fill))) (\<lambda>_.
     let positions1 = dict_set symbol_id inventory_after positions in
     bindR (trade_cash_delta (so_side order) (qf_price4 fill) (qf_quantity fill)) (\<lambda>cash_delta.
     bindR (trade_fee (al_maker_fee_rate self) (qf_quantity fill)) (\<lambda>fee.
     bindR (checked_int64 (al_gross_passive_cash self + cash_delta)) (\<lambda>gross_passive_cash.
     bindR (checked_int64 (al_maker_fees self + fee)) (\<lambda>maker_fees.
     bindR (mark_relative_value (so_side order) (qf_price4 fill) (qf_quantity fill) mark) (\<lambda>captured.
     bindR (checked_int64 (al_passive_spread_capture self + captured)) (\<lambda>spread_capture.
     bindR (checked_int64 (al_passive_fill_quantity self + qf_quantity fill)) (\<lambda>fill_quantity.
     bindR (validate_reconciliation self positions1 marks (Some gross_passive_cash) None
              (Some maker_fees) None (Some spread_capture) (Some inventory_mtm) None) (\<lambda>_.
     let accounted = \<lparr>af_fill_id = al_next_fill_id self,
           af_simulated_order_id = qf_simulated_order_id fill,
           af_market_message_index = qf_market_message_index fill,
           af_timestamp_ns = qf_timestamp_ns fill, af_price4 = qf_price4 fill,
           af_quantity = qf_quantity fill, af_fee_microusd = fee,
           af_cash_delta_microusd = cash_delta, af_inventory_after = inventory_after\<rparr> in
     Inr (accounted, self\<lparr>al_positions := positions1, al_marks := marks,
       al_max_abs_positions := raise_peak symbol_id inventory_after (al_max_abs_positions self),
       al_accounted_quantity_by_order := dict_set (qf_simulated_order_id fill) accounted_after
         (al_accounted_quantity_by_order self),
       al_fill_keys := insert (fill_key fill) (al_fill_keys self),
       al_fills := al_fills self @ [accounted],
       al_next_fill_id := al_next_fill_id self + 1,
       al_passive_fill_quantity := fill_quantity,
       al_gross_passive_cash := gross_passive_cash,
       al_maker_fees := maker_fees,
       al_passive_spread_capture := spread_capture,
       al_inventory_mark_to_market := inventory_mtm,
       al_revision := al_revision self + 1\<rparr>)))))))))))))))"

text \<open>Nothing of the ledger changes on any error path of \<open>record_queue_fill\<close>.\<close>

definition commitM :: "('s \<Rightarrow> ('a \<times> 's) result) \<Rightarrow> ('s, 'a) smethod" where
  "commitM f s = (case f s of Inl e \<Rightarrow> (Inl e, s) | Inr (x, s') \<Rightarrow> (Inr x, s'))"

definition record_queue_fill ::
  "queue_fill \<Rightarrow> simulated_order \<Rightarrow> int \<Rightarrow> (accounting_ledger, accounted_fill) smethod" where
  "record_queue_fill fill order mark_mid2 = commitM (commit_queue_fill fill order mark_mid2)"

section \<open>Terminal settlement\<close>

definition validate_terminal_trade :: "terminal_trade \<Rightarrow> unit result" where
  "validate_terminal_trade trade =
     bindR (validate_symbol_id (tt_symbol_id trade)) (\<lambda>_.
     bindR (require (valid_side (tt_side trade)) (fail_code ERR_INVENTORY_LIMIT)) (\<lambda>_.
     bindR (require (valid_int (tt_price4 trade) 0 MAX_UINT32) (fail_code ERR_PRICE)) (\<lambda>_.
     bindR (require (valid_int (tt_quantity trade) 1 MAX_UINT64) (fail_code ERR_QUANTITY)) (\<lambda>_.
     bindR (validate_mark_mid2 (tt_mark_mid2 trade)) (\<lambda>_.
     require (valid_int (tt_timestamp_ns trade) 0 MAX_TIMESTAMP_NS) (fail_code ERR_TIMESTAMP))))))"

text \<open>The local variables of \<open>prepare_terminal_accounting\<close>.\<close>

record terminal_locals =
  tl_positions :: "(int, int) dict"
  tl_marks :: "(int, int) dict"
  tl_seen_symbols :: "int set"
  tl_inventory_mark_to_market :: int
  tl_gross_liquidation_cash :: int
  tl_taker_fees :: int
  tl_terminal_slippage :: int
  tl_liquidation_quantity :: int
  tl_records :: "liquidation_accounting list"

definition mark_terminal_trade :: "terminal_locals \<Rightarrow> terminal_trade \<Rightarrow> terminal_locals result" where
  "mark_terminal_trade v trade =
     bindR (validate_terminal_trade trade) (\<lambda>_.
     bindR (require (tt_symbol_id trade \<notin> tl_seen_symbols v) (fail_code ERR_SIMULATION_ANOMALY)) (\<lambda>_.
     bindR (apply_mark_to_copies (tt_symbol_id trade) (tt_mark_mid2 trade) (tl_positions v)
              (tl_marks v) (tl_inventory_mark_to_market v)) (\<lambda>(positions, marks, inventory_mtm).
     Inr (v\<lparr>tl_seen_symbols := insert (tt_symbol_id trade) (tl_seen_symbols v),
            tl_positions := positions, tl_marks := marks,
            tl_inventory_mark_to_market := inventory_mtm\<rparr>))))"

definition liquidate_position ::
  "int \<Rightarrow> int \<Rightarrow> terminal_locals \<Rightarrow> terminal_trade \<Rightarrow> terminal_locals result" where
  "liquidate_position taker_rate liquidated v trade =
     (case dict_get (tl_positions v) (tt_symbol_id trade) of
        None \<Rightarrow> Inl KeyError
      | Some inventory_before \<Rightarrow>
     bindR (require (tt_side trade = (if inventory_before > 0 then -1 else 1)
                     \<and> tt_quantity trade = abs inventory_before)
              (fail_code ERR_INVENTORY_LIMIT)) (\<lambda>_.
     bindR (trade_cash_delta (tt_side trade) (tt_price4 trade) (tt_quantity trade)) (\<lambda>cash_delta.
     bindR (trade_fee taker_rate (tt_quantity trade)) (\<lambda>fee.
     bindR (mark_relative_value (tt_side trade) (tt_price4 trade) (tt_quantity trade)
              (tt_mark_mid2 trade)) (\<lambda>slippage.
     bindR (checked_int64 (tl_gross_liquidation_cash v + cash_delta)) (\<lambda>gross_liquidation_cash.
     bindR (checked_int64 (tl_taker_fees v + fee)) (\<lambda>taker_fees.
     bindR (checked_int64 (tl_terminal_slippage v + slippage)) (\<lambda>terminal_slippage.
     bindR (checked_int64 (tl_liquidation_quantity v + tt_quantity trade)) (\<lambda>liquidation_quantity.
     Inr (v\<lparr>tl_gross_liquidation_cash := gross_liquidation_cash,
            tl_taker_fees := taker_fees,
            tl_terminal_slippage := terminal_slippage,
            tl_liquidation_quantity := liquidation_quantity,
            tl_positions := dict_set (tt_symbol_id trade) 0 (tl_positions v),
            tl_records := tl_records v @ [
              \<lparr>la_liquidation_id = liquidated + int (length (tl_records v)),
               la_timestamp_ns = tt_timestamp_ns trade,
               la_symbol_id = tt_symbol_id trade,
               la_side = tt_side trade,
               la_price4 = tt_price4 trade,
               la_quantity = tt_quantity trade,
               la_fee_microusd = fee,
               la_cash_delta_microusd = cash_delta,
               la_inventory_before = inventory_before,
               la_inventory_after = 0,
               la_mark_mid2 = tt_mark_mid2 trade,
               la_slippage_microusd = slippage\<rparr>]\<rparr>))))))))))"

definition terminal_locals_of :: "accounting_ledger \<Rightarrow> terminal_locals" where
  "terminal_locals_of self = \<lparr>tl_positions = al_positions self, tl_marks = al_marks self,
     tl_seen_symbols = {}, tl_inventory_mark_to_market = al_inventory_mark_to_market self,
     tl_gross_liquidation_cash = al_gross_liquidation_cash self,
     tl_taker_fees = al_taker_fees self,
     tl_terminal_slippage = al_terminal_liquidation_slippage self,
     tl_liquidation_quantity = al_liquidation_quantity self, tl_records = []\<rparr>"

definition nonzero_symbols :: "(int, int) dict \<Rightarrow> int set" where
  "nonzero_symbols positions = set (map fst (filter (\<lambda>(_, inventory). inventory \<noteq> 0) positions))"

definition plan_terminal_accounting ::
  "terminal_trade list \<Rightarrow> int \<Rightarrow> accounting_ledger \<Rightarrow> prepared_terminal_accounting result" where
  "plan_terminal_accounting trades taker_fee_microusd_per_share self =
     bindR (require (\<not> al_settled self) (fail_code ERR_SIMULATION_ANOMALY)) (\<lambda>_.
     bindR (validate_fee_rate taker_fee_microusd_per_share) (\<lambda>taker_rate.
     bindR (foldR mark_terminal_trade (terminal_locals_of self) trades) (\<lambda>marked.
     bindR (require (tl_seen_symbols marked = nonzero_symbols (tl_positions marked))
              (fail_code ERR_PRICE)) (\<lambda>_.
     bindR (foldR (liquidate_position taker_rate (int (length (al_liquidations self)))) marked
              trades) (\<lambda>v.
     bindR (validate_reconciliation self (tl_positions v) (tl_marks v) None
              (Some (tl_gross_liquidation_cash v)) None (Some (tl_taker_fees v)) None
              (Some (tl_inventory_mark_to_market v)) (Some (tl_terminal_slippage v))) (\<lambda>_.
     Inr \<lparr>pt_identity = al_plans_made self,
          pt_revision = al_revision self,
          pt_records = tl_records v,
          pt_positions = sort (tl_positions v),
          pt_marks = sort (tl_marks v),
          pt_max_abs_positions = sort (al_max_abs_positions self),
          pt_gross_liquidation_cash = tl_gross_liquidation_cash v,
          pt_taker_fee = tl_taker_fees v,
          pt_inventory_mark_to_market = tl_inventory_mark_to_market v,
          pt_terminal_liquidation_slippage = tl_terminal_slippage v,
          pt_liquidation_count = int (length (al_liquidations self)) + int (length (tl_records v)),
          pt_liquidation_quantity = tl_liquidation_quantity v\<rparr>))))))"

definition prepare_terminal_accounting ::
  "terminal_trade list \<Rightarrow> int \<Rightarrow> (accounting_ledger, prepared_terminal_accounting) smethod" where
  "prepare_terminal_accounting trades taker_fee_microusd_per_share = commitM (\<lambda>self.
     bindR (plan_terminal_accounting trades taker_fee_microusd_per_share self) (\<lambda>plan.
     Inr (plan, self\<lparr>al_prepared_terminal_plan := Some plan,
                     al_plans_made := al_plans_made self + 1\<rparr>)))"

definition commit_terminal_accounting ::
  "prepared_terminal_accounting \<Rightarrow> (accounting_ledger, liquidation_accounting list) smethod" where
  "commit_terminal_accounting plan = commitM (\<lambda>self.
     bindR (require (Some plan = al_prepared_terminal_plan self
                     \<and> pt_revision plan = al_revision self)
              (fail_code ERR_SIMULATION_ANOMALY)) (\<lambda>_.
     bindR (require (\<not> al_settled self) (fail_code ERR_SIMULATION_ANOMALY)) (\<lambda>_.
     bindR (require (pt_liquidation_count plan
                     = int (length (al_liquidations self)) + int (length (pt_records plan)))
              (fail_code ERR_INVARIANT)) (\<lambda>_.
     Inr (pt_records plan, self\<lparr>
       al_positions := pt_positions plan,
       al_marks := pt_marks plan,
       al_max_abs_positions := pt_max_abs_positions plan,
       al_gross_liquidation_cash := pt_gross_liquidation_cash plan,
       al_taker_fees := pt_taker_fee plan,
       al_inventory_mark_to_market := pt_inventory_mark_to_market plan,
       al_terminal_liquidation_slippage := pt_terminal_liquidation_slippage plan,
       al_liquidation_quantity := pt_liquidation_quantity plan,
       al_liquidations := al_liquidations self @ pt_records plan,
       al_settled := True,
       al_prepared_terminal_plan := None,
       al_revision := al_revision self + 1\<rparr>)))))"

end
