(* ===== verification/Ledger_Invariant.thy ===== *)
theory Ledger_Invariant
  imports Accounting
begin

text \<open>
  The invariant of the accounting ledger and its preservation by every operation: the profit
  and loss identity, the inventory limit, the reconciliation of the running amounts with the
  recorded fills and liquidations, and the freshness of a prepared terminal plan.
\<close>

section \<open>Checked arithmetic returns the exact value\<close>

definition in_int64 :: "int \<Rightarrow> bool" where
  "in_int64 v \<longleftrightarrow> MIN_INT64 \<le> v \<and> v \<le> MAX_INT64"

lemma checked_int64_Inr [simp]: "checked_int64 v = Inr w \<longleftrightarrow> w = v \<and> in_int64 v"
  by (auto simp: checked_int64_def valid_int_def in_int64_def)

lemma checked_int64_Inl [simp]:
  "checked_int64 v = Inl e \<longleftrightarrow> \<not> in_int64 v \<and> e = SimulationError ERR_COST None None"
  by (auto simp: checked_int64_def valid_int_def in_int64_def fail_defs)

lemma checked_sum_from:
  "foldR (\<lambda>acc v. checked_int64 (acc + v)) a vs = Inr s \<Longrightarrow> s = a + sum_list vs"
  by (induction vs arbitrary: a) (fastforce simp: bindR_eq_Inr)+

lemma checked_sum_int64_Inr: "checked_sum_int64 vs = Inr s \<Longrightarrow> s = sum_list vs"
  using checked_sum_from by (fastforce simp: checked_sum_int64_def)

lemma checked_sum_int64_Inl: "checked_sum_int64 vs = Inl e \<Longrightarrow> e = SimulationError ERR_COST None None"
  unfolding checked_sum_int64_def
  by (drule foldR_Inl [where I = "\<lambda>_. True"]) auto

section \<open>Positions, marks and marked value\<close>

abbreviation position :: "(int, int) dict \<Rightarrow> int \<Rightarrow> int" where
  "position positions s \<equiv> dict_get_default positions s 0"

definition marked_total :: "(int, int) dict \<Rightarrow> (int, int) dict \<Rightarrow> int" where
  "marked_total marks positions =
     dict_sum (\<lambda>s inventory. inventory * dict_get_default marks s 0 * 50) positions"

definition all_marked :: "(int, int) dict \<Rightarrow> (int, int) dict \<Rightarrow> bool" where
  "all_marked marks positions \<longleftrightarrow> (\<forall>s. position positions s \<noteq> 0 \<longrightarrow> has_key marks s)"

lemma dict_get_default_set [simp]:
  "dict_get_default (dict_set k v d) j w = (if j = k then v else dict_get_default d j w)"
  by (simp add: dict_get_default_def)

lemma has_key_set [simp]: "has_key (dict_set k v d) j \<longleftrightarrow> j = k \<or> has_key d j"
  by (simp add: has_key_def)

lemma dict_sum_Cons: "dict_sum f ((k, v) # d) = f k v + dict_sum f d"
  by (simp add: dict_sum_def)

lemma position_Cons: "position ((k, v) # d) s = (if s = k then v else position d s)"
  by (simp add: dict_get_default_def dict_get_def)

lemma all_markedD: "all_marked marks positions \<Longrightarrow> position positions s \<noteq> 0 \<Longrightarrow> has_key marks s"
  by (simp add: all_marked_def)

lemma marked_total_Nil [simp]: "marked_total marks [] = 0"
  by (simp add: marked_total_def)

lemma marked_total_position:
  assumes "dict_ok positions"
  shows "marked_total marks (dict_set s v positions) =
    marked_total marks positions + (v - position positions s) * dict_get_default marks s 0 * 50"
  using assms by (simp add: marked_total_def dict_sum_set dict_get_default_def algebra_simps
    split: option.splits)

lemma marked_total_mark:
  assumes "dict_ok positions"
  shows "marked_total (dict_set s m marks) positions =
    marked_total marks positions + position positions s * (m - dict_get_default marks s 0) * 50"
  using assms
proof (induction positions)
  case Nil
  then show ?case by (simp add: dict_get_default_def)
next
  case (Cons p ps)
  obtain k v where p: "p = (k, v)" by (cases p)
  from Cons.prems have ok: "dict_ok ps" and k: "k \<notin> fst ` set ps" by (auto simp: dict_ok_def p)
  from k have "dict_get ps k = None" by (simp add: dict_get_def map_of_eq_None_iff)
  with Cons.IH [OF ok] show ?case
    by (auto simp: p marked_total_def dict_sum_Cons position_Cons algebra_simps)
       (auto simp: dict_get_default_def)
qed

lemma marked_values_sum: "marked_values marks ps = Inr vs \<Longrightarrow> sum_list vs = marked_total marks ps"
  by (induction marks ps arbitrary: vs rule: marked_values.induct)
    (auto simp: marked_total_def dict_sum_def bindR_eq_Inr marked_value_def dict_get_default_def
      split: option.splits if_splits)

lemma marked_values_Inl:
  assumes "marked_values marks ps = Inl e"
  shows "e = SimulationError ERR_COST None None
    \<or> (\<exists>s v. (s, v) \<in> set ps \<and> v \<noteq> 0 \<and> dict_get marks s = None)"
  using assms
proof (induction marks ps rule: marked_values.induct)
  case (2 marks s v ps)
  show ?case
  proof (cases "dict_get marks s")
    case None
    then show ?thesis using 2 by (auto split: if_splits)
  next
    case (Some m)
    then show ?thesis using 2 by (auto simp: marked_value_def bindR_eq_Inl)
  qed
qed simp

lemma marked_values_error:
  assumes "marked_values marks ps = Inl e" "dict_ok ps" "all_marked marks ps"
  shows "e = SimulationError ERR_COST None None"
proof (rule ccontr)
  assume "e \<noteq> SimulationError ERR_COST None None"
  with marked_values_Inl [OF assms(1)] obtain s v
    where "(s, v) \<in> set ps" "v \<noteq> 0" "dict_get marks s = None" by blast
  with assms(2, 3) show False
    by (auto simp: dict_mem_iff all_marked_def dict_get_default_def has_key_def
      dest!: spec [of _ s])
qed

lemma apply_mark_Inr:
  assumes "apply_mark_to_copies s m positions marks mtm = Inr (positions', marks', mtm')"
    and "dict_ok positions" "dict_ok marks" "all_marked marks positions"
  shows "dict_ok positions'" "dict_ok marks'" "all_marked marks' positions'"
    "\<And>k. position positions' k = position positions k" "has_key positions' s"
    "\<And>k. has_key positions k \<Longrightarrow> has_key positions' k"
    "\<And>k. has_key positions' k \<Longrightarrow> k = s \<or> has_key positions k"
    "marks' = dict_set s m marks"
    "marked_total marks' positions' - mtm' = marked_total marks positions - mtm"
proof -
  have P: "positions' = (if has_key positions s then positions
      else dict_set s (position positions s) positions)"
    and M: "marks' = dict_set s m marks"
    using assms(1) by (auto simp: apply_mark_to_copies_def Let_def bindR_eq_Inr)
  show "marks' = dict_set s m marks" by (rule M)
  show ok: "dict_ok positions'" using assms(2) by (simp add: P)
  show "dict_ok marks'" using assms(3) by (simp add: M)
  show pos: "\<And>k. position positions' k = position positions k" by (simp add: P)
  show "has_key positions' s" by (simp add: P)
  show "\<And>k. has_key positions k \<Longrightarrow> has_key positions' k" by (simp add: P)
  show "\<And>k. has_key positions' k \<Longrightarrow> k = s \<or> has_key positions k" by (simp add: P split: if_splits)
  show "all_marked marks' positions'"
    using assms(4) pos by (simp add: all_marked_def M)
  have same: "marked_total marks positions' = marked_total marks positions"
    using assms(2) by (simp add: P marked_total_position)
  have "mtm' = mtm + position positions s * (m - dict_get_default marks s 0) * 50"
  proof (cases "dict_get marks s")
    case None
    with assms(4) have "position positions s = 0" by (auto simp: all_marked_def has_key_def)
    with None assms(1) show ?thesis
      by (simp add: apply_mark_to_copies_def Let_def)
  next
    case (Some prev)
    with assms(1) show ?thesis
      by (auto simp: apply_mark_to_copies_def Let_def bindR_eq_Inr dict_get_default_def)
  qed
  then show "marked_total marks' positions' - mtm' = marked_total marks positions - mtm"
    using ok by (simp add: M marked_total_mark pos same)
qed

lemma apply_mark_Inl:
  "apply_mark_to_copies s m positions marks mtm = Inl e \<Longrightarrow> e = SimulationError ERR_COST None None"
  by (auto simp: apply_mark_to_copies_def Let_def bindR_eq_Inl split: option.splits)

section \<open>Reconciliation\<close>

lemma reconcile_Inr:
  assumes "reconcile marked pc lc mk tk sp mtm ts = Inr (fees, cash, pnl)"
  shows "fees = mk + tk" "cash = pc + lc - fees" "pnl = cash + marked"
    "pc + lc + marked = sp + mtm + ts"
    "in_int64 (pc + lc)" "in_int64 (mk + tk)" "in_int64 cash" "in_int64 pnl" "in_int64 (- fees)"
    "checked_sum_int64 [sp, mtm, ts, - fees] = Inr pnl"
proof -
  from assms have eq: "fees = mk + tk" "cash = pc + lc - fees" "pnl = cash + marked"
    and sum: "checked_sum_int64 [sp, mtm, ts, - fees] = Inr pnl"
    and "in_int64 (pc + lc)" "in_int64 (mk + tk)" "in_int64 cash" "in_int64 pnl" "in_int64 (- fees)"
    by (auto simp: reconcile_def bindR_eq_Inr split: if_splits)
  then show "fees = mk + tk" "cash = pc + lc - fees" "pnl = cash + marked"
    "in_int64 (pc + lc)" "in_int64 (mk + tk)" "in_int64 cash" "in_int64 pnl" "in_int64 (- fees)"
    "checked_sum_int64 [sp, mtm, ts, - fees] = Inr pnl" by blast+
  show "pc + lc + marked = sp + mtm + ts" using checked_sum_int64_Inr [OF sum] eq by simp
qed

lemma reconcile_Inl:
  assumes "reconcile marked pc lc mk tk sp mtm ts = Inl e"
    and "pc + lc + marked = sp + mtm + ts"
  shows "e = SimulationError ERR_COST None None"
  using assms
  by (auto simp: reconcile_def bindR_eq_Inl dest!: checked_sum_int64_Inr dest: checked_sum_int64_Inl
    split: if_splits)

lemma override_simps [simp]: "override None v = v" "override (Some x) v = x"
  by (simp_all add: override_def)

text \<open>A ledger's profit and loss identity, for the amounts an operation is about to commit.\<close>

definition pnl_identity ::
  "(int, int) dict \<Rightarrow> (int, int) dict \<Rightarrow> int \<Rightarrow> int \<Rightarrow> int \<Rightarrow> int \<Rightarrow> int \<Rightarrow> bool" where
  "pnl_identity positions marks passive_cash liquidation_cash spread inventory_mtm slippage \<longleftrightarrow>
     passive_cash + liquidation_cash + marked_total marks positions = spread + inventory_mtm + slippage"

lemma validate_reconciliation_Inl:
  assumes "validate_reconciliation self positions marks pc lc mk tk sp mtm ts = Inl e"
    and "dict_ok positions" "all_marked marks positions"
    and "pnl_identity positions marks (override pc (al_gross_passive_cash self))
      (override lc (al_gross_liquidation_cash self)) (override sp (al_passive_spread_capture self))
      (override mtm (al_inventory_mark_to_market self))
      (override ts (al_terminal_liquidation_slippage self))"
  shows "e = SimulationError ERR_COST None None"
  using assms
  by (auto simp: validate_reconciliation_def bindR_eq_Inl pnl_identity_def
    dest: marked_values_error checked_sum_int64_Inl
    dest!: marked_values_sum checked_sum_int64_Inr intro: reconcile_Inl)

section \<open>The invariant\<close>

definition ledger_dicts :: "accounting_ledger \<Rightarrow> bool" where
  "ledger_dicts L \<longleftrightarrow> dict_ok (al_positions L) \<and> dict_ok (al_marks L)
   \<and> all_marked (al_marks L) (al_positions L)"

definition ledger_pnl :: "accounting_ledger \<Rightarrow> bool" where
  "ledger_pnl L \<longleftrightarrow> pnl_identity (al_positions L) (al_marks L) (al_gross_passive_cash L)
     (al_gross_liquidation_cash L) (al_passive_spread_capture L) (al_inventory_mark_to_market L)
     (al_terminal_liquidation_slippage L)"

definition within_limit :: "accounting_ledger \<Rightarrow> bool" where
  "within_limit L \<longleftrightarrow> dict_ok (al_max_abs_positions L) \<and> 1 \<le> al_inventory_limit L \<and>
     (\<forall>s. \<bar>position (al_positions L) s\<bar> \<le> position (al_max_abs_positions L) s
        \<and> position (al_max_abs_positions L) s \<le> al_inventory_limit L)"

definition order_quantity :: "int \<Rightarrow> accounted_fill list \<Rightarrow> int" where
  "order_quantity i fills =
     sum_list (map af_quantity (filter (\<lambda>f. af_simulated_order_id f = i) fills))"

definition fills_booked :: "accounting_ledger \<Rightarrow> bool" where
  "fills_booked L \<longleftrightarrow>
     map af_fill_id (al_fills L) = map int [0..<length (al_fills L)]
   \<and> al_next_fill_id L = int (length (al_fills L))
   \<and> al_passive_fill_quantity L = sum_list (map af_quantity (al_fills L))
   \<and> al_gross_passive_cash L = sum_list (map af_cash_delta_microusd (al_fills L))
   \<and> al_maker_fees L = sum_list (map af_fee_microusd (al_fills L))
   \<and> (\<forall>i. position (al_accounted_quantity_by_order L) i = order_quantity i (al_fills L))"

definition liquidations_booked :: "accounting_ledger \<Rightarrow> bool" where
  "liquidations_booked L \<longleftrightarrow>
     map la_liquidation_id (al_liquidations L) = map int [0..<length (al_liquidations L)]
   \<and> al_liquidation_quantity L = sum_list (map la_quantity (al_liquidations L))
   \<and> al_gross_liquidation_cash L = sum_list (map la_cash_delta_microusd (al_liquidations L))
   \<and> al_taker_fees L = sum_list (map la_fee_microusd (al_liquidations L))
   \<and> al_terminal_liquidation_slippage L = sum_list (map la_slippage_microusd (al_liquidations L))
   \<and> (al_settled L \<longrightarrow> (\<forall>s. position (al_positions L) s = 0))"

text \<open>The ledger but for the plan it has prepared.\<close>

definition unplanned :: "accounting_ledger \<Rightarrow> accounting_ledger" where
  "unplanned L = L\<lparr>al_prepared_terminal_plan := None, al_plans_made := 0\<rparr>"

definition plan_fresh :: "accounting_ledger \<Rightarrow> bool" where
  "plan_fresh L \<longleftrightarrow> (\<forall>p. al_prepared_terminal_plan L = Some p \<longrightarrow>
     pt_identity p < al_plans_made L \<and> pt_revision p \<le> al_revision L
   \<and> (pt_revision p = al_revision L \<longrightarrow> (\<exists>trades rate L0.
        plan_terminal_accounting trades rate L0 = Inr p \<and> unplanned L0 = unplanned L)))"

definition ledger_inv :: "accounting_ledger \<Rightarrow> bool" where
  "ledger_inv L \<longleftrightarrow> ledger_dicts L \<and> ledger_pnl L \<and> within_limit L \<and> fills_booked L
     \<and> liquidations_booked L \<and> plan_fresh L"

lemma ledger_invI:
  "ledger_dicts L \<Longrightarrow> ledger_pnl L \<Longrightarrow> within_limit L \<Longrightarrow> fills_booked L \<Longrightarrow> liquidations_booked L
   \<Longrightarrow> plan_fresh L \<Longrightarrow> ledger_inv L"
  by (simp add: ledger_inv_def)

lemma ledger_invD:
  assumes "ledger_inv L"
  shows "ledger_dicts L" "ledger_pnl L" "within_limit L" "fills_booked L" "liquidations_booked L"
    "plan_fresh L"
  using assms by (simp_all add: ledger_inv_def)

lemma ledger_dictsD:
  assumes "ledger_dicts L"
  shows "dict_ok (al_positions L)" "dict_ok (al_marks L)" "all_marked (al_marks L) (al_positions L)"
  using assms by (simp_all add: ledger_dicts_def)

lemma unplanned_eqD:
  assumes "unplanned L0 = unplanned L"
  shows "al_maker_fee_rate L0 = al_maker_fee_rate L" "al_inventory_limit L0 = al_inventory_limit L"
    "al_positions L0 = al_positions L" "al_marks L0 = al_marks L"
    "al_max_abs_positions L0 = al_max_abs_positions L"
    "al_liquidations L0 = al_liquidations L" "al_revision L0 = al_revision L"
    "al_liquidation_quantity L0 = al_liquidation_quantity L"
    "al_gross_passive_cash L0 = al_gross_passive_cash L"
    "al_gross_liquidation_cash L0 = al_gross_liquidation_cash L"
    "al_maker_fees L0 = al_maker_fees L"
    "al_taker_fees L0 = al_taker_fees L"
    "al_passive_spread_capture L0 = al_passive_spread_capture L"
    "al_inventory_mark_to_market L0 = al_inventory_mark_to_market L"
    "al_terminal_liquidation_slippage L0 = al_terminal_liquidation_slippage L"
    "al_settled L0 = al_settled L"
  using assms unfolding unplanned_def by (cases L0, cases L, simp)+

lemma new_ledger_inv: "new_ledger rate limit = Inr L \<Longrightarrow> ledger_inv L"
  by (auto simp: new_ledger_def bindR_eq_Inr valid_int_def ledger_inv_def ledger_dicts_def
    all_marked_def ledger_pnl_def pnl_identity_def within_limit_def fills_booked_def
    order_quantity_def liquidations_booked_def plan_fresh_def dict_get_default_def
    split: if_splits)

section \<open>Marks\<close>

lemma pnl_identity_cong:
  assumes "pnl_identity P M pc lc sp mtm ts"
    and "marked_total M' P' - mtm' = marked_total M P - mtm"
  shows "pnl_identity P' M' pc lc sp mtm' ts"
  using assms by (simp add: pnl_identity_def)

lemma commit_mark_Inr:
  assumes "commit_mark s m L = Inr L'"
  obtains P' M' mtm' where
    "apply_mark_to_copies s m (al_positions L) (al_marks L) (al_inventory_mark_to_market L)
       = Inr (P', M', mtm')"
    "L' = L\<lparr>al_marks := M', al_inventory_mark_to_market := mtm', al_revision := al_revision L + 1\<rparr>"
    "\<not> al_settled L" "valid_int s 1 MAX_UINT16" "valid_int m 0 MAX_MID2"
  using assms
  by (auto simp: commit_mark_def bindR_eq_Inr require_eq_Inr validate_symbol_id_def
    validate_mark_mid2_def fail_defs split: prod.splits if_splits)

lemma commit_mark_inv:
  assumes "commit_mark s m L = Inr L'" "ledger_inv L"
  shows "ledger_inv L'"
proof -
  note d = ledger_dictsD [OF ledger_invD(1) [OF assms(2)]]
  from assms(1) obtain P' M' mtm' where
    a: "apply_mark_to_copies s m (al_positions L) (al_marks L) (al_inventory_mark_to_market L)
       = Inr (P', M', mtm')"
    and L': "L' = L\<lparr>al_marks := M', al_inventory_mark_to_market := mtm',
               al_revision := al_revision L + 1\<rparr>"
    by (rule commit_mark_Inr)
  note b = apply_mark_Inr [OF a d]
  have same: "marked_total M' P' = marked_total M' (al_positions L)"
  proof (cases "has_key (al_positions L) s")
    case True
    then show ?thesis using a by (auto simp: apply_mark_to_copies_def Let_def bindR_eq_Inr)
  next
    case False
    then have "P' = dict_set s (position (al_positions L) s) (al_positions L)"
      using a by (auto simp: apply_mark_to_copies_def Let_def bindR_eq_Inr)
    then show ?thesis using d(1) by (simp add: marked_total_position)
  qed
  show ?thesis
  proof (rule ledger_invI)
    show "ledger_dicts L'"
      using d b(2,8) by (auto simp: ledger_dicts_def L' all_marked_def)
    show "ledger_pnl L'"
      using ledger_invD(2) [OF assms(2)] b(9) same
      by (auto simp: ledger_pnl_def L' elim!: pnl_identity_cong)
    show "plan_fresh L'"
      using ledger_invD(6) [OF assms(2)] by (auto simp: plan_fresh_def L')
  qed (use ledger_invD [OF assms(2)] in
    \<open>simp_all add: L' within_limit_def fills_booked_def liquidations_booked_def\<close>)
qed

section \<open>Passive fills\<close>

text \<open>What an accepted fill has checked, and the ledger it commits.\<close>

lemma commit_queue_fill_Inr:
  assumes "commit_queue_fill fill order m L = Inr (f, L')"
  obtains P' M' mtm' where
    "apply_mark_to_copies (so_symbol_id order) m (al_positions L) (al_marks L)
       (al_inventory_mark_to_market L) = Inr (P', M', mtm')"
    "\<not> al_settled L" "validate_queue_fill fill order = Inr ()" "valid_int m 0 MAX_MID2"
    "fill_key fill \<notin> al_fill_keys L"
    "position (al_accounted_quantity_by_order L) (qf_simulated_order_id fill) + qf_quantity fill
       = so_original_quantity order - so_remaining_quantity order"
    "f = \<lparr>af_fill_id = al_next_fill_id L, af_simulated_order_id = qf_simulated_order_id fill,
        af_market_message_index = qf_market_message_index fill,
        af_timestamp_ns = qf_timestamp_ns fill, af_price4 = qf_price4 fill,
        af_quantity = qf_quantity fill,
        af_fee_microusd = al_maker_fee_rate L * qf_quantity fill,
        af_cash_delta_microusd = - so_side order * qf_price4 fill * qf_quantity fill * 100,
        af_inventory_after = position P' (so_symbol_id order) + so_side order * qf_quantity fill\<rparr>"
    "valid_int (af_inventory_after f) (- al_inventory_limit L) (al_inventory_limit L)"
    "L' = L\<lparr>al_positions := dict_set (so_symbol_id order) (af_inventory_after f) P',
       al_marks := M',
       al_max_abs_positions := raise_peak (so_symbol_id order) (af_inventory_after f)
         (al_max_abs_positions L),
       al_accounted_quantity_by_order := dict_set (qf_simulated_order_id fill)
         (so_original_quantity order - so_remaining_quantity order)
         (al_accounted_quantity_by_order L),
       al_fill_keys := insert (fill_key fill) (al_fill_keys L),
       al_fills := al_fills L @ [f],
       al_next_fill_id := al_next_fill_id L + 1,
       al_passive_fill_quantity := al_passive_fill_quantity L + qf_quantity fill,
       al_gross_passive_cash := al_gross_passive_cash L + af_cash_delta_microusd f,
       al_maker_fees := al_maker_fees L + af_fee_microusd f,
       al_passive_spread_capture := al_passive_spread_capture L
         + so_side order * (m - 2 * qf_price4 fill) * qf_quantity fill * 50,
       al_inventory_mark_to_market := mtm',
       al_revision := al_revision L + 1\<rparr>"
  using assms
  by (auto simp: commit_queue_fill_def bindR_eq_Inr require_eq_Inr check_fill_def Let_def
    validate_mark_mid2_def trade_cash_delta_def trade_fee_def mark_relative_value_def
    split: prod.splits if_splits)

lemma dict_ok_raise_peak [simp]: "dict_ok peaks \<Longrightarrow> dict_ok (raise_peak s v peaks)"
  by (simp add: raise_peak_def)

lemma raise_peak_limit:
  assumes "within_limit L" "valid_int v (- al_inventory_limit L) (al_inventory_limit L)"
  shows "\<bar>v\<bar> \<le> position (raise_peak s v (al_max_abs_positions L)) s"
    "position (raise_peak s v (al_max_abs_positions L)) k \<le> al_inventory_limit L"
    "k \<noteq> s \<Longrightarrow> position (raise_peak s v (al_max_abs_positions L)) k
       = position (al_max_abs_positions L) k"
  using assms by (auto simp: raise_peak_def within_limit_def valid_int_def)

lemma order_quantity_append:
  "order_quantity i (fills @ [f]) =
     order_quantity i fills + (if af_simulated_order_id f = i then af_quantity f else 0)"
  by (simp add: order_quantity_def)

lemma commit_queue_fill_inv:
  assumes "commit_queue_fill fill order m L = Inr (f, L')" "ledger_inv L"
  shows "ledger_inv L'"
proof -
  note d = ledger_dictsD [OF ledger_invD(1) [OF assms(2)]]
  let ?s = "so_symbol_id order"
  from assms(1) show ?thesis
  proof (rule commit_queue_fill_Inr)
    fix P' M' mtm'
    assume a: "apply_mark_to_copies ?s m (al_positions L) (al_marks L)
        (al_inventory_mark_to_market L) = Inr (P', M', mtm')"
      and acc: "position (al_accounted_quantity_by_order L) (qf_simulated_order_id fill)
        + qf_quantity fill = so_original_quantity order - so_remaining_quantity order"
      and f: "f = \<lparr>af_fill_id = al_next_fill_id L,
        af_simulated_order_id = qf_simulated_order_id fill,
        af_market_message_index = qf_market_message_index fill,
        af_timestamp_ns = qf_timestamp_ns fill, af_price4 = qf_price4 fill,
        af_quantity = qf_quantity fill,
        af_fee_microusd = al_maker_fee_rate L * qf_quantity fill,
        af_cash_delta_microusd = - so_side order * qf_price4 fill * qf_quantity fill * 100,
        af_inventory_after = position P' ?s + so_side order * qf_quantity fill\<rparr>"
      and v: "valid_int (af_inventory_after f) (- al_inventory_limit L) (al_inventory_limit L)"
      and L': "L' = L\<lparr>al_positions := dict_set ?s (af_inventory_after f) P', al_marks := M',
       al_max_abs_positions := raise_peak ?s (af_inventory_after f) (al_max_abs_positions L),
       al_accounted_quantity_by_order := dict_set (qf_simulated_order_id fill)
         (so_original_quantity order - so_remaining_quantity order)
         (al_accounted_quantity_by_order L),
       al_fill_keys := insert (fill_key fill) (al_fill_keys L),
       al_fills := al_fills L @ [f],
       al_next_fill_id := al_next_fill_id L + 1,
       al_passive_fill_quantity := al_passive_fill_quantity L + qf_quantity fill,
       al_gross_passive_cash := al_gross_passive_cash L + af_cash_delta_microusd f,
       al_maker_fees := al_maker_fees L + af_fee_microusd f,
       al_passive_spread_capture := al_passive_spread_capture L
         + so_side order * (m - 2 * qf_price4 fill) * qf_quantity fill * 50,
       al_inventory_mark_to_market := mtm',
       al_revision := al_revision L + 1\<rparr>" and live: "\<not> al_settled L"
    note b = apply_mark_Inr [OF a d]
    have mark: "dict_get_default M' ?s 0 = m" by (simp add: b(8))
    show ?thesis
    proof (rule ledger_invI)
      show "ledger_dicts L'"
        using b(1-3) by (auto simp: ledger_dicts_def L' all_marked_def b(8))
      show "ledger_pnl L'"
        using ledger_invD(2) [OF assms(2)] b(9)
        by (simp add: ledger_pnl_def pnl_identity_def L' marked_total_position b(1) mark f
            algebra_simps)
      show "within_limit L'"
        using ledger_invD(3) [OF assms(2)] raise_peak_limit [OF ledger_invD(3) [OF assms(2)] v, where s = ?s]
        by (auto simp: within_limit_def L' b(4))
      show "fills_booked L'"
        using ledger_invD(4) [OF assms(2)] acc
        by (auto simp: fills_booked_def L' f order_quantity_append)
      show "liquidations_booked L'"
        using ledger_invD(5) [OF assms(2)] live by (simp add: liquidations_booked_def L')
      show "plan_fresh L'"
        using ledger_invD(6) [OF assms(2)] by (auto simp: plan_fresh_def L')
    qed
  qed
qed

text \<open>
  The errors of a fill. On a ledger in its invariant the reconciliation cannot fail, so
  \<open>INVARIANT\<close> is not among them.
\<close>

lemma commit_queue_fill_Inl:
  assumes "commit_queue_fill fill order m L = Inl e" "ledger_inv L"
  shows "e = SimulationError ERR_COST None None
    \<or> e = SimulationError ERR_INVENTORY_LIMIT (Some (qf_simulated_order_id fill))
        (Some (qf_market_message_index fill))
    \<or> al_settled L \<or> validate_queue_fill fill order = Inl e \<or> validate_mark_mid2 m = Inl e
    \<or> check_fill fill order L = Inl e"
proof (rule ccontr)
  assume c: "\<not> ?thesis"
  note d = ledger_dictsD [OF ledger_invD(1) [OF assms(2)]]
  let ?s = "so_symbol_id order"
  let ?q = "qf_quantity fill"
  from c assms(1) obtain P' M' mtm' where
    a: "apply_mark_to_copies ?s m (al_positions L) (al_marks L) (al_inventory_mark_to_market L)
        = Inr (P', M', mtm')"
    and v: "validate_reconciliation L
        (dict_set ?s (position P' ?s + so_side order * ?q) P') M'
        (Some (al_gross_passive_cash L + - so_side order * qf_price4 fill * ?q * 100)) None
        (Some (al_maker_fees L + al_maker_fee_rate L * ?q)) None
        (Some (al_passive_spread_capture L + so_side order * (m - 2 * qf_price4 fill) * ?q * 50))
        (Some mtm') None = Inl e"
    by (auto simp: commit_queue_fill_def bindR_eq_Inl require_eq_Inl Let_def fail_defs
      validate_mark_mid2_def trade_cash_delta_def trade_fee_def mark_relative_value_def
      dest: apply_mark_Inl split: prod.splits if_splits)
  note b = apply_mark_Inr [OF a d]
  have "dict_get_default M' ?s 0 = m" by (simp add: b(8))
  then have "pnl_identity (dict_set ?s (position P' ?s + so_side order * ?q) P') M'
      (al_gross_passive_cash L + - so_side order * qf_price4 fill * ?q * 100)
      (al_gross_liquidation_cash L)
      (al_passive_spread_capture L + so_side order * (m - 2 * qf_price4 fill) * ?q * 50)
      mtm' (al_terminal_liquidation_slippage L)"
    using ledger_invD(2) [OF assms(2)] b(9)
    by (simp add: ledger_pnl_def pnl_identity_def marked_total_position b(1) algebra_simps)
  moreover have "all_marked M' (dict_set ?s (position P' ?s + so_side order * ?q) P')"
    using b(3) by (auto simp: all_marked_def b(8))
  ultimately have "e = SimulationError ERR_COST None None"
    using validate_reconciliation_Inl [OF v] b(1) by simp
  with c show False by blast
qed

section \<open>Terminal plans\<close>

text \<open>The first loop marks the traded symbols and moves no position.\<close>

definition marked_so_far :: "accounting_ledger \<Rightarrow> terminal_trade list \<Rightarrow> terminal_locals \<Rightarrow> bool" where
  "marked_so_far L ts v \<longleftrightarrow>
     dict_ok (tl_positions v) \<and> dict_ok (tl_marks v) \<and> all_marked (tl_marks v) (tl_positions v)
   \<and> (\<forall>s. position (tl_positions v) s = position (al_positions L) s)
   \<and> marked_total (tl_marks v) (tl_positions v) - tl_inventory_mark_to_market v
       = marked_total (al_marks L) (al_positions L) - al_inventory_mark_to_market L
   \<and> tl_seen_symbols v = tt_symbol_id ` set ts \<and> distinct (map tt_symbol_id ts)
   \<and> (\<forall>t\<in>set ts. validate_terminal_trade t = Inr () \<and> has_key (tl_positions v) (tt_symbol_id t)
        \<and> dict_get (tl_marks v) (tt_symbol_id t) = Some (tt_mark_mid2 t))
   \<and> tl_gross_liquidation_cash v = al_gross_liquidation_cash L
   \<and> tl_taker_fees v = al_taker_fees L
   \<and> tl_terminal_slippage v = al_terminal_liquidation_slippage L
   \<and> tl_liquidation_quantity v = al_liquidation_quantity L \<and> tl_records v = []"

lemma marked_so_far_start:
  "ledger_dicts L \<Longrightarrow> marked_so_far L [] (terminal_locals_of L)"
  by (simp add: marked_so_far_def terminal_locals_of_def ledger_dicts_def)

lemma mark_terminal_trade_step:
  assumes "marked_so_far L ts v" "mark_terminal_trade v t = Inr v'"
  shows "marked_so_far L (ts @ [t]) v'"
proof -
  from assms(2) obtain P' M' mtm' where
    a: "apply_mark_to_copies (tt_symbol_id t) (tt_mark_mid2 t) (tl_positions v) (tl_marks v)
          (tl_inventory_mark_to_market v) = Inr (P', M', mtm')"
    and v': "v' = v\<lparr>tl_seen_symbols := insert (tt_symbol_id t) (tl_seen_symbols v),
        tl_positions := P', tl_marks := M', tl_inventory_mark_to_market := mtm'\<rparr>"
    and t: "validate_terminal_trade t = Inr ()" "tt_symbol_id t \<notin> tl_seen_symbols v"
    by (auto simp: mark_terminal_trade_def bindR_eq_Inr require_eq_Inr fail_defs split: prod.splits)
  from assms(1) have d: "dict_ok (tl_positions v)" "dict_ok (tl_marks v)"
    "all_marked (tl_marks v) (tl_positions v)" by (simp_all add: marked_so_far_def)
  note b = apply_mark_Inr [OF a d]
  have "tt_symbol_id t \<notin> tt_symbol_id ` set ts"
    using assms(1) t(2) by (simp add: marked_so_far_def)
  then have new: "\<forall>ta\<in>set ts. tt_symbol_id ta \<noteq> tt_symbol_id t" by (metis imageI)
  from assms(1) t b new show ?thesis
    by (auto simp: marked_so_far_def v')
qed

lemma mark_terminal_trades:
  assumes "foldR mark_terminal_trade (terminal_locals_of L) ts = Inr v" "ledger_dicts L"
  shows "marked_so_far L ts v"
  by (rule foldR_prefix [OF assms(1)])
    (auto intro: marked_so_far_start [OF assms(2)] mark_terminal_trade_step)

text \<open>The second loop closes the traded positions, each at its trade's price.\<close>

definition liquidation_of ::
  "int \<Rightarrow> (int, int) dict \<Rightarrow> nat \<times> terminal_trade \<Rightarrow> liquidation_accounting" where
  "liquidation_of rate positions = (\<lambda>(i, t). \<lparr>
     la_liquidation_id = int i, la_timestamp_ns = tt_timestamp_ns t,
     la_symbol_id = tt_symbol_id t, la_side = tt_side t, la_price4 = tt_price4 t,
     la_quantity = tt_quantity t, la_fee_microusd = rate * tt_quantity t,
     la_cash_delta_microusd = - tt_side t * tt_price4 t * tt_quantity t * 100,
     la_inventory_before = position positions (tt_symbol_id t), la_inventory_after = 0,
     la_mark_mid2 = tt_mark_mid2 t,
     la_slippage_microusd = tt_side t * (tt_mark_mid2 t - 2 * tt_price4 t) * tt_quantity t * 50\<rparr>)"

definition closes :: "(int, int) dict \<Rightarrow> terminal_trade \<Rightarrow> bool" where
  "closes positions t \<longleftrightarrow> tt_side t * tt_quantity t = - position positions (tt_symbol_id t)
     \<and> tt_quantity t = \<bar>position positions (tt_symbol_id t)\<bar>"

definition closed_so_far ::
  "int \<Rightarrow> accounting_ledger \<Rightarrow> terminal_locals \<Rightarrow> terminal_trade list \<Rightarrow> terminal_locals \<Rightarrow> bool" where
  "closed_so_far rate L v0 ts v \<longleftrightarrow>
     dict_ok (tl_positions v) \<and> tl_marks v = tl_marks v0
   \<and> (\<forall>s. has_key (tl_positions v) s \<longleftrightarrow> has_key (tl_positions v0) s)
   \<and> (\<forall>s. position (tl_positions v) s =
        (if s \<in> tt_symbol_id ` set ts then 0 else position (tl_positions v0) s))
   \<and> (\<forall>t\<in>set ts. closes (al_positions L) t)
   \<and> tl_inventory_mark_to_market v = tl_inventory_mark_to_market v0
   \<and> tl_records v = map (liquidation_of rate (al_positions L))
       (enumerate (length (al_liquidations L)) ts)
   \<and> tl_gross_liquidation_cash v
       = al_gross_liquidation_cash L + sum_list (map la_cash_delta_microusd (tl_records v))
   \<and> tl_taker_fees v = al_taker_fees L + sum_list (map la_fee_microusd (tl_records v))
   \<and> tl_terminal_slippage v
       = al_terminal_liquidation_slippage L + sum_list (map la_slippage_microusd (tl_records v))
   \<and> tl_liquidation_quantity v
       = al_liquidation_quantity L + sum_list (map la_quantity (tl_records v))
   \<and> tl_gross_liquidation_cash v + marked_total (tl_marks v) (tl_positions v)
       - tl_terminal_slippage v
       = al_gross_liquidation_cash L + marked_total (tl_marks v0) (tl_positions v0)
         - al_terminal_liquidation_slippage L"

lemma closed_so_far_start:
  "marked_so_far L ts v0 \<Longrightarrow> closed_so_far rate L v0 [] v0"
  by (simp add: closed_so_far_def marked_so_far_def)

lemma liquidate_position_step:
  assumes m: "marked_so_far L trades v0" and c: "closed_so_far rate L v0 ts v"
    and l: "liquidate_position rate (int (length (al_liquidations L))) v t = Inr v'"
    and t: "trades = ts @ t # rest"
  shows "closed_so_far rate L v0 (ts @ [t]) v'"
proof -
  let ?s = "tt_symbol_id t"
  from m t have mark: "dict_get (tl_marks v0) ?s = Some (tt_mark_mid2 t)" by (simp add: marked_so_far_def)
  from m t have new: "?s \<notin> tt_symbol_id ` set ts" by (auto simp: marked_so_far_def)
  with c m have before: "position (tl_positions v) ?s = position (al_positions L) ?s"
    by (simp add: closed_so_far_def marked_so_far_def)
  have ok: "dict_ok (tl_positions v)" using c by (simp add: closed_so_far_def)
  have marks: "tl_marks v = tl_marks v0" using c by (simp add: closed_so_far_def)
  from l obtain inv where i: "dict_get (tl_positions v) ?s = Some inv"
    by (auto simp: liquidate_position_def split: option.splits)
  then have inv: "inv = position (al_positions L) ?s" using before by (simp add: dict_get_default_def)
  have len: "length (tl_records v) = length ts" using c by (simp add: closed_so_far_def)
  have cl: "closes (al_positions L) t"
    using l i by (auto simp: liquidate_position_def bindR_eq_Inr require_eq_Inr fail_defs closes_def
      inv [symmetric] split: if_splits)
  let ?r = "liquidation_of rate (al_positions L) (length (al_liquidations L) + length ts, t)"
  have v': "v' = v\<lparr>
      tl_gross_liquidation_cash := tl_gross_liquidation_cash v + la_cash_delta_microusd ?r,
      tl_taker_fees := tl_taker_fees v + la_fee_microusd ?r,
      tl_terminal_slippage := tl_terminal_slippage v + la_slippage_microusd ?r,
      tl_liquidation_quantity := tl_liquidation_quantity v + la_quantity ?r,
      tl_positions := dict_set ?s 0 (tl_positions v), tl_records := tl_records v @ [?r]\<rparr>"
    using l i by (auto simp: liquidate_position_def bindR_eq_Inr require_eq_Inr fail_defs
      trade_cash_delta_def trade_fee_def mark_relative_value_def liquidation_of_def inv len)
  have total: "marked_total (tl_marks v) (dict_set ?s 0 (tl_positions v))
      = marked_total (tl_marks v) (tl_positions v) + tt_side t * tt_quantity t * tt_mark_mid2 t * 50"
  proof -
    have "tt_side t * tt_quantity t = - position (al_positions L) ?s"
      using cl unfolding closes_def by (rule conjunct1)
    moreover have "dict_get_default (tl_marks v) ?s 0 = tt_mark_mid2 t"
      using mark by (simp add: marks dict_get_default_def)
    ultimately show ?thesis by (simp add: marked_total_position [OF ok] before)
  qed
  have id: "tl_gross_liquidation_cash v' + marked_total (tl_marks v') (tl_positions v')
      - tl_terminal_slippage v' =
    tl_gross_liquidation_cash v + marked_total (tl_marks v) (tl_positions v) - tl_terminal_slippage v"
    by (simp add: v' total liquidation_of_def algebra_simps)
  have keys: "has_key (tl_positions v) ?s" using i by (simp add: has_key_def)
  note C = c [unfolded closed_so_far_def]
  have "\<forall>s. has_key (tl_positions v') s \<longleftrightarrow> has_key (tl_positions v0) s"
    using C keys by (auto simp: v')
  moreover have "\<forall>s. position (tl_positions v') s =
        (if s \<in> tt_symbol_id ` set (ts @ [t]) then 0 else position (tl_positions v0) s)"
    using C by (simp add: v')
  moreover have "tl_records v' = map (liquidation_of rate (al_positions L))
       (enumerate (length (al_liquidations L)) (ts @ [t]))"
    using C by (simp add: v' enumerate_append_eq)
  moreover have "tl_gross_liquidation_cash v'
       = al_gross_liquidation_cash L + sum_list (map la_cash_delta_microusd (tl_records v'))"
    "tl_taker_fees v' = al_taker_fees L + sum_list (map la_fee_microusd (tl_records v'))"
    "tl_terminal_slippage v'
       = al_terminal_liquidation_slippage L + sum_list (map la_slippage_microusd (tl_records v'))"
    "tl_liquidation_quantity v'
       = al_liquidation_quantity L + sum_list (map la_quantity (tl_records v'))"
    using C by (simp_all add: v')
  moreover have "dict_ok (tl_positions v')" "tl_marks v' = tl_marks v0"
    "\<forall>t\<in>set (ts @ [t]). closes (al_positions L) t"
    "tl_inventory_mark_to_market v' = tl_inventory_mark_to_market v0"
    using C cl by (auto simp: v')
  moreover have "tl_gross_liquidation_cash v' + marked_total (tl_marks v') (tl_positions v')
       - tl_terminal_slippage v'
       = al_gross_liquidation_cash L + marked_total (tl_marks v0) (tl_positions v0)
         - al_terminal_liquidation_slippage L"
    unfolding id using C by blast
  ultimately show ?thesis unfolding closed_so_far_def by blast
qed

lemma liquidate_positions:
  assumes "foldR (liquidate_position rate (int (length (al_liquidations L)))) v0 trades = Inr v"
    and "marked_so_far L trades v0"
  shows "closed_so_far rate L v0 trades v"
proof (rule foldR_prefix [OF assms(1), where I = "closed_so_far rate L v0"])
  show "closed_so_far rate L v0 [] v0" by (rule closed_so_far_start [OF assms(2)])
next
  fix ys x zs a b
  assume "trades = ys @ x # zs" "closed_so_far rate L v0 ys a"
    "liquidate_position rate (int (length (al_liquidations L))) a x = Inr b"
  then show "closed_so_far rate L v0 (ys @ [x]) b"
    using liquidate_position_step [OF assms(2)] by blast
qed

lemma dict_ok_sort: "dict_ok d \<Longrightarrow> dict_ok (sort d)"
proof -
  assume d: "dict_ok d"
  have "mset (map fst (sort d)) = mset (map fst d)" by simp
  then have "distinct (map fst (sort d)) = distinct (map fst d)"
    by (rule mset_eq_imp_distinct_iff)
  with d show ?thesis by (simp add: dict_ok_def)
qed

lemma dict_get_sort:
  assumes "dict_ok d"
  shows "dict_get (sort d) k = dict_get d k"
proof -
  have "dict_get (sort d) k = Some v \<longleftrightarrow> dict_get d k = Some v" for v
    using dict_mem_iff [OF assms] dict_mem_iff [OF dict_ok_sort [OF assms]] by simp
  then show ?thesis by (cases "dict_get d k"; cases "dict_get (sort d) k") auto
qed

lemma position_sort: "dict_ok d \<Longrightarrow> position (sort d) k = position d k"
  by (simp add: dict_get_default_def dict_get_sort)

lemma marked_total_zero:
  assumes "\<And>s. position positions s = 0" "dict_ok positions"
  shows "marked_total marks positions = 0"
proof -
  have "marked_total marks positions = dict_sum (\<lambda>s v. 0) positions"
    unfolding marked_total_def
    by (rule dict_sum_cong [OF assms(2)]) (metis assms(1) dict_get_default_def mult_zero_left option.simps(5))
  then show ?thesis by (simp add: dict_sum_def case_prod_unfold)
qed

lemma nonzero_symbols_iff:
  "dict_ok positions \<Longrightarrow> s \<in> nonzero_symbols positions \<longleftrightarrow> position positions s \<noteq> 0"
proof -
  assume d: "dict_ok positions"
  have "s \<in> nonzero_symbols positions \<longleftrightarrow> (\<exists>v. (s, v) \<in> set positions \<and> v \<noteq> 0)"
    by (auto simp: nonzero_symbols_def image_iff)
  then show ?thesis
    by (auto simp: dict_mem_iff [OF d] dict_get_default_def split: option.splits)
qed

text \<open>What a prepared plan says: one trade for each open position, which it closes exactly.\<close>

definition plan_closes ::
  "terminal_trade list \<Rightarrow> int \<Rightarrow> accounting_ledger \<Rightarrow> prepared_terminal_accounting \<Rightarrow> bool" where
  "plan_closes trades rate L p \<longleftrightarrow>
     distinct (map tt_symbol_id trades)
   \<and> (\<forall>s. position (al_positions L) s \<noteq> 0 \<longleftrightarrow> s \<in> tt_symbol_id ` set trades)
   \<and> (\<forall>t\<in>set trades. closes (al_positions L) t \<and> validate_terminal_trade t = Inr ())
   \<and> pt_records p = map (liquidation_of rate (al_positions L))
       (enumerate (length (al_liquidations L)) trades)"

definition plan_amounts :: "accounting_ledger \<Rightarrow> prepared_terminal_accounting \<Rightarrow> bool" where
  "plan_amounts L p \<longleftrightarrow>
     pt_gross_liquidation_cash p
       = al_gross_liquidation_cash L + sum_list (map la_cash_delta_microusd (pt_records p))
   \<and> pt_taker_fee p = al_taker_fees L + sum_list (map la_fee_microusd (pt_records p))
   \<and> pt_terminal_liquidation_slippage p
       = al_terminal_liquidation_slippage L + sum_list (map la_slippage_microusd (pt_records p))
   \<and> pt_liquidation_quantity p
       = al_liquidation_quantity L + sum_list (map la_quantity (pt_records p))
   \<and> pt_liquidation_count p = int (length (al_liquidations L)) + int (length (pt_records p))
   \<and> pt_max_abs_positions p = sort (al_max_abs_positions L)
   \<and> pt_revision p = al_revision L \<and> pt_identity p = al_plans_made L"

lemma terminal_loops:
  assumes f0: "foldR mark_terminal_trade (terminal_locals_of L) trades = Inr v0"
    and s: "tl_seen_symbols v0 = nonzero_symbols (tl_positions v0)"
    and f: "foldR (liquidate_position rate (int (length (al_liquidations L)))) v0 trades = Inr v"
    and d: "ledger_dicts L"
  shows "dict_ok (tl_positions v)" "dict_ok (tl_marks v)"
    "\<And>s. position (al_positions L) s \<noteq> 0 \<longleftrightarrow> s \<in> tt_symbol_id ` set trades"
    "\<And>s. position (tl_positions v) s = 0" "marked_total (tl_marks v) (tl_positions v) = 0"
    "ledger_pnl L \<Longrightarrow> pnl_identity (tl_positions v) (tl_marks v) (al_gross_passive_cash L)
       (tl_gross_liquidation_cash v) (al_passive_spread_capture L)
       (tl_inventory_mark_to_market v) (tl_terminal_slippage v)"
proof -
  note m = mark_terminal_trades [OF f0 d]
  note c = liquidate_positions [OF f m]
  note M = m [unfolded marked_so_far_def] and C = c [unfolded closed_so_far_def]
  show ok: "dict_ok (tl_positions v)" "dict_ok (tl_marks v)" using M C by simp_all
  show open_: "position (al_positions L) s \<noteq> 0 \<longleftrightarrow> s \<in> tt_symbol_id ` set trades" for s
    using M s nonzero_symbols_iff [of "tl_positions v0" s] by simp
  show zero: "position (tl_positions v) s = 0" for s
    using C M open_ [of s] by auto
  show flat: "marked_total (tl_marks v) (tl_positions v) = 0"
    using ok zero by (intro marked_total_zero)
  have "tl_gross_liquidation_cash v + marked_total (tl_marks v) (tl_positions v)
      - tl_terminal_slippage v = al_gross_liquidation_cash L
      + marked_total (tl_marks v0) (tl_positions v0) - al_terminal_liquidation_slippage L"
    "marked_total (tl_marks v0) (tl_positions v0) - tl_inventory_mark_to_market v0
       = marked_total (al_marks L) (al_positions L) - al_inventory_mark_to_market L"
    "tl_inventory_mark_to_market v = tl_inventory_mark_to_market v0"
    using C apply blast using M apply blast using C by blast
  then show "pnl_identity (tl_positions v) (tl_marks v) (al_gross_passive_cash L)
       (tl_gross_liquidation_cash v) (al_passive_spread_capture L)
       (tl_inventory_mark_to_market v) (tl_terminal_slippage v)"
    if "ledger_pnl L" using that flat by (simp add: ledger_pnl_def pnl_identity_def)
qed

lemma plan_terminal_Inr:
  assumes "plan_terminal_accounting trades rate L = Inr p" and d: "ledger_dicts L"
  shows "\<not> al_settled L" "dict_ok (pt_positions p)" "dict_ok (pt_marks p)"
    "\<And>s. position (pt_positions p) s = 0"
    "plan_closes trades rate L p" "plan_amounts L p"
    "ledger_pnl L \<Longrightarrow> pnl_identity (pt_positions p) (pt_marks p) (al_gross_passive_cash L)
       (pt_gross_liquidation_cash p) (al_passive_spread_capture L)
       (pt_inventory_mark_to_market p) (pt_terminal_liquidation_slippage p)"
    "\<exists>r. reconcile 0 (al_gross_passive_cash L) (pt_gross_liquidation_cash p) (al_maker_fees L)
       (pt_taker_fee p) (al_passive_spread_capture L) (pt_inventory_mark_to_market p)
       (pt_terminal_liquidation_slippage p) = Inr r"
proof -
  from assms(1) obtain v0 v where live: "\<not> al_settled L"
    and f0: "foldR mark_terminal_trade (terminal_locals_of L) trades = Inr v0"
    and s: "tl_seen_symbols v0 = nonzero_symbols (tl_positions v0)"
    and f: "foldR (liquidate_position rate (int (length (al_liquidations L)))) v0 trades = Inr v"
    and rec: "validate_reconciliation L (tl_positions v) (tl_marks v) None
              (Some (tl_gross_liquidation_cash v)) None (Some (tl_taker_fees v)) None
              (Some (tl_inventory_mark_to_market v)) (Some (tl_terminal_slippage v)) = Inr ()"
    and p: "p = \<lparr>pt_identity = al_plans_made L,
          pt_revision = al_revision L,
          pt_records = tl_records v,
          pt_positions = sort (tl_positions v),
          pt_marks = sort (tl_marks v),
          pt_max_abs_positions = sort (al_max_abs_positions L),
          pt_gross_liquidation_cash = tl_gross_liquidation_cash v,
          pt_taker_fee = tl_taker_fees v,
          pt_inventory_mark_to_market = tl_inventory_mark_to_market v,
          pt_terminal_liquidation_slippage = tl_terminal_slippage v,
          pt_liquidation_count = int (length (al_liquidations L)) + int (length (tl_records v)),
          pt_liquidation_quantity = tl_liquidation_quantity v\<rparr>"
    by (auto simp: plan_terminal_accounting_def bindR_eq_Inr require_eq_Inr fail_defs
      validate_fee_rate_def split: if_splits)
  show "\<not> al_settled L" by (rule live)
  note m = mark_terminal_trades [OF f0 d]
  note c = liquidate_positions [OF f m]
  note M = m [unfolded marked_so_far_def] and C = c [unfolded closed_so_far_def]
  note t = terminal_loops [OF f0 s f d]
  note ok = t(1,2) and open_ = t(3) and zero = t(4) and flat = t(5)
  show "dict_ok (pt_positions p)" "dict_ok (pt_marks p)" using ok by (simp_all add: p dict_ok_sort)
  show pz: "\<And>s. position (pt_positions p) s = 0" using ok zero by (simp add: p position_sort)
  show "plan_closes trades rate L p"
    using M C open_ by (auto simp: plan_closes_def p)
  show "plan_amounts L p" using C by (simp add: plan_amounts_def p)
  have "marked_total (pt_marks p) (pt_positions p) = 0"
    using pz ok by (intro marked_total_zero) (simp_all add: p dict_ok_sort)
  then show "pnl_identity (pt_positions p) (pt_marks p) (al_gross_passive_cash L)
       (pt_gross_liquidation_cash p) (al_passive_spread_capture L)
       (pt_inventory_mark_to_market p) (pt_terminal_liquidation_slippage p)"
    if "ledger_pnl L" using t(6) [OF that] flat by (simp add: pnl_identity_def p)
  from rec obtain vs marked r where mv: "marked_values (tl_marks v) (tl_positions v) = Inr vs"
    "checked_sum_int64 vs = Inr marked"
    and r: "reconcile marked (al_gross_passive_cash L) (tl_gross_liquidation_cash v)
      (al_maker_fees L) (tl_taker_fees v) (al_passive_spread_capture L)
      (tl_inventory_mark_to_market v) (tl_terminal_slippage v) = Inr r"
    by (auto simp: validate_reconciliation_def bindR_eq_Inr)
  have "marked = 0"
    using marked_values_sum [OF mv(1)] checked_sum_int64_Inr [OF mv(2)] flat by simp
  with r show "\<exists>r. reconcile 0 (al_gross_passive_cash L) (pt_gross_liquidation_cash p)
      (al_maker_fees L) (pt_taker_fee p) (al_passive_spread_capture L)
      (pt_inventory_mark_to_market p) (pt_terminal_liquidation_slippage p) = Inr r"
    by (intro exI [of _ r]) (simp add: p)
qed

lemma prepare_terminal_inv:
  assumes "prepare_terminal_accounting trades rate L = (r, L')" "ledger_inv L"
  shows "ledger_inv L'" "unplanned L' = unplanned L"
proof -
  have L': "L' = L \<or> (\<exists>p. plan_terminal_accounting trades rate L = Inr p
      \<and> L' = L\<lparr>al_prepared_terminal_plan := Some p, al_plans_made := al_plans_made L + 1\<rparr>)"
    using assms(1) by (auto simp: prepare_terminal_accounting_def commitM_def bindR_def split: sum.splits)
  then show "unplanned L' = unplanned L" by (auto simp: unplanned_def)
  show "ledger_inv L'"
  proof (cases "L' = L")
    case False
    with L' obtain p where p: "plan_terminal_accounting trades rate L = Inr p"
      and eq: "L' = L\<lparr>al_prepared_terminal_plan := Some p, al_plans_made := al_plans_made L + 1\<rparr>"
      by blast
    have "plan_amounts L p" using plan_terminal_Inr(6) [OF p ledger_invD(1) [OF assms(2)]] .
    moreover have "unplanned L = unplanned L'" by (simp add: eq unplanned_def)
    ultimately have "plan_fresh L'" using p by (auto simp: plan_fresh_def eq plan_amounts_def)
    then show ?thesis
      using ledger_invD [OF assms(2)]
      by (intro ledger_invI) (simp_all add: eq ledger_dicts_def ledger_pnl_def within_limit_def
        fills_booked_def liquidations_booked_def)
  qed (use assms(2) in simp)
qed

lemma prepare_terminal_Inr:
  "prepare_terminal_accounting trades rate L = (Inr p, L') \<longleftrightarrow>
     plan_terminal_accounting trades rate L = Inr p
   \<and> L' = L\<lparr>al_prepared_terminal_plan := Some p, al_plans_made := al_plans_made L + 1\<rparr>"
  by (auto simp: prepare_terminal_accounting_def commitM_def bindR_def split: sum.splits)

lemma prepare_terminal_Inl:
  "prepare_terminal_accounting trades rate L = (Inl e, L') \<longleftrightarrow>
     plan_terminal_accounting trades rate L = Inl e \<and> L' = L"
  by (auto simp: prepare_terminal_accounting_def commitM_def bindR_def split: sum.splits)

section \<open>Committing a plan\<close>

definition settled_with :: "prepared_terminal_accounting \<Rightarrow> accounting_ledger \<Rightarrow> accounting_ledger" where
  "settled_with plan L = L\<lparr>
       al_positions := pt_positions plan,
       al_marks := pt_marks plan,
       al_max_abs_positions := pt_max_abs_positions plan,
       al_gross_liquidation_cash := pt_gross_liquidation_cash plan,
       al_taker_fees := pt_taker_fee plan,
       al_inventory_mark_to_market := pt_inventory_mark_to_market plan,
       al_terminal_liquidation_slippage := pt_terminal_liquidation_slippage plan,
       al_liquidation_quantity := pt_liquidation_quantity plan,
       al_liquidations := al_liquidations L @ pt_records plan,
       al_settled := True,
       al_prepared_terminal_plan := None,
       al_revision := al_revision L + 1\<rparr>"

lemma settled_with_sel:
  "al_positions (settled_with p L) = pt_positions p"
  "al_marks (settled_with p L) = pt_marks p"
  "al_max_abs_positions (settled_with p L) = pt_max_abs_positions p"
  "al_settled (settled_with p L) = True"
  by (simp_all add: settled_with_def)

lemma commit_terminal_Inr:
  assumes "commit_terminal_accounting plan L = (Inr rs, L')"
  shows "Some plan = al_prepared_terminal_plan L" "pt_revision plan = al_revision L"
    "\<not> al_settled L" "rs = pt_records plan" "L' = settled_with plan L"
  using assms
  by (auto simp: commit_terminal_accounting_def commitM_def bindR_def require_def fail_defs
    settled_with_def split: sum.splits if_splits)

lemma commit_terminal_Inl:
  assumes "commit_terminal_accounting plan L = (Inl e, L')"
  shows "L' = L"
  using assms by (auto simp: commit_terminal_accounting_def commitM_def split: sum.splits)

text \<open>The plan that a commit accepts was computed from the present ledger.\<close>

lemma current_plan:
  assumes "ledger_inv L" "Some plan = al_prepared_terminal_plan L" "pt_revision plan = al_revision L"
  obtains trades rate where "plan_closes trades rate L plan" "dict_ok (pt_positions plan)"
    "dict_ok (pt_marks plan)" "\<And>s. position (pt_positions plan) s = 0"
    "pnl_identity (pt_positions plan) (pt_marks plan) (al_gross_passive_cash L)
       (pt_gross_liquidation_cash plan) (al_passive_spread_capture L)
       (pt_inventory_mark_to_market plan) (pt_terminal_liquidation_slippage plan)"
    "pt_gross_liquidation_cash plan
       = al_gross_liquidation_cash L + sum_list (map la_cash_delta_microusd (pt_records plan))"
    "pt_taker_fee plan = al_taker_fees L + sum_list (map la_fee_microusd (pt_records plan))"
    "pt_terminal_liquidation_slippage plan
       = al_terminal_liquidation_slippage L + sum_list (map la_slippage_microusd (pt_records plan))"
    "pt_liquidation_quantity plan
       = al_liquidation_quantity L + sum_list (map la_quantity (pt_records plan))"
    "pt_liquidation_count plan = int (length (al_liquidations L)) + int (length (pt_records plan))"
    "pt_max_abs_positions plan = sort (al_max_abs_positions L)"
    "\<exists>r. reconcile 0 (al_gross_passive_cash L) (pt_gross_liquidation_cash plan) (al_maker_fees L)
       (pt_taker_fee plan) (al_passive_spread_capture L) (pt_inventory_mark_to_market plan)
       (pt_terminal_liquidation_slippage plan) = Inr r"
proof -
  have "al_prepared_terminal_plan L = Some plan" using assms(2) by simp
  with ledger_invD(6) [OF assms(1)] assms(3) obtain trades rate L0
    where p: "plan_terminal_accounting trades rate L0 = Inr plan"
      and u: "unplanned L0 = unplanned L" by (auto simp: plan_fresh_def)
  note eq = unplanned_eqD [OF u]
  have d: "ledger_dicts L0" "ledger_pnl L0"
    using ledger_invD(1,2) [OF assms(1)] by (simp_all add: ledger_dicts_def ledger_pnl_def eq)
  note P = plan_terminal_Inr [OF p d(1)]
  note A = P(6) [unfolded plan_amounts_def eq]
  show thesis
    by (rule that [of trades rate])
      (use P(2-5) P(7) [OF d(2)] P(8) [unfolded eq] A in \<open>simp_all add: plan_closes_def eq\<close>)
qed

lemma liquidation_ids:
  "map la_liquidation_id (map (liquidation_of rate positions) (enumerate n ts))
     = map int [n..<n + length ts]"
  by (simp add: liquidation_of_def comp_def case_prod_unfold enumerate_eq_zip
    flip: map_map [of int fst, unfolded comp_def])

lemma commit_terminal_inv:
  assumes "commit_terminal_accounting plan L = (r, L')" "ledger_inv L"
  shows "ledger_inv L'"
proof (cases r)
  case (Inl e)
  with assms commit_terminal_Inl show ?thesis by blast
next
  case (Inr rs)
  note c = commit_terminal_Inr [OF assms(1) [unfolded Inr]]
  note L' = c(5)
  from c(1,2) assms(2) show ?thesis
  proof (elim current_plan)
    fix trades rate
    assume cl: "plan_closes trades rate L plan"
      and ok: "dict_ok (pt_positions plan)" "dict_ok (pt_marks plan)"
      and zero: "\<And>s. position (pt_positions plan) s = 0"
      and pnl: "pnl_identity (pt_positions plan) (pt_marks plan) (al_gross_passive_cash L)
       (pt_gross_liquidation_cash plan) (al_passive_spread_capture L)
       (pt_inventory_mark_to_market plan) (pt_terminal_liquidation_slippage plan)"
      and amounts: "pt_gross_liquidation_cash plan
       = al_gross_liquidation_cash L + sum_list (map la_cash_delta_microusd (pt_records plan))"
      "pt_taker_fee plan = al_taker_fees L + sum_list (map la_fee_microusd (pt_records plan))"
      "pt_terminal_liquidation_slippage plan
       = al_terminal_liquidation_slippage L + sum_list (map la_slippage_microusd (pt_records plan))"
      "pt_liquidation_quantity plan
       = al_liquidation_quantity L + sum_list (map la_quantity (pt_records plan))"
      and peak: "pt_max_abs_positions plan = sort (al_max_abs_positions L)"
    have ids: "map la_liquidation_id (pt_records plan)
        = map int [length (al_liquidations L)..<length (al_liquidations L) + length (pt_records plan)]"
      using cl liquidation_ids [of rate "al_positions L" "length (al_liquidations L)" trades]
      by (simp add: plan_closes_def)
    have l: "liquidations_booked L" using ledger_invD(5) [OF assms(2)] .
    show ?thesis
    proof (rule ledger_invI)
      show "ledger_dicts L'" using ok zero by (simp add: L' settled_with_def ledger_dicts_def all_marked_def)
      show "ledger_pnl L'" using pnl by (simp add: L' settled_with_def ledger_pnl_def)
      show "within_limit L'"
      proof -
        note w = ledger_invD(3) [OF assms(2), unfolded within_limit_def]
        have ok': "dict_ok (al_max_abs_positions L)" using w by blast
        have low: "0 \<le> position (al_max_abs_positions L) s" for s
          using w abs_ge_zero order_trans by blast
        have pk: "position (al_max_abs_positions L') s = position (al_max_abs_positions L) s" for s
          by (simp only: L' settled_with_sel peak position_sort [OF ok'])
        have ps: "position (al_positions L') s = 0" for s
          by (simp only: L' settled_with_sel zero)
        have "dict_ok (al_max_abs_positions L')" "al_inventory_limit L' = al_inventory_limit L"
          by (simp_all add: L' settled_with_def peak dict_ok_sort [OF ok'])
        then show ?thesis
          using w low unfolding within_limit_def pk ps abs_zero by metis
      qed
      show "fills_booked L'" using ledger_invD(4) [OF assms(2)]
        by (simp add: L' settled_with_def fills_booked_def)
      have "map la_liquidation_id (al_liquidations L @ pt_records plan)
          = map int [0..<length (al_liquidations L @ pt_records plan)]"
        using l ids by (simp add: liquidations_booked_def upt_add_eq_append [of 0])
      then show "liquidations_booked L'"
        using l amounts zero by (simp add: L' settled_with_def liquidations_booked_def)
      show "plan_fresh L'" by (simp add: L' settled_with_def plan_fresh_def)
    qed
  qed
qed

end
