(* ===== verification/Ledger_Properties.thy ===== *)
theory Ledger_Properties
  imports Ledger_Invariant
begin

text \<open>
  The ledger as a machine driven by its public methods, and what any run of it guarantees:
  snapshots reconcile, positions and cash are those of the trades it accepted, inventory stays
  within its limit, a stale plan is refused, and settlement leaves a flat book.
\<close>

section \<open>Snapshots\<close>

lemma marked_total_over:
  assumes "dict_ok positions" "distinct ks" "\<And>s. position positions s \<noteq> 0 \<Longrightarrow> s \<in> set ks"
  shows "sum_list (map (\<lambda>s. position positions s * dict_get_default marks s 0 * 50) ks)
    = marked_total marks positions" (is "sum_list (map ?g ks) = _")
proof -
  have "marked_total marks positions = sum_list (map ?g (map fst positions))"
    unfolding marked_total_def dict_sum_def map_map
    by (rule arg_cong [where f = sum_list])
      (auto simp: dict_mem_iff [OF assms(1)] dict_get_default_def)
  also have "\<dots> = sum ?g (set (map fst positions))"
    using assms(1) unfolding dict_ok_def by (rule sum_list_distinct_conv_sum_set)
  also have "\<dots> = sum ?g (set ks)"
  proof (rule sum.mono_neutral_cong)
    show "?g s = 0" if "s \<in> set ks - set (map fst positions)" for s
    proof -
      from that have "dict_get positions s = None" by (simp add: dict_get_def map_of_eq_None_iff)
      then show ?thesis by (simp add: dict_get_default_def)
    qed
  qed (use assms(3) in auto)
  also have "\<dots> = sum_list (map ?g ks)"
    using assms(2) by (rule sum_list_distinct_conv_sum_set [symmetric])
  finally show ?thesis by simp
qed

definition symbol_row :: "accounting_ledger \<Rightarrow> int \<Rightarrow> symbol_accounting" where
  "symbol_row L s = \<lparr>sy_symbol_id = s, sy_inventory = position (al_positions L) s,
     sy_mark_mid2 = dict_get (al_marks L) s,
     sy_marked_value_microusd = position (al_positions L) s * dict_get_default (al_marks L) s 0 * 50,
     sy_max_abs_inventory = position (al_max_abs_positions L) s\<rparr>"

lemma snapshot_symbols_Inr: "snapshot_symbols L ks = Inr rows \<Longrightarrow> rows = map (symbol_row L) ks"
  by (induction ks arbitrary: rows)
    (auto simp: bindR_eq_Inr symbol_row_def marked_value_def dict_get_default_def Let_def
      split: if_splits option.splits)

lemma snapshot_symbols_Inl:
  "snapshot_symbols L ks = Inl e \<Longrightarrow> all_marked (al_marks L) (al_positions L)
    \<Longrightarrow> e = SimulationError ERR_COST None None"
  by (induction ks)
    (auto simp: bindR_eq_Inl marked_value_def all_marked_def has_key_def Let_def
      split: if_splits option.splits)

lemma distinct_ledger_symbols: "distinct (ledger_symbols L)"
  by (simp add: ledger_symbols_def)

lemma ledger_symbols_cover: "position (al_positions L) s \<noteq> 0 \<Longrightarrow> s \<in> set (ledger_symbols L)"
  by (auto simp: ledger_symbols_def dict_keys_iff has_key_def dict_get_default_def)

lemma snapshot_marked:
  assumes "ledger_dicts L"
  shows "sum_list (map sy_marked_value_microusd (map (symbol_row L) (ledger_symbols L)))
    = marked_total (al_marks L) (al_positions L)"
  using marked_total_over [OF ledger_dictsD(1) [OF assms] distinct_ledger_symbols
    ledger_symbols_cover, where marks = "al_marks L"]
  by (simp add: symbol_row_def comp_def)

text \<open>What a snapshot reports; the errors are those of a sum that leaves the 64-bit range.\<close>

lemma ledger_snapshot_Inr:
  assumes "ledger_snapshot L = Inr s" "ledger_dicts L"
  shows "sn_symbols s = map (symbol_row L) (ledger_symbols L)"
    "sn_marked_inventory_value s = marked_total (al_marks L) (al_positions L)"
    "sn_signed_fee s = al_maker_fees L + al_taker_fees L"
    "sn_cash s = al_gross_passive_cash L + al_gross_liquidation_cash L - sn_signed_fee s"
    "sn_marked_pnl s = sn_cash s + sn_marked_inventory_value s"
    "sn_marked_pnl s = sn_passive_spread_capture s + sn_inventory_mark_to_market s
       + sn_terminal_liquidation_slippage s - sn_signed_fee s"
    "sn_gross_passive_cash s = al_gross_passive_cash L"
    "sn_gross_liquidation_cash s = al_gross_liquidation_cash L"
    "sn_maker_fee s = al_maker_fees L" "sn_taker_fee s = al_taker_fees L"
    "in_int64 (sn_gross_passive_cash s + sn_gross_liquidation_cash s)" "in_int64 (- sn_signed_fee s)"
    "in_int64 (sn_cash s)"
    "checked_sum_int64 [sn_passive_spread_capture s, sn_inventory_mark_to_market s,
       sn_terminal_liquidation_slippage s, - sn_signed_fee s] = Inr (sn_marked_pnl s)"
    "sn_settled s = al_settled L"
    "sn_passive_fill_count s = int (length (al_fills L))"
    "sn_liquidation_count s = int (length (al_liquidations L))"
    "sn_passive_fill_quantity s = al_passive_fill_quantity L"
    "sn_liquidation_quantity s = al_liquidation_quantity L"
proof -
  from assms(1) obtain rows marked fees cash pnl
    where rows: "snapshot_symbols L (ledger_symbols L) = Inr rows"
      and marked: "checked_sum_int64 (map sy_marked_value_microusd rows) = Inr marked"
      and rec: "reconcile marked (al_gross_passive_cash L) (al_gross_liquidation_cash L)
         (al_maker_fees L) (al_taker_fees L) (al_passive_spread_capture L)
         (al_inventory_mark_to_market L) (al_terminal_liquidation_slippage L)
         = Inr (fees, cash, pnl)"
      and s: "s = \<lparr>sn_symbols = rows,
          sn_passive_fill_count = int (length (al_fills L)),
          sn_passive_fill_quantity = al_passive_fill_quantity L,
          sn_liquidation_count = int (length (al_liquidations L)),
          sn_liquidation_quantity = al_liquidation_quantity L,
          sn_gross_passive_cash = al_gross_passive_cash L,
          sn_gross_liquidation_cash = al_gross_liquidation_cash L,
          sn_maker_fee = al_maker_fees L,
          sn_taker_fee = al_taker_fees L,
          sn_signed_fee = fees,
          sn_cash = cash,
          sn_marked_inventory_value = marked,
          sn_marked_pnl = pnl,
          sn_passive_spread_capture = al_passive_spread_capture L,
          sn_inventory_mark_to_market = al_inventory_mark_to_market L,
          sn_terminal_liquidation_slippage = al_terminal_liquidation_slippage L,
          sn_settled = al_settled L\<rparr>"
    by (auto simp: ledger_snapshot_def bindR_eq_Inr)
  note r = reconcile_Inr [OF rec]
  show "sn_gross_passive_cash s = al_gross_passive_cash L"
    "sn_gross_liquidation_cash s = al_gross_liquidation_cash L"
    "sn_maker_fee s = al_maker_fees L" "sn_taker_fee s = al_taker_fees L"
    "sn_settled s = al_settled L" "sn_passive_fill_count s = int (length (al_fills L))"
    "sn_liquidation_count s = int (length (al_liquidations L))"
    "sn_passive_fill_quantity s = al_passive_fill_quantity L"
    "sn_liquidation_quantity s = al_liquidation_quantity L"
    by (simp_all add: s)
  show "sn_symbols s = map (symbol_row L) (ledger_symbols L)"
    using snapshot_symbols_Inr [OF rows] by (simp add: s)
  show "sn_marked_inventory_value s = marked_total (al_marks L) (al_positions L)"
    using checked_sum_int64_Inr [OF marked] snapshot_symbols_Inr [OF rows]
      snapshot_marked [OF assms(2)] by (simp add: s)
  show "sn_marked_pnl s = sn_passive_spread_capture s + sn_inventory_mark_to_market s
       + sn_terminal_liquidation_slippage s - sn_signed_fee s"
    using r(2,3,4) by (simp add: s)
  show "sn_signed_fee s = al_maker_fees L + al_taker_fees L"
    "sn_cash s = al_gross_passive_cash L + al_gross_liquidation_cash L - sn_signed_fee s"
    "sn_marked_pnl s = sn_cash s + sn_marked_inventory_value s"
    "in_int64 (sn_gross_passive_cash s + sn_gross_liquidation_cash s)" "in_int64 (- sn_signed_fee s)"
    "in_int64 (sn_cash s)"
    "checked_sum_int64 [sn_passive_spread_capture s, sn_inventory_mark_to_market s,
       sn_terminal_liquidation_slippage s, - sn_signed_fee s] = Inr (sn_marked_pnl s)"
    using r by (simp_all add: s)
qed

lemma ledger_snapshot_Inl:
  assumes "ledger_snapshot L = Inl e" "ledger_dicts L" "ledger_pnl L"
  shows "e = SimulationError ERR_COST None None"
proof -
  have "e = SimulationError ERR_COST None None" if "snapshot_symbols L (ledger_symbols L) = Inl e"
    using that ledger_dictsD(3) [OF assms(2)] by (rule snapshot_symbols_Inl)
  moreover have "e = SimulationError ERR_COST None None"
    if rows: "snapshot_symbols L (ledger_symbols L) = Inr rows"
      and s: "checked_sum_int64 (map sy_marked_value_microusd rows) = Inr marked"
      and r: "reconcile marked (al_gross_passive_cash L) (al_gross_liquidation_cash L)
         (al_maker_fees L) (al_taker_fees L) (al_passive_spread_capture L)
         (al_inventory_mark_to_market L) (al_terminal_liquidation_slippage L) = Inl e"
    for rows marked
  proof (rule reconcile_Inl [OF r])
    have "marked = marked_total (al_marks L) (al_positions L)"
      using checked_sum_int64_Inr [OF s] snapshot_symbols_Inr [OF rows] snapshot_marked [OF assms(2)]
      by simp
    with assms(3) show "al_gross_passive_cash L + al_gross_liquidation_cash L + marked
        = al_passive_spread_capture L + al_inventory_mark_to_market L
          + al_terminal_liquidation_slippage L"
      by (simp add: ledger_pnl_def pnl_identity_def)
  qed
  ultimately show ?thesis
    using assms(1) by (auto simp: ledger_snapshot_def bindR_eq_Inl split: prod.splits
      dest: checked_sum_int64_Inl)
qed

text \<open>A flat ledger whose amounts have just been reconciled has a snapshot.\<close>

lemma checked_sum_zeros: "\<forall>v\<in>set vs. v = 0 \<Longrightarrow> checked_sum_int64 vs = Inr 0"
  by (induction vs) (auto simp: checked_sum_int64_def in_int64_def MIN_INT64_def MAX_INT64_def
    checked_int64_def valid_int_def)

lemma snapshot_symbols_flat:
  assumes "\<And>s. position (al_positions L) s = 0"
  shows "snapshot_symbols L ks = Inr (map (symbol_row L) ks)"
  by (induction ks)
    (auto simp: assms symbol_row_def marked_value_def checked_int64_def valid_int_def MIN_INT64_def
      MAX_INT64_def Let_def split: option.splits)

lemma flat_snapshot:
  assumes "\<And>s. position (al_positions L) s = 0"
    and "reconcile 0 (al_gross_passive_cash L) (al_gross_liquidation_cash L) (al_maker_fees L)
       (al_taker_fees L) (al_passive_spread_capture L) (al_inventory_mark_to_market L)
       (al_terminal_liquidation_slippage L) = Inr r"
  shows "\<exists>s. ledger_snapshot L = Inr s"
proof -
  have "checked_sum_int64 (map sy_marked_value_microusd (map (symbol_row L) ks)) = Inr 0" for ks
    by (rule checked_sum_zeros) (auto simp: symbol_row_def assms(1))
  then show ?thesis
    using assms(2) by (cases r) (simp add: ledger_snapshot_def snapshot_symbols_flat [OF assms(1)])
qed

section \<open>The ledger as a machine\<close>

datatype ledger_call =
    Update_Mark int int
  | Record_Fill queue_fill simulated_order int
  | Prepare_Terminal "terminal_trade list" int
  | Commit_Terminal prepared_terminal_accounting
  | Take_Snapshot

definition discard :: "'a result \<times> 's \<Rightarrow> unit result \<times> 's" where
  "discard r = ((case fst r of Inl e \<Rightarrow> Inl e | Inr _ \<Rightarrow> Inr ()), snd r)"

lemma discard_Inr: "discard r = (Inr u, s) \<longleftrightarrow> (\<exists>x. r = (Inr x, s))"
  by (cases r; cases "fst r") (auto simp: discard_def)

lemma snd_discard [simp]: "snd (discard r) = snd r"
  by (simp add: discard_def)

fun ledger_step :: "accounting_ledger \<Rightarrow> ledger_call \<Rightarrow> unit result \<times> accounting_ledger" where
  "ledger_step L (Update_Mark s m) = discard (update_mark s m L)"
| "ledger_step L (Record_Fill fill order m) = discard (record_queue_fill fill order m L)"
| "ledger_step L (Prepare_Terminal trades rate) = discard (prepare_terminal_accounting trades rate L)"
| "ledger_step L (Commit_Terminal plan) = discard (commit_terminal_accounting plan L)"
| "ledger_step L Take_Snapshot = discard (ledger_snapshot L, L)"

lemma record_queue_fill_Inr:
  "record_queue_fill fill order m L = (Inr f, L') \<longleftrightarrow> commit_queue_fill fill order m L = Inr (f, L')"
  by (auto simp: record_queue_fill_def commitM_def split: sum.splits)

lemma record_queue_fill_Inl:
  "record_queue_fill fill order m L = (Inl e, L') \<longleftrightarrow>
     commit_queue_fill fill order m L = Inl e \<and> L' = L"
  by (auto simp: record_queue_fill_def commitM_def split: sum.splits)

lemma ledger_step_always: "ledger_inv L \<Longrightarrow> ledger_inv (snd (ledger_step L c))"
proof (cases c)
  case (Update_Mark s m)
  assume "ledger_inv L"
  then show ?thesis
    by (cases "commit_mark s m L") (auto simp: Update_Mark update_mark_def intro: commit_mark_inv)
next
  case (Record_Fill fill order m)
  assume "ledger_inv L"
  then show ?thesis
    by (cases "commit_queue_fill fill order m L")
      (auto simp: Record_Fill record_queue_fill_def commitM_def intro: commit_queue_fill_inv)
next
  case (Prepare_Terminal trades rate)
  assume "ledger_inv L"
  then show ?thesis
    using prepare_terminal_inv(1) [of trades rate L] by (simp add: Prepare_Terminal prod_eq_iff)
next
  case (Commit_Terminal plan)
  assume "ledger_inv L"
  then show ?thesis
    using commit_terminal_inv [of plan L] by (simp add: Commit_Terminal prod_eq_iff)
qed simp

interpretation ledger: resilient_machine ledger_step ledger_inv
  by unfold_locales (rule ledger_step_always)

section \<open>The trades a ledger has booked\<close>

type_synonym trade = "int \<times> int \<times> int"

fun call_trades :: "ledger_call \<Rightarrow> trade list" where
  "call_trades (Record_Fill fill order m) =
     [(so_symbol_id order, so_side order * qf_quantity fill, qf_price4 fill)]"
| "call_trades (Commit_Terminal plan) =
     map (\<lambda>r. (la_symbol_id r, la_side r * la_quantity r, la_price4 r)) (pt_records plan)"
| "call_trades _ = []"

definition moves :: "int \<Rightarrow> trade list \<Rightarrow> int list" where
  "moves s ts = map (\<lambda>(_, q, _). q) (filter (\<lambda>(k, _, _). k = s) ts)"

definition trade_cash :: "trade list \<Rightarrow> int" where
  "trade_cash ts = sum_list (map (\<lambda>(_, q, p). - q * p * 100) ts)"

text \<open>The largest absolute exposure along a sequence of position changes.\<close>

fun exposure_peak :: "int \<Rightarrow> int \<Rightarrow> int list \<Rightarrow> int" where
  "exposure_peak inventory peak [] = peak"
| "exposure_peak inventory peak (q # qs) =
     exposure_peak (inventory + q) (max peak \<bar>inventory + q\<bar>) qs"

lemma exposure_peak_append:
  "exposure_peak i p (xs @ ys) = exposure_peak (i + sum_list xs) (exposure_peak i p xs) ys"
  by (induction xs arbitrary: i p) (simp_all add: add.assoc)

lemma moves_append [simp]: "moves s (xs @ ys) = moves s xs @ moves s ys"
  by (simp add: moves_def)

lemma trade_cash_append [simp]: "trade_cash (xs @ ys) = trade_cash xs + trade_cash ys"
  by (simp add: trade_cash_def)

definition books :: "accounting_ledger \<Rightarrow> trade list \<Rightarrow> bool" where
  "books L ts \<longleftrightarrow>
     (\<forall>s. position (al_positions L) s = sum_list (moves s ts)
        \<and> position (al_max_abs_positions L) s = exposure_peak 0 0 (moves s ts))
   \<and> al_gross_passive_cash L + al_gross_liquidation_cash L = trade_cash ts"

lemma closes_move: "closes P t \<Longrightarrow> tt_side t * tt_quantity t = - position P (tt_symbol_id t)"
  unfolding closes_def by (rule conjunct1)

lemma map_snd_enumerate: "map (\<lambda>x. f (snd x)) (enumerate n ts) = map f ts"
  by (simp add: enumerate_eq_zip flip: map_map [of f snd, unfolded comp_def])

lemma closing_moves:
  assumes "distinct (map tt_symbol_id ts)" "\<forall>t\<in>set ts. closes P t"
  shows "moves s (map (\<lambda>t. (tt_symbol_id t, tt_side t * tt_quantity t, tt_price4 t)) ts)
    = (if s \<in> tt_symbol_id ` set ts then [- position P s] else [])"
  using assms
proof (induction ts)
  case Nil
  then show ?case by (simp add: moves_def)
next
  case (Cons t ts)
  from Cons.prems(2) have q: "tt_side t * tt_quantity t = - position P (tt_symbol_id t)"
    by (intro closes_move) simp
  from Cons.prems(1) have "tt_symbol_id t \<notin> tt_symbol_id ` set ts" by simp
  with Cons.IH Cons.prems show ?case
    by (auto simp: moves_def q simp del: mult_minus_left)
qed

lemma plan_trades:
  assumes "plan_closes trades rate L p"
  shows "call_trades (Commit_Terminal p)
    = map (\<lambda>t. (tt_symbol_id t, tt_side t * tt_quantity t, tt_price4 t)) trades"
    "sum_list (map la_cash_delta_microusd (pt_records p)) = trade_cash (call_trades (Commit_Terminal p))"
proof -
  show "call_trades (Commit_Terminal p)
    = map (\<lambda>t. (tt_symbol_id t, tt_side t * tt_quantity t, tt_price4 t)) trades"
    using assms by (simp add: plan_closes_def liquidation_of_def comp_def case_prod_unfold
      map_snd_enumerate [of "\<lambda>t. (tt_symbol_id t, tt_side t * tt_quantity t, tt_price4 t)"])
  show "sum_list (map la_cash_delta_microusd (pt_records p)) = trade_cash (call_trades (Commit_Terminal p))"
    using assms by (simp add: plan_closes_def liquidation_of_def comp_def case_prod_unfold
      trade_cash_def algebra_simps)
qed

text \<open>Each accepted call books exactly its trades.\<close>

lemma books_fill:
  assumes "commit_queue_fill fill order m L = Inr (f, L')" "ledger_inv L" "books L ts"
  shows "books L' (ts @ call_trades (Record_Fill fill order m))"
proof -
  note d = ledger_dictsD [OF ledger_invD(1) [OF assms(2)]]
  let ?s = "so_symbol_id order"
  let ?q = "so_side order * qf_quantity fill"
  from assms(1) obtain P' M' mtm' where
    a: "apply_mark_to_copies ?s m (al_positions L) (al_marks L) (al_inventory_mark_to_market L)
      = Inr (P', M', mtm')"
    and inv: "af_inventory_after f = position P' ?s + ?q"
    and cash: "af_cash_delta_microusd f = - so_side order * qf_price4 fill * qf_quantity fill * 100"
    and P: "al_positions L' = dict_set ?s (af_inventory_after f) P'"
    and K: "al_max_abs_positions L' = raise_peak ?s (af_inventory_after f) (al_max_abs_positions L)"
    and C: "al_gross_passive_cash L' = al_gross_passive_cash L + af_cash_delta_microusd f"
      "al_gross_liquidation_cash L' = al_gross_liquidation_cash L"
    by (elim commit_queue_fill_Inr) (rule that, simp_all)
  note same = apply_mark_Inr(4) [OF a d]
  have "al_gross_passive_cash L' + al_gross_liquidation_cash L'
      = trade_cash (ts @ call_trades (Record_Fill fill order m))"
    using assms(3) by (simp add: C cash books_def trade_cash_def algebra_simps)
  moreover have "position (al_positions L') s = sum_list (moves s (ts @ [(?s, ?q, qf_price4 fill)]))"
    and "position (al_max_abs_positions L') s
      = exposure_peak 0 0 (moves s (ts @ [(?s, ?q, qf_price4 fill)]))" for s
    using assms(3) by (auto simp: books_def P K raise_peak_def same inv moves_def exposure_peak_append)
  ultimately show ?thesis by (simp add: books_def del: moves_append)
qed

lemma books_commit:
  assumes "commit_terminal_accounting plan L = (Inr rs, L')" "ledger_inv L" "books L ts"
  shows "books L' (ts @ call_trades (Commit_Terminal plan))"
proof -
  note c = commit_terminal_Inr [OF assms(1)]
  obtain trades rate where
    cl: "plan_closes trades rate L plan" and ok: "dict_ok (pt_positions plan)"
    and zero: "\<And>s. position (pt_positions plan) s = 0"
    and cash: "pt_gross_liquidation_cash plan
       = al_gross_liquidation_cash L + sum_list (map la_cash_delta_microusd (pt_records plan))"
    and peak: "pt_max_abs_positions plan = sort (al_max_abs_positions L)"
    by (rule current_plan [OF assms(2) c(1,2)]) (rule that, assumption+)
  have peaks: "dict_ok (al_max_abs_positions L)" and low: "0 \<le> position (al_max_abs_positions L) s" for s
    using ledger_invD(3) [OF assms(2)] abs_ge_zero order_trans unfolding within_limit_def by blast+
  let ?ts = "call_trades (Commit_Terminal plan)"
  have mv: "moves s ?ts = (if position (al_positions L) s \<noteq> 0 then [- position (al_positions L) s] else [])"
    for s
    using cl unfolding plan_trades(1) [OF cl]
    by (subst closing_moves [where P = "al_positions L"]) (auto simp: plan_closes_def)
  have "position (al_positions L') s = sum_list (moves s (ts @ ?ts))" for s
    using assms(3) by (simp add: c(5) settled_with_sel zero mv books_def del: call_trades.simps)
  moreover have "position (al_max_abs_positions L') s = exposure_peak 0 0 (moves s (ts @ ?ts))" for s
  proof -
    have b: "sum_list (moves s ts) = position (al_positions L) s"
      "exposure_peak 0 0 (moves s ts) = position (al_max_abs_positions L) s"
      using assms(3) by (simp_all add: books_def)
    have "position (al_max_abs_positions L') s = position (al_max_abs_positions L) s"
      by (simp only: c(5) settled_with_sel peak position_sort [OF peaks])
    then show ?thesis
      using low [of s] by (simp add: exposure_peak_append b mv del: call_trades.simps)
  qed
  moreover have "al_gross_passive_cash L' + al_gross_liquidation_cash L' = trade_cash (ts @ ?ts)"
    using assms(3) plan_trades(2) [OF cl] cash
    by (simp add: books_def c(5) settled_with_def del: call_trades.simps)
  ultimately show ?thesis by (simp add: books_def del: moves_append call_trades.simps)
qed

lemma books_step:
  assumes "ledger_step L c = (Inr u, L')" "ledger_inv L" "books L ts"
  shows "books L' (ts @ call_trades c)"
proof (cases c)
  case (Update_Mark s m)
  with assms(1) have "commit_mark s m L = Inr L'"
    by (auto simp: discard_Inr update_mark_def split: sum.splits)
  with assms(3) show ?thesis
    by (elim commit_mark_Inr) (simp add: Update_Mark books_def)
next
  case (Record_Fill fill order m)
  with assms show ?thesis
    using books_fill [of fill order m L _ L' ts]
    by (auto simp: discard_Inr record_queue_fill_Inr simp del: call_trades.simps)
next
  case (Prepare_Terminal trades rate)
  with assms(1) obtain p where "L' = L\<lparr>al_prepared_terminal_plan := Some p,
      al_plans_made := al_plans_made L + 1\<rparr>"
    by (auto simp: discard_Inr prepare_terminal_Inr)
  with assms(3) show ?thesis by (simp add: Prepare_Terminal books_def)
next
  case (Commit_Terminal plan)
  with assms show ?thesis
    using books_commit [of plan L _ L' ts] by (auto simp: discard_Inr simp del: call_trades.simps)
next
  case Take_Snapshot
  with assms show ?thesis by (auto simp: discard_Inr)
qed

lemma books_run:
  assumes "run_steps ledger_step L cs = (Inr us, L')" "ledger_inv L" "books L ts"
  shows "books L' (ts @ concat (map call_trades cs))"
  using assms
proof (induction cs arbitrary: L us ts)
  case Nil
  then show ?case by simp
next
  case (Cons c cs)
  then obtain u us' M where c: "ledger_step L c = (Inr u, M)"
    and cs: "run_steps ledger_step M cs = (Inr us', L')" by (auto simp only: run_steps_Cons_Inr)
  have "ledger_inv M" using ledger.step_inv [OF Cons.prems(2) c] .
  with Cons.IH [OF cs _ books_step [OF c Cons.prems(2,3)]] show ?case by simp
qed

lemma new_ledger_books: "new_ledger rate limit = Inr L \<Longrightarrow> books L []"
  by (auto simp: new_ledger_def bindR_eq_Inr books_def moves_def trade_cash_def dict_get_default_def
    split: if_splits)

text \<open>Ledgers that a run of calls from a new ledger reaches, whatever failed on the way.\<close>

definition reached_ledger :: "int \<Rightarrow> int \<Rightarrow> ledger_call list \<Rightarrow> accounting_ledger \<Rightarrow> bool" where
  "reached_ledger rate limit cs L \<longleftrightarrow>
     (\<exists>L0. new_ledger rate limit = Inr L0 \<and> L = snd (run_steps ledger_step L0 cs))"

lemma reached_ledger_inv: "reached_ledger rate limit cs L \<Longrightarrow> ledger_inv L"
  by (auto simp: reached_ledger_def intro: ledger.run_always new_ledger_inv)

lemma limit_fixed_step: "al_inventory_limit (snd (ledger_step L c)) = al_inventory_limit L"
proof (cases c)
  case (Update_Mark s m)
  then show ?thesis
    by (cases "commit_mark s m L") (auto simp: update_mark_def elim!: commit_mark_Inr)
next
  case (Record_Fill fill order m)
  then show ?thesis
    by (cases "commit_queue_fill fill order m L")
      (auto simp: record_queue_fill_def commitM_def elim!: commit_queue_fill_Inr)
next
  case (Prepare_Terminal trades rate)
  then show ?thesis
    by (cases "plan_terminal_accounting trades rate L")
      (auto simp: prepare_terminal_accounting_def commitM_def)
next
  case (Commit_Terminal plan)
  then show ?thesis
    by (auto simp: commit_terminal_accounting_def commitM_def bindR_def require_def fail_defs)
qed simp

lemma limit_fixed: "al_inventory_limit (snd (run_steps ledger_step L cs)) = al_inventory_limit L"
proof (induction cs arbitrary: L)
  case (Cons c cs)
  obtain r M where st: "ledger_step L c = (r, M)" by (cases "ledger_step L c")
  with limit_fixed_step [of L c] have "al_inventory_limit M = al_inventory_limit L" by simp
  with Cons.IH [of M] st show ?case
    by (cases r; cases "run_steps ledger_step M cs"; cases "fst (run_steps ledger_step M cs)") auto
qed simp

section \<open>Errors\<close>

text \<open>The exceptions that would mean a defect of the ledger itself.\<close>

definition internal_error :: "sim_error \<Rightarrow> bool" where
  "internal_error e = (case e of SimulationError c _ _ \<Rightarrow> c = ERR_INVARIANT | _ \<Rightarrow> True)"

lemma internal_error_simps [simp]:
  "internal_error KeyError" "internal_error (SimulationError c i m) \<longleftrightarrow> c = ERR_INVARIANT"
  by (simp_all add: internal_error_def)

lemma validators_not_internal:
  "validate_fee_rate v = Inl e \<Longrightarrow> \<not> internal_error e"
  "validate_symbol_id v = Inl e \<Longrightarrow> \<not> internal_error e"
  "validate_mark_mid2 v = Inl e \<Longrightarrow> \<not> internal_error e"
  "validate_terminal_trade t = Inl e \<Longrightarrow> \<not> internal_error e"
  by (auto simp: validate_fee_rate_def validate_symbol_id_def validate_mark_mid2_def fail_defs
    validate_terminal_trade_def bindR_eq_Inl require_eq_Inl split: if_splits)

lemma validate_simulated_order_not_internal: "validate_simulated_order s = Inl e \<Longrightarrow> \<not> internal_error e"
  by (auto simp: validate_simulated_order_def validate_order_request_def Let_def fail_defs
    split: sum.splits if_splits option.splits)

lemma commit_mark_Inl:
  assumes "commit_mark s m L = Inl e" "ledger_inv L"
  shows "\<not> internal_error e"
proof (rule ccontr)
  assume bad: "\<not> ?thesis"
  note d = ledger_dictsD [OF ledger_invD(1) [OF assms(2)]]
  from assms(1) bad obtain P' M' mtm' where
    a: "apply_mark_to_copies s m (al_positions L) (al_marks L) (al_inventory_mark_to_market L)
       = Inr (P', M', mtm')"
    and v: "validate_reconciliation L P' M' None None None None None (Some mtm') None = Inl e"
    by (auto simp: commit_mark_def bindR_eq_Inl require_eq_Inl fail_defs validate_symbol_id_def
      validate_mark_mid2_def split: prod.splits if_splits dest: apply_mark_Inl)
  note b = apply_mark_Inr [OF a d]
  have "e = SimulationError ERR_COST None None"
    using ledger_invD(2) [OF assms(2)] b(9)
    by (intro validate_reconciliation_Inl [OF v b(1,3)]) (simp add: ledger_pnl_def pnl_identity_def)
  with bad show False by simp
qed

lemma commit_queue_fill_not_internal:
  assumes "commit_queue_fill fill order m L = Inl e" "ledger_inv L"
  shows "\<not> internal_error e"
proof -
  have "\<not> internal_error e" if "validate_queue_fill fill order = Inl e"
    using that by (auto simp: validate_queue_fill_def bindR_eq_Inl require_eq_Inl fail_defs
      dest: validate_simulated_order_not_internal)
  moreover have "\<not> internal_error e" if "check_fill fill order L = Inl e"
    using that by (auto simp: check_fill_def bindR_eq_Inl require_eq_Inl fail_defs Let_def)
  moreover have "\<not> internal_error e" if "al_settled L"
    using that assms(1) by (auto simp: commit_queue_fill_def require_def fail_defs)
  ultimately show ?thesis
    using commit_queue_fill_Inl [OF assms] by (auto dest: validators_not_internal)
qed

lemma plan_terminal_Inl:
  assumes "plan_terminal_accounting trades rate L = Inl e" "ledger_inv L"
  shows "\<not> internal_error e"
proof (rule ccontr)
  assume "\<not> ?thesis" then have bad: "internal_error e" by simp
  note d = ledger_invD(1) [OF assms(2)]
  have marks: "\<not> internal_error e'"
    if "foldR mark_terminal_trade (terminal_locals_of L) trades = Inl e'" for e'
    using foldR_Inl [OF that, where I = "\<lambda>_. True"]
    by (auto simp: mark_terminal_trade_def bindR_eq_Inl require_eq_Inl fail_defs
      dest: validators_not_internal apply_mark_Inl split: prod.splits)
  have closing: "\<not> internal_error e'"
    if f: "foldR (liquidate_position rate (int (length (al_liquidations L)))) v0 trades = Inl e'"
      and f0: "foldR mark_terminal_trade (terminal_locals_of L) trades = Inr v0" for e' v0
  proof -
    note m = mark_terminal_trades [OF f0 d]
    have step: "closed_so_far rate L v0 (ys @ [x]) b"
      if "trades = ys @ x # zs" "closed_so_far rate L v0 ys a"
        "liquidate_position rate (int (length (al_liquidations L))) a x = Inr b" for ys x zs a b
      using liquidate_position_step [OF m that(2,3,1)] .
    have "\<exists>ys x zs a. trades = ys @ x # zs \<and> closed_so_far rate L v0 ys a
        \<and> liquidate_position rate (int (length (al_liquidations L))) a x = Inl e'"
      by (rule foldR_prefix_Inl [where I = "closed_so_far rate L v0", OF f])
        (rule closed_so_far_start [OF m], rule step)
    then obtain ys x zs a where t: "trades = ys @ x # zs" and c: "closed_so_far rate L v0 ys a"
      and l: "liquidate_position rate (int (length (al_liquidations L))) a x = Inl e'"
      by (elim exE conjE) (rule that)
    from m t have "has_key (tl_positions v0) (tt_symbol_id x)" by (simp add: marked_so_far_def)
    with c have "has_key (tl_positions a) (tt_symbol_id x)" by (simp add: closed_so_far_def)
    with l show ?thesis
      by (auto simp: liquidate_position_def has_key_def bindR_eq_Inl require_eq_Inl fail_defs
        trade_cash_delta_def trade_fee_def mark_relative_value_def)
  qed
  from assms(1) bad obtain v0 v
    where f0: "foldR mark_terminal_trade (terminal_locals_of L) trades = Inr v0"
    and s: "tl_seen_symbols v0 = nonzero_symbols (tl_positions v0)"
    and f: "foldR (liquidate_position rate (int (length (al_liquidations L)))) v0 trades = Inr v"
    and rec: "validate_reconciliation L (tl_positions v) (tl_marks v) None
              (Some (tl_gross_liquidation_cash v)) None (Some (tl_taker_fees v)) None
              (Some (tl_inventory_mark_to_market v)) (Some (tl_terminal_slippage v)) = Inl e"
    by (auto simp: plan_terminal_accounting_def bindR_eq_Inl require_eq_Inl require_eq_Inr fail_defs
      validate_fee_rate_def split: if_splits dest: marks closing)
  note t = terminal_loops [OF f0 s f d]
  have "e = SimulationError ERR_COST None None"
    using t(6) [OF ledger_invD(2) [OF assms(2)]]
    by (intro validate_reconciliation_Inl [OF rec t(1)]) (simp_all add: all_marked_def t(4))
  with bad show False by simp
qed

lemma ledger_step_Inl:
  assumes "ledger_step L c = (Inl e, L')" "ledger_inv L"
  shows "\<not> internal_error e"
proof (cases c)
  case (Update_Mark s m)
  show ?thesis
  proof (cases "commit_mark s m L")
    case (Inl e')
    with assms Update_Mark show ?thesis by (auto simp: update_mark_def discard_def dest: commit_mark_Inl)
  next
    case (Inr M)
    note inv = commit_mark_inv [OF Inr assms(2)]
    from Inr assms(1) Update_Mark have "ledger_snapshot M = Inl e"
      by (auto simp: update_mark_def discard_def split: sum.splits)
    then show ?thesis using ledger_snapshot_Inl [OF _ ledger_invD(1,2) [OF inv]] by simp
  qed
next
  case (Record_Fill fill order m)
  with assms show ?thesis
    by (auto simp: record_queue_fill_def commitM_def discard_def split: sum.splits
      dest: commit_queue_fill_not_internal)
next
  case (Prepare_Terminal trades rate)
  with assms show ?thesis
    by (auto simp: prepare_terminal_accounting_def commitM_def bindR_def discard_def split: sum.splits
      dest: plan_terminal_Inl)
next
  case (Commit_Terminal plan)
  show ?thesis
  proof (cases "Some plan = al_prepared_terminal_plan L \<and> pt_revision plan = al_revision L")
    case True
    then have "pt_liquidation_count plan = int (length (al_liquidations L)) + int (length (pt_records plan))"
      using current_plan [OF assms(2), of plan] by blast
    with True assms(1) Commit_Terminal show ?thesis
      by (auto simp: commit_terminal_accounting_def commitM_def bindR_def require_def fail_defs
        discard_def split: if_splits)
  next
    case False
    then have "commit_terminal_accounting plan L = (Inl (SimulationError ERR_SIMULATION_ANOMALY None None), L)"
      by (auto simp: commit_terminal_accounting_def commitM_def require_def fail_defs)
    with assms(1) Commit_Terminal show ?thesis by (auto simp: discard_def)
  qed
next
  case Take_Snapshot
  with assms ledger_snapshot_Inl [OF _ ledger_invD(1,2) [OF assms(2)]] show ?thesis
    by (auto simp: discard_def split: sum.splits)
qed

section \<open>Prepared plans go stale\<close>

text \<open>Once anything else has happened, the plan is neither current nor ever current again.\<close>

definition outdated :: "prepared_terminal_accounting \<Rightarrow> accounting_ledger \<Rightarrow> bool" where
  "outdated p L \<longleftrightarrow> pt_identity p < al_plans_made L \<and> pt_revision p \<le> al_revision L
     \<and> (al_prepared_terminal_plan L = Some p \<longrightarrow> pt_revision p < al_revision L)"

definition at_most_current :: "prepared_terminal_accounting \<Rightarrow> accounting_ledger \<Rightarrow> bool" where
  "at_most_current p L \<longleftrightarrow> pt_identity p < al_plans_made L \<and> pt_revision p \<le> al_revision L"

lemma outdated_step:
  assumes "ledger_step L c = (Inr u, L')" "at_most_current p L" "outdated p L \<or> c \<noteq> Take_Snapshot"
  shows "outdated p L'"
proof (cases c)
  case (Update_Mark s m)
  with assms show ?thesis
    by (auto simp: discard_Inr update_mark_def outdated_def at_most_current_def split: sum.splits
      elim!: commit_mark_Inr)
next
  case (Record_Fill fill order m)
  with assms show ?thesis
    by (auto simp: discard_Inr record_queue_fill_Inr outdated_def at_most_current_def
      elim!: commit_queue_fill_Inr)
next
  case (Prepare_Terminal trades rate)
  with assms show ?thesis
    by (auto simp: discard_Inr prepare_terminal_Inr outdated_def at_most_current_def
      plan_terminal_accounting_def bindR_eq_Inr)
next
  case (Commit_Terminal plan)
  with assms show ?thesis
    by (auto simp: discard_Inr outdated_def at_most_current_def settled_with_def
      dest!: commit_terminal_Inr(5))
next
  case Take_Snapshot
  with assms show ?thesis by (auto simp: discard_Inr)
qed

lemma at_most_current_step:
  assumes "ledger_step L c = (Inr u, L')" "at_most_current p L"
  shows "at_most_current p L'"
proof (cases "c = Take_Snapshot")
  case True
  with assms show ?thesis by (auto simp: discard_Inr)
next
  case False
  then show ?thesis using outdated_step [OF assms] by (simp add: outdated_def at_most_current_def)
qed

lemma outdated_run:
  assumes "run_steps ledger_step L cs = (Inr us, L')" "at_most_current p L"
    "outdated p L \<or> (\<exists>c\<in>set cs. c \<noteq> Take_Snapshot)"
  shows "outdated p L'"
  using assms
proof (induction cs arbitrary: L us)
  case Nil
  then show ?case by simp
next
  case (Cons c cs)
  then obtain u us' M where c: "ledger_step L c = (Inr u, M)"
    and cs: "run_steps ledger_step M cs = (Inr us', L')" by (auto simp only: run_steps_Cons_Inr)
  have "outdated p M \<or> (\<exists>c\<in>set cs. c \<noteq> Take_Snapshot)"
    using Cons.prems(3) outdated_step [OF c Cons.prems(2)] by auto
  with Cons.IH [OF cs at_most_current_step [OF c Cons.prems(2)]] show ?case by blast
qed

lemma outdated_refused:
  "outdated p L \<Longrightarrow> commit_terminal_accounting p L
     = (Inl (SimulationError ERR_SIMULATION_ANOMALY None None), L)"
  by (auto simp: outdated_def commit_terminal_accounting_def commitM_def require_def fail_defs)

section \<open>A concrete ledger\<close>

text \<open>Orders, fills and runs on which the properties below are applied.\<close>

definition sample_order :: "int \<Rightarrow> int \<Rightarrow> int \<Rightarrow> int \<Rightarrow> int \<Rightarrow> int \<Rightarrow> simulated_order" where
  "sample_order i s side p quantity remaining = \<lparr>
     so_simulated_order_id = i, so_decision_message_index = 0, so_prediction_message_index = None,
     so_requested_timestamp_ns = 0, so_effective_timestamp_ns = 0, so_symbol_id = s,
     so_side = side, so_price4 = p, so_original_quantity = quantity,
     so_remaining_quantity = remaining, so_queue_ahead_initial = Some 0,
     so_state = (if remaining = 0 then FILLED else PARTIALLY_FILLED),
     so_cancel_requested_ns = None,
     so_terminal_timestamp_ns = (if remaining = 0 then Some 10 else None),
     so_rejection_reason = None\<rparr>"

definition sample_fill :: "simulated_order \<Rightarrow> int \<Rightarrow> int \<Rightarrow> queue_fill" where
  "sample_fill order message quantity = \<lparr>
     qf_simulated_order_id = so_simulated_order_id order, qf_market_message_index = message,
     qf_timestamp_ns = 10, qf_match_number = message, qf_price4 = so_price4 order,
     qf_quantity = quantity, qf_queue_ahead_before = 0, qf_queue_ahead_after = 0,
     qf_remaining_quantity_after = so_remaining_quantity order\<rparr>"

definition sample_call :: "int \<Rightarrow> int \<Rightarrow> int \<Rightarrow> int \<Rightarrow> int \<Rightarrow> int \<Rightarrow> int \<Rightarrow> int \<Rightarrow> ledger_call" where
  "sample_call i s side p quantity remaining message mark = (
     let order = sample_order i s side p quantity remaining in
     Record_Fill (sample_fill order message (quantity - remaining)) order mark)"

definition sample_calls :: "ledger_call list" where
  "sample_calls = [Update_Mark 7 200000, sample_call 1 7 1 99900 100 40 5 200000,
     Update_Mark 7 200100, sample_call 2 7 (-1) 100100 30 0 6 200100,
     sample_call 3 9 (-1) 50000 10 0 7 100020, Take_Snapshot]"

definition sample_trades :: "terminal_trade list" where
  "sample_trades = [
     \<lparr>tt_symbol_id = 7, tt_side = -1, tt_price4 = 100000, tt_quantity = 30, tt_mark_mid2 = 200100,
      tt_timestamp_ns = 20\<rparr>,
     \<lparr>tt_symbol_id = 9, tt_side = 1, tt_price4 = 50100, tt_quantity = 10, tt_mark_mid2 = 100100,
      tt_timestamp_ns = 20\<rparr>]"

definition sample_ledger :: accounting_ledger where
  "sample_ledger = projr (new_ledger (-2000) 100)"

definition sample_before :: accounting_ledger where
  "sample_before = snd (run_steps ledger_step sample_ledger sample_calls)"

definition sample_plan :: prepared_terminal_accounting where
  "sample_plan = projr (fst (prepare_terminal_accounting sample_trades 3000 sample_before))"

definition sample_prepared :: accounting_ledger where
  "sample_prepared = snd (prepare_terminal_accounting sample_trades 3000 sample_before)"

lemma sample_new: "new_ledger (-2000) 100 = Inr sample_ledger"
  by code_simp

lemma sample_run_ok: "succeeded (run_steps ledger_step sample_ledger sample_calls)"
  by code_simp

lemma sample_run: "\<exists>us. run_steps ledger_step sample_ledger sample_calls = (Inr us, sample_before)"
  using succeededD [OF sample_run_ok] unfolding sample_before_def by blast

lemma sample_prepared_ok: "succeeded (prepare_terminal_accounting sample_trades 3000 sample_before)"
  by code_simp

lemma sample_prepare:
  "prepare_terminal_accounting sample_trades 3000 sample_before = (Inr sample_plan, sample_prepared)"
  using succeededD [OF sample_prepared_ok] unfolding sample_plan_def sample_prepared_def .

lemma sample_reached: "reached_ledger (-2000) 100 sample_calls sample_before"
  unfolding reached_ledger_def sample_before_def using sample_new by blast

section \<open>Properties\<close>

text \<open>
  C13: On any ledger that calls have produced, whatever failed on the way, a snapshot either
  raises the overflow error \<open>COST\<close>, or it reconciles: its marked profit is its cash plus its
  positions at their marks, it decomposes exactly into spread capture, mark-to-market,
  liquidation slippage and fees, and its amounts are the sums over the recorded fills and
  liquidations.
\<close>
theorem ledger_snapshot_reconciles:
  assumes "reached_ledger rate limit cs L"
  shows "case ledger_snapshot L of
      Inl e \<Rightarrow> e = SimulationError ERR_COST None None
    | Inr s \<Rightarrow>
        sn_marked_pnl s = sn_cash s + sum_list (map (\<lambda>y. sy_inventory y *
          (case sy_mark_mid2 y of None \<Rightarrow> 0 | Some m \<Rightarrow> m) * 50) (sn_symbols s))
      \<and> sn_marked_pnl s = sn_passive_spread_capture s + sn_inventory_mark_to_market s
          + sn_terminal_liquidation_slippage s - sn_signed_fee s
      \<and> sn_cash s = sum_list (map af_cash_delta_microusd (al_fills L))
          + sum_list (map la_cash_delta_microusd (al_liquidations L)) - sn_signed_fee s
      \<and> sn_signed_fee s = sum_list (map af_fee_microusd (al_fills L))
          + sum_list (map la_fee_microusd (al_liquidations L))
      \<and> sn_passive_fill_quantity s = sum_list (map af_quantity (al_fills L))
      \<and> sn_liquidation_quantity s = sum_list (map la_quantity (al_liquidations L))"
proof (cases "ledger_snapshot L")
  case (Inl e)
  note inv = reached_ledger_inv [OF assms]
  show ?thesis using ledger_snapshot_Inl [OF Inl ledger_invD(1,2) [OF inv]] Inl by simp
next
  case (Inr s)
  note inv = reached_ledger_inv [OF assms]
  note r = ledger_snapshot_Inr [OF Inr ledger_invD(1) [OF inv]]
  have "sum_list (map (\<lambda>y. sy_inventory y * (case sy_mark_mid2 y of None \<Rightarrow> 0 | Some m \<Rightarrow> m) * 50)
      (sn_symbols s)) = marked_total (al_marks L) (al_positions L)"
    unfolding r(1) snapshot_marked [OF ledger_invD(1) [OF inv], symmetric]
    by (simp add: symbol_row_def comp_def dict_get_default_def)
  with r(2-10) r(18,19) ledger_invD(4,5) [OF inv] show ?thesis
    unfolding Inr by (simp add: fills_booked_def liquidations_booked_def)
qed

theorem ledger_snapshot_reconciles_witness:
  "case ledger_snapshot sample_before of Inl e \<Rightarrow> e = SimulationError ERR_COST None None
   | Inr s \<Rightarrow> sn_marked_pnl s = sn_cash s + sum_list (map (\<lambda>y. sy_inventory y *
          (case sy_mark_mid2 y of None \<Rightarrow> 0 | Some m \<Rightarrow> m) * 50) (sn_symbols s))"
  using ledger_snapshot_reconciles [OF sample_reached] by (auto split: sum.splits)

text \<open>
  C14: No call on a ledger that calls have produced raises the reconciliation error
  \<open>INVARIANT\<close> or a \<open>KeyError\<close>: the checks that would find a defect of the ledger itself
  never fire.
\<close>
theorem ledger_internal_checks_hold:
  assumes "reached_ledger rate limit cs L" "fst (ledger_step L c) = Inl e"
  shows "e \<noteq> KeyError \<and> (\<forall>i m. e \<noteq> SimulationError ERR_INVARIANT i m)"
proof -
  have "ledger_step L c = (Inl e, snd (ledger_step L c))" using assms(2) by (simp add: prod_eq_iff)
  from ledger_step_Inl [OF this reached_ledger_inv [OF assms(1)]] show ?thesis by auto
qed

lemma sample_breach:
  "fst (ledger_step sample_before (sample_call 4 7 1 99900 100 0 8 200100))
     = Inl (SimulationError ERR_INVENTORY_LIMIT (Some 4) (Some 8))"
  by code_simp

theorem ledger_internal_checks_hold_witness:
  "SimulationError ERR_INVENTORY_LIMIT (Some 4) (Some 8) \<noteq> KeyError
   \<and> (\<forall>i m. SimulationError ERR_INVENTORY_LIMIT (Some 4) (Some 8) \<noteq> SimulationError ERR_INVARIANT i m)"
  by (rule ledger_internal_checks_hold [OF sample_reached sample_breach])

text \<open>
  C15: The ledger is the sum of the trades it accepted: after any run of calls that returns, each
  symbol's inventory is the sum of its signed fills and liquidations, its recorded peak is the
  largest absolute inventory it ever had, and the gross cash is what the trades paid.
\<close>
theorem ledger_books_trades:
  assumes "new_ledger rate limit = Inr L0" "run_steps ledger_step L0 cs = (Inr us, L)"
  shows "(\<forall>s. dict_get_default (al_positions L) s 0 = sum_list (moves s (concat (map call_trades cs)))
      \<and> dict_get_default (al_max_abs_positions L) s 0
          = exposure_peak 0 0 (moves s (concat (map call_trades cs))))
    \<and> al_gross_passive_cash L + al_gross_liquidation_cash L = trade_cash (concat (map call_trades cs))"
  using books_run [OF assms(2) new_ledger_inv [OF assms(1)] new_ledger_books [OF assms(1)]]
  by (simp add: books_def)

theorem ledger_books_trades_witness:
  "dict_get_default (al_positions sample_before) 7 0 = 30
   \<and> dict_get_default (al_max_abs_positions sample_before) 7 0 = 60"
proof -
  obtain us where "run_steps ledger_step sample_ledger sample_calls = (Inr us, sample_before)"
    using sample_run by blast
  from ledger_books_trades [OF sample_new this]
  have "dict_get_default (al_positions sample_before) 7 0
      = sum_list (moves 7 (concat (map call_trades sample_calls)))"
    "dict_get_default (al_max_abs_positions sample_before) 7 0
      = exposure_peak 0 0 (moves 7 (concat (map call_trades sample_calls)))" by blast+
  moreover have "sum_list (moves 7 (concat (map call_trades sample_calls))) = 30" by code_simp
  moreover have "exposure_peak 0 0 (moves 7 (concat (map call_trades sample_calls))) = 60" by code_simp
  ultimately show ?thesis by simp
qed

text \<open>
  C16: The inventory limit is never exceeded: on any ledger that calls have produced, every
  position and every recorded peak is within the limit the ledger was built with.
\<close>
theorem inventory_within_limit:
  assumes "reached_ledger rate limit cs L"
  shows "\<bar>dict_get_default (al_positions L) s 0\<bar> \<le> limit
    \<and> \<bar>dict_get_default (al_positions L) s 0\<bar> \<le> dict_get_default (al_max_abs_positions L) s 0
    \<and> dict_get_default (al_max_abs_positions L) s 0 \<le> limit"
proof -
  from assms have "al_inventory_limit L = limit"
    by (auto simp: reached_ledger_def limit_fixed new_ledger_def bindR_eq_Inr split: if_splits)
  with ledger_invD(3) [OF reached_ledger_inv [OF assms]] show ?thesis
    unfolding within_limit_def by (metis order_trans)
qed

theorem inventory_within_limit_witness:
  "\<bar>dict_get_default (al_positions sample_before) 7 0\<bar> \<le> 100"
  using inventory_within_limit [OF sample_reached, of 7] by blast

text \<open>
  A terminal plan can be committed only while it is current. Once any other call but a
  snapshot has succeeded after it was prepared, committing it is refused and changes nothing.
\<close>
theorem stale_plan_refused:
  assumes "prepare_terminal_accounting trades rate L0 = (Inr p, L1)"
    and "run_steps ledger_step L1 cs = (Inr us, L)" "c \<in> set cs" "c \<noteq> Take_Snapshot"
  shows "commit_terminal_accounting p L = (Inl (SimulationError ERR_SIMULATION_ANOMALY None None), L)"
proof -
  from assms(1) have "at_most_current p L1"
    by (auto simp: prepare_terminal_Inr at_most_current_def plan_terminal_accounting_def bindR_eq_Inr)
  with outdated_run [OF assms(2), of p] assms(3,4) have "outdated p L" by blast
  then show ?thesis by (rule outdated_refused)
qed

lemma sample_later_ok: "succeeded (run_steps ledger_step sample_prepared [Update_Mark 7 200000])"
  by code_simp

theorem stale_plan_refused_witness:
  "\<exists>L us. run_steps ledger_step sample_prepared [Update_Mark 7 200000] = (Inr us, L)
     \<and> commit_terminal_accounting sample_plan L
         = (Inl (SimulationError ERR_SIMULATION_ANOMALY None None), L)"
  using stale_plan_refused [OF sample_prepare succeededD [OF sample_later_ok]] succeededD [OF sample_later_ok]
  by fastforce

text \<open>
  Settlement flattens the book for good. When committing a plan returns, no symbol has an
  inventory, the final snapshot exists, it is settled and values the inventory at zero, so that
  the profit is the cash, and every later mark, fill, plan or commit is refused without effect.
\<close>
theorem settlement_is_flat_and_final:
  assumes "reached_ledger rate limit cs L" "commit_terminal_accounting plan L = (Inr rs, L')"
  shows "(\<forall>s. dict_get_default (al_positions L') s 0 = 0)
    \<and> (\<exists>s. ledger_snapshot L' = Inr s \<and> sn_settled s \<and> sn_marked_inventory_value s = 0
         \<and> sn_marked_pnl s = sn_cash s)
    \<and> (\<forall>c. c \<noteq> Take_Snapshot \<longrightarrow>
         ledger_step L' c = (Inl (SimulationError ERR_SIMULATION_ANOMALY None None), L'))"
proof -
  note inv = reached_ledger_inv [OF assms(1)] and c = commit_terminal_Inr [OF assms(2)]
  have inv': "ledger_inv L'" using commit_terminal_inv [OF assms(2) inv] .
  obtain r where zero: "\<And>s. position (pt_positions plan) s = 0"
    and r: "reconcile 0 (al_gross_passive_cash L) (pt_gross_liquidation_cash plan) (al_maker_fees L)
       (pt_taker_fee plan) (al_passive_spread_capture L) (pt_inventory_mark_to_market plan)
       (pt_terminal_liquidation_slippage plan) = Inr r"
    by (rule current_plan [OF inv c(1,2)]) (blast intro: that)
  have flat: "position (al_positions L') s = 0" for s by (simp only: c(5) settled_with_sel zero)
  have "\<exists>s. ledger_snapshot L' = Inr s"
    by (rule flat_snapshot [where r = r]) (simp add: flat, simp add: c(5) settled_with_def r)
  then obtain s where s: "ledger_snapshot L' = Inr s" by blast
  note S = ledger_snapshot_Inr [OF s ledger_invD(1) [OF inv']]
  have "sn_marked_inventory_value s = 0"
    unfolding S(2) using flat ledger_dictsD(1) [OF ledger_invD(1) [OF inv']]
    by (rule marked_total_zero)
  moreover have settled: "al_settled L'" "al_prepared_terminal_plan L' = None"
    by (simp_all add: c(5) settled_with_def)
  moreover have "ledger_step L' c = (Inl (SimulationError ERR_SIMULATION_ANOMALY None None), L')"
    if "c \<noteq> Take_Snapshot" for c
    using that settled
    by (cases c) (simp_all add: discard_def update_mark_def commit_mark_def record_queue_fill_def
      commit_queue_fill_def prepare_terminal_accounting_def plan_terminal_accounting_def
      commit_terminal_accounting_def commitM_def require_def fail_defs)
  ultimately show ?thesis using flat s S(5,15) by auto
qed

lemma sample_prepared_reached:
  "reached_ledger (-2000) 100 (sample_calls @ [Prepare_Terminal sample_trades 3000]) sample_prepared"
proof -
  have "sample_prepared = snd (run_steps ledger_step sample_ledger
      (sample_calls @ [Prepare_Terminal sample_trades 3000]))"
    by code_simp
  with sample_new show ?thesis unfolding reached_ledger_def by blast
qed

lemma sample_commit_ok: "succeeded (commit_terminal_accounting sample_plan sample_prepared)"
  by code_simp

theorem settlement_is_flat_and_final_witness:
  "\<exists>s. ledger_snapshot (snd (commit_terminal_accounting sample_plan sample_prepared)) = Inr s
     \<and> sn_settled s \<and> sn_marked_pnl s = sn_cash s"
  using settlement_is_flat_and_final [OF sample_prepared_reached succeededD [OF sample_commit_ok]]
  by blast

section \<open>A ledger that accepts what it cannot report\<close>

text \<open>
  The reconciliation of a fill adds the marked values in the order in which the symbols were
  first marked, \<open>snapshot\<close> adds them in the order of the symbol identifiers, and both check
  every partial sum. Three fills in range, two of them long, whose partial sums stay in range
  in the first order only:
\<close>

definition overflow_calls :: "ledger_call list" where
  "overflow_calls = [sample_call 1 2 1 4294967295 21000000 0 1 8589934590,
     sample_call 2 3 (-1) 4294967295 21000000 0 2 8589934590,
     sample_call 3 1 1 4294967295 21000000 0 3 8589934590]"

definition overflow_start :: accounting_ledger where
  "overflow_start = projr (new_ledger 0 30000000)"

lemma overflow_start: "new_ledger 0 30000000 = Inr overflow_start"
  by code_simp

lemma overflow_ok: "succeeded (run_steps ledger_step overflow_start overflow_calls)"
  by code_simp

lemma overflow_snapshot:
  "ledger_snapshot (snd (run_steps ledger_step overflow_start overflow_calls))
     = Inl (SimulationError ERR_COST None None)"
  by code_simp

lemma overflow_mark:
  "fst (update_mark 1 8589934590 (snd (run_steps ledger_step overflow_start overflow_calls)))
     = Inl (SimulationError ERR_COST None None)"
  "al_revision (snd (update_mark 1 8589934590 (snd (run_steps ledger_step overflow_start overflow_calls))))
     = al_revision (snd (run_steps ledger_step overflow_start overflow_calls)) + 1"
  by code_simp+

text \<open>
  \<open>update_mark\<close> is not atomic: there is a run of accepted calls after which taking a
  snapshot raises \<open>COST\<close> although every fill was reconciled, and a further \<open>update_mark\<close>
  raises \<open>COST\<close> after it has committed the mark.
\<close>
theorem update_mark_commits_and_raises:
  "\<exists>L0 cs us L. new_ledger 0 30000000 = Inr L0 \<and> run_steps ledger_step L0 cs = (Inr us, L)
     \<and> ledger_snapshot L = Inl (SimulationError ERR_COST None None)
     \<and> (\<exists>s m. fst (update_mark s m L) = Inl (SimulationError ERR_COST None None)
          \<and> al_revision (snd (update_mark s m L)) = al_revision L + 1)"
  using overflow_start succeededD [OF overflow_ok] overflow_snapshot overflow_mark by blast

end
