(* ===== verification/Settlement.thy ===== *)
theory Settlement
  imports Ledger_Properties Machine_Properties
begin

text \<open>
  \<open>simulation/liquidation.py\<close> (\<open>settle_session_end\<close>, which expires the open orders, crosses
  every open position against the last visible quote and settles the ledger) and
  \<open>simulation/risk_limits.py\<close> (the inventory check of a proposed quote), with the properties
  that tie them to the state machine and the ledger.
\<close>

section \<open>Risk limits\<close>

datatype risk_decision_reason = PROJECTED_INVENTORY_LIMIT

record inventory_risk_decision =
  rd_permitted :: bool
  rd_current_inventory :: int
  rd_projected_inventory :: int
  rd_inventory_limit :: int
  rd_risk_increasing :: bool
  rd_reason :: "risk_decision_reason option"

definition new_risk_limit :: "int \<Rightarrow> int result" where
  "new_risk_limit inventory_limit =
     (if \<not> valid_int inventory_limit 1 MAX_INT64 then fail_code ERR_INVENTORY_LIMIT
      else Inr inventory_limit)"

definition evaluate_quote :: "int \<Rightarrow> int \<Rightarrow> int \<Rightarrow> int \<Rightarrow> inventory_risk_decision result" where
  "evaluate_quote inventory_limit current_inventory side quantity = (
     if \<not> valid_int current_inventory (- inventory_limit) inventory_limit
       then fail_code ERR_INVENTORY_LIMIT
     else if \<not> valid_side side then fail_code ERR_INVENTORY_LIMIT
     else if \<not> valid_int quantity 1 MAX_UINT64 then fail_code ERR_INVENTORY_LIMIT
     else
       let projected = current_inventory + side * quantity in
       if \<not> valid_int projected MIN_INT64 MAX_INT64 then fail_code ERR_INVENTORY_LIMIT
       else
         let permitted = (- inventory_limit \<le> projected \<and> projected \<le> inventory_limit) in
         Inr \<lparr>rd_permitted = permitted, rd_current_inventory = current_inventory,
              rd_projected_inventory = projected, rd_inventory_limit = inventory_limit,
              rd_risk_increasing = (abs projected > abs current_inventory),
              rd_reason = (if permitted then None else Some PROJECTED_INVENTORY_LIMIT)\<rparr>)"

section \<open>Terminal settlement\<close>

record terminal_quote =
  tq_quote_symbol_id :: int
  tq_quote_timestamp_ns :: int
  tq_best_bid_price4 :: int
  tq_best_ask_price4 :: int

definition quote_mid2 :: "terminal_quote \<Rightarrow> int" where
  "quote_mid2 quote = tq_best_bid_price4 quote + tq_best_ask_price4 quote"

record terminal_settlement =
  ts_expired_orders :: "order_transition list"
  ts_liquidations :: "liquidation_accounting list"
  ts_accounting :: accounting_snapshot

definition validate_quote :: "terminal_quote \<Rightarrow> int \<Rightarrow> unit result" where
  "validate_quote quote session_end =
     bindR (require (valid_int (tq_quote_symbol_id quote) 1 MAX_UINT16)
              (fail_code ERR_UNKNOWN_SYMBOL)) (\<lambda>_.
     bindR (require (valid_int (tq_quote_timestamp_ns quote) 0 session_end)
              (fail_code ERR_TIMESTAMP)) (\<lambda>_.
     bindR (require (valid_int (tq_best_bid_price4 quote) 0 MAX_UINT32
                     \<and> valid_int (tq_best_ask_price4 quote) 0 MAX_UINT32)
              (fail_code ERR_PRICE)) (\<lambda>_.
     require (tq_best_bid_price4 quote \<le> tq_best_ask_price4 quote) (fail_code ERR_BOOK_CROSSED))))"

definition collect_quotes ::
  "int \<Rightarrow> terminal_quote list \<Rightarrow> (int, terminal_quote) dict result" where
  "collect_quotes session_end quotes = foldR (\<lambda>by_symbol quote.
     bindR (validate_quote quote session_end) (\<lambda>_.
     bindR (require (\<not> has_key by_symbol (tq_quote_symbol_id quote)) (fail_code ERR_PRICE)) (\<lambda>_.
     Inr (dict_set (tq_quote_symbol_id quote) quote by_symbol)))) [] quotes"

fun terminal_trades ::
  "int \<Rightarrow> (int, terminal_quote) dict \<Rightarrow> symbol_accounting list \<Rightarrow> terminal_trade list result" where
  "terminal_trades session_end by_symbol [] = Inr []"
| "terminal_trades session_end by_symbol (row # rows) = (
     if sy_inventory row = 0 then terminal_trades session_end by_symbol rows
     else case dict_get by_symbol (sy_symbol_id row) of
       None \<Rightarrow> fail_code ERR_PRICE
     | Some quote \<Rightarrow>
       let side = (if sy_inventory row > 0 then -1 else 1) in
       bindR (terminal_trades session_end by_symbol rows) (\<lambda>trades.
       Inr (\<lparr>tt_symbol_id = sy_symbol_id row, tt_side = side,
             tt_price4 = (if side = -1 then tq_best_bid_price4 quote else tq_best_ask_price4 quote),
             tt_quantity = abs (sy_inventory row),
             tt_mark_mid2 = quote_mid2 quote,
             tt_timestamp_ns = session_end\<rparr> # trades)))"

definition check_open_orders :: "int \<Rightarrow> simulated_order list \<Rightarrow> unit result" where
  "check_open_orders session_end orders = foldR (\<lambda>_ order.
     bindR (validate_simulated_order order) (\<lambda>_.
     require (so_requested_timestamp_ns order \<le> session_end) (fail_code ERR_TIMESTAMP))) () orders"

type_synonym settlement_state = "order_state_machine \<times> accounting_ledger"

definition snapshotM :: "(settlement_state, accounting_snapshot) smethod" where
  "snapshotM ml = (ledger_snapshot (snd ml), ml)"

definition open_orders :: "order_state_machine \<Rightarrow> simulated_order list" where
  "open_orders m = filter (\<lambda>order. \<not> so_terminal order) (sm_all_orders m)"

definition expire_all ::
  "int \<Rightarrow> simulated_order list \<Rightarrow> (order_state_machine, order_transition list) smethod" where
  "expire_all session_end = forM (\<lambda>order. expire (so_simulated_order_id order) session_end)"

definition settle_session_end ::
  "int \<Rightarrow> terminal_quote list \<Rightarrow> int \<Rightarrow> (settlement_state, terminal_settlement) smethod" where
  "settle_session_end session_end last_quotes taker_fee =
     bindM (liftM (require (valid_int session_end 0 MAX_TIMESTAMP_NS) (fail_code ERR_TIMESTAMP))) (\<lambda>_.
     bindM (liftM (require (valid_int taker_fee (- MAX_FEE_MICROUSD_PER_SHARE)
                      MAX_FEE_MICROUSD_PER_SHARE) (fail_code ERR_COST))) (\<lambda>_.
     bindM (liftM (collect_quotes session_end last_quotes)) (\<lambda>by_symbol.
     bindM snapshotM (\<lambda>snapshot.
     bindM (liftM (terminal_trades session_end by_symbol (sn_symbols snapshot))) (\<lambda>trades.
     bindM (on_owner (prepare_terminal_accounting trades taker_fee)) (\<lambda>plan ml.
     let orders = open_orders (fst ml) in
     bindM (liftM (check_open_orders session_end orders)) (\<lambda>_.
     bindM (on_machine (expire_all session_end orders)) (\<lambda>expirations.
     bindM (on_owner (commit_terminal_accounting plan)) (\<lambda>liquidations.
     bindM snapshotM (\<lambda>accounting.
     returnM \<lparr>ts_expired_orders = expirations, ts_liquidations = liquidations,
              ts_accounting = accounting\<rparr>)))) ml))))))"

section \<open>Expiring the open orders cannot fail\<close>

lemma order_wf_expired:
  assumes "order_wf s" "\<not> so_terminal s" "so_requested_timestamp_ns s \<le> t" "t \<le> MAX_TIMESTAMP_NS"
  shows "order_wf (ended EXPIRED t s)"
  using assms order_wf_nonterminal_remaining [OF assms(1,2)]
  by (cases "so_state s") (auto simp: order_wf_def ended_def so_terminal_def request_of_def)

lemma expire_ok:
  assumes inv: "sm_inv m" and s: "dict_get (sm_orders m) i = Some s" and open_: "\<not> so_terminal s"
    and t: "so_requested_timestamp_ns s \<le> t" "valid_int t 0 MAX_TIMESTAMP_NS"
  shows "\<exists>tr. expire i t m = (Inr tr, put_order (ended EXPIRED t s) m)"
proof -
  have wf: "order_wf s" and id: "so_simulated_order_id s = i"
    using sm_midD(3) [OF inv [unfolded sm_inv_def]] s unfolding orders_inv_def by blast+
  have w: "order_wf (ended EXPIRED t s)"
    using order_wf_expired [OF wf open_ t(1)] t(2) by (simp add: valid_int_def)
  have slot: "dict_get (sm_occupied_slots m) (order_slot s) = Some i"
    using sm_midD(3) [OF inv [unfolded sm_inv_def]] s open_ unfolding orders_inv_def by blast
  have "\<exists>tr. commit s (ended EXPIRED t s) CAUSE_EXPIRED t None None None m
      = (Inr tr, put_order (ended EXPIRED t s) m)"
    using w slot id by (simp add: commit_def validate_simulated_order_Inr [THEN iffD2] put_order_def
      ended_def order_slot_def so_terminal_def)
  moreover have "sm_order m i = Inr s"
    using s wf id by (auto simp: sm_order_Inr order_wf_def request_wf_def request_of_def)
  ultimately show ?thesis
    using open_ t by (simp add: expire_def ended_def validate_timestamp_def)
qed

lemma expire_all_ok:
  assumes "sm_inv m" "distinct (map so_simulated_order_id os)" "valid_int t 0 MAX_TIMESTAMP_NS"
    and "\<And>s. s \<in> set os \<Longrightarrow> dict_get (sm_orders m) (so_simulated_order_id s) = Some s
        \<and> \<not> so_terminal s \<and> so_requested_timestamp_ns s \<le> t"
  shows "\<exists>trs m'. expire_all t os m = (Inr trs, m') \<and> sm_inv m'
    \<and> (\<forall>i. dict_get (sm_orders m') i =
         (case List.find (\<lambda>s. so_simulated_order_id s = i) os of
            Some s \<Rightarrow> Some (ended EXPIRED t s) | None \<Rightarrow> dict_get (sm_orders m) i))"
  using assms
proof (induction os arbitrary: m)
  case Nil
  then show ?case by (simp add: expire_all_def)
next
  case (Cons s os)
  let ?i = "so_simulated_order_id s" and ?m = "put_order (ended EXPIRED t s) m"
  from Cons.prems(4) [of s] have s: "dict_get (sm_orders m) ?i = Some s" "\<not> so_terminal s"
    "so_requested_timestamp_ns s \<le> t" by auto
  from expire_ok [OF Cons.prems(1) s(1,2,3) Cons.prems(3)] obtain tr where
    e: "expire ?i t m = (Inr tr, ?m)" by blast
  have inv: "sm_inv ?m" using expire_inv [OF Cons.prems(1) e] .
  have get: "dict_get (sm_orders ?m) i = (if i = ?i then Some (ended EXPIRED t s) else dict_get (sm_orders m) i)"
    for i by (simp add: put_order_def)
  have "dict_get (sm_orders ?m) (so_simulated_order_id u) = Some u
      \<and> \<not> so_terminal u \<and> so_requested_timestamp_ns u \<le> t" if "u \<in> set os" for u
  proof -
    from Cons.prems(2) have "?i \<notin> so_simulated_order_id ` set os" by simp
    with that have "so_simulated_order_id u \<noteq> ?i" by (metis imageI)
    with Cons.prems(4) [of u] that show ?thesis by (simp add: get)
  qed
  from Cons.IH [OF inv _ Cons.prems(3) this] Cons.prems(2) obtain trs m' where
    rest: "expire_all t os ?m = (Inr trs, m')" "sm_inv m'"
    and look: "\<And>i. dict_get (sm_orders m') i =
         (case List.find (\<lambda>s. so_simulated_order_id s = i) os of
            Some s \<Rightarrow> Some (ended EXPIRED t s) | None \<Rightarrow> dict_get (sm_orders ?m) i)" by auto
  have "List.find (\<lambda>u. so_simulated_order_id u = ?i) os = None"
    using Cons.prems(2) by (auto simp: find_None_iff image_iff)
  then have "dict_get (sm_orders m') i =
         (case List.find (\<lambda>s. so_simulated_order_id s = i) (s # os) of
            Some s \<Rightarrow> Some (ended EXPIRED t s) | None \<Rightarrow> dict_get (sm_orders m) i)" for i
    using look [of i] by (auto simp: get split: option.splits)
  with e rest show ?case by (auto simp: expire_all_def)
qed

lemma open_orders_facts:
  assumes "sm_inv m"
  shows "distinct (map so_simulated_order_id (open_orders m))"
    "s \<in> set (open_orders m) \<Longrightarrow>
       dict_get (sm_orders m) (so_simulated_order_id s) = Some s \<and> \<not> so_terminal s \<and> order_wf s"
    "List.find (\<lambda>s. so_simulated_order_id s = i) (open_orders m) =
       (case dict_get (sm_orders m) i of None \<Rightarrow> None | Some s \<Rightarrow> if so_terminal s then None else Some s)"
proof -
  have ord: "orders_inv m" using assms sm_midD(3) by (simp add: sm_inv_def)
  then have ok: "dict_ok (sm_orders m)"
    and get: "\<And>i s. dict_get (sm_orders m) i = Some s \<Longrightarrow> so_simulated_order_id s = i \<and> order_wf s"
    unfolding orders_inv_def by blast+
  let ?d = "sort_key fst (sm_orders m)"
  have mem: "(i, s) \<in> set ?d \<longleftrightarrow> dict_get (sm_orders m) i = Some s" for i s
    by (simp add: dict_mem_iff [OF ok])
  have "map so_simulated_order_id (sm_all_orders m) = map fst ?d"
    unfolding sm_all_orders_def by (auto dest: get simp: dict_mem_iff [OF ok])
  moreover have "distinct (map fst ?d)"
  proof -
    have "mset (map fst ?d) = mset (map fst (sm_orders m))" by simp
    then have "distinct (map fst ?d) = distinct (map fst (sm_orders m))" by (rule mset_eq_imp_distinct_iff)
    then show ?thesis using ok by (simp add: dict_ok_def)
  qed
  ultimately show dist: "distinct (map so_simulated_order_id (open_orders m))"
    unfolding open_orders_def by (simp add: distinct_map_filter)
  have set_open: "s \<in> set (open_orders m) \<longleftrightarrow>
      dict_get (sm_orders m) (so_simulated_order_id s) = Some s \<and> \<not> so_terminal s" for s
  proof -
    have "s \<in> set (sm_all_orders m) \<longleftrightarrow> (\<exists>i. dict_get (sm_orders m) i = Some s)"
      unfolding sm_all_orders_def using mem by (force simp: image_iff)
    then show ?thesis unfolding open_orders_def using get by auto
  qed
  then show "s \<in> set (open_orders m) \<Longrightarrow>
       dict_get (sm_orders m) (so_simulated_order_id s) = Some s \<and> \<not> so_terminal s \<and> order_wf s"
    using get by blast
  show "List.find (\<lambda>s. so_simulated_order_id s = i) (open_orders m) =
       (case dict_get (sm_orders m) i of None \<Rightarrow> None | Some s \<Rightarrow> if so_terminal s then None else Some s)"
    (is "?f = _")
  proof (cases ?f)
    case None
    then have none: "\<And>s. s \<in> set (open_orders m) \<Longrightarrow> so_simulated_order_id s \<noteq> i"
      by (auto simp: find_None_iff)
    have "so_terminal s" if "dict_get (sm_orders m) i = Some s" for s
      using none [of s] set_open [of s] get [OF that] that by auto
    with None show ?thesis by (auto split: option.splits)
  next
    case (Some s)
    then have "s \<in> set (open_orders m)" "so_simulated_order_id s = i"
      by (auto simp: find_Some_iff)
    with set_open [of s] Some show ?thesis by simp
  qed
qed

text \<open>The orders after settlement: every open one expired, the others as they were.\<close>

definition expired_orders :: "int \<Rightarrow> order_state_machine \<Rightarrow> int \<Rightarrow> simulated_order option" where
  "expired_orders t m i = map_option (\<lambda>s. if so_terminal s then s else ended EXPIRED t s)
     (dict_get (sm_orders m) i)"

lemma check_open_orders_Inr:
  "check_open_orders t os = Inr u \<Longrightarrow> s \<in> set os \<Longrightarrow> so_requested_timestamp_ns s \<le> t"
  unfolding check_open_orders_def
  by (induction os) (auto simp: bindR_eq_Inr require_eq_Inr fail_defs)

lemma expire_open_orders:
  assumes "sm_inv m" "valid_int t 0 MAX_TIMESTAMP_NS" "check_open_orders t (open_orders m) = Inr u"
  shows "\<exists>trs m'. expire_all t (open_orders m) m = (Inr trs, m') \<and> sm_inv m'
    \<and> (\<forall>i. dict_get (sm_orders m') i = expired_orders t m i)"
proof -
  have "\<And>s. s \<in> set (open_orders m) \<Longrightarrow> dict_get (sm_orders m) (so_simulated_order_id s) = Some s
        \<and> \<not> so_terminal s \<and> so_requested_timestamp_ns s \<le> t"
    using open_orders_facts(2) [OF assms(1)] check_open_orders_Inr [OF assms(3)] by blast
  from expire_all_ok [OF assms(1) open_orders_facts(1) [OF assms(1)] assms(2) this]
  obtain trs m' where r: "expire_all t (open_orders m) m = (Inr trs, m')" "sm_inv m'"
    and look: "\<forall>i. dict_get (sm_orders m') i =
         (case List.find (\<lambda>s. so_simulated_order_id s = i) (open_orders m) of
            Some s \<Rightarrow> Some (ended EXPIRED t s) | None \<Rightarrow> dict_get (sm_orders m) i)" by blast
  have "dict_get (sm_orders m') i = expired_orders t m i" for i
    using look by (auto simp: expired_orders_def open_orders_facts(3) [OF assms(1)] split: option.splits)
  with r show ?thesis by blast
qed

section \<open>Quotes and trades\<close>

definition quotes_ok :: "int \<Rightarrow> terminal_quote list \<Rightarrow> (int, terminal_quote) dict \<Rightarrow> bool" where
  "quotes_ok t quotes by_symbol \<longleftrightarrow> (\<forall>s q. dict_get by_symbol s = Some q \<longrightarrow>
     q \<in> set quotes \<and> tq_quote_symbol_id q = s \<and> tq_best_bid_price4 q \<le> tq_best_ask_price4 q)"

lemma collect_quotes_ok:
  assumes "collect_quotes t quotes = Inr by_symbol"
  shows "quotes_ok t quotes by_symbol"
  by (rule foldR_inv [OF assms [unfolded collect_quotes_def], where I = "quotes_ok t quotes"])
    (auto simp: quotes_ok_def bindR_eq_Inr require_eq_Inr fail_defs validate_quote_def split: if_splits)

definition crosses_quote :: "int \<Rightarrow> (int, int) dict \<Rightarrow> terminal_trade \<Rightarrow> terminal_quote \<Rightarrow> bool" where
  "crosses_quote t positions trade q \<longleftrightarrow>
     tq_quote_symbol_id q = tt_symbol_id trade
   \<and> tq_best_bid_price4 q \<le> tq_best_ask_price4 q
   \<and> tt_mark_mid2 trade = tq_best_bid_price4 q + tq_best_ask_price4 q
   \<and> tt_timestamp_ns trade = t
   \<and> (if position positions (tt_symbol_id trade) > 0
      then tt_side trade = -1 \<and> tt_price4 trade = tq_best_bid_price4 q
      else tt_side trade = 1 \<and> tt_price4 trade = tq_best_ask_price4 q)
   \<and> tt_quantity trade = \<bar>position positions (tt_symbol_id trade)\<bar>"

definition crossing_trade :: "int \<Rightarrow> terminal_quote list \<Rightarrow> (int, int) dict \<Rightarrow> terminal_trade \<Rightarrow> bool" where
  "crossing_trade t quotes positions trade \<longleftrightarrow> (\<exists>q\<in>set quotes. crosses_quote t positions trade q)"

lemma symbol_row_sel [simp]:
  "sy_symbol_id (symbol_row L s) = s" "sy_inventory (symbol_row L s) = position (al_positions L) s"
  by (simp_all add: symbol_row_def)

lemma terminal_trades_cross:
  assumes "terminal_trades t by_symbol (map (symbol_row L) ks) = Inr trades"
    and "quotes_ok t quotes by_symbol"
  shows "\<forall>trade\<in>set trades. crossing_trade t quotes (al_positions L) trade"
  using assms(1)
proof (induction ks arbitrary: trades)
  case (Cons k ks)
  show ?case
  proof (cases "position (al_positions L) k = 0")
    case True
    with Cons show ?thesis by simp
  next
    case False
    with Cons.prems obtain q rest where q: "dict_get by_symbol k = Some q"
      and rest: "terminal_trades t by_symbol (map (symbol_row L) ks) = Inr rest"
      and trades: "trades = \<lparr>tt_symbol_id = k,
        tt_side = (if position (al_positions L) k > 0 then -1 else 1),
        tt_price4 = (if position (al_positions L) k > 0 then tq_best_bid_price4 q
          else tq_best_ask_price4 q),
        tt_quantity = \<bar>position (al_positions L) k\<bar>, tt_mark_mid2 = quote_mid2 q,
        tt_timestamp_ns = t\<rparr> # rest"
      by (auto simp: bindR_eq_Inr Let_def fail_defs split: option.splits if_splits)
    have "crossing_trade t quotes (al_positions L) (hd trades)"
      using assms(2) q by (auto simp: trades crossing_trade_def crosses_quote_def quotes_ok_def quote_mid2_def)
    with Cons.IH [OF rest] show ?thesis by (simp add: trades)
  qed
qed simp

text \<open>Crossing the spread never earns: a terminal trade at the visible quote slips by half the spread.\<close>

lemma crossing_slippage:
  assumes "crossing_trade t quotes positions trade"
  shows "tt_side trade * (tt_mark_mid2 trade - 2 * tt_price4 trade) * tt_quantity trade * 50 \<le> 0"
proof -
  from assms obtain q where q: "crosses_quote t positions trade q"
    unfolding crossing_trade_def by blast
  then have "tt_side trade * (tt_mark_mid2 trade - 2 * tt_price4 trade) \<le> 0"
    by (auto simp: crosses_quote_def split: if_splits)
  moreover have "0 \<le> tt_quantity trade" using q by (simp add: crosses_quote_def)
  ultimately have "tt_side trade * (tt_mark_mid2 trade - 2 * tt_price4 trade) * tt_quantity trade \<le> 0"
    by (rule mult_nonpos_nonneg)
  then show ?thesis by (rule mult_nonpos_nonneg) simp
qed

text \<open>The errors of the marked values.\<close>

lemma marked_values_codes:
  "marked_values marks ps = Inl e \<Longrightarrow>
     e = SimulationError ERR_COST None None \<or> e = SimulationError ERR_PRICE None None"
  by (induction marks ps rule: marked_values.induct)
    (auto simp: bindR_eq_Inl marked_value_def fail_defs split: option.splits if_splits)

section \<open>Settlement as a whole\<close>

text \<open>
  Once the open orders have passed their check, nothing in the rest of the settlement can raise:
  the orders expire, the plan is current and the settled ledger has a snapshot.
\<close>

lemma commit_prepared:
  assumes "plan_terminal_accounting trades rate L = Inr p" "ledger_dicts L"
  shows "commit_terminal_accounting p (L\<lparr>al_prepared_terminal_plan := Some p,
      al_plans_made := al_plans_made L + 1\<rparr>)
    = (Inr (pt_records p), settled_with p (L\<lparr>al_prepared_terminal_plan := Some p,
        al_plans_made := al_plans_made L + 1\<rparr>))"
  using plan_terminal_Inr(1,6) [OF assms]
  by (simp add: commit_terminal_accounting_def commitM_def plan_amounts_def require_def settled_with_def)

definition settlement_trades ::
  "int \<Rightarrow> terminal_quote list \<Rightarrow> int \<Rightarrow> accounting_ledger \<Rightarrow> terminal_trade list result" where
  "settlement_trades t quotes rate L =
     bindR (require (valid_int t 0 MAX_TIMESTAMP_NS) (fail_code ERR_TIMESTAMP)) (\<lambda>_.
     bindR (require (valid_int rate (- MAX_FEE_MICROUSD_PER_SHARE) MAX_FEE_MICROUSD_PER_SHARE)
              (fail_code ERR_COST)) (\<lambda>_.
     bindR (collect_quotes t quotes) (\<lambda>by_symbol.
     bindR (ledger_snapshot L) (\<lambda>s. terminal_trades t by_symbol (sn_symbols s)))))"

definition with_plan :: "prepared_terminal_accounting \<Rightarrow> accounting_ledger \<Rightarrow> accounting_ledger" where
  "with_plan p L = L\<lparr>al_prepared_terminal_plan := Some p, al_plans_made := al_plans_made L + 1\<rparr>"

definition finish_settlement ::
  "int \<Rightarrow> prepared_terminal_accounting \<Rightarrow> (settlement_state, terminal_settlement) smethod" where
  "finish_settlement t p ml =
     bindM (on_machine (expire_all t (open_orders (fst ml)))) (\<lambda>expirations.
     bindM (on_owner (commit_terminal_accounting p)) (\<lambda>liquidations.
     bindM snapshotM (\<lambda>accounting.
     returnM \<lparr>ts_expired_orders = expirations, ts_liquidations = liquidations,
              ts_accounting = accounting\<rparr>))) ml"

lemma settle_split:
  "settle_session_end t quotes rate (m, L) = (case settlement_trades t quotes rate L of
      Inl e \<Rightarrow> (Inl e, (m, L))
    | Inr trades \<Rightarrow> (case plan_terminal_accounting trades rate L of
        Inl e \<Rightarrow> (Inl e, (m, L))
      | Inr p \<Rightarrow> (case check_open_orders t (open_orders m) of
          Inl e \<Rightarrow> (Inl e, (m, with_plan p L))
        | Inr _ \<Rightarrow> finish_settlement t p (m, with_plan p L))))"
proof (cases "settlement_trades t quotes rate L")
  case (Inl e)
  then show ?thesis
    by (auto simp: settle_session_end_def settlement_trades_def bindR_eq_Inl require_def fail_defs
      bindM_def snapshotM_def split: if_splits)
next
  case (Inr trades)
  then show ?thesis
    by (cases "plan_terminal_accounting trades rate L"; cases "check_open_orders t (open_orders m)")
      (auto simp: settle_session_end_def settlement_trades_def bindR_eq_Inr require_def fail_defs
        bindM_def snapshotM_def finish_settlement_def Let_def on_owner_def with_plan_def
        prepare_terminal_accounting_def commitM_def split: if_splits)
qed

lemma finish_settlement_ok:
  assumes inv: "sm_inv m" "ledger_inv L" and p: "plan_terminal_accounting trades rate L = Inr p"
    and t: "valid_int t 0 MAX_TIMESTAMP_NS" "check_open_orders t (open_orders m) = Inr u"
  shows "\<exists>trs m' sn. finish_settlement t p (m, with_plan p L)
      = (Inr \<lparr>ts_expired_orders = trs, ts_liquidations = pt_records p, ts_accounting = sn\<rparr>,
         (m', settled_with p (with_plan p L)))
    \<and> (\<forall>i. dict_get (sm_orders m') i = expired_orders t m i)
    \<and> ledger_inv (settled_with p (with_plan p L))
    \<and> ledger_snapshot (settled_with p (with_plan p L)) = Inr sn"
proof -
  have prep: "prepare_terminal_accounting trades rate L = (Inr p, with_plan p L)"
    using p by (simp add: prepare_terminal_Inr with_plan_def)
  from expire_open_orders [OF inv(1) t] obtain trs m1 where
    ex: "expire_all t (open_orders m) m = (Inr trs, m1)"
      "\<forall>i. dict_get (sm_orders m1) i = expired_orders t m i" by blast
  have com: "commit_terminal_accounting p (with_plan p L)
      = (Inr (pt_records p), settled_with p (with_plan p L))"
    using commit_prepared [OF p ledger_invD(1) [OF inv(2)]] by (simp add: with_plan_def)
  have inv2: "ledger_inv (settled_with p (with_plan p L))"
    using commit_terminal_inv [OF com prepare_terminal_inv(1) [OF prep inv(2)]] .
  note P = plan_terminal_Inr [OF p ledger_invD(1) [OF inv(2)]]
  obtain rec where "reconcile 0 (al_gross_passive_cash L) (pt_gross_liquidation_cash p)
      (al_maker_fees L) (pt_taker_fee p) (al_passive_spread_capture L)
      (pt_inventory_mark_to_market p) (pt_terminal_liquidation_slippage p) = Inr rec"
    using P(8) by blast
  then have "\<exists>sn. ledger_snapshot (settled_with p (with_plan p L)) = Inr sn"
    by (intro flat_snapshot [where r = rec])
      (simp only: settled_with_sel P(4), simp add: settled_with_def with_plan_def)
  then obtain sn where sn: "ledger_snapshot (settled_with p (with_plan p L)) = Inr sn" by blast
  then have "finish_settlement t p (m, with_plan p L)
      = (Inr \<lparr>ts_expired_orders = trs, ts_liquidations = pt_records p, ts_accounting = sn\<rparr>,
         (m1, settled_with p (with_plan p L)))"
    using ex(1) com by (simp add: finish_settlement_def bindM_def snapshotM_def on_owner_def on_machine_def)
  with ex(2) inv2 sn show ?thesis by blast
qed

lemma settle_Inr:
  assumes inv: "sm_inv m" "ledger_inv L"
    and run: "settle_session_end t quotes rate (m, L) = (Inr res, (m', L'))"
  obtains trades p by_symbol s where
    "ledger_snapshot L = Inr s" "collect_quotes t quotes = Inr by_symbol"
    "terminal_trades t by_symbol (sn_symbols s) = Inr trades"
    "plan_terminal_accounting trades rate L = Inr p"
    "\<And>i. dict_get (sm_orders m') i = expired_orders t m i"
    "L' = settled_with p (with_plan p L)" "ledger_inv L'" "ts_liquidations res = pt_records p"
    "ledger_snapshot L' = Inr (ts_accounting res)"
proof -
  from run obtain trades p u where tr: "settlement_trades t quotes rate L = Inr trades"
    and p: "plan_terminal_accounting trades rate L = Inr p"
    and u: "check_open_orders t (open_orders m) = Inr u"
    and f: "finish_settlement t p (m, with_plan p L) = (Inr res, (m', L'))"
    by (auto simp: settle_split split: sum.splits)
  from tr obtain by_symbol s where t: "valid_int t 0 MAX_TIMESTAMP_NS"
    "collect_quotes t quotes = Inr by_symbol" "ledger_snapshot L = Inr s"
    "terminal_trades t by_symbol (sn_symbols s) = Inr trades"
    by (auto simp: settlement_trades_def bindR_eq_Inr require_eq_Inr fail_defs)
  from finish_settlement_ok [OF inv p t(1) u] f
  show thesis by (intro that [OF t(3,2,4) p]) auto
qed

lemma settle_Inl:
  assumes inv: "sm_inv m" "ledger_inv L"
    and run: "settle_session_end t quotes rate (m, L) = (Inl e, (m', L'))"
  shows "m' = m" "unplanned L' = unplanned L"
proof -
  have "m' = m \<and> (L' = L \<or> (\<exists>p. L' = with_plan p L))"
  proof (cases "settlement_trades t quotes rate L")
    case (Inr trades)
    then have t: "valid_int t 0 MAX_TIMESTAMP_NS"
      by (auto simp: settlement_trades_def bindR_eq_Inr require_eq_Inr fail_defs)
    show ?thesis
    proof (cases "plan_terminal_accounting trades rate L")
      case p: (Inr p)
      show ?thesis
      proof (cases "check_open_orders t (open_orders m)")
        case u: (Inr u)
        from finish_settlement_ok [OF inv p t u] run Inr p u show ?thesis
          by (auto simp: settle_split)
      qed (use run Inr p in \<open>auto simp: settle_split\<close>)
    qed (use run Inr in \<open>auto simp: settle_split\<close>)
  qed (use run in \<open>auto simp: settle_split\<close>)
  then show "m' = m" "unplanned L' = unplanned L" by (auto simp: unplanned_def with_plan_def)
qed

lemma snapshot_unplanned: "ledger_snapshot (unplanned L) = ledger_snapshot L"
proof -
  have "snapshot_symbols (unplanned L) ks = snapshot_symbols L ks" for ks
    by (induction ks) (simp_all add: unplanned_def Let_def cong: if_cong)
  moreover have "ledger_symbols (unplanned L) = ledger_symbols L"
    by (simp add: ledger_symbols_def unplanned_def)
  ultimately show ?thesis by (simp add: ledger_snapshot_def) (simp add: unplanned_def)
qed

lemma plan_records:
  assumes "plan_closes trades rate L p" "r \<in> set (pt_records p)"
  obtains i trade where "trade \<in> set trades" "r = liquidation_of rate (al_positions L) (i, trade)"
  using assms by (auto simp: plan_closes_def in_set_enumerate_eq elim!: that [rotated])

text \<open>A settlement of the demonstration machine and the sample ledger.\<close>

definition sample_quotes :: "terminal_quote list" where
  "sample_quotes = [
     \<lparr>tq_quote_symbol_id = 7, tq_quote_timestamp_ns = 20, tq_best_bid_price4 = 100000,
      tq_best_ask_price4 = 100100\<rparr>,
     \<lparr>tq_quote_symbol_id = 9, tq_quote_timestamp_ns = 20, tq_best_bid_price4 = 50000,
      tq_best_ask_price4 = 50100\<rparr>]"

definition sample_settlement ::
  "terminal_quote list \<Rightarrow> terminal_settlement result \<times> settlement_state" where
  "sample_settlement quotes = settle_session_end 2000 quotes 3000 (fst (snd demo_run), sample_before)"

lemma settle_result:
  "succeeded (sample_settlement quotes) \<Longrightarrow>
     settle_session_end 2000 quotes 3000 (fst (snd demo_run), sample_before)
       = (Inr (projr (fst (sample_settlement quotes))),
          (fst (snd (sample_settlement quotes)), snd (snd (sample_settlement quotes))))"
  using succeededD [of "sample_settlement quotes"] by (simp add: sample_settlement_def)

lemma sample_settlement_ok: "succeeded (sample_settlement sample_quotes)"
  by code_simp

lemma sample_settlement_fails:
  "settle_session_end 2000 [hd sample_quotes] 3000 (fst (snd demo_run), sample_before)
     = (Inl (SimulationError ERR_PRICE None None),
        (fst (snd (sample_settlement [hd sample_quotes])), snd (snd (sample_settlement [hd sample_quotes]))))"
proof -
  have "fst (sample_settlement [hd sample_quotes]) = Inl (SimulationError ERR_PRICE None None)"
    by code_simp
  then show ?thesis by (simp add: sample_settlement_def prod_eq_iff)
qed

section \<open>Properties\<close>

text \<open>
  C17: When \<open>settle_session_end\<close> returns, every order has ended, the open ones as expired at the
  session end and the others unchanged; every open position has been closed by exactly one
  liquidation, at the opposite side of a supplied quote, for its whole quantity and never at a
  gain over the mark; and the book is flat.
\<close>
theorem settlement_closes_everything:
  assumes "new_state_machine sub can = Inr m0" "run_steps (sm_step R) (m0, q0) calls = (Inr tss, (m, q))"
    and "reached_ledger rate limit cs L"
    and "settle_session_end t quotes taker (m, L) = (Inr res, (m', L'))"
  shows "(\<forall>i. dict_get (sm_orders m') i = map_option (\<lambda>s. if so_terminal s then s
        else s\<lparr>so_state := EXPIRED, so_terminal_timestamp_ns := Some t\<rparr>) (dict_get (sm_orders m) i))
    \<and> (\<forall>s. dict_get_default (al_positions L') s 0 = 0)
    \<and> distinct (map la_symbol_id (ts_liquidations res))
    \<and> (\<forall>s. dict_get_default (al_positions L) s 0 \<noteq> 0
         \<longleftrightarrow> s \<in> set (map la_symbol_id (ts_liquidations res)))
    \<and> (\<forall>r\<in>set (ts_liquidations res).
         la_inventory_before r = dict_get_default (al_positions L) (la_symbol_id r) 0
       \<and> la_quantity r = \<bar>la_inventory_before r\<bar> \<and> la_inventory_after r = 0
       \<and> la_slippage_microusd r \<le> 0
       \<and> (\<exists>quote\<in>set quotes. tq_quote_symbol_id quote = la_symbol_id r
           \<and> la_price4 r = (if la_inventory_before r > 0 then tq_best_bid_price4 quote
               else tq_best_ask_price4 quote)))
    \<and> ledger_snapshot L' = Inr (ts_accounting res) \<and> sn_settled (ts_accounting res)"
proof -
  have inv: "sm_inv m" "ledger_inv L"
    using machine.run_inv [OF _ assms(2)] sm_inv_new [OF assms(1)] reached_ledger_inv [OF assms(3)]
    by simp_all
  from assms(4) obtain trades p by_symbol s where
    s: "ledger_snapshot L = Inr s" and col: "collect_quotes t quotes = Inr by_symbol"
    and tr: "terminal_trades t by_symbol (sn_symbols s) = Inr trades"
    and p: "plan_terminal_accounting trades taker L = Inr p"
    and ex: "\<And>i. dict_get (sm_orders m') i = expired_orders t m i"
    and L': "L' = settled_with p (with_plan p L)" "ledger_inv L'" and liq: "ts_liquidations res = pt_records p"
    and sn: "ledger_snapshot L' = Inr (ts_accounting res)"
    by (rule settle_Inr [OF inv]) (rule that, assumption+)
  have cl: "plan_closes trades taker L p" and zero: "\<And>s. position (pt_positions p) s = 0"
    using plan_terminal_Inr(4,5) [OF p ledger_invD(1) [OF inv(2)]] by blast+
  have cross: "\<forall>trade\<in>set trades. crossing_trade t quotes (al_positions L) trade"
    using terminal_trades_cross [OF tr [unfolded ledger_snapshot_Inr(1) [OF s ledger_invD(1) [OF inv(2)]]]
      collect_quotes_ok [OF col]] .
  have records: "la_inventory_before r = position (al_positions L) (la_symbol_id r)
       \<and> la_quantity r = \<bar>la_inventory_before r\<bar> \<and> la_inventory_after r = 0
       \<and> la_slippage_microusd r \<le> 0
       \<and> (\<exists>quote\<in>set quotes. tq_quote_symbol_id quote = la_symbol_id r
           \<and> la_price4 r = (if la_inventory_before r > 0 then tq_best_bid_price4 quote
               else tq_best_ask_price4 quote))" if r: "r \<in> set (pt_records p)" for r
  proof -
    from cl r obtain i trade where trade: "trade \<in> set trades"
      and eq: "r = liquidation_of taker (al_positions L) (i, trade)" by (rule plan_records)
    from cross trade have c: "crossing_trade t quotes (al_positions L) trade" by blast
    then obtain quote where "quote \<in> set quotes" "crosses_quote t (al_positions L) trade quote"
      by (auto simp: crossing_trade_def)
    then show ?thesis
      using crossing_slippage [OF c]
      by (auto simp: eq liquidation_of_def crosses_quote_def split: if_splits)
  qed
  have syms: "map la_symbol_id (pt_records p) = map tt_symbol_id trades"
    using cl map_snd_enumerate [of tt_symbol_id]
    by (simp add: plan_closes_def liquidation_of_def comp_def case_prod_unfold)
  have "\<forall>i. dict_get (sm_orders m') i = map_option (\<lambda>s. if so_terminal s then s
        else s\<lparr>so_state := EXPIRED, so_terminal_timestamp_ns := Some t\<rparr>) (dict_get (sm_orders m) i)"
    by (auto simp: ex expired_orders_def ended_def intro!: option.map_cong)
  moreover have "distinct (map la_symbol_id (pt_records p))"
    "\<forall>s. position (al_positions L) s \<noteq> 0 \<longleftrightarrow> s \<in> set (map la_symbol_id (pt_records p))"
    using cl unfolding syms by (simp_all add: plan_closes_def)
  moreover have "\<forall>s. position (al_positions L') s = 0" by (simp only: L'(1) settled_with_sel zero simp_thms)
  moreover have "sn_settled (ts_accounting res)"
    using ledger_snapshot_Inr(15) [OF sn ledger_invD(1) [OF L'(2)]]
    by (simp add: L'(1) settled_with_sel)
  ultimately show ?thesis using records sn unfolding liq by blast
qed

theorem settlement_closes_everything_witness:
  "(\<forall>s. dict_get_default (al_positions (snd (snd (sample_settlement sample_quotes)))) s 0 = 0)
   \<and> map la_symbol_id (ts_liquidations (projr (fst (sample_settlement sample_quotes)))) = [7, 9]"
proof -
  have "map la_symbol_id (ts_liquidations (projr (fst (sample_settlement sample_quotes)))) = [7, 9]"
    by code_simp
  with settlement_closes_everything [OF demo_machine_new demo_run_ok sample_reached
      settle_result [OF sample_settlement_ok]]
  show ?thesis by blast
qed

text \<open>
  C18: Settlement is all or nothing: when \<open>settle_session_end\<close> raises, no order has changed and
  neither has the ledger, but for a plan left pending, which no later snapshot shows.
\<close>
theorem settlement_atomic:
  assumes "new_state_machine sub can = Inr m0" "run_steps (sm_step R) (m0, q0) calls = (Inr tss, (m, q))"
    and "reached_ledger rate limit cs L"
    and "settle_session_end t quotes taker (m, L) = (Inl e, (m', L'))"
  shows "m' = m
    \<and> L'\<lparr>al_prepared_terminal_plan := None, al_plans_made := 0\<rparr>
        = L\<lparr>al_prepared_terminal_plan := None, al_plans_made := 0\<rparr>
    \<and> ledger_snapshot L' = ledger_snapshot L"
proof -
  have inv: "sm_inv m" "ledger_inv L"
    using machine.run_inv [OF _ assms(2)] sm_inv_new [OF assms(1)] reached_ledger_inv [OF assms(3)]
    by simp_all
  note a = settle_Inl [OF inv assms(4)]
  have "ledger_snapshot L' = ledger_snapshot L" using a(2) snapshot_unplanned by metis
  with a show ?thesis by (simp add: unplanned_def)
qed

theorem settlement_atomic_witness:
  "fst (snd (sample_settlement [hd sample_quotes])) = fst (snd demo_run)
   \<and> ledger_snapshot (snd (snd (sample_settlement [hd sample_quotes]))) = ledger_snapshot sample_before"
  using settlement_atomic [OF demo_machine_new demo_run_ok sample_reached sample_settlement_fails]
  by blast

text \<open>
  A quote that \<open>InventoryRiskLimit.evaluate\<close> permits cannot breach the ledger's limit: a fill
  of the quote, in part or in full, booked while the inventory is the one evaluated, is never
  refused for the inventory limit.
\<close>
theorem permitted_quote_never_breaches:
  assumes "reached_ledger rate limit cs L"
    and "ledger_inventory L (so_symbol_id order) = Inr inventory"
    and "evaluate_quote limit inventory (so_side order) quantity = Inr d" "rd_permitted d"
    and "qf_quantity fill \<le> quantity"
  shows "fst (record_queue_fill fill order mark L) \<noteq> Inl (SimulationError ERR_INVENTORY_LIMIT i msg)"
proof
  assume bad: "fst (record_queue_fill fill order mark L) = Inl (SimulationError ERR_INVENTORY_LIMIT i msg)"
  let ?s = "so_symbol_id order" and ?q = "qf_quantity fill"
  have lim: "al_inventory_limit L = limit"
    using assms(1) by (auto simp: reached_ledger_def limit_fixed new_ledger_def bindR_eq_Inr split: if_splits)
  note inv = reached_ledger_inv [OF assms(1)]
  note dicts = ledger_dictsD [OF ledger_invD(1) [OF inv]]
  have pos: "position (al_positions L) ?s = inventory"
    using assms(2) by (auto simp: ledger_inventory_def bindR_eq_Inr validate_symbol_id_def split: if_splits)
  from bad have e: "commit_queue_fill fill order mark L = Inl (SimulationError ERR_INVENTORY_LIMIT i msg)"
    by (auto simp: record_queue_fill_def commitM_def split: sum.splits)
  have v: "validate_queue_fill fill order = Inr u \<Longrightarrow> 1 \<le> ?q" for u
    by (auto simp: validate_queue_fill_def bindR_eq_Inr require_eq_Inr fail_defs valid_int_def)
  from e obtain P' M' mtm' where
    a: "apply_mark_to_copies ?s mark (al_positions L) (al_marks L) (al_inventory_mark_to_market L)
      = Inr (P', M', mtm')"
    and out: "\<not> valid_int (position P' ?s + so_side order * ?q) (- limit) limit" and q: "1 \<le> ?q"
  proof -
    have "validate_queue_fill fill order \<noteq> Inl (SimulationError ERR_INVENTORY_LIMIT i msg)"
      by (auto simp: validate_queue_fill_def bindR_eq_Inl require_eq_Inl fail_defs
        validate_simulated_order_def validate_order_request_def Let_def split: sum.splits if_splits option.splits)
    moreover have "validate_reconciliation L P M pc lc mk tk sp mtm ts \<noteq>
        Inl (SimulationError ERR_INVENTORY_LIMIT i msg)" for P M pc lc mk tk sp mtm ts
      by (auto simp: validate_reconciliation_def bindR_eq_Inl reconcile_def fail_defs
        dest: marked_values_Inl checked_sum_int64_Inl split: if_splits dest!: marked_values_codes)
    ultimately show thesis
      using e that v
      by (auto simp: commit_queue_fill_def bindR_eq_Inl require_eq_Inl fail_defs Let_def check_fill_def
        validate_mark_mid2_def trade_cash_delta_def trade_fee_def mark_relative_value_def lim
        dest: apply_mark_Inl split: prod.splits if_splits)
  qed
  from assms(3,4) have "inventory + so_side order * quantity \<in> {- limit..limit}" "inventory \<in> {- limit..limit}"
    "so_side order = -1 \<or> so_side order = 1"
    by (auto simp: evaluate_quote_def fail_defs valid_int_def valid_side_def Let_def split: if_splits)
  with q assms(5) have "valid_int (inventory + so_side order * ?q) (- limit) limit"
    by (auto simp: valid_int_def)
  with out show False using apply_mark_Inr(4) [OF a dicts] pos by simp
qed

lemma sample_permitted:
  "ledger_inventory sample_before (so_symbol_id (sample_order 4 7 1 99900 70 0)) = Inr 30"
  "evaluate_quote 100 30 (so_side (sample_order 4 7 1 99900 70 0)) 70
     = Inr \<lparr>rd_permitted = True, rd_current_inventory = 30, rd_projected_inventory = 100,
         rd_inventory_limit = 100, rd_risk_increasing = True, rd_reason = None\<rparr>"
  by code_simp+

theorem permitted_quote_never_breaches_witness:
  "fst (record_queue_fill (sample_fill (sample_order 4 7 1 99900 70 0) 8 70)
     (sample_order 4 7 1 99900 70 0) 200100 sample_before)
     \<noteq> Inl (SimulationError ERR_INVENTORY_LIMIT (Some 4) (Some 8))"
  by (rule permitted_quote_never_breaches [OF sample_reached sample_permitted])
    (simp_all add: sample_fill_def)

end
