(* ===== verification/Metrics.thy ===== *)
theory Metrics
  imports Ledger_Properties
begin

text \<open>
  \<open>simulation/metrics.py\<close>: the accounting summary, which verifies a snapshot a second time, and
  the path-dependent metrics of an equity curve. The coverage, a Python float, is kept as the
  pair of integers whose quotient it is; no pair stands for the literal \<open>0.0\<close>.
\<close>

section \<open>Accounting metrics\<close>

record accounting_metrics_row =
  am_passive_fill_count :: int
  am_passive_fill_quantity :: int
  am_liquidation_count :: int
  am_liquidation_quantity :: int
  am_gross_cash :: int
  am_maker_fee :: int
  am_taker_fee :: int
  am_signed_fee :: int
  am_fee_contribution :: int
  am_cash :: int
  am_ending_inventory_by_symbol :: "(int \<times> int) list"
  am_max_abs_inventory_by_symbol :: "(int \<times> int) list"
  am_marked_inventory_value :: int
  am_passive_spread_capture :: int
  am_inventory_mark_to_market :: int
  am_terminal_liquidation_slippage :: int
  am_marked_pnl :: int
  am_reconciled :: bool
  am_settled :: bool

definition checked_add :: "int \<Rightarrow> int \<Rightarrow> int result" where
  "checked_add left right = checked_int64 (left + right)"

definition accounting_metrics :: "accounting_snapshot \<Rightarrow> accounting_metrics_row result" where
  "accounting_metrics snapshot =
     bindR (checked_int64 (sn_gross_passive_cash snapshot + sn_gross_liquidation_cash snapshot)) (\<lambda>gross_cash.
     bindR (checked_int64 (- sn_signed_fee snapshot)) (\<lambda>fee_contribution.
     bindR (foldR checked_add 0 [sn_passive_spread_capture snapshot,
              sn_inventory_mark_to_market snapshot, sn_terminal_liquidation_slippage snapshot,
              fee_contribution]) (\<lambda>decomposition.
     bindR (checked_int64 (gross_cash - sn_signed_fee snapshot)) (\<lambda>cash_reconciliation.
     if cash_reconciliation \<noteq> sn_cash snapshot \<or> decomposition \<noteq> sn_marked_pnl snapshot
       then fail_code ERR_INVARIANT
     else Inr \<lparr>
       am_passive_fill_count = sn_passive_fill_count snapshot,
       am_passive_fill_quantity = sn_passive_fill_quantity snapshot,
       am_liquidation_count = sn_liquidation_count snapshot,
       am_liquidation_quantity = sn_liquidation_quantity snapshot,
       am_gross_cash = gross_cash,
       am_maker_fee = sn_maker_fee snapshot,
       am_taker_fee = sn_taker_fee snapshot,
       am_signed_fee = sn_signed_fee snapshot,
       am_fee_contribution = fee_contribution,
       am_cash = sn_cash snapshot,
       am_ending_inventory_by_symbol =
         map (\<lambda>s. (sy_symbol_id s, sy_inventory s)) (sn_symbols snapshot),
       am_max_abs_inventory_by_symbol =
         map (\<lambda>s. (sy_symbol_id s, sy_max_abs_inventory s)) (sn_symbols snapshot),
       am_marked_inventory_value = sn_marked_inventory_value snapshot,
       am_passive_spread_capture = sn_passive_spread_capture snapshot,
       am_inventory_mark_to_market = sn_inventory_mark_to_market snapshot,
       am_terminal_liquidation_slippage = sn_terminal_liquidation_slippage snapshot,
       am_marked_pnl = sn_marked_pnl snapshot,
       am_reconciled = True,
       am_settled = sn_settled snapshot\<rparr>))))"

section \<open>Temporal metrics\<close>

record temporal_metrics_row =
  tm_max_drawdown :: int
  tm_turnover :: int
  tm_adverse_selection_100ms :: "int option"
  tm_adverse_selection_observation_count :: int
  tm_adverse_selection_eligible_fill_count :: int
  tm_adverse_selection_coverage :: "(int \<times> int) option"

definition drawdown_step :: "int \<times> int \<Rightarrow> int \<Rightarrow> (int \<times> int) result" where
  "drawdown_step = (\<lambda>(peak, maximum_drawdown) v.
     bindR (checked_int64 v) (\<lambda>checked.
     let peak' = max peak checked in
     bindR (checked_int64 (peak' - checked)) (\<lambda>drawdown.
     Inr (peak', max maximum_drawdown drawdown))))"

definition turnover_step :: "int \<Rightarrow> int \<Rightarrow> int result" where
  "turnover_step turnover v = (if v < 0 then fail_code ERR_COST else checked_add turnover v)"

definition temporal_metrics ::
  "int list \<Rightarrow> int list \<Rightarrow> int option list \<Rightarrow> temporal_metrics_row result" where
  "temporal_metrics equity notionals adverse =
     bindR (foldR drawdown_step (0, 0) equity) (\<lambda>(peak, maximum_drawdown).
     bindR (foldR turnover_step 0 notionals) (\<lambda>turnover.
     let observed = List.map_filter id adverse; eligible = int (length adverse) in
     bindR (if observed = [] then Inr None
            else bindR (foldR checked_add 0 observed) (\<lambda>v. Inr (Some v))) (\<lambda>adverse_total.
     Inr \<lparr>tm_max_drawdown = maximum_drawdown, tm_turnover = turnover,
          tm_adverse_selection_100ms = adverse_total,
          tm_adverse_selection_observation_count = int (length observed),
          tm_adverse_selection_eligible_fill_count = eligible,
          tm_adverse_selection_coverage =
            (if eligible = 0 then None else Some (int (length observed), eligible))\<rparr>)))"

section \<open>Properties\<close>

lemma foldR_checked_add: "foldR checked_add a vs = foldR (\<lambda>acc v. checked_int64 (acc + v)) a vs"
  by (induction vs arbitrary: a) (simp_all add: checked_add_def)

lemma foldR_checked_add_Inr: "foldR checked_add 0 vs = Inr s \<Longrightarrow> s = sum_list vs"
  using checked_sum_int64_Inr [of vs s] by (simp add: foldR_checked_add checked_sum_int64_def)

text \<open>
  The second verification never disagrees with the first: for every snapshot that a ledger
  reached by calls returns, \<open>accounting_metrics\<close> returns a summary, and it repeats the
  snapshot's cash, profit and per-symbol inventories.
\<close>
theorem accounting_metrics_reconcile:
  assumes "reached_ledger rate limit cs L" "ledger_snapshot L = Inr s"
  shows "\<exists>row. accounting_metrics s = Inr row \<and> am_reconciled row
    \<and> am_gross_cash row - am_signed_fee row = am_cash row \<and> am_cash row = sn_cash s
    \<and> am_marked_pnl row = am_cash row + am_marked_inventory_value row
    \<and> am_marked_pnl row = am_passive_spread_capture row + am_inventory_mark_to_market row
        + am_terminal_liquidation_slippage row + am_fee_contribution row
    \<and> am_ending_inventory_by_symbol row
        = map (\<lambda>k. (k, dict_get_default (al_positions L) k 0)) (ledger_symbols L)"
proof -
  note r = ledger_snapshot_Inr [OF assms(2) ledger_invD(1) [OF reached_ledger_inv [OF assms(1)]]]
  have f3: "foldR checked_add 0 [sn_passive_spread_capture s, sn_inventory_mark_to_market s,
      sn_terminal_liquidation_slippage s, - sn_signed_fee s] = Inr (sn_marked_pnl s)"
    using r(14) by (simp only: foldR_checked_add checked_sum_int64_def)
  have f1: "checked_int64 (sn_gross_passive_cash s + sn_gross_liquidation_cash s)
      = Inr (sn_gross_passive_cash s + sn_gross_liquidation_cash s)"
    and f2: "checked_int64 (- sn_signed_fee s) = Inr (- sn_signed_fee s)"
    and f4: "checked_int64 (sn_gross_passive_cash s + sn_gross_liquidation_cash s - sn_signed_fee s)
      = Inr (sn_cash s)"
    using r(3,4,7,8,11-13) by simp_all
  show ?thesis
    unfolding accounting_metrics_def f1 f2 bindR_Inr f3 f4
    using r(1,3-8) by (simp add: symbol_row_def comp_def)
qed

theorem accounting_metrics_reconcile_witness:
  "\<exists>row. accounting_metrics (projr (ledger_snapshot sample_before)) = Inr row \<and> am_reconciled row"
proof -
  have "succeeded (ledger_snapshot sample_before, ())" by code_simp
  then have "ledger_snapshot sample_before = Inr (projr (ledger_snapshot sample_before))"
    by (cases "ledger_snapshot sample_before") (simp_all add: succeeded_def)
  from accounting_metrics_reconcile [OF sample_reached this] show ?thesis by blast
qed

text \<open>The peaks before and at each point, which start at zero.\<close>

definition is_max_drawdown :: "int list \<Rightarrow> int \<Rightarrow> bool" where
  "is_max_drawdown equity d \<longleftrightarrow>
     (\<forall>j<length equity. \<forall>p\<in>insert 0 (set (take (Suc j) equity)). p - equity ! j \<le> d)
   \<and> (d = 0 \<or> (\<exists>j<length equity. \<exists>p\<in>insert 0 (set (take (Suc j) equity)). d = p - equity ! j))"

definition drawdown_inv :: "int list \<Rightarrow> int \<times> int \<Rightarrow> bool" where
  "drawdown_inv ys st \<longleftrightarrow> fst st \<in> insert 0 (set ys) \<and> (\<forall>y\<in>insert 0 (set ys). y \<le> fst st)
     \<and> 0 \<le> snd st \<and> is_max_drawdown ys (snd st)"

lemma drawdown_inv_step:
  assumes "drawdown_inv ys st" "drawdown_step st x = Inr st'"
  shows "drawdown_inv (ys @ [x]) st'"
proof -
  obtain peak dd where st: "st = (peak, dd)" by (cases st)
  from assms(2) have st': "st' = (max peak x, max dd (max peak x - x))"
    by (auto simp: st drawdown_step_def bindR_eq_Inr Let_def)
  from assms(1) have pk: "peak \<in> insert 0 (set ys)" "\<And>y. y \<in> insert 0 (set ys) \<Longrightarrow> y \<le> peak"
    and dd: "0 \<le> dd" and up: "\<And>j p. j < length ys \<Longrightarrow> p \<in> insert 0 (set (take (Suc j) ys)) \<Longrightarrow> p - ys ! j \<le> dd"
    and at: "dd = 0 \<or> (\<exists>j<length ys. \<exists>p\<in>insert 0 (set (take (Suc j) ys)). dd = p - ys ! j)"
    by (auto simp: drawdown_inv_def st is_max_drawdown_def)
  let ?d = "max peak x - x"
  have upper: "p - (ys @ [x]) ! j \<le> max dd ?d"
    if "j < length (ys @ [x])" "p \<in> insert 0 (set (take (Suc j) (ys @ [x])))" for j p
  proof (cases "j < length ys")
    case True
    with that have "p - ys ! j \<le> dd" by (intro up) simp_all
    with True show ?thesis by (simp add: nth_append)
  next
    case False
    with that have "j = length ys" by simp
    with that have "p \<le> max peak x" using pk(2) [of p] by auto
    with \<open>j = length ys\<close> show ?thesis by simp
  qed
  have attained: "max dd ?d = 0 \<or> (\<exists>j<length (ys @ [x]). \<exists>p\<in>insert 0 (set (take (Suc j) (ys @ [x]))).
      max dd ?d = p - (ys @ [x]) ! j)"
  proof (cases "?d \<le> dd")
    case True
    show ?thesis
    proof (cases "dd = 0")
      case False
      with at obtain j p where j: "j < length ys" "p \<in> insert 0 (set (take (Suc j) ys))" "dd = p - ys ! j"
        by blast
      then have "p \<in> insert 0 (set (take (Suc j) (ys @ [x])))" "dd = p - (ys @ [x]) ! j"
        by (simp_all add: nth_append)
      with j True show ?thesis by (intro disjI2 exI [of _ j]) auto
    qed (use True in simp)
  next
    case False
    have "max peak x \<in> insert 0 (set (take (Suc (length ys)) (ys @ [x])))"
      using pk(1) by (auto simp: max_def)
    with False show ?thesis
      by (intro disjI2 exI [of _ "length ys"]) (auto simp: nth_append intro!: bexI [of _ "max peak x"])
  qed
  have "max peak x \<in> insert 0 (set (ys @ [x]))" "\<And>y. y \<in> insert 0 (set (ys @ [x])) \<Longrightarrow> y \<le> max peak x"
    using pk by (auto simp: max_def intro: order_trans)
  then show ?thesis
    using dd upper attained by (simp add: drawdown_inv_def st' is_max_drawdown_def)
qed

text \<open>
  The temporal metrics are what they are named after: the drawdown is the largest fall of
  the equity curve from any earlier peak (the starting zero included), turnover and adverse
  selection are plain sums, and the counts are those of the observed and of all values.
\<close>
theorem temporal_metrics_exact:
  assumes "temporal_metrics equity notionals adverse = Inr row"
  shows "is_max_drawdown equity (tm_max_drawdown row)
    \<and> tm_turnover row = sum_list notionals \<and> (\<forall>v\<in>set notionals. 0 \<le> v)
    \<and> tm_adverse_selection_100ms row = (if \<forall>a\<in>set adverse. a = None then None
         else Some (sum_list (map the (filter (\<lambda>a. a \<noteq> None) adverse))))
    \<and> tm_adverse_selection_observation_count row = int (length (filter (\<lambda>a. a \<noteq> None) adverse))
    \<and> tm_adverse_selection_eligible_fill_count row = int (length adverse)"
proof -
  have obs: "List.map_filter id adverse = map the (filter (\<lambda>a. a \<noteq> None) adverse)"
    by (simp add: map_filter_def)
  have nil: "List.map_filter id adverse = [] \<longleftrightarrow> (\<forall>a\<in>set adverse. a = None)"
    by (auto simp: obs filter_empty_conv)
  from assms obtain peak where d: "foldR drawdown_step (0, 0) equity = Inr (peak, tm_max_drawdown row)"
    and t: "foldR turnover_step 0 notionals = Inr (tm_turnover row)"
    and a: "(if List.map_filter id adverse = [] then Inr None
       else bindR (foldR checked_add 0 (List.map_filter id adverse)) (\<lambda>v. Inr (Some v)))
         = Inr (tm_adverse_selection_100ms row)"
    and n: "tm_adverse_selection_observation_count row = int (length (List.map_filter id adverse))"
      "tm_adverse_selection_eligible_fill_count row = int (length adverse)"
    by (auto simp: temporal_metrics_def bindR_eq_Inr Let_def split: prod.splits)
  have "drawdown_inv equity (peak, tm_max_drawdown row)"
  proof (rule foldR_prefix [OF d, where I = drawdown_inv])
    show "drawdown_inv [] (0, 0)" by (simp add: drawdown_inv_def is_max_drawdown_def)
  qed (rule drawdown_inv_step)
  moreover have turnover: "tm_turnover row = b + sum_list notionals \<and> (\<forall>v\<in>set notionals. 0 \<le> v)"
    if "foldR turnover_step b notionals = Inr (tm_turnover row)" for b
    using that by (induction notionals arbitrary: b)
      (fastforce simp: bindR_eq_Inr turnover_step_def checked_add_def fail_defs split: if_splits)+
  moreover have "tm_adverse_selection_100ms row = (if \<forall>a\<in>set adverse. a = None then None
         else Some (sum_list (map the (filter (\<lambda>a. a \<noteq> None) adverse))))"
    using a unfolding nil obs by (auto simp: bindR_eq_Inr filter_empty_conv dest: foldR_checked_add_Inr split: if_splits)
  ultimately show ?thesis using turnover [OF t] n by (simp add: drawdown_inv_def obs)
qed

theorem temporal_metrics_exact_witness:
  "is_max_drawdown [5, 20, -7, 12, 30, 9] 27"
proof -
  have "temporal_metrics [5, 20, -7, 12, 30, 9] [100, 250] [Some 3, None, Some (-5)] = Inr
      \<lparr>tm_max_drawdown = 27, tm_turnover = 350, tm_adverse_selection_100ms = Some (-2),
       tm_adverse_selection_observation_count = 2, tm_adverse_selection_eligible_fill_count = 3,
       tm_adverse_selection_coverage = Some (2, 3)\<rparr>"
    by code_simp
  from temporal_metrics_exact [OF this] show ?thesis by simp
qed

end
