(* ===== verification/Interchange_Codec.thy ===== *)
theory Interchange_Codec
  imports Market_Events "HOL-Library.Word"
begin

unbundle bit_operations_syntax

text \<open>
  \<open>interchange/models.py\<close> and the decoders of \<open>interchange/readers.py\<close>: the fixed little-endian
  record layouts of event-v1 and snapshot-v1 files and the checks a record has to pass.

  Bytes are 8-bit words and flag fields are words of their width, so that masks are the bitwise
  operations of the source; the other fields become unbounded integers, as \<open>struct\<close> returns
  them.
\<close>

section \<open>Bytes\<close>

type_synonym bytes = "8 word list"

text \<open>\<open>InterchangeReadError\<close>, and the exception of \<open>struct\<close> for input of the wrong size.\<close>

datatype read_error = Read_Error error_code "nat option" | Struct_Error

type_synonym 'a read = "read_error + 'a"

definition read_fail :: "error_code \<Rightarrow> 'a read" where
  "read_fail c = Inl (Read_Error c None)"

definition record_fail :: "error_code \<Rightarrow> nat \<Rightarrow> 'a read" where
  "record_fail c i = Inl (Read_Error c (Some i))"

fun le_value :: "bytes \<Rightarrow> int" where
  "le_value [] = 0"
| "le_value (b # bs) = uint b + 256 * le_value bs"

fun le_bytes :: "nat \<Rightarrow> int \<Rightarrow> bytes" where
  "le_bytes 0 v = []"
| "le_bytes (Suc n) v = word_of_int v # le_bytes n (v div 256)"

definition field :: "nat \<Rightarrow> nat \<Rightarrow> bytes \<Rightarrow> bytes" where
  "field offset n bs = take n (drop offset bs)"

definition byte_char :: "8 word \<Rightarrow> char" where
  "byte_char b = char_of (uint b)"

definition char_byte :: "char \<Rightarrow> 8 word" where
  "char_byte c = word_of_int (of_char c)"

text \<open>\<open>byte < 0x20 or byte > 0x7E\<close>, and \<open>rstrip\<close> of one character.\<close>

definition unprintable :: "8 word \<Rightarrow> bool" where
  "unprintable b \<longleftrightarrow> uint b < 32 \<or> uint b > 126"

definition rstrip :: "'a \<Rightarrow> 'a list \<Rightarrow> 'a list" where
  "rstrip c xs = rev (dropWhile (\<lambda>x. x = c) (rev xs))"

section \<open>Values\<close>

datatype interchange_kind = EVENTS | SNAPSHOTS

datatype trading_state =
  UNKNOWN | PREOPEN | TRADING | HALTED | PAUSED | QUOTATION_ONLY | CLOSED

record symbol_entry =
  se_symbol_id :: int
  se_stock_locate :: int
  se_symbol :: string
  se_round_lot_size :: int

text \<open>A \<open>datetime.date\<close> is its year, month and day.\<close>

type_synonym date = "int \<times> int \<times> int"

record interchange_metadata =
  md_kind :: interchange_kind
  md_schema_version :: int
  md_record_size :: nat
  md_depth :: nat
  md_price_scale :: int
  md_trading_date :: date
  md_degraded :: bool
  md_record_count :: nat
  md_config_sha256 :: string
  md_source_sha256 :: string
  md_file_sha256 :: string
  md_symbols :: "symbol_entry list"

record event_record =
  er_trading_date :: date
  er_message_index :: int
  er_timestamp_ns :: int
  er_symbol_id :: int
  er_event_kind :: event_kind
  er_source_type :: char
  er_primary_reference :: "int option"
  er_secondary_reference :: "int option"
  er_side :: "int option"
  er_price4 :: "int option"
  er_quantity :: "int option"
  er_remaining_quantity :: "int option"
  er_execution_price4 :: "int option"
  er_aux_code :: "string option"
  er_event_subtype :: "char option"
  er_in_session :: bool
  er_flags :: "16 word"

record snapshot_depth_level =
  dl_bid_price4 :: "int option"
  dl_bid_quantity :: "int option"
  dl_ask_price4 :: "int option"
  dl_ask_quantity :: "int option"

record snapshot_record =
  sr_trading_date :: date
  sr_message_index :: int
  sr_timestamp_ns :: int
  sr_symbol_id :: int
  sr_event_kind :: event_kind
  sr_event_price4 :: "int option"
  sr_event_quantity :: "int option"
  sr_last_trade_price4 :: "int option"
  sr_last_trade_quantity :: "int option"
  sr_top_n_changed :: bool
  sr_trading_state :: trading_state
  sr_levels :: "snapshot_depth_level list"
  sr_flags :: "8 word"

record ordering_state =
  os_message_index :: "int option"
  os_timestamp_ns :: "int option"

definition DAY_NS :: int where "DAY_NS = 86400000000000"
definition EVENT_RECORD_SIZE :: nat where "EVENT_RECORD_SIZE = 72"
definition SNAPSHOT_FIXED_SIZE :: nat where "SNAPSHOT_FIXED_SIZE = 48"
definition SNAPSHOT_DEPTH_SIZE :: nat where "SNAPSHOT_DEPTH_SIZE = 28"

section \<open>Codes\<close>

definition event_kind_by_code :: "8 word \<Rightarrow> event_kind option" where
  "event_kind_by_code c = map_of [(1, ADD), (2, EXECUTE), (3, EXECUTE_PRICE), (4, CANCEL_EVENT),
     (5, DELETE), (6, REPLACE), (7, TRADE), (8, CROSS), (9, BROKEN_TRADE), (10, TRADING_STATE)] c"

fun source_types_by_kind :: "event_kind \<Rightarrow> string" where
  "source_types_by_kind ADD = ''AF''"
| "source_types_by_kind EXECUTE = ''E''"
| "source_types_by_kind EXECUTE_PRICE = ''C''"
| "source_types_by_kind CANCEL_EVENT = ''X''"
| "source_types_by_kind DELETE = ''D''"
| "source_types_by_kind REPLACE = ''U''"
| "source_types_by_kind TRADE = ''P''"
| "source_types_by_kind CROSS = ''Q''"
| "source_types_by_kind BROKEN_TRADE = ''B''"
| "source_types_by_kind TRADING_STATE = ''H''"

definition trading_state_by_code :: "8 word \<Rightarrow> trading_state option" where
  "trading_state_by_code c = map_of [(0, UNKNOWN), (1, PREOPEN), (2, TRADING), (3, HALTED),
     (4, PAUSED), (5, QUOTATION_ONLY), (6, CLOSED)] c"

text \<open>The flag masks of an event record.\<close>

definition F_PRIMARY :: "16 word" where "F_PRIMARY = 1"
definition F_SECONDARY :: "16 word" where "F_SECONDARY = 2"
definition F_SIDE :: "16 word" where "F_SIDE = 4"
definition F_PRICE :: "16 word" where "F_PRICE = 8"
definition F_QUANTITY :: "16 word" where "F_QUANTITY = 16"
definition F_REMAINING :: "16 word" where "F_REMAINING = 32"
definition F_EXECUTION_PRICE :: "16 word" where "F_EXECUTION_PRICE = 64"
definition F_AUXILIARY :: "16 word" where "F_AUXILIARY = 128"
definition F_SUBTYPE :: "16 word" where "F_SUBTYPE = 256"
definition F_IN_SESSION :: "16 word" where "F_IN_SESSION = 512"
definition EVENT_ALLOWED_FLAGS :: "16 word" where "EVENT_ALLOWED_FLAGS = 1023"

lemmas flag_defs = F_PRIMARY_def F_SECONDARY_def F_SIDE_def F_PRICE_def F_QUANTITY_def
  F_REMAINING_def F_EXECUTION_PRICE_def F_AUXILIARY_def F_SUBTYPE_def F_IN_SESSION_def

fun required_event_flags :: "event_kind \<Rightarrow> char \<Rightarrow> 16 word" where
  "required_event_flags ADD source_type =
     F_PRIMARY OR F_SIDE OR F_PRICE OR F_QUANTITY OR F_REMAINING
       OR (if source_type = CHR ''F'' then F_AUXILIARY else 0)"
| "required_event_flags EXECUTE source_type =
     F_PRIMARY OR F_SECONDARY OR F_SIDE OR F_PRICE OR F_QUANTITY OR F_REMAINING"
| "required_event_flags EXECUTE_PRICE source_type =
     F_PRIMARY OR F_SECONDARY OR F_SIDE OR F_PRICE OR F_QUANTITY OR F_REMAINING
       OR F_EXECUTION_PRICE"
| "required_event_flags CANCEL_EVENT source_type =
     F_PRIMARY OR F_SIDE OR F_PRICE OR F_QUANTITY OR F_REMAINING"
| "required_event_flags DELETE source_type =
     F_PRIMARY OR F_SIDE OR F_PRICE OR F_QUANTITY OR F_REMAINING"
| "required_event_flags REPLACE source_type =
     F_PRIMARY OR F_SECONDARY OR F_SIDE OR F_PRICE OR F_QUANTITY OR F_REMAINING"
| "required_event_flags TRADE source_type =
     F_PRIMARY OR F_SECONDARY OR F_SIDE OR F_PRICE OR F_QUANTITY"
| "required_event_flags CROSS source_type = F_SECONDARY OR F_PRICE OR F_QUANTITY OR F_SUBTYPE"
| "required_event_flags BROKEN_TRADE source_type = F_PRIMARY"
| "required_event_flags TRADING_STATE source_type = F_SUBTYPE"

section \<open>Events\<close>

definition validate_ordering ::
  "int \<Rightarrow> int \<Rightarrow> int \<Rightarrow> interchange_metadata \<Rightarrow> ordering_state \<Rightarrow> nat \<Rightarrow> unit read" where
  "validate_ordering msg_index timestamp_ns symbol_id metadata prior record_index =
     (if symbol_id = 0 \<or> symbol_id > int (length (md_symbols metadata)) \<or> timestamp_ns \<ge> DAY_NS
         \<or> (case os_message_index prior of None \<Rightarrow> False | Some p \<Rightarrow> msg_index \<le> p)
         \<or> (case os_timestamp_ns prior of None \<Rightarrow> False | Some p \<Rightarrow> timestamp_ns < p)
      then record_fail ERR_INVARIANT record_index else Inr ())"

text \<open>The tuple that \<open>_EVENT.unpack\<close> returns, for the layout \<open><QQQQQIIIHBbcHB4sB7s\<close>.\<close>

record raw_event =
  re_message_index :: int
  re_timestamp_ns :: int
  re_primary_reference :: int
  re_secondary_reference :: int
  re_quantity :: int
  re_price4 :: int
  re_remaining_quantity :: int
  re_execution_price4 :: int
  re_symbol_id :: int
  re_kind_code :: "8 word"
  re_side :: int
  re_source_type :: "8 word"
  re_flags :: "16 word"
  re_reserved :: "8 word"
  re_auxiliary :: bytes
  re_subtype :: "8 word"
  re_reserved_tail :: bytes

definition unpack_event :: "bytes \<Rightarrow> raw_event read" where
  "unpack_event bs = (if length bs \<noteq> EVENT_RECORD_SIZE then Inl Struct_Error else Inr \<lparr>
     re_message_index = le_value (field 0 8 bs),
     re_timestamp_ns = le_value (field 8 8 bs),
     re_primary_reference = le_value (field 16 8 bs),
     re_secondary_reference = le_value (field 24 8 bs),
     re_quantity = le_value (field 32 8 bs),
     re_price4 = le_value (field 40 4 bs),
     re_remaining_quantity = le_value (field 44 4 bs),
     re_execution_price4 = le_value (field 48 4 bs),
     re_symbol_id = le_value (field 52 2 bs),
     re_kind_code = bs ! 54,
     re_side = sint (bs ! 55),
     re_source_type = bs ! 56,
     re_flags = word_of_int (le_value (field 57 2 bs)),
     re_reserved = bs ! 59,
     re_auxiliary = field 60 4 bs,
     re_subtype = bs ! 64,
     re_reserved_tail = field 65 7 bs\<rparr>)"

definition flag_set :: "'a::len word \<Rightarrow> 'a word \<Rightarrow> bool" where
  "flag_set flags m \<longleftrightarrow> flags AND m \<noteq> 0"

definition flagged :: "16 word \<Rightarrow> 16 word \<Rightarrow> 'a \<Rightarrow> 'a option" where
  "flagged flags m v = (if flag_set flags m then Some v else None)"

text \<open>The validity flags and reserved bytes, and the canonical zero of an absent field.\<close>

definition event_flags_bad :: "event_kind \<Rightarrow> char \<Rightarrow> raw_event \<Rightarrow> bool" where
  "event_flags_bad kind source_type raw = (
     let flags = re_flags raw;
         required_flags = required_event_flags kind source_type;
         optional_flags = F_IN_SESSION OR (if kind = TRADING_STATE then F_AUXILIARY else 0) in
     flag_set flags (NOT EVENT_ALLOWED_FLAGS)
     \<or> flags AND required_flags \<noteq> required_flags
     \<or> flag_set flags (NOT (required_flags OR optional_flags))
     \<or> re_reserved raw \<noteq> 0
     \<or> re_reserved_tail raw \<noteq> replicate 7 0)"

definition event_absent_bad :: "raw_event \<Rightarrow> bool" where
  "event_absent_bad raw = (
     let absent = (\<lambda>m v. \<not> flag_set (re_flags raw) m \<and> v \<noteq> 0) in
     absent F_PRIMARY (re_primary_reference raw) \<or> absent F_SECONDARY (re_secondary_reference raw)
     \<or> absent F_QUANTITY (re_quantity raw) \<or> absent F_PRICE (re_price4 raw)
     \<or> absent F_REMAINING (re_remaining_quantity raw)
     \<or> absent F_EXECUTION_PRICE (re_execution_price4 raw) \<or> absent F_SIDE (re_side raw)
     \<or> absent F_SUBTYPE (uint (re_subtype raw))
     \<or> \<not> flag_set (re_flags raw) F_AUXILIARY \<and> re_auxiliary raw \<noteq> replicate 4 0)"

text \<open>The side and quantity checks, each raising its own code.\<close>

definition check_event_values :: "event_kind \<Rightarrow> raw_event \<Rightarrow> nat \<Rightarrow> unit read" where
  "check_event_values kind raw record_index = (
     let flags = re_flags raw; side = re_side raw in
     bindR (require (\<not> (flag_set flags F_SIDE \<and> side \<noteq> -1 \<and> side \<noteq> 1
                        \<or> \<not> flag_set flags F_SIDE \<and> side \<noteq> 0))
              (record_fail ERR_INVARIANT record_index)) (\<lambda>_.
     bindR (require (\<not> (flag_set flags F_QUANTITY \<and> re_quantity raw = 0))
              (record_fail ERR_QUANTITY record_index)) (\<lambda>_.
     bindR (require (kind = ADD \<longrightarrow> re_remaining_quantity raw = re_quantity raw)
              (record_fail ERR_QUANTITY record_index)) (\<lambda>_.
     bindR (require (kind = DELETE \<longrightarrow> re_remaining_quantity raw = 0)
              (record_fail ERR_QUANTITY record_index)) (\<lambda>_.
     require (kind = REPLACE \<longrightarrow> re_remaining_quantity raw = re_quantity raw)
       (record_fail ERR_QUANTITY record_index))))))"

definition decode_auxiliary :: "raw_event \<Rightarrow> nat \<Rightarrow> string option read" where
  "decode_auxiliary raw record_index =
     (if \<not> flag_set (re_flags raw) F_AUXILIARY then Inr None
      else if list_ex unprintable (re_auxiliary raw) then record_fail ERR_INVARIANT record_index
      else Inr (Some (rstrip CHR '' '' (map byte_char (re_auxiliary raw)))))"

definition decode_subtype :: "event_kind \<Rightarrow> raw_event \<Rightarrow> nat \<Rightarrow> char option read" where
  "decode_subtype kind raw record_index =
     (if \<not> flag_set (re_flags raw) F_SUBTYPE then Inr None
      else if uint (re_subtype raw) > 127
            \<or> kind = TRADING_STATE \<and> byte_char (re_subtype raw) \<notin> set ''HPQT''
        then record_fail ERR_INVARIANT record_index
      else Inr (Some (byte_char (re_subtype raw))))"

definition event_of_raw ::
  "interchange_metadata \<Rightarrow> event_kind \<Rightarrow> raw_event \<Rightarrow> string option \<Rightarrow> char option \<Rightarrow> event_record" where
  "event_of_raw metadata kind raw auxiliary event_subtype = (
     let flags = re_flags raw in \<lparr>
       er_trading_date = md_trading_date metadata,
       er_message_index = re_message_index raw,
       er_timestamp_ns = re_timestamp_ns raw,
       er_symbol_id = re_symbol_id raw,
       er_event_kind = kind,
       er_source_type = byte_char (re_source_type raw),
       er_primary_reference = flagged flags F_PRIMARY (re_primary_reference raw),
       er_secondary_reference = flagged flags F_SECONDARY (re_secondary_reference raw),
       er_side = flagged flags F_SIDE (re_side raw),
       er_price4 = flagged flags F_PRICE (re_price4 raw),
       er_quantity = flagged flags F_QUANTITY (re_quantity raw),
       er_remaining_quantity = flagged flags F_REMAINING (re_remaining_quantity raw),
       er_execution_price4 = flagged flags F_EXECUTION_PRICE (re_execution_price4 raw),
       er_aux_code = auxiliary,
       er_event_subtype = event_subtype,
       er_in_session = flag_set flags F_IN_SESSION,
       er_flags = flags\<rparr>)"

definition advance_ordering :: "int \<Rightarrow> int \<Rightarrow> ordering_state" where
  "advance_ordering msg_index timestamp_ns =
     \<lparr>os_message_index = Some msg_index, os_timestamp_ns = Some timestamp_ns\<rparr>"

text \<open>
  \<open>_decode_event\<close> updates the ordering state it is given only when it returns; the model
  returns the record and the state after it.
\<close>

definition decode_event ::
  "bytes \<Rightarrow> interchange_metadata \<Rightarrow> ordering_state \<Rightarrow> nat \<Rightarrow> (event_record \<times> ordering_state) read" where
  "decode_event encoded metadata prior record_index =
     bindR (unpack_event encoded) (\<lambda>raw.
     let source_type = byte_char (re_source_type raw) in
     case event_kind_by_code (re_kind_code raw) of
       None \<Rightarrow> record_fail ERR_INVARIANT record_index
     | Some kind \<Rightarrow>
     bindR (require (source_type \<in> set (source_types_by_kind kind))
              (record_fail ERR_INVARIANT record_index)) (\<lambda>_.
     bindR (require (\<not> event_flags_bad kind source_type raw)
              (record_fail ERR_INVARIANT record_index)) (\<lambda>_.
     bindR (require (\<not> event_absent_bad raw) (record_fail ERR_INVARIANT record_index)) (\<lambda>_.
     bindR (check_event_values kind raw record_index) (\<lambda>_.
     bindR (decode_auxiliary raw record_index) (\<lambda>auxiliary.
     bindR (decode_subtype kind raw record_index) (\<lambda>event_subtype.
     bindR (validate_ordering (re_message_index raw) (re_timestamp_ns raw) (re_symbol_id raw)
              metadata prior record_index) (\<lambda>_.
     Inr (event_of_raw metadata kind raw auxiliary event_subtype,
          advance_ordering (re_message_index raw) (re_timestamp_ns raw))))))))))"

section \<open>Snapshots\<close>

definition S_TRIGGER_PRICE :: "8 word" where "S_TRIGGER_PRICE = 1"
definition S_TRIGGER_QUANTITY :: "8 word" where "S_TRIGGER_QUANTITY = 2"
definition S_LAST_TRADE :: "8 word" where "S_LAST_TRADE = 4"
definition S_TOP_CHANGED :: "8 word" where "S_TOP_CHANGED = 64"

text \<open>The prefix \<open><QQHBBIQI4sQ\<close> and one depth level \<open><BB2sIQIQ\<close>.\<close>

record raw_snapshot =
  rs_message_index :: int
  rs_timestamp_ns :: int
  rs_symbol_id :: int
  rs_kind_code :: "8 word"
  rs_flags :: "8 word"
  rs_trigger_price :: int
  rs_trigger_quantity :: int
  rs_last_trade_price :: int
  rs_reserved :: bytes
  rs_last_trade_quantity :: int

definition unpack_snapshot :: "bytes \<Rightarrow> raw_snapshot read" where
  "unpack_snapshot bs = (if length bs < SNAPSHOT_FIXED_SIZE then Inl Struct_Error else Inr \<lparr>
     rs_message_index = le_value (field 0 8 bs),
     rs_timestamp_ns = le_value (field 8 8 bs),
     rs_symbol_id = le_value (field 16 2 bs),
     rs_kind_code = bs ! 18,
     rs_flags = bs ! 19,
     rs_trigger_price = le_value (field 20 4 bs),
     rs_trigger_quantity = le_value (field 24 8 bs),
     rs_last_trade_price = le_value (field 32 4 bs),
     rs_reserved = field 36 4 bs,
     rs_last_trade_quantity = le_value (field 40 8 bs)\<rparr>)"

record raw_level =
  rl_bid_valid :: "8 word"
  rl_ask_valid :: "8 word"
  rl_reserved :: bytes
  rl_bid_price :: int
  rl_bid_quantity :: int
  rl_ask_price :: int
  rl_ask_quantity :: int

definition unpack_level :: "bytes \<Rightarrow> nat \<Rightarrow> raw_level read" where
  "unpack_level bs offset = (if length bs < offset + SNAPSHOT_DEPTH_SIZE then Inl Struct_Error else Inr \<lparr>
     rl_bid_valid = bs ! offset,
     rl_ask_valid = bs ! (offset + 1),
     rl_reserved = field (offset + 2) 2 bs,
     rl_bid_price = le_value (field (offset + 4) 4 bs),
     rl_bid_quantity = le_value (field (offset + 8) 8 bs),
     rl_ask_price = le_value (field (offset + 16) 4 bs),
     rl_ask_quantity = le_value (field (offset + 20) 8 bs)\<rparr>)"

definition snapshot_prefix_bad :: "raw_snapshot \<Rightarrow> bool" where
  "snapshot_prefix_bad raw = (
     let flags = rs_flags raw in
     \<not> flag_set flags S_TRIGGER_PRICE \<and> rs_trigger_price raw \<noteq> 0
     \<or> \<not> flag_set flags S_TRIGGER_QUANTITY \<and> rs_trigger_quantity raw \<noteq> 0
     \<or> flag_set flags S_TRIGGER_QUANTITY \<and> rs_trigger_quantity raw = 0
     \<or> \<not> flag_set flags S_LAST_TRADE
        \<and> (rs_last_trade_price raw \<noteq> 0 \<or> rs_last_trade_quantity raw \<noteq> 0)
     \<or> flag_set flags S_LAST_TRADE \<and> rs_last_trade_quantity raw = 0)"

fun book_mutation :: "event_kind \<Rightarrow> bool" where
  "book_mutation kind \<longleftrightarrow> kind \<in> {ADD, EXECUTE, EXECUTE_PRICE, CANCEL_EVENT, DELETE, REPLACE}"

definition snapshot_trigger_bad :: "event_kind \<Rightarrow> 8 word \<Rightarrow> bool" where
  "snapshot_trigger_bad kind flags = (
     let both_trigger_fields = S_TRIGGER_PRICE OR S_TRIGGER_QUANTITY;
         trigger_fields = flags AND both_trigger_fields;
         top_changed = flag_set flags S_TOP_CHANGED in
     book_mutation kind \<and> (trigger_fields \<noteq> both_trigger_fields \<or> \<not> top_changed)
     \<or> kind \<in> {TRADE, CROSS} \<and> (trigger_fields \<noteq> both_trigger_fields \<or> top_changed)
     \<or> kind = TRADING_STATE \<and> (trigger_fields \<noteq> 0 \<or> top_changed)
     \<or> kind = BROKEN_TRADE)"

text \<open>The loop over the depth levels: the gaps and previous prices it carries.\<close>

record depth_locals =
  dp_bid_gap :: bool
  dp_ask_gap :: bool
  dp_previous_bid :: "int option"
  dp_previous_ask :: "int option"

definition level_bad :: "depth_locals \<Rightarrow> raw_level \<Rightarrow> bool" where
  "level_bad v raw \<longleftrightarrow>
     rl_bid_valid raw = 0 \<and> (rl_bid_price raw \<noteq> 0 \<or> rl_bid_quantity raw \<noteq> 0)
   \<or> rl_ask_valid raw = 0 \<and> (rl_ask_price raw \<noteq> 0 \<or> rl_ask_quantity raw \<noteq> 0)
   \<or> rl_bid_valid raw = 1 \<and> (rl_bid_quantity raw = 0 \<or> dp_bid_gap v
       \<or> (case dp_previous_bid v of None \<Rightarrow> False | Some p \<Rightarrow> rl_bid_price raw \<ge> p))
   \<or> rl_ask_valid raw = 1 \<and> (rl_ask_quantity raw = 0 \<or> dp_ask_gap v
       \<or> (case dp_previous_ask v of None \<Rightarrow> False | Some p \<Rightarrow> rl_ask_price raw \<le> p))"

definition next_depth :: "depth_locals \<Rightarrow> raw_level \<Rightarrow> depth_locals" where
  "next_depth v raw = \<lparr>
     dp_bid_gap = (if rl_bid_valid raw \<noteq> 0 then dp_bid_gap v else True),
     dp_ask_gap = (if rl_ask_valid raw \<noteq> 0 then dp_ask_gap v else True),
     dp_previous_bid = (if rl_bid_valid raw \<noteq> 0 then Some (rl_bid_price raw) else dp_previous_bid v),
     dp_previous_ask = (if rl_ask_valid raw \<noteq> 0 then Some (rl_ask_price raw) else dp_previous_ask v)\<rparr>"

definition level_of_raw :: "raw_level \<Rightarrow> snapshot_depth_level" where
  "level_of_raw raw = (
     let present = (\<lambda>valid v. if valid \<noteq> 0 then Some v else None) in \<lparr>
       dl_bid_price4 = present (rl_bid_valid raw) (rl_bid_price raw),
       dl_bid_quantity = present (rl_bid_valid raw) (rl_bid_quantity raw),
       dl_ask_price4 = present (rl_ask_valid raw) (rl_ask_price raw),
       dl_ask_quantity = present (rl_ask_valid raw) (rl_ask_quantity raw)\<rparr>)"

fun decode_levels ::
  "bytes \<Rightarrow> nat \<Rightarrow> nat list \<Rightarrow> depth_locals \<Rightarrow> snapshot_depth_level list read" where
  "decode_levels encoded record_index [] v = Inr []"
| "decode_levels encoded record_index (level_index # rest) v =
     bindR (unpack_level encoded (SNAPSHOT_FIXED_SIZE + level_index * SNAPSHOT_DEPTH_SIZE)) (\<lambda>raw.
     bindR (require (\<not> (uint (rl_bid_valid raw) > 1 \<or> uint (rl_ask_valid raw) > 1
                        \<or> rl_reserved raw \<noteq> replicate 2 0))
              (record_fail ERR_INVARIANT record_index)) (\<lambda>_.
     bindR (require (\<not> level_bad v raw) (record_fail ERR_INVARIANT record_index)) (\<lambda>_.
     bindR (decode_levels encoded record_index rest (next_depth v raw)) (\<lambda>levels.
     Inr (level_of_raw raw # levels)))))"

definition no_levels :: depth_locals where
  "no_levels = \<lparr>dp_bid_gap = False, dp_ask_gap = False, dp_previous_bid = None,
     dp_previous_ask = None\<rparr>"

definition sflagged :: "8 word \<Rightarrow> 8 word \<Rightarrow> 'a \<Rightarrow> 'a option" where
  "sflagged flags m v = (if flag_set flags m then Some v else None)"

definition decode_snapshot ::
  "bytes \<Rightarrow> interchange_metadata \<Rightarrow> ordering_state \<Rightarrow> nat
     \<Rightarrow> (snapshot_record \<times> ordering_state) read" where
  "decode_snapshot encoded metadata prior record_index =
     bindR (unpack_snapshot encoded) (\<lambda>raw.
     let flags = rs_flags raw in
     case event_kind_by_code (rs_kind_code raw) of
       None \<Rightarrow> record_fail ERR_INVARIANT record_index
     | Some kind \<Rightarrow>
     (case trading_state_by_code (drop_bit 3 flags AND 7) of
       None \<Rightarrow> record_fail ERR_INVARIANT record_index
     | Some trading_state \<Rightarrow>
     bindR (require (\<not> (flag_set flags 128 \<or> rs_reserved raw \<noteq> replicate 4 0))
              (record_fail ERR_INVARIANT record_index)) (\<lambda>_.
     bindR (validate_ordering (rs_message_index raw) (rs_timestamp_ns raw) (rs_symbol_id raw)
              metadata prior record_index) (\<lambda>_.
     bindR (require (\<not> snapshot_prefix_bad raw) (record_fail ERR_INVARIANT record_index)) (\<lambda>_.
     bindR (require (\<not> snapshot_trigger_bad kind flags) (record_fail ERR_INVARIANT record_index)) (\<lambda>_.
     bindR (decode_levels encoded record_index [0..<md_depth metadata] no_levels) (\<lambda>levels.
     Inr (\<lparr>sr_trading_date = md_trading_date metadata,
           sr_message_index = rs_message_index raw,
           sr_timestamp_ns = rs_timestamp_ns raw,
           sr_symbol_id = rs_symbol_id raw,
           sr_event_kind = kind,
           sr_event_price4 = sflagged flags S_TRIGGER_PRICE (rs_trigger_price raw),
           sr_event_quantity = sflagged flags S_TRIGGER_QUANTITY (rs_trigger_quantity raw),
           sr_last_trade_price4 = sflagged flags S_LAST_TRADE (rs_last_trade_price raw),
           sr_last_trade_quantity = sflagged flags S_LAST_TRADE (rs_last_trade_quantity raw),
           sr_top_n_changed = flag_set flags S_TOP_CHANGED,
           sr_trading_state = trading_state,
           sr_levels = levels,
           sr_flags = flags\<rparr>,
          advance_ordering (rs_message_index raw) (rs_timestamp_ns raw)))))))))"

end
