(* ===== verification/Interchange_Reader.thy ===== *)
theory Interchange_Reader
  imports Interchange_Codec
begin

text \<open>
  The file level of \<open>interchange/readers.py\<close>: arguments, header and symbol dictionary,
  authentication, and the chunked generators \<open>read_events\<close> and \<open>read_snapshots\<close>.

  What the operating system answers is an environment record: the status of the target, the
  bytes of the opened file, and for each recheck of the file's identity whether it still agrees.
  The digest \<open>sha256\<close> (lowercase hexadecimal) is a parameter. Reads and seeks of an open file
  do not fail otherwise; a read may be short.
\<close>

record artefact =
  af_name :: string
  af_parts :: "string list"
  af_target_regular :: "bool option"
  af_opens :: bool
  af_file_regular :: "bool option"
  af_content :: bytes
  af_unchanged :: "nat \<Rightarrow> bool"

definition EVENT_MAGIC :: bytes where
  "EVENT_MAGIC = map char_byte ''ITCHLE1'' @ [0]"

definition SNAPSHOT_MAGIC :: bytes where
  "SNAPSHOT_MAGIC = map char_byte ''ITCHLS1'' @ [0]"

definition SCHEMA_VERSION :: int where "SCHEMA_VERSION = 1"
definition HEADER_SIZE :: nat where "HEADER_SIZE = 104"
definition SYMBOL_SIZE :: nat where "SYMBOL_SIZE = 16"
definition PRICE_SCALE :: int where "PRICE_SCALE = 10000"
definition MAX_DEPTH :: nat where "MAX_DEPTH = 50"
definition MAX_BATCH_BYTES :: nat where "MAX_BATCH_BYTES = 4194304"

text \<open>\<open>bytes.hex\<close>.\<close>

definition hex_digit :: "nat \<Rightarrow> char" where
  "hex_digit n = ''0123456789abcdef'' ! n"

definition hex_string :: "bytes \<Rightarrow> string" where
  "hex_string bs = concat (map (\<lambda>b. [hex_digit (unat b div 16), hex_digit (unat b mod 16)]) bs)"

definition validate_reader_arguments :: "string \<Rightarrow> int \<Rightarrow> unit read" where
  "validate_reader_arguments expected_sha256 chunk_records =
     (if length expected_sha256 \<noteq> 64
         \<or> list_ex (\<lambda>c. c \<notin> set ''0123456789abcdef'') expected_sha256
      then read_fail ERR_HASH_MISMATCH
      else if chunk_records \<le> 0 then read_fail ERR_CONFIG_SCHEMA
      else Inr ())"

text \<open>\<open>_read_exact\<close>: the content and the rest of the stream.\<close>

definition read_exact :: "bytes \<Rightarrow> nat \<Rightarrow> (bytes \<times> bytes) read" where
  "read_exact stream n =
     (let content = take n stream in
      if length content \<noteq> n then read_fail ERR_PARTIAL_ARTEFACT else Inr (content, drop n stream))"

definition ensure_unchanged :: "artefact \<Rightarrow> nat \<Rightarrow> unit read" where
  "ensure_unchanged file recheck =
     (if af_unchanged file recheck then Inr () else read_fail ERR_HASH_MISMATCH)"

text \<open>The proleptic Gregorian calendar of \<open>datetime.date\<close>.\<close>

definition leap_year :: "int \<Rightarrow> bool" where
  "leap_year y \<longleftrightarrow> y mod 4 = 0 \<and> (y mod 100 \<noteq> 0 \<or> y mod 400 = 0)"

definition days_in_month :: "int \<Rightarrow> int \<Rightarrow> int" where
  "days_in_month y m =
     (if m = 2 then (if leap_year y then 29 else 28) else if m \<in> {4, 6, 9, 11} then 30 else 31)"

definition valid_date :: "date \<Rightarrow> bool" where
  "valid_date d = (case d of (y, m, dd) \<Rightarrow>
     1 \<le> y \<and> y \<le> 9999 \<and> 1 \<le> m \<and> m \<le> 12 \<and> 1 \<le> dd \<and> dd \<le> days_in_month y m)"

definition trading_date :: "int \<Rightarrow> date read" where
  "trading_date v = (
     let d = (v div 10000, v div 100 mod 100, v mod 100) in
     if valid_date d then Inr d else read_fail ERR_INVARIANT)"

definition parse_symbol :: "bytes \<Rightarrow> string read" where
  "parse_symbol raw =
     (if list_ex unprintable raw then read_fail ERR_INVARIANT
      else let symbol = rstrip (char_byte CHR '' '') raw in
        if symbol = [] \<or> hd symbol = char_byte CHR '' '' then read_fail ERR_INVARIANT
        else Inr (map byte_char symbol))"

section \<open>Header and dictionary\<close>

text \<open>The layouts \<open><8sHHHHIIHHQ32s32s4s\<close> and \<open><HH8sI\<close>.\<close>

record raw_header =
  rh_magic :: bytes
  rh_schema_version :: int
  rh_header_size :: int
  rh_record_size :: int
  rh_depth :: int
  rh_price_scale :: int
  rh_trading_date :: int
  rh_symbol_count :: int
  rh_header_flags :: "16 word"
  rh_record_count :: int
  rh_config_hash :: bytes
  rh_source_hash :: bytes
  rh_reserved :: bytes

definition unpack_header :: "bytes \<Rightarrow> raw_header read" where
  "unpack_header bs = (if length bs \<noteq> HEADER_SIZE then Inl Struct_Error else Inr \<lparr>
     rh_magic = field 0 8 bs,
     rh_schema_version = le_value (field 8 2 bs),
     rh_header_size = le_value (field 10 2 bs),
     rh_record_size = le_value (field 12 2 bs),
     rh_depth = le_value (field 14 2 bs),
     rh_price_scale = le_value (field 16 4 bs),
     rh_trading_date = le_value (field 20 4 bs),
     rh_symbol_count = le_value (field 24 2 bs),
     rh_header_flags = word_of_int (le_value (field 26 2 bs)),
     rh_record_count = le_value (field 28 8 bs),
     rh_config_hash = field 36 32 bs,
     rh_source_hash = field 68 32 bs,
     rh_reserved = field 100 4 bs\<rparr>)"

record raw_symbol =
  ry_symbol_id :: int
  ry_stock_locate :: int
  ry_symbol :: bytes
  ry_round_lot_size :: int

definition unpack_symbol :: "bytes \<Rightarrow> raw_symbol read" where
  "unpack_symbol bs = (if length bs \<noteq> SYMBOL_SIZE then Inl Struct_Error else Inr \<lparr>
     ry_symbol_id = le_value (field 0 2 bs),
     ry_stock_locate = le_value (field 2 2 bs),
     ry_symbol = field 4 8 bs,
     ry_round_lot_size = le_value (field 12 4 bs)\<rparr>)"

definition kind_by_magic :: "bytes \<Rightarrow> interchange_kind option" where
  "kind_by_magic magic = map_of [(EVENT_MAGIC, EVENTS), (SNAPSHOT_MAGIC, SNAPSHOTS)] magic"

definition valid_layout :: "interchange_kind \<Rightarrow> raw_header \<Rightarrow> bool" where
  "valid_layout kind raw = (case kind of
     EVENTS \<Rightarrow> rh_depth raw = 0 \<and> rh_record_size raw = int EVENT_RECORD_SIZE
   | SNAPSHOTS \<Rightarrow> 1 \<le> rh_depth raw \<and> rh_depth raw \<le> int MAX_DEPTH
       \<and> rh_record_size raw = int SNAPSHOT_FIXED_SIZE + int SNAPSHOT_DEPTH_SIZE * rh_depth raw)"

text \<open>The checks of the fixed header, in the order they are made.\<close>

definition check_header :: "interchange_kind \<Rightarrow> raw_header \<Rightarrow> interchange_kind read" where
  "check_header expected_kind raw = (
     case kind_by_magic (rh_magic raw) of
       None \<Rightarrow> read_fail ERR_SCHEMA_VERSION
     | Some kind \<Rightarrow>
     bindR (require (kind = expected_kind) (read_fail ERR_SCHEMA_VERSION)) (\<lambda>_.
     bindR (require (rh_schema_version raw = SCHEMA_VERSION) (read_fail ERR_SCHEMA_VERSION)) (\<lambda>_.
     bindR (require (rh_header_size raw = int HEADER_SIZE \<and> rh_price_scale raw = PRICE_SCALE)
              (read_fail ERR_SCHEMA_VERSION)) (\<lambda>_.
     bindR (require (\<not> (rh_symbol_count raw = 0 \<or> flag_set (rh_header_flags raw) 65534
                        \<or> rh_reserved raw \<noteq> replicate 4 0)) (read_fail ERR_INVARIANT)) (\<lambda>_.
     bindR (require (valid_layout kind raw) (read_fail ERR_SCHEMA_VERSION)) (\<lambda>_.
     bindR (require (\<not> (rh_config_hash raw = replicate 32 0 \<or> rh_source_hash raw = replicate 32 0))
              (read_fail ERR_PARTIAL_ARTEFACT)) (\<lambda>_.
     Inr kind)))))))"

text \<open>
  The loop over the dictionary, with the stream and the sets of names and locates it carries;
  the sets are read off the entries collected so far.
\<close>

fun parse_symbols :: "bytes \<Rightarrow> nat list \<Rightarrow> symbol_entry list \<Rightarrow> (symbol_entry list \<times> bytes) read" where
  "parse_symbols stream [] symbols = Inr (symbols, stream)"
| "parse_symbols stream (index # rest) symbols =
     bindR (read_exact stream SYMBOL_SIZE) (\<lambda>(encoded_symbol, stream').
     bindR (unpack_symbol encoded_symbol) (\<lambda>raw.
     bindR (parse_symbol (ry_symbol raw)) (\<lambda>symbol.
     bindR (require (\<not> (ry_symbol_id raw \<noteq> int index + 1 \<or> ry_stock_locate raw = 0
                        \<or> ry_stock_locate raw \<in> set (map se_stock_locate symbols)
                        \<or> symbol \<in> set (map se_symbol symbols))) (read_fail ERR_INVARIANT)) (\<lambda>_.
     parse_symbols stream' rest (symbols @ [\<lparr>se_symbol_id = ry_symbol_id raw,
       se_stock_locate = ry_stock_locate raw, se_symbol = symbol,
       se_round_lot_size = ry_round_lot_size raw\<rparr>])))))"

definition metadata_of ::
  "interchange_kind \<Rightarrow> raw_header \<Rightarrow> symbol_entry list \<Rightarrow> date \<Rightarrow> string \<Rightarrow> interchange_metadata" where
  "metadata_of kind raw symbols day file_sha256 = \<lparr>
     md_kind = kind,
     md_schema_version = rh_schema_version raw,
     md_record_size = nat (rh_record_size raw),
     md_depth = nat (rh_depth raw),
     md_price_scale = rh_price_scale raw,
     md_trading_date = day,
     md_degraded = flag_set (rh_header_flags raw) 1,
     md_record_count = nat (rh_record_count raw),
     md_config_sha256 = hex_string (rh_config_hash raw),
     md_source_sha256 = hex_string (rh_source_hash raw),
     md_file_sha256 = file_sha256,
     md_symbols = symbols\<rparr>"

definition parse_metadata ::
  "bytes \<Rightarrow> nat \<Rightarrow> interchange_kind \<Rightarrow> string \<Rightarrow> (interchange_metadata \<times> nat) read" where
  "parse_metadata stream file_size expected_kind file_sha256 =
     bindR (read_exact stream HEADER_SIZE) (\<lambda>(encoded_header, stream').
     bindR (require (encoded_header \<noteq> replicate HEADER_SIZE 0) (read_fail ERR_PARTIAL_ARTEFACT)) (\<lambda>_.
     bindR (unpack_header encoded_header) (\<lambda>raw.
     bindR (check_header expected_kind raw) (\<lambda>kind.
     bindR (parse_symbols stream' [0..<nat (rh_symbol_count raw)] []) (\<lambda>(symbols, _).
     let records_offset = HEADER_SIZE + nat (rh_symbol_count raw) * SYMBOL_SIZE;
         expected_size = records_offset + nat (rh_record_count raw) * nat (rh_record_size raw) in
     bindR (require (file_size = expected_size) (read_fail ERR_PARTIAL_ARTEFACT)) (\<lambda>_.
     bindR (trading_date (rh_trading_date raw)) (\<lambda>day.
     Inr (metadata_of kind raw symbols day file_sha256, records_offset))))))))"

section \<open>Opening and authenticating\<close>

definition authenticate ::
  "(bytes \<Rightarrow> string) \<Rightarrow> artefact \<Rightarrow> string \<Rightarrow> nat \<Rightarrow> bytes read" where
  "authenticate sha256 file expected_sha256 records_offset =
     bindR (require (sha256 (af_content file) = expected_sha256) (read_fail ERR_HASH_MISMATCH)) (\<lambda>_.
     bindR (ensure_unchanged file 0) (\<lambda>_.
     Inr (drop records_offset (af_content file))))"

text \<open>
  \<open>_validated_stream\<close> yields the metadata and the stream positioned at the first record.
\<close>

definition partial_component :: "string \<Rightarrow> bool" where
  "partial_component c \<longleftrightarrow> 8 \<le> length c \<and> drop (length c - 8) c = ''.partial''"

definition validated_stream ::
  "(bytes \<Rightarrow> string) \<Rightarrow> artefact \<Rightarrow> interchange_kind \<Rightarrow> string
     \<Rightarrow> (interchange_metadata \<times> bytes) read" where
  "validated_stream sha256 file expected_kind expected_sha256 =
     bindR (require (\<not> (af_name file = '''' \<or> list_ex partial_component (af_parts file)))
              (read_fail ERR_PARTIAL_ARTEFACT)) (\<lambda>_.
     bindR (require (af_target_regular file = Some True) (read_fail ERR_INPUT_PATH)) (\<lambda>_.
     bindR (require (af_opens file) (read_fail ERR_INPUT_PATH)) (\<lambda>_.
     bindR (require (af_file_regular file = Some True) (read_fail ERR_INPUT_PATH)) (\<lambda>_.
     bindR (parse_metadata (af_content file) (length (af_content file)) expected_kind expected_sha256)
       (\<lambda>(metadata, records_offset).
     bindR (authenticate sha256 file expected_sha256 records_offset) (\<lambda>stream.
     Inr (metadata, stream)))))))"

section \<open>Chunked reading\<close>

definition bounded_batch_count :: "interchange_metadata \<Rightarrow> nat \<Rightarrow> nat \<Rightarrow> nat" where
  "bounded_batch_count metadata requested remaining = (
     let encoded_limit = max 1 (MAX_BATCH_BYTES div md_record_size metadata) in
     min requested (min encoded_limit remaining))"

text \<open>
  A record decoder takes the bytes, the metadata, the ordering state and the record's index, and
  returns the record with the advanced ordering state.
\<close>

type_synonym 'r decoder =
  "bytes \<Rightarrow> interchange_metadata \<Rightarrow> ordering_state \<Rightarrow> nat \<Rightarrow> ('r \<times> ordering_state) read"

definition no_ordering :: ordering_state where
  "no_ordering = \<lparr>os_message_index = None, os_timestamp_ns = None\<rparr>"

text \<open>
  The tuple over \<open>enumerate(range(0, len(encoded), record_size))\<close>: the offsets are the
  multiples of the record size below the length.
\<close>

definition record_offsets :: "nat \<Rightarrow> nat \<Rightarrow> nat list" where
  "record_offsets len record_size =
     map (\<lambda>i. i * record_size) [0..<(len + record_size - 1) div record_size]"

fun decode_batch ::
  "'r decoder \<Rightarrow> bytes \<Rightarrow> interchange_metadata \<Rightarrow> ordering_state \<Rightarrow> nat \<Rightarrow> nat list
     \<Rightarrow> ('r list \<times> ordering_state) read" where
  "decode_batch decode encoded metadata prior record_index [] = Inr ([], prior)"
| "decode_batch decode encoded metadata prior record_index (offset # rest) =
     bindR (decode (field offset (md_record_size metadata) encoded) metadata prior record_index)
       (\<lambda>(r, prior').
     bindR (decode_batch decode encoded metadata prior' (Suc record_index) rest)
       (\<lambda>(rs, prior''). Inr (r # rs, prior'')))"

text \<open>
  The generator's loop. Its outcome is the batches it yields and the exception that ends it, if
  any; the loop need not end for every chunk size, so the outcome is optional. The identity of
  the file is rechecked once per batch, after the recheck made by authentication.
\<close>

type_synonym 'r outcome = "'r list list \<times> read_error option"

partial_function (option) read_batches ::
  "'r decoder \<Rightarrow> artefact \<Rightarrow> interchange_metadata \<Rightarrow> nat \<Rightarrow> nat \<Rightarrow> nat \<Rightarrow> ordering_state \<Rightarrow> bytes
     \<Rightarrow> 'r outcome option" where
  "read_batches decode file metadata chunk_records recheck record_index prior stream =
     (if record_index < md_record_count metadata then
        let batch_count = bounded_batch_count metadata chunk_records
              (md_record_count metadata - record_index) in
        case read_exact stream (batch_count * md_record_size metadata) of
          Inl e \<Rightarrow> Some ([], Some e)
        | Inr (encoded, stream') \<Rightarrow>
        (case decode_batch decode encoded metadata prior record_index
                (record_offsets (length encoded) (md_record_size metadata)) of
          Inl e \<Rightarrow> Some ([], Some e)
        | Inr (records, prior') \<Rightarrow>
        (case ensure_unchanged file recheck of
          Inl e \<Rightarrow> Some ([], Some e)
        | Inr _ \<Rightarrow>
          Option.bind (read_batches decode file metadata chunk_records (Suc recheck)
              (record_index + batch_count) prior' stream')
            (\<lambda>(batches, e). Some (records # batches, e))))
      else Some ([], None))"

definition read_records ::
  "'r decoder \<Rightarrow> interchange_kind \<Rightarrow> (bytes \<Rightarrow> string) \<Rightarrow> artefact \<Rightarrow> string \<Rightarrow> int
     \<Rightarrow> 'r outcome option" where
  "read_records decode kind sha256 file expected_sha256 chunk_records = (
     case bindR (validate_reader_arguments expected_sha256 chunk_records)
            (\<lambda>_. validated_stream sha256 file kind expected_sha256) of
       Inl e \<Rightarrow> Some ([], Some e)
     | Inr (metadata, stream) \<Rightarrow>
         read_batches decode file metadata (nat chunk_records) 1 0 no_ordering stream)"

definition read_events ::
  "(bytes \<Rightarrow> string) \<Rightarrow> artefact \<Rightarrow> string \<Rightarrow> int \<Rightarrow> event_record outcome option" where
  "read_events = read_records decode_event EVENTS"

definition read_snapshots ::
  "(bytes \<Rightarrow> string) \<Rightarrow> artefact \<Rightarrow> string \<Rightarrow> int \<Rightarrow> snapshot_record outcome option" where
  "read_snapshots = read_records decode_snapshot SNAPSHOTS"

definition read_metadata ::
  "interchange_kind \<Rightarrow> (bytes \<Rightarrow> string) \<Rightarrow> artefact \<Rightarrow> string \<Rightarrow> interchange_metadata read" where
  "read_metadata kind sha256 file expected_sha256 =
     bindR (validate_reader_arguments expected_sha256 1) (\<lambda>_.
     bindR (validated_stream sha256 file kind expected_sha256) (\<lambda>(metadata, _). Inr metadata))"

definition read_event_metadata ::
  "(bytes \<Rightarrow> string) \<Rightarrow> artefact \<Rightarrow> string \<Rightarrow> interchange_metadata read" where
  "read_event_metadata = read_metadata EVENTS"

definition read_snapshot_metadata ::
  "(bytes \<Rightarrow> string) \<Rightarrow> artefact \<Rightarrow> string \<Rightarrow> interchange_metadata read" where
  "read_snapshot_metadata = read_metadata SNAPSHOTS"

end
