(* ===== verification/Byte_Layout.thy ===== *)
theory Byte_Layout
  imports Interchange_Codec
begin

text \<open>
  Facts on little-endian byte strings, and the contract of a fixed record layout: reading and
  writing are inverse to each other on the values the layout can hold.
\<close>

section \<open>Integers\<close>

lemma uint_byte [simp]: "0 \<le> uint (b :: 8 word)" "uint (b :: 8 word) < 256"
  using uint_lt2p [of b] by simp_all

lemma le_value_bounds: "0 \<le> le_value bs \<and> le_value bs < 256 ^ length bs"
proof (induction bs)
  case (Cons b bs)
  then have "le_value bs \<le> 256 ^ length bs - 1" by simp
  then have "256 * le_value bs \<le> 256 * 256 ^ length bs - 256" by simp
  then show ?case using Cons uint_byte [of b] by (simp del: uint_byte)
qed simp

lemma length_le_bytes [simp]: "length (le_bytes n v) = n"
  by (induction n arbitrary: v) simp_all

lemma le_bytes_value: "le_bytes (length bs) (le_value bs) = bs"
proof (induction bs)
  case (Cons b bs)
  have "(uint b + 256 * le_value bs) div 256 = le_value bs" by simp
  moreover have "word_of_int (uint b + 256 * le_value bs) = b"
  proof -
    have "(256 :: 8 word) = 0" by simp
    then show ?thesis by (simp only: wi_hom_syms of_int_add of_int_mult of_int_numeral word_of_int_uint) simp
  qed
  ultimately show ?case using Cons.IH by simp
qed simp

lemma le_value_bytes: "0 \<le> v \<Longrightarrow> v < 256 ^ n \<Longrightarrow> le_value (le_bytes n v) = v"
proof (induction n arbitrary: v)
  case (Suc n)
  have "v div 256 < 256 ^ n" using Suc.prems by simp
  then have "le_value (le_bytes n (v div 256)) = v div 256"
    using Suc by (simp add: pos_imp_zdiv_nonneg_iff)
  then show ?case by (simp add: uint_word_of_int)
qed simp

section \<open>Fields\<close>

lemma length_field: "offset + n \<le> length bs \<Longrightarrow> length (field offset n bs) = n"
  by (simp add: field_def)

lemma field_append: "field a n bs @ field (a + n) m bs = field a (n + m) bs"
  using take_add [of n m "drop a bs"] by (simp add: field_def add.commute)

lemma field_join:
  "b = a + n \<Longrightarrow> field a n bs @ field b m bs = field a (n + m) bs"
  "b = a + n \<Longrightarrow> field a n bs @ field b m bs @ xs = field a (n + m) bs @ xs"
  using field_append [of a n bs m] by simp_all

lemma field_nth: "offset < length bs \<Longrightarrow> field offset (Suc 0) bs = [bs ! offset]"
  by (simp add: field_def take_Suc_conv_app_nth)

lemma le_bytes_field: "offset + n \<le> length bs \<Longrightarrow> le_bytes n (le_value (field offset n bs)) = field offset n bs"
  using le_bytes_value [of "field offset n bs"] by (simp add: length_field)

lemma field_bounds: "offset + n \<le> length bs \<Longrightarrow> 0 \<le> le_value (field offset n bs) \<and> le_value (field offset n bs) < 256 ^ n"
  using le_value_bounds [of "field offset n bs"] by (simp add: length_field)

lemma field_skip: "length x \<le> a \<Longrightarrow> field a n (x @ y) = field (a - length x) n y"
  by (simp add: field_def)

lemma field_here: "length x = n \<Longrightarrow> field 0 n (x @ y) = x"
  by (simp add: field_def)

lemma field_Cons: "0 < a \<Longrightarrow> field a n (x # y) = field (a - 1) n y"
  by (cases a) (simp_all add: field_def)

lemma field_all: "length x = n \<Longrightarrow> field 0 n x = x"
  by (simp add: field_def)

section \<open>The contract of a fixed layout\<close>

text \<open>
  A layout of fixed width: \<open>holds\<close> are the tuples it can hold, and unpacking a byte string is
  the inverse of packing them. Whatever has the right width can be unpacked.
\<close>

locale fixed_layout =
  fixes width :: nat
    and pack :: "'r \<Rightarrow> bytes"
    and unpack :: "bytes \<Rightarrow> 'r read"
    and holds :: "'r \<Rightarrow> bool"
  assumes unpack_Inr: "unpack bs = Inr r \<longleftrightarrow> holds r \<and> bs = pack r"
    and length_pack: "holds r \<Longrightarrow> length (pack r) = width"
    and unpack_width: "length bs = width \<Longrightarrow> unpack bs \<noteq> Inl e"
begin

lemma unpack_pack: "holds r \<Longrightarrow> unpack (pack r) = Inr r"
  by (simp add: unpack_Inr)

lemma pack_inject: "holds r \<Longrightarrow> holds s \<Longrightarrow> pack r = pack s \<longleftrightarrow> r = s"
  by (metis sum.inject(2) unpack_pack)

lemma unpack_exists:
  assumes "length bs = width"
  obtains r where "unpack bs = Inr r" "holds r" "bs = pack r"
proof -
  obtain r where "unpack bs = Inr r"
    using unpack_width [OF assms] by (cases "unpack bs") auto
  then show ?thesis using that by (simp add: unpack_Inr)
qed

lemma unpack_bind_Inr:
  "bindR (unpack bs) f = Inr y \<longleftrightarrow> (\<exists>r. holds r \<and> bs = pack r \<and> f r = Inr y)"
  by (auto simp: bindR_eq_Inr unpack_Inr)

end

section \<open>Text\<close>

lemma byte_char_byte [simp]: "byte_char (char_byte c) = c"
proof -
  have "uint (word_of_int (of_char c :: int) :: 8 word) = of_char c"
    using of_char_mod_256 [of c, where 'a = int] by (simp add: uint_word_of_int)
  then show ?thesis by (simp add: byte_char_def char_byte_def)
qed

lemma char_byte_char [simp]: "char_byte (byte_char b) = b"
  by (simp add: byte_char_def char_byte_def of_char_of)

lemma rstrip_restore: "rstrip c xs @ replicate (length xs - length (rstrip c xs)) c = xs"
proof -
  let ?t = "takeWhile (\<lambda>x. x = c) (rev xs)"
  have "xs = rev (dropWhile (\<lambda>x. x = c) (rev xs)) @ rev ?t"
    by (metis rev_append rev_rev_ident takeWhile_dropWhile_id)
  moreover have "?t = replicate (length ?t) c"
    by (rule replicate_eqI) (auto dest: set_takeWhileD)
  ultimately show ?thesis
    unfolding rstrip_def by (metis append_eq_conv_conj length_append length_rev diff_add_inverse rev_replicate)
qed

lemma rstrip_no_trailing: "rstrip c xs = [] \<or> last (rstrip c xs) \<noteq> c"
proof (cases "dropWhile (\<lambda>x. x = c) (rev xs)")
  case (Cons y ys)
  then have "y \<noteq> c" by (metis (mono_tags) dropWhile_eq_Cons_conv)
  then show ?thesis using Cons by (simp add: rstrip_def last_rev)
qed (simp add: rstrip_def)

lemma rstrip_padded: "s = [] \<or> last s \<noteq> c \<Longrightarrow> rstrip c (s @ replicate n c) = s"
proof -
  assume s: "s = [] \<or> last s \<noteq> c"
  have "dropWhile (\<lambda>x. x = c) (replicate n c @ rev s) = rev s"
    using s by (induction n) (cases s rule: rev_cases; simp)+
  then show ?thesis by (simp add: rstrip_def)
qed

lemma length_rstrip: "length (rstrip c xs) \<le> length xs"
  using length_dropWhile_le [of "\<lambda>x. x = c" "rev xs"] by (simp add: rstrip_def)

lemma set_rstrip: "set (rstrip c xs) \<subseteq> set xs"
  by (auto simp: rstrip_def dest: set_dropWhileD)

text \<open>\<open>text.encode("ascii").ljust(n, b" ")\<close>, and the texts it is inverse on.\<close>

definition ljust :: "nat \<Rightarrow> string \<Rightarrow> bytes" where
  "ljust n s = map char_byte (s @ replicate (n - length s) CHR '' '')"

definition printable :: "char \<Rightarrow> bool" where
  "printable c \<longleftrightarrow> 32 \<le> (of_char c :: int) \<and> (of_char c :: int) \<le> 126"

definition padded_text :: "nat \<Rightarrow> string \<Rightarrow> bool" where
  "padded_text n s \<longleftrightarrow>
     length s \<le> n \<and> list_all printable s \<and> (s = [] \<or> last s \<noteq> CHR '' '')"

lemma uint_char_byte: "uint (char_byte c) = of_char c"
  using of_char_mod_256 [of c, where 'a = int] by (simp add: char_byte_def uint_word_of_int)

lemma of_char_byte_char: "of_char (byte_char b) = uint b"
  using uint_char_byte [of "byte_char b"] by simp

lemma unprintable_char: "unprintable b \<longleftrightarrow> \<not> printable (byte_char b)"
  by (simp add: unprintable_def printable_def of_char_byte_char not_le)

lemma printable_space: "printable CHR '' ''"
  by (simp add: printable_def)

lemma padded_text_iff:
  assumes "length bs = n"
  shows "\<not> list_ex unprintable bs \<and> s = rstrip CHR '' '' (map byte_char bs)
     \<longleftrightarrow> padded_text n s \<and> bs = ljust n s"
proof
  assume L: "\<not> list_ex unprintable bs \<and> s = rstrip CHR '' '' (map byte_char bs)"
  have "s @ replicate (n - length s) CHR '' '' = map byte_char bs"
    using L assms rstrip_restore [of "CHR '' ''" "map byte_char bs"] by simp
  then have "ljust n s = bs" unfolding ljust_def by (simp add: comp_def)
  moreover have "list_all printable s"
    using L set_rstrip [of "CHR '' ''" "map byte_char bs"]
    by (auto simp: list_all_iff list_ex_iff unprintable_char)
  ultimately show "padded_text n s \<and> bs = ljust n s"
    using L assms length_rstrip [of "CHR '' ''" "map byte_char bs"]
      rstrip_no_trailing [of "CHR '' ''" "map byte_char bs"]
    by (simp add: padded_text_def)
next
  assume R: "padded_text n s \<and> bs = ljust n s"
  then have "map byte_char bs = s @ replicate (n - length s) CHR '' ''"
    by (simp add: ljust_def comp_def)
  moreover have "list_all printable (map byte_char bs)"
    using R printable_space unfolding calculation by (auto simp: padded_text_def list_all_iff)
  then have "\<not> list_ex unprintable bs"
    by (simp add: list_all_iff list_ex_iff unprintable_char)
  ultimately show "\<not> list_ex unprintable bs \<and> s = rstrip CHR '' '' (map byte_char bs)"
    using R rstrip_padded [of s "CHR '' ''" "n - length s"] by (simp add: padded_text_def)
qed

end
