(* ===== verification/Event_Codec.thy ===== *)
theory Event_Codec
  imports Byte_Layout
begin

unbundle bit_operations_syntax

text \<open>
  What \<open>_decode_event\<close> accepts: the layout of an event record as a packing function, the
  meaning of its flags bit by bit, and the table of the fields each kind carries.
\<close>

section \<open>The layout\<close>

definition pack_event :: "raw_event \<Rightarrow> bytes" where
  "pack_event raw =
     le_bytes 8 (re_message_index raw) @ le_bytes 8 (re_timestamp_ns raw)
     @ le_bytes 8 (re_primary_reference raw) @ le_bytes 8 (re_secondary_reference raw)
     @ le_bytes 8 (re_quantity raw) @ le_bytes 4 (re_price4 raw)
     @ le_bytes 4 (re_remaining_quantity raw) @ le_bytes 4 (re_execution_price4 raw)
     @ le_bytes 2 (re_symbol_id raw) @ [re_kind_code raw] @ [word_of_int (re_side raw)]
     @ [re_source_type raw] @ le_bytes 2 (uint (re_flags raw)) @ [re_reserved raw]
     @ re_auxiliary raw @ [re_subtype raw] @ re_reserved_tail raw"

definition uint_in :: "nat \<Rightarrow> int \<Rightarrow> bool" where
  "uint_in n v \<longleftrightarrow> 0 \<le> v \<and> v < 256 ^ n"

definition raw_event_holds :: "raw_event \<Rightarrow> bool" where
  "raw_event_holds raw \<longleftrightarrow>
     uint_in 8 (re_message_index raw) \<and> uint_in 8 (re_timestamp_ns raw)
   \<and> uint_in 8 (re_primary_reference raw) \<and> uint_in 8 (re_secondary_reference raw)
   \<and> uint_in 8 (re_quantity raw) \<and> uint_in 4 (re_price4 raw)
   \<and> uint_in 4 (re_remaining_quantity raw) \<and> uint_in 4 (re_execution_price4 raw)
   \<and> uint_in 2 (re_symbol_id raw) \<and> -128 \<le> re_side raw \<and> re_side raw < 128
   \<and> length (re_auxiliary raw) = 4 \<and> length (re_reserved_tail raw) = 7"

lemma uint_in_field: "offset + n \<le> length bs \<Longrightarrow> uint_in n (le_value (field offset n bs))"
  unfolding uint_in_def by (rule field_bounds)

lemma uint_in_value: "uint_in n v \<Longrightarrow> le_value (le_bytes n v) = v"
  by (simp add: uint_in_def le_value_bytes)

lemma sint_byte_bounds: "-128 \<le> sint (b :: 8 word) \<and> sint b < 128"
  using sint_greater_eq [of b] sint_lt [of b] by simp

lemma flags_field: "offset + 2 \<le> length bs \<Longrightarrow>
    le_bytes 2 (uint (word_of_int (le_value (field offset 2 bs)) :: 16 word)) = field offset 2 bs"
  using field_bounds [of offset 2 bs] le_bytes_field [of offset 2 bs]
  by (simp add: uint_word_of_int)

lemma pack_unpack_event:
  assumes "unpack_event bs = Inr raw"
  shows "raw_event_holds raw \<and> pack_event raw = bs"
proof -
  have len: "length bs = 72"
    using assms by (simp add: unpack_event_def EVENT_RECORD_SIZE_def split: if_splits)
  have raw: "raw = \<lparr>re_message_index = le_value (field 0 8 bs),
     re_timestamp_ns = le_value (field 8 8 bs), re_primary_reference = le_value (field 16 8 bs),
     re_secondary_reference = le_value (field 24 8 bs), re_quantity = le_value (field 32 8 bs),
     re_price4 = le_value (field 40 4 bs), re_remaining_quantity = le_value (field 44 4 bs),
     re_execution_price4 = le_value (field 48 4 bs), re_symbol_id = le_value (field 52 2 bs),
     re_kind_code = bs ! 54, re_side = sint (bs ! 55), re_source_type = bs ! 56,
     re_flags = word_of_int (le_value (field 57 2 bs)), re_reserved = bs ! 59,
     re_auxiliary = field 60 4 bs, re_subtype = bs ! 64, re_reserved_tail = field 65 7 bs\<rparr>"
    using assms len by (simp add: unpack_event_def EVENT_RECORD_SIZE_def)
  have holds: "raw_event_holds raw"
    unfolding raw raw_event_holds_def using len sint_byte_bounds [of "bs ! 55"]
    by (simp add: uint_in_field length_field)
  have "pack_event raw = field 0 8 bs @ field 8 8 bs @ field 16 8 bs @ field 24 8 bs
      @ field 32 8 bs @ field 40 4 bs @ field 44 4 bs @ field 48 4 bs @ field 52 2 bs
      @ field 54 1 bs @ field 55 1 bs @ field 56 1 bs @ field 57 2 bs @ field 59 1 bs
      @ field 60 4 bs @ field 64 1 bs @ field 65 7 bs"
    unfolding raw pack_event_def using len by (simp add: le_bytes_field flags_field field_nth)
  also have "\<dots> = field 0 72 bs"
    by (simp add: field_join)
  also have "\<dots> = bs" using len by (simp add: field_all)
  finally show ?thesis using holds by simp
qed

lemma uint_flags_value: "le_value (le_bytes 2 (uint (w :: 16 word))) = uint w"
  using uint_lt2p [of w] by (simp add: le_value_bytes)

lemma unpack_pack_event:
  assumes "raw_event_holds raw"
  shows "unpack_event (pack_event raw) = Inr raw"
proof -
  have len: "length (pack_event raw) = 72"
    using assms by (simp add: pack_event_def raw_event_holds_def)
  have side: "sint (word_of_int (re_side raw) :: 8 word) = re_side raw"
    using assms by (simp add: raw_event_holds_def sint_sbintrunc' signed_take_bit_int_eq_self)
  show ?thesis
    using assms len side
    by (simp add: unpack_event_def EVENT_RECORD_SIZE_def pack_event_def raw_event_holds_def
        field_skip field_here field_all field_Cons uint_in_value uint_flags_value nth_append)
qed

interpretation event_layout: fixed_layout 72 pack_event unpack_event raw_event_holds
proof unfold_locales
  show "unpack_event bs = Inr r \<longleftrightarrow> raw_event_holds r \<and> bs = pack_event r" for bs r
    using pack_unpack_event unpack_pack_event by auto
  show "length (pack_event r) = 72" if "raw_event_holds r" for r
    using that by (simp add: pack_event_def raw_event_holds_def)
  show "unpack_event bs \<noteq> Inl e" if "length bs = 72" for bs e
    using that by (simp add: unpack_event_def EVENT_RECORD_SIZE_def)
qed

section \<open>Flags, bit by bit\<close>

lemma all16: "(\<forall>n<16. P n) \<longleftrightarrow> P 0 \<and> P (Suc 0) \<and> P 2 \<and> P 3 \<and> P 4 \<and> P 5 \<and> P 6 \<and> P 7 \<and> P 8 \<and> P 9
    \<and> P 10 \<and> P 11 \<and> P 12 \<and> P 13 \<and> P 14 \<and> P (15 :: nat)"
  by (simp add: eval_nat_numeral All_less_Suc) blast

lemma flags_eq_iff: "v = w \<longleftrightarrow> (\<forall>n<16. bit v n = bit w n)" for v w :: "16 word"
  using bit_word_eqI [of v w] by auto

lemma flag_set_bit: "flag_set w (push_bit n 1) \<longleftrightarrow> bit w n" for w :: "'a::len word"
  unfolding flag_set_def using and_exp_eq_0_iff_not_bit [of w n] by (simp add: push_bit_eq_mult)

lemma flag_bits:
  "flag_set w F_PRIMARY \<longleftrightarrow> bit w 0" "flag_set w F_SECONDARY \<longleftrightarrow> bit w (Suc 0)"
  "flag_set w F_SIDE \<longleftrightarrow> bit w 2" "flag_set w F_PRICE \<longleftrightarrow> bit w 3"
  "flag_set w F_QUANTITY \<longleftrightarrow> bit w 4" "flag_set w F_REMAINING \<longleftrightarrow> bit w 5"
  "flag_set w F_EXECUTION_PRICE \<longleftrightarrow> bit w 6" "flag_set w F_AUXILIARY \<longleftrightarrow> bit w 7"
  "flag_set w F_SUBTYPE \<longleftrightarrow> bit w 8" "flag_set w F_IN_SESSION \<longleftrightarrow> bit w 9"
  using flag_set_bit [of w] by (simp_all add: flag_defs push_bit_eq_mult flip: flag_set_bit)

text \<open>The fields that a kind carries, and the flags it may set.\<close>

definition flags_ok :: "event_kind \<Rightarrow> char \<Rightarrow> 16 word \<Rightarrow> bool" where
  "flags_ok k src f \<longleftrightarrow>
     (bit f 0 \<longleftrightarrow> k \<noteq> CROSS \<and> k \<noteq> TRADING_STATE)
   \<and> (bit f 1 \<longleftrightarrow> k = EXECUTE \<or> k = EXECUTE_PRICE \<or> k = REPLACE \<or> k = TRADE \<or> k = CROSS)
   \<and> (bit f 2 \<longleftrightarrow> lifecycle_kind k \<or> k = TRADE)
   \<and> (bit f 3 \<longleftrightarrow> k \<noteq> BROKEN_TRADE \<and> k \<noteq> TRADING_STATE)
   \<and> (bit f 4 \<longleftrightarrow> k \<noteq> BROKEN_TRADE \<and> k \<noteq> TRADING_STATE)
   \<and> (bit f 5 \<longleftrightarrow> lifecycle_kind k)
   \<and> (bit f 6 \<longleftrightarrow> k = EXECUTE_PRICE)
   \<and> (k \<noteq> TRADING_STATE \<longrightarrow> (bit f 7 \<longleftrightarrow> k = ADD \<and> src = CHR ''F''))
   \<and> (bit f 8 \<longleftrightarrow> k = CROSS \<or> k = TRADING_STATE)
   \<and> \<not> bit f 10 \<and> \<not> bit f 11 \<and> \<not> bit f 12 \<and> \<not> bit f 13 \<and> \<not> bit f 14 \<and> \<not> bit f 15"

lemma event_flags_iff:
  "\<not> event_flags_bad k src raw \<longleftrightarrow>
     flags_ok k src (re_flags raw) \<and> re_reserved raw = 0 \<and> re_reserved_tail raw = replicate 7 0"
proof -
  have "\<not> (flag_set f (NOT EVENT_ALLOWED_FLAGS)
       \<or> f AND required_event_flags k src \<noteq> required_event_flags k src
       \<or> flag_set f (NOT (required_event_flags k src
            OR (F_IN_SESSION OR (if k = TRADING_STATE then F_AUXILIARY else 0)))))
     \<longleftrightarrow> flags_ok k src f" for f
    unfolding flag_set_def flags_eq_iff all16 EVENT_ALLOWED_FLAGS_def flags_ok_def
    by (cases k) (auto simp: flag_defs bit_simps lifecycle_kind_def)
  then show ?thesis unfolding event_flags_bad_def Let_def by blast
qed

section \<open>Records on the wire\<close>

fun kind_code :: "event_kind \<Rightarrow> 8 word" where
  "kind_code ADD = 1"
| "kind_code EXECUTE = 2"
| "kind_code EXECUTE_PRICE = 3"
| "kind_code CANCEL_EVENT = 4"
| "kind_code DELETE = 5"
| "kind_code REPLACE = 6"
| "kind_code TRADE = 7"
| "kind_code CROSS = 8"
| "kind_code BROKEN_TRADE = 9"
| "kind_code TRADING_STATE = 10"

lemma event_kind_by_code_iff: "event_kind_by_code c = Some k \<longleftrightarrow> c = kind_code k"
  by (cases k) (auto simp: event_kind_by_code_def split: if_splits)

definition zero_if_absent :: "int option \<Rightarrow> int" where
  "zero_if_absent v = (case v of None \<Rightarrow> 0 | Some x \<Rightarrow> x)"

definition raw_of_event :: "event_record \<Rightarrow> raw_event" where
  "raw_of_event r = \<lparr>
     re_message_index = er_message_index r,
     re_timestamp_ns = er_timestamp_ns r,
     re_primary_reference = zero_if_absent (er_primary_reference r),
     re_secondary_reference = zero_if_absent (er_secondary_reference r),
     re_quantity = zero_if_absent (er_quantity r),
     re_price4 = zero_if_absent (er_price4 r),
     re_remaining_quantity = zero_if_absent (er_remaining_quantity r),
     re_execution_price4 = zero_if_absent (er_execution_price4 r),
     re_symbol_id = er_symbol_id r,
     re_kind_code = kind_code (er_event_kind r),
     re_side = zero_if_absent (er_side r),
     re_source_type = char_byte (er_source_type r),
     re_flags = er_flags r,
     re_reserved = 0,
     re_auxiliary = (case er_aux_code r of None \<Rightarrow> replicate 4 0 | Some s \<Rightarrow> ljust 4 s),
     re_subtype = (case er_event_subtype r of None \<Rightarrow> 0 | Some c \<Rightarrow> char_byte c),
     re_reserved_tail = replicate 7 0\<rparr>"

definition encode_event :: "event_record \<Rightarrow> bytes" where
  "encode_event r = pack_event (raw_of_event r)"

text \<open>
  The record says in its flags which fields it carries, carries those that its kind carries, and
  holds values in range. \<open>follows\<close> is the order of records in a file.
\<close>

definition event_presence :: "event_record \<Rightarrow> bool" where
  "event_presence r \<longleftrightarrow> (let f = er_flags r in
     (bit f 0 \<longleftrightarrow> er_primary_reference r \<noteq> None) \<and> (bit f 1 \<longleftrightarrow> er_secondary_reference r \<noteq> None)
   \<and> (bit f 2 \<longleftrightarrow> er_side r \<noteq> None) \<and> (bit f 3 \<longleftrightarrow> er_price4 r \<noteq> None)
   \<and> (bit f 4 \<longleftrightarrow> er_quantity r \<noteq> None) \<and> (bit f 5 \<longleftrightarrow> er_remaining_quantity r \<noteq> None)
   \<and> (bit f 6 \<longleftrightarrow> er_execution_price4 r \<noteq> None) \<and> (bit f 7 \<longleftrightarrow> er_aux_code r \<noteq> None)
   \<and> (bit f 8 \<longleftrightarrow> er_event_subtype r \<noteq> None) \<and> (bit f 9 \<longleftrightarrow> er_in_session r))"

definition opt_all :: "('a \<Rightarrow> bool) \<Rightarrow> 'a option \<Rightarrow> bool" where
  "opt_all P v \<longleftrightarrow> (case v of None \<Rightarrow> True | Some x \<Rightarrow> P x)"

lemma opt_all_if: "opt_all P (if b then Some x else None) \<longleftrightarrow> (b \<longrightarrow> P x)"
  by (simp add: opt_all_def)

definition event_values_ok :: "event_record \<Rightarrow> bool" where
  "event_values_ok r \<longleftrightarrow>
     uint_in 8 (er_message_index r) \<and> 0 \<le> er_timestamp_ns r \<and> er_timestamp_ns r < DAY_NS
   \<and> uint_in 2 (er_symbol_id r)
   \<and> opt_all (uint_in 8) (er_primary_reference r) \<and> opt_all (uint_in 8) (er_secondary_reference r)
   \<and> opt_all (\<lambda>s. s = -1 \<or> s = 1) (er_side r)
   \<and> opt_all (uint_in 4) (er_price4 r) \<and> opt_all (\<lambda>q. uint_in 8 q \<and> q \<noteq> 0) (er_quantity r)
   \<and> opt_all (uint_in 4) (er_remaining_quantity r) \<and> opt_all (uint_in 4) (er_execution_price4 r)
   \<and> opt_all (padded_text 4) (er_aux_code r)
   \<and> opt_all (\<lambda>c. (of_char c :: int) \<le> 127
        \<and> (er_event_kind r = TRADING_STATE \<longrightarrow> c \<in> set ''HPQT'')) (er_event_subtype r)"

definition event_remaining_ok :: "event_record \<Rightarrow> bool" where
  "event_remaining_ok r \<longleftrightarrow>
     (er_event_kind r = ADD \<or> er_event_kind r = REPLACE \<longrightarrow> er_remaining_quantity r = er_quantity r)
   \<and> (er_event_kind r = DELETE \<longrightarrow> er_remaining_quantity r = Some 0)"

definition wire_event :: "interchange_metadata \<Rightarrow> event_record \<Rightarrow> bool" where
  "wire_event metadata r \<longleftrightarrow>
     er_trading_date r = md_trading_date metadata
   \<and> 1 \<le> er_symbol_id r \<and> er_symbol_id r \<le> int (length (md_symbols metadata))
   \<and> er_source_type r \<in> set (source_types_by_kind (er_event_kind r))
   \<and> flags_ok (er_event_kind r) (er_source_type r) (er_flags r)
   \<and> event_presence r \<and> event_values_ok r \<and> event_remaining_ok r"

definition follows :: "ordering_state \<Rightarrow> int \<Rightarrow> int \<Rightarrow> bool" where
  "follows prior i t \<longleftrightarrow>
     opt_all (\<lambda>p. p < i) (os_message_index prior) \<and> opt_all (\<lambda>p. p \<le> t) (os_timestamp_ns prior)"

lemma validate_ordering_Inr:
  "validate_ordering i t sid metadata prior k = Inr u \<longleftrightarrow>
     sid \<noteq> 0 \<and> sid \<le> int (length (md_symbols metadata)) \<and> t < DAY_NS \<and> follows prior i t"
  by (auto simp: validate_ordering_def record_fail_def follows_def opt_all_def split: option.splits)

section \<open>What the decoder accepts\<close>

text \<open>The checks of the values of an unpacked record of one kind, and its two text fields.\<close>

definition raw_event_ok ::
  "event_kind \<Rightarrow> raw_event \<Rightarrow> string option \<Rightarrow> char option \<Rightarrow> bool" where
  "raw_event_ok k raw auxiliary event_subtype \<longleftrightarrow>
     re_kind_code raw = kind_code k
   \<and> byte_char (re_source_type raw) \<in> set (source_types_by_kind k)
   \<and> flags_ok k (byte_char (re_source_type raw)) (re_flags raw)
   \<and> re_reserved raw = 0 \<and> re_reserved_tail raw = replicate 7 0
   \<and> \<not> event_absent_bad raw
   \<and> check_event_values k raw 0 = Inr ()
   \<and> decode_auxiliary raw 0 = Inr auxiliary
   \<and> decode_subtype k raw 0 = Inr event_subtype"

lemma record_fail_Inr [simp]: "record_fail c i \<noteq> Inr x" "Inr x \<noteq> record_fail c i"
  by (simp_all add: record_fail_def)

lemma require_record [simp]: "require ok (record_fail c i) = Inr u \<longleftrightarrow> ok"
  by (simp add: require_def)

lemma values_index: "check_event_values k raw i = Inr () \<longleftrightarrow> check_event_values k raw 0 = Inr ()"
  by (simp add: check_event_values_def Let_def bindR_eq_Inr)

lemma auxiliary_index: "decode_auxiliary raw i = Inr a \<longleftrightarrow> decode_auxiliary raw 0 = Inr a"
  by (simp add: decode_auxiliary_def)

lemma subtype_index: "decode_subtype k raw i = Inr a \<longleftrightarrow> decode_subtype k raw 0 = Inr a"
  by (simp add: decode_subtype_def)

lemma decode_event_Inr:
  "decode_event b metadata prior i = Inr (r, after) \<longleftrightarrow>
     (\<exists>raw k auxiliary event_subtype. raw_event_holds raw \<and> b = pack_event raw
        \<and> raw_event_ok k raw auxiliary event_subtype
        \<and> re_symbol_id raw \<noteq> 0 \<and> re_symbol_id raw \<le> int (length (md_symbols metadata))
        \<and> re_timestamp_ns raw < DAY_NS
        \<and> follows prior (re_message_index raw) (re_timestamp_ns raw)
        \<and> r = event_of_raw metadata k raw auxiliary event_subtype
        \<and> after = advance_ordering (re_message_index raw) (re_timestamp_ns raw))"
  (is "?L \<longleftrightarrow> ?R")
proof
  assume ?L
  then show ?R
    unfolding decode_event_def event_layout.unpack_bind_Inr Let_def
    by (auto simp: bindR_eq_Inr event_kind_by_code_iff event_flags_iff validate_ordering_Inr
        raw_event_ok_def values_index [of _ _ i] auxiliary_index [of _ i] subtype_index [of _ _ i]
        split: option.splits; blast)
next
  assume ?R
  then obtain raw k auxiliary event_subtype where
    raw: "raw_event_holds raw" "b = pack_event raw" and ok: "raw_event_ok k raw auxiliary event_subtype"
    and ord: "validate_ordering (re_message_index raw) (re_timestamp_ns raw) (re_symbol_id raw)
                metadata prior i = Inr ()"
    and r: "r = event_of_raw metadata k raw auxiliary event_subtype"
      "after = advance_ordering (re_message_index raw) (re_timestamp_ns raw)"
    by (auto simp: validate_ordering_Inr)
  have "event_kind_by_code (re_kind_code raw) = Some k"
    using ok by (simp add: event_kind_by_code_iff raw_event_ok_def)
  then show ?L
    unfolding decode_event_def event_layout.unpack_bind_Inr Let_def
    using raw ok ord r
    by (intro exI [of _ raw])
      (simp add: bindR_eq_Inr event_flags_iff raw_event_ok_def values_index [of _ _ i]
        auxiliary_index [of _ i] subtype_index [of _ _ i])
qed

lemma event_absent_iff:
  "\<not> event_absent_bad raw \<longleftrightarrow> (let f = re_flags raw in
     (if bit f 0 then re_primary_reference raw else 0) = re_primary_reference raw
   \<and> (if bit f 1 then re_secondary_reference raw else 0) = re_secondary_reference raw
   \<and> (if bit f 2 then re_side raw else 0) = re_side raw
   \<and> (if bit f 3 then re_price4 raw else 0) = re_price4 raw
   \<and> (if bit f 4 then re_quantity raw else 0) = re_quantity raw
   \<and> (if bit f 5 then re_remaining_quantity raw else 0) = re_remaining_quantity raw
   \<and> (if bit f 6 then re_execution_price4 raw else 0) = re_execution_price4 raw
   \<and> (if bit f 8 then re_subtype raw else 0) = re_subtype raw
   \<and> (if bit f 7 then re_auxiliary raw else replicate 4 0) = re_auxiliary raw)"
  by (auto simp: event_absent_bad_def Let_def flag_bits uint_0_iff)

lemma check_event_values_iff:
  "check_event_values k raw 0 = Inr () \<longleftrightarrow> (let f = re_flags raw in
     (bit f 2 \<longrightarrow> re_side raw = -1 \<or> re_side raw = 1) \<and> (\<not> bit f 2 \<longrightarrow> re_side raw = 0)
   \<and> (bit f 4 \<longrightarrow> re_quantity raw \<noteq> 0)
   \<and> (k = ADD \<or> k = REPLACE \<longrightarrow> re_remaining_quantity raw = re_quantity raw)
   \<and> (k = DELETE \<longrightarrow> re_remaining_quantity raw = 0))"
  by (auto simp: check_event_values_def Let_def bindR_eq_Inr flag_bits)

lemma decode_auxiliary_iff:
  assumes "length (re_auxiliary raw) = 4"
  shows "decode_auxiliary raw 0 = Inr a \<longleftrightarrow>
     (if bit (re_flags raw) 7 then \<exists>s. a = Some s \<and> padded_text 4 s \<and> re_auxiliary raw = ljust 4 s
      else a = None)"
proof (cases "bit (re_flags raw) 7")
  case True
  have "decode_auxiliary raw 0 = Inr a \<longleftrightarrow> \<not> list_ex unprintable (re_auxiliary raw)
      \<and> a = Some (rstrip CHR '' '' (map byte_char (re_auxiliary raw)))"
    using True by (simp add: decode_auxiliary_def flag_bits eq_commute)
  also have "\<dots> \<longleftrightarrow> (\<exists>s. a = Some s \<and> \<not> list_ex unprintable (re_auxiliary raw)
      \<and> s = rstrip CHR '' '' (map byte_char (re_auxiliary raw)))" by blast
  finally show ?thesis using True by (simp only: padded_text_iff [OF assms] if_True)
qed (auto simp: decode_auxiliary_def flag_bits)

lemma decode_subtype_iff:
  "decode_subtype k raw 0 = Inr a \<longleftrightarrow>
     (if bit (re_flags raw) 8
      then \<exists>c. a = Some c \<and> re_subtype raw = char_byte c \<and> (of_char c :: int) \<le> 127
             \<and> (k = TRADING_STATE \<longrightarrow> c \<in> set ''HPQT'')
      else a = None)"
proof (cases "bit (re_flags raw) 8")
  case True
  have "(\<exists>c. a = Some c \<and> re_subtype raw = char_byte c \<and> P c)
      \<longleftrightarrow> a = Some (byte_char (re_subtype raw)) \<and> P (byte_char (re_subtype raw))" for P
    by (metis byte_char_byte char_byte_char)
  with True show ?thesis
    by (auto simp: decode_subtype_def flag_bits of_char_byte_char)
qed (auto simp: decode_subtype_def flag_bits)

lemma decoded_event_wire:
  assumes holds: "raw_event_holds raw" and ok: "raw_event_ok k raw auxiliary event_subtype"
    and sid: "re_symbol_id raw \<noteq> 0" "re_symbol_id raw \<le> int (length (md_symbols metadata))"
    and t: "re_timestamp_ns raw < DAY_NS"
  defines "r \<equiv> event_of_raw metadata k raw auxiliary event_subtype"
  shows "wire_event metadata r \<and> raw_of_event r = raw"
proof -
  have aux4: "length (re_auxiliary raw) = 4" using holds by (simp add: raw_event_holds_def)
  note facts = ok [unfolded raw_event_ok_def event_absent_iff check_event_values_iff
      decode_auxiliary_iff [OF aux4] decode_subtype_iff Let_def]
  have sel: "er_trading_date r = md_trading_date metadata" "er_message_index r = re_message_index raw"
    "er_timestamp_ns r = re_timestamp_ns raw" "er_symbol_id r = re_symbol_id raw"
    "er_event_kind r = k" "er_source_type r = byte_char (re_source_type raw)"
    "er_primary_reference r = (if bit (re_flags raw) 0 then Some (re_primary_reference raw) else None)"
    "er_secondary_reference r = (if bit (re_flags raw) 1 then Some (re_secondary_reference raw) else None)"
    "er_side r = (if bit (re_flags raw) 2 then Some (re_side raw) else None)"
    "er_price4 r = (if bit (re_flags raw) 3 then Some (re_price4 raw) else None)"
    "er_quantity r = (if bit (re_flags raw) 4 then Some (re_quantity raw) else None)"
    "er_remaining_quantity r = (if bit (re_flags raw) 5 then Some (re_remaining_quantity raw) else None)"
    "er_execution_price4 r = (if bit (re_flags raw) 6 then Some (re_execution_price4 raw) else None)"
    "er_aux_code r = auxiliary" "er_event_subtype r = event_subtype"
    "er_in_session r = bit (re_flags raw) 9" "er_flags r = re_flags raw"
    by (simp_all add: r_def event_of_raw_def Let_def flagged_def flag_bits)
  have "decode_auxiliary raw 0 = Inr auxiliary" using ok by (simp add: raw_event_ok_def)
  note auxf = this [unfolded decode_auxiliary_iff [OF aux4]]
  then have aux: "bit (re_flags raw) 7 \<longleftrightarrow> auxiliary \<noteq> None" "opt_all (padded_text 4) auxiliary"
    by (auto simp: opt_all_def split: if_splits)
  have "decode_subtype k raw 0 = Inr event_subtype" using ok by (simp add: raw_event_ok_def)
  note subf = this [unfolded decode_subtype_iff]
  then have sub: "bit (re_flags raw) 8 \<longleftrightarrow> event_subtype \<noteq> None"
    "opt_all (\<lambda>c. (of_char c :: int) \<le> 127 \<and> (k = TRADING_STATE \<longrightarrow> c \<in> set ''HPQT'')) event_subtype"
    by (auto simp: opt_all_def split: if_splits)
  have vals: "bit (re_flags raw) 2 \<longrightarrow> re_side raw = -1 \<or> re_side raw = 1"
    "bit (re_flags raw) 4 \<longrightarrow> re_quantity raw \<noteq> 0"
    using facts by blast+
  have presence: "event_presence r"
    unfolding event_presence_def sel Let_def using aux sub by simp
  have t0: "0 \<le> re_timestamp_ns raw" using holds by (simp add: raw_event_holds_def uint_in_def)
  have values_ok: "event_values_ok r"
    unfolding event_values_ok_def sel opt_all_if
    using aux(2) sub(2) vals t t0 holds [unfolded raw_event_holds_def] by blast
  have fl: "flags_ok k (byte_char (re_source_type raw)) (re_flags raw)" using facts by blast
  have bits: "k = ADD \<or> k = REPLACE \<or> k = DELETE \<longrightarrow> bit (re_flags raw) 4 \<and> bit (re_flags raw) 5"
    using fl by (auto simp: flags_ok_def lifecycle_kind_def)
  have lc: "k = ADD \<or> k = REPLACE \<longrightarrow> re_remaining_quantity raw = re_quantity raw"
    "k = DELETE \<longrightarrow> re_remaining_quantity raw = 0" using facts by blast+
  have remaining_ok: "event_remaining_ok r"
    unfolding event_remaining_ok_def sel using bits lc by (cases k) simp_all
  have "1 \<le> re_symbol_id raw"
    using sid(1) holds by (simp add: raw_event_holds_def uint_in_def)
  moreover have "byte_char (re_source_type raw) \<in> set (source_types_by_kind k)"
    using facts by blast
  ultimately have wire: "wire_event metadata r"
    unfolding wire_event_def sel using sid(2) fl presence values_ok remaining_ok by blast
  have zero: "zero_if_absent (if b then Some x else None) = (if b then x else 0)" for b x
    by (simp add: zero_if_absent_def)
  have "\<not> event_absent_bad raw" using ok by (simp add: raw_event_ok_def)
  note absent = this [unfolded event_absent_iff Let_def]
  have codes: "re_kind_code raw = kind_code k" "re_reserved raw = 0"
    "re_reserved_tail raw = replicate 7 0" using facts by blast+
  have "(case auxiliary of None \<Rightarrow> replicate 4 0 | Some s \<Rightarrow> ljust 4 s) = re_auxiliary raw"
    using auxf absent by (cases "bit (re_flags raw) 7") auto
  moreover have "(case event_subtype of None \<Rightarrow> 0 | Some c \<Rightarrow> char_byte c) = re_subtype raw"
  proof (cases "bit (re_flags raw) 8")
    case True
    then obtain c where "event_subtype = Some c" "re_subtype raw = char_byte c"
      using subf by (simp only: if_True) blast
    then show ?thesis by (simp only: option.case)
  next
    case False
    then have "event_subtype = None" "re_subtype raw = 0"
      using subf absent by (simp_all only: if_False simp_thms)
    then show ?thesis by (simp only: option.case)
  qed
  ultimately have "raw_of_event r = raw"
    unfolding raw_of_event_def sel zero
    by (intro raw_event.equality, simp_all only: raw_event.simps char_byte_char absent codes) simp
  then show ?thesis using wire by simp
qed

lemma present_iff: "(b \<longleftrightarrow> x \<noteq> None) \<Longrightarrow> (if b then Some (zero_if_absent x) else None) = x"
  by (cases x) (simp_all add: zero_if_absent_def)

lemma absent_zero: "(b \<longleftrightarrow> x \<noteq> None) \<Longrightarrow> (if b then zero_if_absent x else 0) = zero_if_absent x"
  by (cases x) (simp_all add: zero_if_absent_def)

lemma zero_if_absent_in: "opt_all (uint_in n) x \<Longrightarrow> uint_in n (zero_if_absent x)"
  by (cases x) (simp_all add: opt_all_def zero_if_absent_def uint_in_def)

lemma opt_all_value: "opt_all P x \<Longrightarrow> x \<noteq> None \<Longrightarrow> P (zero_if_absent x)"
  by (auto simp: opt_all_def zero_if_absent_def)

lemma wire_event_raw:
  assumes wire: "wire_event metadata r"
  defines "raw \<equiv> raw_of_event r"
  shows "raw_event_holds raw" "raw_event_ok (er_event_kind r) raw (er_aux_code r) (er_event_subtype r)"
    "event_of_raw metadata (er_event_kind r) raw (er_aux_code r) (er_event_subtype r) = r"
proof -
  let ?f = "er_flags r" and ?k = "er_event_kind r"
  have p: "event_presence r" and v: "event_values_ok r" and rem: "event_remaining_ok r"
    and fl: "flags_ok ?k (er_source_type r) ?f" and day: "er_trading_date r = md_trading_date metadata"
    and src: "er_source_type r \<in> set (source_types_by_kind ?k)"
    using wire unfolding wire_event_def by blast+
  note p = p [unfolded event_presence_def Let_def]
  note v = v [unfolded event_values_ok_def]
  have q: "opt_all (uint_in 8) (er_quantity r)" "opt_all (\<lambda>q. q \<noteq> 0) (er_quantity r)"
    using v by (auto simp: opt_all_def split: option.splits)
  have side: "er_side r \<noteq> None \<longrightarrow> zero_if_absent (er_side r) = -1 \<or> zero_if_absent (er_side r) = 1"
    "er_side r = None \<longrightarrow> zero_if_absent (er_side r) = 0"
    using v opt_all_value [of "\<lambda>s. s = -1 \<or> s = 1" "er_side r"] by (auto simp: zero_if_absent_def)
  have sel: "re_message_index raw = er_message_index r" "re_timestamp_ns raw = er_timestamp_ns r"
    "re_primary_reference raw = zero_if_absent (er_primary_reference r)"
    "re_secondary_reference raw = zero_if_absent (er_secondary_reference r)"
    "re_quantity raw = zero_if_absent (er_quantity r)" "re_price4 raw = zero_if_absent (er_price4 r)"
    "re_remaining_quantity raw = zero_if_absent (er_remaining_quantity r)"
    "re_execution_price4 raw = zero_if_absent (er_execution_price4 r)"
    "re_symbol_id raw = er_symbol_id r" "re_kind_code raw = kind_code ?k"
    "re_side raw = zero_if_absent (er_side r)" "byte_char (re_source_type raw) = er_source_type r"
    "re_flags raw = ?f" "re_reserved raw = 0" "re_reserved_tail raw = replicate 7 0"
    "re_auxiliary raw = (case er_aux_code r of None \<Rightarrow> replicate 4 0 | Some s \<Rightarrow> ljust 4 s)"
    "re_subtype raw = (case er_event_subtype r of None \<Rightarrow> 0 | Some c \<Rightarrow> char_byte c)"
    by (simp_all add: raw_def raw_of_event_def)
  have aux: "opt_all (padded_text 4) (er_aux_code r)" using v by blast
  have auxlen: "length (re_auxiliary raw) = 4"
    unfolding sel using aux by (auto simp: opt_all_def padded_text_def ljust_def split: option.splits)
  have "uint_in 8 (er_timestamp_ns r)" using v by (simp add: uint_in_def DAY_NS_def)
  then show holds: "raw_event_holds raw"
    unfolding raw_event_holds_def sel(1-15) using auxlen v q(1) side
    by (cases "er_side r") (auto intro: zero_if_absent_in)
  have "\<not> event_absent_bad raw"
    unfolding event_absent_iff Let_def sel using p
    by (intro conjI absent_zero) (auto split: option.splits)
  moreover have "check_event_values ?k raw 0 = Inr ()"
    unfolding check_event_values_iff Let_def sel
    using p side opt_all_value [OF q(2)] rem [unfolded event_remaining_ok_def]
    by (auto simp: zero_if_absent_def)
  moreover have "decode_auxiliary raw 0 = Inr (er_aux_code r)"
    unfolding decode_auxiliary_iff [OF auxlen] sel
    using p aux by (cases "er_aux_code r") (simp_all add: opt_all_def)
  moreover have "decode_subtype ?k raw 0 = Inr (er_event_subtype r)"
    unfolding decode_subtype_iff sel
    using p v by (cases "er_event_subtype r") (simp_all add: opt_all_def)
  ultimately show "raw_event_ok ?k raw (er_aux_code r) (er_event_subtype r)"
    unfolding raw_event_ok_def sel(10,12-15) using src fl by blast
  show "event_of_raw metadata ?k raw (er_aux_code r) (er_event_subtype r) = r"
    unfolding event_of_raw_def Let_def flagged_def flag_bits sel
    using p day by (intro event_record.equality) (simp_all add: present_iff)
qed

text \<open>An event record and its ordering constraints determine its bytes and the state after it.\<close>

lemma decode_event_iff:
  "decode_event b metadata prior i = Inr (r, after) \<longleftrightarrow>
     wire_event metadata r \<and> follows prior (er_message_index r) (er_timestamp_ns r)
   \<and> b = encode_event r \<and> after = advance_ordering (er_message_index r) (er_timestamp_ns r)"
  (is "?L \<longleftrightarrow> ?R")
proof
  assume ?L
  then obtain raw k a s where h: "raw_event_holds raw" "b = pack_event raw" "raw_event_ok k raw a s"
    "re_symbol_id raw \<noteq> 0" "re_symbol_id raw \<le> int (length (md_symbols metadata))"
    "re_timestamp_ns raw < DAY_NS" "follows prior (re_message_index raw) (re_timestamp_ns raw)"
    "r = event_of_raw metadata k raw a s"
    "after = advance_ordering (re_message_index raw) (re_timestamp_ns raw)"
    unfolding decode_event_Inr by blast
  have "wire_event metadata r \<and> raw_of_event r = raw"
    unfolding h(8) by (rule decoded_event_wire [OF h(1,3,4,5,6)])
  moreover have "er_message_index r = re_message_index raw" "er_timestamp_ns r = re_timestamp_ns raw"
    by (simp_all add: h(8) event_of_raw_def Let_def)
  ultimately show ?R using h(2,7,9) by (simp add: encode_event_def)
next
  assume R: ?R
  let ?raw = "raw_of_event r"
  have sel: "re_message_index ?raw = er_message_index r" "re_timestamp_ns ?raw = er_timestamp_ns r"
    "re_symbol_id ?raw = er_symbol_id r"
    by (simp_all add: raw_of_event_def)
  have "1 \<le> er_symbol_id r" "er_symbol_id r \<le> int (length (md_symbols metadata))"
    "er_timestamp_ns r < DAY_NS"
    using R by (simp_all add: wire_event_def event_values_ok_def)
  then show ?L
    unfolding decode_event_Inr using R wire_event_raw [of metadata r]
    by (intro exI [of _ ?raw] exI [of _ "er_event_kind r"] exI [of _ "er_aux_code r"]
        exI [of _ "er_event_subtype r"]) (simp add: sel encode_event_def)
qed

end
