(* ===== verification/Chunked_Reading.thy ===== *)
theory Chunked_Reading
  imports Interchange_Reader Event_Codec "HOL-Library.Sublist"
begin

text \<open>
  The generators of \<open>interchange/readers.py\<close> against a reference without chunks: decode the
  records of the region one after the other until the first that fails. The generators end for
  every chunk size, and what they yield is what the reference yields.
\<close>

section \<open>Batches of records\<close>

definition split_records :: "nat \<Rightarrow> nat \<Rightarrow> bytes \<Rightarrow> bytes list" where
  "split_records record_size n bs = map (\<lambda>i. field (i * record_size) record_size bs) [0..<n]"

fun decode_all ::
  "'r decoder \<Rightarrow> interchange_metadata \<Rightarrow> ordering_state \<Rightarrow> nat \<Rightarrow> bytes list
     \<Rightarrow> 'r list \<times> read_error option" where
  "decode_all decode metadata prior record_index [] = ([], None)"
| "decode_all decode metadata prior record_index (b # bs) = (
     case decode b metadata prior record_index of
       Inl e \<Rightarrow> ([], Some e)
     | Inr (r, prior') \<Rightarrow>
         (let (rs, e) = decode_all decode metadata prior' (Suc record_index) bs in (r # rs, e)))"

lemma record_offsets_exact:
  assumes "0 < record_size"
  shows "record_offsets (n * record_size) record_size = map (\<lambda>i. i * record_size) [0..<n]"
proof -
  have "(n * record_size + (record_size - 1)) div record_size = n"
    using div_mult_self3 [of record_size n "record_size - 1"] assms by simp
  then show ?thesis using assms by (simp add: record_offsets_def)
qed

text \<open>The same batch as a decoding of its records, and what it leaves to the reference.\<close>

lemma decode_batch_all:
  "case decode_batch decode encoded metadata prior record_index offsets of
     Inl e \<Rightarrow> \<exists>rs. decode_all decode metadata prior record_index
                (map (\<lambda>a. field a (md_record_size metadata) encoded) offsets @ rest) = (rs, Some e)
   | Inr (rs, prior') \<Rightarrow> length rs = length offsets
       \<and> decode_all decode metadata prior record_index
            (map (\<lambda>a. field a (md_record_size metadata) encoded) offsets @ rest)
         = (let (rs', e) = decode_all decode metadata prior' (record_index + length offsets) rest
            in (rs @ rs', e))"
proof (induction offsets arbitrary: prior record_index)
  case Nil
  then show ?case by simp
next
  case (Cons a offsets)
  show ?case
  proof (cases "decode (field a (md_record_size metadata) encoded) metadata prior record_index")
    case (Inr v)
    obtain r prior' where v: "v = (r, prior')" by (cases v)
    show ?thesis
      using Cons.IH [of prior' "Suc record_index"] Inr v
      by (cases "decode_batch decode encoded metadata prior' (Suc record_index) offsets")
        (auto split: prod.splits)
  qed simp
qed

lemma split_records_append:
  assumes "length bs = n * record_size"
  shows "split_records record_size (n + m) (bs @ cs)
    = split_records record_size n bs @ split_records record_size m cs"
proof -
  have head: "field (i * record_size) record_size (bs @ cs) = field (i * record_size) record_size bs"
    if "i < n" for i
  proof -
    have "Suc i * record_size \<le> n * record_size" using that by (intro mult_le_mono1) simp
    then show ?thesis using assms by (simp add: field_def)
  qed
  have tail: "field ((i + n) * record_size) record_size (bs @ cs) = field (i * record_size) record_size cs" for i
    using assms by (simp add: field_def add_mult_distrib)
  have "[0..<n + m] = [0..<n] @ map (\<lambda>i. i + n) [0..<m]"
    using upt_add_eq_append [of 0 n m] map_add_upt [of n m] by (simp add: add.commute)
  then show ?thesis by (simp add: split_records_def head tail comp_def)
qed

lemma length_split_records [simp]: "length (split_records k n bs) = n"
  by (simp add: split_records_def)

section \<open>The generator's loop\<close>

lemma batch_count_pos:
  "0 < chunk_records \<Longrightarrow> i < md_record_count metadata
     \<Longrightarrow> 0 < bounded_batch_count metadata chunk_records (md_record_count metadata - i)
       \<and> bounded_batch_count metadata chunk_records (md_record_count metadata - i) \<le> md_record_count metadata - i
       \<and> bounded_batch_count metadata chunk_records (md_record_count metadata - i) \<le> chunk_records
       \<and> (0 < md_record_size metadata \<and> md_record_size metadata \<le> MAX_BATCH_BYTES \<longrightarrow>
            bounded_batch_count metadata chunk_records (md_record_count metadata - i) * md_record_size metadata
              \<le> MAX_BATCH_BYTES)"
proof -
  assume "0 < chunk_records" and "i < md_record_count metadata"
  let ?limit = "MAX_BATCH_BYTES div md_record_size metadata"
  have "max 1 ?limit * md_record_size metadata \<le> MAX_BATCH_BYTES"
    if "0 < md_record_size metadata" "md_record_size metadata \<le> MAX_BATCH_BYTES"
  proof -
    have "1 \<le> ?limit" using that by (simp add: Suc_le_eq div_greater_zero_iff)
    then show ?thesis by (simp add: max_def)
  qed
  then have "min a (min (max 1 ?limit) c) * md_record_size metadata \<le> MAX_BATCH_BYTES"
    if "0 < md_record_size metadata" "md_record_size metadata \<le> MAX_BATCH_BYTES" for a c
    using that by (meson le_trans min.cobounded1 min.cobounded2 mult_le_mono1)
  with \<open>0 < chunk_records\<close> \<open>i < md_record_count metadata\<close> show ?thesis
    unfolding bounded_batch_count_def Let_def by (auto simp: min_def)
qed

text \<open>
  The loop over the whole region: it ends; what it yields is a prefix of the reference, all of it
  unless an exception ends it; and the exception is the reference's, or the file changed.
\<close>

lemma read_batches_all:
  assumes "0 < chunk_records" "0 < md_record_size metadata"
    and "length stream = (md_record_count metadata - i) * md_record_size metadata"
    and "i \<le> md_record_count metadata"
    and "decode_all decode metadata prior i
          (split_records (md_record_size metadata) (md_record_count metadata - i) stream) = (rs, e)"
  shows "\<exists>bs e'. read_batches decode file metadata chunk_records recheck i prior stream = Some (bs, e')
     \<and> prefix (concat bs) rs
     \<and> (e' = None \<longrightarrow> e = None \<and> concat bs = rs)
     \<and> ((\<forall>k. af_unchanged file k) \<longrightarrow> e' = e)
     \<and> list_all (\<lambda>b. b \<noteq> [] \<and> length b \<le> chunk_records) bs"
  using assms(3-5)
proof (induction "md_record_count metadata - i" arbitrary: i prior stream recheck rs rule: less_induct)
  case less
  let ?m = "md_record_count metadata" and ?k = "md_record_size metadata"
  show ?case
  proof (cases "i < ?m")
    case False
    then have "read_batches decode file metadata chunk_records recheck i prior stream = Some ([], None)"
      by (simp add: read_batches.simps)
    moreover have "rs = []" "e = None" using False less.prems by (simp_all add: split_records_def)
    ultimately show ?thesis by simp
  next
    case True
    define n where "n = bounded_batch_count metadata chunk_records (?m - i)"
    have n: "0 < n" "n \<le> ?m - i" "n \<le> chunk_records"
      using batch_count_pos [OF assms(1) True] by (simp_all add: n_def)
    define encoded where "encoded = take (n * ?k) stream"
    define stream' where "stream' = drop (n * ?k) stream"
    have "n * ?k \<le> length stream" using n(2) less.prems(1) by simp
    then have enc: "length encoded = n * ?k" "stream = encoded @ stream'"
      by (simp_all add: encoded_def stream'_def)
    then have len': "length stream' = (?m - (i + n)) * ?k"
      using less.prems(1) n(2) by (simp add: algebra_simps diff_mult_distrib)
    have exact: "read_exact stream (n * ?k) = Inr (encoded, stream')"
      using enc(1) by (simp add: read_exact_def encoded_def stream'_def)
    let ?offsets = "record_offsets (length encoded) ?k"
    have offs: "?offsets = map (\<lambda>j. j * ?k) [0..<n]"
      unfolding enc(1) by (rule record_offsets_exact [OF assms(2)])
    have recs: "split_records ?k (?m - i) stream
        = map (\<lambda>a. field a ?k encoded) ?offsets @ split_records ?k (?m - (i + n)) stream'"
    proof -
      have "?m - i = n + (?m - (i + n))" using n(2) by simp
      then show ?thesis
        using split_records_append [OF enc(1), of "?m - (i + n)" stream']
        unfolding enc(2) [symmetric] offs by (simp add: split_records_def comp_def)
    qed
    note batch = decode_batch_all [where decode = decode and encoded = encoded and metadata = metadata
        and prior = prior and record_index = i and offsets = ?offsets
        and rest = "split_records ?k (?m - (i + n)) stream'", folded recs]
    have step: "read_batches decode file metadata chunk_records recheck i prior stream =
        (case decode_batch decode encoded metadata prior i ?offsets of
          Inl e \<Rightarrow> Some ([], Some e)
        | Inr (records, prior') \<Rightarrow>
        (case ensure_unchanged file recheck of
          Inl e \<Rightarrow> Some ([], Some e)
        | Inr _ \<Rightarrow>
          Option.bind (read_batches decode file metadata chunk_records (Suc recheck) (i + n) prior' stream')
            (\<lambda>(batches, e). Some (records # batches, e))))"
      using True exact by (subst read_batches.simps) (simp add: Let_def flip: n_def)
    show ?thesis
    proof (cases "decode_batch decode encoded metadata prior i ?offsets")
      case (Inl err)
      then have "e = Some err" using batch less.prems(3) by auto
      moreover have "read_batches decode file metadata chunk_records recheck i prior stream = Some ([], Some err)"
        unfolding step using Inl by simp
      ultimately show ?thesis by simp
    next
      case (Inr v)
      obtain records prior' where v: "v = (records, prior')" by (cases v)
      obtain rs' where rest: "decode_all decode metadata prior' (i + n)
            (split_records ?k (?m - (i + n)) stream') = (rs', e)" and rs: "rs = records @ rs'"
        and lr: "length records = n"
        using batch less.prems(3) Inr v by (auto simp: offs split: prod.splits)
      show ?thesis
      proof (cases "af_unchanged file recheck")
        case False
        then have "read_batches decode file metadata chunk_records recheck i prior stream
            = Some ([], Some (Read_Error ERR_HASH_MISMATCH None))"
          unfolding step using Inr v False by (simp add: ensure_unchanged_def read_fail_def)
        then show ?thesis using False by auto
      next
        case unchanged: True
        obtain bs e' where IH: "read_batches decode file metadata chunk_records (Suc recheck) (i + n) prior' stream'
              = Some (bs, e')" "prefix (concat bs) rs'" "e' = None \<longrightarrow> e = None \<and> concat bs = rs'"
            "(\<forall>k. af_unchanged file k) \<longrightarrow> e' = e" "list_all (\<lambda>b. b \<noteq> [] \<and> length b \<le> chunk_records) bs"
        proof -
          have "?m - (i + n) < ?m - i" "i + n \<le> ?m" using True n by simp_all
          from less.hyps [OF this(1) len' this(2) rest, of "Suc recheck"] show ?thesis
            using that by blast
        qed
        have "read_batches decode file metadata chunk_records recheck i prior stream
            = Some (records # bs, e')"
          unfolding step using Inr v unchanged IH(1) by (simp add: ensure_unchanged_def)
        then show ?thesis using IH lr n rs by auto
      qed
    qed
  qed
qed

end
