(* ===== verification/Reader_Properties.thy ===== *)
theory Reader_Properties
  imports Chunked_Reading
begin

unbundle bit_operations_syntax

text \<open>
  What an accepted interchange file is: its header and dictionary are canonical, its records are
  the encodings of the records that the generators yield, and its digest is the expected one.
\<close>

section \<open>Layouts of the header and of a dictionary entry\<close>

definition pack_header :: "raw_header \<Rightarrow> bytes" where
  "pack_header raw =
     rh_magic raw @ le_bytes 2 (rh_schema_version raw) @ le_bytes 2 (rh_header_size raw)
     @ le_bytes 2 (rh_record_size raw) @ le_bytes 2 (rh_depth raw) @ le_bytes 4 (rh_price_scale raw)
     @ le_bytes 4 (rh_trading_date raw) @ le_bytes 2 (rh_symbol_count raw)
     @ le_bytes 2 (uint (rh_header_flags raw)) @ le_bytes 8 (rh_record_count raw)
     @ rh_config_hash raw @ rh_source_hash raw @ rh_reserved raw"

definition raw_header_holds :: "raw_header \<Rightarrow> bool" where
  "raw_header_holds raw \<longleftrightarrow> length (rh_magic raw) = 8
   \<and> uint_in 2 (rh_schema_version raw) \<and> uint_in 2 (rh_header_size raw)
   \<and> uint_in 2 (rh_record_size raw) \<and> uint_in 2 (rh_depth raw) \<and> uint_in 4 (rh_price_scale raw)
   \<and> uint_in 4 (rh_trading_date raw) \<and> uint_in 2 (rh_symbol_count raw)
   \<and> uint_in 8 (rh_record_count raw) \<and> length (rh_config_hash raw) = 32
   \<and> length (rh_source_hash raw) = 32 \<and> length (rh_reserved raw) = 4"

lemma pack_unpack_header:
  assumes "unpack_header bs = Inr raw"
  shows "raw_header_holds raw \<and> pack_header raw = bs"
proof -
  have len: "length bs = 104"
    using assms by (simp add: unpack_header_def HEADER_SIZE_def split: if_splits)
  have raw: "raw = \<lparr>rh_magic = field 0 8 bs, rh_schema_version = le_value (field 8 2 bs),
     rh_header_size = le_value (field 10 2 bs), rh_record_size = le_value (field 12 2 bs),
     rh_depth = le_value (field 14 2 bs), rh_price_scale = le_value (field 16 4 bs),
     rh_trading_date = le_value (field 20 4 bs), rh_symbol_count = le_value (field 24 2 bs),
     rh_header_flags = word_of_int (le_value (field 26 2 bs)),
     rh_record_count = le_value (field 28 8 bs), rh_config_hash = field 36 32 bs,
     rh_source_hash = field 68 32 bs, rh_reserved = field 100 4 bs\<rparr>"
    using assms len by (simp add: unpack_header_def HEADER_SIZE_def)
  have holds: "raw_header_holds raw"
    unfolding raw raw_header_holds_def using len by (simp add: uint_in_field length_field)
  have "pack_header raw = field 0 8 bs @ field 8 2 bs @ field 10 2 bs @ field 12 2 bs @ field 14 2 bs
      @ field 16 4 bs @ field 20 4 bs @ field 24 2 bs @ field 26 2 bs @ field 28 8 bs
      @ field 36 32 bs @ field 68 32 bs @ field 100 4 bs"
    unfolding raw pack_header_def using len by (simp add: le_bytes_field flags_field)
  also have "\<dots> = field 0 104 bs"
    by (simp add: field_join)
  also have "\<dots> = bs" using len by (simp add: field_all)
  finally show ?thesis using holds by simp
qed

lemma unpack_pack_header:
  assumes "raw_header_holds raw"
  shows "unpack_header (pack_header raw) = Inr raw"
proof -
  have "length (pack_header raw) = 104"
    using assms by (simp add: pack_header_def raw_header_holds_def)
  then show ?thesis
    using assms
    by (simp add: unpack_header_def HEADER_SIZE_def pack_header_def raw_header_holds_def
        field_skip field_here field_all uint_in_value uint_flags_value)
qed

interpretation header_layout: fixed_layout 104 pack_header unpack_header raw_header_holds
proof unfold_locales
  show "unpack_header bs = Inr r \<longleftrightarrow> raw_header_holds r \<and> bs = pack_header r" for bs r
    using pack_unpack_header unpack_pack_header by auto
  show "length (pack_header r) = 104" if "raw_header_holds r" for r
    using that by (simp add: pack_header_def raw_header_holds_def)
  show "unpack_header bs \<noteq> Inl e" if "length bs = 104" for bs e
    using that by (simp add: unpack_header_def HEADER_SIZE_def)
qed

definition pack_symbol :: "raw_symbol \<Rightarrow> bytes" where
  "pack_symbol raw = le_bytes 2 (ry_symbol_id raw) @ le_bytes 2 (ry_stock_locate raw)
     @ ry_symbol raw @ le_bytes 4 (ry_round_lot_size raw)"

definition raw_symbol_holds :: "raw_symbol \<Rightarrow> bool" where
  "raw_symbol_holds raw \<longleftrightarrow> uint_in 2 (ry_symbol_id raw) \<and> uint_in 2 (ry_stock_locate raw)
     \<and> length (ry_symbol raw) = 8 \<and> uint_in 4 (ry_round_lot_size raw)"

interpretation symbol_layout: fixed_layout 16 pack_symbol unpack_symbol raw_symbol_holds
proof unfold_locales
  show "unpack_symbol bs = Inr raw \<longleftrightarrow> raw_symbol_holds raw \<and> bs = pack_symbol raw" for bs raw
  proof
    assume L: "unpack_symbol bs = Inr raw"
    then have len: "length bs = 16" by (simp add: unpack_symbol_def SYMBOL_SIZE_def split: if_splits)
    then have raw: "raw = \<lparr>ry_symbol_id = le_value (field 0 2 bs),
        ry_stock_locate = le_value (field 2 2 bs), ry_symbol = field 4 8 bs,
        ry_round_lot_size = le_value (field 12 4 bs)\<rparr>"
      using L by (simp add: unpack_symbol_def SYMBOL_SIZE_def)
    have "pack_symbol raw = field 0 2 bs @ field 2 2 bs @ field 4 8 bs @ field 12 4 bs"
      unfolding raw pack_symbol_def using len by (simp add: le_bytes_field)
    also have "\<dots> = bs"
      using len by (simp add: field_join field_all)
    finally show "raw_symbol_holds raw \<and> bs = pack_symbol raw"
      unfolding raw raw_symbol_holds_def using len by (simp add: uint_in_field length_field)
  next
    assume R: "raw_symbol_holds raw \<and> bs = pack_symbol raw"
    then show "unpack_symbol bs = Inr raw"
      by (simp add: unpack_symbol_def SYMBOL_SIZE_def pack_symbol_def raw_symbol_holds_def
          field_skip field_here field_all uint_in_value)
  qed
  show "length (pack_symbol r) = 16" if "raw_symbol_holds r" for r
    using that by (simp add: pack_symbol_def raw_symbol_holds_def)
  show "unpack_symbol bs \<noteq> Inl e" if "length bs = 16" for bs e
    using that by (simp add: unpack_symbol_def SYMBOL_SIZE_def)
qed

section \<open>Names, dates and digests\<close>

lemma rstrip_map:
  assumes "inj f"
  shows "rstrip (f c) (map f xs) = map f (rstrip c xs)"
proof -
  have "dropWhile (\<lambda>x. x = f c) (map f ys) = map f (dropWhile (\<lambda>x. x = c) ys)" for ys
    using assms by (induction ys) (simp_all add: inj_eq)
  then show ?thesis by (simp add: rstrip_def rev_map)
qed

lemma inj_char_byte: "inj char_byte"
  by (metis byte_char_byte injI)

definition canonical_name :: "string \<Rightarrow> bool" where
  "canonical_name s \<longleftrightarrow> padded_text 8 s \<and> s \<noteq> [] \<and> hd s \<noteq> CHR '' ''"

lemma parse_symbol_iff:
  assumes "length raw = 8"
  shows "parse_symbol raw = Inr s \<longleftrightarrow> canonical_name s \<and> raw = ljust 8 s"
proof -
  let ?t = "rstrip CHR '' '' (map byte_char raw)"
  have raw: "raw = map char_byte (map byte_char raw)" by (simp add: comp_def)
  have strip: "rstrip (char_byte CHR '' '') raw = map char_byte ?t"
    by (subst raw) (rule rstrip_map [OF inj_char_byte])
  have hd: "?t \<noteq> [] \<Longrightarrow> hd (map char_byte ?t) = char_byte CHR '' '' \<longleftrightarrow> hd ?t = CHR '' ''"
    using inj_char_byte by (simp add: hd_map inj_eq)
  have "parse_symbol raw = Inr s \<longleftrightarrow>
      (\<not> list_ex unprintable raw \<and> s = ?t) \<and> s \<noteq> [] \<and> hd s \<noteq> CHR '' ''"
    unfolding parse_symbol_def Let_def strip using hd
    by (cases "?t = []") (auto simp: read_fail_def comp_def)
  then show ?thesis unfolding padded_text_iff [OF assms] canonical_name_def by blast
qed

lemma trading_date_iff:
  "0 \<le> v \<Longrightarrow> trading_date v = Inr d \<longleftrightarrow>
     valid_date d \<and> v = (case d of (y, m, dd) \<Rightarrow> y * 10000 + m * 100 + dd)"
proof -
  assume v: "0 \<le> v"
  have days: "days_in_month y m \<le> 31" for y m by (simp add: days_in_month_def)
  obtain y m dd where d: "d = (y, m, dd)" by (cases d)
  have parts: "(y * 10000 + m * 100 + dd) div 10000 = y \<and> (y * 10000 + m * 100 + dd) div 100 mod 100 = m
      \<and> (y * 10000 + m * 100 + dd) mod 100 = dd" if "valid_date (y, m, dd)"
  proof -
    have small: "0 \<le> dd" "dd < 100" "0 \<le> m" "m < 100"
      using that days [of y m] by (simp_all add: valid_date_def)
    have "y * 10000 + m * 100 + dd = (y * 100 + m) * 100 + dd" by simp
    then have "(y * 10000 + m * 100 + dd) div 100 = y * 100 + m" "(y * 10000 + m * 100 + dd) mod 100 = dd"
      using small by (simp_all only: div_mult_self3 mod_mult_self3) simp_all
    moreover have "(y * 10000 + m * 100 + dd) div 10000 = (y * 10000 + m * 100 + dd) div 100 div 100"
      by (simp add: zdiv_zmult2_eq [of 100 _ 100, simplified])
    ultimately show ?thesis using small by simp
  qed
  have whole: "v = v div 10000 * 10000 + v div 100 mod 100 * 100 + v mod 100"
  proof -
    have "v div 10000 = v div 100 div 100" using zdiv_zmult2_eq [of 100 v 100] by simp
    then have "v div 10000 * 10000 + v div 100 mod 100 * 100 + v mod 100
        = (v div 100 div 100 * 100 + v div 100 mod 100) * 100 + v mod 100"
      by (simp only: distrib_right mult.assoc)
    also have "\<dots> = v" by (simp only: div_mult_mod_eq)
    finally show ?thesis ..
  qed
  show ?thesis
  proof
    assume "trading_date v = Inr d"
    then have "valid_date d" "d = (v div 10000, v div 100 mod 100, v mod 100)"
      by (simp_all add: trading_date_def Let_def read_fail_def split: if_splits)
    then show "valid_date d \<and> v = (case d of (y, m, dd) \<Rightarrow> y * 10000 + m * 100 + dd)"
      using whole by simp
  next
    assume R: "valid_date d \<and> v = (case d of (y, m, dd) \<Rightarrow> y * 10000 + m * 100 + dd)"
    then have "(v div 10000, v div 100 mod 100, v mod 100) = d" using parts by (simp add: d)
    then show "trading_date v = Inr d" using R by (simp add: trading_date_def Let_def)
  qed
qed

lemma hex_digit_inject: "a < 16 \<Longrightarrow> b < 16 \<Longrightarrow> hex_digit a = hex_digit b \<Longrightarrow> a = b"
proof -
  have "distinct ''0123456789abcdef''" by simp
  then show "a < 16 \<Longrightarrow> b < 16 \<Longrightarrow> hex_digit a = hex_digit b \<Longrightarrow> a = b"
    unfolding hex_digit_def by (simp add: nth_eq_iff_index_eq)
qed

lemma hex_string_inject: "hex_string as = hex_string bs \<Longrightarrow> as = bs"
proof (induction as arbitrary: bs)
  case (Cons a as)
  then obtain b bs' where bs: "bs = b # bs'" by (cases bs) (simp_all add: hex_string_def)
  have lt: "unat w div 16 < 16" "unat w mod 16 < 16" for w :: "8 word"
  proof -
    have "unat w < 256" using unsigned_less [of w] by (simp del: unsigned_less)
    then show "unat w div 16 < 16" "unat w mod 16 < 16" by simp_all
  qed
  have "unat a div 16 = unat b div 16" "unat a mod 16 = unat b mod 16" "hex_string as = hex_string bs'"
    using Cons.prems hex_digit_inject [OF lt(1) lt(1)] hex_digit_inject [OF lt(2) lt(2)]
    by (auto simp: hex_string_def bs)
  then have "a = b" by (metis div_mult_mod_eq word_eq_iff_unsigned)
  then show ?case using Cons.IH [of bs'] \<open>hex_string as = hex_string bs'\<close> by (simp add: bs)
qed (simp add: hex_string_def)

section \<open>The dictionary\<close>

definition encode_symbol :: "symbol_entry \<Rightarrow> bytes" where
  "encode_symbol s = pack_symbol \<lparr>ry_symbol_id = se_symbol_id s, ry_stock_locate = se_stock_locate s,
     ry_symbol = ljust 8 (se_symbol s), ry_round_lot_size = se_round_lot_size s\<rparr>"

text \<open>Identifiers count from one, locates are positive, locates and names are unique.\<close>

definition canonical_symbols :: "symbol_entry list \<Rightarrow> bool" where
  "canonical_symbols ss \<longleftrightarrow>
     map se_symbol_id ss = map (\<lambda>i. int i + 1) [0..<length ss]
   \<and> distinct (map se_stock_locate ss) \<and> distinct (map se_symbol ss)
   \<and> (\<forall>s\<in>set ss. se_stock_locate s \<noteq> 0 \<and> canonical_name (se_symbol s))"

lemma parse_symbols_Inr:
  assumes "parse_symbols stream [length ss..<n] ss = Inr (ss', rest)" "canonical_symbols ss" "length ss \<le> n"
  shows "canonical_symbols ss' \<and> length ss' = n
    \<and> (\<exists>new. ss' = ss @ new \<and> stream = concat (map encode_symbol new) @ rest)"
  using assms
proof (induction "n - length ss" arbitrary: ss stream)
  case 0
  then show ?case by simp
next
  case (Suc m)
  then have lt: "length ss < n" by simp
  then have idx: "[length ss..<n] = length ss # [Suc (length ss)..<n]" by (rule upt_conv_Cons)
  obtain raw stream' name where
    ex: "read_exact stream SYMBOL_SIZE = Inr (pack_symbol raw, stream')" and holds: "raw_symbol_holds raw"
    and name: "parse_symbol (ry_symbol raw) = Inr name"
    and ok: "ry_symbol_id raw = int (length ss) + 1" "ry_stock_locate raw \<noteq> 0"
      "ry_stock_locate raw \<notin> set (map se_stock_locate ss)" "name \<notin> set (map se_symbol ss)"
    and more: "parse_symbols stream' [Suc (length ss)..<n] (ss @ [\<lparr>se_symbol_id = ry_symbol_id raw,
       se_stock_locate = ry_stock_locate raw, se_symbol = name,
       se_round_lot_size = ry_round_lot_size raw\<rparr>]) = Inr (ss', rest)"
    using Suc.prems(1)
    by (auto simp: idx bindR_eq_Inr require_eq_Inr read_fail_def symbol_layout.unpack_Inr)
  define s where "s = \<lparr>se_symbol_id = ry_symbol_id raw, se_stock_locate = ry_stock_locate raw,
    se_symbol = name, se_round_lot_size = ry_round_lot_size raw\<rparr>"
  have nm: "canonical_name name" "ry_symbol raw = ljust 8 name"
    using name holds by (simp_all add: parse_symbol_iff raw_symbol_holds_def)
  have enc: "encode_symbol s = pack_symbol raw"
    by (cases raw) (use nm(2) in \<open>simp add: encode_symbol_def s_def\<close>)
  have "canonical_symbols (ss @ [s])"
    using Suc.prems(2) ok nm(1) by (simp add: canonical_symbols_def s_def)
  then have "canonical_symbols ss' \<and> length ss' = n
      \<and> (\<exists>new. ss' = (ss @ [s]) @ new \<and> stream' = concat (map encode_symbol new) @ rest)"
    using Suc.hyps(1) [of "ss @ [s]" stream'] Suc.hyps(2) more lt by (simp flip: s_def)
  moreover have "stream = encode_symbol s @ stream'"
    using ex enc by (auto simp: read_exact_def Let_def read_fail_def split: if_splits) (metis append_take_drop_id)
  ultimately show ?case by auto
qed

section \<open>The header\<close>

fun magic_of :: "interchange_kind \<Rightarrow> bytes" where
  "magic_of EVENTS = EVENT_MAGIC"
| "magic_of SNAPSHOTS = SNAPSHOT_MAGIC"

definition header_ok :: "interchange_kind \<Rightarrow> raw_header \<Rightarrow> bool" where
  "header_ok kind raw \<longleftrightarrow> rh_magic raw = magic_of kind \<and> rh_schema_version raw = SCHEMA_VERSION
     \<and> rh_header_size raw = int HEADER_SIZE \<and> rh_price_scale raw = PRICE_SCALE
     \<and> rh_symbol_count raw \<noteq> 0 \<and> \<not> flag_set (rh_header_flags raw) 65534
     \<and> rh_reserved raw = replicate 4 0 \<and> valid_layout kind raw
     \<and> rh_config_hash raw \<noteq> replicate 32 0 \<and> rh_source_hash raw \<noteq> replicate 32 0"

lemma magics_differ: "EVENT_MAGIC \<noteq> SNAPSHOT_MAGIC"
proof
  assume "EVENT_MAGIC = SNAPSHOT_MAGIC"
  then have "map byte_char (butlast EVENT_MAGIC) = map byte_char (butlast SNAPSHOT_MAGIC)" by simp
  then show False
    unfolding EVENT_MAGIC_def SNAPSHOT_MAGIC_def by (simp add: comp_def)
qed

lemma kind_by_magic_iff: "kind_by_magic m = Some kind \<longleftrightarrow> m = magic_of kind"
  using magics_differ by (cases kind) (auto simp: kind_by_magic_def)

lemma magic_of_inject [simp]: "magic_of a = magic_of b \<longleftrightarrow> a = b"
  by (metis kind_by_magic_iff option.inject)

lemma check_header_iff: "check_header expected raw = Inr kind \<longleftrightarrow> kind = expected \<and> header_ok expected raw"
proof (cases "kind_by_magic (rh_magic raw)")
  case None
  then have "rh_magic raw \<noteq> magic_of expected" by (metis kind_by_magic_iff option.distinct(1))
  then show ?thesis using None by (simp add: check_header_def header_ok_def read_fail_def)
next
  case (Some k)
  then have "rh_magic raw = magic_of k" by (simp add: kind_by_magic_iff)
  then show ?thesis
    using Some by (auto simp: check_header_def header_ok_def bindR_eq_Inr require_eq_Inr read_fail_def)
qed

lemma degraded_flag:
  fixes w :: "16 word"
  assumes "\<not> flag_set w 65534"
  shows "w = (if flag_set w 1 then 1 else 0)"
proof -
  have "w AND 65534 = 0" using assms by (simp add: flag_set_def)
  then have "\<forall>n<16. \<not> (bit w n \<and> bit (65534 :: 16 word) n)"
    by (metis bit_0_eq bit_and_iff bot_apply bot_bool_def)
  then have "\<not> bit w n" if "0 < n" "n < 16" for n
    using that unfolding all16
    by (auto simp: bit_simps numeral_eq_Suc less_Suc_eq)
  moreover have "flag_set w 1 \<longleftrightarrow> bit w 0" using flag_set_bit [of w 0] by simp
  ultimately show ?thesis
    unfolding flags_eq_iff by (auto simp: bit_1_iff) (metis gr0I)
qed

lemma header_inject:
  assumes "header_ok kind a" "header_ok kind b" "raw_header_holds a" "raw_header_holds b"
    and "rh_symbol_count a = rh_symbol_count b" "rh_trading_date a = rh_trading_date b"
    and "metadata_of kind a ss d sha = metadata_of kind b ss d sha'"
  shows "a = b"
proof -
  have md: "nat (rh_record_size a) = nat (rh_record_size b)" "nat (rh_depth a) = nat (rh_depth b)"
    "nat (rh_record_count a) = nat (rh_record_count b)"
    "flag_set (rh_header_flags a) 1 \<longleftrightarrow> flag_set (rh_header_flags b) 1"
    "hex_string (rh_config_hash a) = hex_string (rh_config_hash b)"
    "hex_string (rh_source_hash a) = hex_string (rh_source_hash b)"
    using assms(7) by (simp_all add: metadata_of_def)
  have "rh_header_flags a = rh_header_flags b"
    using degraded_flag [of "rh_header_flags a"] degraded_flag [of "rh_header_flags b"] md(4) assms(1,2)
    by (simp add: header_ok_def)
  moreover have "rh_record_size a = rh_record_size b" "rh_depth a = rh_depth b"
    "rh_record_count a = rh_record_count b"
  proof -
    have "0 \<le> rh_record_size r \<and> 0 \<le> rh_depth r \<and> 0 \<le> rh_record_count r" if "raw_header_holds r" for r
      using that by (simp add: raw_header_holds_def uint_in_def)
    from this [OF assms(3)] this [OF assms(4)] md(1-3)
    show "rh_record_size a = rh_record_size b" "rh_depth a = rh_depth b"
      "rh_record_count a = rh_record_count b" by (simp_all add: eq_nat_nat_iff)
  qed
  ultimately show ?thesis
    using assms(1,2,5,6) hex_string_inject [OF md(5)] hex_string_inject [OF md(6)]
    by (intro raw_header.equality) (simp_all add: header_ok_def)
qed

section \<open>Accepted files\<close>

lemma length_encode_symbol: "canonical_name (se_symbol s) \<Longrightarrow> length (encode_symbol s) = 16"
  by (simp add: encode_symbol_def pack_symbol_def ljust_def canonical_name_def padded_text_def)

definition leading_bytes :: "raw_header \<Rightarrow> symbol_entry list \<Rightarrow> bytes" where
  "leading_bytes raw ss = pack_header raw @ concat (map encode_symbol ss)"

lemma length_leading_bytes:
  assumes "raw_header_holds raw" "canonical_symbols ss"
  shows "length (leading_bytes raw ss) = HEADER_SIZE + SYMBOL_SIZE * length ss"
proof -
  have "length (concat (map encode_symbol xs)) = 16 * length xs"
    if "\<forall>s\<in>set xs. canonical_name (se_symbol s)" for xs
    using that by (induction xs) (simp_all add: length_encode_symbol)
  then show ?thesis
    using assms header_layout.length_pack [OF assms(1)]
    by (simp add: leading_bytes_def canonical_symbols_def HEADER_SIZE_def SYMBOL_SIZE_def)
qed

lemma parse_metadata_Inr:
  assumes "parse_metadata stream file_size kind sha = Inr (metadata, off)"
  obtains raw ss day rest where
    "header_ok kind raw" "raw_header_holds raw" "canonical_symbols ss"
    "rh_symbol_count raw = int (length ss)" "trading_date (rh_trading_date raw) = Inr day"
    "metadata = metadata_of kind raw ss day sha" "stream = leading_bytes raw ss @ rest"
    "length (leading_bytes raw ss) = off" "file_size = off + md_record_count metadata * md_record_size metadata"
proof -
  obtain raw stream' ss rest day where
    h: "read_exact stream HEADER_SIZE = Inr (pack_header raw, stream')" "raw_header_holds raw"
      "header_ok kind raw" "parse_symbols stream' [0..<nat (rh_symbol_count raw)] [] = Inr (ss, rest)"
      "trading_date (rh_trading_date raw) = Inr day" "metadata = metadata_of kind raw ss day sha"
      "off = HEADER_SIZE + nat (rh_symbol_count raw) * SYMBOL_SIZE"
      "file_size = off + nat (rh_record_count raw) * nat (rh_record_size raw)"
    using assms
    by (auto simp: parse_metadata_def bindR_eq_Inr require_eq_Inr read_fail_def Let_def
        header_layout.unpack_Inr check_header_iff split: prod.splits)
  have "canonical_symbols []" by (simp add: canonical_symbols_def)
  then have ss: "canonical_symbols ss" "length ss = nat (rh_symbol_count raw)"
    "stream' = concat (map encode_symbol ss) @ rest"
    using parse_symbols_Inr [of stream' "[]" "nat (rh_symbol_count raw)" ss rest] h(4) by auto
  have stream: "stream = leading_bytes raw ss @ rest"
    using h(1) ss(3) by (auto simp: leading_bytes_def read_exact_def Let_def read_fail_def split: if_splits)
      (metis append_take_drop_id)
  have "length (leading_bytes raw ss) = off"
    using length_leading_bytes [OF h(2) ss(1)] ss(2) h(7) by simp
  moreover have "rh_symbol_count raw = int (length ss)"
    using ss(2) h(2) by (simp add: raw_header_holds_def uint_in_def)
  ultimately show ?thesis
    using that [of raw ss day rest] h ss(1) stream by (simp add: metadata_of_def)
qed

section \<open>Authenticated files\<close>

definition arguments_ok :: "string \<Rightarrow> int \<Rightarrow> bool" where
  "arguments_ok expected_sha256 chunk_records \<longleftrightarrow>
     length expected_sha256 = 64 \<and> set expected_sha256 \<subseteq> set ''0123456789abcdef'' \<and> 0 < chunk_records"

lemma validate_reader_arguments_iff:
  "validate_reader_arguments expected_sha256 chunk_records = Inr () \<longleftrightarrow>
     arguments_ok expected_sha256 chunk_records"
proof -
  have ex: "list_ex (\<lambda>c. c \<notin> S) xs \<longleftrightarrow> \<not> set xs \<subseteq> S" for S and xs :: string
    by (auto simp: list_ex_iff)
  show ?thesis
    unfolding validate_reader_arguments_def arguments_ok_def ex read_fail_def
    by (cases "length expected_sha256 = 64"; cases "set expected_sha256 \<subseteq> set ''0123456789abcdef''")
      (simp_all only: simp_thms if_True if_False not_less not_le sum.distinct split: if_split)
qed

text \<open>The shape of the metadata of an accepted file: the layout of its kind.\<close>

definition metadata_ok :: "interchange_kind \<Rightarrow> interchange_metadata \<Rightarrow> bool" where
  "metadata_ok kind metadata \<longleftrightarrow> md_kind metadata = kind
     \<and> (case kind of EVENTS \<Rightarrow> md_record_size metadata = EVENT_RECORD_SIZE
        | SNAPSHOTS \<Rightarrow> md_record_size metadata = SNAPSHOT_FIXED_SIZE + SNAPSHOT_DEPTH_SIZE * md_depth metadata
            \<and> 1 \<le> md_depth metadata \<and> md_depth metadata \<le> MAX_DEPTH)
     \<and> valid_date (md_trading_date metadata) \<and> canonical_symbols (md_symbols metadata)
     \<and> md_symbols metadata \<noteq> []"

lemma metadata_ok_size: "metadata_ok kind metadata \<Longrightarrow> 0 < md_record_size metadata"
  by (cases kind) (simp_all add: metadata_ok_def EVENT_RECORD_SIZE_def SNAPSHOT_FIXED_SIZE_def)

lemma metadata_of_ok:
  assumes "header_ok kind raw" "raw_header_holds raw" "canonical_symbols ss"
    "rh_symbol_count raw = int (length ss)" "trading_date (rh_trading_date raw) = Inr day"
  shows "metadata_ok kind (metadata_of kind raw ss day sha)"
proof -
  have "valid_date day"
    using assms(5) by (simp add: trading_date_def Let_def read_fail_def split: if_splits)
  moreover have "ss \<noteq> []" using assms(1,4) by (auto simp: header_ok_def)
  moreover have "valid_layout kind raw" using assms(1) by (simp add: header_ok_def)
  ultimately show ?thesis
    using assms(3)
    by (cases kind) (auto simp: metadata_ok_def metadata_of_def valid_layout_def nat_add_distrib nat_mult_distrib)
qed

lemma validated_stream_Inr:
  assumes "validated_stream sha256 file kind expected = Inr (metadata, stream)"
  obtains raw ss day where
    "header_ok kind raw" "raw_header_holds raw" "canonical_symbols ss"
    "rh_symbol_count raw = int (length ss)" "trading_date (rh_trading_date raw) = Inr day"
    "metadata = metadata_of kind raw ss day expected"
    "af_content file = leading_bytes raw ss @ stream" "sha256 (af_content file) = expected"
    "length stream = md_record_count metadata * md_record_size metadata" "metadata_ok kind metadata"
proof -
  obtain off where p: "parse_metadata (af_content file) (length (af_content file)) kind expected = Inr (metadata, off)"
    and sha: "sha256 (af_content file) = expected" and st: "stream = drop off (af_content file)"
    using assms
    by (auto simp: validated_stream_def authenticate_def bindR_eq_Inr require_eq_Inr read_fail_def)
  obtain raw ss day rest where h: "header_ok kind raw" "raw_header_holds raw" "canonical_symbols ss"
    "rh_symbol_count raw = int (length ss)" "trading_date (rh_trading_date raw) = Inr day"
    "metadata = metadata_of kind raw ss day expected" "af_content file = leading_bytes raw ss @ rest"
    "length (leading_bytes raw ss) = off"
    "length (af_content file) = off + md_record_count metadata * md_record_size metadata"
    by (rule parse_metadata_Inr [OF p])
  have "rest = stream" using st h(7,8) by simp
  moreover have "metadata_ok kind metadata" unfolding h(6) by (rule metadata_of_ok [OF h(1-5)])
  ultimately show ?thesis using that [of raw ss day] h sha by simp
qed

text \<open>
  The generators end for all inputs, and yield what the reference decodes from the authenticated
  record region.
\<close>

definition region_records ::
  "'r decoder \<Rightarrow> interchange_metadata \<Rightarrow> bytes \<Rightarrow> 'r list \<times> read_error option" where
  "region_records decode metadata stream = decode_all decode metadata no_ordering 0
     (split_records (md_record_size metadata) (md_record_count metadata) stream)"

lemma read_records_rejects:
  assumes "bindR (validate_reader_arguments expected chunk) (\<lambda>_. validated_stream sha256 file kind expected) = Inl e"
  shows "read_records decode kind sha256 file expected chunk = Some ([], Some e)"
  using assms by (simp add: read_records_def)

lemma read_records_region:
  assumes "arguments_ok expected chunk" "validated_stream sha256 file kind expected = Inr (metadata, stream)"
    and "region_records decode metadata stream = (rs, e)"
  shows "\<exists>bs e'. read_records decode kind sha256 file expected chunk = Some (bs, e')
     \<and> prefix (concat bs) rs \<and> (e' = None \<longrightarrow> e = None \<and> concat bs = rs)
     \<and> ((\<forall>k. af_unchanged file k) \<longrightarrow> e' = e)
     \<and> list_all (\<lambda>b. b \<noteq> [] \<and> length b \<le> nat chunk) bs"
proof -
  obtain raw ss day where v: "length stream = md_record_count metadata * md_record_size metadata"
      "metadata_ok kind metadata"
    by (rule validated_stream_Inr [OF assms(2)])
  have "0 < nat chunk" using assms(1) by (simp add: arguments_ok_def)
  moreover have "validate_reader_arguments expected chunk = Inr ()"
    using assms(1) by (simp add: validate_reader_arguments_iff)
  moreover have "\<exists>bs e'. read_batches decode file metadata (nat chunk) 1 0 no_ordering stream = Some (bs, e')
     \<and> prefix (concat bs) rs \<and> (e' = None \<longrightarrow> e = None \<and> concat bs = rs)
     \<and> ((\<forall>k. af_unchanged file k) \<longrightarrow> e' = e)
     \<and> list_all (\<lambda>b. b \<noteq> [] \<and> length b \<le> nat chunk) bs"
    by (rule read_batches_all)
      (use calculation v metadata_ok_size [OF v(2)] assms(3) in \<open>simp_all add: region_records_def\<close>)
  ultimately show ?thesis using assms(2) by (simp add: read_records_def)
qed

section \<open>Canonical record formats\<close>

text \<open>The records of a file in order, from an ordering state on.\<close>

fun in_order :: "('r \<Rightarrow> int) \<Rightarrow> ('r \<Rightarrow> int) \<Rightarrow> ordering_state \<Rightarrow> 'r list \<Rightarrow> bool" where
  "in_order index_of time_of prior [] \<longleftrightarrow> True"
| "in_order index_of time_of prior (r # rs) \<longleftrightarrow> follows prior (index_of r) (time_of r)
     \<and> in_order index_of time_of (advance_ordering (index_of r) (time_of r)) rs"

lemma follows_advance: "follows (advance_ordering i t) j u \<longleftrightarrow> i < j \<and> t \<le> u"
  by (simp add: follows_def advance_ordering_def opt_all_def)

lemma follows_none: "follows no_ordering j u"
  by (simp add: follows_def no_ordering_def opt_all_def)

lemma in_order_sorted:
  "in_order f g (advance_ordering i t) rs
     \<longleftrightarrow> sorted_wrt (<) (i # map f rs) \<and> sorted (t # map g rs)"
  by (induction rs arbitrary: i t) (auto simp: follows_advance)

lemma in_order_none: "in_order f g no_ordering rs \<longleftrightarrow> sorted_wrt (<) (map f rs) \<and> sorted (map g rs)"
  by (cases rs) (auto simp: in_order_sorted follows_none)

text \<open>
  A record format is canonical when a successful decoding says that the bytes are the encoding of
  the record, that the record is valid and that it follows its predecessor.
\<close>

locale record_format =
  fixes kind :: interchange_kind
    and decode :: "'r decoder"
    and encode :: "'r \<Rightarrow> bytes"
    and wire :: "interchange_metadata \<Rightarrow> 'r \<Rightarrow> bool"
    and index_of time_of :: "'r \<Rightarrow> int"
  assumes decode_iff: "metadata_ok kind metadata \<Longrightarrow> length b = md_record_size metadata
      \<Longrightarrow> decode b metadata prior i = Inr (r, after) \<longleftrightarrow>
        wire metadata r \<and> follows prior (index_of r) (time_of r) \<and> b = encode r
        \<and> after = advance_ordering (index_of r) (time_of r)"
begin

lemma decode_all_complete:
  assumes "metadata_ok kind metadata" "\<forall>b\<in>set bs. length b = md_record_size metadata"
  shows "decode_all decode metadata prior i bs = (rs, None) \<longleftrightarrow>
     bs = map encode rs \<and> list_all (wire metadata) rs \<and> in_order index_of time_of prior rs"
  using assms(2)
proof (induction bs arbitrary: prior i rs)
  case (Cons b bs)
  have len: "length b = md_record_size metadata" using Cons.prems by simp
  note iff = decode_iff [OF assms(1) len, of prior i]
  show ?case
  proof (cases "decode b metadata prior i")
    case (Inl e)
    then have "\<not> (wire metadata r \<and> follows prior (index_of r) (time_of r) \<and> b = encode r)" for r
      using iff [of r "advance_ordering (index_of r) (time_of r)"] by simp
    then show ?thesis using Inl by (cases rs) auto
  next
    case (Inr v)
    obtain r after where v: "v = (r, after)" by (cases v)
    have w: "wire metadata r" "follows prior (index_of r) (time_of r)" "b = encode r"
      "after = advance_ordering (index_of r) (time_of r)"
      using iff [of r after] Inr v by simp_all
    have same: "s = r" if "wire metadata s" "follows prior (index_of s) (time_of s)" "encode s = encode r" for s
      using iff [of s "advance_ordering (index_of s) (time_of s)"] that Inr v w(3) by simp
    show ?thesis
    proof (cases rs)
      case Nil
      then show ?thesis using Inr v by (simp split: prod.splits)
    next
      case rs: (Cons s ss)
      have "decode_all decode metadata prior i (b # bs) = (rs, None)
          \<longleftrightarrow> s = r \<and> decode_all decode metadata after (Suc i) bs = (ss, None)"
        using Inr v rs by (auto split: prod.splits)
      also have "\<dots> \<longleftrightarrow> s = r \<and> bs = map encode ss \<and> list_all (wire metadata) ss
          \<and> in_order index_of time_of after ss"
        using Cons.IH [of after "Suc i" ss] Cons.prems by simp
      also have "\<dots> \<longleftrightarrow> b # bs = map encode rs \<and> list_all (wire metadata) rs
          \<and> in_order index_of time_of prior rs"
        unfolding rs list.map list.inject list.pred_inject in_order.simps
        using w same [of s] by metis
      finally show ?thesis .
    qed
  qed
qed auto

lemma region_complete:
  assumes "metadata_ok kind metadata"
    and "length stream = md_record_count metadata * md_record_size metadata"
    and "region_records decode metadata stream = (rs, None)"
  shows "stream = concat (map encode rs) \<and> length rs = md_record_count metadata
    \<and> list_all (wire metadata) rs \<and> in_order index_of time_of no_ordering rs"
proof -
  let ?k = "md_record_size metadata" and ?n = "md_record_count metadata"
  have lens: "\<forall>b\<in>set (split_records ?k ?n stream). length b = ?k"
  proof
    fix b assume "b \<in> set (split_records ?k ?n stream)"
    then obtain i where i: "i < ?n" "b = field (i * ?k) ?k stream" by (auto simp: split_records_def)
    have "Suc i * ?k \<le> ?n * ?k" using i(1) by (intro mult_le_mono1) simp
    then show "length b = ?k" using i(2) assms(2) by (simp add: length_field)
  qed
  have split: "split_records ?k ?n stream = map encode rs" "list_all (wire metadata) rs"
      "in_order index_of time_of no_ordering rs"
    using decode_all_complete [OF assms(1) lens] assms(3) by (simp_all add: region_records_def)
  have "concat (split_records k n bs) = take (n * k) bs" for k n and bs :: bytes
    by (induction n) (simp_all add: split_records_def field_def take_add add.commute [of k])
  then have "concat (map encode rs) = stream" using split(1) assms(2) by (metis order_refl take_all)
  moreover have "length rs = ?n" using arg_cong [OF split(1), of length] by simp
  ultimately show ?thesis using split by simp
qed

lemma read_records_complete:
  assumes "read_records decode kind sha256 file expected chunk = Some (bs, None)"
  obtains raw ss day metadata where
    "validated_stream sha256 file kind expected = Inr (metadata, concat (map encode (concat bs)))"
    "header_ok kind raw" "raw_header_holds raw"
    "rh_symbol_count raw = int (length ss)" "trading_date (rh_trading_date raw) = Inr day"
    "metadata = metadata_of kind raw ss day expected"
    "af_content file = leading_bytes raw ss @ concat (map encode (concat bs))"
    "sha256 (af_content file) = expected" "length (concat bs) = md_record_count metadata"
    "list_all (wire metadata) (concat bs)" "in_order index_of time_of no_ordering (concat bs)"
    "canonical_symbols ss"
proof -
  obtain metadata stream where args: "arguments_ok expected chunk"
    and v: "validated_stream sha256 file kind expected = Inr (metadata, stream)"
    using assms by (auto simp: read_records_def validate_reader_arguments_iff bindR_eq_Inr split: sum.splits)
  obtain rs e where region: "region_records decode metadata stream = (rs, e)" by force
  obtain bs' e' where "read_records decode kind sha256 file expected chunk = Some (bs', e')"
      "e' = None \<longrightarrow> e = None \<and> concat bs' = rs"
    using read_records_region [OF args v region] by blast
  then have none: "e = None" "concat bs = rs" using assms by auto
  obtain raw ss day where h: "header_ok kind raw" "raw_header_holds raw" "canonical_symbols ss"
    "rh_symbol_count raw = int (length ss)" "trading_date (rh_trading_date raw) = Inr day"
    "metadata = metadata_of kind raw ss day expected" "af_content file = leading_bytes raw ss @ stream"
    "sha256 (af_content file) = expected"
    "length stream = md_record_count metadata * md_record_size metadata" "metadata_ok kind metadata"
    by (rule validated_stream_Inr [OF v])
  show ?thesis
    using that [of metadata raw ss day] region_complete [OF h(10,9) region [unfolded none(1)]] h v none(2)
    by simp
qed

text \<open>The bytes of an accepted file are determined by its metadata and its records.\<close>

lemma read_records_inject:
  assumes "read_records decode kind sha256 f expected chunk = Some (bs, None)"
    and "read_records decode kind sha256' g expected' chunk' = Some (cs, None)"
    and "read_metadata kind sha256 f expected = Inr m" "read_metadata kind sha256' g expected' = Inr m'"
    and "concat bs = concat cs" "m\<lparr>md_file_sha256 := ''''\<rparr> = m'\<lparr>md_file_sha256 := ''''\<rparr>"
  shows "af_content f = af_content g"
proof -
  obtain raw ss day md where f: "validated_stream sha256 f kind expected = Inr (md, concat (map encode (concat bs)))"
    "header_ok kind raw" "raw_header_holds raw" "rh_symbol_count raw = int (length ss)"
    "trading_date (rh_trading_date raw) = Inr day" "md = metadata_of kind raw ss day expected"
    "af_content f = leading_bytes raw ss @ concat (map encode (concat bs))"
    by (rule read_records_complete [OF assms(1)])
  obtain raw' ss' day' md' where g: "validated_stream sha256' g kind expected' = Inr (md', concat (map encode (concat cs)))"
    "header_ok kind raw'" "raw_header_holds raw'" "rh_symbol_count raw' = int (length ss')"
    "trading_date (rh_trading_date raw') = Inr day'" "md' = metadata_of kind raw' ss' day' expected'"
    "af_content g = leading_bytes raw' ss' @ concat (map encode (concat cs))"
    by (rule read_records_complete [OF assms(2)])
  have "m = md" "m' = md'"
    using assms(3,4) f(1) g(1) by (auto simp: read_metadata_def bindR_eq_Inr)
  then have same: "metadata_of kind raw ss day '''' = metadata_of kind raw' ss' day' ''''"
    using assms(6) f(6) g(6) by (simp add: metadata_of_def)
  then have ss: "ss' = ss" "day' = day" by (simp_all add: metadata_of_def)
  have "rh_trading_date raw = rh_trading_date raw'"
    using f(3,5) g(3,5) ss(2) trading_date_iff by (simp add: raw_header_holds_def uint_in_def)
  then have "raw = raw'"
    using header_inject [OF f(2) g(2) f(3) g(3)] f(4) g(4) same ss by simp
  then show ?thesis using f(7) g(7) assms(5) ss by simp
qed

end

interpretation event_format: record_format EVENTS decode_event encode_event wire_event
    er_message_index er_timestamp_ns
  by unfold_locales (rule decode_event_iff)

end
