(* ===== verification/Snapshot_Codec.thy ===== *)
theory Snapshot_Codec
  imports Reader_Properties
begin

unbundle bit_operations_syntax

text \<open>
  What \<open>_decode_snapshot\<close> accepts: the layouts of the prefix and of a depth level, the flags, and
  the two sides of the visible book, each best-to-worst without gaps.
\<close>

section \<open>Layouts\<close>

lemma field_field: "a + n \<le> m \<Longrightarrow> field a n (field b m bs) = field (b + a) n bs"
  by (simp add: field_def drop_take min_def add.commute)

definition pack_snapshot :: "raw_snapshot \<Rightarrow> bytes" where
  "pack_snapshot raw = le_bytes 8 (rs_message_index raw) @ le_bytes 8 (rs_timestamp_ns raw)
     @ le_bytes 2 (rs_symbol_id raw) @ [rs_kind_code raw] @ [rs_flags raw]
     @ le_bytes 4 (rs_trigger_price raw) @ le_bytes 8 (rs_trigger_quantity raw)
     @ le_bytes 4 (rs_last_trade_price raw) @ rs_reserved raw @ le_bytes 8 (rs_last_trade_quantity raw)"

definition raw_snapshot_holds :: "raw_snapshot \<Rightarrow> bool" where
  "raw_snapshot_holds raw \<longleftrightarrow> uint_in 8 (rs_message_index raw) \<and> uint_in 8 (rs_timestamp_ns raw)
     \<and> uint_in 2 (rs_symbol_id raw) \<and> uint_in 4 (rs_trigger_price raw)
     \<and> uint_in 8 (rs_trigger_quantity raw) \<and> uint_in 4 (rs_last_trade_price raw)
     \<and> length (rs_reserved raw) = 4 \<and> uint_in 8 (rs_last_trade_quantity raw)"

lemma unpack_snapshot_iff:
  assumes "48 \<le> length bs"
  shows "unpack_snapshot bs = Inr raw \<longleftrightarrow> raw_snapshot_holds raw \<and> field 0 48 bs = pack_snapshot raw"
proof
  assume L: "unpack_snapshot bs = Inr raw"
  then have raw: "raw = \<lparr>rs_message_index = le_value (field 0 8 bs),
     rs_timestamp_ns = le_value (field 8 8 bs), rs_symbol_id = le_value (field 16 2 bs),
     rs_kind_code = bs ! 18, rs_flags = bs ! 19, rs_trigger_price = le_value (field 20 4 bs),
     rs_trigger_quantity = le_value (field 24 8 bs), rs_last_trade_price = le_value (field 32 4 bs),
     rs_reserved = field 36 4 bs, rs_last_trade_quantity = le_value (field 40 8 bs)\<rparr>"
    using assms by (simp add: unpack_snapshot_def SNAPSHOT_FIXED_SIZE_def)
  have "pack_snapshot raw = field 0 8 bs @ field 8 8 bs @ field 16 2 bs @ field 18 1 bs @ field 19 1 bs
      @ field 20 4 bs @ field 24 8 bs @ field 32 4 bs @ field 36 4 bs @ field 40 8 bs"
    unfolding raw pack_snapshot_def using assms by (simp add: le_bytes_field field_nth)
  also have "\<dots> = field 0 48 bs"
    by (simp add: field_join)
  finally show "raw_snapshot_holds raw \<and> field 0 48 bs = pack_snapshot raw"
    unfolding raw raw_snapshot_holds_def using assms by (simp add: uint_in_field length_field)
next
  assume R: "raw_snapshot_holds raw \<and> field 0 48 bs = pack_snapshot raw"
  have at: "field a n bs = field a n (pack_snapshot raw)" if "a + n \<le> 48" for a n
    using field_field [OF that, of 0 bs] R by simp
  have "bs ! 18 = pack_snapshot raw ! 18" "bs ! 19 = pack_snapshot raw ! 19"
    using at [of 18 1] at [of 19 1] R assms
    by (simp_all add: field_nth pack_snapshot_def raw_snapshot_holds_def)
  with R show "unpack_snapshot bs = Inr raw"
    using assms
    by (simp add: unpack_snapshot_def SNAPSHOT_FIXED_SIZE_def at)
      (simp add: pack_snapshot_def raw_snapshot_holds_def field_skip field_here field_all field_Cons
        uint_in_value nth_append)
qed

definition pack_level :: "raw_level \<Rightarrow> bytes" where
  "pack_level raw = [rl_bid_valid raw] @ [rl_ask_valid raw] @ rl_reserved raw
     @ le_bytes 4 (rl_bid_price raw) @ le_bytes 8 (rl_bid_quantity raw)
     @ le_bytes 4 (rl_ask_price raw) @ le_bytes 8 (rl_ask_quantity raw)"

definition raw_level_holds :: "raw_level \<Rightarrow> bool" where
  "raw_level_holds raw \<longleftrightarrow> length (rl_reserved raw) = 2 \<and> uint_in 4 (rl_bid_price raw)
     \<and> uint_in 8 (rl_bid_quantity raw) \<and> uint_in 4 (rl_ask_price raw) \<and> uint_in 8 (rl_ask_quantity raw)"

lemma unpack_level_iff:
  assumes "k + 28 \<le> length bs"
  shows "unpack_level bs k = Inr raw \<longleftrightarrow> raw_level_holds raw \<and> field k 28 bs = pack_level raw"
proof
  assume L: "unpack_level bs k = Inr raw"
  then have raw: "raw = \<lparr>rl_bid_valid = bs ! k, rl_ask_valid = bs ! (k + 1),
     rl_reserved = field (k + 2) 2 bs, rl_bid_price = le_value (field (k + 4) 4 bs),
     rl_bid_quantity = le_value (field (k + 8) 8 bs), rl_ask_price = le_value (field (k + 16) 4 bs),
     rl_ask_quantity = le_value (field (k + 20) 8 bs)\<rparr>"
    using assms by (simp add: unpack_level_def SNAPSHOT_DEPTH_SIZE_def)
  have "pack_level raw = field k 1 bs @ field (k + 1) 1 bs @ field (k + 2) 2 bs @ field (k + 4) 4 bs
      @ field (k + 8) 8 bs @ field (k + 16) 4 bs @ field (k + 20) 8 bs"
    unfolding raw pack_level_def using assms by (simp add: le_bytes_field field_nth)
  also have "\<dots> = field k 28 bs"
    by (simp add: field_join)
  finally show "raw_level_holds raw \<and> field k 28 bs = pack_level raw"
    unfolding raw raw_level_holds_def using assms by (simp add: uint_in_field length_field)
next
  assume R: "raw_level_holds raw \<and> field k 28 bs = pack_level raw"
  have at: "field (k + a) n bs = field a n (pack_level raw)" if "a + n \<le> 28" for a n
    using field_field [OF that, of k bs] R by simp
  have "bs ! k = rl_bid_valid raw" "bs ! Suc k = rl_ask_valid raw"
    using at [of 0 1] at [of 1 1] R assms
    by (simp_all add: field_nth pack_level_def raw_level_holds_def)
  with R show "unpack_level bs k = Inr raw"
    using assms at [of 2 2]
    by (simp add: unpack_level_def SNAPSHOT_DEPTH_SIZE_def at)
      (simp add: pack_level_def raw_level_holds_def field_skip field_here field_all field_Cons
        uint_in_value)
qed

section \<open>Sides of the book\<close>

text \<open>
  One side of the levels: after the first absent level every level is absent, quantities are
  positive, and prices improve strictly towards the front.
\<close>

fun side_ok :: "(int \<Rightarrow> int \<Rightarrow> bool) \<Rightarrow> bool \<Rightarrow> int option \<Rightarrow> (int option \<times> int option) list \<Rightarrow> bool" where
  "side_ok better gap prev [] \<longleftrightarrow> True"
| "side_ok better gap prev ((None, None) # xs) \<longleftrightarrow> side_ok better True prev xs"
| "side_ok better gap prev ((Some p, Some q) # xs) \<longleftrightarrow>
     \<not> gap \<and> uint_in 4 p \<and> uint_in 8 q \<and> q \<noteq> 0 \<and> opt_all (\<lambda>x. better x p) prev
     \<and> side_ok better gap (Some p) xs"
| "side_ok better gap prev (_ # xs) \<longleftrightarrow> False"

lemma side_ok_gap:
  "side_ok better True prev xs \<longleftrightarrow> xs = replicate (length xs) (None, None)"
proof (induction xs arbitrary: prev)
  case (Cons x xs)
  obtain a b where "x = (a, b)" by (cases x)
  then show ?case using Cons.IH [of prev] by (cases a; cases b) auto
qed simp

definition side_ladder :: "(int \<Rightarrow> int \<Rightarrow> bool) \<Rightarrow> (int option \<times> int option) list \<Rightarrow> bool" where
  "side_ladder better xs \<longleftrightarrow> (\<exists>present n. xs = map (\<lambda>(p, q). (Some p, Some q)) present @ replicate n (None, None)
     \<and> sorted_wrt better (map fst present)
     \<and> (\<forall>(p, q)\<in>set present. uint_in 4 p \<and> uint_in 8 q \<and> q \<noteq> 0))"

lemma side_ok_ladder:
  assumes "transp better" "side_ok better False prev xs"
  shows "\<exists>present n. xs = map (\<lambda>(p, q). (Some p, Some q)) present @ replicate n (None, None)
     \<and> sorted_wrt better (map fst present) \<and> (\<forall>p\<in>fst ` set present. opt_all (\<lambda>x. better x p) prev)
     \<and> (\<forall>(p, q)\<in>set present. uint_in 4 p \<and> uint_in 8 q \<and> q \<noteq> 0)"
  using assms(2)
proof (induction xs arbitrary: prev)
  case Nil
  show ?case by (intro exI [of _ "[]"] exI [of _ 0]) simp
next
  case (Cons x xs)
  show ?case
  proof (cases "x = (None, None)")
    case True
    then have "xs = replicate (length xs) (None, None)" using Cons.prems by (simp add: side_ok_gap)
    then show ?thesis using True by (intro exI [of _ "[]"] exI [of _ "Suc (length xs)"]) simp
  next
    case False
    then obtain p q where x: "x = (Some p, Some q)"
      using Cons.prems by (cases x; cases "fst x"; cases "snd x") auto
    then have here: "uint_in 4 p \<and> uint_in 8 q \<and> q \<noteq> 0" "opt_all (\<lambda>y. better y p) prev"
      and rest: "side_ok better False (Some p) xs" using Cons.prems by simp_all
    obtain present n where h: "xs = map (\<lambda>(p, q). (Some p, Some q)) present @ replicate n (None, None)"
      "sorted_wrt better (map fst present)" "\<forall>r\<in>fst ` set present. better p r"
      "\<forall>(p, q)\<in>set present. uint_in 4 p \<and> uint_in 8 q \<and> q \<noteq> 0"
      using Cons.IH [OF rest] by (auto simp: opt_all_def)
    have "opt_all (\<lambda>y. better y r) prev" if "better p r" for r
      using here(2) that assms(1) by (auto simp: opt_all_def dest: transpD split: option.splits)
    then show ?thesis
      using h here x by (intro exI [of _ "(p, q) # present"] exI [of _ n]) auto
  qed
qed

lemma side_ladder_of: "transp better \<Longrightarrow> side_ok better False None xs \<Longrightarrow> side_ladder better xs"
  unfolding side_ladder_def using side_ok_ladder [of better None xs] by blast

section \<open>Depth levels\<close>

definition bid_side :: "snapshot_depth_level list \<Rightarrow> (int option \<times> int option) list" where
  "bid_side = map (\<lambda>l. (dl_bid_price4 l, dl_bid_quantity l))"

definition ask_side :: "snapshot_depth_level list \<Rightarrow> (int option \<times> int option) list" where
  "ask_side = map (\<lambda>l. (dl_ask_price4 l, dl_ask_quantity l))"

definition raw_of_level :: "snapshot_depth_level \<Rightarrow> raw_level" where
  "raw_of_level l = \<lparr>
     rl_bid_valid = (if dl_bid_price4 l = None then 0 else 1),
     rl_ask_valid = (if dl_ask_price4 l = None then 0 else 1),
     rl_reserved = replicate 2 0,
     rl_bid_price = zero_if_absent (dl_bid_price4 l),
     rl_bid_quantity = zero_if_absent (dl_bid_quantity l),
     rl_ask_price = zero_if_absent (dl_ask_price4 l),
     rl_ask_quantity = zero_if_absent (dl_ask_quantity l)\<rparr>"

definition encode_level :: "snapshot_depth_level \<Rightarrow> bytes" where
  "encode_level l = pack_level (raw_of_level l)"

definition side_now :: "(int \<Rightarrow> int \<Rightarrow> bool) \<Rightarrow> bool \<Rightarrow> int option \<Rightarrow> int option \<Rightarrow> int option \<Rightarrow> bool" where
  "side_now better gap prev price quantity \<longleftrightarrow> side_ok better gap prev [(price, quantity)]"

lemma side_ok_Cons:
  "side_ok better gap prev ((a, b) # xs) \<longleftrightarrow> side_now better gap prev a b
     \<and> side_ok better (if a = None then True else gap) (if a = None then prev else a) xs"
  by (cases a; cases b) (auto simp: side_now_def)

text \<open>One level: the checks say that the raw level is that of a record level, on both sides.\<close>

lemma level_iff:
  "raw_level_holds raw \<and> \<not> (uint (rl_bid_valid raw) > 1 \<or> uint (rl_ask_valid raw) > 1
      \<or> rl_reserved raw \<noteq> replicate 2 0) \<and> \<not> level_bad v raw \<and> l = level_of_raw raw
   \<longleftrightarrow> raw = raw_of_level l
     \<and> side_now (>) (dp_bid_gap v) (dp_previous_bid v) (dl_bid_price4 l) (dl_bid_quantity l)
     \<and> side_now (<) (dp_ask_gap v) (dp_previous_ask v) (dl_ask_price4 l) (dl_ask_quantity l)"
  (is "?L \<longleftrightarrow> ?R")
proof
  assume L: ?L
  have byte: "b = 0 \<or> b = 1" if "\<not> uint b > 1" for b :: "8 word"
  proof -
    have "uint b = 0 \<or> uint b = 1" using that uint_ge_0 [of b] by linarith
    then show ?thesis by (metis uint_0_eq uint_1_eq word_uint_eqI)
  qed
  have v: "rl_bid_valid raw = 0 \<or> rl_bid_valid raw = 1" "rl_ask_valid raw = 0 \<or> rl_ask_valid raw = 1"
    using L byte by blast+
  have holds: "raw_level_holds raw" and good: "\<not> level_bad v raw" and res: "rl_reserved raw = replicate 2 0"
    and l: "l = level_of_raw raw" using L by blast+
  have "raw = raw_of_level l"
    unfolding l using v good res
    by (intro raw_level.equality)
      (auto simp: raw_of_level_def level_of_raw_def level_bad_def Let_def zero_if_absent_def)
  moreover have "side_now (>) (dp_bid_gap v) (dp_previous_bid v) (dl_bid_price4 l) (dl_bid_quantity l)"
    unfolding l using v(1) good holds
    by (auto simp: side_now_def level_of_raw_def level_bad_def Let_def opt_all_def raw_level_holds_def
        not_le split: option.splits)
  moreover have "side_now (<) (dp_ask_gap v) (dp_previous_ask v) (dl_ask_price4 l) (dl_ask_quantity l)"
    unfolding l using v(2) good holds
    by (auto simp: side_now_def level_of_raw_def level_bad_def Let_def opt_all_def raw_level_holds_def
        not_le split: option.splits)
  ultimately show ?R by blast
next
  assume R: ?R
  have now: "(p = None \<and> q = None) \<or> (\<exists>x y. p = Some x \<and> q = Some y \<and> \<not> gap \<and> uint_in 4 x \<and> uint_in 8 y
      \<and> y \<noteq> 0 \<and> opt_all (\<lambda>z. better z x) prev)" if "side_now better gap prev p q" for better gap prev p q
    using that by (cases p; cases q) (simp_all add: side_now_def)
  have zero: "uint_in n 0" for n by (simp add: uint_in_def)
  note bid = now [of "(>)" "dp_bid_gap v" "dp_previous_bid v" "dl_bid_price4 l" "dl_bid_quantity l"]
  note ask = now [of "(<)" "dp_ask_gap v" "dp_previous_ask v" "dl_ask_price4 l" "dl_ask_quantity l"]
  have sides: "(dl_bid_price4 l = None \<and> dl_bid_quantity l = None) \<or> (\<exists>x y. dl_bid_price4 l = Some x
      \<and> dl_bid_quantity l = Some y \<and> \<not> dp_bid_gap v \<and> uint_in 4 x \<and> uint_in 8 y \<and> y \<noteq> 0
      \<and> opt_all (\<lambda>z. z > x) (dp_previous_bid v))"
    "(dl_ask_price4 l = None \<and> dl_ask_quantity l = None) \<or> (\<exists>x y. dl_ask_price4 l = Some x
      \<and> dl_ask_quantity l = Some y \<and> \<not> dp_ask_gap v \<and> uint_in 4 x \<and> uint_in 8 y \<and> y \<noteq> 0
      \<and> opt_all (\<lambda>z. z < x) (dp_previous_ask v))"
    using R bid ask by blast+
  have raw: "raw = raw_of_level l" using R by blast
  have "raw_level_holds raw"
    unfolding raw raw_level_holds_def using sides zero by (auto simp: raw_of_level_def zero_if_absent_def)
  moreover have "\<not> level_bad v raw"
    unfolding raw level_bad_def using sides
    by (auto simp: raw_of_level_def zero_if_absent_def opt_all_def split: option.splits)
  moreover have "l = level_of_raw raw"
    unfolding raw using sides
    by (intro snapshot_depth_level.equality)
      (auto simp: level_of_raw_def raw_of_level_def zero_if_absent_def Let_def)
  moreover have "\<not> (uint (rl_bid_valid raw) > 1 \<or> uint (rl_ask_valid raw) > 1 \<or> rl_reserved raw \<noteq> replicate 2 0)"
    unfolding raw by (simp add: raw_of_level_def)
  ultimately show ?L by blast
qed

lemma length_pack_level: "raw_level_holds raw \<Longrightarrow> length (pack_level raw) = 28"
  by (simp add: pack_level_def raw_level_holds_def)

lemma next_depth_level:
  "next_depth v (raw_of_level l) = \<lparr>
     dp_bid_gap = (if dl_bid_price4 l = None then True else dp_bid_gap v),
     dp_ask_gap = (if dl_ask_price4 l = None then True else dp_ask_gap v),
     dp_previous_bid = (if dl_bid_price4 l = None then dp_previous_bid v else dl_bid_price4 l),
     dp_previous_ask = (if dl_ask_price4 l = None then dp_previous_ask v else dl_ask_price4 l)\<rparr>"
  by (cases "dl_bid_price4 l"; cases "dl_ask_price4 l")
    (simp_all add: next_depth_def raw_of_level_def zero_if_absent_def)

definition sides_ok :: "depth_locals \<Rightarrow> snapshot_depth_level list \<Rightarrow> bool" where
  "sides_ok v levels \<longleftrightarrow> side_ok (>) (dp_bid_gap v) (dp_previous_bid v) (bid_side levels)
     \<and> side_ok (<) (dp_ask_gap v) (dp_previous_ask v) (ask_side levels)"

definition level_now :: "depth_locals \<Rightarrow> snapshot_depth_level \<Rightarrow> bool" where
  "level_now v l \<longleftrightarrow>
     side_now (>) (dp_bid_gap v) (dp_previous_bid v) (dl_bid_price4 l) (dl_bid_quantity l)
   \<and> side_now (<) (dp_ask_gap v) (dp_previous_ask v) (dl_ask_price4 l) (dl_ask_quantity l)"

lemma sides_ok_Cons:
  "sides_ok v (l # levels) \<longleftrightarrow> level_now v l \<and> sides_ok (next_depth v (raw_of_level l)) levels"
  unfolding sides_ok_def level_now_def next_depth_level bid_side_def ask_side_def list.map
    side_ok_Cons depth_locals.simps by blast

lemma sides_ok_Nil [simp]: "sides_ok v []"
  by (simp add: sides_ok_def bid_side_def ask_side_def)

text \<open>One turn of the loop.\<close>

definition decode_level :: "bytes \<Rightarrow> nat \<Rightarrow> nat \<Rightarrow> depth_locals \<Rightarrow> raw_level read" where
  "decode_level encoded record_index k v =
     bindR (unpack_level encoded (SNAPSHOT_FIXED_SIZE + k * SNAPSHOT_DEPTH_SIZE)) (\<lambda>raw.
     bindR (require (\<not> (uint (rl_bid_valid raw) > 1 \<or> uint (rl_ask_valid raw) > 1
                        \<or> rl_reserved raw \<noteq> replicate 2 0))
              (record_fail ERR_INVARIANT record_index)) (\<lambda>_.
     bindR (require (\<not> level_bad v raw) (record_fail ERR_INVARIANT record_index)) (\<lambda>_. Inr raw)))"

lemma decode_levels_Cons:
  "decode_levels encoded i (k # rest) v = Inr levels \<longleftrightarrow>
     (\<exists>raw ls. decode_level encoded i k v = Inr raw \<and> levels = level_of_raw raw # ls
        \<and> decode_levels encoded i rest (next_depth v raw) = Inr ls)"
  by (auto simp: decode_level_def bindR_eq_Inr)

lemma decode_level_iff:
  assumes "48 + k * 28 + 28 \<le> length encoded"
  shows "decode_level encoded i k v = Inr raw \<and> l = level_of_raw raw \<longleftrightarrow>
     raw = raw_of_level l \<and> level_now v l \<and> field (48 + k * 28) 28 encoded = encode_level l"
proof -
  have "decode_level encoded i k v = Inr raw \<and> l = level_of_raw raw \<longleftrightarrow>
      field (48 + k * 28) 28 encoded = pack_level raw \<and>
      (raw_level_holds raw \<and> \<not> (uint (rl_bid_valid raw) > 1 \<or> uint (rl_ask_valid raw) > 1
      \<or> rl_reserved raw \<noteq> replicate 2 0) \<and> \<not> level_bad v raw \<and> l = level_of_raw raw)"
    unfolding decode_level_def SNAPSHOT_FIXED_SIZE_def SNAPSHOT_DEPTH_SIZE_def bindR_eq_Inr
      unpack_level_iff [OF assms] require_record by blast
  then show ?thesis
    unfolding level_iff level_now_def encode_level_def by (cases "raw = raw_of_level l") auto
qed

lemma decode_levels_iff:
  assumes "48 + d * 28 \<le> length encoded" "k \<le> d"
  shows "decode_levels encoded i [k..<d] v = Inr levels \<longleftrightarrow>
     length levels = d - k \<and> sides_ok v levels
   \<and> field (48 + k * 28) ((d - k) * 28) encoded = concat (map encode_level levels)"
  using assms(2)
proof (induction "d - k" arbitrary: k v levels)
  case 0
  then show ?case by (auto simp: field_def)
next
  case (Suc m)
  then have lt: "k < d" by simp
  have idx: "[k..<d] = k # [Suc k..<d]" using lt by (rule upt_conv_Cons)
  have fits: "48 + k * 28 + 28 \<le> length encoded" using assms(1) lt by linarith
  have split: "field (48 + k * 28) ((d - k) * 28) encoded
      = field (48 + k * 28) 28 encoded @ field (48 + Suc k * 28) ((d - Suc k) * 28) encoded"
  proof -
    have "(d - k) * 28 = 28 + (d - Suc k) * 28" using lt by (simp add: Suc_diff_Suc flip: mult_Suc)
    then show ?thesis by (simp add: field_join)
  qed
  have l28: "length (field (48 + k * 28) 28 encoded) = 28" using fits by (rule length_field)
  have enc28: "length (encode_level l) = 28" if "level_now v l" for l
  proof -
    have "raw_level_holds (raw_of_level l)"
      using level_iff [of "raw_of_level l" v l] that by (simp add: level_now_def)
    then show ?thesis by (simp add: encode_level_def length_pack_level)
  qed
  show ?case
  proof (cases levels)
    case Nil
    then show ?thesis using lt by (simp add: idx decode_levels_Cons del: decode_levels.simps)
  next
    case (Cons l ls)
    have "decode_levels encoded i [k..<d] v = Inr levels \<longleftrightarrow>
        (\<exists>raw. (decode_level encoded i k v = Inr raw \<and> l = level_of_raw raw)
          \<and> decode_levels encoded i [Suc k..<d] (next_depth v raw) = Inr ls)"
      unfolding idx decode_levels_Cons Cons by blast
    also have "\<dots> \<longleftrightarrow> level_now v l \<and> field (48 + k * 28) 28 encoded = encode_level l
        \<and> decode_levels encoded i [Suc k..<d] (next_depth v (raw_of_level l)) = Inr ls"
      unfolding decode_level_iff [OF fits] by blast
    also have "decode_levels encoded i [Suc k..<d] (next_depth v (raw_of_level l)) = Inr ls \<longleftrightarrow>
        length ls = d - Suc k \<and> sides_ok (next_depth v (raw_of_level l)) ls
      \<and> field (48 + Suc k * 28) ((d - Suc k) * 28) encoded = concat (map encode_level ls)"
      using Suc.hyps(1) [of "Suc k" "next_depth v (raw_of_level l)" ls] Suc.hyps(2) lt by simp
    also have "level_now v l \<and> field (48 + k * 28) 28 encoded = encode_level l
        \<and> (length ls = d - Suc k \<and> sides_ok (next_depth v (raw_of_level l)) ls
      \<and> field (48 + Suc k * 28) ((d - Suc k) * 28) encoded = concat (map encode_level ls)) \<longleftrightarrow>
        length levels = d - k \<and> sides_ok v levels
      \<and> field (48 + k * 28) ((d - k) * 28) encoded = concat (map encode_level levels)"
      unfolding Cons sides_ok_Cons split using lt l28 enc28 by (auto simp: append_eq_append_conv)
    finally show ?thesis .
  qed
qed

section \<open>Snapshots on the wire\<close>

fun state_code :: "trading_state \<Rightarrow> 8 word" where
  "state_code UNKNOWN = 0"
| "state_code PREOPEN = 1"
| "state_code TRADING = 2"
| "state_code HALTED = 3"
| "state_code PAUSED = 4"
| "state_code QUOTATION_ONLY = 5"
| "state_code CLOSED = 6"

lemma trading_state_by_code_iff: "trading_state_by_code c = Some s \<longleftrightarrow> c = state_code s"
  by (cases s) (auto simp: trading_state_by_code_def split: if_splits)

lemma snapshot_flag_bits:
  "flag_set w S_TRIGGER_PRICE \<longleftrightarrow> bit w 0" "flag_set w S_TRIGGER_QUANTITY \<longleftrightarrow> bit w 1"
  "flag_set w S_LAST_TRADE \<longleftrightarrow> bit w 2" "flag_set w S_TOP_CHANGED \<longleftrightarrow> bit w 6"
  "flag_set w 128 \<longleftrightarrow> bit w 7"
  using flag_set_bit [of w]
  by (simp_all add: S_TRIGGER_PRICE_def S_TRIGGER_QUANTITY_def S_LAST_TRADE_def S_TOP_CHANGED_def
      push_bit_eq_mult flip: flag_set_bit)

lemma all8: "(\<forall>n<8. P n) \<longleftrightarrow> P 0 \<and> P (Suc 0) \<and> P 2 \<and> P 3 \<and> P 4 \<and> P 5 \<and> P 6 \<and> P (7 :: nat)"
  by (simp add: eval_nat_numeral All_less_Suc) blast

lemma byte_eq_iff: "v = w \<longleftrightarrow> (\<forall>n<8. bit v n = bit w n)" for v w :: "8 word"
  using bit_word_eqI [of v w] by auto

lemma trigger_fields_bits:
  "f AND (S_TRIGGER_PRICE OR S_TRIGGER_QUANTITY) = S_TRIGGER_PRICE OR S_TRIGGER_QUANTITY
     \<longleftrightarrow> bit f 0 \<and> bit f 1"
  "f AND (S_TRIGGER_PRICE OR S_TRIGGER_QUANTITY) = 0 \<longleftrightarrow> \<not> bit f 0 \<and> \<not> bit f 1"
  unfolding byte_eq_iff all8 by (auto simp: S_TRIGGER_PRICE_def S_TRIGGER_QUANTITY_def bit_simps)

text \<open>A book mutation shows its price and quantity and changes the top; a trade does not.\<close>

definition trigger_ok :: "event_kind \<Rightarrow> bool \<Rightarrow> bool \<Rightarrow> bool \<Rightarrow> bool" where
  "trigger_ok k price quantity top_changed \<longleftrightarrow> k \<noteq> BROKEN_TRADE
     \<and> (price \<longleftrightarrow> k \<noteq> TRADING_STATE) \<and> (quantity \<longleftrightarrow> k \<noteq> TRADING_STATE)
     \<and> (top_changed \<longleftrightarrow> lifecycle_kind k)"

lemma snapshot_trigger_iff:
  "\<not> snapshot_trigger_bad k f \<longleftrightarrow> trigger_ok k (bit f 0) (bit f 1) (bit f 6)"
  by (cases k) (auto simp: snapshot_trigger_bad_def Let_def trigger_fields_bits snapshot_flag_bits
      trigger_ok_def lifecycle_kind_def)

definition raw_of_snapshot :: "snapshot_record \<Rightarrow> raw_snapshot" where
  "raw_of_snapshot r = \<lparr>
     rs_message_index = sr_message_index r,
     rs_timestamp_ns = sr_timestamp_ns r,
     rs_symbol_id = sr_symbol_id r,
     rs_kind_code = kind_code (sr_event_kind r),
     rs_flags = sr_flags r,
     rs_trigger_price = zero_if_absent (sr_event_price4 r),
     rs_trigger_quantity = zero_if_absent (sr_event_quantity r),
     rs_last_trade_price = zero_if_absent (sr_last_trade_price4 r),
     rs_reserved = replicate 4 0,
     rs_last_trade_quantity = zero_if_absent (sr_last_trade_quantity r)\<rparr>"

definition encode_snapshot :: "snapshot_record \<Rightarrow> bytes" where
  "encode_snapshot r = pack_snapshot (raw_of_snapshot r) @ concat (map encode_level (sr_levels r))"

definition snapshot_presence :: "snapshot_record \<Rightarrow> bool" where
  "snapshot_presence r \<longleftrightarrow> (let f = sr_flags r in
     (bit f 0 \<longleftrightarrow> sr_event_price4 r \<noteq> None) \<and> (bit f 1 \<longleftrightarrow> sr_event_quantity r \<noteq> None)
   \<and> (bit f 2 \<longleftrightarrow> sr_last_trade_price4 r \<noteq> None) \<and> (bit f 2 \<longleftrightarrow> sr_last_trade_quantity r \<noteq> None)
   \<and> (bit f 6 \<longleftrightarrow> sr_top_n_changed r) \<and> \<not> bit f 7
   \<and> drop_bit 3 f AND 7 = state_code (sr_trading_state r))"

definition snapshot_values_ok :: "snapshot_record \<Rightarrow> bool" where
  "snapshot_values_ok r \<longleftrightarrow>
     uint_in 8 (sr_message_index r) \<and> 0 \<le> sr_timestamp_ns r \<and> sr_timestamp_ns r < DAY_NS
   \<and> uint_in 2 (sr_symbol_id r) \<and> opt_all (uint_in 4) (sr_event_price4 r)
   \<and> opt_all (\<lambda>q. uint_in 8 q \<and> q \<noteq> 0) (sr_event_quantity r)
   \<and> opt_all (uint_in 4) (sr_last_trade_price4 r)
   \<and> opt_all (\<lambda>q. uint_in 8 q \<and> q \<noteq> 0) (sr_last_trade_quantity r)"

definition wire_snapshot :: "interchange_metadata \<Rightarrow> snapshot_record \<Rightarrow> bool" where
  "wire_snapshot metadata r \<longleftrightarrow>
     sr_trading_date r = md_trading_date metadata
   \<and> 1 \<le> sr_symbol_id r \<and> sr_symbol_id r \<le> int (length (md_symbols metadata))
   \<and> snapshot_presence r \<and> snapshot_values_ok r
   \<and> trigger_ok (sr_event_kind r) (sr_event_price4 r \<noteq> None) (sr_event_quantity r \<noteq> None) (sr_top_n_changed r)
   \<and> length (sr_levels r) = md_depth metadata \<and> sides_ok no_levels (sr_levels r)"

lemma snapshot_prefix_iff:
  "\<not> snapshot_prefix_bad raw \<longleftrightarrow> (let f = rs_flags raw in
     (if bit f 0 then rs_trigger_price raw else 0) = rs_trigger_price raw
   \<and> (if bit f 1 then rs_trigger_quantity raw else 0) = rs_trigger_quantity raw
   \<and> (if bit f 2 then rs_last_trade_price raw else 0) = rs_last_trade_price raw
   \<and> (if bit f 2 then rs_last_trade_quantity raw else 0) = rs_last_trade_quantity raw
   \<and> (bit f 1 \<longrightarrow> rs_trigger_quantity raw \<noteq> 0) \<and> (bit f 2 \<longrightarrow> rs_last_trade_quantity raw \<noteq> 0))"
  by (auto simp: snapshot_prefix_bad_def Let_def snapshot_flag_bits)

text \<open>What an unpacked prefix and the decoded levels have to satisfy.\<close>

definition raw_snapshot_ok :: "event_kind \<Rightarrow> trading_state \<Rightarrow> raw_snapshot \<Rightarrow> bool" where
  "raw_snapshot_ok k st raw \<longleftrightarrow> rs_kind_code raw = kind_code k
   \<and> drop_bit 3 (rs_flags raw) AND 7 = state_code st
   \<and> \<not> bit (rs_flags raw) 7 \<and> rs_reserved raw = replicate 4 0
   \<and> \<not> snapshot_prefix_bad raw
   \<and> trigger_ok k (bit (rs_flags raw) 0) (bit (rs_flags raw) 1) (bit (rs_flags raw) 6)"

definition snapshot_of_raw ::
  "interchange_metadata \<Rightarrow> event_kind \<Rightarrow> trading_state \<Rightarrow> raw_snapshot \<Rightarrow> snapshot_depth_level list \<Rightarrow> snapshot_record" where
  "snapshot_of_raw metadata k st raw levels = (let f = rs_flags raw in
     \<lparr>sr_trading_date = md_trading_date metadata,
      sr_message_index = rs_message_index raw,
      sr_timestamp_ns = rs_timestamp_ns raw,
      sr_symbol_id = rs_symbol_id raw,
      sr_event_kind = k,
      sr_event_price4 = (if bit f 0 then Some (rs_trigger_price raw) else None),
      sr_event_quantity = (if bit f 1 then Some (rs_trigger_quantity raw) else None),
      sr_last_trade_price4 = (if bit f 2 then Some (rs_last_trade_price raw) else None),
      sr_last_trade_quantity = (if bit f 2 then Some (rs_last_trade_quantity raw) else None),
      sr_top_n_changed = bit f 6,
      sr_trading_state = st,
      sr_levels = levels,
      sr_flags = f\<rparr>)"

lemma decode_snapshot_Inr:
  assumes "48 \<le> length b"
  shows "decode_snapshot b metadata prior i = Inr (r, after) \<longleftrightarrow>
     (\<exists>raw k st levels. raw_snapshot_holds raw \<and> field 0 48 b = pack_snapshot raw
        \<and> raw_snapshot_ok k st raw
        \<and> rs_symbol_id raw \<noteq> 0 \<and> rs_symbol_id raw \<le> int (length (md_symbols metadata))
        \<and> rs_timestamp_ns raw < DAY_NS
        \<and> follows prior (rs_message_index raw) (rs_timestamp_ns raw)
        \<and> decode_levels b i [0..<md_depth metadata] no_levels = Inr levels
        \<and> r = snapshot_of_raw metadata k st raw levels
        \<and> after = advance_ordering (rs_message_index raw) (rs_timestamp_ns raw))"
proof -
  have step: "(case event_kind_by_code c of None \<Rightarrow> record_fail e j | Some k \<Rightarrow> F k) = Inr y
      \<longleftrightarrow> (\<exists>k. c = kind_code k \<and> F k = Inr y)" for c e j y and F :: "event_kind \<Rightarrow> 'z read"
    by (cases "event_kind_by_code c") (auto simp flip: event_kind_by_code_iff)
  have step': "(case trading_state_by_code c of None \<Rightarrow> record_fail e j | Some s \<Rightarrow> F s) = Inr y
      \<longleftrightarrow> (\<exists>s. c = state_code s \<and> F s = Inr y)" for c e j y and F :: "trading_state \<Rightarrow> 'z read"
    by (cases "trading_state_by_code c") (auto simp flip: trading_state_by_code_iff)
  have res: "\<not> (bit f 7 \<or> x \<noteq> y) \<longleftrightarrow> \<not> bit f 7 \<and> x = y" for f :: "8 word" and x y :: bytes by blast
  show ?thesis
    unfolding decode_snapshot_def Let_def bindR_eq_Inr unpack_snapshot_iff [OF assms] step step'
      require_record snapshot_flag_bits snapshot_trigger_iff validate_ordering_Inr raw_snapshot_ok_def
      snapshot_of_raw_def sflagged_def sum.inject prod.inject res
    by blast
qed

lemma decoded_snapshot_wire:
  assumes holds: "raw_snapshot_holds raw" and ok: "raw_snapshot_ok k st raw"
    and sid: "rs_symbol_id raw \<noteq> 0" "rs_symbol_id raw \<le> int (length (md_symbols metadata))"
    and t: "rs_timestamp_ns raw < DAY_NS"
    and levels: "length levels = md_depth metadata" "sides_ok no_levels levels"
  defines "r \<equiv> snapshot_of_raw metadata k st raw levels"
  shows "wire_snapshot metadata r" "raw_of_snapshot r = raw"
proof -
  let ?f = "rs_flags raw"
  have sel: "sr_trading_date r = md_trading_date metadata" "sr_message_index r = rs_message_index raw"
    "sr_timestamp_ns r = rs_timestamp_ns raw" "sr_symbol_id r = rs_symbol_id raw" "sr_event_kind r = k"
    "sr_event_price4 r = (if bit ?f 0 then Some (rs_trigger_price raw) else None)"
    "sr_event_quantity r = (if bit ?f 1 then Some (rs_trigger_quantity raw) else None)"
    "sr_last_trade_price4 r = (if bit ?f 2 then Some (rs_last_trade_price raw) else None)"
    "sr_last_trade_quantity r = (if bit ?f 2 then Some (rs_last_trade_quantity raw) else None)"
    "sr_top_n_changed r = bit ?f 6" "sr_trading_state r = st" "sr_levels r = levels" "sr_flags r = ?f"
    by (simp_all add: r_def snapshot_of_raw_def Let_def)
  have codes: "rs_kind_code raw = kind_code k" "drop_bit 3 ?f AND 7 = state_code st" "\<not> bit ?f 7"
    "rs_reserved raw = replicate 4 0"
    "trigger_ok k (bit ?f 0) (bit ?f 1) (bit ?f 6)" and pre: "\<not> snapshot_prefix_bad raw"
    using ok unfolding raw_snapshot_ok_def by blast+
  note absent = pre [unfolded snapshot_prefix_iff Let_def]
  have present: "(if b then Some x else None) \<noteq> None \<longleftrightarrow> b" for b and x :: int by simp
  have zero: "zero_if_absent (if b then Some x else None) = (if b then x else 0)" for b x
    by (simp add: zero_if_absent_def)
  have "snapshot_presence r"
    unfolding snapshot_presence_def sel Let_def present using codes by blast
  moreover have "0 \<le> rs_timestamp_ns raw" "1 \<le> rs_symbol_id raw"
    using holds sid(1) by (simp_all add: raw_snapshot_holds_def uint_in_def)
  moreover have "snapshot_values_ok r" if "0 \<le> rs_timestamp_ns raw"
    unfolding snapshot_values_ok_def sel opt_all_if
    using that t absent holds [unfolded raw_snapshot_holds_def] by blast
  ultimately show "wire_snapshot metadata r"
    unfolding wire_snapshot_def using codes levels sid(2)
    by (simp only: sel present simp_thms)
  show "raw_of_snapshot r = raw"
    unfolding raw_of_snapshot_def sel zero
    by (intro raw_snapshot.equality, simp_all only: raw_snapshot.simps absent codes) simp
qed

lemma wire_snapshot_raw:
  assumes wire: "wire_snapshot metadata r"
  defines "raw \<equiv> raw_of_snapshot r"
  shows "raw_snapshot_holds raw" "raw_snapshot_ok (sr_event_kind r) (sr_trading_state r) raw"
    "snapshot_of_raw metadata (sr_event_kind r) (sr_trading_state r) raw (sr_levels r) = r"
proof -
  let ?f = "sr_flags r"
  have p: "snapshot_presence r" and v: "snapshot_values_ok r" and day: "sr_trading_date r = md_trading_date metadata"
    and trig: "trigger_ok (sr_event_kind r) (sr_event_price4 r \<noteq> None) (sr_event_quantity r \<noteq> None) (sr_top_n_changed r)"
    using wire unfolding wire_snapshot_def by blast+
  note p = p [unfolded snapshot_presence_def Let_def]
  note v = v [unfolded snapshot_values_ok_def]
  have q: "opt_all (uint_in 8) (sr_event_quantity r)" "opt_all (\<lambda>q. q \<noteq> 0) (sr_event_quantity r)"
    "opt_all (uint_in 8) (sr_last_trade_quantity r)" "opt_all (\<lambda>q. q \<noteq> 0) (sr_last_trade_quantity r)"
    using v by (auto simp: opt_all_def split: option.splits)
  have sel: "rs_message_index raw = sr_message_index r" "rs_timestamp_ns raw = sr_timestamp_ns r"
    "rs_symbol_id raw = sr_symbol_id r" "rs_kind_code raw = kind_code (sr_event_kind r)" "rs_flags raw = ?f"
    "rs_trigger_price raw = zero_if_absent (sr_event_price4 r)"
    "rs_trigger_quantity raw = zero_if_absent (sr_event_quantity r)"
    "rs_last_trade_price raw = zero_if_absent (sr_last_trade_price4 r)"
    "rs_reserved raw = replicate 4 0"
    "rs_last_trade_quantity raw = zero_if_absent (sr_last_trade_quantity r)"
    by (simp_all add: raw_def raw_of_snapshot_def)
  have "uint_in 8 (sr_timestamp_ns r)" using v by (simp add: uint_in_def DAY_NS_def)
  then show "raw_snapshot_holds raw"
    unfolding raw_snapshot_holds_def sel using v q by (simp add: zero_if_absent_in)
  have "\<not> snapshot_prefix_bad raw"
    unfolding snapshot_prefix_iff Let_def sel
    using p opt_all_value [OF q(2)] opt_all_value [OF q(4)]
    by (intro conjI absent_zero) blast+
  then show "raw_snapshot_ok (sr_event_kind r) (sr_trading_state r) raw"
    unfolding raw_snapshot_ok_def sel using p trig by simp
  have eqs: "(if bit ?f 0 then Some (zero_if_absent (sr_event_price4 r)) else None) = sr_event_price4 r"
    "(if bit ?f 1 then Some (zero_if_absent (sr_event_quantity r)) else None) = sr_event_quantity r"
    "(if bit ?f 2 then Some (zero_if_absent (sr_last_trade_price4 r)) else None) = sr_last_trade_price4 r"
    "(if bit ?f 2 then Some (zero_if_absent (sr_last_trade_quantity r)) else None) = sr_last_trade_quantity r"
    by (rule present_iff, use p in blast)+
  have top: "bit ?f 6 = sr_top_n_changed r" using p by blast
  show "snapshot_of_raw metadata (sr_event_kind r) (sr_trading_state r) raw (sr_levels r) = r"
    unfolding snapshot_of_raw_def Let_def sel eqs top
    by (intro snapshot_record.equality, simp_all only: snapshot_record.simps day) simp
qed

lemma length_encode_level:
  assumes "sides_ok v levels"
  shows "length (concat (map encode_level levels)) = length levels * 28"
  using assms
proof (induction levels arbitrary: v)
  case (Cons l ls)
  have "raw_level_holds (raw_of_level l)"
    using level_iff [of "raw_of_level l" v l] Cons.prems by (simp add: level_now_def sides_ok_Cons)
  then have "length (encode_level l) = 28" by (simp add: encode_level_def length_pack_level)
  then show ?case using Cons by (auto simp: sides_ok_Cons)
qed simp

lemma decode_snapshot_iff:
  assumes "metadata_ok SNAPSHOTS metadata" "length b = md_record_size metadata"
  shows "decode_snapshot b metadata prior i = Inr (r, after) \<longleftrightarrow>
     wire_snapshot metadata r \<and> follows prior (sr_message_index r) (sr_timestamp_ns r)
   \<and> b = encode_snapshot r \<and> after = advance_ordering (sr_message_index r) (sr_timestamp_ns r)"
  (is "?L \<longleftrightarrow> ?R")
proof -
  let ?d = "md_depth metadata"
  have len: "length b = 48 + ?d * 28"
    using assms by (simp add: metadata_ok_def SNAPSHOT_FIXED_SIZE_def SNAPSHOT_DEPTH_SIZE_def)
  then have b: "b = field 0 48 b @ field 48 (?d * 28) b" by (simp add: field_join field_all)
  have pre48: "length (field 0 48 b) = 48" using len by (simp add: length_field)
  have lev: "decode_levels b i [0..<?d] no_levels = Inr levels \<longleftrightarrow> length levels = ?d
      \<and> sides_ok no_levels levels \<and> field 48 (?d * 28) b = concat (map encode_level levels)" for levels
    using decode_levels_iff [of ?d b 0 i no_levels levels] len by simp
  show ?thesis
  proof
    assume ?L
    then obtain raw k st levels where h: "raw_snapshot_holds raw" "field 0 48 b = pack_snapshot raw"
      "raw_snapshot_ok k st raw" "rs_symbol_id raw \<noteq> 0" "rs_symbol_id raw \<le> int (length (md_symbols metadata))"
      "rs_timestamp_ns raw < DAY_NS" "follows prior (rs_message_index raw) (rs_timestamp_ns raw)"
      "length levels = ?d" "sides_ok no_levels levels" "field 48 (?d * 28) b = concat (map encode_level levels)"
      "r = snapshot_of_raw metadata k st raw levels"
      "after = advance_ordering (rs_message_index raw) (rs_timestamp_ns raw)"
      using decode_snapshot_Inr [of b metadata prior i r after] len unfolding lev by auto
    have "wire_snapshot metadata r" "raw_of_snapshot r = raw"
      unfolding h(11) by (rule decoded_snapshot_wire [OF h(1,3-6,8,9)])+
    moreover have "sr_message_index r = rs_message_index raw" "sr_timestamp_ns r = rs_timestamp_ns raw"
      "sr_levels r = levels"
      by (simp_all add: h(11) snapshot_of_raw_def Let_def)
    ultimately show ?R using h(2,7,10,12) b by (simp add: encode_snapshot_def)
  next
    assume R: ?R
    let ?raw = "raw_of_snapshot r"
    have wire: "wire_snapshot metadata r" using R by blast
    note raw = wire_snapshot_raw [OF wire]
    have "length (pack_snapshot ?raw) = 48"
      using raw(1) by (simp add: pack_snapshot_def raw_snapshot_holds_def)
    then have parts: "field 0 48 b = pack_snapshot ?raw" "field 48 (?d * 28) b = concat (map encode_level (sr_levels r))"
      using b R pre48 unfolding encode_snapshot_def by (metis append_eq_append_conv)+
    have "length (sr_levels r) = ?d" "sides_ok no_levels (sr_levels r)" "sr_symbol_id r \<noteq> 0"
      "sr_symbol_id r \<le> int (length (md_symbols metadata))" "sr_timestamp_ns r < DAY_NS"
      using wire by (auto simp: wire_snapshot_def snapshot_values_ok_def)
    moreover have "rs_message_index ?raw = sr_message_index r" "rs_timestamp_ns ?raw = sr_timestamp_ns r"
      "rs_symbol_id ?raw = sr_symbol_id r" by (simp_all add: raw_of_snapshot_def)
    ultimately show ?L
      using decode_snapshot_Inr [of b metadata prior i r after] len parts raw R unfolding lev
      by (metis le_add1)
  qed
qed

interpretation snapshot_format: record_format SNAPSHOTS decode_snapshot encode_snapshot wire_snapshot
    sr_message_index sr_timestamp_ns
  by unfold_locales (rule decode_snapshot_iff)

end
