(* ===== verification/Conversion_Rows.thy ===== *)
theory Conversion_Rows
  imports Snapshot_Codec
begin

text \<open>
  The record batches of \<open>conversion/service.py\<close>: the two logical Parquet schemas, the grouping of
  a batch by symbol, and the columns that each group becomes. A record batch is modelled as its
  dictionary of columns; how \<open>pyarrow\<close> stores it is not.
\<close>

section \<open>Schemas\<close>

datatype column_type = Date32 | StringType | UInt nat | Int8 | BoolType | Float64

record column_field =
  cf_name :: string
  cf_type :: column_type
  cf_nullable :: bool

definition pa_field :: "string \<Rightarrow> column_type \<Rightarrow> bool \<Rightarrow> column_field" where
  "pa_field name ty nullable = \<lparr>cf_name = name, cf_type = ty, cf_nullable = nullable\<rparr>"

definition event_schema :: "column_field list" where
  "event_schema =
     [pa_field ''trading_date'' Date32 False,
      pa_field ''symbol'' StringType False,
      pa_field ''message_index'' (UInt 64) False,
      pa_field ''timestamp_ns'' (UInt 64) False,
      pa_field ''symbol_id'' (UInt 16) False,
      pa_field ''event_kind'' StringType False,
      pa_field ''source_type'' StringType False,
      pa_field ''primary_reference'' (UInt 64) True,
      pa_field ''secondary_reference'' (UInt 64) True,
      pa_field ''side'' Int8 True,
      pa_field ''price4'' (UInt 32) True,
      pa_field ''quantity'' (UInt 64) True,
      pa_field ''remaining_quantity'' (UInt 64) True,
      pa_field ''execution_price4'' (UInt 32) True,
      pa_field ''aux_code'' StringType True,
      pa_field ''event_subtype'' StringType True,
      pa_field ''in_session'' BoolType False,
      pa_field ''flags'' (UInt 16) False]"

text \<open>Decimal numerals, as an f-string renders them.\<close>

fun decimal :: "nat \<Rightarrow> string" where
  "decimal n = (if n < 10 then [hex_digit n] else decimal (n div 10) @ [hex_digit (n mod 10)])"

declare decimal.simps [simp del]

definition level_name :: "string \<Rightarrow> nat \<Rightarrow> string" where
  "level_name column index = column @ ''_'' @ decimal index"

definition level_fields :: "nat \<Rightarrow> column_field list" where
  "level_fields index =
     [pa_field (level_name ''bid_price4'' index) (UInt 32) True,
      pa_field (level_name ''bid_quantity'' index) (UInt 64) True,
      pa_field (level_name ''ask_price4'' index) (UInt 32) True,
      pa_field (level_name ''ask_quantity'' index) (UInt 64) True]"

definition snapshot_schema :: "nat \<Rightarrow> column_field list" where
  "snapshot_schema depth =
     [pa_field ''trading_date'' Date32 False,
      pa_field ''symbol'' StringType False,
      pa_field ''message_index'' (UInt 64) False,
      pa_field ''timestamp_ns'' (UInt 64) False,
      pa_field ''symbol_id'' (UInt 16) False,
      pa_field ''event_kind'' StringType False,
      pa_field ''event_price4'' (UInt 32) True,
      pa_field ''event_quantity'' (UInt 64) True,
      pa_field ''last_trade_price4'' (UInt 32) True,
      pa_field ''last_trade_quantity'' (UInt 64) True,
      pa_field ''top_n_changed'' BoolType False,
      pa_field ''trading_state'' StringType False,
      pa_field ''flags'' (UInt 8) False]
     @ concat (map level_fields [1..<depth + 1])"

section \<open>Grouping\<close>

text \<open>
  A missing key is a \<open>KeyError\<close>, here \<open>None\<close>. The dictionary of groups is a
  \<open>defaultdict(list)\<close>.
\<close>

definition symbol_names :: "interchange_metadata \<Rightarrow> (int, string) dict" where
  "symbol_names metadata = foldl (\<lambda>d s. dict_set (se_symbol_id s) (se_symbol s) d) [] (md_symbols metadata)"

definition group_by_symbol :: "('r \<Rightarrow> int) \<Rightarrow> 'r list \<Rightarrow> (int, 'r list) dict" where
  "group_by_symbol symbol_of records =
     foldl (\<lambda>d r. dict_set (symbol_of r) (dict_get_default d (symbol_of r) [] @ [r]) d) [] records"

fun yield_groups ::
  "(int, string) dict \<Rightarrow> (int, 'r list) dict \<Rightarrow> int list \<Rightarrow> (string \<times> 'r list) list option" where
  "yield_groups names grouped [] = Some []"
| "yield_groups names grouped (i # rest) = (
     case (dict_get names i, dict_get grouped i) of
       (Some name, Some rs) \<Rightarrow> map_option (\<lambda>gs. (name, rs) # gs) (yield_groups names grouped rest)
     | _ \<Rightarrow> None)"

definition group_records ::
  "('r \<Rightarrow> int) \<Rightarrow> interchange_metadata \<Rightarrow> 'r list \<Rightarrow> (string \<times> 'r list) list option" where
  "group_records symbol_of metadata records = (
     let grouped = group_by_symbol symbol_of records in
     yield_groups (symbol_names metadata) grouped (sort (dict_keys grouped)))"

definition group_events ::
  "interchange_metadata \<Rightarrow> event_record list \<Rightarrow> (string \<times> event_record list) list option" where
  "group_events = group_records er_symbol_id"

definition group_snapshots ::
  "interchange_metadata \<Rightarrow> snapshot_record list \<Rightarrow> (string \<times> snapshot_record list) list option" where
  "group_snapshots = group_records sr_symbol_id"

section \<open>Columns\<close>

type_synonym columns = "(string, pyval list) dict"

definition py_str :: "string option \<Rightarrow> pyval" where
  "py_str v = (case v of None \<Rightarrow> PyNone | Some s \<Rightarrow> PyStr s)"

text \<open>\<open>data[name].append(value)\<close> for the fields of one record.\<close>

fun append_fields :: "(string \<times> pyval) list \<Rightarrow> columns \<Rightarrow> columns option" where
  "append_fields [] data = Some data"
| "append_fields ((name, v) # rest) data = (
     case dict_get data name of
       None \<Rightarrow> None
     | Some column \<Rightarrow> append_fields rest (dict_set name (column @ [v]) data))"

fun append_records :: "('r \<Rightarrow> (string \<times> pyval) list) \<Rightarrow> 'r list \<Rightarrow> columns \<Rightarrow> columns option" where
  "append_records row [] data = Some data"
| "append_records row (r # rs) data =
     Option.bind (append_fields (row r) data) (append_records row rs)"

definition empty_columns :: "column_field list \<Rightarrow> columns" where
  "empty_columns schema = foldl (\<lambda>d f. dict_set (cf_name f) [] d) [] schema"

definition event_row :: "string \<Rightarrow> event_record \<Rightarrow> (string \<times> pyval) list" where
  "event_row symbol r =
     [(''trading_date'', PyDate (er_trading_date r)),
      (''symbol'', PyStr symbol),
      (''message_index'', PyInt (er_message_index r)),
      (''timestamp_ns'', PyInt (er_timestamp_ns r)),
      (''symbol_id'', PyInt (er_symbol_id r)),
      (''event_kind'', PyStr (event_kind_value (er_event_kind r))),
      (''source_type'', PyStr [er_source_type r]),
      (''primary_reference'', py_opt (er_primary_reference r)),
      (''secondary_reference'', py_opt (er_secondary_reference r)),
      (''side'', py_opt (er_side r)),
      (''price4'', py_opt (er_price4 r)),
      (''quantity'', py_opt (er_quantity r)),
      (''remaining_quantity'', py_opt (er_remaining_quantity r)),
      (''execution_price4'', py_opt (er_execution_price4 r)),
      (''aux_code'', py_str (er_aux_code r)),
      (''event_subtype'', py_str (map_option (\<lambda>c. [c]) (er_event_subtype r))),
      (''in_session'', PyBool (er_in_session r)),
      (''flags'', PyInt (uint (er_flags r)))]"

definition event_record_batch :: "column_field list \<Rightarrow> string \<Rightarrow> event_record list \<Rightarrow> columns option" where
  "event_record_batch schema symbol records =
     append_records (event_row symbol) records (empty_columns schema)"

fun trading_state_value :: "trading_state \<Rightarrow> string" where
  "trading_state_value UNKNOWN = ''unknown''"
| "trading_state_value PREOPEN = ''preopen''"
| "trading_state_value TRADING = ''trading''"
| "trading_state_value HALTED = ''halted''"
| "trading_state_value PAUSED = ''paused''"
| "trading_state_value QUOTATION_ONLY = ''quotation_only''"
| "trading_state_value CLOSED = ''closed''"

definition level_row :: "nat \<Rightarrow> snapshot_depth_level \<Rightarrow> (string \<times> pyval) list" where
  "level_row index level =
     [(level_name ''bid_price4'' index, py_opt (dl_bid_price4 level)),
      (level_name ''bid_quantity'' index, py_opt (dl_bid_quantity level)),
      (level_name ''ask_price4'' index, py_opt (dl_ask_price4 level)),
      (level_name ''ask_quantity'' index, py_opt (dl_ask_quantity level))]"

definition snapshot_row :: "string \<Rightarrow> snapshot_record \<Rightarrow> (string \<times> pyval) list" where
  "snapshot_row symbol r =
     [(''trading_date'', PyDate (sr_trading_date r)),
      (''symbol'', PyStr symbol),
      (''message_index'', PyInt (sr_message_index r)),
      (''timestamp_ns'', PyInt (sr_timestamp_ns r)),
      (''symbol_id'', PyInt (sr_symbol_id r)),
      (''event_kind'', PyStr (event_kind_value (sr_event_kind r))),
      (''event_price4'', py_opt (sr_event_price4 r)),
      (''event_quantity'', py_opt (sr_event_quantity r)),
      (''last_trade_price4'', py_opt (sr_last_trade_price4 r)),
      (''last_trade_quantity'', py_opt (sr_last_trade_quantity r)),
      (''top_n_changed'', PyBool (sr_top_n_changed r)),
      (''trading_state'', PyStr (trading_state_value (sr_trading_state r))),
      (''flags'', PyInt (uint (sr_flags r)))]
     @ concat (map (\<lambda>(index, level). level_row index level) (enumerate 1 (sr_levels r)))"

definition snapshot_record_batch :: "column_field list \<Rightarrow> string \<Rightarrow> snapshot_record list \<Rightarrow> columns option" where
  "snapshot_record_batch schema symbol records =
     append_records (snapshot_row symbol) records (empty_columns schema)"

section \<open>What the columns hold\<close>

definition batch_row :: "columns \<Rightarrow> nat \<Rightarrow> (string \<times> pyval) list" where
  "batch_row data k = map (\<lambda>(name, column). (name, column ! k)) data"

lemma dict_set_middle:
  "n \<notin> fst ` set pre \<Longrightarrow> dict_set n w (pre @ (n, v) # rest) = pre @ (n, w) # rest"
  unfolding dict_set_def by (induction pre) auto

lemma dict_get_middle: "n \<notin> fst ` set pre \<Longrightarrow> dict_get (pre @ (n, v) # rest) n = Some v"
  unfolding dict_get_def by (induction pre) auto

lemma append_fields_from:
  assumes "distinct (map fst (pre @ data))" "map fst row = map fst data"
  shows "append_fields row (pre @ data)
    = Some (pre @ map2 (\<lambda>(n, column) (m, v). (n, column @ [v])) data row)"
  using assms
proof (induction row arbitrary: pre data)
  case (Cons x row)
  obtain n v where x: "x = (n, v)" by (cases x)
  obtain column data' where data: "data = (n, column) # data'"
    using Cons.prems(2) x by (cases data) auto
  have fresh: "n \<notin> fst ` set pre" using Cons.prems(1) data by auto
  have "append_fields row ((pre @ [(n, column @ [v])]) @ data')
      = Some ((pre @ [(n, column @ [v])]) @ map2 (\<lambda>(n, column) (m, v). (n, column @ [v])) data' row)"
    using Cons.prems data x by (intro Cons.IH) auto
  then show ?case by (simp add: x data dict_get_middle [OF fresh] dict_set_middle [OF fresh])
qed simp

lemma append_fields_exact:
  "distinct (map fst data) \<Longrightarrow> map fst row = map fst data \<Longrightarrow>
     append_fields row data = Some (map2 (\<lambda>(n, column) (m, v). (n, column @ [v])) data row)"
  using append_fields_from [of "[]" data row] by simp

text \<open>Columns that hold the given rows, in order.\<close>

definition holds_rows :: "string list \<Rightarrow> columns \<Rightarrow> (string \<times> pyval) list list \<Rightarrow> bool" where
  "holds_rows names data rows \<longleftrightarrow> map fst data = names
     \<and> (\<forall>column\<in>snd ` set data. length column = length rows)
     \<and> (\<forall>k<length rows. batch_row data k = rows ! k)"

lemma holds_rows_append:
  assumes "holds_rows names data rows" "map fst row = names"
  shows "holds_rows names (map2 (\<lambda>(n, column) (m, v). (n, column @ [v])) data row) (rows @ [row])"
proof -
  let ?new = "map2 (\<lambda>(n, column) (m, v). (n, column @ [v])) data row"
  have len: "length row = length data" using assms by (metis holds_rows_def length_map)
  have fsts: "map fst data = map fst row" using assms by (simp add: holds_rows_def)
  have cols: "length (snd (data ! j)) = length rows" if "j < length data" for j
    using assms(1) that by (simp add: holds_rows_def)
  have nth: "?new ! j = (fst (data ! j), snd (data ! j) @ [snd (row ! j)])" if "j < length data" for j
    using that len by (simp add: split_beta)
  have names: "fst (data ! j) = fst (row ! j)" if "j < length data" for j
    using that len fsts by (metis nth_map)
  have "map fst ?new = names"
    using assms(1) len nth by (intro nth_equalityI) (auto simp: holds_rows_def)
  moreover have "\<forall>column\<in>snd ` set ?new. length column = length (rows @ [row])"
  proof
    fix column assume "column \<in> snd ` set ?new"
    then obtain j where "j < length data" "column = snd (?new ! j)"
      using len by (auto simp: in_set_conv_nth)
    then show "length column = length (rows @ [row])" using nth cols by simp
  qed
  moreover have "batch_row ?new k = (rows @ [row]) ! k" if "k < length (rows @ [row])" for k
  proof (cases "k < length rows")
    case True
    have "batch_row ?new k = batch_row data k"
      using len nth cols True by (intro nth_equalityI) (simp_all add: batch_row_def split_beta nth_append)
    then show ?thesis using assms(1) True by (simp add: holds_rows_def nth_append)
  next
    case False
    then have k: "k = length rows" using that by simp
    have "batch_row ?new k = row"
      using len nth cols names k by (intro nth_equalityI) (simp_all add: batch_row_def split_beta nth_append)
    then show ?thesis by (simp add: k)
  qed
  ultimately show ?thesis by (simp add: holds_rows_def)
qed

lemma append_records_from:
  assumes "distinct names" "holds_rows names data rows" "\<And>r. r \<in> set rs \<Longrightarrow> map fst (row r) = names"
  shows "\<exists>data'. append_records row rs data = Some data' \<and> holds_rows names data' (rows @ map row rs)"
  using assms(2,3)
proof (induction rs arbitrary: data rows)
  case (Cons r rs)
  have "append_fields (row r) data = Some (map2 (\<lambda>(n, column) (m, v). (n, column @ [v])) data (row r))"
    using Cons.prems assms(1) by (intro append_fields_exact) (simp_all add: holds_rows_def)
  moreover have "holds_rows names (map2 (\<lambda>(n, column) (m, v). (n, column @ [v])) data (row r)) (rows @ [row r])"
    using Cons.prems by (intro holds_rows_append) simp_all
  ultimately show ?case using Cons.IH [of _ "rows @ [row r]"] Cons.prems(2) by simp
qed simp

lemma empty_columns_exact:
  assumes "distinct (map cf_name schema)"
  shows "empty_columns schema = map (\<lambda>f. (cf_name f, [])) schema"
proof -
  have "foldl (\<lambda>d f. dict_set (cf_name f) [] d) pre fs = pre @ map (\<lambda>f. (cf_name f, [])) fs"
    if "distinct (map fst pre @ map cf_name fs)" for pre :: columns and fs
    using that
  proof (induction fs arbitrary: pre)
    case (Cons f fs)
    then have "dict_get pre (cf_name f) = None" by (auto simp: dict_get_def map_of_eq_None_iff)
    then show ?case using Cons by (simp add: dict_set_absent)
  qed simp
  from this [of "[]" schema] show ?thesis using assms by (simp add: empty_columns_def)
qed

lemma append_records_exact:
  assumes "distinct (map cf_name schema)"
    and "\<And>r. r \<in> set rs \<Longrightarrow> map fst (row r) = map cf_name schema"
  obtains data where "append_records row rs (empty_columns schema) = Some data"
    "holds_rows (map cf_name schema) data (map row rs)"
proof -
  have "holds_rows (map cf_name schema) (empty_columns schema) []"
    by (simp add: empty_columns_exact [OF assms(1)] holds_rows_def comp_def)
  from append_records_from [OF assms(1) this, of rs row] show ?thesis using that assms(2) by auto
qed

section \<open>Column names\<close>

definition digit_char :: "char \<Rightarrow> bool" where
  "digit_char c \<longleftrightarrow> c \<in> set ''0123456789''"

lemma digit_of: "n < 10 \<Longrightarrow> digit_char (hex_digit n)"
proof -
  assume "n < 10"
  then have "n \<in> {0, 1, 2, 3, 4, 5, 6, 7, 8, 9}" by auto
  then show ?thesis unfolding digit_char_def hex_digit_def by (elim insertE emptyE) simp_all
qed

lemma decimal_digits: "decimal n \<noteq> [] \<and> list_all digit_char (decimal n)"
proof (induction n rule: decimal.induct)
  case (1 n)
  then show ?case by (subst (1 2) decimal.simps) (auto simp: digit_of)
qed

lemma decimal_small: "n < 10 \<Longrightarrow> decimal n = [hex_digit n]"
  by (subst decimal.simps) simp

lemma decimal_large: "\<not> n < 10 \<Longrightarrow> decimal n = decimal (n div 10) @ [hex_digit (n mod 10)]"
  by (subst decimal.simps) simp

lemma decimal_inject: "decimal m = decimal n \<Longrightarrow> m = n"
proof (induction m arbitrary: n rule: decimal.induct)
  case (1 m)
  have nonempty: "decimal k \<noteq> []" for k using decimal_digits [of k] by simp
  consider "m < 10" "n < 10" | "m < 10" "\<not> n < 10" | "\<not> m < 10" "n < 10" | "\<not> m < 10" "\<not> n < 10"
    by blast
  then show ?case
  proof cases
    case 1
    then have "hex_digit m = hex_digit n" using "1.prems" by (simp add: decimal_small)
    then show ?thesis using 1 by (intro hex_digit_inject) simp_all
  next
    case 2
    then show ?thesis using "1.prems" nonempty [of "n div 10"] by (auto simp: decimal_small decimal_large)
  next
    case 3
    then show ?thesis using "1.prems" nonempty by (simp add: decimal_small decimal_large)
  next
    case 4
    then have "decimal (m div 10) = decimal (n div 10)" "hex_digit (m mod 10) = hex_digit (n mod 10)"
      using "1.prems" by (simp_all add: decimal_large)
    moreover have "m mod 10 < 16" "n mod 10 < 16"
      using mod_less_divisor [of 10 m] mod_less_divisor [of 10 n] by linarith+
    ultimately have "m div 10 = n div 10" "m mod 10 = n mod 10"
      using "1.IH" [OF 4(1)] hex_digit_inject by blast+
    then show ?thesis by (metis div_mult_mod_eq)
  qed
qed

lemma level_name_inject: "level_name a i = level_name b j \<longleftrightarrow> a = b \<and> i = j"
proof
  assume eq: "level_name a i = level_name b j"
  have tail: "takeWhile digit_char (rev (level_name c k)) = rev (decimal k)" for c k
  proof -
    have "\<forall>x\<in>set (rev (decimal k)). digit_char x" using decimal_digits [of k] by (simp add: list_all_iff)
    then show ?thesis
      unfolding level_name_def rev_append by (subst append_assoc, subst takeWhile_append2) (auto simp: digit_char_def)
  qed
  then have "rev (decimal i) = rev (decimal j)" using eq by metis
  then have "i = j" by (simp add: decimal_inject)
  then show "a = b \<and> i = j" using eq by (simp add: level_name_def)
qed simp

definition indexed_name :: "string \<Rightarrow> bool" where
  "indexed_name n \<longleftrightarrow> hd (dropWhile digit_char (rev n)) = CHR ''_''"

lemma level_name_indexed: "indexed_name (level_name c k)"
proof -
  have "\<forall>x\<in>set (rev (decimal k)). digit_char x" using decimal_digits [of k] by (simp add: list_all_iff)
  then show ?thesis
    unfolding indexed_name_def level_name_def rev_append
    by (subst append_assoc, subst dropWhile_append2) (auto simp: digit_char_def)
qed

lemma event_schema_distinct: "distinct (map cf_name event_schema)"
  by (simp add: event_schema_def pa_field_def)

lemma event_row_names: "map fst (event_row symbol r) = map cf_name event_schema"
  by (simp add: event_row_def event_schema_def pa_field_def)

lemma level_field_names:
  "map cf_name (concat (map level_fields is)) = concat (map (\<lambda>i. map (\<lambda>c. level_name c i)
     [''bid_price4'', ''bid_quantity'', ''ask_price4'', ''ask_quantity'']) is)"
  by (induction "is") (simp_all add: level_fields_def pa_field_def)

lemma level_names_distinct:
  "distinct is \<Longrightarrow> distinct (map cf_name (concat (map level_fields is)))"
  unfolding level_field_names by (induction "is") (auto simp: level_name_inject)

lemma snapshot_schema_distinct: "distinct (map cf_name (snapshot_schema depth))"
proof -
  define fixed where "fixed = [''trading_date'', ''symbol'', ''message_index'', ''timestamp_ns'', ''symbol_id'',
      ''event_kind'', ''event_price4'', ''event_quantity'', ''last_trade_price4'',
      ''last_trade_quantity'', ''top_n_changed'', ''trading_state'', ''flags'']"
  let ?levels = "map cf_name (concat (map level_fields [1..<depth + 1]))"
  have names: "map cf_name (snapshot_schema depth) = fixed @ ?levels"
    by (simp add: snapshot_schema_def pa_field_def fixed_def)
  have "\<forall>n\<in>set fixed. \<not> indexed_name n" by (simp add: fixed_def indexed_name_def digit_char_def)
  moreover have "\<forall>n\<in>set ?levels. indexed_name n"
    unfolding level_field_names by (auto simp: level_name_indexed)
  ultimately have "set fixed \<inter> set ?levels = {}" by blast
  moreover have "distinct fixed" by (simp add: fixed_def)
  moreover have "distinct ?levels" by (rule level_names_distinct) simp
  ultimately show ?thesis unfolding names distinct_append by blast
qed

lemma snapshot_row_names:
  "length (sr_levels r) = depth \<Longrightarrow> map fst (snapshot_row symbol r) = map cf_name (snapshot_schema depth)"
proof -
  have "map fst (concat (map (\<lambda>(index, level). level_row index level) (enumerate n ls)))
      = map cf_name (concat (map level_fields [n..<n + length ls]))" for n and ls :: "snapshot_depth_level list"
  proof (induction ls arbitrary: n)
    case (Cons l ls)
    have "[n..<n + length (l # ls)] = n # [Suc n..<Suc n + length ls]"
      using upt_conv_Cons [of n "n + length (l # ls)"] by simp
    then show ?case using Cons.IH [of "Suc n"] by (simp add: level_row_def level_fields_def pa_field_def)
  qed simp
  from this [of 1 "sr_levels r"] show "length (sr_levels r) = depth \<Longrightarrow> ?thesis"
    by (simp add: snapshot_row_def snapshot_schema_def pa_field_def)
qed

end
