(* ===== verification/Conversion_Properties.thy ===== *)
theory Conversion_Properties
  imports Conversion_Rows
begin

text \<open>
  What happens to a decoded batch: its groups are its records by symbol, in order; the columns of
  a group hold the group's records row by row and conform to the schema; and every row is one that
  the simulator's market events accept.
\<close>

section \<open>Grouping\<close>

lemma group_by_symbol_get:
  "dict_get (group_by_symbol symbol_of rs) i =
     (let own = filter (\<lambda>r. symbol_of r = i) rs in if own = [] then None else Some own)"
proof (induction rs arbitrary: i rule: rev_induct)
  case (snoc r rs)
  have "group_by_symbol symbol_of (rs @ [r]) = (let d = group_by_symbol symbol_of rs in
      dict_set (symbol_of r) (dict_get_default d (symbol_of r) [] @ [r]) d)"
    by (simp add: group_by_symbol_def Let_def)
  then show ?case
    using snoc.IH [of i] snoc.IH [of "symbol_of r"] by (auto simp: dict_get_default_def Let_def)
qed (simp add: group_by_symbol_def)

lemma group_by_symbol_keys: "distinct (dict_keys (group_by_symbol symbol_of rs))
    \<and> set (dict_keys (group_by_symbol symbol_of rs)) = symbol_of ` set rs"
proof
  have "dict_ok (group_by_symbol symbol_of rs)"
    unfolding group_by_symbol_def by (induction rs rule: rev_induct) simp_all
  then show "distinct (dict_keys (group_by_symbol symbol_of rs))"
    by (simp add: dict_ok_def dict_keys_def)
  show "set (dict_keys (group_by_symbol symbol_of rs)) = symbol_of ` set rs"
    by (auto simp: dict_keys_iff has_key_def group_by_symbol_get Let_def filter_empty_conv split: if_splits)
qed

lemma symbol_names_get:
  assumes "distinct (map se_symbol_id (md_symbols metadata))" "s \<in> set (md_symbols metadata)"
  shows "dict_get (symbol_names metadata) (se_symbol_id s) = Some (se_symbol s)"
proof -
  have "dict_get (foldl (\<lambda>d s. dict_set (se_symbol_id s) (se_symbol s) d) [] ss) (se_symbol_id s) = Some (se_symbol s)"
    if "distinct (map se_symbol_id ss)" "s \<in> set ss" for ss
    using that
  proof (induction ss rule: rev_induct)
    case (snoc t ss)
    then show ?case by (cases "s = t") (auto simp: image_iff)
  qed simp
  then show ?thesis using assms by (simp add: symbol_names_def)
qed

lemma yield_groups_exact:
  assumes "\<And>i. i \<in> set is \<Longrightarrow> dict_get names i = Some (name i) \<and> dict_get grouped i = Some (g i)"
  shows "yield_groups names grouped is = Some (map (\<lambda>i. (name i, g i)) is)"
  using assms by (induction "is") simp_all

text \<open>The groups in order of the dictionary, each with its own records in order.\<close>

definition groups_of ::
  "('r \<Rightarrow> int) \<Rightarrow> interchange_metadata \<Rightarrow> 'r list \<Rightarrow> (symbol_entry \<times> 'r list) list" where
  "groups_of symbol_of metadata rs =
     filter (\<lambda>(s, own). own \<noteq> [])
       (map (\<lambda>s. (s, filter (\<lambda>r. symbol_of r = se_symbol_id s) rs)) (md_symbols metadata))"

lemma canonical_ids:
  assumes "canonical_symbols ss"
  shows "distinct (map se_symbol_id ss)" "sorted (map se_symbol_id ss)"
    "set (map se_symbol_id ss) = {1..int (length ss)}"
proof -
  have ids: "map se_symbol_id ss = map (\<lambda>i. int i + 1) [0..<length ss]"
    using assms by (simp add: canonical_symbols_def)
  show "distinct (map se_symbol_id ss)" unfolding ids by (simp add: distinct_map inj_on_def)
  show "sorted (map se_symbol_id ss)" unfolding ids by (simp add: sorted_map sorted_wrt_iff_nth_less)
  have "(\<lambda>i. int i + 1) ` {0..<n} = {1..int n}" for n
  proof
    show "{1..int n} \<subseteq> (\<lambda>i. int i + 1) ` {0..<n}"
    proof
      fix x assume "x \<in> {1..int n}"
      then have "x = int (nat (x - 1)) + 1" "nat (x - 1) \<in> {0..<n}" by auto
      then show "x \<in> (\<lambda>i. int i + 1) ` {0..<n}" by blast
    qed
  qed auto
  then show "set (map se_symbol_id ss) = {1..int (length ss)}" unfolding ids by simp
qed

lemma group_records_exact:
  assumes "canonical_symbols (md_symbols metadata)"
    and "\<And>r. r \<in> set rs \<Longrightarrow> 1 \<le> symbol_of r \<and> symbol_of r \<le> int (length (md_symbols metadata))"
  shows "group_records symbol_of metadata rs
    = Some (map (\<lambda>(s, own). (se_symbol s, own)) (groups_of symbol_of metadata rs))"
proof -
  let ?ss = "md_symbols metadata" and ?own = "\<lambda>i. filter (\<lambda>r. symbol_of r = i) rs"
  let ?used = "filter (\<lambda>s. ?own (se_symbol_id s) \<noteq> []) ?ss"
  note ids = canonical_ids [OF assms(1)]
  have keys: "sort (dict_keys (group_by_symbol symbol_of rs)) = map se_symbol_id ?used"
  proof (rule sorted_distinct_set_unique)
    show "sorted (map se_symbol_id ?used)" "distinct (map se_symbol_id ?used)"
      using ids(1,2) by (simp_all add: sorted_map sorted_wrt_filter distinct_map_filter)
    have "i \<in> se_symbol_id ` set ?used" if i: "i \<in> symbol_of ` set rs" for i
    proof -
      obtain r where r: "r \<in> set rs" "i = symbol_of r" using i by blast
      then have "i \<in> se_symbol_id ` set ?ss" using assms(2) ids(3) by auto
      then show ?thesis using r by (auto simp: filter_empty_conv)
    qed
    then show "set (sort (dict_keys (group_by_symbol symbol_of rs))) = set (map se_symbol_id ?used)"
      using group_by_symbol_keys [of symbol_of rs] by (auto simp: filter_empty_conv) (metis imageI)
  qed (use group_by_symbol_keys [of symbol_of rs] in simp_all)
  define name where "name i = (THE n. dict_get (symbol_names metadata) i = Some n)" for i
  have "yield_groups (symbol_names metadata) (group_by_symbol symbol_of rs) (map se_symbol_id ?used)
      = Some (map (\<lambda>i. (name i, ?own i)) (map se_symbol_id ?used))"
  proof (rule yield_groups_exact)
    fix i assume "i \<in> set (map se_symbol_id ?used)"
    then obtain s where s: "s \<in> set ?ss" "i = se_symbol_id s" "?own i \<noteq> []" by auto
    then show "dict_get (symbol_names metadata) i = Some (name i)
        \<and> dict_get (group_by_symbol symbol_of rs) i = Some (?own i)"
      using symbol_names_get [OF ids(1)] by (simp add: name_def group_by_symbol_get)
  qed
  moreover have "name (se_symbol_id s) = se_symbol s" if "s \<in> set ?ss" for s
    using symbol_names_get [OF ids(1) that] by (simp add: name_def)
  ultimately show ?thesis
    unfolding group_records_def Let_def keys
    by (simp add: groups_of_def filter_map comp_def)
qed

section \<open>Conformance\<close>

fun value_conforms :: "column_type \<Rightarrow> pyval \<Rightarrow> bool" where
  "value_conforms Date32 (PyDate d) \<longleftrightarrow> valid_date d"
| "value_conforms StringType (PyStr s) \<longleftrightarrow> True"
| "value_conforms (UInt n) (PyInt x) \<longleftrightarrow> 0 \<le> x \<and> x < 2 ^ n"
| "value_conforms Int8 (PyInt x) \<longleftrightarrow> -128 \<le> x \<and> x < 128"
| "value_conforms BoolType (PyBool b) \<longleftrightarrow> True"
| "value_conforms _ _ \<longleftrightarrow> False"

definition field_conforms :: "column_field \<Rightarrow> string \<times> pyval \<Rightarrow> bool" where
  "field_conforms f x \<longleftrightarrow> fst x = cf_name f
     \<and> (if snd x = PyNone then cf_nullable f else value_conforms (cf_type f) (snd x))"

definition row_conforms :: "column_field list \<Rightarrow> (string \<times> pyval) list \<Rightarrow> bool" where
  "row_conforms schema row \<longleftrightarrow> list_all2 field_conforms schema row"

lemma uint_conforms:
  "opt_all (uint_in n) v \<Longrightarrow> field_conforms (pa_field name (UInt (8 * n)) True) (name, py_opt v)"
proof -
  have "(256 :: int) ^ n = 2 ^ (8 * n)" by (simp add: power_mult)
  then show "opt_all (uint_in n) v \<Longrightarrow> ?thesis"
    by (cases v) (auto simp: field_conforms_def pa_field_def py_opt_def opt_all_def uint_in_def)
qed

lemma str_conforms: "field_conforms (pa_field name StringType True) (name, py_str v)"
  by (cases v) (simp_all add: field_conforms_def pa_field_def py_str_def)

lemma opt_all_mono: "opt_all P v \<Longrightarrow> (\<And>x. P x \<Longrightarrow> Q x) \<Longrightarrow> opt_all Q v"
  by (auto simp: opt_all_def split: option.splits)

lemma event_row_conforms:
  assumes "wire_event metadata r" "valid_date (md_trading_date metadata)"
  shows "row_conforms event_schema (event_row symbol r)"
proof -
  have v: "event_values_ok r" and day: "er_trading_date r = md_trading_date metadata"
    using assms(1) unfolding wire_event_def by blast+
  note v = v [unfolded event_values_ok_def]
  have opt: "opt_all (uint_in 8) (er_quantity r)" using v by (auto intro: opt_all_mono)
  have rem: "opt_all (uint_in 8) (er_remaining_quantity r)"
  proof (rule opt_all_mono)
    show "opt_all (uint_in 4) (er_remaining_quantity r)" using v by blast
  qed (simp add: uint_in_def)
  have side: "field_conforms (pa_field ''side'' Int8 True) (''side'', py_opt (er_side r))"
    using v by (cases "er_side r") (auto simp: field_conforms_def pa_field_def py_opt_def opt_all_def)
  have flags: "uint (er_flags r) < 65536" using uint_lt2p [of "er_flags r"] by simp
  have nums: "field_conforms (pa_field n (UInt 64) True) (n, py_opt x)" if "opt_all (uint_in 8) x" for n x
    using uint_conforms [OF that] by simp
  have nums': "field_conforms (pa_field n (UInt 32) True) (n, py_opt x)" if "opt_all (uint_in 4) x" for n x
    using uint_conforms [OF that] by simp
  have ints: "field_conforms (pa_field n (UInt (8 * k)) False) (n, PyInt x)" if "uint_in k x" for n k x
    using that by (simp add: field_conforms_def pa_field_def uint_in_def power_mult)
  have "uint_in 8 (er_timestamp_ns r)" using v by (simp add: uint_in_def DAY_NS_def)
  then have fixed: "field_conforms (pa_field ''message_index'' (UInt 64) False) (''message_index'', PyInt (er_message_index r))"
    "field_conforms (pa_field ''timestamp_ns'' (UInt 64) False) (''timestamp_ns'', PyInt (er_timestamp_ns r))"
    "field_conforms (pa_field ''symbol_id'' (UInt 16) False) (''symbol_id'', PyInt (er_symbol_id r))"
    using v ints [of 8] ints [of 2] by simp_all
  show ?thesis
    unfolding row_conforms_def event_schema_def event_row_def list_all2_Cons list.rel_inject
    using v opt rem side fixed assms(2) day flags
    by (intro conjI nums nums' str_conforms list.rel_intros)
      (simp_all add: field_conforms_def pa_field_def)
qed

section \<open>Rows and market events\<close>

definition market_event_of :: "event_record \<Rightarrow> market_event" where
  "market_event_of r = \<lparr>
     me_message_index = er_message_index r,
     me_timestamp_ns = er_timestamp_ns r,
     me_symbol_id = er_symbol_id r,
     me_event_kind = er_event_kind r,
     me_primary_reference = er_primary_reference r,
     me_secondary_reference = er_secondary_reference r,
     me_side = er_side r,
     me_price4 = er_price4 r,
     me_quantity = er_quantity r,
     me_remaining_quantity = er_remaining_quantity r,
     me_execution_price4 = er_execution_price4 r\<rparr>"

lemma opt_bounds: "opt_all (\<lambda>x. a \<le> x \<and> x \<le> b) v \<longleftrightarrow> in_bounds v a b"
  by (cases v) (simp_all add: opt_all_def in_bounds_def)

lemma wire_event_market:
  assumes "wire_event metadata r"
  shows "event_wf (market_event_of r)"
proof -
  have v: "event_values_ok r" and p: "event_presence r" and rem: "event_remaining_ok r"
    and fl: "flags_ok (er_event_kind r) (er_source_type r) (er_flags r)" and sid: "1 \<le> er_symbol_id r"
    using assms unfolding wire_event_def by blast+
  note v = v [unfolded event_values_ok_def]
  note p = p [unfolded event_presence_def Let_def]
  have bounds: "in_bounds (er_primary_reference r) 0 MAX_UINT64" "in_bounds (er_secondary_reference r) 0 MAX_UINT64"
    "in_bounds (er_price4 r) 0 MAX_UINT32" "in_bounds (er_quantity r) 1 MAX_UINT64"
    "in_bounds (er_remaining_quantity r) 0 MAX_UINT64" "in_bounds (er_execution_price4 r) 0 MAX_UINT32"
    unfolding opt_bounds [symmetric] using v
    by (auto elim!: opt_all_mono simp: uint_in_def bound_defs)
  have ints: "0 \<le> er_message_index r" "er_message_index r \<le> MAX_UINT64" "0 \<le> er_timestamp_ns r"
    "er_timestamp_ns r \<le> MAX_TIMESTAMP_NS" "er_symbol_id r \<le> MAX_UINT16"
    using v by (simp_all add: uint_in_def bound_defs DAY_NS_def)
  have side: "er_side r = None \<or> er_side r = Some (-1) \<or> er_side r = Some 1"
    using v by (auto simp: opt_all_def split: option.splits)
  have has: "has (er_primary_reference r) \<longleftrightarrow> er_event_kind r \<noteq> CROSS \<and> er_event_kind r \<noteq> TRADING_STATE"
    "has (er_secondary_reference r) \<longleftrightarrow> er_event_kind r = EXECUTE \<or> er_event_kind r = EXECUTE_PRICE
       \<or> er_event_kind r = REPLACE \<or> er_event_kind r = TRADE \<or> er_event_kind r = CROSS"
    "has (er_side r) \<longleftrightarrow> lifecycle_kind (er_event_kind r) \<or> er_event_kind r = TRADE"
    "has (er_price4 r) \<longleftrightarrow> er_event_kind r \<noteq> BROKEN_TRADE \<and> er_event_kind r \<noteq> TRADING_STATE"
    "has (er_quantity r) \<longleftrightarrow> er_event_kind r \<noteq> BROKEN_TRADE \<and> er_event_kind r \<noteq> TRADING_STATE"
    "has (er_remaining_quantity r) \<longleftrightarrow> lifecycle_kind (er_event_kind r)"
    "has (er_execution_price4 r) \<longleftrightarrow> er_event_kind r = EXECUTE_PRICE"
    using p fl unfolding has_def flags_ok_def by argo+
  have carried: "lifecycle_kind (er_event_kind r) \<longrightarrow> has (er_primary_reference r) \<and> has (er_side r)
      \<and> has (er_price4 r) \<and> has (er_quantity r) \<and> has (er_remaining_quantity r)"
    unfolding has by (cases "er_event_kind r") (simp_all add: lifecycle_kind_def)
  have kind: "case er_event_kind r of
        ADD \<Rightarrow> \<not> has (er_secondary_reference r) \<and> er_remaining_quantity r = er_quantity r
      | EXECUTE \<Rightarrow> has (er_secondary_reference r)
      | EXECUTE_PRICE \<Rightarrow> has (er_secondary_reference r)
      | CANCEL_EVENT \<Rightarrow> \<not> has (er_secondary_reference r)
      | DELETE \<Rightarrow> \<not> has (er_secondary_reference r) \<and> er_remaining_quantity r = Some 0
      | REPLACE \<Rightarrow> has (er_secondary_reference r) \<and> er_remaining_quantity r = er_quantity r
      | TRADE \<Rightarrow> has (er_primary_reference r) \<and> has (er_secondary_reference r) \<and> has (er_side r)
          \<and> has (er_price4 r) \<and> has (er_quantity r) \<and> \<not> has (er_remaining_quantity r)
      | CROSS \<Rightarrow> \<not> has (er_primary_reference r) \<and> has (er_secondary_reference r) \<and> \<not> has (er_side r)
          \<and> has (er_price4 r) \<and> has (er_quantity r) \<and> \<not> has (er_remaining_quantity r)
      | BROKEN_TRADE \<Rightarrow> has (er_primary_reference r) \<and> \<not> has (er_secondary_reference r)
          \<and> \<not> has (er_side r) \<and> \<not> has (er_price4 r) \<and> \<not> has (er_quantity r)
          \<and> \<not> has (er_remaining_quantity r)
      | TRADING_STATE \<Rightarrow> \<not> has (er_primary_reference r) \<and> \<not> has (er_secondary_reference r)
          \<and> \<not> has (er_side r) \<and> \<not> has (er_price4 r) \<and> \<not> has (er_quantity r)
          \<and> \<not> has (er_remaining_quantity r)"
    unfolding has using rem [unfolded event_remaining_ok_def]
    by (cases "er_event_kind r") (simp_all add: lifecycle_kind_def)
  show ?thesis
    unfolding event_wf_def market_event_of_def market_event.simps
    using bounds ints side sid kind carried has(7) by blast
qed

lemma event_row_matches: "row_matches (event_row symbol r) (market_event_of r)"
  by (simp add: row_matches_def row_get_def dict_get_default_def dict_get_def event_row_def market_event_of_def)

lemma wire_event_adapts:
  "wire_event metadata r \<Longrightarrow>
     adapt_market_event (Row_mapping (event_row symbol r)) = Inr (market_event_of r)"
  by (simp add: adapt_mapping_Inr wire_event_market event_row_matches)

end
