(* ===== verification/Interchange_Properties.thy ===== *)
theory Interchange_Properties
  imports Conversion_Properties
begin

text \<open>
  The properties of the interchange readers and of the conversion of what they yield, each with an
  instance on a small event or snapshot file.
\<close>

section \<open>A sample file\<close>

definition sample_header :: "interchange_kind \<Rightarrow> int \<Rightarrow> int \<Rightarrow> int \<Rightarrow> raw_header" where
  "sample_header kind record_size depth count = \<lparr>
     rh_magic = magic_of kind, rh_schema_version = 1, rh_header_size = 104,
     rh_record_size = record_size, rh_depth = depth, rh_price_scale = 10000,
     rh_trading_date = 20240229, rh_symbol_count = 2, rh_header_flags = 1, rh_record_count = count,
     rh_config_hash = replicate 32 1, rh_source_hash = replicate 32 2, rh_reserved = replicate 4 0\<rparr>"

definition sample_symbols :: "symbol_entry list" where
  "sample_symbols =
     [\<lparr>se_symbol_id = 1, se_stock_locate = 4660, se_symbol = ''AAPL'', se_round_lot_size = 100\<rparr>,
      \<lparr>se_symbol_id = 2, se_stock_locate = 43981, se_symbol = ''MSFT.X'', se_round_lot_size = 200\<rparr>]"

definition sample_add :: event_record where
  "sample_add = \<lparr>er_trading_date = (2024, 2, 29), er_message_index = 5, er_timestamp_ns = 1000000,
     er_symbol_id = 2, er_event_kind = ADD, er_source_type = CHR ''F'', er_primary_reference = Some 7,
     er_secondary_reference = None, er_side = Some 1, er_price4 = Some 1652300, er_quantity = Some 300,
     er_remaining_quantity = Some 300, er_execution_price4 = None, er_aux_code = Some ''MM01'',
     er_event_subtype = None, er_in_session = True, er_flags = 701\<rparr>"

definition sample_execute :: event_record where
  "sample_execute = \<lparr>er_trading_date = (2024, 2, 29), er_message_index = 6, er_timestamp_ns = 1000010,
     er_symbol_id = 1, er_event_kind = EXECUTE, er_source_type = CHR ''E'', er_primary_reference = Some 7,
     er_secondary_reference = Some 9, er_side = Some (-1), er_price4 = Some 1652300, er_quantity = Some 100,
     er_remaining_quantity = Some 200, er_execution_price4 = None, er_aux_code = None,
     er_event_subtype = None, er_in_session = False, er_flags = 63\<rparr>"

definition sample_digest :: string where
  "sample_digest = replicate 64 CHR ''a''"

definition sample_content :: bytes where
  "sample_content = leading_bytes (sample_header EVENTS 72 0 2) sample_symbols
     @ encode_event sample_add @ encode_event sample_execute"

definition sample_file :: artefact where
  "sample_file = \<lparr>af_name = ''events.ilb'', af_parts = [''run'', ''events.ilb''],
     af_target_regular = Some True, af_opens = True, af_file_regular = Some True,
     af_content = sample_content, af_unchanged = (\<lambda>_. True)\<rparr>"

definition sample_metadata :: interchange_metadata where
  "sample_metadata = metadata_of EVENTS (sample_header EVENTS 72 0 2) sample_symbols (2024, 2, 29)
     sample_digest"

lemma sample_arguments: "arguments_ok sample_digest 1" "arguments_ok sample_digest 1000"
  by (simp_all add: arguments_ok_def sample_digest_def)

lemma sample_validated:
  "validated_stream (\<lambda>_. sample_digest) sample_file EVENTS sample_digest
     = Inr (sample_metadata, encode_event sample_add @ encode_event sample_execute)"
  by code_simp

lemma sample_region:
  "region_records decode_event sample_metadata (encode_event sample_add @ encode_event sample_execute)
     = ([sample_add, sample_execute], None)"
  by code_simp

lemma sample_read:
  assumes "arguments_ok sample_digest chunk"
  obtains bs where "read_events (\<lambda>_. sample_digest) sample_file sample_digest chunk = Some (bs, None)"
    "concat bs = [sample_add, sample_execute]"
  using read_records_region [OF assms sample_validated sample_region] that
  by (auto simp: read_events_def sample_file_def)

section \<open>Records\<close>

text \<open>
  C20: an event record decodes exactly when its bytes are the canonical encoding of a valid event
  that follows its predecessor; so decoding is the inverse of encoding, and no two byte strings
  decode to one record.
\<close>

theorem event_codec_exact:
  "decode_event b metadata prior i = Inr (r, after) \<longleftrightarrow>
     wire_event metadata r \<and> follows prior (er_message_index r) (er_timestamp_ns r)
   \<and> b = encode_event r \<and> after = advance_ordering (er_message_index r) (er_timestamp_ns r)"
  by (rule decode_event_iff)

definition sample_snapshot :: snapshot_record where
  "sample_snapshot = \<lparr>sr_trading_date = (2024, 2, 29), sr_message_index = 5, sr_timestamp_ns = 1000000,
     sr_symbol_id = 1, sr_event_kind = ADD, sr_event_price4 = Some 1652300, sr_event_quantity = Some 300,
     sr_last_trade_price4 = None, sr_last_trade_quantity = None, sr_top_n_changed = True,
     sr_trading_state = TRADING,
     sr_levels = [\<lparr>dl_bid_price4 = Some 1652300, dl_bid_quantity = Some 300,
                   dl_ask_price4 = Some 1652400, dl_ask_quantity = Some 50\<rparr>,
                  \<lparr>dl_bid_price4 = Some 1652200, dl_bid_quantity = Some 10,
                   dl_ask_price4 = None, dl_ask_quantity = None\<rparr>],
     sr_flags = 83\<rparr>"

definition sample_snapshot_metadata :: interchange_metadata where
  "sample_snapshot_metadata = metadata_of SNAPSHOTS (sample_header SNAPSHOTS 104 2 1) sample_symbols
     (2024, 2, 29) sample_digest"

lemma sample_snapshot_layout:
  "metadata_ok SNAPSHOTS sample_snapshot_metadata"
  "length (encode_snapshot sample_snapshot) = md_record_size sample_snapshot_metadata"
  by code_simp+

lemma sample_snapshot_decodes:
  "decode_snapshot (encode_snapshot sample_snapshot) sample_snapshot_metadata no_ordering 0
     = Inr (sample_snapshot, advance_ordering 5 1000000)"
  by code_simp

text \<open>
  C21: a snapshot record of a file with a valid header decodes exactly when its bytes are the
  canonical encoding of a valid snapshot that follows its predecessor.
\<close>

theorem snapshot_codec_exact:
  assumes "metadata_ok SNAPSHOTS metadata" "length b = md_record_size metadata"
  shows "decode_snapshot b metadata prior i = Inr (r, after) \<longleftrightarrow>
     wire_snapshot metadata r \<and> follows prior (sr_message_index r) (sr_timestamp_ns r)
   \<and> b = encode_snapshot r \<and> after = advance_ordering (sr_message_index r) (sr_timestamp_ns r)"
  by (rule decode_snapshot_iff [OF assms])

theorem snapshot_codec_exact_witness:
  "wire_snapshot sample_snapshot_metadata sample_snapshot"
  using snapshot_codec_exact [OF sample_snapshot_layout, of no_ordering 0 sample_snapshot
      "advance_ordering 5 1000000"] sample_snapshot_decodes by blast

text \<open>
  A decoded event, converted to a row, is a row that the simulator accepts, and the market event
  it becomes has the record's fields.
\<close>

theorem decoded_event_enters_simulator:
  assumes "decode_event b metadata prior i = Inr (r, after)"
  shows "adapt_market_event (Row_mapping (event_row symbol r)) = Inr (market_event_of r)"
  using assms by (intro wire_event_adapts [of metadata]) (simp add: decode_event_iff)

lemma sample_event_decodes:
  "decode_event (encode_event sample_add) sample_metadata no_ordering 0
     = Inr (sample_add, advance_ordering 5 1000000)"
  by code_simp

theorem decoded_event_enters_simulator_witness:
  "adapt_market_event (Row_mapping (event_row ''MSFT.X'' sample_add)) = Inr (market_event_of sample_add)"
  by (rule decoded_event_enters_simulator [OF sample_event_decodes])

text \<open>
  The sides of a decoded snapshot are ladders: present levels first, with valid prices and
  positive quantities, bids strictly falling and asks strictly rising, then absent levels up to
  the depth of the file.
\<close>

theorem snapshot_sides_are_ladders:
  assumes "metadata_ok SNAPSHOTS metadata" "length b = md_record_size metadata"
    and "decode_snapshot b metadata prior i = Inr (r, after)"
  shows "length (sr_levels r) = md_depth metadata
    \<and> side_ladder (>) (bid_side (sr_levels r)) \<and> side_ladder (<) (ask_side (sr_levels r))"
proof -
  have "wire_snapshot metadata r" using decode_snapshot_iff [OF assms(1,2)] assms(3) by blast
  then have "length (sr_levels r) = md_depth metadata" "sides_ok no_levels (sr_levels r)"
    by (simp_all add: wire_snapshot_def)
  moreover have "transp ((>) :: int \<Rightarrow> int \<Rightarrow> bool)" "transp ((<) :: int \<Rightarrow> int \<Rightarrow> bool)"
    by (auto intro: transpI)
  ultimately show ?thesis
    by (simp add: sides_ok_def no_levels_def side_ladder_of)
qed

theorem snapshot_sides_are_ladders_witness:
  "side_ladder (>) (bid_side (sr_levels sample_snapshot))"
  using snapshot_sides_are_ladders [OF sample_snapshot_layout sample_snapshot_decodes] by blast

section \<open>Files\<close>

lemma read_records_total: "\<exists>out. read_records decode kind sha256 file expected chunk = Some out"
proof (cases "bindR (validate_reader_arguments expected chunk) (\<lambda>_. validated_stream sha256 file kind expected)")
  case (Inl e)
  then show ?thesis by (simp add: read_records_def)
next
  case (Inr v)
  then obtain metadata stream where v: "arguments_ok expected chunk"
    "validated_stream sha256 file kind expected = Inr (metadata, stream)"
    by (cases v) (auto simp: bindR_eq_Inr validate_reader_arguments_iff)
  obtain rs e where "region_records decode metadata stream = (rs, e)" by force
  from read_records_region [OF v this] show ?thesis by auto
qed

text \<open>
  C22: the generators end for every input, with batches and at most one error.
\<close>

theorem reading_terminates:
  "(\<exists>out. read_events sha256 file expected chunk = Some out)
   \<and> (\<exists>out. read_snapshots sha256 file expected chunk = Some out)"
  unfolding read_events_def read_snapshots_def by (intro conjI read_records_total)

text \<open>
  C23: the chunk size is immaterial for a file that does not change while it is read: two chunk
  sizes end with the same error or none, one sequence of events is a prefix of the other, and
  they are equal when there is no error; and no batch is empty or exceeds the chunk size.
\<close>

theorem events_independent_of_chunks:
  assumes "\<forall>k. af_unchanged file k" "arguments_ok expected chunk" "arguments_ok expected chunk'"
  shows "\<exists>bs cs e. read_events sha256 file expected chunk = Some (bs, e)
     \<and> read_events sha256 file expected chunk' = Some (cs, e)
     \<and> (prefix (concat bs) (concat cs) \<or> prefix (concat cs) (concat bs))
     \<and> (e = None \<longrightarrow> concat bs = concat cs)
     \<and> list_all (\<lambda>b. b \<noteq> [] \<and> length b \<le> nat chunk) bs"
proof (cases "validated_stream sha256 file EVENTS expected")
  case (Inl e)
  then show ?thesis
    using assms(2,3)
    by (simp add: read_events_def read_records_def flip: validate_reader_arguments_iff)
next
  case (Inr v)
  obtain metadata stream where v: "validated_stream sha256 file EVENTS expected = Inr (metadata, stream)"
    using Inr by (cases v) simp
  obtain rs e where region: "region_records decode_event metadata stream = (rs, e)" by force
  have read: "\<exists>bs. read_events sha256 file expected c = Some (bs, e) \<and> prefix (concat bs) rs
      \<and> (e = None \<longrightarrow> concat bs = rs) \<and> list_all (\<lambda>b. b \<noteq> [] \<and> length b \<le> nat c) bs"
    if args: "arguments_ok expected c" for c
  proof -
    obtain bs e' where h: "read_records decode_event EVENTS sha256 file expected c = Some (bs, e')"
      "prefix (concat bs) rs" "e' = None \<longrightarrow> e = None \<and> concat bs = rs"
      "(\<forall>k. af_unchanged file k) \<longrightarrow> e' = e" "list_all (\<lambda>b. b \<noteq> [] \<and> length b \<le> nat c) bs"
      using read_records_region [OF args v region] by (elim exE conjE) (rule that)
    have "e' = e" using h(4) assms(1) by simp
    then show ?thesis using h by (intro exI [of _ bs]) (simp add: read_events_def)
  qed
  obtain bs where bs: "read_events sha256 file expected chunk = Some (bs, e)" "prefix (concat bs) rs"
      "e = None \<longrightarrow> concat bs = rs" "list_all (\<lambda>b. b \<noteq> [] \<and> length b \<le> nat chunk) bs"
    using read [OF assms(2)] by blast
  obtain cs where cs: "read_events sha256 file expected chunk' = Some (cs, e)" "prefix (concat cs) rs"
      "e = None \<longrightarrow> concat cs = rs"
    using read [OF assms(3)] by blast
  have "prefix (concat bs) (concat cs) \<or> prefix (concat cs) (concat bs)"
    using bs(2) cs(2) by (rule prefix_same_cases)
  then show ?thesis
    using bs(1,3,4) cs(1,3) by (intro exI [of _ bs] exI [of _ cs] exI [of _ e]) simp
qed

theorem events_independent_of_chunks_witness:
  "\<exists>bs cs e. read_events (\<lambda>_. sample_digest) sample_file sample_digest 1 = Some (bs, e)
     \<and> read_events (\<lambda>_. sample_digest) sample_file sample_digest 1000 = Some (cs, e)
     \<and> (e = None \<longrightarrow> concat bs = concat cs)"
proof -
  have "\<forall>k. af_unchanged sample_file k" by (simp add: sample_file_def)
  from events_independent_of_chunks [OF this sample_arguments] show ?thesis by blast
qed

text \<open>
  C24: what a completed reading yields is authentic and complete: the digest of the file is the
  expected one, its bytes are the header and dictionary followed by the encodings of the yielded
  events, all of them valid, as many as the header declares, in strict order of message index and
  in order of time.
\<close>

theorem completed_reading_authentic:
  assumes "read_events sha256 file expected chunk = Some (bs, None)"
  shows "\<exists>metadata leading. read_event_metadata sha256 file expected = Inr metadata
     \<and> sha256 (af_content file) = expected
     \<and> af_content file = leading @ concat (map encode_event (concat bs))
     \<and> length leading = HEADER_SIZE + SYMBOL_SIZE * length (md_symbols metadata)
     \<and> length (concat bs) = md_record_count metadata
     \<and> list_all (wire_event metadata) (concat bs)
     \<and> sorted_wrt (<) (map er_message_index (concat bs))
     \<and> sorted (map er_timestamp_ns (concat bs))"
proof -
  obtain raw ss day metadata where h:
    "validated_stream sha256 file EVENTS expected = Inr (metadata, concat (map encode_event (concat bs)))"
    "header_ok EVENTS raw" "raw_header_holds raw"
    "rh_symbol_count raw = int (length ss)" "trading_date (rh_trading_date raw) = Inr day"
    "metadata = metadata_of EVENTS raw ss day expected"
    "af_content file = leading_bytes raw ss @ concat (map encode_event (concat bs))"
    "sha256 (af_content file) = expected" "length (concat bs) = md_record_count metadata"
    "list_all (wire_event metadata) (concat bs)"
    "in_order er_message_index er_timestamp_ns no_ordering (concat bs)" "canonical_symbols ss"
    using assms unfolding read_events_def by (rule event_format.read_records_complete)
  have "arguments_ok expected chunk"
    using assms by (auto simp: read_events_def read_records_def bindR_eq_Inr
        simp flip: validate_reader_arguments_iff split: sum.splits)
  then have "arguments_ok expected 1" by (simp add: arguments_ok_def)
  then have "read_event_metadata sha256 file expected = Inr metadata"
    using h(1) by (simp add: read_event_metadata_def read_metadata_def flip: validate_reader_arguments_iff)
  moreover have "length (leading_bytes raw ss) = HEADER_SIZE + SYMBOL_SIZE * length (md_symbols metadata)"
    using length_leading_bytes [OF h(3,12)] by (simp add: h(6) metadata_of_def)
  ultimately show ?thesis using h(7-11) unfolding in_order_none by blast
qed

theorem completed_reading_authentic_witness:
  "\<exists>bs. read_events (\<lambda>_. sample_digest) sample_file sample_digest 1 = Some (bs, None)
     \<and> sorted_wrt (<) (map er_message_index (concat bs)) \<and> length (concat bs) = 2"
proof -
  obtain bs where bs: "read_events (\<lambda>_. sample_digest) sample_file sample_digest 1 = Some (bs, None)"
      "concat bs = [sample_add, sample_execute]"
    by (rule sample_read [OF sample_arguments(1)])
  have "sorted_wrt (<) (map er_message_index (concat bs))"
    using completed_reading_authentic [OF bs(1)] by blast
  then show ?thesis using bs by auto
qed

text \<open>
  the format is canonical: two accepted event files with the same metadata, whatever their
  recorded digests, and the same events have the same bytes.
\<close>

theorem event_files_canonical:
  assumes "read_events sha256 f expected chunk = Some (bs, None)"
    and "read_events sha256' g expected' chunk' = Some (cs, None)"
    and "read_event_metadata sha256 f expected = Inr m" "read_event_metadata sha256' g expected' = Inr m'"
    and "concat bs = concat cs" "m\<lparr>md_file_sha256 := ''''\<rparr> = m'\<lparr>md_file_sha256 := ''''\<rparr>"
  shows "af_content f = af_content g"
  using assms unfolding read_events_def read_event_metadata_def by (rule event_format.read_records_inject)

theorem event_files_canonical_witness:
  "af_content sample_file = af_content (sample_file\<lparr>af_name := ''copy.ilb''\<rparr>)"
proof -
  let ?g = "sample_file\<lparr>af_name := ''copy.ilb''\<rparr>"
  have v: "validated_stream (\<lambda>_. sample_digest) ?g EVENTS sample_digest
      = Inr (sample_metadata, encode_event sample_add @ encode_event sample_execute)"
    by code_simp
  obtain bs where f: "read_events (\<lambda>_. sample_digest) sample_file sample_digest 1 = Some (bs, None)"
      "concat bs = [sample_add, sample_execute]"
    by (rule sample_read [OF sample_arguments(1)])
  obtain cs where g: "read_events (\<lambda>_. sample_digest) ?g sample_digest 1000 = Some (cs, None)"
      "concat cs = [sample_add, sample_execute]"
    using read_records_region [OF sample_arguments(2) v sample_region]
    by (auto simp: read_events_def sample_file_def)
  have meta: "read_event_metadata (\<lambda>_. sample_digest) h sample_digest = Inr sample_metadata"
    if "validated_stream (\<lambda>_. sample_digest) h EVENTS sample_digest
      = Inr (sample_metadata, encode_event sample_add @ encode_event sample_execute)" for h
    using that sample_arguments(1)
    by (simp add: read_event_metadata_def read_metadata_def flip: validate_reader_arguments_iff)
  show ?thesis
    by (rule event_files_canonical [OF f(1) g(1) meta [OF sample_validated] meta [OF v]])
      (simp_all add: f(2) g(2))
qed

section \<open>Conversion\<close>

text \<open>
  C25: converting a batch of decoded events never misses a key: the batch becomes one group per
  symbol of the dictionary that it mentions, in the dictionary's order, each with its own events
  in their order; the columns of a group hold exactly its rows; and every row has the type,
  range and nullability that the schema declares.
\<close>

theorem event_batch_conversion:
  assumes "metadata_ok EVENTS metadata" "list_all (wire_event metadata) records"
  shows "group_events metadata records
       = Some (map (\<lambda>(s, own). (se_symbol s, own)) (groups_of er_symbol_id metadata records))
     \<and> (\<forall>(s, own) \<in> set (groups_of er_symbol_id metadata records). \<exists>data.
          event_record_batch event_schema (se_symbol s) own = Some data
        \<and> holds_rows (map cf_name event_schema) data (map (event_row (se_symbol s)) own)
        \<and> list_all (row_conforms event_schema) (map (event_row (se_symbol s)) own))"
proof
  have wire: "wire_event metadata r" if "r \<in> set records" for r
    using that assms(2) by (simp add: list_all_iff)
  have "1 \<le> er_symbol_id r \<and> er_symbol_id r \<le> int (length (md_symbols metadata))" if "r \<in> set records" for r
    using wire [OF that] by (simp add: wire_event_def)
  then show "group_events metadata records
      = Some (map (\<lambda>(s, own). (se_symbol s, own)) (groups_of er_symbol_id metadata records))"
    unfolding group_events_def using assms(1) by (intro group_records_exact) (auto simp: metadata_ok_def)
  have "\<exists>data. event_record_batch event_schema symbol own = Some data
      \<and> holds_rows (map cf_name event_schema) data (map (event_row symbol) own)
      \<and> list_all (row_conforms event_schema) (map (event_row symbol) own)" if "set own \<subseteq> set records" for symbol own
  proof -
    obtain data where "append_records (event_row symbol) own (empty_columns event_schema) = Some data"
      "holds_rows (map cf_name event_schema) data (map (event_row symbol) own)"
      by (rule append_records_exact [OF event_schema_distinct event_row_names])
    moreover have "valid_date (md_trading_date metadata)" using assms(1) by (simp add: metadata_ok_def)
    ultimately show ?thesis
      using wire that by (auto simp: event_record_batch_def list_all_iff intro: event_row_conforms)
  qed
  then show "\<forall>(s, own) \<in> set (groups_of er_symbol_id metadata records). \<exists>data.
          event_record_batch event_schema (se_symbol s) own = Some data
        \<and> holds_rows (map cf_name event_schema) data (map (event_row (se_symbol s)) own)
        \<and> list_all (row_conforms event_schema) (map (event_row (se_symbol s)) own)"
    by (auto simp: groups_of_def)
qed

theorem event_batch_conversion_witness:
  "group_events sample_metadata [sample_add, sample_execute]
     = Some [(''AAPL'', [sample_execute]), (''MSFT.X'', [sample_add])]"
proof -
  have "metadata_ok EVENTS sample_metadata" by code_simp
  moreover have "list_all (wire_event sample_metadata) [sample_add, sample_execute]"
    by code_simp
  ultimately have "group_events sample_metadata [sample_add, sample_execute]
     = Some (map (\<lambda>(s, own). (se_symbol s, own)) (groups_of er_symbol_id sample_metadata [sample_add, sample_execute]))"
    using event_batch_conversion by blast
  also have "\<dots> = Some [(''AAPL'', [sample_execute]), (''MSFT.X'', [sample_add])]" by code_simp
  finally show ?thesis .
qed

end
