(* ===== verification/Prediction_Join.thy ===== *)
theory Prediction_Join
  imports Market_Events Complex_Main
begin

text \<open>
  \<open>strategies/prediction_join.py\<close>: the causal as-of join of one prediction stream with the
  decisions of a strategy.

  The stream is an iterator of arbitrary objects; what is left of it is a list. An item is a
  prediction row whose fields may be any Python values, or \<open>None\<close>, or something else. A score is
  a Boolean, an integer, a float (its exact rational value, or none for a value that is not
  finite), or another object. Converting an integer to a float raises \<open>OverflowError\<close> when it
  rounds beyond the largest float.
\<close>

section \<open>Values\<close>

datatype prediction_error = Prediction_Error error_code "int option" | Overflow_Error

datatype prediction_diagnostic_code = MISSING | STALE

definition PREDICTION_MODEL_ORDER :: "string list" where
  "PREDICTION_MODEL_ORDER = [''prior'', ''logistic_regression'', ''hist_gradient_boosting'']"

definition MAX_IJSON_INTEGER :: int where "MAX_IJSON_INTEGER = 9007199254740991"

record prediction_key =
  pk_experiment_id :: string
  pk_trading_date :: "int \<times> int \<times> int"
  pk_symbol_id :: int
  pk_message_index :: int
  pk_model_name :: string

record signal_prediction =
  sp_key :: prediction_key
  sp_timestamp_ns :: int
  sp_score :: rat

datatype py_score = Score_bool bool | Score_int int | Score_float "rat option" | Score_other

text \<open>A prediction row before it has been validated.\<close>

record prediction_row =
  pr_experiment_id :: pyval
  pr_trading_date :: pyval
  pr_symbol_id :: pyval
  pr_message_index :: pyval
  pr_model_name :: pyval
  pr_timestamp_ns :: pyval
  pr_score :: py_score

datatype stream_item = Item_none | Item_other | Item_row prediction_row

record prediction_diagnostic =
  pd_code :: prediction_diagnostic_code
  pd_decision_message_index :: int
  pd_symbol_id :: int
  pd_prediction_message_index :: "int option"
  pd_reason :: string

record prediction_selection =
  ps_key :: "prediction_key option"
  ps_prediction_timestamp_ns :: "int option"
  ps_age_ns :: "int option"
  ps_raw_score :: "rat option"
  ps_effective_score :: rat
  ps_diagnostic :: "prediction_diagnostic option"

record causal_prediction_join =
  cj_source :: "stream_item list"
  cj_buffer :: "stream_item list"
  cj_experiment_id :: string
  cj_trading_date :: "int \<times> int \<times> int"
  cj_symbol_id :: int
  cj_model_name :: string
  cj_max_prediction_age_ns :: int
  cj_latest :: "signal_prediction option"
  cj_last_decision_message_index :: "int option"
  cj_last_decision_timestamp_ns :: "int option"
  cj_diagnostics :: "prediction_diagnostic list"

record prediction_join_state =
  js_latest :: "signal_prediction option"
  js_last_decision_message_index :: "int option"
  js_last_decision_timestamp_ns :: "int option"
  js_diagnostics :: "prediction_diagnostic list"

type_synonym 'a joined = "prediction_error + 'a"

definition join_fail :: "error_code \<Rightarrow> int option \<Rightarrow> 'a joined" where
  "join_fail c i = Inl (Prediction_Error c i)"

text \<open>\<open>_validate_model_name\<close>.\<close>

definition valid_model_name :: "pyval \<Rightarrow> string joined" where
  "valid_model_name v = (case v of
       PyStr s \<Rightarrow> if s \<in> set PREDICTION_MODEL_ORDER then Inr s else join_fail ERR_PREDICTION_KEY None
     | _ \<Rightarrow> join_fail ERR_PREDICTION_KEY None)"

section \<open>Construction\<close>

definition new_prediction_join ::
  "stream_item list option \<Rightarrow> pyval \<Rightarrow> pyval \<Rightarrow> pyval \<Rightarrow> pyval \<Rightarrow> pyval \<Rightarrow> causal_prediction_join joined" where
  "new_prediction_join predictions experiment_id day symbol_id model_name max_age = (
     case experiment_id of
       PyStr experiment \<Rightarrow>
     bindR (require (experiment \<noteq> []) (join_fail ERR_PREDICTION_KEY None)) (\<lambda>_.
     case day of
       PyDate d \<Rightarrow> (
     case checked_int symbol_id 1 MAX_UINT16 of
       None \<Rightarrow> join_fail ERR_UNKNOWN_SYMBOL None
     | Some symbol \<Rightarrow>
     bindR (valid_model_name model_name) (\<lambda>model.
     case checked_int max_age 0 MAX_IJSON_INTEGER of
       None \<Rightarrow> join_fail ERR_CONFIG_SCHEMA None
     | Some age \<Rightarrow> (
     case predictions of
       None \<Rightarrow> join_fail ERR_PREDICTION_KEY None
     | Some source \<Rightarrow> Inr \<lparr>
         cj_source = source, cj_buffer = [], cj_experiment_id = experiment, cj_trading_date = d,
         cj_symbol_id = symbol, cj_model_name = model, cj_max_prediction_age_ns = age,
         cj_latest = None, cj_last_decision_message_index = None,
         cj_last_decision_timestamp_ns = None, cj_diagnostics = []\<rparr>)))
     | _ \<Rightarrow> join_fail ERR_TRADING_DATE None)
     | _ \<Rightarrow> join_fail ERR_PREDICTION_KEY None)"

definition join_snapshot :: "causal_prediction_join \<Rightarrow> prediction_join_state" where
  "join_snapshot j = \<lparr>
     js_latest = cj_latest j,
     js_last_decision_message_index = cj_last_decision_message_index j,
     js_last_decision_timestamp_ns = cj_last_decision_timestamp_ns j,
     js_diagnostics = cj_diagnostics j\<rparr>"

section \<open>The stream\<close>

text \<open>\<open>_take\<close>: an item and the join after it; \<open>None\<close> is the end of the stream or the item \<open>None\<close>.\<close>

definition take_prediction :: "causal_prediction_join \<Rightarrow> stream_item \<times> causal_prediction_join" where
  "take_prediction j = (case cj_buffer j of
       x # xs \<Rightarrow> (x, j\<lparr>cj_buffer := xs\<rparr>)
     | [] \<Rightarrow> (case cj_source j of
         x # xs \<Rightarrow> (x, j\<lparr>cj_source := xs\<rparr>)
       | [] \<Rightarrow> (Item_none, j)))"

definition restore :: "stream_item list \<Rightarrow> causal_prediction_join \<Rightarrow> causal_prediction_join" where
  "restore predictions j = j\<lparr>cj_buffer := predictions @ cj_buffer j\<rparr>"

section \<open>Validation\<close>

text \<open>\<open>isinstance(value, int)\<close> also holds of the Booleans.\<close>

definition index_for_error :: "pyval \<Rightarrow> int option" where
  "index_for_error v = (case v of PyInt i \<Rightarrow> Some i | PyBool b \<Rightarrow> Some (if b then 1 else 0) | _ \<Rightarrow> None)"

definition validate_prediction_key ::
  "causal_prediction_join \<Rightarrow> stream_item \<Rightarrow> signal_prediction option \<Rightarrow> (prediction_key \<times> prediction_row) joined" where
  "validate_prediction_key j item previous = (case item of
     Item_row row \<Rightarrow> (
       let mismatch = join_fail ERR_PREDICTION_KEY (index_for_error (pr_message_index row)) in
       if pr_experiment_id row \<noteq> PyStr (cj_experiment_id j)
          \<or> pr_trading_date row \<noteq> PyDate (cj_trading_date j)
          \<or> checked_int (pr_symbol_id row) 1 MAX_UINT16 \<noteq> Some (cj_symbol_id j)
       then mismatch
       else case checked_int (pr_message_index row) 0 MAX_UINT64 of
         None \<Rightarrow> mismatch
       | Some i \<Rightarrow>
       bindR (valid_model_name (pr_model_name row)) (\<lambda>model.
       if model \<noteq> cj_model_name j then mismatch
       else if (case previous of None \<Rightarrow> False | Some p \<Rightarrow> i \<le> pk_message_index (sp_key p))
       then join_fail ERR_PREDICTION_KEY (Some i)
       else Inr (\<lparr>pk_experiment_id = cj_experiment_id j, pk_trading_date = cj_trading_date j,
         pk_symbol_id = cj_symbol_id j, pk_message_index = i, pk_model_name = model\<rparr>, row)))
   | _ \<Rightarrow> join_fail ERR_PREDICTION_KEY None)"

text \<open>\<open>float(score)\<close> of a number; integers from \<open>2 ^ 1024 - 2 ^ 970\<close> on round to infinity.\<close>

definition float_score :: "py_score \<Rightarrow> rat option joined" where
  "float_score s = (case s of
       Score_int n \<Rightarrow> if \<bar>n\<bar> \<ge> 2 ^ 1024 - 2 ^ 970 then Inl Overflow_Error else Inr (Some (of_int n))
     | Score_float f \<Rightarrow> Inr f
     | _ \<Rightarrow> Inr None)"

definition validate_prediction_payload ::
  "prediction_key \<Rightarrow> prediction_row \<Rightarrow> signal_prediction option \<Rightarrow> signal_prediction joined" where
  "validate_prediction_payload key row previous = (
     let i = Some (pk_message_index key) in
     case checked_int (pr_timestamp_ns row) 0 MAX_TIMESTAMP_NS of
       None \<Rightarrow> join_fail ERR_PREDICTION_KEY i
     | Some t \<Rightarrow>
     bindR (float_score (pr_score row)) (\<lambda>value.
     case value of
       None \<Rightarrow> join_fail ERR_PREDICTION_KEY i
     | Some score \<Rightarrow>
     if \<not> (-1 \<le> score \<and> score \<le> 1) then join_fail ERR_PREDICTION_KEY i
     else if (case previous of None \<Rightarrow> False | Some p \<Rightarrow> t < sp_timestamp_ns p)
     then join_fail ERR_PREDICTION_KEY i
     else Inr \<lparr>sp_key = key, sp_timestamp_ns = t, sp_score = score\<rparr>))"

section \<open>Selection\<close>

lemma take_prediction_smaller:
  "take_prediction j = (item, j') \<Longrightarrow> item \<noteq> Item_none \<Longrightarrow>
     length (cj_buffer j') + length (cj_source j') < length (cj_buffer j) + length (cj_source j)"
  by (auto simp: take_prediction_def split: list.splits)

text \<open>
  The loop of \<open>select\<close>. The variables \<open>latest\<close> and \<open>previous\<close> of the source are always equal;
  the result is the latest prediction and the first future item, with the items pulled, which
  the handler of the exception puts back, and the join afterwards.
\<close>

function select_loop ::
  "int \<Rightarrow> int \<Rightarrow> causal_prediction_join \<Rightarrow> signal_prediction option \<Rightarrow> stream_item list
     \<Rightarrow> (signal_prediction option \<times> stream_item option) joined \<times> stream_item list \<times> causal_prediction_join" where
  "select_loop decision t j latest pulled = (
     case take_prediction j of (item, j') \<Rightarrow>
     if item = Item_none then (Inr (latest, None), pulled, j')
     else case validate_prediction_key j' item latest of
       Inl e \<Rightarrow> (Inl e, pulled @ [item], j')
     | Inr (key, row) \<Rightarrow>
       if pk_message_index key > decision then (Inr (latest, Some item), pulled @ [item], j')
       else case validate_prediction_payload key row latest of
         Inl e \<Rightarrow> (Inl e, pulled @ [item], j')
       | Inr p \<Rightarrow>
         if sp_timestamp_ns p > t
         then (join_fail ERR_LEAKAGE_GUARD (Some (pk_message_index key)), pulled @ [item], j')
         else select_loop decision t j' (Some p) (pulled @ [item]))"
  by pat_completeness auto

termination
  by (relation "measure (\<lambda>(_, _, j, _, _). length (cj_buffer j) + length (cj_source j))")
    (auto dest!: take_prediction_smaller [OF sym])

declare select_loop.simps [simp del]

definition missing_diagnostic :: "causal_prediction_join \<Rightarrow> int \<Rightarrow> prediction_diagnostic" where
  "missing_diagnostic j decision = \<lparr>
     pd_code = MISSING, pd_decision_message_index = decision, pd_symbol_id = cj_symbol_id j,
     pd_prediction_message_index = None, pd_reason = ''no_prediction_at_or_before_decision''\<rparr>"

definition stale_diagnostic :: "causal_prediction_join \<Rightarrow> int \<Rightarrow> int \<Rightarrow> prediction_diagnostic" where
  "stale_diagnostic j decision msg_index = \<lparr>
     pd_code = STALE, pd_decision_message_index = decision, pd_symbol_id = cj_symbol_id j,
     pd_prediction_message_index = Some msg_index, pd_reason = ''prediction_age_exceeded''\<rparr>"

definition add_diagnostic :: "prediction_diagnostic \<Rightarrow> causal_prediction_join \<Rightarrow> causal_prediction_join" where
  "add_diagnostic d j = j\<lparr>cj_diagnostics := cj_diagnostics j @ [d]\<rparr>"

text \<open>What \<open>select\<close> returns once the cursor has moved.\<close>

definition finish_selection ::
  "int \<Rightarrow> int \<Rightarrow> signal_prediction option \<Rightarrow> causal_prediction_join
     \<Rightarrow> prediction_selection \<times> causal_prediction_join" where
  "finish_selection decision t latest j = (case latest of
     None \<Rightarrow> (
       let diagnostic = missing_diagnostic j decision in
       (\<lparr>ps_key = None, ps_prediction_timestamp_ns = None, ps_age_ns = None, ps_raw_score = None,
         ps_effective_score = 0, ps_diagnostic = Some diagnostic\<rparr>, add_diagnostic diagnostic j))
   | Some p \<Rightarrow> (
       let age_ns = t - sp_timestamp_ns p;
           stale = age_ns > cj_max_prediction_age_ns j;
           diagnostic = stale_diagnostic j decision (pk_message_index (sp_key p)) in
       (\<lparr>ps_key = Some (sp_key p), ps_prediction_timestamp_ns = Some (sp_timestamp_ns p),
         ps_age_ns = Some age_ns, ps_raw_score = Some (sp_score p),
         ps_effective_score = (if stale then 0 else sp_score p),
         ps_diagnostic = (if stale then Some diagnostic else None)\<rparr>,
        if stale then add_diagnostic diagnostic j else j)))"

definition select ::
  "pyval \<Rightarrow> pyval \<Rightarrow> causal_prediction_join \<Rightarrow> prediction_selection joined \<times> causal_prediction_join" where
  "select decision_message_index timestamp_ns j = (
     case checked_int decision_message_index 0 MAX_UINT64 of
       None \<Rightarrow> (join_fail ERR_PREDICTION_KEY None, j)
     | Some decision \<Rightarrow> (
     case checked_int timestamp_ns 0 MAX_TIMESTAMP_NS of
       None \<Rightarrow> (join_fail ERR_TIMESTAMP (Some decision), j)
     | Some t \<Rightarrow>
     if (case (cj_last_decision_message_index j, cj_last_decision_timestamp_ns j) of
           (Some i, Some u) \<Rightarrow> decision < i \<or> t < u
         | _ \<Rightarrow> False)
     then (join_fail ERR_LEAKAGE_GUARD (Some decision), j)
     else case select_loop decision t j (cj_latest j) [] of
       (Inl (Prediction_Error c i), pulled, j') \<Rightarrow> (Inl (Prediction_Error c i), restore pulled j')
     | (Inl Overflow_Error, pulled, j') \<Rightarrow> (Inl Overflow_Error, j')
     | (Inr (latest, future), pulled, j') \<Rightarrow> (
         let j1 = (case future of None \<Rightarrow> j' | Some item \<Rightarrow> restore [item] j');
             j2 = j1\<lparr>cj_latest := latest, cj_last_decision_message_index := Some decision,
                     cj_last_decision_timestamp_ns := Some t\<rparr>;
             (selection, j3) = finish_selection decision t latest j2 in
         (Inr selection, j3))))"

end
