(* ===== verification/Prediction_Properties.thy ===== *)
theory Prediction_Properties
  imports Prediction_Join
begin

text \<open>
  What \<open>select\<close> promises. The cursor over buffer and iterator refines a scan of the list of
  pending items; over a stream of valid predictions every selection is the latest prediction at or
  before the decision, whatever was selected before; and a selection that raises leaves the
  cursor where it was.
\<close>

section \<open>The cursor as a list\<close>

definition pending :: "causal_prediction_join \<Rightarrow> stream_item list" where
  "pending j = cj_buffer j @ cj_source j"

text \<open>The join without its stream: the scope and the semantic state.\<close>

definition without_stream :: "causal_prediction_join \<Rightarrow> causal_prediction_join" where
  "without_stream j = j\<lparr>cj_source := [], cj_buffer := []\<rparr>"

lemma take_prediction_pending:
  "take_prediction j = (item, j') \<Longrightarrow>
     (case pending j of [] \<Rightarrow> item = Item_none \<and> pending j' = [] | x # xs \<Rightarrow> item = x \<and> pending j' = xs)
     \<and> without_stream j' = without_stream j"
  by (auto simp: take_prediction_def pending_def without_stream_def split: list.splits)

lemma without_stream_sel [simp]:
  "cj_experiment_id (without_stream j) = cj_experiment_id j"
  "cj_trading_date (without_stream j) = cj_trading_date j"
  "cj_symbol_id (without_stream j) = cj_symbol_id j"
  "cj_model_name (without_stream j) = cj_model_name j"
  "cj_max_prediction_age_ns (without_stream j) = cj_max_prediction_age_ns j"
  "cj_latest (without_stream j) = cj_latest j"
  "cj_last_decision_message_index (without_stream j) = cj_last_decision_message_index j"
  "cj_last_decision_timestamp_ns (without_stream j) = cj_last_decision_timestamp_ns j"
  "cj_diagnostics (without_stream j) = cj_diagnostics j"
  by (simp_all add: without_stream_def)

lemma validate_key_scope:
  "without_stream j' = without_stream j \<Longrightarrow>
     validate_prediction_key j' item previous = validate_prediction_key j item previous"
proof -
  assume "without_stream j' = without_stream j"
  then have eqs: "cj_experiment_id j' = cj_experiment_id j" "cj_trading_date j' = cj_trading_date j"
    "cj_symbol_id j' = cj_symbol_id j" "cj_model_name j' = cj_model_name j"
    by (metis without_stream_sel)+
  show ?thesis unfolding validate_prediction_key_def eqs ..
qed

text \<open>The scan: the outcome, the items pulled, and the items left.\<close>

fun scan ::
  "int \<Rightarrow> int \<Rightarrow> causal_prediction_join \<Rightarrow> signal_prediction option \<Rightarrow> stream_item list
     \<Rightarrow> (signal_prediction option \<times> stream_item option) joined \<times> stream_item list \<times> stream_item list" where
  "scan decision t j latest [] = (Inr (latest, None), [], [])"
| "scan decision t j latest (x # xs) = (
     if x = Item_none then (Inr (latest, None), [], xs)
     else case validate_prediction_key j x latest of
       Inl e \<Rightarrow> (Inl e, [x], xs)
     | Inr (key, row) \<Rightarrow>
       if pk_message_index key > decision then (Inr (latest, Some x), [x], xs)
       else case validate_prediction_payload key row latest of
         Inl e \<Rightarrow> (Inl e, [x], xs)
       | Inr p \<Rightarrow>
         if sp_timestamp_ns p > t then (join_fail ERR_LEAKAGE_GUARD (Some (pk_message_index key)), [x], xs)
         else (case scan decision t j (Some p) xs of (r, pulled, rest) \<Rightarrow> (r, x # pulled, rest)))"

lemma select_loop_scan:
  "case scan decision t j latest (pending j) of (r, new, rest) \<Rightarrow>
     \<exists>j'. select_loop decision t j latest pulled = (r, pulled @ new, j')
       \<and> pending j' = rest \<and> without_stream j' = without_stream j"
proof (induction "pending j" arbitrary: j latest pulled)
  case Nil
  obtain item j' where tp: "take_prediction j = (item, j')" by force
  have none: "pending j = []" using Nil by simp
  have "item = Item_none" "pending j' = []" "without_stream j' = without_stream j"
    using take_prediction_pending [OF tp] none by simp_all
  then show ?case using tp none by (simp add: select_loop.simps [of decision t j])
next
  case (Cons x xs)
  obtain item j' where tp: "take_prediction j = (item, j')" by force
  have pj: "pending j = x # xs" using Cons.hyps(2) by simp
  have j': "item = x" "pending j' = xs" "without_stream j' = without_stream j"
    using take_prediction_pending [OF tp] pj by simp_all
  note key = validate_key_scope [OF j'(3)]
  note step = select_loop.simps [of decision t j latest pulled, unfolded tp prod.case j'(1) key]
  show ?case
  proof (cases "x = Item_none")
    case True
    then show ?thesis using step j' by (simp add: pj)
  next
    case notnone: False
    show ?thesis
    proof (cases "validate_prediction_key j x latest")
      case (Inl e)
      then show ?thesis using step j' notnone by (simp add: pj)
    next
      case (Inr kr)
      obtain k row where kr: "kr = (k, row)" by (cases kr)
      show ?thesis
      proof (cases "pk_message_index k > decision \<or> (\<exists>e. validate_prediction_payload k row latest = Inl e)
          \<or> (\<exists>p. validate_prediction_payload k row latest = Inr p \<and> sp_timestamp_ns p > t)")
        case True
        then show ?thesis using step j' notnone Inr kr by (auto simp add: pj)
      next
        case False
        then obtain p where p: "validate_prediction_payload k row latest = Inr p" "\<not> sp_timestamp_ns p > t"
          "\<not> pk_message_index k > decision"
          by (cases "validate_prediction_payload k row latest") auto
        have same: "scan decision t j' l ys = scan decision t j l ys" for l ys
          by (induction ys arbitrary: l) (simp_all add: key split: sum.splits prod.splits)
        have "xs = pending j'" using j'(2) ..
        from Cons.hyps(1) [OF this, of "Some p" "pulled @ [x]"]
        obtain r new rest j'' where sc: "scan decision t j (Some p) xs = (r, new, rest)"
          and sl: "select_loop decision t j' (Some p) (pulled @ [x]) = (r, (pulled @ [x]) @ new, j'')"
          "pending j'' = rest" "without_stream j'' = without_stream j'"
          unfolding same j'(2) by (auto split: prod.splits)
        have "select_loop decision t j latest pulled = (r, pulled @ x # new, j'')"
          using step notnone Inr kr p sl(1) by simp
        moreover have "scan decision t j latest (pending j) = (r, x # new, rest)"
          using notnone Inr kr p sc by (simp add: pj)
        ultimately show ?thesis using sl(2,3) j'(3) by simp
      qed
    qed
  qed
qed

text \<open>What a scan pulls and leaves is what it was given, but for an item \<open>None\<close> that stopped it.\<close>

lemma scan_step:
  assumes "scan decision t j latest (x # xs) = (r, pulled, rest)"
  shows "x = Item_none \<and> r = Inr (latest, None) \<and> pulled = [] \<and> rest = xs
    \<or> pulled = [x] \<and> rest = xs \<and> ((\<exists>e. r = Inl e) \<or> r = Inr (latest, Some x))
    \<or> (\<exists>p pulled'. scan decision t j (Some p) xs = (r, pulled', rest) \<and> pulled = x # pulled')"
  using assms by (auto simp: join_fail_def split: sum.splits prod.splits if_splits)

lemma scan_split:
  "scan decision t j latest xs = (r, pulled, rest) \<Longrightarrow>
     xs = pulled @ rest \<or> (\<exists>l. r = Inr (l, None)) \<and> xs = pulled @ Item_none # rest"
proof (induction xs arbitrary: latest pulled)
  case (Cons x xs)
  from scan_step [OF Cons.prems] show ?case
  proof (elim disjE exE conjE)
    fix p pulled' assume s: "scan decision t j (Some p) xs = (r, pulled', rest)" "pulled = x # pulled'"
    from Cons.IH [OF s(1)] s(2) show ?thesis by auto
  qed auto
qed simp

lemma scan_future:
  "scan decision t j latest xs = (Inr (l, Some x), pulled, rest) \<Longrightarrow> \<exists>before. pulled = before @ [x]"
proof (induction xs arbitrary: latest pulled)
  case (Cons y ys)
  from scan_step [OF Cons.prems] show ?case
  proof (elim disjE exE conjE)
    fix p pulled' assume s: "scan decision t j (Some p) ys = (Inr (l, Some x), pulled', rest)" "pulled = y # pulled'"
    obtain before where "pulled' = before @ [x]" using Cons.IH [OF s(1)] by blast
    then show ?thesis using s(2) by (intro exI [of _ "y # before"]) simp
  qed auto
qed simp

section \<open>Selections that raise\<close>

lemma pending_restore: "pending (restore xs j) = xs @ pending j"
  by (simp add: pending_def restore_def)

lemma without_stream_restore: "without_stream (restore xs j) = without_stream j"
  by (simp add: without_stream_def restore_def)

lemma select_loop_split:
  assumes "select_loop decision t j latest [] = (r, pulled, j')"
  shows "scan decision t j latest (pending j) = (r, pulled, pending j')" "without_stream j' = without_stream j"
  using select_loop_scan [of decision t j latest "[]"] assms by (auto split: prod.splits)

lemma select_error_keeps_cursor:
  assumes "select d t j = (Inl e, j')"
  shows "without_stream j' = without_stream j \<and> (e \<noteq> Overflow_Error \<longrightarrow> pending j' = pending j)"
proof (cases "j' = j")
  case False
  then obtain decision u where ints: "checked_int d 0 MAX_UINT64 = Some decision"
    "checked_int t 0 MAX_TIMESTAMP_NS = Some u"
    using assms by (auto simp: select_def split: option.splits)
  obtain r pulled k where loop: "select_loop decision u j (cj_latest j) [] = (r, pulled, k)"
    by (cases "select_loop decision u j (cj_latest j) []")
  have r: "r = Inl e" and j': "j' = (if e = Overflow_Error then k else restore pulled k)"
    using assms ints loop False
    by (auto simp: select_def Let_def split: sum.splits prod.splits option.splits if_splits prediction_error.splits)
  note split = select_loop_split [OF loop]
  have "pending j = pulled @ pending k" using scan_split [OF split(1)] r by simp
  then show ?thesis
    using split(2) j' by (simp add: pending_restore without_stream_restore)
qed simp

section \<open>Selections over a stream of valid predictions\<close>

abbreviation index_of :: "signal_prediction \<Rightarrow> int" where
  "index_of p \<equiv> pk_message_index (sp_key p)"

text \<open>An item that is a valid row of the join's scope, with the prediction it carries.\<close>

definition reads_as :: "causal_prediction_join \<Rightarrow> stream_item \<Rightarrow> signal_prediction \<Rightarrow> bool" where
  "reads_as j x p = (case validate_prediction_key j x None of
       Inl _ \<Rightarrow> False
     | Inr (key, row) \<Rightarrow> validate_prediction_payload key row None = Inr p)"

text \<open>Source order: message indices increase and timestamps do not decrease.\<close>

definition source_before :: "signal_prediction \<Rightarrow> signal_prediction \<Rightarrow> bool" where
  "source_before p q = (index_of p < index_of q \<and> sp_timestamp_ns p \<le> sp_timestamp_ns q)"

definition latest_of :: "signal_prediction option \<Rightarrow> signal_prediction list \<Rightarrow> signal_prediction option" where
  "latest_of l ps = (if ps = [] then l else Some (last ps))"

definition as_of :: "signal_prediction list \<Rightarrow> int \<Rightarrow> signal_prediction list" where
  "as_of ps decision = filter (\<lambda>p. index_of p \<le> decision) ps"

text \<open>
  The abstract join: a function of the whole stream, the decision and the scope, with no cursor.
  The first prediction dated after the decision is a leak; otherwise the selection is the latest
  prediction at or before the decision, whose score counts unless it is too old.
\<close>

definition as_of_selection ::
  "int \<Rightarrow> int \<Rightarrow> signal_prediction list \<Rightarrow> int \<Rightarrow> int \<Rightarrow> prediction_selection joined" where
  "as_of_selection symbol max_age ps decision t = (
     case find (\<lambda>p. sp_timestamp_ns p > t) (as_of ps decision) of
       Some p \<Rightarrow> join_fail ERR_LEAKAGE_GUARD (Some (index_of p))
     | None \<Rightarrow> (case latest_of None (as_of ps decision) of
         None \<Rightarrow> Inr \<lparr>
           ps_key = None, ps_prediction_timestamp_ns = None, ps_age_ns = None, ps_raw_score = None,
           ps_effective_score = 0,
           ps_diagnostic = Some \<lparr>pd_code = MISSING, pd_decision_message_index = decision,
             pd_symbol_id = symbol, pd_prediction_message_index = None,
             pd_reason = ''no_prediction_at_or_before_decision''\<rparr>\<rparr>
       | Some p \<Rightarrow>
         if t - sp_timestamp_ns p \<le> max_age
         then Inr \<lparr>
           ps_key = Some (sp_key p), ps_prediction_timestamp_ns = Some (sp_timestamp_ns p),
           ps_age_ns = Some (t - sp_timestamp_ns p), ps_raw_score = Some (sp_score p),
           ps_effective_score = sp_score p, ps_diagnostic = None\<rparr>
         else Inr \<lparr>
           ps_key = Some (sp_key p), ps_prediction_timestamp_ns = Some (sp_timestamp_ns p),
           ps_age_ns = Some (t - sp_timestamp_ns p), ps_raw_score = Some (sp_score p),
           ps_effective_score = 0,
           ps_diagnostic = Some \<lparr>pd_code = STALE, pd_decision_message_index = decision,
             pd_symbol_id = symbol, pd_prediction_message_index = Some (index_of p),
             pd_reason = ''prediction_age_exceeded''\<rparr>\<rparr>))"

lemma reads_as_scope:
  assumes "without_stream j' = without_stream j"
  shows "reads_as j' = reads_as j"
  by (intro ext) (simp only: reads_as_def validate_key_scope [OF assms])

lemma key_after:
  assumes "validate_prediction_key j x None = Inr (key, row)"
    and "case l of None \<Rightarrow> True | Some q \<Rightarrow> index_of q < pk_message_index key"
  shows "x \<noteq> Item_none" "validate_prediction_key j x l = Inr (key, row)"
proof -
  obtain r where x: "x = Item_row r"
    using assms(1) by (cases x) (simp_all add: validate_prediction_key_def join_fail_def)
  then show "x \<noteq> Item_none" by simp
  show "validate_prediction_key j x l = Inr (key, row)"
  proof (cases "checked_int (pr_message_index r) 0 MAX_UINT64")
    case None
    then show ?thesis using assms(1) x
      by (simp add: validate_prediction_key_def join_fail_def Let_def split: if_splits)
  next
    case (Some i)
    then have "pk_message_index key = i"
      using assms(1) x
      by (auto simp: validate_prediction_key_def join_fail_def bindR_def Let_def split: if_splits sum.splits)
    then have "\<not> (case l of None \<Rightarrow> False | Some p \<Rightarrow> i \<le> index_of p)"
      using assms(2) by (simp split: option.splits)
    then show ?thesis
      using assms(1) x Some
      by (simp add: validate_prediction_key_def join_fail_def bindR_def Let_def split: if_splits sum.splits)
  qed
qed

lemma payload_after:
  assumes "validate_prediction_payload key row None = Inr p"
    and "case l of None \<Rightarrow> True | Some q \<Rightarrow> sp_timestamp_ns q \<le> sp_timestamp_ns p"
  shows "sp_key p = key" "validate_prediction_payload key row l = Inr p"
proof -
  obtain t score where ok: "checked_int (pr_timestamp_ns row) 0 MAX_TIMESTAMP_NS = Some t"
    "float_score (pr_score row) = Inr (Some score)" "-1 \<le> score \<and> score \<le> 1"
    and p: "p = \<lparr>sp_key = key, sp_timestamp_ns = t, sp_score = score\<rparr>"
    using assms(1)
    by (simp add: validate_prediction_payload_def bindR_def join_fail_def Let_def
        split: option.splits sum.splits if_splits)
  show "sp_key p = key" by (simp add: p)
  have "\<not> (case l of None \<Rightarrow> False | Some q \<Rightarrow> t < sp_timestamp_ns q)"
    using assms(2) p by (simp split: option.splits)
  then show "validate_prediction_payload key row l = Inr p"
    using ok p by (simp add: validate_prediction_payload_def bindR_def Let_def)
qed

lemma reads_as_after:
  assumes r: "reads_as j x p" and after: "case l of None \<Rightarrow> True | Some q \<Rightarrow> source_before q p"
  obtains row where "x \<noteq> Item_none" "validate_prediction_key j x l = Inr (sp_key p, row)"
    "validate_prediction_payload (sp_key p) row l = Inr p"
proof -
  obtain key row where k: "validate_prediction_key j x None = Inr (key, row)"
    and v: "validate_prediction_payload key row None = Inr p"
    using r unfolding reads_as_def by (simp split: sum.splits prod.splits)
  have later: "case l of None \<Rightarrow> True | Some q \<Rightarrow> sp_timestamp_ns q \<le> sp_timestamp_ns p"
    "case l of None \<Rightarrow> True | Some q \<Rightarrow> index_of q < index_of p"
    using after by (simp_all add: source_before_def split: option.splits)
  note payload = payload_after [OF v later(1)]
  show ?thesis
    using that key_after [OF k later(2) [unfolded payload(1)]] payload by simp
qed

definition follows :: "signal_prediction option \<Rightarrow> signal_prediction list \<Rightarrow> bool" where
  "follows l ps = (case l of None \<Rightarrow> True | Some q \<Rightarrow> list_all (source_before q) ps)"

lemma as_of_Cons_later:
  "sorted_wrt source_before (p # ps) \<Longrightarrow> index_of p > decision \<Longrightarrow> as_of (p # ps) decision = []"
  by (auto simp: as_of_def source_before_def filter_empty_conv)

lemma latest_of_Cons: "latest_of l (p # ps) = latest_of (Some p) ps"
  by (simp add: latest_of_def)

text \<open>The scan of a valid stream takes its part up to the decision, or finds the first leak.\<close>

lemma scan_valid:
  assumes "list_all2 (reads_as j) xs ps" "sorted_wrt source_before ps" "follows l ps"
  shows "scan decision t j l xs = (
    case find (\<lambda>p. sp_timestamp_ns p > t) (as_of ps decision) of
      Some p \<Rightarrow> (case scan decision t j l xs of (_, pulled, rest) \<Rightarrow>
        (join_fail ERR_LEAKAGE_GUARD (Some (index_of p)), pulled, rest))
    | None \<Rightarrow> (let n = length (as_of ps decision) in
        (Inr (latest_of l (as_of ps decision), if n < length xs then Some (xs ! n) else None),
         take (Suc n) xs, drop (Suc n) xs)))"
  using assms
proof (induction xs arbitrary: ps l)
  case Nil
  then show ?case by (simp add: as_of_def latest_of_def)
next
  case (Cons x xs)
  obtain p ps' where ps: "ps = p # ps'" and r: "reads_as j x p" and rs: "list_all2 (reads_as j) xs ps'"
    using Cons.prems(1) by (auto simp: list_all2_Cons1)
  have after: "case l of None \<Rightarrow> True | Some q \<Rightarrow> source_before q p"
    using Cons.prems(3) ps by (simp add: follows_def split: option.splits)
  obtain row where row: "x \<noteq> Item_none" "validate_prediction_key j x l = Inr (sp_key p, row)"
    "validate_prediction_payload (sp_key p) row l = Inr p"
    by (rule reads_as_after [OF r after])
  have srt: "sorted_wrt source_before ps'" "follows (Some p) ps'"
    using Cons.prems(2) ps by (simp_all add: follows_def list_all_iff)
  note IH = Cons.IH [OF rs srt]
  show ?case
  proof (cases "index_of p > decision")
    case True
    then have "as_of ps decision = []" using as_of_Cons_later Cons.prems(2) ps by simp
    then show ?thesis using row True by (simp add: latest_of_def)
  next
    case False
    then have as_of: "as_of ps decision = p # as_of ps' decision" by (simp add: ps as_of_def)
    show ?thesis
    proof (cases "sp_timestamp_ns p > t")
      case True
      then show ?thesis using row False by (simp add: as_of)
    next
      case notleak: False
      obtain r pulled rest where sc: "scan decision t j (Some p) xs = (r, pulled, rest)"
        by (cases "scan decision t j (Some p) xs")
      have step: "scan decision t j l (x # xs) = (r, x # pulled, rest)"
        using row False notleak sc by simp
      show ?thesis
        using IH notleak
        unfolding step as_of sc
        by (simp add: latest_of_Cons Let_def split: option.splits)
    qed
  qed
qed

text \<open>
  The state between selections: a prefix of the stream has been taken, none of it after the last
  decision, its last prediction is kept, and the rest is pending.
\<close>

definition decided :: "causal_prediction_join \<Rightarrow> int \<Rightarrow> int \<Rightarrow> bool" where
  "decided j decision t = (case (cj_last_decision_message_index j, cj_last_decision_timestamp_ns j) of
     (Some i, Some u) \<Rightarrow> i \<le> decision \<and> u \<le> t | _ \<Rightarrow> True)"

definition serves :: "signal_prediction list \<Rightarrow> causal_prediction_join \<Rightarrow> bool" where
  "serves ps j = (\<exists>taken left. ps = taken @ left
     \<and> list_all2 (reads_as j) (pending j) left
     \<and> cj_latest j = latest_of None taken
     \<and> (taken \<noteq> [] \<longrightarrow> (\<exists>i u. cj_last_decision_message_index j = Some i
         \<and> cj_last_decision_timestamp_ns j = Some u
         \<and> (\<forall>p \<in> set taken. index_of p \<le> i \<and> sp_timestamp_ns p \<le> u))))"

lemma follows_latest:
  "sorted_wrt source_before (taken @ left) \<Longrightarrow> follows (latest_of None taken) left"
  by (auto simp: follows_def latest_of_def sorted_wrt_append list_all_iff)

lemma as_of_taken:
  "\<forall>p \<in> set taken. index_of p \<le> decision \<Longrightarrow> as_of (taken @ left) decision = taken @ as_of left decision"
  by (simp add: as_of_def)

lemma latest_of_append: "latest_of (latest_of None xs) ys = latest_of None (xs @ ys)"
  by (simp add: latest_of_def)

lemma find_append_none: "\<forall>x \<in> set xs. \<not> P x \<Longrightarrow> find P (xs @ ys) = find P ys"
  by (induction xs) auto

lemma as_of_prefix:
  "sorted_wrt source_before ps \<Longrightarrow> as_of ps decision = take (length (as_of ps decision)) ps"
proof (induction ps)
  case (Cons p ps)
  show ?case
  proof (cases "index_of p \<le> decision")
    case True
    then show ?thesis using Cons by (simp add: as_of_def)
  next
    case False
    then show ?thesis using as_of_Cons_later [OF Cons.prems] by simp
  qed
qed (simp add: as_of_def)

text \<open>One selection, for a decision in order: the abstract result, and the state it leaves.\<close>

lemma select_serves:
  assumes ps: "sorted_wrt source_before ps" and s: "serves ps j"
    and ints: "checked_int d 0 MAX_UINT64 = Some decision" "checked_int u 0 MAX_TIMESTAMP_NS = Some t"
    and inorder: "decided j decision t"
  shows "fst (select d u j)
      = as_of_selection (cj_symbol_id j) (cj_max_prediction_age_ns j) ps decision t"
    and "\<not> (\<exists>e. fst (select d u j) = Inl e) \<Longrightarrow> serves ps (snd (select d u j))"
proof -
  obtain taken left where split: "ps = taken @ left" and left: "list_all2 (reads_as j) (pending j) left"
    and latest: "cj_latest j = latest_of None taken"
    and past: "taken \<noteq> [] \<longrightarrow> (\<exists>i u. cj_last_decision_message_index j = Some i
         \<and> cj_last_decision_timestamp_ns j = Some u
         \<and> (\<forall>p \<in> set taken. index_of p \<le> i \<and> sp_timestamp_ns p \<le> u))"
    using s unfolding serves_def by blast
  have taken: "\<forall>p \<in> set taken. index_of p \<le> decision \<and> sp_timestamp_ns p \<le> t"
    using past inorder by (cases "taken = []") (auto simp: decided_def)
  have as_of: "as_of ps decision = taken @ as_of left decision"
    using as_of_taken [of taken decision left] taken split by simp
  have find_taken: "find (\<lambda>p. sp_timestamp_ns p > t) (as_of ps decision)
      = find (\<lambda>p. sp_timestamp_ns p > t) (as_of left decision)"
    unfolding as_of by (rule find_append_none) (use taken in auto)
  have inorder': "(case cj_last_decision_message_index j of None \<Rightarrow> False
      | Some i \<Rightarrow> (case cj_last_decision_timestamp_ns j of None \<Rightarrow> False
          | Some v \<Rightarrow> decision < i \<or> t < v)) = False"
    using inorder by (simp add: decided_def split: option.splits)
  obtain r pulled k where loop: "select_loop decision t j (cj_latest j) [] = (r, pulled, k)"
    by (cases "select_loop decision t j (cj_latest j) []")
  note loop_split = select_loop_split [OF loop]
  have srt: "sorted_wrt source_before left" "follows (cj_latest j) left"
    using ps follows_latest latest split by (simp_all add: sorted_wrt_append)
  note scanned = scan_valid [OF left srt, of decision t, unfolded loop_split(1) prod.case]
  have scope: "cj_symbol_id k = cj_symbol_id j"
    "cj_max_prediction_age_ns k = cj_max_prediction_age_ns j" "reads_as k = reads_as j"
    using loop_split(2) reads_as_scope by (metis without_stream_sel)+
  note sel = select_def [of d u j, unfolded ints option.case prod.case, unfolded inorder' if_False loop prod.case]
  show "fst (select d u j)
      = as_of_selection (cj_symbol_id j) (cj_max_prediction_age_ns j) ps decision t"
  proof (cases "find (\<lambda>p. sp_timestamp_ns p > t) (as_of left decision)")
    case (Some p)
    then show ?thesis using scanned find_taken
      by (simp add: sel join_fail_def as_of_selection_def)
  next
    case None
    then have r: "r = Inr (latest_of None (as_of ps decision),
        if length (as_of left decision) < length (pending j)
        then Some (pending j ! length (as_of left decision)) else None)"
      using scanned by (simp add: Let_def latest latest_of_append as_of)
    then show ?thesis
      using None find_taken
      by (simp add: sel Let_def as_of_selection_def finish_selection_def restore_def scope
          missing_diagnostic_def stale_diagnostic_def split: option.splits)
  qed
  assume ok: "\<not> (\<exists>e. fst (select d u j) = Inl e)"
  have none: "find (\<lambda>p. sp_timestamp_ns p > t) (as_of left decision) = None"
  proof (rule ccontr)
    assume "\<not> ?thesis"
    then show False using ok scanned by (auto simp: sel join_fail_def)
  qed
  define n where "n = length (as_of left decision)"
  have rest: "pending k = drop (Suc n) (pending j)"
    using scanned none by (simp add: Let_def n_def)
  obtain future where r: "r = Inr (latest_of None (as_of ps decision), future)"
    and future: "future = (if n < length (pending j) then Some (pending j ! n) else None)"
    using scanned none by (simp add: Let_def latest latest_of_append as_of n_def)
  have pending: "(case future of None \<Rightarrow> [] | Some x \<Rightarrow> [x]) @ pending k = drop n (pending j)"
    unfolding future rest by (simp add: Cons_nth_drop_Suc)
  define j' where "j' = snd (select d u j)"
  have j': "pending j' = drop n (pending j)" "cj_latest j' = latest_of None (as_of ps decision)"
    "cj_last_decision_message_index j' = Some decision" "cj_last_decision_timestamp_ns j' = Some t"
    "cj_experiment_id j' = cj_experiment_id k" "cj_trading_date j' = cj_trading_date k"
    "cj_symbol_id j' = cj_symbol_id k" "cj_model_name j' = cj_model_name k"
    unfolding pending [symmetric] j'_def sel r
    by (simp_all add: Let_def finish_selection_def restore_def pending_def add_diagnostic_def
        split: option.splits)
  have reads: "reads_as j' = reads_as j"
    unfolding scope(3) [symmetric] by (intro ext) (simp only: reads_as_def validate_prediction_key_def j'(5-8))
  have "left = as_of left decision @ drop n left"
    using as_of_prefix [OF srt(1), of decision] append_take_drop_id [of n left] unfolding n_def by metis
  then have "ps = as_of ps decision @ drop n left" unfolding as_of using split by simp
  moreover have "list_all2 (reads_as j') (pending j') (drop n left)"
    unfolding j'(1) reads using left by (rule list_all2_dropI)
  moreover have "\<forall>p \<in> set (as_of ps decision). index_of p \<le> decision \<and> sp_timestamp_ns p \<le> t"
    using none [folded find_taken] by (auto simp: find_None_iff as_of_def not_less)
  ultimately show "serves ps (snd (select d u j))"
    unfolding j'_def [symmetric] serves_def using j' by blast
qed

text \<open>A selection out of order, or of a decision that is not in range, changes nothing.\<close>

lemma select_refused:
  "(\<nexists>decision t. checked_int d 0 MAX_UINT64 = Some decision \<and> checked_int u 0 MAX_TIMESTAMP_NS = Some t
      \<and> decided j decision t) \<Longrightarrow> snd (select d u j) = j"
  by (auto simp: select_def decided_def not_less [symmetric] simp del: not_less split: option.splits)

lemma serves_error:
  assumes "serves ps j" "select d u j = (Inl e, j')" "e \<noteq> Overflow_Error"
  shows "serves ps j'"
proof -
  have same: "without_stream j' = without_stream j" "pending j' = pending j"
    using select_error_keeps_cursor [OF assms(2)] assms(3) by simp_all
  have "cj_latest j' = cj_latest j" "reads_as j' = reads_as j"
    "cj_last_decision_message_index j' = cj_last_decision_message_index j"
    "cj_last_decision_timestamp_ns j' = cj_last_decision_timestamp_ns j"
    using same(1) reads_as_scope by (metis without_stream_sel)+
  then show ?thesis using assms(1) same(2) by (simp add: serves_def)
qed

lemma select_keeps_scope:
  "cj_symbol_id (snd (select d u j)) = cj_symbol_id j"
  "cj_max_prediction_age_ns (snd (select d u j)) = cj_max_prediction_age_ns j"
proof -
  have "cj_symbol_id (snd (select d u j)) = cj_symbol_id j
    \<and> cj_max_prediction_age_ns (snd (select d u j)) = cj_max_prediction_age_ns j"
  proof (cases "snd (select d u j) = j")
    case False
    then obtain decision t where ints: "checked_int d 0 MAX_UINT64 = Some decision"
      "checked_int u 0 MAX_TIMESTAMP_NS = Some t"
      by (auto simp: select_def split: option.splits)
    obtain r pulled k where loop: "select_loop decision t j (cj_latest j) [] = (r, pulled, k)"
      by (cases "select_loop decision t j (cj_latest j) []")
    have "cj_symbol_id k = cj_symbol_id j" "cj_max_prediction_age_ns k = cj_max_prediction_age_ns j"
      using select_loop_split(2) [OF loop] by (metis without_stream_sel)+
    then show ?thesis
      using ints loop False
      by (auto simp: select_def Let_def finish_selection_def restore_def add_diagnostic_def
          split: option.splits sum.splits prediction_error.splits if_splits)
  qed simp
  then show "cj_symbol_id (snd (select d u j)) = cj_symbol_id j"
    "cj_max_prediction_age_ns (snd (select d u j)) = cj_max_prediction_age_ns j" by simp_all
qed

lemma as_of_selection_error:
  "as_of_selection s a ps d t = Inl e \<Longrightarrow> e \<noteq> Overflow_Error"
  by (auto simp: as_of_selection_def join_fail_def split: option.splits if_splits)

lemma select_keeps_serving:
  assumes "sorted_wrt source_before ps" "serves ps j"
  shows "serves ps (snd (select d u j))"
proof (cases "\<exists>decision t. checked_int d 0 MAX_UINT64 = Some decision
    \<and> checked_int u 0 MAX_TIMESTAMP_NS = Some t \<and> decided j decision t")
  case True
  then obtain decision t where ok: "checked_int d 0 MAX_UINT64 = Some decision"
    "checked_int u 0 MAX_TIMESTAMP_NS = Some t" "decided j decision t" by blast
  note one = select_serves [OF assms ok]
  show ?thesis
  proof (cases "\<exists>e. fst (select d u j) = Inl e")
    case True
    then obtain e where e: "fst (select d u j) = Inl e" by blast
    then have "e \<noteq> Overflow_Error" using one(1) as_of_selection_error by metis
    then show ?thesis using serves_error [OF assms(2)] e by (metis prod.collapse)
  qed (rule one(2))
next
  case False
  then show ?thesis using select_refused assms(2) by simp
qed

text \<open>Any number of calls of \<open>select\<close>, with any arguments, whether they raise or not.\<close>

fun selections :: "(pyval \<times> pyval) list \<Rightarrow> causal_prediction_join \<Rightarrow> causal_prediction_join" where
  "selections [] j = j"
| "selections ((d, u) # calls) j = selections calls (snd (select d u j))"

lemma selections_serve:
  "sorted_wrt source_before ps \<Longrightarrow> serves ps j \<Longrightarrow> serves ps (selections calls j)"
  by (induction calls j rule: selections.induct) (simp_all add: select_keeps_serving)

lemma selections_scope:
  "cj_symbol_id (selections calls j) = cj_symbol_id j"
  "cj_max_prediction_age_ns (selections calls j) = cj_max_prediction_age_ns j"
  by (induction calls j rule: selections.induct) (simp_all add: select_keeps_scope)

lemma new_join_serves:
  "cj_latest j = None \<Longrightarrow> list_all2 (reads_as j) (pending j) ps \<Longrightarrow> serves ps j"
  unfolding serves_def by (intro exI [of _ "[]"] exI [of _ ps]) (simp add: latest_of_def)

lemma new_prediction_join_Inr:
  assumes "new_prediction_join source e day s m a = Inr j"
  shows "source = Some (pending j)" "cj_latest j = None"
  using assms
  by (auto simp: new_prediction_join_def bindR_def require_def join_fail_def pending_def
      split: pyval.splits option.splits sum.splits if_splits)

section \<open>Properties\<close>

text \<open>
  C19: Over a stream of valid predictions in source order, and after any number of earlier
  selections with any arguments, a selection for a decision in order returns exactly the as-of
  join of the whole stream: a leakage error at the first prediction at or before the decision that
  is dated after it, and otherwise the latest prediction at or before the decision, with its age,
  its score unless it is too old, and the missing or stale diagnostic. What had been pulled,
  buffered or refused before does not show.
\<close>

theorem selections_are_as_of:
  assumes "new_prediction_join (Some stream) experiment day symbol model max_age = Inr j0"
    and "list_all2 (reads_as j0) stream ps" and "sorted_wrt source_before ps"
    and "j = selections calls j0"
    and "checked_int d 0 MAX_UINT64 = Some decision" and "checked_int u 0 MAX_TIMESTAMP_NS = Some t"
    and "decided j decision t"
  shows "fst (select d u j)
    = as_of_selection (cj_symbol_id j0) (cj_max_prediction_age_ns j0) ps decision t"
proof -
  have "serves ps j0"
    using new_join_serves new_prediction_join_Inr [OF assms(1)] assms(2) by simp
  then have "serves ps j" unfolding assms(4) by (rule selections_serve [OF assms(3)])
  from select_serves(1) [OF assms(3) this assms(5-7)] show ?thesis
    by (simp add: assms(4) selections_scope)
qed

definition sample_row :: "int \<Rightarrow> int \<Rightarrow> py_score \<Rightarrow> stream_item" where
  "sample_row i t score = Item_row \<lparr>
     pr_experiment_id = PyStr ''e'', pr_trading_date = PyDate (2019, 12, 30), pr_symbol_id = PyInt 7,
     pr_message_index = PyInt i, pr_model_name = PyStr ''prior'', pr_timestamp_ns = PyInt t, pr_score = score\<rparr>"

definition sample_prediction :: "int \<Rightarrow> int \<Rightarrow> rat \<Rightarrow> signal_prediction" where
  "sample_prediction i t score = \<lparr>
     sp_key = \<lparr>pk_experiment_id = ''e'', pk_trading_date = (2019, 12, 30), pk_symbol_id = 7,
       pk_message_index = i, pk_model_name = ''prior''\<rparr>,
     sp_timestamp_ns = t, sp_score = score\<rparr>"

definition sample_join :: "stream_item list \<Rightarrow> causal_prediction_join" where
  "sample_join stream = \<lparr>
     cj_source = stream, cj_buffer = [], cj_experiment_id = ''e'', cj_trading_date = (2019, 12, 30),
     cj_symbol_id = 7, cj_model_name = ''prior'', cj_max_prediction_age_ns = 100, cj_latest = None,
     cj_last_decision_message_index = None, cj_last_decision_timestamp_ns = None, cj_diagnostics = []\<rparr>"

text \<open>Three rows; one selection before, between and one refused; then the second row is stale.\<close>

lemma selections_are_as_of_witness:
  "fst (select (PyInt 25) (PyInt 400)
     (selections [(PyInt 5, PyInt 10), (PyInt 15, PyInt 150), (PyInt 14, PyInt 160)]
       (sample_join [sample_row 10 100 (Score_int 1), sample_row 20 200 (Score_float (Some (1 / 2))),
          sample_row 30 300 (Score_int 0)])))
   = as_of_selection 7 100
      [sample_prediction 10 100 1, sample_prediction 20 200 (1 / 2), sample_prediction 30 300 0] 25 400"
proof -
  let ?rows = "[sample_row 10 100 (Score_int 1), sample_row 20 200 (Score_float (Some (1 / 2))),
          sample_row 30 300 (Score_int 0)]"
  let ?ps = "[sample_prediction 10 100 1, sample_prediction 20 200 (1 / 2), sample_prediction 30 300 0]"
  have new: "new_prediction_join (Some ?rows) (PyStr ''e'') (PyDate (2019, 12, 30)) (PyInt 7)
      (PyStr ''prior'') (PyInt 100) = Inr (sample_join ?rows)"
    by code_simp
  have rows: "list_all2 (reads_as (sample_join ?rows)) ?rows ?ps" by code_simp
  have srt: "sorted_wrt source_before ?ps" by code_simp
  have ints: "checked_int (PyInt 25) 0 MAX_UINT64 = Some 25" "checked_int (PyInt 400) 0 MAX_TIMESTAMP_NS = Some 400"
    by code_simp+
  have "decided (selections [(PyInt 5, PyInt 10), (PyInt 15, PyInt 150), (PyInt 14, PyInt 160)]
      (sample_join ?rows)) 25 400"
    by code_simp
  from selections_are_as_of [OF new rows srt refl ints this]
  show ?thesis by (simp add: sample_join_def)
qed

text \<open>
  A selection that raises a simulation error is atomic: the rows still to be read, the kept
  prediction, the last decision and the diagnostics are exactly what they were, so a corrected
  call sees the same stream. Only an overflow, which the handler does not catch, consumes rows,
  and it too leaves the semantic state alone.
\<close>

theorem select_raises_atomically:
  assumes "select d u j = (Inl e, j')"
  shows "join_snapshot j' = join_snapshot j
    \<and> (pending j' = pending j \<or> e = Overflow_Error)"
proof -
  have same: "without_stream j' = without_stream j" "e \<noteq> Overflow_Error \<longrightarrow> pending j' = pending j"
    using select_error_keeps_cursor [OF assms] by simp_all
  have "cj_latest j' = cj_latest j" "cj_diagnostics j' = cj_diagnostics j"
    "cj_last_decision_message_index j' = cj_last_decision_message_index j"
    "cj_last_decision_timestamp_ns j' = cj_last_decision_timestamp_ns j"
    using same(1) by (metis without_stream_sel)+
  then show ?thesis using same(2) by (auto simp: join_snapshot_def)
qed

text \<open>The second row is dated after the decision: both rows pulled are put back.\<close>

lemma select_raises_atomically_witness:
  "let j = sample_join [sample_row 10 100 (Score_int 1), sample_row 20 200 (Score_int 0)];
       j' = snd (select (PyInt 25) (PyInt 150) j) in
   fst (select (PyInt 25) (PyInt 150) j) = join_fail ERR_LEAKAGE_GUARD (Some 20)
   \<and> cj_buffer j' = pending j \<and> join_snapshot j' = join_snapshot j \<and> pending j' = pending j"
proof -
  let ?j = "sample_join [sample_row 10 100 (Score_int 1), sample_row 20 200 (Score_int 0)]"
  let ?j' = "snd (select (PyInt 25) (PyInt 150) ?j)"
  have err: "fst (select (PyInt 25) (PyInt 150) ?j) = Inl (Prediction_Error ERR_LEAKAGE_GUARD (Some 20))"
    by code_simp
  have buf: "cj_buffer ?j' = pending ?j" by code_simp
  have "select (PyInt 25) (PyInt 150) ?j = (Inl (Prediction_Error ERR_LEAKAGE_GUARD (Some 20)), ?j')"
    using err by (simp add: prod_eq_iff)
  from select_raises_atomically [OF this] err buf show ?thesis
    by (simp add: Let_def join_fail_def)
qed

text \<open>
  The exception to it: an integer score too large for a float raises \<open>OverflowError\<close> out of
  \<open>select\<close>, and the rows pulled so far are gone, here a valid one before the bad one.
\<close>

lemma overflow_loses_rows:
  "let j = sample_join [sample_row 10 100 (Score_int 1), sample_row 20 200 (Score_int (2 ^ 1024))];
       j' = snd (select (PyInt 25) (PyInt 300) j) in
   fst (select (PyInt 25) (PyInt 300) j) = Inl Overflow_Error \<and> pending j' = []
   \<and> map_sum id ps_key (fst (select (PyInt 10) (PyInt 100) j')) = Inr None
   \<and> map_sum id ps_key (fst (select (PyInt 10) (PyInt 100) j))
      = Inr (Some (sp_key (sample_prediction 10 100 1)))"
  by code_simp

end
