(* ===== verification/Dataset_Rows.thy ===== *)
theory Dataset_Rows
  imports Conversion_Rows
begin

text \<open>
  What the three dataset generators of \<open>datasets/\<close> share: Arrow batches read as rows, and the
  bounded output batches they yield.

  A row is the dictionary that \<open>to_pylist\<close> makes of it. A cell is a Python value or a float, the
  float by its 64 bits: the code modelled moves floats and computes none. A batch is a
  \<open>RecordBatch\<close>, by its schema and its rows, or any other object. Its rows hold the schema's
  columns, with values of the column types; no value of one column type equals a value of another.
\<close>

section \<open>Rows\<close>

datatype cell = Py pyval | Float_bits "64 word"

type_synonym 'v row = "(string, 'v) dict"

datatype 'v table_batch = Other_object | Record_batch "column_field list" "'v row list"

definition MAX_INPUT_BATCH_ROWS :: nat where "MAX_INPUT_BATCH_ROWS = 1048576"
definition OUTPUT_BATCH_ROWS :: nat where "OUTPUT_BATCH_ROWS = 65536"

definition oversized :: "'v row list \<Rightarrow> bool" where
  "oversized rows \<longleftrightarrow> length rows > MAX_INPUT_BATCH_ROWS"

definition full_output :: "'r list \<Rightarrow> bool" where
  "full_output rows \<longleftrightarrow> length rows = OUTPUT_BATCH_ROWS"

text \<open>For evaluation the bounds are compared as integers.\<close>

lemma oversized_code [code]: "oversized rows \<longleftrightarrow> int (length rows) > 1048576"
  by (simp add: oversized_def MAX_INPUT_BATCH_ROWS_def)

lemma full_output_code [code]: "full_output rows \<longleftrightarrow> int (length rows) = 65536"
  by (simp add: full_output_def OUTPUT_BATCH_ROWS_def)

text \<open>\<open>row[name]\<close>, \<open>row.get(name)\<close>, truth and \<open>isinstance(value, int)\<close>, which Booleans pass.\<close>

definition item :: "'v row \<Rightarrow> string \<Rightarrow> 'v result" where
  "item row name = (case dict_get row name of None \<Rightarrow> Inl KeyError | Some v \<Rightarrow> Inr v)"

definition truthy :: "pyval \<Rightarrow> bool" where
  "truthy v = (case v of
       PyNone \<Rightarrow> False | PyBool b \<Rightarrow> b | PyInt i \<Rightarrow> i \<noteq> 0 | PyStr s \<Rightarrow> s \<noteq> [] | _ \<Rightarrow> True)"

definition as_int :: "pyval \<Rightarrow> int option" where
  "as_int v = (case v of PyInt i \<Rightarrow> Some i | PyBool b \<Rightarrow> Some (if b then 1 else 0) | _ \<Rightarrow> None)"

definition plain_int :: "pyval \<Rightarrow> int option" where
  "plain_int v = (case v of PyInt i \<Rightarrow> Some i | _ \<Rightarrow> None)"

lemma item_Inr: "item row name = Inr v \<longleftrightarrow> dict_get row name = Some v"
  by (simp add: item_def split: option.splits)

lemma plain_int_iff: "plain_int v = Some i \<longleftrightarrow> v = PyInt i"
  by (simp add: plain_int_def split: pyval.splits)

lemma plain_int_PyInt [simp]: "plain_int (PyInt i) = Some i"
  by (simp add: plain_int_def)

text \<open>
  A generator that changes nothing is the list of what it yields with the exception that ends it,
  if one does.
\<close>

type_synonym 'a generated = "'a list \<times> sim_error option"

section \<open>Bounded output\<close>

text \<open>
  The output list and the batches yielded so far. \<open>encode\<close> is \<open>RecordBatch.from_pylist\<close> for the
  schema at hand; \<open>None\<close> is any of the exceptions that \<open>_record_batch\<close> turns into
  \<open>ERR_INVARIANT\<close>.
\<close>

record ('r, 'b) writer =
  wr_output :: "'r list"
  wr_yielded :: "'b list"

definition yield_batch :: "('r list \<Rightarrow> 'b option) \<Rightarrow> (('r, 'b) writer, unit) smethod" where
  "yield_batch encode w = (case encode (wr_output w) of
       None \<Rightarrow> (fail_code ERR_INVARIANT, w)
     | Some b \<Rightarrow> (Inr (), w\<lparr>wr_yielded := wr_yielded w @ [b]\<rparr>))"

definition append_output :: "'r \<Rightarrow> (('r, 'b) writer, unit) smethod" where
  "append_output row = modifyM (\<lambda>w. w\<lparr>wr_output := wr_output w @ [row]\<rparr>)"

definition flush_full :: "('r list \<Rightarrow> 'b option) \<Rightarrow> (('r, 'b) writer, unit) smethod" where
  "flush_full encode w = (
     if full_output (wr_output w)
     then bindM (yield_batch encode) (\<lambda>_. modifyM (\<lambda>w. w\<lparr>wr_output := []\<rparr>)) w
     else (Inr (), w))"

definition flush_rest :: "('r list \<Rightarrow> 'b option) \<Rightarrow> (('r, 'b) writer, unit) smethod" where
  "flush_rest encode w = (if wr_output w \<noteq> [] then yield_batch encode w else (Inr (), w))"

text \<open>The batches of a list: full ones, then what is left.\<close>

fun chunks_of :: "nat \<Rightarrow> 'a list \<Rightarrow> 'a list list" where
  "chunks_of n [] = []"
| "chunks_of n (x # xs) =
     (if n = 0 then [x # xs] else take n (x # xs) # chunks_of n (drop (n - 1) xs))"

lemma chunks_of_short: "xs \<noteq> [] \<Longrightarrow> length xs \<le> n \<Longrightarrow> chunks_of n xs = [xs]"
  by (cases xs) auto

lemma chunks_of_full: "length xs = n \<Longrightarrow> 0 < n \<Longrightarrow> chunks_of n (xs @ ys) = xs # chunks_of n ys"
  by (cases xs) auto

lemma concat_chunks_of: "concat (chunks_of n xs) = xs"
proof (induction n xs rule: chunks_of.induct)
  case (2 n x xs)
  have "take n (x # xs) @ drop (n - 1) xs = x # xs" if "n \<noteq> 0"
    using that append_take_drop_id [of n "x # xs"] by (cases n) simp_all
  then show ?case using 2 by simp
qed simp

text \<open>
  The contract of the output: \<open>wrote encode rows w\<close> when the batches yielded are the full
  batches of the rows written, and the rest is in the output list.
\<close>

definition wrote :: "('r list \<Rightarrow> 'b option) \<Rightarrow> 'r list \<Rightarrow> ('r, 'b) writer \<Rightarrow> bool" where
  "wrote encode rows w = (\<exists>full. rows = concat full @ wr_output w
     \<and> (\<forall>c \<in> set full. length c = OUTPUT_BATCH_ROWS)
     \<and> length (wr_output w) < OUTPUT_BATCH_ROWS
     \<and> map encode full = map Some (wr_yielded w))"

lemma output_rows_pos: "0 < OUTPUT_BATCH_ROWS"
  by (simp add: OUTPUT_BATCH_ROWS_def)

lemma chunks_of_concat:
  "\<forall>c \<in> set full. length c = n \<Longrightarrow> 0 < n \<Longrightarrow> chunks_of n (concat full @ ys) = full @ chunks_of n ys"
  by (induction full) (simp_all add: chunks_of_full)

lemma chunks_of_lengths: "c \<in> set (chunks_of n xs) \<Longrightarrow> 0 < n \<Longrightarrow> 0 < length c \<and> length c \<le> n"
  by (induction n xs rule: chunks_of.induct) (auto split: if_splits)

lemma wrote_chunks:
  assumes "wrote encode rows w"
  obtains full where "rows = concat full @ wr_output w" "map encode full = map Some (wr_yielded w)"
    "\<And>rs. chunks_of OUTPUT_BATCH_ROWS (rows @ rs) = full @ chunks_of OUTPUT_BATCH_ROWS (wr_output w @ rs)"
    "length (wr_output w) < OUTPUT_BATCH_ROWS" "\<forall>c \<in> set full. length c = OUTPUT_BATCH_ROWS"
proof -
  obtain full where "rows = concat full @ wr_output w" "\<forall>c \<in> set full. length c = OUTPUT_BATCH_ROWS"
    "length (wr_output w) < OUTPUT_BATCH_ROWS" "map encode full = map Some (wr_yielded w)"
    using assms unfolding wrote_def by blast
  then show ?thesis
    by (intro that) (simp_all add: chunks_of_concat output_rows_pos)
qed

text \<open>Rows that can be encoded, batch by batch.\<close>

definition encodes :: "('r list \<Rightarrow> 'b option) \<Rightarrow> 'r list \<Rightarrow> bool" where
  "encodes encode rows = (\<forall>c \<in> set (chunks_of OUTPUT_BATCH_ROWS rows). encode c \<noteq> None)"

definition push_row :: "('r list \<Rightarrow> 'b option) \<Rightarrow> 'r \<Rightarrow> (('r, 'b) writer, unit) smethod" where
  "push_row encode row = bindM (append_output row) (\<lambda>_. flush_full encode)"

lemma wrote_start: "wrote encode [] \<lparr>wr_output = [], wr_yielded = []\<rparr>"
  unfolding wrote_def by (intro exI [of _ "[]"]) (simp add: output_rows_pos)

lemma flush_idle: "wrote encode rows w \<Longrightarrow> flush_full encode w = (Inr (), w)"
  by (auto simp: wrote_def flush_full_def full_output_def)

lemma push_row_Inr:
  assumes "wrote encode rows w" "push_row encode r w = (Inr u, w')"
  shows "wrote encode (rows @ [r]) w'"
proof -
  obtain full where full: "rows = concat full @ wr_output w" "\<forall>c \<in> set full. length c = OUTPUT_BATCH_ROWS"
    "length (wr_output w) < OUTPUT_BATCH_ROWS" "map encode full = map Some (wr_yielded w)"
    using assms(1) unfolding wrote_def by blast
  let ?out = "wr_output w @ [r]"
  show ?thesis
  proof (cases "length ?out = OUTPUT_BATCH_ROWS")
    case True
    then obtain b where "encode ?out = Some b" "w' = \<lparr>wr_output = [], wr_yielded = wr_yielded w @ [b]\<rparr>"
      using assms(2)
      by (cases w) (auto simp: push_row_def append_output_def flush_full_def full_output_def yield_batch_def bindM_def
          fail_code_def split: option.splits)
    then show ?thesis using full True
      unfolding wrote_def by (intro exI [of _ "full @ [?out]"]) (simp add: output_rows_pos)
  next
    case False
    then have "w' = w\<lparr>wr_output := ?out\<rparr>"
      using assms(2) by (simp add: push_row_def append_output_def flush_full_def full_output_def bindM_def)
    then show ?thesis using full False
      unfolding wrote_def by (intro exI [of _ full]) simp
  qed
qed

lemma push_row_ok:
  assumes "wrote encode rows w" "encodes encode (rows @ r # rs)"
  obtains w' where "push_row encode r w = (Inr (), w')" "wrote encode (rows @ [r]) w'"
proof -
  obtain full where full: "length (wr_output w) < OUTPUT_BATCH_ROWS"
    "chunks_of OUTPUT_BATCH_ROWS (rows @ r # rs) = full @ chunks_of OUTPUT_BATCH_ROWS (wr_output w @ r # rs)"
    by (rule wrote_chunks [OF assms(1)]) blast
  let ?out = "wr_output w @ [r]"
  have "\<exists>w'. push_row encode r w = (Inr (), w')"
  proof (cases "length ?out = OUTPUT_BATCH_ROWS")
    case True
    have "chunks_of OUTPUT_BATCH_ROWS (?out @ rs) = ?out # chunks_of OUTPUT_BATCH_ROWS rs"
      by (rule chunks_of_full [OF True output_rows_pos])
    then have "encode ?out \<noteq> None" using assms(2) full(2) by (simp add: encodes_def)
    then show ?thesis
      by (auto simp: push_row_def append_output_def flush_full_def full_output_def yield_batch_def bindM_def)
  qed (simp add: push_row_def append_output_def flush_full_def full_output_def bindM_def)
  then show ?thesis using that push_row_Inr [OF assms(1)] by blast
qed

lemma flush_rest_iff:
  assumes "wrote encode rows w"
  shows "flush_rest encode w = (Inr u, w') \<longleftrightarrow>
    map encode (chunks_of OUTPUT_BATCH_ROWS rows) = map Some (wr_yielded w') \<and> wr_output w' = wr_output w"
proof -
  obtain full where full: "map encode full = map Some (wr_yielded w)"
    "chunks_of OUTPUT_BATCH_ROWS rows = full @ chunks_of OUTPUT_BATCH_ROWS (wr_output w)"
    "length (wr_output w) < OUTPUT_BATCH_ROWS"
    using wrote_chunks [OF assms] by (metis append_Nil2)
  have chunks: "chunks_of OUTPUT_BATCH_ROWS (wr_output w) = (if wr_output w = [] then [] else [wr_output w])"
    using full(3) by (simp add: chunks_of_short)
  have inj: "map Some xs = map Some ys \<longleftrightarrow> xs = ys" for xs ys :: "'b list"
    by (simp add: inj_map_eq_map)
  show ?thesis
  proof (cases "wr_output w = []")
    case True
    then show ?thesis using full chunks by (cases w; cases w') (auto simp: flush_rest_def inj)
  next
    case False
    have "map Some (wr_yielded w) @ [encode (wr_output w)] = map Some (wr_yielded w') \<longleftrightarrow>
        (\<exists>b. encode (wr_output w) = Some b \<and> wr_yielded w' = wr_yielded w @ [b])"
    proof (cases "encode (wr_output w)")
      case None
      then show ?thesis by (auto dest!: arg_cong [where f = set])
    next
      case (Some b)
      then show ?thesis using inj [of "wr_yielded w @ [b]" "wr_yielded w'"] by auto
    qed
    then show ?thesis using full chunks False
      by (cases w; cases w') (auto simp: flush_rest_def yield_batch_def fail_code_def split: option.splits)
  qed
qed

end
