(* ===== verification/Labels.thy ===== *)
theory Labels
  imports Dataset_Rows
begin

text \<open>
  \<open>datasets/labels.py\<close>: the future-horizon labels of one day and symbol. A generator reads
  ordered snapshot batches, keeps the qualifying rows of the last horizon in a buffer, and labels
  the oldest row once its longest horizon is in the buffer, or the input has ended.
\<close>

section \<open>Configuration and context\<close>

definition DAY_NANOS :: int where "DAY_NANOS = 86400000000000"

record label_config =
  lc_primary_event_horizon :: pyval
  lc_secondary_event_horizons :: "pyval list"
  lc_flat_threshold_ticks :: pyval

definition positive_int :: "pyval \<Rightarrow> int option" where
  "positive_int v = (case plain_int v of None \<Rightarrow> None | Some i \<Rightarrow> if i \<le> 0 then None else Some i)"

text \<open>A config of another type is \<open>None\<close>.\<close>

definition label_horizons :: "label_config option \<Rightarrow> int list result" where
  "label_horizons config = (case config of
       None \<Rightarrow> fail_code ERR_CONFIG_SCHEMA
     | Some c \<Rightarrow> (
     case those (map positive_int (lc_primary_event_horizon c # lc_secondary_event_horizons c)) of
       None \<Rightarrow> fail_code ERR_HORIZON
     | Some horizons \<Rightarrow>
     bindR (require (tl horizons = sort (tl horizons)) (fail_code ERR_HORIZON)) (\<lambda>_.
     bindR (require (distinct horizons) (fail_code ERR_HORIZON)) (\<lambda>_.
     case plain_int (lc_flat_threshold_ticks c) of
       None \<Rightarrow> fail_code ERR_HORIZON
     | Some ticks \<Rightarrow>
     bindR (require (0 \<le> ticks) (fail_code ERR_HORIZON)) (\<lambda>_.
     Inr (sort horizons))))))"

definition label_column :: "int \<Rightarrow> string" where
  "label_column horizon = ''label_horizon_'' @ decimal (nat horizon)"

definition label_schema :: "label_config option \<Rightarrow> column_field list result" where
  "label_schema config = bindR (label_horizons config) (\<lambda>horizons. Inr (
     [pa_field ''trading_date'' Date32 False,
      pa_field ''symbol'' StringType False,
      pa_field ''symbol_id'' (UInt 16) False,
      pa_field ''message_index'' (UInt 64) False,
      pa_field ''timestamp_ns'' (UInt 64) False,
      pa_field ''qualifying_ordinal'' (UInt 64) False]
     @ map (\<lambda>horizon. pa_field (label_column horizon) Int8 True) horizons))"

text \<open>\<open>FeaturePartitionContext\<close>, whose fields may be any values, and what a valid one holds.\<close>

record feature_partition_context =
  fc_trading_date :: pyval
  fc_symbol :: pyval
  fc_symbol_id :: pyval
  fc_tick_size4 :: pyval
  fc_session_start_ns :: pyval
  fc_session_end_ns :: pyval

record partition_context =
  pc_trading_date :: "int \<times> int \<times> int"
  pc_symbol :: string
  pc_symbol_id :: int
  pc_tick_size4 :: int
  pc_session_start_ns :: int
  pc_session_end_ns :: int

definition ascii :: "string \<Rightarrow> bool" where
  "ascii s = list_all (\<lambda>c. of_char c < (128::nat)) s"

definition validate_label_context :: "feature_partition_context \<Rightarrow> partition_context result" where
  "validate_label_context context = (
     case fc_symbol context of
       PyStr symbol \<Rightarrow>
     bindR (require (ascii symbol) (fail_code ERR_UNKNOWN_SYMBOL)) (\<lambda>_.
     case (fc_trading_date context, checked_int (fc_symbol_id context) 1 65535) of
       (PyDate day, Some symbol_id) \<Rightarrow>
     bindR (require (1 \<le> length symbol \<and> length symbol \<le> 8) (fail_code ERR_UNKNOWN_SYMBOL)) (\<lambda>_.
     case checked_int (fc_tick_size4 context) 1 4294967295 of
       None \<Rightarrow> fail_code ERR_PRICE
     | Some tick \<Rightarrow> (
     case (plain_int (fc_session_start_ns context), plain_int (fc_session_end_ns context)) of
       (Some start, Some end) \<Rightarrow>
     bindR (require (0 \<le> start \<and> start < end \<and> end \<le> DAY_NANOS) (fail_code ERR_SESSION_WINDOW)) (\<lambda>_.
     Inr \<lparr>pc_trading_date = day, pc_symbol = symbol, pc_symbol_id = symbol_id, pc_tick_size4 = tick,
       pc_session_start_ns = start, pc_session_end_ns = end\<rparr>)
     | _ \<Rightarrow> fail_code ERR_SESSION_WINDOW))
     | _ \<Rightarrow> fail_code ERR_UNKNOWN_SYMBOL)
     | _ \<Rightarrow> fail_code ERR_UNKNOWN_SYMBOL)"

section \<open>Input rows\<close>

definition snapshot_depth :: "column_field list \<Rightarrow> int result" where
  "snapshot_depth schema = (
     let variable_fields = int (length schema) - 13 in
     if variable_fields \<le> 0 \<or> variable_fields mod 4 \<noteq> 0 then fail_code ERR_SCHEMA_VERSION
     else let depth = variable_fields div 4 in
       if schema \<noteq> snapshot_schema (nat depth) then fail_code ERR_SCHEMA_VERSION else Inr depth)"

fun snapshot_rows :: "int option \<Rightarrow> 'v table_batch list \<Rightarrow> 'v row generated" where
  "snapshot_rows expected_depth [] = ([], None)"
| "snapshot_rows expected_depth (Other_object # batches) =
     ([], Some (SimulationError ERR_SCHEMA_VERSION None None))"
| "snapshot_rows expected_depth (Record_batch schema rows # batches) = (
     if oversized rows then ([], Some (SimulationError ERR_SCHEMA_VERSION None None))
     else case snapshot_depth schema of
       Inl e \<Rightarrow> ([], Some e)
     | Inr depth \<Rightarrow>
       if expected_depth \<noteq> None \<and> expected_depth \<noteq> Some depth
       then ([], Some (SimulationError ERR_SCHEMA_VERSION None None))
       else case snapshot_rows (Some depth) batches of (later, end) \<Rightarrow> (rows @ later, end))"

text \<open>The conjunction of \<open>_qualifies\<close> looks a column up only when those before it hold.\<close>

definition qualifies :: "pyval row \<Rightarrow> bool result" where
  "qualifies snapshot =
     bindR (item snapshot ''top_n_changed'') (\<lambda>changed.
     if \<not> truthy changed then Inr False else
     bindR (item snapshot ''trading_state'') (\<lambda>trading.
     if trading \<noteq> PyStr ''trading'' then Inr False else
     bindR (item snapshot ''bid_price4_1'') (\<lambda>bid.
     if bid = PyNone then Inr False else
     bindR (item snapshot ''bid_quantity_1'') (\<lambda>bid_quantity.
     if bid_quantity = PyNone then Inr False else
     bindR (item snapshot ''ask_price4_1'') (\<lambda>ask.
     if ask = PyNone then Inr False else
     bindR (item snapshot ''ask_quantity_1'') (\<lambda>ask_quantity.
     Inr (ask_quantity \<noteq> PyNone)))))))"

definition label_of :: "int \<Rightarrow> int \<Rightarrow> int" where
  "label_of delta_mid2 threshold_mid2 = (
     if delta_mid2 > threshold_mid2 then 1
     else if delta_mid2 < - threshold_mid2 then -1
     else 0)"

section \<open>The generator\<close>

record buffered_row =
  br_message_index :: int
  br_timestamp_ns :: int
  br_qualifying_ordinal :: int
  br_mid2 :: int

record 'b label_state =
  ls_buffer :: "buffered_row list"
  ls_writer :: "(pyval row, 'b) writer"
  ls_previous_index :: "int option"
  ls_previous_timestamp :: "int option"
  ls_qualifying_ordinal :: int

definition on_writer :: "((pyval row, 'b) writer, 'x) smethod \<Rightarrow> ('b label_state, 'x) smethod" where
  "on_writer m s = (case m (ls_writer s) of (r, w) \<Rightarrow> (r, s\<lparr>ls_writer := w\<rparr>))"

text \<open>
  The row of \<open>emit_oldest\<close> for the oldest buffered row \<open>current\<close>; a horizon beyond the buffer
  has no label. All rows carry the context's identity.
\<close>

definition label_row ::
  "partition_context \<Rightarrow> int list \<Rightarrow> int \<Rightarrow> buffered_row \<Rightarrow> buffered_row list \<Rightarrow> pyval row" where
  "label_row context horizons threshold_mid2 current buffer =
     [(''trading_date'', PyDate (pc_trading_date context)),
      (''symbol'', PyStr (pc_symbol context)),
      (''symbol_id'', PyInt (pc_symbol_id context)),
      (''message_index'', PyInt (br_message_index current)),
      (''timestamp_ns'', PyInt (br_timestamp_ns current)),
      (''qualifying_ordinal'', PyInt (br_qualifying_ordinal current))]
     @ map (\<lambda>horizon. (label_column horizon,
         if nat horizon < length buffer
         then PyInt (label_of (br_mid2 (buffer ! nat horizon) - br_mid2 current) threshold_mid2)
         else PyNone)) horizons"

definition emit_oldest ::
  "partition_context \<Rightarrow> int list \<Rightarrow> int \<Rightarrow> ('b label_state, unit) smethod" where
  "emit_oldest context horizons threshold_mid2 s = (
     let buffer = ls_buffer s;
         row = label_row context horizons threshold_mid2 (hd buffer) buffer in
     on_writer (append_output row) (s\<lparr>ls_buffer := tl buffer\<rparr>))"

text \<open>The checks of a row, up to the test whether it qualifies: its index and time.\<close>

definition check_label_row ::
  "partition_context \<Rightarrow> int option \<Rightarrow> int option \<Rightarrow> pyval row \<Rightarrow> (int \<times> int) result" where
  "check_label_row context previous_index previous_timestamp snapshot = (
     if dict_get snapshot ''trading_date'' \<noteq> Some (PyDate (pc_trading_date context))
        \<or> dict_get snapshot ''symbol'' \<noteq> Some (PyStr (pc_symbol context))
        \<or> dict_get snapshot ''symbol_id'' \<noteq> Some (PyInt (pc_symbol_id context))
     then fail_code ERR_INVARIANT
     else
     bindR (item snapshot ''message_index'') (\<lambda>message_value.
     bindR (item snapshot ''timestamp_ns'') (\<lambda>time_value.
     case plain_int message_value of
       None \<Rightarrow> fail_code ERR_INVARIANT
     | Some i \<Rightarrow> (
     case plain_int time_value of
       None \<Rightarrow> fail_message ERR_SESSION_WINDOW i
     | Some t \<Rightarrow>
     bindR (require (pc_session_start_ns context \<le> t \<and> t < pc_session_end_ns context)
              (fail_message ERR_SESSION_WINDOW i)) (\<lambda>_.
     bindR (require (case previous_index of None \<Rightarrow> True | Some p \<Rightarrow> \<not> i \<le> p)
              (fail_message ERR_INVARIANT i)) (\<lambda>_.
     bindR (require (case previous_timestamp of None \<Rightarrow> True | Some p \<Rightarrow> \<not> t < p)
              (fail_message ERR_TIMESTAMP i)) (\<lambda>_.
     Inr (i, t))))))))"

text \<open>The checks of a qualifying row: twice its mid price.\<close>

definition check_label_top :: "int \<Rightarrow> pyval row \<Rightarrow> int result" where
  "check_label_top msg_index snapshot =
     bindR (item snapshot ''bid_price4_1'') (\<lambda>bid_value.
     bindR (item snapshot ''ask_price4_1'') (\<lambda>ask_value.
     bindR (item snapshot ''bid_quantity_1'') (\<lambda>bid_quantity_value.
     bindR (item snapshot ''ask_quantity_1'') (\<lambda>ask_quantity_value.
     case (as_int bid_value, as_int ask_value, as_int bid_quantity_value, as_int ask_quantity_value) of
       (Some bid, Some ask, Some bid_quantity, Some ask_quantity) \<Rightarrow>
     bindR (require (\<not> (bid \<le> 0 \<or> ask \<le> bid)) (fail_message ERR_BOOK_CROSSED msg_index)) (\<lambda>_.
     bindR (require (\<not> (bid_quantity \<le> 0 \<or> ask_quantity \<le> 0)) (fail_message ERR_QUANTITY msg_index)) (\<lambda>_.
     Inr (bid + ask)))
     | _ \<Rightarrow> fail_message ERR_INVARIANT msg_index))))"

definition label_step ::
  "(pyval row list \<Rightarrow> 'b option) \<Rightarrow> partition_context \<Rightarrow> int list \<Rightarrow> int \<Rightarrow> pyval row
     \<Rightarrow> ('b label_state, unit) smethod" where
  "label_step encode context horizons threshold_mid2 snapshot s = (
     case check_label_row context (ls_previous_index s) (ls_previous_timestamp s) snapshot of
       Inl e \<Rightarrow> (Inl e, s)
     | Inr (i, t) \<Rightarrow> (
     let s1 = s\<lparr>ls_previous_index := Some i, ls_previous_timestamp := Some t\<rparr> in
     case qualifies snapshot of
       Inl e \<Rightarrow> (Inl e, s1)
     | Inr False \<Rightarrow> (Inr (), s1)
     | Inr True \<Rightarrow> (
     case check_label_top i snapshot of
       Inl e \<Rightarrow> (Inl e, s1)
     | Inr mid2 \<Rightarrow> (
     let ordinal = ls_qualifying_ordinal s1 + 1;
         entry = \<lparr>br_message_index = i, br_timestamp_ns = t, br_qualifying_ordinal = ordinal,
           br_mid2 = mid2\<rparr>;
         s2 = s1\<lparr>ls_qualifying_ordinal := ordinal, ls_buffer := ls_buffer s1 @ [entry]\<rparr> in
     bindM (if int (length (ls_buffer s2)) > Max (set horizons)
            then emit_oldest context horizons threshold_mid2 else returnM ())
       (\<lambda>_. on_writer (flush_full encode)) s2))))"

text \<open>\<open>while buffer: ...\<close>, once for each buffered row.\<close>

primrec drain ::
  "(pyval row list \<Rightarrow> 'b option) \<Rightarrow> partition_context \<Rightarrow> int list \<Rightarrow> int \<Rightarrow> nat
     \<Rightarrow> ('b label_state, unit) smethod" where
  "drain encode context horizons threshold_mid2 0 = returnM ()"
| "drain encode context horizons threshold_mid2 (Suc n) =
     bindM (emit_oldest context horizons threshold_mid2) (\<lambda>_.
     bindM (on_writer (flush_full encode)) (\<lambda>_.
     drain encode context horizons threshold_mid2 n))"

definition new_label_state :: "'b label_state" where
  "new_label_state = \<lparr>ls_buffer = [], ls_writer = \<lparr>wr_output = [], wr_yielded = []\<rparr>,
     ls_previous_index = None, ls_previous_timestamp = None, ls_qualifying_ordinal = -1\<rparr>"

definition label_batches ::
  "(pyval row list \<Rightarrow> 'b option) \<Rightarrow> partition_context \<Rightarrow> int list \<Rightarrow> int \<Rightarrow> pyval row generated
     \<Rightarrow> ('b label_state, unit) smethod" where
  "label_batches encode context horizons threshold_mid2 snapshots =
     bindM (forM (label_step encode context horizons threshold_mid2) (fst snapshots)) (\<lambda>_.
     bindM (case snd snapshots of None \<Rightarrow> returnM () | Some e \<Rightarrow> liftM (Inl e)) (\<lambda>_.
     bindM (\<lambda>s. drain encode context horizons threshold_mid2 (length (ls_buffer s)) s) (\<lambda>_.
     on_writer (flush_rest encode))))"

text \<open>
  The batches yielded and how the generator ends. \<open>encode\<close> makes an Arrow batch of rows under the
  schema it is given.
\<close>

definition build_label_batches ::
  "(column_field list \<Rightarrow> pyval row list \<Rightarrow> 'b option) \<Rightarrow> pyval table_batch list \<Rightarrow> label_config option
     \<Rightarrow> feature_partition_context \<Rightarrow> 'b list \<times> unit result" where
  "build_label_batches encode snapshots config context = (
     case label_horizons config of Inl e \<Rightarrow> ([], Inl e) | Inr horizons \<Rightarrow> (
     case validate_label_context context of Inl e \<Rightarrow> ([], Inl e) | Inr pc \<Rightarrow> (
     case label_schema config of Inl e \<Rightarrow> ([], Inl e) | Inr schema \<Rightarrow> (
     case config of None \<Rightarrow> ([], fail_code ERR_CONFIG_SCHEMA) | Some c \<Rightarrow> (
     let ticks = (case plain_int (lc_flat_threshold_ticks c) of None \<Rightarrow> 0 | Some n \<Rightarrow> n);
         threshold_mid2 = 2 * pc_tick_size4 pc * ticks in
     case label_batches (encode schema) pc horizons threshold_mid2 (snapshot_rows None snapshots)
            new_label_state of
       (r, s) \<Rightarrow> (wr_yielded (ls_writer s), r))))))"

end
