(* ===== verification/Feature_Schema.thy ===== *)
theory Feature_Schema
  imports Dataset_Rows
begin

text \<open>
  The feature catalogue of \<open>datasets/features.py\<close> and the schema of a feature row. The rows
  themselves are in \<open>Feature_Rows\<close>.
\<close>

record feature_config =
  ff_depth_levels :: "pyval list"
  ff_event_windows :: "pyval list"
  ff_clock_windows_ns :: "pyval list"

record feature_definition =
  fd_name :: string
  fd_dtype :: string
  fd_nullable :: bool
  fd_formula :: string
  fd_lookback_kind :: string
  fd_lookback_value :: "int option"
  fd_unit :: string
  fd_null_policy :: string
  fd_owner :: string

definition DEPTH_LEVELS :: "int list" where "DEPTH_LEVELS = [1, 5, 10]"
definition EVENT_WINDOWS :: "int list" where "EVENT_WINDOWS = [20, 100, 500]"
definition CLOCK_WINDOWS_NS :: "int list" where "CLOCK_WINDOWS_NS = [100000000, 1000000000]"

text \<open>A config of another type is \<open>None\<close>. A valid one is returned as integers.\<close>

definition validate_feature_config :: "feature_config option \<Rightarrow> (int list \<times> int list \<times> int list) result" where
  "validate_feature_config config = (case config of
       None \<Rightarrow> fail_code ERR_CONFIG_SCHEMA
     | Some c \<Rightarrow> (
     case (those (map plain_int (ff_depth_levels c)), those (map plain_int (ff_event_windows c)),
           those (map plain_int (ff_clock_windows_ns c))) of
       (Some depths, Some events, Some clocks) \<Rightarrow>
     bindR (require (depths = DEPTH_LEVELS) (fail_code ERR_DEPTH)) (\<lambda>_.
     bindR (require (events = EVENT_WINDOWS) (fail_code ERR_CONFIG_SCHEMA)) (\<lambda>_.
     bindR (require (clocks = CLOCK_WINDOWS_NS) (fail_code ERR_CONFIG_SCHEMA)) (\<lambda>_.
     Inr (depths, events, clocks))))
     | _ \<Rightarrow> fail_code ERR_CONFIG_SCHEMA))"

text \<open>\<open>_definition\<close>; its keyword arguments with defaults are explicit.\<close>

definition feature_entry ::
  "string \<Rightarrow> string \<Rightarrow> bool \<Rightarrow> string \<Rightarrow> string \<Rightarrow> int option \<Rightarrow> string \<Rightarrow> string \<Rightarrow> feature_definition" where
  "feature_entry name dtype nullable formula lookback_kind lookback_value unit null_policy = \<lparr>
     fd_name = name, fd_dtype = dtype, fd_nullable = nullable, fd_formula = formula,
     fd_lookback_kind = lookback_kind, fd_lookback_value = lookback_value, fd_unit = unit,
     fd_null_policy = null_policy, fd_owner = ''itchlab_research.datasets.features''\<rparr>"

definition current_feature :: "string \<Rightarrow> string \<Rightarrow> bool \<Rightarrow> string \<Rightarrow> string \<Rightarrow> string \<Rightarrow> feature_definition" where
  "current_feature name dtype nullable formula unit null_policy =
     feature_entry name dtype nullable formula ''current'' None unit null_policy"

definition numeral_of :: "int \<Rightarrow> string" where
  "numeral_of n = decimal (nat n)"

text \<open>For evaluation, on integers.\<close>

lemma numeral_of_code [code]:
  "numeral_of n = (if n < 10 then [hex_digit (nat n)] else numeral_of (n div 10) @ [hex_digit (nat (n mod 10))])"
  by (simp add: numeral_of_def decimal.simps [of "nat n"] nat_div_distrib nat_mod_distrib)

definition imbalance_feature :: "int \<Rightarrow> feature_definition" where
  "imbalance_feature depth = (let d = numeral_of depth in
     current_feature (''imbalance_'' @ d) ''float64'' True
       (''(B('' @ d @ '')-A('' @ d @ ''))/(B('' @ d @ '')+A('' @ d @ ''))'') ''ratio'' ''zero_denominator'')"

definition fixed_features :: "feature_definition list" where
  "fixed_features =
     [current_feature ''microprice4'' ''float64'' False
        ''(ask_price4_1*B(1)+bid_price4_1*A(1))/(B(1)+A(1))'' ''price4'' ''never'',
      current_feature ''microprice_displacement_ticks'' ''float64'' False
        ''(microprice4-(bid_price4_1+ask_price4_1)/2)/tick_size4'' ''ticks'' ''never'',
      current_feature ''aggressor_sign'' ''int8'' True
        ''-resting_side for an exact execute or execute_price trigger'' ''sign''
        ''no_observable_execution_trigger'',
      current_feature ''session_progress'' ''float64'' False
        ''clip((timestamp_ns-session_start_ns)/(session_end_ns-session_start_ns),0,1)'' ''fraction'' ''never'',
      current_feature ''session_progress_squared'' ''float64'' False
        ''session_progress^2'' ''fraction_squared'' ''never'']"

definition window_feature :: "string \<Rightarrow> int \<Rightarrow> string \<Rightarrow> string \<Rightarrow> string \<Rightarrow> feature_definition" where
  "window_feature name window formula unit null_policy =
     feature_entry (name @ numeral_of window) ''float64'' True formula ''qualifying_transitions'' (Some window)
       unit null_policy"

definition window_features :: "int \<Rightarrow> feature_definition list" where
  "window_features window = (let w = numeral_of window in
     [window_feature ''ofi_'' window (''sum(e_j) over '' @ w @ '' qualifying transitions'') ''shares''
        ''incomplete_history'',
      window_feature ''ofi_normalised_'' window
        (''ofi_'' @ w @ ''/sum(B(1)+A(1)) over the same transitions'') ''ratio''
        ''incomplete_history_or_zero_denominator'',
      window_feature ''realised_volatility_'' window
        (''sqrt(sum(log(mid_j/mid_(j-1))^2)) over '' @ w @ '' transitions'') ''unannualised_volatility''
        ''incomplete_history'',
      window_feature ''execution_imbalance_'' window
        ''signed eligible E/C quantity / total eligible E/C quantity'' ''ratio''
        ''incomplete_history_then_zero_without_execution''])"

text \<open>The suffix of a clock window, and its length in seconds as the format \<open>g\<close> prints it.\<close>

definition clock_suffix :: "int \<Rightarrow> string" where
  "clock_suffix window_ns = (if window_ns = 100000000 then ''100ms'' else ''1s'')"

definition clock_seconds :: "int \<Rightarrow> string" where
  "clock_seconds window_ns = (if window_ns = 100000000 then ''0.1'' else ''1'')"

definition clock_feature :: "int \<Rightarrow> string \<Rightarrow> string \<Rightarrow> feature_definition" where
  "clock_feature window_ns category side_name =
     feature_entry (category @ ''_'' @ side_name @ ''_rate_'' @ clock_suffix window_ns) ''float64'' True
       (''count('' @ category @ '','' @ side_name @ '') in (t-'' @ numeral_of window_ns @ ''ns,t] / ''
         @ clock_seconds window_ns @ ''s'')
       ''clock_ns'' (Some window_ns) ''events_per_second'' ''incomplete_history''"

definition clock_features :: "int \<Rightarrow> feature_definition list" where
  "clock_features window_ns = concat (map (\<lambda>category.
     map (clock_feature window_ns category) [''bid'', ''ask'']) [''add'', ''cancel_delete'', ''execution''])"

definition feature_catalogue :: "feature_config option \<Rightarrow> feature_definition list result" where
  "feature_catalogue config = bindR (validate_feature_config config) (\<lambda>(depths, events, clocks). Inr (
     [current_feature ''spread_ticks'' ''float64'' False ''(ask_price4_1-bid_price4_1)/tick_size4'' ''ticks''
        ''never'']
     @ map imbalance_feature depths
     @ fixed_features
     @ concat (map window_features events)
     @ concat (map clock_features clocks)))"

definition feature_schema :: "feature_config option \<Rightarrow> column_field list result" where
  "feature_schema config = bindR (feature_catalogue config) (\<lambda>catalogue. Inr (
     [pa_field ''trading_date'' Date32 False,
      pa_field ''symbol'' StringType False,
      pa_field ''symbol_id'' (UInt 16) False,
      pa_field ''message_index'' (UInt 64) False,
      pa_field ''timestamp_ns'' (UInt 64) False,
      pa_field ''qualifying_ordinal'' (UInt 64) False,
      pa_field ''history_complete'' BoolType False]
     @ map (\<lambda>d. pa_field (fd_name d) (if fd_dtype d = ''int8'' then Int8 else Float64) (fd_nullable d)) catalogue))"

text \<open>The one valid configuration, and the columns every feature row has.\<close>

definition version_1_features :: feature_config where
  "version_1_features = \<lparr>ff_depth_levels = map PyInt DEPTH_LEVELS,
     ff_event_windows = map PyInt EVENT_WINDOWS, ff_clock_windows_ns = map PyInt CLOCK_WINDOWS_NS\<rparr>"

lemma those_plain_int: "those (map plain_int vs) = Some is \<longleftrightarrow> vs = map PyInt is"
proof (induction vs arbitrary: "is")
  case (Cons v vs)
  show ?case by (cases "is") (auto simp: plain_int_iff Cons.IH split: option.splits)
qed auto

lemma feature_config_iff:
  "validate_feature_config config = Inr x \<longleftrightarrow>
     config = Some version_1_features \<and> x = (DEPTH_LEVELS, EVENT_WINDOWS, CLOCK_WINDOWS_NS)"
proof (cases config)
  case (Some c)
  have "validate_feature_config config = Inr x \<longleftrightarrow>
      those (map plain_int (ff_depth_levels c)) = Some DEPTH_LEVELS
    \<and> those (map plain_int (ff_event_windows c)) = Some EVENT_WINDOWS
    \<and> those (map plain_int (ff_clock_windows_ns c)) = Some CLOCK_WINDOWS_NS
    \<and> x = (DEPTH_LEVELS, EVENT_WINDOWS, CLOCK_WINDOWS_NS)"
    by (auto simp: validate_feature_config_def Some bindR_eq_Inr require_eq_Inr split: option.splits)
  then show ?thesis
    unfolding those_plain_int Some version_1_features_def by (cases c) auto
qed (simp add: validate_feature_config_def)

end
