(* ===== verification/Splits.thy ===== *)
theory Splits
  imports Labels Feature_Schema
begin

text \<open>
  \<open>datasets/splits.py\<close>: the assignment of whole days to train, validation and test, and the join
  of the feature rows and the label rows of one day and symbol into dataset rows.
  \<open>date.fromisoformat\<close>, whose accepted forms depend on the version of Python, and the Arrow
  encoder are arguments.
\<close>

section \<open>Partitions\<close>

type_synonym day = "int \<times> int \<times> int"

record partition_config =
  cd_train_dates :: "pyval list"
  cd_validation_dates :: "pyval list"
  cd_test_dates :: "pyval list"

definition py_string :: "pyval \<Rightarrow> string option" where
  "py_string v = (case v of PyStr s \<Rightarrow> Some s | _ \<Rightarrow> None)"

text \<open>The dates of one group; \<open>None\<close> is the \<open>ValueError\<close> that becomes \<open>ERR_PARTITION\<close>.\<close>

definition parse_group :: "(string \<Rightarrow> day option) \<Rightarrow> pyval list \<Rightarrow> day list option" where
  "parse_group fromisoformat values = (
     case (if values = [] then None else those (map py_string values)) of
       None \<Rightarrow> None
     | Some texts \<Rightarrow> (
     case those (map fromisoformat texts) of
       None \<Rightarrow> None
     | Some dates \<Rightarrow> if dates \<noteq> sort dates \<or> \<not> distinct dates then None else Some dates))"

definition partition_mapping ::
  "(string \<Rightarrow> day option) \<Rightarrow> partition_config option \<Rightarrow> (day, string) dict result" where
  "partition_mapping fromisoformat config = (case config of
       None \<Rightarrow> fail_code ERR_CONFIG_SCHEMA
     | Some c \<Rightarrow> (
     case (parse_group fromisoformat (cd_train_dates c),
           parse_group fromisoformat (cd_validation_dates c),
           parse_group fromisoformat (cd_test_dates c)) of
       (Some train, Some validation, Some test) \<Rightarrow>
     bindR (require (distinct (train @ validation @ test)) (fail_code ERR_PARTITION)) (\<lambda>_.
     bindR (require (Max (set train) < Min (set validation) \<and> Max (set validation) < Min (set test))
              (fail_code ERR_PARTITION)) (\<lambda>_.
     Inr (foldl (\<lambda>d (date, name). dict_set date name d) []
       (map (\<lambda>d. (d, ''train'')) train @ map (\<lambda>d. (d, ''validation'')) validation
         @ map (\<lambda>d. (d, ''test'')) test))))
     | _ \<Rightarrow> fail_code ERR_PARTITION))"

section \<open>Schema and input rows\<close>

definition dataset_schema :: "feature_config option \<Rightarrow> label_config \<Rightarrow> column_field list result" where
  "dataset_schema feature_config label_config =
     bindR (feature_schema feature_config) (\<lambda>features.
     bindR (label_horizons (Some label_config)) (\<lambda>horizons.
     Inr ([pa_field ''partition'' StringType False] @ features
       @ map (\<lambda>horizon. pa_field (label_column horizon) Int8
           (plain_int (lc_primary_event_horizon label_config) \<noteq> Some horizon)) horizons)))"

fun table_rows :: "column_field list \<Rightarrow> 'v table_batch list \<Rightarrow> 'v row generated" where
  "table_rows expected_schema [] = ([], None)"
| "table_rows expected_schema (Other_object # batches) =
     ([], Some (SimulationError ERR_SCHEMA_VERSION None None))"
| "table_rows expected_schema (Record_batch schema rows # batches) = (
     if oversized rows \<or> schema \<noteq> expected_schema
     then ([], Some (SimulationError ERR_SCHEMA_VERSION None None))
     else case table_rows expected_schema batches of (later, end) \<Rightarrow> (rows @ later, end))"

section \<open>The join\<close>

record partition_join_counts =
  pj_qualifying_rows :: int
  pj_dropped_incomplete_history :: int
  pj_dropped_unavailable_primary_label :: int
  pj_dropped_by_row_stride :: int
  pj_retained_rows :: int
  pj_class_counts :: "(string, int) dict"
  pj_label_available :: "(int, int) dict"
  pj_label_unavailable :: "(int, int) dict"

record 'b join_state =
  jn_counts :: partition_join_counts
  jn_writer :: "(cell row, 'b) writer"

definition count :: "(partition_join_counts \<Rightarrow> partition_join_counts) \<Rightarrow> ('b join_state, unit) smethod" where
  "count f = modifyM (\<lambda>s. s\<lparr>jn_counts := f (jn_counts s)\<rparr>)"

definition join_writer :: "((cell row, 'b) writer, 'x) smethod \<Rightarrow> ('b join_state, 'x) smethod" where
  "join_writer m s = (case m (jn_writer s) of (r, w) \<Rightarrow> (r, s\<lparr>jn_writer := w\<rparr>))"

text \<open>\<open>d[key] += 1\<close>.\<close>

definition increment :: "'k \<Rightarrow> ('k, int) dict \<Rightarrow> ('k, int) dict result" where
  "increment key d = (case dict_get d key of None \<Rightarrow> Inl KeyError | Some n \<Rightarrow> Inr (dict_set key (n + 1) d))"

definition class_name :: "pyval \<Rightarrow> string option" where
  "class_name v = (case as_int v of
       None \<Rightarrow> None
     | Some n \<Rightarrow> if n = -1 then Some ''down'' else if n = 0 then Some ''flat''
         else if n = 1 then Some ''up'' else None)"

text \<open>A feature cell and a label value are equal as Python values; a float equals no label value.\<close>

definition same_value :: "cell row \<Rightarrow> pyval row \<Rightarrow> string \<Rightarrow> bool result" where
  "same_value feature label name =
     bindR (item feature name) (\<lambda>f. bindR (item label name) (\<lambda>l. Inr (f = Py l)))"

definition cell_truthy :: "cell \<Rightarrow> bool" where
  "cell_truthy c = (case c of Py v \<Rightarrow> truthy v | Float_bits b \<Rightarrow> b AND 9223372036854775807 \<noteq> 0)"

text \<open>The checks of one pair of rows, before anything is counted.\<close>

definition check_pair :: "day \<Rightarrow> cell row \<Rightarrow> pyval row \<Rightarrow> unit result" where
  "check_pair expected_date feature label =
     bindR (same_value feature label ''trading_date'') (\<lambda>date_same.
     bindR (same_value feature label ''symbol'') (\<lambda>symbol_same.
     bindR (same_value feature label ''message_index'') (\<lambda>index_same.
     bindR (require (date_same \<and> symbol_same \<and> index_same) (fail_code ERR_LEAKAGE_GUARD)) (\<lambda>_.
     bindR (item feature ''trading_date'') (\<lambda>date.
     bindR (require (date = Py (PyDate expected_date)) (fail_code ERR_PARTITION)) (\<lambda>_.
     foldR (\<lambda>_ name. bindR (same_value feature label name) (\<lambda>same.
         require same (fail_code ERR_LEAKAGE_GUARD))) ()
       [''symbol_id'', ''timestamp_ns'', ''qualifying_ordinal'']))))))"

definition count_label :: "pyval row \<Rightarrow> int \<Rightarrow> ('b join_state, unit) smethod" where
  "count_label label horizon =
     bindM (liftM (item label (label_column horizon))) (\<lambda>v s.
       let c = jn_counts s in
       if v = PyNone
       then bindM (liftM (increment horizon (pj_label_unavailable c)))
              (\<lambda>d. count (\<lambda>c. c\<lparr>pj_label_unavailable := d\<rparr>)) s
       else bindM (liftM (increment horizon (pj_label_available c)))
              (\<lambda>d. count (\<lambda>c. c\<lparr>pj_label_available := d\<rparr>)) s)"

text \<open>The retained row: \<open>{"partition": partition, **feature}\<close> and the labels.\<close>

definition dataset_row :: "string \<Rightarrow> int list \<Rightarrow> cell row \<Rightarrow> pyval row \<Rightarrow> cell row result" where
  "dataset_row split_name horizons feature label =
     foldR (\<lambda>row horizon. bindR (item label (label_column horizon)) (\<lambda>v.
         Inr (dict_set (label_column horizon) (Py v) row)))
       (foldl (\<lambda>d (name, v). dict_set name v d) [(''partition'', Py (PyStr split_name))] feature) horizons"

definition keep_row ::
  "(cell row list \<Rightarrow> 'b option) \<Rightarrow> string \<Rightarrow> int list \<Rightarrow> cell row \<Rightarrow> pyval row \<Rightarrow> string
     \<Rightarrow> ('b join_state, unit) smethod" where
  "keep_row encode split_name horizons feature label class =
     bindM (liftM (dataset_row split_name horizons feature label)) (\<lambda>row.
     bindM (count (\<lambda>c. c\<lparr>pj_retained_rows := pj_retained_rows c + 1\<rparr>)) (\<lambda>_.
     bindM (\<lambda>s. liftM (increment class (pj_class_counts (jn_counts s))) s) (\<lambda>classes.
     bindM (count (\<lambda>c. c\<lparr>pj_class_counts := classes\<rparr>)) (\<lambda>_.
     bindM (join_writer (append_output row)) (\<lambda>_.
     join_writer (flush_full encode))))))"

definition off_stride :: "int \<Rightarrow> cell \<Rightarrow> bool" where
  "off_stride row_stride ordinal = (case ordinal of
       Py v \<Rightarrow> (case as_int v of None \<Rightarrow> True | Some n \<Rightarrow> n mod row_stride \<noteq> 0)
     | Float_bits _ \<Rightarrow> True)"

text \<open>The part of the loop that drops or keeps a pair once it has been counted.\<close>

definition filter_row ::
  "(cell row list \<Rightarrow> 'b option) \<Rightarrow> string \<Rightarrow> int list \<Rightarrow> string \<Rightarrow> int \<Rightarrow> cell row \<Rightarrow> pyval row
     \<Rightarrow> ('b join_state, unit) smethod" where
  "filter_row encode split_name horizons primary_name row_stride feature label =
     bindM (liftM (item feature ''history_complete'')) (\<lambda>history_complete.
     if \<not> cell_truthy history_complete
     then count (\<lambda>c. c\<lparr>pj_dropped_incomplete_history := pj_dropped_incomplete_history c + 1\<rparr>)
     else
     bindM (liftM (item label primary_name)) (\<lambda>primary_label.
     if primary_label = PyNone
     then count (\<lambda>c. c\<lparr>pj_dropped_unavailable_primary_label := pj_dropped_unavailable_primary_label c + 1\<rparr>)
     else
     bindM (liftM (item feature ''qualifying_ordinal'')) (\<lambda>ordinal.
     if off_stride row_stride ordinal
     then count (\<lambda>c. c\<lparr>pj_dropped_by_row_stride := pj_dropped_by_row_stride c + 1\<rparr>)
     else case class_name primary_label of
       None \<Rightarrow> liftM (fail_code ERR_INVARIANT)
     | Some class \<Rightarrow> keep_row encode split_name horizons feature label class)))"

definition join_row ::
  "(cell row list \<Rightarrow> 'b option) \<Rightarrow> string \<Rightarrow> int list \<Rightarrow> string \<Rightarrow> int \<Rightarrow> day \<Rightarrow> cell row \<Rightarrow> pyval row
     \<Rightarrow> ('b join_state, unit) smethod" where
  "join_row encode split_name horizons primary_name row_stride expected_date feature label =
     bindM (liftM (check_pair expected_date feature label)) (\<lambda>_.
     bindM (count (\<lambda>c. c\<lparr>pj_qualifying_rows := pj_qualifying_rows c + 1\<rparr>)) (\<lambda>_.
     bindM (forM (count_label label) horizons) (\<lambda>_.
     filter_row encode split_name horizons primary_name row_stride feature label)))"

text \<open>
  \<open>while True\<close>: one row of each stream at a time, the feature first; a stream that has ended is
  \<open>None\<close>, and only both may end together.
\<close>

fun join_rows ::
  "(cell row \<Rightarrow> pyval row \<Rightarrow> ('b join_state, unit) smethod) \<Rightarrow> cell row list \<Rightarrow> sim_error option
     \<Rightarrow> pyval row list \<Rightarrow> sim_error option \<Rightarrow> ('b join_state, unit) smethod" where
  "join_rows step (f # fs) fend (l # ls) lend = bindM (step f l) (\<lambda>_. join_rows step fs fend ls lend)"
| "join_rows step fs fend ls lend =
     liftM (
       if fs = [] \<and> fend \<noteq> None then Inl (the fend)
       else if ls = [] \<and> lend \<noteq> None then Inl (the lend)
       else if fs = [] \<and> ls = [] then Inr ()
       else fail_code ERR_LEAKAGE_GUARD)"

definition reconciled :: "partition_join_counts \<Rightarrow> bool" where
  "reconciled c \<longleftrightarrow> pj_qualifying_rows c = pj_dropped_incomplete_history c
     + pj_dropped_unavailable_primary_label c + pj_dropped_by_row_stride c + pj_retained_rows c"

record sampling_config =
  sc_row_stride :: pyval

definition valid_row_stride :: "sampling_config option \<Rightarrow> int option" where
  "valid_row_stride sampling = (case sampling of None \<Rightarrow> None | Some c \<Rightarrow> positive_int (sc_row_stride c))"

definition start_counts :: "int list \<Rightarrow> partition_join_counts \<Rightarrow> partition_join_counts" where
  "start_counts horizons c = c\<lparr>pj_label_available := map (\<lambda>h. (h, 0)) horizons,
     pj_label_unavailable := map (\<lambda>h. (h, 0)) horizons\<rparr>"

text \<open>The loop, the reconciliation and the last batch.\<close>

definition join_streams ::
  "(cell row list \<Rightarrow> 'b option) \<Rightarrow> string \<Rightarrow> int list \<Rightarrow> string \<Rightarrow> int \<Rightarrow> day
     \<Rightarrow> cell row generated \<Rightarrow> pyval row generated \<Rightarrow> ('b join_state, unit) smethod" where
  "join_streams encode split_name horizons primary_name row_stride expected_date features labels =
     bindM (join_rows (join_row encode split_name horizons primary_name row_stride expected_date)
       (fst features) (snd features) (fst labels) (snd labels)) (\<lambda>_.
     bindM (\<lambda>s. if reconciled (jn_counts s) then (Inr (), s) else (fail_code ERR_INVARIANT, s)) (\<lambda>_.
     join_writer (flush_rest encode)))"

text \<open>The batches yielded, the caller's counts afterwards, and how the generator ends.\<close>

definition join_feature_label_batches ::
  "(string \<Rightarrow> day option) \<Rightarrow> (column_field list \<Rightarrow> cell row list \<Rightarrow> 'b option)
     \<Rightarrow> cell table_batch list \<Rightarrow> pyval table_batch list \<Rightarrow> feature_config option \<Rightarrow> label_config option
     \<Rightarrow> sampling_config option \<Rightarrow> partition_config option \<Rightarrow> day \<Rightarrow> partition_join_counts
     \<Rightarrow> 'b list \<times> partition_join_counts \<times> unit result" where
  "join_feature_label_batches fromisoformat encode feature_tables label_tables feature_config label_config
     sampling partitions expected_date counts = (
     case partition_mapping fromisoformat partitions of Inl e \<Rightarrow> ([], counts, Inl e) | Inr mapping \<Rightarrow> (
     case dict_get mapping expected_date of None \<Rightarrow> ([], counts, fail_code ERR_PARTITION) | Some split_name \<Rightarrow> (
     case valid_row_stride sampling of None \<Rightarrow> ([], counts, fail_code ERR_ROW_STRIDE) | Some row_stride \<Rightarrow> (
     case label_horizons label_config of Inl e \<Rightarrow> ([], counts, Inl e) | Inr horizons \<Rightarrow> (
     let counts1 = start_counts horizons counts in
     case feature_schema feature_config of Inl e \<Rightarrow> ([], counts1, Inl e) | Inr feature_fields \<Rightarrow> (
     case label_schema label_config of Inl e \<Rightarrow> ([], counts1, Inl e) | Inr label_fields \<Rightarrow> (
     case label_config of None \<Rightarrow> ([], counts1, fail_code ERR_CONFIG_SCHEMA) | Some c \<Rightarrow> (
     case dataset_schema feature_config c of Inl e \<Rightarrow> ([], counts1, Inl e) | Inr output_schema \<Rightarrow> (
     let primary = (case plain_int (lc_primary_event_horizon c) of None \<Rightarrow> 0 | Some n \<Rightarrow> n) in
     case join_streams (encode output_schema) split_name horizons (label_column primary) row_stride expected_date
            (table_rows feature_fields feature_tables) (table_rows label_fields label_tables)
            \<lparr>jn_counts = counts1, jn_writer = \<lparr>wr_output = [], wr_yielded = []\<rparr>\<rparr> of
       (r, s) \<Rightarrow> (wr_yielded (jn_writer s), jn_counts s, r))))))))))"

end
