(* ===== verification/Label_Properties.thy ===== *)
theory Label_Properties
  imports Labels
begin

text \<open>
  The label generator against its specification: the points of a partition are its rows' indices,
  times and mid prices; the label of a point at a horizon is the move of the mid price to the
  point so many qualifying rows later, and missing when there is none. What the generator buffers
  and when it yields does not show.
\<close>

section \<open>The points of a partition\<close>

type_synonym point = "int \<times> int \<times> int option"

text \<open>A row of the partition within the session, with its index and time.\<close>

definition row_in :: "partition_context \<Rightarrow> pyval row \<Rightarrow> int \<Rightarrow> int \<Rightarrow> bool" where
  "row_in pc row i t \<longleftrightarrow>
     dict_get row ''trading_date'' = Some (PyDate (pc_trading_date pc))
   \<and> dict_get row ''symbol'' = Some (PyStr (pc_symbol pc))
   \<and> dict_get row ''symbol_id'' = Some (PyInt (pc_symbol_id pc))
   \<and> dict_get row ''message_index'' = Some (PyInt i)
   \<and> dict_get row ''timestamp_ns'' = Some (PyInt t)
   \<and> pc_session_start_ns pc \<le> t \<and> t < pc_session_end_ns pc"

text \<open>A complete top of book that is neither locked, crossed nor empty, with twice its mid price.\<close>

definition top_mid2 :: "pyval row \<Rightarrow> int \<Rightarrow> bool" where
  "top_mid2 row mid2 \<longleftrightarrow> (\<exists>bid ask bid_quantity ask_quantity.
     Option.bind (dict_get row ''bid_price4_1'') as_int = Some bid
   \<and> Option.bind (dict_get row ''ask_price4_1'') as_int = Some ask
   \<and> Option.bind (dict_get row ''bid_quantity_1'') as_int = Some bid_quantity
   \<and> Option.bind (dict_get row ''ask_quantity_1'') as_int = Some ask_quantity
   \<and> 0 < bid \<and> bid < ask \<and> 0 < bid_quantity \<and> 0 < ask_quantity \<and> mid2 = bid + ask)"

fun row_point :: "partition_context \<Rightarrow> pyval row \<Rightarrow> point \<Rightarrow> bool" where
  "row_point pc row (i, t, None) \<longleftrightarrow> row_in pc row i t \<and> qualifies row = Inr False"
| "row_point pc row (i, t, Some mid2) \<longleftrightarrow>
     row_in pc row i t \<and> qualifies row = Inr True \<and> top_mid2 row mid2"

definition point_before :: "point \<Rightarrow> point \<Rightarrow> bool" where
  "point_before p q \<longleftrightarrow> fst p < fst q \<and> fst (snd p) \<le> fst (snd q)"

text \<open>The qualifying points, as the generator buffers them.\<close>

fun qualifying_from :: "int \<Rightarrow> point list \<Rightarrow> buffered_row list" where
  "qualifying_from n [] = []"
| "qualifying_from n ((i, t, None) # ps) = qualifying_from n ps"
| "qualifying_from n ((i, t, Some mid2) # ps) =
     \<lparr>br_message_index = i, br_timestamp_ns = t, br_qualifying_ordinal = n, br_mid2 = mid2\<rparr>
       # qualifying_from (n + 1) ps"

definition qualifying :: "point list \<Rightarrow> buffered_row list" where
  "qualifying ps = qualifying_from 0 ps"

text \<open>The labelled row of the \<open>k\<close>th qualifying point.\<close>

definition labelled :: "partition_context \<Rightarrow> int list \<Rightarrow> int \<Rightarrow> buffered_row list \<Rightarrow> nat \<Rightarrow> pyval row" where
  "labelled pc horizons threshold_mid2 qs k =
     [(''trading_date'', PyDate (pc_trading_date pc)),
      (''symbol'', PyStr (pc_symbol pc)),
      (''symbol_id'', PyInt (pc_symbol_id pc)),
      (''message_index'', PyInt (br_message_index (qs ! k))),
      (''timestamp_ns'', PyInt (br_timestamp_ns (qs ! k))),
      (''qualifying_ordinal'', PyInt (br_qualifying_ordinal (qs ! k)))]
     @ map (\<lambda>horizon. (label_column horizon,
         if k + nat horizon < length qs
         then PyInt (label_of (br_mid2 (qs ! (k + nat horizon)) - br_mid2 (qs ! k)) threshold_mid2)
         else PyNone)) horizons"

lemma qualifying_from_append:
  "qualifying_from n (ps @ qs) = qualifying_from n ps @ qualifying_from (n + int (length (qualifying_from n ps))) qs"
  by (induction n ps rule: qualifying_from.induct) (simp_all add: algebra_simps)

lemma qualifying_append:
  "qualifying (ps @ qs) = qualifying ps @ qualifying_from (int (length (qualifying ps))) qs"
  by (simp add: qualifying_def qualifying_from_append)

lemma labelled_row:
  "k < length qs \<Longrightarrow> labelled pc hs th qs k = label_row pc hs th (qs ! k) (drop k qs)"
  by (simp add: labelled_def label_row_def less_diff_conv add.commute)

lemma labelled_append:
  assumes "\<forall>h \<in> set hs. nat h \<le> m" "k + m < length qs"
  shows "labelled pc hs th (qs @ rs) k = labelled pc hs th qs k"
proof -
  have "k + nat h < length qs" "k + nat h < length qs + length rs" if "h \<in> set hs" for h
    using assms that by fastforce+
  then show ?thesis using assms(2) by (simp add: labelled_def nth_append)
qed

section \<open>The checks of a row\<close>

definition after_point :: "int option \<Rightarrow> int option \<Rightarrow> int \<Rightarrow> int \<Rightarrow> bool" where
  "after_point previous_index previous_timestamp i t \<longleftrightarrow>
     (case previous_index of None \<Rightarrow> True | Some p \<Rightarrow> p < i)
   \<and> (case previous_timestamp of None \<Rightarrow> True | Some p \<Rightarrow> p \<le> t)"

lemma check_label_row_iff:
  "check_label_row pc pi pt row = Inr (i, t) \<longleftrightarrow> row_in pc row i t \<and> after_point pi pt i t"
proof (cases "dict_get row ''trading_date'' = Some (PyDate (pc_trading_date pc))
    \<and> dict_get row ''symbol'' = Some (PyStr (pc_symbol pc))
    \<and> dict_get row ''symbol_id'' = Some (PyInt (pc_symbol_id pc))")
  case True
  then show ?thesis
    by (cases "dict_get row ''message_index''"; cases "dict_get row ''timestamp_ns''")
      (auto simp: check_label_row_def row_in_def item_def bindR_eq_Inr require_eq_Inr plain_int_iff
        after_point_def not_le not_less split: option.splits)
next
  case False
  then show ?thesis by (auto simp: check_label_row_def row_in_def)
qed

lemma check_label_top_iff: "check_label_top i row = Inr mid2 \<longleftrightarrow> top_mid2 row mid2"
  by (cases "dict_get row ''bid_price4_1''"; cases "dict_get row ''ask_price4_1''";
      cases "dict_get row ''bid_quantity_1''"; cases "dict_get row ''ask_quantity_1''")
    (auto simp: check_label_top_def top_mid2_def item_def bindR_eq_Inr require_eq_Inr not_le
      split: option.splits)

section \<open>The state of the generator\<close>

text \<open>
  After the rows of the points \<open>ps\<close>, with \<open>m\<close> the longest horizon: the last \<open>m\<close> qualifying
  points are buffered and the rows of the others written.
\<close>

definition label_inv ::
  "(pyval row list \<Rightarrow> 'b option) \<Rightarrow> partition_context \<Rightarrow> int list \<Rightarrow> int \<Rightarrow> nat \<Rightarrow> point list
     \<Rightarrow> 'b label_state \<Rightarrow> bool" where
  "label_inv encode pc hs th m ps s \<longleftrightarrow> (let qs = qualifying ps; k = length qs - m in
     ls_buffer s = drop k qs
   \<and> ls_qualifying_ordinal s = int (length qs) - 1
   \<and> ls_previous_index s = (if ps = [] then None else Some (fst (last ps)))
   \<and> ls_previous_timestamp s = (if ps = [] then None else Some (fst (snd (last ps))))
   \<and> wrote encode (map (labelled pc hs th qs) [0..<k]) (ls_writer s))"

lemma label_inv_start: "label_inv encode pc hs th m [] new_label_state"
  by (simp add: label_inv_def new_label_state_def qualifying_def wrote_start)

lemma on_writer_eq:
  "on_writer f s = (r, s') \<longleftrightarrow> (\<exists>w. f (ls_writer s) = (r, w) \<and> s' = s\<lparr>ls_writer := w\<rparr>)"
  by (auto simp: on_writer_def split: prod.splits)

text \<open>Emitting the oldest row and flushing is one push of its labelled row.\<close>

lemma emit_and_flush:
  "bindM (emit_oldest pc hs th) (\<lambda>_. on_writer (flush_full encode)) s = (r, s') \<longleftrightarrow>
     (\<exists>w. push_row encode (label_row pc hs th (hd (ls_buffer s)) (ls_buffer s)) (ls_writer s) = (r, w)
        \<and> s' = s\<lparr>ls_buffer := tl (ls_buffer s), ls_writer := w\<rparr>)"
  by (auto simp: emit_oldest_def on_writer_def bindM_def push_row_def append_output_def Let_def
      split: prod.splits sum.splits)

lemma flush_idle_state: "wrote encode rows (ls_writer s) \<Longrightarrow> on_writer (flush_full encode) s = (Inr (), s)"
  by (simp add: on_writer_def flush_idle)

text \<open>What one point does to the state, given that its row passes the checks.\<close>

definition entry_of :: "int \<Rightarrow> int \<Rightarrow> int \<Rightarrow> int \<Rightarrow> buffered_row" where
  "entry_of n i t mid2 = \<lparr>br_message_index = i, br_timestamp_ns = t, br_qualifying_ordinal = n, br_mid2 = mid2\<rparr>"

definition at_row :: "int \<Rightarrow> int \<Rightarrow> 'b label_state \<Rightarrow> 'b label_state" where
  "at_row i t s = s\<lparr>ls_previous_index := Some i, ls_previous_timestamp := Some t\<rparr>"

definition buffered :: "int \<Rightarrow> int \<Rightarrow> int \<Rightarrow> 'b label_state \<Rightarrow> 'b label_state" where
  "buffered i t mid2 s = s\<lparr>ls_previous_index := Some i, ls_previous_timestamp := Some t,
     ls_qualifying_ordinal := ls_qualifying_ordinal s + 1,
     ls_buffer := ls_buffer s @ [entry_of (ls_qualifying_ordinal s + 1) i t mid2]\<rparr>"

lemma label_step_eq:
  "label_step encode pc hs th row s = (Inr u, s') \<longleftrightarrow> (\<exists>i t.
     row_in pc row i t \<and> after_point (ls_previous_index s) (ls_previous_timestamp s) i t
   \<and> (qualifies row = Inr False \<and> s' = at_row i t s
      \<or> qualifies row = Inr True \<and> (\<exists>mid2. top_mid2 row mid2
          \<and> bindM (if int (length (ls_buffer s) + 1) > Max (set hs) then emit_oldest pc hs th else returnM ())
              (\<lambda>_. on_writer (flush_full encode)) (buffered i t mid2 s) = (Inr u, s'))))"
proof (cases "check_label_row pc (ls_previous_index s) (ls_previous_timestamp s) row")
  case (Inl e)
  then have "\<not> (row_in pc row i t \<and> after_point (ls_previous_index s) (ls_previous_timestamp s) i t)" for i t
    using check_label_row_iff by (metis sum.distinct(1))
  then show ?thesis using Inl by (auto simp: label_step_def)
next
  case (Inr it)
  obtain i t where it: "it = (i, t)" by (cases it)
  have checked: "row_in pc row i' t' \<and> after_point (ls_previous_index s) (ls_previous_timestamp s) i' t'
      \<longleftrightarrow> i' = i \<and> t' = t" for i' t'
    unfolding check_label_row_iff [symmetric] Inr it by auto
  have step: "label_step encode pc hs th row s = (Inr u, s') \<longleftrightarrow>
      (qualifies row = Inr False \<and> s' = at_row i t s
      \<or> qualifies row = Inr True \<and> (\<exists>mid2. top_mid2 row mid2
          \<and> bindM (if int (length (ls_buffer s) + 1) > Max (set hs) then emit_oldest pc hs th else returnM ())
              (\<lambda>_. on_writer (flush_full encode)) (buffered i t mid2 s) = (Inr u, s')))"
    unfolding check_label_top_iff [of i, symmetric]
    by (auto simp: label_step_def Inr it Let_def at_row_def buffered_def entry_of_def
        split: sum.splits bool.splits)
  have one: "(\<exists>i' t'. row_in pc row i' t' \<and> after_point (ls_previous_index s) (ls_previous_timestamp s) i' t'
      \<and> P i' t') \<longleftrightarrow> P i t" for P
    using checked by metis
  show ?thesis unfolding step one ..
qed

lemma labelled_kept:
  assumes "\<forall>h \<in> set hs. nat h \<le> m"
  shows "map (labelled pc hs th (qs @ rs)) [0..<length qs - m] = map (labelled pc hs th qs) [0..<length qs - m]"
  using labelled_append [OF assms] by simp

lemma after_point_last:
  "after_point (if ps = [] then None else Some (fst (last ps)))
      (if ps = [] then None else Some (fst (snd (last ps)))) i t
    \<longleftrightarrow> ps = [] \<or> point_before (last ps) (i, t, x)"
  by (auto simp: after_point_def point_before_def)

text \<open>The state after a qualifying point has been buffered, whether a row is emitted or not.\<close>

lemma buffered_step:
  assumes hs: "hs \<noteq> []" "\<forall>h \<in> set hs. 0 < h" and m: "m = nat (Max (set hs))"
    and inv: "label_inv encode pc hs th m ps s"
    and run: "bindM (if int (length (ls_buffer s) + 1) > Max (set hs) then emit_oldest pc hs th else returnM ())
              (\<lambda>_. on_writer (flush_full encode)) (buffered i t mid2 s) = (r, s')"
  shows "r = Inr u \<Longrightarrow> label_inv encode pc hs th m (ps @ [(i, t, Some mid2)]) s'"
    and "r = Inl e \<Longrightarrow> \<not> encodes encode (map (labelled pc hs th (qualifying (ps @ (i, t, Some mid2) # rs)))
           [0..<length (qualifying (ps @ (i, t, Some mid2) # rs))])"
proof -
  define qs where "qs = qualifying ps"
  define q where "q = entry_of (int (length qs)) i t mid2"
  have qs': "qualifying (ps @ [(i, t, Some mid2)]) = qs @ [q]"
    by (simp add: qualifying_append qs_def q_def entry_of_def)
  define tl where "tl = qualifying_from (int (length qs) + 1) rs"
  have final: "qualifying (ps @ (i, t, Some mid2) # rs) = (qs @ [q]) @ tl"
    by (simp add: qualifying_append qs_def q_def entry_of_def tl_def)
  have horizon: "\<forall>h \<in> set hs. nat h \<le> m"
    unfolding m by (intro ballI nat_mono Max_ge) simp_all
  have "Max (set hs) \<in> set hs" using hs(1) by (intro Max_in) simp_all
  then have pos: "0 < Max (set hs)" using hs(2) by blast
  define k where "k = length qs - m"
  have s: "ls_buffer s = drop k qs" "ls_qualifying_ordinal s = int (length qs) - 1"
    "wrote encode (map (labelled pc hs th qs) [0..<k]) (ls_writer s)"
    using inv by (simp_all add: label_inv_def Let_def qs_def k_def)
  let ?b = "buffered i t mid2 s"
  have b: "ls_buffer ?b = drop k qs @ [q]" "ls_writer ?b = ls_writer s"
    "ls_qualifying_ordinal ?b = int (length (qs @ [q])) - 1"
    "ls_previous_index ?b = Some i" "ls_previous_timestamp ?b = Some t"
    using s by (simp_all add: buffered_def q_def)
  have inv': "label_inv encode pc hs th m (ps @ [(i, t, Some mid2)]) s' \<longleftrightarrow>
      ls_buffer s' = drop (length (qs @ [q]) - m) (qs @ [q])
    \<and> ls_qualifying_ordinal s' = int (length (qs @ [q])) - 1
    \<and> ls_previous_index s' = Some i \<and> ls_previous_timestamp s' = Some t
    \<and> wrote encode (map (labelled pc hs th (qs @ [q])) [0..<length (qs @ [q]) - m]) (ls_writer s')"
    unfolding label_inv_def qs' Let_def by simp
  have "(r = Inr u \<longrightarrow> label_inv encode pc hs th m (ps @ [(i, t, Some mid2)]) s')
      \<and> (r = Inl e \<longrightarrow> \<not> encodes encode (map (labelled pc hs th ((qs @ [q]) @ tl)) [0..<length ((qs @ [q]) @ tl)]))"
  proof (cases "int (length (ls_buffer s) + 1) > Max (set hs)")
    case True
    then have full: "m \<le> length qs" "length (qs @ [q]) - m = Suc k"
      using pos by (auto simp: s(1) k_def m)
    have k: "k < length (qs @ [q])" "ls_buffer ?b = drop k (qs @ [q])"
      using full by (simp_all add: b k_def)
    have row: "label_row pc hs th (hd (ls_buffer ?b)) (ls_buffer ?b) = labelled pc hs th (qs @ [q]) k"
      unfolding k(2) by (simp only: labelled_row hd_drop_conv_nth k(1))
    have rows: "map (labelled pc hs th qs) [0..<k] = map (labelled pc hs th (qs @ [q])) [0..<k]"
      unfolding k_def by (rule labelled_kept [OF horizon, symmetric])
    have wrote: "wrote encode (map (labelled pc hs th (qs @ [q])) [0..<k]) (ls_writer ?b)"
      using s(3) rows b(2) by simp
    have "bindM (emit_oldest pc hs th) (\<lambda>_. on_writer (flush_full encode)) ?b = (r, s')"
      using run True by simp
    then obtain w where w: "push_row encode (labelled pc hs th (qs @ [q]) k) (ls_writer ?b) = (r, w)"
      "s' = ?b\<lparr>ls_buffer := List.tl (ls_buffer ?b), ls_writer := w\<rparr>"
      unfolding emit_and_flush row by blast
    have "label_inv encode pc hs th m (ps @ [(i, t, Some mid2)]) s'" if "r = Inr u"
    proof -
      have "wrote encode (map (labelled pc hs th (qs @ [q])) [0..<k] @ [labelled pc hs th (qs @ [q]) k]) w"
        using push_row_Inr [OF wrote] w(1) that by simp
      then show ?thesis
        unfolding inv' full(2) unfolding w(2)
        by (simp del: drop_append add: b(3-5) k(2) drop_Suc tl_drop)
    qed
    moreover have False if "r = Inl e"
      "encodes encode (map (labelled pc hs th ((qs @ [q]) @ tl)) [0..<length ((qs @ [q]) @ tl)])"
    proof -
      have "map (labelled pc hs th ((qs @ [q]) @ tl)) [0..<Suc k] = map (labelled pc hs th (qs @ [q])) [0..<Suc k]"
        unfolding full(2) [symmetric] by (rule labelled_kept [OF horizon])
      moreover have "[0..<length ((qs @ [q]) @ tl)] = [0..<Suc k] @ [Suc k..<length ((qs @ [q]) @ tl)]"
        using k(1) upt_add_eq_append [of 0 "Suc k" "length ((qs @ [q]) @ tl) - Suc k"] by simp
      ultimately have "encodes encode (map (labelled pc hs th (qs @ [q])) [0..<k]
          @ labelled pc hs th (qs @ [q]) k # map (labelled pc hs th ((qs @ [q]) @ tl)) [Suc k..<length ((qs @ [q]) @ tl)])"
        using that(2) by (simp only: map_append) simp
      then show False using push_row_ok [OF wrote] w(1) that(1) by (metis prod.inject sum.distinct(1))
    qed
    ultimately show ?thesis by blast
  next
    case False
    then have few: "length qs < m" "k = 0" "length (qs @ [q]) - m = 0"
      using pos by (auto simp: s(1) k_def m)
    then have "wrote encode [] (ls_writer ?b)" using s(3) b(2) by simp
    from flush_idle_state [OF this] have "r = Inr ()" "s' = ?b"
      using run False by (simp_all add: bindM_def)
    then show ?thesis unfolding inv' few(3) using s(3) few b by simp
  qed
  then show "r = Inr u \<Longrightarrow> label_inv encode pc hs th m (ps @ [(i, t, Some mid2)]) s'"
    and "r = Inl e \<Longrightarrow> \<not> encodes encode (map (labelled pc hs th (qualifying (ps @ (i, t, Some mid2) # rs)))
           [0..<length (qualifying (ps @ (i, t, Some mid2) # rs))])"
    unfolding final by blast+
qed

definition label_rows ::
  "partition_context \<Rightarrow> int list \<Rightarrow> int \<Rightarrow> point list \<Rightarrow> pyval row list" where
  "label_rows pc hs th ps = map (labelled pc hs th (qualifying ps)) [0..<length (qualifying ps)]"

text \<open>One row: it succeeds on a point in order, unless its output cannot be encoded.\<close>

lemma label_step_Inr:
  assumes hs: "hs \<noteq> []" "\<forall>h \<in> set hs. 0 < h" and m: "m = nat (Max (set hs))"
    and inv: "label_inv encode pc hs th m ps s" and step: "label_step encode pc hs th row s = (Inr u, s')"
  obtains p where "row_point pc row p" "ps = [] \<or> point_before (last ps) p" "label_inv encode pc hs th m (ps @ [p]) s'"
proof -
  have prev: "ls_previous_index s = (if ps = [] then None else Some (fst (last ps)))"
    "ls_previous_timestamp s = (if ps = [] then None else Some (fst (snd (last ps))))"
    using inv by (simp_all add: label_inv_def Let_def)
  obtain i t where row: "row_in pc row i t"
    and after: "after_point (if ps = [] then None else Some (fst (last ps)))
      (if ps = [] then None else Some (fst (snd (last ps)))) i t"
    and cases: "qualifies row = Inr False \<and> s' = at_row i t s
      \<or> qualifies row = Inr True \<and> (\<exists>mid2. top_mid2 row mid2
          \<and> bindM (if int (length (ls_buffer s) + 1) > Max (set hs) then emit_oldest pc hs th else returnM ())
              (\<lambda>_. on_writer (flush_full encode)) (buffered i t mid2 s) = (Inr u, s'))"
    using step unfolding label_step_eq prev by blast
  have it: "row_in pc row i t" "ps = [] \<or> point_before (last ps) (i, t, x)" for x
    using row after after_point_last by blast+
  from cases show ?thesis
  proof (elim disjE conjE exE)
    assume "qualifies row = Inr False" and s': "s' = at_row i t s"
    moreover have "label_inv encode pc hs th m (ps @ [(i, t, None)]) s'"
      using inv unfolding s' by (simp add: label_inv_def Let_def at_row_def qualifying_append)
    ultimately show ?thesis using that [of "(i, t, None)"] it by simp
  next
    fix mid2 assume q: "qualifies row = Inr True" "top_mid2 row mid2"
      and run: "bindM (if int (length (ls_buffer s) + 1) > Max (set hs) then emit_oldest pc hs th else returnM ())
              (\<lambda>_. on_writer (flush_full encode)) (buffered i t mid2 s) = (Inr u, s')"
    show ?thesis using that [of "(i, t, Some mid2)"] it q buffered_step(1) [OF hs m inv run refl] by simp
  qed
qed

lemma label_step_ok:
  assumes hs: "hs \<noteq> []" "\<forall>h \<in> set hs. 0 < h" and m: "m = nat (Max (set hs))"
    and inv: "label_inv encode pc hs th m ps s" and p: "row_point pc row p" "ps = [] \<or> point_before (last ps) p"
    and enc: "encodes encode (label_rows pc hs th (ps @ p # rs))"
  obtains s' where "label_step encode pc hs th row s = (Inr (), s')" "label_inv encode pc hs th m (ps @ [p]) s'"
proof -
  have prev: "ls_previous_index s = (if ps = [] then None else Some (fst (last ps)))"
    "ls_previous_timestamp s = (if ps = [] then None else Some (fst (snd (last ps))))"
    using inv by (simp_all add: label_inv_def Let_def)
  obtain i t x where px: "p = (i, t, x)" by (cases p)
  have it: "row_in pc row i t" "after_point (ls_previous_index s) (ls_previous_timestamp s) i t"
  proof -
    show "row_in pc row i t" using p(1) px by (cases x) simp_all
    show "after_point (ls_previous_index s) (ls_previous_timestamp s) i t"
      unfolding prev using p(2) px after_point_last [of ps i t x] by blast
  qed
  show ?thesis
  proof (cases x)
    case None
    then have "label_step encode pc hs th row s = (Inr (), at_row i t s)"
      using p(1) it px unfolding label_step_eq by auto
    moreover have "label_inv encode pc hs th m (ps @ [p]) (at_row i t s)"
      using inv by (simp add: px None label_inv_def Let_def at_row_def qualifying_append)
    ultimately show ?thesis by (rule that)
  next
    case (Some mid2)
    obtain r s' where run: "bindM (if int (length (ls_buffer s) + 1) > Max (set hs) then emit_oldest pc hs th else returnM ())
              (\<lambda>_. on_writer (flush_full encode)) (buffered i t mid2 s) = (r, s')"
      by fastforce
    note b = buffered_step [OF hs m inv run]
    have "\<exists>u. r = Inr u" using b(2) enc px Some unfolding label_rows_def by (cases r) blast+
    then have r: "r = Inr ()" by simp
    have "label_step encode pc hs th row s = (Inr (), s')"
      using p(1) it run unfolding label_step_eq r px Some row_point.simps by blast
    then show ?thesis using that b(1) [OF r] px Some by simp
  qed
qed

lemma point_before_trans: "transp point_before"
  by (auto simp: transp_def point_before_def)

lemma points_snoc:
  "sorted_wrt point_before (ps @ [p]) \<longleftrightarrow> sorted_wrt point_before ps \<and> (ps = [] \<or> point_before (last ps) p)"
proof (cases ps rule: rev_cases)
  case (snoc qs q)
  then show ?thesis by (auto simp: sorted_wrt_append point_before_def)
qed simp

lemma label_loop_Inr:
  assumes hs: "hs \<noteq> []" "\<forall>h \<in> set hs. 0 < h" and m: "m = nat (Max (set hs))"
    and inv: "label_inv encode pc hs th m ps s" "sorted_wrt point_before ps"
    and run: "forM (label_step encode pc hs th) rows s = (Inr us, s')"
  shows "\<exists>qs. list_all2 (row_point pc) rows qs \<and> sorted_wrt point_before (ps @ qs)
    \<and> label_inv encode pc hs th m (ps @ qs) s'"
  using inv run
proof (induction rows arbitrary: ps s us)
  case Nil
  then show ?case by simp
next
  case (Cons row rows)
  obtain u vs t where step: "label_step encode pc hs th row s = (Inr u, t)"
    and rest: "forM (label_step encode pc hs th) rows t = (Inr vs, s')"
    using Cons.prems(3) unfolding forM_Cons_Inr by blast
  obtain p where p: "row_point pc row p" "ps = [] \<or> point_before (last ps) p" "label_inv encode pc hs th m (ps @ [p]) t"
    by (rule label_step_Inr [OF hs m Cons.prems(1) step])
  have "sorted_wrt point_before (ps @ [p])" using p(2) Cons.prems(2) points_snoc by blast
  from Cons.IH [OF p(3) this rest] obtain qs where "list_all2 (row_point pc) rows qs"
    "sorted_wrt point_before ((ps @ [p]) @ qs)" "label_inv encode pc hs th m ((ps @ [p]) @ qs) s'" by blast
  then show ?case using p(1) by (intro exI [of _ "p # qs"]) simp
qed

lemma label_loop_ok:
  assumes hs: "hs \<noteq> []" "\<forall>h \<in> set hs. 0 < h" and m: "m = nat (Max (set hs))"
    and inv: "label_inv encode pc hs th m ps s"
    and points: "list_all2 (row_point pc) rows qs" "sorted_wrt point_before (ps @ qs)"
    and enc: "encodes encode (label_rows pc hs th (ps @ qs))"
  shows "\<exists>us s'. forM (label_step encode pc hs th) rows s = (Inr us, s') \<and> label_inv encode pc hs th m (ps @ qs) s'"
  using inv points enc
proof (induction rows arbitrary: ps s qs)
  case Nil
  then show ?case by simp
next
  case (Cons row rows)
  obtain q rs where qs: "qs = q # rs" "row_point pc row q" "list_all2 (row_point pc) rows rs"
    using Cons.prems(2) by (auto simp: list_all2_Cons1)
  have sorted: "sorted_wrt point_before ((ps @ [q]) @ rs)" using Cons.prems(3) qs(1) by simp
  then have "ps = [] \<or> point_before (last ps) q" using points_snoc by (metis sorted_wrt_append)
  then obtain t where t: "label_step encode pc hs th row s = (Inr (), t)" "label_inv encode pc hs th m (ps @ [q]) t"
    using label_step_ok [OF hs m Cons.prems(1) qs(2)] Cons.prems(4) qs(1) by metis
  have "encodes encode (label_rows pc hs th ((ps @ [q]) @ rs))" using Cons.prems(4) qs(1) by simp
  from Cons.IH [OF t(2) qs(3) sorted this] t(1) show ?case by (auto simp: qs(1))
qed

text \<open>The rest: every buffered row is written, in order.\<close>

lemma drain_iff:
  assumes "ls_buffer s = drop k qs" "k \<le> length qs"
    and "wrote encode (map (labelled pc hs th qs) [0..<k]) (ls_writer s)"
  shows "drain encode pc hs th (length qs - k) s = (Inr u, s') \<Longrightarrow>
      wrote encode (map (labelled pc hs th qs) [0..<length qs]) (ls_writer s')"
    and "encodes encode (map (labelled pc hs th qs) [0..<length qs]) \<Longrightarrow>
      \<exists>s'. drain encode pc hs th (length qs - k) s = (Inr (), s')"
proof -
  define n where "n = length qs - k"
  have "(drain encode pc hs th n s = (Inr u, s') \<longrightarrow>
      wrote encode (map (labelled pc hs th qs) [0..<length qs]) (ls_writer s'))
    \<and> (encodes encode (map (labelled pc hs th qs) [0..<length qs]) \<longrightarrow> (\<exists>s'. drain encode pc hs th n s = (Inr (), s')))"
    using assms n_def
  proof (induction n arbitrary: s k)
    case 0
    then have "k = length qs" by simp
    then show ?case using 0 by auto
  next
    case (Suc n)
    have k: "k < length qs" using Suc.prems(4) by simp
    have row: "label_row pc hs th (hd (ls_buffer s)) (ls_buffer s) = labelled pc hs th qs k"
      unfolding Suc.prems(1) by (simp only: labelled_row hd_drop_conv_nth k)
    obtain r t where emit: "bindM (emit_oldest pc hs th) (\<lambda>_. on_writer (flush_full encode)) s = (r, t)"
      by fastforce
    then obtain w where w: "push_row encode (labelled pc hs th qs k) (ls_writer s) = (r, w)"
      "t = s\<lparr>ls_buffer := tl (ls_buffer s), ls_writer := w\<rparr>"
      unfolding emit_and_flush row by blast
    have step: "drain encode pc hs th (Suc n) s
        = (case r of Inl e \<Rightarrow> (Inl e, t) | Inr _ \<Rightarrow> drain encode pc hs th n t)"
      using emit by (auto simp: bindM_def split: sum.splits prod.splits)
    have rows: "map (labelled pc hs th qs) [0..<length qs] = map (labelled pc hs th qs) [0..<k]
        @ labelled pc hs th qs k # map (labelled pc hs th qs) [Suc k..<length qs]"
      using k upt_add_eq_append [of 0 k "length qs - k"] by (simp add: upt_conv_Cons)
    show ?case
    proof (cases r)
      case (Inl e)
      have "\<not> encodes encode (map (labelled pc hs th qs) [0..<length qs])"
        unfolding rows using push_row_ok [OF Suc.prems(3)] w(1) Inl by (metis prod.inject sum.distinct(1))
      then show ?thesis using step Inl by simp
    next
      case (Inr v)
      have "wrote encode (map (labelled pc hs th qs) [0..<Suc k]) w"
        using push_row_Inr [OF Suc.prems(3)] w(1) Inr by simp
      moreover have "ls_buffer t = drop (Suc k) qs" using w(2) Suc.prems(1) by (simp add: drop_Suc tl_drop)
      moreover have "Suc k \<le> length qs" "n = length qs - Suc k" "ls_writer t = w"
        using k Suc.prems(4) w(2) by simp_all
      ultimately show ?thesis
        using Suc.IH [of t "Suc k"] unfolding step Inr by simp
    qed
  qed
  then show "drain encode pc hs th (length qs - k) s = (Inr u, s') \<Longrightarrow>
      wrote encode (map (labelled pc hs th qs) [0..<length qs]) (ls_writer s')"
    and "encodes encode (map (labelled pc hs th qs) [0..<length qs]) \<Longrightarrow>
      \<exists>s'. drain encode pc hs th (length qs - k) s = (Inr (), s')"
    unfolding n_def by blast+
qed

lemma yielded_encodes: "map encode (chunks_of OUTPUT_BATCH_ROWS rows) = map Some ys \<Longrightarrow> encodes encode rows"
  unfolding encodes_def by (metis (no_types) imageE image_eqI list.set_map option.distinct(1))

lemma encodes_yielded: "encodes encode rows \<Longrightarrow> \<exists>ys. map encode (chunks_of OUTPUT_BATCH_ROWS rows) = map Some ys"
  unfolding encodes_def
  by (intro exI [of _ "map (the \<circ> encode) (chunks_of OUTPUT_BATCH_ROWS rows)"]) auto

text \<open>The whole generator, from the rows of its batches.\<close>

lemma label_batches_iff:
  assumes hs: "hs \<noteq> []" "\<forall>h \<in> set hs. 0 < h"
  shows "(\<exists>s'. label_batches encode pc hs th (rows, end) new_label_state = (Inr (), s')
        \<and> wr_yielded (ls_writer s') = ys)
    \<longleftrightarrow> end = None \<and> (\<exists>ps. list_all2 (row_point pc) rows ps \<and> sorted_wrt point_before ps
        \<and> map encode (chunks_of OUTPUT_BATCH_ROWS (label_rows pc hs th ps)) = map Some ys)"
  (is "?L \<longleftrightarrow> ?R")
proof -
  define m where "m = nat (Max (set hs))"
  note loop = label_loop_Inr [OF hs m_def label_inv_start, of encode pc th]
  have finish: "(\<exists>s'. bindM (\<lambda>s. drain encode pc hs th (length (ls_buffer s)) s) (\<lambda>_. on_writer (flush_rest encode)) s
        = (Inr (), s') \<and> wr_yielded (ls_writer s') = ys)
      \<longleftrightarrow> map encode (chunks_of OUTPUT_BATCH_ROWS (label_rows pc hs th ps)) = map Some ys"
    if inv: "label_inv encode pc hs th m ps s" for s ps
  proof -
    define qs where "qs = qualifying ps"
    have s: "ls_buffer s = drop (length qs - m) qs"
      "wrote encode (map (labelled pc hs th qs) [0..<length qs - m]) (ls_writer s)"
      using inv by (simp_all add: label_inv_def Let_def qs_def)
    have n: "length (ls_buffer s) = length qs - (length qs - m)" using s(1) by simp
    note drained = drain_iff [OF s(1) diff_le_self s(2)]
    have rows: "label_rows pc hs th ps = map (labelled pc hs th qs) [0..<length qs]"
      by (simp add: label_rows_def qs_def)
    show ?thesis
    proof
      assume "\<exists>s'. bindM (\<lambda>s. drain encode pc hs th (length (ls_buffer s)) s) (\<lambda>_. on_writer (flush_rest encode)) s
        = (Inr (), s') \<and> wr_yielded (ls_writer s') = ys"
      then obtain t s' w where "drain encode pc hs th (length qs - (length qs - m)) s = (Inr (), t)"
        "flush_rest encode (ls_writer t) = (Inr (), w)" "s' = t\<lparr>ls_writer := w\<rparr>" "wr_yielded (ls_writer s') = ys"
        unfolding bindM_Inr on_writer_eq n by auto
      then show "map encode (chunks_of OUTPUT_BATCH_ROWS (label_rows pc hs th ps)) = map Some ys"
        unfolding rows using drained(1) flush_rest_iff by fastforce
    next
      assume R: "map encode (chunks_of OUTPUT_BATCH_ROWS (label_rows pc hs th ps)) = map Some ys"
      then obtain t where t: "drain encode pc hs th (length qs - (length qs - m)) s = (Inr (), t)"
        using drained(2) yielded_encodes unfolding rows by blast
      let ?w = "(ls_writer t)\<lparr>wr_yielded := ys\<rparr>"
      have "flush_rest encode (ls_writer t) = (Inr (), ?w)"
        unfolding flush_rest_iff [OF drained(1) [OF t]] using R rows by simp
      then show "\<exists>s'. bindM (\<lambda>s. drain encode pc hs th (length (ls_buffer s)) s) (\<lambda>_. on_writer (flush_rest encode)) s
        = (Inr (), s') \<and> wr_yielded (ls_writer s') = ys"
        using t unfolding bindM_Inr on_writer_eq n
        by (intro exI [of _ "t\<lparr>ls_writer := ?w\<rparr>"]) simp
    qed
  qed
  show ?thesis
  proof
    assume ?L
    then obtain s' us s where run: "forM (label_step encode pc hs th) rows new_label_state = (Inr us, s)"
      and "end": "end = None"
      and fin: "bindM (\<lambda>s. drain encode pc hs th (length (ls_buffer s)) s) (\<lambda>_. on_writer (flush_rest encode)) s
        = (Inr (), s')" "wr_yielded (ls_writer s') = ys"
      unfolding label_batches_def fst_conv snd_conv bindM_Inr [of "forM _ _"]
      by (cases "end") (auto simp: bindM_def)
    obtain ps where ps: "list_all2 (row_point pc) rows ps" "sorted_wrt point_before ps" "label_inv encode pc hs th m ps s"
      using loop [OF _ run] by auto
    then show ?R using finish [OF ps(3)] fin "end" by blast
  next
    assume ?R
    then obtain ps where "end": "end = None" and ps: "list_all2 (row_point pc) rows ps" "sorted_wrt point_before ps"
      and ys: "map encode (chunks_of OUTPUT_BATCH_ROWS (label_rows pc hs th ps)) = map Some ys" by blast
    obtain us s where run: "forM (label_step encode pc hs th) rows new_label_state = (Inr us, s)"
      "label_inv encode pc hs th m ps s"
      using label_loop_ok [OF hs m_def label_inv_start ps(1), of encode th] ps(2) yielded_encodes [OF ys] by auto
    obtain s' where "bindM (\<lambda>s. drain encode pc hs th (length (ls_buffer s)) s) (\<lambda>_. on_writer (flush_rest encode)) s
        = (Inr (), s')" "wr_yielded (ls_writer s') = ys"
      using finish [OF run(2)] ys by blast
    then show ?L
      unfolding label_batches_def using run(1) "end" by (simp add: bindM_def)
  qed
qed

section \<open>Properties\<close>

lemma label_horizons_Inr:
  assumes "label_horizons config = Inr hs"
  obtains c n where "config = Some c" "lc_flat_threshold_ticks c = PyInt n" "hs \<noteq> []" "\<forall>h \<in> set hs. 0 < h"
proof -
  obtain c xs n where c: "config = Some c" "lc_flat_threshold_ticks c = PyInt n"
    and xs: "those (map positive_int (lc_primary_event_horizon c # lc_secondary_event_horizons c)) = Some xs"
    "hs = sort xs"
    using assms
    by (auto simp: label_horizons_def bindR_eq_Inr require_eq_Inr plain_int_iff simp del: list.map
        split: option.splits)
  have those: "those (map positive_int vs) = Some ys \<Longrightarrow> length ys = length vs \<and> (\<forall>y \<in> set ys. 0 < y)" for vs ys
    by (induction vs arbitrary: ys) (auto simp: positive_int_def split: option.splits if_splits)
  have "hs \<noteq> []" "\<forall>h \<in> set hs. 0 < h"
    using those [OF xs(1)] xs(2) by (auto dest!: arg_cong [where f = length])
  then show ?thesis using c that by blast
qed

text \<open>
  C26: The label generator is exact. It completes with the given batches if and only if the
  configuration and context are valid; the input is snapshot batches of one depth; every row is of
  the partition and in the session, with strictly increasing indices and times that do not
  decrease; every qualifying row has an uncrossed, non-empty top of book; and the batches are the
  encodings, 65,536 rows each but the last, of one labelled row per qualifying row, in order. The
  label at a horizon is the sign of the mid-price move beyond the threshold to the qualifying row
  that many places later, and missing when the partition ends first.
\<close>

theorem labels_exact:
  "build_label_batches encode snapshots config context = (yielded, Inr ()) \<longleftrightarrow>
    (\<exists>c horizons pc schema ticks rows points.
       config = Some c \<and> label_horizons config = Inr horizons \<and> lc_flat_threshold_ticks c = PyInt ticks
     \<and> validate_label_context context = Inr pc \<and> label_schema config = Inr schema
     \<and> snapshot_rows None snapshots = (rows, None)
     \<and> list_all2 (row_point pc) rows points \<and> sorted_wrt point_before points
     \<and> map (encode schema) (chunks_of OUTPUT_BATCH_ROWS
         (label_rows pc horizons (2 * pc_tick_size4 pc * ticks) points)) = map Some yielded)"
proof (cases "\<exists>horizons pc. label_horizons config = Inr horizons \<and> validate_label_context context = Inr pc")
  case True
  then obtain horizons pc where h: "label_horizons config = Inr horizons" and pc: "validate_label_context context = Inr pc"
    by blast
  obtain c ticks where c: "config = Some c" "lc_flat_threshold_ticks c = PyInt ticks"
    and hs: "horizons \<noteq> []" "\<forall>h \<in> set horizons. 0 < h"
    by (rule label_horizons_Inr [OF h]) blast
  obtain schema where schema: "label_schema config = Inr schema" using h by (simp add: label_schema_def)
  obtain rows "end" where rows: "snapshot_rows None snapshots = (rows, end)" by fastforce
  have "build_label_batches encode snapshots config context = (yielded, Inr ()) \<longleftrightarrow>
      (\<exists>s'. label_batches (encode schema) pc horizons (2 * pc_tick_size4 pc * ticks) (rows, end) new_label_state
          = (Inr (), s') \<and> wr_yielded (ls_writer s') = yielded)"
    using h pc c schema rows
    by (auto simp: build_label_batches_def Let_def split: prod.splits)
  also note label_batches_iff [OF hs]
  finally show ?thesis using h pc c schema rows by simp
next
  case False
  then show ?thesis
    by (auto simp: build_label_batches_def split: sum.splits)
qed

definition sample_context :: feature_partition_context where
  "sample_context = \<lparr>fc_trading_date = PyDate (2019, 12, 30), fc_symbol = PyStr ''AAPL'', fc_symbol_id = PyInt 7,
     fc_tick_size4 = PyInt 100, fc_session_start_ns = PyInt 0, fc_session_end_ns = PyInt 1000\<rparr>"

definition sample_snapshot :: "int \<Rightarrow> int \<Rightarrow> bool \<Rightarrow> int \<Rightarrow> pyval row" where
  "sample_snapshot i t changed bid =
     [(''trading_date'', PyDate (2019, 12, 30)), (''symbol'', PyStr ''AAPL''), (''message_index'', PyInt i),
      (''timestamp_ns'', PyInt t), (''symbol_id'', PyInt 7), (''event_kind'', PyStr ''add''),
      (''event_price4'', PyNone), (''event_quantity'', PyNone), (''last_trade_price4'', PyNone),
      (''last_trade_quantity'', PyNone), (''top_n_changed'', PyBool changed), (''trading_state'', PyStr ''trading''),
      (''flags'', PyInt 64), (''bid_price4_1'', PyInt bid), (''bid_quantity_1'', PyInt 5),
      (''ask_price4_1'', PyInt (bid + 100)), (''ask_quantity_1'', PyInt 5)]"

text \<open>
  Four rows in two batches, one of them not qualifying, labelled one and two rows ahead; the
  encoder keeps the rows.
\<close>

lemma sample_labels:
  "map_prod (map (map (map (plain_int \<circ> snd) \<circ> drop 3))) id
     (build_label_batches (\<lambda>_. Some)
       [Record_batch (snapshot_schema 1) [sample_snapshot 3 10 True 10000, sample_snapshot 5 20 False 10000],
        Record_batch (snapshot_schema 1) [sample_snapshot 6 20 True 10300, sample_snapshot 9 30 True 10200]]
       (Some \<lparr>lc_primary_event_horizon = PyInt 2, lc_secondary_event_horizons = [PyInt 1],
          lc_flat_threshold_ticks = PyInt 2\<rparr>) sample_context)
   = ([[[Some 3, Some 10, Some 0, Some 1, Some 0], [Some 6, Some 20, Some 1, Some 0, None],
        [Some 9, Some 30, Some 2, None, None]]], Inr ())"
  by code_simp

end
