(* ===== verification/Split_Properties.thy ===== *)
theory Split_Properties
  imports Splits Label_Properties
begin

text \<open>
  The partition of days and the join of features and labels against their specifications: three
  chronological runs of whole days; and one pass over the pairs of rows, each of which has a fate,
  with the dataset rows and the counts as functions of the pairs.
\<close>

section \<open>Days\<close>

lemma those_iff: "those xs = Some ys \<longleftrightarrow> xs = map Some ys"
proof (induction xs arbitrary: ys)
  case (Cons x xs)
  then show ?case by (cases ys) (auto split: option.splits)
qed auto

lemma those_map_Some [simp]: "those (map Some xs) = Some xs"
  by (simp add: those_iff)

text \<open>Values that spell a non-empty list of days.\<close>

definition spell_days :: "(string \<Rightarrow> day option) \<Rightarrow> pyval list \<Rightarrow> day list \<Rightarrow> bool" where
  "spell_days from_iso vals days \<longleftrightarrow> days \<noteq> [] \<and> map (\<lambda>v. Option.bind (py_string v) from_iso) vals = map Some days"

lemma strictly_sorted: "sort xs = (xs :: 'a::linorder list) \<and> distinct xs \<longleftrightarrow> sorted_wrt (<) xs"
  by (metis sorted_sort sorted_sort_id strict_sorted_iff)

lemma parse_group_iff: "parse_group from_iso vals = Some days \<longleftrightarrow> spell_days from_iso vals days \<and> sorted_wrt (<) days"
proof -
  have bind: "(\<exists>texts. map py_string vals = map Some texts \<and> map from_iso texts = map Some days)
      \<longleftrightarrow> map (\<lambda>v. Option.bind (py_string v) from_iso) vals = map Some days"
  proof (induction vals arbitrary: days)
    case (Cons v vs)
    show ?case
    proof (cases days)
      case Nil
      then show ?thesis by (auto simp: map_eq_Cons_conv)
    next
      case (Cons d ds)
      show ?thesis unfolding Cons list.map list.inject Cons.IH [symmetric]
        by (auto simp: Cons_eq_map_conv bind_eq_Some_conv)
    qed
  qed simp
  have "parse_group from_iso vals = Some days \<longleftrightarrow> vals \<noteq> []
      \<and> (\<exists>texts. map py_string vals = map Some texts \<and> map from_iso texts = map Some days)
      \<and> sort days = days \<and> distinct days"
    by (auto simp: parse_group_def those_iff split: option.splits if_splits)
  also have "\<dots> \<longleftrightarrow> spell_days from_iso vals days \<and> sorted_wrt (<) days"
    unfolding bind strictly_sorted spell_days_def by auto
  finally show ?thesis .
qed

lemma dict_of_distinct:
  "distinct (map fst xs) \<Longrightarrow> foldl (\<lambda>d (k, v). dict_set k v d) [] xs = xs"
proof -
  have "foldl (\<lambda>d (k, v). dict_set k v d) ys xs = ys @ xs" if "distinct (map fst (ys @ xs))" for ys
    using that
  proof (induction xs arbitrary: ys)
    case (Cons x xs)
    obtain k v where x: "x = (k, v)" by (cases x)
    have "dict_get ys k = None" using Cons.prems x by (auto simp: dict_get_def map_of_eq_None_iff)
    then show ?case using Cons x by (simp add: dict_set_absent)
  qed simp
  from this [of "[]"] show "distinct (map fst xs) \<Longrightarrow> ?thesis" by simp
qed

lemma chronological:
  fixes xs ys zs :: "'a::linorder list"
  assumes "xs \<noteq> []" "ys \<noteq> []" "zs \<noteq> []" "sorted_wrt (<) xs" "sorted_wrt (<) ys" "sorted_wrt (<) zs"
  shows "distinct (xs @ ys @ zs) \<and> Max (set xs) < Min (set ys) \<and> Max (set ys) < Min (set zs)
    \<longleftrightarrow> sorted_wrt (<) (xs @ ys @ zs)"
proof -
  have lt: "Max (set us) < Min (set vs) \<longleftrightarrow> (\<forall>u \<in> set us. \<forall>v \<in> set vs. u < v)"
    if "us \<noteq> []" "vs \<noteq> []" for us vs :: "'a list"
    using that by (simp add: Max_less_iff Min_gr_iff) (meson order_less_trans)
  have "ys \<noteq> [] \<Longrightarrow> \<forall>x \<in> set xs. \<forall>y \<in> set ys. x < y \<Longrightarrow> \<forall>y \<in> set ys. \<forall>z \<in> set zs. y < z
      \<Longrightarrow> \<forall>x \<in> set xs. \<forall>z \<in> set zs. x < z"
    by (meson list.set_intros(1) order_less_trans neq_Nil_conv last_in_set)
  then show ?thesis
    using assms strict_sorted_iff [of "xs @ ys @ zs"] unfolding lt [OF assms(1,2)] lt [OF assms(2,3)] sorted_wrt_append
    by auto
qed

lemma partition_mapping_iff:
  "partition_mapping from_iso config = Inr mapping \<longleftrightarrow> (\<exists>c train validation test.
     config = Some c
   \<and> spell_days from_iso (cd_train_dates c) train
   \<and> spell_days from_iso (cd_validation_dates c) validation
   \<and> spell_days from_iso (cd_test_dates c) test
   \<and> sorted_wrt (<) (train @ validation @ test)
   \<and> mapping = map (\<lambda>d. (d, ''train'')) train @ map (\<lambda>d. (d, ''validation'')) validation
       @ map (\<lambda>d. (d, ''test'')) test)"
  (is "_ \<longleftrightarrow> ?R")
proof (cases config)
  case (Some c)
  have "partition_mapping from_iso config = Inr mapping \<longleftrightarrow> (\<exists>train validation test.
      parse_group from_iso (cd_train_dates c) = Some train \<and> parse_group from_iso (cd_validation_dates c) = Some validation
    \<and> parse_group from_iso (cd_test_dates c) = Some test
    \<and> distinct (train @ validation @ test)
    \<and> Max (set train) < Min (set validation) \<and> Max (set validation) < Min (set test)
    \<and> mapping = foldl (\<lambda>d (date, name). dict_set date name d) []
       (map (\<lambda>d. (d, ''train'')) train @ map (\<lambda>d. (d, ''validation'')) validation
         @ map (\<lambda>d. (d, ''test'')) test))"
    by (auto simp: partition_mapping_def Some bindR_eq_Inr require_eq_Inr split: option.splits)
  also have "\<dots> \<longleftrightarrow> ?R"
  proof -
    have "parse_group from_iso (cd_train_dates c) = Some train \<and> parse_group from_iso (cd_validation_dates c) = Some validation
        \<and> parse_group from_iso (cd_test_dates c) = Some test
        \<and> distinct (train @ validation @ test)
        \<and> Max (set train) < Min (set validation) \<and> Max (set validation) < Min (set test)
        \<and> mapping = foldl (\<lambda>d (date, name). dict_set date name d) []
           (map (\<lambda>d. (d, ''train'')) train @ map (\<lambda>d. (d, ''validation'')) validation
             @ map (\<lambda>d. (d, ''test'')) test)
      \<longleftrightarrow> spell_days from_iso (cd_train_dates c) train \<and> spell_days from_iso (cd_validation_dates c) validation
        \<and> spell_days from_iso (cd_test_dates c) test \<and> sorted_wrt (<) (train @ validation @ test)
        \<and> mapping = map (\<lambda>d. (d, ''train'')) train @ map (\<lambda>d. (d, ''validation'')) validation
            @ map (\<lambda>d. (d, ''test'')) test" for train validation test
    proof (cases "spell_days from_iso (cd_train_dates c) train \<and> spell_days from_iso (cd_validation_dates c) validation
        \<and> spell_days from_iso (cd_test_dates c) test \<and> sorted_wrt (<) train \<and> sorted_wrt (<) validation \<and> sorted_wrt (<) test")
      case True
      then have ne: "train \<noteq> []" "validation \<noteq> []" "test \<noteq> []" by (simp_all add: spell_days_def)
      note chron = chronological [of train validation test]
      show ?thesis
      proof (cases "sorted_wrt (<) (train @ validation @ test)")
        case sorted: True
        then have "distinct (map fst (map (\<lambda>d. (d, ''train'')) train @ map (\<lambda>d. (d, ''validation'')) validation
            @ map (\<lambda>d. (d, ''test'')) test))"
          using sorted strict_sorted_iff [of "train @ validation @ test"] by (simp add: comp_def)
        from dict_of_distinct [OF this] show ?thesis
          using True sorted chron ne by (simp add: parse_group_iff)
      next
        case False
        then show ?thesis using True chron ne by (auto simp: parse_group_iff)
      qed
    next
      case False
      then show ?thesis by (auto simp: parse_group_iff sorted_wrt_append)
    qed
    then show ?thesis using Some by simp
  qed
  finally show ?thesis .
qed (simp add: partition_mapping_def)

section \<open>Pairs of rows\<close>

text \<open>Columns in which a feature row and a label row agree.\<close>

definition agree_on :: "cell row \<Rightarrow> pyval row \<Rightarrow> string \<Rightarrow> bool" where
  "agree_on f l name \<longleftrightarrow> dict_get l name \<noteq> None \<and> dict_get f name = map_option Py (dict_get l name)"

definition matching_rows :: "day \<Rightarrow> int list \<Rightarrow> cell row \<Rightarrow> pyval row \<Rightarrow> bool" where
  "matching_rows date hs f l \<longleftrightarrow>
     list_all (agree_on f l) [''trading_date'', ''symbol'', ''message_index'', ''symbol_id'', ''timestamp_ns'',
       ''qualifying_ordinal'']
   \<and> dict_get f ''trading_date'' = Some (Py (PyDate date))
   \<and> list_all (\<lambda>h. dict_get l (label_column h) \<noteq> None) hs"

text \<open>What becomes of a pair; \<open>None\<close> when a column is missing or the label is of no class.\<close>

datatype row_fate = Incomplete_history | Unavailable_label | Off_stride | Retained string

definition row_fate :: "string \<Rightarrow> int \<Rightarrow> cell row \<Rightarrow> pyval row \<Rightarrow> row_fate option" where
  "row_fate primary_name stride f l =
     Option.bind (dict_get f ''history_complete'') (\<lambda>complete.
     if \<not> cell_truthy complete then Some Incomplete_history
     else Option.bind (dict_get l primary_name) (\<lambda>primary.
     if primary = PyNone then Some Unavailable_label
     else Option.bind (dict_get f ''qualifying_ordinal'') (\<lambda>ordinal.
     if off_stride stride ordinal then Some Off_stride
     else map_option Retained (class_name primary))))"

text \<open>The dataset row of a pair, and the counts after it.\<close>

definition joined_row :: "string \<Rightarrow> int list \<Rightarrow> cell row \<Rightarrow> pyval row \<Rightarrow> cell row" where
  "joined_row split hs f l = foldl (\<lambda>row h. dict_set (label_column h) (Py (the (dict_get l (label_column h)))) row)
     (foldl (\<lambda>d (name, v). dict_set name v d) [(''partition'', Py (PyStr split))] f) hs"

definition bump :: "'k \<Rightarrow> ('k, int) dict \<Rightarrow> ('k, int) dict" where
  "bump k d = dict_set k (dict_get_default d k 0 + 1) d"

definition tally_label :: "pyval row \<Rightarrow> partition_join_counts \<Rightarrow> int \<Rightarrow> partition_join_counts" where
  "tally_label l c h = (if dict_get l (label_column h) = Some PyNone
     then c\<lparr>pj_label_unavailable := bump h (pj_label_unavailable c)\<rparr>
     else c\<lparr>pj_label_available := bump h (pj_label_available c)\<rparr>)"

definition tally_fate :: "row_fate \<Rightarrow> partition_join_counts \<Rightarrow> partition_join_counts" where
  "tally_fate fate c = (case fate of
       Incomplete_history \<Rightarrow> c\<lparr>pj_dropped_incomplete_history := pj_dropped_incomplete_history c + 1\<rparr>
     | Unavailable_label \<Rightarrow> c\<lparr>pj_dropped_unavailable_primary_label := pj_dropped_unavailable_primary_label c + 1\<rparr>
     | Off_stride \<Rightarrow> c\<lparr>pj_dropped_by_row_stride := pj_dropped_by_row_stride c + 1\<rparr>
     | Retained class \<Rightarrow> c\<lparr>pj_retained_rows := pj_retained_rows c + 1,
         pj_class_counts := bump class (pj_class_counts c)\<rparr>)"

definition tally :: "int list \<Rightarrow> pyval row \<Rightarrow> row_fate \<Rightarrow> partition_join_counts \<Rightarrow> partition_join_counts" where
  "tally hs l fate c = tally_fate fate
     (foldl (tally_label l) (c\<lparr>pj_qualifying_rows := pj_qualifying_rows c + 1\<rparr>) hs)"

definition counts_horizons :: "int list \<Rightarrow> partition_join_counts \<Rightarrow> bool" where
  "counts_horizons hs c \<longleftrightarrow> list_all (\<lambda>h. has_key (pj_label_available c) h \<and> has_key (pj_label_unavailable c) h) hs"

definition counts_class :: "partition_join_counts \<Rightarrow> row_fate \<Rightarrow> bool" where
  "counts_class c fate = (case fate of Retained class \<Rightarrow> has_key (pj_class_counts c) class | _ \<Rightarrow> True)"

lemma increment_iff: "increment k d = Inr d' \<longleftrightarrow> has_key d k \<and> d' = bump k d"
  by (auto simp: increment_def bump_def has_key_def dict_get_default_def split: option.splits)

lemma has_key_bump: "has_key (bump k d) j \<longleftrightarrow> j = k \<or> has_key d j"
  by (simp add: has_key_def bump_def)

lemma same_value_iff: "same_value f l name = Inr True \<longleftrightarrow> agree_on f l name"
  by (auto simp: same_value_def agree_on_def bindR_eq_Inr item_Inr)

lemma check_pair_iff:
  "check_pair date f l = Inr u \<longleftrightarrow>
     list_all (agree_on f l) [''trading_date'', ''symbol'', ''message_index'', ''symbol_id'', ''timestamp_ns'',
       ''qualifying_ordinal'']
   \<and> dict_get f ''trading_date'' = Some (Py (PyDate date))"
proof -
  have "check_pair date f l = Inr u \<longleftrightarrow>
      same_value f l ''trading_date'' = Inr True \<and> same_value f l ''symbol'' = Inr True
    \<and> same_value f l ''message_index'' = Inr True
    \<and> item f ''trading_date'' = Inr (Py (PyDate date))
    \<and> same_value f l ''symbol_id'' = Inr True \<and> same_value f l ''timestamp_ns'' = Inr True
    \<and> same_value f l ''qualifying_ordinal'' = Inr True"
    by (auto simp: check_pair_def bindR_eq_Inr require_eq_Inr)
  then show ?thesis unfolding same_value_iff item_Inr by auto
qed

lemma count_label_iff:
  assumes "has_key (pj_label_available (jn_counts s)) h" "has_key (pj_label_unavailable (jn_counts s)) h"
  shows "count_label l h s = (Inr u, s') \<longleftrightarrow>
    dict_get l (label_column h) \<noteq> None \<and> s' = s\<lparr>jn_counts := tally_label l (jn_counts s) h\<rparr>"
proof -
  have inc: "increment h (pj_label_available (jn_counts s)) = Inr (bump h (pj_label_available (jn_counts s)))"
    "increment h (pj_label_unavailable (jn_counts s)) = Inr (bump h (pj_label_unavailable (jn_counts s)))"
    by (simp_all add: increment_iff assms)
  show ?thesis
  proof (cases "dict_get l (label_column h)")
    case None
    then show ?thesis by (simp add: count_label_def bindM_def item_def)
  next
    case (Some v)
    then have "count_label l h s = (Inr (), s\<lparr>jn_counts := tally_label l (jn_counts s) h\<rparr>)"
      by (cases "v = PyNone") (simp_all add: count_label_def bindM_def item_def inc tally_label_def count_def Let_def)
    then show ?thesis using Some by auto
  qed
qed

lemma tally_label_keys:
  "counts_horizons hs c \<Longrightarrow> counts_horizons hs (tally_label l c h)"
  by (auto simp: counts_horizons_def tally_label_def has_key_bump list_all_iff)

lemma count_labels_iff:
  assumes "counts_horizons hs (jn_counts s)"
  shows "(\<exists>us. forM (count_label l) hs s = (Inr us, s')) \<longleftrightarrow>
    list_all (\<lambda>h. dict_get l (label_column h) \<noteq> None) hs
    \<and> s' = s\<lparr>jn_counts := foldl (tally_label l) (jn_counts s) hs\<rparr>"
proof -
  have "(\<exists>us. forM (count_label l) gs s = (Inr us, s')) \<longleftrightarrow>
    list_all (\<lambda>h. dict_get l (label_column h) \<noteq> None) gs
    \<and> s' = s\<lparr>jn_counts := foldl (tally_label l) (jn_counts s) gs\<rparr>"
    if "set gs \<subseteq> set hs" "counts_horizons hs (jn_counts s)" for gs
    using that
  proof (induction gs arbitrary: s)
    case (Cons g gs)
    have keys: "has_key (pj_label_available (jn_counts s)) g" "has_key (pj_label_unavailable (jn_counts s)) g"
      using Cons.prems by (auto simp: counts_horizons_def list_all_iff)
    let ?s1 = "s\<lparr>jn_counts := tally_label l (jn_counts s) g\<rparr>"
    have "(\<exists>us. forM (count_label l) (g # gs) s = (Inr us, s')) \<longleftrightarrow>
        dict_get l (label_column g) \<noteq> None \<and> (\<exists>us. forM (count_label l) gs ?s1 = (Inr us, s'))"
      unfolding forM_Cons_Inr count_label_iff [OF keys] by blast
    also have "\<dots> \<longleftrightarrow> dict_get l (label_column g) \<noteq> None
        \<and> list_all (\<lambda>h. dict_get l (label_column h) \<noteq> None) gs
        \<and> s' = ?s1\<lparr>jn_counts := foldl (tally_label l) (jn_counts ?s1) gs\<rparr>"
      using Cons.IH [of ?s1] Cons.prems tally_label_keys by simp
    finally show ?case by simp
  qed auto
  then show ?thesis using assms by blast
qed

lemma dataset_row_exact:
  assumes "list_all (\<lambda>h. dict_get l (label_column h) \<noteq> None) hs"
  shows "dataset_row split hs f l = Inr (joined_row split hs f l)"
proof -
  have "foldR (\<lambda>row h. bindR (item l (label_column h)) (\<lambda>v. Inr (dict_set (label_column h) (Py v) row))) row hs
      = Inr (foldl (\<lambda>row h. dict_set (label_column h) (Py (the (dict_get l (label_column h)))) row) row hs)" for row
    using assms by (induction hs arbitrary: row) (auto simp: item_def)
  then show ?thesis by (simp add: dataset_row_def joined_row_def)
qed

lemma keep_row_iff:
  assumes "list_all (\<lambda>h. dict_get l (label_column h) \<noteq> None) hs"
  shows "keep_row encode split hs f l class s = (Inr u, s') \<longleftrightarrow>
    has_key (pj_class_counts (jn_counts s)) class
    \<and> (\<exists>w. push_row encode (joined_row split hs f l) (jn_writer s) = (Inr (), w)
         \<and> s' = s\<lparr>jn_counts := tally_fate (Retained class) (jn_counts s), jn_writer := w\<rparr>)"
proof (cases "has_key (pj_class_counts (jn_counts s)) class")
  case True
  have inc: "increment class (pj_class_counts (jn_counts s)) = Inr (bump class (pj_class_counts (jn_counts s)))"
    by (simp add: increment_iff True)
  show ?thesis
    by (auto simp: keep_row_def dataset_row_exact [OF assms] inc bindM_def count_def join_writer_def
        tally_fate_def push_row_def append_output_def True split: prod.splits sum.splits)
next
  case False
  then have "increment class (pj_class_counts (jn_counts s)) \<noteq> Inr d" for d by (simp add: increment_iff)
  then obtain e where "increment class (pj_class_counts (jn_counts s)) = Inl e"
    by (cases "increment class (pj_class_counts (jn_counts s))") auto
  then show ?thesis
    using False by (simp add: keep_row_def dataset_row_exact [OF assms] bindM_def count_def)
qed

definition written :: "(cell row list \<Rightarrow> 'b option) \<Rightarrow> cell row \<Rightarrow> row_fate \<Rightarrow> (cell row, 'b) writer
    \<Rightarrow> (cell row, 'b) writer \<Rightarrow> bool" where
  "written encode row fate w w' = (case fate of
       Retained _ \<Rightarrow> push_row encode row w = (Inr (), w')
     | _ \<Rightarrow> w' = w)"

lemma tally_labels_classes: "pj_class_counts (foldl (tally_label l) c hs) = pj_class_counts c"
  by (induction hs arbitrary: c) (simp_all add: tally_label_def)

lemma bind_item: "bindM (liftM (item row name)) g s =
    (case dict_get row name of None \<Rightarrow> (Inl KeyError, s) | Some v \<Rightarrow> g v s)"
  by (simp add: bindM_def item_def split: option.splits)

lemma filter_row_iff:
  assumes "list_all (\<lambda>h. dict_get l (label_column h) \<noteq> None) hs"
  shows "filter_row encode split hs primary_name stride f l s = (Inr u, s') \<longleftrightarrow>
    (\<exists>fate w. row_fate primary_name stride f l = Some fate \<and> counts_class (jn_counts s) fate
         \<and> written encode (joined_row split hs f l) fate (jn_writer s) w
         \<and> s' = s\<lparr>jn_counts := tally_fate fate (jn_counts s), jn_writer := w\<rparr>)"
  unfolding filter_row_def row_fate_def bind_item
  by (auto simp: keep_row_iff [OF assms] count_def tally_fate_def counts_class_def written_def split: option.splits)

lemma join_row_iff:
  assumes "counts_horizons hs (jn_counts s)"
  shows "join_row encode split hs primary_name stride date f l s = (Inr u, s') \<longleftrightarrow>
    matching_rows date hs f l
    \<and> (\<exists>fate w. row_fate primary_name stride f l = Some fate \<and> counts_class (jn_counts s) fate
         \<and> written encode (joined_row split hs f l) fate (jn_writer s) w
         \<and> s' = s\<lparr>jn_counts := tally hs l fate (jn_counts s), jn_writer := w\<rparr>)"
proof -
  let ?s0 = "s\<lparr>jn_counts := (jn_counts s)\<lparr>pj_qualifying_rows := pj_qualifying_rows (jn_counts s) + 1\<rparr>\<rparr>"
  let ?c = "foldl (tally_label l) (jn_counts ?s0) hs"
  have keys: "counts_horizons hs (jn_counts ?s0)" using assms by (simp add: counts_horizons_def)
  have classes: "counts_class (foldl (tally_label l) ((jn_counts s)\<lparr>pj_qualifying_rows :=
      pj_qualifying_rows (jn_counts s) + 1\<rparr>) hs) fate \<longleftrightarrow> counts_class (jn_counts s) fate" for fate
    by (simp add: counts_class_def tally_labels_classes split: row_fate.splits)
  have "join_row encode split hs primary_name stride date f l s = (Inr u, s') \<longleftrightarrow>
      check_pair date f l = Inr () \<and> (\<exists>t. (\<exists>us. forM (count_label l) hs ?s0 = (Inr us, t))
        \<and> filter_row encode split hs primary_name stride f l t = (Inr u, s'))"
    by (auto simp: join_row_def bindM_Inr count_def)
  also have "\<dots> \<longleftrightarrow> matching_rows date hs f l
      \<and> filter_row encode split hs primary_name stride f l (?s0\<lparr>jn_counts := ?c\<rparr>) = (Inr u, s')"
    unfolding count_labels_iff [OF keys] check_pair_iff matching_rows_def by blast
  also have "\<dots> \<longleftrightarrow> matching_rows date hs f l
    \<and> (\<exists>fate w. row_fate primary_name stride f l = Some fate \<and> counts_class (jn_counts s) fate
         \<and> written encode (joined_row split hs f l) fate (jn_writer s) w
         \<and> s' = s\<lparr>jn_counts := tally hs l fate (jn_counts s), jn_writer := w\<rparr>)"
  proof (cases "matching_rows date hs f l")
    case True
    then have present: "list_all (\<lambda>h. dict_get l (label_column h) \<noteq> None) hs" by (simp add: matching_rows_def)
    from True show ?thesis unfolding filter_row_iff [OF present] by (simp add: classes tally_def)
  qed simp
  finally show ?thesis .
qed

section \<open>Streams of pairs\<close>

text \<open>The pairs of a completed join with their fates, and what comes of them.\<close>

type_synonym fated = "cell row \<times> pyval row \<times> row_fate"

definition fated_pair :: "day \<Rightarrow> int list \<Rightarrow> string \<Rightarrow> int \<Rightarrow> fated \<Rightarrow> bool" where
  "fated_pair date hs primary_name stride = (\<lambda>(f, l, fate).
     matching_rows date hs f l \<and> row_fate primary_name stride f l = Some fate)"

definition is_retained :: "row_fate \<Rightarrow> bool" where
  "is_retained fate = (case fate of Retained _ \<Rightarrow> True | _ \<Rightarrow> False)"

definition retained_rows :: "string \<Rightarrow> int list \<Rightarrow> fated list \<Rightarrow> cell row list" where
  "retained_rows split hs pairs =
     map (\<lambda>(f, l, _). joined_row split hs f l) (filter (\<lambda>(_, _, fate). is_retained fate) pairs)"

definition tallied :: "int list \<Rightarrow> partition_join_counts \<Rightarrow> fated list \<Rightarrow> partition_join_counts" where
  "tallied hs c pairs = foldl (\<lambda>c (f, l, fate). tally hs l fate c) c pairs"

definition classes_counted :: "partition_join_counts \<Rightarrow> fated list \<Rightarrow> bool" where
  "classes_counted c pairs = list_all (\<lambda>(_, _, fate). counts_class c fate) pairs"

lemma tally_labels_horizons: "counts_horizons hs c \<Longrightarrow> counts_horizons hs (foldl (tally_label l) c gs)"
  by (induction gs arbitrary: c) (simp_all add: tally_label_keys)

lemma tally_horizons: "counts_horizons hs c \<Longrightarrow> counts_horizons hs (tally hs l fate c)"
proof -
  assume "counts_horizons hs c"
  then have "counts_horizons hs (c\<lparr>pj_qualifying_rows := pj_qualifying_rows c + 1\<rparr>)"
    by (simp add: counts_horizons_def)
  from tally_labels_horizons [OF this, of l hs] show ?thesis
    by (simp add: tally_def tally_fate_def counts_horizons_def split: row_fate.splits)
qed

lemma tally_counts_class: "counts_class c fate' \<Longrightarrow> counts_class c fate \<Longrightarrow> counts_class (tally hs l fate c) fate'"
  by (auto simp: counts_class_def tally_def tally_fate_def tally_labels_classes has_key_bump split: row_fate.splits)

lemma tally_counts_class_iff:
  "counts_class c fate \<Longrightarrow> counts_class (tally hs l fate c) fate' \<longleftrightarrow> counts_class c fate'"
  by (auto simp: counts_class_def tally_def tally_fate_def tally_labels_classes has_key_bump split: row_fate.splits)

lemma written_rows:
  assumes "wrote encode rows w" "written encode row fate w w'"
  shows "wrote encode (rows @ (if is_retained fate then [row] else [])) w'"
  using assms push_row_Inr by (fastforce simp: written_def is_retained_def split: row_fate.splits)

lemma written_ok:
  assumes "wrote encode rows w" "encodes encode (rows @ (if is_retained fate then [row] else []) @ rs)"
  shows "\<exists>w'. written encode row fate w w'"
  using assms push_row_ok [OF assms(1), of row rs] by (fastforce simp: written_def is_retained_def split: row_fate.splits)

lemma join_rows_ends:
  "fs = [] \<or> ls = [] \<Longrightarrow> join_rows step fs fend ls lend s = (Inr u, s') \<longleftrightarrow>
     fs = [] \<and> ls = [] \<and> fend = None \<and> lend = None \<and> s' = s"
  by (cases fs; cases ls) (auto simp: fail_code_def split: if_splits)

lemma join_rows_iff:
  assumes "counts_horizons hs (jn_counts s)" "wrote encode rows (jn_writer s)"
    and step: "step = join_row encode split hs primary_name stride date"
  shows "join_rows step fs fend ls lend s = (Inr u, s') \<Longrightarrow>
      \<exists>pairs. fend = None \<and> lend = None \<and> map fst pairs = fs \<and> map (\<lambda>p. fst (snd p)) pairs = ls
        \<and> list_all (fated_pair date hs primary_name stride) pairs \<and> classes_counted (jn_counts s) pairs
        \<and> jn_counts s' = tallied hs (jn_counts s) pairs
        \<and> wrote encode (rows @ retained_rows split hs pairs) (jn_writer s')"
    (is "_ \<Longrightarrow> ?E fs ls s rows s'")
    and "fend = None \<Longrightarrow> lend = None \<Longrightarrow> map fst pairs = fs \<Longrightarrow> map (\<lambda>p. fst (snd p)) pairs = ls
      \<Longrightarrow> list_all (fated_pair date hs primary_name stride) pairs \<Longrightarrow> classes_counted (jn_counts s) pairs
      \<Longrightarrow> encodes encode (rows @ retained_rows split hs pairs) \<Longrightarrow>
      \<exists>s'. join_rows step fs fend ls lend s = (Inr (), s') \<and> jn_counts s' = tallied hs (jn_counts s) pairs
        \<and> wrote encode (rows @ retained_rows split hs pairs) (jn_writer s')"
proof -
  show "join_rows step fs fend ls lend s = (Inr u, s') \<Longrightarrow> ?E fs ls s rows s'"
    using assms(1,2)
  proof (induction fs arbitrary: ls s rows)
    case Nil
    then show ?case
      unfolding join_rows_ends [OF disjI1 [OF refl]]
      by (intro exI [of _ "[]"]) (simp add: classes_counted_def tallied_def retained_rows_def)
  next
    case (Cons f fs)
    have "ls \<noteq> []" using Cons.prems(1) join_rows_ends [of "f # fs" ls] by fastforce
    then obtain l ls' where ls: "ls = l # ls'" by (cases ls) auto
    obtain t where t: "step f l s = (Inr (), t)" "join_rows step fs fend ls' lend t = (Inr u, s')"
      using Cons.prems(1) unfolding ls join_rows.simps bindM_Inr by auto
    obtain fate w where fate: "matching_rows date hs f l" "row_fate primary_name stride f l = Some fate"
      "counts_class (jn_counts s) fate" "written encode (joined_row split hs f l) fate (jn_writer s) w"
      "t = s\<lparr>jn_counts := tally hs l fate (jn_counts s), jn_writer := w\<rparr>"
      using t(1) unfolding step join_row_iff [OF Cons.prems(2)] by blast
    let ?rows = "rows @ (if is_retained fate then [joined_row split hs f l] else [])"
    have "counts_horizons hs (jn_counts t)" "wrote encode ?rows (jn_writer t)"
      using tally_horizons [OF Cons.prems(2)] written_rows [OF Cons.prems(3) fate(4)] fate(5) by simp_all
    from Cons.IH [OF t(2) this] obtain pairs where pairs: "fend = None" "lend = None" "map fst pairs = fs"
      "map (\<lambda>p. fst (snd p)) pairs = ls'" "list_all (fated_pair date hs primary_name stride) pairs"
      "classes_counted (jn_counts t) pairs" "jn_counts s' = tallied hs (jn_counts t) pairs"
      "wrote encode (?rows @ retained_rows split hs pairs) (jn_writer s')" by blast
    have "classes_counted (jn_counts s) ((f, l, fate) # pairs)"
      using pairs(6) fate(3,5) by (simp add: classes_counted_def tally_counts_class_iff [OF fate(3)])
    moreover have "?rows @ retained_rows split hs pairs = rows @ retained_rows split hs ((f, l, fate) # pairs)"
      by (simp add: retained_rows_def)
    ultimately show ?case
      using pairs fate ls
      by (intro exI [of _ "(f, l, fate) # pairs"]) (simp add: fated_pair_def tallied_def)
  qed
  show "fend = None \<Longrightarrow> lend = None \<Longrightarrow> map fst pairs = fs \<Longrightarrow> map (\<lambda>p. fst (snd p)) pairs = ls
      \<Longrightarrow> list_all (fated_pair date hs primary_name stride) pairs \<Longrightarrow> classes_counted (jn_counts s) pairs
      \<Longrightarrow> encodes encode (rows @ retained_rows split hs pairs) \<Longrightarrow>
      \<exists>s'. join_rows step fs fend ls lend s = (Inr (), s') \<and> jn_counts s' = tallied hs (jn_counts s) pairs
        \<and> wrote encode (rows @ retained_rows split hs pairs) (jn_writer s')"
    using assms(1,2)
  proof (induction pairs arbitrary: fs ls s rows)
    case Nil
    then show ?case by (simp add: tallied_def retained_rows_def)
  next
    case (Cons p pairs)
    obtain f l fate where p: "p = (f, l, fate)" by (cases p)
    let ?rows = "rows @ (if is_retained fate then [joined_row split hs f l] else [])"
    have rows: "?rows @ retained_rows split hs pairs = rows @ retained_rows split hs (p # pairs)"
      by (simp add: retained_rows_def p)
    have here: "matching_rows date hs f l" "row_fate primary_name stride f l = Some fate" "counts_class (jn_counts s) fate"
      using Cons.prems(5,6) by (simp_all add: p fated_pair_def classes_counted_def)
    have "encodes encode (rows @ (if is_retained fate then [joined_row split hs f l] else []) @ retained_rows split hs pairs)"
      using Cons.prems(7) rows by (simp del: append_assoc add: append_assoc [symmetric])
    then obtain w where w: "written encode (joined_row split hs f l) fate (jn_writer s) w"
      using written_ok [OF Cons.prems(9)] by blast
    let ?t = "s\<lparr>jn_counts := tally hs l fate (jn_counts s), jn_writer := w\<rparr>"
    have "step f l s = (Inr (), ?t)"
      unfolding step join_row_iff [OF Cons.prems(8)] using here w by blast
    moreover have "\<exists>s'. join_rows step (map fst pairs) fend (map (\<lambda>p. fst (snd p)) pairs) lend ?t = (Inr (), s')
        \<and> jn_counts s' = tallied hs (jn_counts ?t) pairs
        \<and> wrote encode (?rows @ retained_rows split hs pairs) (jn_writer s')"
    proof (rule Cons.IH [OF Cons.prems(1,2) refl refl])
      show "list_all (fated_pair date hs primary_name stride) pairs" using Cons.prems(5) by simp
      show "classes_counted (jn_counts ?t) pairs"
        using Cons.prems(6) by (simp add: classes_counted_def p tally_counts_class_iff)
      show "encodes encode (?rows @ retained_rows split hs pairs)" unfolding rows by (rule Cons.prems(7))
      show "counts_horizons hs (jn_counts ?t)" using tally_horizons [OF Cons.prems(8)] by simp
      show "wrote encode ?rows (jn_writer ?t)" using written_rows [OF Cons.prems(9) w] by simp
    qed
    ultimately show ?case
      unfolding rows using Cons.prems(3,4) by (auto simp: p tallied_def bindM_def)
  qed
qed

section \<open>Counts\<close>

definition balance :: "partition_join_counts \<Rightarrow> int" where
  "balance c = pj_qualifying_rows c - (pj_dropped_incomplete_history c
     + pj_dropped_unavailable_primary_label c + pj_dropped_by_row_stride c + pj_retained_rows c)"

lemma reconciled_balance: "reconciled c \<longleftrightarrow> balance c = 0"
  by (auto simp: reconciled_def balance_def)

lemma tally_labels_scalars:
  "pj_qualifying_rows (foldl (tally_label l) c hs) = pj_qualifying_rows c"
  "pj_dropped_incomplete_history (foldl (tally_label l) c hs) = pj_dropped_incomplete_history c"
  "pj_dropped_unavailable_primary_label (foldl (tally_label l) c hs) = pj_dropped_unavailable_primary_label c"
  "pj_dropped_by_row_stride (foldl (tally_label l) c hs) = pj_dropped_by_row_stride c"
  "pj_retained_rows (foldl (tally_label l) c hs) = pj_retained_rows c"
  by (induction hs arbitrary: c) (simp_all add: tally_label_def)

lemma tally_fate_labels:
  "pj_label_available (tally_fate fate c) = pj_label_available c"
  "pj_label_unavailable (tally_fate fate c) = pj_label_unavailable c"
  "pj_qualifying_rows (tally_fate fate c) = pj_qualifying_rows c"
  "pj_retained_rows (tally_fate fate c) = pj_retained_rows c + (if is_retained fate then 1 else 0)"
  "balance (tally_fate fate c) = balance c - 1"
  by (simp_all add: tally_fate_def is_retained_def balance_def split: row_fate.splits)

lemma tally_balance: "balance (tally hs l fate c) = balance c"
proof -
  have "balance (foldl (tally_label l) (c\<lparr>pj_qualifying_rows := pj_qualifying_rows c + 1\<rparr>) hs) = balance c + 1"
    by (simp add: balance_def tally_labels_scalars)
  then show ?thesis by (simp add: tally_def tally_fate_labels)
qed

lemma tallied_balance: "balance (tallied hs c pairs) = balance c"
  unfolding tallied_def by (induction pairs arbitrary: c) (auto simp: tally_balance)

lemma tallied_rows:
  "pj_qualifying_rows (tallied hs c pairs) = pj_qualifying_rows c + int (length pairs)"
  "pj_retained_rows (tallied hs c pairs) = pj_retained_rows c + int (length (retained_rows split hs pairs))"
  unfolding tallied_def retained_rows_def
  by (induction pairs arbitrary: c) (auto simp: tally_def tally_fate_labels tally_labels_scalars)

definition labelled_at :: "int \<Rightarrow> pyval row \<Rightarrow> bool" where
  "labelled_at h l \<longleftrightarrow> dict_get l (label_column h) \<noteq> Some PyNone"

lemma dict_get_default_bump:
  "dict_get_default (bump k d) j 0 = dict_get_default d j 0 + (if j = k then 1 else 0)"
  by (simp add: bump_def dict_get_default_def)

lemma tally_labels_available:
  assumes "distinct hs"
  shows "dict_get_default (pj_label_available (foldl (tally_label l) c hs)) h 0
      = dict_get_default (pj_label_available c) h 0 + (if h \<in> set hs \<and> labelled_at h l then 1 else 0)"
    and "dict_get_default (pj_label_unavailable (foldl (tally_label l) c hs)) h 0
      = dict_get_default (pj_label_unavailable c) h 0 + (if h \<in> set hs \<and> \<not> labelled_at h l then 1 else 0)"
  using assms
  by (induction hs arbitrary: c) (auto simp: tally_label_def labelled_at_def dict_get_default_bump)

lemma tallied_available:
  assumes "distinct hs" "h \<in> set hs"
  shows "dict_get_default (pj_label_available (tallied hs c pairs)) h 0 = dict_get_default (pj_label_available c) h 0
        + int (length (filter (labelled_at h) (map (\<lambda>p. fst (snd p)) pairs)))"
    and "dict_get_default (pj_label_unavailable (tallied hs c pairs)) h 0 = dict_get_default (pj_label_unavailable c) h 0
        + int (length (filter (\<lambda>l. \<not> labelled_at h l) (map (\<lambda>p. fst (snd p)) pairs)))"
  unfolding tallied_def
  by (induction pairs arbitrary: c)
    (auto simp: tally_def tally_fate_labels tally_labels_available [OF assms(1)] assms(2))

text \<open>The sum of the class counts.\<close>

definition class_total :: "partition_join_counts \<Rightarrow> int" where
  "class_total c = dict_sum (\<lambda>_ n. n) (pj_class_counts c)"

lemma class_total_bump: "dict_ok d \<Longrightarrow> dict_sum (\<lambda>_ n. n) (bump k d) = dict_sum (\<lambda>_ n. n) d + 1"
  by (simp add: bump_def dict_sum_set dict_get_default_def split: option.splits)

lemma tallied_classes:
  "dict_ok (pj_class_counts c) \<Longrightarrow>
     class_total (tallied hs c pairs) = class_total c + int (length (retained_rows split hs pairs))"
proof (induction pairs arbitrary: c)
  case (Cons p pairs)
  obtain f l fate where p: "p = (f, l, fate)" by (cases p)
  have step: "dict_ok (pj_class_counts (tally hs l fate c))
      \<and> class_total (tally hs l fate c) = class_total c + (if is_retained fate then 1 else 0)"
    using Cons.prems
    by (simp add: tally_def tally_fate_def tally_labels_classes class_total_def class_total_bump is_retained_def
        split: row_fate.splits) (simp add: bump_def)
  have "tallied hs c (p # pairs) = tallied hs (tally hs l fate c) pairs"
    by (simp add: tallied_def p)
  moreover have "int (length (retained_rows split hs (p # pairs)))
      = (if is_retained fate then 1 else 0) + int (length (retained_rows split hs pairs))"
    by (simp add: retained_rows_def p)
  ultimately show ?case using Cons.IH step by simp
qed (simp add: tallied_def retained_rows_def)

section \<open>The generator\<close>

lemma join_writer_eq:
  "join_writer f s = (r, s') \<longleftrightarrow> (\<exists>w. f (jn_writer s) = (r, w) \<and> s' = s\<lparr>jn_writer := w\<rparr>)"
  by (auto simp: join_writer_def split: prod.splits)

lemma check_reconciled:
  "(if reconciled c then (Inr (), s) else (fail_code e, s)) = (Inr u, s') \<longleftrightarrow> reconciled c \<and> s' = s"
  by (auto simp: fail_code_def)

lemma join_streams_iff:
  assumes "counts_horizons hs c0"
  shows "(\<exists>s'. join_streams encode split hs primary_name stride date (fs, fend) (ls, lend)
        \<lparr>jn_counts = c0, jn_writer = \<lparr>wr_output = [], wr_yielded = []\<rparr>\<rparr> = (Inr (), s')
        \<and> wr_yielded (jn_writer s') = ys \<and> jn_counts s' = c')
    \<longleftrightarrow> reconciled c0 \<and> (\<exists>pairs. fend = None \<and> lend = None \<and> map fst pairs = fs \<and> map (\<lambda>p. fst (snd p)) pairs = ls
        \<and> list_all (fated_pair date hs primary_name stride) pairs \<and> classes_counted c0 pairs
        \<and> c' = tallied hs c0 pairs
        \<and> map encode (chunks_of OUTPUT_BATCH_ROWS (retained_rows split hs pairs)) = map Some ys)"
  (is "?L \<longleftrightarrow> ?R")
proof -
  let ?s = "\<lparr>jn_counts = c0, jn_writer = \<lparr>wr_output = [], wr_yielded = []\<rparr>\<rparr> :: 'a join_state"
  let ?step = "join_row encode split hs primary_name stride date"
  have start: "counts_horizons hs (jn_counts ?s)" "wrote encode [] (jn_writer ?s)"
    using assms wrote_start by simp_all
  note loop = join_rows_iff [OF start refl, unfolded append_Nil, simplified join_state.simps]
  have unfolded: "?L \<longleftrightarrow> (\<exists>t w. join_rows ?step fs fend ls lend ?s = (Inr (), t) \<and> reconciled (jn_counts t)
      \<and> flush_rest encode (jn_writer t) = (Inr (), w) \<and> wr_yielded w = ys \<and> jn_counts t = c')"
  proof -
    have "join_streams encode split hs primary_name stride date (fs, fend) (ls, lend) ?s = (Inr (), s') \<longleftrightarrow>
        (\<exists>t w. join_rows ?step fs fend ls lend ?s = (Inr (), t) \<and> reconciled (jn_counts t)
          \<and> flush_rest encode (jn_writer t) = (Inr (), w) \<and> s' = t\<lparr>jn_writer := w\<rparr>)" for s'
      unfolding join_streams_def bindM_Inr check_reconciled join_writer_eq fst_conv snd_conv by auto
    then show ?thesis by auto
  qed
  show ?thesis
  proof
    assume ?L
    then obtain t w where t: "join_rows ?step fs fend ls lend ?s = (Inr (), t)" "reconciled (jn_counts t)"
      "flush_rest encode (jn_writer t) = (Inr (), w)" "wr_yielded w = ys" "jn_counts t = c'"
      unfolding unfolded by blast
    obtain pairs where pairs: "fend = None" "lend = None" "map fst pairs = fs" "map (\<lambda>p. fst (snd p)) pairs = ls"
      "list_all (fated_pair date hs primary_name stride) pairs" "classes_counted c0 pairs"
      "jn_counts t = tallied hs c0 pairs" "wrote encode (retained_rows split hs pairs) (jn_writer t)"
      using loop(1) [OF t(1)] by blast
    have "map encode (chunks_of OUTPUT_BATCH_ROWS (retained_rows split hs pairs)) = map Some ys"
      using t(3,4) unfolding flush_rest_iff [OF pairs(8)] by simp
    then show ?R
      using pairs t(2,5) by (auto simp: reconciled_balance tallied_balance)
  next
    assume R: ?R
    then obtain pairs where pairs: "fend = None" "lend = None" "map fst pairs = fs" "map (\<lambda>p. fst (snd p)) pairs = ls"
      "list_all (fated_pair date hs primary_name stride) pairs" "classes_counted c0 pairs"
      "c' = tallied hs c0 pairs"
      and ys: "map encode (chunks_of OUTPUT_BATCH_ROWS (retained_rows split hs pairs)) = map Some ys" by blast
    obtain t where t: "join_rows ?step fs fend ls lend ?s = (Inr (), t)" "jn_counts t = tallied hs c0 pairs"
      "wrote encode (retained_rows split hs pairs) (jn_writer t)"
      using loop(2) [OF pairs(1-6) yielded_encodes [OF ys]] by blast
    let ?w = "(jn_writer t)\<lparr>wr_yielded := ys\<rparr>"
    have "flush_rest encode (jn_writer t) = (Inr (), ?w)"
      unfolding flush_rest_iff [OF t(3)] using ys by simp
    then show ?L
      unfolding unfolded using t R pairs(7)
      by (intro exI [of _ t] exI [of _ ?w]) (simp add: reconciled_balance tallied_balance)
  qed
qed

section \<open>Properties\<close>

text \<open>
  C27: The partition of days is exact. A configuration is accepted if and only if its three groups
  are non-empty and their days, taken together in the order train, validation, test, strictly
  increase; then every configured day, and no other, is mapped to the one group that lists it. So
  no day is in two splits, and no test day precedes a day of training or validation.
\<close>

theorem partition_is_chronological:
  "partition_mapping from_iso config = Inr mapping \<longleftrightarrow> (\<exists>c train validation test.
     config = Some c
   \<and> spell_days from_iso (cd_train_dates c) train
   \<and> spell_days from_iso (cd_validation_dates c) validation
   \<and> spell_days from_iso (cd_test_dates c) test
   \<and> sorted_wrt (<) (train @ validation @ test)
   \<and> mapping = map (\<lambda>d. (d, ''train'')) train @ map (\<lambda>d. (d, ''validation'')) validation
       @ map (\<lambda>d. (d, ''test'')) test)"
  by (rule partition_mapping_iff)

lemma start_counts_horizons: "counts_horizons hs (start_counts hs c)"
  by (simp add: counts_horizons_def start_counts_def has_key_def dict_get_def list_all_iff map_of_eq_None_iff
      image_image)

lemma start_counts_same:
  "reconciled (start_counts hs c) \<longleftrightarrow> reconciled c" "classes_counted (start_counts hs c) pairs \<longleftrightarrow> classes_counted c pairs"
  by (simp_all add: reconciled_def start_counts_def classes_counted_def counts_class_def cong: row_fate.case_cong)

text \<open>
  C28: The join is exact. It completes with the given batches and counts if and only if the day has
  a split; the stride, the configurations and both streams are valid and of one length; each
  feature row agrees with the label row at its place in date, symbol, index, symbol id, time and
  ordinal, on the expected day; every complete, labelled row on the stride has a label of a class;
  and the batches are the encodings, 65,536 rows each but the last, of the retained pairs alone, in
  order, each with the split's name and all its labels. The counts are the caller's, with every
  pair counted under its fate; they must have reconciled before.
\<close>

theorem join_exact:
  "join_feature_label_batches from_iso encode features labels feature_config label_config sampling partitions date counts
      = (yielded, counts', Inr ()) \<longleftrightarrow>
    (\<exists>mapping split stride hs c primary ffields lfields ofields pairs.
       partition_mapping from_iso partitions = Inr mapping \<and> dict_get mapping date = Some split
     \<and> valid_row_stride sampling = Some stride
     \<and> label_config = Some c \<and> lc_primary_event_horizon c = PyInt primary \<and> label_horizons label_config = Inr hs
     \<and> feature_schema feature_config = Inr ffields \<and> label_schema label_config = Inr lfields
     \<and> dataset_schema feature_config c = Inr ofields
     \<and> table_rows ffields features = (map fst pairs, None)
     \<and> table_rows lfields labels = (map (\<lambda>p. fst (snd p)) pairs, None)
     \<and> list_all (fated_pair date hs (label_column primary) stride) pairs
     \<and> classes_counted counts pairs \<and> reconciled counts
     \<and> counts' = tallied hs (start_counts hs counts) pairs
     \<and> map (encode ofields) (chunks_of OUTPUT_BATCH_ROWS (retained_rows split hs pairs)) = map Some yielded)"
  (is "?J = _ \<longleftrightarrow> ?R")
proof (cases "\<exists>mapping split stride hs ffields.
    partition_mapping from_iso partitions = Inr mapping \<and> dict_get mapping date = Some split
  \<and> valid_row_stride sampling = Some stride \<and> label_horizons label_config = Inr hs
  \<and> feature_schema feature_config = Inr ffields")
  case True
  then obtain mapping split stride hs ffields where ok: "partition_mapping from_iso partitions = Inr mapping"
    "dict_get mapping date = Some split" "valid_row_stride sampling = Some stride"
    "label_horizons label_config = Inr hs" "feature_schema feature_config = Inr ffields" by blast
  obtain c where c: "label_config = Some c" using ok(4) by (cases label_config) (simp_all add: label_horizons_def)
  obtain primary where primary: "lc_primary_event_horizon c = PyInt primary"
    using ok(4) c by (auto simp: label_horizons_def positive_int_def plain_int_iff split: option.splits if_splits)
  obtain lfields where lf: "label_schema label_config = Inr lfields" using ok(4) by (simp add: label_schema_def)
  obtain ofields where of: "dataset_schema feature_config c = Inr ofields"
    using ok(4,5) c by (simp add: dataset_schema_def)
  obtain fs fend ls lend where streams: "table_rows ffields features = (fs, fend)" "table_rows lfields labels = (ls, lend)"
    by (metis surj_pair)
  have "?J = (yielded, counts', Inr ()) \<longleftrightarrow>
      (\<exists>s'. join_streams (encode ofields) split hs (label_column primary) stride date (fs, fend) (ls, lend)
        \<lparr>jn_counts = start_counts hs counts, jn_writer = \<lparr>wr_output = [], wr_yielded = []\<rparr>\<rparr> = (Inr (), s')
        \<and> wr_yielded (jn_writer s') = yielded \<and> jn_counts s' = counts')"
    by (auto simp: join_feature_label_batches_def c ok [unfolded c] lf [unfolded c] of streams primary Let_def
        split: prod.splits)
  also note join_streams_iff [OF start_counts_horizons]
  finally show ?thesis
    using ok c primary lf of streams start_counts_same by auto
next
  case False
  then show ?thesis
    by (auto simp: join_feature_label_batches_def Let_def split: sum.splits option.splits)
qed

definition fresh_counts :: partition_join_counts where
  "fresh_counts = \<lparr>pj_qualifying_rows = 0, pj_dropped_incomplete_history = 0,
     pj_dropped_unavailable_primary_label = 0, pj_dropped_by_row_stride = 0, pj_retained_rows = 0,
     pj_class_counts = [(''down'', 0), (''flat'', 0), (''up'', 0)], pj_label_available = [],
     pj_label_unavailable = []\<rparr>"

lemma label_horizons_distinct: "label_horizons config = Inr hs \<Longrightarrow> distinct hs"
  by (auto simp: label_horizons_def bindR_eq_Inr require_eq_Inr simp del: list.map split: option.splits)

lemma dict_get_default_key: "has_key d k \<Longrightarrow> dict_get d k = Some (dict_get_default d k 0)"
  by (auto simp: has_key_def dict_get_default_def)

lemma tallied_horizons: "counts_horizons hs c \<Longrightarrow> counts_horizons hs (tallied hs c pairs)"
  unfolding tallied_def by (induction pairs arbitrary: c) (auto simp: tally_horizons)

text \<open>
  The counts of a completed join that started from fresh counts are exact: every row of the
  streams is counted, as dropped for one of three reasons or retained; at every horizon the rows
  with and without a label are those of the label stream; and the classes of the retained rows sum
  to their number, which is that of the rows in the batches.
\<close>

theorem join_counts_exact:
  assumes "join_feature_label_batches from_iso encode features labels feature_config label_config sampling partitions
      date fresh_counts = (yielded, counts, Inr ())"
    and "label_horizons label_config = Inr hs" and "label_schema label_config = Inr lfields" and "h \<in> set hs"
  shows "reconciled counts
    \<and> pj_qualifying_rows counts = int (length (fst (table_rows lfields labels)))
    \<and> dict_get (pj_label_available counts) h
        = Some (int (length (filter (labelled_at h) (fst (table_rows lfields labels)))))
    \<and> dict_get (pj_label_unavailable counts) h
        = Some (int (length (filter (\<lambda>l. \<not> labelled_at h l) (fst (table_rows lfields labels)))))
    \<and> class_total counts = pj_retained_rows counts
    \<and> (\<exists>rows schema. pj_retained_rows counts = int (length rows)
        \<and> map (encode schema) (chunks_of OUTPUT_BATCH_ROWS rows) = map Some yielded)"
proof (intro conjI)
  obtain split ofields pairs where labels: "table_rows lfields labels = (map (\<lambda>p. fst (snd p)) pairs, None)"
    and counts: "counts = tallied hs (start_counts hs fresh_counts) pairs" "reconciled fresh_counts"
    and out: "map (encode ofields) (chunks_of OUTPUT_BATCH_ROWS (retained_rows split hs pairs)) = map Some yielded"
    using assms(1) unfolding join_exact assms(2,3) by auto
  let ?c = "start_counts hs fresh_counts"
  have "counts_horizons hs counts" unfolding counts(1) by (intro tallied_horizons start_counts_horizons)
  then have keys: "has_key (pj_label_available counts) h" "has_key (pj_label_unavailable counts) h"
    using assms(4) by (simp_all add: counts_horizons_def list_all_iff)
  have zero: "dict_get_default (pj_label_available ?c) h 0 = 0" "dict_get_default (pj_label_unavailable ?c) h 0 = 0"
    by (auto simp: start_counts_def dict_get_default_def dict_get_def map_of_eq_Some_iff split: option.splits
        dest: map_of_SomeD)
  note available = tallied_available [OF label_horizons_distinct [OF assms(2)] assms(4), of ?c pairs]
  show "reconciled counts"
    using counts(2) unfolding counts(1) reconciled_balance tallied_balance
    by (simp add: balance_def start_counts_def)
  show "pj_qualifying_rows counts = int (length (fst (table_rows lfields labels)))"
    by (simp add: counts(1) labels tallied_rows(1) start_counts_def fresh_counts_def)
  show "dict_get (pj_label_available counts) h
      = Some (int (length (filter (labelled_at h) (fst (table_rows lfields labels)))))"
    unfolding dict_get_default_key [OF keys(1)] using available(1) zero(1) by (simp add: counts(1) labels)
  show "dict_get (pj_label_unavailable counts) h
      = Some (int (length (filter (\<lambda>l. \<not> labelled_at h l) (fst (table_rows lfields labels)))))"
    unfolding dict_get_default_key [OF keys(2)] using available(2) zero(2) by (simp add: counts(1) labels)
  have retained: "pj_retained_rows counts = int (length (retained_rows split hs pairs))"
    by (simp add: counts(1) tallied_rows(2) [where split = split] start_counts_def fresh_counts_def)
  have "dict_ok (pj_class_counts ?c)" by (simp add: start_counts_def fresh_counts_def dict_ok_def)
  from tallied_classes [OF this, of hs pairs split] show "class_total counts = pj_retained_rows counts"
    unfolding retained by (simp add: counts(1) class_total_def start_counts_def fresh_counts_def dict_sum_def)
  show "\<exists>rows schema. pj_retained_rows counts = int (length rows)
      \<and> map (encode schema) (chunks_of OUTPUT_BATCH_ROWS rows) = map Some yielded"
    using retained out by blast
qed

text \<open>
  A join on concrete rows: the label batch is that of the label generator, the first row has no
  history, and the last no primary label; the split of the day is looked up among three days.
\<close>

definition sample_isoformat :: "string \<Rightarrow> day option" where
  "sample_isoformat s = map_of [(''2019-12-30'', (2019, 12, 30)), (''2019-12-31'', (2019, 12, 31)),
     (''2020-01-02'', (2020, 1, 2))] s"

definition sample_partitions :: partition_config where
  "sample_partitions = \<lparr>cd_train_dates = [PyStr ''2019-12-30''], cd_validation_dates = [PyStr ''2019-12-31''],
     cd_test_dates = [PyStr ''2020-01-02'']\<rparr>"

definition sample_label_config :: label_config where
  "sample_label_config = \<lparr>lc_primary_event_horizon = PyInt 1, lc_secondary_event_horizons = [PyInt 2],
     lc_flat_threshold_ticks = PyInt 0\<rparr>"

definition sample_feature_row :: "int \<Rightarrow> int \<Rightarrow> int \<Rightarrow> bool \<Rightarrow> cell row" where
  "sample_feature_row i t ordinal complete =
     [(''trading_date'', Py (PyDate (2019, 12, 30))), (''symbol'', Py (PyStr ''AAPL'')), (''symbol_id'', Py (PyInt 7)),
      (''message_index'', Py (PyInt i)), (''timestamp_ns'', Py (PyInt t)),
      (''qualifying_ordinal'', Py (PyInt ordinal)), (''history_complete'', Py (PyBool complete)),
      (''spread_ticks'', Float_bits 4607182418800017408)]"

definition sample_label_batches :: "pyval table_batch list" where
  "sample_label_batches = fst (build_label_batches (\<lambda>schema rows. Some (Record_batch schema rows))
     [Record_batch (snapshot_schema 1) [sample_snapshot 3 10 True 10000, sample_snapshot 5 20 False 10000,
        sample_snapshot 6 20 True 10300, sample_snapshot 9 30 True 10200]]
     (Some sample_label_config) sample_context)"

definition sample_feature_batches :: "cell table_batch list" where
  "sample_feature_batches = [Record_batch (projr (feature_schema (Some version_1_features)))
     [sample_feature_row 3 10 0 False, sample_feature_row 6 20 1 True, sample_feature_row 9 30 2 True]]"

definition sample_dataset :: "cell table_batch list \<times> partition_join_counts \<times> unit result" where
  "sample_dataset = join_feature_label_batches sample_isoformat (\<lambda>schema rows. Some (Record_batch schema rows))
     sample_feature_batches sample_label_batches (Some version_1_features) (Some sample_label_config)
     (Some \<lparr>sc_row_stride = PyInt 1\<rparr>) (Some sample_partitions) (2019, 12, 30) fresh_counts"

lemma sample_dataset_completes: "snd (snd sample_dataset) = Inr ()"
  by code_simp

lemma join_counts_exact_witness:
  "pj_qualifying_rows (fst (snd sample_dataset)) = 3 \<and> pj_retained_rows (fst (snd sample_dataset)) = 1
   \<and> class_total (fst (snd sample_dataset)) = 1
   \<and> dict_get (pj_label_available (fst (snd sample_dataset))) 2 = Some 1
   \<and> dict_get (pj_label_unavailable (fst (snd sample_dataset))) 2 = Some 2"
proof -
  have run: "join_feature_label_batches sample_isoformat (\<lambda>schema rows. Some (Record_batch schema rows))
     sample_feature_batches sample_label_batches (Some version_1_features) (Some sample_label_config)
     (Some \<lparr>sc_row_stride = PyInt 1\<rparr>) (Some sample_partitions) (2019, 12, 30) fresh_counts
    = (fst sample_dataset, fst (snd sample_dataset), Inr ())"
    using sample_dataset_completes unfolding sample_dataset_def by (simp add: prod_eq_iff)
  have hs: "label_horizons (Some sample_label_config) = Inr [1, 2]" by code_simp
  then have schema: "label_schema (Some sample_label_config) = Inr (projr (label_schema (Some sample_label_config)))"
    by (simp add: label_schema_def)
  have "length (fst (table_rows (projr (label_schema (Some sample_label_config))) sample_label_batches)) = 3"
    "length (filter (labelled_at 2) (fst (table_rows (projr (label_schema (Some sample_label_config))) sample_label_batches))) = 1"
    "length (filter (\<lambda>l. \<not> labelled_at 2 l)
      (fst (table_rows (projr (label_schema (Some sample_label_config))) sample_label_batches))) = 2"
    "pj_retained_rows (fst (snd sample_dataset)) = 1"
    by code_simp+
  with join_counts_exact [OF run hs schema, of 2] show ?thesis by simp
qed

end
