(* ===== verification/Feature_Flow.thy ===== *)
theory Feature_Flow
  imports Labels Feature_Schema
begin

text \<open>
  The event flow of \<open>datasets/features.py\<close>: how the feature state consumes events, which
  executions its rolling windows hold, what a broken trade withdraws, and the event counts of its
  clock windows.

  Contributions are mutable objects shared by the pending list, the windows' buckets and the match
  entries. They live in a store: the \<open>k\<close>th contribution created is the \<open>k\<close>th of a list, and the
  others hold its number. The rolling sums of floating-point values and the feature row itself are
  in \<open>Feature_Rows\<close>.
\<close>

section \<open>State\<close>

record execution_contribution =
  ec_match_number :: int
  ec_signed_quantity :: int
  ec_quantity :: int
  ec_active :: bool
  ec_windows :: "int set"

type_synonym store = "execution_contribution list"

record execution_match =
  em_contributions :: "nat list"
  em_broken :: bool

record execution_window =
  ew_window :: int
  ew_buckets :: "nat list list"
  ew_signed_quantity :: int
  ew_quantity :: int

type_synonym clock_key = "int \<times> string \<times> int"

record feature_state =
  fs_previous_event_index :: "int option"
  fs_previous_event_timestamp :: "int option"
  fs_previous_snapshot_index :: "int option"
  fs_previous_snapshot_timestamp :: "int option"
  fs_store :: store
  fs_execution :: "(int, execution_window) dict"
  fs_pending_executions :: "nat list"
  fs_matches :: "(int, execution_match) dict"
  fs_clock_events :: "(clock_key, (int \<times> int) list) dict"

definition RATE_CATEGORIES :: "string list" where
  "RATE_CATEGORIES = [''add'', ''cancel_delete'', ''execution'']"

definition new_execution_window :: "int \<Rightarrow> execution_window" where
  "new_execution_window window = \<lparr>ew_window = window, ew_buckets = [], ew_signed_quantity = 0, ew_quantity = 0\<rparr>"

definition clock_keys :: "int list \<Rightarrow> clock_key list" where
  "clock_keys clock_windows = concat (map (\<lambda>window. concat (map (\<lambda>category.
     map (\<lambda>side. (window, category, side)) [1, -1]) RATE_CATEGORIES)) clock_windows)"

definition new_feature_state :: "int list \<Rightarrow> int list \<Rightarrow> feature_state" where
  "new_feature_state event_windows clock_windows = \<lparr>
     fs_previous_event_index = None, fs_previous_event_timestamp = None,
     fs_previous_snapshot_index = None, fs_previous_snapshot_timestamp = None,
     fs_store = [],
     fs_execution = map (\<lambda>window. (window, new_execution_window window)) event_windows,
     fs_pending_executions = [], fs_matches = [],
     fs_clock_events = map (\<lambda>key. (key, [])) (clock_keys clock_windows)\<rparr>"

section \<open>Execution windows\<close>

definition evict_item :: "store \<times> execution_window \<Rightarrow> nat \<Rightarrow> store \<times> execution_window" where
  "evict_item = (\<lambda>(store, self) k.
     let c = store ! k in
     if ew_window self \<in> ec_windows c
     then (store[k := c\<lparr>ec_windows := ec_windows c - {ew_window self}\<rparr>],
           if ec_active c
           then self\<lparr>ew_signed_quantity := ew_signed_quantity self - ec_signed_quantity c,
                     ew_quantity := ew_quantity self - ec_quantity c\<rparr>
           else self)
     else (store, self))"

definition admit_item :: "store \<times> execution_window \<Rightarrow> nat \<Rightarrow> store \<times> execution_window" where
  "admit_item = (\<lambda>(store, self) k.
     let c = store ! k in
     (store[k := c\<lparr>ec_windows := insert (ew_window self) (ec_windows c)\<rparr>],
      if ec_active c
      then self\<lparr>ew_signed_quantity := ew_signed_quantity self + ec_signed_quantity c,
                ew_quantity := ew_quantity self + ec_quantity c\<rparr>
      else self))"

text \<open>\<open>_ExecutionWindow.append\<close>: the contributions evicted, the store and the window after it.\<close>

definition window_append ::
  "nat list \<Rightarrow> store \<Rightarrow> execution_window \<Rightarrow> nat list \<times> store \<times> execution_window" where
  "window_append contributions store self = (
     let (evicted, self1) =
           (if int (length (ew_buckets self)) = ew_window self
            then (hd (ew_buckets self), self\<lparr>ew_buckets := tl (ew_buckets self)\<rparr>)
            else ([], self));
         (store1, self2) = foldl evict_item (store, self1) evicted;
         self3 = self2\<lparr>ew_buckets := ew_buckets self2 @ [contributions]\<rparr>;
         (store2, self4) = foldl admit_item (store1, self3) contributions in
     (evicted, store2, self4))"

definition break_contribution :: "execution_contribution \<Rightarrow> execution_window \<Rightarrow> execution_window" where
  "break_contribution c self = (
     if ec_active c \<and> ew_window self \<in> ec_windows c
     then self\<lparr>ew_signed_quantity := ew_signed_quantity self - ec_signed_quantity c,
               ew_quantity := ew_quantity self - ec_quantity c\<rparr>
     else self)"

text \<open>The bucket appended to every window, in turn.\<close>

fun append_windows ::
  "nat list \<Rightarrow> store \<Rightarrow> (int, execution_window) dict \<Rightarrow> nat list \<times> store \<times> (int, execution_window) dict" where
  "append_windows bucket store [] = ([], store, [])"
| "append_windows bucket store ((key, w) # rest) = (
     case window_append bucket store w of (evicted, store1, w1) \<Rightarrow>
     case append_windows bucket store1 rest of (more_evicted, store2, rest1) \<Rightarrow>
       (evicted @ more_evicted, store2, (key, w1) # rest1))"

text \<open>
  An evicted contribution that is in no window leaves its match entry, which goes with its last
  contribution; \<open>None\<close> is the \<open>ValueError\<close> of \<open>list.remove\<close>. The code visits the set of evicted
  contributions in an unspecified order, here in order of creation.
\<close>

definition forget_contribution ::
  "store \<Rightarrow> (int, execution_match) dict \<Rightarrow> nat \<Rightarrow> (int, execution_match) dict option" where
  "forget_contribution store matches k = (
     let c = store ! k in
     if ec_windows c \<noteq> {} then Some matches
     else case dict_get matches (ec_match_number c) of
       None \<Rightarrow> Some matches
     | Some entry \<Rightarrow>
       if k \<notin> set (em_contributions entry) then None
       else let rest = remove1 k (em_contributions entry) in
         if rest = [] then Some (dict_del (ec_match_number c) matches)
         else Some (dict_set (ec_match_number c) (entry\<lparr>em_contributions := rest\<rparr>) matches))"

fun forget_all ::
  "store \<Rightarrow> nat list \<Rightarrow> (int, execution_match) dict \<Rightarrow> (int, execution_match) dict option" where
  "forget_all store [] matches = Some matches"
| "forget_all store (k # ks) matches = Option.bind (forget_contribution store matches k) (forget_all store ks)"

definition append_execution_bucket :: "feature_state \<Rightarrow> feature_state option" where
  "append_execution_bucket s = (
     let bucket = fs_pending_executions s in
     case append_windows bucket (fs_store s) (fs_execution s) of (evicted, store1, execution1) \<Rightarrow>
     map_option (\<lambda>matches. s\<lparr>fs_pending_executions := [], fs_store := store1, fs_execution := execution1,
         fs_matches := matches\<rparr>)
       (forget_all store1 (sort (remdups evicted)) (fs_matches s)))"

section \<open>Clock windows\<close>

definition trim_clock :: "int \<Rightarrow> (int \<times> int) list \<Rightarrow> (int \<times> int) list" where
  "trim_clock lower queue = dropWhile (\<lambda>e. fst e \<le> lower) queue"

definition queue_of :: "clock_key \<Rightarrow> feature_state \<Rightarrow> (int \<times> int) list" where
  "queue_of key s = dict_get_default (fs_clock_events s) key []"

definition set_queue :: "clock_key \<Rightarrow> (int \<times> int) list \<Rightarrow> feature_state \<Rightarrow> feature_state" where
  "set_queue key queue s = s\<lparr>fs_clock_events := dict_set key queue (fs_clock_events s)\<rparr>"

definition count_clock_event :: "int list \<Rightarrow> string \<Rightarrow> int \<Rightarrow> int \<Rightarrow> int \<Rightarrow> feature_state \<Rightarrow> feature_state" where
  "count_clock_event clock_windows category side timestamp_ns msg_index s =
     foldl (\<lambda>s window. set_queue (window, category, side)
         (trim_clock (timestamp_ns - window) (queue_of (window, category, side) s @ [(timestamp_ns, msg_index)])) s)
       s clock_windows"

text \<open>
  \<open>_clock_rates\<close> trims every queue and divides its length by the window in seconds; here the length,
  when the session is as old as the window.
\<close>

definition clock_counts ::
  "partition_context \<Rightarrow> int list \<Rightarrow> int \<Rightarrow> feature_state \<Rightarrow> (clock_key \<times> int option) list \<times> feature_state" where
  "clock_counts pc clock_windows timestamp_ns s = (
     let s1 = foldl (\<lambda>s (window, category, side). set_queue (window, category, side)
           (trim_clock (timestamp_ns - window) (queue_of (window, category, side) s)) s) s (clock_keys clock_windows) in
     (map (\<lambda>key. (key, if timestamp_ns - pc_session_start_ns pc \<ge> fst key
         then Some (int (length (queue_of key s1))) else None)) (clock_keys clock_windows), s1))"

section \<open>Events and snapshots\<close>

definition EVENT_KINDS :: "string list" where
  "EVENT_KINDS = [''add'', ''execute'', ''execute_price'', ''cancel'', ''delete'', ''replace'', ''trade'',
     ''cross'', ''broken_trade'', ''trading_state'']"

definition rate_category :: "string \<Rightarrow> string option" where
  "rate_category kind = map_of [(''add'', ''add''), (''cancel'', ''cancel_delete''), (''delete'', ''cancel_delete''),
     (''execute'', ''execution''), (''execute_price'', ''execution'')] kind"

definition validate_identity :: "partition_context \<Rightarrow> pyval row \<Rightarrow> (int \<times> int) result" where
  "validate_identity context row = (
     if dict_get row ''trading_date'' \<noteq> Some (PyDate (pc_trading_date context))
        \<or> dict_get row ''symbol'' \<noteq> Some (PyStr (pc_symbol context))
        \<or> dict_get row ''symbol_id'' \<noteq> Some (PyInt (pc_symbol_id context))
     then fail_code ERR_INVARIANT
     else
     bindR (item row ''message_index'') (\<lambda>message_value.
     bindR (item row ''timestamp_ns'') (\<lambda>time_value.
     case plain_int message_value of
       None \<Rightarrow> fail_code ERR_INVARIANT
     | Some i \<Rightarrow> (
     case plain_int time_value of
       None \<Rightarrow> fail_message ERR_TIMESTAMP i
     | Some t \<Rightarrow>
     bindR (require (0 \<le> t \<and> t < DAY_NANOS) (fail_message ERR_TIMESTAMP i)) (\<lambda>_. Inr (i, t))))))"

definition py_text :: "pyval \<Rightarrow> string option" where
  "py_text v = (case v of PyStr s \<Rightarrow> Some s | _ \<Rightarrow> None)"

definition side_value :: "pyval \<Rightarrow> int option" where
  "side_value v = (case as_int v of None \<Rightarrow> None | Some n \<Rightarrow> if n = 1 \<or> n = -1 then Some n else None)"

definition consume_rate_event ::
  "int list \<Rightarrow> string \<Rightarrow> int \<Rightarrow> int \<Rightarrow> pyval row \<Rightarrow> (feature_state, unit) smethod" where
  "consume_rate_event clock_windows kind i t row = (case rate_category kind of
       None \<Rightarrow> returnM ()
     | Some category \<Rightarrow>
       bindM (liftM (item row ''side'')) (\<lambda>side.
       case side_value side of
         None \<Rightarrow> liftM (fail_message ERR_INVARIANT i)
       | Some n \<Rightarrow> modifyM (count_clock_event clock_windows category n t i)))"

definition add_execution :: "int \<Rightarrow> int \<Rightarrow> int \<Rightarrow> feature_state \<Rightarrow> feature_state" where
  "add_execution match_number signed_quantity quantity s = (
     let entry = dict_get_default (fs_matches s) match_number \<lparr>em_contributions = [], em_broken = False\<rparr>;
         k = length (fs_store s);
         contribution = \<lparr>ec_match_number = match_number, ec_signed_quantity = signed_quantity,
           ec_quantity = quantity, ec_active = \<not> em_broken entry, ec_windows = {}\<rparr> in
     s\<lparr>fs_store := fs_store s @ [contribution],
       fs_pending_executions := fs_pending_executions s @ [k],
       fs_matches := dict_set match_number (entry\<lparr>em_contributions := em_contributions entry @ [k]\<rparr>)
         (fs_matches s)\<rparr>)"

definition withdraw :: "feature_state \<Rightarrow> nat \<Rightarrow> feature_state" where
  "withdraw s k = (
     let c = fs_store s ! k in
     if ec_active c
     then s\<lparr>fs_execution := map (\<lambda>(key, w). (key, break_contribution c w)) (fs_execution s),
            fs_store := (fs_store s)[k := c\<lparr>ec_active := False\<rparr>]\<rparr>
     else s)"

definition break_match :: "int \<Rightarrow> feature_state \<Rightarrow> feature_state" where
  "break_match match_number s = (case dict_get (fs_matches s) match_number of
       None \<Rightarrow> s
     | Some entry \<Rightarrow>
       if em_broken entry then s
       else let s1 = foldl withdraw s (em_contributions entry) in
         s1\<lparr>fs_matches := dict_set match_number (entry\<lparr>em_broken := True\<rparr>) (fs_matches s1)\<rparr>)"

definition consume_flow_event :: "string \<Rightarrow> int \<Rightarrow> pyval row \<Rightarrow> (feature_state, unit) smethod" where
  "consume_flow_event kind i row = (
     if kind = ''execute'' \<or> kind = ''execute_price'' then
       bindM (liftM (item row ''side'')) (\<lambda>side.
       bindM (liftM (item row ''quantity'')) (\<lambda>quantity.
       bindM (liftM (item row ''secondary_reference'')) (\<lambda>match_number.
       case (side_value side, as_int quantity, as_int match_number) of
         (Some n, Some q, Some m) \<Rightarrow>
           if q \<le> 0 then liftM (fail_message ERR_INVARIANT i)
           else modifyM (add_execution m (- n * q) q)
       | _ \<Rightarrow> liftM (fail_message ERR_INVARIANT i))))
     else if kind = ''broken_trade'' then
       bindM (liftM (item row ''primary_reference'')) (\<lambda>match_number.
       case as_int match_number of
         None \<Rightarrow> liftM (fail_message ERR_INVARIANT i)
       | Some m \<Rightarrow> modifyM (break_match m))
     else returnM ())"

definition consume_event ::
  "partition_context \<Rightarrow> int list \<Rightarrow> pyval row \<Rightarrow> (feature_state, unit) smethod" where
  "consume_event context clock_windows row s = (
     case validate_identity context row of
       Inl e \<Rightarrow> (Inl e, s)
     | Inr (i, t) \<Rightarrow>
     if (case fs_previous_event_index s of None \<Rightarrow> False | Some p \<Rightarrow> i \<le> p)
     then (fail_message ERR_INVARIANT i, s)
     else if (case fs_previous_event_timestamp s of None \<Rightarrow> False | Some p \<Rightarrow> t < p)
     then (fail_message ERR_TIMESTAMP i, s)
     else
     let s1 = s\<lparr>fs_previous_event_index := Some i, fs_previous_event_timestamp := Some t\<rparr>;
         expected_in_session = (pc_session_start_ns context \<le> t \<and> t < pc_session_end_ns context) in
     bindM (liftM (item row ''in_session'')) (\<lambda>in_session.
     if as_int in_session \<noteq> Some (if expected_in_session then 1 else 0) then liftM (fail_message ERR_INVARIANT i)
     else
     bindM (liftM (item row ''event_kind'')) (\<lambda>kind_value.
     case py_text kind_value of
       None \<Rightarrow> liftM (fail_message ERR_SCHEMA_VERSION i)
     | Some kind \<Rightarrow>
     if kind \<notin> set EVENT_KINDS then liftM (fail_message ERR_SCHEMA_VERSION i)
     else if \<not> expected_in_session then returnM ()
     else
     bindM (consume_rate_event clock_windows kind i t row) (\<lambda>_.
     consume_flow_event kind i row))) s1)"

definition validate_snapshot :: "partition_context \<Rightarrow> pyval row \<Rightarrow> (feature_state, int \<times> int) smethod" where
  "validate_snapshot context row s = (
     case validate_identity context row of
       Inl e \<Rightarrow> (Inl e, s)
     | Inr (i, t) \<Rightarrow>
     if (case fs_previous_snapshot_index s of None \<Rightarrow> False | Some p \<Rightarrow> i \<le> p)
     then (fail_message ERR_INVARIANT i, s)
     else if (case fs_previous_snapshot_timestamp s of None \<Rightarrow> False | Some p \<Rightarrow> t < p)
     then (fail_message ERR_TIMESTAMP i, s)
     else if \<not> (pc_session_start_ns context \<le> t \<and> t < pc_session_end_ns context)
     then (fail_message ERR_SESSION_WINDOW i, s)
     else (Inr (i, t), s\<lparr>fs_previous_snapshot_index := Some i, fs_previous_snapshot_timestamp := Some t\<rparr>))"

end
