(* ===== verification/Doubles.thy ===== *)
theory Doubles
  imports Common Complex_Main "HOL-Library.Log_Nat"
begin

text \<open>
  Python's floats: IEEE 754 double precision as the exact rational value of a finite double, or
  none for an infinity or a NaN. The four operations, division of integers, conversion of an
  integer and \<open>math.fsum\<close> round the exact result to the nearest double, ties to even; a result
  beyond the largest double is not finite. Negative zero is zero: nothing the code does tells
  them apart. The modelled code tests every result that may not be finite before it divides by it
  or compares it with anything but bounds that are themselves tested, so infinities and NaN need
  not be told apart either: an operation on one of them gives none.

  \<open>math.log\<close>, \<open>math.log1p\<close> and \<open>math.sqrt\<close> are the C library's and arguments of the model.
\<close>

type_synonym pyfloat = "rat option"

definition round_half_even :: "rat \<Rightarrow> int" where
  "round_half_even r = (let n = \<lfloor>r\<rfloor>; d = r - of_int n in
     if d < 1 / 2 \<or> d = 1 / 2 \<and> even n then n else n + 1)"

definition pow2 :: "int \<Rightarrow> rat" where
  "pow2 e = (if 0 \<le> e then 2 ^ nat e else 1 / 2 ^ nat (- e))"

text \<open>The exponent of the unit in the last place of the double nearest to a positive rational.\<close>

definition ulp_exponent :: "rat \<Rightarrow> int" where
  "ulp_exponent r = (let (n, d) = quotient_of r; e = bitlen n - bitlen d - 53 in
     max (if pow2 (e + 53) \<le> r then e + 1 else e) (-1074))"

definition LARGEST_DOUBLE :: rat where "LARGEST_DOUBLE = (2 ^ 53 - 1) * 2 ^ 971"

definition round_double :: "rat \<Rightarrow> pyfloat" where
  "round_double r = (if r = 0 then Some 0 else
     let u = pow2 (ulp_exponent \<bar>r\<bar>); v = of_int (round_half_even (\<bar>r\<bar> / u)) * u in
     if LARGEST_DOUBLE < v then None else Some (if r < 0 then - v else v))"

definition float_op :: "(rat \<Rightarrow> rat \<Rightarrow> rat) \<Rightarrow> pyfloat \<Rightarrow> pyfloat \<Rightarrow> pyfloat" where
  "float_op f x y = (case x of None \<Rightarrow> None | Some a \<Rightarrow> (case y of None \<Rightarrow> None | Some b \<Rightarrow> round_double (f a b)))"

definition fadd :: "pyfloat \<Rightarrow> pyfloat \<Rightarrow> pyfloat" where "fadd = float_op (+)"
definition fsub :: "pyfloat \<Rightarrow> pyfloat \<Rightarrow> pyfloat" where "fsub = float_op (-)"
definition fmul :: "pyfloat \<Rightarrow> pyfloat \<Rightarrow> pyfloat" where "fmul = float_op (*)"
definition fdiv :: "pyfloat \<Rightarrow> pyfloat \<Rightarrow> pyfloat" where "fdiv = float_op (/)"

definition fneg :: "pyfloat \<Rightarrow> pyfloat" where
  "fneg x = map_option uminus x"

text \<open>
  \<open>float(n)\<close> and \<open>m / n\<close>; the integers the code converts are far below the largest double, where
  Python would raise \<open>OverflowError\<close>.
\<close>

definition float_of_int :: "int \<Rightarrow> pyfloat" where
  "float_of_int n = round_double (of_int n)"

definition int_div :: "int \<Rightarrow> int \<Rightarrow> pyfloat" where
  "int_div m n = round_double (of_int m / of_int n)"

definition fsum :: "pyfloat list \<Rightarrow> pyfloat" where
  "fsum xs = (if None \<in> set xs then None else round_double (sum_list (map the xs)))"

definition is_finite :: "pyfloat \<Rightarrow> bool" where
  "is_finite x \<longleftrightarrow> x \<noteq> None"

definition fmin :: "pyfloat \<Rightarrow> pyfloat \<Rightarrow> pyfloat" where
  "fmin x y = (case x of None \<Rightarrow> None | Some a \<Rightarrow> (case y of None \<Rightarrow> None | Some b \<Rightarrow> Some (min a b)))"

definition fmax :: "pyfloat \<Rightarrow> pyfloat \<Rightarrow> pyfloat" where
  "fmax x y = (case x of None \<Rightarrow> None | Some a \<Rightarrow> (case y of None \<Rightarrow> None | Some b \<Rightarrow> Some (max a b)))"

text \<open>\<open>x <= q\<close> for a tested \<open>x\<close>.\<close>

definition at_most :: "pyfloat \<Rightarrow> rat \<Rightarrow> bool" where
  "at_most x q \<longleftrightarrow> (case x of None \<Rightarrow> False | Some a \<Rightarrow> a \<le> q)"

section \<open>Rounding\<close>

lemma round_half_even_nonneg: "0 \<le> r \<Longrightarrow> 0 \<le> round_half_even r"
  by (simp add: round_half_even_def Let_def)

lemma pow2_pos [simp]: "0 < pow2 e"
  by (simp add: pow2_def)

lemma pow2_neq_zero [simp]: "pow2 e \<noteq> 0"
  using pow2_pos [of e] by (metis less_irrefl)

lemma round_double_nonneg:
  assumes "0 \<le> r" "round_double r = Some v"
  shows "0 \<le> v"
proof (cases "r = 0")
  case True
  then show ?thesis using assms(2) by (simp add: round_double_def)
next
  case False
  have "0 \<le> of_int (round_half_even (r / pow2 (ulp_exponent r))) * pow2 (ulp_exponent r)"
    using assms(1) by (intro mult_nonneg_nonneg) (simp_all add: round_half_even_nonneg less_imp_le)
  then show ?thesis using assms False by (auto simp: round_double_def Let_def split: if_splits)
qed

lemma round_double_neg: "round_double (- r) = fneg (round_double r)"
  by (auto simp: round_double_def Let_def fneg_def)

text \<open>Rounding is exact on the integers that fit the significand.\<close>

lemma float_zero [simp]: "float_of_int 0 = Some 0" "round_double 0 = Some 0"
  by (simp_all add: float_of_int_def round_double_def)

section \<open>Doubles round to themselves\<close>

lemma pow2_add: "pow2 (a + b) = pow2 a * pow2 b"
proof -
  have "pow2 e = 2 powi e" for e by (simp add: pow2_def power_int_def power_one_over)
  then show ?thesis by (simp add: power_int_add)
qed

lemma pow2_mono: "a \<le> b \<Longrightarrow> pow2 a \<le> pow2 b"
proof -
  have "pow2 e = 2 powi e" for e by (simp add: pow2_def power_int_def power_one_over)
  then show "a \<le> b \<Longrightarrow> pow2 a \<le> pow2 b" by (simp add: power_int_increasing)
qed

lemma pow2_cancel: "pow2 (a + b) / pow2 b = pow2 a"
  using pow2_pos [of b] by (simp add: pow2_add less_imp_neq [symmetric])

text \<open>The unit in the last place is the smallest double, or the significand has its full 53 bits.\<close>

lemma ulp_exponent_bound:
  assumes "0 < r"
  shows "ulp_exponent r = -1074 \<or> pow2 (ulp_exponent r + 52) \<le> r"
proof -
  obtain n d where q: "quotient_of r = (n, d)" by fastforce
  have d: "0 < d" using quotient_of_denom_pos [OF q] .
  have r: "r = of_int n / of_int d" using quotient_of_div [OF q] .
  then have n: "0 < n" using assms d by (simp add: zero_less_divide_iff)
  have nb: "2 ^ nat (bitlen n - 1) \<le> n" and db: "d < 2 ^ nat (bitlen d)"
    using bitlen_bounds [OF n] bitlen_bounds [OF d] by simp_all
  have pos: "0 < bitlen n" "0 < bitlen d" using n d bitlen_nonneg [of n] bitlen_nonneg [of d] bitlen_eq_zero_iff [of n] bitlen_eq_zero_iff [of d]
    by linarith+
  let ?e = "bitlen n - bitlen d - 53"
  have "(of_int (2 ^ nat (bitlen n - 1)) :: rat) \<le> of_int n" using nb by (simp only: of_int_le_iff)
  then have "pow2 (bitlen n - 1) \<le> of_int n" using pos(1) by (simp add: pow2_def)
  moreover have "(of_int d :: rat) < of_int (2 ^ nat (bitlen d))" using db by (simp only: of_int_less_iff)
  then have "of_int d < pow2 (bitlen d)" using pos(2) by (simp add: pow2_def)
  ultimately have "pow2 (bitlen n - 1) / pow2 (bitlen d) \<le> r"
    unfolding r using d n by (intro frac_le) simp_all
  moreover have "pow2 (bitlen n - 1) = pow2 (?e + 52) * pow2 (bitlen d)"
    unfolding pow2_add [symmetric] by (rule arg_cong [where f = pow2]) simp
  ultimately have low: "pow2 (?e + 52) \<le> r" using pow2_pos [of "bitlen d"] by simp
  show ?thesis
  proof (cases "pow2 (?e + 53) \<le> r")
    case True
    then have "ulp_exponent r = max (?e + 1) (-1074)" by (simp add: ulp_exponent_def q)
    moreover have "?e + 1 + 52 = ?e + 53" by simp
    ultimately show ?thesis using True by (simp add: max_def)
  next
    case False
    then have "ulp_exponent r = max ?e (-1074)" by (simp add: ulp_exponent_def q)
    then show ?thesis using low by (simp add: max_def)
  qed
qed

lemma round_half_even_int: "round_half_even (of_int k) = k"
  by (simp add: round_half_even_def)

lemma round_double_exact:
  assumes r: "r = of_int m * pow2 e" and m: "\<bar>m\<bar> < 2 ^ 53" and e: "-1074 \<le> e" "e \<le> 971"
  shows "round_double r = Some r"
proof (cases "r = 0")
  case False
  then have m0: "m \<noteq> 0" using r by auto
  have ar: "\<bar>r\<bar> = of_int \<bar>m\<bar> * pow2 e" using abs_of_pos [OF pow2_pos, of e] by (simp add: r abs_mult)
  define u where "u = ulp_exponent \<bar>r\<bar>"
  have ue: "u \<le> e"
  proof (rule ccontr)
    assume "\<not> u \<le> e"
    then have "u \<noteq> -1074" "e + 53 \<le> u + 52" using e by auto
    then have "pow2 (e + 53) \<le> \<bar>r\<bar>"
      using ulp_exponent_bound [of "\<bar>r\<bar>", folded u_def] False pow2_mono [of "e + 53" "u + 52"] by simp
    also have "\<bar>r\<bar> < 2 ^ 53 * pow2 e"
    proof -
      have "(of_int \<bar>m\<bar> :: rat) < of_int (2 ^ 53)" using m by (simp only: of_int_less_iff)
      then show ?thesis unfolding ar by (intro mult_strict_right_mono) simp_all
    qed
    also have "\<dots> = pow2 (e + 53)" by (simp add: pow2_add) (simp add: pow2_def)
    finally show False by simp
  qed
  have "pow2 e = pow2 (e - u) * pow2 u" by (simp flip: pow2_add)
  then have "\<bar>r\<bar> = of_int \<bar>m\<bar> * pow2 (e - u) * pow2 u" by (simp add: ar)
  moreover have "pow2 u \<noteq> 0" by (rule less_imp_neq [symmetric]) (rule pow2_pos)
  ultimately have "\<bar>r\<bar> / pow2 u = of_int \<bar>m\<bar> * pow2 (e - u)" by (metis nonzero_mult_div_cancel_right)
  moreover have "pow2 (e - u) = of_int (2 ^ nat (e - u))" using ue by (simp add: pow2_def)
  ultimately have q: "\<bar>r\<bar> / pow2 u = of_int (\<bar>m\<bar> * 2 ^ nat (e - u))" by simp
  have scaled: "of_int (round_half_even (\<bar>r\<bar> / pow2 u)) * pow2 u = \<bar>r\<bar>"
    unfolding q round_half_even_int unfolding q [symmetric] using pow2_pos [of u] by simp
  have "of_int \<bar>m\<bar> \<le> (2 ^ 53 - 1 :: rat)"
  proof -
    have "\<bar>m\<bar> \<le> 2 ^ 53 - 1" using m by simp
    then have "(of_int \<bar>m\<bar> :: rat) \<le> of_int (2 ^ 53 - 1)" by (simp only: of_int_le_iff)
    then show ?thesis by simp
  qed
  moreover have "pow2 e \<le> 2 ^ 971" using pow2_mono [OF e(2)] by (simp add: pow2_def)
  ultimately have "\<bar>r\<bar> \<le> LARGEST_DOUBLE"
    unfolding ar LARGEST_DOUBLE_def by (intro mult_mono) (simp_all add: less_imp_le)
  then show ?thesis using False scaled by (auto simp: round_double_def Let_def u_def)
qed simp

lemma ulp_exponent_above:
  assumes "0 < r"
  shows "r < pow2 (ulp_exponent r + 53)"
proof -
  obtain n d where q: "quotient_of r = (n, d)" by fastforce
  have d: "0 < d" using quotient_of_denom_pos [OF q] .
  have r: "r = of_int n / of_int d" using quotient_of_div [OF q] .
  then have n: "0 < n" using assms d by (simp add: zero_less_divide_iff)
  let ?e = "bitlen n - bitlen d - 53"
  have pos: "0 < bitlen n" "0 < bitlen d"
    using n d bitlen_nonneg [of n] bitlen_nonneg [of d] bitlen_eq_zero_iff [of n] bitlen_eq_zero_iff [of d]
    by linarith+
  have "(of_int n :: rat) < of_int (2 ^ nat (bitlen n))" using bitlen_bounds [OF n] by (simp only: of_int_less_iff)
  then have "of_int n < pow2 (bitlen n)" using pos(1) by (simp add: pow2_def)
  moreover have "(of_int (2 ^ nat (bitlen d - 1)) :: rat) \<le> of_int d" using bitlen_bounds [OF d] by (simp only: of_int_le_iff)
  then have "pow2 (bitlen d - 1) \<le> of_int d" using pos(2) by (simp add: pow2_def)
  ultimately have "r < pow2 (bitlen n) / pow2 (bitlen d - 1)"
    unfolding r using n by (intro frac_less) simp_all
  also have "pow2 (bitlen n) = pow2 (?e + 54) * pow2 (bitlen d - 1)"
    unfolding pow2_add [symmetric] by (rule arg_cong [where f = pow2]) simp
  finally have up: "r < pow2 (?e + 54)" by simp
  show ?thesis
  proof (cases "pow2 (?e + 53) \<le> r")
    case True
    then have "?e + 54 \<le> ulp_exponent r + 53" by (simp add: ulp_exponent_def q)
    then show ?thesis using up pow2_mono order.strict_trans2 by blast
  next
    case False
    then have "?e + 53 \<le> ulp_exponent r + 53" by (simp add: ulp_exponent_def q)
    then show ?thesis using False pow2_mono [of "?e + 53" "ulp_exponent r + 53"] by simp
  qed
qed

lemma round_half_even_le: "r \<le> of_int k \<Longrightarrow> round_half_even r \<le> k"
proof -
  assume le: "r \<le> of_int k"
  then have "\<lfloor>r\<rfloor> \<le> k" by (simp add: floor_le_iff le_less_trans)
  then consider "\<lfloor>r\<rfloor> = k" | "\<lfloor>r\<rfloor> + 1 \<le> k" by linarith
  then show ?thesis
  proof cases
    case 1
    then have "r = of_int k" using le of_int_floor_le [of r] by simp
    then show ?thesis by (simp add: round_half_even_int)
  qed (auto simp: round_half_even_def Let_def)
qed

lemma round_half_even_ge: "of_int k \<le> r \<Longrightarrow> k \<le> round_half_even r"
proof -
  assume "of_int k \<le> r"
  then have "k \<le> \<lfloor>r\<rfloor>" by (simp add: le_floor_iff)
  then show ?thesis by (simp add: round_half_even_def Let_def)
qed

text \<open>The result of a rounding is a double.\<close>

lemma round_double_form:
  assumes "round_double r = Some v"
  shows "\<exists>m e. v = of_int m * pow2 e \<and> \<bar>m\<bar> < 2 ^ 53 \<and> -1074 \<le> e \<and> e \<le> 971"
proof (cases "r = 0")
  case True
  then show ?thesis using assms by (intro exI [of _ 0]) (simp add: round_double_def)
next
  case False
  define u where "u = ulp_exponent \<bar>r\<bar>"
  define k where "k = round_half_even (\<bar>r\<bar> / pow2 u)"
  have u: "-1074 \<le> u" by (simp add: u_def ulp_exponent_def Let_def split: prod.split)
  have k0: "0 \<le> k" using round_half_even_nonneg [of "\<bar>r\<bar> / pow2 u"] by (simp add: k_def less_imp_le)
  have eq: "round_double r = (if LARGEST_DOUBLE < of_int k * pow2 u then None
      else Some (if r < 0 then - (of_int k * pow2 u) else of_int k * pow2 u))"
    using False by (simp add: round_double_def Let_def u_def k_def)
  have le: "of_int k * pow2 u \<le> LARGEST_DOUBLE" and "v = of_int k * pow2 u \<or> v = - (of_int k * pow2 u)"
    using assms eq by (auto split: if_splits)
  then have v: "\<bar>v\<bar> = of_int k * pow2 u" using k0 by (auto simp: less_imp_le)
  have "\<bar>r\<bar> < pow2 53 * pow2 u"
    using ulp_exponent_above [of "\<bar>r\<bar>"] False by (simp add: u_def add.commute flip: pow2_add)
  then have "\<bar>r\<bar> / pow2 u \<le> of_int (2 ^ 53)" by (simp add: divide_le_eq pow2_def [of 53] less_imp_le)
  then have k: "k \<le> 2 ^ 53" unfolding k_def by (rule round_half_even_le)
  have big: "LARGEST_DOUBLE < pow2 1024" by (simp add: LARGEST_DOUBLE_def pow2_def)
  have u_le: "u \<le> 971"
  proof (rule ccontr)
    assume "\<not> u \<le> 971"
    then have "pow2 (u + 52) \<le> \<bar>r\<bar>" using ulp_exponent_bound [of "\<bar>r\<bar>"] False by (simp add: u_def)
    then have "pow2 52 \<le> \<bar>r\<bar> / pow2 u" by (simp add: le_divide_eq add.commute flip: pow2_add)
    then have "2 ^ 52 \<le> k" unfolding k_def by (intro round_half_even_ge) (simp add: pow2_def)
    then have "(of_int (2 ^ 52) :: rat) \<le> of_int k" by (simp only: of_int_le_iff)
    then have "pow2 52 * pow2 u \<le> of_int k * pow2 u"
      using mult_right_mono [of "pow2 52" "of_int k" "pow2 u"] by (simp add: pow2_def [of 52] less_imp_le)
    moreover have "pow2 1024 \<le> pow2 52 * pow2 u"
      using pow2_mono [of 1024 "52 + u"] \<open>\<not> u \<le> 971\<close> by (simp add: pow2_add)
    ultimately show False using le big by linarith
  qed
  obtain m e where me: "of_int k * pow2 u = of_int m * pow2 e" "0 \<le> m" "m < 2 ^ 53" "-1074 \<le> e" "e \<le> 971"
  proof (cases "k = 2 ^ 53")
    case False
    then show ?thesis using that [of k u] k k0 u u_le by simp
  next
    case True
    have eq: "of_int k * pow2 u = of_int (2 ^ 52) * pow2 (u + 1)"
      using True by (simp add: pow2_add) (simp add: pow2_def)
    have "u \<noteq> 971"
    proof
      assume "u = 971"
      then have "of_int k * pow2 u = pow2 1024" using True by (simp add: pow2_def)
      then show False using le big by simp
    qed
    then show ?thesis using that [of "2 ^ 52" "u + 1"] eq u u_le by simp
  qed
  have "v = of_int (if v < 0 then - m else m) * pow2 e" using v me(1) by (simp add: abs_if split: if_splits)
  then show ?thesis using me(2-5) by (intro exI [of _ "if v < 0 then - m else m"] exI [of _ e]) auto
qed

lemma round_double_idem: "round_double r = Some v \<Longrightarrow> round_double v = Some v"
  using round_double_form round_double_exact by blast

text \<open>Integers of at most 53 bits, halves and quarters.\<close>

lemma round_int: "\<bar>m\<bar> < 2 ^ 53 \<Longrightarrow> round_double (of_int m) = Some (of_int m)"
  by (rule round_double_exact [of _ m 0]) (simp_all add: pow2_def)

text \<open>Integers need no rounding, which keeps evaluation short.\<close>

lemma round_double_code [code]:
  "round_double r = (case quotient_of r of (n, d) \<Rightarrow>
     if d = 1 \<and> \<bar>n\<bar> < 9007199254740992 then Some r else
     let u = pow2 (ulp_exponent \<bar>r\<bar>); v = of_int (round_half_even (\<bar>r\<bar> / u)) * u in
     if LARGEST_DOUBLE < v then None else Some (if r < 0 then - v else v))"
proof -
  obtain n d where q: "quotient_of r = (n, d)" by fastforce
  show ?thesis
  proof (cases "d = 1 \<and> \<bar>n\<bar> < 9007199254740992")
    case True
    then have "round_double r = Some r" using quotient_of_div [OF q] round_int [of n] by simp
    then show ?thesis by (simp only: q prod.case True simp_thms if_True)
  next
    case False
    then have "r \<noteq> 0" using q by auto
    then show ?thesis by (simp only: q prod.case False if_False round_double_def Let_def)
  qed
qed

lemma round_half: "\<bar>m\<bar> < 2 ^ 53 \<Longrightarrow> round_double (of_int m / 2) = Some (of_int m / 2)"
  by (rule round_double_exact [of _ m "-1"]) (simp_all add: pow2_def)

lemma round_quarter: "\<bar>m\<bar> < 2 ^ 53 \<Longrightarrow> round_double (of_int m / 4) = Some (of_int m / 4)"
  by (rule round_double_exact [of _ m "-2"]) (simp_all add: pow2_def)

end
