(* ===== verification/Calibration.thy ===== *)
theory Calibration
  imports Accounting Doubles "HOL-Library.List_Lexorder" "HOL-Library.Char_ord"
begin

text \<open>
  \<open>strategies/calibration.py\<close>: exact training-only aggregates of exposure and executions per symbol
  and distance, and the weighted log-linear fit of the intensity decay, pooled and per symbol.
\<close>

section \<open>Values\<close>

definition MIN_DISTANCE_TICKS :: int where "MIN_DISTANCE_TICKS = 0"
definition MAX_DISTANCE_TICKS :: int where "MAX_DISTANCE_TICKS = 10"
definition NANOSECONDS_PER_SECOND :: int where "NANOSECONDS_PER_SECOND = 1000000000"

datatype calibration_source = FROM_SYMBOL | FROM_POOLED

record intensity_bucket =
  ib_distance_ticks :: int
  ib_exposure_ns :: int
  ib_execution_count :: int

definition exposure_seconds :: "intensity_bucket \<Rightarrow> pyfloat" where
  "exposure_seconds self = int_div (ib_exposure_ns self) NANOSECONDS_PER_SECOND"

record symbol_intensity_calibration =
  si_symbol :: string
  si_kappa :: pyfloat
  si_intercept :: pyfloat
  si_source :: calibration_source
  si_buckets :: "intensity_bucket list"

record intensity_calibration =
  ic_training_dates :: "(int \<times> int \<times> int) list"
  ic_pooled_kappa :: pyfloat
  ic_pooled_intercept :: pyfloat
  ic_pooled_buckets :: "intensity_bucket list"
  ic_symbols :: "symbol_intensity_calibration list"

fun for_symbol :: "symbol_intensity_calibration list \<Rightarrow> string \<Rightarrow> symbol_intensity_calibration result" where
  "for_symbol [] s = fail_code ERR_UNKNOWN_SYMBOL"
| "for_symbol (c # cs) s = (if si_symbol c = s then Inr c else for_symbol cs s)"

record fit =
  ft_kappa :: pyfloat
  ft_intercept :: pyfloat

text \<open>
  The functions of the C mathematics library: \<open>math.log\<close>, \<open>math.log1p\<close>, \<open>math.sqrt\<close> and a float to
  the power two.
\<close>

record libm =
  lm_log :: "rat \<Rightarrow> pyfloat"
  lm_log1p :: "rat \<Rightarrow> pyfloat"
  lm_sqrt :: "rat \<Rightarrow> pyfloat"
  lm_square :: "rat \<Rightarrow> pyfloat"

definition applied :: "(rat \<Rightarrow> pyfloat) \<Rightarrow> pyfloat \<Rightarrow> pyfloat" where
  "applied f x = Option.bind x f"

text \<open>\<open>symbol.strip() == symbol\<close>; the white space of ASCII is codes 9 to 13 and 28 to 32.\<close>

definition py_space :: "char \<Rightarrow> bool" where
  "py_space c = (let n = of_char c :: nat in (9 \<le> n \<and> n \<le> 13) \<or> (28 \<le> n \<and> n \<le> 32))"

definition ascii_text :: "string \<Rightarrow> bool" where
  "ascii_text s = list_all (\<lambda>c. of_char c < (128::nat)) s"

definition validate_strategy_symbol :: "string \<Rightarrow> string result" where
  "validate_strategy_symbol s = (
     if \<not> ascii_text s then fail_code ERR_UNKNOWN_SYMBOL
     else if \<not> (1 \<le> length s \<and> length s \<le> 8) \<or> py_space (hd s) \<or> py_space (last s)
     then fail_code ERR_UNKNOWN_SYMBOL
     else Inr s)"

section \<open>The fit\<close>

text \<open>The points of the buckets with exposure; none when an intensity is not positive and finite.\<close>

fun intensity_points :: "libm \<Rightarrow> intensity_bucket list \<Rightarrow> (pyfloat \<times> pyfloat \<times> pyfloat) list option" where
  "intensity_points m [] = Some []"
| "intensity_points m (bucket # buckets) = (
     let exposure = exposure_seconds bucket in
     if at_most exposure 0 then intensity_points m buckets
     else
       let intensity = fdiv (fadd (float_of_int (ib_execution_count bucket)) (Some 1)) (fadd exposure (Some 1)) in
       if \<not> is_finite intensity \<or> at_most intensity 0 then None
       else map_option (\<lambda>points.
           (float_of_int (ib_distance_ticks bucket), applied (lm_log m) intensity, exposure) # points)
         (intensity_points m buckets))"

definition fit_intensity :: "libm \<Rightarrow> intensity_bucket list \<Rightarrow> fit option" where
  "fit_intensity m buckets = (case intensity_points m buckets of
       None \<Rightarrow> None
     | Some points \<Rightarrow>
     if length points < 2 then None
     else
     let total_weight = fsum (map (\<lambda>(x, y, weight). weight) points) in
     if \<not> is_finite total_weight \<or> at_most total_weight 0 then None
     else
     let mean_distance = fdiv (fsum (map (\<lambda>(x, y, weight). fmul x weight) points)) total_weight;
         mean_log_intensity = fdiv (fsum (map (\<lambda>(x, y, weight). fmul y weight) points)) total_weight;
         centred_square = fsum (map (\<lambda>(x, y, weight).
           fmul weight (applied (lm_square m) (fsub x mean_distance))) points) in
     if \<not> is_finite centred_square \<or> at_most centred_square 0 then None
     else
     let covariance = fsum (map (\<lambda>(x, y, weight).
           fmul (fmul weight (fsub x mean_distance)) (fsub y mean_log_intensity)) points);
         slope = fdiv covariance centred_square;
         kappa = fneg slope;
         intercept = fsub mean_log_intensity (fmul slope mean_distance) in
     if \<not> is_finite kappa \<or> at_most kappa 0 \<or> \<not> is_finite intercept then None
     else Some \<lparr>ft_kappa = kappa, ft_intercept = intercept\<rparr>)"

section \<open>The calibrator\<close>

text \<open>Each symbol has its eleven pairs of exposure and execution count.\<close>

record causal_intensity_calibrator =
  ca_symbols :: "string list"
  ca_training_dates :: "(int \<times> int \<times> int) list"
  ca_buckets :: "(string, (int \<times> int) list) dict"

definition empty_buckets :: "(int \<times> int) list" where
  "empty_buckets = replicate (nat (MAX_DISTANCE_TICKS + 1)) (0, 0)"

definition bucket_tuple :: "(int \<times> int) list \<Rightarrow> intensity_bucket list" where
  "bucket_tuple values = map (\<lambda>(distance, exposure, executions).
     \<lparr>ib_distance_ticks = int distance, ib_exposure_ns = exposure, ib_execution_count = executions\<rparr>)
     (enumerate 0 values)"

fun validate_symbols :: "string list \<Rightarrow> unit result" where
  "validate_symbols [] = Inr ()"
| "validate_symbols (s # ss) = bindR (validate_strategy_symbol s) (\<lambda>_. validate_symbols ss)"

definition new_calibrator ::
  "string list \<Rightarrow> (int \<times> int \<times> int) list \<Rightarrow> causal_intensity_calibrator result" where
  "new_calibrator symbols training_dates = (
     if symbols = [] then fail_code ERR_UNKNOWN_SYMBOL
     else bindR (validate_symbols symbols) (\<lambda>_.
     if \<not> distinct symbols then fail_code ERR_UNKNOWN_SYMBOL
     else if training_dates = [] \<or> \<not> sorted training_dates \<or> \<not> distinct training_dates
     then fail_code ERR_PARTITION
     else Inr \<lparr>ca_symbols = sort symbols, ca_training_dates = training_dates,
       ca_buckets = map (\<lambda>s. (s, empty_buckets)) (sort symbols)\<rparr>))"

text \<open>The pair of a symbol at a distance.\<close>

definition calibration_bucket ::
  "(int \<times> int \<times> int) \<Rightarrow> string \<Rightarrow> int \<Rightarrow> causal_intensity_calibrator \<Rightarrow> (int \<times> int) result" where
  "calibration_bucket trading_date symbol distance_ticks self = (
     if trading_date \<notin> set (ca_training_dates self) then fail_code ERR_LEAKAGE_GUARD
     else bindR (validate_strategy_symbol symbol) (\<lambda>validated.
     case dict_get (ca_buckets self) validated of
       None \<Rightarrow> fail_code ERR_UNKNOWN_SYMBOL
     | Some pairs \<Rightarrow>
       if \<not> valid_int distance_ticks MIN_DISTANCE_TICKS MAX_DISTANCE_TICKS then fail_code ERR_CONFIG_SCHEMA
       else Inr (pairs ! nat distance_ticks)))"

definition set_bucket :: "string \<Rightarrow> int \<Rightarrow> int \<times> int \<Rightarrow> causal_intensity_calibrator \<Rightarrow> causal_intensity_calibrator" where
  "set_bucket symbol distance_ticks pair self = self\<lparr>ca_buckets :=
     dict_set symbol ((dict_get_default (ca_buckets self) symbol [])[nat distance_ticks := pair]) (ca_buckets self)\<rparr>"

definition record_exposure ::
  "(int \<times> int \<times> int) \<Rightarrow> string \<Rightarrow> int \<Rightarrow> int \<Rightarrow> (causal_intensity_calibrator, unit) smethod" where
  "record_exposure trading_date symbol distance_ticks exposure_ns = commitM (\<lambda>self.
     bindR (calibration_bucket trading_date symbol distance_ticks self) (\<lambda>(exposure, counted).
     if \<not> valid_int exposure_ns 0 MAX_UINT64 then fail_code ERR_TIMESTAMP
     else
     let updated = exposure + exposure_ns in
     if updated > MAX_UINT64 then fail_code ERR_TIMESTAMP
     else Inr ((), set_bucket symbol distance_ticks (updated, counted) self)))"

definition record_execution ::
  "(int \<times> int \<times> int) \<Rightarrow> string \<Rightarrow> int \<Rightarrow> int \<Rightarrow> (causal_intensity_calibrator, unit) smethod" where
  "record_execution trading_date symbol distance_ticks executions = commitM (\<lambda>self.
     bindR (calibration_bucket trading_date symbol distance_ticks self) (\<lambda>(exposure, counted).
     if \<not> valid_int executions 1 MAX_UINT64 then fail_code ERR_QUANTITY
     else
     let updated = counted + executions in
     if updated > MAX_UINT64 then fail_code ERR_QUANTITY
     else Inr ((), set_bucket symbol distance_ticks (exposure, updated) self)))"

text \<open>
  Pooling adds a symbol's buckets to the pooled pairs, checking after every bucket; the loop over the
  symbols also keeps each symbol's buckets.
\<close>

definition pool_bucket :: "(int \<times> int) list \<Rightarrow> intensity_bucket \<Rightarrow> (int \<times> int) list result" where
  "pool_bucket pooled bucket = (
     let k = nat (ib_distance_ticks bucket);
         exposure = fst (pooled ! k) + ib_exposure_ns bucket;
         executions = snd (pooled ! k) + ib_execution_count bucket in
     if exposure > MAX_UINT64 \<or> executions > MAX_UINT64 then fail_code ERR_MODEL_TRAINING
     else Inr (pooled[k := (exposure, executions)]))"

definition symbol_buckets :: "causal_intensity_calibrator \<Rightarrow> string \<Rightarrow> intensity_bucket list" where
  "symbol_buckets self symbol = bucket_tuple (dict_get_default (ca_buckets self) symbol [])"

definition calibrated_symbol ::
  "libm \<Rightarrow> fit \<Rightarrow> string \<Rightarrow> intensity_bucket list \<Rightarrow> symbol_intensity_calibration" where
  "calibrated_symbol m pooled_fit symbol buckets = (case fit_intensity m buckets of
       None \<Rightarrow> \<lparr>si_symbol = symbol, si_kappa = ft_kappa pooled_fit, si_intercept = ft_intercept pooled_fit,
         si_source = FROM_POOLED, si_buckets = buckets\<rparr>
     | Some f \<Rightarrow> \<lparr>si_symbol = symbol, si_kappa = ft_kappa f, si_intercept = ft_intercept f,
         si_source = FROM_SYMBOL, si_buckets = buckets\<rparr>)"

definition calibration_snapshot :: "causal_intensity_calibrator \<Rightarrow> (string \<times> intensity_bucket list) list" where
  "calibration_snapshot self = map (\<lambda>s. (s, symbol_buckets self s)) (ca_symbols self)"

definition finalise :: "libm \<Rightarrow> causal_intensity_calibrator \<Rightarrow> intensity_calibration result" where
  "finalise m self =
     bindR (foldR (\<lambda>pooled symbol. foldR pool_bucket pooled (symbol_buckets self symbol)) empty_buckets
       (ca_symbols self)) (\<lambda>pooled_values.
     let pooled_buckets = bucket_tuple pooled_values in
     case fit_intensity m pooled_buckets of
       None \<Rightarrow> fail_code ERR_MODEL_TRAINING
     | Some pooled_fit \<Rightarrow> Inr \<lparr>
         ic_training_dates = ca_training_dates self,
         ic_pooled_kappa = ft_kappa pooled_fit, ic_pooled_intercept = ft_intercept pooled_fit,
         ic_pooled_buckets = pooled_buckets,
         ic_symbols = map (\<lambda>s. calibrated_symbol m pooled_fit s (symbol_buckets self s)) (ca_symbols self)\<rparr>)"

section \<open>Invariant\<close>

text \<open>Every symbol has its eleven pairs, and no total exceeds an unsigned 64-bit integer.\<close>

definition pairs_ok :: "(int \<times> int) list \<Rightarrow> bool" where
  "pairs_ok pairs \<longleftrightarrow> length pairs = 11 \<and> (\<forall>p \<in> set pairs. valid_int (fst p) 0 MAX_UINT64 \<and> valid_int (snd p) 0 MAX_UINT64)"

definition calibrator_ok :: "causal_intensity_calibrator \<Rightarrow> bool" where
  "calibrator_ok c \<longleftrightarrow> sorted (ca_symbols c) \<and> distinct (ca_symbols c) \<and> dict_keys (ca_buckets c) = ca_symbols c
     \<and> (\<forall>s \<in> set (ca_symbols c). \<exists>pairs. dict_get (ca_buckets c) s = Some pairs \<and> pairs_ok pairs)"

text \<open>The total of a symbol at a distance.\<close>

definition total_at :: "causal_intensity_calibrator \<Rightarrow> string \<Rightarrow> int \<Rightarrow> int \<times> int" where
  "total_at c s d = dict_get_default (ca_buckets c) s [] ! nat d"

lemma empty_buckets_eq: "empty_buckets = replicate 11 (0, 0)"
  by (simp add: empty_buckets_def MAX_DISTANCE_TICKS_def)

lemma dict_get_map: "dict_get (map (\<lambda>s. (s, f s)) ss) s = (if s \<in> set ss then Some (f s) else None)"
  by (induction ss) (auto simp: dict_get_def)

lemma new_calibrator_ok:
  assumes "new_calibrator symbols days = Inr c"
  shows "calibrator_ok c" "ca_symbols c = sort symbols" "ca_training_dates c = days"
    "s \<in> set symbols \<Longrightarrow> 0 \<le> d \<Longrightarrow> d \<le> 10 \<Longrightarrow> total_at c s d = (0, 0)"
  using assms
  by (auto simp: new_calibrator_def bindR_eq_Inr calibrator_ok_def total_at_def dict_get_map dict_get_default_def
      dict_keys_def comp_def empty_buckets_eq pairs_ok_def valid_int_def bound_defs split: if_splits)

lemma calibration_bucket_Inr:
  "calibration_bucket day symbol d c = Inr pair \<longleftrightarrow> day \<in> set (ca_training_dates c)
     \<and> validate_strategy_symbol symbol = Inr symbol
     \<and> (\<exists>pairs. dict_get (ca_buckets c) symbol = Some pairs \<and> 0 \<le> d \<and> d \<le> 10 \<and> pair = pairs ! nat d)"
proof -
  have "validate_strategy_symbol symbol = Inr s \<Longrightarrow> s = symbol" for s
    by (auto simp: validate_strategy_symbol_def split: if_splits)
  then show ?thesis
    by (auto simp: calibration_bucket_def bindR_eq_Inr valid_int_def MIN_DISTANCE_TICKS_def MAX_DISTANCE_TICKS_def
        split: option.splits)
qed

lemma dict_keys_set: "dict_get d k \<noteq> None \<Longrightarrow> dict_keys (dict_set k v d) = dict_keys d"
  unfolding dict_keys_def dict_set_def dict_get_def
  by (simp add: update_keys map_of_eq_None_iff)

lemma set_bucket_ok:
  assumes ok: "calibrator_ok c" and s: "dict_get (ca_buckets c) symbol = Some pairs" and d: "0 \<le> d" "d \<le> 10"
    and pair: "valid_int (fst pair) 0 MAX_UINT64" "valid_int (snd pair) 0 MAX_UINT64"
  shows "calibrator_ok (set_bucket symbol d pair c)"
    "ca_symbols (set_bucket symbol d pair c) = ca_symbols c"
    "ca_training_dates (set_bucket symbol d pair c) = ca_training_dates c"
    "0 \<le> d' \<Longrightarrow> d' \<le> 10 \<Longrightarrow> total_at (set_bucket symbol d pair c) s' d'
      = (if s' = symbol \<and> d' = d then pair else total_at c s' d')"
proof -
  have mem: "symbol \<in> set (ca_symbols c)"
    using ok s dict_keys_iff [of symbol "ca_buckets c"] by (simp add: calibrator_ok_def has_key_def)
  then have pairs: "pairs_ok pairs"
    using ok s by (auto simp: calibrator_ok_def)
  have new: "ca_buckets (set_bucket symbol d pair c) = dict_set symbol (pairs[nat d := pair]) (ca_buckets c)"
    using s by (simp add: set_bucket_def dict_get_default_def)
  have "pairs_ok (pairs[nat d := pair])"
    using pairs pair set_update_subset_insert [of pairs "nat d" pair] by (auto simp: pairs_ok_def)
  then show "calibrator_ok (set_bucket symbol d pair c)"
    using ok s dict_keys_set [of "ca_buckets c" symbol "pairs[nat d := pair]"]
    unfolding calibrator_ok_def new by (simp add: set_bucket_def)
  show "ca_symbols (set_bucket symbol d pair c) = ca_symbols c"
    "ca_training_dates (set_bucket symbol d pair c) = ca_training_dates c"
    by (simp_all add: set_bucket_def)
  show "total_at (set_bucket symbol d pair c) s' d' = (if s' = symbol \<and> d' = d then pair else total_at c s' d')"
    if "0 \<le> d'" "d' \<le> 10"
    using that d s pairs by (auto simp: total_at_def new dict_get_default_def nth_list_update pairs_ok_def)
qed

end
