(* ===== verification/Feature_Rows.thy ===== *)
theory Feature_Rows
  imports Feature_Flow Calibration
begin

text \<open>
  The rows of \<open>datasets/features.py\<close>: the rolling sums of floats, the transitions of the top of book,
  the depth totals of a snapshot, \<open>feature_row\<close> and the generator \<open>build_feature_batches\<close>.

  The event flow is in \<open>Feature_Flow\<close>. The logarithm, its square and the square root are the C
  library's; the logarithm of a positive double is finite, so a sum that is not finite here is an
  infinite one.
\<close>

section \<open>State\<close>

record rolling_sum =
  ro_window :: int
  ro_values :: "pyfloat list"
  ro_total :: pyfloat

type_synonym rolling_sums = "(int, rolling_sum) dict"

definition new_rolling_sum :: "int \<Rightarrow> rolling_sum" where
  "new_rolling_sum window = \<lparr>ro_window = window, ro_values = [], ro_total = Some 0\<rparr>"

definition rolling_append :: "pyfloat \<Rightarrow> rolling_sum \<Rightarrow> rolling_sum" where
  "rolling_append x self = (
     let self1 = self\<lparr>ro_values := ro_values self @ [x], ro_total := fadd (ro_total self) x\<rparr> in
     if int (length (ro_values self1)) > ro_window self1
     then self1\<lparr>ro_values := tl (ro_values self1), ro_total := fsub (ro_total self1) (hd (ro_values self1))\<rparr>
     else self1)"

definition rolling_complete :: "rolling_sum \<Rightarrow> bool" where
  "rolling_complete self \<longleftrightarrow> int (length (ro_values self)) = ro_window self"

text \<open>Best bid and ask price, then their quantities.\<close>

type_synonym book_top = "int \<times> int \<times> int \<times> int"

record row_state =
  ft_flow :: feature_state
  ft_previous_top :: "book_top option"
  ft_qualifying_ordinal :: int
  ft_ofi :: rolling_sums
  ft_depth_sum :: rolling_sums
  ft_squared_return :: rolling_sums

definition new_row_state :: "int list \<Rightarrow> int list \<Rightarrow> row_state" where
  "new_row_state event_windows clock_windows = (
     let rolls = map (\<lambda>window. (window, new_rolling_sum window)) event_windows in
     \<lparr>ft_flow = new_feature_state event_windows clock_windows, ft_previous_top = None,
      ft_qualifying_ordinal = -1, ft_ofi = rolls, ft_depth_sum = rolls, ft_squared_return = rolls\<rparr>)"

definition on_flow :: "(feature_state, 'x) smethod \<Rightarrow> (row_state, 'x) smethod" where
  "on_flow m s = (case m (ft_flow s) of (r, flow) \<Rightarrow> (r, s\<lparr>ft_flow := flow\<rparr>))"

section \<open>Transitions\<close>

definition append_rolling :: "int list \<Rightarrow> pyfloat \<Rightarrow> rolling_sums \<Rightarrow> rolling_sums" where
  "append_rolling event_windows x rolls = foldl (\<lambda>d window. case dict_get d window of
       None \<Rightarrow> d | Some r \<Rightarrow> dict_set window (rolling_append x r) d) rolls event_windows"

definition flow_increment :: "book_top \<Rightarrow> book_top \<Rightarrow> int" where
  "flow_increment = (\<lambda>(previous_bid, previous_ask, previous_bid_quantity, previous_ask_quantity)
      (bid, ask, bid_quantity, ask_quantity).
     (if bid \<ge> previous_bid then bid_quantity else 0)
     - (if bid \<le> previous_bid then previous_bid_quantity else 0)
     - (if ask \<le> previous_ask then ask_quantity else 0)
     + (if ask \<ge> previous_ask then previous_ask_quantity else 0))"

definition book_mid2 :: "book_top \<Rightarrow> int" where
  "book_mid2 = (\<lambda>(bid, ask, _). bid + ask)"

definition book_depth :: "book_top \<Rightarrow> int" where
  "book_depth = (\<lambda>(_, _, bid_quantity, ask_quantity). bid_quantity + ask_quantity)"

definition append_transition :: "libm \<Rightarrow> int list \<Rightarrow> book_top \<Rightarrow> (row_state, unit) smethod" where
  "append_transition m event_windows current s = (case ft_previous_top s of
       None \<Rightarrow> (Inr (), s\<lparr>ft_previous_top := Some current\<rparr>)
     | Some previous \<Rightarrow>
       if book_mid2 current \<le> 0 \<or> book_mid2 previous \<le> 0 then (fail_code ERR_PRICE, s)
       else let squared_return =
           applied (lm_square m) (applied (lm_log m) (int_div (book_mid2 current) (book_mid2 previous))) in
         (Inr (), s\<lparr>
           ft_ofi := append_rolling event_windows (float_of_int (flow_increment previous current)) (ft_ofi s),
           ft_depth_sum := append_rolling event_windows (float_of_int (book_depth current)) (ft_depth_sum s),
           ft_squared_return := append_rolling event_windows squared_return (ft_squared_return s),
           ft_previous_top := Some current\<rparr>))"

definition append_bucket :: "(feature_state, unit) smethod" where
  "append_bucket s = (case append_execution_bucket s of None \<Rightarrow> (Inl ValueError, s) | Some s' \<Rightarrow> (Inr (), s'))"

section \<open>Depth\<close>

definition level_column :: "string \<Rightarrow> string \<Rightarrow> int \<Rightarrow> string" where
  "level_column side column level = side @ ''_'' @ column @ ''_'' @ numeral_of level"

text \<open>The totals of one side, level by level.\<close>

fun side_totals ::
  "pyval row \<Rightarrow> int \<Rightarrow> string \<Rightarrow> int list \<Rightarrow> int \<Rightarrow> int option \<Rightarrow> bool \<Rightarrow> (int, int) dict result" where
  "side_totals snapshot msg_index side [] so_far previous_price padding_started = Inr []"
| "side_totals snapshot msg_index side (level # levels) so_far previous_price padding_started =
     bindR (item snapshot (level_column side ''price4'' level)) (\<lambda>price.
     bindR (item snapshot (level_column side ''quantity'' level)) (\<lambda>quantity.
     if price = PyNone \<and> quantity = PyNone
     then bindR (side_totals snapshot msg_index side levels so_far previous_price True)
       (\<lambda>totals. Inr ((level, so_far) # totals))
     else if price = PyNone \<or> quantity = PyNone \<or> padding_started then fail_message ERR_INVARIANT msg_index
     else case as_int price of
       None \<Rightarrow> fail_message ERR_PRICE msg_index
     | Some p \<Rightarrow>
       if p \<le> 0 then fail_message ERR_PRICE msg_index
       else case as_int quantity of
         None \<Rightarrow> fail_message ERR_QUANTITY msg_index
       | Some q \<Rightarrow>
         if q \<le> 0 then fail_message ERR_QUANTITY msg_index
         else if (case previous_price of None \<Rightarrow> False
             | Some previous \<Rightarrow> (side = ''bid'' \<and> p \<ge> previous) \<or> (side = ''ask'' \<and> p \<le> previous))
         then fail_message ERR_PRICE msg_index
         else bindR (side_totals snapshot msg_index side levels (so_far + q) (Some p) padding_started)
           (\<lambda>totals. Inr ((level, so_far + q) # totals))))"

definition depth_totals ::
  "pyval row \<Rightarrow> int \<Rightarrow> int \<Rightarrow> ((int, int) dict \<times> (int, int) dict) result" where
  "depth_totals snapshot maximum_depth msg_index =
     bindR (side_totals snapshot msg_index ''bid'' [1..maximum_depth] 0 None False) (\<lambda>bids.
     bindR (side_totals snapshot msg_index ''ask'' [1..maximum_depth] 0 None False) (\<lambda>asks.
     Inr (bids, asks)))"

section \<open>The row\<close>

text \<open>A cell of a feature row: any Python value but a float, or a float.\<close>

datatype feature_cell = Plain pyval | Number pyfloat

type_synonym feature_row = "(string, feature_cell) dict"

text \<open>The event that triggered the snapshot, which must agree with it.\<close>

definition check_trigger :: "int \<Rightarrow> int \<Rightarrow> pyval row \<Rightarrow> pyval row option \<Rightarrow> pyval row result" where
  "check_trigger i t snapshot current_event = (case current_event of
       None \<Rightarrow> fail_message ERR_INVARIANT i
     | Some event \<Rightarrow>
       bindR (item event ''timestamp_ns'') (\<lambda>event_time.
       if as_int event_time \<noteq> Some t then fail_message ERR_INVARIANT i
       else
       bindR (item event ''event_kind'') (\<lambda>event_kind.
       bindR (item snapshot ''event_kind'') (\<lambda>snapshot_kind.
       if event_kind \<noteq> snapshot_kind then fail_message ERR_INVARIANT i else Inr event))))"

definition aggressor_sign :: "pyval row \<Rightarrow> pyval result" where
  "aggressor_sign event =
     bindR (item event ''event_kind'') (\<lambda>event_kind.
     if event_kind = PyStr ''execute'' \<or> event_kind = PyStr ''execute_price''
     then bindR (item event ''side'') (\<lambda>side.
       case as_int side of None \<Rightarrow> Inl TypeError | Some n \<Rightarrow> Inr (PyInt (- n)))
     else Inr PyNone)"

definition identity_columns ::
  "partition_context \<Rightarrow> int list \<Rightarrow> int list \<Rightarrow> int \<Rightarrow> int \<Rightarrow> int \<Rightarrow> feature_row" where
  "identity_columns context event_windows clock_windows i t ordinal =
     [(''trading_date'', Plain (PyDate (pc_trading_date context))),
      (''symbol'', Plain (PyStr (pc_symbol context))),
      (''symbol_id'', Plain (PyInt (pc_symbol_id context))),
      (''message_index'', Plain (PyInt i)),
      (''timestamp_ns'', Plain (PyInt t)),
      (''qualifying_ordinal'', Plain (PyInt ordinal)),
      (''history_complete'', Plain (PyBool (ordinal \<ge> Max (set event_windows)
         \<and> t - pc_session_start_ns context \<ge> Max (set clock_windows))))]"

definition imbalance :: "(int, int) dict \<times> (int, int) dict \<Rightarrow> int \<Rightarrow> feature_cell" where
  "imbalance = (\<lambda>(bids, asks) depth.
     let bid_total = dict_get_default bids depth 0; ask_total = dict_get_default asks depth 0;
         denominator = bid_total + ask_total in
     if denominator = 0 then Plain PyNone else Number (int_div (bid_total - ask_total) denominator))"

definition microprice :: "book_top \<Rightarrow> pyfloat" where
  "microprice = (\<lambda>(bid, ask, bid_quantity, ask_quantity).
     int_div (ask * bid_quantity + bid * ask_quantity) (bid_quantity + ask_quantity))"

definition session_progress :: "partition_context \<Rightarrow> int \<Rightarrow> pyfloat" where
  "session_progress context t = fmin (Some 1) (fmax (Some 0)
     (int_div (t - pc_session_start_ns context) (pc_session_end_ns context - pc_session_start_ns context)))"

definition book_columns ::
  "partition_context \<Rightarrow> int list \<Rightarrow> int \<Rightarrow> book_top \<Rightarrow> (int, int) dict \<times> (int, int) dict \<Rightarrow> pyval \<Rightarrow> feature_row" where
  "book_columns context depth_levels t current totals sign = (
     let (bid, ask, bid_quantity, ask_quantity) = current; tick = pc_tick_size4 context;
         progress = session_progress context t in
     [(''spread_ticks'', Number (int_div (ask - bid) tick))]
     @ map (\<lambda>depth. (''imbalance_'' @ numeral_of depth, imbalance totals depth)) depth_levels
     @ [(''microprice4'', Number (microprice current)),
        (''microprice_displacement_ticks'',
           Number (fdiv (fsub (microprice current) (int_div (bid + ask) 2)) (float_of_int tick))),
        (''aggressor_sign'', Plain sign),
        (''session_progress'', Number progress),
        (''session_progress_squared'', Number (fmul progress progress))])"

definition rolling_of :: "rolling_sums \<Rightarrow> int \<Rightarrow> rolling_sum" where
  "rolling_of rolls window = dict_get_default rolls window (new_rolling_sum window)"

definition window_cells :: "libm \<Rightarrow> row_state \<Rightarrow> int \<Rightarrow> feature_cell list" where
  "window_cells m s window = (
     if \<not> rolling_complete (rolling_of (ft_ofi s) window) then replicate 4 (Plain PyNone)
     else
     let ofi = ro_total (rolling_of (ft_ofi s) window);
         denominator = ro_total (rolling_of (ft_depth_sum s) window);
         execution = dict_get_default (fs_execution (ft_flow s)) window (new_execution_window window) in
     [Number ofi,
      if denominator = Some 0 then Plain PyNone else Number (fdiv ofi denominator),
      Number (applied (lm_sqrt m) (fmax (Some 0) (ro_total (rolling_of (ft_squared_return s) window)))),
      Number (if ew_quantity execution = 0 then Some 0
        else int_div (ew_signed_quantity execution) (ew_quantity execution))])"

definition window_names :: "int \<Rightarrow> string list" where
  "window_names window = map (\<lambda>name. name @ numeral_of window)
     [''ofi_'', ''ofi_normalised_'', ''realised_volatility_'', ''execution_imbalance_'']"

definition window_columns :: "libm \<Rightarrow> row_state \<Rightarrow> int \<Rightarrow> feature_row" where
  "window_columns m s window = zip (window_names window) (window_cells m s window)"

definition side_name :: "int \<Rightarrow> string" where
  "side_name side = (if side = 1 then ''bid'' else ''ask'')"

definition rate_column :: "clock_key \<times> int option \<Rightarrow> string \<times> feature_cell" where
  "rate_column = (\<lambda>((window_ns, category, side), events).
     (category @ ''_'' @ side_name side @ ''_rate_'' @ clock_suffix window_ns,
      case events of None \<Rightarrow> Plain PyNone
      | Some n \<Rightarrow> Number (fdiv (float_of_int n) (int_div window_ns 1000000000))))"

text \<open>\<open>_clock_rates\<close>: trims the queues and divides their lengths by the windows' seconds.\<close>

definition clock_rates :: "partition_context \<Rightarrow> int list \<Rightarrow> int \<Rightarrow> (feature_state, feature_row) smethod" where
  "clock_rates context clock_windows t s = (case clock_counts context clock_windows t s of
     (counts, s') \<Rightarrow> (Inr (map rate_column counts), s'))"

definition finite_cells :: "feature_row \<Rightarrow> bool" where
  "finite_cells row \<longleftrightarrow> list_all (\<lambda>(name, v). case v of Plain _ \<Rightarrow> True | Number x \<Rightarrow> is_finite x) row"

definition feature_columns ::
  "libm \<Rightarrow> partition_context \<Rightarrow> int list \<times> int list \<times> int list \<Rightarrow> int \<Rightarrow> int \<Rightarrow> book_top
     \<Rightarrow> (int, int) dict \<times> (int, int) dict \<Rightarrow> pyval row \<Rightarrow> (row_state, feature_row) smethod" where
  "feature_columns m context config i t current totals event s = (
     let (depth_levels, event_windows, clock_windows) = config in
     bindM (liftM (aggressor_sign event)) (\<lambda>sign.
     bindM (on_flow (clock_rates context clock_windows t)) (\<lambda>rates.
     let row = identity_columns context event_windows clock_windows i t (ft_qualifying_ordinal s)
           @ book_columns context depth_levels t current totals sign
           @ concat (map (window_columns m s) event_windows) @ rates in
     liftM (if finite_cells row then Inr row else fail_message ERR_INVARIANT i))) s)"

text \<open>The snapshot has been validated: \<open>i\<close> and \<open>t\<close> are its index and time.\<close>

definition feature_row ::
  "libm \<Rightarrow> partition_context \<Rightarrow> int list \<times> int list \<times> int list \<Rightarrow> int \<Rightarrow> int \<Rightarrow> pyval row
     \<Rightarrow> pyval row option \<Rightarrow> (row_state, feature_row) smethod" where
  "feature_row m context config i t snapshot current_event =
     bindM (liftM (item snapshot ''bid_price4_1'')) (\<lambda>best_bid.
     bindM (liftM (item snapshot ''ask_price4_1'')) (\<lambda>best_ask.
     bindM (liftM (item snapshot ''bid_quantity_1'')) (\<lambda>best_bid_quantity.
     bindM (liftM (item snapshot ''ask_quantity_1'')) (\<lambda>best_ask_quantity.
     case (as_int best_bid, as_int best_ask, as_int best_bid_quantity, as_int best_ask_quantity) of
       (Some bid, Some ask, Some bid_quantity, Some ask_quantity) \<Rightarrow>
         if bid_quantity \<le> 0 \<or> ask_quantity \<le> 0 then liftM (fail_message ERR_QUANTITY i)
         else if bid + ask \<le> 0 then liftM (fail_message ERR_PRICE i)
         else if ask \<le> bid then liftM (fail_message ERR_BOOK_CROSSED i)
         else
         bindM (liftM (depth_totals snapshot (Max (set (fst config))) i)) (\<lambda>totals.
         bindM (liftM (check_trigger i t snapshot current_event)) (\<lambda>event.
         bindM (modifyM (\<lambda>s. s\<lparr>ft_qualifying_ordinal := ft_qualifying_ordinal s + 1\<rparr>)) (\<lambda>_.
         bindM (append_transition m (fst (snd config)) (bid, ask, bid_quantity, ask_quantity)) (\<lambda>_.
         bindM (on_flow append_bucket) (\<lambda>_.
         feature_columns m context config i t (bid, ask, bid_quantity, ask_quantity) totals event)))))
     | _ \<Rightarrow> liftM (fail_message ERR_INVARIANT i)))))"

section \<open>The generator\<close>

definition validate_feature_context :: "feature_partition_context \<Rightarrow> partition_context result" where
  "validate_feature_context context = (
     case fc_symbol context of
       PyStr symbol \<Rightarrow>
     bindR (require (ascii symbol) (fail_code ERR_UNKNOWN_SYMBOL)) (\<lambda>_.
     case fc_trading_date context of
       PyDate day \<Rightarrow>
     bindR (require (1 \<le> length symbol \<and> length symbol \<le> 8) (fail_code ERR_UNKNOWN_SYMBOL)) (\<lambda>_.
     case fc_symbol_id context of
       PyBool _ \<Rightarrow> fail_code ERR_UNKNOWN_SYMBOL
     | PyInt symbol_id \<Rightarrow>
     bindR (require (1 \<le> symbol_id \<and> symbol_id \<le> 65535) (fail_code ERR_UNKNOWN_SYMBOL)) (\<lambda>_.
     case checked_int (fc_tick_size4 context) 1 4294967295 of
       None \<Rightarrow> fail_code ERR_PRICE
     | Some tick \<Rightarrow> (
     case (plain_int (fc_session_start_ns context), plain_int (fc_session_end_ns context)) of
       (Some start, Some end) \<Rightarrow>
     bindR (require (0 \<le> start \<and> start < end \<and> end \<le> DAY_NANOS) (fail_code ERR_SESSION_WINDOW)) (\<lambda>_.
     Inr \<lparr>pc_trading_date = day, pc_symbol = symbol, pc_symbol_id = symbol_id, pc_tick_size4 = tick,
       pc_session_start_ns = start, pc_session_end_ns = end\<rparr>)
     | _ \<Rightarrow> fail_code ERR_SESSION_WINDOW))
     | _ \<Rightarrow> Inl TypeError)
     | _ \<Rightarrow> fail_code ERR_UNKNOWN_SYMBOL)
     | _ \<Rightarrow> fail_code ERR_UNKNOWN_SYMBOL)"

fun event_rows :: "pyval table_batch list \<Rightarrow> pyval row generated" where
  "event_rows [] = ([], None)"
| "event_rows (Other_object # batches) = ([], Some (SimulationError ERR_SCHEMA_VERSION None None))"
| "event_rows (Record_batch schema rows # batches) = (
     if oversized rows \<or> schema \<noteq> event_schema then ([], Some (SimulationError ERR_SCHEMA_VERSION None None))
     else case event_rows batches of (later, end) \<Rightarrow> (rows @ later, end))"

text \<open>
  The loop over the events up to a snapshot. \<open>end\<close> is how the event rows end; the result is the event
  that has the snapshot's index, if any, and the rows left.
\<close>

fun take_events ::
  "partition_context \<Rightarrow> int list \<Rightarrow> sim_error option \<Rightarrow> int \<Rightarrow> pyval row list \<Rightarrow> pyval row option
     \<Rightarrow> (feature_state, pyval row option \<times> pyval row list) smethod" where
  "take_events context clock_windows end i [] current_event s = (case end of
       None \<Rightarrow> (Inr (current_event, []), s) | Some e \<Rightarrow> (Inl e, s))"
| "take_events context clock_windows end i (event # events) current_event s = (
     case dict_get event ''message_index'' of
       None \<Rightarrow> (Inl KeyError, s)
     | Some v \<Rightarrow> (
     case as_int v of
       None \<Rightarrow> (Inl TypeError, s)
     | Some k \<Rightarrow>
       if k > i then (Inr (current_event, event # events), s)
       else case consume_event context clock_windows event s of
         (Inl e, s') \<Rightarrow> (Inl e, s')
       | (Inr _, s') \<Rightarrow> take_events context clock_windows end i events
           (if k = i then Some event else current_event) s'))"

record 'b feature_run =
  fu_observed_depth :: "int option"
  fu_events :: "pyval row list"
  fu_state :: row_state
  fu_writer :: "(feature_row, 'b) writer"

definition on_state :: "(row_state, 'x) smethod \<Rightarrow> ('b feature_run, 'x) smethod" where
  "on_state m u = (case m (fu_state u) of (r, s) \<Rightarrow> (r, u\<lparr>fu_state := s\<rparr>))"

definition on_output :: "((feature_row, 'b) writer, 'x) smethod \<Rightarrow> ('b feature_run, 'x) smethod" where
  "on_output m u = (case m (fu_writer u) of (r, w) \<Rightarrow> (r, u\<lparr>fu_writer := w\<rparr>))"

text \<open>The depth of the first snapshot must cover the catalogue; it is not looked at again.\<close>

definition observe_depth :: "int list \<Rightarrow> pyval row \<Rightarrow> ('b feature_run, unit) smethod" where
  "observe_depth depth_levels snapshot u = (case fu_observed_depth u of
       Some _ \<Rightarrow> (Inr (), u)
     | None \<Rightarrow>
       let depth = (int (length snapshot) - 13) div 4; u' = u\<lparr>fu_observed_depth := Some depth\<rparr> in
       if depth < Max (set depth_levels) then (fail_code ERR_DEPTH, u') else (Inr (), u'))"

definition events_until ::
  "partition_context \<Rightarrow> int list \<Rightarrow> sim_error option \<Rightarrow> int \<Rightarrow> ('b feature_run, pyval row option) smethod" where
  "events_until context clock_windows end i u = (
     case on_flow (take_events context clock_windows end i (fu_events u) None) (fu_state u) of
       (Inl e, s) \<Rightarrow> (Inl e, u\<lparr>fu_state := s\<rparr>)
     | (Inr (current_event, events), s) \<Rightarrow> (Inr current_event, u\<lparr>fu_state := s, fu_events := events\<rparr>))"

definition feature_step ::
  "libm \<Rightarrow> (feature_row list \<Rightarrow> 'b option) \<Rightarrow> partition_context \<Rightarrow> int list \<times> int list \<times> int list
     \<Rightarrow> sim_error option \<Rightarrow> pyval row \<Rightarrow> ('b feature_run, unit) smethod" where
  "feature_step m encode context config end snapshot =
     bindM (observe_depth (fst config) snapshot) (\<lambda>_.
     bindM (on_state (on_flow (validate_snapshot context snapshot))) (\<lambda>(i, t).
     bindM (events_until context (snd (snd config)) end i) (\<lambda>current_event.
     bindM (liftM (qualifies snapshot)) (\<lambda>qualifying.
     if \<not> qualifying then returnM ()
     else
     bindM (on_state (feature_row m context config i t snapshot current_event)) (\<lambda>row.
     on_output (push_row encode row))))))"

definition new_feature_run :: "int list \<times> int list \<times> int list \<Rightarrow> pyval row list \<Rightarrow> 'b feature_run" where
  "new_feature_run config events = \<lparr>fu_observed_depth = None, fu_events = events,
     fu_state = new_row_state (fst (snd config)) (snd (snd config)),
     fu_writer = \<lparr>wr_output = [], wr_yielded = []\<rparr>\<rparr>"

definition feature_batches ::
  "libm \<Rightarrow> (feature_row list \<Rightarrow> 'b option) \<Rightarrow> partition_context \<Rightarrow> int list \<times> int list \<times> int list
     \<Rightarrow> sim_error option \<Rightarrow> pyval row generated \<Rightarrow> ('b feature_run, unit) smethod" where
  "feature_batches m encode context config end snapshots =
     bindM (forM (feature_step m encode context config end) (fst snapshots)) (\<lambda>_.
     bindM (liftM (case snd snapshots of None \<Rightarrow> Inr () | Some e \<Rightarrow> Inl e)) (\<lambda>_.
     on_output (flush_rest encode)))"

text \<open>The batches yielded and how the generator ends.\<close>

definition build_feature_batches ::
  "libm \<Rightarrow> (column_field list \<Rightarrow> feature_row list \<Rightarrow> 'b option) \<Rightarrow> pyval table_batch list \<Rightarrow> pyval table_batch list
     \<Rightarrow> feature_config option \<Rightarrow> feature_partition_context \<Rightarrow> 'b list \<times> unit result" where
  "build_feature_batches m encode events snapshots config context = (
     case validate_feature_config config of Inl e \<Rightarrow> ([], Inl e) | Inr cfg \<Rightarrow> (
     case validate_feature_context context of Inl e \<Rightarrow> ([], Inl e) | Inr pc \<Rightarrow> (
     case feature_schema config of Inl e \<Rightarrow> ([], Inl e) | Inr schema \<Rightarrow> (
     case event_rows events of (rows, end) \<Rightarrow> (
     case feature_batches m (encode schema) pc cfg end (snapshot_rows None snapshots) (new_feature_run cfg rows) of
       (r, u) \<Rightarrow> (wr_yielded (fu_writer u), r))))))"

end
