(* ===== verification/Flow_Invariant.thy ===== *)
theory Flow_Invariant
  imports Feature_Flow
begin

text \<open>
  The invariant that ties the objects of the execution flow together: which contributions a
  window's buckets hold, which windows a contribution knows it is in, the windows' sums, and the
  match entries, all as ranges of contribution numbers.
\<close>

section \<open>Ranges\<close>

text \<open>
  With \<open>sizes\<close> the sizes of all buckets ever appended, the last \<open>w\<close> of them hold the contributions
  from \<open>first_in w sizes\<close> to the number of contributions appended.
\<close>

definition first_in :: "int \<Rightarrow> nat list \<Rightarrow> nat" where
  "first_in w sizes = sum_list (take (length sizes - nat w) sizes)"

definition signed_effect :: "store \<Rightarrow> nat \<Rightarrow> int" where
  "signed_effect st k = (if ec_active (st ! k) then ec_signed_quantity (st ! k) else 0)"

definition quantity_effect :: "store \<Rightarrow> nat \<Rightarrow> int" where
  "quantity_effect st k = (if ec_active (st ! k) then ec_quantity (st ! k) else 0)"

lemma first_in_le: "first_in w sizes \<le> sum_list sizes"
proof -
  have "sum_list sizes = first_in w sizes + sum_list (drop (length sizes - nat w) sizes)"
    unfolding first_in_def by (metis append_take_drop_id sum_list_append)
  then show ?thesis by simp
qed

lemma first_in_mono: "v \<le> w \<Longrightarrow> first_in w sizes \<le> first_in v sizes"
proof -
  assume "v \<le> w"
  then have le: "length sizes - nat w \<le> length sizes - nat v" by (simp add: nat_mono diff_le_mono2)
  have "take (length sizes - nat v) sizes
      = take (length sizes - nat w) sizes @ take (length sizes - nat v - (length sizes - nat w)) (drop (length sizes - nat w) sizes)"
    using le by (metis le_add_diff_inverse take_add)
  then show ?thesis unfolding first_in_def by simp
qed

lemma first_in_snoc:
  assumes "0 < w"
  shows "first_in w (sizes @ [b]) =
    (if nat w \<le> length sizes then first_in w sizes + sizes ! (length sizes - nat w) else 0)"
proof (cases "nat w \<le> length sizes")
  case True
  then have "Suc (length sizes) - nat w = Suc (length sizes - nat w)" by simp
  moreover have "length sizes - nat w < length sizes" using True assms by simp
  ultimately show ?thesis using True by (simp add: first_in_def take_Suc_conv_app_nth)
qed (simp add: first_in_def)

lemma first_in_few: "length sizes < nat w \<Longrightarrow> first_in w sizes = 0"
  by (simp add: first_in_def)

lemma first_in_step: "0 < w \<Longrightarrow> first_in w sizes \<le> first_in w (sizes @ [b])"
  by (simp add: first_in_snoc first_in_few)

section \<open>Folds over contributions\<close>

text \<open>What visiting contributions one after the other does to each of them and to the window.\<close>

lemma evict_items:
  assumes "distinct ks" "\<forall>k \<in> set ks. k < length st \<and> ew_window w \<in> ec_windows (st ! k)"
  shows "case foldl evict_item (st, w) ks of (st', w') \<Rightarrow>
    length st' = length st
    \<and> (\<forall>k. st' ! k = (if k \<in> set ks then (st ! k)\<lparr>ec_windows := ec_windows (st ! k) - {ew_window w}\<rparr> else st ! k))
    \<and> w' = w\<lparr>ew_signed_quantity := ew_signed_quantity w - sum_list (map (signed_effect st) ks),
             ew_quantity := ew_quantity w - sum_list (map (quantity_effect st) ks)\<rparr>"
  using assms
proof (induction ks arbitrary: st w)
  case (Cons k ks)
  let ?c = "st ! k"
  let ?st = "st[k := ?c\<lparr>ec_windows := ec_windows ?c - {ew_window w}\<rparr>]"
  let ?w = "w\<lparr>ew_signed_quantity := ew_signed_quantity w - signed_effect st k,
              ew_quantity := ew_quantity w - quantity_effect st k\<rparr>"
  have k: "k < length st" "ew_window w \<in> ec_windows ?c" "k \<notin> set ks" using Cons.prems by simp_all
  have first: "evict_item (st, w) k = (?st, ?w)"
    using k by (simp add: evict_item_def Let_def signed_effect_def quantity_effect_def)
  have other: "?st ! j = st ! j" if "j \<in> set ks" for j using that k(3) by (metis nth_list_update_neq)
  have "\<forall>j \<in> set ks. j < length ?st \<and> ew_window ?w \<in> ec_windows (?st ! j)"
    using Cons.prems other by simp
  from Cons.IH [OF _ this] Cons.prems(1) obtain st' w' where rest: "foldl evict_item (?st, ?w) ks = (st', w')"
    and len: "length st' = length ?st"
    and nth: "\<And>j. st' ! j = (if j \<in> set ks then (?st ! j)\<lparr>ec_windows := ec_windows (?st ! j) - {ew_window ?w}\<rparr> else ?st ! j)"
    and w': "w' = ?w\<lparr>ew_signed_quantity := ew_signed_quantity ?w - sum_list (map (signed_effect ?st) ks),
             ew_quantity := ew_quantity ?w - sum_list (map (quantity_effect ?st) ks)\<rparr>"
    by (auto split: prod.splits)
  have same: "map (signed_effect ?st) ks = map (signed_effect st) ks"
    "map (quantity_effect ?st) ks = map (quantity_effect st) ks"
    using other by (simp_all add: signed_effect_def quantity_effect_def)
  have "st' ! j = (if j \<in> set (k # ks) then (st ! j)\<lparr>ec_windows := ec_windows (st ! j) - {ew_window w}\<rparr> else st ! j)" for j
    using nth [of j] k(1,3) other [of j] by (cases "j = k") simp_all
  then show ?case
    using rest len w' by (simp add: first same)
qed simp

lemma admit_items:
  assumes "distinct ks" "\<forall>k \<in> set ks. k < length st"
  shows "case foldl admit_item (st, w) ks of (st', w') \<Rightarrow>
    length st' = length st
    \<and> (\<forall>k. st' ! k = (if k \<in> set ks then (st ! k)\<lparr>ec_windows := insert (ew_window w) (ec_windows (st ! k))\<rparr> else st ! k))
    \<and> w' = w\<lparr>ew_signed_quantity := ew_signed_quantity w + sum_list (map (signed_effect st) ks),
             ew_quantity := ew_quantity w + sum_list (map (quantity_effect st) ks)\<rparr>"
  using assms
proof (induction ks arbitrary: st w)
  case (Cons k ks)
  let ?c = "st ! k"
  let ?st = "st[k := ?c\<lparr>ec_windows := insert (ew_window w) (ec_windows ?c)\<rparr>]"
  let ?w = "w\<lparr>ew_signed_quantity := ew_signed_quantity w + signed_effect st k,
              ew_quantity := ew_quantity w + quantity_effect st k\<rparr>"
  have k: "k < length st" "k \<notin> set ks" using Cons.prems by simp_all
  have first: "admit_item (st, w) k = (?st, ?w)"
    using k by (simp add: admit_item_def Let_def signed_effect_def quantity_effect_def)
  have other: "?st ! j = st ! j" if "j \<in> set ks" for j using that k(2) by (metis nth_list_update_neq)
  have "\<forall>j \<in> set ks. j < length ?st" using Cons.prems by simp
  from Cons.IH [OF _ this, of ?w] Cons.prems(1) obtain st' w' where rest: "foldl admit_item (?st, ?w) ks = (st', w')"
    and len: "length st' = length ?st"
    and nth: "\<And>j. st' ! j = (if j \<in> set ks then (?st ! j)\<lparr>ec_windows := insert (ew_window ?w) (ec_windows (?st ! j))\<rparr> else ?st ! j)"
    and w': "w' = ?w\<lparr>ew_signed_quantity := ew_signed_quantity ?w + sum_list (map (signed_effect ?st) ks),
             ew_quantity := ew_quantity ?w + sum_list (map (quantity_effect ?st) ks)\<rparr>"
    by (auto split: prod.splits)
  have same: "map (signed_effect ?st) ks = map (signed_effect st) ks"
    "map (quantity_effect ?st) ks = map (quantity_effect st) ks"
    using other by (simp_all add: signed_effect_def quantity_effect_def)
  have "st' ! j = (if j \<in> set (k # ks) then (st ! j)\<lparr>ec_windows := insert (ew_window w) (ec_windows (st ! j))\<rparr> else st ! j)" for j
    using nth [of j] k(1,2) other [of j] by (cases "j = k") simp_all
  then show ?case
    using rest len w' by (simp add: first same)
qed simp

section \<open>One window\<close>

definition window_ok :: "store \<Rightarrow> nat list \<Rightarrow> execution_window \<Rightarrow> bool" where
  "window_ok st sizes w \<longleftrightarrow> 0 < ew_window w
     \<and> map length (ew_buckets w) = drop (length sizes - nat (ew_window w)) sizes
     \<and> concat (ew_buckets w) = [first_in (ew_window w) sizes..<sum_list sizes]
     \<and> ew_signed_quantity w = (\<Sum>k = first_in (ew_window w) sizes..<sum_list sizes. signed_effect st k)
     \<and> ew_quantity w = (\<Sum>k = first_in (ew_window w) sizes..<sum_list sizes. quantity_effect st k)"

text \<open>The store seen apart from the windows a contribution is in.\<close>

definition same_contributions :: "store \<Rightarrow> store \<Rightarrow> bool" where
  "same_contributions st st' \<longleftrightarrow> length st' = length st
     \<and> (\<forall>k. (st' ! k)\<lparr>ec_windows := {}\<rparr> = (st ! k)\<lparr>ec_windows := {}\<rparr>)"

lemma same_contributionsD:
  assumes "same_contributions st st'"
  shows "length st' = length st" "ec_match_number (st' ! k) = ec_match_number (st ! k)"
    "ec_signed_quantity (st' ! k) = ec_signed_quantity (st ! k)" "ec_quantity (st' ! k) = ec_quantity (st ! k)"
    "ec_active (st' ! k) = ec_active (st ! k)" "signed_effect st' = signed_effect st"
    "quantity_effect st' = quantity_effect st"
proof -
  have eq: "(st' ! k)\<lparr>ec_windows := {}\<rparr> = (st ! k)\<lparr>ec_windows := {}\<rparr>" for k
    using assms by (simp add: same_contributions_def)
  have sel: "ec_match_number (st' ! k) = ec_match_number (st ! k)"
    "ec_signed_quantity (st' ! k) = ec_signed_quantity (st ! k)" "ec_quantity (st' ! k) = ec_quantity (st ! k)"
    "ec_active (st' ! k) = ec_active (st ! k)" for k
    using arg_cong [OF eq [of k], of ec_match_number] arg_cong [OF eq [of k], of ec_signed_quantity]
      arg_cong [OF eq [of k], of ec_quantity] arg_cong [OF eq [of k], of ec_active] by simp_all
  show "length st' = length st" using assms by (simp add: same_contributions_def)
  show "ec_match_number (st' ! k) = ec_match_number (st ! k)"
    "ec_signed_quantity (st' ! k) = ec_signed_quantity (st ! k)" "ec_quantity (st' ! k) = ec_quantity (st ! k)"
    "ec_active (st' ! k) = ec_active (st ! k)" by (rule sel)+
  show "signed_effect st' = signed_effect st" "quantity_effect st' = quantity_effect st"
    by (auto simp: signed_effect_def quantity_effect_def sel)
qed

lemma same_contributions_refl: "same_contributions st st"
  by (simp add: same_contributions_def)

lemma same_contributions_trans:
  "same_contributions st st' \<Longrightarrow> same_contributions st' st'' \<Longrightarrow> same_contributions st st''"
  by (simp add: same_contributions_def)

lemma sum_list_range: "sum_list (map f [a..<b]) = (\<Sum>k = a..<b. f k)" for f :: "nat \<Rightarrow> int"
  by (simp add: interv_sum_list_conv_sum_set_nat)

lemma window_append_ok:
  assumes w: "window_ok st sizes w" and p: "sum_list sizes \<le> length st"
    and mem: "\<And>k. k < length st \<Longrightarrow> ew_window w \<in> ec_windows (st ! k) \<longleftrightarrow>
      first_in (ew_window w) sizes \<le> k \<and> k < sum_list sizes"
    and sizes': "sizes' = sizes @ [length st - sum_list sizes]"
  shows "case window_append [sum_list sizes..<length st] st w of (evicted, st', w') \<Rightarrow>
      evicted = [first_in (ew_window w) sizes..<first_in (ew_window w) sizes']
    \<and> same_contributions st st' \<and> ew_window w' = ew_window w \<and> window_ok st' sizes' w'
    \<and> (\<forall>k < length st. ec_windows (st' ! k) = (if first_in (ew_window w) sizes' \<le> k
         then insert (ew_window w) (ec_windows (st ! k)) else ec_windows (st ! k) - {ew_window w}))"
proof -
  let ?u = "ew_window w"
  let ?p = "sum_list sizes"
  let ?n = "length st"
  define lo where "lo = first_in ?u sizes"
  define lo' where "lo' = first_in ?u sizes'"
  have pos: "0 < ?u" and lens: "map length (ew_buckets w) = drop (length sizes - nat ?u) sizes"
    and conc: "concat (ew_buckets w) = [lo..<?p]"
    and sums: "ew_signed_quantity w = (\<Sum>k = lo..<?p. signed_effect st k)"
      "ew_quantity w = (\<Sum>k = lo..<?p. quantity_effect st k)"
    using w by (simp_all add: window_ok_def lo_def)
  have lop: "lo \<le> ?p" unfolding lo_def by (rule first_in_le)
  have total': "sum_list sizes' = ?n" using p by (simp add: sizes')
  have len: "length (ew_buckets w) = min (nat ?u) (length sizes)"
    using arg_cong [OF lens, of length] by simp
  define evicted where "evicted = (if int (length (ew_buckets w)) = ?u then hd (ew_buckets w) else [])"
  define kept where "kept = (if int (length (ew_buckets w)) = ?u then tl (ew_buckets w) else ew_buckets w)"
  have split: "evicted = [lo..<lo'] \<and> concat kept = [lo'..<?p] \<and> lo \<le> lo' \<and> lo' \<le> ?p
      \<and> map length kept = drop (Suc (length sizes) - nat ?u) sizes"
  proof (cases "nat ?u \<le> length sizes")
    case True
    then have full: "int (length (ew_buckets w)) = ?u" using len pos by simp
    then obtain b bs where b: "ew_buckets w = b # bs" using pos by (cases "ew_buckets w") auto
    have drop: "drop (length sizes - nat ?u) sizes = sizes ! (length sizes - nat ?u) # drop (Suc (length sizes - nat ?u)) sizes"
      using True pos by (intro Cons_nth_drop_Suc [symmetric]) simp
    have lb: "length b = sizes ! (length sizes - nat ?u)" "map length bs = drop (Suc (length sizes - nat ?u)) sizes"
      using lens b drop by simp_all
    have lo': "lo' = lo + length b"
      unfolding lo'_def sizes' first_in_snoc [OF pos] using True lb(1) by (simp add: lo_def)
    have cat: "b @ concat bs = [lo..<?p]" using conc b by simp
    have "length b + length (concat bs) = ?p - lo"
      using arg_cong [OF cat, of length] by (simp only: length_append length_upt)
    then have "lo' \<le> ?p" using lo' lop by linarith
    moreover have eb: "b = [lo..<lo']"
      using arg_cong [OF cat, of "take (length b)"] lo' \<open>lo' \<le> ?p\<close> by (simp add: take_upt)
    moreover have cb: "concat bs = [lo'..<?p]"
      using arg_cong [OF cat, of "drop (length b)"] lo' by simp
    moreover have "Suc (length sizes) - nat ?u = Suc (length sizes - nat ?u)" using True by simp
    moreover have "evicted = b" "kept = bs" using full b by (simp_all add: evicted_def kept_def)
    moreover have "lo \<le> lo'" using lo' by simp
    ultimately show ?thesis using lb(2) by metis
  next
    case False
    then have "int (length (ew_buckets w)) \<noteq> ?u" using len by auto
    moreover have "lo = 0" "lo' = 0"
      using False first_in_few first_in_snoc [OF pos] by (simp_all add: lo_def lo'_def sizes')
    ultimately show ?thesis using False conc lens by (simp add: evicted_def kept_def)
  qed
  let ?w1 = "w\<lparr>ew_buckets := kept\<rparr>"
  obtain st1 w2 where ev: "foldl evict_item (st, ?w1) evicted = (st1, w2)" by fastforce
  have "distinct evicted" "\<forall>k \<in> set evicted. k < length st \<and> ew_window ?w1 \<in> ec_windows (st ! k)"
    using split mem p by (auto simp: lo_def)
  from evict_items [OF this] ev have st1: "length st1 = ?n"
    "\<And>k. st1 ! k = (if k \<in> set evicted then (st ! k)\<lparr>ec_windows := ec_windows (st ! k) - {?u}\<rparr> else st ! k)"
    and w2: "w2 = ?w1\<lparr>ew_signed_quantity := ew_signed_quantity w - sum_list (map (signed_effect st) evicted),
             ew_quantity := ew_quantity w - sum_list (map (quantity_effect st) evicted)\<rparr>"
    by auto
  have same1: "same_contributions st st1" using st1 by (simp add: same_contributions_def)
  let ?w3 = "w2\<lparr>ew_buckets := kept @ [[?p..<?n]]\<rparr>"
  obtain st2 w4 where ad: "foldl admit_item (st1, ?w3) [?p..<?n] = (st2, w4)" by fastforce
  have "\<forall>k \<in> set [?p..<?n]. k < length st1" by (simp add: st1)
  from admit_items [OF _ this, of ?w3] ad have st2: "length st2 = ?n"
    "\<And>k. st2 ! k = (if k \<in> set [?p..<?n] then (st1 ! k)\<lparr>ec_windows := insert ?u (ec_windows (st1 ! k))\<rparr> else st1 ! k)"
    and w4: "w4 = ?w3\<lparr>ew_signed_quantity := ew_signed_quantity w2 + sum_list (map (signed_effect st1) [?p..<?n]),
             ew_quantity := ew_quantity w2 + sum_list (map (quantity_effect st1) [?p..<?n])\<rparr>"
    by (auto simp: st1(1) w2)
  have "same_contributions st1 st2" using st2 st1 by (simp add: same_contributions_def)
  then have same: "same_contributions st st2" using same1 same_contributions_trans by blast
  note eff = same_contributionsD(6,7) [OF same] same_contributionsD(6,7) [OF same1]
  have run: "window_append [?p..<?n] st w = (evicted, st2, w4)"
    using ev ad w2 by (simp add: window_append_def Let_def evicted_def kept_def split: if_splits)
  have sum: "(\<Sum>k = lo..<?p. f k) - sum_list (map f evicted) + sum_list (map f [?p..<?n]) = (\<Sum>k = lo'..<?n. f k)"
    for f :: "nat \<Rightarrow> int"
  proof -
    have "(\<Sum>k = lo..<?p. f k) = (\<Sum>k = lo..<lo'. f k) + (\<Sum>k = lo'..<?p. f k)"
      using split by (simp add: sum.atLeastLessThan_concat)
    moreover have "(\<Sum>k = lo'..<?n. f k) = (\<Sum>k = lo'..<?p. f k) + (\<Sum>k = ?p..<?n. f k)"
      using split p by (simp add: sum.atLeastLessThan_concat)
    ultimately show ?thesis using split by (simp add: sum_list_range)
  qed
  have u4: "ew_window w4 = ?u" by (simp add: w4 w2)
  have "window_ok st2 sizes' w4"
    unfolding window_ok_def total' eff u4 lo'_def [symmetric]
  proof (intro conjI)
    show "map length (ew_buckets w4) = drop (length sizes' - nat ?u) sizes'"
      using split pos by (simp add: w4 sizes')
    show "concat (ew_buckets w4) = [lo'..<?n]"
    proof -
      have "concat (ew_buckets w4) = [lo'..<?p] @ [?p..<?n]" using split by (simp add: w4)
      also have "\<dots> = [lo'..<?n]"
        using split p upt_add_eq_append [of lo' ?p "?n - ?p"] by (metis le_add_diff_inverse)
      finally show ?thesis .
    qed
    show "ew_signed_quantity w4 = (\<Sum>k = lo'..<?n. signed_effect st k)"
      using sums(1) sum [of "signed_effect st"] by (simp add: w4 w2 eff)
    show "ew_quantity w4 = (\<Sum>k = lo'..<?n. quantity_effect st k)"
      using sums(2) sum [of "quantity_effect st"] by (simp add: w4 w2 eff)
  qed (rule pos)
  moreover have "ec_windows (st2 ! k) = (if lo' \<le> k then insert ?u (ec_windows (st ! k)) else ec_windows (st ! k) - {?u})"
    if "k < ?n" for k
  proof -
    have m: "?u \<in> ec_windows (st ! k) \<longleftrightarrow> lo \<le> k \<and> k < ?p" using mem [OF that] by (simp add: lo_def)
    have "set evicted = {lo..<lo'}" using split by simp
    then show ?thesis using m split that by (auto simp: st2(2) st1(2))
  qed
  ultimately show ?thesis using run same split u4 by (simp add: lo_def lo'_def)
qed

section \<open>All windows\<close>

lemma window_ok_same: "same_contributions st st' \<Longrightarrow> window_ok st' sizes w = window_ok st sizes w"
  by (simp add: window_ok_def same_contributionsD(6,7))

definition execution_ok :: "store \<Rightarrow> nat list \<Rightarrow> (int, execution_window) dict \<Rightarrow> bool" where
  "execution_ok st sizes ex \<longleftrightarrow> distinct (map fst ex)
     \<and> (\<forall>(u, w) \<in> set ex. u = ew_window w \<and> window_ok st sizes w)"

lemma execution_ok_same: "same_contributions st st' \<Longrightarrow> execution_ok st' sizes ex = execution_ok st sizes ex"
  by (simp add: execution_ok_def window_ok_same)

definition in_windows :: "store \<Rightarrow> nat list \<Rightarrow> int set \<Rightarrow> bool" where
  "in_windows st sizes us \<longleftrightarrow> (\<forall>k < length st. \<forall>u \<in> us.
     u \<in> ec_windows (st ! k) \<longleftrightarrow> first_in u sizes \<le> k \<and> k < sum_list sizes)"

lemma append_windows_ok:
  assumes "execution_ok st sizes ex" "in_windows st sizes (fst ` set ex)" "length st = n"
    and p: "sum_list sizes \<le> n" and sizes': "sizes' = sizes @ [n - sum_list sizes]"
  shows "case append_windows [sum_list sizes..<n] st ex of (evicted, st', ex') \<Rightarrow>
      set evicted = (\<Union>u \<in> fst ` set ex. {first_in u sizes..<first_in u sizes'})
    \<and> same_contributions st st' \<and> map fst ex' = map fst ex \<and> execution_ok st' sizes' ex'
    \<and> (\<forall>k < n. ec_windows (st' ! k)
        = ec_windows (st ! k) - fst ` set ex \<union> {u \<in> fst ` set ex. first_in u sizes' \<le> k})"
  using assms(1-3)
proof (induction ex arbitrary: st)
  case Nil
  then show ?case by (simp add: same_contributions_refl execution_ok_def)
next
  case (Cons x ex)
  obtain u w where x: "x = (u, w)" by (cases x)
  have u: "u = ew_window w" "window_ok st sizes w" "u \<notin> fst ` set ex" "execution_ok st sizes ex"
    using Cons.prems(1) by (auto simp: x execution_ok_def)
  obtain ev1 st1 w1 where app: "window_append [sum_list sizes..<n] st w = (ev1, st1, w1)"
    by (cases "window_append [sum_list sizes..<n] st w") auto
  have mem: "\<And>k. k < length st \<Longrightarrow> ew_window w \<in> ec_windows (st ! k) \<longleftrightarrow> first_in (ew_window w) sizes \<le> k \<and> k < sum_list sizes"
    using Cons.prems(2) u(1) by (simp add: x in_windows_def)
  have pst: "sum_list sizes \<le> length st" "sizes' = sizes @ [length st - sum_list sizes]"
    using p sizes' Cons.prems(3) by simp_all
  from window_append_ok [OF u(2) pst(1) mem pst(2)] app Cons.prems(3)
  have one: "ev1 = [first_in u sizes..<first_in u sizes']" "same_contributions st st1"
    "ew_window w1 = u" "window_ok st1 sizes' w1"
    and wins: "\<And>k. k < n \<Longrightarrow> ec_windows (st1 ! k) = (if first_in u sizes' \<le> k
         then insert u (ec_windows (st ! k)) else ec_windows (st ! k) - {u})"
    by (simp_all add: u(1))
  have len: "length st1 = n" using same_contributionsD(1) [OF one(2)] Cons.prems(3) by simp
  have ex1: "execution_ok st1 sizes ex" using u(4) execution_ok_same [OF one(2)] by simp
  have in1: "in_windows st1 sizes (fst ` set ex)"
    unfolding in_windows_def len
  proof (intro allI impI ballI)
    fix k v assume k: "k < n" and v: "v \<in> fst ` set ex"
    then have "v \<noteq> u" using u(3) by blast
    then have "v \<in> ec_windows (st1 ! k) \<longleftrightarrow> v \<in> ec_windows (st ! k)" using wins [OF k] by simp
    moreover have "v \<in> fst ` set (x # ex)" using v by simp
    ultimately show "v \<in> ec_windows (st1 ! k) \<longleftrightarrow> first_in v sizes \<le> k \<and> k < sum_list sizes"
      using Cons.prems(2,3) k unfolding in_windows_def by blast
  qed
  obtain ev2 st2 ex2 where rest: "append_windows [sum_list sizes..<n] st1 ex = (ev2, st2, ex2)"
    by (cases "append_windows [sum_list sizes..<n] st1 ex") auto
  from Cons.IH [OF ex1 in1 len] rest
  have two: "set ev2 = (\<Union>u \<in> fst ` set ex. {first_in u sizes..<first_in u sizes'})"
    "same_contributions st1 st2" "map fst ex2 = map fst ex" "execution_ok st2 sizes' ex2"
    and wins2: "\<And>k. k < n \<Longrightarrow> ec_windows (st2 ! k)
        = ec_windows (st1 ! k) - fst ` set ex \<union> {v \<in> fst ` set ex. first_in v sizes' \<le> k}"
    by simp_all
  have run: "append_windows [sum_list sizes..<n] st (x # ex) = (ev1 @ ev2, st2, (u, w1) # ex2)"
    using app rest by (simp add: x)
  have same: "same_contributions st st2" using one(2) two(2) same_contributions_trans by blast
  have keys: "fst ` set ex2 = fst ` set ex" using two(3) by (metis list.set_map)
  have "execution_ok st2 sizes' ((u, w1) # ex2)"
    using two(3,4) u(3) one(3,4) keys window_ok_same [OF two(2)]
    by (simp add: execution_ok_def image_iff)
  moreover have "ec_windows (st2 ! k) = ec_windows (st ! k) - fst ` set (x # ex)
      \<union> {v \<in> fst ` set (x # ex). first_in v sizes' \<le> k}" if "k < n" for k
    using wins2 [OF that] wins [OF that] u(3) by (auto simp: x split: if_splits)
  moreover have "set (ev1 @ ev2) = (\<Union>u \<in> fst ` set (x # ex). {first_in u sizes..<first_in u sizes'})"
    using one(1) two(1) by (simp add: x)
  ultimately show ?case
    unfolding run using same two(3) by (simp add: x)
qed

section \<open>Match entries\<close>

definition with_match :: "store \<Rightarrow> int \<Rightarrow> nat \<Rightarrow> nat list" where
  "with_match st m lo = filter (\<lambda>k. ec_match_number (st ! k) = m) [lo..<length st]"

text \<open>A match entry lists its contributions from the \<open>lo\<close>th on, and its flag agrees with theirs.\<close>

definition matches_ok :: "store \<Rightarrow> nat \<Rightarrow> (int, execution_match) dict \<Rightarrow> bool" where
  "matches_ok st lo ms \<longleftrightarrow> (\<forall>m. case dict_get ms m of
       None \<Rightarrow> with_match st m lo = []
     | Some e \<Rightarrow> with_match st m lo \<noteq> [] \<and> em_contributions e = with_match st m lo
         \<and> (\<forall>k \<in> set (with_match st m lo). ec_active (st ! k) \<longleftrightarrow> \<not> em_broken e))"

lemma matches_okD:
  assumes "matches_ok st lo ms"
  shows "dict_get ms m = None \<longleftrightarrow> with_match st m lo = []"
    "dict_get ms m = Some e \<Longrightarrow> em_contributions e = with_match st m lo"
    "dict_get ms m = Some e \<Longrightarrow> k \<in> set (with_match st m lo) \<Longrightarrow> ec_active (st ! k) \<longleftrightarrow> \<not> em_broken e"
  using assms unfolding matches_ok_def by (auto split: option.splits dest: spec [of _ m])

lemma matches_okI:
  assumes "\<And>m. dict_get ms m = None \<Longrightarrow> with_match st m lo = []"
    and "\<And>m e. dict_get ms m = Some e \<Longrightarrow> with_match st m lo \<noteq> [] \<and> em_contributions e = with_match st m lo
         \<and> (\<forall>k \<in> set (with_match st m lo). ec_active (st ! k) \<longleftrightarrow> \<not> em_broken e)"
  shows "matches_ok st lo ms"
  using assms unfolding matches_ok_def by (auto split: option.splits)

lemma with_match_Suc:
  "lo < length st \<Longrightarrow> with_match st m lo =
    (if ec_match_number (st ! lo) = m then lo # with_match st m (Suc lo) else with_match st m (Suc lo))"
  by (simp add: with_match_def upt_conv_Cons)

lemma with_match_mem: "k \<in> set (with_match st m lo) \<longleftrightarrow> lo \<le> k \<and> k < length st \<and> ec_match_number (st ! k) = m"
  by (auto simp: with_match_def)

lemma with_match_cong:
  assumes "length st' = length st" "\<And>k. k < length st \<Longrightarrow> ec_match_number (st' ! k) = ec_match_number (st ! k)"
  shows "with_match st' m lo = with_match st m lo"
  unfolding with_match_def assms(1) by (rule filter_cong) (simp_all add: assms(2))

lemma with_match_snoc:
  assumes "lo \<le> length st"
  shows "with_match (st @ [c]) m lo
    = with_match st m lo @ (if ec_match_number c = m then [length st] else [])"
proof -
  have "filter (\<lambda>k. ec_match_number ((st @ [c]) ! k) = m) [lo..<length st] = with_match st m lo"
    unfolding with_match_def by (rule filter_cong) (simp_all add: nth_append)
  then show ?thesis using assms by (simp add: with_match_def)
qed

lemma matches_ok_same:
  assumes "matches_ok st lo ms" "same_contributions st st'"
  shows "matches_ok st' lo ms"
proof -
  have wm: "with_match st' m lo = with_match st m lo" for m
    by (rule with_match_cong) (simp_all add: same_contributionsD [OF assms(2)])
  show ?thesis
    using assms(1) unfolding matches_ok_def same_contributionsD [OF assms(2)] wm .
qed

lemma forget_contribution_ok:
  assumes ok: "matches_ok st lo ms" and lo: "lo < length st" "ec_windows (st ! lo) = {}"
  shows "\<exists>ms'. forget_contribution st ms lo = Some ms' \<and> matches_ok st (Suc lo) ms'"
proof -
  let ?m = "ec_match_number (st ! lo)"
  have wm: "with_match st ?m lo = lo # with_match st ?m (Suc lo)" using with_match_Suc [OF lo(1)] by simp
  have other: "m \<noteq> ?m \<Longrightarrow> with_match st m (Suc lo) = with_match st m lo" for m
    using with_match_Suc [OF lo(1)] by simp
  obtain e where e: "dict_get ms ?m = Some e" using matches_okD(1) [OF ok, of ?m] wm by auto
  have ec: "em_contributions e = lo # with_match st ?m (Suc lo)" using matches_okD(2) [OF ok e] wm by simp
  have act: "ec_active (st ! k) \<longleftrightarrow> \<not> em_broken e" if "k \<in> set (with_match st ?m (Suc lo))" for k
    using matches_okD(3) [OF ok e] that wm by simp
  have keep: "dict_get ms m = None \<longleftrightarrow> with_match st m (Suc lo) = []"
    "dict_get ms m = Some f \<Longrightarrow> em_contributions f = with_match st m (Suc lo)"
    "dict_get ms m = Some f \<Longrightarrow> k \<in> set (with_match st m (Suc lo)) \<Longrightarrow> ec_active (st ! k) \<longleftrightarrow> \<not> em_broken f"
    if "m \<noteq> ?m" for m f k
    using matches_okD [OF ok] other [OF that] by simp_all
  show ?thesis
  proof (cases "with_match st ?m (Suc lo) = []")
    case True
    have "matches_ok st (Suc lo) (dict_del ?m ms)"
    proof (rule matches_okI)
      fix m assume "dict_get (dict_del ?m ms) m = None"
      then show "with_match st m (Suc lo) = []" using True keep(1) by (cases "m = ?m") auto
    next
      fix m f assume "dict_get (dict_del ?m ms) m = Some f"
      then have "m \<noteq> ?m" "dict_get ms m = Some f" by (auto split: if_splits)
      then show "with_match st m (Suc lo) \<noteq> [] \<and> em_contributions f = with_match st m (Suc lo)
         \<and> (\<forall>k \<in> set (with_match st m (Suc lo)). ec_active (st ! k) \<longleftrightarrow> \<not> em_broken f)"
        using keep by fastforce
    qed
    moreover have "forget_contribution st ms lo = Some (dict_del ?m ms)"
      using e ec True lo(2) by (simp add: forget_contribution_def)
    ultimately show ?thesis by blast
  next
    case False
    let ?e = "e\<lparr>em_contributions := with_match st ?m (Suc lo)\<rparr>"
    have "matches_ok st (Suc lo) (dict_set ?m ?e ms)"
    proof (rule matches_okI)
      fix m assume "dict_get (dict_set ?m ?e ms) m = None"
      then show "with_match st m (Suc lo) = []" using keep(1) [of m] by (auto split: if_splits)
    next
      fix m f assume f: "dict_get (dict_set ?m ?e ms) m = Some f"
      show "with_match st m (Suc lo) \<noteq> [] \<and> em_contributions f = with_match st m (Suc lo)
         \<and> (\<forall>k \<in> set (with_match st m (Suc lo)). ec_active (st ! k) \<longleftrightarrow> \<not> em_broken f)"
      proof (cases "m = ?m")
        case True
        with f have "f = ?e" by simp
        then show ?thesis using True act False by simp
      next
        case neq: False
        with f have "dict_get ms m = Some f" by simp
        then show ?thesis using keep [OF neq] by fastforce
      qed
    qed
    moreover have "forget_contribution st ms lo = Some (dict_set ?m ?e ms)"
      using e ec False lo(2) by (simp add: forget_contribution_def Let_def)
    ultimately show ?thesis by blast
  qed
qed

lemma forget_all_skip: "forget_all st ks ms = forget_all st (filter (\<lambda>k. ec_windows (st ! k) = {}) ks) ms"
proof (induction ks arbitrary: ms)
  case (Cons k ks)
  show ?case
  proof (cases "ec_windows (st ! k) = {}")
    case True
    have "Option.bind x (forget_all st ks) = Option.bind x (forget_all st (filter (\<lambda>k. ec_windows (st ! k) = {}) ks))" for x
      by (cases x) (simp_all add: Cons.IH [symmetric])
    then show ?thesis using True by simp
  qed (simp add: forget_contribution_def Cons.IH [symmetric])
qed simp

lemma forget_range:
  assumes "matches_ok st lo ms" "lo \<le> hi" "hi \<le> length st" "\<forall>k \<in> {lo..<hi}. ec_windows (st ! k) = {}"
  shows "\<exists>ms'. forget_all st [lo..<hi] ms = Some ms' \<and> matches_ok st hi ms'"
  using assms
proof (induction "hi - lo" arbitrary: lo ms)
  case (Suc d)
  then have lo: "lo < hi" by simp
  obtain ms1 where one: "forget_contribution st ms lo = Some ms1" "matches_ok st (Suc lo) ms1"
    using forget_contribution_ok [OF Suc.prems(1)] lo Suc.prems by auto
  have "d = hi - Suc lo" "Suc lo \<le> hi" "\<forall>k \<in> {Suc lo..<hi}. ec_windows (st ! k) = {}"
    using Suc.hyps(2) Suc.prems(4) lo by simp_all
  from Suc.hyps(1) [OF this(1) one(2) this(2) Suc.prems(3) this(3)]
  obtain ms' where "forget_all st [Suc lo..<hi] ms1 = Some ms'" "matches_ok st hi ms'" by blast
  then show ?case using one(1) lo by (simp add: upt_conv_Cons)
qed simp

section \<open>The flow's invariant\<close>

definition oldest :: "int list \<Rightarrow> nat list \<Rightarrow> nat" where
  "oldest us sizes = first_in (Max (set us)) sizes"

text \<open>
  Everything but the match entries: the pending contributions are those after the last bucket, the
  windows are those configured, each is exact, and a contribution knows which of them hold it.
\<close>

definition flow_core :: "int list \<Rightarrow> nat list \<Rightarrow> feature_state \<Rightarrow> bool" where
  "flow_core us sizes s \<longleftrightarrow> sum_list sizes \<le> length (fs_store s)
     \<and> fs_pending_executions s = [sum_list sizes..<length (fs_store s)]
     \<and> map fst (fs_execution s) = us
     \<and> execution_ok (fs_store s) sizes (fs_execution s)
     \<and> (\<forall>k < length (fs_store s). ec_windows (fs_store s ! k)
          = {u \<in> set us. first_in u sizes \<le> k \<and> k < sum_list sizes})"

definition flow_inv :: "int list \<Rightarrow> nat list \<Rightarrow> feature_state \<Rightarrow> bool" where
  "flow_inv us sizes s \<longleftrightarrow> flow_core us sizes s \<and> matches_ok (fs_store s) (oldest us sizes) (fs_matches s)"

lemma flow_coreD:
  assumes "flow_core us sizes s"
  shows "sum_list sizes \<le> length (fs_store s)" "fs_pending_executions s = [sum_list sizes..<length (fs_store s)]"
    "map fst (fs_execution s) = us" "execution_ok (fs_store s) sizes (fs_execution s)"
    "k < length (fs_store s) \<Longrightarrow> ec_windows (fs_store s ! k)
          = {u \<in> set us. first_in u sizes \<le> k \<and> k < sum_list sizes}"
  using assms by (simp_all add: flow_core_def)

lemma oldest_least:
  assumes "u \<in> set us"
  shows "oldest us sizes \<le> first_in u sizes"
  unfolding oldest_def using assms by (intro first_in_mono Max_ge) simp_all

lemma oldest_mem: "us \<noteq> [] \<Longrightarrow> Max (set us) \<in> set us"
  by (intro Max_in) simp_all

lemma bucket_forgets:
  assumes us: "us \<noteq> []" "\<forall>u \<in> set us. 0 < u"
    and ev: "set evicted = (\<Union>u \<in> set us. {first_in u sizes..<first_in u sizes'})"
    and wins: "\<And>k. k < length st \<Longrightarrow> ec_windows (st ! k) = {u \<in> set us. first_in u sizes' \<le> k}"
    and sizes': "sizes' = sizes @ [b]" and n: "length st = sum_list sizes'"
  shows "filter (\<lambda>k. ec_windows (st ! k) = {}) (sort (remdups evicted)) = [oldest us sizes..<oldest us sizes']"
proof -
  let ?dead = "filter (\<lambda>k. ec_windows (st ! k) = {}) (sort (remdups evicted))"
  let ?m = "Max (set us)"
  have m: "?m \<in> set us" by (rule oldest_mem [OF us(1)])
  have lt: "k < length st" if "k \<in> set evicted" for k
    using that ev first_in_le [of _ sizes'] n by (fastforce dest: order.strict_trans2)
  have empty: "ec_windows (st ! k) = {} \<longleftrightarrow> k < oldest us sizes'" if "k < length st" for k
  proof
    assume "ec_windows (st ! k) = {}"
    then show "k < oldest us sizes'" using wins [OF that] m by (force simp: oldest_def)
  next
    assume "k < oldest us sizes'"
    then have "u \<in> set us \<Longrightarrow> k < first_in u sizes'" for u
      using oldest_least [of u us sizes'] by simp
    then show "ec_windows (st ! k) = {}" using wins [OF that] by force
  qed
  have "set ?dead = {oldest us sizes..<oldest us sizes'}"
  proof (intro equalityI subsetI)
    fix k assume "k \<in> set ?dead"
    then have k: "k \<in> set evicted" "ec_windows (st ! k) = {}" by simp_all
    then have "k < oldest us sizes'" using empty [OF lt] by simp
    moreover obtain u where "u \<in> set us" "first_in u sizes \<le> k" using k(1) ev by auto
    then have "oldest us sizes \<le> k" using oldest_least [of u us sizes] by simp
    ultimately show "k \<in> {oldest us sizes..<oldest us sizes'}" by simp
  next
    fix k assume "k \<in> {oldest us sizes..<oldest us sizes'}"
    then have k: "first_in ?m sizes \<le> k" "k < first_in ?m sizes'" by (simp_all add: oldest_def)
    then have "k \<in> set evicted" using ev m by auto
    moreover from this have "ec_windows (st ! k) = {}" using empty [OF lt] k(2) by (simp add: oldest_def)
    ultimately show "k \<in> set ?dead" by simp
  qed
  moreover have "sorted ?dead" "distinct ?dead" using sorted_filter [of "\<lambda>x. x" "sort (remdups evicted)"] by simp_all
  ultimately show ?thesis
    by (intro sorted_distinct_set_unique) simp_all
qed

theorem append_execution_bucket_ok:
  assumes inv: "flow_inv us sizes s" and us: "us \<noteq> []" "\<forall>u \<in> set us. 0 < u"
    and sizes': "sizes' = sizes @ [length (fs_pending_executions s)]"
  shows "\<exists>s'. append_execution_bucket s = Some s' \<and> flow_inv us sizes' s' \<and> same_contributions (fs_store s) (fs_store s')"
proof -
  let ?n = "length (fs_store s)"
  let ?p = "sum_list sizes"
  have core: "flow_core us sizes s" and match: "matches_ok (fs_store s) (oldest us sizes) (fs_matches s)"
    using inv by (simp_all add: flow_inv_def)
  note f = flow_coreD [OF core]
  have keys: "fst ` set (fs_execution s) = set us" using f(3) by (metis list.set_map)
  have sz: "sizes' = sizes @ [?n - ?p]" using sizes' f(2) by simp
  have total': "sum_list sizes' = ?n" using f(1) by (simp add: sz)
  have inw: "in_windows (fs_store s) sizes (fst ` set (fs_execution s))"
    using f(5) by (auto simp: in_windows_def keys)
  obtain evicted st1 ex1 where app: "append_windows [?p..<?n] (fs_store s) (fs_execution s) = (evicted, st1, ex1)"
    by (cases "append_windows [?p..<?n] (fs_store s) (fs_execution s)") auto
  from append_windows_ok [OF f(4) inw refl f(1) sz] app
  have ev: "set evicted = (\<Union>u \<in> set us. {first_in u sizes..<first_in u sizes'})"
    and same: "same_contributions (fs_store s) st1" and ex1: "map fst ex1 = us" "execution_ok st1 sizes' ex1"
    and wins: "\<And>k. k < ?n \<Longrightarrow> ec_windows (st1 ! k)
        = ec_windows (fs_store s ! k) - set us \<union> {u \<in> set us. first_in u sizes' \<le> k}"
    using f(3) by (simp_all add: keys)
  have len: "length st1 = ?n" by (rule same_contributionsD(1) [OF same])
  have wins': "ec_windows (st1 ! k) = {u \<in> set us. first_in u sizes' \<le> k}" if "k < length st1" for k
    using wins [of k] f(5) [of k] that len by auto
  note dead = bucket_forgets [OF us ev wins' sz len [folded total']]
  have "oldest us sizes \<le> oldest us sizes'"
    using us oldest_mem [OF us(1)] by (simp add: oldest_def sz first_in_step)
  moreover have hi: "oldest us sizes' \<le> length st1"
    using first_in_le [of "Max (set us)" sizes'] by (simp add: oldest_def total' len)
  moreover have "\<forall>k \<in> {oldest us sizes..<oldest us sizes'}. ec_windows (st1 ! k) = {}"
  proof
    fix k assume "k \<in> {oldest us sizes..<oldest us sizes'}"
    then have "k \<in> set (filter (\<lambda>k. ec_windows (st1 ! k) = {}) (sort (remdups evicted)))"
      using dead by (metis set_upt)
    then show "ec_windows (st1 ! k) = {}" by simp
  qed
  ultimately obtain ms where ms: "forget_all st1 [oldest us sizes..<oldest us sizes'] (fs_matches s) = Some ms"
    "matches_ok st1 (oldest us sizes') ms"
    using forget_range matches_ok_same [OF match same] by blast
  have fa: "forget_all st1 (sort (remdups evicted)) (fs_matches s) = Some ms"
    using forget_all_skip [of st1 "sort (remdups evicted)"] ms(1) dead by simp
  let ?s = "s\<lparr>fs_pending_executions := [], fs_store := st1, fs_execution := ex1, fs_matches := ms\<rparr>"
  have "append_execution_bucket s = Some ?s"
    using app fa f(2) by (simp add: append_execution_bucket_def)
  moreover have "flow_inv us sizes' ?s"
    using ms(2) ex1 wins' by (simp add: flow_inv_def flow_core_def total' len)
  ultimately show ?thesis using same by auto
qed

text \<open>An execution appends a contribution that is in no window yet.\<close>

lemma effect_snoc:
  "k < length st \<Longrightarrow> signed_effect (st @ [c]) k = signed_effect st k"
  "k < length st \<Longrightarrow> quantity_effect (st @ [c]) k = quantity_effect st k"
  by (simp_all add: signed_effect_def quantity_effect_def nth_append)

lemma window_ok_snoc:
  assumes "window_ok st sizes w" "sum_list sizes \<le> length st"
  shows "window_ok (st @ [c]) sizes w"
proof -
  have "(\<Sum>k = a..<sum_list sizes. signed_effect (st @ [c]) k) = (\<Sum>k = a..<sum_list sizes. signed_effect st k)"
    "(\<Sum>k = a..<sum_list sizes. quantity_effect (st @ [c]) k) = (\<Sum>k = a..<sum_list sizes. quantity_effect st k)" for a
    using assms(2) by (auto intro!: sum.cong simp: effect_snoc)
  then show ?thesis using assms(1) by (simp add: window_ok_def)
qed

text \<open>Whether a new execution of a match counts: not when that match is held as broken.\<close>

definition counts_now :: "store \<Rightarrow> nat \<Rightarrow> int \<Rightarrow> bool" where
  "counts_now st lo m \<longleftrightarrow> (\<forall>k \<in> set (with_match st m lo). ec_active (st ! k))"

lemma matches_ok_counts:
  assumes "matches_ok st lo ms"
  shows "counts_now st lo m \<longleftrightarrow> \<not> em_broken (dict_get_default ms m \<lparr>em_contributions = [], em_broken = False\<rparr>)"
proof (cases "dict_get ms m")
  case None
  then show ?thesis using matches_okD(1) [OF assms, of m] by (simp add: counts_now_def dict_get_default_def)
next
  case (Some e)
  then have "with_match st m lo \<noteq> []" using matches_okD(1) [OF assms, of m] by auto
  then show ?thesis
    using matches_okD(3) [OF assms Some] Some list.set_sel(1)
    by (fastforce simp: counts_now_def dict_get_default_def)
qed

lemma add_execution_ok:
  assumes inv: "flow_inv us sizes s"
  shows "flow_inv us sizes (add_execution m sq q s)"
    "fs_store (add_execution m sq q s) = fs_store s @ [\<lparr>ec_match_number = m, ec_signed_quantity = sq,
       ec_quantity = q, ec_active = counts_now (fs_store s) (oldest us sizes) m, ec_windows = {}\<rparr>]"
proof -
  let ?lo = "oldest us sizes"
  have core: "flow_core us sizes s" and match: "matches_ok (fs_store s) ?lo (fs_matches s)"
    using inv by (simp_all add: flow_inv_def)
  note f = flow_coreD [OF core]
  define entry where "entry = dict_get_default (fs_matches s) m \<lparr>em_contributions = [], em_broken = False\<rparr>"
  define c where "c = \<lparr>ec_match_number = m, ec_signed_quantity = sq,
       ec_quantity = q, ec_active = \<not> em_broken entry, ec_windows = {}\<rparr>"
  let ?e = "entry\<lparr>em_contributions := em_contributions entry @ [length (fs_store s)]\<rparr>"
  have add: "add_execution m sq q s = s\<lparr>fs_store := fs_store s @ [c],
      fs_pending_executions := fs_pending_executions s @ [length (fs_store s)],
      fs_matches := dict_set m ?e (fs_matches s)\<rparr>"
    by (simp add: add_execution_def entry_def c_def Let_def)
  show "fs_store (add_execution m sq q s) = fs_store s @ [\<lparr>ec_match_number = m, ec_signed_quantity = sq,
       ec_quantity = q, ec_active = counts_now (fs_store s) ?lo m, ec_windows = {}\<rparr>]"
    unfolding add by (simp add: c_def entry_def matches_ok_counts [OF match])
  have lo: "?lo \<le> length (fs_store s)"
    using first_in_le [of "Max (set us)" sizes] f(1) by (simp add: oldest_def)
  have wm: "with_match (fs_store s @ [c]) j ?lo = with_match (fs_store s) j ?lo @ (if j = m then [length (fs_store s)] else [])" for j
    using with_match_snoc [OF lo, of c j] by (simp add: c_def eq_commute)
  have "execution_ok (fs_store s @ [c]) sizes (fs_execution s)"
    using f(1,4) window_ok_snoc by (fastforce simp: execution_ok_def)
  moreover have "ec_windows ((fs_store s @ [c]) ! k) = {u \<in> set us. first_in u sizes \<le> k \<and> k < sum_list sizes}"
    if "k < Suc (length (fs_store s))" for k
    using f(1) f(5) [of k] that by (cases "k = length (fs_store s)") (auto simp: nth_append c_def)
  ultimately have "flow_core us sizes (add_execution m sq q s)"
    using f(1-3) unfolding add by (simp add: flow_core_def)
  moreover have "matches_ok (fs_store s @ [c]) ?lo (dict_set m ?e (fs_matches s))"
  proof (rule matches_okI)
    fix j assume "dict_get (dict_set m ?e (fs_matches s)) j = None"
    then show "with_match (fs_store s @ [c]) j ?lo = []"
      using matches_okD(1) [OF match, of j] by (auto simp: wm split: if_splits)
  next
    fix j e assume e: "dict_get (dict_set m ?e (fs_matches s)) j = Some e"
    have mem: "k < length (fs_store s)" if "k \<in> set (with_match (fs_store s) j ?lo)" for k
      using that by (simp add: with_match_mem)
    show "with_match (fs_store s @ [c]) j ?lo \<noteq> [] \<and> em_contributions e = with_match (fs_store s @ [c]) j ?lo
         \<and> (\<forall>k \<in> set (with_match (fs_store s @ [c]) j ?lo). ec_active ((fs_store s @ [c]) ! k) \<longleftrightarrow> \<not> em_broken e)"
    proof (cases "j = m")
      case True
      have old: "em_contributions entry = with_match (fs_store s) m ?lo
          \<and> (\<forall>k \<in> set (with_match (fs_store s) m ?lo). ec_active (fs_store s ! k) \<longleftrightarrow> \<not> em_broken entry)"
        using matches_okD [OF match, of m] by (cases "dict_get (fs_matches s) m") (auto simp: entry_def dict_get_default_def)
      have "e = ?e" using e True by simp
      moreover have "ec_active c \<longleftrightarrow> \<not> em_broken entry" by (simp add: c_def)
      ultimately show ?thesis using True old mem by (auto simp: wm nth_append)
    next
      case False
      then have "dict_get (fs_matches s) j = Some e" using e by simp
      then show ?thesis
        using False mem matches_okD [OF match, of j] by (auto simp: wm nth_append)
    qed
  qed
  ultimately show "flow_inv us sizes (add_execution m sq q s)"
    unfolding flow_inv_def by (simp add: add)
qed

text \<open>A broken trade withdraws its contributions one after the other.\<close>

definition deactivate :: "store \<Rightarrow> nat \<Rightarrow> store" where
  "deactivate st k = st[k := (st ! k)\<lparr>ec_active := False\<rparr>]"

lemma deactivate_nth:
  "k < length st \<Longrightarrow> deactivate st k ! j = (if j = k then (st ! j)\<lparr>ec_active := False\<rparr> else st ! j)"
  by (simp add: deactivate_def)

lemma length_deactivate [simp]: "length (deactivate st k) = length st"
  by (simp add: deactivate_def)

lemma sum_without:
  fixes f :: "nat \<Rightarrow> int"
  shows "(\<Sum>j = a..<b. if j = k then 0 else f j) = (\<Sum>j = a..<b. f j) - (if a \<le> k \<and> k < b then f k else 0)"
proof (cases "a \<le> k \<and> k < b")
  case True
  then have k: "k \<in> {a..<b}" by simp
  have "(\<Sum>j = a..<b. f j) = f k + (\<Sum>j \<in> {a..<b} - {k}. f j)"
    using sum.remove [OF finite_atLeastLessThan k, of f] .
  moreover have "(\<Sum>j = a..<b. if j = k then 0 else f j) = (\<Sum>j \<in> {a..<b} - {k}. f j)"
    using sum.remove [OF finite_atLeastLessThan k, of "\<lambda>j. if j = k then 0 else f j"] by simp
  ultimately show ?thesis using True by simp
next
  case False
  then have "(\<Sum>j = a..<b. if j = k then 0 else f j) = (\<Sum>j = a..<b. f j)"
    by (intro sum.cong) auto
  then show ?thesis using False by auto
qed

lemma window_ok_withdraw:
  assumes w: "window_ok st sizes w" and k: "k < length st" "ec_active (st ! k)"
    and mem: "ew_window w \<in> ec_windows (st ! k) \<longleftrightarrow> first_in (ew_window w) sizes \<le> k \<and> k < sum_list sizes"
  shows "window_ok (deactivate st k) sizes (break_contribution (st ! k) w)"
    "ew_window (break_contribution (st ! k) w) = ew_window w"
proof -
  have eff: "signed_effect (deactivate st k) = (\<lambda>j. if j = k then 0 else signed_effect st j)"
    "quantity_effect (deactivate st k) = (\<lambda>j. if j = k then 0 else quantity_effect st j)"
    by (auto simp: signed_effect_def quantity_effect_def deactivate_nth [OF k(1)])
  have own: "signed_effect st k = ec_signed_quantity (st ! k)" "quantity_effect st k = ec_quantity (st ! k)"
    using k(2) by (simp_all add: signed_effect_def quantity_effect_def)
  show same: "ew_window (break_contribution (st ! k) w) = ew_window w"
    by (simp add: break_contribution_def)
  have "ew_buckets (break_contribution (st ! k) w) = ew_buckets w" by (simp add: break_contribution_def)
  then show "window_ok (deactivate st k) sizes (break_contribution (st ! k) w)"
    using w k(2) mem unfolding window_ok_def same eff sum_without own
    by (simp add: break_contribution_def)
qed

lemma withdraw_ok:
  assumes core: "flow_core us sizes s" and k: "k < length (fs_store s)" "ec_active (fs_store s ! k)"
  shows "flow_core us sizes (withdraw s k)" "fs_store (withdraw s k) = deactivate (fs_store s) k"
    "fs_matches (withdraw s k) = fs_matches s"
proof -
  note f = flow_coreD [OF core]
  let ?b = "\<lambda>(key, w). (key, break_contribution (fs_store s ! k) w)"
  have run: "withdraw s k = s\<lparr>fs_execution := map ?b (fs_execution s), fs_store := deactivate (fs_store s) k\<rparr>"
    using k by (simp add: withdraw_def deactivate_def Let_def)
  show "fs_store (withdraw s k) = deactivate (fs_store s) k" "fs_matches (withdraw s k) = fs_matches s"
    by (simp_all add: run)
  have keys: "fst ` set (fs_execution s) = set us" using f(3) by (metis list.set_map)
  have each: "u = ew_window (break_contribution (fs_store s ! k) w)
      \<and> window_ok (deactivate (fs_store s) k) sizes (break_contribution (fs_store s ! k) w)"
    if "(u, w) \<in> set (fs_execution s)" for u w
  proof -
    have w: "u = ew_window w" "window_ok (fs_store s) sizes w" using f(4) that by (auto simp: execution_ok_def)
    have "u \<in> set us" using that keys by force
    then have "ew_window w \<in> ec_windows (fs_store s ! k) \<longleftrightarrow> first_in (ew_window w) sizes \<le> k \<and> k < sum_list sizes"
      using f(5) [OF k(1)] w(1) by simp
    from window_ok_withdraw [OF w(2) k this] show ?thesis using w(1) by simp
  qed
  have fsts: "map fst (map ?b (fs_execution s)) = map fst (fs_execution s)" by (induct "fs_execution s") auto
  have "execution_ok (deactivate (fs_store s) k) sizes (map ?b (fs_execution s))"
    unfolding execution_ok_def
  proof (intro conjI ballI)
    show "distinct (map fst (map ?b (fs_execution s)))" using f(4) fsts unfolding execution_ok_def by metis
  next
    fix x assume "x \<in> set (map ?b (fs_execution s))"
    then obtain u w where "(u, w) \<in> set (fs_execution s)" "x = (u, break_contribution (fs_store s ! k) w)"
      by auto
    then show "case x of (u, w) \<Rightarrow> u = ew_window w \<and> window_ok (deactivate (fs_store s) k) sizes w"
      using each by simp
  qed
  moreover have "ec_windows (deactivate (fs_store s) k ! j) = ec_windows (fs_store s ! j)" for j
    by (simp add: deactivate_nth [OF k(1)])
  ultimately show "flow_core us sizes (withdraw s k)"
    using f fsts unfolding run flow_core_def by simp
qed

lemma withdraw_all_ok:
  assumes "flow_core us sizes s" "distinct ks" "\<forall>k \<in> set ks. k < length (fs_store s) \<and> ec_active (fs_store s ! k)"
  shows "flow_core us sizes (foldl withdraw s ks)
    \<and> length (fs_store (foldl withdraw s ks)) = length (fs_store s)
    \<and> (\<forall>k. fs_store (foldl withdraw s ks) ! k
        = (if k \<in> set ks then (fs_store s ! k)\<lparr>ec_active := False\<rparr> else fs_store s ! k))
    \<and> fs_matches (foldl withdraw s ks) = fs_matches s"
  using assms
proof (induction ks arbitrary: s)
  case (Cons k ks)
  have k: "k < length (fs_store s)" "ec_active (fs_store s ! k)" "k \<notin> set ks" using Cons.prems by simp_all
  note one = withdraw_ok [OF Cons.prems(1) k(1,2)]
  have nth: "fs_store (withdraw s k) ! j = (if j = k then (fs_store s ! j)\<lparr>ec_active := False\<rparr> else fs_store s ! j)" for j
    by (simp add: one(2) deactivate_nth [OF k(1)])
  have "\<forall>j \<in> set ks. j < length (fs_store (withdraw s k)) \<and> ec_active (fs_store (withdraw s k) ! j)"
  proof
    fix j assume j: "j \<in> set ks"
    then have "j \<noteq> k" using k(3) by blast
    then show "j < length (fs_store (withdraw s k)) \<and> ec_active (fs_store (withdraw s k) ! j)"
      using Cons.prems(3) j nth one(2) by simp
  qed
  from Cons.IH [OF one(1) _ this] Cons.prems(2)
  have "flow_core us sizes (foldl withdraw s (k # ks))"
    "length (fs_store (foldl withdraw s (k # ks))) = length (fs_store s)"
    "\<forall>j. fs_store (foldl withdraw s (k # ks)) ! j
        = (if j \<in> set ks then (fs_store (withdraw s k) ! j)\<lparr>ec_active := False\<rparr> else fs_store (withdraw s k) ! j)"
    "fs_matches (foldl withdraw s (k # ks)) = fs_matches s"
    using one(2,3) by simp_all
  then show ?case using nth k(3) by auto
qed simp

lemma break_match_ok:
  assumes inv: "flow_inv us sizes s"
  shows "flow_inv us sizes (break_match m s)"
    "length (fs_store (break_match m s)) = length (fs_store s)"
    "oldest us sizes \<le> k \<Longrightarrow> k < length (fs_store s) \<Longrightarrow> fs_store (break_match m s) ! k
      = (if ec_match_number (fs_store s ! k) = m then (fs_store s ! k)\<lparr>ec_active := False\<rparr> else fs_store s ! k)"
proof -
  let ?lo = "oldest us sizes"
  let ?st = "fs_store s"
  let ?st' = "fs_store (break_match m s)"
  have core: "flow_core us sizes s" and match: "matches_ok ?st ?lo (fs_matches s)"
    using inv by (simp_all add: flow_inv_def)
  have *: "flow_inv us sizes (break_match m s) \<and> length ?st' = length ?st
    \<and> (\<forall>k. ?lo \<le> k \<and> k < length ?st \<longrightarrow> ?st' ! k
      = (if ec_match_number (?st ! k) = m then (?st ! k)\<lparr>ec_active := False\<rparr> else ?st ! k))"
  proof (cases "dict_get (fs_matches s) m")
    case None
    then have "k \<notin> set (with_match ?st m ?lo)" for k using matches_okD(1) [OF match, of m] by simp
    then show ?thesis using None inv by (auto simp: break_match_def with_match_mem)
  next
    case (Some e)
    note e = matches_okD(2,3) [OF match Some]
    show ?thesis
    proof (cases "em_broken e")
      case True
      have "?st ! k = (?st ! k)\<lparr>ec_active := False\<rparr>" if "k \<in> set (with_match ?st m ?lo)" for k
        using e(2) [OF that] True by simp
      then show ?thesis using Some True inv by (simp add: break_match_def with_match_mem)
    next
      case False
      let ?ks = "with_match ?st m ?lo"
      let ?s1 = "foldl withdraw s ?ks"
      have "distinct ?ks" by (simp add: with_match_def)
      moreover have "\<forall>k \<in> set ?ks. k < length ?st \<and> ec_active (?st ! k)"
        using e(2) False by (simp add: with_match_mem)
      ultimately have s1: "flow_core us sizes ?s1" "length (fs_store ?s1) = length ?st" "fs_matches ?s1 = fs_matches s"
        "\<And>k. fs_store ?s1 ! k = (if k \<in> set ?ks then (?st ! k)\<lparr>ec_active := False\<rparr> else ?st ! k)"
        using withdraw_all_ok [OF core, of ?ks] by blast+
      have run: "break_match m s = ?s1\<lparr>fs_matches := dict_set m (e\<lparr>em_broken := True\<rparr>) (fs_matches s)\<rparr>"
        using Some False e(1) s1(3) by (simp add: break_match_def Let_def)
      have wm: "with_match (fs_store ?s1) j ?lo = with_match ?st j ?lo" for j
        by (rule with_match_cong) (simp_all add: s1(2,4))
      have "matches_ok (fs_store ?s1) ?lo (dict_set m (e\<lparr>em_broken := True\<rparr>) (fs_matches s))"
      proof (rule matches_okI)
        fix j assume "dict_get (dict_set m (e\<lparr>em_broken := True\<rparr>) (fs_matches s)) j = None"
        then show "with_match (fs_store ?s1) j ?lo = []"
          using matches_okD(1) [OF match, of j] by (auto simp: wm split: if_splits)
      next
        fix j f assume f: "dict_get (dict_set m (e\<lparr>em_broken := True\<rparr>) (fs_matches s)) j = Some f"
        show "with_match (fs_store ?s1) j ?lo \<noteq> [] \<and> em_contributions f = with_match (fs_store ?s1) j ?lo
           \<and> (\<forall>k \<in> set (with_match (fs_store ?s1) j ?lo). ec_active (fs_store ?s1 ! k) \<longleftrightarrow> \<not> em_broken f)"
        proof (cases "j = m")
          case True
          with f have "f = e\<lparr>em_broken := True\<rparr>" by simp
          then show ?thesis using True e(1) matches_okD(1) [OF match, of m] Some by (auto simp: wm s1(4))
        next
          case neq: False
          with f have "dict_get (fs_matches s) j = Some f" by simp
          then show ?thesis
            using matches_okD [OF match, of j] neq by (auto simp: wm s1(4) with_match_mem)
        qed
      qed
      then have "flow_inv us sizes (break_match m s)"
        using s1(1) unfolding run flow_inv_def flow_core_def by simp
      then show ?thesis using s1(2,4) by (simp add: run with_match_mem)
    qed
  qed
  then show "flow_inv us sizes (break_match m s)" "length ?st' = length ?st"
    "?lo \<le> k \<Longrightarrow> k < length ?st \<Longrightarrow> ?st' ! k
      = (if ec_match_number (?st ! k) = m then (?st ! k)\<lparr>ec_active := False\<rparr> else ?st ! k)"
    by blast+
qed

end
