(* ===== verification/Flow_Properties.thy ===== *)
theory Flow_Properties
  imports Flow_Invariant
begin

text \<open>
  What the feature state's rolling windows promise, stated over the history of executions, broken
  trades and buckets, and over the history of counted events; with the proofs that the mutable
  objects of \<open>Feature_Flow\<close> keep the promise.
\<close>

section \<open>The history of a day's executions\<close>

text \<open>
  Each execution is remembered for ever, in the bucket it fell in, with a flag that says whether it
  still counts. A window is a recomputation over its last buckets.
\<close>

record flow_execution =
  fe_match_number :: int
  fe_signed_quantity :: int
  fe_quantity :: int
  fe_valid :: bool

datatype flow_step = Execution int int int | Broken int | Bucket

type_synonym flow_history = "flow_execution list list \<times> flow_execution list"

definition recent :: "int \<Rightarrow> 'a list list \<Rightarrow> 'a list" where
  "recent u buckets = concat (drop (length buckets - nat u) buckets)"

definition invalidate :: "int \<Rightarrow> flow_execution \<Rightarrow> flow_execution" where
  "invalidate m x = (if fe_match_number x = m then x\<lparr>fe_valid := False\<rparr> else x)"

text \<open>
  A new execution counts unless its match number is that of a trade already broken and still in the
  longest window or pending.
\<close>

fun history_step :: "int list \<Rightarrow> flow_history \<Rightarrow> flow_step \<Rightarrow> flow_history" where
  "history_step us (buckets, pending) (Execution m sq q) = (buckets, pending @
     [\<lparr>fe_match_number = m, fe_signed_quantity = sq, fe_quantity = q,
       fe_valid = (\<forall>x \<in> set (recent (Max (set us)) buckets @ pending). fe_match_number x = m \<longrightarrow> fe_valid x)\<rparr>])"
| "history_step us (buckets, pending) (Broken m) = (map (map (invalidate m)) buckets, map (invalidate m) pending)"
| "history_step us (buckets, pending) Bucket = (buckets @ [pending], [])"

definition history_after :: "int list \<Rightarrow> flow_step list \<Rightarrow> flow_history" where
  "history_after us steps = foldl (history_step us) ([], []) steps"

definition valid_signed :: "flow_execution list \<Rightarrow> int" where
  "valid_signed xs = sum_list (map fe_signed_quantity (filter fe_valid xs))"

definition valid_quantity :: "flow_execution list \<Rightarrow> int" where
  "valid_quantity xs = sum_list (map fe_quantity (filter fe_valid xs))"

text \<open>The same steps on the feature state.\<close>

fun perform_step :: "flow_step \<Rightarrow> feature_state \<Rightarrow> feature_state option" where
  "perform_step (Execution m sq q) s = Some (add_execution m sq q s)"
| "perform_step (Broken m) s = Some (break_match m s)"
| "perform_step Bucket s = append_execution_bucket s"

fun run_flow :: "flow_step list \<Rightarrow> feature_state \<Rightarrow> feature_state option" where
  "run_flow [] s = Some s"
| "run_flow (x # xs) s = Option.bind (perform_step x s) (run_flow xs)"

section \<open>The simulation\<close>

definition view :: "execution_contribution \<Rightarrow> flow_execution" where
  "view c = \<lparr>fe_match_number = ec_match_number c, fe_signed_quantity = ec_signed_quantity c,
     fe_quantity = ec_quantity c, fe_valid = ec_active c\<rparr>"

text \<open>
  The state simulates the history on the contributions that are in a window or pending; on older
  ones the flags may differ, since a broken trade no longer reaches them.
\<close>

definition simulates :: "int list \<Rightarrow> flow_history \<Rightarrow> feature_state \<Rightarrow> bool" where
  "simulates us = (\<lambda>(buckets, pending) s. flow_inv us (map length buckets) s
     \<and> length (fs_store s) = length (concat buckets @ pending)
     \<and> (\<forall>k. oldest us (map length buckets) \<le> k \<and> k < length (fs_store s)
          \<longrightarrow> view (fs_store s ! k) = (concat buckets @ pending) ! k))"

lemma length_concat': "length (concat xs) = sum_list (map length xs)"
  by (induction xs) simp_all

lemma recent_drop: "recent u buckets = drop (first_in u (map length buckets)) (concat buckets)"
proof -
  let ?n = "length buckets - nat u"
  have "concat buckets = concat (take ?n buckets) @ concat (drop ?n buckets)"
    by (metis append_take_drop_id concat_append)
  moreover have "length (concat (take ?n buckets)) = first_in u (map length buckets)"
    by (simp add: first_in_def length_concat' take_map)
  ultimately show ?thesis by (simp add: recent_def)
qed

lemma oldest_le_total: "oldest us sizes \<le> sum_list sizes"
  unfolding oldest_def by (rule first_in_le)

lemma drop_all_iff:
  "(\<forall>x \<in> set (drop a xs). P x) \<longleftrightarrow> (\<forall>k. a \<le> k \<and> k < length xs \<longrightarrow> P (xs ! k))"
proof
  assume *: "\<forall>x \<in> set (drop a xs). P x"
  show "\<forall>k. a \<le> k \<and> k < length xs \<longrightarrow> P (xs ! k)"
  proof (intro allI impI)
    fix k assume k: "a \<le> k \<and> k < length xs"
    then have "drop a xs ! (k - a) = xs ! k" "k - a < length (drop a xs)" by auto
    then show "P (xs ! k)" using * by (metis nth_mem)
  qed
qed (auto simp: in_set_conv_nth)

lemma simulates_counts:
  assumes sim: "simulates us (buckets, pending) s"
  shows "counts_now (fs_store s) (oldest us (map length buckets)) m \<longleftrightarrow>
    (\<forall>x \<in> set (recent (Max (set us)) buckets @ pending). fe_match_number x = m \<longrightarrow> fe_valid x)"
proof -
  let ?lo = "oldest us (map length buckets)"
  have lo: "?lo \<le> length (concat buckets)" using oldest_le_total [of us "map length buckets"] by (simp add: length_concat')
  define xs where "xs = concat buckets @ pending"
  have eq: "recent (Max (set us)) buckets @ pending = drop ?lo xs"
    using lo by (simp add: recent_drop oldest_def xs_def)
  have len: "length (fs_store s) = length xs" using sim by (simp add: simulates_def xs_def)
  have at: "fe_match_number (xs ! k) = ec_match_number (fs_store s ! k) \<and> fe_valid (xs ! k) = ec_active (fs_store s ! k)"
    if "?lo \<le> k \<and> k < length xs" for k
  proof -
    have v: "view (fs_store s ! k) = xs ! k" using sim that len by (simp add: simulates_def xs_def)
    show ?thesis unfolding v [symmetric] by (simp add: view_def)
  qed
  show ?thesis
    unfolding counts_now_def with_match_mem Ball_def len eq
    unfolding drop_all_iff [where P = "\<lambda>x. fe_match_number x = m \<longrightarrow> fe_valid x", unfolded Ball_def]
    using at by auto
qed

lemma simulates_step:
  assumes sim: "simulates us h s" and us: "us \<noteq> []" "\<forall>u \<in> set us. 0 < u"
  shows "\<exists>s'. perform_step x s = Some s' \<and> simulates us (history_step us h x) s'"
proof -
  obtain buckets pending where h: "h = (buckets, pending)" by (cases h)
  let ?sizes = "map length buckets"
  let ?xs = "concat buckets @ pending"
  have inv: "flow_inv us ?sizes s" and len: "length (fs_store s) = length ?xs"
    and nth: "\<And>k. oldest us ?sizes \<le> k \<Longrightarrow> k < length (fs_store s) \<Longrightarrow> view (fs_store s ! k) = ?xs ! k"
    using sim by (simp_all add: simulates_def h)
  show ?thesis
  proof (cases x)
    case (Execution m sq q)
    let ?c = "\<lparr>ec_match_number = m, ec_signed_quantity = sq, ec_quantity = q,
      ec_active = counts_now (fs_store s) (oldest us ?sizes) m, ec_windows = {}\<rparr>"
    note add = add_execution_ok [OF inv, of m sq q]
    have st: "length (fs_store (add_execution m sq q s)) = Suc (length (fs_store s))"
      "\<And>k. fs_store (add_execution m sq q s) ! k = (fs_store s @ [?c]) ! k"
      by (simp_all add: add(2))
    have hist: "history_step us h x = (buckets, pending @ [view ?c])"
      using simulates_counts [OF sim [unfolded h], of m] by (simp add: h Execution view_def)
    have "view ((fs_store s @ [?c]) ! k) = (?xs @ [view ?c]) ! k"
      if "oldest us ?sizes \<le> k" "k < Suc (length (fs_store s))" for k
      using nth [of k] that len by (cases "k < length (fs_store s)") (auto simp: nth_append less_Suc_eq)
    then have "simulates us (history_step us h x) (add_execution m sq q s)"
      using add(1) st len unfolding hist by (simp add: simulates_def)
    then show ?thesis by (simp add: Execution)
  next
    case (Broken m)
    note broken = break_match_ok [OF inv, where m = m]
    have "map length (map (map (invalidate m)) buckets) = ?sizes" by simp
    moreover have xs: "concat (map (map (invalidate m)) buckets) @ map (invalidate m) pending = map (invalidate m) ?xs"
      by (simp add: map_concat)
    moreover have "view (fs_store (break_match m s) ! k) = map (invalidate m) ?xs ! k"
      if k: "oldest us ?sizes \<le> k" "k < length (fs_store s)" for k
    proof -
      have "view (fs_store (break_match m s) ! k) = invalidate m (view (fs_store s ! k))"
        using broken(3) [OF k] by (simp add: view_def invalidate_def)
      then show ?thesis using nth [OF k] k(2) len nth_map [of k ?xs "invalidate m"] by metis
    qed
    ultimately have "simulates us (history_step us h x) (break_match m s)"
      using broken(1,2) len by (simp add: simulates_def h Broken comp_def)
    then show ?thesis by (simp add: Broken)
  next
    case Bucket
    have core: "flow_core us ?sizes s" using inv by (simp add: flow_inv_def)
    have "fs_pending_executions s = [length (concat buckets)..<length ?xs]"
      using flow_coreD(2) [OF core] len by (simp add: length_concat')
    then have pend: "length (fs_pending_executions s) = length pending" by simp
    obtain s' where s': "append_execution_bucket s = Some s'" "flow_inv us (?sizes @ [length pending]) s'"
      "same_contributions (fs_store s) (fs_store s')"
      using append_execution_bucket_ok [OF inv us refl] pend by auto
    note same = same_contributionsD [OF s'(3)]
    have "view (fs_store s' ! k) = view (fs_store s ! k)" for k by (simp add: view_def same)
    moreover have "oldest us ?sizes \<le> oldest us (?sizes @ [length pending])"
      using us oldest_mem [OF us(1)] by (simp add: oldest_def first_in_step)
    ultimately have "simulates us (history_step us h x) s'"
      using s'(2) same(1) len nth by (simp add: simulates_def h Bucket)
    then show ?thesis using s'(1) by (simp add: Bucket)
  qed
qed

lemma simulates_run:
  assumes "simulates us h s" "us \<noteq> []" "\<forall>u \<in> set us. 0 < u"
  shows "\<exists>s'. run_flow steps s = Some s' \<and> simulates us (foldl (history_step us) h steps) s'"
  using assms(1)
proof (induction steps arbitrary: h s)
  case (Cons x steps)
  obtain s1 where s1: "perform_step x s = Some s1" "simulates us (history_step us h x) s1"
    using simulates_step [OF Cons.prems assms(2,3)] by blast
  from Cons.IH [OF s1(2)] s1(1) show ?case by simp
qed simp

lemma simulates_new:
  assumes "distinct us" "\<forall>u \<in> set us. 0 < u"
  shows "simulates us ([], []) (new_feature_state us cs)"
proof -
  have "window_ok [] [] (new_execution_window u)" if "0 < u" for u
    using that by (simp add: window_ok_def new_execution_window_def first_in_def)
  then have "execution_ok [] [] (map (\<lambda>u. (u, new_execution_window u)) us)"
    using assms by (auto simp: execution_ok_def comp_def new_execution_window_def)
  then show ?thesis
    by (simp add: simulates_def flow_inv_def flow_core_def new_feature_state_def comp_def matches_ok_def with_match_def)
qed

lemma sum_list_filter:
  "sum_list (map f (filter P xs)) = sum_list (map (\<lambda>x. if P x then f x else 0) xs)" for f :: "'a \<Rightarrow> int"
  by (induction xs) simp_all

lemma sum_list_drop_nth: "sum_list (map f (drop a xs)) = (\<Sum>k = a..<length xs. f (xs ! k))" for f :: "'a \<Rightarrow> int"
proof -
  have "map f (drop a xs) = map (\<lambda>k. f (xs ! k)) [a..<length xs]"
    by (rule nth_equalityI) (simp_all add: nth_append)
  then show ?thesis by (simp add: sum_list_range)
qed

lemma simulates_window:
  assumes sim: "simulates us (buckets, pending) s" and u: "u \<in> set us"
  shows "\<exists>w. dict_get (fs_execution s) u = Some w
    \<and> ew_signed_quantity w = valid_signed (recent u buckets) \<and> ew_quantity w = valid_quantity (recent u buckets)"
proof -
  let ?sizes = "map length buckets"
  have core: "flow_core us ?sizes s" and len: "length (fs_store s) = length (concat buckets @ pending)"
    and nth: "\<And>k. oldest us ?sizes \<le> k \<Longrightarrow> k < length (fs_store s) \<Longrightarrow> view (fs_store s ! k) = (concat buckets @ pending) ! k"
    using sim by (simp_all add: simulates_def flow_inv_def)
  note f = flow_coreD [OF core]
  have "u \<in> fst ` set (fs_execution s)" using u f(3) by (metis list.set_map)
  then obtain w where mem: "(u, w) \<in> set (fs_execution s)" by auto
  then have w: "u = ew_window w" "window_ok (fs_store s) ?sizes w" and dist: "distinct (map fst (fs_execution s))"
    using f(4) by (auto simp: execution_ok_def)
  have get: "dict_get (fs_execution s) u = Some w" using mem dist by (simp add: dict_get_def)
  have at: "view (fs_store s ! k) = concat buckets ! k" if "first_in u ?sizes \<le> k" "k < sum_list ?sizes" for k
    using nth [of k] that oldest_least [OF u, of ?sizes] len by (simp add: nth_append length_concat')
  have "signed_effect (fs_store s) k = (if fe_valid (concat buckets ! k) then fe_signed_quantity (concat buckets ! k) else 0)"
    "quantity_effect (fs_store s) k = (if fe_valid (concat buckets ! k) then fe_quantity (concat buckets ! k) else 0)"
    if "first_in u ?sizes \<le> k" "k < sum_list ?sizes" for k
    unfolding at [OF that, symmetric] by (simp_all add: view_def signed_effect_def quantity_effect_def)
  then show ?thesis
    using w(2) get unfolding window_ok_def w(1) [symmetric] valid_signed_def valid_quantity_def
      sum_list_filter recent_drop sum_list_drop_nth length_concat'
    by (auto intro!: sum.cong)
qed

section \<open>Clock windows\<close>

text \<open>
  A counted event, or a snapshot whose rates trim the queues. The history of counted events is kept
  for ever; a clock window's count is a recount over it.
\<close>

datatype clock_step = Counted string int int int | Rated int

fun step_time :: "clock_step \<Rightarrow> int" where
  "step_time (Counted category side t i) = t"
| "step_time (Rated t) = t"

fun perform_clock :: "partition_context \<Rightarrow> int list \<Rightarrow> feature_state \<Rightarrow> clock_step \<Rightarrow> feature_state" where
  "perform_clock pc cw s (Counted category side t i) = count_clock_event cw category side t i s"
| "perform_clock pc cw s (Rated t) = snd (clock_counts pc cw t s)"

text \<open>The counted events of one category and side, with their times.\<close>

fun counted :: "string \<Rightarrow> int \<Rightarrow> clock_step list \<Rightarrow> (int \<times> int) list" where
  "counted category side [] = []"
| "counted category side (Counted c n t i # steps) =
     (if c = category \<and> n = side then (t, i) # counted category side steps else counted category side steps)"
| "counted category side (Rated t # steps) = counted category side steps"

text \<open>How many of them fall in the window that ends at \<open>t\<close>, its first instant excluded.\<close>

definition count_in_window :: "clock_key \<Rightarrow> int \<Rightarrow> clock_step list \<Rightarrow> int" where
  "count_in_window = (\<lambda>(window, category, side) t steps.
     int (length (filter (\<lambda>e. t - window < fst e) (counted category side steps))))"

lemma queue_of_set [simp]: "queue_of k (set_queue j q s) = (if k = j then q else queue_of k s)"
  by (simp add: queue_of_def set_queue_def dict_get_default_def)

lemma counted_append: "counted c n (xs @ ys) = counted c n xs @ counted c n ys"
  by (induction c n xs rule: counted.induct) simp_all

lemma counted_times: "e \<in> set (counted c n steps) \<Longrightarrow> \<exists>x \<in> set steps. step_time x = fst e"
  by (induction c n steps rule: counted.induct) (auto split: if_splits)

lemma counted_sorted:
  "sorted (map step_time steps) \<Longrightarrow> sorted (map fst (counted c n steps))"
  by (induction c n steps rule: counted.induct) (auto dest!: counted_times)

lemma trim_clock_filter:
  "sorted (map fst q) \<Longrightarrow> trim_clock lower q = filter (\<lambda>e. lower < fst e) q"
proof (induction q)
  case (Cons e q)
  show ?case
  proof (cases "fst e \<le> lower")
    case True
    then show ?thesis using Cons by (simp add: trim_clock_def)
  next
    case False
    then have "\<forall>x \<in> set q. lower < fst x" using Cons.prems by auto
    then show ?thesis using False by (simp add: trim_clock_def)
  qed
qed (simp add: trim_clock_def)

text \<open>
  Every queue holds the counted events after some instant that is no later than the start of the
  window that ends now.
\<close>

definition clock_inv :: "int list \<Rightarrow> int \<Rightarrow> clock_step list \<Rightarrow> feature_state \<Rightarrow> bool" where
  "clock_inv cw now steps s \<longleftrightarrow> (\<forall>(window, category, side) \<in> set (clock_keys cw). \<exists>low \<le> now - window.
     queue_of (window, category, side) s = filter (\<lambda>e. low < fst e) (counted category side steps))"

lemma clock_keys_mem:
  "(w, c, n) \<in> set (clock_keys cw) \<longleftrightarrow> w \<in> set cw \<and> c \<in> set RATE_CATEGORIES \<and> n \<in> {1, -1}"
  by (auto simp: clock_keys_def)

lemma trim_queue:
  assumes "q = filter (\<lambda>e. low < fst e) (counted c n steps)" "low \<le> t - w" "sorted (map step_time steps)"
  shows "trim_clock (t - w) q = filter (\<lambda>e. t - w < fst e) (counted c n steps)"
proof -
  have "sorted (map fst q)" using counted_sorted [OF assms(3)] assms(1) by (simp add: sorted_filter)
  then have "trim_clock (t - w) q = filter (\<lambda>e. t - w < fst e) (filter (\<lambda>e. low < fst e) (counted c n steps))"
    using trim_clock_filter assms(1) by simp
  also have "\<dots> = filter (\<lambda>e. t - w < fst e) (counted c n steps)"
    unfolding filter_filter by (rule filter_cong) (use assms(2) in auto)
  finally show ?thesis .
qed

lemma count_clock_event_queues:
  assumes "distinct cw"
  shows "queue_of (w, c, n) (count_clock_event cw category side t i s) =
    (if w \<in> set cw \<and> c = category \<and> n = side then trim_clock (t - w) (queue_of (w, c, n) s @ [(t, i)])
     else queue_of (w, c, n) s)"
  using assms unfolding count_clock_event_def
  by (induction cw arbitrary: s) auto

lemma clock_counts_queues:
  assumes "distinct (clock_keys cw)"
  shows "queue_of (w, c, n) (snd (clock_counts pc cw t s)) =
    (if (w, c, n) \<in> set (clock_keys cw) then trim_clock (t - w) (queue_of (w, c, n) s) else queue_of (w, c, n) s)"
proof -
  have "queue_of (w, c, n) (foldl (\<lambda>s (w, c, n). set_queue (w, c, n) (trim_clock (t - w) (queue_of (w, c, n) s)) s) s ks)
    = (if (w, c, n) \<in> set ks then trim_clock (t - w) (queue_of (w, c, n) s) else queue_of (w, c, n) s)"
    if "distinct ks" for ks
    using that by (induction ks arbitrary: s) (auto split: if_splits)
  from this [OF assms] show ?thesis by (simp add: clock_counts_def Let_def)
qed

lemma distinct_clock_keys: "distinct cw \<Longrightarrow> distinct (clock_keys cw)"
  by (induction cw) (auto simp: clock_keys_def RATE_CATEGORIES_def)

lemma clock_inv_step:
  assumes inv: "clock_inv cw now steps s" and d: "distinct cw" "\<forall>w \<in> set cw. 0 < w"
    and t: "now \<le> step_time x" "sorted (map step_time (steps @ [x]))"
  shows "clock_inv cw (step_time x) (steps @ [x]) (perform_clock pc cw s x)"
  unfolding clock_inv_def
proof (intro ballI, clarify)
  fix w c n assume k: "(w, c, n) \<in> set (clock_keys cw)"
  have sorted: "sorted (map step_time steps)" using t(2) by (simp add: sorted_append)
  obtain low where low: "low \<le> now - w" "queue_of (w, c, n) s = filter (\<lambda>e. low < fst e) (counted c n steps)"
    using inv k by (fastforce simp: clock_inv_def)
  have w: "w \<in> set cw" "0 < w" using k d(2) by (simp_all add: clock_keys_mem)
  show "\<exists>low \<le> step_time x - w. queue_of (w, c, n) (perform_clock pc cw s x)
      = filter (\<lambda>e. low < fst e) (counted c n (steps @ [x]))"
  proof (cases x)
    case (Counted category side ts i)
    show ?thesis
    proof (cases "c = category \<and> n = side")
      case True
      have "low < ts" using low(1) t(1) w(2) Counted by simp
      then have "queue_of (w, c, n) s @ [(ts, i)] = filter (\<lambda>e. low < fst e) (counted c n (steps @ [x]))"
        using low(2) True by (simp add: counted_append Counted)
      from trim_queue [OF this _ t(2), of ts w] low(1) t(1)
      have "trim_clock (ts - w) (queue_of (w, c, n) s @ [(ts, i)])
          = filter (\<lambda>e. ts - w < fst e) (counted c n (steps @ [x]))" by (simp add: Counted)
      then show ?thesis
        using True w(1) by (auto simp: Counted count_clock_event_queues [OF d(1)])
    next
      case False
      then have "queue_of (w, c, n) (perform_clock pc cw s x) = queue_of (w, c, n) s"
        by (auto simp: Counted count_clock_event_queues [OF d(1)])
      moreover have "counted c n (steps @ [x]) = counted c n steps" using False by (auto simp: counted_append Counted)
      ultimately show ?thesis using low t(1) by (intro exI [of _ low]) simp
    qed
  next
    case (Rated ts)
    have "trim_clock (ts - w) (queue_of (w, c, n) s) = filter (\<lambda>e. ts - w < fst e) (counted c n steps)"
      using trim_queue [OF low(2) _ sorted, of ts w] low(1) t(1) by (simp add: Rated)
    then show ?thesis
      using k by (auto simp: Rated counted_append clock_counts_queues [OF distinct_clock_keys [OF d(1)]])
  qed
qed

lemma clock_inv_run:
  assumes "clock_inv cw now past s" "distinct cw" "\<forall>w \<in> set cw. 0 < w"
    "\<forall>x \<in> set past. step_time x \<le> now" "sorted (map step_time (past @ steps))" "\<forall>x \<in> set steps. now \<le> step_time x"
  shows "\<exists>last. clock_inv cw last (past @ steps) (foldl (perform_clock pc cw) s steps)
    \<and> (last = now \<or> last \<in> step_time ` set steps)"
  using assms
proof (induction steps arbitrary: now past s)
  case (Cons x steps)
  have sx: "sorted (map step_time (past @ [x]))" using Cons.prems(5) by (simp add: sorted_append)
  have nx: "now \<le> step_time x" using Cons.prems(6) by simp
  note step = clock_inv_step [OF Cons.prems(1-3) nx sx, of pc]
  have "\<forall>y \<in> set (past @ [x]). step_time y \<le> step_time x" using Cons.prems(4) nx by force
  moreover have "sorted (map step_time ((past @ [x]) @ steps))" using Cons.prems(5) by simp
  moreover have "\<forall>y \<in> set steps. step_time x \<le> step_time y" using Cons.prems(5) by (simp add: sorted_append)
  ultimately show ?case using Cons.IH [OF step Cons.prems(2,3)] by auto
qed auto

section \<open>Consuming an event\<close>

text \<open>The part of the state the execution flow lives in.\<close>

definition same_flow :: "feature_state \<Rightarrow> feature_state \<Rightarrow> bool" where
  "same_flow s s' \<longleftrightarrow> fs_store s' = fs_store s \<and> fs_execution s' = fs_execution s
     \<and> fs_pending_executions s' = fs_pending_executions s \<and> fs_matches s' = fs_matches s"

lemma same_flow_inv: "same_flow s s' \<Longrightarrow> flow_inv us sizes s' = flow_inv us sizes s"
  by (simp add: same_flow_def flow_inv_def flow_core_def)

lemma same_flow_refl: "same_flow s s"
  by (simp add: same_flow_def)

lemma same_flow_trans: "same_flow s s' \<Longrightarrow> same_flow s' s'' \<Longrightarrow> same_flow s s''"
  by (simp add: same_flow_def)

lemma same_flow_count: "same_flow s (count_clock_event cw category side t i s)"
proof -
  have "same_flow s0 (foldl (\<lambda>s w. set_queue (w, category, side)
      (trim_clock (t - w) (queue_of (w, category, side) s @ [(t, i)])) s) s1 cw)" if "same_flow s0 s1" for s0 s1
    using that by (induction cw arbitrary: s1) (simp_all add: same_flow_def set_queue_def)
  then show ?thesis using same_flow_refl by (simp add: count_clock_event_def)
qed

lemma add_execution_same: "same_flow s s' \<Longrightarrow> same_flow (add_execution m sq q s) (add_execution m sq q s')"
  by (simp add: same_flow_def add_execution_def Let_def)

lemma withdraw_same: "same_flow s s' \<Longrightarrow> same_flow (withdraw s k) (withdraw s' k)"
  by (simp add: same_flow_def withdraw_def Let_def)

lemma break_match_same:
  assumes "same_flow s s'"
  shows "same_flow (break_match m s) (break_match m s')"
proof -
  have all: "same_flow (foldl withdraw s ks) (foldl withdraw s' ks)" for ks
    using assms by (induction ks arbitrary: s s') (simp_all add: withdraw_same)
  have "fs_matches s' = fs_matches s" using assms by (simp add: same_flow_def)
  moreover have "same_flow a b \<Longrightarrow> same_flow (a\<lparr>fs_matches := d\<rparr>) (b\<lparr>fs_matches := d\<rparr>)" for a b d
    by (simp add: same_flow_def)
  moreover have "fs_matches (foldl withdraw s' ks) = fs_matches (foldl withdraw s ks)" for ks
    using all [of ks] by (simp add: same_flow_def)
  ultimately show ?thesis
    using assms all by (auto simp: break_match_def Let_def split: option.splits)
qed

text \<open>An event, accepted or refused, is at most one step of the execution flow.\<close>

definition flow_effect :: "feature_state \<Rightarrow> feature_state \<Rightarrow> bool" where
  "flow_effect s s' \<longleftrightarrow> same_flow s s' \<or> (\<exists>m sq q. 0 < q \<and> same_flow (add_execution m sq q s) s')
     \<or> (\<exists>m. same_flow (break_match m s) s')"

lemma flow_effect_trans:
  assumes "same_flow s s1" "flow_effect s1 s'"
  shows "flow_effect s s'"
  using assms add_execution_same [OF assms(1)] break_match_same [OF assms(1)] same_flow_trans
  unfolding flow_effect_def by metis

lemma consume_flow_event_effect: "flow_effect s (snd (consume_flow_event kind i row s))"
proof -
  have "flow_effect s s" "flow_effect s (break_match m s)" "0 < q \<Longrightarrow> flow_effect s (add_execution m sq q s)" for m sq q
    using same_flow_refl unfolding flow_effect_def by blast+
  then show ?thesis
    by (auto simp: consume_flow_event_def bindM_def liftM_def modifyM_def returnM_def fail_message_def
        split: sum.splits option.splits prod.splits if_splits)
qed

lemma consume_rate_event_same: "same_flow s (snd (consume_rate_event cw kind i t row s))"
  using same_flow_refl [of s] same_flow_count
  by (auto simp: consume_rate_event_def bindM_def liftM_def modifyM_def returnM_def fail_message_def
      split: sum.splits option.splits prod.splits)

lemma flow_effect_refl: "flow_effect s s"
  by (simp add: flow_effect_def same_flow_refl)

lemma consume_event_effect: "flow_effect s (snd (consume_event pc cw row s))"
proof (cases "validate_identity pc row")
  case (Inl e)
  then show ?thesis by (simp add: consume_event_def flow_effect_refl)
next
  case (Inr it)
  obtain i t where it: "it = (i, t)" by (cases it)
  let ?s1 = "s\<lparr>fs_previous_event_index := Some i, fs_previous_event_timestamp := Some t\<rparr>"
  have one: "same_flow s ?s1" by (simp add: same_flow_def)
  have tail: "flow_effect s (snd (bindM (consume_rate_event cw kind i t row) (\<lambda>_. consume_flow_event kind i row) ?s1))" for kind
  proof (cases "consume_rate_event cw kind i t row ?s1")
    case (Pair r s2)
    have "same_flow ?s1 s2" using consume_rate_event_same [of ?s1 cw kind i t row] by (simp add: Pair)
    then have two: "same_flow s s2" using one same_flow_trans by blast
    show ?thesis
      using flow_effect_trans [OF two consume_flow_event_effect] flow_effect_trans [OF two flow_effect_refl]
      by (cases r) (simp_all add: bindM_def Pair)
  qed
  have "flow_effect s ?s1" using flow_effect_trans [OF one flow_effect_refl] .
  then show ?thesis
    using tail flow_effect_refl [of s]
    by (simp add: consume_event_def Inr it bindM_def [of "liftM _"] Let_def split: sum.split option.split)
qed

lemma flow_effect_inv:
  assumes "flow_effect s s'" "flow_inv us sizes s"
  shows "flow_inv us sizes s'"
  using assms same_flow_inv add_execution_ok(1) [OF assms(2)] break_match_ok(1) [OF assms(2)]
  unfolding flow_effect_def by metis

section \<open>Properties\<close>

text \<open>
  C29: from a new state, any sequence of executions, broken trades and buckets succeeds (the code never
  removes a contribution that its match entry does not hold), and every window's sums are then
  those of the valid executions of its last \<open>u\<close> buckets, recomputed from the whole history.
\<close>

theorem rolling_flow_exact:
  assumes "us \<noteq> []" "distinct us" "\<forall>u \<in> set us. 0 < u"
  shows "\<exists>s. run_flow steps (new_feature_state us cs) = Some s
    \<and> (\<forall>u \<in> set us. \<exists>w. dict_get (fs_execution s) u = Some w
        \<and> ew_signed_quantity w = valid_signed (recent u (fst (history_after us steps)))
        \<and> ew_quantity w = valid_quantity (recent u (fst (history_after us steps))))"
proof -
  obtain s where s: "run_flow steps (new_feature_state us cs) = Some s"
    and sim: "simulates us (history_after us steps) s"
    using simulates_run [OF simulates_new [OF assms(2,3)] assms(1,3)] unfolding history_after_def by blast
  obtain buckets pending where h: "history_after us steps = (buckets, pending)" by (cases "history_after us steps")
  then show ?thesis using s simulates_window [OF sim [unfolded h]] by simp
qed

theorem rolling_flow_exact_witness:
  "\<exists>s w. run_flow [Execution 7 30 30, Bucket, Execution 8 (-20) 20, Broken 7, Bucket]
      (new_feature_state [1, 2] []) = Some s
    \<and> dict_get (fs_execution s) 2 = Some w \<and> ew_signed_quantity w = -20 \<and> ew_quantity w = 20"
proof -
  let ?steps = "[Execution 7 30 30, Bucket, Execution 8 (-20) 20, Broken 7, Bucket]"
  have "valid_signed (recent 2 (fst (history_after [1, 2] ?steps))) = -20"
    "valid_quantity (recent 2 (fst (history_after [1, 2] ?steps))) = 20"
    by (simp_all add: history_after_def recent_def invalidate_def valid_signed_def valid_quantity_def)
  then show ?thesis using rolling_flow_exact [of "[1, 2]" ?steps "[]"] by fastforce
qed

text \<open>
  C30: whatever events were counted and whatever snapshots trimmed the queues before, the counts
  a snapshot at \<open>t\<close> reads are those of the events in each window that ends at \<open>t\<close>, once the session is
  as old as the window.
\<close>

theorem clock_counts_exact:
  assumes "distinct cw" "\<forall>w \<in> set cw. 0 < w" "sorted (map step_time (steps @ [Rated t]))"
  shows "fst (clock_counts pc cw t (foldl (perform_clock pc cw) (new_feature_state us cw) steps))
    = map (\<lambda>key. (key, if t - pc_session_start_ns pc \<ge> fst key then Some (count_in_window key t steps) else None))
        (clock_keys cw)"
proof -
  let ?fresh = "new_feature_state us cw"
  let ?s = "foldl (perform_clock pc cw) ?fresh steps"
  define start where "start = (if steps = [] then t else step_time (hd steps))"
  have "queue_of k ?fresh = []" for k
    by (auto simp: queue_of_def new_feature_state_def dict_get_default_def dict_get_def
        dest: map_of_SomeD split: option.splits)
  then have "clock_inv cw start [] ?fresh" unfolding clock_inv_def by fastforce
  moreover have "\<forall>x \<in> set steps. start \<le> step_time x"
    using assms(3) by (cases steps) (auto simp: start_def)
  moreover have "sorted (map step_time ([] @ steps))" using assms(3) by (simp add: sorted_append)
  ultimately obtain last where last: "clock_inv cw last steps ?s" "last = start \<or> last \<in> step_time ` set steps"
    using clock_inv_run [of cw start "[]" ?fresh steps pc] assms(1,2) by auto
  have "last \<le> t"
    using last(2) assms(3) by (cases steps) (auto simp: start_def sorted_append)
  then have "last \<le> step_time (Rated t)" by simp
  have read: "queue_of (w, c, n) (snd (clock_counts pc cw t ?s)) = filter (\<lambda>e. t - w < fst e) (counted c n steps)"
    if k: "(w, c, n) \<in> set (clock_keys cw)" for w c n
  proof -
    obtain low where low: "low \<le> last - w" "queue_of (w, c, n) ?s = filter (\<lambda>e. low < fst e) (counted c n steps)"
      using last(1) k by (fastforce simp: clock_inv_def)
    have "sorted (map step_time steps)" using assms(3) by (simp add: sorted_append)
    from trim_queue [OF low(2) _ this, of t w] low(1) \<open>last \<le> t\<close>
    show ?thesis using k by (simp add: clock_counts_queues [OF distinct_clock_keys [OF assms(1)]])
  qed
  have "fst (clock_counts pc cw t ?s) = map (\<lambda>key. (key, if t - pc_session_start_ns pc \<ge> fst key
      then Some (int (length (queue_of key (snd (clock_counts pc cw t ?s))))) else None)) (clock_keys cw)"
    by (simp add: clock_counts_def Let_def)
  also have "\<dots> = map (\<lambda>key. (key, if t - pc_session_start_ns pc \<ge> fst key then Some (count_in_window key t steps) else None))
        (clock_keys cw)"
    by (rule map_cong [OF refl]) (auto simp: read count_in_window_def)
  finally show ?thesis .
qed

theorem clock_counts_exact_witness:
  "\<exists>pc. fst (clock_counts pc [10] 25 (foldl (perform_clock pc [10]) (new_feature_state [2] [10])
      [Counted ''add'' 1 12 1, Rated 14, Counted ''add'' 1 15 2, Counted ''add'' 1 16 3]))
    ! 0 = ((10, ''add'', 1), Some 1)"
proof -
  let ?pc = "\<lparr>pc_trading_date = (2020, 1, 2), pc_symbol = ''A'', pc_symbol_id = 1, pc_tick_size4 = 100,
     pc_session_start_ns = 5, pc_session_end_ns = 100\<rparr>"
  let ?steps = "[Counted ''add'' 1 12 1, Rated 14, Counted ''add'' 1 15 2, Counted ''add'' 1 16 3]"
  have "fst (clock_counts ?pc [10] 25 (foldl (perform_clock ?pc [10]) (new_feature_state [2] [10]) ?steps))
    = map (\<lambda>key. (key, if 25 - pc_session_start_ns ?pc \<ge> fst key then Some (count_in_window key 25 ?steps) else None))
        (clock_keys [10])"
    by (rule clock_counts_exact) simp_all
  then show ?thesis
    by (intro exI [of _ ?pc]) (simp add: clock_keys_def RATE_CATEGORIES_def count_in_window_def)
qed

end
