(* ===== verification/Feature_Properties.thy ===== *)
theory Feature_Properties
  imports Feature_Rows Flow_Properties
begin

text \<open>
  What the feature rows promise: a row depends on nothing after its snapshot, has the schema's columns
  and holds the exact order flow of the transitions before it.
\<close>

section \<open>Later events\<close>

text \<open>
  Rows that the loop of a snapshot at or before \<open>n\<close> does not take: the first has a later index, or there
  are none and the stream ends without an error.
\<close>

definition beyond :: "int \<Rightarrow> sim_error option \<Rightarrow> pyval row list \<Rightarrow> bool" where
  "beyond n end rows \<longleftrightarrow> (case rows of
       [] \<Rightarrow> end = None
     | row # _ \<Rightarrow> (case dict_get row ''message_index'' of
         None \<Rightarrow> False | Some v \<Rightarrow> (case as_int v of None \<Rightarrow> False | Some k \<Rightarrow> n < k)))"

lemma take_events_beyond:
  assumes "beyond n end later" "i \<le> n"
  shows "take_events context cw end i (events @ later) current_event s
    = (case take_events context cw None i events current_event s of
         (Inl e, s') \<Rightarrow> (Inl e, s') | (Inr (c, rest), s') \<Rightarrow> (Inr (c, rest @ later), s'))"
proof (induction events arbitrary: current_event s)
  case Nil
  show ?case using assms by (cases later) (auto simp: beyond_def split: option.splits)
qed (auto split: option.split sum.split prod.split)

definition with_later :: "pyval row list \<Rightarrow> 'b feature_run \<Rightarrow> 'b feature_run" where
  "with_later later u = u\<lparr>fu_events := fu_events u @ later\<rparr>"

lemma with_later_sel [simp]:
  "fu_observed_depth (with_later later u) = fu_observed_depth u" "fu_events (with_later later u) = fu_events u @ later"
  "fu_state (with_later later u) = fu_state u" "fu_writer (with_later later u) = fu_writer u"
  by (simp_all add: with_later_def)

lemma with_later_update:
  "(with_later later u)\<lparr>fu_observed_depth := d\<rparr> = with_later later (u\<lparr>fu_observed_depth := d\<rparr>)"
  "(with_later later u)\<lparr>fu_state := s\<rparr> = with_later later (u\<lparr>fu_state := s\<rparr>)"
  "(with_later later u)\<lparr>fu_writer := w\<rparr> = with_later later (u\<lparr>fu_writer := w\<rparr>)"
  "(with_later later u)\<lparr>fu_state := s, fu_events := rest @ later\<rparr>
    = with_later later (u\<lparr>fu_state := s, fu_events := rest\<rparr>)"
  by (simp_all add: with_later_def)

text \<open>A call that does the same whether or not later events wait.\<close>

definition ignores :: "pyval row list \<Rightarrow> ('b feature_run, 'x) smethod \<Rightarrow> ('b feature_run, 'x) smethod \<Rightarrow> bool" where
  "ignores later m m' \<longleftrightarrow> (\<forall>u. m' (with_later later u) = (case m u of (r, u') \<Rightarrow> (r, with_later later u')))"

lemma ignores_bind:
  assumes "ignores later m m'" "\<And>x u u'. m u = (Inr x, u') \<Longrightarrow> ignores later (f x) (f' x)"
  shows "ignores later (bindM m f) (bindM m' f')"
  unfolding ignores_def
proof (intro allI)
  fix u
  have head: "m' (with_later later u) = (case m u of (r, u') \<Rightarrow> (r, with_later later u'))"
    using assms(1) by (simp add: ignores_def)
  show "bindM m' f' (with_later later u) = (case bindM m f u of (r, u') \<Rightarrow> (r, with_later later u'))"
  proof (cases "m u")
    case (Pair r u')
    show ?thesis
    proof (cases r)
      case (Inl e)
      then show ?thesis by (simp add: bindM_def head Pair)
    next
      case (Inr x)
      have "ignores later (f x) (f' x)" using assms(2) Pair Inr by simp
      then show ?thesis by (simp add: bindM_def head Pair Inr ignores_def)
    qed
  qed
qed

lemma ignores_simple:
  "ignores later (returnM x) (returnM x)" "ignores later (liftM r) (liftM r)"
  "ignores later (on_state sm) (on_state sm)" "ignores later (on_output wm) (on_output wm)"
  "ignores later (observe_depth ds snapshot) (observe_depth ds snapshot)"
  by (simp_all add: ignores_def on_state_def on_output_def observe_depth_def Let_def with_later_update
      split: prod.split option.split)

lemma ignores_events:
  assumes "beyond n end later" "i \<le> n"
  shows "ignores later (events_until context cw None i) (events_until context cw end i)"
  unfolding ignores_def events_until_def on_flow_def
  by (auto simp: take_events_beyond [OF assms] with_later_update split: prod.split sum.split)

lemma validated_index:
  "on_state (on_flow (validate_snapshot context snapshot)) u = (Inr (i, t), u')
    \<Longrightarrow> dict_get snapshot ''message_index'' = Some (PyInt i) \<and> dict_get snapshot ''timestamp_ns'' = Some (PyInt t)"
  by (auto simp: on_state_def on_flow_def validate_snapshot_def validate_identity_def bindR_eq_Inr item_Inr
      plain_int_iff fail_message_def split: prod.splits sum.splits if_splits option.splits)

lemma feature_step_ignores:
  assumes "beyond n end later" "\<And>i. dict_get snapshot ''message_index'' = Some (PyInt i) \<Longrightarrow> i \<le> n"
  shows "ignores later (feature_step m encode context config None snapshot) (feature_step m encode context config end snapshot)"
  unfolding feature_step_def
proof (rule ignores_bind [OF ignores_simple(5)])
  let ?rest = "\<lambda>end (i, t). bindM (events_until context (snd (snd config)) end i) (\<lambda>current_event.
     bindM (liftM (qualifies snapshot)) (\<lambda>qualifying.
     if \<not> qualifying then returnM ()
     else bindM (on_state (feature_row m context config i t snapshot current_event)) (\<lambda>row.
       on_output (push_row encode row))))"
  show "ignores later (bindM (on_state (on_flow (validate_snapshot context snapshot))) (?rest None))
    (bindM (on_state (on_flow (validate_snapshot context snapshot))) (?rest end))"
  proof (rule ignores_bind [OF ignores_simple(3)])
    fix it u u'
    assume "on_state (on_flow (validate_snapshot context snapshot)) u = (Inr it, u')"
    then have "fst it \<le> n" using validated_index assms(2) by (metis prod.collapse)
    then show "ignores later (?rest None it) (?rest end it)"
      by (cases it) (auto intro!: ignores_bind ignores_simple ignores_events [OF assms(1)])
  qed
qed

lemma feature_loop_ignores:
  assumes "beyond n end later"
    and "\<forall>snapshot \<in> set snapshots. \<forall>i. dict_get snapshot ''message_index'' = Some (PyInt i) \<longrightarrow> i \<le> n"
  shows "ignores later (forM (feature_step m encode context config None) snapshots)
    (forM (feature_step m encode context config end) snapshots)"
  using assms(2)
proof (induction snapshots)
  case (Cons snapshot snapshots)
  have "ignores later (feature_step m encode context config None snapshot) (feature_step m encode context config end snapshot)"
    using Cons.prems by (intro feature_step_ignores [OF assms(1)]) auto
  then show ?case using Cons by (auto simp: ignores_def split: prod.splits sum.splits)
qed (simp add: ignores_def)

text \<open>
  C31: no feature looks ahead. Up to the last of the snapshots consumed, the rows, the batches yielded and any
  error are the same whatever events follow: two event streams that agree up to the last snapshot's
  index cannot be told apart.
\<close>

theorem features_look_back:
  assumes "\<forall>snapshot \<in> set snapshots. \<forall>i. dict_get snapshot ''message_index'' = Some (PyInt i) \<longrightarrow> i \<le> n"
    "beyond n end later" "beyond n end' later'"
    "forM (feature_step m encode context config end) snapshots (new_feature_run config (events @ later)) = (r, u)"
    "forM (feature_step m encode context config end') snapshots (new_feature_run config (events @ later')) = (r', u')"
  shows "r' = r \<and> fu_writer u' = fu_writer u \<and> fu_state u' = fu_state u"
proof -
  have start: "new_feature_run config (events @ later) = with_later later (new_feature_run config events)" for later
    by (simp add: new_feature_run_def with_later_def)
  show ?thesis
    using feature_loop_ignores [OF assms(2,1), of m encode "context" config]
      feature_loop_ignores [OF assms(3,1), of m encode "context" config] assms(4,5)
    by (auto simp: start ignores_def split: prod.splits)
qed

section \<open>Exact rolling sums\<close>

text \<open>
  Sums of integers are exact in doubles as long as no sum of a window and its next value needs
  more than 53 bits, so that adding the newest value and subtracting the oldest leaves no error behind.
\<close>

definition last_of :: "int \<Rightarrow> 'a list \<Rightarrow> 'a list" where
  "last_of w xs = drop (length xs - nat w) xs"

lemma last_of_short: "length xs \<le> nat w \<Longrightarrow> last_of w xs = xs"
  by (simp add: last_of_def)

lemma last_of_snoc:
  "0 < w \<Longrightarrow> last_of w (xs @ [x]) = (if nat w \<le> length xs then tl (last_of w xs) else last_of w xs) @ [x]"
  by (simp add: last_of_def tl_drop drop_Suc [symmetric] Suc_diff_le del: drop_Suc_Cons)

lemma length_last_of [simp]: "length (last_of w xs) = min (length xs) (nat w)"
  by (simp add: last_of_def)

definition bounded_by :: "int \<Rightarrow> int list \<Rightarrow> bool" where
  "bounded_by b xs \<longleftrightarrow> (\<forall>x\<in>set xs. \<bar>x\<bar> \<le> b)"

lemma bounded_sum: "bounded_by b xs \<Longrightarrow> \<bar>sum_list xs\<bar> \<le> int (length xs) * b"
proof (induction xs)
  case (Cons x xs)
  then have "\<bar>x\<bar> \<le> b" "\<bar>sum_list xs\<bar> \<le> int (length xs) * b" by (simp_all add: bounded_by_def)
  then show ?case by (simp add: distrib_right)
qed simp

lemma bounded_last: "bounded_by b xs \<Longrightarrow> bounded_by b (last_of w xs)"
  by (auto simp: bounded_by_def last_of_def dest: in_set_dropD)

definition rolling_exact :: "int \<Rightarrow> int list \<Rightarrow> rolling_sum \<Rightarrow> bool" where
  "rolling_exact w xs r \<longleftrightarrow> ro_window r = w \<and> ro_values r = map (\<lambda>x. Some (of_int x)) (last_of w xs)
     \<and> ro_total r = Some (of_int (sum_list (last_of w xs)))"

lemma float_sum: "\<bar>a + b\<bar> < 2 ^ 53 \<Longrightarrow> fadd (Some (of_int a)) (Some (of_int b)) = Some (of_int (a + b))"
  using round_int [of "a + b"] by (simp add: fadd_def float_op_def)

lemma float_difference: "\<bar>a - b\<bar> < 2 ^ 53 \<Longrightarrow> fsub (Some (of_int a)) (Some (of_int b)) = Some (of_int (a - b))"
  using round_int [of "a - b"] by (simp add: fsub_def float_op_def)

lemma rolling_new: "0 < w \<Longrightarrow> rolling_exact w [] (new_rolling_sum w)"
  by (simp add: rolling_exact_def new_rolling_sum_def last_of_def)

lemma rolling_step:
  assumes r: "rolling_exact w xs r" and w: "0 < w" and b: "bounded_by b (xs @ [x])" "(w + 1) * b < 2 ^ 53"
  shows "rolling_exact w (xs @ [x]) (rolling_append (float_of_int x) r)"
proof -
  let ?ys = "last_of w xs"
  have ys: "ro_values r = map (\<lambda>x. Some (of_int x)) ?ys" "ro_total r = Some (of_int (sum_list ?ys))" "ro_window r = w"
    using r by (simp_all add: rolling_exact_def)
  have x: "\<bar>x\<bar> \<le> b" and "bounded_by b ?ys" using b(1) bounded_last [of b xs] by (simp_all add: bounded_by_def)
  then have sum: "\<bar>sum_list ?ys\<bar> \<le> int (length ?ys) * b" by (intro bounded_sum)
  have "0 \<le> b" using x by simp
  moreover have len: "int (length ?ys) \<le> w" using w by simp
  ultimately have le: "int (length ?ys) * b \<le> w * b" by (rule mult_right_mono [rotated])
  have wb: "w * b + b < 2 ^ 53" using b(2) by (simp add: distrib_right)
  have "\<bar>x\<bar> < 2 ^ 53" using x wb \<open>0 \<le> b\<close> mult_nonneg_nonneg [of w b] w by linarith
  then have fx: "float_of_int x = Some (of_int x)" by (simp add: float_of_int_def round_int)
  have total: "fadd (Some (of_int (sum_list ?ys))) (Some (of_int x)) = Some (of_int (sum_list ?ys + x))"
    by (rule float_sum) (use sum le x wb in linarith)
  show ?thesis
  proof (cases "nat w \<le> length xs")
    case True
    then have full: "int (length ?ys) = w" using w by simp
    then obtain y zs where y: "?ys = y # zs" using w by (cases ?ys) auto
    have "bounded_by b zs" using \<open>bounded_by b ?ys\<close> by (simp add: y bounded_by_def)
    then have "\<bar>sum_list zs\<bar> \<le> int (length zs) * b" by (rule bounded_sum)
    moreover have "int (length zs) * b \<le> w * b" using full \<open>0 \<le> b\<close> by (intro mult_right_mono) (simp_all add: y)
    ultimately have "\<bar>sum_list ?ys + x - y\<bar> < 2 ^ 53" using x wb by (simp add: y)
    then have "fsub (Some (of_int (sum_list ?ys + x))) (Some (of_int y)) = Some (of_int (sum_list ?ys + x - y))"
      by (rule float_difference)
    moreover have "int (length (ro_values r @ [Some (of_int x)])) > w" using full by (simp add: ys(1))
    ultimately show ?thesis
      using total True full
      by (simp add: rolling_exact_def rolling_append_def Let_def ys fx last_of_snoc [OF w] y)
  next
    case False
    then have "?ys = xs" "\<not> int (length (ro_values r @ [Some (of_int x)])) > w"
      using w by (simp_all add: last_of_short ys(1))
    then show ?thesis
      using total False by (simp add: rolling_exact_def rolling_append_def Let_def ys fx last_of_snoc [OF w])
  qed
qed

lemma append_rolling_get:
  assumes "distinct event_windows"
  shows "dict_get (append_rolling event_windows x rolls) w
    = (if w \<in> set event_windows then map_option (rolling_append x) (dict_get rolls w) else dict_get rolls w)"
  using assms unfolding append_rolling_def
proof (induction event_windows arbitrary: rolls)
  case (Cons v ws)
  have other: "v \<notin> set ws" "distinct ws" using Cons.prems by simp_all
  show ?case
    using Cons.IH [OF other(2), of "case dict_get rolls v of None \<Rightarrow> rolls | Some r \<Rightarrow> dict_set v (rolling_append x r) rolls"]
      other(1)
    by (auto split: option.splits)
qed simp

section \<open>The order flow of the tops of book\<close>

text \<open>
  The order flow of a transition, side by side: a better price adds the whole new queue, a worse one
  removes the whole old queue, the same price counts the change; on the ask side this is supply, with
  the opposite sign.
\<close>

definition demand_change :: "int \<Rightarrow> int \<Rightarrow> int \<Rightarrow> int \<Rightarrow> int" where
  "demand_change old_price old_quantity price quantity = (
     if old_price < price then quantity else if price < old_price then - old_quantity else quantity - old_quantity)"

fun order_flow :: "book_top \<Rightarrow> book_top \<Rightarrow> int" where
  "order_flow (bid, ask, bid_quantity, ask_quantity) (bid', ask', bid_quantity', ask_quantity') =
     demand_change bid bid_quantity bid' bid_quantity' - demand_change (- ask) ask_quantity (- ask') ask_quantity'"

lemma flow_increment_order_flow: "flow_increment p c = order_flow p c"
  by (cases p; cases c) (auto simp: flow_increment_def demand_change_def)

definition increments :: "book_top list \<Rightarrow> int list" where
  "increments tops = map (\<lambda>(p, c). order_flow p c) (zip tops (tl tops))"

definition depths :: "book_top list \<Rightarrow> int list" where
  "depths tops = map book_depth (tl tops)"

lemma increments_snoc: "tops \<noteq> [] \<Longrightarrow> increments (tops @ [t]) = increments tops @ [order_flow (last tops) t]"
proof -
  have "zip (ts @ [t]) (tl (ts @ [t])) = zip ts (tl ts) @ [(last ts, t)]" if "ts \<noteq> []" for ts :: "book_top list"
    using that by (induction ts rule: list_nonempty_induct) (auto simp: neq_Nil_conv)
  then show "tops \<noteq> [] \<Longrightarrow> increments (tops @ [t]) = increments tops @ [order_flow (last tops) t]"
    by (simp add: increments_def)
qed

lemma depths_snoc: "tops \<noteq> [] \<Longrightarrow> depths (tops @ [t]) = depths tops @ [book_depth t]"
  by (simp add: depths_def)

lemma length_increments [simp]: "length (increments tops) = length tops - 1" "length (depths tops) = length tops - 1"
  by (simp_all add: increments_def depths_def)

text \<open>Quantities of at most \<open>2 ^ 40\<close> shares, and windows of less than \<open>2 ^ 11\<close> transitions.\<close>

definition share_count :: "int \<Rightarrow> bool" where
  "share_count q \<longleftrightarrow> 0 \<le> q \<and> q \<le> 2 ^ 40"

definition ordinary_top :: "book_top \<Rightarrow> bool" where
  "ordinary_top = (\<lambda>(_, _, bid_quantity, ask_quantity). share_count bid_quantity \<and> share_count ask_quantity)"

definition ordinary_windows :: "int list \<Rightarrow> bool" where
  "ordinary_windows ws \<longleftrightarrow> distinct ws \<and> (\<forall>w\<in>set ws. 0 < w \<and> w < 2 ^ 11)"

lemma bounded_increments: "\<forall>t\<in>set tops. ordinary_top t \<Longrightarrow> bounded_by (2 ^ 41) (increments tops)"
proof -
  have one: "ordinary_top p \<Longrightarrow> ordinary_top c \<Longrightarrow> \<bar>order_flow p c\<bar> \<le> 2 ^ 41" for p c
    by (auto simp: ordinary_top_def share_count_def demand_change_def split: prod.splits)
  have "set (tl tops) \<subseteq> set tops" by (cases tops) auto
  then have pair: "p \<in> set tops \<and> c \<in> set tops" if "(p, c) \<in> set (zip tops (tl tops))" for p c
    using set_zip_leftD [OF that] set_zip_rightD [OF that] by blast
  assume "\<forall>t\<in>set tops. ordinary_top t"
  with one pair have "\<forall>(p, c)\<in>set (zip tops (tl tops)). \<bar>order_flow p c\<bar> \<le> 2 ^ 41" by blast
  then show "bounded_by (2 ^ 41) (increments tops)"
    unfolding bounded_by_def increments_def set_map ball_simps(9) by (simp only: case_prod_unfold)
qed

lemma bounded_depths: "\<forall>t\<in>set tops. ordinary_top t \<Longrightarrow> bounded_by (2 ^ 41) (depths tops)"
proof -
  have one: "ordinary_top t \<Longrightarrow> \<bar>book_depth t\<bar> \<le> 2 ^ 41" for t
    by (auto simp: ordinary_top_def share_count_def book_depth_def split: prod.splits)
  show "\<forall>t\<in>set tops. ordinary_top t \<Longrightarrow> bounded_by (2 ^ 41) (depths tops)"
    using one by (cases tops) (auto simp: bounded_by_def depths_def)
qed

definition order_flow_inv :: "int list \<Rightarrow> book_top list \<Rightarrow> row_state \<Rightarrow> bool" where
  "order_flow_inv ws tops s \<longleftrightarrow> ft_previous_top s = (if tops = [] then None else Some (last tops))
   \<and> ft_qualifying_ordinal s = int (length tops) - 1 \<and> (\<forall>t\<in>set tops. ordinary_top t)
   \<and> (\<forall>w\<in>set ws. (\<exists>r. dict_get (ft_ofi s) w = Some r \<and> rolling_exact w (increments tops) r)
        \<and> (\<exists>r. dict_get (ft_depth_sum s) w = Some r \<and> rolling_exact w (depths tops) r))"

lemma order_flow_start:
  assumes "ordinary_windows ws"
  shows "order_flow_inv ws [] (new_row_state ws cs)"
proof -
  have "dict_get (map (\<lambda>w. (w, new_rolling_sum w)) ws) w = Some (new_rolling_sum w)" if "w \<in> set ws" for w
    using that by (induction ws) (auto simp: dict_get_def)
  then show ?thesis
    using assms by (auto simp: order_flow_inv_def new_row_state_def Let_def increments_def depths_def ordinary_windows_def
        intro!: rolling_new)
qed

lemma transition_flow:
  assumes inv: "order_flow_inv ws tops s" and ws: "ordinary_windows ws" and t: "ordinary_top t"
    and run: "append_transition m ws t (s\<lparr>ft_qualifying_ordinal := ft_qualifying_ordinal s + 1\<rparr>) = (Inr u, s')"
  shows "order_flow_inv ws (tops @ [t]) s'"
proof (cases "tops = []")
  case True
  then show ?thesis
    using inv t run by (auto simp: order_flow_inv_def append_transition_def increments_def depths_def)
next
  case False
  have all: "\<forall>c\<in>set (tops @ [t]). ordinary_top c" using inv t by (simp add: order_flow_inv_def)
  have s': "ft_ofi s' = append_rolling ws (float_of_int (order_flow (last tops) t)) (ft_ofi s)"
    "ft_depth_sum s' = append_rolling ws (float_of_int (book_depth t)) (ft_depth_sum s)"
    "ft_previous_top s' = Some t" "ft_qualifying_ordinal s' = ft_qualifying_ordinal s + 1"
    using run inv False by (auto simp: append_transition_def order_flow_inv_def Let_def flow_increment_order_flow split: if_splits)
  have "rolling_exact w (increments (tops @ [t])) (rolling_append (float_of_int (order_flow (last tops) t)) r)"
    if "w \<in> set ws" "rolling_exact w (increments tops) r" for w r
    using rolling_step [OF that(2), where x = "order_flow (last tops) t" and b = "2 ^ 41"] that(1) ws bounded_increments [OF all] False
    by (auto simp: increments_snoc ordinary_windows_def)
  moreover have "rolling_exact w (depths (tops @ [t])) (rolling_append (float_of_int (book_depth t)) r)"
    if "w \<in> set ws" "rolling_exact w (depths tops) r" for w r
    using rolling_step [OF that(2), where x = "book_depth t" and b = "2 ^ 41"] that(1) ws bounded_depths [OF all] False
    by (auto simp: depths_snoc ordinary_windows_def)
  ultimately show ?thesis
    using inv ws all by (auto simp: order_flow_inv_def s' append_rolling_get ordinary_windows_def)
qed

section \<open>Exact rows\<close>

definition int_cell :: "pyval row \<Rightarrow> string \<Rightarrow> int" where
  "int_cell row name = (case Option.bind (dict_get row name) as_int of None \<Rightarrow> 0 | Some n \<Rightarrow> n)"

definition snapshot_top :: "pyval row \<Rightarrow> book_top" where
  "snapshot_top snapshot = (int_cell snapshot ''bid_price4_1'', int_cell snapshot ''ask_price4_1'',
     int_cell snapshot ''bid_quantity_1'', int_cell snapshot ''ask_quantity_1'')"

definition flow_cell :: "int \<Rightarrow> book_top list \<Rightarrow> feature_cell" where
  "flow_cell w tops = (if length tops \<le> nat w then Plain PyNone
     else Number (Some (of_int (sum_list (last_of w (increments tops))))))"

definition normalised_cell :: "int \<Rightarrow> book_top list \<Rightarrow> feature_cell" where
  "normalised_cell w tops = (if length tops \<le> nat w \<or> sum_list (last_of w (depths tops)) = 0 then Plain PyNone
     else Number (int_div (sum_list (last_of w (increments tops))) (sum_list (last_of w (depths tops)))))"

text \<open>
  The row of the last of a list of tops: all columns but the aggressor's sign, the realised volatilities, the
  execution imbalances and the clock rates are functions of the tops, the snapshot's depth and its time.
\<close>

definition row_exact ::
  "partition_context \<Rightarrow> int list \<times> int list \<times> int list \<Rightarrow> book_top list \<Rightarrow> pyval row \<Rightarrow> feature_row \<Rightarrow> bool" where
  "row_exact pc = (\<lambda>(ds, ws, cs) tops snapshot row. \<exists>i t sign totals volatility execution rates.
     dict_get snapshot ''message_index'' = Some (PyInt i) \<and> dict_get snapshot ''timestamp_ns'' = Some (PyInt t)
   \<and> depth_totals snapshot (Max (set ds)) i = Inr totals
   \<and> row = identity_columns pc ws cs i t (int (length tops) - 1) @ book_columns pc ds t (last tops) totals sign
       @ concat (map (\<lambda>w. zip (window_names w) [flow_cell w tops, normalised_cell w tops, volatility w, execution w]) ws)
       @ rates)"

lemma on_flow_Inr: "on_flow m s = (Inr x, s') \<longleftrightarrow> (\<exists>flow. m (ft_flow s) = (Inr x, flow) \<and> s' = s\<lparr>ft_flow := flow\<rparr>)"
  by (auto simp: on_flow_def split: prod.splits)

lemma order_flow_inv_flow [simp]: "order_flow_inv ws tops (s\<lparr>ft_flow := flow\<rparr>) = order_flow_inv ws tops s"
  by (simp add: order_flow_inv_def)

lemma window_columns_exact:
  assumes inv: "order_flow_inv ws tops s" and w: "w \<in> set ws" "0 < w"
  shows "\<exists>volatility execution. window_columns m s w
    = zip (window_names w) [flow_cell w tops, normalised_cell w tops, volatility, execution]"
proof -
  obtain r d where r: "dict_get (ft_ofi s) w = Some r" "rolling_exact w (increments tops) r"
    and d: "dict_get (ft_depth_sum s) w = Some d" "rolling_exact w (depths tops) d"
    using inv w(1) by (auto simp: order_flow_inv_def)
  have of: "rolling_of (ft_ofi s) w = r" "rolling_of (ft_depth_sum s) w = d"
    using r(1) d(1) by (simp_all add: rolling_of_def dict_get_default_def)
  have "rolling_complete r \<longleftrightarrow> \<not> length tops \<le> nat w"
    using r(2) w(2) by (auto simp: rolling_complete_def rolling_exact_def min_def)
  then show ?thesis
    using r(2) d(2)
    by (auto simp: window_columns_def window_cells_def of Let_def rolling_exact_def flow_cell_def normalised_cell_def
        fdiv_def float_op_def int_div_def numeral_eq_Suc)
qed

lemma feature_columns_exact:
  assumes run: "feature_columns m pc (ds, ws, cs) i t c totals event s = (Inr row, s')"
    and inv: "order_flow_inv ws tops s" and ws: "ordinary_windows ws"
  shows "order_flow_inv ws tops s'
    \<and> (\<exists>sign volatility execution rates. row = identity_columns pc ws cs i t (int (length tops) - 1)
       @ book_columns pc ds t c totals sign
       @ concat (map (\<lambda>w. zip (window_names w) [flow_cell w tops, normalised_cell w tops, volatility w, execution w]) ws)
       @ rates)"
proof -
  from run obtain sign rates flow where
    row: "row = identity_columns pc ws cs i t (ft_qualifying_ordinal s) @ book_columns pc ds t c totals sign
       @ concat (map (window_columns m s) ws) @ rates" and s': "s' = s\<lparr>ft_flow := flow\<rparr>"
    by (auto simp: feature_columns_def bindM_Inr on_flow_Inr Let_def split: if_splits)
  have "\<forall>w\<in>set ws. \<exists>v x. window_columns m s w
      = zip (window_names w) [flow_cell w tops, normalised_cell w tops, v, x]"
    using window_columns_exact [OF inv] ws by (auto simp: ordinary_windows_def)
  then obtain volatility execution where ve: "\<forall>w\<in>set ws. window_columns m s w
      = zip (window_names w) [flow_cell w tops, normalised_cell w tops, volatility w, execution w]"
    unfolding bchoice_iff by blast
  have cols: "map (window_columns m s) ws
      = map (\<lambda>w. zip (window_names w) [flow_cell w tops, normalised_cell w tops, volatility w, execution w]) ws"
    using ve by (intro map_cong) auto
  have ordinal: "ft_qualifying_ordinal s = int (length tops) - 1" using inv by (simp add: order_flow_inv_def)
  show ?thesis
    using inv unfolding row cols ordinal s' order_flow_inv_flow by blast
qed

lemma feature_row_parts:
  assumes "feature_row m pc (ds, ws, cs) i t snapshot current_event s = (Inr row, s')"
  obtains bid ask bid_quantity ask_quantity totals event s1 flow where
    "snapshot_top snapshot = (bid, ask, bid_quantity, ask_quantity)"
    "0 < bid_quantity" "0 < ask_quantity" "0 < bid + ask" "bid < ask"
    "depth_totals snapshot (Max (set ds)) i = Inr totals" "check_trigger i t snapshot current_event = Inr event"
    "append_transition m ws (bid, ask, bid_quantity, ask_quantity)
      (s\<lparr>ft_qualifying_ordinal := ft_qualifying_ordinal s + 1\<rparr>) = (Inr (), s1)"
    "append_bucket (ft_flow s1) = (Inr (), flow)"
    "feature_columns m pc (ds, ws, cs) i t (bid, ask, bid_quantity, ask_quantity) totals event
      (s1\<lparr>ft_flow := flow\<rparr>) = (Inr row, s')"
proof -
  from assms obtain b a bq aq where cells: "dict_get snapshot ''bid_price4_1'' = Some b"
    "dict_get snapshot ''ask_price4_1'' = Some a" "dict_get snapshot ''bid_quantity_1'' = Some bq"
    "dict_get snapshot ''ask_quantity_1'' = Some aq"
    by (auto simp: feature_row_def bindM_Inr item_Inr)
  obtain bid ask bid_quantity ask_quantity where ints: "as_int b = Some bid" "as_int a = Some ask"
    "as_int bq = Some bid_quantity" "as_int aq = Some ask_quantity"
    using assms by (cases "as_int b"; cases "as_int a"; cases "as_int bq"; cases "as_int aq")
      (simp_all add: feature_row_def bindM_def item_def cells)
  from assms obtain totals event s1 flow where
    "\<not> (bid_quantity \<le> 0 \<or> ask_quantity \<le> 0)" "\<not> bid + ask \<le> 0" "\<not> ask \<le> bid"
    "depth_totals snapshot (Max (set ds)) i = Inr totals" "check_trigger i t snapshot current_event = Inr event"
    "append_transition m ws (bid, ask, bid_quantity, ask_quantity)
      (s\<lparr>ft_qualifying_ordinal := ft_qualifying_ordinal s + 1\<rparr>) = (Inr (), s1)"
    "append_bucket (ft_flow s1) = (Inr (), flow)"
    "feature_columns m pc (ds, ws, cs) i t (bid, ask, bid_quantity, ask_quantity) totals event
      (s1\<lparr>ft_flow := flow\<rparr>) = (Inr row, s')"
    by (auto simp: feature_row_def bindM_Inr item_Inr cells ints on_flow_Inr split: if_splits)
  then show thesis
    by (intro that [of bid ask bid_quantity ask_quantity totals event s1 flow])
      (simp_all add: snapshot_top_def int_cell_def cells ints)
qed

lemma feature_row_exact:
  assumes run: "feature_row m pc (ds, ws, cs) i t snapshot current_event s = (Inr row, s')"
    and inv: "order_flow_inv ws tops s" and ws: "ordinary_windows ws" and c: "ordinary_top (snapshot_top snapshot)"
    and it: "dict_get snapshot ''message_index'' = Some (PyInt i)" "dict_get snapshot ''timestamp_ns'' = Some (PyInt t)"
  shows "order_flow_inv ws (tops @ [snapshot_top snapshot]) s'
    \<and> row_exact pc (ds, ws, cs) (tops @ [snapshot_top snapshot]) snapshot row"
proof -
  from run obtain bid ask bid_quantity ask_quantity totals event s1 flow where
    top: "snapshot_top snapshot = (bid, ask, bid_quantity, ask_quantity)"
    and totals: "depth_totals snapshot (Max (set ds)) i = Inr totals"
    and t: "append_transition m ws (bid, ask, bid_quantity, ask_quantity)
      (s\<lparr>ft_qualifying_ordinal := ft_qualifying_ordinal s + 1\<rparr>) = (Inr (), s1)"
    and cols: "feature_columns m pc (ds, ws, cs) i t (bid, ask, bid_quantity, ask_quantity) totals event
      (s1\<lparr>ft_flow := flow\<rparr>) = (Inr row, s')"
    by (rule feature_row_parts)
  have "order_flow_inv ws (tops @ [snapshot_top snapshot]) s1"
    using transition_flow [OF inv ws c] t top by simp
  then have "order_flow_inv ws (tops @ [snapshot_top snapshot]) (s1\<lparr>ft_flow := flow\<rparr>)" by simp
  note exact = feature_columns_exact [OF cols this ws]
  have last: "last (tops @ [snapshot_top snapshot]) = (bid, ask, bid_quantity, ask_quantity)" by (simp add: top)
  show ?thesis
    unfolding row_exact_def prod.case last using exact it totals by blast
qed

definition qualifying_snapshots :: "pyval row list \<Rightarrow> pyval row list" where
  "qualifying_snapshots snapshots = filter (\<lambda>snapshot. qualifies snapshot = Inr True) snapshots"

definition rows_exact ::
  "partition_context \<Rightarrow> int list \<times> int list \<times> int list \<Rightarrow> pyval row list \<Rightarrow> feature_row list \<Rightarrow> bool" where
  "rows_exact pc config qs rows \<longleftrightarrow> length rows = length qs
   \<and> (\<forall>k<length rows. row_exact pc config (map snapshot_top (take (Suc k) qs)) (qs ! k) (rows ! k))"

lemma rows_exact_snoc:
  "rows_exact pc config qs rows \<Longrightarrow> row_exact pc config (map snapshot_top qs @ [snapshot_top q]) q row
    \<Longrightarrow> rows_exact pc config (qs @ [q]) (rows @ [row])"
  by (auto simp: rows_exact_def nth_append less_Suc_eq)

definition rows_written ::
  "(feature_row list \<Rightarrow> 'b option) \<Rightarrow> partition_context \<Rightarrow> int list \<times> int list \<times> int list \<Rightarrow> pyval row list
     \<Rightarrow> 'b feature_run \<Rightarrow> bool" where
  "rows_written encode pc config qs u \<longleftrightarrow> order_flow_inv (fst (snd config)) (map snapshot_top qs) (fu_state u)
   \<and> (\<exists>rows. wrote encode rows (fu_writer u) \<and> rows_exact pc config qs rows)"

text \<open>The event that a snapshot is paired with has its index and has been consumed.\<close>

definition consumed :: "partition_context \<Rightarrow> int list \<Rightarrow> pyval row \<Rightarrow> bool" where
  "consumed pc cw e \<longleftrightarrow> (\<exists>s x s'. consume_event pc cw e s = (Inr x, s'))"

lemma take_events_current:
  "take_events pc cw end i events current_event s = (Inr (c, rest), s') \<Longrightarrow> set rest \<subseteq> set events
    \<and> (c = current_event \<or> (\<exists>e\<in>set events. c = Some e \<and> int_cell e ''message_index'' = i \<and> consumed pc cw e))"
proof (induction events arbitrary: current_event s)
  case (Cons event events)
  from Cons.prems obtain v k where k: "dict_get event ''message_index'' = Some v" "as_int v = Some k"
    by (auto split: option.splits)
  show ?case
  proof (cases "i < k")
    case True
    with Cons.prems k show ?thesis by simp
  next
    case False
    with Cons.prems k obtain x s1 where one: "consume_event pc cw event s = (Inr x, s1)"
      and rest: "take_events pc cw end i events (if k = i then Some event else current_event) s1 = (Inr (c, rest), s')"
      by (auto split: prod.splits sum.splits)
    have "consumed pc cw event" using one by (auto simp: consumed_def)
    then show ?thesis using Cons.IH [OF rest] k by (auto simp: int_cell_def split: if_splits)
  qed
qed (auto split: option.splits)

lemma feature_step_parts:
  assumes "feature_step m encode pc config end snapshot u = (Inr x, u')"
  obtains i t u1 current_event where "fu_writer u1 = fu_writer u"
    "\<exists>flow. fu_state u1 = (fu_state u)\<lparr>ft_flow := flow\<rparr>"
    "dict_get snapshot ''message_index'' = Some (PyInt i)" "dict_get snapshot ''timestamp_ns'' = Some (PyInt t)"
    "qualifies snapshot = Inr False \<and> u' = u1 \<or> qualifies snapshot = Inr True
      \<and> (\<exists>row s. feature_row m pc config i t snapshot current_event (fu_state u1) = (Inr row, s)
          \<and> on_output (push_row encode row) (u1\<lparr>fu_state := s\<rparr>) = (Inr x, u'))"
    "pc_session_start_ns pc \<le> t" "t < pc_session_end_ns pc" "0 \<le> t" "t < DAY_NANOS"
    "set (fu_events u1) \<subseteq> set (fu_events u)" "\<And>e. current_event = Some e \<Longrightarrow> e \<in> set (fu_events u)
      \<and> int_cell e ''message_index'' = i \<and> consumed pc (snd (snd config)) e"
proof -
  from assms obtain o1 u0 u2 i t c u1 q where o: "observe_depth (fst config) snapshot u = (Inr o1, u0)"
    and v: "on_state (on_flow (validate_snapshot pc snapshot)) u0 = (Inr (i, t), u2)"
    and e: "events_until pc (snd (snd config)) end i u2 = (Inr c, u1)" and q: "qualifies snapshot = Inr q"
    and rest: "(if \<not> q then returnM () else bindM (on_state (feature_row m pc config i t snapshot c)) (\<lambda>row.
      on_output (push_row encode row))) u1 = (Inr x, u')"
    by (auto simp: feature_step_def bindM_Inr)
  have u0: "fu_writer u0 = fu_writer u" "fu_state u0 = fu_state u" "fu_events u0 = fu_events u"
    using o by (auto simp: observe_depth_def Let_def split: option.splits if_splits)
  have u2: "fu_writer u2 = fu_writer u0" "\<exists>flow. fu_state u2 = (fu_state u0)\<lparr>ft_flow := flow\<rparr>"
    "fu_events u2 = fu_events u0"
    using v by (auto simp: on_state_def on_flow_def split: prod.splits)
  have u1: "fu_writer u1 = fu_writer u2" "\<exists>flow. fu_state u1 = (fu_state u2)\<lparr>ft_flow := flow\<rparr>"
    using e by (auto simp: events_until_def on_flow_def split: prod.splits sum.splits)
  from e obtain s where "take_events pc (snd (snd config)) end i (fu_events u2) None (ft_flow (fu_state u2))
      = (Inr (c, fu_events u1), s)"
    by (auto simp: events_until_def on_flow_def split: prod.splits sum.splits)
  note taken = take_events_current [OF this, unfolded u2(3) u0(3)]
  have t: "pc_session_start_ns pc \<le> t" "t < pc_session_end_ns pc" "0 \<le> t" "t < DAY_NANOS"
    using v by (auto simp: on_state_def on_flow_def validate_snapshot_def validate_identity_def bindR_eq_Inr
        require_eq_Inr fail_defs split: prod.splits sum.splits if_splits option.splits)
  show thesis
  proof (rule that [of u1 i t c])
    show "fu_writer u1 = fu_writer u" "\<exists>flow. fu_state u1 = (fu_state u)\<lparr>ft_flow := flow\<rparr>" using u0 u1 u2 by auto
    show "dict_get snapshot ''message_index'' = Some (PyInt i)" "dict_get snapshot ''timestamp_ns'' = Some (PyInt t)"
      using validated_index [OF v] by simp_all
    show "set (fu_events u1) \<subseteq> set (fu_events u)" using taken by simp
    show "e \<in> set (fu_events u) \<and> int_cell e ''message_index'' = i \<and> consumed pc (snd (snd config)) e"
      if "c = Some e" for e using taken that by auto
  qed (use t q rest in \<open>auto simp: bindM_Inr on_state_def split: prod.splits if_splits\<close>)
qed

lemma feature_step_exact:
  assumes run: "feature_step m encode pc (ds, ws, cs) end snapshot u = (Inr x, u')"
    and inv: "rows_written encode pc (ds, ws, cs) qs u" and ws: "ordinary_windows ws"
    and c: "qualifies snapshot = Inr True \<Longrightarrow> ordinary_top (snapshot_top snapshot)"
  shows "rows_written encode pc (ds, ws, cs) (qs @ qualifying_snapshots [snapshot]) u'"
  using run
proof (rule feature_step_parts)
  fix i t u1 current_event
  assume u1: "fu_writer u1 = fu_writer u" "\<exists>flow. fu_state u1 = (fu_state u)\<lparr>ft_flow := flow\<rparr>"
    and it: "dict_get snapshot ''message_index'' = Some (PyInt i)" "dict_get snapshot ''timestamp_ns'' = Some (PyInt t)"
    and rest: "qualifies snapshot = Inr False \<and> u' = u1 \<or> qualifies snapshot = Inr True
      \<and> (\<exists>row s. feature_row m pc (ds, ws, cs) i t snapshot current_event (fu_state u1) = (Inr row, s)
          \<and> on_output (push_row encode row) (u1\<lparr>fu_state := s\<rparr>) = (Inr x, u'))"
  have inv1: "order_flow_inv ws (map snapshot_top qs) (fu_state u1)" using inv u1(2) by (auto simp: rows_written_def)
  obtain rows where rows: "wrote encode rows (fu_writer u)" "rows_exact pc (ds, ws, cs) qs rows"
    using inv by (auto simp: rows_written_def)
  from rest show ?thesis
  proof
    assume "qualifies snapshot = Inr False \<and> u' = u1"
    then show ?thesis using inv1 rows u1(1) by (auto simp: rows_written_def qualifying_snapshots_def)
  next
    assume "qualifies snapshot = Inr True
      \<and> (\<exists>row s. feature_row m pc (ds, ws, cs) i t snapshot current_event (fu_state u1) = (Inr row, s)
          \<and> on_output (push_row encode row) (u1\<lparr>fu_state := s\<rparr>) = (Inr x, u'))"
    then obtain row s where q: "qualifies snapshot = Inr True"
      and row: "feature_row m pc (ds, ws, cs) i t snapshot current_event (fu_state u1) = (Inr row, s)"
      and out: "on_output (push_row encode row) (u1\<lparr>fu_state := s\<rparr>) = (Inr x, u')" by blast
    note exact = feature_row_exact [OF row inv1 ws c [OF q] it]
    have u': "fu_state u' = s" "push_row encode row (fu_writer u) = (Inr x, fu_writer u')"
      using out u1(1) by (auto simp: on_output_def split: prod.splits)
    from push_row_Inr [OF rows(1) u'(2)] rows_exact_snoc [OF rows(2)] exact show ?thesis
      by (auto simp: rows_written_def u'(1) qualifying_snapshots_def q)
  qed
qed

lemma feature_loop_exact:
  assumes "forM (feature_step m encode pc (ds, ws, cs) end) snapshots u = (Inr xs, u')"
    "rows_written encode pc (ds, ws, cs) qs u" "ordinary_windows ws"
    "\<forall>snapshot\<in>set (qualifying_snapshots snapshots). ordinary_top (snapshot_top snapshot)"
  shows "rows_written encode pc (ds, ws, cs) (qs @ qualifying_snapshots snapshots) u'"
  using assms
proof (induction snapshots arbitrary: u qs xs)
  case (Cons snapshot snapshots)
  from Cons.prems(1) obtain y ys u1 where step: "feature_step m encode pc (ds, ws, cs) end snapshot u = (Inr y, u1)"
    and rest: "forM (feature_step m encode pc (ds, ws, cs) end) snapshots u1 = (Inr ys, u')"
    by (auto simp only: forM_Cons_Inr)
  have "rows_written encode pc (ds, ws, cs) (qs @ qualifying_snapshots [snapshot]) u1"
    using Cons.prems(4) by (intro feature_step_exact [OF step Cons.prems(2,3)]) (simp add: qualifying_snapshots_def)
  from Cons.IH [OF rest this Cons.prems(3)] Cons.prems(4) show ?case
    by (simp add: qualifying_snapshots_def split: if_splits)
qed (simp add: qualifying_snapshots_def)

text \<open>
  C32: the rows written are exact. When a loop over snapshots returns, one row has been written per
  qualifying snapshot, in order, and each holds its snapshot's index, the count of qualifying snapshots,
  the spread, depth imbalances and microprice of its own book, and for every event window the order flow
  summed over exactly the last transitions between qualifying tops, free of rounding errors for
  quantities up to \<open>2 ^ 40\<close> shares, together with its ratio to the depth over the same transitions.
\<close>

theorem feature_rows_exact:
  assumes "forM (feature_step m encode pc (ds, ws, cs) end) snapshots (new_feature_run (ds, ws, cs) events) = (Inr xs, u)"
    "ordinary_windows ws" "\<forall>snapshot\<in>set (qualifying_snapshots snapshots). ordinary_top (snapshot_top snapshot)"
  shows "\<exists>rows. wrote encode rows (fu_writer u) \<and> rows_exact pc (ds, ws, cs) (qualifying_snapshots snapshots) rows"
proof -
  have "rows_written encode pc (ds, ws, cs) [] (new_feature_run (ds, ws, cs) events)"
    using order_flow_start [OF assms(2)] wrote_start [of encode]
    by (auto simp: rows_written_def new_feature_run_def rows_exact_def)
  from feature_loop_exact [OF assms(1) this assms(2,3)] show ?thesis by (simp add: rows_written_def)
qed

section \<open>The schema of a row\<close>

fun plain_kind :: "column_type \<Rightarrow> pyval \<Rightarrow> bool" where
  "plain_kind Date32 (PyDate d) = True"
| "plain_kind StringType (PyStr x) = True"
| "plain_kind (UInt n) (PyInt x) = (0 \<le> x \<and> x < 2 ^ n)"
| "plain_kind Int8 (PyInt x) = (-128 \<le> x \<and> x < 128)"
| "plain_kind BoolType (PyBool b) = True"
| "plain_kind _ _ = False"

definition cell_conforms :: "string \<times> feature_cell \<Rightarrow> column_field \<Rightarrow> bool" where
  "cell_conforms = (\<lambda>(name, v) f. name = cf_name f \<and> (case v of
       Plain p \<Rightarrow> if p = PyNone then cf_nullable f else plain_kind (cf_type f) p
     | Number x \<Rightarrow> cf_type f = Float64 \<and> is_finite x))"

definition names_conform :: "string \<times> feature_cell \<Rightarrow> column_field \<Rightarrow> bool" where
  "names_conform = (\<lambda>(name, v) f. name = cf_name f \<and> (case v of
       Plain p \<Rightarrow> if p = PyNone then cf_nullable f else plain_kind (cf_type f) p
     | Number x \<Rightarrow> cf_type f = Float64))"

lemma names_conform_cell [simp]:
  "names_conform (name, Plain p) f \<longleftrightarrow> name = cf_name f
     \<and> (if p = PyNone then cf_nullable f else plain_kind (cf_type f) p)"
  "names_conform (name, Number x) f \<longleftrightarrow> name = cf_name f \<and> cf_type f = Float64"
  by (simp_all add: names_conform_def)

lemma cells_conform:
  assumes "list_all2 names_conform row schema" "finite_cells row"
  shows "list_all2 cell_conforms row schema"
  using assms
  by (induction rule: list_all2_induct)
    (auto simp: finite_cells_def names_conform_def cell_conforms_def split: feature_cell.splits)

lemma list_all2_concat_map:
  "(\<And>x. x \<in> set xs \<Longrightarrow> list_all2 P (f x) (g x)) \<Longrightarrow> list_all2 P (concat (map f xs)) (concat (map g xs))"
  by (induction xs) (auto intro!: list_all2_appendI)

definition feature_field :: "feature_definition \<Rightarrow> column_field" where
  "feature_field d = pa_field (fd_name d) (if fd_dtype d = ''int8'' then Int8 else Float64) (fd_nullable d)"

lemma feature_field_sel [simp]:
  "cf_name (feature_field d) = fd_name d" "cf_nullable (feature_field d) = fd_nullable d"
  "cf_type (feature_field d) = (if fd_dtype d = ''int8'' then Int8 else Float64)"
  by (simp_all add: feature_field_def pa_field_def)

lemma window_columns_conform:
  "list_all2 names_conform (window_columns m s w) (map feature_field (window_features w))"
  by (auto simp: window_columns_def window_cells_def window_names_def window_features_def window_feature_def
      feature_entry_def numeral_eq_Suc Let_def)

lemma rates_conform:
  assumes "clock_rates pc cs t s = (Inr rates, s')"
  shows "list_all2 names_conform rates (map feature_field (concat (map clock_features cs)))"
proof -
  let ?fields = "\<lambda>w. concat (map (\<lambda>category. map (clock_feature w category) [''bid'', ''ask'']) RATE_CATEGORIES)"
  have "clock_features w = ?fields w" for w by (simp add: clock_features_def RATE_CATEGORIES_def)
  then have fields: "map feature_field (concat (map clock_features cs)) = concat (map (\<lambda>w. map feature_field (?fields w)) cs)"
    by (simp add: map_concat comp_def)
  define n where "n = (\<lambda>key. if t - pc_session_start_ns pc \<ge> fst key
    then Some (int (length (queue_of key (snd (clock_counts pc cs t s))))) else None)"
  have rates: "rates = map (\<lambda>key. rate_column (key, n key)) (clock_keys cs)"
    using assms by (auto simp: clock_rates_def clock_counts_def Let_def n_def)
  have "list_all2 names_conform (map (\<lambda>key. rate_column (key, n key)) (clock_keys cs))
      (concat (map (\<lambda>w. map feature_field (?fields w)) cs))"
    unfolding clock_keys_def map_concat map_map comp_def
    by (rule list_all2_concat_map)
      (auto simp: RATE_CATEGORIES_def rate_column_def side_name_def clock_feature_def feature_entry_def
        split: option.splits)
  then show ?thesis by (simp only: rates fields)
qed

lemma book_columns_conform:
  assumes "sign \<in> {PyNone, PyInt 1, PyInt (-1)}"
  shows "list_all2 names_conform (book_columns pc ds t c totals sign) (map feature_field
    (current_feature ''spread_ticks'' ''float64'' False ''(ask_price4_1-bid_price4_1)/tick_size4'' ''ticks'' ''never''
      # map imbalance_feature ds @ fixed_features))"
proof -
  have "list_all2 names_conform (map (\<lambda>depth. (''imbalance_'' @ numeral_of depth, imbalance totals depth)) ds)
      (map feature_field (map imbalance_feature ds))"
    by (auto simp: list.rel_map imbalance_def imbalance_feature_def current_feature_def feature_entry_def
        Let_def intro!: list.rel_refl_strong split: prod.splits)
  then show ?thesis
    using assms by (auto simp: book_columns_def Let_def fixed_features_def current_feature_def feature_entry_def
        intro!: list_all2_appendI split: prod.splits)
qed

text \<open>An execution says which side it hit; the aggressor was on the other one.\<close>

definition executes :: "pyval row \<Rightarrow> bool" where
  "executes e \<longleftrightarrow> dict_get e ''event_kind'' = Some (PyStr ''execute'') \<or> dict_get e ''event_kind'' = Some (PyStr ''execute_price'')"

definition trigger_sign :: "pyval row \<Rightarrow> pyval" where
  "trigger_sign e = (if executes e then PyInt (- int_cell e ''side'') else PyNone)"

text \<open>The identity of a row: its snapshot, its place among the rows, and the event that triggered it.\<close>

definition row_identity :: "pyval row list \<Rightarrow> int \<Rightarrow> pyval row \<Rightarrow> feature_row \<Rightarrow> bool" where
  "row_identity events ordinal snapshot row \<longleftrightarrow> (\<exists>i t. \<exists>e\<in>set events.
     dict_get snapshot ''message_index'' = Some (PyInt i) \<and> dict_get snapshot ''timestamp_ns'' = Some (PyInt t)
   \<and> int_cell e ''message_index'' = i \<and> int_cell e ''timestamp_ns'' = t
   \<and> (executes e \<longrightarrow> int_cell e ''side'' = 1 \<or> int_cell e ''side'' = -1)
   \<and> map (dict_get row) [''message_index'', ''timestamp_ns'', ''qualifying_ordinal'', ''aggressor_sign'']
       = map (Some \<circ> Plain) [PyInt i, PyInt t, PyInt ordinal, trigger_sign e])"

lemma consumed_side:
  assumes "consumed pc cw e" "executes e" "as_int (row_get e ''timestamp_ns'') = Some t"
    "pc_session_start_ns pc \<le> t" "t < pc_session_end_ns pc"
  shows "int_cell e ''side'' = 1 \<or> int_cell e ''side'' = -1"
proof -
  obtain s x s' where run: "consume_event pc cw e s = (Inr x, s')" using assms(1) by (auto simp: consumed_def)
  then obtain i t' where it: "validate_identity pc e = Inr (i, t')"
    by (cases "validate_identity pc e") (auto simp: consume_event_def)
  then have "t' = t" using assms(3)
    by (auto simp: validate_identity_def bindR_eq_Inr item_Inr plain_int_iff row_get_def dict_get_default_def as_int_def
        split: if_splits option.splits)
  then show ?thesis
    using run assms(2,4,5)
    by (auto simp: consume_event_def it bindM_Inr item_Inr executes_def py_text_def EVENT_KINDS_def Let_def
        consume_rate_event_def rate_category_def side_value_def int_cell_def
        split: if_splits option.splits pyval.splits)
qed

lemma dict_get_append: "dict_get (a @ b) k = (case dict_get a k of None \<Rightarrow> dict_get b k | Some v \<Rightarrow> Some v)"
  by (simp add: dict_get_def map_add_def split: option.split)

lemma transition_ordinal:
  "append_transition m ws c s = (Inr u, s') \<Longrightarrow> ft_qualifying_ordinal s' = ft_qualifying_ordinal s"
  by (auto simp: append_transition_def Let_def split: option.splits if_splits)

lemma sign_cell:
  "dict_get (identity_columns pc ws cs i t k @ book_columns pc DEPTH_LEVELS t c totals sign @ rest) ''aggressor_sign''
    = Some (Plain sign)"
  by (simp add: dict_get_append identity_columns_def book_columns_def DEPTH_LEVELS_def Let_def dict_get_def
      split: prod.split)

lemma identity_cells:
  "dict_get (identity_columns pc ws cs i t k @ rest) ''message_index'' = Some (Plain (PyInt i))"
  "dict_get (identity_columns pc ws cs i t k @ rest) ''timestamp_ns'' = Some (Plain (PyInt t))"
  "dict_get (identity_columns pc ws cs i t k @ rest) ''qualifying_ordinal'' = Some (Plain (PyInt k))"
  by (simp_all add: dict_get_append identity_columns_def dict_get_def)

definition in_uint :: "nat \<Rightarrow> int \<Rightarrow> bool" where
  "in_uint n x \<longleftrightarrow> 0 \<le> x \<and> x < 2 ^ n"

text \<open>One row: its ordinal goes up by one, its cells fit the schema, and its event is its snapshot's.\<close>

lemma feature_row_typed:
  assumes config: "validate_feature_config config = Inr cfg" and id: "in_uint 16 (pc_symbol_id pc)"
    and run: "feature_row m pc cfg i t snapshot current_event s = (Inr row, s')"
    and range: "in_uint 64 i" "in_uint 64 t" "in_uint 64 (ft_qualifying_ordinal s + 1)"
    and session: "pc_session_start_ns pc \<le> t" "t < pc_session_end_ns pc"
    and event: "\<And>e. current_event = Some e \<Longrightarrow> e \<in> set events \<and> int_cell e ''message_index'' = i \<and> consumed pc cw e"
    and it: "dict_get snapshot ''message_index'' = Some (PyInt i)" "dict_get snapshot ''timestamp_ns'' = Some (PyInt t)"
  shows "(\<exists>schema. feature_schema config = Inr schema \<and> list_all2 cell_conforms row schema)
    \<and> row_identity events (ft_qualifying_ordinal s + 1) snapshot row \<and> ft_qualifying_ordinal s' = ft_qualifying_ordinal s + 1"
proof -
  obtain ds ws cs where cfg: "cfg = (ds, ws, cs)" by (cases cfg)
  have ds: "ds = DEPTH_LEVELS" using config by (simp add: feature_config_iff cfg)
  from run obtain bid ask bid_quantity ask_quantity totals e s1 flow0 where
    trigger: "check_trigger i t snapshot current_event = Inr e" and
    t1: "append_transition m ws (bid, ask, bid_quantity, ask_quantity)
      (s\<lparr>ft_qualifying_ordinal := ft_qualifying_ordinal s + 1\<rparr>) = (Inr (), s1)" and
    cols: "feature_columns m pc (ds, ws, cs) i t (bid, ask, bid_quantity, ask_quantity) totals e
      (s1\<lparr>ft_flow := flow0\<rparr>) = (Inr row, s')"
    unfolding cfg by (rule feature_row_parts)
  let ?c = "(bid, ask, bid_quantity, ask_quantity)" and ?s = "s1\<lparr>ft_flow := flow0\<rparr>" and ?k = "ft_qualifying_ordinal s + 1"
  have k: "ft_qualifying_ordinal s1 = ?k" using transition_ordinal [OF t1] by simp
  from cols obtain sign rates flow where sign: "aggressor_sign e = Inr sign"
    and rates: "clock_rates pc cs t flow0 = (Inr rates, flow)" and s': "s' = ?s\<lparr>ft_flow := flow\<rparr>"
    and row: "row = identity_columns pc ws cs i t ?k @ book_columns pc ds t ?c totals sign
       @ concat (map (window_columns m ?s) ws) @ rates" and fin: "finite_cells row"
    by (auto simp: feature_columns_def bindM_Inr on_flow_Inr Let_def k split: if_splits)
  from trigger have e: "current_event = Some e" and time: "as_int (row_get e ''timestamp_ns'') = Some t"
    by (auto simp: check_trigger_def bindR_eq_Inr item_Inr row_get_def dict_get_default_def split: option.splits if_splits)
  note ev = event [OF e]
  have side: "executes e \<longrightarrow> int_cell e ''side'' = 1 \<or> int_cell e ''side'' = -1"
    using consumed_side [OF _ _ time session] ev by blast
  have sign_is: "sign = trigger_sign e"
    using sign by (auto simp: aggressor_sign_def bindR_eq_Inr item_Inr trigger_sign_def executes_def int_cell_def
        split: if_splits option.splits)
  have signs: "sign \<in> {PyNone, PyInt 1, PyInt (-1)}" using side by (auto simp: sign_is trigger_sign_def)
  have "int_cell e ''timestamp_ns'' = t"
    using time by (auto simp: int_cell_def row_get_def dict_get_default_def as_int_def split: option.splits)
  then have identity: "row_identity events ?k snapshot row"
    unfolding row_identity_def row ds using ev side it sign_is by (fastforce simp: sign_cell identity_cells)
  let ?identity = "[pa_field ''trading_date'' Date32 False, pa_field ''symbol'' StringType False,
      pa_field ''symbol_id'' (UInt 16) False, pa_field ''message_index'' (UInt 64) False,
      pa_field ''timestamp_ns'' (UInt 64) False, pa_field ''qualifying_ordinal'' (UInt 64) False,
      pa_field ''history_complete'' BoolType False]"
  let ?book = "current_feature ''spread_ticks'' ''float64'' False ''(ask_price4_1-bid_price4_1)/tick_size4'' ''ticks'' ''never''
      # map imbalance_feature ds @ fixed_features"
  have "feature_schema config = Inr (?identity @ map feature_field ?book
      @ map feature_field (concat (map window_features ws)) @ map feature_field (concat (map clock_features cs)))"
    using config by (simp add: feature_schema_def feature_catalogue_def cfg feature_field_def comp_def)
  moreover have "list_all2 names_conform row (?identity @ map feature_field ?book
      @ map feature_field (concat (map window_features ws)) @ map feature_field (concat (map clock_features cs)))"
    unfolding row
  proof (intro list_all2_appendI)
    show "list_all2 names_conform (identity_columns pc ws cs i t ?k) ?identity"
      using id range by (simp add: identity_columns_def pa_field_def in_uint_def)
    show "list_all2 names_conform (concat (map (window_columns m ?s) ws)) (map feature_field (concat (map window_features ws)))"
      unfolding map_concat map_map comp_def by (rule list_all2_concat_map) (rule window_columns_conform)
  qed (rule book_columns_conform [OF signs] rates_conform [OF rates])+
  ultimately show ?thesis using cells_conform fin identity k by (simp add: s')
qed

definition typed_rows ::
  "feature_config option \<Rightarrow> pyval row list \<Rightarrow> pyval row list \<Rightarrow> feature_row list \<Rightarrow> bool" where
  "typed_rows config events qs rows \<longleftrightarrow> length rows = length qs
   \<and> (\<forall>k<length rows. (\<exists>schema. feature_schema config = Inr schema \<and> list_all2 cell_conforms (rows ! k) schema)
        \<and> row_identity events (int k) (qs ! k) (rows ! k))"

lemma typed_rows_snoc:
  assumes "typed_rows config events qs rows" "feature_schema config = Inr schema" "list_all2 cell_conforms row schema"
    "row_identity events (int (length qs)) q row"
  shows "typed_rows config events (qs @ [q]) (rows @ [row])"
  using assms by (auto simp: typed_rows_def nth_append less_Suc_eq)

definition typed_run ::
  "(feature_row list \<Rightarrow> 'b option) \<Rightarrow> feature_config option \<Rightarrow> pyval row list \<Rightarrow> pyval row list \<Rightarrow> 'b feature_run \<Rightarrow> bool" where
  "typed_run encode config events qs u \<longleftrightarrow> set (fu_events u) \<subseteq> set events
   \<and> ft_qualifying_ordinal (fu_state u) = int (length qs) - 1
   \<and> (\<exists>rows. wrote encode rows (fu_writer u) \<and> typed_rows config events qs rows)"

lemma feature_step_typed:
  assumes config: "validate_feature_config config = Inr cfg" and id: "in_uint 16 (pc_symbol_id pc)"
    and run: "feature_step m encode pc cfg end snapshot u = (Inr x, u')" and inv: "typed_run encode config events qs u"
    and index: "\<And>i. dict_get snapshot ''message_index'' = Some (PyInt i) \<Longrightarrow> in_uint 64 i" and count: "length qs < 2 ^ 64"
  shows "typed_run encode config events (qs @ qualifying_snapshots [snapshot]) u'"
  using run
proof (rule feature_step_parts)
  fix i t u1 current_event
  assume u1: "fu_writer u1 = fu_writer u" "\<exists>flow. fu_state u1 = (fu_state u)\<lparr>ft_flow := flow\<rparr>"
    and it: "dict_get snapshot ''message_index'' = Some (PyInt i)" "dict_get snapshot ''timestamp_ns'' = Some (PyInt t)"
    and rest: "qualifies snapshot = Inr False \<and> u' = u1 \<or> qualifies snapshot = Inr True
      \<and> (\<exists>row s. feature_row m pc cfg i t snapshot current_event (fu_state u1) = (Inr row, s)
          \<and> on_output (push_row encode row) (u1\<lparr>fu_state := s\<rparr>) = (Inr x, u'))"
    and session: "pc_session_start_ns pc \<le> t" "t < pc_session_end_ns pc" and t: "0 \<le> t" "t < DAY_NANOS"
    and taken: "set (fu_events u1) \<subseteq> set (fu_events u)" "\<And>e. current_event = Some e \<Longrightarrow> e \<in> set (fu_events u)
      \<and> int_cell e ''message_index'' = i \<and> consumed pc (snd (snd cfg)) e"
  have ordinal: "ft_qualifying_ordinal (fu_state u1) = int (length qs) - 1" and evs: "set (fu_events u1) \<subseteq> set events"
    using inv u1(2) taken(1) by (auto simp: typed_run_def)
  obtain rows where rows: "wrote encode rows (fu_writer u)" "typed_rows config events qs rows"
    using inv by (auto simp: typed_run_def)
  from rest show ?thesis
  proof
    assume "qualifies snapshot = Inr False \<and> u' = u1"
    then show ?thesis using ordinal evs rows u1(1) by (auto simp: typed_run_def qualifying_snapshots_def)
  next
    assume "qualifies snapshot = Inr True
      \<and> (\<exists>row s. feature_row m pc cfg i t snapshot current_event (fu_state u1) = (Inr row, s)
          \<and> on_output (push_row encode row) (u1\<lparr>fu_state := s\<rparr>) = (Inr x, u'))"
    then obtain row s where q: "qualifies snapshot = Inr True"
      and row: "feature_row m pc cfg i t snapshot current_event (fu_state u1) = (Inr row, s)"
      and out: "on_output (push_row encode row) (u1\<lparr>fu_state := s\<rparr>) = (Inr x, u')" by blast
    have k: "ft_qualifying_ordinal (fu_state u1) + 1 = int (length qs)" using ordinal by simp
    have range: "in_uint 64 i" "in_uint 64 t" "in_uint 64 (ft_qualifying_ordinal (fu_state u1) + 1)"
      using index [OF it(1)] t count by (simp_all add: in_uint_def DAY_NANOS_def k)
    have event: "current_event = Some e \<Longrightarrow> e \<in> set events \<and> int_cell e ''message_index'' = i
      \<and> consumed pc (snd (snd cfg)) e" for e using taken(2) inv by (auto simp: typed_run_def)
    note typed = feature_row_typed [OF config id row range session event it]
    have u': "fu_state u' = s" "fu_events u' = fu_events u1" "push_row encode row (fu_writer u) = (Inr x, fu_writer u')"
      using out u1(1) by (auto simp: on_output_def split: prod.splits)
    have "\<exists>schema. feature_schema config = Inr schema \<and> list_all2 cell_conforms row schema" using typed by blast
    then have "typed_rows config events (qs @ [snapshot]) (rows @ [row])"
      using typed_rows_snoc [OF rows(2)] typed unfolding k by blast
    then show ?thesis
      using push_row_Inr [OF rows(1) u'(3)] typed evs ordinal by (auto simp: typed_run_def u' qualifying_snapshots_def q)
  qed
qed

lemma feature_loop_typed:
  assumes config: "validate_feature_config config = Inr cfg" and id: "in_uint 16 (pc_symbol_id pc)"
    and "forM (feature_step m encode pc cfg end) snapshots u = (Inr xs, u')" "typed_run encode config events qs u"
    and "\<forall>snapshot\<in>set snapshots. \<forall>i. dict_get snapshot ''message_index'' = Some (PyInt i) \<longrightarrow> in_uint 64 i"
    and "length qs + length snapshots \<le> 2 ^ 64"
  shows "typed_run encode config events (qs @ qualifying_snapshots snapshots) u'"
  using assms(3-)
proof (induction snapshots arbitrary: u qs xs)
  case (Cons snapshot snapshots)
  from Cons.prems(1) obtain y ys u1 where step: "feature_step m encode pc cfg end snapshot u = (Inr y, u1)"
    and rest: "forM (feature_step m encode pc cfg end) snapshots u1 = (Inr ys, u')"
    by (auto simp only: forM_Cons_Inr)
  have one: "typed_run encode config events (qs @ qualifying_snapshots [snapshot]) u1"
    by (rule feature_step_typed [OF config id step Cons.prems(2)]) (use Cons.prems(3,4) in auto)
  have "typed_run encode config events ((qs @ qualifying_snapshots [snapshot]) @ qualifying_snapshots snapshots) u'"
    by (rule Cons.IH [OF rest one]) (use Cons.prems(3,4) in \<open>auto simp: qualifying_snapshots_def\<close>)
  then show ?case by (simp add: qualifying_snapshots_def split: if_splits)
qed (simp add: qualifying_snapshots_def)

text \<open>
  C33: the rows that a run over snapshots writes fit the feature schema. There is one row per qualifying
  snapshot, with exactly the schema's columns in order; each cell is of its column's type and in that
  type's range, only nullable columns are empty and every float is finite. Each row carries its
  snapshot's index and time, its ordinal counts the rows from zero, and its aggressor is opposite
  to the side of the execution that triggered the snapshot, or empty for another event.
\<close>

theorem feature_row_conforms:
  assumes "validate_feature_config config = Inr cfg" "validate_feature_context part = Inr pc"
    "forM (feature_step m encode pc cfg end) snapshots (new_feature_run cfg events) = (Inr xs, u)"
    "\<forall>snapshot\<in>set snapshots. \<forall>i. dict_get snapshot ''message_index'' = Some (PyInt i) \<longrightarrow> 0 \<le> i \<and> i < 2 ^ 64"
    "length snapshots \<le> 2 ^ 64"
  shows "\<exists>schema rows. feature_schema config = Inr schema \<and> wrote encode rows (fu_writer u)
    \<and> length rows = length (qualifying_snapshots snapshots)
    \<and> (\<forall>k<length rows. list_all2 cell_conforms (rows ! k) schema
         \<and> row_identity events (int k) (qualifying_snapshots snapshots ! k) (rows ! k))"
proof -
  have id: "in_uint 16 (pc_symbol_id pc)"
    using assms(2) by (auto simp: validate_feature_context_def bindR_eq_Inr require_eq_Inr in_uint_def
        split: pyval.splits option.splits prod.splits)
  have "typed_run encode config events [] (new_feature_run cfg events)"
    using wrote_start [of encode]
    by (auto simp: typed_run_def typed_rows_def new_feature_run_def new_row_state_def Let_def)
  from feature_loop_typed [OF assms(1) id assms(3) this] assms(4,5)
  have "typed_run encode config events (qualifying_snapshots snapshots) u" by (simp add: in_uint_def)
  moreover obtain schema where "feature_schema config = Inr schema"
    using assms(1) by (cases cfg) (simp add: feature_schema_def feature_catalogue_def)
  ultimately show ?thesis by (auto simp: typed_run_def typed_rows_def)
qed

section \<open>A small day\<close>

text \<open>Three quotes; the third moves both prices up.\<close>

definition feature_libm :: libm where
  "feature_libm = \<lparr>lm_log = Some, lm_log1p = Some, lm_sqrt = Some, lm_square = (\<lambda>x. round_double (x * x))\<rparr>"

definition feature_day :: partition_context where
  "feature_day = \<lparr>pc_trading_date = (2020, 1, 2), pc_symbol = ''A'', pc_symbol_id = 1, pc_tick_size4 = 100,
     pc_session_start_ns = 0, pc_session_end_ns = 10000000000\<rparr>"

definition feature_event :: "int \<Rightarrow> pyval row" where
  "feature_event i = [(''trading_date'', PyDate (2020, 1, 2)), (''symbol'', PyStr ''A''), (''symbol_id'', PyInt 1),
     (''message_index'', PyInt i), (''timestamp_ns'', PyInt 0), (''event_kind'', PyStr ''add''), (''side'', PyInt 1),
     (''in_session'', PyBool True)]"

definition feature_snapshot :: "int \<Rightarrow> int \<Rightarrow> int \<Rightarrow> int \<Rightarrow> pyval row" where
  "feature_snapshot i bid ask quantity = [(''trading_date'', PyDate (2020, 1, 2)), (''symbol'', PyStr ''A''),
     (''message_index'', PyInt i), (''timestamp_ns'', PyInt 0), (''symbol_id'', PyInt 1), (''event_kind'', PyStr ''add''),
     (''event_price4'', PyNone), (''event_quantity'', PyNone), (''last_trade_price4'', PyNone),
     (''last_trade_quantity'', PyNone), (''top_n_changed'', PyBool True), (''trading_state'', PyStr ''trading''),
     (''flags'', PyInt 0), (''bid_price4_1'', PyInt bid), (''bid_quantity_1'', PyInt quantity),
     (''ask_price4_1'', PyInt ask), (''ask_quantity_1'', PyInt quantity)]"

definition feature_snapshots :: "pyval row list" where
  "feature_snapshots = [feature_snapshot 1 100 300 5, feature_snapshot 2 100 300 7, feature_snapshot 3 300 500 1]"

definition feature_sample :: "pyval row list \<Rightarrow> int list \<Rightarrow> unit list result \<times> feature_row list feature_run" where
  "feature_sample snapshots indices = forM (feature_step feature_libm Some feature_day ([1], [1], [10]) None) snapshots
     (new_feature_run ([1], [1], [10]) (map feature_event indices))"

lemma feature_sample_ok:
  "succeeded (feature_sample feature_snapshots [1, 2, 3])"
  "length (wr_output (fu_writer (snd (feature_sample (take 2 feature_snapshots) [1, 2, 3])))) = 2"
  by code_simp+

lemma feature_tops:
  "qualifying_snapshots feature_snapshots = feature_snapshots"
  "map snapshot_top feature_snapshots = [(100, 300, 5, 5), (100, 300, 7, 7), (300, 500, 1, 1)]"
  by code_simp+

text \<open>A snapshot of depth ten, triggered by an execution, under the version 1 configuration.\<close>

definition deep_snapshot :: "pyval row" where
  "deep_snapshot = dict_set ''event_kind'' (PyStr ''execute'') (feature_snapshot 1 100 300 5)
     @ concat (map (\<lambda>level. map (\<lambda>(side, column). (level_column side column level, PyNone))
     [(''bid'', ''price4''), (''bid'', ''quantity''), (''ask'', ''price4''), (''ask'', ''quantity'')]) [2..10])"

definition deep_event :: "pyval row" where
  "deep_event = dict_set ''event_kind'' (PyStr ''execute'') (feature_event 1)
     @ [(''quantity'', PyInt 3), (''secondary_reference'', PyInt 77)]"

definition deep_context :: feature_partition_context where
  "deep_context = \<lparr>fc_trading_date = PyDate (2020, 1, 2), fc_symbol = PyStr ''A'', fc_symbol_id = PyInt 1,
     fc_tick_size4 = PyInt 100, fc_session_start_ns = PyInt 0, fc_session_end_ns = PyInt 10000000000\<rparr>"

definition deep_run :: "unit list result \<times> feature_row list feature_run" where
  "deep_run = forM (feature_step feature_libm Some feature_day (DEPTH_LEVELS, EVENT_WINDOWS, CLOCK_WINDOWS_NS) None)
     [deep_snapshot] (new_feature_run (DEPTH_LEVELS, EVENT_WINDOWS, CLOCK_WINDOWS_NS) [deep_event])"

definition deep_seen :: feature_state where
  "deep_seen = snd (validate_snapshot feature_day deep_snapshot (new_feature_state EVENT_WINDOWS CLOCK_WINDOWS_NS))"

definition deep_taken :: feature_state where
  "deep_taken = snd (take_events feature_day CLOCK_WINDOWS_NS None 1 [deep_event] None deep_seen)"

definition deep_flow :: feature_state where
  "deep_flow = the (append_execution_bucket deep_taken)"

definition deep_state :: row_state where
  "deep_state = (new_row_state EVENT_WINDOWS CLOCK_WINDOWS_NS)\<lparr>ft_flow := deep_taken, ft_qualifying_ordinal := 0,
     ft_previous_top := Some (100, 300, 5, 5)\<rparr>"

definition deep_totals :: "(int, int) dict \<times> (int, int) dict" where
  "deep_totals = (map (\<lambda>k. (k, 5)) [1..10], map (\<lambda>k. (k, 5)) [1..10])"

lemma deep_before:
  "validate_feature_context deep_context = Inr feature_day" "int (length deep_snapshot) = 53"
  "validate_snapshot feature_day deep_snapshot (new_feature_state EVENT_WINDOWS CLOCK_WINDOWS_NS) = (Inr (1, 0), deep_seen)"
  "take_events feature_day CLOCK_WINDOWS_NS None 1 [deep_event] None deep_seen = (Inr (Some deep_event, []), deep_taken)"
  "qualifies deep_snapshot = Inr True" "dict_get deep_snapshot ''message_index'' = Some (PyInt 1)"
  by code_simp+

lemma deep_book:
  "item deep_snapshot ''bid_price4_1'' = Inr (PyInt 100)" "item deep_snapshot ''ask_price4_1'' = Inr (PyInt 300)"
  "item deep_snapshot ''bid_quantity_1'' = Inr (PyInt 5)" "item deep_snapshot ''ask_quantity_1'' = Inr (PyInt 5)"
  "depth_totals deep_snapshot 10 1 = Inr deep_totals"
  "check_trigger 1 0 deep_snapshot (Some deep_event) = Inr deep_event"
  "aggressor_sign deep_event = Inr (PyInt (-1))"
  by code_simp+

lemma deep_appended:
  "append_transition feature_libm EVENT_WINDOWS (100, 300, 5, 5) ((new_row_state EVENT_WINDOWS CLOCK_WINDOWS_NS)
     \<lparr>ft_flow := deep_taken, ft_qualifying_ordinal :=
        ft_qualifying_ordinal (new_row_state EVENT_WINDOWS CLOCK_WINDOWS_NS) + 1\<rparr>) = (Inr (), deep_state)"
  "append_bucket (ft_flow deep_state) = (Inr (), deep_flow)"
  by code_simp+

lemma deep_columns:
  "succeeded (clock_rates feature_day CLOCK_WINDOWS_NS 0 deep_flow)"
  "finite_cells (projr (fst (clock_rates feature_day CLOCK_WINDOWS_NS 0 deep_flow)))"
  "finite_cells (identity_columns feature_day EVENT_WINDOWS CLOCK_WINDOWS_NS 1 0 0)"
  "finite_cells (book_columns feature_day DEPTH_LEVELS 0 (100, 300, 5, 5) deep_totals (PyInt (-1)))"
  "finite_cells (concat (map (window_columns feature_libm (deep_state\<lparr>ft_flow := deep_flow\<rparr>)) EVENT_WINDOWS))"
  by code_simp+

lemma finite_cells_append [simp]: "finite_cells (a @ b) \<longleftrightarrow> finite_cells a \<and> finite_cells b"
  by (simp add: finite_cells_def)

lemma deep_row_ok:
  "succeeded (feature_row feature_libm feature_day (DEPTH_LEVELS, EVENT_WINDOWS, CLOCK_WINDOWS_NS) 1 0 deep_snapshot
     (Some deep_event) ((new_row_state EVENT_WINDOWS CLOCK_WINDOWS_NS)\<lparr>ft_flow := deep_taken\<rparr>))"
proof -
  obtain rates flow where rates: "clock_rates feature_day CLOCK_WINDOWS_NS 0 deep_flow = (Inr rates, flow)" "finite_cells rates"
    using succeededD [OF deep_columns(1)] deep_columns(2) by (metis fst_conv sum.sel(2))
  have "ft_qualifying_ordinal (deep_state\<lparr>ft_flow := deep_flow\<rparr>) = 0" by (simp add: deep_state_def)
  then have "succeeded (feature_columns feature_libm feature_day (DEPTH_LEVELS, EVENT_WINDOWS, CLOCK_WINDOWS_NS) 1 0
      (100, 300, 5, 5) deep_totals deep_event (deep_state\<lparr>ft_flow := deep_flow\<rparr>))"
    using deep_columns(3-5)
    by (simp add: feature_columns_def bindM_def on_flow_def deep_book(7) rates Let_def succeeded_def)
  moreover have "Max (set DEPTH_LEVELS) = 10" by (simp add: DEPTH_LEVELS_def)
  ultimately show ?thesis
    by (simp add: feature_row_def bindM_def deep_book deep_appended as_int_def on_flow_def [of append_bucket])
qed

lemma deep_run_ok: "succeeded deep_run"
proof -
  let ?new = "new_row_state EVENT_WINDOWS CLOCK_WINDOWS_NS" and ?cfg = "(DEPTH_LEVELS, EVENT_WINDOWS, CLOCK_WINDOWS_NS)"
  let ?u = "new_feature_run ?cfg [deep_event] :: feature_row list feature_run"
  let ?u1 = "?u\<lparr>fu_observed_depth := Some 10\<rparr>" and ?u2 = "?u\<lparr>fu_observed_depth := Some 10, fu_state := ?new\<lparr>ft_flow := deep_seen\<rparr>\<rparr>"
  let ?u3 = "?u\<lparr>fu_observed_depth := Some 10, fu_state := ?new\<lparr>ft_flow := deep_taken\<rparr>, fu_events := []\<rparr>"
  obtain row s where row: "feature_row feature_libm feature_day ?cfg 1 0 deep_snapshot (Some deep_event)
      (?new\<lparr>ft_flow := deep_taken\<rparr>) = (Inr row, s)"
    using succeededD [OF deep_row_ok] by metis
  have "Max (set DEPTH_LEVELS) = 10" by (simp add: DEPTH_LEVELS_def)
  then have 1: "observe_depth DEPTH_LEVELS deep_snapshot ?u = (Inr (), ?u1)"
    by (simp add: observe_depth_def new_feature_run_def deep_before(2))
  have flow: "ft_flow ?new = new_feature_state EVENT_WINDOWS CLOCK_WINDOWS_NS" by (simp add: new_row_state_def Let_def)
  have 2: "on_state (on_flow (validate_snapshot feature_day deep_snapshot)) ?u1 = (Inr (1, 0), ?u2)"
    by (simp add: on_state_def on_flow_def new_feature_run_def flow deep_before(3))
  have 3: "events_until feature_day CLOCK_WINDOWS_NS None 1 ?u2 = (Inr (Some deep_event), ?u3)"
    by (simp add: events_until_def on_flow_def new_feature_run_def deep_before(4) del: take_events.simps)
  have 4: "on_state (feature_row feature_libm feature_day ?cfg 1 0 deep_snapshot (Some deep_event)) ?u3
      = (Inr row, ?u3\<lparr>fu_state := s\<rparr>)"
    by (simp add: on_state_def row)
  have "push_row Some row \<lparr>wr_output = [], wr_yielded = []\<rparr> = (Inr (), \<lparr>wr_output = [row], wr_yielded = []\<rparr>)"
    by (simp add: push_row_def append_output_def modifyM_def flush_full_def full_output_def OUTPUT_BATCH_ROWS_def bindM_def)
  then have 5: "fst (on_output (push_row Some row) (?u3\<lparr>fu_state := s\<rparr>)) = Inr ()"
    by (simp add: on_output_def new_feature_run_def)
  have "fst (feature_step feature_libm Some feature_day ?cfg None deep_snapshot ?u) = Inr ()"
    using 5 by (simp add: feature_step_def bindM_def 1 2 3 4 deep_before(5) liftM_def)
  then show ?thesis by (auto simp: deep_run_def succeeded_def split: prod.splits sum.splits)
qed

theorem feature_row_conforms_witness:
  "\<exists>schema row. feature_schema (Some version_1_features) = Inr schema \<and> wrote Some [row] (fu_writer (snd deep_run))
     \<and> list_all2 cell_conforms row schema \<and> row_identity [deep_event] 0 deep_snapshot row"
proof -
  have valid: "validate_feature_config (Some version_1_features) = Inr (DEPTH_LEVELS, EVENT_WINDOWS, CLOCK_WINDOWS_NS)"
    by (simp add: feature_config_iff)
  obtain xs where run: "deep_run = (Inr xs, snd deep_run)" using succeededD [OF deep_run_ok] by (metis snd_conv)
  have qs: "qualifying_snapshots [deep_snapshot] = [deep_snapshot]" by (simp add: qualifying_snapshots_def deep_before)
  have index: "\<forall>snapshot\<in>set [deep_snapshot]. \<forall>i. dict_get snapshot ''message_index'' = Some (PyInt i) \<longrightarrow> 0 \<le> i \<and> i < 2 ^ 64"
    "length [deep_snapshot] \<le> 2 ^ 64"
    by (simp_all add: deep_before)
  obtain schema rows where r: "feature_schema (Some version_1_features) = Inr schema" "wrote Some rows (fu_writer (snd deep_run))"
    "length rows = 1" "\<forall>k<length rows. list_all2 cell_conforms (rows ! k) schema
      \<and> row_identity [deep_event] (int k) ([deep_snapshot] ! k) (rows ! k)"
    using feature_row_conforms [OF valid deep_before(1) run [unfolded deep_run_def] index, unfolded qs]
    by (auto simp: deep_run_def)
  then obtain row where "rows = [row]" by (auto simp: length_Suc_conv)
  with r show ?thesis by auto
qed

theorem features_look_back_witness:
  "fu_writer (snd (feature_sample (take 2 feature_snapshots) ([1, 2] @ [9, 10])))
     = fu_writer (snd (feature_sample (take 2 feature_snapshots) ([1, 2] @ [3])))
   \<and> length (wr_output (fu_writer (snd (feature_sample (take 2 feature_snapshots) ([1, 2] @ [9, 10]))))) = 2"
proof -
  let ?run = "\<lambda>later. feature_sample (take 2 feature_snapshots) ([1, 2] @ later)"
  have index: "\<forall>snapshot \<in> set (take 2 feature_snapshots). \<forall>i. dict_get snapshot ''message_index'' = Some (PyInt i) \<longrightarrow> i \<le> 2"
    by (simp add: feature_snapshots_def feature_snapshot_def dict_get_def)
  have far: "beyond 2 None (map feature_event [3])" "beyond 2 None (map feature_event [9, 10])" by code_simp+
  have runs: "forM (feature_step feature_libm Some feature_day ([1], [1], [10]) None) (take 2 feature_snapshots)
      (new_feature_run ([1], [1], [10]) (map feature_event [1, 2] @ map feature_event later)) = (fst (?run later), snd (?run later))"
    for later by (simp only: feature_sample_def map_append prod.collapse)
  have "fu_writer (snd (?run [9, 10])) = fu_writer (snd (?run [3]))"
    using features_look_back [OF index far runs runs] by blast
  then show ?thesis using feature_sample_ok(2) by simp
qed

theorem feature_rows_exact_witness:
  "\<exists>rows. wrote Some rows (fu_writer (snd (feature_sample feature_snapshots [1, 2, 3]))) \<and> length rows = 3
     \<and> row_exact feature_day ([1], [1], [10]) (map snapshot_top feature_snapshots) (feature_snapshots ! 2) (rows ! 2)
     \<and> flow_cell 1 (map snapshot_top feature_snapshots) = Number (Some 8)"
proof -
  let ?run = "feature_sample feature_snapshots [1, 2, 3]"
  have run: "forM (feature_step feature_libm Some feature_day ([1], [1], [10]) None) feature_snapshots
      (new_feature_run ([1], [1], [10]) (map feature_event [1, 2, 3])) = (Inr (projr (fst ?run)), snd ?run)"
    using succeededD [OF feature_sample_ok(1)] by (simp add: feature_sample_def)
  have windows: "ordinary_windows [1]" by (simp add: ordinary_windows_def)
  have "\<forall>t\<in>set (map snapshot_top feature_snapshots). ordinary_top t"
    by (simp add: feature_tops(2) ordinary_top_def share_count_def)
  then have tops: "\<forall>snapshot\<in>set (qualifying_snapshots feature_snapshots). ordinary_top (snapshot_top snapshot)"
    by (simp add: feature_tops(1))
  obtain rows where rows: "wrote Some rows (fu_writer (snd ?run))" "rows_exact feature_day ([1], [1], [10]) feature_snapshots rows"
    using feature_rows_exact [OF run windows tops] by (auto simp: feature_tops(1))
  then have len: "length rows = 3" by (simp add: rows_exact_def feature_snapshots_def)
  have each: "k < length rows \<Longrightarrow> row_exact feature_day ([1], [1], [10]) (map snapshot_top (take (Suc k) feature_snapshots))
      (feature_snapshots ! k) (rows ! k)" for k using rows(2) by (simp add: rows_exact_def)
  have "row_exact feature_day ([1], [1], [10]) (map snapshot_top (take (Suc 2) feature_snapshots))
      (feature_snapshots ! 2) (rows ! 2)" by (rule each) (simp add: len)
  moreover have "take (Suc 2) feature_snapshots = feature_snapshots" by (simp add: feature_snapshots_def)
  ultimately show ?thesis
    using rows(1) len by (auto simp: feature_tops(2) flow_cell_def last_of_def increments_def demand_change_def)
qed

end
