(* ===== verification/Calibration_Properties.thy ===== *)
theory Calibration_Properties
  imports Calibration
begin

text \<open>
  What the calibrator promises: its totals are those of the accepted observations, which all fall on
  training days, and the fit of every symbol comes from its own totals or from the pooled ones.
\<close>

section \<open>Observations\<close>

datatype observation = Exposure "int \<times> int \<times> int" string int int | Executions "int \<times> int \<times> int" string int int

fun observe :: "observation \<Rightarrow> (causal_intensity_calibrator, unit) smethod" where
  "observe (Exposure day s d n) = record_exposure day s d n"
| "observe (Executions day s d n) = record_execution day s d n"

fun observation_day :: "observation \<Rightarrow> int \<times> int \<times> int" where
  "observation_day (Exposure day s d n) = day"
| "observation_day (Executions day s d n) = day"

text \<open>What an observation adds to the pair of a symbol at a distance.\<close>

fun adds :: "string \<Rightarrow> int \<Rightarrow> observation \<Rightarrow> int \<times> int" where
  "adds s d (Exposure day s' d' n) = (if s' = s \<and> d' = d then n else 0, 0)"
| "adds s d (Executions day s' d' n) = (0, if s' = s \<and> d' = d then n else 0)"

definition observed :: "string \<Rightarrow> int \<Rightarrow> observation list \<Rightarrow> int \<times> int" where
  "observed s d os = (sum_list (map (\<lambda>x. fst (adds s d x)) os), sum_list (map (\<lambda>x. snd (adds s d x)) os))"

text \<open>A run: the calibrator after it and the observations it accepted.\<close>

definition observe_step ::
  "causal_intensity_calibrator \<times> observation list \<Rightarrow> observation \<Rightarrow> causal_intensity_calibrator \<times> observation list" where
  "observe_step = (\<lambda>(c, accepted) x. case observe x c of
       (Inl e, c') \<Rightarrow> (c', accepted) | (Inr u, c') \<Rightarrow> (c', accepted @ [x]))"

definition observe_all ::
  "causal_intensity_calibrator \<Rightarrow> observation list \<Rightarrow> causal_intensity_calibrator \<times> observation list" where
  "observe_all c xs = foldl observe_step (c, []) xs"

lemma total_at_bounds:
  assumes ok: "calibrator_ok c" and s: "dict_get (ca_buckets c) symbol = Some pairs" and d: "0 \<le> d" "d \<le> 10"
  shows "total_at c symbol d = pairs ! nat d" "valid_int (fst (pairs ! nat d)) 0 MAX_UINT64"
    "valid_int (snd (pairs ! nat d)) 0 MAX_UINT64"
proof -
  have "symbol \<in> set (ca_symbols c)"
    using ok s dict_keys_iff [of symbol "ca_buckets c"] by (simp add: calibrator_ok_def has_key_def)
  then have "pairs_ok pairs" using ok s by (auto simp: calibrator_ok_def)
  then show "valid_int (fst (pairs ! nat d)) 0 MAX_UINT64" "valid_int (snd (pairs ! nat d)) 0 MAX_UINT64"
    using d nth_mem [of "nat d" pairs] unfolding pairs_ok_def by auto
  show "total_at c symbol d = pairs ! nat d" using s by (simp add: total_at_def dict_get_default_def)
qed

text \<open>One call: refused with nothing changed, or its amount added to one total.\<close>

lemma observe_effect:
  assumes ok: "calibrator_ok c"
  shows "(\<exists>e. observe x c = (Inl e, c))
    \<or> (\<exists>c'. observe x c = (Inr (), c') \<and> calibrator_ok c' \<and> ca_symbols c' = ca_symbols c
        \<and> ca_training_dates c' = ca_training_dates c \<and> observation_day x \<in> set (ca_training_dates c)
        \<and> (\<forall>s d. 0 \<le> d \<longrightarrow> d \<le> 10 \<longrightarrow> total_at c' s d
             = (fst (total_at c s d) + fst (adds s d x), snd (total_at c s d) + snd (adds s d x))))"
proof (cases x)
  case (Exposure day s d n)
  show ?thesis
  proof (cases "\<exists>e. observe x c = (Inl e, c)")
    case False
    then obtain pair where pair: "calibration_bucket day s d c = Inr pair"
      and n: "valid_int n 0 MAX_UINT64" "fst pair + n \<le> MAX_UINT64"
      and run: "observe x c = (Inr (), set_bucket s d (fst pair + n, snd pair) c)"
      by (auto simp: Exposure record_exposure_def commitM_def bindR_def Let_def fail_code_def split: sum.splits if_splits)
    then obtain pairs where pairs: "dict_get (ca_buckets c) s = Some pairs" "0 \<le> d" "d \<le> 10" "pair = pairs ! nat d"
      "day \<in> set (ca_training_dates c)"
      by (auto simp: calibration_bucket_Inr)
    note at = total_at_bounds [OF ok pairs(1-3)]
    have new: "valid_int (fst (fst pair + n, snd pair)) 0 MAX_UINT64" "valid_int (snd (fst pair + n, snd pair)) 0 MAX_UINT64"
      using at n pairs(4) by (simp_all add: valid_int_def)
    show ?thesis
      using run set_bucket_ok [OF ok pairs(1-3) new] at(1) pairs(4,5) by (auto simp: Exposure)
  qed simp
next
  case (Executions day s d n)
  show ?thesis
  proof (cases "\<exists>e. observe x c = (Inl e, c)")
    case False
    then obtain pair where pair: "calibration_bucket day s d c = Inr pair"
      and n: "valid_int n 1 MAX_UINT64" "snd pair + n \<le> MAX_UINT64"
      and run: "observe x c = (Inr (), set_bucket s d (fst pair, snd pair + n) c)"
      by (auto simp: Executions record_execution_def commitM_def bindR_def Let_def fail_code_def split: sum.splits if_splits)
    then obtain pairs where pairs: "dict_get (ca_buckets c) s = Some pairs" "0 \<le> d" "d \<le> 10" "pair = pairs ! nat d"
      "day \<in> set (ca_training_dates c)"
      by (auto simp: calibration_bucket_Inr)
    note at = total_at_bounds [OF ok pairs(1-3)]
    have new: "valid_int (fst (fst pair, snd pair + n)) 0 MAX_UINT64" "valid_int (snd (fst pair, snd pair + n)) 0 MAX_UINT64"
      using at n pairs(4) by (simp_all add: valid_int_def)
    show ?thesis
      using run set_bucket_ok [OF ok pairs(1-3) new] at(1) pairs(4,5) by (auto simp: Executions)
  qed simp
qed

lemma observed_snoc: "observed s d (xs @ [x])
    = (fst (observed s d xs) + fst (adds s d x), snd (observed s d xs) + snd (adds s d x))"
  by (simp add: observed_def)

definition run_ok :: "causal_intensity_calibrator \<Rightarrow> causal_intensity_calibrator \<times> observation list \<Rightarrow> bool" where
  "run_ok c0 = (\<lambda>(c, accepted). calibrator_ok c \<and> ca_symbols c = ca_symbols c0
     \<and> ca_training_dates c = ca_training_dates c0
     \<and> (\<forall>x \<in> set accepted. observation_day x \<in> set (ca_training_dates c0))
     \<and> (\<forall>s \<in> set (ca_symbols c0). \<forall>d. 0 \<le> d \<longrightarrow> d \<le> 10 \<longrightarrow> total_at c s d = observed s d accepted))"

lemma run_ok_step: "run_ok c0 r \<Longrightarrow> run_ok c0 (observe_step r x)"
proof -
  assume r: "run_ok c0 r"
  obtain c accepted where eq: "r = (c, accepted)" by (cases r)
  have ok: "calibrator_ok c" using r by (simp add: run_ok_def eq)
  from observe_effect [OF ok, of x] show ?thesis
  proof
    assume "\<exists>e. observe x c = (Inl e, c)"
    then show ?thesis using r by (auto simp: observe_step_def eq)
  next
    assume "\<exists>c'. observe x c = (Inr (), c') \<and> calibrator_ok c' \<and> ca_symbols c' = ca_symbols c
        \<and> ca_training_dates c' = ca_training_dates c \<and> observation_day x \<in> set (ca_training_dates c)
        \<and> (\<forall>s d. 0 \<le> d \<longrightarrow> d \<le> 10 \<longrightarrow> total_at c' s d
             = (fst (total_at c s d) + fst (adds s d x), snd (total_at c s d) + snd (adds s d x)))"
    then obtain c' where "observe x c = (Inr (), c')" "calibrator_ok c'" "ca_symbols c' = ca_symbols c"
      "ca_training_dates c' = ca_training_dates c" "observation_day x \<in> set (ca_training_dates c)"
      "\<And>s d. 0 \<le> d \<Longrightarrow> d \<le> 10 \<Longrightarrow> total_at c' s d
             = (fst (total_at c s d) + fst (adds s d x), snd (total_at c s d) + snd (adds s d x))"
      by blast
    then show ?thesis using r by (auto simp: observe_step_def eq run_ok_def observed_snoc)
  qed
qed

lemma run_ok_all:
  assumes "new_calibrator symbols days = Inr c0"
  shows "run_ok c0 (observe_all c0 xs)"
proof -
  have "\<forall>s \<in> set (ca_symbols c0). \<forall>d. 0 \<le> d \<longrightarrow> d \<le> 10 \<longrightarrow> total_at c0 s d = observed s d []"
    using new_calibrator_ok [OF assms] by (simp add: observed_def)
  then have "run_ok c0 (c0, [])" using new_calibrator_ok(1) [OF assms] by (simp add: run_ok_def)
  then have "run_ok c0 (foldl observe_step (c0, ys) xs)" if "ys = []" for ys
    using that by (induction xs rule: rev_induct) (simp_all add: run_ok_step)
  then show ?thesis by (simp add: observe_all_def)
qed

section \<open>Pooling\<close>

definition pair_sum :: "int \<times> int \<Rightarrow> int \<times> int \<Rightarrow> int \<times> int" where
  "pair_sum p q = (fst p + fst q, snd p + snd q)"

lemma pool_bucket_Inr:
  "pool_bucket pooled b = Inr r \<Longrightarrow> r = pooled[nat (ib_distance_ticks b) :=
     pair_sum (pooled ! nat (ib_distance_ticks b)) (ib_exposure_ns b, ib_execution_count b)]"
  by (auto simp: pool_bucket_def pair_sum_def Let_def split: if_splits)

lemma pool_enumerate:
  assumes "foldR pool_bucket pooled (map (\<lambda>(distance, exposure, executions).
     \<lparr>ib_distance_ticks = int distance, ib_exposure_ns = exposure, ib_execution_count = executions\<rparr>)
     (enumerate k ps)) = Inr r" "k + length ps \<le> length pooled"
  shows "length r = length pooled \<and> (\<forall>d < length pooled. r ! d
    = (if k \<le> d \<and> d < k + length ps then pair_sum (pooled ! d) (ps ! (d - k)) else pooled ! d))"
  using assms
proof (induction ps arbitrary: k pooled)
  case (Cons p ps)
  let ?b = "\<lparr>ib_distance_ticks = int k, ib_exposure_ns = fst p, ib_execution_count = snd p\<rparr>"
  have "enumerate k (p # ps) = (k, p) # enumerate (Suc k) ps" by (rule enumerate_simps)
  then obtain mid where mid: "pool_bucket pooled ?b = Inr mid"
    and rest: "foldR pool_bucket mid (map (\<lambda>(distance, exposure, executions).
     \<lparr>ib_distance_ticks = int distance, ib_exposure_ns = exposure, ib_execution_count = executions\<rparr>)
     (enumerate (Suc k) ps)) = Inr r"
    using Cons.prems(1) by (auto simp: bindR_eq_Inr split: prod.splits)
  have m: "mid = pooled[k := pair_sum (pooled ! k) p]" using pool_bucket_Inr [OF mid] by simp
  have "Suc k + length ps \<le> length mid" using Cons.prems(2) by (simp add: m)
  from Cons.IH [OF rest this] have len: "length r = length pooled"
    and nth: "\<And>d. d < length pooled \<Longrightarrow> r ! d
      = (if Suc k \<le> d \<and> d < Suc k + length ps then pair_sum (mid ! d) (ps ! (d - Suc k)) else mid ! d)"
    by (simp_all add: m)
  have "r ! d = (if k \<le> d \<and> d < k + length (p # ps) then pair_sum (pooled ! d) ((p # ps) ! (d - k)) else pooled ! d)"
    if "d < length pooled" for d
  proof (cases "d = k")
    case True
    then show ?thesis using nth [OF that] that by (simp add: m)
  next
    case False
    then have "\<not> d < k \<Longrightarrow> d - k = Suc (d - Suc k)" by simp
    then show ?thesis using False nth [OF that] Cons.prems(2) by (cases "d < k") (simp_all add: m)
  qed
  then show ?case using len by simp
qed auto

lemma pool_symbol:
  assumes "foldR pool_bucket pooled (bucket_tuple ps) = Inr r" "length pooled = 11" "length ps = 11"
  shows "length r = 11 \<and> (\<forall>d < 11. r ! d = pair_sum (pooled ! d) (ps ! d))"
  using pool_enumerate [of pooled 0 ps r] assms by (simp add: bucket_tuple_def)

text \<open>The pooled pair at a distance is the sum over the symbols.\<close>

definition pooled_total :: "causal_intensity_calibrator \<Rightarrow> string list \<Rightarrow> int \<Rightarrow> int \<times> int" where
  "pooled_total c ss d = (sum_list (map (\<lambda>s. fst (total_at c s d)) ss), sum_list (map (\<lambda>s. snd (total_at c s d)) ss))"

lemma pool_all:
  assumes ok: "calibrator_ok c"
    and run: "foldR (\<lambda>pooled s. foldR pool_bucket pooled (symbol_buckets c s)) empty_buckets (ca_symbols c) = Inr r"
  shows "length r = 11 \<and> (\<forall>d < 11. r ! d = pooled_total c (ca_symbols c) (int d))"
  using run
proof (rule foldR_prefix)
  show "length empty_buckets = 11 \<and> (\<forall>d < 11. empty_buckets ! d = pooled_total c [] (int d))"
    by (simp add: empty_buckets_eq pooled_total_def)
next
  fix ys s zs a b
  assume mem: "ca_symbols c = ys @ s # zs" and I: "length a = 11 \<and> (\<forall>d < 11. a ! d = pooled_total c ys (int d))"
    and step: "foldR pool_bucket a (symbol_buckets c s) = Inr b"
  from mem ok obtain pairs where pairs: "dict_get (ca_buckets c) s = Some pairs" "pairs_ok pairs"
    by (auto simp: calibrator_ok_def)
  have "length pairs = 11" using pairs(2) by (simp add: pairs_ok_def)
  moreover have "symbol_buckets c s = bucket_tuple pairs" using pairs(1) by (simp add: symbol_buckets_def dict_get_default_def)
  ultimately have "length b = 11 \<and> (\<forall>d < 11. b ! d = pair_sum (a ! d) (pairs ! d))"
    using pool_symbol step I by simp
  then show "length b = 11 \<and> (\<forall>d < 11. b ! d = pooled_total c (ys @ [s]) (int d))"
    using I pairs(1) by (simp add: pooled_total_def pair_sum_def total_at_def dict_get_default_def)
qed

lemma bucket_tuple_eq:
  "bucket_tuple ps = map (\<lambda>d. \<lparr>ib_distance_ticks = int d, ib_exposure_ns = fst (ps ! d), ib_execution_count = snd (ps ! d)\<rparr>)
     [0..<length ps]"
  unfolding bucket_tuple_def enumerate_eq_zip by (rule nth_equalityI) (auto split: prod.splits)

text \<open>Buckets with given pairs.\<close>

definition buckets_of :: "(int \<Rightarrow> int \<times> int) \<Rightarrow> intensity_bucket list" where
  "buckets_of f = map (\<lambda>d. \<lparr>ib_distance_ticks = int d, ib_exposure_ns = fst (f (int d)), ib_execution_count = snd (f (int d))\<rparr>) [0..<11]"

lemma bucket_tuple_of: "length ps = 11 \<Longrightarrow> (\<forall>d < 11. ps ! d = f (int d)) \<Longrightarrow> bucket_tuple ps = buckets_of f"
  by (simp add: bucket_tuple_eq buckets_of_def)

lemma fit_kappa_positive:
  assumes "fit_intensity m buckets = Some f"
  shows "\<exists>k. ft_kappa f = Some k \<and> 0 < k"
  using assms
  by (auto simp: fit_intensity_def Let_def at_most_def is_finite_def split: option.splits if_splits)

section \<open>Properties\<close>

lemma calibrated_symbol_name: "si_symbol (calibrated_symbol m f s bs) = s"
  by (simp add: calibrated_symbol_def split: option.split)

text \<open>The pairs observed for any of some symbols.\<close>

definition observed_all :: "string list \<Rightarrow> int \<Rightarrow> observation list \<Rightarrow> int \<times> int" where
  "observed_all symbols d os = (sum_list (map (\<lambda>s. fst (observed s d os)) symbols),
     sum_list (map (\<lambda>s. snd (observed s d os)) symbols))"

text \<open>
  C34: after any run of observations, refused ones included, the calibration that \<open>finalise\<close> returns is
  computed from the totals of the accepted observations only, all of them on training days: the
  pooled decay and intercept are those fitted to the totals over all symbols, and each symbol's
  are those fitted to its own totals, or the pooled ones when its own have no fit; every decay is
  positive.
\<close>

theorem calibration_exact:
  assumes new: "new_calibrator symbols days = Inr c0" and run: "observe_all c0 xs = (c, accepted)"
    and fin: "finalise m c = Inr r"
  shows "ic_training_dates r = days \<and> (\<forall>x \<in> set accepted. observation_day x \<in> set days)
    \<and> ic_pooled_buckets r = buckets_of (\<lambda>d. observed_all (sort symbols) d accepted)
    \<and> (\<exists>f k. fit_intensity m (buckets_of (\<lambda>d. observed_all (sort symbols) d accepted)) = Some f
        \<and> ic_pooled_kappa r = ft_kappa f \<and> ic_pooled_intercept r = ft_intercept f \<and> ft_kappa f = Some k \<and> 0 < k)
    \<and> map si_symbol (ic_symbols r) = sort symbols
    \<and> (\<forall>y \<in> set (ic_symbols r). (\<exists>k > 0. si_kappa y = Some k)
        \<and> si_buckets y = buckets_of (\<lambda>d. observed (si_symbol y) d accepted)
        \<and> (case fit_intensity m (buckets_of (\<lambda>d. observed (si_symbol y) d accepted)) of
             Some f \<Rightarrow> si_kappa y = ft_kappa f \<and> si_intercept y = ft_intercept f \<and> si_source y = FROM_SYMBOL
           | None \<Rightarrow> si_kappa y = ic_pooled_kappa r \<and> si_intercept y = ic_pooled_intercept r
               \<and> si_source y = FROM_POOLED))"
proof -
  have r0: "run_ok c0 (c, accepted)" using run_ok_all [OF new, of xs] run by simp
  note c0 = new_calibrator_ok [OF new]
  have ok: "calibrator_ok c" and syms: "ca_symbols c = sort symbols"
    and days: "\<forall>x \<in> set accepted. observation_day x \<in> set days"
    and tot: "\<And>s d. s \<in> set symbols \<Longrightarrow> 0 \<le> d \<Longrightarrow> d \<le> 10 \<Longrightarrow> total_at c s d = observed s d accepted"
    using r0 c0 by (auto simp: run_ok_def)
  obtain pooled f where pooled: "foldR (\<lambda>pooled s. foldR pool_bucket pooled (symbol_buckets c s)) empty_buckets (ca_symbols c) = Inr pooled"
    and f: "fit_intensity m (bucket_tuple pooled) = Some f"
    and r: "r = \<lparr>ic_training_dates = ca_training_dates c, ic_pooled_kappa = ft_kappa f,
      ic_pooled_intercept = ft_intercept f, ic_pooled_buckets = bucket_tuple pooled,
      ic_symbols = map (\<lambda>s. calibrated_symbol m f s (symbol_buckets c s)) (ca_symbols c)\<rparr>"
    using fin by (auto simp: finalise_def bindR_eq_Inr Let_def split: option.splits)
  have sym: "symbol_buckets c s = buckets_of (\<lambda>d. observed s d accepted)" if s: "s \<in> set symbols" for s
  proof -
    obtain pairs where pairs: "dict_get (ca_buckets c) s = Some pairs" "pairs_ok pairs"
      using ok s syms by (auto simp: calibrator_ok_def)
    have "pairs ! d = observed s (int d) accepted" if "d < 11" for d
      using tot [OF s, of "int d"] that pairs(1) by (simp add: total_at_def dict_get_default_def)
    then show ?thesis
      using pairs bucket_tuple_of [of pairs "\<lambda>d. observed s d accepted"]
      by (simp add: symbol_buckets_def dict_get_default_def pairs_ok_def)
  qed
  have "pooled_total c (sort symbols) d = observed_all (sort symbols) d accepted" if "0 \<le> d" "d \<le> 10" for d
  proof -
    have eq: "total_at c s d = observed s d accepted" if "s \<in> set (sort symbols)" for s
      using tot [of s d] that \<open>0 \<le> d\<close> \<open>d \<le> 10\<close> by simp
    show ?thesis
      unfolding pooled_total_def observed_all_def
      by (intro arg_cong2 [where f = Pair] arg_cong [where f = sum_list] map_cong refl) (simp_all add: eq)
  qed
  then have pool: "bucket_tuple pooled = buckets_of (\<lambda>d. observed_all (sort symbols) d accepted)"
    using pool_all [OF ok pooled] syms by (intro bucket_tuple_of) simp_all
  have each: "(\<exists>k > 0. si_kappa y = Some k) \<and> si_buckets y = buckets_of (\<lambda>d. observed (si_symbol y) d accepted)
        \<and> (case fit_intensity m (buckets_of (\<lambda>d. observed (si_symbol y) d accepted)) of
             Some f \<Rightarrow> si_kappa y = ft_kappa f \<and> si_intercept y = ft_intercept f \<and> si_source y = FROM_SYMBOL
           | None \<Rightarrow> si_kappa y = ic_pooled_kappa r \<and> si_intercept y = ic_pooled_intercept r
               \<and> si_source y = FROM_POOLED)"
    if y: "y \<in> set (ic_symbols r)" for y
  proof -
    obtain s where s: "s \<in> set symbols" "y = calibrated_symbol m f s (symbol_buckets c s)"
      using y by (auto simp: r syms)
    show ?thesis
      using s fit_kappa_positive [OF f] fit_kappa_positive [of m "symbol_buckets c s"]
      by (auto simp: calibrated_symbol_def sym r split: option.splits)
  qed
  have "map si_symbol (ic_symbols r) = sort symbols"
    by (simp add: r syms comp_def calibrated_symbol_name)
  moreover have "\<exists>f k. fit_intensity m (buckets_of (\<lambda>d. observed_all (sort symbols) d accepted)) = Some f
        \<and> ic_pooled_kappa r = ft_kappa f \<and> ic_pooled_intercept r = ft_intercept f \<and> ft_kappa f = Some k \<and> 0 < k"
    using f fit_kappa_positive [OF f] by (simp add: pool r)
  ultimately show ?thesis using days each r0 c0(3) by (simp add: pool r run_ok_def)
qed

text \<open>A library whose logarithm is the identity and whose square is rounded.\<close>

definition sample_libm :: libm where
  "sample_libm = \<lparr>lm_log = Some, lm_log1p = Some, lm_sqrt = Some, lm_square = (\<lambda>x. round_double (x * x))\<rparr>"

definition sample_calibrator :: causal_intensity_calibrator where
  "sample_calibrator = \<lparr>ca_symbols = [''A''], ca_training_dates = [(2020, 1, 2)],
     ca_buckets = [(''A'', replicate 11 (0, 0))]\<rparr>"

definition sample_observations :: "observation list" where
  "sample_observations = [Exposure (2020, 1, 2) ''A'' 0 1000000000, Exposure (2020, 1, 2) ''A'' 1 1000000000,
     Executions (2020, 1, 2) ''A'' 0 3, Executions (2021, 1, 2) ''A'' 1 3, Executions (2020, 1, 2) ''A'' 1 1]"

lemma sample_values:
  "round_double 1 = Some 1" "round_double 2 = Some 2" "round_double 3 = Some 3" "round_double 4 = Some 4"
  "round_double (1 / 2) = Some (1 / 2)" "round_double (3 / 2) = Some (3 / 2)" "round_double (1 / 4) = Some (1 / 4)"
  "round_double (- (1 / 2)) = Some (- (1 / 2))" "round_double (- (1 / 4)) = Some (- (1 / 4))" "round_double (- 1) = Some (- 1)"
  using round_int [of 1] round_int [of 2] round_int [of 3] round_int [of 4] round_half [of 1] round_half [of 3]
    round_quarter [of 1] round_half [of "-1"] round_quarter [of "-1"] round_int [of "-1"] by simp_all

lemma sample_fit:
  "fit_intensity sample_libm (bucket_tuple ((1000000000, 3) # (1000000000, 1) # replicate 9 (0, 0)))
     = Some \<lparr>ft_kappa = Some 1, ft_intercept = Some 2\<rparr>"
  by (simp add: fit_intensity_def bucket_tuple_def exposure_seconds_def NANOSECONDS_PER_SECOND_def sample_values
      numeral_eq_Suc at_most_def is_finite_def float_of_int_def fadd_def fsub_def fmul_def fdiv_def float_op_def
      int_div_def fsum_def fneg_def applied_def sample_libm_def Let_def)

lemma calibration_run:
  "fst (observe_all sample_calibrator sample_observations) = sample_calibrator
     \<lparr>ca_buckets := [(''A'', (1000000000, 3) # (1000000000, 1) # replicate 9 (0, 0))]\<rparr>"
  by code_simp

lemma sample_pooled:
  "foldR pool_bucket empty_buckets (bucket_tuple ((1000000000, 3) # (1000000000, 1) # replicate 9 (0, 0)))
     = Inr ((1000000000, 3) # (1000000000, 1) # replicate 9 (0, 0))"
  by code_simp

lemma sample_finalised:
  "\<exists>r. finalise sample_libm (fst (observe_all sample_calibrator sample_observations)) = Inr r"
  unfolding finalise_def calibration_run by (simp add: sample_calibrator_def symbol_buckets_def dict_get_default_def dict_get_def
      sample_pooled sample_fit Let_def)

theorem calibration_exact_witness:
  "\<exists>r y. finalise sample_libm (fst (observe_all sample_calibrator sample_observations)) = Inr r
    \<and> ic_symbols r = [y] \<and> si_symbol y = ''A'' \<and> (\<exists>k > 0. si_kappa y = Some k)"
proof -
  obtain c accepted where run: "observe_all sample_calibrator sample_observations = (c, accepted)" by fastforce
  then obtain r where fin: "finalise sample_libm c = Inr r"
    using sample_finalised by auto
  have "new_calibrator [''A''] [(2020, 1, 2)] = Inr sample_calibrator" by code_simp
  from calibration_exact [OF this run fin] have "map si_symbol (ic_symbols r) = [''A'']"
    "\<forall>y \<in> set (ic_symbols r). \<exists>k > 0. si_kappa y = Some k" by simp_all
  then show ?thesis using run fin by (auto simp: map_eq_Cons_conv)
qed

end
