(* ===== verification/Quoting.thy ===== *)
theory Quoting
  imports Calibration Settlement
begin

text \<open>
  \<open>strategies/avellaneda_stoikov.py\<close>: the causal estimator of the midpoint's variance over a trailing
  clock window, and the baseline strategy that turns it, the inventory and the calibrated intensity
  into one passive quote per side on the tick grid.
\<close>

section \<open>Values\<close>

definition TRADING_DAY_NS :: int where "TRADING_DAY_NS = 86400000000000"
definition MAX_IJSON :: int where "MAX_IJSON = 9007199254740991"

datatype quote_suppression_reason =
  INSUFFICIENT_VOLATILITY | PRICE_OUT_OF_RANGE | QUOTE_INVENTORY_LIMIT

record volatility_estimate =
  ve_decision_message_index :: int
  ve_timestamp_ns :: int
  ve_window_start_ns :: int
  ve_elapsed_ns :: int
  ve_change_count :: int
  ve_squared_change_sum_ticks2 :: pyfloat
  ve_sigma_squared :: pyfloat

type_synonym midpoint_change = "int \<times> int \<times> pyfloat"

record volatility_state =
  vs_first_timestamp_ns :: "int option"
  vs_last_message_index :: "int option"
  vs_last_timestamp_ns :: "int option"
  vs_best_bid_price4 :: "int option"
  vs_best_ask_price4 :: "int option"
  vs_mid2 :: "int option"
  vs_changes :: "midpoint_change list"

record quote_proposal =
  qp_side :: int
  qp_price4 :: int
  qp_quantity :: int
  qp_projected_inventory :: int

record baseline_decision =
  bd_symbol :: string
  bd_symbol_id :: int
  bd_decision_message_index :: int
  bd_timestamp_ns :: int
  bd_best_bid_price4 :: int
  bd_best_ask_price4 :: int
  bd_mid2 :: int
  bd_mid_price_ticks :: pyfloat
  bd_inventory_shares :: int
  bd_inventory_units :: pyfloat
  bd_kappa :: pyfloat
  bd_kappa_source :: calibration_source
  bd_volatility :: "volatility_estimate option"
  bd_tau_seconds :: pyfloat
  bd_reservation_price_ticks :: "pyfloat option"
  bd_half_spread_ticks :: "pyfloat option"
  bd_bid :: "quote_proposal option"
  bd_ask :: "quote_proposal option"
  bd_bid_suppression_reason :: "quote_suppression_reason option"
  bd_ask_suppression_reason :: "quote_suppression_reason option"

definition valid_number :: "pyfloat \<Rightarrow> bool \<Rightarrow> bool" where
  "valid_number v positive = (case v of None \<Rightarrow> False | Some q \<Rightarrow> if positive then 0 < q else 0 \<le> q)"

definition validate_quote_values :: "int \<Rightarrow> int \<Rightarrow> (int \<times> int) result" where
  "validate_quote_values best_bid_price4 best_ask_price4 = (
     if \<not> valid_int best_bid_price4 0 MAX_UINT32 \<or> \<not> valid_int best_ask_price4 0 MAX_UINT32
     then fail_code ERR_PRICE
     else if best_bid_price4 > best_ask_price4 then fail_code ERR_BOOK_CROSSED
     else if best_bid_price4 + best_ask_price4 \<le> 0 then fail_code ERR_PRICE
     else Inr (best_bid_price4, best_ask_price4))"

section \<open>The volatility estimator\<close>

record volatility_estimator =
  vo_window_ns :: int
  vo_tick_size4 :: int
  vo_first_timestamp_ns :: "int option"
  vo_last_message_index :: "int option"
  vo_last_timestamp_ns :: "int option"
  vo_best_bid_price4 :: "int option"
  vo_best_ask_price4 :: "int option"
  vo_mid2 :: "int option"
  vo_changes :: "midpoint_change list"

definition new_volatility :: "int \<Rightarrow> int \<Rightarrow> volatility_estimator result" where
  "new_volatility window_ns tick_size4 = (
     if \<not> valid_int window_ns 1 MAX_IJSON then fail_code ERR_CONFIG_SCHEMA
     else if \<not> valid_int tick_size4 1 MAX_UINT32 then fail_code ERR_PRICE
     else Inr \<lparr>vo_window_ns = window_ns, vo_tick_size4 = tick_size4, vo_first_timestamp_ns = None,
       vo_last_message_index = None, vo_last_timestamp_ns = None, vo_best_bid_price4 = None,
       vo_best_ask_price4 = None, vo_mid2 = None, vo_changes = []\<rparr>)"

definition volatility_snapshot :: "volatility_estimator \<Rightarrow> volatility_state" where
  "volatility_snapshot self = \<lparr>vs_first_timestamp_ns = vo_first_timestamp_ns self,
     vs_last_message_index = vo_last_message_index self, vs_last_timestamp_ns = vo_last_timestamp_ns self,
     vs_best_bid_price4 = vo_best_bid_price4 self, vs_best_ask_price4 = vo_best_ask_price4 self,
     vs_mid2 = vo_mid2 self, vs_changes = vo_changes self\<rparr>"

definition calculate_estimate ::
  "int \<Rightarrow> int \<Rightarrow> midpoint_change list \<Rightarrow> int \<Rightarrow> int \<Rightarrow> volatility_estimate option result" where
  "calculate_estimate window_ns first_timestamp_ns changes decision_message_index timestamp_ns = (
     let elapsed_ns = min window_ns (timestamp_ns - first_timestamp_ns) in
     if elapsed_ns \<le> 0 then Inr None
     else
     let window_start = timestamp_ns - window_ns;
         eligible = map (\<lambda>(t, i, squared). squared) (filter (\<lambda>(t, i, squared).
           t > window_start \<and> (t < timestamp_ns \<or> t = timestamp_ns \<and> i \<le> decision_message_index)) changes);
         squared_sum = fsum eligible in
     if \<not> is_finite squared_sum then fail_code ERR_SIMULATION_ANOMALY
     else
     let sigma_squared = fdiv squared_sum (int_div elapsed_ns NANOSECONDS_PER_SECOND) in
     if \<not> is_finite sigma_squared \<or> \<not> valid_number sigma_squared False
     then fail_code ERR_SIMULATION_ANOMALY
     else Inr (Some \<lparr>ve_decision_message_index = decision_message_index, ve_timestamp_ns = timestamp_ns,
       ve_window_start_ns = max first_timestamp_ns window_start, ve_elapsed_ns = elapsed_ns,
       ve_change_count = int (length eligible), ve_squared_change_sum_ticks2 = squared_sum,
       ve_sigma_squared = sigma_squared\<rparr>))"

text \<open>The square of the midpoint's change, in ticks.\<close>

definition squared_change :: "int \<Rightarrow> int \<Rightarrow> int \<Rightarrow> pyfloat" where
  "squared_change tick_size4 mid2 previous_mid2 = (
     let change = fdiv (float_of_int (mid2 - previous_mid2)) (fmul (Some 2) (float_of_int tick_size4)) in
     fmul change change)"

text \<open>
  Everything that may fail is computed before the estimator changes. The list keeps the changes that
  are after the window's start, and gains one unless this is the first quote.
\<close>

definition commit_quote ::
  "int \<Rightarrow> int \<Rightarrow> int \<Rightarrow> int \<Rightarrow> volatility_estimator \<Rightarrow> (volatility_estimate option \<times> volatility_estimator) result" where
  "commit_quote message_index timestamp_ns best_bid_price4 best_ask_price4 self = (
     if \<not> valid_int message_index 0 MAX_UINT64 then fail_code ERR_SIMULATION_ANOMALY
     else if \<not> valid_int timestamp_ns 0 (TRADING_DAY_NS - 1) then fail_code ERR_TIMESTAMP
     else bindR (validate_quote_values best_bid_price4 best_ask_price4) (\<lambda>(bid, ask).
     if vo_last_message_index self \<noteq> None \<and> vo_last_timestamp_ns self = None then fail_code ERR_INTERNAL
     else if (case (vo_last_message_index self, vo_last_timestamp_ns self) of
         (Some last_index, Some last_time) \<Rightarrow> message_index \<le> last_index \<or> timestamp_ns < last_time
       | _ \<Rightarrow> False)
     then fail_code ERR_LEAKAGE_GUARD
     else
     let mid2 = bid + ask;
         kept = filter (\<lambda>(t, i, squared). t > timestamp_ns - vo_window_ns self) (vo_changes self) in
     bindR (case vo_mid2 self of
         None \<Rightarrow> Inr kept
       | Some previous \<Rightarrow>
         let squared = squared_change (vo_tick_size4 self) mid2 previous in
         if \<not> is_finite squared then fail_code ERR_SIMULATION_ANOMALY
         else Inr (kept @ [(timestamp_ns, message_index, squared)])) (\<lambda>changes.
     let first_timestamp = (case vo_first_timestamp_ns self of None \<Rightarrow> timestamp_ns | Some t \<Rightarrow> t) in
     bindR (calculate_estimate (vo_window_ns self) first_timestamp changes message_index timestamp_ns) (\<lambda>estimate.
     Inr (estimate, self\<lparr>vo_first_timestamp_ns := Some first_timestamp,
       vo_last_message_index := Some message_index, vo_last_timestamp_ns := Some timestamp_ns,
       vo_best_bid_price4 := Some bid, vo_best_ask_price4 := Some ask, vo_mid2 := Some mid2,
       vo_changes := changes\<rparr>)))))"

definition volatility_observe ::
  "int \<Rightarrow> int \<Rightarrow> int \<Rightarrow> int \<Rightarrow> (volatility_estimator, volatility_estimate option) smethod" where
  "volatility_observe message_index timestamp_ns best_bid_price4 best_ask_price4 =
     commitM (commit_quote message_index timestamp_ns best_bid_price4 best_ask_price4)"

definition volatility_at :: "int \<Rightarrow> int \<Rightarrow> volatility_estimator \<Rightarrow> volatility_estimate option result" where
  "volatility_at decision_message_index timestamp_ns self = (
     case (vo_last_message_index self, vo_last_timestamp_ns self) of
       (Some last_index, Some last_time) \<Rightarrow>
     if \<not> valid_int decision_message_index 0 MAX_UINT64 then fail_code ERR_SIMULATION_ANOMALY
     else if \<not> valid_int timestamp_ns 0 (TRADING_DAY_NS - 1) then fail_code ERR_TIMESTAMP
     else if timestamp_ns < last_time \<or> timestamp_ns = last_time \<and> decision_message_index < last_index
     then fail_code ERR_LEAKAGE_GUARD
     else (case vo_first_timestamp_ns self of
         None \<Rightarrow> fail_code ERR_INTERNAL
       | Some first \<Rightarrow> calculate_estimate (vo_window_ns self) first (vo_changes self) decision_message_index timestamp_ns)
     | _ \<Rightarrow> fail_code ERR_EMPTY_DATASET)"

section \<open>The baseline strategy\<close>

record strategy_config =
  sc_name :: string
  sc_decision_interval_ns :: int
  sc_max_prediction_age_ns :: int
  sc_order_quantity :: int
  sc_inventory_limit :: int
  sc_gamma :: pyfloat
  sc_volatility_window_ns :: int
  sc_risk_horizon_seconds :: pyfloat
  sc_signal_weight_ticks :: "pyfloat option"
  sc_max_signal_ticks :: pyfloat

definition BASELINE_NAME :: string where "BASELINE_NAME = ''inventory_aware_avellaneda_stoikov''"
definition SIGNAL_NAME :: string where "SIGNAL_NAME = ''signal_adjusted_avellaneda_stoikov''"

definition validate_strategy_config :: "strategy_config \<Rightarrow> unit result" where
  "validate_strategy_config config = (
     if sc_name config \<noteq> BASELINE_NAME \<or> sc_signal_weight_ticks config \<noteq> Some (Some 0)
     then fail_code ERR_CONFIG_SCHEMA
     else if \<not> valid_int (sc_decision_interval_ns config) 1 MAX_IJSON then fail_code ERR_CONFIG_SCHEMA
     else if \<not> valid_int (sc_max_prediction_age_ns config) 0 MAX_IJSON then fail_code ERR_CONFIG_SCHEMA
     else if \<not> valid_int (sc_order_quantity config) 1 MAX_IJSON then fail_code ERR_QUANTITY
     else if \<not> valid_int (sc_inventory_limit config) 1 MAX_IJSON \<or> sc_inventory_limit config < sc_order_quantity config
     then fail_code ERR_INVENTORY_LIMIT
     else if \<not> valid_int (sc_volatility_window_ns config) 1 MAX_IJSON then fail_code ERR_CONFIG_SCHEMA
     else if \<not> valid_number (sc_gamma config) True then fail_code ERR_CONFIG_SCHEMA
     else if \<not> valid_number (sc_risk_horizon_seconds config) True \<or> \<not> at_most (sc_risk_horizon_seconds config) 86400
     then fail_code ERR_CONFIG_SCHEMA
     else if \<not> valid_number (sc_max_signal_ticks config) False then fail_code ERR_CONFIG_SCHEMA
     else Inr ())"

record baseline_strategy =
  bs_config :: strategy_config
  bs_symbol :: string
  bs_symbol_id :: int
  bs_tick_size4 :: int
  bs_session_start_ns :: int
  bs_session_end_ns :: int
  bs_kappa :: pyfloat
  bs_kappa_source :: calibration_source
  bs_risk :: int
  bs_volatility :: volatility_estimator

definition new_baseline ::
  "strategy_config \<Rightarrow> string \<Rightarrow> int \<Rightarrow> int \<Rightarrow> int \<Rightarrow> int \<Rightarrow> intensity_calibration \<Rightarrow> baseline_strategy result" where
  "new_baseline config symbol symbol_id tick_size4 session_start_ns session_end_ns calibration =
     bindR (validate_strategy_config config) (\<lambda>_.
     bindR (validate_strategy_symbol symbol) (\<lambda>validated.
     if \<not> valid_int symbol_id 1 MAX_UINT16 then fail_code ERR_UNKNOWN_SYMBOL
     else if \<not> valid_int tick_size4 1 MAX_UINT32 then fail_code ERR_PRICE
     else if \<not> valid_int session_start_ns 0 (TRADING_DAY_NS - 1) \<or> \<not> valid_int session_end_ns 1 TRADING_DAY_NS
        \<or> session_start_ns \<ge> session_end_ns
     then fail_code ERR_SESSION_WINDOW
     else bindR (for_symbol (ic_symbols calibration) validated) (\<lambda>selected.
     if si_symbol selected \<noteq> validated \<or> \<not> valid_number (si_kappa selected) True \<or> \<not> is_finite (si_intercept selected)
     then fail_code ERR_MODEL_TRAINING
     else bindR (new_risk_limit (sc_inventory_limit config)) (\<lambda>risk.
     bindR (new_volatility (sc_volatility_window_ns config) tick_size4) (\<lambda>volatility.
     Inr \<lparr>bs_config = config, bs_symbol = validated, bs_symbol_id = symbol_id, bs_tick_size4 = tick_size4,
       bs_session_start_ns = session_start_ns, bs_session_end_ns = session_end_ns,
       bs_kappa = si_kappa selected, bs_kappa_source = si_source selected, bs_risk = risk,
       bs_volatility = volatility\<rparr>)))))"

definition on_volatility :: "(volatility_estimator, 'a) smethod \<Rightarrow> (baseline_strategy, 'a) smethod" where
  "on_volatility f self = (case f (bs_volatility self) of (r, v) \<Rightarrow> (r, self\<lparr>bs_volatility := v\<rparr>))"

definition baseline_observe ::
  "int \<Rightarrow> int \<Rightarrow> int \<Rightarrow> int \<Rightarrow> (baseline_strategy, volatility_estimate option) smethod" where
  "baseline_observe message_index timestamp_ns best_bid_price4 best_ask_price4 self = (
     if \<not> valid_int timestamp_ns (bs_session_start_ns self) (bs_session_end_ns self - 1)
     then (fail_code ERR_SESSION_WINDOW, self)
     else on_volatility (volatility_observe message_index timestamp_ns best_bid_price4 best_ask_price4) self)"

text \<open>The quote of one side, or the reason there is none.\<close>

definition proposal ::
  "baseline_strategy \<Rightarrow> int \<Rightarrow> int \<Rightarrow> int \<Rightarrow> (quote_proposal option \<times> quote_suppression_reason option) result" where
  "proposal self side tick_index inventory_shares = (
     if tick_index < 0 \<or> tick_index > MAX_UINT32 div bs_tick_size4 self
     then Inr (None, Some PRICE_OUT_OF_RANGE)
     else bindR (evaluate_quote (bs_risk self) inventory_shares side (sc_order_quantity (bs_config self))) (\<lambda>risk.
     if \<not> rd_permitted risk then Inr (None, Some QUOTE_INVENTORY_LIMIT)
     else Inr (Some \<lparr>qp_side = side, qp_price4 = tick_index * bs_tick_size4 self,
       qp_quantity = sc_order_quantity (bs_config self),
       qp_projected_inventory = rd_projected_inventory risk\<rparr>, None)))"

type_synonym quote_pair =
  "quote_proposal option \<times> quote_proposal option \<times> quote_suppression_reason option \<times> quote_suppression_reason option"

definition float_floor :: "pyfloat \<Rightarrow> int result" where
  "float_floor x = (case x of None \<Rightarrow> Inl OverflowError | Some q \<Rightarrow> Inr \<lfloor>q\<rfloor>)"

text \<open>
  The difference or sum of two finite floats may itself not be finite; \<open>math.floor\<close> and \<open>math.ceil\<close>
  then raise an \<open>OverflowError\<close> that the strategy does not turn into a simulation error.
\<close>

definition quotes_for_reservation ::
  "baseline_strategy \<Rightarrow> pyfloat \<Rightarrow> pyfloat \<Rightarrow> int \<Rightarrow> int \<Rightarrow> int \<Rightarrow> quote_pair result" where
  "quotes_for_reservation self reservation half_spread best_bid_price4 best_ask_price4 inventory_shares = (
     if \<not> is_finite reservation \<or> \<not> is_finite half_spread \<or> at_most half_spread 0
     then fail_code ERR_SIMULATION_ANOMALY
     else
     bindR (float_floor (fsub reservation half_spread)) (\<lambda>desired_bid_tick.
     bindR (float_floor (fneg (fadd reservation half_spread))) (\<lambda>negated_ask_tick.
     let desired_ask_tick = - negated_ask_tick;
         tick = bs_tick_size4 self;
         passive_bid_tick = min (min desired_bid_tick (best_bid_price4 div tick)) ((best_ask_price4 - 1) div tick);
         passive_ask_tick = max (max desired_ask_tick ((best_ask_price4 + tick - 1) div tick)) (best_bid_price4 div tick + 1) in
     bindR (proposal self 1 passive_bid_tick inventory_shares) (\<lambda>(bid, bid_reason).
     bindR (proposal self (-1) passive_ask_tick inventory_shares) (\<lambda>(ask, ask_reason).
     Inr (bid, ask, bid_reason, ask_reason))))))"

definition suppressed_decision ::
  "baseline_strategy \<Rightarrow> int \<Rightarrow> int \<Rightarrow> int \<Rightarrow> int \<Rightarrow> int \<Rightarrow> int \<Rightarrow> baseline_decision" where
  "suppressed_decision self decision_message_index timestamp_ns inventory_shares bid ask mid2 = \<lparr>
     bd_symbol = bs_symbol self, bd_symbol_id = bs_symbol_id self,
     bd_decision_message_index = decision_message_index, bd_timestamp_ns = timestamp_ns,
     bd_best_bid_price4 = bid, bd_best_ask_price4 = ask, bd_mid2 = mid2,
     bd_mid_price_ticks = fdiv (float_of_int mid2) (fmul (Some 2) (float_of_int (bs_tick_size4 self))),
     bd_inventory_shares = inventory_shares,
     bd_inventory_units = int_div inventory_shares (sc_order_quantity (bs_config self)),
     bd_kappa = bs_kappa self, bd_kappa_source = bs_kappa_source self, bd_volatility = None,
     bd_tau_seconds = fmin (sc_risk_horizon_seconds (bs_config self))
       (int_div (bs_session_end_ns self - timestamp_ns) NANOSECONDS_PER_SECOND),
     bd_reservation_price_ticks = None, bd_half_spread_ticks = None, bd_bid = None, bd_ask = None,
     bd_bid_suppression_reason = Some INSUFFICIENT_VOLATILITY,
     bd_ask_suppression_reason = Some INSUFFICIENT_VOLATILITY\<rparr>"

definition baseline_decide :: "libm \<Rightarrow> int \<Rightarrow> int \<Rightarrow> int \<Rightarrow> baseline_strategy \<Rightarrow> baseline_decision result" where
  "baseline_decide m decision_message_index timestamp_ns inventory_shares self = (
     if \<not> valid_int timestamp_ns (bs_session_start_ns self) (bs_session_end_ns self - 1)
     then fail_code ERR_SESSION_WINDOW
     else if \<not> valid_int inventory_shares (- sc_inventory_limit (bs_config self)) (sc_inventory_limit (bs_config self))
     then fail_code ERR_INVENTORY_LIMIT
     else
     let state = volatility_snapshot (bs_volatility self) in
     case (vs_best_bid_price4 state, vs_best_ask_price4 state, vs_mid2 state) of
       (Some bid, Some ask, Some mid2) \<Rightarrow>
     bindR (volatility_at decision_message_index timestamp_ns (bs_volatility self)) (\<lambda>volatility.
     let base = suppressed_decision self decision_message_index timestamp_ns inventory_shares bid ask mid2 in
     case volatility of
       None \<Rightarrow> Inr base
     | Some estimate \<Rightarrow>
     let gamma = sc_gamma (bs_config self);
         risk_term = fmul (fmul gamma (ve_sigma_squared estimate)) (bd_tau_seconds base);
         reservation = fsub (bd_mid_price_ticks base) (fmul (bd_inventory_units base) risk_term);
         arrival_term = fdiv (applied (lm_log1p m) (fdiv gamma (bs_kappa self))) gamma;
         half_spread = fadd (fdiv risk_term (Some 2)) arrival_term in
     if \<not> is_finite risk_term \<or> \<not> is_finite reservation \<or> \<not> is_finite half_spread \<or> at_most half_spread 0
     then fail_code ERR_SIMULATION_ANOMALY
     else
     bindR (quotes_for_reservation self reservation half_spread bid ask inventory_shares)
       (\<lambda>(bid_quote, ask_quote, bid_reason, ask_reason).
     Inr (base\<lparr>bd_volatility := volatility, bd_reservation_price_ticks := Some reservation,
       bd_half_spread_ticks := Some half_spread, bd_bid := bid_quote, bd_ask := ask_quote,
       bd_bid_suppression_reason := bid_reason, bd_ask_suppression_reason := ask_reason\<rparr>)))
     | _ \<Rightarrow> fail_code ERR_EMPTY_DATASET)"

end
