(* ===== verification/Signal_Quoting.thy ===== *)
theory Signal_Quoting
  imports Quoting Prediction_Join
begin

text \<open>
  \<open>strategies/signal_adjusted.py\<close>: the baseline whose reservation price a bounded causal score shifts,
  and the choice of the prediction model and of the signal's weight from validation evidence only.
\<close>

section \<open>Choosing the model\<close>

definition MODEL_LOG_LOSS_TIE_TOLERANCE :: pyfloat where
  "MODEL_LOG_LOSS_TIE_TOLERANCE = round_double (1 / 1000000)"
definition SIGNAL_PNL_TIE_TOLERANCE_MICROUSD :: int where "SIGNAL_PNL_TIE_TOLERANCE_MICROUSD = 1"
definition SIGNAL_SELECTION_LATENCY_NS :: int where "SIGNAL_SELECTION_LATENCY_NS = 100000"
definition SIGNAL_SELECTION_MAKER_FEE_MICROUSD_PER_SHARE :: int where
  "SIGNAL_SELECTION_MAKER_FEE_MICROUSD_PER_SHARE = -2000"

definition SIGNAL_WEIGHT_CANDIDATES :: "rat list" where "SIGNAL_WEIGHT_CANDIDATES = [0, 1 / 2, 1, 2]"

record model_validation_metric =
  mv_partition :: string
  mv_model_name :: string
  mv_multiclass_log_loss :: pyfloat

record signal_model_selection =
  ms_model_name :: string
  ms_validation_log_loss :: pyfloat
  ms_evaluations :: "model_validation_metric list"

definition signal_weight :: "pyfloat option \<Rightarrow> rat result" where
  "signal_weight value = (case value of
       Some (Some w) \<Rightarrow> if w \<in> set SIGNAL_WEIGHT_CANDIDATES then Inr w else fail_code ERR_CONFIG_SCHEMA
     | _ \<Rightarrow> fail_code ERR_CONFIG_SCHEMA)"

definition admit_metric ::
  "(string, model_validation_metric) dict \<Rightarrow> model_validation_metric \<Rightarrow> (string, model_validation_metric) dict result" where
  "admit_metric by_name evaluation = (
     if mv_partition evaluation \<noteq> ''validation'' then fail_code ERR_LEAKAGE_GUARD
     else if mv_model_name evaluation \<notin> set PREDICTION_MODEL_ORDER then fail_code ERR_MODEL_TRAINING
     else if has_key by_name (mv_model_name evaluation) then fail_code ERR_MODEL_TRAINING
     else if \<not> valid_number (mv_multiclass_log_loss evaluation) False then fail_code ERR_MODEL_TRAINING
     else Inr (dict_set (mv_model_name evaluation) evaluation by_name))"

text \<open>The first candidate, in catalogue order, that a test accepts.\<close>

definition first_where :: "('a \<Rightarrow> bool) \<Rightarrow> 'a list \<Rightarrow> 'a option" where
  "first_where P xs = (case filter P xs of [] \<Rightarrow> None | x # _ \<Rightarrow> Some x)"

definition select_signal_model :: "model_validation_metric list \<Rightarrow> signal_model_selection result" where
  "select_signal_model evaluations =
     bindR (foldR admit_metric [] evaluations) (\<lambda>by_name.
     if set (dict_keys by_name) \<noteq> set PREDICTION_MODEL_ORDER then fail_code ERR_MODEL_TRAINING
     else
     let ordered = map (\<lambda>name. the (dict_get by_name name)) PREDICTION_MODEL_ORDER;
         best_loss = Some (Min (set (map (\<lambda>c. the (mv_multiclass_log_loss c)) ordered))) in
     case first_where (\<lambda>c. at_most (fsub (mv_multiclass_log_loss c) best_loss) (the MODEL_LOG_LOSS_TIE_TOLERANCE)) ordered of
       None \<Rightarrow> fail_code ERR_INTERNAL
     | Some selected \<Rightarrow> Inr \<lparr>ms_model_name = mv_model_name selected,
         ms_validation_log_loss = mv_multiclass_log_loss selected, ms_evaluations = ordered\<rparr>)"

section \<open>Choosing the weight\<close>

record validation_signal_pnl =
  vp_partition :: string
  vp_trading_date :: "int \<times> int \<times> int"
  vp_signal_weight_ticks :: pyfloat
  vp_submission_latency_ns :: int
  vp_cancellation_latency_ns :: int
  vp_maker_fee_microusd_per_share :: int
  vp_net_pnl_microusd :: int

record signal_weight_evaluation =
  we_signal_weight_ticks :: rat
  we_validation_days :: int
  we_total_net_pnl_microusd :: int
  we_mean_net_pnl_microusd :: pyfloat

record signal_weight_selection =
  ws_signal_weight_ticks :: rat
  ws_evaluations :: "signal_weight_evaluation list"

type_synonym daily_pnl = "(int \<times> int \<times> int, int) dict"

definition admit_pnl :: "(rat, daily_pnl) dict \<Rightarrow> validation_signal_pnl \<Rightarrow> (rat, daily_pnl) dict result" where
  "admit_pnl by_weight evaluation = (
     if vp_partition evaluation \<noteq> ''validation'' then fail_code ERR_LEAKAGE_GUARD
     else bindR (signal_weight (Some (vp_signal_weight_ticks evaluation))) (\<lambda>weight.
     if vp_submission_latency_ns evaluation \<noteq> SIGNAL_SELECTION_LATENCY_NS
        \<or> vp_cancellation_latency_ns evaluation \<noteq> SIGNAL_SELECTION_LATENCY_NS
        \<or> vp_maker_fee_microusd_per_share evaluation \<noteq> SIGNAL_SELECTION_MAKER_FEE_MICROUSD_PER_SHARE
     then fail_code ERR_CONFIG_SCHEMA
     else if \<not> valid_int (vp_net_pnl_microusd evaluation) MIN_INT64 MAX_INT64 then fail_code ERR_COST
     else
     let daily = dict_get_default by_weight weight [] in
     if has_key daily (vp_trading_date evaluation) then fail_code ERR_MODEL_TRAINING
     else Inr (dict_set weight (dict_set (vp_trading_date evaluation) (vp_net_pnl_microusd evaluation) daily) by_weight)))"

definition mean_pnl :: "daily_pnl \<Rightarrow> rat" where
  "mean_pnl daily = of_int (sum_list (dict_values daily)) / of_nat (length daily)"

definition weight_evaluation :: "rat \<Rightarrow> daily_pnl \<Rightarrow> signal_weight_evaluation" where
  "weight_evaluation weight daily = \<lparr>we_signal_weight_ticks = weight, we_validation_days = int (length daily),
     we_total_net_pnl_microusd = sum_list (dict_values daily),
     we_mean_net_pnl_microusd = round_double (mean_pnl daily)\<rparr>"

definition select_signal_weight :: "validation_signal_pnl list \<Rightarrow> signal_weight_selection result" where
  "select_signal_weight evaluations = (
     if evaluations = [] then fail_code ERR_EMPTY_DATASET
     else bindR (foldR admit_pnl (map (\<lambda>w. (w, [])) SIGNAL_WEIGHT_CANDIDATES) evaluations) (\<lambda>by_weight.
     let daily = (\<lambda>w. dict_get_default by_weight w []);
         expected_dates = set (dict_keys (daily (hd SIGNAL_WEIGHT_CANDIDATES))) in
     if expected_dates = {} \<or> \<not> list_all (\<lambda>(w, results). set (dict_keys results) = expected_dates) by_weight
     then fail_code ERR_PARTITION
     else
     let best_mean = Max (set (map (\<lambda>w. mean_pnl (daily w)) SIGNAL_WEIGHT_CANDIDATES)) in
     case first_where (\<lambda>w. best_mean - mean_pnl (daily w) \<le> of_int SIGNAL_PNL_TIE_TOLERANCE_MICROUSD)
         SIGNAL_WEIGHT_CANDIDATES of
       None \<Rightarrow> fail_code ERR_INTERNAL
     | Some weight \<Rightarrow> Inr \<lparr>ws_signal_weight_ticks = weight,
         ws_evaluations = map (\<lambda>w. weight_evaluation w (daily w)) SIGNAL_WEIGHT_CANDIDATES\<rparr>))"

section \<open>The signal-adjusted strategy\<close>

record signal_adjusted_decision =
  sd_baseline :: baseline_decision
  sd_prediction :: "prediction_selection option"
  sd_signal_weight_ticks :: rat
  sd_unclipped_adjustment_ticks :: pyfloat
  sd_adjustment_ticks :: pyfloat
  sd_signal_reservation_price_ticks :: "pyfloat option"
  sd_bid :: "quote_proposal option"
  sd_ask :: "quote_proposal option"
  sd_bid_suppression_reason :: "quote_suppression_reason option"
  sd_ask_suppression_reason :: "quote_suppression_reason option"

record signal_strategy =
  ss_baseline :: baseline_strategy
  ss_config :: strategy_config
  ss_weight :: rat
  ss_predictions :: causal_prediction_join

text \<open>The exceptions of the prediction join among those of the simulation.\<close>

definition joined_result :: "'a joined \<Rightarrow> 'a result" where
  "joined_result r = (case r of
       Inr x \<Rightarrow> Inr x
     | Inl (Prediction_Error c i) \<Rightarrow> Inl (SimulationError c None i)
     | Inl Overflow_Error \<Rightarrow> Inl OverflowError)"

definition new_signal_strategy ::
  "strategy_config \<Rightarrow> string \<Rightarrow> int \<Rightarrow> int \<Rightarrow> (int \<times> int \<times> int) \<Rightarrow> int \<Rightarrow> int \<Rightarrow> intensity_calibration
     \<Rightarrow> string \<Rightarrow> string \<Rightarrow> stream_item list \<Rightarrow> signal_strategy result" where
  "new_signal_strategy config symbol symbol_id tick_size4 trading_date session_start_ns session_end_ns
      calibration experiment_id model_name predictions = (
     if sc_name config \<noteq> SIGNAL_NAME then fail_code ERR_CONFIG_SCHEMA
     else bindR (signal_weight (sc_signal_weight_ticks config)) (\<lambda>weight.
     if \<not> valid_number (sc_max_signal_ticks config) False then fail_code ERR_CONFIG_SCHEMA
     else bindR (new_baseline (config\<lparr>sc_name := BASELINE_NAME, sc_signal_weight_ticks := Some (Some 0)\<rparr>)
       symbol symbol_id tick_size4 session_start_ns session_end_ns calibration) (\<lambda>baseline.
     bindR (joined_result (new_prediction_join (Some predictions) (PyStr experiment_id) (PyDate trading_date)
       (PyInt symbol_id) (PyStr model_name) (PyInt (sc_max_prediction_age_ns config)))) (\<lambda>join.
     Inr \<lparr>ss_baseline = baseline, ss_config = config, ss_weight = weight, ss_predictions = join\<rparr>))))"

definition signal_observe ::
  "int \<Rightarrow> int \<Rightarrow> int \<Rightarrow> int \<Rightarrow> (signal_strategy, volatility_estimate option) smethod" where
  "signal_observe message_index timestamp_ns best_bid_price4 best_ask_price4 self = (
     case baseline_observe message_index timestamp_ns best_bid_price4 best_ask_price4 (ss_baseline self) of
       (r, baseline) \<Rightarrow> (r, self\<lparr>ss_baseline := baseline\<rparr>))"

text \<open>The part of \<open>decide\<close> that follows the selection of a prediction; nothing of it mutates.\<close>

definition adjusted_decision ::
  "baseline_decision \<Rightarrow> prediction_selection option \<Rightarrow> rat \<Rightarrow> signal_strategy \<Rightarrow> signal_adjusted_decision result" where
  "adjusted_decision baseline selection effective_score self = (
     let unclipped = fmul (Some (ss_weight self)) (Some effective_score);
         maximum = sc_max_signal_ticks (ss_config self);
         adjustment = fmax (fneg maximum) (fmin maximum unclipped) in
     if \<not> is_finite unclipped \<or> \<not> is_finite adjustment then fail_code ERR_SIMULATION_ANOMALY
     else
     let decision = (\<lambda>reservation (bid, ask, bid_reason, ask_reason). \<lparr>sd_baseline = baseline,
           sd_prediction = selection, sd_signal_weight_ticks = ss_weight self,
           sd_unclipped_adjustment_ticks = unclipped, sd_adjustment_ticks = adjustment,
           sd_signal_reservation_price_ticks = reservation, sd_bid = bid, sd_ask = ask,
           sd_bid_suppression_reason = bid_reason, sd_ask_suppression_reason = ask_reason\<rparr>) in
     case (bd_reservation_price_ticks baseline, bd_half_spread_ticks baseline) of
       (Some reservation, Some half_spread) \<Rightarrow>
         bindR (quotes_for_reservation (ss_baseline self) (fadd reservation adjustment) half_spread
             (bd_best_bid_price4 baseline) (bd_best_ask_price4 baseline) (bd_inventory_shares baseline))
           (\<lambda>quotes. Inr (decision (Some (fadd reservation adjustment)) quotes))
     | _ \<Rightarrow> Inr (decision (bd_reservation_price_ticks baseline)
         (bd_bid baseline, bd_ask baseline, bd_bid_suppression_reason baseline, bd_ask_suppression_reason baseline)))"

definition signal_decide :: "libm \<Rightarrow> int \<Rightarrow> int \<Rightarrow> int \<Rightarrow> (signal_strategy, signal_adjusted_decision) smethod" where
  "signal_decide m decision_message_index timestamp_ns inventory_shares self = (
     case baseline_decide m decision_message_index timestamp_ns inventory_shares (ss_baseline self) of
       Inl e \<Rightarrow> (Inl e, self)
     | Inr baseline \<Rightarrow>
     if ss_weight self = 0 then (adjusted_decision baseline None 0 self, self)
     else case select (PyInt decision_message_index) (PyInt timestamp_ns) (ss_predictions self) of
       (Inl e, join) \<Rightarrow> (joined_result (Inl e), self\<lparr>ss_predictions := join\<rparr>)
     | (Inr selection, join) \<Rightarrow>
         (adjusted_decision baseline (Some selection) (ps_effective_score selection) (self\<lparr>ss_predictions := join\<rparr>),
          self\<lparr>ss_predictions := join\<rparr>))"

end
