(* ===== verification/Quoting_Properties.thy ===== *)
theory Quoting_Properties
  imports Signal_Quoting
begin

text \<open>
  What the strategies promise: the volatility estimate is that of the whole quote history although
  the estimator holds only the changes of its trailing window, every proposed quote is passive, on
  the grid and within the limit, and the signal moves the reservation price, from which the quotes
  are made, by its clipped score and not at all with weight zero.
\<close>

section \<open>Volatility over the whole history\<close>

text \<open>A quote is its message index, time, best bid and best ask.\<close>

type_synonym quote = "int \<times> int \<times> int \<times> int"

definition quote_time :: "quote \<Rightarrow> int" where "quote_time = (\<lambda>(i, t, b, a). t)"
definition quote_mid :: "quote \<Rightarrow> int" where "quote_mid = (\<lambda>(i, t, b, a). b + a)"

definition quote_step :: "volatility_estimator \<times> quote list \<Rightarrow> quote \<Rightarrow> volatility_estimator \<times> quote list" where
  "quote_step = (\<lambda>(v, accepted) (i, t, b, a). case volatility_observe i t b a v of
     (Inl e, v') \<Rightarrow> (v', accepted) | (Inr x, v') \<Rightarrow> (v', accepted @ [(i, t, b, a)]))"

text \<open>The estimator after a run of quotes, and those of them it accepted.\<close>

definition observe_quotes :: "volatility_estimator \<Rightarrow> quote list \<Rightarrow> volatility_estimator \<times> quote list" where
  "observe_quotes v qs = foldl quote_step (v, []) qs"

text \<open>All midpoint changes of a history.\<close>

fun midpoint_changes :: "int \<Rightarrow> quote list \<Rightarrow> midpoint_change list" where
  "midpoint_changes tick [] = []"
| "midpoint_changes tick [q] = []"
| "midpoint_changes tick (p # q # qs) =
     (quote_time q, fst q, squared_change tick (quote_mid q) (quote_mid p)) # midpoint_changes tick (q # qs)"

lemma midpoint_changes_snoc:
  "midpoint_changes tick (qs @ [q]) = midpoint_changes tick qs
     @ (if qs = [] then [] else [(quote_time q, fst q, squared_change tick (quote_mid q) (quote_mid (last qs)))])"
  by (induction tick qs rule: midpoint_changes.induct) simp_all

text \<open>The changes after a time.\<close>

definition changes_after :: "int \<Rightarrow> midpoint_change list \<Rightarrow> midpoint_change list" where
  "changes_after low cs = filter (\<lambda>(t, i, s). low < t) cs"

lemma changes_after_twice: "low \<le> low' \<Longrightarrow> changes_after low' (changes_after low cs) = changes_after low' cs"
  by (auto simp: changes_after_def intro!: filter_cong)

lemma midpoint_changes_member:
  "(t, i, s) \<in> set (midpoint_changes tick qs) \<Longrightarrow> \<exists>q \<in> set qs. t = quote_time q \<and> i = fst q"
  by (induction tick qs rule: midpoint_changes.induct) auto

text \<open>
  The estimate a decision should get: over the changes of the whole history that are in the window
  ending at the decision, whose sum of squares is divided by the seconds it has been observed for.
\<close>

definition estimate_of_history ::
  "int \<Rightarrow> int \<Rightarrow> midpoint_change list \<Rightarrow> int \<Rightarrow> int \<Rightarrow> volatility_estimate option result" where
  "estimate_of_history window first changes d t = (
     let recent = changes_after (t - window) changes; elapsed = min window (t - first);
         total_square = fsum (map (snd \<circ> snd) recent);
         variance = fdiv total_square (int_div elapsed NANOSECONDS_PER_SECOND) in
     if elapsed = 0 then Inr None
     else if \<not> is_finite total_square \<or> \<not> valid_number variance False then fail_code ERR_SIMULATION_ANOMALY
     else Inr (Some \<lparr>ve_decision_message_index = d, ve_timestamp_ns = t, ve_window_start_ns = t - elapsed,
       ve_elapsed_ns = elapsed, ve_change_count = int (length recent),
       ve_squared_change_sum_ticks2 = total_square, ve_sigma_squared = variance\<rparr>))"

lemma calculate_estimate_held:
  assumes "\<forall>(u, i, s) \<in> set cs. u < t \<or> u = t \<and> i \<le> d" "f \<le> t" "1 \<le> window"
  shows "calculate_estimate window f cs d t = estimate_of_history window f cs d t"
proof -
  have "filter (\<lambda>(u, i, s). u > t - window \<and> (u < t \<or> u = t \<and> i \<le> d)) cs = changes_after (t - window) cs"
    unfolding changes_after_def using assms(1) by (intro filter_cong) auto
  moreover have "(\<lambda>(u, i, s). s) = (snd \<circ> snd :: midpoint_change \<Rightarrow> pyfloat)" by (auto simp: fun_eq_iff)
  moreover have "valid_number v False \<Longrightarrow> is_finite v" for v
    by (cases v) (simp_all add: valid_number_def is_finite_def)
  moreover have "max f (t - window) = t - min window (t - f)" by simp
  ultimately show ?thesis
    using assms(2,3) unfolding calculate_estimate_def estimate_of_history_def Let_def by auto
qed

lemma estimate_of_history_trimmed:
  "low \<le> t - window \<Longrightarrow> estimate_of_history window f (changes_after low cs) d t = estimate_of_history window f cs d t"
  by (simp add: estimate_of_history_def changes_after_twice)

definition volatility_inv :: "int \<Rightarrow> int \<Rightarrow> volatility_estimator \<Rightarrow> quote list \<Rightarrow> bool" where
  "volatility_inv window tick v qs \<longleftrightarrow> vo_window_ns v = window \<and> vo_tick_size4 v = tick
     \<and> (if qs = [] then vo_first_timestamp_ns v = None \<and> vo_last_message_index v = None
          \<and> vo_last_timestamp_ns v = None \<and> vo_mid2 v = None \<and> vo_best_bid_price4 v = None
          \<and> vo_best_ask_price4 v = None \<and> vo_changes v = []
        else vo_first_timestamp_ns v = Some (quote_time (hd qs)) \<and> vo_last_message_index v = Some (fst (last qs))
          \<and> vo_last_timestamp_ns v = Some (quote_time (last qs)) \<and> vo_mid2 v = Some (quote_mid (last qs))
          \<and> vo_best_bid_price4 v = Some (fst (snd (snd (last qs)))) \<and> vo_best_ask_price4 v = Some (snd (snd (snd (last qs))))
          \<and> vo_changes v = changes_after (quote_time (last qs) - window) (midpoint_changes tick qs)
          \<and> (\<forall>q \<in> set qs. fst q \<le> fst (last qs) \<and> quote_time q \<le> quote_time (last qs)))
     \<and> (\<forall>(i, t, b, a) \<in> set qs. 0 \<le> b \<and> b \<le> a \<and> a \<le> MAX_UINT32 \<and> 0 < b + a)"

lemma new_volatility_inv:
  "new_volatility window tick = Inr v \<Longrightarrow> volatility_inv window tick v [] \<and> 1 \<le> window \<and> 1 \<le> tick"
  by (auto simp: new_volatility_def volatility_inv_def valid_int_def split: if_splits)

lemma validate_quote_values_Inr:
  "validate_quote_values b a = Inr r \<longleftrightarrow> r = (b, a) \<and> 0 \<le> b \<and> b \<le> a \<and> a \<le> MAX_UINT32 \<and> 0 < b + a"
  by (auto simp: validate_quote_values_def valid_int_def)

lemma commit_quote_inv:
  assumes inv: "volatility_inv window tick v qs" and w: "1 \<le> window"
    and run: "commit_quote i t b a v = Inr (r, v')"
  shows "volatility_inv window tick v' (qs @ [(i, t, b, a)])"
proof -
  note defs = commit_quote_def validate_quote_values_Inr bindR_eq_Inr
  have ba: "0 \<le> b \<and> b \<le> a \<and> a \<le> MAX_UINT32 \<and> 0 < b + a"
    using run by (auto simp: defs split: if_splits)
  have wt: "vo_window_ns v = window" "vo_tick_size4 v = tick" using inv by (simp_all add: volatility_inv_def)
  show ?thesis
  proof (cases "qs = []")
    case True
    then have "vo_first_timestamp_ns v = None" "vo_mid2 v = None" "vo_changes v = []"
      using inv by (simp_all add: volatility_inv_def)
    then show ?thesis
      using run True ba wt
      by (auto simp: defs Let_def volatility_inv_def quote_time_def quote_mid_def changes_after_def split: if_splits)
  next
    case False
    then have held: "vo_changes v = changes_after (quote_time (last qs) - window) (midpoint_changes tick qs)"
      and order: "\<forall>q \<in> set qs. fst q \<le> fst (last qs) \<and> quote_time q \<le> quote_time (last qs)"
      and v: "vo_first_timestamp_ns v = Some (quote_time (hd qs))" "vo_last_message_index v = Some (fst (last qs))"
        "vo_last_timestamp_ns v = Some (quote_time (last qs))" "vo_mid2 v = Some (quote_mid (last qs))"
      using inv by (simp_all add: volatility_inv_def)
    have later: "quote_time (last qs) \<le> t" "fst (last qs) \<le> i" using run v by (auto simp: defs Let_def split: if_splits)
    let ?s = "squared_change tick (b + a) (quote_mid (last qs))"
    have changes: "vo_changes v' = changes_after (t - window) (vo_changes v) @ [(t, i, ?s)]"
      using run v wt by (auto simp: defs Let_def changes_after_def split: if_splits)
    have "changes_after (t - window) (vo_changes v) = changes_after (t - window) (midpoint_changes tick qs)"
      unfolding held using later by (intro changes_after_twice) simp
    then have "vo_changes v' = changes_after (t - window) (midpoint_changes tick (qs @ [(i, t, b, a)]))"
      using changes False w by (simp add: midpoint_changes_snoc quote_time_def quote_mid_def changes_after_def)
    moreover have "\<forall>q \<in> set (qs @ [(i, t, b, a)]). fst q \<le> i \<and> quote_time q \<le> t"
      using order later by (fastforce simp: quote_time_def)
    moreover have "vo_window_ns v' = window" "vo_tick_size4 v' = tick"
      "vo_first_timestamp_ns v' = Some (quote_time (hd qs))" "vo_last_message_index v' = Some i"
      "vo_last_timestamp_ns v' = Some t" "vo_mid2 v' = Some (b + a)" "vo_best_bid_price4 v' = Some b"
      "vo_best_ask_price4 v' = Some a"
      using run v wt by (auto simp: defs Let_def split: if_splits)
    ultimately show ?thesis
      using inv ba False by (auto simp: volatility_inv_def quote_time_def quote_mid_def)
  qed
qed

lemma observe_quotes_inv:
  assumes "volatility_inv window tick v []" "1 \<le> window" "observe_quotes v qs = (v', accepted)"
  shows "volatility_inv window tick v' accepted"
proof -
  have "case foldl quote_step (v, []) qs of (v', accepted) \<Rightarrow> volatility_inv window tick v' accepted"
  proof (induction qs rule: rev_induct)
    case Nil
    then show ?case using assms(1) by simp
  next
    case (snoc q qs)
    obtain u acc where r: "foldl quote_step (v, []) qs = (u, acc)" by fastforce
    obtain i t b a where q: "q = (i, t, b, a)" by (cases q)
    have "volatility_inv window tick u acc" using snoc.IH by (simp add: r)
    moreover have "quote_step (u, acc) q = (case commit_quote i t b a u of
        Inl e \<Rightarrow> (u, acc) | Inr (x, u') \<Rightarrow> (u', acc @ [(i, t, b, a)]))"
      by (auto simp: q quote_step_def volatility_observe_def commitM_def split: sum.split)
    ultimately show ?case
      using commit_quote_inv [OF _ assms(2), of tick u acc i t b a] by (simp add: r split: sum.split prod.split)
  qed
  then show ?thesis using assms(3) by (simp add: observe_quotes_def)
qed

section \<open>Quotes\<close>

text \<open>A quote that rests: on its own side of the book and on the tick grid, within the limit.\<close>

definition passive_quote :: "int \<Rightarrow> int \<Rightarrow> int \<Rightarrow> int \<Rightarrow> int \<Rightarrow> int \<Rightarrow> int \<Rightarrow> quote_proposal \<Rightarrow> bool" where
  "passive_quote side tick quantity limit inventory bid ask q \<longleftrightarrow> qp_side q = side \<and> qp_quantity q = quantity
     \<and> tick dvd qp_price4 q \<and> 0 \<le> qp_price4 q \<and> qp_price4 q \<le> MAX_UINT32
     \<and> qp_projected_inventory q = inventory + side * quantity \<and> \<bar>qp_projected_inventory q\<bar> \<le> limit
     \<and> (if side = 1 then qp_price4 q \<le> bid \<and> qp_price4 q < ask else ask \<le> qp_price4 q \<and> bid < qp_price4 q)"

definition optional :: "('a \<Rightarrow> bool) \<Rightarrow> 'a option \<Rightarrow> bool" where
  "optional P x \<longleftrightarrow> (case x of None \<Rightarrow> True | Some y \<Rightarrow> P y)"

lemma proposal_Inr:
  assumes "proposal self side k inventory = Inr (q, reason)"
  shows "optional (\<lambda>q. qp_side q = side \<and> qp_quantity q = sc_order_quantity (bs_config self)
      \<and> qp_price4 q = k * bs_tick_size4 self \<and> 0 \<le> k \<and> k \<le> MAX_UINT32 div bs_tick_size4 self
      \<and> qp_projected_inventory q = inventory + side * sc_order_quantity (bs_config self)
      \<and> \<bar>qp_projected_inventory q\<bar> \<le> bs_risk self) q"
    and "q = None \<longleftrightarrow> reason \<noteq> None"
proof -
  have "evaluate_quote lim inv s n = Inr risk \<Longrightarrow> rd_projected_inventory risk = inv + s * n
      \<and> (rd_permitted risk \<longrightarrow> \<bar>inv + s * n\<bar> \<le> lim)" for lim inv s n risk
    by (auto simp: evaluate_quote_def Let_def split: if_splits)
  then show "optional (\<lambda>q. qp_side q = side \<and> qp_quantity q = sc_order_quantity (bs_config self)
      \<and> qp_price4 q = k * bs_tick_size4 self \<and> 0 \<le> k \<and> k \<le> MAX_UINT32 div bs_tick_size4 self
      \<and> qp_projected_inventory q = inventory + side * sc_order_quantity (bs_config self)
      \<and> \<bar>qp_projected_inventory q\<bar> \<le> bs_risk self) q" "q = None \<longleftrightarrow> reason \<noteq> None"
    using assms by (auto simp: proposal_def bindR_eq_Inr optional_def split: if_splits)
qed

lemma grid_below:
  fixes k x t :: int
  assumes "1 \<le> t" "k \<le> x div t"
  shows "k * t \<le> x"
proof -
  have "k * t \<le> x div t * t" using assms by (intro mult_right_mono) simp_all
  also have "\<dots> \<le> x" using div_mult_mod_eq [of x t] pos_mod_sign [of t x] assms(1) by linarith
  finally show ?thesis .
qed

lemma grid_above:
  fixes k x t :: int
  assumes "1 \<le> t" "x div t < k"
  shows "x < k * t"
proof -
  have "(x div t + 1) * t \<le> k * t" using assms by (intro mult_right_mono) simp_all
  moreover have "x < (x div t + 1) * t"
    using div_mult_mod_eq [of x t] pos_mod_bound [of t x] assms(1) unfolding distrib_right by linarith
  ultimately show ?thesis by linarith
qed

lemma quotes_for_reservation_passive:
  assumes run: "quotes_for_reservation self r h bid ask inventory = Inr (bq, aq, br, ar)"
    and tick: "1 \<le> bs_tick_size4 self"
  shows "optional (passive_quote 1 (bs_tick_size4 self) (sc_order_quantity (bs_config self)) (bs_risk self) inventory bid ask) bq"
    "optional (passive_quote (-1) (bs_tick_size4 self) (sc_order_quantity (bs_config self)) (bs_risk self) inventory bid ask) aq"
    "bq = None \<longleftrightarrow> br \<noteq> None" "aq = None \<longleftrightarrow> ar \<noteq> None"
proof -
  let ?t = "bs_tick_size4 self"
  obtain d e where b: "proposal self 1 (min (min d (bid div ?t)) ((ask - 1) div ?t)) inventory = Inr (bq, br)"
    and a: "proposal self (-1) (max (max e ((ask + ?t - 1) div ?t)) (bid div ?t + 1)) inventory = Inr (aq, ar)"
    using run by (auto simp: quotes_for_reservation_def bindR_eq_Inr Let_def split: if_splits)
  show "bq = None \<longleftrightarrow> br \<noteq> None" "aq = None \<longleftrightarrow> ar \<noteq> None"
    using proposal_Inr(2) [OF b] proposal_Inr(2) [OF a] .
  have bid: "k * ?t \<le> bid \<and> k * ?t < ask" if "k = min (min d (bid div ?t)) ((ask - 1) div ?t)" for k
    using that grid_below [OF tick, of k bid] grid_below [OF tick, of k "ask - 1"] by simp
  have ask: "ask \<le> k * ?t \<and> bid < k * ?t" if k: "k = max (max e ((ask + ?t - 1) div ?t)) (bid div ?t + 1)" for k
  proof -
    have "(ask + ?t - 1) div ?t = (ask - 1) div ?t + 1" using tick by (metis add_diff_eq div_add_self2 diff_add_eq not_one_le_zero)
    then have "(ask - 1) div ?t < k" "bid div ?t < k" unfolding k by simp_all
    from grid_above [OF tick this(1)] grid_above [OF tick this(2)] show ?thesis by simp
  qed
  note up = grid_below [OF tick, of _ MAX_UINT32]
  have pos: "0 \<le> k \<Longrightarrow> 0 \<le> k * ?t" for k using tick by simp
  show "optional (passive_quote 1 ?t (sc_order_quantity (bs_config self)) (bs_risk self) inventory bid ask) bq"
    using proposal_Inr(1) [OF b] up bid [OF refl] pos by (auto simp: optional_def passive_quote_def split: option.splits)
  show "optional (passive_quote (-1) ?t (sc_order_quantity (bs_config self)) (bs_risk self) inventory bid ask) aq"
    using proposal_Inr(1) [OF a] up ask [OF refl] pos by (auto simp: optional_def passive_quote_def split: option.splits)
qed

text \<open>
  A price that may rest on a side, no keener than a limit in ticks; and the keenest such price.
\<close>

definition resting_price :: "int \<Rightarrow> int \<Rightarrow> int \<Rightarrow> int \<Rightarrow> rat \<Rightarrow> int \<Rightarrow> bool" where
  "resting_price side tick bid ask limit p \<longleftrightarrow> tick dvd p
     \<and> (if side = 1 then p \<le> bid \<and> p < ask \<and> of_int p \<le> of_int tick * limit
        else ask \<le> p \<and> bid < p \<and> of_int tick * limit \<le> of_int p)"

definition keenest_price :: "int \<Rightarrow> int \<Rightarrow> int \<Rightarrow> int \<Rightarrow> rat \<Rightarrow> int \<Rightarrow> bool" where
  "keenest_price side tick bid ask limit p \<longleftrightarrow> resting_price side tick bid ask limit p
     \<and> (\<forall>p'. resting_price side tick bid ask limit p' \<longrightarrow> side * p' \<le> side * p)"

lemma grid_le: "1 \<le> t \<Longrightarrow> k * t \<le> x \<longleftrightarrow> k \<le> x div t" for k x t :: int
  using grid_below [of t k x] grid_above [of t x k] by linarith

lemma tick_limit: "1 \<le> t \<Longrightarrow> of_int (k * t) \<le> of_int t * (x :: rat) \<longleftrightarrow> of_int k \<le> x"
  "1 \<le> t \<Longrightarrow> of_int t * (x :: rat) \<le> of_int (k * t) \<longleftrightarrow> x \<le> of_int k"
  by (simp_all add: mult.commute)

lemma keenest_bid:
  assumes "1 \<le> t"
  shows "keenest_price 1 t bid ask x (min (min \<lfloor>x\<rfloor> (bid div t)) ((ask - 1) div t) * t)"
proof -
  have "resting_price 1 t bid ask x (k * t) \<longleftrightarrow> k \<le> min (min \<lfloor>x\<rfloor> (bid div t)) ((ask - 1) div t)" for k
    using grid_le [OF assms, of k bid] grid_le [OF assms, of k "ask - 1"] tick_limit(1) [OF assms, of k x]
    by (auto simp: resting_price_def le_floor_iff)
  moreover have "\<exists>k. p = k * t" if "resting_price 1 t bid ask x p" for p
    using that by (auto simp: resting_price_def dvd_def mult.commute)
  ultimately show ?thesis using assms unfolding keenest_price_def by (fastforce intro: mult_right_mono)
qed

lemma keenest_ask:
  assumes "1 \<le> t"
  shows "keenest_price (-1) t bid ask x (max (max (- \<lfloor>- x\<rfloor>) ((ask + t - 1) div t)) (bid div t + 1) * t)"
proof -
  have "(ask + t - 1) div t = (ask - 1) div t + 1" using assms by (metis add_diff_eq div_add_self2 diff_add_eq not_one_le_zero)
  then have "resting_price (-1) t bid ask x (k * t)
      \<longleftrightarrow> max (max (- \<lfloor>- x\<rfloor>) ((ask + t - 1) div t)) (bid div t + 1) \<le> k" for k
    using grid_le [OF assms, of k bid] grid_le [OF assms, of k "ask - 1"] tick_limit(2) [OF assms, of x k]
    by (auto simp: resting_price_def ceiling_def [symmetric] ceiling_le_iff)
  moreover have "\<exists>k. p = k * t" if "resting_price (-1) t bid ask x p" for p
    using that by (auto simp: resting_price_def dvd_def mult.commute)
  ultimately show ?thesis using assms unfolding keenest_price_def by (fastforce intro: mult_right_mono)
qed

text \<open>The quotes are the keenest ones that the reservation price and the half spread allow.\<close>

lemma quotes_for_reservation_keenest:
  assumes run: "quotes_for_reservation self (Some r) (Some h) bid ask inventory = Inr (bq, aq, br, ar)"
    and tick: "1 \<le> bs_tick_size4 self"
  obtains lo hi where "fsub (Some r) (Some h) = Some lo" "fadd (Some r) (Some h) = Some hi"
    "optional (\<lambda>q. keenest_price 1 (bs_tick_size4 self) bid ask lo (qp_price4 q)) bq"
    "optional (\<lambda>q. keenest_price (-1) (bs_tick_size4 self) bid ask hi (qp_price4 q)) aq"
proof -
  let ?t = "bs_tick_size4 self"
  obtain lo hi where fl: "fsub (Some r) (Some h) = Some lo" "fadd (Some r) (Some h) = Some hi"
    and b: "proposal self 1 (min (min \<lfloor>lo\<rfloor> (bid div ?t)) ((ask - 1) div ?t)) inventory = Inr (bq, br)"
    and a: "proposal self (-1) (max (max (- \<lfloor>- hi\<rfloor>) ((ask + ?t - 1) div ?t)) (bid div ?t + 1)) inventory = Inr (aq, ar)"
    using run by (auto simp: quotes_for_reservation_def bindR_eq_Inr Let_def float_floor_def fneg_def
        split: if_splits option.splits)
  show thesis
  proof (rule that [OF fl])
    show "optional (\<lambda>q. keenest_price 1 ?t bid ask lo (qp_price4 q)) bq"
      using proposal_Inr(1) [OF b] keenest_bid [OF tick] by (cases bq) (simp_all add: optional_def)
    show "optional (\<lambda>q. keenest_price (-1) ?t bid ask hi (qp_price4 q)) aq"
      using proposal_Inr(1) [OF a] keenest_ask [OF tick] by (cases aq) (simp_all add: optional_def)
  qed
qed

section \<open>The strategies over a run of quotes\<close>

definition baseline_step :: "baseline_strategy \<times> quote list \<Rightarrow> quote \<Rightarrow> baseline_strategy \<times> quote list" where
  "baseline_step = (\<lambda>(s, accepted) (i, t, b, a). case baseline_observe i t b a s of
     (Inl e, s') \<Rightarrow> (s', accepted) | (Inr x, s') \<Rightarrow> (s', accepted @ [(i, t, b, a)]))"

definition baseline_after :: "baseline_strategy \<Rightarrow> quote list \<Rightarrow> baseline_strategy \<times> quote list" where
  "baseline_after s qs = foldl baseline_step (s, []) qs"

definition signal_step :: "signal_strategy \<times> quote list \<Rightarrow> quote \<Rightarrow> signal_strategy \<times> quote list" where
  "signal_step = (\<lambda>(s, accepted) (i, t, b, a). case signal_observe i t b a s of
     (Inl e, s') \<Rightarrow> (s', accepted) | (Inr x, s') \<Rightarrow> (s', accepted @ [(i, t, b, a)]))"

definition signal_after :: "signal_strategy \<Rightarrow> quote list \<Rightarrow> signal_strategy \<times> quote list" where
  "signal_after s qs = foldl signal_step (s, []) qs"

text \<open>What the constructor fixes, and the estimator's invariant.\<close>

definition baseline_inv :: "strategy_config \<Rightarrow> int \<Rightarrow> baseline_strategy \<Rightarrow> quote list \<Rightarrow> bool" where
  "baseline_inv config tick s qs \<longleftrightarrow> bs_config s = config \<and> bs_tick_size4 s = tick
     \<and> bs_risk s = sc_inventory_limit config \<and> 1 \<le> tick \<and> 1 \<le> sc_volatility_window_ns config
     \<and> volatility_inv (sc_volatility_window_ns config) tick (bs_volatility s) qs"

lemma new_baseline_inv:
  assumes "new_baseline config symbol symbol_id tick start end calibration = Inr s"
  shows "baseline_inv config tick s []"
  using assms new_volatility_inv
  by (auto simp: new_baseline_def baseline_inv_def new_risk_limit_def bindR_eq_Inr split: if_splits)

lemma baseline_step_inv:
  assumes "baseline_inv config tick s accepted" "baseline_step (s, accepted) q = (s', accepted')"
  shows "baseline_inv config tick s' accepted'"
proof -
  obtain i t b a where q: "q = (i, t, b, a)" by (cases q)
  have w: "1 \<le> sc_volatility_window_ns config"
    and inv: "volatility_inv (sc_volatility_window_ns config) tick (bs_volatility s) accepted"
    using assms(1) by (simp_all add: baseline_inv_def)
  show ?thesis
    using assms commit_quote_inv [OF inv w, of i t b a]
    by (auto simp: q baseline_step_def baseline_observe_def on_volatility_def volatility_observe_def commitM_def
        baseline_inv_def fail_code_def split: if_splits sum.splits)
qed

lemma baseline_after_inv:
  assumes "baseline_inv config tick s []" "baseline_after s qs = (s', accepted)"
  shows "baseline_inv config tick s' accepted"
proof -
  have "case foldl baseline_step (s, []) qs of (s', accepted) \<Rightarrow> baseline_inv config tick s' accepted"
  proof (induction qs rule: rev_induct)
    case (snoc q qs)
    then show ?case using baseline_step_inv by (fastforce split: prod.splits)
  qed (simp add: assms(1))
  then show ?thesis using assms(2) by (simp add: baseline_after_def)
qed

lemma signal_step_baseline:
  assumes "signal_step (s, accepted) q = (s', accepted')"
  shows "baseline_step (ss_baseline s, accepted) q = (ss_baseline s', accepted')"
    "ss_config s' = ss_config s" "ss_weight s' = ss_weight s" "ss_predictions s' = ss_predictions s"
  using assms by (cases q; auto simp: signal_step_def baseline_step_def signal_observe_def split: prod.splits sum.splits)+

lemma signal_after_baseline:
  assumes "signal_after s qs = (s', accepted)"
  shows "baseline_after (ss_baseline s) qs = (ss_baseline s', accepted)"
    "ss_config s' = ss_config s" "ss_weight s' = ss_weight s" "ss_predictions s' = ss_predictions s"
proof -
  have "case foldl signal_step (s, []) qs of (s', accepted) \<Rightarrow>
    foldl baseline_step (ss_baseline s, []) qs = (ss_baseline s', accepted)
    \<and> ss_config s' = ss_config s \<and> ss_weight s' = ss_weight s \<and> ss_predictions s' = ss_predictions s"
  proof (induction qs rule: rev_induct)
    case (snoc q qs)
    obtain u acc where r: "foldl signal_step (s, []) qs = (u, acc)" by fastforce
    obtain u' acc' where r': "signal_step (u, acc) q = (u', acc')" by fastforce
    show ?case using snoc signal_step_baseline [OF r'] by (simp add: r r')
  qed simp
  then show "baseline_after (ss_baseline s) qs = (ss_baseline s', accepted)"
    "ss_config s' = ss_config s" "ss_weight s' = ss_weight s" "ss_predictions s' = ss_predictions s"
    using assms by (simp_all add: signal_after_def baseline_after_def)
qed

text \<open>The two shapes of a decision: suppressed, or computed from an estimate.\<close>

lemma baseline_decide_Inr:
  assumes "baseline_decide m d t inventory s = Inr dec"
  shows "\<exists>bid ask mid2. vo_best_bid_price4 (bs_volatility s) = Some bid \<and> vo_best_ask_price4 (bs_volatility s) = Some ask
    \<and> vo_mid2 (bs_volatility s) = Some mid2 \<and> bd_best_bid_price4 dec = bid \<and> bd_best_ask_price4 dec = ask
    \<and> bd_inventory_shares dec = inventory
    \<and> volatility_at d t (bs_volatility s) = Inr (bd_volatility dec)
    \<and> (bd_volatility dec = None \<and> dec = suppressed_decision s d t inventory bid ask mid2
      \<or> (\<exists>r h. bd_volatility dec \<noteq> None \<and> bd_reservation_price_ticks dec = Some (Some r)
          \<and> round_double r = Some r \<and> bd_half_spread_ticks dec = Some h
          \<and> quotes_for_reservation s (Some r) h bid ask inventory
            = Inr (bd_bid dec, bd_ask dec, bd_bid_suppression_reason dec, bd_ask_suppression_reason dec)))"
proof -
  obtain bid ask mid2 where top: "vo_best_bid_price4 (bs_volatility s) = Some bid"
    "vo_best_ask_price4 (bs_volatility s) = Some ask" "vo_mid2 (bs_volatility s) = Some mid2"
    using assms by (auto simp: baseline_decide_def volatility_snapshot_def Let_def split: if_splits option.splits)
  let ?base = "suppressed_decision s d t inventory bid ask mid2"
  obtain vol where vol: "volatility_at d t (bs_volatility s) = Inr vol"
    using assms top by (auto simp: baseline_decide_def volatility_snapshot_def Let_def bindR_eq_Inr split: if_splits)
  show ?thesis
  proof (cases vol)
    case None
    then have "dec = ?base"
      using assms top vol by (simp add: baseline_decide_def volatility_snapshot_def Let_def split: if_splits)
    then show ?thesis using top vol None by (simp add: suppressed_decision_def)
  next
    case (Some estimate)
    let ?risk = "fmul (fmul (sc_gamma (bs_config s)) (ve_sigma_squared estimate)) (bd_tau_seconds ?base)"
    let ?r = "fsub (bd_mid_price_ticks ?base) (fmul (bd_inventory_units ?base) ?risk)"
    let ?h = "fadd (fdiv ?risk (Some 2)) (fdiv (applied (lm_log1p m) (fdiv (sc_gamma (bs_config s)) (bs_kappa s))) (sc_gamma (bs_config s)))"
    obtain bq aq br ar where fin: "is_finite ?r" and q: "quotes_for_reservation s ?r ?h bid ask inventory = Inr (bq, aq, br, ar)"
      and dec: "dec = ?base\<lparr>bd_volatility := vol, bd_reservation_price_ticks := Some ?r,
       bd_half_spread_ticks := Some ?h, bd_bid := bq, bd_ask := aq,
       bd_bid_suppression_reason := br, bd_ask_suppression_reason := ar\<rparr>"
      using assms top vol Some
      by (auto simp: baseline_decide_def volatility_snapshot_def Let_def bindR_eq_Inr split: if_splits)
    obtain r where r: "?r = Some r" using fin by (auto simp: is_finite_def)
    then have "round_double r = Some r"
      by (auto simp: fsub_def float_op_def round_double_idem split: option.splits)
    moreover have "bd_best_bid_price4 ?base = bid" "bd_best_ask_price4 ?base = ask" "bd_inventory_shares ?base = inventory"
      by (simp_all add: suppressed_decision_def)
    ultimately show ?thesis
      using top vol Some q r dec by (intro exI [of _ bid] exI [of _ ask] exI [of _ mid2]) simp
  qed
qed

lemma decided_quotes_passive:
  assumes "optional (passive_quote 1 tick n limit inventory bid ask) (bq :: quote_proposal option)"
    "optional (passive_quote (-1) tick n limit inventory bid ask) aq" "bid \<le> ask" "bq = Some b" "aq = Some a"
  shows "qp_price4 b < qp_price4 a"
  using assms by (auto simp: optional_def passive_quote_def)

section \<open>Properties of the strategies\<close>

text \<open>
  C35: after any run of quotes, refused ones included, the estimator holds exactly the midpoint
  changes of the accepted quotes that are inside the trailing window of the last one, and the
  estimate at a decision is the variance over every change of the accepted history that is inside
  the window ending at the decision; a decision before the last quote is refused.
\<close>

theorem volatility_exact:
  assumes "new_volatility window tick = Inr v0" "observe_quotes v0 qs = (v, accepted)"
  shows "vo_changes v = (if accepted = [] then []
      else changes_after (quote_time (last accepted) - window) (midpoint_changes tick accepted))
    \<and> volatility_at d t v = (
    if accepted = [] then fail_code ERR_EMPTY_DATASET
    else if \<not> valid_int d 0 MAX_UINT64 then fail_code ERR_SIMULATION_ANOMALY
    else if \<not> valid_int t 0 (TRADING_DAY_NS - 1) then fail_code ERR_TIMESTAMP
    else if t < quote_time (last accepted) \<or> t = quote_time (last accepted) \<and> d < fst (last accepted)
    then fail_code ERR_LEAKAGE_GUARD
    else estimate_of_history window (quote_time (hd accepted)) (midpoint_changes tick accepted) d t)"
proof -
  have v0: "volatility_inv window tick v0 []" "1 \<le> window" using new_volatility_inv [OF assms(1)] by simp_all
  note inv = observe_quotes_inv [OF v0 assms(2)]
  show ?thesis
  proof (cases "accepted = []")
    case True
    then show ?thesis using inv by (simp add: volatility_inv_def volatility_at_def)
  next
    case False
    let ?changes = "midpoint_changes tick accepted" and ?last = "quote_time (last accepted)"
    have held: "vo_changes v = changes_after (?last - window) ?changes"
      and order: "\<forall>q \<in> set accepted. fst q \<le> fst (last accepted) \<and> quote_time q \<le> ?last"
      and v: "vo_first_timestamp_ns v = Some (quote_time (hd accepted))" "vo_window_ns v = window"
        "vo_last_message_index v = Some (fst (last accepted))" "vo_last_timestamp_ns v = Some ?last"
      using inv False by (simp_all add: volatility_inv_def)
    have "calculate_estimate window (quote_time (hd accepted)) (vo_changes v) d t
        = estimate_of_history window (quote_time (hd accepted)) ?changes d t"
      if late: "\<not> (t < ?last \<or> t = ?last \<and> d < fst (last accepted))"
    proof -
      have "u < t \<or> u = t \<and> i \<le> d" if "(u, i, s) \<in> set (vo_changes v)" for u i s
        using midpoint_changes_member [of u i s tick accepted] that order late
        by (fastforce simp: held changes_after_def)
      then have "\<forall>(u, i, s) \<in> set (vo_changes v). u < t \<or> u = t \<and> i \<le> d" by blast
      moreover have "quote_time (hd accepted) \<le> t" using bspec [OF order, of "hd accepted"] late False by auto
      ultimately have "calculate_estimate window (quote_time (hd accepted)) (vo_changes v) d t
          = estimate_of_history window (quote_time (hd accepted)) (vo_changes v) d t"
        by (rule calculate_estimate_held) (rule v0(2))
      then show ?thesis using late by (simp add: held estimate_of_history_trimmed)
    qed
    then show ?thesis using False v held by (simp add: volatility_at_def)
  qed
qed

theorem volatility_exact_witness:
  "\<exists>v accepted. observe_quotes \<lparr>vo_window_ns = 10, vo_tick_size4 = 100, vo_first_timestamp_ns = None,
       vo_last_message_index = None, vo_last_timestamp_ns = None, vo_best_bid_price4 = None,
       vo_best_ask_price4 = None, vo_mid2 = None, vo_changes = []\<rparr> [(1, 5, 100, 300), (1, 6, 100, 200)] = (v, accepted)
    \<and> accepted = [(1, 5, 100, 300)] \<and> volatility_at 1 5 v = Inr None"
proof -
  let ?v = "\<lparr>vo_window_ns = 10, vo_tick_size4 = 100, vo_first_timestamp_ns = None,
       vo_last_message_index = None, vo_last_timestamp_ns = None, vo_best_bid_price4 = None,
       vo_best_ask_price4 = None, vo_mid2 = None, vo_changes = []\<rparr>"
  have new: "new_volatility 10 100 = Inr ?v" by code_simp
  obtain v accepted where run: "observe_quotes ?v [(1, 5, 100, 300), (1, 6, 100, 200)] = (v, accepted)" by fastforce
  have "snd (observe_quotes ?v [(1, 5, 100, 300), (1, 6, 100, 200)]) = [(1, 5, 100, 300)]" by code_simp
  then have acc: "accepted = [(1, 5, 100, 300)]" by (simp add: run)
  have "volatility_at 1 5 v = Inr None"
    using volatility_exact [OF new run, of 1 5] acc
    by (simp add: quote_time_def valid_int_def bound_defs TRADING_DAY_NS_def estimate_of_history_def)
  then show ?thesis using run acc by blast
qed

text \<open>A decision is made at the last accepted quote.\<close>

lemma baseline_decision_top:
  assumes "new_baseline config symbol symbol_id tick start end calibration = Inr s0"
    "baseline_after s0 qs = (s, accepted)" "baseline_decide m d t inventory s = Inr dec"
  shows "accepted \<noteq> []" "snd (snd (last accepted)) = (bd_best_bid_price4 dec, bd_best_ask_price4 dec)"
proof -
  have "baseline_inv config tick s accepted"
    using baseline_after_inv [OF new_baseline_inv [OF assms(1)] assms(2)] .
  then have vol: "volatility_inv (sc_volatility_window_ns config) tick (bs_volatility s) accepted"
    by (simp add: baseline_inv_def)
  have quoted: "vo_best_bid_price4 (bs_volatility s) = Some (bd_best_bid_price4 dec)"
      "vo_best_ask_price4 (bs_volatility s) = Some (bd_best_ask_price4 dec)"
    using baseline_decide_Inr [OF assms(3)] by auto
  show "accepted \<noteq> []" using vol quoted(1) by (auto simp: volatility_inv_def)
  then show "snd (snd (last accepted)) = (bd_best_bid_price4 dec, bd_best_ask_price4 dec)"
    using vol quoted by (simp add: volatility_inv_def prod_eq_iff)
qed

lemma baseline_decision_shape:
  assumes "baseline_decide m d t inventory s = Inr dec"
  shows "bd_reservation_price_ticks dec = None \<and> bd_bid dec = None \<and> bd_ask dec = None
    \<or> (\<exists>r h. bd_reservation_price_ticks dec = Some (Some r) \<and> bd_half_spread_ticks dec = Some (Some h))"
proof -
  obtain bid ask mid2 where "dec = suppressed_decision s d t inventory bid ask mid2
      \<or> (\<exists>r h. bd_reservation_price_ticks dec = Some (Some r) \<and> bd_half_spread_ticks dec = Some h
          \<and> quotes_for_reservation s (Some r) h bid ask inventory
            = Inr (bd_bid dec, bd_ask dec, bd_bid_suppression_reason dec, bd_ask_suppression_reason dec))"
    using baseline_decide_Inr [OF assms] by blast
  then show ?thesis
  proof
    assume d: "dec = suppressed_decision s d t inventory bid ask mid2"
    show ?thesis unfolding d by (simp add: suppressed_decision_def)
  next
    assume "\<exists>r h. bd_reservation_price_ticks dec = Some (Some r) \<and> bd_half_spread_ticks dec = Some h
          \<and> quotes_for_reservation s (Some r) h bid ask inventory
            = Inr (bd_bid dec, bd_ask dec, bd_bid_suppression_reason dec, bd_ask_suppression_reason dec)"
    then obtain r h where rh: "bd_reservation_price_ticks dec = Some (Some r)" "bd_half_spread_ticks dec = Some h"
      and q: "quotes_for_reservation s (Some r) h bid ask inventory
            = Inr (bd_bid dec, bd_ask dec, bd_bid_suppression_reason dec, bd_ask_suppression_reason dec)" by blast
    from q have "\<exists>x. h = Some x" by (cases h) (simp_all add: quotes_for_reservation_def is_finite_def fail_code_def)
    then show ?thesis using rh by blast
  qed
qed

text \<open>
  C36: whatever quotes the baseline strategy observed, its decision is made at the last accepted quote
  and every proposal rests passively: on the tick grid, on its own side, in range, of the configured
  size and within the inventory limit when it fills; the two never cross, a side without a
  proposal has a reason, and there is none before a volatility estimate.
\<close>

theorem baseline_quotes_passive:
  assumes "new_baseline config symbol symbol_id tick start end calibration = Inr s0"
    "baseline_after s0 qs = (s, accepted)" "baseline_decide m d t inventory s = Inr dec"
  shows "accepted \<noteq> [] \<and> snd (snd (last accepted)) = (bd_best_bid_price4 dec, bd_best_ask_price4 dec)
    \<and> optional (passive_quote 1 tick (sc_order_quantity config) (sc_inventory_limit config) inventory
        (bd_best_bid_price4 dec) (bd_best_ask_price4 dec)) (bd_bid dec)
    \<and> optional (passive_quote (-1) tick (sc_order_quantity config) (sc_inventory_limit config) inventory
        (bd_best_bid_price4 dec) (bd_best_ask_price4 dec)) (bd_ask dec)
    \<and> optional (\<lambda>b. optional (\<lambda>a. qp_price4 b < qp_price4 a) (bd_ask dec)) (bd_bid dec)
    \<and> (bd_bid dec = None \<longleftrightarrow> bd_bid_suppression_reason dec \<noteq> None)
    \<and> (bd_ask dec = None \<longleftrightarrow> bd_ask_suppression_reason dec \<noteq> None)
    \<and> (bd_volatility dec = None \<longrightarrow> bd_bid dec = None \<and> bd_ask dec = None)"
proof -
  have inv: "baseline_inv config tick s accepted"
    using baseline_after_inv [OF new_baseline_inv [OF assms(1)] assms(2)] .
  then have fields: "bs_config s = config" "bs_tick_size4 s = tick" "bs_risk s = sc_inventory_limit config" "1 \<le> tick"
    and vol: "volatility_inv (sc_volatility_window_ns config) tick (bs_volatility s) accepted"
    by (simp_all add: baseline_inv_def)
  obtain bid ask mid2 where top: "bd_best_bid_price4 dec = bid" "bd_best_ask_price4 dec = ask"
    and shape: "bd_volatility dec = None \<and> dec = suppressed_decision s d t inventory bid ask mid2
      \<or> (\<exists>r h. bd_volatility dec \<noteq> None \<and> quotes_for_reservation s (Some r) h bid ask inventory
            = Inr (bd_bid dec, bd_ask dec, bd_bid_suppression_reason dec, bd_ask_suppression_reason dec))"
    using baseline_decide_Inr [OF assms(3)] by blast
  have ne: "accepted \<noteq> []" and last: "snd (snd (last accepted)) = (bid, ask)"
    using baseline_decision_top [OF assms] top by simp_all
  have mem: "last accepted \<in> set accepted" using ne by simp
  have "\<forall>(i, t, b, a) \<in> set accepted. 0 \<le> b \<and> b \<le> a \<and> a \<le> MAX_UINT32 \<and> 0 < b + a"
    using vol unfolding volatility_inv_def by blast
  from bspec [OF this mem] have le: "bid \<le> ask" using last by (cases "last accepted") simp
  from shape show ?thesis
  proof
    assume "bd_volatility dec = None \<and> dec = suppressed_decision s d t inventory bid ask mid2"
    then show ?thesis using ne last top by (simp add: suppressed_decision_def optional_def)
  next
    assume "\<exists>r h. bd_volatility dec \<noteq> None \<and> quotes_for_reservation s (Some r) h bid ask inventory
            = Inr (bd_bid dec, bd_ask dec, bd_bid_suppression_reason dec, bd_ask_suppression_reason dec)"
    then obtain r h e where est: "bd_volatility dec = Some e" and q: "quotes_for_reservation s (Some r) h bid ask inventory
            = Inr (bd_bid dec, bd_ask dec, bd_bid_suppression_reason dec, bd_ask_suppression_reason dec)" by blast
    have "1 \<le> bs_tick_size4 s" using fields by simp
    note resting = quotes_for_reservation_passive [OF q this, unfolded fields(1-3)]
    have "optional (\<lambda>b. optional (\<lambda>a. qp_price4 b < qp_price4 a) (bd_ask dec)) (bd_bid dec)"
      using decided_quotes_passive [OF resting(1,2) le] by (auto simp: optional_def split: option.split)
    then show ?thesis using ne last top resting est by simp
  qed
qed

definition sample_config :: strategy_config where
  "sample_config = \<lparr>sc_name = BASELINE_NAME, sc_decision_interval_ns = 1, sc_max_prediction_age_ns = 0,
     sc_order_quantity = 10, sc_inventory_limit = 100, sc_gamma = Some 1, sc_volatility_window_ns = 1000000000,
     sc_risk_horizon_seconds = Some 1, sc_signal_weight_ticks = Some (Some 0), sc_max_signal_ticks = Some 1\<rparr>"

definition sample_calibration :: intensity_calibration where
  "sample_calibration = \<lparr>ic_training_dates = [(2020, 1, 2)], ic_pooled_kappa = Some 1, ic_pooled_intercept = Some 0,
     ic_pooled_buckets = [], ic_symbols = [\<lparr>si_symbol = ''A'', si_kappa = Some 1, si_intercept = Some 0,
       si_source = FROM_POOLED, si_buckets = []\<rparr>]\<rparr>"

definition sample_volatility :: volatility_estimator where
  "sample_volatility = \<lparr>vo_window_ns = 1000000000, vo_tick_size4 = 100, vo_first_timestamp_ns = None,
     vo_last_message_index = None, vo_last_timestamp_ns = None, vo_best_bid_price4 = None,
     vo_best_ask_price4 = None, vo_mid2 = None, vo_changes = []\<rparr>"

definition sample_strategy :: baseline_strategy where
  "sample_strategy = \<lparr>bs_config = sample_config, bs_symbol = ''A'', bs_symbol_id = 1, bs_tick_size4 = 100,
     bs_session_start_ns = 0, bs_session_end_ns = 10000000000, bs_kappa = Some 1, bs_kappa_source = FROM_POOLED,
     bs_risk = 100, bs_volatility = sample_volatility\<rparr>"

definition sample_watched :: volatility_estimator where
  "sample_watched = sample_volatility\<lparr>vo_first_timestamp_ns := Some 0, vo_last_message_index := Some 2,
     vo_last_timestamp_ns := Some 1000000000, vo_best_bid_price4 := Some 100, vo_best_ask_price4 := Some 300,
     vo_mid2 := Some 400, vo_changes := [(1000000000, 2, Some 0)]\<rparr>"

definition quote_libm :: libm where
  "quote_libm = \<lparr>lm_log = Some, lm_log1p = Some, lm_sqrt = Some, lm_square = (\<lambda>x. round_double (x * x))\<rparr>"

lemma quote_new:
  "new_baseline sample_config ''A'' 1 100 0 10000000000 sample_calibration = Inr sample_strategy"
  by code_simp

lemma sample_rounding:
  "round_double 1 = Some 1" "round_double 2 = Some 2" "round_double 3 = Some 3"
  "round_double 100 = Some 100" "round_double 200 = Some 200" "round_double 400 = Some 400"
  using round_int [of 1] round_int [of 2] round_int [of 3] round_int [of 100] round_int [of 200] round_int [of 400]
  by simp_all

lemmas sample_float_defs = float_of_int_def int_div_def fadd_def fsub_def fmul_def fdiv_def float_op_def fsum_def
  fmin_def is_finite_def at_most_def valid_number_def sample_rounding

lemma sample_squared: "squared_change 100 400 400 = Some 0"
  by (simp add: squared_change_def sample_float_defs Let_def)

definition sample_estimate :: "int \<Rightarrow> volatility_estimate" where
  "sample_estimate d = \<lparr>ve_decision_message_index = d, ve_timestamp_ns = 1000000000, ve_window_start_ns = 0,
     ve_elapsed_ns = 1000000000, ve_change_count = 1, ve_squared_change_sum_ticks2 = Some 0, ve_sigma_squared = Some 0\<rparr>"

lemma sample_estimated:
  "2 \<le> d \<Longrightarrow> calculate_estimate 1000000000 0 [(1000000000, 2, Some 0)] d 1000000000 = Inr (Some (sample_estimate d))"
  by (simp add: calculate_estimate_def NANOSECONDS_PER_SECOND_def sample_float_defs sample_estimate_def Let_def)

lemma sample_first:
  "commit_quote 1 0 100 300 sample_volatility = Inr (None, sample_volatility\<lparr>vo_first_timestamp_ns := Some 0,
     vo_last_message_index := Some 1, vo_last_timestamp_ns := Some 0, vo_best_bid_price4 := Some 100,
     vo_best_ask_price4 := Some 300, vo_mid2 := Some 400\<rparr>)"
  by code_simp

lemma sample_second:
  "commit_quote 2 1000000000 100 300 (sample_volatility\<lparr>vo_first_timestamp_ns := Some 0,
     vo_last_message_index := Some 1, vo_last_timestamp_ns := Some 0, vo_best_bid_price4 := Some 100,
     vo_best_ask_price4 := Some 300, vo_mid2 := Some 400\<rparr>) = Inr (Some (sample_estimate 2), sample_watched)"
  by (simp add: commit_quote_def validate_quote_values_def valid_int_def bound_defs TRADING_DAY_NS_def sample_watched_def
      sample_volatility_def sample_squared sample_estimated is_finite_def Let_def)

lemma sample_watch:
  "baseline_after sample_strategy [(1, 0, 100, 300), (2, 1000000000, 100, 300)]
     = (sample_strategy\<lparr>bs_volatility := sample_watched\<rparr>, [(1, 0, 100, 300), (2, 1000000000, 100, 300)])"
  by (simp add: baseline_after_def baseline_step_def baseline_observe_def on_volatility_def volatility_observe_def
      commitM_def valid_int_def sample_strategy_def sample_first sample_second)

lemma sample_volatility_at:
  "volatility_at 3 1000000000 sample_watched = Inr (Some (sample_estimate 3))"
  by (simp add: volatility_at_def valid_int_def bound_defs TRADING_DAY_NS_def sample_watched_def sample_volatility_def sample_estimated)

lemma sample_quotes:
  "quotes_for_reservation (sample_strategy\<lparr>bs_volatility := sample_watched\<rparr>) (Some 2) (Some 1) 100 300 0
    = Inr (Some \<lparr>qp_side = 1, qp_price4 = 100, qp_quantity = 10, qp_projected_inventory = 10\<rparr>,
        Some \<lparr>qp_side = -1, qp_price4 = 300, qp_quantity = 10, qp_projected_inventory = -10\<rparr>, None, None)"
  by (simp add: quotes_for_reservation_def float_floor_def fneg_def proposal_def evaluate_quote_def valid_side_def
      sample_strategy_def sample_config_def valid_int_def bound_defs MIN_INT64_def MAX_INT64_def sample_float_defs Let_def)

lemma sample_decided:
  "\<exists>dec. baseline_decide quote_libm 3 1000000000 0 (sample_strategy\<lparr>bs_volatility := sample_watched\<rparr>) = Inr dec
     \<and> bd_bid dec = Some \<lparr>qp_side = 1, qp_price4 = 100, qp_quantity = 10, qp_projected_inventory = 10\<rparr>
     \<and> bd_ask dec = Some \<lparr>qp_side = -1, qp_price4 = 300, qp_quantity = 10, qp_projected_inventory = -10\<rparr>"
proof -
  let ?s = "sample_strategy\<lparr>bs_volatility := sample_watched\<rparr>"
  have fields: "bs_session_start_ns ?s = 0" "bs_session_end_ns ?s = 10000000000" "bs_config ?s = sample_config"
    "bs_tick_size4 ?s = 100" "bs_kappa ?s = Some 1" "bs_volatility ?s = sample_watched"
    by (simp_all add: sample_strategy_def)
  have top: "vo_best_bid_price4 sample_watched = Some 100" "vo_best_ask_price4 sample_watched = Some 300"
    "vo_mid2 sample_watched = Some 400" by (simp_all add: sample_watched_def)
  have sigma: "ve_sigma_squared (sample_estimate 3) = Some 0" by (simp add: sample_estimate_def)
  have tau: "fmin (Some 1) (int_div 9000000000 NANOSECONDS_PER_SECOND) = Some 1"
    using round_int [of 9] by (simp add: int_div_def NANOSECONDS_PER_SECOND_def fmin_def)
  have arith: "fdiv (float_of_int 400) (fmul (Some 2) (float_of_int 100)) = Some 2" "int_div 0 10 = Some 0"
    "fmul (Some 1) (Some 0) = Some 0" "fmul (Some 0) (Some 1) = Some 0" "fmul (Some 0) (Some 0) = Some 0"
    "fsub (Some 2) (Some 0) = Some 2" "fdiv (Some 0) (Some 2) = Some 0" "fdiv (Some 1) (Some 1) = Some 1"
    "fadd (Some 0) (Some 1) = Some 1"
    by (simp_all add: sample_float_defs)
  show ?thesis
    unfolding baseline_decide_def volatility_snapshot_def fields suppressed_decision_def
    using sample_quotes
    by (simp add: top sample_volatility_at valid_int_def sample_config_def sigma tau arith applied_def quote_libm_def
        is_finite_def at_most_def Let_def)
qed

theorem baseline_quotes_passive_witness:
  "\<exists>dec b a. baseline_decide quote_libm 3 1000000000 0 (sample_strategy\<lparr>bs_volatility := sample_watched\<rparr>) = Inr dec
     \<and> bd_bid dec = Some b \<and> bd_ask dec = Some a \<and> passive_quote 1 100 10 100 0 100 300 b
     \<and> passive_quote (-1) 100 10 100 0 100 300 a"
proof -
  obtain dec b a where dec: "baseline_decide quote_libm 3 1000000000 0 (sample_strategy\<lparr>bs_volatility := sample_watched\<rparr>) = Inr dec"
    "bd_bid dec = Some b" "bd_ask dec = Some a"
    using sample_decided by blast
  from baseline_quotes_passive [OF quote_new sample_watch dec(1)]
  show ?thesis using dec by (auto simp: optional_def sample_config_def)
qed

text \<open>What an adjusted decision is made of.\<close>

lemma signal_decide_parts:
  assumes "signal_decide m d t inventory s = (Inr dec, s')" "sc_max_signal_ticks (ss_config s) = Some maximum"
  obtains b u x where "baseline_decide m d t inventory (ss_baseline s) = Inr b" "sd_baseline dec = b"
    "sd_signal_weight_ticks dec = ss_weight s" "sd_prediction dec = None \<longrightarrow> ss_weight s = 0"
    "fmul (Some (ss_weight s)) (Some (case sd_prediction dec of None \<Rightarrow> 0 | Some sel \<Rightarrow> ps_effective_score sel)) = Some u"
    "sd_unclipped_adjustment_ticks dec = Some u" "sd_adjustment_ticks dec = Some x" "x = max (- maximum) (min maximum u)"
    "case (bd_reservation_price_ticks b, bd_half_spread_ticks b) of
       (Some reservation, Some half_spread) \<Rightarrow>
         sd_signal_reservation_price_ticks dec = Some (fadd reservation (Some x))
         \<and> quotes_for_reservation (ss_baseline s) (fadd reservation (Some x)) half_spread (bd_best_bid_price4 b)
             (bd_best_ask_price4 b) inventory
           = Inr (sd_bid dec, sd_ask dec, sd_bid_suppression_reason dec, sd_ask_suppression_reason dec)
     | _ \<Rightarrow> sd_signal_reservation_price_ticks dec = bd_reservation_price_ticks b
         \<and> sd_bid dec = bd_bid b \<and> sd_ask dec = bd_ask b"
proof -
  obtain b where b: "baseline_decide m d t inventory (ss_baseline s) = Inr b"
    using assms(1) by (auto simp: signal_decide_def split: sum.splits)
  have inv: "bd_inventory_shares b = inventory" using baseline_decide_Inr [OF b] by blast
  have "\<exists>sel w. ss_baseline w = ss_baseline s \<and> ss_config w = ss_config s \<and> ss_weight w = ss_weight s
      \<and> (sel = None \<longrightarrow> ss_weight s = 0)
      \<and> adjusted_decision b sel (case sel of None \<Rightarrow> 0 | Some p \<Rightarrow> ps_effective_score p) w = Inr dec"
  proof (cases "ss_weight s = 0")
    case True
    then have "adjusted_decision b None 0 s = Inr dec" using assms(1) b by (auto simp: signal_decide_def)
    then show ?thesis using True by (intro exI [of _ None] exI [of _ s]) simp
  next
    case False
    then obtain sel join where "adjusted_decision b (Some sel) (ps_effective_score sel) (s\<lparr>ss_predictions := join\<rparr>) = Inr dec"
      using assms(1) b
      by (auto simp: signal_decide_def joined_result_def split: prod.splits sum.splits prediction_error.splits)
    then show ?thesis by (intro exI [of _ "Some sel"] exI [of _ "s\<lparr>ss_predictions := join\<rparr>"]) simp
  qed
  then obtain sel w where w: "ss_baseline w = ss_baseline s" "ss_config w = ss_config s" "ss_weight w = ss_weight s"
    and zero: "sel = None \<longrightarrow> ss_weight s = 0"
    and adj: "adjusted_decision b sel (case sel of None \<Rightarrow> 0 | Some p \<Rightarrow> ps_effective_score p) w = Inr dec" by blast
  let ?score = "case sel of None \<Rightarrow> 0 | Some p \<Rightarrow> ps_effective_score p"
  obtain u where u: "fmul (Some (ss_weight s)) (Some ?score) = Some u"
    using adj w by (auto simp: adjusted_decision_def Let_def is_finite_def split: if_splits)
  have x: "fmax (fneg (Some maximum)) (fmin (Some maximum) (Some u)) = Some (max (- maximum) (min maximum u))"
    by (simp add: fmax_def fmin_def fneg_def)
  note parts = adj [unfolded adjusted_decision_def Let_def w assms(2) u x]
  have sel: "sd_prediction dec = sel" using parts by (auto simp: bindR_eq_Inr split: if_splits option.splits)
  show thesis
    by (rule that [OF b, of u "max (- maximum) (min maximum u)"])
      (use parts zero u inv in \<open>auto simp: sel bindR_eq_Inr is_finite_def split: if_splits option.splits\<close>)
qed

text \<open>
  C37: the signal-adjusted strategy shifts the baseline's reservation price by its weight times the
  selected score, clipped to the configured bound, and by nothing else; its quotes are the keenest
  on the grid that the shifted price and the baseline's half spread allow on their own side of the
  book, and they rest passively like the baseline's. Without a reservation price it does not quote.
\<close>

theorem signal_quotes_passive:
  assumes "new_signal_strategy config symbol symbol_id tick day start end calibration experiment model predictions = Inr s0"
    "signal_after s0 qs = (s, accepted)" "signal_decide m d t inventory s = (Inr dec, s')"
  shows "let bid = bd_best_bid_price4 (sd_baseline dec); ask = bd_best_ask_price4 (sd_baseline dec) in
    baseline_decide m d t inventory (ss_baseline s) = Inr (sd_baseline dec)
    \<and> snd (snd (last accepted)) = (bid, ask)
    \<and> (\<exists>maximum weight u x. sc_max_signal_ticks config = Some maximum \<and> sc_signal_weight_ticks config = Some (Some weight)
        \<and> fmul (Some weight) (Some (case sd_prediction dec of None \<Rightarrow> 0 | Some sel \<Rightarrow> ps_effective_score sel)) = Some u
        \<and> (sd_prediction dec = None \<longrightarrow> weight = 0)
        \<and> sd_adjustment_ticks dec = Some x \<and> x = max (- maximum) (min maximum u) \<and> \<bar>x\<bar> \<le> maximum
        \<and> (if bd_reservation_price_ticks (sd_baseline dec) = None
           then sd_signal_reservation_price_ticks dec = None \<and> sd_bid dec = None \<and> sd_ask dec = None
           else \<exists>r h shifted lo hi. bd_reservation_price_ticks (sd_baseline dec) = Some (Some r)
                \<and> bd_half_spread_ticks (sd_baseline dec) = Some (Some h)
                \<and> sd_signal_reservation_price_ticks dec = Some (Some shifted) \<and> round_double (r + x) = Some shifted
                \<and> round_double (shifted - h) = Some lo \<and> round_double (shifted + h) = Some hi
                \<and> optional (\<lambda>q. keenest_price 1 tick bid ask lo (qp_price4 q)) (sd_bid dec)
                \<and> optional (\<lambda>q. keenest_price (-1) tick bid ask hi (qp_price4 q)) (sd_ask dec)))
    \<and> optional (passive_quote 1 tick (sc_order_quantity config) (sc_inventory_limit config) inventory bid ask) (sd_bid dec)
    \<and> optional (passive_quote (-1) tick (sc_order_quantity config) (sc_inventory_limit config) inventory bid ask) (sd_ask dec)"
proof -
  let ?config = "config\<lparr>sc_name := BASELINE_NAME, sc_signal_weight_ticks := Some (Some 0)\<rparr>"
  obtain maximum where max: "sc_max_signal_ticks config = Some maximum" "0 \<le> maximum" and cfg: "ss_config s0 = config"
    and weight: "sc_signal_weight_ticks config = Some (Some (ss_weight s0))"
    and base: "new_baseline ?config symbol symbol_id tick start end calibration = Inr (ss_baseline s0)"
    using assms(1)
    by (auto simp: new_signal_strategy_def signal_weight_def bindR_eq_Inr valid_number_def split: if_splits option.splits)
  note after = signal_after_baseline [OF assms(2)]
  have max': "sc_max_signal_ticks (ss_config s) = Some maximum" using after(2) cfg max(1) by simp
  obtain b u x where b: "baseline_decide m d t inventory (ss_baseline s) = Inr b" "sd_baseline dec = b"
    and score: "sd_prediction dec = None \<longrightarrow> ss_weight s = 0"
      "fmul (Some (ss_weight s)) (Some (case sd_prediction dec of None \<Rightarrow> 0 | Some sel \<Rightarrow> ps_effective_score sel)) = Some u"
      "sd_adjustment_ticks dec = Some x" "x = max (- maximum) (min maximum u)"
    and quotes: "case (bd_reservation_price_ticks b, bd_half_spread_ticks b) of
       (Some reservation, Some half_spread) \<Rightarrow>
         sd_signal_reservation_price_ticks dec = Some (fadd reservation (Some x))
         \<and> quotes_for_reservation (ss_baseline s) (fadd reservation (Some x)) half_spread (bd_best_bid_price4 b)
             (bd_best_ask_price4 b) inventory
           = Inr (sd_bid dec, sd_ask dec, sd_bid_suppression_reason dec, sd_ask_suppression_reason dec)
     | _ \<Rightarrow> sd_signal_reservation_price_ticks dec = bd_reservation_price_ticks b
         \<and> sd_bid dec = bd_bid b \<and> sd_ask dec = bd_ask b"
    by (rule signal_decide_parts [OF assms(3) max'])
  note at_last = baseline_decision_top(2) [OF base after(1) b(1)]
  have tick: "bs_config (ss_baseline s) = ?config" "bs_tick_size4 (ss_baseline s) = tick"
    "bs_risk (ss_baseline s) = sc_inventory_limit config" "1 \<le> bs_tick_size4 (ss_baseline s)"
    using baseline_after_inv [OF new_baseline_inv [OF base] after(1)] by (simp_all add: baseline_inv_def)
  let ?bid = "bd_best_bid_price4 b" and ?ask = "bd_best_ask_price4 b"
  let ?passive = "\<lambda>side. optional (passive_quote side tick (sc_order_quantity config) (sc_inventory_limit config) inventory ?bid ?ask)"
  have quoting: "(if bd_reservation_price_ticks b = None
           then sd_signal_reservation_price_ticks dec = None \<and> sd_bid dec = None \<and> sd_ask dec = None
           else \<exists>r h shifted lo hi. bd_reservation_price_ticks b = Some (Some r)
                \<and> bd_half_spread_ticks b = Some (Some h)
                \<and> sd_signal_reservation_price_ticks dec = Some (Some shifted) \<and> round_double (r + x) = Some shifted
                \<and> round_double (shifted - h) = Some lo \<and> round_double (shifted + h) = Some hi
                \<and> optional (\<lambda>q. keenest_price 1 tick ?bid ?ask lo (qp_price4 q)) (sd_bid dec)
                \<and> optional (\<lambda>q. keenest_price (-1) tick ?bid ?ask hi (qp_price4 q)) (sd_ask dec))
      \<and> ?passive 1 (sd_bid dec) \<and> ?passive (-1) (sd_ask dec)"
    using baseline_decision_shape [OF b(1)]
  proof
    assume "bd_reservation_price_ticks b = None \<and> bd_bid b = None \<and> bd_ask b = None"
    then show ?thesis using quotes by (simp add: optional_def)
  next
    assume "\<exists>r h. bd_reservation_price_ticks b = Some (Some r) \<and> bd_half_spread_ticks b = Some (Some h)"
    then obtain r h where rh: "bd_reservation_price_ticks b = Some (Some r)" "bd_half_spread_ticks b = Some (Some h)" by blast
    then have q: "quotes_for_reservation (ss_baseline s) (fadd (Some r) (Some x)) (Some h) ?bid ?ask inventory
        = Inr (sd_bid dec, sd_ask dec, sd_bid_suppression_reason dec, sd_ask_suppression_reason dec)"
      and sr: "sd_signal_reservation_price_ticks dec = Some (fadd (Some r) (Some x))" using quotes by simp_all
    then obtain shifted where sh: "fadd (Some r) (Some x) = Some shifted"
      by (auto simp: quotes_for_reservation_def is_finite_def split: if_splits)
    note q' = q [unfolded sh]
    obtain lo hi where "fsub (Some shifted) (Some h) = Some lo" "fadd (Some shifted) (Some h) = Some hi"
      "optional (\<lambda>q. keenest_price 1 tick ?bid ?ask lo (qp_price4 q)) (sd_bid dec)"
      "optional (\<lambda>q. keenest_price (-1) tick ?bid ?ask hi (qp_price4 q)) (sd_ask dec)"
      by (rule quotes_for_reservation_keenest [OF q' tick(4), unfolded tick(2)])
    moreover have "?passive 1 (sd_bid dec)" "?passive (-1) (sd_ask dec)"
      using quotes_for_reservation_passive(1,2) [OF q' tick(4)] by (simp_all add: tick(1-3))
    ultimately show ?thesis using rh sr sh by (simp add: fadd_def fsub_def float_op_def)
  qed
  have "\<bar>x\<bar> \<le> maximum" using score(4) max(2) by linarith
  then show ?thesis
    using at_last quoting max(1) weight b(1) score(1-3) [unfolded after(3)] score(4)
    unfolding Let_def b(2) by (intro conjI exI [of _ maximum] exI [of _ "ss_weight s0"] exI [of _ u] exI [of _ x]) argo+
qed

text \<open>With weight zero the adjustment of a baseline decision is the decision itself.\<close>

lemma zero_weight_adjusted:
  assumes b: "baseline_decide m d t inventory (ss_baseline s) = Inr b" and w: "ss_weight s = 0"
    and max: "sc_max_signal_ticks (ss_config s) = Some maximum" "0 \<le> maximum"
  shows "adjusted_decision b None 0 s = Inr \<lparr>sd_baseline = b, sd_prediction = None, sd_signal_weight_ticks = 0,
        sd_unclipped_adjustment_ticks = Some 0, sd_adjustment_ticks = Some 0,
        sd_signal_reservation_price_ticks = bd_reservation_price_ticks b, sd_bid = bd_bid b, sd_ask = bd_ask b,
        sd_bid_suppression_reason = bd_bid_suppression_reason b,
        sd_ask_suppression_reason = bd_ask_suppression_reason b\<rparr>"
proof -
  have zero: "fmul (Some 0) (Some 0) = Some 0" by (simp add: fmul_def float_op_def)
  have adj: "fmax (fneg (Some maximum)) (fmin (Some maximum) (Some 0)) = Some 0"
    using max(2) by (simp add: fmax_def fmin_def fneg_def)
  obtain bid ask mid2 where shape: "bd_volatility b = None \<and> b = suppressed_decision (ss_baseline s) d t inventory bid ask mid2
    \<or> (\<exists>r h. bd_reservation_price_ticks b = Some (Some r) \<and> round_double r = Some r \<and> bd_half_spread_ticks b = Some h
        \<and> quotes_for_reservation (ss_baseline s) (Some r) h bid ask inventory
          = Inr (bd_bid b, bd_ask b, bd_bid_suppression_reason b, bd_ask_suppression_reason b))"
    and top: "bd_best_bid_price4 b = bid" "bd_best_ask_price4 b = ask" "bd_inventory_shares b = inventory"
    using baseline_decide_Inr [OF b] by blast
  from shape show ?thesis
  proof
    assume "bd_volatility b = None \<and> b = suppressed_decision (ss_baseline s) d t inventory bid ask mid2"
    then show ?thesis
      using w max(1)
      by (simp add: adjusted_decision_def Let_def zero adj is_finite_def suppressed_decision_def)
  next
    assume "\<exists>r h. bd_reservation_price_ticks b = Some (Some r) \<and> round_double r = Some r \<and> bd_half_spread_ticks b = Some h
        \<and> quotes_for_reservation (ss_baseline s) (Some r) h bid ask inventory
          = Inr (bd_bid b, bd_ask b, bd_bid_suppression_reason b, bd_ask_suppression_reason b)"
    then obtain r h where r: "bd_reservation_price_ticks b = Some (Some r)" "round_double r = Some r"
      "bd_half_spread_ticks b = Some h" "quotes_for_reservation (ss_baseline s) (Some r) h bid ask inventory
          = Inr (bd_bid b, bd_ask b, bd_bid_suppression_reason b, bd_ask_suppression_reason b)" by blast
    have "fadd (Some r) (Some 0) = Some r" using r(2) by (simp add: fadd_def float_op_def)
    then show ?thesis
      using w max(1) r top
      by (simp add: adjusted_decision_def Let_def zero adj is_finite_def)
  qed
qed

definition sample_signal_config :: strategy_config where
  "sample_signal_config = sample_config\<lparr>sc_name := SIGNAL_NAME\<rparr>"

definition sample_signal :: signal_strategy where
  "sample_signal = \<lparr>ss_baseline = sample_strategy, ss_config = sample_signal_config, ss_weight = 0,
     ss_predictions = \<lparr>cj_source = [], cj_buffer = [], cj_experiment_id = ''e'', cj_trading_date = (2020, 1, 2),
       cj_symbol_id = 1, cj_model_name = ''prior'', cj_max_prediction_age_ns = 0, cj_latest = None,
       cj_last_decision_message_index = None, cj_last_decision_timestamp_ns = None, cj_diagnostics = []\<rparr>\<rparr>"

lemma sample_new_signal:
  "new_signal_strategy sample_signal_config ''A'' 1 100 (2020, 1, 2) 0 10000000000 sample_calibration ''e'' ''prior'' []
    = Inr sample_signal"
  by code_simp

lemma sample_signal_watch:
  "signal_after sample_signal [(1, 0, 100, 300), (2, 1000000000, 100, 300)]
     = (sample_signal\<lparr>ss_baseline := sample_strategy\<lparr>bs_volatility := sample_watched\<rparr>\<rparr>,
        [(1, 0, 100, 300), (2, 1000000000, 100, 300)])"
  by (simp add: signal_after_def signal_step_def signal_observe_def baseline_observe_def on_volatility_def
      volatility_observe_def commitM_def valid_int_def sample_signal_def sample_strategy_def sample_first sample_second)

lemma sample_signal_decided:
  "\<exists>dec s' bq. signal_decide quote_libm 3 1000000000 0
      (sample_signal\<lparr>ss_baseline := sample_strategy\<lparr>bs_volatility := sample_watched\<rparr>\<rparr>) = (Inr dec, s')
      \<and> sd_bid dec = Some bq"
proof -
  let ?b = "sample_strategy\<lparr>bs_volatility := sample_watched\<rparr>"
  obtain b where b: "baseline_decide quote_libm 3 1000000000 0 ?b = Inr b" "bd_bid b \<noteq> None" using sample_decided by blast
  let ?w = "sample_signal\<lparr>ss_baseline := ?b\<rparr>"
  have w: "ss_baseline ?w = ?b" "ss_weight ?w = 0" "sc_max_signal_ticks (ss_config ?w) = Some 1"
    by (simp_all add: sample_signal_def sample_signal_config_def sample_config_def)
  have "baseline_decide quote_libm 3 1000000000 0 (ss_baseline ?w) = Inr b" using b(1) w(1) by simp
  from zero_weight_adjusted [OF this w(2,3)] show ?thesis
    using b by (auto simp: signal_decide_def w)
qed

theorem signal_quotes_passive_witness:
  "\<exists>dec s' bq. signal_decide quote_libm 3 1000000000 0
      (sample_signal\<lparr>ss_baseline := sample_strategy\<lparr>bs_volatility := sample_watched\<rparr>\<rparr>) = (Inr dec, s')
    \<and> sd_adjustment_ticks dec = Some 0 \<and> sd_bid dec = Some bq \<and> passive_quote 1 100 10 100 0 100 300 bq
    \<and> (\<exists>lo. keenest_price 1 100 100 300 lo (qp_price4 bq))"
proof -
  obtain dec s' bq where dec: "signal_decide quote_libm 3 1000000000 0
      (sample_signal\<lparr>ss_baseline := sample_strategy\<lparr>bs_volatility := sample_watched\<rparr>\<rparr>) = (Inr dec, s')"
    and bq: "sd_bid dec = Some bq"
    using sample_signal_decided by blast
  note claim = signal_quotes_passive [OF sample_new_signal sample_signal_watch dec, unfolded Let_def]
  have config: "sc_max_signal_ticks sample_signal_config = Some 1" "sc_signal_weight_ticks sample_signal_config = Some (Some 0)"
    "sc_order_quantity sample_signal_config = 10" "sc_inventory_limit sample_signal_config = 100"
    by (simp_all add: sample_signal_config_def sample_config_def)
  have top: "bd_best_bid_price4 (sd_baseline dec) = 100" "bd_best_ask_price4 (sd_baseline dec) = 300"
    using claim by simp_all
  obtain u x where x: "fmul (Some 0) (Some (case sd_prediction dec of None \<Rightarrow> 0 | Some sel \<Rightarrow> ps_effective_score sel)) = Some u"
      "sd_adjustment_ticks dec = Some x" "x = max (- 1) (min 1 u)"
    using claim by (auto simp: config)
  have "x = 0" using x(1,3) by (simp add: fmul_def float_op_def)
  moreover have "\<exists>lo. keenest_price 1 100 100 300 lo (qp_price4 bq)"
    using claim bq by (auto simp: top optional_def split: if_splits)
  moreover have "passive_quote 1 100 10 100 0 100 300 bq" using claim bq by (simp add: top config optional_def)
  ultimately show ?thesis using dec bq x(2) by blast
qed

text \<open>
  With weight zero the signal-adjusted strategy is the baseline: its decision fails exactly when
  the baseline's does, with the same error, leaves the strategy as it was, and otherwise carries
  the baseline's quotes and reservation price unchanged, down to the last bit.
\<close>

theorem zero_weight_is_baseline:
  assumes "new_signal_strategy config symbol symbol_id tick day start end calibration experiment model predictions = Inr s0"
    "sc_signal_weight_ticks config = Some (Some 0)" "signal_after s0 qs = (s, accepted)"
  shows "signal_decide m d t inventory s = (case baseline_decide m d t inventory (ss_baseline s) of
      Inl e \<Rightarrow> Inl e
    | Inr b \<Rightarrow> Inr \<lparr>sd_baseline = b, sd_prediction = None, sd_signal_weight_ticks = 0,
        sd_unclipped_adjustment_ticks = Some 0, sd_adjustment_ticks = Some 0,
        sd_signal_reservation_price_ticks = bd_reservation_price_ticks b, sd_bid = bd_bid b, sd_ask = bd_ask b,
        sd_bid_suppression_reason = bd_bid_suppression_reason b,
        sd_ask_suppression_reason = bd_ask_suppression_reason b\<rparr>, s)
    \<and> baseline_after (ss_baseline s0) qs = (ss_baseline s, accepted)"
proof -
  obtain maximum where max: "sc_max_signal_ticks config = Some maximum" "0 \<le> maximum" and cfg: "ss_config s0 = config"
    and w: "ss_weight s0 = 0"
    using assms(1,2)
    by (auto simp: new_signal_strategy_def signal_weight_def bindR_eq_Inr valid_number_def split: if_splits option.splits)
  note after = signal_after_baseline [OF assms(3)]
  have "sc_max_signal_ticks (ss_config s) = Some maximum" "ss_weight s = 0" using after cfg w max(1) by auto
  then show ?thesis using after zero_weight_adjusted [OF _ _ _ max(2)]
    by (auto simp: signal_decide_def split: sum.split)
qed

theorem zero_weight_is_baseline_witness:
  "\<exists>b d. baseline_decide quote_libm 3 1000000000 0 (sample_strategy\<lparr>bs_volatility := sample_watched\<rparr>) = Inr b
    \<and> signal_decide quote_libm 3 1000000000 0
        (sample_signal\<lparr>ss_baseline := sample_strategy\<lparr>bs_volatility := sample_watched\<rparr>\<rparr>)
      = (Inr d, sample_signal\<lparr>ss_baseline := sample_strategy\<lparr>bs_volatility := sample_watched\<rparr>\<rparr>)
    \<and> sd_bid d = bd_bid b \<and> sd_bid d \<noteq> None"
proof -
  have "sc_signal_weight_ticks sample_signal_config = Some (Some 0)"
    by (simp add: sample_signal_config_def sample_config_def)
  from zero_weight_is_baseline [OF sample_new_signal this sample_signal_watch, of quote_libm 3 1000000000 0]
  show ?thesis using sample_decided by auto
qed

end
