(* ===== verification/Runner.thy ===== *)
theory Runner
  imports Queue_Model Settlement Metrics Signal_Quoting Dataset_Rows
begin

text \<open>
  \<open>simulation/runner.py\<close> and the values of \<open>simulation/models.py\<close>: one strategy and scenario run over
  ordered days. Each day has a fresh state machine, queue model, ledger and strategies; every event
  goes to the queue model first, then its quote marks the ledger and the strategy, its fills are
  accounted, a due strategy decides and its quotes replace the resting orders.

  A run that raises returns nothing of its objects, so its steps are results over one record of the
  day's local variables. A cell that holds a price is \<open>None\<close> or an integer in the schema of the
  snapshots; any other value is a \<open>TypeError\<close> here, where Python's error depends on the value.
\<close>

section \<open>Values\<close>

definition REQUIRED_LATENCIES_NS :: "int list" where "REQUIRED_LATENCIES_NS = [0, 100000, 1000000]"
definition REQUIRED_MAKER_FEES_MICROUSD_PER_SHARE :: "int list" where
  "REQUIRED_MAKER_FEES_MICROUSD_PER_SHARE = [-2000, 3000]"
definition REQUIRED_TAKER_FEE_MICROUSD_PER_SHARE :: int where "REQUIRED_TAKER_FEE_MICROUSD_PER_SHARE = 3000"

record execution_scenario =
  xs_scenario_id :: string
  xs_submission_latency_ns :: int
  xs_cancellation_latency_ns :: int
  xs_maker_fee :: int
  xs_taker_fee :: int

record simulation_symbol =
  ys_symbol :: string
  ys_symbol_id :: int
  ys_tick_size4 :: int

record simulation_day_input =
  dy_trading_date :: "int \<times> int \<times> int"
  dy_session_start_ns :: int
  dy_session_end_ns :: int
  dy_symbols :: "simulation_symbol list"
  dy_events :: "pyval row list"
  dy_snapshots :: "pyval row list"
  dy_predictions :: "prediction_row list"

definition decimal_int :: "int \<Rightarrow> string" where
  "decimal_int i = (if i < 0 then ''-'' @ decimal (nat (- i)) else decimal (nat i))"

definition required_scenarios :: "execution_scenario list" where
  "required_scenarios = concat (map (\<lambda>latency. map (\<lambda>maker_fee.
     \<lparr>xs_scenario_id = ''latency-'' @ decimal_int latency @ ''-maker-'' @ decimal_int maker_fee,
      xs_submission_latency_ns = latency, xs_cancellation_latency_ns = latency,
      xs_maker_fee = maker_fee, xs_taker_fee = REQUIRED_TAKER_FEE_MICROUSD_PER_SHARE\<rparr>)
     REQUIRED_MAKER_FEES_MICROUSD_PER_SHARE) REQUIRED_LATENCIES_NS)"

definition MARKOUT_HORIZON_NS :: int where "MARKOUT_HORIZON_NS = 100000000"

text \<open>The rows of a result; the first three columns of each say which run and day it is from.\<close>

record run_key =
  rk_scenario_id :: string
  rk_strategy_name :: string
  rk_trading_date :: "int \<times> int \<times> int"

record fill_row =
  fr_key :: run_key
  fr_fill_id :: int
  fr_simulated_order_id :: int
  fr_market_message_index :: int
  fr_timestamp_ns :: int
  fr_symbol_id :: int
  fr_side :: int
  fr_price4 :: int
  fr_quantity :: int
  fr_fee_microusd :: int
  fr_cash_delta_microusd :: int
  fr_inventory_after :: int
  fr_fill_mid2 :: int
  fr_future_mid2 :: "int option"
  fr_adverse_selection_100ms :: "int option"

record equity_row =
  eq_key :: run_key
  eq_message_index :: "int option"
  eq_timestamp_ns :: int
  eq_marked_pnl :: int
  eq_cash :: int
  eq_marked_inventory_value :: int

record diagnostic_row =
  dg_key :: run_key
  dg_code :: "queue_diagnostic_code + prediction_diagnostic_code"
  dg_message_index :: int
  dg_symbol_id :: int
  dg_simulated_order_id :: "int option"
  dg_reason :: "diagnostic_reason + string"

section \<open>Strategies of either kind\<close>

datatype strategy = Baseline baseline_strategy | Signal signal_strategy
datatype decision = Baseline_decision baseline_decision | Signal_decision signal_adjusted_decision

text \<open>A call of a method from code that does not catch what it raises.\<close>

definition calling :: "('s, 'a) smethod \<Rightarrow> 's \<Rightarrow> ('a \<times> 's) result" where
  "calling f s = (case f s of (Inl e, _) \<Rightarrow> Inl e | (Inr x, s') \<Rightarrow> Inr (x, s'))"

definition strategy_observe :: "int \<Rightarrow> int \<Rightarrow> int \<Rightarrow> int \<Rightarrow> strategy \<Rightarrow> strategy result" where
  "strategy_observe msg_index timestamp_ns bid ask strategy = (case strategy of
       Baseline b \<Rightarrow> bindR (calling (baseline_observe msg_index timestamp_ns bid ask) b) (\<lambda>(_, b'). Inr (Baseline b'))
     | Signal s \<Rightarrow> bindR (calling (signal_observe msg_index timestamp_ns bid ask) s) (\<lambda>(_, s'). Inr (Signal s')))"

definition strategy_decide :: "libm \<Rightarrow> int \<Rightarrow> int \<Rightarrow> int \<Rightarrow> strategy \<Rightarrow> (decision \<times> strategy) result" where
  "strategy_decide m msg_index timestamp_ns inventory strategy = (case strategy of
       Baseline b \<Rightarrow> bindR (baseline_decide m msg_index timestamp_ns inventory b) (\<lambda>d.
         Inr (Baseline_decision d, Baseline b))
     | Signal s \<Rightarrow> bindR (calling (signal_decide m msg_index timestamp_ns inventory) s) (\<lambda>(d, s').
         Inr (Signal_decision d, Signal s')))"

definition prediction_index :: "decision \<Rightarrow> int option" where
  "prediction_index d = (case d of
       Baseline_decision _ \<Rightarrow> None
     | Signal_decision s \<Rightarrow> map_option pk_message_index (Option.bind (sd_prediction s) ps_key))"

definition quotes_of :: "decision \<Rightarrow> quote_proposal option \<times> quote_proposal option" where
  "quotes_of d = (case d of
       Baseline_decision b \<Rightarrow> (bd_bid b, bd_ask b)
     | Signal_decision s \<Rightarrow> (sd_bid s, sd_ask s))"

definition decision_symbol_id :: "decision \<Rightarrow> int" where
  "decision_symbol_id d = (case d of
       Baseline_decision b \<Rightarrow> bd_symbol_id b | Signal_decision s \<Rightarrow> bd_symbol_id (sd_baseline s))"

definition new_strategy ::
  "strategy_config \<Rightarrow> intensity_calibration \<Rightarrow> string \<Rightarrow> pyfloat \<Rightarrow> string option \<Rightarrow> string
     \<Rightarrow> simulation_day_input \<Rightarrow> simulation_symbol \<Rightarrow> strategy result" where
  "new_strategy config calibration strategy_name weight experiment_id model_name day symbol = (
     let selected = config\<lparr>sc_name := strategy_name, sc_signal_weight_ticks := Some weight\<rparr> in
     if strategy_name = BASELINE_NAME
     then bindR (new_baseline selected (ys_symbol symbol) (ys_symbol_id symbol) (ys_tick_size4 symbol)
            (dy_session_start_ns day) (dy_session_end_ns day) calibration) (\<lambda>b. Inr (Baseline b))
     else bindR (new_signal_strategy selected (ys_symbol symbol) (ys_symbol_id symbol) (ys_tick_size4 symbol)
            (dy_trading_date day) (dy_session_start_ns day) (dy_session_end_ns day) calibration
            (case experiment_id of None \<Rightarrow> [] | Some e \<Rightarrow> e) model_name
            (map Item_row (filter (\<lambda>p. as_int (pr_symbol_id p) = Some (ys_symbol_id symbol)) (dy_predictions day))))
          (\<lambda>s. Inr (Signal s)))"

section \<open>Refreshing quotes\<close>

definition quote_request :: "decision \<Rightarrow> int \<Rightarrow> int \<Rightarrow> int \<Rightarrow> int \<Rightarrow> quote_proposal \<Rightarrow> order_request" where
  "quote_request d timestamp_ns msg_index next_order_id side p = \<lparr>
     rq_simulated_order_id = next_order_id, rq_decision_message_index = msg_index,
     rq_prediction_message_index = prediction_index d, rq_requested_timestamp_ns = timestamp_ns,
     rq_symbol_id = decision_symbol_id d, rq_side = side, rq_price4 = qp_price4 p, rq_quantity = qp_quantity p\<rparr>"

definition refresh_side ::
  "decision \<Rightarrow> int \<Rightarrow> int \<Rightarrow> int \<times> order_state_machine \<Rightarrow> int \<times> quote_proposal option
     \<Rightarrow> (int \<times> order_state_machine) result" where
  "refresh_side d timestamp_ns msg_index = (\<lambda>(next_order_id, state) (side, proposal).
     bindR (occupied_order state (decision_symbol_id d) side) (\<lambda>current.
     case current of
       Some order \<Rightarrow>
         if Some (so_price4 order) \<noteq> map_option qp_price4 proposal \<and> so_cancel_requested_ns order = None
         then bindR (calling (request_cancel (so_simulated_order_id order) timestamp_ns msg_index) state)
           (\<lambda>(_, state'). Inr (next_order_id, state'))
         else Inr (next_order_id, state)
     | None \<Rightarrow> (case proposal of
         None \<Rightarrow> Inr (next_order_id, state)
       | Some p \<Rightarrow>
         bindR (calling (submit (quote_request d timestamp_ns msg_index next_order_id side p)) state)
           (\<lambda>(_, state'). Inr (next_order_id + 1, state')))))"

definition refresh_quotes ::
  "decision \<Rightarrow> int \<Rightarrow> int \<Rightarrow> int \<Rightarrow> order_state_machine \<Rightarrow> (int \<times> order_state_machine) result" where
  "refresh_quotes d timestamp_ns msg_index next_order_id state =
     (case quotes_of d of (bid, ask) \<Rightarrow>
        foldR (refresh_side d timestamp_ns msg_index) (next_order_id, state) [(1, bid), (-1, ask)])"

section \<open>One day\<close>

record day_context =
  dc_libm :: libm
  dc_scenario :: execution_scenario
  dc_strategy_name :: string
  dc_decision_interval_ns :: int
  dc_day :: simulation_day_input
  dc_snapshots :: "(pyval \<times> pyval, pyval row) dict"

record day_state =
  ds_queue :: queue_state
  ds_ledger :: accounting_ledger
  ds_strategies :: "(int, strategy) dict"
  ds_next_decision :: "(int, int) dict"
  ds_fills :: "fill_row list"
  ds_equity :: "equity_row list"
  ds_last_quotes :: "(int, terminal_quote) dict"
  ds_quote_timeline :: "(int, (int \<times> int) list) dict"
  ds_next_order_id :: int
  ds_next_fill_id :: int

definition day_key :: "day_context \<Rightarrow> run_key" where
  "day_key dc = \<lparr>rk_scenario_id = xs_scenario_id (dc_scenario dc), rk_strategy_name = dc_strategy_name dc,
     rk_trading_date = dy_trading_date (dc_day dc)\<rparr>"

text \<open>A key of a dictionary: \<open>True\<close> is \<open>1\<close>, and an event kind is its string.\<close>

definition key_value :: "pyval \<Rightarrow> pyval" where
  "key_value v = (case v of PyBool b \<Rightarrow> PyInt (if b then 1 else 0) | PyKind k \<Rightarrow> PyStr (event_kind_value k) | _ \<Rightarrow> v)"

definition snapshot_key :: "pyval row \<Rightarrow> pyval \<times> pyval" where
  "snapshot_key row = (key_value (row_get row ''symbol_id''), key_value (row_get row ''message_index''))"

definition snapshot_by_key :: "pyval row list \<Rightarrow> (pyval \<times> pyval, pyval row) dict result" where
  "snapshot_by_key rows = foldR (\<lambda>by_key row.
     if has_key by_key (snapshot_key row) then fail_code ERR_SIMULATION_ANOMALY
     else Inr (dict_set (snapshot_key row) row by_key)) [] rows"

text \<open>
  The events by message index, an integer column; a key of another type is a \<open>TypeError\<close> here,
  though Python compares strings with strings.
\<close>

definition row_index :: "pyval row \<Rightarrow> int" where
  "row_index row = (case as_int (row_get row ''message_index'') of None \<Rightarrow> 0 | Some i \<Rightarrow> i)"

definition ordered_events :: "pyval row list \<Rightarrow> pyval row list result" where
  "ordered_events rows = (
     if list_ex (\<lambda>row. \<not> has_key row ''message_index'') rows then Inl KeyError
     else if length rows \<ge> 2 \<and> list_ex (\<lambda>row. as_int (row_get row ''message_index'') = None) rows then Inl TypeError
     else Inr (sort_key row_index rows))"

text \<open>The best bid and ask of an event's snapshot.\<close>

definition visible_quote :: "pyval row option \<Rightarrow> (int \<times> int) option result" where
  "visible_quote snapshot = (case snapshot of
       None \<Rightarrow> Inr None
     | Some row \<Rightarrow> (
       let bid = row_get row ''bid_price4_1''; ask = row_get row ''ask_price4_1'' in
       if bid = PyNone \<or> ask = PyNone then Inr None
       else case (plain_int bid, plain_int ask) of
         (Some b, Some a) \<Rightarrow> if b > a then fail_code ERR_BOOK_CROSSED else Inr (Some (b, a))
       | _ \<Rightarrow> Inl TypeError))"

definition lookup :: "('k, 'v) dict \<Rightarrow> 'k \<Rightarrow> 'v result" where
  "lookup d k = (case dict_get d k of None \<Rightarrow> Inl KeyError | Some v \<Rightarrow> Inr v)"

definition in_session :: "simulation_day_input \<Rightarrow> int \<Rightarrow> bool" where
  "in_session day t \<longleftrightarrow> dy_session_start_ns day \<le> t \<and> t < dy_session_end_ns day"

definition apply_quote :: "day_context \<Rightarrow> market_event \<Rightarrow> int \<Rightarrow> int \<Rightarrow> day_state \<Rightarrow> day_state result" where
  "apply_quote dc event bid ask s = (
     let sid = me_symbol_id event; t = me_timestamp_ns event in
     bindR (calling (update_mark sid (bid + ask)) (ds_ledger s)) (\<lambda>(_, ledger).
     let s1 = s\<lparr>ds_ledger := ledger\<rparr> in
     if \<not> in_session (dc_day dc) t then Inr s1
     else
     bindR (lookup (ds_strategies s1) sid) (\<lambda>strategy.
     bindR (strategy_observe (me_message_index event) t bid ask strategy) (\<lambda>strategy'.
     bindR (lookup (ds_quote_timeline s1) sid) (\<lambda>timeline.
     Inr (s1\<lparr>ds_strategies := dict_set sid strategy' (ds_strategies s1),
              ds_last_quotes := dict_set sid \<lparr>tq_quote_symbol_id = sid, tq_quote_timestamp_ns = t,
                tq_best_bid_price4 = bid, tq_best_ask_price4 = ask\<rparr> (ds_last_quotes s1),
              ds_quote_timeline := dict_set sid (timeline @ [(t, bid + ask)]) (ds_quote_timeline s1)\<rparr>))))))"

definition account_fill_row ::
  "run_key \<Rightarrow> simulated_order \<Rightarrow> int \<Rightarrow> int \<Rightarrow> accounted_fill \<Rightarrow> fill_row" where
  "account_fill_row key order mark_mid2 scenario_fill_id accounted = \<lparr>
     fr_key = key, fr_fill_id = scenario_fill_id, fr_simulated_order_id = af_simulated_order_id accounted,
     fr_market_message_index = af_market_message_index accounted, fr_timestamp_ns = af_timestamp_ns accounted,
     fr_symbol_id = so_symbol_id order, fr_side = so_side order, fr_price4 = af_price4 accounted,
     fr_quantity = af_quantity accounted, fr_fee_microusd = af_fee_microusd accounted,
     fr_cash_delta_microusd = af_cash_delta_microusd accounted, fr_inventory_after = af_inventory_after accounted,
     fr_fill_mid2 = mark_mid2, fr_future_mid2 = None, fr_adverse_selection_100ms = None\<rparr>"

definition account_fill :: "day_context \<Rightarrow> int \<Rightarrow> day_state \<Rightarrow> queue_fill \<Rightarrow> day_state result" where
  "account_fill dc mark_mid2 s fill =
     bindR (sm_order (fst (ds_queue s)) (qf_simulated_order_id fill)) (\<lambda>order.
     bindR (calling (record_queue_fill fill order mark_mid2) (ds_ledger s)) (\<lambda>(accounted, ledger).
     Inr (s\<lparr>ds_ledger := ledger,
            ds_fills := ds_fills s @ [account_fill_row (day_key dc) order mark_mid2 (ds_next_fill_id s) accounted],
            ds_next_fill_id := ds_next_fill_id s + 1\<rparr>)))"

text \<open>Fills without a quote of their own event are marked at the symbol's last quote.\<close>

definition account_fills ::
  "day_context \<Rightarrow> int \<Rightarrow> queue_fill list \<Rightarrow> int option \<Rightarrow> day_state \<Rightarrow> (int option \<times> day_state) result" where
  "account_fills dc sid fills mark s = (
     if fills = [] then Inr (mark, s)
     else bindR (case mark of
         Some m \<Rightarrow> Inr m
       | None \<Rightarrow> (case dict_get (ds_last_quotes s) sid of
           None \<Rightarrow> fail_code ERR_PRICE | Some quote \<Rightarrow> Inr (quote_mid2 quote))) (\<lambda>mark_mid2.
     bindR (foldR (account_fill dc mark_mid2) s fills) (\<lambda>s'. Inr (Some mark_mid2, s'))))"

definition next_decision_after :: "day_context \<Rightarrow> int \<Rightarrow> int" where
  "next_decision_after dc t = (let start = dy_session_start_ns (dc_day dc) in
     start + ((t - start) div dc_decision_interval_ns dc + 1) * dc_decision_interval_ns dc)"

definition decide_if_due :: "day_context \<Rightarrow> market_event \<Rightarrow> day_state \<Rightarrow> day_state result" where
  "decide_if_due dc event s = (
     let sid = me_symbol_id event; t = me_timestamp_ns event; i = me_message_index event in
     bindR (lookup (ds_next_decision s) sid) (\<lambda>due.
     if t < due then Inr s
     else
     bindR (lookup (ds_strategies s) sid) (\<lambda>strategy.
     bindR (ledger_inventory (ds_ledger s) sid) (\<lambda>inventory.
     bindR (strategy_decide (dc_libm dc) i t inventory strategy) (\<lambda>(d, strategy').
     bindR (refresh_quotes d t i (ds_next_order_id s) (fst (ds_queue s))) (\<lambda>(next_order_id, state).
     Inr (s\<lparr>ds_strategies := dict_set sid strategy' (ds_strategies s),
            ds_queue := (state, snd (ds_queue s)), ds_next_order_id := next_order_id,
            ds_next_decision := dict_set sid (next_decision_after dc t) (ds_next_decision s)\<rparr>)))))))"

definition equity_row_of :: "run_key \<Rightarrow> int option \<Rightarrow> int \<Rightarrow> accounting_snapshot \<Rightarrow> equity_row" where
  "equity_row_of key msg_index timestamp_ns snapshot = \<lparr>eq_key = key, eq_message_index = msg_index,
     eq_timestamp_ns = timestamp_ns, eq_marked_pnl = sn_marked_pnl snapshot, eq_cash = sn_cash snapshot,
     eq_marked_inventory_value = sn_marked_inventory_value snapshot\<rparr>"

definition complete_if_last :: "int \<Rightarrow> pyval row option \<Rightarrow> day_state \<Rightarrow> day_state result" where
  "complete_if_last t following s =
     bindR (case following of
         None \<Rightarrow> Inr True
       | Some row \<Rightarrow> bindR (item row ''timestamp_ns'') (\<lambda>v. Inr (as_int v \<noteq> Some t))) (\<lambda>last.
     if \<not> last then Inr s
     else bindR (calling (complete_market_timestamp t) (ds_queue s)) (\<lambda>(_, mq). Inr (s\<lparr>ds_queue := mq\<rparr>)))"

definition market_step :: "day_context \<Rightarrow> pyval row \<Rightarrow> pyval row option \<Rightarrow> day_state \<Rightarrow> day_state result" where
  "market_step dc raw following s =
     bindR (calling (process_market_event (Row_mapping raw)) (ds_queue s)) (\<lambda>(event_result, mq).
     let event = qr_event event_result; sid = me_symbol_id event; t = me_timestamp_ns event;
         s1 = s\<lparr>ds_queue := mq\<rparr> in
     if sid \<notin> ys_symbol_id ` set (dy_symbols (dc_day dc)) then fail_code ERR_UNKNOWN_SYMBOL
     else
     bindR (visible_quote (dict_get (dc_snapshots dc) (PyInt sid, PyInt (me_message_index event)))) (\<lambda>quote.
     bindR (case quote of None \<Rightarrow> Inr s1 | Some (bid, ask) \<Rightarrow> apply_quote dc event bid ask s1) (\<lambda>s2.
     bindR (account_fills dc sid (qr_fills event_result) (map_option (\<lambda>(bid, ask). bid + ask) quote) s2)
       (\<lambda>(mark, s3).
     bindR (if truthy (dict_get_default raw ''in_session'' (PyBool False)) \<and> mark \<noteq> None
            then decide_if_due dc event s3 else Inr s3) (\<lambda>s4.
     bindR (ledger_snapshot (ds_ledger s4)) (\<lambda>snapshot.
     complete_if_last t following
       (s4\<lparr>ds_equity := ds_equity s4 @ [equity_row_of (day_key dc) (Some (me_message_index event)) t snapshot]\<rparr>)))))))"

fun market_steps :: "day_context \<Rightarrow> pyval row list \<Rightarrow> day_state \<Rightarrow> day_state result" where
  "market_steps dc [] s = Inr s"
| "market_steps dc (raw # rest) s =
     bindR (market_step dc raw (case rest of [] \<Rightarrow> None | row # _ \<Rightarrow> Some row) s) (market_steps dc rest)"

section \<open>The end of a day\<close>

definition markout :: "(int, (int \<times> int) list) dict \<Rightarrow> fill_row \<Rightarrow> fill_row result" where
  "markout quote_timeline fill =
     bindR (lookup quote_timeline (fr_symbol_id fill)) (\<lambda>timeline.
     case List.find (\<lambda>(t, mid2). t \<ge> fr_timestamp_ns fill + MARKOUT_HORIZON_NS) timeline of
       None \<Rightarrow> Inr fill
     | Some (t, mid2) \<Rightarrow> Inr (fill\<lparr>fr_future_mid2 := Some mid2,
         fr_adverse_selection_100ms := Some (fr_side fill * (fr_fill_mid2 fill - mid2) * fr_quantity fill * 50)\<rparr>))"

definition apply_markouts ::
  "fill_row list \<Rightarrow> (int, (int \<times> int) list) dict \<Rightarrow> fill_row list result" where
  "apply_markouts fills quote_timeline = foldR (\<lambda>acc fill.
     bindR (markout quote_timeline fill) (\<lambda>fill'. Inr (acc @ [fill']))) [] fills"

record day_metrics_row =
  dm_trading_date :: "int \<times> int \<times> int"
  dm_accounting :: accounting_metrics_row
  dm_temporal :: temporal_metrics_row

definition day_metrics ::
  "simulation_day_input \<Rightarrow> accounting_ledger \<Rightarrow> fill_row list \<Rightarrow> equity_row list \<Rightarrow> day_metrics_row result" where
  "day_metrics day ledger fills equity =
     bindR (bindR (ledger_snapshot ledger) accounting_metrics) (\<lambda>accounting.
     bindR (temporal_metrics (map eq_marked_pnl equity)
         (map (\<lambda>r. fr_price4 r * fr_quantity r * 100) fills
          @ map (\<lambda>l. la_price4 l * la_quantity l * 100) (al_liquidations ledger))
         (map fr_adverse_selection_100ms fills)) (\<lambda>temporal.
     Inr \<lparr>dm_trading_date = dy_trading_date day, dm_accounting = accounting, dm_temporal = temporal\<rparr>))"

record day_rows =
  dr_orders :: "(run_key \<times> simulated_order) list"
  dr_fills :: "fill_row list"
  dr_liquidations :: "(run_key \<times> liquidation_accounting) list"
  dr_equity :: "equity_row list"
  dr_diagnostics :: "diagnostic_row list"
  dr_daily :: "day_metrics_row list"
  dr_next_order_id :: int
  dr_next_fill_id :: int
  dr_next_liquidation_id :: int

definition queue_diagnostic_row :: "run_key \<Rightarrow> queue_diagnostic \<Rightarrow> diagnostic_row" where
  "queue_diagnostic_row key d = \<lparr>dg_key = key, dg_code = Inl (qd_code d),
     dg_message_index = qd_message_index d, dg_symbol_id = qd_symbol_id d,
     dg_simulated_order_id = qd_simulated_order_id d, dg_reason = Inl (qd_reason d)\<rparr>"

definition prediction_diagnostic_row :: "run_key \<Rightarrow> int \<Rightarrow> prediction_diagnostic \<Rightarrow> diagnostic_row" where
  "prediction_diagnostic_row key symbol_id d = \<lparr>dg_key = key, dg_code = Inr (pd_code d),
     dg_message_index = pd_decision_message_index d, dg_symbol_id = symbol_id,
     dg_simulated_order_id = None, dg_reason = Inr (pd_reason d)\<rparr>"

definition strategy_diagnostics :: "run_key \<Rightarrow> int \<times> strategy \<Rightarrow> diagnostic_row list" where
  "strategy_diagnostics key = (\<lambda>(symbol_id, strategy). case strategy of
       Baseline b \<Rightarrow> []
     | Signal s \<Rightarrow> map (prediction_diagnostic_row key symbol_id) (cj_diagnostics (ss_predictions s)))"

definition terminal_timestamp :: "simulation_day_input \<Rightarrow> int" where
  "terminal_timestamp day = min (dy_session_end_ns day - 1) 86399999999999"

definition finish_day :: "day_context \<Rightarrow> day_state \<Rightarrow> day_rows \<Rightarrow> day_rows result" where
  "finish_day dc s rows = (
     let key = day_key dc; t = terminal_timestamp (dc_day dc) in
     bindR (calling (settle_session_end t (dict_values (ds_last_quotes s)) (xs_taker_fee (dc_scenario dc)))
         (fst (ds_queue s), ds_ledger s)) (\<lambda>(settlement, state, ledger).
     let equity = ds_equity s @ [equity_row_of key None t (ts_accounting settlement)];
         start = dr_next_liquidation_id rows;
         liquidations = map (\<lambda>(k, l). (key, l\<lparr>la_liquidation_id := start + int k\<rparr>))
           (enumerate 0 (ts_liquidations settlement)) in
     bindR (apply_markouts (ds_fills s) (ds_quote_timeline s)) (\<lambda>fills.
     bindR (day_metrics (dc_day dc) ledger fills equity) (\<lambda>metrics.
     Inr \<lparr>dr_orders = dr_orders rows @ map (Pair key) (sm_all_orders state),
          dr_fills = dr_fills rows @ fills,
          dr_liquidations = dr_liquidations rows @ liquidations,
          dr_equity = dr_equity rows @ equity,
          dr_diagnostics = dr_diagnostics rows
            @ map (queue_diagnostic_row key) (vq_diagnostics (snd (ds_queue s)))
            @ (if dc_strategy_name dc = SIGNAL_NAME
               then concat (map (strategy_diagnostics key) (ds_strategies s)) else []),
          dr_daily = dr_daily rows @ [metrics],
          dr_next_order_id = ds_next_order_id s,
          dr_next_fill_id = ds_next_fill_id s,
          dr_next_liquidation_id = start + int (length (ts_liquidations settlement))\<rparr>))))"

section \<open>A scenario\<close>

record simulation_config =
  sg_strategy :: strategy_config
  sg_max_queue_anomalies :: int

definition new_strategies ::
  "strategy_config \<Rightarrow> intensity_calibration \<Rightarrow> string \<Rightarrow> pyfloat \<Rightarrow> string option \<Rightarrow> string
     \<Rightarrow> simulation_day_input \<Rightarrow> (int, strategy) dict result" where
  "new_strategies config calibration strategy_name weight experiment_id model_name day =
     foldR (\<lambda>strategies symbol.
       bindR (new_strategy config calibration strategy_name weight experiment_id model_name day symbol) (\<lambda>strategy.
       Inr (dict_set (ys_symbol_id symbol) strategy strategies))) [] (dy_symbols day)"

definition per_symbol :: "simulation_day_input \<Rightarrow> 'v \<Rightarrow> (int, 'v) dict" where
  "per_symbol day v = foldl (\<lambda>d symbol. dict_set (ys_symbol_id symbol) v d) [] (dy_symbols day)"

definition run_day ::
  "libm \<Rightarrow> simulation_config \<Rightarrow> intensity_calibration \<Rightarrow> execution_scenario \<Rightarrow> string \<Rightarrow> pyfloat
     \<Rightarrow> string option \<Rightarrow> string \<Rightarrow> day_rows \<Rightarrow> simulation_day_input \<Rightarrow> day_rows result" where
  "run_day m config calibration scenario strategy_name weight experiment_id model_name rows day =
     bindR (new_state_machine (xs_submission_latency_ns scenario) (xs_cancellation_latency_ns scenario)) (\<lambda>state.
     bindR (new_queue_model (sg_max_queue_anomalies config)) (\<lambda>queue.
     bindR (new_ledger (xs_maker_fee scenario) (sc_inventory_limit (sg_strategy config))) (\<lambda>ledger.
     bindR (snapshot_by_key (dy_snapshots day)) (\<lambda>snapshots.
     bindR (new_strategies (sg_strategy config) calibration strategy_name weight experiment_id model_name day)
       (\<lambda>strategies.
     let dc = \<lparr>dc_libm = m, dc_scenario = scenario, dc_strategy_name = strategy_name,
           dc_decision_interval_ns = sc_decision_interval_ns (sg_strategy config), dc_day = day,
           dc_snapshots = snapshots\<rparr> in
     bindR (ordered_events (dy_events day)) (\<lambda>events.
     bindR (market_steps dc events \<lparr>ds_queue = (state, queue), ds_ledger = ledger, ds_strategies = strategies,
         ds_next_decision = per_symbol day (dy_session_start_ns day + sc_decision_interval_ns (sg_strategy config)),
         ds_fills = [], ds_equity = [], ds_last_quotes = [], ds_quote_timeline = per_symbol day [],
         ds_next_order_id = dr_next_order_id rows, ds_next_fill_id = dr_next_fill_id rows\<rparr>) (\<lambda>s.
     finish_day dc s rows)))))))"

record scenario_metrics =
  sx_passive_fill_count :: int
  sx_passive_fill_quantity :: int
  sx_liquidation_count :: int
  sx_liquidation_quantity :: int
  sx_gross_cash :: int
  sx_maker_fee :: int
  sx_taker_fee :: int
  sx_signed_fee :: int
  sx_fee_contribution :: int
  sx_cash :: int
  sx_passive_spread_capture :: int
  sx_inventory_mark_to_market :: int
  sx_terminal_liquidation_slippage :: int
  sx_marked_pnl :: int
  sx_turnover :: int
  sx_trading_days :: int
  sx_path :: temporal_metrics_row
  sx_reconciled :: bool
  sx_settled :: bool
  sx_max_abs_inventory_by_symbol :: "(int, int) dict"

text \<open>The equity points of each day, raised by what the days before have made.\<close>

fun concatenated_equity :: "equity_row list \<Rightarrow> int \<Rightarrow> day_metrics_row list \<Rightarrow> int list" where
  "concatenated_equity equity offset [] = []"
| "concatenated_equity equity offset (day # days) =
     map (\<lambda>r. offset + eq_marked_pnl r) (filter (\<lambda>r. rk_trading_date (eq_key r) = dm_trading_date day) equity)
     @ concatenated_equity equity (offset + am_marked_pnl (dm_accounting day)) days"

definition raise_maximum :: "(int, int) dict \<Rightarrow> int \<times> int \<Rightarrow> (int, int) dict" where
  "raise_maximum d = (\<lambda>(symbol_id, maximum). dict_set symbol_id (max (dict_get_default d symbol_id 0) maximum) d)"

definition total_of :: "(accounting_metrics_row \<Rightarrow> int) \<Rightarrow> day_metrics_row list \<Rightarrow> int" where
  "total_of f days = sum_list (map (\<lambda>day. f (dm_accounting day)) days)"

definition aggregate_metrics ::
  "day_metrics_row list \<Rightarrow> fill_row list \<Rightarrow> equity_row list \<Rightarrow> scenario_metrics result" where
  "aggregate_metrics days fills equity =
     bindR (temporal_metrics (concatenated_equity equity 0 days) [] (map fr_adverse_selection_100ms fills)) (\<lambda>temporal.
     Inr \<lparr>sx_passive_fill_count = total_of am_passive_fill_count days,
       sx_passive_fill_quantity = total_of am_passive_fill_quantity days,
       sx_liquidation_count = total_of am_liquidation_count days,
       sx_liquidation_quantity = total_of am_liquidation_quantity days,
       sx_gross_cash = total_of am_gross_cash days,
       sx_maker_fee = total_of am_maker_fee days,
       sx_taker_fee = total_of am_taker_fee days,
       sx_signed_fee = total_of am_signed_fee days,
       sx_fee_contribution = total_of am_fee_contribution days,
       sx_cash = total_of am_cash days,
       sx_passive_spread_capture = total_of am_passive_spread_capture days,
       sx_inventory_mark_to_market = total_of am_inventory_mark_to_market days,
       sx_terminal_liquidation_slippage = total_of am_terminal_liquidation_slippage days,
       sx_marked_pnl = total_of am_marked_pnl days,
       sx_turnover = sum_list (map (\<lambda>day. tm_turnover (dm_temporal day)) days),
       sx_trading_days = int (length days),
       sx_path = temporal,
       sx_reconciled = list_all (\<lambda>day. am_reconciled (dm_accounting day)) days,
       sx_settled = list_all (\<lambda>day. am_settled (dm_accounting day)) days,
       sx_max_abs_inventory_by_symbol =
         foldl raise_maximum [] (concat (map (\<lambda>day. am_max_abs_inventory_by_symbol (dm_accounting day)) days))\<rparr>)"

record scenario_result =
  sr_scenario :: execution_scenario
  sr_strategy_name :: string
  sr_signal_weight_ticks :: pyfloat
  sr_rows :: day_rows
  sr_metrics :: scenario_metrics

definition no_rows :: day_rows where
  "no_rows = \<lparr>dr_orders = [], dr_fills = [], dr_liquidations = [], dr_equity = [], dr_diagnostics = [],
     dr_daily = [], dr_next_order_id = 0, dr_next_fill_id = 0, dr_next_liquidation_id = 0\<rparr>"

definition run_scenario ::
  "libm \<Rightarrow> simulation_day_input list \<Rightarrow> simulation_config \<Rightarrow> intensity_calibration \<Rightarrow> execution_scenario
     \<Rightarrow> string \<Rightarrow> pyfloat \<Rightarrow> string option \<Rightarrow> string \<Rightarrow> scenario_result result" where
  "run_scenario m days config calibration scenario strategy_name weight experiment_id model_name = (
     if days = [] then fail_code ERR_EMPTY_DATASET
     else if strategy_name = SIGNAL_NAME \<and> experiment_id = None then fail_code ERR_PREDICTION_KEY
     else
     bindR (foldR (run_day m config calibration scenario strategy_name weight experiment_id model_name) no_rows days)
       (\<lambda>rows.
     bindR (aggregate_metrics (dr_daily rows) (dr_fills rows) (dr_equity rows)) (\<lambda>metrics.
     Inr \<lparr>sr_scenario = scenario, sr_strategy_name = strategy_name, sr_signal_weight_ticks = weight,
          sr_rows = rows, sr_metrics = metrics\<rparr>)))"

end
