(* ===== verification/Order_Quantities.thy ===== *)
theory Order_Quantities
  imports Queue_Properties
begin

text \<open>
  What the calls of a simulated day do to the orders of the state machine, whatever else they do:
  no order disappears, keeps its terms, and loses exactly the quantity that its fills report.
\<close>

definition filled_by :: "queue_fill list \<Rightarrow> int \<Rightarrow> int" where
  "filled_by fills i = sum_list (map qf_quantity (filter (\<lambda>f. qf_simulated_order_id f = i) fills))"

lemma filled_by_Nil [simp]: "filled_by [] i = 0"
  by (simp add: filled_by_def)

lemma filled_by_Cons [simp]:
  "filled_by (f # fs) i = (if qf_simulated_order_id f = i then qf_quantity f else 0) + filled_by fs i"
  by (simp add: filled_by_def)

text \<open>The orders of \<open>od\<close> are those of \<open>od0\<close>, each with so much less remaining.\<close>

definition same_order :: "int \<Rightarrow> simulated_order \<Rightarrow> simulated_order \<Rightarrow> bool" where
  "same_order n s s' \<longleftrightarrow> same_identity s s' \<and> so_remaining_quantity s' = so_remaining_quantity s - n"

definition evolved :: "(int, simulated_order) dict \<Rightarrow> (int \<Rightarrow> int) \<Rightarrow> (int, simulated_order) dict \<Rightarrow> bool" where
  "evolved od0 f od \<longleftrightarrow> (\<forall>i. rel_option (same_order (f i)) (dict_get od0 i) (dict_get od i))"

lemma evolved_refl [simp]: "evolved od (\<lambda>_. 0) od"
  by (auto simp: evolved_def same_order_def same_identity_def option.rel_refl)

lemma same_order_trans: "same_order a s t \<Longrightarrow> same_order b t u \<Longrightarrow> same_order (a + b) s u"
  by (simp add: same_order_def same_identity_def)

lemma evolved_trans:
  assumes "evolved a f b" "evolved b g c"
  shows "evolved a (\<lambda>i. f i + g i) c"
  unfolding evolved_def
proof
  fix i
  have "rel_option (same_order (f i)) (dict_get a i) (dict_get b i)"
    "rel_option (same_order (g i)) (dict_get b i) (dict_get c i)"
    using assms by (simp_all add: evolved_def)
  then show "rel_option (same_order (f i + g i)) (dict_get a i) (dict_get c i)"
    by (cases "dict_get a i"; cases "dict_get b i"; cases "dict_get c i") (auto intro: same_order_trans)
qed

lemma evolved_set:
  assumes "evolved od0 f od" "dict_get od i = Some s" "same_order n s s'"
  shows "evolved od0 (\<lambda>j. f j + (if j = i then n else 0)) (dict_set i s' od)"
  unfolding evolved_def
proof
  fix j
  have r: "rel_option (same_order (f j)) (dict_get od0 j) (dict_get od j)" using assms(1) by (simp add: evolved_def)
  show "rel_option (same_order (f j + (if j = i then n else 0))) (dict_get od0 j) (dict_get (dict_set i s' od) j)"
    using r assms(2,3) by (cases "dict_get od0 j") (auto intro: same_order_trans)
qed

lemma evolved_keep:
  assumes "evolved od0 f od" "dict_get od i = Some s" "same_identity s s'"
    "so_remaining_quantity s' = so_remaining_quantity s"
  shows "evolved od0 f (dict_set i s' od)"
  using evolved_set [OF assms(1,2), of 0 s'] assms(3,4) by (simp add: same_order_def)

lemma evolved_has_key: "evolved od0 f od \<Longrightarrow> has_key od i = has_key od0 i"
  using option.rel_distinct by (cases "dict_get od0 i"; cases "dict_get od i")
    (auto simp: evolved_def has_key_def dest: spec [of _ i])

lemma evolvedD:
  assumes "evolved od0 f od" "dict_get od i = Some s'"
  obtains s where "dict_get od0 i = Some s" "same_order (f i) s s'"
  using assms by (cases "dict_get od0 i") (auto simp: evolved_def dest: spec [of _ i])

lemma evolved_forward:
  assumes "evolved od0 f od" "dict_get od0 i = Some s"
  obtains s' where "dict_get od i = Some s'" "same_order (f i) s s'"
  using assms by (cases "dict_get od i") (auto simp: evolved_def dest: spec [of _ i])

interpretation evolution: activation_resolver R "\<lambda>od q us. evolved od0 f od"
  for R :: "'q activation_queue_resolver option" and od0 f
proof
  fix od us s and q :: 'q and ahead q' a t
  assume "evolved od0 f od" "dict_get od (so_simulated_order_id s) = Some s"
  then show "evolved od0 f (dict_set (so_simulated_order_id s) (activated (R \<noteq> None) a ahead s) od)"
    by (rule evolved_keep [OF _ _ activated_identity]) (simp add: activated_def)
next
  fix od us s and q :: 'q and a t
  assume "evolved od0 f od" "dict_get od (so_simulated_order_id s) = Some s"
  then show "evolved od0 f (dict_set (so_simulated_order_id s) (cancelled a s) od)"
    by (rule evolved_keep [OF _ _ cancelled_identity]) (simp add: cancelled_def)
qed

lemma filled_evolved:
  assumes "sm_inv m" "filled_result ev m q filled m' q'"
  shows "evolved (sm_orders m) (filled_by (case filled of None \<Rightarrow> [] | Some (fill, t) \<Rightarrow> [fill])) (sm_orders m')"
proof (cases filled)
  case None
  have "filled_by [] = (\<lambda>_. 0)" by (simp add: fun_eq_iff)
  with None assms(2) show ?thesis by (simp add: filled_result_def)
next
  case (Some ft)
  obtain fill tr where ft: "ft = (fill, tr)" by (cases ft)
  with Some assms(2) obtain s where s: "fill_spec ev m q fill s"
    "m' = put_order (filled_order s (qf_quantity fill) (me_timestamp_ns ev)) m"
    by (auto simp: filled_result_def)
  then have g: "dict_get (sm_orders m) (qf_simulated_order_id fill) = Some s" by (simp add: fill_spec_def)
  have id: "so_simulated_order_id s = qf_simulated_order_id fill"
    using orders_inv_get(1) [OF sm_midD(3) g] assms(1) by (simp add: sm_inv_def)
  have "filled_by [fill] = (\<lambda>j. 0 + (if j = qf_simulated_order_id fill then qf_quantity fill else 0))"
    by (auto simp: fun_eq_iff)
  moreover have "evolved (sm_orders m) (\<lambda>j. 0 + (if j = qf_simulated_order_id fill then qf_quantity fill else 0))
      (dict_set (qf_simulated_order_id fill) (filled_order s (qf_quantity fill) (me_timestamp_ns ev)) (sm_orders m))"
    by (rule evolved_set [OF evolved_refl g]) (simp add: same_order_def filled_order_def same_identity_def)
  ultimately show ?thesis using Some ft s(2) id by (simp add: filled_order_def)
qed

lemma invalidate_crossed_evolved:
  assumes "invalidate_crossed ev tk (m, q) = (Inr res, (m', q'))" "sm_inv m" "evolved od0 f (sm_orders m)"
  shows "sm_inv m' \<and> evolved od0 f (sm_orders m')"
proof -
  have "m' = m \<or> (\<exists>tr. invalidate (tq_simulated_order_id tk) (me_timestamp_ns ev) (me_message_index ev) m = (Inr tr, m'))"
    using assms(1)
    by (auto simp: invalidate_crossed_def Let_def bindM_Inr on_machine_def on_owner_def modifyM_def returnM_def
        split: sum.splits if_splits prod.splits)
  then show ?thesis
  proof
    assume "\<exists>tr. invalidate (tq_simulated_order_id tk) (me_timestamp_ns ev) (me_message_index ev) m = (Inr tr, m')"
    then obtain tr where i: "invalidate (tq_simulated_order_id tk) (me_timestamp_ns ev) (me_message_index ev) m = (Inr tr, m')"
      by blast
    from i obtain s where s: "dict_get (sm_orders m) (tq_simulated_order_id tk) = Some s"
      "m' = put_order (ended INVALIDATED (me_timestamp_ns ev) s) m" by (rule invalidate_Inr)
    have "so_simulated_order_id s = tq_simulated_order_id tk"
      using orders_inv_get(1) [OF sm_midD(3) s(1)] assms(2) by (simp add: sm_inv_def)
    then have "evolved od0 f (sm_orders m')"
      using evolved_keep [OF assms(3) s(1) ended_identity] by (simp add: s(2))
    then show ?thesis using invalidate_inv [OF assms(2) i] by simp
  qed (use assms in simp)
qed

lemma invalidate_remainders_evolved:
  assumes "invalidate_crossed_remainders ev (m, q) = (Inr ts, (m', q'))" "sm_inv m" "evolved od0 f (sm_orders m)"
  shows "evolved od0 f (sm_orders m')"
proof -
  from assms(1) obtain rs where loop: "forM (invalidate_crossed ev) (dict_values (vq_queues q)) (m, q) = (Inr rs, (m', q'))"
    by (auto simp: invalidate_crossed_remainders_def bindM_Inr)
  let ?I = "\<lambda>mq. sm_inv (fst mq) \<and> evolved od0 f (sm_orders (fst mq))"
  have "?I (m', q')"
    by (rule forM_inv [OF loop, where I = ?I]) (use assms invalidate_crossed_evolved in \<open>auto\<close>)
  then show ?thesis by simp
qed

lemma process_market_event_evolved:
  assumes inv: "model_inv (m, q)" and run: "process_market_event row (m, q) = (Inr res, (m', q'))"
  shows "evolved (sm_orders m) (filled_by (qr_fills res)) (sm_orders m')"
proof -
  from run obtain ev where ad: "adapt_market_event row = Inr ev" and p: "process_event ev (m, q) = (Inr res, (m', q'))"
    by (auto simp: process_market_event_def bindM_Inr)
  have wf: "event_wf ev" using process_market_event_ok [OF inv run] ad by simp
  from p obtain released mb qb filled applied m1 q1 ts where
    b: "before_market_event (me_timestamp_ns ev) (me_message_index ev) (Some resolve_activation) (m, q)
      = (Inr released, (mb, qb))"
    and v: "apply_visible_event ev (mb, synchronise_transitions released qb) = (Inr (filled, applied), (m1, q1))"
    and i: "(if applied
          then bindM (invalidate_crossed_remainders ev) (\<lambda>ts. bindM (synchronise ts) (\<lambda>_. returnM ts))
          else returnM []) (m1, synchronise_transitions (fill_transitions filled) q1) = (Inr ts, (m', q'))"
    and fills: "qr_fills res = (case filled of None \<Rightarrow> [] | Some (fill, t) \<Rightarrow> [fill])"
    by (auto simp: process_event_def Let_def bindM_Inr synchronise_def on_owner_def)
  have "bindM (before_market_event (me_timestamp_ns ev) (me_message_index ev) (Some resolve_activation))
      (\<lambda>released. bindM (synchronise released) (\<lambda>_. returnM released)) (m, q)
      = (Inr released, (mb, synchronise_transitions released qb))"
    using b by (simp add: bindM_def synchronise_def on_owner_def)
  from before_event_ok [OF inv wf this] have mi: "model_inv (mb, synchronise_transitions released qb)"
    and key: "\<And>i. require_current_market_key mb (me_timestamp_ns ev) (me_message_index ev) i = Inr ()" by simp_all
  have sm: "sm_inv m" "sm_inv mb" and qi: "queue_inv (mb, synchronise_transitions released qb)"
    using inv mi by (simp_all add: model_inv_def queue_inv_def)
  have ev0: "evolved (sm_orders m) (\<lambda>_. 0) (sm_orders mb)"
    using evolution.before_market_event_keeps [OF sm(1) evolved_refl b] by simp
  have ex: "execution_result ev mb (synchronise_transitions released qb) (Inr (filled, applied)) m1 q1"
    using apply_visible_event_ok [OF qi wf key v] by (simp add: visible_result_def)
  then have fr: "filled_result ev mb (synchronise_transitions released qb) filled m1 q1"
    by (simp add: execution_result_def)
  have ev1: "evolved (sm_orders m) (filled_by (qr_fills res)) (sm_orders m1)"
    using evolved_trans [OF ev0 filled_evolved [OF sm(2) fr]] by (simp add: fills)
  have sm1: "sm_inv m1"
    using fr sm(2) by (auto simp: filled_result_def split: option.splits)
  show ?thesis
  proof (cases applied)
    case True
    with i obtain q2 where "invalidate_crossed_remainders ev (m1, synchronise_transitions (fill_transitions filled) q1)
        = (Inr ts, (m', q2))"
      by (auto simp: bindM_Inr synchronise_def on_owner_def)
    from invalidate_remainders_evolved [OF this sm1 ev1] show ?thesis .
  next
    case False
    with i ev1 show ?thesis by simp
  qed
qed

lemma complete_evolved:
  assumes "model_inv (m, q)" "complete_market_timestamp t (m, q) = (Inr ts, (m', q'))"
  shows "evolved (sm_orders m) (\<lambda>_. 0) (sm_orders m')"
proof -
  have sm: "sm_inv m" using assms(1) by (simp add: model_inv_def queue_inv_def)
  from assms(2) obtain q1 where a: "after_market_timestamp t (Some resolve_activation) (m, q) = (Inr ts, (m', q1))"
    by (auto simp: complete_market_timestamp_def bindM_Inr synchronise_def on_owner_def)
  from evolution.after_market_timestamp_keeps [OF sm evolved_refl a] show ?thesis by simp
qed

lemma request_cancel_evolved:
  assumes "request_cancel i t mi m = (Inr tr, m')"
  shows "evolved (sm_orders m) (\<lambda>_. 0) (sm_orders m')"
  using assms
proof (rule request_cancel_Inr)
  fix s s' :: simulated_order and a :: scheduled_action and sch
  assume s: "dict_get (sm_orders m) i = Some s"
    "s' = s\<lparr>so_state := (if so_state s = PENDING_SUBMIT then PENDING_SUBMIT else PENDING_CANCEL),
           so_cancel_requested_ns := Some t\<rparr>"
    "m' = m\<lparr>sm_scheduler := sch, sm_orders := dict_set i s' (sm_orders m),
           sm_scheduled_actions := dict_set (sa_sequence a) a (sm_scheduled_actions m)\<rparr>"
  have "evolved (sm_orders m) (\<lambda>_. 0) (dict_set i s' (sm_orders m))"
    by (rule evolved_keep [OF evolved_refl s(1)]) (simp_all add: s(2) same_identity_def)
  then show ?thesis by (simp add: s(3))
qed

end
