(* ===== verification/Runner_Invariant.thy ===== *)
theory Runner_Invariant
  imports Runner Order_Quantities
begin

text \<open>
  What holds between the objects of a simulated day at every step: the queue model and the ledger
  keep their invariants, the day's orders are numbered without gaps, and the rows of fills are the
  fills that the ledger has accounted, which are what the orders have lost.
\<close>

section \<open>Calls\<close>

lemma calling_Inr: "calling f s = Inr (x, s') \<longleftrightarrow> f s = (Inr x, s')"
  by (auto simp: calling_def split: prod.splits sum.splits)

lemma lookup_Inr [simp]: "lookup d k = Inr v \<longleftrightarrow> dict_get d k = Some v"
  by (simp add: lookup_def split: option.splits)

section \<open>The invariant\<close>

definition fill_row_of :: "run_key \<Rightarrow> (int, simulated_order) dict \<Rightarrow> fill_row \<Rightarrow> accounted_fill \<Rightarrow> bool" where
  "fill_row_of key od r a \<longleftrightarrow> fr_key r = key
   \<and> fr_simulated_order_id r = af_simulated_order_id a \<and> fr_market_message_index r = af_market_message_index a
   \<and> fr_timestamp_ns r = af_timestamp_ns a \<and> fr_price4 r = af_price4 a \<and> fr_quantity r = af_quantity a
   \<and> fr_fee_microusd r = af_fee_microusd a \<and> fr_cash_delta_microusd r = af_cash_delta_microusd a
   \<and> fr_inventory_after r = af_inventory_after a
   \<and> fr_future_mid2 r = None \<and> fr_adverse_selection_100ms r = None
   \<and> (\<exists>s. dict_get od (fr_simulated_order_id r) = Some s \<and> fr_symbol_id r = so_symbol_id s
        \<and> fr_side r = so_side s \<and> fr_price4 r = so_price4 s)"

definition orders_numbered :: "int \<Rightarrow> int \<Rightarrow> (int, simulated_order) dict \<Rightarrow> bool" where
  "orders_numbered start next od \<longleftrightarrow> start \<le> next \<and> (\<forall>i. has_key od i \<longleftrightarrow> start \<le> i \<and> i < next)"

definition quantities_accounted :: "(int, simulated_order) dict \<Rightarrow> accounted_fill list \<Rightarrow> queue_fill list \<Rightarrow> bool" where
  "quantities_accounted od accounted pending \<longleftrightarrow> (\<forall>i s. dict_get od i = Some s \<longrightarrow>
     so_original_quantity s - so_remaining_quantity s = order_quantity i accounted + filled_by pending i)"

definition day_inv :: "run_key \<Rightarrow> int \<Rightarrow> int \<Rightarrow> queue_fill list \<Rightarrow> day_state \<Rightarrow> bool" where
  "day_inv key order_start fill_start pending s \<longleftrightarrow> (
     let od = sm_orders (fst (ds_queue s)); accounted = al_fills (ds_ledger s) in
     model_inv (ds_queue s) \<and> ledger_inv (ds_ledger s) \<and> al_liquidations (ds_ledger s) = []
   \<and> orders_numbered order_start (ds_next_order_id s) od
   \<and> quantities_accounted od accounted pending
   \<and> list_all2 (fill_row_of key od) (ds_fills s) accounted
   \<and> map fr_fill_id (ds_fills s) = map (\<lambda>k. fill_start + int k) [0..<length (ds_fills s)]
   \<and> ds_next_fill_id s = fill_start + int (length (ds_fills s)))"

lemma fill_row_evolved: "fill_row_of key od r a \<Longrightarrow> evolved od f od' \<Longrightarrow> fill_row_of key od' r a"
proof -
  assume r: "fill_row_of key od r a" and e: "evolved od f od'"
  from r obtain s where s: "dict_get od (fr_simulated_order_id r) = Some s" "fr_symbol_id r = so_symbol_id s"
    "fr_side r = so_side s" "fr_price4 r = so_price4 s" by (auto simp: fill_row_of_def)
  from e s(1) obtain s' where s': "dict_get od' (fr_simulated_order_id r) = Some s'"
    "same_order (f (fr_simulated_order_id r)) s s'" by (rule evolved_forward)
  then have "so_symbol_id s' = so_symbol_id s" "so_side s' = so_side s" "so_price4 s' = so_price4 s"
    by (simp_all add: same_order_def same_identity_def)
  with r s s'(1) show ?thesis by (simp add: fill_row_of_def)
qed

lemma quantities_evolved:
  assumes "quantities_accounted od accounted []" "evolved od (filled_by pending) od'"
  shows "quantities_accounted od' accounted pending"
  unfolding quantities_accounted_def
proof (intro allI impI)
  fix i s'
  assume "dict_get od' i = Some s'"
  with assms(2) obtain s where s: "dict_get od i = Some s" "same_order (filled_by pending i) s s'"
    by (rule evolvedD)
  with assms(1) have "so_original_quantity s - so_remaining_quantity s = order_quantity i accounted"
    by (simp add: quantities_accounted_def)
  with s(2) show "so_original_quantity s' - so_remaining_quantity s' = order_quantity i accounted + filled_by pending i"
    by (simp add: same_order_def same_identity_def)
qed

lemma numbered_evolved: "orders_numbered start next od \<Longrightarrow> evolved od f od' \<Longrightarrow> orders_numbered start next od'"
  by (simp add: orders_numbered_def evolved_has_key)

text \<open>The queue model and its orders move on; everything else stays.\<close>

lemma day_inv_queue:
  assumes inv: "day_inv key a b [] s" and mq: "model_inv mq"
    and e: "evolved (sm_orders (fst (ds_queue s))) (filled_by pending) (sm_orders (fst mq))"
  shows "day_inv key a b pending (s\<lparr>ds_queue := mq\<rparr>)"
proof -
  have "list_all2 (fill_row_of key (sm_orders (fst mq))) (ds_fills s) (al_fills (ds_ledger s))"
    using inv fill_row_evolved [OF _ e] by (auto simp: day_inv_def Let_def elim: list_all2_mono)
  then show ?thesis
    using inv mq quantities_evolved [OF _ e] numbered_evolved [OF _ e] by (simp add: day_inv_def Let_def)
qed

lemma filled_by_none: "filled_by [] = (\<lambda>_. 0)"
  by (simp add: fun_eq_iff)

section \<open>Every step keeps it\<close>

lemma market_event_keeps:
  assumes "day_inv key a b [] s" "process_market_event row (ds_queue s) = (Inr res, mq)"
  shows "day_inv key a b (qr_fills res) (s\<lparr>ds_queue := mq\<rparr>)"
proof (rule day_inv_queue [OF assms(1)])
  obtain m q m' q' where mq: "ds_queue s = (m, q)" "mq = (m', q')" by (cases "ds_queue s"; cases mq)
  then have inv: "model_inv (m, q)" using assms(1) by (simp add: day_inv_def Let_def)
  have run: "process_market_event row (m, q) = (Inr res, (m', q'))" using assms(2) mq by simp
  show "model_inv mq" using process_market_event_ok [OF inv run] mq by (simp add: process_result_def)
  show "evolved (sm_orders (fst (ds_queue s))) (filled_by (qr_fills res)) (sm_orders (fst mq))"
    using process_market_event_evolved [OF inv run] mq by simp
qed

lemma complete_keeps:
  assumes "day_inv key a b [] s" "complete_market_timestamp t (ds_queue s) = (Inr ts, mq)"
  shows "day_inv key a b [] (s\<lparr>ds_queue := mq\<rparr>)"
proof (rule day_inv_queue [OF assms(1)])
  obtain m q m' q' where mq: "ds_queue s = (m, q)" "mq = (m', q')" by (cases "ds_queue s"; cases mq)
  then have inv: "model_inv (m, q)" using assms(1) by (simp add: day_inv_def Let_def)
  have run: "complete_market_timestamp t (m, q) = (Inr ts, (m', q'))" using assms(2) mq by simp
  show "model_inv mq" using complete_market_timestamp_ok [OF inv run] mq by simp
  show "evolved (sm_orders (fst (ds_queue s))) (filled_by []) (sm_orders (fst mq))"
    using complete_evolved [OF inv run] mq by (simp add: filled_by_none)
qed

lemma update_mark_keeps:
  assumes "update_mark k m L = (Inr sn, L')" "ledger_inv L"
  shows "ledger_inv L' \<and> al_fills L' = al_fills L \<and> al_liquidations L' = al_liquidations L"
proof -
  from assms(1) have c: "commit_mark k m L = Inr L'" by (auto simp: update_mark_def split: sum.splits)
  then show ?thesis using commit_mark_inv [OF c assms(2)] by (elim commit_mark_Inr) simp
qed

text \<open>What the invariant does not mention may change.\<close>

lemma day_inv_cong:
  assumes "day_inv key a b pending s" "ds_queue s' = ds_queue s" "ds_fills s' = ds_fills s"
    "ds_next_order_id s' = ds_next_order_id s" "ds_next_fill_id s' = ds_next_fill_id s"
    "ledger_inv (ds_ledger s')" "al_fills (ds_ledger s') = al_fills (ds_ledger s)"
    "al_liquidations (ds_ledger s') = al_liquidations (ds_ledger s)"
  shows "day_inv key a b pending s'"
  using assms by (simp add: day_inv_def Let_def)

lemma apply_quote_keeps:
  assumes "day_inv key a b pending s" "apply_quote dc ev bid ask s = Inr s'"
  shows "day_inv key a b pending s'"
proof -
  from assms(2) obtain sn L where u: "update_mark (me_symbol_id ev) (bid + ask) (ds_ledger s) = (Inr sn, L)"
    and s': "ds_queue s' = ds_queue s" "ds_fills s' = ds_fills s" "ds_next_order_id s' = ds_next_order_id s"
      "ds_next_fill_id s' = ds_next_fill_id s" "ds_ledger s' = L"
    by (auto simp: apply_quote_def Let_def bindR_eq_Inr calling_Inr split: if_splits)
  have "ledger_inv (ds_ledger s)" using assms(1) by (simp add: day_inv_def Let_def)
  from update_mark_keeps [OF u this] show ?thesis
    by (intro day_inv_cong [OF assms(1) s'(1-4)]) (simp_all add: s'(5))
qed

lemma order_quantity_snoc: "order_quantity i (xs @ [f])
    = order_quantity i xs + (if af_simulated_order_id f = i then af_quantity f else 0)"
  by (simp add: order_quantity_def)

lemma account_fill_keeps:
  assumes inv: "day_inv (day_key dc) a b (fill # pending) s" and run: "account_fill dc mark s fill = Inr s'"
  shows "day_inv (day_key dc) a b pending s'"
proof -
  let ?od = "sm_orders (fst (ds_queue s))"
  from run obtain order f L where o: "sm_order (fst (ds_queue s)) (qf_simulated_order_id fill) = Inr order"
    and c: "commit_queue_fill fill order mark (ds_ledger s) = Inr (f, L)"
    and s': "s' = s\<lparr>ds_ledger := L,
        ds_fills := ds_fills s @ [account_fill_row (day_key dc) order mark (ds_next_fill_id s) f],
        ds_next_fill_id := ds_next_fill_id s + 1\<rparr>"
    by (auto simp: account_fill_def bindR_eq_Inr calling_Inr record_queue_fill_Inr)
  have I: "model_inv (ds_queue s)" "ledger_inv (ds_ledger s)" "al_liquidations (ds_ledger s) = []"
    "orders_numbered a (ds_next_order_id s) ?od" "quantities_accounted ?od (al_fills (ds_ledger s)) (fill # pending)"
    "list_all2 (fill_row_of (day_key dc) ?od) (ds_fills s) (al_fills (ds_ledger s))"
    "map fr_fill_id (ds_fills s) = map (\<lambda>k. b + int k) [0..<length (ds_fills s)]"
    "ds_next_fill_id s = b + int (length (ds_fills s))"
    using inv by (simp_all add: day_inv_def Let_def)
  have linv: "ledger_inv L" using commit_queue_fill_inv [OF c I(2)] .
  from c obtain P' where v: "validate_queue_fill fill order = Inr ()"
    and f: "f = \<lparr>af_fill_id = al_next_fill_id (ds_ledger s), af_simulated_order_id = qf_simulated_order_id fill,
        af_market_message_index = qf_market_message_index fill,
        af_timestamp_ns = qf_timestamp_ns fill, af_price4 = qf_price4 fill,
        af_quantity = qf_quantity fill,
        af_fee_microusd = al_maker_fee_rate (ds_ledger s) * qf_quantity fill,
        af_cash_delta_microusd = - so_side order * qf_price4 fill * qf_quantity fill * 100,
        af_inventory_after = position P' (so_symbol_id order) + so_side order * qf_quantity fill\<rparr>"
    and L: "al_fills L = al_fills (ds_ledger s) @ [f]" "al_liquidations L = al_liquidations (ds_ledger s)"
    by (elim commit_queue_fill_Inr) simp
  have price: "qf_price4 fill = so_price4 order"
    using v by (auto simp: validate_queue_fill_def bindR_eq_Inr require_eq_Inr fail_defs)
  have get: "dict_get ?od (qf_simulated_order_id fill) = Some order" using o by (simp add: sm_order_Inr)
  have "fill_row_of (day_key dc) ?od (account_fill_row (day_key dc) order mark (ds_next_fill_id s) f) f"
    using get price by (simp add: fill_row_of_def account_fill_row_def f)
  then have "list_all2 (fill_row_of (day_key dc) ?od)
      (ds_fills s @ [account_fill_row (day_key dc) order mark (ds_next_fill_id s) f]) (al_fills L)"
    using list_all2_appendI [OF I(6)] by (simp add: L)
  moreover have "quantities_accounted ?od (al_fills L) pending"
    using I(5) by (auto simp: quantities_accounted_def L order_quantity_snoc f)
  ultimately show ?thesis
    using I linv by (simp add: day_inv_def Let_def s' L account_fill_row_def)
qed

lemma account_fills_keeps:
  assumes inv: "day_inv (day_key dc) a b fills s" and run: "account_fills dc sid fills mark s = Inr (mark', s')"
  shows "day_inv (day_key dc) a b [] s'"
proof (cases "fills = []")
  case True
  with assms show ?thesis by (simp add: account_fills_def)
next
  case False
  with run obtain m where loop: "foldR (account_fill dc m) s fills = Inr s'"
    by (auto simp: account_fills_def bindR_eq_Inr)
  show ?thesis
    using inv loop
    by (induction fills arbitrary: s) (auto simp: bindR_eq_Inr dest: account_fill_keeps)
qed

section \<open>Decisions\<close>

lemma new_order_extends:
  assumes "dict_get od i = None" "fill_row_of key od r f"
  shows "fill_row_of key (dict_set i s od) r f" "af_simulated_order_id f \<noteq> i"
  using assms by (auto simp: fill_row_of_def)

lemma unknown_order_unfilled:
  assumes "list_all2 (fill_row_of key od) rows accounted" "dict_get od i = None"
  shows "order_quantity i accounted = 0"
proof -
  have "\<forall>f\<in>set accounted. af_simulated_order_id f \<noteq> i"
    using assms(1) by (induction rule: list_all2_induct) (auto dest: new_order_extends(2) [OF assms(2)])
  then show ?thesis by (simp add: order_quantity_def filter_empty_conv)
qed

lemma submit_keeps:
  assumes inv: "day_inv key a b [] s" and run: "submit request (fst (ds_queue s)) = (Inr tr, m')"
    and id: "rq_simulated_order_id request = ds_next_order_id s"
  shows "day_inv key a b [] (s\<lparr>ds_queue := (m', snd (ds_queue s)), ds_next_order_id := ds_next_order_id s + 1\<rparr>)"
  using run
proof (rule submit_Inr)
  let ?n = "ds_next_order_id s" and ?od = "sm_orders (fst (ds_queue s))"
  fix act :: scheduled_action and sch
  assume free: "dict_get ?od (rq_simulated_order_id request) = None"
    and m': "m' = fst (ds_queue s)\<lparr>sm_scheduler := sch,
           sm_orders := dict_set (rq_simulated_order_id request)
             (new_order request (sa_effective_timestamp_ns act)) ?od,
           sm_occupied_slots := dict_set (rq_symbol_id request, rq_side request)
             (rq_simulated_order_id request) (sm_occupied_slots (fst (ds_queue s))),
           sm_scheduled_actions := dict_set (sa_sequence act) act (sm_scheduled_actions (fst (ds_queue s)))\<rparr>"
  let ?new = "new_order request (sa_effective_timestamp_ns act)"
  have od: "sm_orders m' = dict_set ?n ?new ?od" by (simp add: m' id)
  have free': "dict_get ?od ?n = None" using free by (simp add: id)
  have I: "model_inv (fst (ds_queue s), snd (ds_queue s))" "orders_numbered a ?n ?od"
    "quantities_accounted ?od (al_fills (ds_ledger s)) []"
    "list_all2 (fill_row_of key ?od) (ds_fills s) (al_fills (ds_ledger s))"
    using inv by (simp_all add: day_inv_def Let_def)
  have "model_inv (m', snd (ds_queue s))" using strategy_submit_ok [OF I(1) run] .
  moreover have "orders_numbered a (?n + 1) (sm_orders m')"
  proof -
    have k: "has_key ?od i \<longleftrightarrow> a \<le> i \<and> i < ?n" and n: "a \<le> ?n" for i
      using I(2) unfolding orders_numbered_def by blast+
    have "has_key (sm_orders m') i \<longleftrightarrow> a \<le> i \<and> i < ?n + 1" for i
      unfolding od has_key_set k using n by arith
    moreover have "a \<le> ?n + 1" using n by arith
    ultimately show ?thesis unfolding orders_numbered_def by blast
  qed
  moreover have "quantities_accounted (sm_orders m') (al_fills (ds_ledger s)) []"
    unfolding quantities_accounted_def
  proof (intro allI impI)
    fix i u
    assume u: "dict_get (sm_orders m') i = Some u"
    show "so_original_quantity u - so_remaining_quantity u
        = order_quantity i (al_fills (ds_ledger s)) + filled_by [] i"
    proof (cases "i = ?n")
      case True
      with u have "u = ?new" by (simp add: od)
      then show ?thesis using unknown_order_unfilled [OF I(4) free'] True by (simp add: new_order_def)
    next
      case False
      with u have "dict_get ?od i = Some u" by (simp add: od)
      then show ?thesis using I(3) by (simp add: quantities_accounted_def)
    qed
  qed
  moreover have "list_all2 (fill_row_of key (sm_orders m')) (ds_fills s) (al_fills (ds_ledger s))"
    using I(4) new_order_extends(1) [OF free'] by (auto simp: od elim: list_all2_mono)
  ultimately show ?thesis using inv by (simp add: day_inv_def Let_def)
qed

lemma cancel_keeps:
  assumes inv: "day_inv key a b [] s" and run: "request_cancel i t mi (fst (ds_queue s)) = (Inr tr, m')"
  shows "day_inv key a b [] (s\<lparr>ds_queue := (m', snd (ds_queue s))\<rparr>)"
proof (rule day_inv_queue [OF inv])
  have "model_inv (fst (ds_queue s), snd (ds_queue s))" using inv by (simp add: day_inv_def Let_def)
  from strategy_cancel_ok [OF this run] show "model_inv (m', snd (ds_queue s))" .
  show "evolved (sm_orders (fst (ds_queue s))) (filled_by []) (sm_orders (fst (m', snd (ds_queue s))))"
    using request_cancel_evolved [OF run] by (simp add: filled_by_none)
qed

text \<open>The day with the state machine and the next order of a refresh.\<close>

definition refreshed :: "day_state \<Rightarrow> int \<times> order_state_machine \<Rightarrow> day_state" where
  "refreshed s nm = s\<lparr>ds_queue := (snd nm, snd (ds_queue s)), ds_next_order_id := fst nm\<rparr>"

lemma refreshed_sel [simp]:
  "ds_queue (refreshed s nm) = (snd nm, snd (ds_queue s))" "ds_next_order_id (refreshed s nm) = fst nm"
  "ds_fills (refreshed s nm) = ds_fills s" "ds_next_fill_id (refreshed s nm) = ds_next_fill_id s" "ds_ledger (refreshed s nm) = ds_ledger s"
  by (simp_all add: refreshed_def)

lemma refreshed_twice [simp]: "(refreshed s nm)\<lparr>ds_queue := (m', snd (ds_queue s)), ds_next_order_id := n'\<rparr> = refreshed s (n', m')"
  by (simp add: refreshed_def)

lemma refresh_side_keeps:
  assumes inv: "day_inv key a b [] (refreshed s (n, m))"
    and run: "refresh_side d t i (n, m) side_proposal = Inr nm"
  shows "day_inv key a b [] (refreshed s nm)"
proof -
  obtain side proposal where sp: "side_proposal = (side, proposal)" by (cases side_proposal)
  obtain current where c: "occupied_order m (decision_symbol_id d) side = Inr current"
    using run by (auto simp: refresh_side_def sp bindR_eq_Inr)
  consider (same) "nm = (n, m)"
    | (cancel) j tr m' where "request_cancel j t i m = (Inr tr, m')" "nm = (n, m')"
    | (submit) p tr m' where "submit (quote_request d t i n side p) m = (Inr tr, m')" "nm = (n + 1, m')"
    using run c by (auto simp: refresh_side_def sp calling_Inr bindR_eq_Inr split: option.splits if_splits)
  then show ?thesis
  proof cases
    case same
    then show ?thesis using inv by simp
  next
    case cancel
    have "request_cancel j t i (fst (ds_queue (refreshed s (n, m)))) = (Inr tr, m')" using cancel(1) by simp
    from cancel_keeps [OF inv this] show ?thesis by (simp add: day_inv_def Let_def cancel(2))
  next
    case submit
    have "submit (quote_request d t i n side p) (fst (ds_queue (refreshed s (n, m)))) = (Inr tr, m')"
      using submit(1) by simp
    from submit_keeps [OF inv this] show ?thesis
      by (simp add: day_inv_def Let_def submit(2) quote_request_def refreshed_def)
  qed
qed

lemma refresh_quotes_keeps:
  assumes inv: "day_inv key a b [] s" and run: "refresh_quotes d t i (ds_next_order_id s) (fst (ds_queue s)) = Inr nm"
  shows "day_inv key a b [] (refreshed s nm)"
proof -
  obtain bid ask where q: "quotes_of d = (bid, ask)" by (cases "quotes_of d")
  have loop: "foldR (refresh_side d t i) (ds_next_order_id s, fst (ds_queue s)) [(1, bid), (-1, ask)] = Inr nm"
    using run by (simp add: refresh_quotes_def q)
  have start: "day_inv key a b [] (refreshed s (ds_next_order_id s, fst (ds_queue s)))"
    using inv by (simp add: refreshed_def)
  show ?thesis
  proof (rule foldR_inv [OF loop, where I = "\<lambda>nm. day_inv key a b [] (refreshed s nm)"])
    fix nm x nm'
    assume "day_inv key a b [] (refreshed s nm)" "refresh_side d t i nm x = Inr nm'"
    then show "day_inv key a b [] (refreshed s nm')" using refresh_side_keeps by (cases nm) blast
  qed (rule start)
qed

lemma decide_keeps:
  assumes inv: "day_inv key a b [] s" and run: "decide_if_due dc ev s = Inr s'"
  shows "day_inv key a b [] s'"
proof -
  have "s' = s \<or> (\<exists>d nm. refresh_quotes d (me_timestamp_ns ev) (me_message_index ev) (ds_next_order_id s) (fst (ds_queue s)) = Inr nm
      \<and> ds_queue s' = (snd nm, snd (ds_queue s)) \<and> ds_next_order_id s' = fst nm \<and> ds_fills s' = ds_fills s
      \<and> ds_next_fill_id s' = ds_next_fill_id s \<and> ds_ledger s' = ds_ledger s)"
    using run by (auto simp: decide_if_due_def Let_def bindR_eq_Inr split: if_splits)
  then show ?thesis
  proof
    assume "\<exists>d nm. refresh_quotes d (me_timestamp_ns ev) (me_message_index ev) (ds_next_order_id s) (fst (ds_queue s)) = Inr nm
      \<and> ds_queue s' = (snd nm, snd (ds_queue s)) \<and> ds_next_order_id s' = fst nm \<and> ds_fills s' = ds_fills s
      \<and> ds_next_fill_id s' = ds_next_fill_id s \<and> ds_ledger s' = ds_ledger s"
    then obtain d nm where r: "refresh_quotes d (me_timestamp_ns ev) (me_message_index ev) (ds_next_order_id s) (fst (ds_queue s)) = Inr nm"
      and s': "ds_queue s' = (snd nm, snd (ds_queue s))" "ds_next_order_id s' = fst nm" "ds_fills s' = ds_fills s"
      "ds_next_fill_id s' = ds_next_fill_id s" "ds_ledger s' = ds_ledger s" by blast
    have "ledger_inv (ds_ledger s)" using inv by (simp add: day_inv_def Let_def)
    then show ?thesis
      by (intro day_inv_cong [OF refresh_quotes_keeps [OF inv r]]) (simp_all add: s' refreshed_def)
  qed (use inv in simp)
qed

section \<open>A day's events\<close>

lemma guard_Inr: "(if b then fail_code c else r) = Inr x \<longleftrightarrow> \<not> b \<and> r = Inr x"
  by simp

lemma market_step_parts:
  assumes "market_step dc raw following s = Inr s'"
  obtains res mq quote s2 mark s3 s4 sn where
    "process_market_event (Row_mapping raw) (ds_queue s) = (Inr res, mq)"
    "me_symbol_id (qr_event res) \<in> ys_symbol_id ` set (dy_symbols (dc_day dc))"
    "visible_quote (dict_get (dc_snapshots dc) (PyInt (me_symbol_id (qr_event res)), PyInt (me_message_index (qr_event res))))
       = Inr quote"
    "(case quote of None \<Rightarrow> Inr (s\<lparr>ds_queue := mq\<rparr>)
      | Some (bid, ask) \<Rightarrow> apply_quote dc (qr_event res) bid ask (s\<lparr>ds_queue := mq\<rparr>)) = Inr s2"
    "account_fills dc (me_symbol_id (qr_event res)) (qr_fills res) (map_option (\<lambda>(bid, ask). bid + ask) quote) s2
       = Inr (mark, s3)"
    "(if truthy (dict_get_default raw ''in_session'' (PyBool False)) \<and> mark \<noteq> None
      then decide_if_due dc (qr_event res) s3 else Inr s3) = Inr s4"
    "ledger_snapshot (ds_ledger s4) = Inr sn"
    "complete_if_last (me_timestamp_ns (qr_event res)) following (s4\<lparr>ds_equity := ds_equity s4
       @ [equity_row_of (day_key dc) (Some (me_message_index (qr_event res))) (me_timestamp_ns (qr_event res)) sn]\<rparr>) = Inr s'"
  using assms
  by (auto simp: market_step_def Let_def bindR_eq_Inr calling_Inr guard_Inr split del: if_split)

lemma complete_if_last_keeps:
  assumes "day_inv key a b [] s" "complete_if_last t following s = Inr s'"
  shows "day_inv key a b [] s'"
  using assms complete_keeps by (auto simp: complete_if_last_def bindR_eq_Inr calling_Inr split: if_splits)

lemma market_step_keeps:
  assumes inv: "day_inv (day_key dc) a b [] s" and run: "market_step dc raw following s = Inr s'"
  shows "day_inv (day_key dc) a b [] s'"
  using run
proof (rule market_step_parts)
  fix res mq quote s2 mark s3 s4 sn
  assume p: "process_market_event (Row_mapping raw) (ds_queue s) = (Inr res, mq)"
    and q: "(case quote of None \<Rightarrow> Inr (s\<lparr>ds_queue := mq\<rparr>)
      | Some (bid, ask) \<Rightarrow> apply_quote dc (qr_event res) bid ask (s\<lparr>ds_queue := mq\<rparr>)) = Inr s2"
    and f: "account_fills dc (me_symbol_id (qr_event res)) (qr_fills res) (map_option (\<lambda>(bid, ask). bid + ask) quote) s2
       = Inr (mark, s3)"
    and d: "(if truthy (dict_get_default raw ''in_session'' (PyBool False)) \<and> mark \<noteq> None
      then decide_if_due dc (qr_event res) s3 else Inr s3) = Inr s4"
    and c: "complete_if_last (me_timestamp_ns (qr_event res)) following (s4\<lparr>ds_equity := ds_equity s4
       @ [equity_row_of (day_key dc) (Some (me_message_index (qr_event res))) (me_timestamp_ns (qr_event res)) sn]\<rparr>) = Inr s'"
  note i1 = market_event_keeps [OF inv p]
  have i2: "day_inv (day_key dc) a b (qr_fills res) s2"
    using q i1 apply_quote_keeps [OF i1] by (auto split: option.splits)
  note i3 = account_fills_keeps [OF i2 f]
  have i4: "day_inv (day_key dc) a b [] s4"
    using d i3 decide_keeps [OF i3] by (auto split: if_splits)
  have "ledger_inv (ds_ledger s4)" using i4 by (simp add: day_inv_def Let_def)
  then have "day_inv (day_key dc) a b [] (s4\<lparr>ds_equity := ds_equity s4
       @ [equity_row_of (day_key dc) (Some (me_message_index (qr_event res))) (me_timestamp_ns (qr_event res)) sn]\<rparr>)"
    by (intro day_inv_cong [OF i4]) simp_all
  from complete_if_last_keeps [OF this c] show ?thesis .
qed

lemma market_steps_inv:
  assumes "market_steps dc events s = Inr s'" "I s"
    and "\<And>raw following s s'. I s \<Longrightarrow> market_step dc raw following s = Inr s' \<Longrightarrow> I s'"
  shows "I s'"
  using assms by (induction events arbitrary: s) (auto simp: bindR_eq_Inr)

lemma market_steps_keep:
  assumes "market_steps dc events s = Inr s'" "day_inv (day_key dc) a b [] s"
  shows "day_inv (day_key dc) a b [] s'"
  by (rule market_steps_inv [OF assms(1), where I = "day_inv (day_key dc) a b []"])
    (use assms(2) market_step_keeps in blast)+

end
