(* ===== verification/Runner_Properties.thy ===== *)
theory Runner_Properties
  imports Runner_Invariant
begin

text \<open>
  What a completed run returns: orders, fills and liquidations numbered without gaps, every order
  ended and filled by exactly its fill rows, metrics that are sums over the rows, and markouts
  against the day's own quotes.
\<close>

section \<open>The end of a day\<close>

lemma settle_machine_inv:
  assumes "sm_inv m" "settle_session_end t quotes rate (m, L) = (Inr res, (m', L'))"
  shows "sm_inv m'"
proof -
  from assms(2) obtain p where "finish_settlement t p (m, with_plan p L) = (Inr res, (m', L'))"
    by (auto simp: settle_split split: sum.splits)
  then obtain trs where ex: "expire_all t (open_orders m) m = (Inr trs, m')"
    by (auto simp: finish_settlement_def bindM_Inr on_machine_def on_owner_def snapshotM_def split: prod.splits)
  show ?thesis
    by (rule forM_inv [OF ex [unfolded expire_all_def], where I = sm_inv]) (use assms(1) expire_inv in blast)+
qed

lemma expired_same_order:
  assumes "expired_orders t m i = Some s'"
  obtains s where "dict_get (sm_orders m) i = Some s" "same_order 0 s s'" "so_terminal s'"
proof -
  from assms obtain s where s: "dict_get (sm_orders m) i = Some s" "s' = (if so_terminal s then s else ended EXPIRED t s)"
    by (auto simp: expired_orders_def)
  show thesis
    by (rule that [OF s(1)])
      (use s(2) in \<open>simp_all add: same_order_def same_identity_def ended_def so_terminal_def split: if_splits\<close>)
qed

lemma expired_evolved:
  assumes "\<And>i. dict_get (sm_orders m') i = expired_orders t m i"
  shows "evolved (sm_orders m) (\<lambda>_. 0) (sm_orders m')"
  unfolding evolved_def
proof
  fix i
  show "rel_option (same_order 0) (dict_get (sm_orders m) i) (dict_get (sm_orders m') i)"
    using assms [of i]
    by (cases "dict_get (sm_orders m) i") (auto simp: expired_orders_def same_order_def same_identity_def ended_def)
qed

text \<open>The orders of a day in identifier order.\<close>

lemma numbered_orders:
  assumes "sm_inv m" "orders_numbered a n (sm_orders m)"
  shows "map so_simulated_order_id (sm_all_orders m) = [a..n - 1]"
    "s \<in> set (sm_all_orders m) \<longleftrightarrow> dict_get (sm_orders m) (so_simulated_order_id s) = Some s"
proof -
  have ord: "orders_inv m" using assms(1) sm_midD(3) by (simp add: sm_inv_def)
  then have ok: "dict_ok (sm_orders m)"
    and get: "\<And>i s. dict_get (sm_orders m) i = Some s \<Longrightarrow> so_simulated_order_id s = i"
    unfolding orders_inv_def by blast+
  let ?d = "sort_key fst (sm_orders m)"
  have mem: "(i, s) \<in> set ?d \<longleftrightarrow> dict_get (sm_orders m) i = Some s" for i s
    by (simp add: dict_mem_iff [OF ok])
  have ids: "map so_simulated_order_id (sm_all_orders m) = map fst ?d"
    unfolding sm_all_orders_def by (auto dest: get simp: dict_mem_iff [OF ok])
  have "mset (map fst ?d) = mset (map fst (sm_orders m))" by simp
  then have "distinct (map fst ?d) = distinct (map fst (sm_orders m))" by (rule mset_eq_imp_distinct_iff)
  then have dist: "distinct (map fst ?d)" using ok by (simp add: dict_ok_def)
  have "set (map fst ?d) = {i. has_key (sm_orders m) i}"
    using mem by (force simp: has_key_iff image_iff)
  then have "set (map fst ?d) = set [a..n - 1]" using assms(2) by (auto simp: orders_numbered_def)
  then show "map so_simulated_order_id (sm_all_orders m) = [a..n - 1]"
    unfolding ids using dist by (intro sorted_distinct_set_unique) simp_all
  show "s \<in> set (sm_all_orders m) \<longleftrightarrow> dict_get (sm_orders m) (so_simulated_order_id s) = Some s"
  proof -
    have "s \<in> set (sm_all_orders m) \<longleftrightarrow> (\<exists>i. dict_get (sm_orders m) i = Some s)"
      unfolding sm_all_orders_def using mem by (force simp: image_iff)
    then show ?thesis using get by blast
  qed
qed

text \<open>A fill row with its markout, if there was a later quote.\<close>

definition marked_out :: "(int \<times> int) list \<Rightarrow> fill_row \<Rightarrow> fill_row" where
  "marked_out timeline fill = (
     case List.find (\<lambda>(t, mid2). fr_timestamp_ns fill + MARKOUT_HORIZON_NS \<le> t) timeline of
       None \<Rightarrow> fill
     | Some (t, mid2) \<Rightarrow> fill\<lparr>fr_future_mid2 := Some mid2,
         fr_adverse_selection_100ms := Some (fr_side fill * (fr_fill_mid2 fill - mid2) * fr_quantity fill * 50)\<rparr>)"

lemma markout_eq:
  "markout timelines fill = bindR (lookup timelines (fr_symbol_id fill)) (\<lambda>timeline. Inr (marked_out timeline fill))"
proof -
  have "(case List.find P timeline of None \<Rightarrow> Inr fill | Some (t, mid2) \<Rightarrow> Inr (f t mid2))
      = Inr (case List.find P timeline of None \<Rightarrow> fill | Some (t, mid2) \<Rightarrow> f t mid2)"
    for P and timeline :: "(int \<times> int) list" and f :: "int \<Rightarrow> int \<Rightarrow> fill_row"
    by (simp split: option.split prod.split)
  then show ?thesis
    unfolding markout_def marked_out_def by (intro arg_cong2 [where f = bindR] refl ext)
qed

lemma markout_Inr:
  "markout timelines fill = Inr fill' \<longleftrightarrow>
     (\<exists>timeline. dict_get timelines (fr_symbol_id fill) = Some timeline \<and> fill' = marked_out timeline fill)"
  by (auto simp: markout_eq bindR_eq_Inr)

lemma apply_markouts_from:
  "foldR (\<lambda>acc fill. bindR (markout timelines fill) (\<lambda>fill'. Inr (acc @ [fill']))) acc fills = Inr fills'
    \<Longrightarrow> \<exists>new. fills' = acc @ new \<and> list_all2 (\<lambda>r r'. markout timelines r = Inr r') fills new"
proof (induction fills arbitrary: acc)
  case (Cons r fills)
  then obtain r' where r: "markout timelines r = Inr r'"
    "foldR (\<lambda>acc fill. bindR (markout timelines fill) (\<lambda>fill'. Inr (acc @ [fill']))) (acc @ [r']) fills = Inr fills'"
    by (auto simp: bindR_eq_Inr)
  from Cons.IH [OF this(2)] r(1) show ?case by auto
qed simp

lemma apply_markouts_Inr:
  "apply_markouts fills timelines = Inr fills' \<Longrightarrow> list_all2 (\<lambda>r r'. markout timelines r = Inr r') fills fills'"
  using apply_markouts_from [of timelines "[]" fills fills'] by (simp add: apply_markouts_def)

lemma marked_out_sel:
  assumes "markout timelines r = Inr r'"
  shows "fr_key r' = fr_key r" "fr_fill_id r' = fr_fill_id r" "fr_simulated_order_id r' = fr_simulated_order_id r"
    "fr_symbol_id r' = fr_symbol_id r" "fr_side r' = fr_side r" "fr_price4 r' = fr_price4 r"
    "fr_quantity r' = fr_quantity r" "fr_fee_microusd r' = fr_fee_microusd r"
    "fr_cash_delta_microusd r' = fr_cash_delta_microusd r" "fr_timestamp_ns r' = fr_timestamp_ns r"
    "fr_fill_mid2 r' = fr_fill_mid2 r"
  using assms by (auto simp: markout_Inr marked_out_def split: option.splits)

lemma map_markouts:
  assumes "list_all2 (\<lambda>r r'. markout timelines r = Inr r') fills fills'"
    and "\<And>r r'. markout timelines r = Inr r' \<Longrightarrow> f r' = f r"
  shows "map f fills' = map f fills"
  using assms(1) by (induction rule: list_all2_induct) (auto simp: assms(2))

lemma map_fill_rows:
  assumes "list_all2 (fill_row_of key od) rows accounted"
    and "\<And>r a. fill_row_of key od r a \<Longrightarrow> f r = g a"
  shows "map f rows = map g accounted"
  using assms(1) by (induction rule: list_all2_induct) (auto simp: assms(2))

definition row_quantity :: "fill_row list \<Rightarrow> int \<Rightarrow> int" where
  "row_quantity fills i = sum_list (map fr_quantity (filter (\<lambda>r. fr_simulated_order_id r = i) fills))"

lemma row_quantity_append [simp]: "row_quantity (xs @ ys) i = row_quantity xs i + row_quantity ys i"
  by (simp add: row_quantity_def)

lemma row_quantity_other: "\<forall>r\<in>set fills. fr_simulated_order_id r \<noteq> i \<Longrightarrow> row_quantity fills i = 0"
  by (simp add: row_quantity_def filter_empty_conv)

lemma row_quantity_accounted:
  assumes "list_all2 (fill_row_of key od) rows accounted"
  shows "row_quantity rows i = order_quantity i accounted"
  using assms by (induction rule: list_all2_induct) (auto simp: row_quantity_def order_quantity_def fill_row_of_def)

lemma row_quantity_markouts:
  assumes "list_all2 (\<lambda>r r'. markout timelines r = Inr r') fills fills'"
  shows "row_quantity fills' i = row_quantity fills i"
  using assms by (induction rule: list_all2_induct) (auto simp: row_quantity_def marked_out_sel)

text \<open>What a day adds to the rows.\<close>

definition order_rows_ok :: "fill_row list \<Rightarrow> (run_key \<times> simulated_order) list \<Rightarrow> bool" where
  "order_rows_ok fills orders \<longleftrightarrow> (\<forall>(key, s)\<in>set orders.
     so_terminal s \<and> so_original_quantity s - so_remaining_quantity s = row_quantity fills (so_simulated_order_id s))"

definition fill_rows_ok :: "fill_row list \<Rightarrow> (run_key \<times> simulated_order) list \<Rightarrow> bool" where
  "fill_rows_ok fills orders \<longleftrightarrow> (\<forall>r\<in>set fills. \<exists>s. (fr_key r, s) \<in> set orders
     \<and> so_simulated_order_id s = fr_simulated_order_id r \<and> fr_symbol_id r = so_symbol_id s
     \<and> fr_side r = so_side s \<and> fr_price4 r = so_price4 s)"

text \<open>The day's metrics against its rows.\<close>

definition flat_inventories :: "accounting_metrics_row \<Rightarrow> bool" where
  "flat_inventories a \<longleftrightarrow> (\<forall>(k, inventory)\<in>set (am_ending_inventory_by_symbol a). inventory = 0)"

definition day_metrics_ok ::
  "fill_row list \<Rightarrow> (run_key \<times> liquidation_accounting) list \<Rightarrow> day_metrics_row \<Rightarrow> bool" where
  "day_metrics_ok fills liquidations d \<longleftrightarrow> (
     let a = dm_accounting d; ls = map snd liquidations in
     am_passive_fill_count a = int (length fills)
   \<and> am_passive_fill_quantity a = sum_list (map fr_quantity fills)
   \<and> am_liquidation_count a = int (length ls)
   \<and> am_liquidation_quantity a = sum_list (map la_quantity ls)
   \<and> am_gross_cash a = sum_list (map fr_cash_delta_microusd fills) + sum_list (map la_cash_delta_microusd ls)
   \<and> am_maker_fee a = sum_list (map fr_fee_microusd fills)
   \<and> am_taker_fee a = sum_list (map la_fee_microusd ls)
   \<and> am_signed_fee a = am_maker_fee a + am_taker_fee a
   \<and> am_cash a = am_gross_cash a - am_signed_fee a
   \<and> am_marked_pnl a = am_cash a
   \<and> am_reconciled a \<and> am_settled a
   \<and> flat_inventories a
   \<and> tm_turnover (dm_temporal d) = sum_list (map (\<lambda>r. fr_price4 r * fr_quantity r * 100) fills)
       + sum_list (map (\<lambda>l. la_price4 l * la_quantity l * 100) ls))"

lemma accounting_metrics_Inr:
  assumes "accounting_metrics sn = Inr a"
  shows "am_passive_fill_count a = sn_passive_fill_count sn" "am_passive_fill_quantity a = sn_passive_fill_quantity sn"
    "am_liquidation_count a = sn_liquidation_count sn" "am_liquidation_quantity a = sn_liquidation_quantity sn"
    "am_gross_cash a = sn_gross_passive_cash sn + sn_gross_liquidation_cash sn" "am_maker_fee a = sn_maker_fee sn"
    "am_taker_fee a = sn_taker_fee sn" "am_signed_fee a = sn_signed_fee sn" "am_cash a = sn_cash sn"
    "am_marked_pnl a = sn_marked_pnl sn" "am_reconciled a" "am_settled a = sn_settled sn"
    "am_ending_inventory_by_symbol a = map (\<lambda>s. (sy_symbol_id s, sy_inventory s)) (sn_symbols sn)"
  using assms by (auto simp: accounting_metrics_def bindR_eq_Inr split: if_splits)


lemma list_all2_partner:
  assumes "list_all2 P xs ys"
  shows "y \<in> set ys \<Longrightarrow> \<exists>x\<in>set xs. P x y" "x \<in> set xs \<Longrightarrow> \<exists>y\<in>set ys. P x y"
  using assms by (induction rule: list_all2_induct) auto

lemma finish_day_parts:
  assumes "finish_day dc s rows = Inr rows'"
  obtains settlement m' L' fills metrics where
    "settle_session_end (terminal_timestamp (dc_day dc)) (dict_values (ds_last_quotes s)) (xs_taker_fee (dc_scenario dc))
       (fst (ds_queue s), ds_ledger s) = (Inr settlement, (m', L'))"
    "apply_markouts (ds_fills s) (ds_quote_timeline s) = Inr fills"
    "day_metrics (dc_day dc) L' fills (ds_equity s @ [equity_row_of (day_key dc) None (terminal_timestamp (dc_day dc))
       (ts_accounting settlement)]) = Inr metrics"
    "dr_orders rows' = dr_orders rows @ map (Pair (day_key dc)) (sm_all_orders m')"
    "dr_fills rows' = dr_fills rows @ fills"
    "dr_liquidations rows' = dr_liquidations rows @ map (\<lambda>(k, l). (day_key dc, l\<lparr>la_liquidation_id :=
       dr_next_liquidation_id rows + int k\<rparr>)) (enumerate 0 (ts_liquidations settlement))"
    "dr_equity rows' = dr_equity rows @ ds_equity s
       @ [equity_row_of (day_key dc) None (terminal_timestamp (dc_day dc)) (ts_accounting settlement)]"
    "dr_daily rows' = dr_daily rows @ [metrics]"
    "dr_next_order_id rows' = ds_next_order_id s" "dr_next_fill_id rows' = ds_next_fill_id s"
    "dr_next_liquidation_id rows' = dr_next_liquidation_id rows + int (length (ts_liquidations settlement))"
  using assms by (auto simp: finish_day_def Let_def bindR_eq_Inr calling_Inr split del: if_split)

lemma map_renumbered:
  assumes "\<And>l i. f (l\<lparr>la_liquidation_id := i\<rparr>) = f l"
  shows "map f (map snd (map (\<lambda>(k, l). (key, l\<lparr>la_liquidation_id := start + int k\<rparr>)) (enumerate n ls))) = map f ls"
  by (induction ls arbitrary: n) (simp_all add: assms)

lemma renumbered_ids:
  "map (la_liquidation_id \<circ> snd) (map (\<lambda>(k, l). (key, l\<lparr>la_liquidation_id := start + int k\<rparr>)) (enumerate n ls))
    = map (\<lambda>k. start + int k) [n..<n + length ls]"
proof (induction ls arbitrary: n)
  case (Cons l ls)
  then show ?case using Cons.IH [of "Suc n"] by (simp add: upt_conv_Cons del: upt_Suc)
qed simp

text \<open>A day that was kept ends with its orders and fills reconciled and its metrics those of its rows.\<close>

lemma finish_day_ok:
  assumes inv: "day_inv (day_key dc) a b [] s" and run: "finish_day dc s rows = Inr rows'"
  obtains orders fills liquidations metrics where
    "dr_orders rows' = dr_orders rows @ orders" "dr_fills rows' = dr_fills rows @ fills"
    "dr_liquidations rows' = dr_liquidations rows @ liquidations" "dr_daily rows' = dr_daily rows @ [metrics]"
    "map (so_simulated_order_id \<circ> snd) orders = [a..dr_next_order_id rows' - 1]" "a \<le> dr_next_order_id rows'"
    "map fr_fill_id fills = map (\<lambda>k. b + int k) [0..<length fills]" "dr_next_fill_id rows' = b + int (length fills)"
    "map (la_liquidation_id \<circ> snd) liquidations
       = map (\<lambda>k. dr_next_liquidation_id rows + int k) [0..<length liquidations]"
    "dr_next_liquidation_id rows' = dr_next_liquidation_id rows + int (length liquidations)"
    "order_rows_ok fills orders" "fill_rows_ok fills orders" "day_metrics_ok fills liquidations metrics"
  using run
proof (rule finish_day_parts)
  let ?m = "fst (ds_queue s)" and ?L = "ds_ledger s" and ?key = "day_key dc"
  fix settlement m' L' fills metrics
  assume settle: "settle_session_end (terminal_timestamp (dc_day dc)) (dict_values (ds_last_quotes s))
       (xs_taker_fee (dc_scenario dc)) (?m, ?L) = (Inr settlement, (m', L'))"
    and fills: "apply_markouts (ds_fills s) (ds_quote_timeline s) = Inr fills"
    and metrics: "day_metrics (dc_day dc) L' fills (ds_equity s @ [equity_row_of ?key None (terminal_timestamp (dc_day dc))
       (ts_accounting settlement)]) = Inr metrics"
    and rows: "dr_orders rows' = dr_orders rows @ map (Pair ?key) (sm_all_orders m')"
    "dr_fills rows' = dr_fills rows @ fills"
    "dr_liquidations rows' = dr_liquidations rows @ map (\<lambda>(k, l). (?key, l\<lparr>la_liquidation_id :=
       dr_next_liquidation_id rows + int k\<rparr>)) (enumerate 0 (ts_liquidations settlement))"
    "dr_daily rows' = dr_daily rows @ [metrics]"
    and counters: "dr_next_order_id rows' = ds_next_order_id s" "dr_next_fill_id rows' = ds_next_fill_id s"
    "dr_next_liquidation_id rows' = dr_next_liquidation_id rows + int (length (ts_liquidations settlement))"
  have I: "model_inv (ds_queue s)" "ledger_inv ?L" "al_liquidations ?L = []"
    "orders_numbered a (ds_next_order_id s) (sm_orders ?m)"
    "quantities_accounted (sm_orders ?m) (al_fills ?L) []"
    "list_all2 (fill_row_of ?key (sm_orders ?m)) (ds_fills s) (al_fills ?L)"
    "map fr_fill_id (ds_fills s) = map (\<lambda>k. b + int k) [0..<length (ds_fills s)]"
    "ds_next_fill_id s = b + int (length (ds_fills s))"
    using inv by (simp_all add: day_inv_def Let_def)
  have sm: "sm_inv ?m" using I(1) by (cases "ds_queue s") (simp add: model_inv_def queue_inv_def)
  have sm': "sm_inv m'" using settle_machine_inv [OF sm settle] .
  from settle obtain p where expired: "\<And>i. dict_get (sm_orders m') i = expired_orders (terminal_timestamp (dc_day dc)) ?m i"
    and L': "L' = settled_with p (with_plan p ?L)" "ledger_inv L'" and ls: "ts_liquidations settlement = pt_records p"
    and sn: "ledger_snapshot L' = Inr (ts_accounting settlement)"
    by (rule settle_Inr [OF sm I(2)]) blast
  have e: "evolved (sm_orders ?m) (filled_by []) (sm_orders m')"
    using expired_evolved [OF expired] by (simp add: filled_by_none)
  have numbered: "orders_numbered a (ds_next_order_id s) (sm_orders m')" using numbered_evolved [OF I(4) e] .
  note all = numbered_orders [OF sm' numbered]
  note marks = apply_markouts_Inr [OF fills]
  have len: "length fills = length (ds_fills s)" using marks by (simp add: list_all2_lengthD)
  have booked: "al_fills L' = al_fills ?L" "al_liquidations L' = pt_records p" "al_settled L'"
    using I(3) by (simp_all add: L' settled_with_def with_plan_def)
  show thesis
  proof (rule that [OF rows(1,2,3,4)])
    show "map (so_simulated_order_id \<circ> snd) (map (Pair ?key) (sm_all_orders m')) = [a..dr_next_order_id rows' - 1]"
      using all(1) by (simp add: counters comp_def)
    show "a \<le> dr_next_order_id rows'" using I(4) by (simp add: counters orders_numbered_def)
    show "map fr_fill_id fills = map (\<lambda>k. b + int k) [0..<length fills]"
      using I(7) map_markouts [OF marks, of fr_fill_id] by (simp add: marked_out_sel len)
    show "dr_next_fill_id rows' = b + int (length fills)" using I(8) by (simp add: counters len)
    show "map (la_liquidation_id \<circ> snd) (map (\<lambda>(k, l). (?key, l\<lparr>la_liquidation_id :=
       dr_next_liquidation_id rows + int k\<rparr>)) (enumerate 0 (ts_liquidations settlement)))
       = map (\<lambda>k. dr_next_liquidation_id rows + int k) [0..<length (map (\<lambda>(k, l). (?key, l\<lparr>la_liquidation_id :=
       dr_next_liquidation_id rows + int k\<rparr>)) (enumerate 0 (ts_liquidations settlement)))]"
      unfolding renumbered_ids by simp
    show "dr_next_liquidation_id rows' = dr_next_liquidation_id rows + int (length (map (\<lambda>(k, l). (?key, l\<lparr>la_liquidation_id :=
       dr_next_liquidation_id rows + int k\<rparr>)) (enumerate 0 (ts_liquidations settlement))))"
      by (simp add: counters)
    show "order_rows_ok fills (map (Pair ?key) (sm_all_orders m'))"
      unfolding order_rows_ok_def
    proof clarsimp
      fix u
      assume "u \<in> set (sm_all_orders m')"
      then have u: "dict_get (sm_orders m') (so_simulated_order_id u) = Some u" by (simp add: all(2))
      then have "so_terminal u" using expired [of "so_simulated_order_id u"] expired_same_order by metis
      moreover have "so_original_quantity u - so_remaining_quantity u = order_quantity (so_simulated_order_id u) (al_fills ?L)"
        using quantities_evolved [OF I(5) e] u by (simp add: quantities_accounted_def)
      ultimately show "so_terminal u \<and> so_original_quantity u - so_remaining_quantity u = row_quantity fills (so_simulated_order_id u)"
        using row_quantity_accounted [OF I(6)] row_quantity_markouts [OF marks] by simp
    qed
    show "fill_rows_ok fills (map (Pair ?key) (sm_all_orders m'))"
      unfolding fill_rows_ok_def
    proof
      fix r'
      assume "r' \<in> set fills"
      from list_all2_partner(1) [OF marks this] obtain r where
        r: "r \<in> set (ds_fills s)" "markout (ds_quote_timeline s) r = Inr r'" by blast
      from list_all2_partner(2) [OF I(6) r(1)] obtain f where "fill_row_of ?key (sm_orders ?m) r f" by blast
      from fill_row_evolved [OF this e] obtain u where u: "dict_get (sm_orders m') (fr_simulated_order_id r) = Some u"
        "fr_symbol_id r = so_symbol_id u" "fr_side r = so_side u" "fr_price4 r = so_price4 u" "fr_key r = ?key"
        by (auto simp: fill_row_of_def)
      have id: "so_simulated_order_id u = fr_simulated_order_id r"
        using orders_inv_get(1) [OF sm_midD(3) u(1)] sm' by (simp add: sm_inv_def)
      then have "u \<in> set (sm_all_orders m')" using u(1) by (simp add: all(2))
      then show "\<exists>v. (fr_key r', v) \<in> set (map (Pair ?key) (sm_all_orders m'))
         \<and> so_simulated_order_id v = fr_simulated_order_id r' \<and> fr_symbol_id r' = so_symbol_id v
         \<and> fr_side r' = so_side v \<and> fr_price4 r' = so_price4 v"
        using u id by (intro exI [of _ u]) (simp add: marked_out_sel [OF r(2)])
    qed
    show "day_metrics_ok fills (map (\<lambda>(k, l). (?key, l\<lparr>la_liquidation_id :=
       dr_next_liquidation_id rows + int k\<rparr>)) (enumerate 0 (ts_liquidations settlement))) metrics"
      (is "day_metrics_ok fills ?ls metrics")
    proof -
      from metrics sn have acc: "accounting_metrics (ts_accounting settlement) = Inr (dm_accounting metrics)"
        and temporal: "temporal_metrics (map eq_marked_pnl (ds_equity s @ [equity_row_of ?key None
             (terminal_timestamp (dc_day dc)) (ts_accounting settlement)]))
           (map (\<lambda>r. fr_price4 r * fr_quantity r * 100) fills
             @ map (\<lambda>l. la_price4 l * la_quantity l * 100) (al_liquidations L'))
           (map fr_adverse_selection_100ms fills) = Inr (dm_temporal metrics)"
        by (auto simp: day_metrics_def bindR_eq_Inr)
      have ls_map: "map f (map snd ?ls) = map f (pt_records p)" if "\<And>l i. f (l\<lparr>la_liquidation_id := i\<rparr>) = f l"
        for f :: "liquidation_accounting \<Rightarrow> int"
        using map_renumbered [OF that] by (simp only: ls)
      have fr: "map f fills = map g (al_fills ?L)"
        if "\<And>r r'. markout (ds_quote_timeline s) r = Inr r' \<Longrightarrow> f r' = f r"
          "\<And>r a. fill_row_of ?key (sm_orders ?m) r a \<Longrightarrow> f r = g a" for f g :: "_ \<Rightarrow> int"
        using map_markouts [OF marks that(1)] map_fill_rows [OF I(6) that(2)] by simp
      have fq: "map fr_quantity fills = map af_quantity (al_fills ?L)"
        "map fr_cash_delta_microusd fills = map af_cash_delta_microusd (al_fills ?L)"
        "map fr_fee_microusd fills = map af_fee_microusd (al_fills ?L)"
        by (rule fr; simp add: marked_out_sel fill_row_of_def)+
      have lf: "length fills = length (al_fills ?L)" using I(6) len by (simp add: list_all2_lengthD)
      have fb: "fills_booked L'" and lb: "liquidations_booked L'" and ld: "ledger_dicts L'"
        using ledger_invD [OF L'(2)] by simp_all
      note sn_facts = ledger_snapshot_Inr [OF sn ld]
      have flat: "position (al_positions L') k = 0" for k
        using lb booked(3) by (simp add: liquidations_booked_def)
      have "marked_total (al_marks L') (al_positions L') = 0"
        using flat ledger_dictsD(1) [OF ld] by (intro marked_total_zero) simp_all
      then have pnl: "sn_marked_pnl (ts_accounting settlement) = sn_cash (ts_accounting settlement)"
        using sn_facts(2,5) by simp
      note am = accounting_metrics_Inr [OF acc]
      have turnover: "tm_turnover (dm_temporal metrics) = sum_list (map (\<lambda>r. fr_price4 r * fr_quantity r * 100) fills)
          + sum_list (map (\<lambda>l. la_price4 l * la_quantity l * 100) (pt_records p))"
        using temporal_metrics_exact [OF temporal] by (simp add: booked(2))
      have inventories: "flat_inventories (dm_accounting metrics)"
        using flat by (auto simp: flat_inventories_def am sn_facts(1))
      have l4: "map la_quantity (map snd ?ls) = map la_quantity (pt_records p)"
        "map la_cash_delta_microusd (map snd ?ls) = map la_cash_delta_microusd (pt_records p)"
        "map la_fee_microusd (map snd ?ls) = map la_fee_microusd (pt_records p)"
        "map (\<lambda>l. la_price4 l * la_quantity l * 100) (map snd ?ls)
           = map (\<lambda>l. la_price4 l * la_quantity l * 100) (pt_records p)"
        by (rule ls_map; simp)+
      show ?thesis
        unfolding day_metrics_ok_def Let_def l4
        using am sn_facts(3-8,9,10,15-19) pnl turnover inventories fb lb
        by (simp add: fq lf booked fills_booked_def liquidations_booked_def ls)
    qed
  qed
qed

section \<open>Days\<close>

definition totals_ok ::
  "fill_row list \<Rightarrow> (run_key \<times> liquidation_accounting) list \<Rightarrow> day_metrics_row list \<Rightarrow> bool" where
  "totals_ok fills liquidations days \<longleftrightarrow> (
     let ls = map snd liquidations in
     total_of am_passive_fill_count days = int (length fills)
   \<and> total_of am_passive_fill_quantity days = sum_list (map fr_quantity fills)
   \<and> total_of am_liquidation_count days = int (length ls)
   \<and> total_of am_liquidation_quantity days = sum_list (map la_quantity ls)
   \<and> total_of am_gross_cash days = sum_list (map fr_cash_delta_microusd fills) + sum_list (map la_cash_delta_microusd ls)
   \<and> total_of am_maker_fee days = sum_list (map fr_fee_microusd fills)
   \<and> total_of am_taker_fee days = sum_list (map la_fee_microusd ls)
   \<and> total_of am_signed_fee days = total_of am_maker_fee days + total_of am_taker_fee days
   \<and> total_of am_cash days = total_of am_gross_cash days - total_of am_signed_fee days
   \<and> total_of am_marked_pnl days = total_of am_cash days
   \<and> sum_list (map (\<lambda>d. tm_turnover (dm_temporal d)) days)
       = sum_list (map (\<lambda>r. fr_price4 r * fr_quantity r * 100) fills)
         + sum_list (map (\<lambda>l. la_price4 l * la_quantity l * 100) ls)
   \<and> (\<forall>d\<in>set days. am_reconciled (dm_accounting d) \<and> am_settled (dm_accounting d)
        \<and> flat_inventories (dm_accounting d)))"

lemma total_of_append [simp]: "total_of f (days @ [d]) = total_of f days + f (dm_accounting d)"
  by (simp add: total_of_def)

lemma totals_append:
  assumes "totals_ok fills liquidations days" "day_metrics_ok fills' liquidations' d"
  shows "totals_ok (fills @ fills') (liquidations @ liquidations') (days @ [d])"
proof -
  note t = assms(1) [unfolded totals_ok_def Let_def]
  note d = assms(2) [unfolded day_metrics_ok_def Let_def]
  show ?thesis unfolding totals_ok_def Let_def by (simp add: t d ball_Un)
qed

definition rows_inv :: "day_rows \<Rightarrow> bool" where
  "rows_inv rows \<longleftrightarrow> 0 \<le> dr_next_order_id rows
   \<and> map (so_simulated_order_id \<circ> snd) (dr_orders rows) = [0..dr_next_order_id rows - 1]
   \<and> map fr_fill_id (dr_fills rows) = map int [0..<length (dr_fills rows)]
   \<and> dr_next_fill_id rows = int (length (dr_fills rows))
   \<and> map (la_liquidation_id \<circ> snd) (dr_liquidations rows) = map int [0..<length (dr_liquidations rows)]
   \<and> dr_next_liquidation_id rows = int (length (dr_liquidations rows))
   \<and> order_rows_ok (dr_fills rows) (dr_orders rows) \<and> fill_rows_ok (dr_fills rows) (dr_orders rows)
   \<and> totals_ok (dr_fills rows) (dr_liquidations rows) (dr_daily rows)"

lemma numbers_append:
  "map (\<lambda>k. int k) [0..<m] @ map (\<lambda>k. int m + int k) [0..<n] = map int [0..<m + n]"
  by (induction n) simp_all

lemma order_id_range:
  "map (so_simulated_order_id \<circ> snd) orders = [a..b - 1] \<Longrightarrow> (key, s) \<in> set orders
    \<Longrightarrow> a \<le> so_simulated_order_id s \<and> so_simulated_order_id s < b"
proof -
  assume ids: "map (so_simulated_order_id \<circ> snd) orders = [a..b - 1]" and mem: "(key, s) \<in> set orders"
  have "so_simulated_order_id s \<in> set (map (so_simulated_order_id \<circ> snd) orders)" using mem by force
  then show ?thesis by (simp add: ids)
qed

text \<open>Orders of different days have different numbers, so their fills do not mix.\<close>

lemma order_rows_append:
  assumes "order_rows_ok fills orders" "fill_rows_ok fills orders" "order_rows_ok fills' orders'" "fill_rows_ok fills' orders'"
    and ids: "map (so_simulated_order_id \<circ> snd) orders = [a..b - 1]" "map (so_simulated_order_id \<circ> snd) orders' = [b..c - 1]"
  shows "order_rows_ok (fills @ fills') (orders @ orders')"
proof -
  have low: "row_quantity fills' (so_simulated_order_id s) = 0" if "(key, s) \<in> set orders" for key s
  proof (rule row_quantity_other, rule ballI)
    fix r
    assume "r \<in> set fills'"
    with assms(4) obtain u where "(fr_key r, u) \<in> set orders'" "so_simulated_order_id u = fr_simulated_order_id r"
      by (auto simp: fill_rows_ok_def)
    then show "fr_simulated_order_id r \<noteq> so_simulated_order_id s"
      using order_id_range [OF ids(1) that] order_id_range [OF ids(2)] by fastforce
  qed
  have high: "row_quantity fills (so_simulated_order_id s) = 0" if "(key, s) \<in> set orders'" for key s
  proof (rule row_quantity_other, rule ballI)
    fix r
    assume "r \<in> set fills"
    with assms(2) obtain u where "(fr_key r, u) \<in> set orders" "so_simulated_order_id u = fr_simulated_order_id r"
      by (auto simp: fill_rows_ok_def)
    then show "fr_simulated_order_id r \<noteq> so_simulated_order_id s"
      using order_id_range [OF ids(2) that] order_id_range [OF ids(1)] by fastforce
  qed
  have "so_terminal s \<and> so_original_quantity s - so_remaining_quantity s
      = row_quantity (fills @ fills') (so_simulated_order_id s)" if mem: "(key, s) \<in> set (orders @ orders')" for key s
  proof (cases "(key, s) \<in> set orders")
    case True
    then show ?thesis using assms(1) low [OF True] by (auto simp: order_rows_ok_def)
  next
    case False
    with mem have m: "(key, s) \<in> set orders'" by simp
    then show ?thesis using assms(3) high [OF m] by (auto simp: order_rows_ok_def)
  qed
  then show ?thesis unfolding order_rows_ok_def by blast
qed

lemma fill_rows_append:
  "fill_rows_ok fills orders \<Longrightarrow> fill_rows_ok fills' orders' \<Longrightarrow> fill_rows_ok (fills @ fills') (orders @ orders')"
  unfolding fill_rows_ok_def by fastforce

lemma run_day_parts:
  assumes "run_day m config calibration scenario strategy_name weight experiment_id model_name rows day = Inr rows'"
  obtains state queue ledger snapshots strategies dc events s0 s where
    "new_state_machine (xs_submission_latency_ns scenario) (xs_cancellation_latency_ns scenario) = Inr state"
    "new_queue_model (sg_max_queue_anomalies config) = Inr queue"
    "new_ledger (xs_maker_fee scenario) (sc_inventory_limit (sg_strategy config)) = Inr ledger"
    "snapshot_by_key (dy_snapshots day) = Inr snapshots" "ordered_events (dy_events day) = Inr events"
    "dc_day dc = day" "dc_snapshots dc = snapshots"
    "day_key dc = \<lparr>rk_scenario_id = xs_scenario_id scenario, rk_strategy_name = strategy_name,
       rk_trading_date = dy_trading_date day\<rparr>"
    "s0 = \<lparr>ds_queue = (state, queue), ds_ledger = ledger, ds_strategies = strategies,
         ds_next_decision = per_symbol day (dy_session_start_ns day + sc_decision_interval_ns (sg_strategy config)),
         ds_fills = [], ds_equity = [], ds_last_quotes = [], ds_quote_timeline = per_symbol day [],
         ds_next_order_id = dr_next_order_id rows, ds_next_fill_id = dr_next_fill_id rows\<rparr>"
    "market_steps dc events s0 = Inr s" "finish_day dc s rows = Inr rows'"
proof -
  let ?dc = "\<lambda>snapshots. \<lparr>dc_libm = m, dc_scenario = scenario, dc_strategy_name = strategy_name,
           dc_decision_interval_ns = sc_decision_interval_ns (sg_strategy config), dc_day = day,
           dc_snapshots = snapshots\<rparr>"
  let ?start = "\<lambda>state queue ledger strategies. \<lparr>ds_queue = (state, queue), ds_ledger = ledger, ds_strategies = strategies,
         ds_next_decision = per_symbol day (dy_session_start_ns day + sc_decision_interval_ns (sg_strategy config)),
         ds_fills = [], ds_equity = [], ds_last_quotes = [], ds_quote_timeline = per_symbol day [],
         ds_next_order_id = dr_next_order_id rows, ds_next_fill_id = dr_next_fill_id rows\<rparr>"
  from assms obtain state queue ledger snapshots strategies events s where
    f: "new_state_machine (xs_submission_latency_ns scenario) (xs_cancellation_latency_ns scenario) = Inr state"
    "new_queue_model (sg_max_queue_anomalies config) = Inr queue"
    "new_ledger (xs_maker_fee scenario) (sc_inventory_limit (sg_strategy config)) = Inr ledger"
    "snapshot_by_key (dy_snapshots day) = Inr snapshots" "ordered_events (dy_events day) = Inr events"
    "market_steps (?dc snapshots) events (?start state queue ledger strategies) = Inr s"
    "finish_day (?dc snapshots) s rows = Inr rows'"
    by (auto simp: run_day_def Let_def bindR_eq_Inr)
  show thesis by (rule that [OF f(1-5) _ _ _ refl f(6,7)]) (simp_all add: day_key_def)
qed

lemma start_day_inv:
  assumes "new_state_machine sub can = Inr state" "new_queue_model budget = Inr queue" "new_ledger rate limit = Inr ledger"
    and s: "ds_queue s = (state, queue)" "ds_ledger s = ledger" "ds_fills s = []" "ds_next_order_id s = a"
      "ds_next_fill_id s = b"
  shows "day_inv key a b [] s"
proof -
  have od: "sm_orders state = []" using assms(1) by (auto simp: new_state_machine_def split: sum.splits if_splits)
  have L: "al_fills ledger = []" "al_liquidations ledger = []"
    using assms(3) by (auto simp: new_ledger_def bindR_eq_Inr split: if_splits)
  show ?thesis
    using model_inv_new [OF assms(1,2)] new_ledger_inv [OF assms(3)]
    by (simp add: day_inv_def Let_def s od L orders_numbered_def has_key_def quantities_accounted_def)
qed

lemma run_day_rows_inv:
  assumes inv: "rows_inv rows"
    and run: "run_day m config calibration scenario strategy_name weight experiment_id model_name rows day = Inr rows'"
  shows "rows_inv rows'"
  using run
proof (rule run_day_parts)
  let ?a = "dr_next_order_id rows" and ?b = "dr_next_fill_id rows"
  fix state queue ledger snapshots strategies dc events s0 s
  assume new: "new_state_machine (xs_submission_latency_ns scenario) (xs_cancellation_latency_ns scenario) = Inr state"
    "new_queue_model (sg_max_queue_anomalies config) = Inr queue"
    "new_ledger (xs_maker_fee scenario) (sc_inventory_limit (sg_strategy config)) = Inr ledger"
    and s0: "s0 = \<lparr>ds_queue = (state, queue), ds_ledger = ledger, ds_strategies = strategies,
         ds_next_decision = per_symbol day (dy_session_start_ns day + sc_decision_interval_ns (sg_strategy config)),
         ds_fills = [], ds_equity = [], ds_last_quotes = [], ds_quote_timeline = per_symbol day [],
         ds_next_order_id = ?a, ds_next_fill_id = ?b\<rparr>"
    and steps: "market_steps dc events s0 = Inr s" and finish: "finish_day dc s rows = Inr rows'"
  have "day_inv (day_key dc) ?a ?b [] s0" by (rule start_day_inv [OF new]) (simp_all add: s0)
  from market_steps_keep [OF steps this] have day: "day_inv (day_key dc) ?a ?b [] s" .
  obtain orders fills liquidations metrics where
    rows: "dr_orders rows' = dr_orders rows @ orders" "dr_fills rows' = dr_fills rows @ fills"
    "dr_liquidations rows' = dr_liquidations rows @ liquidations" "dr_daily rows' = dr_daily rows @ [metrics]"
    and ids: "map (so_simulated_order_id \<circ> snd) orders = [?a..dr_next_order_id rows' - 1]" "?a \<le> dr_next_order_id rows'"
    "map fr_fill_id fills = map (\<lambda>k. ?b + int k) [0..<length fills]" "dr_next_fill_id rows' = ?b + int (length fills)"
    "map (la_liquidation_id \<circ> snd) liquidations
       = map (\<lambda>k. dr_next_liquidation_id rows + int k) [0..<length liquidations]"
    "dr_next_liquidation_id rows' = dr_next_liquidation_id rows + int (length liquidations)"
    and ok: "order_rows_ok fills orders" "fill_rows_ok fills orders" "day_metrics_ok fills liquidations metrics"
    by (rule finish_day_ok [OF day finish])
  have I: "0 \<le> ?a" "map (so_simulated_order_id \<circ> snd) (dr_orders rows) = [0..?a - 1]"
    "map fr_fill_id (dr_fills rows) = map int [0..<length (dr_fills rows)]" "?b = int (length (dr_fills rows))"
    "map (la_liquidation_id \<circ> snd) (dr_liquidations rows) = map int [0..<length (dr_liquidations rows)]"
    "dr_next_liquidation_id rows = int (length (dr_liquidations rows))"
    "order_rows_ok (dr_fills rows) (dr_orders rows)" "fill_rows_ok (dr_fills rows) (dr_orders rows)"
    "totals_ok (dr_fills rows) (dr_liquidations rows) (dr_daily rows)"
    using inv by (simp_all add: rows_inv_def)
  have "[0..?a - 1] @ [?a..dr_next_order_id rows' - 1] = [0..dr_next_order_id rows' - 1]"
    using upto_split1 [of 0 ?a "dr_next_order_id rows' - 1"] I(1) ids(2)
    by (cases "?a = dr_next_order_id rows'") simp_all
  then have "map (so_simulated_order_id \<circ> snd) (dr_orders rows') = [0..dr_next_order_id rows' - 1]"
    using I(2) ids(1) by (simp add: rows)
  moreover have "map fr_fill_id (dr_fills rows') = map int [0..<length (dr_fills rows')]"
    using numbers_append by (simp add: rows I(3) ids(3) I(4))
  moreover have "map (la_liquidation_id \<circ> snd) (dr_liquidations rows') = map int [0..<length (dr_liquidations rows')]"
    using numbers_append I(5) ids(5) by (simp add: rows I(6))
  ultimately show ?thesis
    unfolding rows_inv_def
    using order_rows_append [OF I(7,8) ok(1,2) I(2) ids(1)] fill_rows_append [OF I(8) ok(2)]
      totals_append [OF I(9) ok(3)] I(1) ids(2,4,6)
    by (simp add: rows I(4,6))
qed

lemma no_rows_inv: "rows_inv no_rows"
  by (simp add: rows_inv_def no_rows_def order_rows_ok_def fill_rows_ok_def totals_ok_def total_of_def)

lemma run_scenario_parts:
  assumes "run_scenario m days config calibration scenario strategy_name weight experiment_id model_name = Inr res"
  shows "foldR (run_day m config calibration scenario strategy_name weight experiment_id model_name) no_rows days
      = Inr (sr_rows res)"
    "aggregate_metrics (dr_daily (sr_rows res)) (dr_fills (sr_rows res)) (dr_equity (sr_rows res)) = Inr (sr_metrics res)"
    "rows_inv (sr_rows res)"
proof -
  show rows: "foldR (run_day m config calibration scenario strategy_name weight experiment_id model_name) no_rows days
      = Inr (sr_rows res)"
    "aggregate_metrics (dr_daily (sr_rows res)) (dr_fills (sr_rows res)) (dr_equity (sr_rows res)) = Inr (sr_metrics res)"
    using assms by (auto simp: run_scenario_def bindR_eq_Inr split: if_splits)
  show "rows_inv (sr_rows res)"
    by (rule foldR_inv [OF rows(1), where I = rows_inv]) (use no_rows_inv run_day_rows_inv in blast)+
qed

section \<open>The quotes of a day\<close>

text \<open>The quote that an event shows, if it is in session and its snapshot has both prices.\<close>

definition quote_point :: "simulation_day_input \<Rightarrow> pyval row \<Rightarrow> (int \<times> int \<times> int) option" where
  "quote_point day raw = (case adapt_market_event (Row_mapping raw) of
       Inl _ \<Rightarrow> None
     | Inr ev \<Rightarrow>
       if \<not> in_session day (me_timestamp_ns ev) then None
       else case visible_quote (List.find
           (\<lambda>row. snapshot_key row = (PyInt (me_symbol_id ev), PyInt (me_message_index ev))) (dy_snapshots day)) of
         Inr (Some (bid, ask)) \<Rightarrow> Some (me_symbol_id ev, me_timestamp_ns ev, bid + ask)
       | _ \<Rightarrow> None)"

definition quotes_in :: "simulation_day_input \<Rightarrow> pyval row list \<Rightarrow> int \<Rightarrow> (int \<times> int) list" where
  "quotes_in day events sid = map snd (filter (\<lambda>(k, _). k = sid) (List.map_filter (quote_point day) events))"

definition quote_history :: "simulation_day_input \<Rightarrow> int \<Rightarrow> (int \<times> int) list" where
  "quote_history day = quotes_in day (sort_key row_index (dy_events day))"

lemma quotes_in_append [simp]: "quotes_in day (xs @ ys) sid = quotes_in day xs sid @ quotes_in day ys sid"
  by (simp add: quotes_in_def map_filter_def)

lemma quotes_in_Nil [simp]: "quotes_in day [] sid = []"
  by (simp add: quotes_in_def map_filter_simps)

lemma quotes_in_single: "quotes_in day [raw] sid = (case quote_point day raw of
    None \<Rightarrow> [] | Some (k, q) \<Rightarrow> if k = sid then [q] else [])"
  by (simp add: quotes_in_def map_filter_simps split: option.split prod.split)

lemma snapshot_by_key_find:
  assumes "snapshot_by_key rows = Inr d"
  shows "dict_get d k = List.find (\<lambda>row. snapshot_key row = k) rows"
proof -
  have "dict_get d k = (case dict_get d0 k of Some v \<Rightarrow> Some v | None \<Rightarrow> List.find (\<lambda>row. snapshot_key row = k) rows)"
    if "foldR (\<lambda>by_key row. if has_key by_key (snapshot_key row) then fail_code ERR_SIMULATION_ANOMALY
     else Inr (dict_set (snapshot_key row) row by_key)) d0 rows = Inr d" for d0
    using that
  proof (induction rows arbitrary: d0)
    case (Cons row rows)
    then have free: "dict_get d0 (snapshot_key row) = None"
      and rest: "foldR (\<lambda>by_key row. if has_key by_key (snapshot_key row) then fail_code ERR_SIMULATION_ANOMALY
        else Inr (dict_set (snapshot_key row) row by_key)) (dict_set (snapshot_key row) row d0) rows = Inr d"
      by (auto simp: bindR_eq_Inr has_key_def split: if_splits)
    from Cons.IH [OF rest] free show ?case by (auto split: option.splits)
  qed (simp split: option.splits)
  then show ?thesis using assms by (fastforce simp: snapshot_by_key_def)
qed

definition timelines_ok :: "simulation_day_input \<Rightarrow> pyval row list \<Rightarrow> day_state \<Rightarrow> bool" where
  "timelines_ok day events s \<longleftrightarrow> (\<forall>sid. dict_get (ds_quote_timeline s) sid =
     (if sid \<in> ys_symbol_id ` set (dy_symbols day) then Some (quotes_in day events sid) else None))"

lemma account_fills_timeline:
  "account_fills dc sid fills mark s = Inr (mark', s') \<Longrightarrow> ds_quote_timeline s' = ds_quote_timeline s"
proof -
  have one: "account_fill dc m s f = Inr s' \<Longrightarrow> ds_quote_timeline s' = ds_quote_timeline s" for m s f s'
    by (auto simp: account_fill_def bindR_eq_Inr)
  have "foldR (account_fill dc m) s fills = Inr s' \<Longrightarrow> ds_quote_timeline s' = ds_quote_timeline s" for m s
    by (induction fills arbitrary: s) (auto simp: bindR_eq_Inr dest: one)
  then show "account_fills dc sid fills mark s = Inr (mark', s') \<Longrightarrow> ds_quote_timeline s' = ds_quote_timeline s"
    by (auto simp: account_fills_def bindR_eq_Inr split: if_splits)
qed

lemma decide_timeline: "decide_if_due dc ev s = Inr s' \<Longrightarrow> ds_quote_timeline s' = ds_quote_timeline s"
  by (auto simp: decide_if_due_def Let_def bindR_eq_Inr split: if_splits)

lemma complete_timeline: "complete_if_last t following s = Inr s' \<Longrightarrow> ds_quote_timeline s' = ds_quote_timeline s"
  by (auto simp: complete_if_last_def bindR_eq_Inr split: if_splits)

lemma apply_quote_timeline:
  assumes "apply_quote dc ev bid ask s = Inr s'" "timelines_ok day events s" "dc_day dc = day"
  shows "dict_get (ds_quote_timeline s') sid = (if sid \<in> ys_symbol_id ` set (dy_symbols day)
    then Some (quotes_in day events sid @ (if in_session day (me_timestamp_ns ev) \<and> sid = me_symbol_id ev
      then [(me_timestamp_ns ev, bid + ask)] else [])) else None)"
proof (cases "in_session day (me_timestamp_ns ev)")
  case True
  with assms(1,3) obtain timeline where timeline: "dict_get (ds_quote_timeline s) (me_symbol_id ev) = Some timeline"
    "ds_quote_timeline s' = dict_set (me_symbol_id ev) (timeline @ [(me_timestamp_ns ev, bid + ask)]) (ds_quote_timeline s)"
    by (auto simp: apply_quote_def Let_def bindR_eq_Inr lookup_def split: option.splits)
  with assms(2) show ?thesis by (auto simp: timelines_ok_def True split: if_splits)
next
  case False
  then have "ds_quote_timeline s' = ds_quote_timeline s"
    using assms(1,3) by (auto simp: apply_quote_def Let_def bindR_eq_Inr)
  with assms(2) False show ?thesis by (simp add: timelines_ok_def)
qed

lemma market_step_timeline:
  assumes run: "market_step dc raw following s = Inr s'" and ok: "timelines_ok day events s"
    and day: "dc_day dc = day" and snapshots: "snapshot_by_key (dy_snapshots day) = Inr (dc_snapshots dc)"
  shows "timelines_ok day (events @ [raw]) s'"
  using run
proof (rule market_step_parts)
  fix res mq quote s2 mark s3 s4 sn
  assume p: "process_market_event (Row_mapping raw) (ds_queue s) = (Inr res, mq)"
    and sid: "me_symbol_id (qr_event res) \<in> ys_symbol_id ` set (dy_symbols (dc_day dc))"
    and vq: "visible_quote (dict_get (dc_snapshots dc) (PyInt (me_symbol_id (qr_event res)),
       PyInt (me_message_index (qr_event res)))) = Inr quote"
    and q: "(case quote of None \<Rightarrow> Inr (s\<lparr>ds_queue := mq\<rparr>)
      | Some (bid, ask) \<Rightarrow> apply_quote dc (qr_event res) bid ask (s\<lparr>ds_queue := mq\<rparr>)) = Inr s2"
    and f: "account_fills dc (me_symbol_id (qr_event res)) (qr_fills res) (map_option (\<lambda>(bid, ask). bid + ask) quote) s2
       = Inr (mark, s3)"
    and d: "(if truthy (dict_get_default raw ''in_session'' (PyBool False)) \<and> mark \<noteq> None
      then decide_if_due dc (qr_event res) s3 else Inr s3) = Inr s4"
    and c: "complete_if_last (me_timestamp_ns (qr_event res)) following (s4\<lparr>ds_equity := ds_equity s4
       @ [equity_row_of (day_key dc) (Some (me_message_index (qr_event res))) (me_timestamp_ns (qr_event res)) sn]\<rparr>) = Inr s'"
  have same: "ds_quote_timeline s' = ds_quote_timeline s2"
    using complete_timeline [OF c] account_fills_timeline [OF f] d decide_timeline [of dc "qr_event res" s3 s4]
    by (auto split: if_splits)
  have ev: "adapt_market_event (Row_mapping raw) = Inr (qr_event res)"
    using p by (auto simp: process_market_event_def process_event_def Let_def bindM_Inr)
  have point: "quote_point day raw = (if in_session day (me_timestamp_ns (qr_event res))
      then map_option (\<lambda>(bid, ask). (me_symbol_id (qr_event res), me_timestamp_ns (qr_event res), bid + ask)) quote else None)"
    using vq by (simp add: quote_point_def ev snapshot_by_key_find [OF snapshots] split: option.split)
  have ok1: "timelines_ok day events (s\<lparr>ds_queue := mq\<rparr>)" using ok by (simp add: timelines_ok_def)
  show ?thesis
  proof (cases quote)
    case None
    then have "s2 = s\<lparr>ds_queue := mq\<rparr>" using q by simp
    then show ?thesis using ok by (simp add: timelines_ok_def same quotes_in_single point None)
  next
    case (Some ba)
    obtain bid ask where ba: "ba = (bid, ask)" by (cases ba)
    have a: "apply_quote dc (qr_event res) bid ask (s\<lparr>ds_queue := mq\<rparr>) = Inr s2" using q Some ba by simp
    show ?thesis
      unfolding timelines_ok_def same apply_quote_timeline [OF a ok1 day]
      by (simp add: quotes_in_single point Some ba)
  qed
qed

lemma market_steps_timeline:
  assumes "market_steps dc events s = Inr s'" "timelines_ok day before s" "dc_day dc = day"
    "snapshot_by_key (dy_snapshots day) = Inr (dc_snapshots dc)"
  shows "timelines_ok day (before @ events) s'"
  using assms
proof (induction events arbitrary: s before)
  case (Cons raw rest)
  then obtain s1 where one: "market_step dc raw (case rest of [] \<Rightarrow> None | row # _ \<Rightarrow> Some row) s = Inr s1"
    and rest: "market_steps dc rest s1 = Inr s'" by (auto simp: bindR_eq_Inr)
  from Cons.IH [OF rest market_step_timeline [OF one Cons.prems(2-4)] Cons.prems(3,4)] show ?case by simp
qed simp

lemma per_symbol_get:
  "dict_get (per_symbol day v) sid = (if sid \<in> ys_symbol_id ` set (dy_symbols day) then Some v else None)"
proof -
  have h: "dict_get (foldl (\<lambda>d symbol. dict_set (ys_symbol_id symbol) v d) d0 symbols) sid
      = (if sid \<in> ys_symbol_id ` set symbols then Some v else dict_get d0 sid)" for d0 symbols
    by (induction symbols arbitrary: d0) auto
  show ?thesis unfolding per_symbol_def h by simp
qed

text \<open>A fill row against the quotes of its day.\<close>

definition fill_marked :: "simulation_day_input \<Rightarrow> fill_row \<Rightarrow> bool" where
  "fill_marked day r \<longleftrightarrow> rk_trading_date (fr_key r) = dy_trading_date day
   \<and> fr_future_mid2 r = map_option snd (List.find (\<lambda>(t, mid2). fr_timestamp_ns r + MARKOUT_HORIZON_NS \<le> t)
       (quote_history day (fr_symbol_id r)))
   \<and> fr_adverse_selection_100ms r = map_option (\<lambda>mid2. fr_side r * (fr_fill_mid2 r - mid2) * fr_quantity r * 50)
       (fr_future_mid2 r)"

lemma run_day_marked:
  assumes run: "run_day m config calibration scenario strategy_name weight experiment_id model_name rows day = Inr rows'"
    and r: "r \<in> set (dr_fills rows')" "r \<notin> set (dr_fills rows)"
  shows "fill_marked day r"
  using run
proof (rule run_day_parts)
  let ?a = "dr_next_order_id rows" and ?b = "dr_next_fill_id rows"
  fix state queue ledger snapshots strategies dc events s0 s
  assume new: "new_state_machine (xs_submission_latency_ns scenario) (xs_cancellation_latency_ns scenario) = Inr state"
    "new_queue_model (sg_max_queue_anomalies config) = Inr queue"
    "new_ledger (xs_maker_fee scenario) (sc_inventory_limit (sg_strategy config)) = Inr ledger"
    and snapshots: "snapshot_by_key (dy_snapshots day) = Inr snapshots" and events: "ordered_events (dy_events day) = Inr events"
    and dc: "dc_day dc = day" "dc_snapshots dc = snapshots"
    and key: "day_key dc = \<lparr>rk_scenario_id = xs_scenario_id scenario, rk_strategy_name = strategy_name,
       rk_trading_date = dy_trading_date day\<rparr>"
    and s0: "s0 = \<lparr>ds_queue = (state, queue), ds_ledger = ledger, ds_strategies = strategies,
         ds_next_decision = per_symbol day (dy_session_start_ns day + sc_decision_interval_ns (sg_strategy config)),
         ds_fills = [], ds_equity = [], ds_last_quotes = [], ds_quote_timeline = per_symbol day [],
         ds_next_order_id = ?a, ds_next_fill_id = ?b\<rparr>"
    and steps: "market_steps dc events s0 = Inr s" and finish: "finish_day dc s rows = Inr rows'"
  have "day_inv (day_key dc) ?a ?b [] s0" by (rule start_day_inv [OF new]) (simp_all add: s0)
  from market_steps_keep [OF steps this] have day: "day_inv (day_key dc) ?a ?b [] s" .
  have "timelines_ok day [] s0" by (simp add: timelines_ok_def s0 per_symbol_get)
  from market_steps_timeline [OF steps this dc(1)] snapshots dc(2) have "timelines_ok day events s" by simp
  moreover have "events = sort_key row_index (dy_events day)" using events by (auto simp: ordered_events_def split: if_splits)
  ultimately have history: "dict_get (ds_quote_timeline s) k = Some timeline \<Longrightarrow> timeline = quote_history day k" for k timeline
    by (auto simp: timelines_ok_def quote_history_def split: if_splits)
  from finish obtain fills where fills: "apply_markouts (ds_fills s) (ds_quote_timeline s) = Inr fills"
    "dr_fills rows' = dr_fills rows @ fills" by (rule finish_day_parts) blast
  with r have "r \<in> set fills" by simp
  from list_all2_partner(1) [OF apply_markouts_Inr [OF fills(1)] this] obtain r0 where
    r0: "r0 \<in> set (ds_fills s)" "markout (ds_quote_timeline s) r0 = Inr r" by blast
  have "list_all2 (fill_row_of (day_key dc) (sm_orders (fst (ds_queue s)))) (ds_fills s) (al_fills (ds_ledger s))"
    using day by (simp add: day_inv_def Let_def)
  from list_all2_partner(2) [OF this r0(1)] have plain: "fr_future_mid2 r0 = None" "fr_adverse_selection_100ms r0 = None"
    "fr_key r0 = day_key dc" by (auto simp: fill_row_of_def)
  from r0(2) history have "r = marked_out (quote_history day (fr_symbol_id r0)) r0" by (auto simp: markout_Inr)
  then show "fill_marked day r"
    using plain by (auto simp: fill_marked_def marked_out_def key split: option.splits)
qed

lemma run_scenario_marked:
  assumes "run_scenario m days config calibration scenario strategy_name weight experiment_id model_name = Inr res"
    "r \<in> set (dr_fills (sr_rows res))"
  shows "\<exists>day\<in>set days. fill_marked day r"
proof -
  let ?f = "run_day m config calibration scenario strategy_name weight experiment_id model_name"
  have "\<forall>r\<in>set (dr_fills (sr_rows res)). \<exists>day\<in>set days. fill_marked day r"
  proof (rule foldR_inv [OF run_scenario_parts(1) [OF assms(1)],
        where I = "\<lambda>rows. \<forall>r\<in>set (dr_fills rows). \<exists>day\<in>set days. fill_marked day r"])
    fix rows day rows'
    assume "day \<in> set days" "\<forall>r\<in>set (dr_fills rows). \<exists>day\<in>set days. fill_marked day r" "?f rows day = Inr rows'"
    then show "\<forall>r\<in>set (dr_fills rows'). \<exists>day\<in>set days. fill_marked day r" using run_day_marked by metis
  qed (simp add: no_rows_def)
  then show ?thesis using assms(2) by blast
qed

end
