(* ===== verification/Scenario_Properties.thy ===== *)
theory Scenario_Properties
  imports Runner_Properties Quoting_Properties
begin

text \<open>The results of a scenario run: identities between its rows, totals and markouts.\<close>

section \<open>One daily row per day\<close>

lemma run_day_date:
  assumes "run_day m config calibration scenario strategy_name weight experiment_id model_name rows day = Inr rows'"
  shows "map dm_trading_date (dr_daily rows') = map dm_trading_date (dr_daily rows) @ [dy_trading_date day]"
  using assms
proof (rule run_day_parts)
  fix dc s
  assume "dc_day dc = day" and "finish_day dc s rows = Inr rows'"
  then show ?thesis by (auto simp: finish_day_def Let_def bindR_eq_Inr day_metrics_def)
qed

lemma run_scenario_dates:
  assumes "run_scenario m days config calibration scenario strategy_name weight experiment_id model_name = Inr res"
  shows "map dm_trading_date (dr_daily (sr_rows res)) = map dy_trading_date days"
proof (rule foldR_prefix [OF run_scenario_parts(1) [OF assms],
      where I = "\<lambda>ds rows. map dm_trading_date (dr_daily rows) = map dy_trading_date ds"])
qed (simp_all add: no_rows_def run_day_date)

section \<open>Every day closes what it opened\<close>

text \<open>
  The trades of a date, read off the rows: what they do to the position in a symbol, and the cash
  they leave after fees.
\<close>

definition fill_trade :: "fill_row \<Rightarrow> trade" where
  "fill_trade r = (fr_symbol_id r, fr_side r * fr_quantity r, fr_price4 r)"

definition liquidation_trade :: "liquidation_accounting \<Rightarrow> trade" where
  "liquidation_trade l = (la_symbol_id l, la_side l * la_quantity l, la_price4 l)"

definition fills_of :: "day_rows \<Rightarrow> int \<times> int \<times> int \<Rightarrow> fill_row list" where
  "fills_of rows date = filter (\<lambda>r. rk_trading_date (fr_key r) = date) (dr_fills rows)"

definition liquidations_of :: "day_rows \<Rightarrow> int \<times> int \<times> int \<Rightarrow> liquidation_accounting list" where
  "liquidations_of rows date = map snd (filter (\<lambda>l. rk_trading_date (fst l) = date) (dr_liquidations rows))"

definition net_position :: "day_rows \<Rightarrow> int \<times> int \<times> int \<Rightarrow> int \<Rightarrow> int" where
  "net_position rows date k = sum_list (moves k (map fill_trade (fills_of rows date)))
     + sum_list (moves k (map liquidation_trade (liquidations_of rows date)))"

definition net_cash :: "day_rows \<Rightarrow> int \<times> int \<times> int \<Rightarrow> int" where
  "net_cash rows date = sum_list (map (\<lambda>r. fr_cash_delta_microusd r - fr_fee_microusd r) (fills_of rows date))
     + sum_list (map (\<lambda>l. la_cash_delta_microusd l - la_fee_microusd l) (liquidations_of rows date))"

text \<open>The profit at each equity row: that of its own day so far, and the cash of all the days before.\<close>

definition profit_curve :: "(int \<times> int \<times> int) list \<Rightarrow> day_rows \<Rightarrow> int list" where
  "profit_curve dates rows = map (\<lambda>r. eq_marked_pnl r
     + sum_list (map (net_cash rows) (takeWhile (\<lambda>date. date \<noteq> rk_trading_date (eq_key r)) dates))) (dr_equity rows)"

definition keyed_day :: "day_context \<Rightarrow> day_state \<Rightarrow> bool" where
  "keyed_day dc s \<longleftrightarrow> books (ds_ledger s) (map fill_trade (ds_fills s)) \<and> (\<forall>r\<in>set (ds_equity s). eq_key r = day_key dc)"

lemma account_fill_books:
  assumes "day_inv (day_key dc) a b (fill # pending) s" "account_fill dc mark s fill = Inr s'"
    "books (ds_ledger s) (map fill_trade (ds_fills s))"
  shows "books (ds_ledger s') (map fill_trade (ds_fills s')) \<and> ds_equity s' = ds_equity s"
proof -
  from assms(2) obtain order f L where c: "commit_queue_fill fill order mark (ds_ledger s) = Inr (f, L)"
    and s': "s' = s\<lparr>ds_ledger := L,
        ds_fills := ds_fills s @ [account_fill_row (day_key dc) order mark (ds_next_fill_id s) f],
        ds_next_fill_id := ds_next_fill_id s + 1\<rparr>"
    by (auto simp: account_fill_def bindR_eq_Inr calling_Inr record_queue_fill_Inr)
  have "ledger_inv (ds_ledger s)" using assms(1) by (simp add: day_inv_def Let_def)
  from books_fill [OF c this assms(3)] have "books L (map fill_trade (ds_fills s) @ call_trades (Record_Fill fill order mark))" .
  moreover have "fill_trade (account_fill_row (day_key dc) order mark (ds_next_fill_id s) f)
      = (so_symbol_id order, so_side order * qf_quantity fill, qf_price4 fill)"
    using c by (elim commit_queue_fill_Inr) (simp add: fill_trade_def account_fill_row_def)
  ultimately show ?thesis by (simp add: s')
qed

lemma account_fills_books:
  assumes inv: "day_inv (day_key dc) a b fills s" and run: "account_fills dc sid fills mark s = Inr (mark', s')"
    and books: "books (ds_ledger s) (map fill_trade (ds_fills s))"
  shows "books (ds_ledger s') (map fill_trade (ds_fills s')) \<and> ds_equity s' = ds_equity s"
proof (cases "fills = []")
  case True
  with run books show ?thesis by (simp add: account_fills_def)
next
  case False
  with run obtain m where "foldR (account_fill dc m) s fills = Inr s'" by (auto simp: account_fills_def bindR_eq_Inr)
  then show ?thesis
    using inv books
  proof (induction fills arbitrary: s)
    case (Cons f fills)
    then obtain s1 where one: "account_fill dc m s f = Inr s1" and rest: "foldR (account_fill dc m) s1 fills = Inr s'"
      by (auto simp: bindR_eq_Inr)
    note b = account_fill_books [OF Cons.prems(2) one Cons.prems(3)]
    from Cons.IH [OF rest account_fill_keeps [OF Cons.prems(2) one]] b show ?case by simp
  qed simp
qed

lemma apply_quote_books:
  "apply_quote dc ev bid ask s = Inr s' \<Longrightarrow> books (ds_ledger s) ts
    \<Longrightarrow> books (ds_ledger s') ts \<and> ds_fills s' = ds_fills s \<and> ds_equity s' = ds_equity s"
  by (auto simp: apply_quote_def Let_def bindR_eq_Inr calling_Inr update_mark_def books_def
      split: if_splits sum.splits elim!: commit_mark_Inr)

lemma decide_books: "decide_if_due dc ev s = Inr s'
    \<Longrightarrow> ds_ledger s' = ds_ledger s \<and> ds_fills s' = ds_fills s \<and> ds_equity s' = ds_equity s"
  by (auto simp: decide_if_due_def Let_def bindR_eq_Inr split: if_splits)

lemma complete_books: "complete_if_last t following s = Inr s'
    \<Longrightarrow> ds_ledger s' = ds_ledger s \<and> ds_fills s' = ds_fills s \<and> ds_equity s' = ds_equity s"
  by (auto simp: complete_if_last_def bindR_eq_Inr split: if_splits)

lemma market_step_keyed:
  assumes inv: "day_inv (day_key dc) a b [] s" "keyed_day dc s" and run: "market_step dc raw following s = Inr s'"
  shows "keyed_day dc s'"
  using run
proof (rule market_step_parts)
  fix res mq quote s2 mark s3 s4 sn
  assume p: "process_market_event (Row_mapping raw) (ds_queue s) = (Inr res, mq)"
    and q: "(case quote of None \<Rightarrow> Inr (s\<lparr>ds_queue := mq\<rparr>)
      | Some (bid, ask) \<Rightarrow> apply_quote dc (qr_event res) bid ask (s\<lparr>ds_queue := mq\<rparr>)) = Inr s2"
    and f: "account_fills dc (me_symbol_id (qr_event res)) (qr_fills res) (map_option (\<lambda>(bid, ask). bid + ask) quote) s2
       = Inr (mark, s3)"
    and d: "(if truthy (dict_get_default raw ''in_session'' (PyBool False)) \<and> mark \<noteq> None
      then decide_if_due dc (qr_event res) s3 else Inr s3) = Inr s4"
    and c: "complete_if_last (me_timestamp_ns (qr_event res)) following (s4\<lparr>ds_equity := ds_equity s4
       @ [equity_row_of (day_key dc) (Some (me_message_index (qr_event res))) (me_timestamp_ns (qr_event res)) sn]\<rparr>) = Inr s'"
  note i1 = market_event_keeps [OF inv(1) p]
  have i2: "day_inv (day_key dc) a b (qr_fills res) s2"
    using q i1 apply_quote_keeps [OF i1] by (auto split: option.splits)
  have b2: "books (ds_ledger s2) (map fill_trade (ds_fills s2)) \<and> ds_equity s2 = ds_equity s"
    using q inv(2) apply_quote_books [of dc "qr_event res" _ _ "s\<lparr>ds_queue := mq\<rparr>" s2 "map fill_trade (ds_fills s)"]
    by (auto simp: keyed_day_def split: option.splits)
  note b3 = account_fills_books [OF i2 f conjunct1 [OF b2]]
  have b4: "ds_ledger s4 = ds_ledger s3 \<and> ds_fills s4 = ds_fills s3 \<and> ds_equity s4 = ds_equity s3"
    using d decide_books [of dc "qr_event res" s3 s4] by (auto split: if_splits)
  show ?thesis
    using complete_books [OF c] b2 b3 b4 inv(2) by (auto simp: keyed_day_def equity_row_of_def)
qed

lemma market_steps_keyed:
  assumes "market_steps dc events s = Inr s'" "day_inv (day_key dc) a b [] s" "keyed_day dc s"
  shows "keyed_day dc s'"
  using market_steps_inv [OF assms(1), where I = "\<lambda>s. day_inv (day_key dc) a b [] s \<and> keyed_day dc s"]
    assms(2,3) market_step_keeps market_step_keyed by blast

text \<open>The liquidations of a settlement undo the positions of its ledger.\<close>

lemma liquidations_close:
  assumes "plan_closes trades rate L p"
  shows "sum_list (moves k (map liquidation_trade (pt_records p))) = - position (al_positions L) k"
proof -
  have "map liquidation_trade (pt_records p) = call_trades (Commit_Terminal p)"
    by (simp add: liquidation_trade_def)
  also have "\<dots> = map (\<lambda>t. (tt_symbol_id t, tt_side t * tt_quantity t, tt_price4 t)) trades"
    by (rule plan_trades(1) [OF assms])
  finally have m: "moves k (map liquidation_trade (pt_records p))
      = (if k \<in> tt_symbol_id ` set trades then [- position (al_positions L) k] else [])"
    using assms by (simp add: plan_closes_def closing_moves)
  moreover have "k \<notin> tt_symbol_id ` set trades \<Longrightarrow> position (al_positions L) k = 0"
    using assms unfolding plan_closes_def by blast
  ultimately show ?thesis by simp
qed

lemma renumbered_trades:
  "map liquidation_trade (map snd (map (\<lambda>(k, l). (key, l\<lparr>la_liquidation_id := start + int k\<rparr>)) (enumerate n ls)))
    = map liquidation_trade ls"
  by (induction ls arbitrary: n) (simp_all add: liquidation_trade_def)

text \<open>What one day adds: rows of its own date, a flat book, and its profit in cash.\<close>

definition day_added :: "int \<times> int \<times> int \<Rightarrow> day_rows \<Rightarrow> day_rows \<Rightarrow> fill_row list
    \<Rightarrow> (run_key \<times> liquidation_accounting) list \<Rightarrow> equity_row list \<Rightarrow> day_metrics_row \<Rightarrow> bool" where
  "day_added date rows rows' fills liquidations equity metrics \<longleftrightarrow>
     dr_fills rows' = dr_fills rows @ fills \<and> dr_liquidations rows' = dr_liquidations rows @ liquidations
   \<and> dr_equity rows' = dr_equity rows @ equity \<and> dr_daily rows' = dr_daily rows @ [metrics]
   \<and> (\<forall>r\<in>set fills. rk_trading_date (fr_key r) = date) \<and> (\<forall>l\<in>set liquidations. rk_trading_date (fst l) = date)
   \<and> (\<forall>r\<in>set equity. rk_trading_date (eq_key r) = date) \<and> dm_trading_date metrics = date
   \<and> day_metrics_ok fills liquidations metrics
   \<and> (\<forall>k. sum_list (moves k (map fill_trade fills)) + sum_list (moves k (map liquidation_trade (map snd liquidations))) = 0)"

lemma fill_trade_markouts:
  "list_all2 (\<lambda>r r'. markout timelines r = Inr r') fills fills' \<Longrightarrow> map fill_trade fills' = map fill_trade fills"
  by (erule map_markouts) (simp add: fill_trade_def marked_out_sel)

lemma finish_day_added:
  assumes inv: "day_inv (day_key dc) a b [] s" "keyed_day dc s" and run: "finish_day dc s rows = Inr rows'"
  shows "\<exists>fills liquidations equity metrics.
    day_added (dy_trading_date (dc_day dc)) rows rows' fills liquidations equity metrics"
  using run
proof (rule finish_day_parts)
  let ?m = "fst (ds_queue s)" and ?L = "ds_ledger s" and ?key = "day_key dc"
  fix settlement m' L' fills metrics
  assume settle: "settle_session_end (terminal_timestamp (dc_day dc)) (dict_values (ds_last_quotes s))
       (xs_taker_fee (dc_scenario dc)) (?m, ?L) = (Inr settlement, (m', L'))"
    and fills: "apply_markouts (ds_fills s) (ds_quote_timeline s) = Inr fills"
    and metrics: "day_metrics (dc_day dc) L' fills (ds_equity s @ [equity_row_of ?key None (terminal_timestamp (dc_day dc))
       (ts_accounting settlement)]) = Inr metrics"
    and rows: "dr_fills rows' = dr_fills rows @ fills"
    "dr_liquidations rows' = dr_liquidations rows @ map (\<lambda>(k, l). (?key, l\<lparr>la_liquidation_id :=
       dr_next_liquidation_id rows + int k\<rparr>)) (enumerate 0 (ts_liquidations settlement))"
    "dr_equity rows' = dr_equity rows @ ds_equity s
       @ [equity_row_of ?key None (terminal_timestamp (dc_day dc)) (ts_accounting settlement)]"
    "dr_daily rows' = dr_daily rows @ [metrics]"
  let ?equity = "ds_equity s @ [equity_row_of ?key None (terminal_timestamp (dc_day dc)) (ts_accounting settlement)]"
  let ?ls = "map (\<lambda>(k, l). (?key, l\<lparr>la_liquidation_id := dr_next_liquidation_id rows + int k\<rparr>))
    (enumerate 0 (ts_liquidations settlement))"
  have date: "rk_trading_date ?key = dy_trading_date (dc_day dc)" by (simp add: day_key_def)
  note marks = apply_markouts_Inr [OF fills]
  have I: "model_inv (ds_queue s)" "ledger_inv ?L" "list_all2 (fill_row_of ?key (sm_orders ?m)) (ds_fills s) (al_fills ?L)"
    using inv(1) by (simp_all add: day_inv_def Let_def)
  have "map fr_key (ds_fills s) = map (\<lambda>_. ?key) (al_fills ?L)"
    by (rule map_fill_rows [OF I(3)]) (simp add: fill_row_of_def)
  then have "map fr_key fills = map (\<lambda>_. ?key) (al_fills ?L)" using map_markouts [OF marks, of fr_key] by (simp add: marked_out_sel)
  then have "set (map fr_key fills) \<subseteq> {?key}" by auto
  then have keys: "\<forall>r\<in>set fills. fr_key r = ?key" by auto
  have ok: "day_metrics_ok fills ?ls metrics"
    using finish_day_ok [OF inv(1) run] rows by (metis same_append_eq last_snoc)
  have sm: "sm_inv ?m" using I(1) by (cases "ds_queue s") (simp add: model_inv_def queue_inv_def)
  from settle obtain trades p where "plan_terminal_accounting trades (xs_taker_fee (dc_scenario dc)) ?L = Inr p"
    and ls: "ts_liquidations settlement = pt_records p" by (rule settle_Inr [OF sm I(2)]) blast
  then have "plan_closes trades (xs_taker_fee (dc_scenario dc)) ?L p"
    using plan_terminal_Inr(4,5) ledger_invD(1) [OF I(2)] by blast
  note close = liquidations_close [OF this]
  have "sum_list (moves k (map fill_trade fills)) = position (al_positions ?L) k" for k
    using inv(2) fill_trade_markouts [OF marks] by (simp add: keyed_day_def books_def)
  then have flat: "sum_list (moves k (map fill_trade fills))
      + sum_list (moves k (map liquidation_trade (map snd ?ls))) = 0" for k
    unfolding renumbered_trades ls close by simp
  have "day_added (dy_trading_date (dc_day dc)) rows rows' fills ?ls ?equity metrics"
    unfolding day_added_def
  proof (intro conjI)
    show "dm_trading_date metrics = dy_trading_date (dc_day dc)"
      using metrics by (auto simp: day_metrics_def bindR_eq_Inr)
    show "\<forall>r\<in>set ?equity. rk_trading_date (eq_key r) = dy_trading_date (dc_day dc)"
      using inv(2) by (auto simp: keyed_day_def equity_row_of_def date)
  qed (use rows keys flat ok in \<open>auto simp: date simp del: map_map\<close>)
  then show ?thesis by blast
qed

lemma run_day_added:
  assumes "run_day m config calibration scenario strategy_name weight experiment_id model_name rows day = Inr rows'"
  shows "\<exists>fills liquidations equity metrics. day_added (dy_trading_date day) rows rows' fills liquidations equity metrics"
  using assms
proof (rule run_day_parts)
  let ?a = "dr_next_order_id rows" and ?b = "dr_next_fill_id rows"
  fix state queue ledger snapshots strategies dc events s0 s
  assume new: "new_state_machine (xs_submission_latency_ns scenario) (xs_cancellation_latency_ns scenario) = Inr state"
    "new_queue_model (sg_max_queue_anomalies config) = Inr queue"
    "new_ledger (xs_maker_fee scenario) (sc_inventory_limit (sg_strategy config)) = Inr ledger"
    and dc: "dc_day dc = day"
    and s0: "s0 = \<lparr>ds_queue = (state, queue), ds_ledger = ledger, ds_strategies = strategies,
         ds_next_decision = per_symbol day (dy_session_start_ns day + sc_decision_interval_ns (sg_strategy config)),
         ds_fills = [], ds_equity = [], ds_last_quotes = [], ds_quote_timeline = per_symbol day [],
         ds_next_order_id = ?a, ds_next_fill_id = ?b\<rparr>"
    and steps: "market_steps dc events s0 = Inr s" and finish: "finish_day dc s rows = Inr rows'"
  have inv: "day_inv (day_key dc) ?a ?b [] s0" by (rule start_day_inv [OF new]) (simp_all add: s0)
  have "keyed_day dc s0" using new_ledger_books [OF new(3)] by (simp add: keyed_day_def s0)
  from finish_day_added [OF market_steps_keep [OF steps inv] market_steps_keyed [OF steps inv this] finish]
  show ?thesis by (simp only: dc)
qed

text \<open>
  The rows of the days so far: nothing is left open on any date, every daily profit is the cash of
  its date's rows, and the concatenated equity is the profit curve when no date repeats.
\<close>

definition dated_inv :: "simulation_day_input list \<Rightarrow> day_rows \<Rightarrow> bool" where
  "dated_inv days rows \<longleftrightarrow> (let dates = map dy_trading_date days in
     map dm_trading_date (dr_daily rows) = dates
   \<and> (\<forall>r\<in>set (dr_fills rows). rk_trading_date (fr_key r) \<in> set dates)
   \<and> (\<forall>l\<in>set (dr_liquidations rows). rk_trading_date (fst l) \<in> set dates)
   \<and> (\<forall>r\<in>set (dr_equity rows). rk_trading_date (eq_key r) \<in> set dates)
   \<and> (\<forall>date k. net_position rows date k = 0)
   \<and> (distinct dates \<longrightarrow> map (am_marked_pnl \<circ> dm_accounting) (dr_daily rows) = map (net_cash rows) dates
        \<and> concatenated_equity (dr_equity rows) 0 (dr_daily rows) = profit_curve dates rows))"

lemma concatenated_equity_append:
  "concatenated_equity equity offset (days @ [d]) = concatenated_equity equity offset days
    @ map (\<lambda>r. offset + sum_list (map (am_marked_pnl \<circ> dm_accounting) days) + eq_marked_pnl r)
        (filter (\<lambda>r. rk_trading_date (eq_key r) = dm_trading_date d) equity)"
  by (induction days arbitrary: offset) (simp_all add: add.assoc)

lemma concatenated_equity_other:
  assumes "\<forall>r\<in>set equity'. rk_trading_date (eq_key r) \<notin> dm_trading_date ` set days"
  shows "concatenated_equity (equity @ equity') offset days = concatenated_equity equity offset days"
  using assms by (induction days arbitrary: offset) (auto simp: filter_empty_conv)

lemma day_added_parts:
  assumes "day_added date rows rows' fills liquidations equity metrics"
  shows "fills_of rows' d = fills_of rows d @ (if d = date then fills else [])"
    "liquidations_of rows' d = liquidations_of rows d @ (if d = date then map snd liquidations else [])"
proof -
  have "filter (\<lambda>r. rk_trading_date (fr_key r) = d) fills = (if d = date then fills else [])"
    "filter (\<lambda>l. rk_trading_date (fst l) = d) liquidations = (if d = date then liquidations else [])"
    using assms by (auto simp: day_added_def filter_empty_conv filter_id_conv)
  then show "fills_of rows' d = fills_of rows d @ (if d = date then fills else [])"
    "liquidations_of rows' d = liquidations_of rows d @ (if d = date then map snd liquidations else [])"
    using assms by (simp_all add: day_added_def fills_of_def liquidations_of_def)
qed

lemma day_added_cash:
  assumes add: "day_added date rows rows' fills liquidations equity metrics"
    and new: "\<forall>r\<in>set (dr_fills rows). rk_trading_date (fr_key r) \<noteq> date"
      "\<forall>l\<in>set (dr_liquidations rows). rk_trading_date (fst l) \<noteq> date"
  shows "net_cash rows' d = (if d = date then am_marked_pnl (dm_accounting metrics) else net_cash rows d)"
proof -
  have "fills_of rows date = []" "liquidations_of rows date = []"
    using new by (auto simp: fills_of_def liquidations_of_def filter_empty_conv)
  moreover have "day_metrics_ok fills liquidations metrics" using add by (simp add: day_added_def)
  ultimately show ?thesis
    by (simp add: net_cash_def day_added_parts [OF add] day_metrics_ok_def Let_def sum_list_subtractf)
qed

lemma dated_inv_step:
  assumes inv: "dated_inv days rows" and add: "day_added (dy_trading_date day) rows rows' fills liquidations equity metrics"
  shows "dated_inv (days @ [day]) rows'"
proof -
  let ?dates = "map dy_trading_date days" and ?date = "dy_trading_date day"
  note I = inv [unfolded dated_inv_def Let_def]
  note A = add [unfolded day_added_def]
  have flat: "net_position rows' d k = 0" for d k
  proof -
    have "net_position rows d k = 0" using I by blast
    moreover have "sum_list (moves k (map fill_trade fills)) + sum_list (moves k (map liquidation_trade (map snd liquidations))) = 0"
      using A by blast
    moreover have "net_position rows' d k = net_position rows d k + (if d = ?date
        then sum_list (moves k (map fill_trade fills)) + sum_list (moves k (map liquidation_trade (map snd liquidations)))
        else 0)"
      unfolding net_position_def day_added_parts [OF add] by (simp add: moves_def)
    ultimately show ?thesis by simp
  qed
  have curve: "map (am_marked_pnl \<circ> dm_accounting) (dr_daily rows') = map (net_cash rows') (?dates @ [?date])
      \<and> concatenated_equity (dr_equity rows') 0 (dr_daily rows') = profit_curve (?dates @ [?date]) rows'"
    if dist: "distinct (?dates @ [?date])"
  proof -
    have new: "?date \<notin> set ?dates" using dist by simp
    have cash: "net_cash rows' d = (if d = ?date then am_marked_pnl (dm_accounting metrics) else net_cash rows d)" for d
    proof (rule day_added_cash [OF add])
      show "\<forall>r\<in>set (dr_fills rows). rk_trading_date (fr_key r) \<noteq> ?date" using I new by metis
      show "\<forall>l\<in>set (dr_liquidations rows). rk_trading_date (fst l) \<noteq> ?date" using I new by metis
    qed
    have old: "map (net_cash rows') ds = map (net_cash rows) ds" if "set ds \<subseteq> set ?dates" for ds
      using that new by (auto simp: cash)
    have pnl: "map (am_marked_pnl \<circ> dm_accounting) (dr_daily rows) = map (net_cash rows) ?dates"
      "concatenated_equity (dr_equity rows) 0 (dr_daily rows) = profit_curve ?dates rows"
      using I dist by auto
    have daily: "dm_trading_date ` set (dr_daily rows) = set ?dates" using I by (metis set_map)
    have at: "r \<in> set (dr_equity rows) \<Longrightarrow> rk_trading_date (eq_key r) \<in> set ?dates"
      "r \<in> set equity \<Longrightarrow> rk_trading_date (eq_key r) = ?date" for r
      using I A by blast+
    have e1: "filter (\<lambda>r. rk_trading_date (eq_key r) = ?date) (dr_equity rows) = []"
      "filter (\<lambda>r. rk_trading_date (eq_key r) = ?date) equity = equity"
      unfolding filter_empty_conv filter_id_conv using at new by metis+
    have c: "concatenated_equity (dr_equity rows') 0 (dr_daily rows')
        = profit_curve ?dates rows @ map (\<lambda>r. sum_list (map (net_cash rows) ?dates) + eq_marked_pnl r) equity"
      using A new e1 by (simp add: concatenated_equity_append concatenated_equity_other daily pnl del: map_map)
    have first: "takeWhile (\<lambda>d. d \<noteq> rk_trading_date (eq_key r)) (?dates @ [?date])
        = takeWhile (\<lambda>d. d \<noteq> rk_trading_date (eq_key r)) ?dates" if "r \<in> set (dr_equity rows)" for r
      using at(1) [OF that] by (intro takeWhile_append1 [of "rk_trading_date (eq_key r)"]) simp_all
    have last: "takeWhile (\<lambda>d. d \<noteq> rk_trading_date (eq_key r)) (?dates @ [?date]) = ?dates" if "r \<in> set equity" for r
      using at(2) [OF that] new by (subst takeWhile_append2) auto
    have before: "map (net_cash rows') (takeWhile P ?dates) = map (net_cash rows) (takeWhile P ?dates)" for P
      by (rule old) (auto dest: set_takeWhileD)
    have sums: "sum_list (map (net_cash rows') (takeWhile P ?dates)) = sum_list (map (net_cash rows) (takeWhile P ?dates))"
      "sum_list (map (net_cash rows') ?dates) = sum_list (map (net_cash rows) ?dates)" for P
      by (simp_all only: before old subset_refl)
    have "profit_curve (?dates @ [?date]) rows'
        = profit_curve ?dates rows @ map (\<lambda>r. eq_marked_pnl r + sum_list (map (net_cash rows) ?dates)) equity"
      using A first last by (simp add: profit_curve_def sums del: map_map cong: map_cong)
    then show ?thesis using c A pnl(1) old [of ?dates] cash [of ?date] by (simp add: add.commute)
  qed
  show ?thesis unfolding dated_inv_def Let_def using I A flat curve by auto
qed

lemma run_scenario_dated:
  assumes "run_scenario m days config calibration scenario strategy_name weight experiment_id model_name = Inr res"
  shows "dated_inv days (sr_rows res)"
proof (rule foldR_prefix [OF run_scenario_parts(1) [OF assms], where I = dated_inv])
  show "dated_inv [] no_rows"
    by (simp add: dated_inv_def no_rows_def net_position_def fills_of_def liquidations_of_def moves_def profit_curve_def)
next
  fix before day after rows rows'
  assume "dated_inv before rows"
    and "run_day m config calibration scenario strategy_name weight experiment_id model_name rows day = Inr rows'"
  with run_day_added dated_inv_step show "dated_inv (before @ [day]) rows'" by metis
qed

lemma aggregate_metrics_Inr:
  assumes "aggregate_metrics days fills equity = Inr x"
  shows "temporal_metrics (concatenated_equity equity 0 days) [] (map fr_adverse_selection_100ms fills) = Inr (sx_path x)"
    "sx_passive_fill_count x = total_of am_passive_fill_count days"
    "sx_passive_fill_quantity x = total_of am_passive_fill_quantity days"
    "sx_liquidation_count x = total_of am_liquidation_count days"
    "sx_liquidation_quantity x = total_of am_liquidation_quantity days"
    "sx_gross_cash x = total_of am_gross_cash days"
    "sx_maker_fee x = total_of am_maker_fee days" "sx_taker_fee x = total_of am_taker_fee days"
    "sx_signed_fee x = total_of am_signed_fee days" "sx_cash x = total_of am_cash days"
    "sx_marked_pnl x = total_of am_marked_pnl days"
    "sx_turnover x = sum_list (map (\<lambda>day. tm_turnover (dm_temporal day)) days)"
    "sx_trading_days x = int (length days)"
    "sx_reconciled x = list_all (\<lambda>day. am_reconciled (dm_accounting day)) days"
    "sx_settled x = list_all (\<lambda>day. am_settled (dm_accounting day)) days"
  using assms by (auto simp: aggregate_metrics_def bindR_eq_Inr)

lemma upto_numbers: "[0..int n - 1] = map int [0..<n]"
  by (induction n) (simp_all add: upto_rec2 [of 0])

section \<open>Properties\<close>

text \<open>
  C38: the rows of a scenario run reconcile with each other. Orders, fills and liquidations are
  numbered from zero without gaps over all days; every order ends in a terminal state, and the
  quantity it lost is exactly what its fill rows say; every fill row carries the symbol, side and
  limit price of an order row of the same run and day.
\<close>

theorem orders_and_fills_reconcile:
  assumes "run_scenario m days config calibration scenario strategy_name weight experiment_id model_name = Inr res"
  shows "let rows = sr_rows res in
      map (so_simulated_order_id \<circ> snd) (dr_orders rows) = map int [0..<length (dr_orders rows)]
    \<and> map fr_fill_id (dr_fills rows) = map int [0..<length (dr_fills rows)]
    \<and> map (la_liquidation_id \<circ> snd) (dr_liquidations rows) = map int [0..<length (dr_liquidations rows)]
    \<and> order_rows_ok (dr_fills rows) (dr_orders rows) \<and> fill_rows_ok (dr_fills rows) (dr_orders rows)"
proof -
  let ?rows = "sr_rows res"
  have inv: "rows_inv ?rows" by (rule run_scenario_parts(3) [OF assms])
  then have ids: "map (so_simulated_order_id \<circ> snd) (dr_orders ?rows) = [0..dr_next_order_id ?rows - 1]"
    by (simp add: rows_inv_def)
  have "0 \<le> dr_next_order_id ?rows" using inv by (simp add: rows_inv_def)
  with arg_cong [OF ids, of length] have "dr_next_order_id ?rows = int (length (dr_orders ?rows))" by simp
  with ids have "map (so_simulated_order_id \<circ> snd) (dr_orders ?rows) = map int [0..<length (dr_orders ?rows)]"
    by (simp add: upto_numbers)
  then show ?thesis using inv by (simp add: rows_inv_def Let_def)
qed

text \<open>
  C39: the metrics of a scenario are the totals of its rows: counts and quantities of fills and
  liquidations, cash, fees and turnover are sums over the rows, and adverse selection sums the
  markouts of the fills that have one. On every date the fills and liquidations of each symbol
  cancel, every daily row is settled, reconciled and without inventory, and the marked profit
  equals the cash. When no date repeats, the daily rows are those of the days in order, each with
  the cash of its date's rows as its profit, and the drawdown is the largest fall of the curve
  that adds to each equity row the cash of all the days before its own.
\<close>

theorem scenario_metrics_exact:
  assumes "run_scenario m days config calibration scenario strategy_name weight experiment_id model_name = Inr res"
  shows "let x = sr_metrics res; fills = dr_fills (sr_rows res); ls = map snd (dr_liquidations (sr_rows res));
         adverse = List.map_filter fr_adverse_selection_100ms fills in
      sx_passive_fill_count x = int (length fills) \<and> sx_passive_fill_quantity x = sum_list (map fr_quantity fills)
    \<and> sx_liquidation_count x = int (length ls) \<and> sx_liquidation_quantity x = sum_list (map la_quantity ls)
    \<and> sx_gross_cash x = sum_list (map fr_cash_delta_microusd fills) + sum_list (map la_cash_delta_microusd ls)
    \<and> sx_maker_fee x = sum_list (map fr_fee_microusd fills) \<and> sx_taker_fee x = sum_list (map la_fee_microusd ls)
    \<and> sx_signed_fee x = sx_maker_fee x + sx_taker_fee x
    \<and> sx_cash x = sx_gross_cash x - sx_signed_fee x \<and> sx_marked_pnl x = sx_cash x
    \<and> sx_turnover x = sum_list (map (\<lambda>r. fr_price4 r * fr_quantity r * 100) fills)
        + sum_list (map (\<lambda>l. la_price4 l * la_quantity l * 100) ls)
    \<and> sx_reconciled x \<and> sx_settled x \<and> sx_trading_days x = int (length days)
    \<and> (\<forall>date k. net_position (sr_rows res) date k = 0)
    \<and> (\<forall>d\<in>set (dr_daily (sr_rows res)). am_settled (dm_accounting d) \<and> am_reconciled (dm_accounting d)
         \<and> flat_inventories (dm_accounting d))
    \<and> map dm_trading_date (dr_daily (sr_rows res)) = map dy_trading_date days
    \<and> (distinct (map dy_trading_date days) \<longrightarrow>
         map (am_marked_pnl \<circ> dm_accounting) (dr_daily (sr_rows res)) = map (net_cash (sr_rows res)) (map dy_trading_date days)
       \<and> is_max_drawdown (profit_curve (map dy_trading_date days) (sr_rows res)) (tm_max_drawdown (sx_path x)))
    \<and> tm_adverse_selection_100ms (sx_path x) = (if adverse = [] then None else Some (sum_list adverse))
    \<and> tm_adverse_selection_observation_count (sx_path x) = int (length adverse)
    \<and> tm_adverse_selection_eligible_fill_count (sx_path x) = int (length fills)"
proof -
  let ?rows = "sr_rows res" and ?x = "sr_metrics res"
  let ?adverse = "map fr_adverse_selection_100ms (dr_fills ?rows)"
  have totals: "totals_ok (dr_fills ?rows) (dr_liquidations ?rows) (dr_daily ?rows)"
    using run_scenario_parts(3) [OF assms] by (simp add: rows_inv_def)
  note T = totals [unfolded totals_ok_def Let_def]
  note dates = run_scenario_dates [OF assms]
  have days: "length (dr_daily ?rows) = length days" using arg_cong [OF dates, of length] by simp
  note agg = run_scenario_parts(2) [OF assms]
  note path = temporal_metrics_exact [OF aggregate_metrics_Inr(1) [OF agg]]
  have observed: "map the (filter (\<lambda>a. a \<noteq> None) ?adverse) = List.map_filter fr_adverse_selection_100ms (dr_fills ?rows)"
    "length (filter (\<lambda>a. a \<noteq> None) ?adverse) = length (List.map_filter fr_adverse_selection_100ms (dr_fills ?rows))"
    "(\<forall>a\<in>set ?adverse. a = None) \<longleftrightarrow> List.map_filter fr_adverse_selection_100ms (dr_fills ?rows) = []"
    by (auto simp: map_filter_def filter_map comp_def filter_empty_conv)
  note sums = aggregate_metrics_Inr(2-) [OF agg]
  have flat: "\<forall>date k. net_position ?rows date k = 0"
    and curve: "distinct (map dy_trading_date days) \<longrightarrow>
      map (am_marked_pnl \<circ> dm_accounting) (dr_daily ?rows) = map (net_cash ?rows) (map dy_trading_date days)
    \<and> is_max_drawdown (profit_curve (map dy_trading_date days) ?rows) (tm_max_drawdown (sx_path ?x))"
    using run_scenario_dated [OF assms, unfolded dated_inv_def Let_def] conjunct1 [OF path] by metis+
  show ?thesis
    unfolding Let_def sums
  proof (intro conjI)
    show "distinct (map dy_trading_date days) \<longrightarrow>
      map (am_marked_pnl \<circ> dm_accounting) (dr_daily ?rows) = map (net_cash ?rows) (map dy_trading_date days)
    \<and> is_max_drawdown (profit_curve (map dy_trading_date days) ?rows) (tm_max_drawdown (sx_path ?x))" by (rule curve)
    show "\<forall>date k. net_position ?rows date k = 0" by (rule flat)
  qed (use T path dates in \<open>unfold observed, simp_all add: days list_all_iff\<close>)
qed

text \<open>
  C40: every fill is marked out against the quotes of its own day. The future midpoint of a fill
  row is that of the first in-session quote of its symbol at least 100 ms after the fill, and the
  adverse selection is the loss of the filled quantity against it; a fill without such a quote
  has neither.
\<close>

theorem markouts_exact:
  assumes "run_scenario m days config calibration scenario strategy_name weight experiment_id model_name = Inr res"
    "r \<in> set (dr_fills (sr_rows res))"
  shows "\<exists>day\<in>set days. fill_marked day r"
  using run_scenario_marked [OF assms] .

section \<open>A run with a fill\<close>

text \<open>
  Two equal days. The strategy quotes both sides at the second event; the bid joins five shares
  that the third event executes, and the fifth event trades through it.
\<close>

definition scenario_cell :: "int option \<Rightarrow> pyval" where
  "scenario_cell v = (case v of None \<Rightarrow> PyNone | Some i \<Rightarrow> PyInt i)"

definition scenario_event ::
  "bool \<Rightarrow> int \<Rightarrow> int \<Rightarrow> event_kind \<Rightarrow> int \<Rightarrow> int option \<Rightarrow> int \<Rightarrow> int \<Rightarrow> int \<Rightarrow> int \<Rightarrow> pyval row" where
  "scenario_event decides i t kind pr sr side price quantity remaining = [
     (''message_index'', PyInt i), (''timestamp_ns'', PyInt t), (''symbol_id'', PyInt 1), (''event_kind'', PyKind kind),
     (''primary_reference'', PyInt pr), (''secondary_reference'', scenario_cell sr), (''side'', PyInt side),
     (''price4'', PyInt price), (''quantity'', PyInt quantity), (''remaining_quantity'', PyInt remaining),
     (''execution_price4'', PyNone), (''in_session'', PyBool decides)]"

definition scenario_snapshot :: "int \<Rightarrow> pyval row" where
  "scenario_snapshot i = [(''symbol_id'', PyInt 1), (''message_index'', PyInt i),
     (''bid_price4_1'', PyInt 100), (''ask_price4_1'', PyInt 300)]"

definition scenario_events :: "pyval row list" where
  "scenario_events = [
     scenario_event True 1 0 ADD 11 None 1 100 5 5,
     scenario_event True 2 1000000000 ADD 12 None (-1) 300 5 5,
     scenario_event False 3 1000000005 EXECUTE 11 (Some 900) 1 100 5 0,
     scenario_event False 4 1000000006 ADD 13 None 1 100 7 7,
     scenario_event False 5 1000000007 EXECUTE 13 (Some 901) 1 100 7 0,
     scenario_event False 6 2000000000 ADD 14 None 1 100 5 5]"

definition scenario_day :: simulation_day_input where
  "scenario_day = \<lparr>dy_trading_date = (2020, 1, 3), dy_session_start_ns = 0, dy_session_end_ns = 10000000000,
     dy_symbols = [\<lparr>ys_symbol = ''A'', ys_symbol_id = 1, ys_tick_size4 = 100\<rparr>],
     dy_events = scenario_events, dy_snapshots = map scenario_snapshot [1, 2, 6], dy_predictions = []\<rparr>"

definition scenario_days :: "simulation_day_input list" where
  "scenario_days = [scenario_day, scenario_day\<lparr>dy_trading_date := (2020, 1, 6)\<rparr>]"

definition sample_scenario :: execution_scenario where
  "sample_scenario = \<lparr>xs_scenario_id = ''latency-0-maker--2000'', xs_submission_latency_ns = 0,
     xs_cancellation_latency_ns = 0, xs_maker_fee = -2000, xs_taker_fee = 3000\<rparr>"

definition scenario_run :: "scenario_result result" where
  "scenario_run = run_scenario quote_libm scenario_days \<lparr>sg_strategy = sample_config, sg_max_queue_anomalies = 0\<rparr>
     sample_calibration sample_scenario BASELINE_NAME (Some 0) None ''''"

lemma scenario_run_ok:
  "case scenario_run of Inl _ \<Rightarrow> False
   | Inr r \<Rightarrow> map fr_fill_id (dr_fills (sr_rows r)) = [0, 1] \<and> map fr_quantity (dr_fills (sr_rows r)) = [7, 7]
       \<and> map (so_remaining_quantity \<circ> snd) (dr_orders (sr_rows r)) = [3, 10, 3, 10]
       \<and> sx_cash (sr_metrics r) = -14000 \<and> map fr_future_mid2 (dr_fills (sr_rows r)) = [Some 400, Some 400]
       \<and> profit_curve [(2020, 1, 3), (2020, 1, 6)] (sr_rows r)
           = [0, 0, 0, 0, 84000, 84000, -7000, -7000, -7000, -7000, -7000, 77000, 77000, -14000]
       \<and> tm_max_drawdown (sx_path (sr_metrics r)) = 98000"
  by code_simp

theorem orders_and_fills_reconcile_witness:
  "\<exists>r. scenario_run = Inr r \<and> length (dr_orders (sr_rows r)) = 4 \<and> length (dr_fills (sr_rows r)) = 2
     \<and> order_rows_ok (dr_fills (sr_rows r)) (dr_orders (sr_rows r))"
proof -
  obtain r where r: "scenario_run = Inr r" "map fr_fill_id (dr_fills (sr_rows r)) = [0, 1]"
    "map (so_remaining_quantity \<circ> snd) (dr_orders (sr_rows r)) = [3, 10, 3, 10]"
    using scenario_run_ok by (auto split: sum.splits)
  have "length (dr_fills (sr_rows r)) = 2" "length (dr_orders (sr_rows r)) = 4"
    using r(2,3) [THEN arg_cong, of length] by simp_all
  with orders_and_fills_reconcile [OF r(1) [unfolded scenario_run_def]] r(1) show ?thesis by (auto simp: Let_def)
qed

theorem scenario_metrics_exact_witness:
  "\<exists>r. scenario_run = Inr r \<and> sx_marked_pnl (sr_metrics r) = -14000 \<and> sx_trading_days (sr_metrics r) = 2
     \<and> sx_passive_fill_quantity (sr_metrics r) = 14 \<and> net_position (sr_rows r) (2020, 1, 6) 1 = 0
     \<and> is_max_drawdown [0, 0, 0, 0, 84000, 84000, -7000, -7000, -7000, -7000, -7000, 77000, 77000, -14000] 98000"
proof -
  obtain r where r: "scenario_run = Inr r" "sx_cash (sr_metrics r) = -14000" "map fr_quantity (dr_fills (sr_rows r)) = [7, 7]"
    "profit_curve [(2020, 1, 3), (2020, 1, 6)] (sr_rows r)
       = [0, 0, 0, 0, 84000, 84000, -7000, -7000, -7000, -7000, -7000, 77000, 77000, -14000]"
    "tm_max_drawdown (sx_path (sr_metrics r)) = 98000"
    using scenario_run_ok by (auto split: sum.splits)
  have dates: "map dy_trading_date scenario_days = [(2020, 1, 3), (2020, 1, 6)]"
    by (simp add: scenario_days_def scenario_day_def)
  have len: "length scenario_days = 2" by (simp add: scenario_days_def)
  from scenario_metrics_exact [OF r(1) [unfolded scenario_run_def], unfolded dates len] r show ?thesis
    by (intro exI [of _ r]) (simp add: Let_def)
qed

theorem markouts_exact_witness:
  "\<exists>r f. scenario_run = Inr r \<and> f \<in> set (dr_fills (sr_rows r)) \<and> fr_future_mid2 f = Some 400
     \<and> (\<exists>day\<in>set scenario_days. fill_marked day f)"
proof -
  obtain r where r: "scenario_run = Inr r" "map fr_future_mid2 (dr_fills (sr_rows r)) = [Some 400, Some 400]"
    using scenario_run_ok by (auto split: sum.splits)
  then have "Some 400 \<in> set (map fr_future_mid2 (dr_fills (sr_rows r)))" by simp
  then obtain f where f: "f \<in> set (dr_fills (sr_rows r))" "fr_future_mid2 f = Some 400" by auto
  from markouts_exact [OF r(1) [unfolded scenario_run_def] f(1)] r(1) f show ?thesis by auto
qed

end
