(* ===== verification/Spec2Isabelle.thy ===== *)
theory Spec2Isabelle
  imports Queue_Properties Settlement Metrics Interchange_Properties Prediction_Properties Split_Properties
    Feature_Properties Calibration_Properties Quoting_Properties Scenario_Properties
begin

text \<open>
  ITCH-Lab's Python research package, \<open>src/python/src/itchlab_research/\<close>, reads the files that the
  C++ replay of Nasdaq's ITCH feed writes, turns them into data sets, and simulates market making
  on them. Its core is modelled here: what decides whether a file is accepted, which rows a data
  set holds, what a strategy quotes, which simulated orders fill, and what the account says.

  \<^bold>\<open>The program's parts and how they interact.\<close> An interchange file is decoded record by record
  (\<open>interchange/\<close>) and converted, symbol by symbol, to columns (\<open>conversion/\<close>). Features and
  labels are computed from the rows of a day and symbol and joined into a data set partitioned by
  whole days (\<open>datasets/\<close>). The simulator (\<open>simulation/\<close>) feeds the same events, in order, to a
  queue model that keeps the visible book and the exact quantity ahead of each simulated order; the
  queue model drives an order state machine, whose submissions and cancellations take effect
  through a latency scheduler; fills go to an accounting ledger, and a settlement closes the day.
  A strategy (\<open>strategies/\<close>) observes quotes and proposes one passive quote per side, from a
  volatility estimate, a calibrated intensity, the inventory and a causal prediction. The runner
  composes all of these for one strategy and execution scenario over ordered days.

  \<^bold>\<open>Which theory models what.\<close>
  \<^item> \<open>Common\<close>: the prelude. Error codes of \<open>errors.py\<close>; results, the state and exception monad,
    checked loops, dictionaries; the contracts shared by several components, as locales.
  \<^item> \<open>Orders\<close> (\<open>simulation/order.py\<close>), \<open>Heapq\<close> (the part of \<open>heapq\<close> in use), \<open>Scheduler\<close>
    (\<open>simulation/scheduler.py\<close>), \<open>State_Machine\<close> with \<open>Machine_Invariant\<close> and \<open>Machine_Properties\<close>
    (\<open>simulation/state_machine.py\<close>).
  \<^item> \<open>Market_Events\<close> (\<open>simulation/market_events.py\<close>), \<open>Queue_Model\<close> with \<open>Visible_Book\<close>,
    \<open>Queue_Invariant\<close>, \<open>Queue_Events\<close> and \<open>Queue_Properties\<close> (\<open>simulation/queue_model.py\<close>).
  \<^item> \<open>Accounting\<close> with \<open>Ledger_Invariant\<close> and \<open>Ledger_Properties\<close> (\<open>simulation/accounting.py\<close>),
    \<open>Settlement\<close> (\<open>simulation/liquidation.py\<close>, \<open>simulation/risk_limits.py\<close>), \<open>Metrics\<close>
    (\<open>simulation/metrics.py\<close>).
  \<^item> \<open>Interchange_Codec\<close>, \<open>Interchange_Reader\<close> with \<open>Byte_Layout\<close>, \<open>Event_Codec\<close>, \<open>Snapshot_Codec\<close>,
    \<open>Chunked_Reading\<close>, \<open>Reader_Properties\<close> (\<open>interchange/models.py\<close>, \<open>interchange/readers.py\<close>);
    \<open>Conversion_Rows\<close>, \<open>Conversion_Properties\<close> (\<open>conversion/service.py\<close>); \<open>Interchange_Properties\<close>.
  \<^item> \<open>Dataset_Rows\<close>, \<open>Labels\<close>, \<open>Label_Properties\<close> (\<open>datasets/labels.py\<close>); \<open>Splits\<close>,
    \<open>Split_Properties\<close> (\<open>datasets/splits.py\<close>); \<open>Feature_Schema\<close>, \<open>Feature_Flow\<close>, \<open>Flow_Invariant\<close>,
    \<open>Flow_Properties\<close>, \<open>Feature_Rows\<close>, \<open>Feature_Properties\<close> (\<open>datasets/features.py\<close>).
  \<^item> \<open>Prediction_Join\<close>, \<open>Prediction_Properties\<close> (\<open>strategies/prediction_join.py\<close>); \<open>Doubles\<close> (Python's
    floats); \<open>Calibration\<close>, \<open>Calibration_Properties\<close> (\<open>strategies/calibration.py\<close>); \<open>Quoting\<close>
    (\<open>strategies/avellaneda_stoikov.py\<close>), \<open>Signal_Quoting\<close> (\<open>strategies/signal_adjusted.py\<close>),
    \<open>Quoting_Properties\<close>.
  \<^item> \<open>Runner\<close> with \<open>Order_Quantities\<close>, \<open>Runner_Invariant\<close> and \<open>Runner_Properties\<close>
    (\<open>simulation/runner.py\<close>, \<open>simulation/models.py\<close>), and \<open>Scenario_Properties\<close>: the composition of
    queue model, ledger, settlement, metrics and strategies into one run over ordered days.

  \<^bold>\<open>How state and operations correspond.\<close> An object is a record with a field per attribute, under a
  prefix of its class. A method that may raise is a function into a sum; one that mutates also
  returns the state, on the error branch too, since a raise leaves behind what was already done.
  A method that works on copies and commits at its end is \<open>commitM\<close> of a function. Dictionaries
  are association lists in insertion order, as Python's are, because loops over them show the
  order. A generator is a function to the list of what it yields and how it ended. Where objects are
  shared and mutated (the contributions of a feature state's execution windows) they live in a
  store and are held by number. Python's integers are unbounded: amounts are \<open>int\<close> with the
  code's own range checks; flag fields and bytes of a file are words of their width.

  \<^bold>\<open>What the lemmas show.\<close>
  \<^item> Scheduling and orders: actions are released exactly once, in order, on the right side of each
    market time; stored orders are well-formed, slots hold one live order, and the log of
    transitions replays against a lifecycle specification to the stored states.
  \<^item> Queue: a processed event is one step of an abstract book; the quantity ahead of each exposed
    order is exactly the visible quantity ahead; nothing rests crossed; a fill needs an empty queue
    and an unused match; the model's internal checks never fail.
  \<^item> Account: snapshots reconcile, positions and cash are those of the accepted trades, the
    inventory limit holds, stale settlement plans are refused, settlement leaves the day flat.
  \<^item> Files: decoding is inverse to a canonical encoding, on exactly the valid records; reading ends,
    does not depend on the chunk size, and completes only on authentic, complete, ordered files;
    conversion keeps every row and its order per symbol.
  \<^item> Data sets: labels are the future moves, rolling windows hold the unbroken executions of their
    last buckets, clock windows count exactly the events inside them, a feature row looks at no
    later event, conforms to the schema and holds the exact order flow, partitions are chronological,
    joined rows and counts are determined by the streams.
  \<^item> Strategies: a selection is the latest prediction at or before the decision, whatever was
    selected before; the calibration is that of the accepted training observations; the volatility
    is that of the whole quote history in the window; every proposed quote rests passively on the
    tick grid within the limit; the signal is bounded, and without weight it changes nothing.
  \<^item> Runs: orders, fills and liquidations of a whole scenario are numbered without gaps, every order
    lost exactly what its fill rows say, the metrics are the totals of the rows, every day ends
    flat, and every fill is marked out at the first quote 100 ms later.

  \<^bold>\<open>Termination and bounds.\<close> No definition uses fuel. Loops are structural recursion over a list, or
  recursion with a decreasing measure. Only the generator of batches is a partial function, since
  it loops while the file answers; that it ends for every file and chunk size is a property.

  \<^bold>\<open>Parameters.\<close> The digest \<open>sha256\<close>, the Arrow encoder, \<open>date.fromisoformat\<close>, the file system's
  answers, and the C library's \<open>log\<close>, \<open>log1p\<close>, \<open>sqrt\<close> and square are arguments. Floats are exact
  rationals rounded to the nearest double after each operation, see \<open>Doubles\<close>; no property assumes
  anything of the library functions.

  \<^bold>\<open>Not modelled.\<close> The command line (\<open>cli.py\<close>, \<open>doctor.py\<close>), reporting, and the services that
  lock, write and publish files (\<open>*/service.py\<close> apart from the record batches of conversion) are I/O
  around the modelled parts. The learners of \<open>models/\<close> and the class metrics call scikit-learn and
  NumPy. \<open>config.py\<close> and \<open>canonical_json.py\<close> parse JSON; only the configuration records that the
  modelled parts check are here.
  The C++ part of the repository is not Python and not modelled.
\<close>

end
